(* ===== verification/Js_Prelude.thy ===== *)
theory Js_Prelude
  imports Complex_Main "HOL-Library.AList" "HOL-Library.Multiset"
begin

text \<open>
  Shared vocabulary of the development: the JavaScript library operations the modelled code
  uses (string trimming, splitting, joining and decimal printing; first-occurrence
  de-duplication; insertion-ordered objects), the lemma collections the component theories
  add to, and the two interface locales every component instantiates.

  A JavaScript string is a \<open>string\<close> whose characters are the bytes of its UTF-8 encoding,
  so that percent encoding (which works on UTF-8 bytes) is modelled byte for byte.
  White space is the ASCII part of the class \<open>\s\<close>.
\<close>

named_theorems js_string \<open>facts about string operations\<close>
named_theorems js_list \<open>facts about list operations\<close>

section \<open>Strings\<close>

definition js_startsWith :: "string \<Rightarrow> string \<Rightarrow> bool" where
  "js_startsWith s p = (take (length p) s = p)"

definition js_isSpace :: "char \<Rightarrow> bool" where
  "js_isSpace c = (of_char c \<in> {9, 10, 11, 12, 13, 32 :: nat})"

definition js_trim :: "string \<Rightarrow> string" where
  "js_trim s = rev (dropWhile js_isSpace (rev (dropWhile js_isSpace s)))"

fun js_split :: "char \<Rightarrow> string \<Rightarrow> string list" where
  "js_split c [] = [[]]"
| "js_split c (x # xs) =
     (if x = c then [] # js_split c xs
      else (case js_split c xs of [] \<Rightarrow> [[x]] | p # ps \<Rightarrow> (x # p) # ps))"

fun js_join :: "string \<Rightarrow> string list \<Rightarrow> string" where
  "js_join sep [] = []"
| "js_join sep [p] = p"
| "js_join sep (p # q # ps) = p @ sep @ js_join sep (q # ps)"

lemma js_startsWith_append [js_string, simp]: "js_startsWith (p @ s) p"
  by (simp add: js_startsWith_def)

lemma js_startsWith_iff [js_string]: "js_startsWith s p \<longleftrightarrow> (\<exists>t. s = p @ t)"
  by (metis append_eq_conv_conj js_startsWith_def)

lemma js_split_nonempty [js_string, simp]: "js_split c s \<noteq> []"
  by (induction s) (auto split: list.splits)

lemma js_split_free [js_string]: "c \<notin> set s \<Longrightarrow> js_split c s = [s]"
  by (induction s) auto

lemma js_split_append [js_string]:
  "c \<notin> set p \<Longrightarrow> js_split c (p @ c # s) = p # js_split c s"
  by (induction p) auto

lemma js_split_join [js_string]:
  "ps \<noteq> [] \<Longrightarrow> (\<forall>p \<in> set ps. c \<notin> set p) \<Longrightarrow> js_split c (js_join [c] ps) = ps"
  by (induction "[c]" ps rule: js_join.induct) (auto simp: js_split_free js_split_append)

lemma js_trim_free [js_string]:
  assumes "\<forall>x \<in> set s. \<not> js_isSpace x"
  shows "js_trim s = s"
proof -
  have *: "dropWhile js_isSpace t = t" if "\<forall>x \<in> set t. \<not> js_isSpace x" for t
    using that by (simp add: dropWhile_eq_self_iff)
  show ?thesis using assms by (simp add: js_trim_def *)
qed

lemma js_trim_Nil [js_string, simp]: "js_trim [] = []"
  by (simp add: js_trim_def)

lemma dropWhile_fixed: "s = [] \<or> \<not> P (hd s) \<Longrightarrow> dropWhile P s = s"
  by (cases s) auto

lemma js_trim_idem [js_string, simp]: "js_trim (js_trim s) = js_trim s"
proof (cases "js_trim s = []")
  case True
  then show ?thesis by simp
next
  case False
  define u where "u = dropWhile js_isSpace s"
  define v where "v = dropWhile js_isSpace (rev u)"
  have t: "js_trim s = rev v" by (simp add: js_trim_def u_def v_def)
  with False have v: "v \<noteq> []" by simp
  obtain w where w: "rev u = w @ v" unfolding v_def by (metis takeWhile_dropWhile_id)
  then have "u = rev v @ rev w" by (metis rev_append rev_rev_ident)
  with v have "hd (rev v) = hd u" "u \<noteq> []" by auto
  then have "\<not> js_isSpace (hd (rev v))" unfolding u_def by (metis hd_dropWhile)
  then have 1: "dropWhile js_isSpace (rev v) = rev v" by (auto intro: dropWhile_fixed)
  have "\<not> js_isSpace (hd v)" using v unfolding v_def by (metis hd_dropWhile)
  then have "dropWhile js_isSpace v = v" by (auto intro: dropWhile_fixed)
  with 1 have "js_trim (rev v) = rev v" by (simp add: js_trim_def)
  then show ?thesis by (simp only: t)
qed

subsection \<open>Decimal numerals\<close>

definition digit_char :: "nat \<Rightarrow> char" where
  "digit_char d = char_of (48 + d)"

definition is_digit :: "char \<Rightarrow> bool" where
  "is_digit c = (48 \<le> (of_char c :: nat) \<and> (of_char c :: nat) \<le> 57)"

definition digit_val :: "char \<Rightarrow> nat" where
  "digit_val c = of_char c - 48"

fun showNat :: "nat \<Rightarrow> string" where
  "showNat n = (if n < 10 then [digit_char n] else showNat (n div 10) @ [digit_char (n mod 10)])"

declare showNat.simps [simp del]

definition readNat :: "string \<Rightarrow> nat" where
  "readNat s = foldl (\<lambda>acc c. 10 * acc + digit_val c) 0 s"

lemma is_digit_digit_char [simp]: "d < 10 \<Longrightarrow> is_digit (digit_char d)"
  by (simp add: is_digit_def digit_char_def)

lemma digit_val_digit_char [simp]: "d < 10 \<Longrightarrow> digit_val (digit_char d) = d"
  by (simp add: digit_val_def digit_char_def)

lemma showNat_digits: "\<forall>c \<in> set (showNat n). is_digit c"
proof (induction n rule: showNat.induct)
  case (1 n)
  then show ?case by (subst showNat.simps) auto
qed

lemma showNat_nonempty [simp]: "showNat n \<noteq> []"
  by (subst showNat.simps) simp

lemma readNat_snoc: "readNat (s @ [c]) = 10 * readNat s + digit_val c"
  by (simp add: readNat_def)

lemma readNat_showNat [simp]: "readNat (showNat n) = n"
proof (induction n rule: showNat.induct)
  case (1 n)
  show ?case
  proof (cases "n < 10")
    case True
    then show ?thesis by (simp add: showNat.simps [of n] readNat_def)
  next
    case False
    with 1 have "readNat (showNat (n div 10)) = n div 10" by simp
    with False show ?thesis by (simp add: showNat.simps [of n] readNat_snoc)
  qed
qed

lemma showNat_inj: "showNat m = showNat n \<Longrightarrow> m = n"
  by (metis readNat_showNat)

text \<open>
  \<open>Number(text)\<close> restricted to its finite results: \<open>None\<close> stands for \<open>NaN\<close> and the
  infinities, which every caller tests away with \<open>Number.isFinite\<close> or \<open>Number.isInteger\<close>.
  Values are exact rationals.
\<close>

definition js_exponent :: "string \<Rightarrow> int option" where
  "js_exponent s =
     (let (neg, ds) = (case s of [] \<Rightarrow> (False, [])
          | c # cs \<Rightarrow> if c = CHR ''-'' then (True, cs) else if c = CHR ''+'' then (False, cs) else (False, s))
      in if ds = [] \<or> \<not> list_all is_digit ds then None
         else Some (if neg then - int (readNat ds) else int (readNat ds)))"

definition js_unsigned_decimal :: "string \<Rightarrow> rat option" where
  "js_unsigned_decimal s =
     (let ip = takeWhile is_digit s; r = dropWhile is_digit s;
          (fp, r2) = (case r of c # r' \<Rightarrow>
              if c = CHR ''.'' then (takeWhile is_digit r', dropWhile is_digit r') else ([], r)
            | [] \<Rightarrow> ([], []));
          mantissa = of_nat (readNat (ip @ fp)) / 10 ^ length fp
      in if ip = [] \<and> fp = [] then None
         else (case r2 of [] \<Rightarrow> Some mantissa
            | c # r3 \<Rightarrow>
                if c = CHR ''e'' \<or> c = CHR ''E''
                then map_option (\<lambda>e. if 0 \<le> e then mantissa * 10 ^ nat e else mantissa / 10 ^ nat (- e))
                       (js_exponent r3)
                else None))"

definition radix_val :: "char \<Rightarrow> nat option" where
  "radix_val c =
     (let n = of_char c :: nat in
      if 48 \<le> n \<and> n \<le> 57 then Some (n - 48)
      else if 97 \<le> n \<and> n \<le> 102 then Some (n - 87)
      else if 65 \<le> n \<and> n \<le> 70 then Some (n - 55) else None)"

fun js_radix :: "nat \<Rightarrow> nat \<Rightarrow> string \<Rightarrow> nat option" where
  "js_radix b acc [] = Some acc"
| "js_radix b acc (c # cs) =
     (case radix_val c of None \<Rightarrow> None
      | Some d \<Rightarrow> if d < b then js_radix b (b * acc + d) cs else None)"

definition js_Number :: "string \<Rightarrow> rat option" where
  "js_Number text =
     (case js_trim text of [] \<Rightarrow> Some 0
      | c # cs \<Rightarrow>
          if c = CHR ''-'' then map_option uminus (js_unsigned_decimal cs)
          else if c = CHR ''+'' then js_unsigned_decimal cs
          else (case cs of d # ds \<Rightarrow>
              if c = CHR ''0'' \<and> d \<in> {CHR ''x'', CHR ''X''} \<and> ds \<noteq> [] then map_option of_nat (js_radix 16 0 ds)
              else if c = CHR ''0'' \<and> d \<in> {CHR ''o'', CHR ''O''} \<and> ds \<noteq> [] then map_option of_nat (js_radix 8 0 ds)
              else if c = CHR ''0'' \<and> d \<in> {CHR ''b'', CHR ''B''} \<and> ds \<noteq> [] then map_option of_nat (js_radix 2 0 ds)
              else js_unsigned_decimal (c # cs)
            | [] \<Rightarrow> js_unsigned_decimal [c]))"

section \<open>Lists\<close>

text \<open>\<open>while (used.has(n)) n += 1\<close>: the least number from \<open>n\<close> on that is not used.\<close>

function next_free :: "nat list \<Rightarrow> nat \<Rightarrow> nat" where
  "next_free used n = (if n \<in> set used then next_free used (Suc n) else n)"
  by pat_completeness auto
termination
proof (relation "measure (\<lambda>(used, n). card {x \<in> set used. n \<le> x})")
  fix used :: "nat list" and n
  assume n: "n \<in> set used"
  have "{x \<in> set used. Suc n \<le> x} \<subseteq> {x \<in> set used. n \<le> x} - {n}" by auto
  with n have "{x \<in> set used. Suc n \<le> x} \<subset> {x \<in> set used. n \<le> x}" by blast
  then have "card {x \<in> set used. Suc n \<le> x} < card {x \<in> set used. n \<le> x}"
    by (intro psubset_card_mono) auto
  then show "((used, Suc n), (used, n)) \<in> measure (\<lambda>(used, n). card {x \<in> set used. n \<le> x})"
    by simp
qed simp

declare next_free.simps [simp del]

lemma next_free_spec:
  "next_free used n \<notin> set used \<and> n \<le> next_free used n \<and>
   (\<forall>m. n \<le> m \<and> m < next_free used n \<longrightarrow> m \<in> set used)"
proof (induction used n rule: next_free.induct)
  case (1 used n)
  show ?case
  proof (cases "n \<in> set used")
    case True
    with 1 show ?thesis
      by (simp add: next_free.simps [of used n]) (metis Suc_leD Suc_leI le_neq_implies_less)
  next
    case False
    then have "next_free used n = n" by (simp add: next_free.simps [of used n])
    with False show ?thesis by auto
  qed
qed

text \<open>\<open>if (!result.includes(x)) result.push(x)\<close>, the de-duplicating loop body used
  throughout the client, and the loop itself.\<close>

definition push_new :: "'a list \<Rightarrow> 'a \<Rightarrow> 'a list" where
  "push_new result x = (if x \<in> set result then result else result @ [x])"

definition dedupe :: "'a list \<Rightarrow> 'a list" where
  "dedupe xs = foldl push_new [] xs"

lemma set_foldl_push_new [js_list, simp]: "set (foldl push_new r xs) = set r \<union> set xs"
  by (induction xs arbitrary: r) (auto simp: push_new_def)

lemma distinct_foldl_push_new [js_list, simp]:
  "distinct (foldl push_new r xs) \<longleftrightarrow> distinct r"
  by (induction xs arbitrary: r) (auto simp: push_new_def)

lemma set_dedupe [js_list, simp]: "set (dedupe xs) = set xs"
  by (simp add: dedupe_def)

lemma distinct_dedupe [js_list, simp]: "distinct (dedupe xs)"
  by (simp add: dedupe_def)

lemma foldl_push_new_distinct:
  "distinct xs \<Longrightarrow> set r \<inter> set xs = {} \<Longrightarrow> foldl push_new r xs = r @ xs"
  by (induction xs arbitrary: r) (auto simp: push_new_def)

lemma dedupe_id [js_list]: "distinct xs \<Longrightarrow> dedupe xs = xs"
  by (simp add: dedupe_def foldl_push_new_distinct)

lemma foldl_push_new_append:
  "foldl push_new r (xs @ ys) = foldl push_new (foldl push_new r xs) ys"
  by simp

text \<open>\<open>xs[0] || null\<close> and \<open>xs.at(-1)\<close>.\<close>

fun first_or_none :: "'a list \<Rightarrow> 'a option" where
  "first_or_none [] = None"
| "first_or_none (x # xs) = Some x"

definition last_or_none :: "'a list \<Rightarrow> 'a option" where
  "last_or_none xs = (if xs = [] then None else Some (last xs))"

lemma first_or_none_mem: "first_or_none xs = Some x \<Longrightarrow> x \<in> set xs"
  by (cases xs) auto

lemma first_or_none_None [simp]: "first_or_none xs = None \<longleftrightarrow> xs = []"
  by (cases xs) auto

text \<open>\<open>.filter(Boolean)\<close> over nullable values.\<close>

fun somes :: "'a option list \<Rightarrow> 'a list" where
  "somes [] = []"
| "somes (None # xs) = somes xs"
| "somes (Some x # xs) = x # somes xs"

lemma set_somes [simp]: "set (somes xs) = {x. Some x \<in> set xs}"
  by (induction xs rule: somes.induct) auto

section \<open>Insertion-ordered objects\<close>

text \<open>
  A JavaScript object used as a dictionary is an association list in insertion order:
  assigning a present key keeps its place, a new key goes last (\<open>AList.update\<close>).
\<close>

lemma delete_absent: "k \<notin> fst ` set al \<Longrightarrow> AList.delete k al = al"
  by (induction al) (auto simp: AList.delete_eq)

lemma deleted_key: "k \<notin> set (map fst (AList.delete k al))"
  by (simp add: delete_keys del: set_map)

lemma map_of_AList_update [simp]: "map_of (AList.update k v al) = (map_of al)(k \<mapsto> v)"
  by (simp add: update_conv')

lemma map_of_AList_delete [simp]: "map_of (AList.delete k al) = (map_of al)(k := None)"
  by (simp add: delete_conv')

section \<open>Interfaces\<close>

text \<open>
  A state machine given by its step relation, with an invariant; and such a machine with a
  quantity that never decreases, as the generation and epoch counters of the client.
\<close>

locale invariant_machine =
  fixes step :: "'s \<Rightarrow> 's \<Rightarrow> bool"
    and inv :: "'s \<Rightarrow> bool"
  assumes inv_step: "step s s' \<Longrightarrow> inv s \<Longrightarrow> inv s'"
begin

lemma inv_reach: "step\<^sup>*\<^sup>* s s' \<Longrightarrow> inv s \<Longrightarrow> inv s'"
  by (induction rule: rtranclp_induct) (auto intro: inv_step)

lemma always: "step\<^sup>*\<^sup>* s s' \<Longrightarrow> inv s \<Longrightarrow> (\<And>t. inv t \<Longrightarrow> P t) \<Longrightarrow> P s'"
  by (blast dest: inv_reach)

end

locale counting_machine = invariant_machine +
  fixes tally :: "'s \<Rightarrow> nat"
  assumes tally_step: "step s s' \<Longrightarrow> inv s \<Longrightarrow> tally s \<le> tally s'"
begin

lemma tally_reach: "step\<^sup>*\<^sup>* s s' \<Longrightarrow> inv s \<Longrightarrow> tally s \<le> tally s'"
proof (induction rule: rtranclp_induct)
  case (step t u)
  then have "inv t" by (blast intro: inv_reach)
  with step have "tally t \<le> tally u" by (blast intro: tally_step)
  with step show ?case by simp
qed simp

end

text \<open>
  A component codec for one position of a delimited text: what it writes never contains a
  delimiter of the surrounding syntax or white space, and reading back what was written
  gives the value.
\<close>

locale delimited_codec =
  fixes enc :: "'a \<Rightarrow> string"
    and dec :: "string \<Rightarrow> 'a option"
    and valid :: "'a \<Rightarrow> bool"
    and delims :: "char set"
  assumes dec_enc: "valid x \<Longrightarrow> dec (enc x) = Some x"
    and enc_free: "valid x \<Longrightarrow> set (enc x) \<inter> delims = {}"
begin

lemma split_encoded:
  assumes "c \<in> delims" "xs \<noteq> []" "\<forall>x \<in> set xs. valid x"
  shows "js_split c (js_join [c] (map enc xs)) = map enc xs"
proof (rule js_split_join)
  show "map enc xs \<noteq> []" using assms by simp
  show "\<forall>p \<in> set (map enc xs). c \<notin> set p"
    using assms enc_free by fastforce
qed

lemma decode_encoded_list:
  assumes "c \<in> delims" "xs \<noteq> []" "\<forall>x \<in> set xs. valid x"
  shows "map dec (js_split c (js_join [c] (map enc xs))) = map Some xs"
  using assms by (simp add: split_encoded dec_enc)

end

end
