(* ===== verification/Uri_Codec.thy ===== *)
theory Uri_Codec
  imports Js_Prelude
begin

text \<open>
  Percent encoding: \<open>encodeURIComponent\<close>, \<open>decodeURIComponent\<close> (with its \<open>URIError\<close> as
  \<open>None\<close>) and the form decoding of \<open>URLSearchParams\<close> on UTF-8 byte strings, and the
  client's wrappers \<open>safeDecodeURIComponent\<close> (\<open>10_core_utils.js\<close>) and
  \<open>readableParamComponent\<close> (\<open>20_layout_state.js\<close>). The main facts are that decoding
  inverts encoding on every well-formed string and that an encoded component is free of the
  delimiters of the layout parameters.
\<close>

section \<open>Bytes\<close>

definition byte :: "char \<Rightarrow> nat" where
  "byte c = of_char c"

lemma byte_less [simp]: "byte c < 256"
  by (simp add: byte_def)

lemma char_of_byte [simp]: "char_of (byte c) = c"
  by (simp add: byte_def)

lemma byte_char_of [simp]: "n < 256 \<Longrightarrow> byte (char_of n) = n"
  by (simp add: byte_def)

lemma byte_div_16 [simp]: "byte c div 16 < 16"
  by (rule less_mult_imp_div_less) simp

definition hex_digit :: "nat \<Rightarrow> char" where
  "hex_digit d = (if d < 10 then char_of (48 + d) else char_of (55 + d))"

definition percent :: "char \<Rightarrow> string" where
  "percent c = [CHR ''%'', hex_digit (byte c div 16), hex_digit (byte c mod 16)]"

lemma radix_val_hex_digit [simp]: "d < 16 \<Longrightarrow> radix_val (hex_digit d) = Some d"
  by (auto simp: radix_val_def hex_digit_def Let_def)

definition uri_unreserved :: "char \<Rightarrow> bool" where
  "uri_unreserved c =
     (let n = byte c in
      (48 \<le> n \<and> n \<le> 57) \<or> (65 \<le> n \<and> n \<le> 90) \<or> (97 \<le> n \<and> n \<le> 122)
      \<or> n \<in> {45, 95, 46, 33, 126, 42, 39, 40, 41})"

text \<open>\<open>- _ . ! ~ * ' ( )\<close> are the unreserved marks; a component that must also be safe inside
  the layout syntax has the last five of them, but \<open>~\<close>, escaped too.\<close>

definition percent_encode :: "(char \<Rightarrow> bool) \<Rightarrow> string \<Rightarrow> string" where
  "percent_encode safe s = concat (map (\<lambda>c. if safe c then [c] else percent c) s)"

definition encodeURIComponent :: "string \<Rightarrow> string" where
  "encodeURIComponent s = percent_encode uri_unreserved s"

definition readable_extra :: "char \<Rightarrow> bool" where
  "readable_extra c = (byte c \<in> {33, 39, 40, 41, 42})"

definition readableParamComponent :: "string \<Rightarrow> string" where
  "readableParamComponent s =
     concat (map (\<lambda>c. if readable_extra c then percent c else [c]) (encodeURIComponent s))"

section \<open>Decoding\<close>

fun percent_byte :: "string \<Rightarrow> (nat \<times> string) option" where
  "percent_byte (p # a # b # rest) =
     (if p \<noteq> CHR ''%'' then None
      else (case (radix_val a, radix_val b) of
              (Some h, Some l) \<Rightarrow> Some (16 * h + l, rest)
            | _ \<Rightarrow> None))"
| "percent_byte _ = None"

lemma percent_byte_length:
  "percent_byte s = Some (n, rest) \<Longrightarrow> length s = length rest + 3"
  by (cases s rule: percent_byte.cases) (auto split: if_splits option.splits)

text \<open>The octets that must follow a leading octet of a multi-byte sequence.\<close>

definition utf8_length :: "nat \<Rightarrow> nat" where
  "utf8_length b = (if b < 128 then 1 else if 194 \<le> b \<and> b \<le> 223 then 2
     else if 224 \<le> b \<and> b \<le> 239 then 3 else if 240 \<le> b \<and> b \<le> 244 then 4 else 0)"

definition utf8_second :: "nat \<Rightarrow> nat \<Rightarrow> bool" where
  "utf8_second b c = (128 \<le> c \<and> c \<le> 191
     \<and> (b = 224 \<longrightarrow> 160 \<le> c) \<and> (b = 237 \<longrightarrow> c \<le> 159)
     \<and> (b = 240 \<longrightarrow> 144 \<le> c) \<and> (b = 244 \<longrightarrow> c \<le> 143))"

definition utf8_cont :: "nat \<Rightarrow> bool" where
  "utf8_cont c = (128 \<le> c \<and> c \<le> 191)"

fun utf8_group :: "nat list \<Rightarrow> bool" where
  "utf8_group [] = False"
| "utf8_group (b # bs) =
     (utf8_length b = Suc (length bs)
      \<and> (case bs of [] \<Rightarrow> True | c # cs \<Rightarrow> utf8_second b c \<and> list_all utf8_cont cs))"

fun take_percent :: "nat \<Rightarrow> string \<Rightarrow> (nat list \<times> string) option" where
  "take_percent 0 s = Some ([], s)"
| "take_percent (Suc k) s =
     (case percent_byte s of None \<Rightarrow> None
      | Some (b, rest) \<Rightarrow> map_option (\<lambda>(bs, r). (b # bs, r)) (take_percent k rest))"

lemma take_percent_length:
  "take_percent k s = Some (bs, rest) \<Longrightarrow> length s = length rest + 3 * k"
  by (induction k arbitrary: s bs rest) (auto split: option.splits dest: percent_byte_length)

function decodeURIComponent :: "string \<Rightarrow> string option" where
  "decodeURIComponent s =
     (case s of [] \<Rightarrow> Some []
      | c # cs \<Rightarrow>
          if c \<noteq> CHR ''%'' then map_option (Cons c) (decodeURIComponent cs)
          else (case percent_byte s of None \<Rightarrow> None
            | Some (b, _) \<Rightarrow>
                if utf8_length b = 0 then None
                else (case take_percent (utf8_length b) s of None \<Rightarrow> None
                  | Some (bs, rest) \<Rightarrow>
                      if utf8_group bs
                      then map_option (append (map char_of bs)) (decodeURIComponent rest)
                      else None)))"
  by pat_completeness auto
termination
  by (relation "measure length") (auto dest: take_percent_length)

declare decodeURIComponent.simps [simp del]

definition safeDecodeURIComponent :: "string \<Rightarrow> string" where
  "safeDecodeURIComponent s = (case decodeURIComponent s of Some t \<Rightarrow> t | None \<Rightarrow> s)"

text \<open>The form decoding a query parameter has been through when \<open>URLSearchParams.get\<close>
  returns it: \<open>+\<close> is a space, a well-formed escape is its byte, anything else is itself.\<close>

function formDecode :: "string \<Rightarrow> string" where
  "formDecode s =
     (case s of [] \<Rightarrow> []
      | c # cs \<Rightarrow>
          if c = CHR ''+'' then CHR '' '' # formDecode cs
          else (case percent_byte s of Some (b, rest) \<Rightarrow> char_of b # formDecode rest
            | None \<Rightarrow> c # formDecode cs))"
  by pat_completeness auto
termination
  by (relation "measure length") (auto dest: percent_byte_length)

declare formDecode.simps [simp del]

section \<open>Decoding inverts encoding\<close>

text \<open>Well-formed strings: concatenations of UTF-8 groups.\<close>

inductive utf8_wf :: "string \<Rightarrow> bool" where
  wf_Nil: "utf8_wf []"
| wf_group: "utf8_group (map byte g) \<Longrightarrow> utf8_wf s \<Longrightarrow> utf8_wf (g @ s)"

lemma utf8_wf_ascii: "(\<forall>c \<in> set s. byte c < 128) \<Longrightarrow> utf8_wf s"
proof (induction s)
  case Nil
  show ?case by (rule wf_Nil)
next
  case (Cons c s)
  then have "utf8_wf ([c] @ s)"
    by (intro wf_group) (auto simp: utf8_length_def)
  then show ?case by simp
qed

definition codec_safe :: "(char \<Rightarrow> bool) \<Rightarrow> bool" where
  "codec_safe safe = (\<forall>c. safe c \<longrightarrow> c \<noteq> CHR ''%'' \<and> byte c < 128)"

lemma percent_byte_percent [simp]: "percent_byte (percent c @ s) = Some (byte c, s)"
by (simp add: percent_def)

lemma percent_encode_Nil [simp]: "percent_encode safe [] = []"
  by (simp add: percent_encode_def)

lemma percent_encode_Cons [simp]:
  "percent_encode safe (c # s) = (if safe c then [c] else percent c) @ percent_encode safe s"
  by (simp add: percent_encode_def)

lemma percent_encode_append [simp]:
  "percent_encode safe (s @ t) = percent_encode safe s @ percent_encode safe t"
  by (simp add: percent_encode_def)

lemma take_percent_encoded:
  assumes "\<forall>c \<in> set g. \<not> safe c"
  shows "take_percent (length g) (percent_encode safe g @ s) = Some (map byte g, s)"
  using assms by (induction g) auto

lemma utf8_group_cases:
  assumes "utf8_group (map byte g)"
  obtains c where "g = [c]" "byte c < 128"
    | "g \<noteq> []" "\<forall>c \<in> set g. 128 \<le> byte c" "utf8_length (byte (hd g)) = length g"
proof (cases g)
  case Nil
  with assms show ?thesis by simp
next
  case (Cons c cs)
  show ?thesis
  proof (cases "byte c < 128")
    case True
    with assms Cons show ?thesis by (intro that(1) [of c]) (auto simp: utf8_length_def)
  next
    case False
    with assms Cons show ?thesis
      by (intro that(2))
        (auto simp: utf8_second_def utf8_cont_def list_all_iff split: list.splits)
  qed
qed

lemma decode_percent_group:
  assumes "utf8_group (map byte g)" "\<forall>c \<in> set g. \<not> safe c"
  shows "decodeURIComponent (percent_encode safe g @ s)
       = map_option (append g) (decodeURIComponent s)"
proof -
  obtain c cs where g: "g = c # cs" using assms(1) by (cases g) auto
  have len: "utf8_length (byte c) = length g" using assms(1) g by simp
  have enc: "percent_encode safe g @ s = percent c @ (percent_encode safe cs @ s)"
    using assms(2) g by simp
  have take: "take_percent (length g) (percent_encode safe g @ s) = Some (map byte g, s)"
    by (rule take_percent_encoded) (fact assms(2))
  have hd: "percent_encode safe g @ s = CHR ''%'' # tl (percent_encode safe g @ s)"
    by (simp add: enc percent_def)
  have pb: "percent_byte (percent_encode safe g @ s) = Some (byte c, percent_encode safe cs @ s)"
    by (simp add: enc)
  have "map char_of (map byte g) = g" by (simp add: comp_def)
  then show ?thesis
    by (subst decodeURIComponent.simps, subst hd)
      (use len g take pb assms(1) in \<open>simp add: hd [symmetric] del: map_map\<close>)
qed

theorem decode_percent_encode:
  assumes "codec_safe safe" "utf8_wf s"
  shows "decodeURIComponent (percent_encode safe s) = Some s"
  using assms(2)
proof (induction rule: utf8_wf.induct)
  case wf_Nil
  show ?case by (subst decodeURIComponent.simps) simp
next
  case (wf_group g s)
  from wf_group.hyps(1) show ?case
  proof (cases rule: utf8_group_cases)
    case (1 c)
    show ?thesis
    proof (cases "safe c")
      case True
      with assms(1) have "c \<noteq> CHR ''%''" by (auto simp: codec_safe_def)
      with True 1 wf_group.IH show ?thesis
        by (simp add: decodeURIComponent.simps [of "c # _"])
    next
      case False
      with 1 have "\<forall>c \<in> set g. \<not> safe c" by simp
      from decode_percent_group [OF wf_group.hyps(1) this] wf_group.IH show ?thesis by simp
    qed
  next
    case 2
    then have "\<forall>c \<in> set g. \<not> safe c" using assms(1) by (force simp: codec_safe_def)
    from decode_percent_group [OF wf_group.hyps(1) this] wf_group.IH show ?thesis by simp
  qed
qed

lemma codec_safe_unreserved: "codec_safe uri_unreserved"
  by (auto simp: codec_safe_def uri_unreserved_def Let_def byte_def)

definition readable_safe :: "char \<Rightarrow> bool" where
  "readable_safe c = (uri_unreserved c \<and> \<not> readable_extra c)"

lemma hex_digit_readable: "d < 16 \<Longrightarrow> readable_safe (hex_digit d)"
  by (auto simp: readable_safe_def uri_unreserved_def readable_extra_def hex_digit_def Let_def)

lemma readableParamComponent_alt: "readableParamComponent s = percent_encode readable_safe s"
proof (induction s)
  case Nil
  show ?case by (simp add: readableParamComponent_def encodeURIComponent_def)
next
  case (Cons c s)
  have digits: "\<not> readable_extra (hex_digit (byte c div 16))" "\<not> readable_extra (hex_digit (byte c mod 16))"
    using hex_digit_readable [of "byte c div 16"] hex_digit_readable [of "byte c mod 16"]
    by (auto simp: readable_safe_def)
  have "\<not> readable_extra CHR ''%''" by (simp add: readable_extra_def byte_def)
  with digits Cons show ?case
    by (auto simp: readableParamComponent_def encodeURIComponent_def percent_def readable_safe_def)
qed

lemma codec_safe_readable: "codec_safe readable_safe"
  using codec_safe_unreserved by (auto simp: codec_safe_def readable_safe_def)

lemma decode_encodeURIComponent: "utf8_wf s \<Longrightarrow> decodeURIComponent (encodeURIComponent s) = Some s"
  by (simp add: encodeURIComponent_def decode_percent_encode codec_safe_unreserved)

lemma decode_readable: "utf8_wf s \<Longrightarrow> decodeURIComponent (readableParamComponent s) = Some s"
  by (simp add: readableParamComponent_alt decode_percent_encode codec_safe_readable)

text \<open>The characters of the layout syntax never occur in an encoded component.\<close>

definition layout_delims :: "char set" where
  "layout_delims = {CHR ''('', CHR '')'', CHR '','', CHR '';'', CHR '':'', CHR ''*'', CHR ''@'', CHR ''+'',
                    CHR ''&'', CHR ''='', CHR ''#'', CHR ''|''} \<union> {c. js_isSpace c}"

lemma readable_chars:
  assumes "c \<in> set (readableParamComponent s)"
  shows "readable_safe c \<or> c = CHR ''%''"
proof -
  have "c \<in> set (percent_encode readable_safe s) \<Longrightarrow> readable_safe c \<or> c = CHR ''%''"
  proof (induction s)
    case (Cons d s)
    then show ?case using Cons hex_digit_readable
      by (auto simp: percent_def split: if_splits)
  qed simp
  with assms show ?thesis by (simp add: readableParamComponent_alt)
qed

lemma readable_free: "set (readableParamComponent s) \<inter> layout_delims = {}"
proof -
  have "\<not> readable_safe c \<and> c \<noteq> CHR ''%''" if "c \<in> layout_delims" for c
    using that
    by (auto simp: layout_delims_def readable_safe_def uri_unreserved_def readable_extra_def
        js_isSpace_def byte_def Let_def)
  with readable_chars show ?thesis by blast
qed

interpretation readable: delimited_codec readableParamComponent decodeURIComponent utf8_wf layout_delims
  by unfold_locales (auto simp: decode_readable readable_free)

section \<open>Form decoding of an encoded component\<close>

lemma formDecode_percent [simp]: "formDecode (percent c @ s) = c # formDecode s"
proof -
  have "percent_byte (percent c @ s) = Some (byte c, s)" by simp
  then show ?thesis
    by (subst formDecode.simps) (simp add: percent_def)
qed

lemma percent_byte_other: "c \<noteq> CHR ''%'' \<Longrightarrow> percent_byte (c # s) = None"
  by (cases "c # s" rule: percent_byte.cases) auto

lemma formDecode_plain:
  "c \<noteq> CHR ''%'' \<Longrightarrow> c \<noteq> CHR ''+'' \<Longrightarrow> formDecode (c # s) = c # formDecode s"
  using percent_byte_other [of c s] by (subst formDecode.simps) simp

text \<open>One decoding undoes the encoding; a component is raw text again after the query has
  been read.\<close>

lemma formDecode_readable_append:
  "formDecode (readableParamComponent s @ t) = s @ formDecode t"
proof (induction s)
  case Nil
  show ?case by (simp add: readableParamComponent_alt)
next
  case (Cons c s)
  have "readable_safe c \<Longrightarrow> c \<noteq> CHR ''%'' \<and> c \<noteq> CHR ''+''"
    using codec_safe_readable
    by (auto simp: codec_safe_def readable_safe_def uri_unreserved_def byte_def Let_def)
  with Cons show ?case
    by (auto simp: readableParamComponent_alt formDecode_plain)
qed

lemma formDecode_Nil [simp]: "formDecode [] = []"
  by (subst formDecode.simps) simp

lemma formDecode_readable: "formDecode (readableParamComponent s) = s"
  using formDecode_readable_append [of s "[]"] by simp

end
