(* ===== verification/Tab_Model.thy ===== *)
theory Tab_Model
  imports Uri_Codec
begin

text \<open>
  Layout items and where they may live: the tab-type table and the pane-role rules of
  \<open>00_bootstrap_state.js\<close>, the viewport modes that select a layout policy, session labels
  (\<open>70_layout_actions.js\<close>) and the resolution of a layout parameter to an item
  (\<open>20_layout_state.js\<close>).

  The globals these functions read are the fields of \<open>env\<close>. Registering a file or a virtual
  item while it is being resolved is not modelled: \<open>layoutItems\<close> is the registry after that,
  and \<open>resolveLayoutItem\<close> is the value the source returns.
\<close>

section \<open>Constants and globals\<close>

type_synonym item = string
type_synonym slot = string

record env =
  sessions :: "string list"
  visibleSessions :: "string list"
  layoutItems :: "item list"
  pinnedTabItems :: "item list"
  viewportWidth :: rat
  viewportHeight :: rat
  coarsePointer :: bool
  tabletViewport :: bool
  cssMinSplitPaneWidth :: rat
  recentSessions :: "string list"
  defaultLayoutSetting :: string
  tmuxPending :: "string list"
  chatMediaUrlValid :: "item \<Rightarrow> bool"

definition infoItemId :: item where "infoItemId = ''__info__''"
definition yoagentItemId :: item where "yoagentItemId = ''__yoagent__''"
definition legacyYosupItemId :: item where "legacyYosupItemId = ''__yosup__''"
definition chatItemId :: item where "chatItemId = ''__chat__''"
definition finderItemId :: item where "finderItemId = ''__finder__''"
definition differItemId :: item where "differItemId = ''__differ__''"
definition tabberItemId :: item where "tabberItemId = ''__tabber__''"
definition searchHistoryItemId :: item where "searchHistoryItemId = ''__search_history__''"
definition prefsItemId :: item where "prefsItemId = ''__prefs__''"
definition debugPaneItemId :: item where "debugPaneItemId = ''__debug__''"

lemmas item_id_defs = infoItemId_def yoagentItemId_def legacyYosupItemId_def chatItemId_def
  finderItemId_def differItemId_def tabberItemId_def searchHistoryItemId_def prefsItemId_def
  debugPaneItemId_def

definition fileExplorerItemIds :: "item list" where
  "fileExplorerItemIds = [finderItemId, differItemId, tabberItemId]"

abbreviation fileExplorerItemId :: item where
  "fileExplorerItemId \<equiv> finderItemId"

definition legacyYoCostItemAliases :: "item list" where
  "legacyYoCostItemAliases = [''cost'', ''yocost'', ''yo!cost'', ''yo-cost'', ''__yocost__'']"

definition isLegacyYoCostItemParam :: "item \<Rightarrow> bool" where
  "isLegacyYoCostItemParam x = (x \<in> set legacyYoCostItemAliases)"

definition isFileExplorerItem :: "item \<Rightarrow> bool" where
  "isFileExplorerItem x = (x \<in> set fileExplorerItemIds)"

definition fileExplorerItemForView :: "string \<Rightarrow> item option" where
  "fileExplorerItemForView normalized =
     (if normalized = ''files'' \<or> normalized = ''finder'' then Some finderItemId
      else if normalized \<in> {''diff'', ''differ'', ''changes''} then Some differItemId
      else if normalized = ''tabber'' then Some tabberItemId
      else None)"

definition isLayoutItem :: "env \<Rightarrow> item \<Rightarrow> bool" where
  "isLayoutItem e x = (x \<in> set (layoutItems e))"

section \<open>Tab types\<close>

datatype placement = GenericOnly | SideAllowed | SideRequired

text \<open>How a type writes its items into a URL: a fixed word or the item itself.\<close>

datatype tab_param = ParamWord string | ParamItem

record tab_type =
  tt_key :: string
  tt_id :: "item option"
  tt_prefixes :: "string list"
  tt_aliases :: "string list"
  tt_exact :: "item list"
  tt_sortRank :: rat
  tt_placement :: placement
  tt_param :: tab_param

definition singleton_type ::
  "string \<Rightarrow> item \<Rightarrow> string list \<Rightarrow> item list \<Rightarrow> rat \<Rightarrow> placement \<Rightarrow> string \<Rightarrow> tab_type" where
  "singleton_type key i aliases extra rank pl word =
     \<lparr>tt_key = key, tt_id = Some i, tt_prefixes = [], tt_aliases = aliases, tt_exact = i # extra,
      tt_sortRank = rank, tt_placement = pl, tt_param = ParamWord word\<rparr>"

definition prefix_type :: "string \<Rightarrow> string list \<Rightarrow> rat \<Rightarrow> tab_type" where
  "prefix_type key prefixes rank =
     \<lparr>tt_key = key, tt_id = None, tt_prefixes = prefixes, tt_aliases = [], tt_exact = [],
      tt_sortRank = rank, tt_placement = GenericOnly, tt_param = ParamItem\<rparr>"

text \<open>The first entry of \<open>tt_prefixes\<close> is the type's \<open>prefix\<close>.\<close>

definition TAB_TYPES :: "tab_type list" where
  "TAB_TYPES =
    [singleton_type ''info'' infoItemId
       [''info'', ''info2'', ''yo-info2'', ''yoinfo2'', infoItemId, ''__info2__''] [''__info2__'']
       0 SideAllowed ''info'',
     singleton_type ''yoagent'' yoagentItemId
       [''yoagent'', ''yo!agent'', ''yo-agent'', ''yosup'', ''yo'', ''sup'', yoagentItemId, legacyYosupItemId]
       [legacyYosupItemId] (1/10) SideAllowed ''yoagent'',
     singleton_type ''chat'' chatItemId
       [''chat'', ''yochat'', ''yo!chat'', ''yo-chat'', chatItemId] [] (2/10) SideAllowed ''chat'',
     prefix_type ''chat-media'' [''chat-media:''] (21/100),
     singleton_type ''finder'' finderItemId [''__files__'', ''files'', ''finder'', finderItemId] []
       (50/100) SideRequired ''finder'',
     singleton_type ''differ'' differItemId
       [''changes'', ''__changes__'', ''diff'', ''differ'', differItemId] [] (51/100) SideRequired ''differ'',
     singleton_type ''tabber'' tabberItemId [''tabber'', tabberItemId] [] (52/100) SideRequired ''tabber'',
     singleton_type ''search-history'' searchHistoryItemId
       [''search'', ''history'', ''run-history'', ''search-history'', searchHistoryItemId] []
       (60/100) GenericOnly ''search-history'',
     singleton_type ''preferences'' prefsItemId [''prefs'', ''preferences'', prefsItemId] []
       (65/100) GenericOnly ''prefs'',
     singleton_type ''debug'' debugPaneItemId [''debug'', ''js-debug'', ''jsdebug'', debugPaneItemId] []
       (70/100) SideAllowed ''debug'',
     prefix_type ''git-diff'' [''gitdiff:''] (73/100),
     prefix_type ''image-viewer'' [''image:''] (74/100),
     prefix_type ''file-editor'' [''file:'', ''filecopy:'', ''filediff:'', ''filehistory:''] (75/100)]"

definition tab_type_match :: "tab_type \<Rightarrow> item \<Rightarrow> bool" where
  "tab_type_match ty x = (x \<in> set (tt_exact ty) \<or> list_ex (js_startsWith x) (tt_prefixes ty))"

definition tabTypeForItem :: "item \<Rightarrow> tab_type option" where
  "tabTypeForItem x = List.find (\<lambda>ty. tab_type_match ty x) TAB_TYPES"

definition tabTypeForParam :: "string \<Rightarrow> tab_type option" where
  "tabTypeForParam text =
     List.find (\<lambda>ty. text \<in> set (tt_aliases ty) \<or> list_ex (js_startsWith text) (tt_prefixes ty)) TAB_TYPES"

fun tabTypeParam :: "tab_param \<Rightarrow> item \<Rightarrow> string" where
  "tabTypeParam (ParamWord w) x = w"
| "tabTypeParam ParamItem x = x"

definition itemParam :: "item \<Rightarrow> string" where
  "itemParam x = (case tabTypeForItem x of Some ty \<Rightarrow> tabTypeParam (tt_param ty) x | None \<Rightarrow> x)"

definition panePlacementForItem :: "item \<Rightarrow> placement" where
  "panePlacementForItem x = (case tabTypeForItem x of Some ty \<Rightarrow> tt_placement ty | None \<Rightarrow> GenericOnly)"

section \<open>Pane roles\<close>

datatype pane_side = SideLeft | SideRight
datatype pane_role = Generic | Side pane_side

definition paneSideValues :: "pane_side list" where
  "paneSideValues = [SideLeft, SideRight]"

definition pane_side_of :: "string \<Rightarrow> pane_side option" where
  "pane_side_of s = (if s = ''left'' then Some SideLeft else if s = ''right'' then Some SideRight else None)"

fun pane_side_word :: "pane_side \<Rightarrow> string" where
  "pane_side_word SideLeft = ''left''"
| "pane_side_word SideRight = ''right''"

text \<open>\<open>paneRoleDefinition(kind, side)\<close> on the words of a stored layout.\<close>

definition paneRoleDefinition :: "string \<Rightarrow> string \<Rightarrow> pane_role" where
  "paneRoleDefinition kind side =
     (if kind = ''side'' then (case pane_side_of side of Some d \<Rightarrow> Side d | None \<Rightarrow> Generic)
      else Generic)"

definition is_side_role :: "pane_role \<Rightarrow> bool" where
  "is_side_role r = (r \<noteq> Generic)"

definition paneRoleAllowsItem :: "env \<Rightarrow> pane_role \<Rightarrow> item \<Rightarrow> bool \<Rightarrow> bool \<Rightarrow> bool" where
  "paneRoleAllowsItem e role x allowRequiredInGeneric allowCandidate =
     (if \<not> isLayoutItem e x \<and> \<not> (allowCandidate \<and> tabTypeForItem x \<noteq> None) then False
      else if is_side_role role then panePlacementForItem x \<noteq> GenericOnly
      else if panePlacementForItem x \<noteq> SideRequired then True
      else allowRequiredInGeneric)"

section \<open>Viewport modes\<close>

definition minSplitPaneWidthPx :: "env \<Rightarrow> rat" where
  "minSplitPaneWidthPx e = (if cssMinSplitPaneWidth e = 0 then 300 else cssMinSplitPaneWidth e)"

definition sidePaneMinimumViewportWidthPx :: "env \<Rightarrow> rat" where
  "sidePaneMinimumViewportWidthPx e = minSplitPaneWidthPx e / (1 / 3)"

definition sidePanesAvailable :: "env \<Rightarrow> bool" where
  "sidePanesAvailable e = (sidePaneMinimumViewportWidthPx e \<le> max 0 (viewportWidth e))"

definition sidePaneConstrainedMode :: "env \<Rightarrow> bool" where
  "sidePaneConstrainedMode e = (\<not> sidePanesAvailable e)"

definition fileExplorerUsesNormalTabMovement :: "env \<Rightarrow> bool" where
  "fileExplorerUsesNormalTabMovement e = (\<not> sidePanesAvailable e)"

definition tabletUsesDesktopLayout :: "env \<Rightarrow> bool" where
  "tabletUsesDesktopLayout e =
     (if \<not> coarsePointer e \<or> \<not> tabletViewport e then False else 900 \<le> max 0 (viewportWidth e))"

definition phoneLikeMobileViewport :: "env \<Rightarrow> bool" where
  "phoneLikeMobileViewport e =
     (if \<not> coarsePointer e \<or> tabletViewport e then False
      else max 0 (viewportWidth e) \<le> 760
         \<or> (max 0 (viewportWidth e) \<le> 960 \<and> max 0 (viewportHeight e) \<le> 520))"

definition mobileSinglePaneMode :: "env \<Rightarrow> bool" where
  "mobileSinglePaneMode e = phoneLikeMobileViewport e"

definition narrowTouchSingleColumnViewport :: "env \<Rightarrow> bool" where
  "narrowTouchSingleColumnViewport e =
     (if \<not> coarsePointer e then False
      else phoneLikeMobileViewport e
         \<or> (tabletViewport e \<and> max 0 (viewportWidth e) < minSplitPaneWidthPx e * 2)
         \<or> (\<not> tabletViewport e \<and> max 0 (viewportWidth e) \<le> 680))"

definition narrowSingleColumnMode :: "env \<Rightarrow> bool" where
  "narrowSingleColumnMode e = narrowTouchSingleColumnViewport e"

text \<open>A phone layout is always a single-column layout.\<close>

lemma mobile_imp_narrow: "mobileSinglePaneMode e \<Longrightarrow> narrowSingleColumnMode e"
  by (auto simp: mobileSinglePaneMode_def narrowSingleColumnMode_def
        narrowTouchSingleColumnViewport_def phoneLikeMobileViewport_def split: if_splits)

section \<open>Session labels\<close>

definition numericSessionName :: "string \<Rightarrow> nat option" where
  "numericSessionName s =
     (if s \<noteq> [] \<and> list_all is_digit s \<and> hd s \<noteq> CHR ''0'' then Some (readNat s) else None)"

record label_state =
  ls_assigned :: "(string \<times> string) list"
  ls_used :: "nat list"
  ls_backfill :: "nat list"
  ls_overflow :: nat

fun numeric_labels :: "string list \<Rightarrow> (string \<times> string) list \<Rightarrow> nat list \<Rightarrow>
    (string \<times> string) list \<times> nat list" where
  "numeric_labels [] assigned used = (assigned, used)"
| "numeric_labels (s # ss) assigned used =
     (case numericSessionName s of
        Some n \<Rightarrow> numeric_labels ss (AList.update s (showNat n) assigned) (n # used)
      | None \<Rightarrow> numeric_labels ss assigned used)"

definition label_backfill :: "nat list \<Rightarrow> nat list" where
  "label_backfill used = filter (\<lambda>v. v \<notin> set used) [9, 8, 7, 6, 5, 4, 3, 2, 1]"

definition label_step :: "label_state \<Rightarrow> string \<Rightarrow> label_state" where
  "label_step st s =
     (if map_of (ls_assigned st) s \<noteq> None then st
      else
        let (candidate, backfill) = (case ls_backfill st of v # vs \<Rightarrow> (v, vs) | [] \<Rightarrow> (ls_overflow st, []));
            label = next_free (ls_used st) candidate
        in \<lparr>ls_assigned = AList.update s (showNat label) (ls_assigned st), ls_used = label # ls_used st,
            ls_backfill = backfill,
            ls_overflow = (if ls_overflow st \<le> label then label + 1 else ls_overflow st)\<rparr>)"

definition sessionLabelAssignments :: "env \<Rightarrow> (string \<times> string) list" where
  "sessionLabelAssignments e =
     (let (assigned, used) = numeric_labels (visibleSessions e) [] []
      in ls_assigned (foldl label_step
           \<lparr>ls_assigned = assigned, ls_used = used, ls_backfill = label_backfill used, ls_overflow = 10\<rparr>
           (visibleSessions e)))"

definition sessionForLabel :: "env \<Rightarrow> string \<Rightarrow> string option" where
  "sessionForLabel e label =
     map_option fst (List.find (\<lambda>(s, l). l = label) (sessionLabelAssignments e))"

definition sessionShortcutLabel :: "env \<Rightarrow> string \<Rightarrow> string" where
  "sessionShortcutLabel e s =
     (case map_of (sessionLabelAssignments e) s of
        Some l \<Rightarrow> l
      | None \<Rightarrow> (case numericSessionName s of Some n \<Rightarrow> showNat n | None \<Rightarrow> s))"

section \<open>Resolving a parameter to an item\<close>

definition normalizeDirectoryPath :: "string \<Rightarrow> string" where
  "normalizeDirectoryPath path =
     (let text = rev (dropWhile (\<lambda>c. c = CHR ''/'') (rev path)) in if text = [] then ''/'' else text)"

definition gitDiffItemPath :: "item \<Rightarrow> string option" where
  "gitDiffItemPath x =
     (if \<not> js_startsWith x ''gitdiff:'' then None
      else let path = safeDecodeURIComponent (drop 8 x)
        in if js_startsWith path ''/'' then Some (normalizeDirectoryPath path) else None)"

text \<open>
  \<open>resolveLayoutItem\<close>: for a file item the registration the source performs returns the
  text itself whichever branch it takes, so the value is the text. \<open>None\<close> is \<open>null\<close>.
\<close>

definition resolveLayoutItem :: "env \<Rightarrow> string \<Rightarrow> item option" where
  "resolveLayoutItem e text =
     (if isLegacyYoCostItemParam text then Some debugPaneItemId
      else if text = ''changes'' \<or> text = ''__changes__'' then Some differItemId
      else
        let ordinary =
          (if text \<in> set (sessions e) then Some text
           else (case js_Number text of
              Some n \<Rightarrow> if of_int \<lfloor>n\<rfloor> = n \<and> 0 < n then sessionForLabel e (showNat (nat \<lfloor>n\<rfloor>)) else Some text
            | None \<Rightarrow> Some text))
        in (case tabTypeForParam text of
              None \<Rightarrow> ordinary
            | Some ty \<Rightarrow>
                if tt_key ty = ''image-viewer'' then Some text
                else if tt_key ty = ''chat-media'' then (if chatMediaUrlValid e text then Some text else None)
                else if tt_key ty = ''git-diff'' then (if gitDiffItemPath text \<noteq> None then Some text else None)
                else if tt_key ty = ''file-editor'' then Some text
                else (case tt_id ty of Some i \<Rightarrow> Some i | None \<Rightarrow> ordinary)))"

definition isTmuxSession :: "env \<Rightarrow> item \<Rightarrow> bool" where
  "isTmuxSession e x = (x \<in> set (sessions e) \<or> x \<in> set (tmuxPending e))"

definition isPinnableTab :: "env \<Rightarrow> item \<Rightarrow> bool" where
  "isPinnableTab e x = (isLayoutItem e x \<and> \<not> isFileExplorerItem x)"

definition tabIsPinned :: "env \<Rightarrow> item \<Rightarrow> bool" where
  "tabIsPinned e x = (x \<in> set (pinnedTabItems e) \<and> isPinnableTab e x)"

text \<open>Resolution is idempotent on the items of singleton types, whatever the sessions.\<close>

lemma resolve_singletons:
  "resolveLayoutItem e finderItemId = Some finderItemId"
  "resolveLayoutItem e differItemId = Some differItemId"
  "resolveLayoutItem e tabberItemId = Some tabberItemId"
  "resolveLayoutItem e infoItemId = Some infoItemId"
  "resolveLayoutItem e debugPaneItemId = Some debugPaneItemId"
  by (simp_all add: resolveLayoutItem_def isLegacyYoCostItemParam_def legacyYoCostItemAliases_def
      tabTypeForParam_def TAB_TYPES_def singleton_type_def prefix_type_def item_id_defs
      js_startsWith_def)

end
