(* ===== verification/Layout_Tree.thy ===== *)
theory Layout_Tree
  imports Tab_Model
begin

text \<open>
  The layout tree of \<open>20_layout_state.js\<close>: leaves name slots, inner nodes split the space
  between exactly two children (every node the code keeps comes from \<open>leafNode\<close> or
  \<open>splitNode\<close>). Percentages are exact rationals. Also the trees of the layout modes, the
  partition of items over panes, and the tree edits of \<open>70_layout_actions.js\<close>.
\<close>

section \<open>Nodes\<close>

datatype split_dir = Row | Column

datatype layout_node = Leaf slot | Split split_dir rat layout_node layout_node

definition defaultSplitPercent :: rat where "defaultSplitPercent = 50"
definition minSplitPercent :: rat where "minSplitPercent = 5"
definition maxSplitPercent :: rat where "maxSplitPercent = 95"
definition sidePaneDefaultWidthPercent :: rat where "sidePaneDefaultWidthPercent = 22"
definition sideMaxViewportFraction :: rat where "sideMaxViewportFraction = 1 / 3"

lemmas pct_defs = defaultSplitPercent_def minSplitPercent_def maxSplitPercent_def
  sidePaneDefaultWidthPercent_def sideMaxViewportFraction_def

text \<open>What a stored or parsed percentage can be: absent (\<open>null\<close>, \<open>undefined\<close>), a finite
  number, or text still to be read as a number.\<close>

datatype pct_value = PctMissing | PctNumber rat | PctText string

fun splitPercent :: "pct_value \<Rightarrow> rat" where
  "splitPercent PctMissing = defaultSplitPercent"
| "splitPercent (PctNumber number) = min maxSplitPercent (max minSplitPercent number)"
| "splitPercent (PctText s) =
     (if s = [] then defaultSplitPercent
      else (case js_Number s of None \<Rightarrow> defaultSplitPercent
        | Some number \<Rightarrow> min maxSplitPercent (max minSplitPercent number)))"

definition splitNode :: "split_dir \<Rightarrow> layout_node \<Rightarrow> layout_node \<Rightarrow> pct_value \<Rightarrow> layout_node" where
  "splitNode d a b pct = Split d (splitPercent pct) a b"

abbreviation splitHalf :: "split_dir \<Rightarrow> layout_node \<Rightarrow> layout_node \<Rightarrow> layout_node" where
  "splitHalf d a b \<equiv> splitNode d a b (PctNumber defaultSplitPercent)"

lemma splitPercent_bounds: "minSplitPercent \<le> splitPercent v \<and> splitPercent v \<le> maxSplitPercent"
  by (cases v) (auto simp: pct_defs split: option.splits)

lemma splitPercent_idem [simp]: "splitPercent (PctNumber (splitPercent v)) = splitPercent v"
  using splitPercent_bounds [of v] by simp

fun layoutLeafSlots :: "layout_node \<Rightarrow> slot list" where
  "layoutLeafSlots (Leaf s) = [s]"
| "layoutLeafSlots (Split _ _ a b) = layoutLeafSlots a @ layoutLeafSlots b"

definition treeLeafSlots :: "layout_node option \<Rightarrow> slot list" where
  "treeLeafSlots t = (case t of None \<Rightarrow> [] | Some n \<Rightarrow> layoutLeafSlots n)"

lemma treeLeafSlots_simps [simp]:
  "treeLeafSlots None = []" "treeLeafSlots (Some n) = layoutLeafSlots n"
  by (simp_all add: treeLeafSlots_def)

lemma layoutLeafSlots_nonempty [simp]: "layoutLeafSlots n \<noteq> []"
  by (induction n) auto

lemma layoutLeafSlots_splitNode [simp]:
  "layoutLeafSlots (splitNode d a b p) = layoutLeafSlots a @ layoutLeafSlots b"
  by (simp add: splitNode_def)

text \<open>The type invariant of a tree: every percentage lies within the split bounds.\<close>

fun node_ok :: "layout_node \<Rightarrow> bool" where
  "node_ok (Leaf _) = True"
| "node_ok (Split _ p a b) = (minSplitPercent \<le> p \<and> p \<le> maxSplitPercent \<and> node_ok a \<and> node_ok b)"

lemma node_ok_splitNode [simp]: "node_ok (splitNode d a b p) \<longleftrightarrow> node_ok a \<and> node_ok b"
  using splitPercent_bounds [of p] by (simp add: splitNode_def)

definition tree_ok :: "layout_node option \<Rightarrow> bool" where
  "tree_ok t = (case t of None \<Rightarrow> True | Some n \<Rightarrow> node_ok n)"

section \<open>Removing slots\<close>

fun layoutTreeWithoutSlots :: "layout_node \<Rightarrow> slot set \<Rightarrow> layout_node option" where
  "layoutTreeWithoutSlots (Leaf s) removed = (if s \<in> removed then None else Some (Leaf s))"
| "layoutTreeWithoutSlots (Split d p a b) removed =
     (case somes [layoutTreeWithoutSlots a removed, layoutTreeWithoutSlots b removed] of
        [] \<Rightarrow> None
      | [c] \<Rightarrow> Some c
      | c1 # c2 # _ \<Rightarrow> Some (splitNode d c1 c2 (PctNumber p)))"

lemma leaves_layoutTreeWithoutSlots:
  "treeLeafSlots (layoutTreeWithoutSlots n removed) = filter (\<lambda>s. s \<notin> removed) (layoutLeafSlots n)"
proof (induction n)
  case (Split d p a b)
  then show ?case
    by (cases "layoutTreeWithoutSlots a removed"; cases "layoutTreeWithoutSlots b removed")
      (auto simp flip: Split.IH)
qed simp

lemma layoutTreeWithoutSlots_ok: "node_ok n \<Longrightarrow> tree_ok (layoutTreeWithoutSlots n removed)"
proof (induction n)
  case (Split d p a b)
  then show ?case
    by (cases "layoutTreeWithoutSlots a removed"; cases "layoutTreeWithoutSlots b removed")
      (auto simp: tree_ok_def)
qed (simp add: tree_ok_def)

lemma layoutTreeWithoutSlots_none: "node_ok n \<Longrightarrow> layoutTreeWithoutSlots n {} = Some n"
proof (induction n)
  case (Split d p a b)
  then show ?case by (auto simp: splitNode_def min_def max_def)
qed simp

section \<open>Widths\<close>

fun layoutLeafWidthPercent :: "layout_node \<Rightarrow> slot \<Rightarrow> rat \<Rightarrow> rat option" where
  "layoutLeafWidthPercent (Leaf s) target available = (if s = target then Some available else None)"
| "layoutLeafWidthPercent (Split d p a b) target available =
     (let pct = splitPercent (PctNumber p);
          (wa, wb) = (if d = Row then (available * pct / 100, available * (100 - pct) / 100)
                      else (available, available))
      in (case layoutLeafWidthPercent a target wa of
            Some w \<Rightarrow> Some w
          | None \<Rightarrow> layoutLeafWidthPercent b target wb))"

definition clampSidePaneWidthPercent :: "rat \<Rightarrow> rat" where
  "clampSidePaneWidthPercent v =
     min (sideMaxViewportFraction * 100)
       (max minSplitPercent (if v = 0 then sidePaneDefaultWidthPercent else v))"

lemma layoutLeafWidthPercent_bounds:
  assumes "0 \<le> available" "layoutLeafWidthPercent n target available = Some w"
  shows "0 \<le> w \<and> w \<le> available"
  using assms
proof (induction n arbitrary: available)
  case (Split d p a b)
  let ?pct = "splitPercent (PctNumber p)"
  have pct: "5 \<le> ?pct" "?pct \<le> 95"
    using splitPercent_bounds [of "PctNumber p"] unfolding pct_defs by auto
  have le1: "available * ?pct / 100 \<le> available" and le2: "available * (100 - ?pct) / 100 \<le> available"
    using pct Split.prems(1) by (simp_all add: mult_left_le_one_le divide_le_eq mult_left_mono)
  have ge: "0 \<le> available * ?pct / 100" "0 \<le> available * (100 - ?pct) / 100"
    using pct Split.prems(1) by simp_all
  from Split.prems(2) show ?case
    using Split.IH(1) [of "available * ?pct / 100"] Split.IH(2) [of "available * (100 - ?pct) / 100"]
      Split.IH(1) [of available] Split.IH(2) [of available] le1 le2 ge Split.prems(1)
    by (auto simp: Let_def simp del: splitPercent.simps split: if_splits option.splits)
qed (auto split: if_splits)

lemma layoutLeafWidthPercent_None [simp]:
  "layoutLeafWidthPercent n target available = None \<longleftrightarrow> target \<notin> set (layoutLeafSlots n)"
proof (induction n arbitrary: available)
  case (Split d p a b)
  let ?pct = "splitPercent (PctNumber p)"
  let ?wa = "if d = Row then available * ?pct / 100 else available"
  let ?wb = "if d = Row then available * (100 - ?pct) / 100 else available"
  have "layoutLeafWidthPercent (Split d p a b) target available = None \<longleftrightarrow>
      layoutLeafWidthPercent a target ?wa = None \<and> layoutLeafWidthPercent b target ?wb = None"
    by (simp add: Let_def del: splitPercent.simps split: option.splits)
  then show ?case by (simp only: Split.IH) simp
qed auto

lemma clampSidePaneWidthPercent_bounds:
  "minSplitPercent \<le> clampSidePaneWidthPercent v \<and> clampSidePaneWidthPercent v \<le> 100 / 3"
  by (auto simp: clampSidePaneWidthPercent_def pct_defs)

section \<open>Trees of the layout modes\<close>

definition chain_tree :: "split_dir \<Rightarrow> slot list \<Rightarrow> layout_node option" where
  "chain_tree d ss =
     foldl (\<lambda>tree leaf. Some (case tree of Some t \<Rightarrow> splitHalf d t leaf | None \<Rightarrow> leaf))
       None (map Leaf ss)"

definition rowTreeForSlots :: "slot list \<Rightarrow> layout_node option" where
  "rowTreeForSlots ss = chain_tree Row ss"

definition columnTreeForSlots :: "slot list \<Rightarrow> layout_node option" where
  "columnTreeForSlots ss = chain_tree Column ss"

lemma chain_tree_Some:
  "foldl (\<lambda>tree leaf. Some (case tree of Some t \<Rightarrow> splitHalf d t leaf | None \<Rightarrow> leaf)) (Some t) (map Leaf ss)
   = Some (foldl (\<lambda>t s. splitHalf d t (Leaf s)) t ss)"
  by (induction ss arbitrary: t) auto

lemma leaves_foldl_split:
  "layoutLeafSlots (foldl (\<lambda>t s. splitHalf d t (Leaf s)) t ss) = layoutLeafSlots t @ ss"
  by (induction ss arbitrary: t) auto

lemma leaves_chain_tree: "treeLeafSlots (chain_tree d ss) = ss"
  by (cases ss) (simp_all add: chain_tree_def chain_tree_Some leaves_foldl_split)

lemma node_ok_foldl_split: "node_ok t \<Longrightarrow> node_ok (foldl (\<lambda>t s. splitHalf d t (Leaf s)) t ss)"
  by (induction ss arbitrary: t) auto

lemma chain_tree_ok: "tree_ok (chain_tree d ss)"
  by (cases ss) (auto simp: tree_ok_def chain_tree_def chain_tree_Some node_ok_foldl_split)

lemma leaves_rowTree [simp]: "treeLeafSlots (rowTreeForSlots ss) = ss"
  and leaves_columnTree [simp]: "treeLeafSlots (columnTreeForSlots ss) = ss"
  by (simp_all add: rowTreeForSlots_def columnTreeForSlots_def leaves_chain_tree)

text \<open>Slot names are never empty, so \<open>filter(Boolean)\<close> keeps exactly the present ones.\<close>

definition gridTreeForSlots :: "slot list \<Rightarrow> layout_node option" where
  "gridTreeForSlots ss =
     (case ss of
        a # b # c # rest \<Rightarrow>
          (case (columnTreeForSlots [a, c], columnTreeForSlots (b # take 1 rest)) of
             (Some left, Some right) \<Rightarrow> Some (splitHalf Row left right)
           | (left, _) \<Rightarrow> left)
      | _ \<Rightarrow> rowTreeForSlots ss)"

datatype layout_mode = Single | SplitMode | Grid | Wall

definition normalizeLayoutMode :: "string \<Rightarrow> layout_mode" where
  "normalizeLayoutMode s =
     (let text = js_trim s in
      if text = ''single'' then Single else if text = ''split'' then SplitMode
      else if text = ''grid'' then Grid else if text = ''wall'' then Wall else SplitMode)"

definition configuredDefaultLayoutMode :: "env \<Rightarrow> layout_mode" where
  "configuredDefaultLayoutMode e = normalizeLayoutMode (defaultLayoutSetting e)"

definition layoutModePaneCount :: "layout_mode \<Rightarrow> item list \<Rightarrow> nat" where
  "layoutModePaneCount mode items =
     (let count = length items in
      if count = 0 then 0
      else if mode = Single then 1
      else if mode = SplitMode then min 2 count
      else if mode = Grid then min 4 count
      else count)"

definition layoutModeBaseSlots :: "layout_mode \<Rightarrow> slot list" where
  "layoutModeBaseSlots mode =
     (if mode = Grid then [''leftTop'', ''rightTop'', ''leftBottom'', ''rightBottom'']
      else if mode = SplitMode then [''left'', ''right'']
      else if mode = Wall then [''left'', ''right'']
      else [''left''])"

definition layoutModeTreeForSlots :: "layout_mode \<Rightarrow> slot list \<Rightarrow> layout_node option" where
  "layoutModeTreeForSlots mode ss = (if mode = Grid then gridTreeForSlots ss else rowTreeForSlots ss)"

lemma layoutModePaneCount_bounds:
  "layoutModePaneCount mode items \<le> length items"
  "items \<noteq> [] \<Longrightarrow> 0 < layoutModePaneCount mode items"
  by (cases mode; cases items; simp add: layoutModePaneCount_def Let_def)+

lemma mset_gridTree:
  assumes "length ss \<le> 4"
  shows "mset (treeLeafSlots (gridTreeForSlots ss)) = mset ss"
proof (cases "length ss \<le> 2")
  case True
  then show ?thesis by (auto simp: gridTreeForSlots_def split: list.splits)
next
  case False
  then obtain a b c rest where ss: "ss = a # b # c # rest"
    by (metis One_nat_def Suc_1 leI length_0_conv length_Suc_conv less_Suc_eq_le list.exhaust
        list.size(3) list.size(4) not_less_eq_eq zero_le)
  with assms have rest: "length rest \<le> 1" by simp
  have col: "\<exists>t. columnTreeForSlots (x # xs) = Some t \<and> layoutLeafSlots t = x # xs" for x xs
    using leaves_columnTree [of "x # xs"]
    by (cases "columnTreeForSlots (x # xs)") (auto simp: treeLeafSlots_def)
  obtain l where l: "columnTreeForSlots [a, c] = Some l" "layoutLeafSlots l = [a, c]"
    using col by blast
  obtain r where r: "columnTreeForSlots (b # take 1 rest) = Some r" "layoutLeafSlots r = b # take 1 rest"
    using col by blast
  from rest have "take 1 rest = rest" by simp
  with l r show ?thesis by (simp add: gridTreeForSlots_def ss)
qed

section \<open>Distribution of items over panes\<close>

text \<open>Group \<open>index\<close> takes \<open>ceil(remaining items / remaining groups)\<close> items.\<close>

fun partitionLayoutItems :: "'a list \<Rightarrow> nat \<Rightarrow> 'a list list" where
  "partitionLayoutItems items 0 = []"
| "partitionLayoutItems items (Suc k) =
     (let size = (length items + k) div Suc k
      in take size items # partitionLayoutItems (drop size items) k)"

lemma length_partition [simp]: "length (partitionLayoutItems items n) = n"
  by (induction items n rule: partitionLayoutItems.induct) (auto simp: Let_def)

lemma concat_partition: "0 < n \<Longrightarrow> concat (partitionLayoutItems items n) = items"
proof (induction items n rule: partitionLayoutItems.induct)
  case (2 items k)
  show ?case
  proof (cases k)
    case 0
    then show ?thesis by simp
  next
    case (Suc j)
    with 2 show ?thesis by (simp add: Let_def)
  qed
qed simp

text \<open>The size of one group, against the quotient and remainder of an even split.\<close>

lemma carry_div: "0 < r \<Longrightarrow> r \<le> k \<Longrightarrow> (r + k) div Suc k = 1"
  by (rule div_nat_eqI) auto

lemma group_size:
  fixes n k :: nat
  shows "(n + k) div Suc k = n div Suc k + (if n mod Suc k = 0 then 0 else 1)"
proof -
  let ?q = "n div Suc k" and ?r = "n mod Suc k"
  have "n + k = ?r + k + ?q * Suc k" by (metis add.commute add.left_commute mod_div_mult_eq)
  then have "(n + k) div Suc k = (?r + k + ?q * Suc k) div Suc k" by (rule arg_cong)
  also have "\<dots> = ?q + (?r + k) div Suc k" by (rule div_mult_self1) simp
  finally have "(n + k) div Suc k = ?q + (?r + k) div Suc k" .
  moreover have "(?r + k) div Suc k = (if ?r = 0 then 0 else 1)"
  proof (cases "?r = 0")
    case False
    have "?r \<le> k" by (meson less_Suc_eq_le mod_less_divisor zero_less_Suc)
    with False show ?thesis using carry_div [of ?r k] by simp
  qed simp
  ultimately show ?thesis by simp
qed

lemma group_bounds:
  fixes n k :: nat
  assumes "s = (n + k) div Suc k"
  shows "n div Suc k \<le> s" "s \<le> n" "n - s \<le> s * k" "n div Suc k * k \<le> n - s"
proof -
  define q r where qr: "q = n div Suc k" "r = n mod Suc k"
  have n: "n = q + q * k + r" unfolding qr by (metis add.commute mod_div_mult_eq mult_Suc_right)
  have r: "r \<le> k" unfolding qr by (meson less_Suc_eq_le mod_less_divisor zero_less_Suc)
  have s: "s = q + (if r = 0 then 0 else 1)" using assms group_size by (simp add: qr)
  show "n div Suc k \<le> s" using s by (simp add: qr)
  show "s \<le> n" "n - s \<le> s * k" using n r s by (auto simp: algebra_simps split: if_splits)
  have "q * k \<le> n - s" using n s by (auto split: if_splits)
  then show "n div Suc k * k \<le> n - s" by (simp only: qr)
qed

lemma partition_sizes:
  "g \<in> set (partitionLayoutItems items n) \<Longrightarrow>
   length items div n \<le> length g \<and> length g \<le> (length items + n - 1) div n"
proof (induction items n arbitrary: g rule: partitionLayoutItems.induct)
  case (2 items k)
  let ?n = "length items" and ?s = "(length items + k) div Suc k"
  note b = group_bounds [OF refl, of ?n k]
  show ?case
  proof (cases "g = take ?s items")
    case True
    with b show ?thesis by simp
  next
    case False
    with "2.prems" have g: "g \<in> set (partitionLayoutItems (drop ?s items) k)"
      by (simp add: Let_def)
    then have k: "0 < k" by (cases k) auto
    from "2.IH" [OF refl g]
    have IH: "(?n - ?s) div k \<le> length g" "length g \<le> (?n - ?s + k - 1) div k" by simp_all
    have "(?n - ?s + k - 1) div k \<le> (k - 1 + ?s * k) div k"
      using b(3) k by (intro div_le_mono) linarith
    also have "\<dots> = ?s + (k - 1) div k"
      using k by (intro div_mult_self1) simp
    also have "\<dots> = ?s" using k by simp
    finally have up: "length g \<le> ?s" using IH(2) by simp
    have "(?n div Suc k * k) div k \<le> (?n - ?s) div k" using b(4) by (rule div_le_mono)
    with k IH(1) have "?n div Suc k \<le> length g" by simp
    with up show ?thesis by simp
  qed
qed simp

section \<open>Editing a tree\<close>

datatype zone = ZTop | ZBottom | ZLeft | ZRight | ZMiddle

definition layoutSplitZone :: "zone \<Rightarrow> bool" where
  "layoutSplitZone z = (z \<in> {ZTop, ZBottom, ZLeft, ZRight})"

definition layoutSplitDirectionForZone :: "zone \<Rightarrow> split_dir" where
  "layoutSplitDirectionForZone z = (if z = ZLeft \<or> z = ZRight then Row else Column)"

fun replaceLayoutLeaf :: "layout_node \<Rightarrow> slot \<Rightarrow> layout_node \<Rightarrow> layout_node" where
  "replaceLayoutLeaf (Leaf s) target replacement = (if s = target then replacement else Leaf s)"
| "replaceLayoutLeaf (Split d p a b) target replacement =
     splitNode d (replaceLayoutLeaf a target replacement) (replaceLayoutLeaf b target replacement)
       (PctNumber p)"

text \<open>A gutter path is the list of its \<open>.\<close>-separated parts, read as numbers (\<open>None\<close> for a
  part that is not an integer).\<close>

fun replaceLayoutNodeAtPath :: "layout_node \<Rightarrow> int option list \<Rightarrow> layout_node \<Rightarrow> layout_node" where
  "replaceLayoutNodeAtPath node [] replacement = replacement"
| "replaceLayoutNodeAtPath (Leaf s) (i # path) replacement = Leaf s"
| "replaceLayoutNodeAtPath (Split d p a b) (i # path) replacement =
     (if i = Some 0 then splitNode d (replaceLayoutNodeAtPath a path replacement) b (PctNumber p)
      else if i = Some 1 then splitNode d a (replaceLayoutNodeAtPath b path replacement) (PctNumber p)
      else Split d p a b)"

lemma replaceLayoutLeaf_ok: "node_ok n \<Longrightarrow> node_ok r \<Longrightarrow> node_ok (replaceLayoutLeaf n s r)"
  by (induction n) auto

lemma leaves_replaceLayoutLeaf:
  "layoutLeafSlots (replaceLayoutLeaf n s r)
   = concat (map (\<lambda>x. if x = s then layoutLeafSlots r else [x]) (layoutLeafSlots n))"
  by (induction n) auto

lemma replaceLayoutNodeAtPath_ok:
  "node_ok n \<Longrightarrow> node_ok r \<Longrightarrow> node_ok (replaceLayoutNodeAtPath n path r)"
  by (induction n path r rule: replaceLayoutNodeAtPath.induct) auto

end
