(* ===== verification/Layout_Slots.thy ===== *)
theory Layout_Slots
  imports Layout_Tree
begin

text \<open>
  Panes and slots of \<open>20_layout_state.js\<close>: the state of one pane, the slot object (the layout
  tree under \<open>__tree\<close> and one pane state per slot name, in insertion order) and every
  read-only query on it; tab ordering with pinned tabs first; fresh slot names.

  A pane state is the object built by \<open>emptyPaneState\<close>, \<open>emptyPlaceholderPaneState\<close> or
  \<open>paneStateWithTabs\<close>; the role fields are absent exactly when the role is generic. The bare
  array form of a pane is a form of stored input only (see \<open>Layout_Normalize\<close>).
\<close>

section \<open>Pane states and slots\<close>

record pane_state =
  ps_active :: "item option"
  ps_tabs :: "item list"
  ps_placeholder :: bool
  ps_legacy :: bool
  ps_role :: pane_role

record layout_slots =
  lay_tree :: "layout_node option"
  lay_panes :: "(slot \<times> pane_state) list"

definition getPane :: "layout_slots \<Rightarrow> slot \<Rightarrow> pane_state option" where
  "getPane L s = map_of (lay_panes L) s"

definition setPane :: "slot \<Rightarrow> pane_state \<Rightarrow> layout_slots \<Rightarrow> layout_slots" where
  "setPane s p L = L\<lparr>lay_panes := AList.update s p (lay_panes L)\<rparr>"

definition deletePane :: "slot \<Rightarrow> layout_slots \<Rightarrow> layout_slots" where
  "deletePane s L = L\<lparr>lay_panes := AList.delete s (lay_panes L)\<rparr>"

definition setTree :: "layout_node option \<Rightarrow> layout_slots \<Rightarrow> layout_slots" where
  "setTree t L = L\<lparr>lay_tree := t\<rparr>"

lemma getPane_setPane [simp]: "getPane (setPane s p L) t = (if t = s then Some p else getPane L t)"
  by (simp add: getPane_def setPane_def)

lemma getPane_deletePane [simp]: "getPane (deletePane s L) t = (if t = s then None else getPane L t)"
  by (simp add: getPane_def deletePane_def)

lemma getPane_setTree [simp]: "getPane (setTree t L) s = getPane L s"
  by (simp add: getPane_def setTree_def)

lemma lay_tree_simps [simp]:
  "lay_tree (setPane s p L) = lay_tree L" "lay_tree (deletePane s L) = lay_tree L"
  "lay_tree (setTree t L) = t"
  by (simp_all add: setPane_def deletePane_def setTree_def)

lemma setTree_setPane: "setTree t (setPane s p L) = setPane s p (setTree t L)"
  by (simp add: setTree_def setPane_def)

text \<open>A slot store as an interface: its lookups after each update.\<close>

locale slot_store =
  fixes look :: "'l \<Rightarrow> slot \<Rightarrow> 'p option"
    and put :: "slot \<Rightarrow> 'p \<Rightarrow> 'l \<Rightarrow> 'l"
  assumes look_put: "look (put s p L) t = (if t = s then Some p else look L t)"
begin

lemma look_fold_put:
  "look (fold (\<lambda>s. put s (f s)) ks L) t = (if t \<in> set ks then Some (f t) else look L t)"
  by (induction ks arbitrary: L) (auto simp: look_put)

lemma fold_put_domain: "look (fold (\<lambda>s. put s (f s)) ks L) t \<noteq> None \<longleftrightarrow> t \<in> set ks \<or> look L t \<noteq> None"
  by (simp add: look_fold_put)

end

interpretation panes: slot_store getPane setPane
  by unfold_locales simp

definition emptyLayoutSlots :: layout_slots where
  "emptyLayoutSlots = \<lparr>lay_tree = None, lay_panes = []\<rparr>"

lemma emptyLayoutSlots_simps [simp]:
  "lay_tree emptyLayoutSlots = None" "getPane emptyLayoutSlots s = None" "lay_panes emptyLayoutSlots = []"
  by (simp_all add: emptyLayoutSlots_def getPane_def)

definition paneRoleForSlot :: "slot \<Rightarrow> layout_slots \<Rightarrow> pane_role" where
  "paneRoleForSlot s L = (case getPane L s of Some p \<Rightarrow> ps_role p | None \<Rightarrow> Generic)"

definition emptyPaneState :: "pane_role \<Rightarrow> pane_state" where
  "emptyPaneState role =
     \<lparr>ps_active = None, ps_tabs = [], ps_placeholder = False, ps_legacy = False, ps_role = role\<rparr>"

definition emptyPlaceholderPaneState :: "pane_role \<Rightarrow> bool \<Rightarrow> pane_state" where
  "emptyPlaceholderPaneState role legacy =
     \<lparr>ps_active = None, ps_tabs = [], ps_placeholder = True, ps_legacy = legacy, ps_role = role\<rparr>"

definition emptyPlaceholderLayoutSlots :: "slot \<Rightarrow> layout_slots" where
  "emptyPlaceholderLayoutSlots s =
     setTree (Some (Leaf s)) (setPane s (emptyPlaceholderPaneState Generic False) emptyLayoutSlots)"

definition paneTabs :: "slot \<Rightarrow> layout_slots \<Rightarrow> item list" where
  "paneTabs s L = (case getPane L s of Some p \<Rightarrow> ps_tabs p | None \<Rightarrow> [])"

definition paneIsPlaceholder :: "slot \<Rightarrow> layout_slots \<Rightarrow> bool" where
  "paneIsPlaceholder s L =
     (case getPane L s of Some p \<Rightarrow> ps_placeholder p \<and> ps_tabs p = [] | None \<Rightarrow> False)"

definition paneHasLayoutContent :: "slot \<Rightarrow> layout_slots \<Rightarrow> bool" where
  "paneHasLayoutContent s L = (paneTabs s L \<noteq> [] \<or> paneIsPlaceholder s L)"

definition layoutSlotKeys :: "layout_slots \<Rightarrow> slot list" where
  "layoutSlotKeys L =
     (let treeSlots = treeLeafSlots (lay_tree L) in
      if treeSlots \<noteq> [] then treeSlots
      else filter (\<lambda>k. paneHasLayoutContent k L) (map fst (lay_panes L)))"

definition activeItemForSide :: "slot \<Rightarrow> layout_slots \<Rightarrow> item option" where
  "activeItemForSide s L =
     (if paneIsPlaceholder s L then None
      else let stack = paneTabs s L; active = (case getPane L s of Some p \<Rightarrow> ps_active p | None \<Rightarrow> None)
        in (case active of
              Some a \<Rightarrow> if a \<in> set stack then Some a else first_or_none stack
            | None \<Rightarrow> first_or_none stack))"

lemma layoutSlotKeys_tree: "lay_tree L = Some n \<Longrightarrow> layoutSlotKeys L = layoutLeafSlots n"
  by (simp add: layoutSlotKeys_def Let_def)

lemma activeItemForSide_mem: "activeItemForSide s L = Some a \<Longrightarrow> a \<in> set (paneTabs s L)"
  by (auto simp: activeItemForSide_def Let_def split: if_splits option.splits dest: first_or_none_mem)

lemma activeItemForSide_defined: "activeItemForSide s L = None \<longleftrightarrow> paneTabs s L = []"
  by (auto simp: activeItemForSide_def Let_def paneIsPlaceholder_def paneTabs_def
      split: option.splits)

section \<open>Side panes\<close>

definition slotIsSidePane :: "slot \<Rightarrow> layout_slots \<Rightarrow> bool" where
  "slotIsSidePane s L = is_side_role (paneRoleForSlot s L)"

definition sidePaneSlots :: "layout_slots \<Rightarrow> slot list" where
  "sidePaneSlots L = filter (\<lambda>s. is_side_role (paneRoleForSlot s L)) (layoutSlotKeys L)"

definition sidePaneSlotsForSide :: "pane_side \<Rightarrow> layout_slots \<Rightarrow> slot list" where
  "sidePaneSlotsForSide sd L = filter (\<lambda>s. paneRoleForSlot s L = Side sd) (sidePaneSlots L)"

definition sidePaneSlot :: "pane_side \<Rightarrow> layout_slots \<Rightarrow> slot option" where
  "sidePaneSlot sd L = first_or_none (sidePaneSlotsForSide sd L)"

definition layoutHasSidePane :: "pane_side \<Rightarrow> layout_slots \<Rightarrow> bool" where
  "layoutHasSidePane sd L = (sidePaneSlot sd L \<noteq> None)"

definition layoutNodeContainsSidePane :: "layout_node \<Rightarrow> layout_slots \<Rightarrow> bool" where
  "layoutNodeContainsSidePane n L = list_ex (\<lambda>s. slotIsSidePane s L) (layoutLeafSlots n)"

definition sidePaneWidthPercent :: "pane_side \<Rightarrow> layout_slots \<Rightarrow> rat" where
  "sidePaneWidthPercent sd L =
     (case (sidePaneSlot sd L, lay_tree L) of
        (Some s, Some rt) \<Rightarrow>
          clampSidePaneWidthPercent
            (case layoutLeafWidthPercent rt s 100 of Some w \<Rightarrow> w | None \<Rightarrow> sidePaneDefaultWidthPercent)
      | _ \<Rightarrow> sidePaneDefaultWidthPercent)"

text \<open>\<open>paneRoleAllowsItemTransfer\<close>; \<open>sourceRole\<close>/\<open>targetRole\<close> are the explicit options.\<close>

definition paneRoleAllowsItemTransfer ::
  "env \<Rightarrow> item \<Rightarrow> slot option \<Rightarrow> slot option \<Rightarrow> layout_slots \<Rightarrow>
   pane_role option \<Rightarrow> pane_role option \<Rightarrow> bool \<Rightarrow> bool \<Rightarrow> bool" where
  "paneRoleAllowsItemTransfer e x sourceSlot targetSlot L optSourceRole optTargetRole
       allowRequiredInGeneric allowCandidate =
     (let targetRole = (case optTargetRole of Some r \<Rightarrow> r
            | None \<Rightarrow> (case targetSlot of Some s \<Rightarrow> paneRoleForSlot s L | None \<Rightarrow> Generic));
          sourceRole = (case optSourceRole of Some r \<Rightarrow> Some r
            | None \<Rightarrow> map_option (\<lambda>s. paneRoleForSlot s L) sourceSlot)
      in (case sourceRole of
            Some r \<Rightarrow>
              if sourceSlot \<noteq> targetSlot \<and> is_side_role r \<noteq> is_side_role targetRole
                   \<and> panePlacementForItem x \<noteq> SideAllowed
              then False
              else paneRoleAllowsItem e targetRole x allowRequiredInGeneric allowCandidate
          | None \<Rightarrow> paneRoleAllowsItem e targetRole x allowRequiredInGeneric allowCandidate))"

lemma sidePaneSlot_role:
  "sidePaneSlot sd L = Some s \<Longrightarrow> paneRoleForSlot s L = Side sd \<and> s \<in> set (layoutSlotKeys L)"
  by (drule first_or_none_mem [OF sidePaneSlot_def [symmetric, THEN trans]])
    (auto simp: sidePaneSlotsForSide_def sidePaneSlots_def)

section \<open>Items of a layout\<close>

definition paneItems :: "layout_slots \<Rightarrow> item list" where
  "paneItems L = foldl push_new [] (concat (map (\<lambda>s. paneTabs s L) (layoutSlotKeys L)))"

definition activePaneItems :: "layout_slots \<Rightarrow> item list" where
  "activePaneItems L = foldl push_new [] (somes (map (\<lambda>s. activeItemForSide s L) (layoutSlotKeys L)))"

definition itemInLayout :: "item \<Rightarrow> layout_slots \<Rightarrow> bool" where
  "itemInLayout x L = (x \<in> set (paneItems L))"

definition itemIsActivePaneTab :: "item \<Rightarrow> layout_slots \<Rightarrow> bool" where
  "itemIsActivePaneTab x L = (x \<in> set (activePaneItems L))"

definition itemIsBackgroundPaneTab :: "item \<Rightarrow> layout_slots \<Rightarrow> bool" where
  "itemIsBackgroundPaneTab x L = (itemInLayout x L \<and> \<not> itemIsActivePaneTab x L)"

definition sessionsFromSlots :: "layout_slots \<Rightarrow> item list" where
  "sessionsFromSlots L = foldl push_new [] (somes (map (\<lambda>s. activeItemForSide s L) (layoutSlotKeys L)))"

definition layoutHasRestorableContent :: "layout_slots \<Rightarrow> bool" where
  "layoutHasRestorableContent L =
     (paneItems L \<noteq> [] \<or> list_ex (\<lambda>s. paneIsPlaceholder s L) (layoutSlotKeys L))"

definition slotForItem :: "item \<Rightarrow> layout_slots \<Rightarrow> slot option" where
  "slotForItem x L = List.find (\<lambda>s. x \<in> set (paneTabs s L)) (layoutSlotKeys L)"

lemma set_paneItems: "set (paneItems L) = (\<Union>s \<in> set (layoutSlotKeys L). set (paneTabs s L))"
  by (simp add: paneItems_def)

lemma distinct_paneItems [simp]: "distinct (paneItems L)"
  by (simp add: paneItems_def)

lemma set_activePaneItems:
  "set (activePaneItems L) = {x. \<exists>s \<in> set (layoutSlotKeys L). activeItemForSide s L = Some x}"
  by (auto simp: activePaneItems_def image_iff)
    (metis (mono_tags, lifting) image_eqI)

lemma active_subset_items: "set (activePaneItems L) \<subseteq> set (paneItems L)"
  by (auto simp: set_activePaneItems set_paneItems dest: activeItemForSide_mem)

lemma slotForItem_iff: "slotForItem x L \<noteq> None \<longleftrightarrow> itemInLayout x L"
  by (auto simp: slotForItem_def itemInLayout_def set_paneItems find_None_iff)

section \<open>Tab order\<close>

definition orderPaneTabs :: "env \<Rightarrow> item list \<Rightarrow> item list" where
  "orderPaneTabs e tabs =
     (let unique = foldl push_new [] (filter (isLayoutItem e) tabs)
      in filter (tabIsPinned e) unique @ filter (\<lambda>x. \<not> tabIsPinned e x) unique)"

definition paneStateWithTabs :: "env \<Rightarrow> item list \<Rightarrow> item option \<Rightarrow> pane_role \<Rightarrow> pane_state" where
  "paneStateWithTabs e tabs active role =
     (let ordered = orderPaneTabs e tabs
      in \<lparr>ps_active = (case active of
             Some a \<Rightarrow> if a \<in> set ordered then Some a else first_or_none ordered
           | None \<Rightarrow> first_or_none ordered),
          ps_tabs = ordered, ps_placeholder = False, ps_legacy = False, ps_role = role\<rparr>)"

definition paneStateWithTabsForSlot ::
  "env \<Rightarrow> slot \<Rightarrow> item list \<Rightarrow> item option \<Rightarrow> layout_slots \<Rightarrow> pane_state" where
  "paneStateWithTabsForSlot e s tabs active L = paneStateWithTabs e tabs active (paneRoleForSlot s L)"

definition paneStateForLayoutSlot :: "env \<Rightarrow> slot \<Rightarrow> layout_slots \<Rightarrow> pane_state" where
  "paneStateForLayoutSlot e s L =
     (if paneIsPlaceholder s L then emptyPlaceholderPaneState (paneRoleForSlot s L) False
      else paneStateWithTabs e (paneTabs s L) (activeItemForSide s L) (paneRoleForSlot s L))"

definition normalizePinnedTabItems :: "env \<Rightarrow> string list \<Rightarrow> item list" where
  "normalizePinnedTabItems e items =
     foldl push_new [] (filter (\<lambda>x. x \<noteq> [] \<and> isPinnableTab e x) (map js_trim items))"

text \<open>The pane invariant: what every constructor of a pane establishes.\<close>

definition pane_ok :: "env \<Rightarrow> pane_state \<Rightarrow> bool" where
  "pane_ok e p =
     (distinct (ps_tabs p) \<and> set (ps_tabs p) \<subseteq> set (layoutItems e)
      \<and> ps_tabs p = orderPaneTabs e (ps_tabs p)
      \<and> (case ps_active p of None \<Rightarrow> ps_tabs p = [] | Some a \<Rightarrow> a \<in> set (ps_tabs p))
      \<and> (ps_placeholder p \<longrightarrow> ps_tabs p = []))"

lemma set_orderPaneTabs [simp]:
  "set (orderPaneTabs e tabs) = {x \<in> set tabs. isLayoutItem e x}"
  by (auto simp: orderPaneTabs_def Let_def)

lemma distinct_orderPaneTabs [simp]: "distinct (orderPaneTabs e tabs)"
  by (auto simp: orderPaneTabs_def Let_def)

lemma orderPaneTabs_sorted:
  "distinct tabs \<Longrightarrow> list_all (isLayoutItem e) tabs \<Longrightarrow>
   orderPaneTabs e tabs = filter (tabIsPinned e) tabs @ filter (\<lambda>x. \<not> tabIsPinned e x) tabs"
  by (simp add: orderPaneTabs_def Let_def foldl_push_new_distinct list_all_iff)

lemma orderPaneTabs_idem [simp]: "orderPaneTabs e (orderPaneTabs e tabs) = orderPaneTabs e tabs"
proof -
  let ?u = "foldl push_new [] (filter (isLayoutItem e) tabs)"
  have eq: "orderPaneTabs e tabs = filter (tabIsPinned e) ?u @ filter (\<lambda>x. \<not> tabIsPinned e x) ?u"
    by (simp add: orderPaneTabs_def Let_def)
  have all: "list_all (isLayoutItem e) (orderPaneTabs e tabs)" by (simp add: list_all_iff)
  show ?thesis
    by (subst orderPaneTabs_sorted [OF distinct_orderPaneTabs all]) (simp add: eq filter_empty_conv)
qed

lemma pane_ok_paneStateWithTabs [simp, intro]: "pane_ok e (paneStateWithTabs e tabs active role)"
proof -
  have sub: "set (orderPaneTabs e tabs) \<subseteq> set (layoutItems e)" by (auto simp: isLayoutItem_def)
  show ?thesis using sub
    by (auto simp: pane_ok_def paneStateWithTabs_def Let_def
        split: option.splits dest: first_or_none_mem)
qed

lemma pane_ok_empty [simp, intro]: "pane_ok e (emptyPaneState r)"
  by (simp add: pane_ok_def emptyPaneState_def orderPaneTabs_def)

lemma pane_ok_placeholder [simp, intro]: "pane_ok e (emptyPlaceholderPaneState r l)"
  by (simp add: pane_ok_def emptyPlaceholderPaneState_def orderPaneTabs_def)

lemma pane_ok_paneStateForLayoutSlot [simp, intro]: "pane_ok e (paneStateForLayoutSlot e s L)"
  by (simp add: paneStateForLayoutSlot_def)

lemma pane_ok_paneStateWithTabsForSlot [simp, intro]: "pane_ok e (paneStateWithTabsForSlot e s tabs a L)"
  by (simp add: paneStateWithTabsForSlot_def)

lemma paneStateWithTabs_simps [simp]:
  "ps_tabs (paneStateWithTabs e tabs a r) = orderPaneTabs e tabs"
  "ps_role (paneStateWithTabs e tabs a r) = r"
  "\<not> ps_placeholder (paneStateWithTabs e tabs a r)"
  by (simp_all add: paneStateWithTabs_def Let_def)

lemma placeholder_simps [simp]:
  "ps_tabs (emptyPlaceholderPaneState r l) = []"
  "ps_role (emptyPlaceholderPaneState r l) = r"
  "ps_placeholder (emptyPlaceholderPaneState r l)"
  "ps_legacy (emptyPlaceholderPaneState r l) = l"
  "ps_tabs (emptyPaneState r) = []" "ps_role (emptyPaneState r) = r" "\<not> ps_placeholder (emptyPaneState r)"
  by (simp_all add: emptyPlaceholderPaneState_def emptyPaneState_def)

section \<open>Fresh slot names\<close>

definition numbered_slot :: "nat \<Rightarrow> slot" where
  "numbered_slot n = ''slot'' @ showNat n"

lemma inj_numbered_slot: "inj numbered_slot"
  by (rule injI) (auto simp: numbered_slot_def dest: showNat_inj)

function free_slot_index :: "slot list \<Rightarrow> nat \<Rightarrow> nat" where
  "free_slot_index used index =
     (if numbered_slot index \<in> set used then free_slot_index used (index + 1) else index)"
  by pat_completeness auto
termination
proof (relation "measure (\<lambda>(used, index). card {i. index \<le> i \<and> numbered_slot i \<in> set used})")
  fix used :: "slot list" and index
  assume u: "numbered_slot index \<in> set used"
  have fin: "finite {i. index \<le> i \<and> numbered_slot i \<in> set used}"
    by (rule finite_subset [OF _ finite_vimageI [OF finite_set inj_numbered_slot, of used]])
      (auto simp: vimage_def)
  have "{i. index + 1 \<le> i \<and> numbered_slot i \<in> set used} \<subseteq> {i. index \<le> i \<and> numbered_slot i \<in> set used} - {index}"
    by auto
  with u have "{i. index + 1 \<le> i \<and> numbered_slot i \<in> set used} \<subset> {i. index \<le> i \<and> numbered_slot i \<in> set used}"
    by blast
  with fin have "card {i. index + 1 \<le> i \<and> numbered_slot i \<in> set used} < card {i. index \<le> i \<and> numbered_slot i \<in> set used}"
    by (rule psubset_card_mono)
  then show "((used, index + 1), (used, index)) \<in>
      measure (\<lambda>(used, index). card {i. index \<le> i \<and> numbered_slot i \<in> set used})"
    by simp
qed simp

declare free_slot_index.simps [simp del]

definition nextLayoutSlot :: "layout_slots \<Rightarrow> slot" where
  "nextLayoutSlot L = numbered_slot (free_slot_index (map fst (lay_panes L)) 1)"

definition nextAvailableLayoutSlot :: "layout_slots \<Rightarrow> slot option \<Rightarrow> slot" where
  "nextAvailableLayoutSlot L preferred =
     (case preferred of
        Some s \<Rightarrow> if s \<noteq> ''__tree'' \<and> s \<notin> set (map fst (lay_panes L)) then s else nextLayoutSlot L
      | None \<Rightarrow> nextLayoutSlot L)"

lemma free_slot_index_spec:
  "numbered_slot (free_slot_index used n) \<notin> set used \<and> n \<le> free_slot_index used n \<and>
   (\<forall>m. n \<le> m \<and> m < free_slot_index used n \<longrightarrow> numbered_slot m \<in> set used)"
proof (induction used n rule: free_slot_index.induct)
  case (1 used n)
  show ?case
  proof (cases "numbered_slot n \<in> set used")
    case True
    with 1 show ?thesis
      by (simp add: free_slot_index.simps [of used n])
        (metis Suc_leD Suc_leI le_neq_implies_less)
  next
    case False
    then have "free_slot_index used n = n" by (simp add: free_slot_index.simps [of used n])
    with False show ?thesis by auto
  qed
qed

lemma getPane_None_iff: "getPane L s = None \<longleftrightarrow> s \<notin> set (map fst (lay_panes L))"
  by (simp add: getPane_def map_of_eq_None_iff)

lemma nextLayoutSlot_new: "nextLayoutSlot L \<notin> set (map fst (lay_panes L))"
  using free_slot_index_spec [of "map fst (lay_panes L)" 1]
  by (simp only: nextLayoutSlot_def) blast

lemma nextLayoutSlot_fresh [simp]: "getPane L (nextLayoutSlot L) = None"
  using nextLayoutSlot_new by (simp only: getPane_None_iff not_False_eq_True)

lemma nextAvailableLayoutSlot_new: "nextAvailableLayoutSlot L pref \<notin> set (map fst (lay_panes L))"
  using nextLayoutSlot_new by (auto simp only: nextAvailableLayoutSlot_def split: option.split if_split)

lemma nextAvailableLayoutSlot_fresh [simp]: "getPane L (nextAvailableLayoutSlot L pref) = None"
  using nextAvailableLayoutSlot_new by (simp only: getPane_None_iff not_False_eq_True)

end
