(* ===== verification/Layout_Normalize.thy ===== *)
theory Layout_Normalize
  imports Layout_Slots
begin

text \<open>
  The layout transformations of \<open>20_layout_state.js\<close>: compaction of a tree to its occupied
  leaves, layouts built from a list of items, the single-column layouts of narrow screens, the
  Vertical Side Pane rules (creation, preservation, canonical placement) and the normalization
  of a stored layout. Stored layouts are \<open>raw_layout\<close> values: what the client itself writes,
  with strings for items and slots.
\<close>

section \<open>Compaction\<close>

record node_info =
  ni_node :: layout_node
  ni_containsSidePane :: bool
  ni_directSidePaneLeaf :: bool
  ni_placeholderOnly :: bool

fun compactLayoutNodeInfo ::
  "layout_node \<Rightarrow> layout_slots \<Rightarrow> bool \<Rightarrow> slot list \<Rightarrow> node_info option" where
  "compactLayoutNodeInfo (Leaf s) L preserve sideSlots =
     (if \<not> paneHasLayoutContent s L then None
      else Some \<lparr>ni_node = Leaf s, ni_containsSidePane = (s \<in> set sideSlots),
                 ni_directSidePaneLeaf = (s \<in> set sideSlots), ni_placeholderOnly = paneIsPlaceholder s L\<rparr>)"
| "compactLayoutNodeInfo (Split d p a b) L preserve sideSlots =
     (case somes [compactLayoutNodeInfo a L preserve sideSlots, compactLayoutNodeInfo b L preserve sideSlots] of
        [] \<Rightarrow> None
      | [c] \<Rightarrow> Some c
      | c0 # cs \<Rightarrow>
          (let children = c0 # cs;
               hasDirectSidePaneLeaf = list_ex ni_directSidePaneLeaf children;
               kept = (if preserve \<or> (d = Row \<and> hasDirectSidePaneLeaf) then children
                       else filter (\<lambda>c. \<not> ni_placeholderOnly c) children);
               compacted = (if kept \<noteq> [] then kept else [c0])
           in (case compacted of
                 c1 # c2 # _ \<Rightarrow>
                   Some \<lparr>ni_node = splitNode d (ni_node c1) (ni_node c2) (PctNumber (splitPercent (PctNumber p))),
                         ni_containsSidePane = list_ex ni_containsSidePane compacted,
                         ni_directSidePaneLeaf = False,
                         ni_placeholderOnly = list_all ni_placeholderOnly compacted\<rparr>
               | _ \<Rightarrow> Some (hd compacted))))"

definition compactLayoutNode ::
  "layout_node option \<Rightarrow> layout_slots \<Rightarrow> bool \<Rightarrow> slot list \<Rightarrow> layout_node option" where
  "compactLayoutNode n L preserve sideSlots =
     (case n of None \<Rightarrow> None | Some t \<Rightarrow> map_option ni_node (compactLayoutNodeInfo t L preserve sideSlots))"

definition copyPanes :: "env \<Rightarrow> layout_slots \<Rightarrow> layout_slots" where
  "copyPanes e L =
     fold (\<lambda>k. setPane k (paneStateForLayoutSlot e k L)) (layoutSlotKeys L) emptyLayoutSlots"

definition compactLayoutSlots :: "env \<Rightarrow> layout_slots \<Rightarrow> bool \<Rightarrow> layout_slots" where
  "compactLayoutSlots e L preserve =
     (let copied = copyPanes e L;
          next = setTree (compactLayoutNode (lay_tree L) copied preserve (sidePaneSlots L)) copied;
          keys = layoutSlotKeys next
      in if keys \<noteq> [] \<and> list_all (\<lambda>k. paneIsPlaceholder k next) keys
         then emptyPlaceholderLayoutSlots (hd keys)
         else if lay_tree next \<noteq> None then next else emptyPlaceholderLayoutSlots ''left'')"

section \<open>Layouts from a list of items\<close>

record mode_options =
  mo_emptySlot :: slot
  mo_preferredSlots :: "slot list"
  mo_reservedSlots :: "slot list"
  mo_active :: "item option"

definition mode_defaults :: mode_options where
  "mode_defaults = \<lparr>mo_emptySlot = ''left'', mo_preferredSlots = [], mo_reservedSlots = [], mo_active = None\<rparr>"

definition claim_slot :: "nat \<Rightarrow> slot list \<Rightarrow> slot \<Rightarrow> slot list \<times> slot list \<Rightarrow> slot list \<times> slot list" where
  "claim_slot needed reserved s = (\<lambda>(ss, used).
     if needed \<le> length ss then (ss, used)
     else if s = [] \<or> s \<in> set reserved \<or> s \<in> set used then (ss, used)
     else (ss @ [s], used @ [s]))"

fun fill_slots :: "nat \<Rightarrow> slot list \<Rightarrow> slot list \<Rightarrow> slot list" where
  "fill_slots 0 ss used = ss"
| "fill_slots (Suc missing) ss used =
     (let s = numbered_slot (free_slot_index used 1) in fill_slots missing (ss @ [s]) (used @ [s]))"

definition layoutModeSlotNames :: "layout_mode \<Rightarrow> nat \<Rightarrow> mode_options \<Rightarrow> slot list" where
  "layoutModeSlotNames mode needed opts =
     (let reserved = mo_reservedSlots opts;
          (ss, used) = fold (claim_slot needed reserved) (layoutModeBaseSlots mode)
             (fold (claim_slot needed reserved) (mo_preferredSlots opts) ([], reserved))
      in fill_slots (needed - length ss) ss used)"

definition assign_groups :: "env \<Rightarrow> (slot \<times> item list) list \<Rightarrow> item option \<Rightarrow> layout_slots \<Rightarrow> layout_slots" where
  "assign_groups e groups active L =
     fold (\<lambda>(s, g). setPane s (paneStateWithTabs e g
        (case active of Some a \<Rightarrow> if a \<in> set g then Some a else first_or_none g | None \<Rightarrow> first_or_none g)
        Generic)) groups L"

definition layoutSlotsForItems :: "env \<Rightarrow> item list \<Rightarrow> layout_mode \<Rightarrow> mode_options \<Rightarrow> layout_slots" where
  "layoutSlotsForItems e items mode opts =
     (let selected = filter (isLayoutItem e) items in
      if selected = [] then emptyPlaceholderLayoutSlots (mo_emptySlot opts)
      else
        let ss = layoutModeSlotNames mode (layoutModePaneCount mode selected) opts;
            groups = partitionLayoutItems selected (length ss);
            active = (case mo_active opts of
                        Some a \<Rightarrow> if a \<in> set selected then Some a else first_or_none selected
                      | None \<Rightarrow> first_or_none selected);
            next = assign_groups e (zip ss groups) active emptyLayoutSlots
        in compactLayoutSlots e (setTree (layoutModeTreeForSlots mode ss) next) False)"

section \<open>Single-column layouts\<close>

definition narrowFileSurfaceSelection :: "item list \<Rightarrow> item option \<Rightarrow> item list \<times> item option" where
  "narrowFileSurfaceSelection items preferred =
     (let surfaces = filter isFileExplorerItem items in
      (case surfaces of
         [] \<Rightarrow> (items, None)
       | s # _ \<Rightarrow>
           (let selected = (case preferred of Some p \<Rightarrow> if isFileExplorerItem p then p else s | None \<Rightarrow> s)
            in (filter (\<lambda>x. \<not> isFileExplorerItem x \<or> x = selected) items, Some selected))))"

text \<open>\<open>mobileSinglePaneTabLimit\<close> is 3; a loop that breaks once the limit is reached.\<close>

definition mobileSinglePaneTabLimit :: nat where "mobileSinglePaneTabLimit = 3"

definition push_limited :: "nat \<Rightarrow> 'a list \<Rightarrow> 'a \<Rightarrow> 'a list" where
  "push_limited limit r x = (if limit \<le> length r then r else push_new r x)"

definition mobileRecentTmuxItems :: "env \<Rightarrow> item list" where
  "mobileRecentTmuxItems e =
     (let source = (if recentSessions e \<noteq> [] then recentSessions e else visibleSessions e)
      in foldl (push_limited mobileSinglePaneTabLimit) []
           (filter (isTmuxSession e) (somes (map (resolveLayoutItem e) source))))"

definition resolveOption :: "env \<Rightarrow> item option \<Rightarrow> item option" where
  "resolveOption e x =
     (case resolveLayoutItem e (case x of None \<Rightarrow> [] | Some s \<Rightarrow> s) of
        None \<Rightarrow> None | Some s \<Rightarrow> if s = [] then None else Some s)"

definition or_else :: "'a option \<Rightarrow> 'a option \<Rightarrow> 'a option" where
  "or_else a b = (case a of Some _ \<Rightarrow> a | None \<Rightarrow> b)"

lemma or_else_simps [simp]: "or_else (Some x) b = Some x" "or_else None b = b"
  by (simp_all add: or_else_def)

definition mobileSinglePaneLayoutSlots :: "env \<Rightarrow> layout_slots option \<Rightarrow> item option \<Rightarrow> layout_slots" where
  "mobileSinglePaneLayoutSlots e slots focusSession =
     (let requested = (case slots of Some L \<Rightarrow> paneItems L | None \<Rightarrow> []);
          restoredActive = (case slots of Some L \<Rightarrow> if requested \<noteq> [] then last_or_none (activePaneItems L) else None
                            | None \<Rightarrow> None);
          explicitFocus = resolveOption e focusSession;
          preferred = or_else explicitFocus (resolveOption e restoredActive);
          candidates = (if requested \<noteq> [] then somes [explicitFocus] @ requested
                        else somes [preferred] @ mobileRecentTmuxItems e);
          tmuxItems = foldl (push_limited mobileSinglePaneTabLimit) [] (filter (isTmuxSession e) candidates);
          supplementary = foldl push_new []
             (filter (\<lambda>x. isLayoutItem e x \<and> \<not> isTmuxSession e x) candidates);
          (items, selected) = narrowFileSurfaceSelection (tmuxItems @ supplementary) preferred;
          active = (case preferred of
                      Some p \<Rightarrow> if p \<in> set items then Some p else or_else selected (first_or_none items)
                    | None \<Rightarrow> or_else selected (first_or_none items))
      in layoutSlotsForItems e items Single (mode_defaults\<lparr>mo_active := active\<rparr>))"

definition narrowSingleColumnLayoutSlots :: "env \<Rightarrow> layout_slots \<Rightarrow> item option \<Rightarrow> layout_slots" where
  "narrowSingleColumnLayoutSlots e L focusSession =
     (if mobileSinglePaneMode e then mobileSinglePaneLayoutSlots e (Some L) focusSession
      else
        let requested = paneItems L;
            preferred = resolveOption e focusSession;
            visibleActive = activePaneItems L;
            active = or_else
              (List.find (\<lambda>x. x \<in> set requested)
                (somes [preferred] @ filter (\<lambda>x. \<not> isFileExplorerItem x) visibleActive
                  @ visibleActive @ requested))
              (first_or_none requested);
            (items, selected) = narrowFileSurfaceSelection requested (or_else preferred active)
        in layoutSlotsForItems e items Single
             (mode_defaults\<lparr>mo_active := (case active of
                  Some a \<Rightarrow> if a \<in> set items then Some a else or_else selected (first_or_none items)
                | None \<Rightarrow> or_else selected (first_or_none items))\<rparr>))"

section \<open>Side panes\<close>

definition layoutFileSurfaceItems :: "env \<Rightarrow> item list" where
  "layoutFileSurfaceItems e = filter (isLayoutItem e) fileExplorerItemIds"

definition layoutWithSidePaneItems ::
  "env \<Rightarrow> layout_slots \<Rightarrow> item list \<Rightarrow> pane_side \<Rightarrow> bool \<Rightarrow> item option \<Rightarrow> rat option \<Rightarrow> layout_slots" where
  "layoutWithSidePaneItems e L items sd forceCreate optActive optWidth =
     (let widthPercent = (case optWidth of Some w \<Rightarrow> clampSidePaneWidthPercent w
                          | None \<Rightarrow> sidePaneDefaultWidthPercent);
          requested = filter (\<lambda>x. isLayoutItem e x \<and> paneRoleAllowsItem e (Side sd) x False False) items;
          missing = filter (\<lambda>x. x \<notin> set (paneItems L)) requested
      in (case sidePaneSlot sd L of
            Some targetSlot \<Rightarrow>
              let next = (if missing \<noteq> [] then
                    let tabs = paneTabs targetSlot L @ missing
                    in setPane targetSlot (paneStateWithTabsForSlot e targetSlot tabs
                         (or_else optActive (or_else (activeItemForSide targetSlot L) (first_or_none tabs))) L) L
                  else L)
              in compactLayoutSlots e next True
          | None \<Rightarrow>
              if missing = [] \<and> \<not> forceCreate then L
              else
                let sideItems = (if forceCreate then requested else missing) in
                if sideItems = [] then L
                else
                  let sideSlotName = (if sd = SideLeft \<and> getPane L ''left'' = None then ''left'' else nextLayoutSlot L);
                      next = setPane sideSlotName
                        (paneStateWithTabs e sideItems (or_else optActive (first_or_none sideItems)) (Side sd)) L
                  in (case lay_tree next of
                        Some existingTree \<Rightarrow>
                          compactLayoutSlots e
                            (setTree (Some (if sd = SideLeft
                               then splitNode Row (Leaf sideSlotName) existingTree (PctNumber widthPercent)
                               else splitNode Row existingTree (Leaf sideSlotName) (PctNumber (100 - widthPercent)))) next)
                            True
                      | None \<Rightarrow>
                          let fillerSlot = nextLayoutSlot next;
                              next' = setPane fillerSlot (emptyPlaceholderPaneState Generic False) next
                          in compactLayoutSlots e
                            (setTree (Some (if sd = SideLeft
                               then splitNode Row (Leaf sideSlotName) (Leaf fillerSlot) (PctNumber widthPercent)
                               else splitNode Row (Leaf fillerSlot) (Leaf sideSlotName) (PctNumber (100 - widthPercent)))) next')
                            True)))"

definition layoutWithPreservedSidePanes :: "env \<Rightarrow> layout_slots \<Rightarrow> layout_slots \<Rightarrow> layout_slots" where
  "layoutWithPreservedSidePanes e contentSlots sourceSlots =
     foldl (\<lambda>next sd.
        (case sidePaneSlot sd sourceSlots of
           None \<Rightarrow> next
         | Some sourceSlot \<Rightarrow>
             if paneTabs sourceSlot sourceSlots = [] then next
             else layoutWithSidePaneItems e next (paneTabs sourceSlot sourceSlots) sd True
                    (activeItemForSide sourceSlot sourceSlots) (Some (sidePaneWidthPercent sd sourceSlots))))
       contentSlots paneSideValues"

definition layoutWithDefaultLeftSidePane :: "env \<Rightarrow> layout_slots \<Rightarrow> layout_slots" where
  "layoutWithDefaultLeftSidePane e L =
     layoutWithSidePaneItems e L (layoutFileSurfaceItems e) SideLeft True (Some finderItemId) None"

section \<open>Canonical side-pane placement\<close>

record norm_options =
  no_focusSession :: "item option"
  no_allowSidePanes :: bool
  no_preservePlaceholderSlots :: bool
  no_preserveRemovedItems :: "item list"
  no_preserveRemovedSlots :: bool

definition norm_defaults :: norm_options where
  "norm_defaults = \<lparr>no_focusSession = None, no_allowSidePanes = True, no_preservePlaceholderSlots = False,
     no_preserveRemovedItems = [], no_preserveRemovedSlots = False\<rparr>"

record side_group =
  sg_slot :: "slot option"
  sg_tabs :: "item list"
  sg_active :: "item option"
  sg_placeholder :: bool

record side_sort =
  ss_left :: "side_group list"
  ss_right :: "side_group list"
  ss_displaced :: "item list"

definition groups_of :: "pane_side \<Rightarrow> side_sort \<Rightarrow> side_group list" where
  "groups_of sd st = (case sd of SideLeft \<Rightarrow> ss_left st | SideRight \<Rightarrow> ss_right st)"

definition set_groups :: "pane_side \<Rightarrow> side_group list \<Rightarrow> side_sort \<Rightarrow> side_sort" where
  "set_groups sd gs st =
     (case sd of SideLeft \<Rightarrow> st\<lparr>ss_left := gs\<rparr> | SideRight \<Rightarrow> st\<lparr>ss_right := gs\<rparr>)"

definition in_groups :: "item \<Rightarrow> side_group list \<Rightarrow> bool" where
  "in_groups x gs = list_ex (\<lambda>g. x \<in> set (sg_tabs g)) gs"

text \<open>One original side pane: accept the items its role allows that no group of the side holds
  yet, displace the rest.\<close>

definition sort_side_slot :: "env \<Rightarrow> layout_slots \<Rightarrow> slot \<Rightarrow> side_sort \<Rightarrow> side_sort" where
  "sort_side_slot e L s st =
     (case paneRoleForSlot s L of
        Generic \<Rightarrow> st
      | Side sd \<Rightarrow>
          (let role = Side sd; tabs = paneTabs s L;
               accepted = filter (\<lambda>x. paneRoleAllowsItem e role x False False \<and> \<not> in_groups x (groups_of sd st)) tabs;
               st1 = st\<lparr>ss_displaced := foldl push_new (ss_displaced st)
                        (filter (\<lambda>x. \<not> paneRoleAllowsItem e role x False False) tabs)\<rparr>
           in if accepted \<noteq> [] \<or> paneIsPlaceholder s L
              then set_groups sd (groups_of sd st1 @
                     [\<lparr>sg_slot = Some s, sg_tabs = accepted,
                       sg_active = (case activeItemForSide s L of
                           Some a \<Rightarrow> if a \<in> set accepted then Some a else first_or_none accepted
                         | None \<Rightarrow> first_or_none accepted),
                       sg_placeholder = (accepted = [])\<rparr>]) st1
              else st1))"

text \<open>A side-required item found in a generic pane goes to the first left group.\<close>

definition require_left :: "item \<Rightarrow> side_group list \<Rightarrow> side_group list" where
  "require_left x gs =
     (if in_groups x gs then gs
      else (let gs' = (if gs = [] then [\<lparr>sg_slot = None, sg_tabs = [], sg_active = None, sg_placeholder = False\<rparr>] else gs);
                g = hd gs'
            in g\<lparr>sg_tabs := sg_tabs g @ [x],
                 sg_active := (case sg_active g of None \<Rightarrow> Some x | Some a \<Rightarrow> Some a)\<rparr> # tl gs'))"

record canon_state =
  cs_next :: layout_slots
  cs_removed :: "slot list"
  cs_left :: "side_group list"

definition sort_generic_slot :: "env \<Rightarrow> layout_slots \<Rightarrow> slot \<Rightarrow> canon_state \<Rightarrow> canon_state" where
  "sort_generic_slot e L s cs =
     (let tabs = paneTabs s L;
          required = filter (\<lambda>x. panePlacementForItem x = SideRequired) tabs;
          left' = fold require_left required (cs_left cs);
          genericTabs = filter (\<lambda>x. x \<notin> set required) tabs
      in if genericTabs \<noteq> [] then
           cs\<lparr>cs_next := setPane s (paneStateWithTabs e genericTabs (activeItemForSide s L) Generic) (cs_next cs),
              cs_left := left'\<rparr>
         else if paneIsPlaceholder s L then
           cs\<lparr>cs_next := setPane s (emptyPlaceholderPaneState Generic False) (cs_next cs), cs_left := left'\<rparr>
         else cs\<lparr>cs_removed := cs_removed cs @ [s], cs_left := left'\<rparr>)"

text \<open>The generic pane that takes the displaced items: the first that is no placeholder.\<close>

definition displaced_target :: "layout_slots \<Rightarrow> slot \<Rightarrow> slot list \<Rightarrow> slot" where
  "displaced_target L g gs =
     (case List.find (\<lambda>s. \<not> paneIsPlaceholder s L) (g # gs) of Some s \<Rightarrow> s | None \<Rightarrow> g)"

definition place_displaced :: "env \<Rightarrow> item list \<Rightarrow> layout_slots \<Rightarrow> layout_slots" where
  "place_displaced e displaced L =
     (case treeLeafSlots (lay_tree L) of
        [] \<Rightarrow>
          (let fillerSlot = nextAvailableLayoutSlot L (Some ''main'')
           in setTree (Some (Leaf fillerSlot))
                (setPane fillerSlot
                  (if displaced \<noteq> [] then paneStateWithTabs e displaced (first_or_none displaced) Generic
                   else emptyPlaceholderPaneState Generic False) L))
      | g # gs \<Rightarrow>
          if displaced = [] then L
          else
            (let targetSlot = displaced_target L g gs;
                 tabs = paneTabs targetSlot L @ filter (\<lambda>x. x \<notin> set (paneTabs targetSlot L)) displaced
             in setPane targetSlot
                  (paneStateWithTabs e tabs (or_else (activeItemForSide targetSlot L) (first_or_none tabs)) Generic) L))"

fun onlyVertical :: "layout_node \<Rightarrow> bool" where
  "onlyVertical (Leaf _) = True"
| "onlyVertical (Split d _ a b) = (d = Column \<and> onlyVertical a \<and> onlyVertical b)"

definition sidePaneColumnTree :: "slot list \<Rightarrow> layout_node \<Rightarrow> layout_node option" where
  "sidePaneColumnTree slotsForSide originalTree =
     (let removed = set (filter (\<lambda>s. s \<notin> set slotsForSide) (layoutLeafSlots originalTree));
          preserved = layoutTreeWithoutSlots originalTree removed
      in (case preserved of
            Some t \<Rightarrow> if onlyVertical t \<and> length (layoutLeafSlots t) = length slotsForSide then Some t
                      else columnTreeForSlots slotsForSide
          | None \<Rightarrow> columnTreeForSlots slotsForSide))"

definition attach_group :: "env \<Rightarrow> pane_side \<Rightarrow> side_group \<Rightarrow> layout_slots \<times> slot list \<Rightarrow> layout_slots \<times> slot list" where
  "attach_group e sd g = (\<lambda>(L, slotsForSide).
     let preferred = or_else (sg_slot g) (if sd = SideLeft \<and> slotsForSide = [] then Some ''left'' else None);
         s = nextAvailableLayoutSlot L preferred
     in (setPane s (if sg_placeholder g then emptyPlaceholderPaneState (Side sd) False
                    else paneStateWithTabs e (sg_tabs g) (or_else (sg_active g) (first_or_none (sg_tabs g))) (Side sd)) L,
         slotsForSide @ [s]))"

definition attachSide ::
  "env \<Rightarrow> pane_side \<Rightarrow> side_group list \<Rightarrow> layout_node \<Rightarrow> layout_slots \<Rightarrow> layout_slots \<times> layout_node option" where
  "attachSide e sd groups originalTree L =
     (if groups = [] then (L, None)
      else let (L', slotsForSide) = fold (attach_group e sd) groups (L, [])
        in (L', sidePaneColumnTree slotsForSide originalTree))"

definition joinSideTrees ::
  "layout_node option \<Rightarrow> layout_node \<Rightarrow> layout_node option \<Rightarrow> rat \<Rightarrow> rat \<Rightarrow> layout_node" where
  "joinSideTrees leftTree contentTree rightTree leftWidth rightWidth =
     (case (leftTree, rightTree) of
        (Some l, Some r) \<Rightarrow>
          (let remainingWidth = max minSplitPercent (100 - leftWidth);
               rightRelativeWidth = min maxSplitPercent (max minSplitPercent (rightWidth * 100 / remainingWidth));
               contentAndRight = splitNode Row contentTree r (PctNumber (100 - rightRelativeWidth))
           in splitNode Row l contentAndRight (PctNumber leftWidth))
      | (Some l, None) \<Rightarrow> splitNode Row l contentTree (PctNumber leftWidth)
      | (None, Some r) \<Rightarrow> splitNode Row contentTree r (PctNumber (100 - rightWidth))
      | (None, None) \<Rightarrow> contentTree)"

definition demoteSidePanes :: "env \<Rightarrow> layout_slots \<Rightarrow> layout_slots" where
  "demoteSidePanes e L =
     foldl (\<lambda>G s. let tabs = paneTabs s G in
        setPane s (if tabs \<noteq> [] then paneStateWithTabs e tabs (activeItemForSide s G) Generic
                   else emptyPlaceholderPaneState Generic False) G)
       L (sidePaneSlots L)"

text \<open>The stages of \<open>canonicalizeSidePaneLayout\<close>: sort the original side panes into groups,
  sort the generic panes, place what was displaced, attach each side, join the trees.\<close>

definition sortedSidePanes :: "env \<Rightarrow> layout_slots \<Rightarrow> side_sort" where
  "sortedSidePanes e L =
     fold (sort_side_slot e L) (sidePaneSlots L) \<lparr>ss_left = [], ss_right = [], ss_displaced = []\<rparr>"

definition sortedGenericPanes :: "env \<Rightarrow> layout_slots \<Rightarrow> canon_state" where
  "sortedGenericPanes e L =
     fold (sort_generic_slot e L)
       (filter (\<lambda>s. s \<notin> set (sidePaneSlots L)) (layoutSlotKeys L))
       \<lparr>cs_next = emptyLayoutSlots, cs_removed = sidePaneSlots L, cs_left = ss_left (sortedSidePanes e L)\<rparr>"

definition contentLayout :: "env \<Rightarrow> layout_slots \<Rightarrow> layout_node \<Rightarrow> layout_slots" where
  "contentLayout e L originalTree =
     (let generic = sortedGenericPanes e L in
      place_displaced e (ss_displaced (sortedSidePanes e L))
        (setTree (layoutTreeWithoutSlots originalTree (set (cs_removed generic))) (cs_next generic)))"

definition canonicalSidePanes :: "env \<Rightarrow> layout_slots \<Rightarrow> layout_node \<Rightarrow> bool \<Rightarrow> layout_slots" where
  "canonicalSidePanes e L originalTree preserve =
     (let (withLeft, leftTree) =
            attachSide e SideLeft (cs_left (sortedGenericPanes e L)) originalTree (contentLayout e L originalTree);
          (withRight, rightTree) =
            attachSide e SideRight (ss_right (sortedSidePanes e L)) originalTree withLeft
      in (case lay_tree withRight of
            None \<Rightarrow> withRight
          | Some contentTree \<Rightarrow>
              compactLayoutSlots e
                (setTree (Some (joinSideTrees leftTree contentTree rightTree
                    (sidePaneWidthPercent SideLeft L) (sidePaneWidthPercent SideRight L))) withRight)
                (preserve \<or> leftTree \<noteq> None \<or> rightTree \<noteq> None)))"

definition canonicalizeSidePaneLayout :: "env \<Rightarrow> layout_slots \<Rightarrow> norm_options \<Rightarrow> layout_slots" where
  "canonicalizeSidePaneLayout e L opts =
     (case lay_tree L of
        None \<Rightarrow> L
      | Some originalTree \<Rightarrow>
          if narrowSingleColumnMode e then narrowSingleColumnLayoutSlots e L (no_focusSession opts)
          else if \<not> no_allowSidePanes opts \<or> sidePaneConstrainedMode e
          then compactLayoutSlots e (demoteSidePanes e L) (no_preservePlaceholderSlots opts)
          else canonicalSidePanes e L originalTree (no_preservePlaceholderSlots opts))"

end
