(* ===== verification/Layout_Invariants.thy ===== *)
theory Layout_Invariants
  imports Layout_Normalize
begin

text \<open>
  Facts about the layout transformations: compaction and canonical side-pane placement neither
  lose nor invent tabs, they respect the pane roles, and every pane they build satisfies the
  pane invariant.
\<close>

section \<open>Compaction\<close>

definition info_ok :: "layout_node \<Rightarrow> layout_slots \<Rightarrow> node_info \<Rightarrow> bool" where
  "info_ok n L i =
     (set (layoutLeafSlots (ni_node i)) \<subseteq> set (layoutLeafSlots n)
      \<and> (\<forall>s \<in> set (layoutLeafSlots n). paneTabs s L \<noteq> [] \<longrightarrow> s \<in> set (layoutLeafSlots (ni_node i)))
      \<and> (\<forall>s \<in> set (layoutLeafSlots (ni_node i)). paneHasLayoutContent s L)
      \<and> (ni_placeholderOnly i \<longleftrightarrow> (\<forall>s \<in> set (layoutLeafSlots (ni_node i)). paneIsPlaceholder s L)))"

lemma placeholder_no_tabs: "paneIsPlaceholder s L \<Longrightarrow> paneTabs s L = []"
  by (auto simp: paneIsPlaceholder_def paneTabs_def split: option.splits)

lemma compact_info_ok:
  "case compactLayoutNodeInfo n L p ss of
     None \<Rightarrow> \<forall>s \<in> set (layoutLeafSlots n). \<not> paneHasLayoutContent s L
   | Some i \<Rightarrow> info_ok n L i"
proof (induction n)
  case (Leaf s)
  then show ?case by (auto simp: info_ok_def)
next
  case (Split d q a b)
  let ?a = "compactLayoutNodeInfo a L p ss" and ?b = "compactLayoutNodeInfo b L p ss"
  have keep: "\<And>m i s. info_ok m L i \<Longrightarrow> ni_placeholderOnly i \<Longrightarrow> s \<in> set (layoutLeafSlots m) \<Longrightarrow> paneTabs s L = []"
    by (auto simp: info_ok_def dest: placeholder_no_tabs)
  show ?case
  proof (cases ?a)
    case None
    then show ?thesis using Split.IH
      by (cases ?b) (auto simp: info_ok_def paneHasLayoutContent_def)
  next
    case (Some i)
    show ?thesis
    proof (cases ?b)
      case None
      with Some show ?thesis using Split.IH by (auto simp: info_ok_def paneHasLayoutContent_def)
    next
      case (Some j)
      with \<open>?a = Some i\<close> Split.IH have ij: "info_ok a L i" "info_ok b L j" by simp_all
      show ?thesis
        using ij keep [OF ij(1)] keep [OF ij(2)] \<open>?a = Some i\<close> \<open>?b = Some j\<close>
        by (cases "ni_placeholderOnly i"; cases "ni_placeholderOnly j") (auto simp: info_ok_def Let_def)
    qed
  qed
qed

lemma compact_info_node_ok:
  "node_ok n \<Longrightarrow> compactLayoutNodeInfo n L p ss = Some i \<Longrightarrow> node_ok (ni_node i)"
proof (induction n arbitrary: i)
  case (Split d q a b)
  let ?a = "compactLayoutNodeInfo a L p ss" and ?b = "compactLayoutNodeInfo b L p ss"
  show ?case
    using Split by (cases ?a; cases ?b) (auto simp: Let_def split: if_splits)
qed (auto split: if_splits)

lemma getPane_copyPanes [simp]:
  "getPane (copyPanes e L) s =
     (if s \<in> set (layoutSlotKeys L) then Some (paneStateForLayoutSlot e s L) else None)"
  by (simp add: copyPanes_def panes.look_fold_put)

lemma paneTabs_setTree [simp]: "paneTabs s (setTree t L) = paneTabs s L"
  and paneRoleForSlot_setTree [simp]: "paneRoleForSlot s (setTree t L) = paneRoleForSlot s L"
  and paneIsPlaceholder_setTree [simp]: "paneIsPlaceholder s (setTree t L) = paneIsPlaceholder s L"
  and paneHasLayoutContent_setTree [simp]: "paneHasLayoutContent s (setTree t L) = paneHasLayoutContent s L"
  by (simp_all add: paneTabs_def paneRoleForSlot_def paneIsPlaceholder_def paneHasLayoutContent_def)

lemma paneTabs_copyPanes:
  "s \<in> set (layoutSlotKeys L) \<Longrightarrow> paneTabs s (copyPanes e L) = orderPaneTabs e (paneTabs s L)"
  by (auto simp: paneTabs_def [of s "copyPanes e L"] paneStateForLayoutSlot_def placeholder_no_tabs
      orderPaneTabs_def)

lemma paneRole_copyPanes:
  "s \<in> set (layoutSlotKeys L) \<Longrightarrow> paneRoleForSlot s (copyPanes e L) = paneRoleForSlot s L"
  by (simp add: paneRoleForSlot_def [of s "copyPanes e L"] paneStateForLayoutSlot_def)

lemma paneIsPlaceholder_copyPanes:
  "s \<in> set (layoutSlotKeys L) \<Longrightarrow> paneIsPlaceholder s (copyPanes e L) = paneIsPlaceholder s L"
  by (simp add: paneIsPlaceholder_def [of s "copyPanes e L"] paneStateForLayoutSlot_def)

text \<open>What compaction leaves at each key: the kept panes with their roles, or, when nothing but
  placeholders is left, one generic placeholder.\<close>

lemma compact_cases:
  assumes t: "lay_tree L = Some n"
  obtains (kept) i where "compactLayoutNodeInfo n (copyPanes e L) p (sidePaneSlots L) = Some i"
      "\<not> (\<forall>k \<in> set (layoutLeafSlots (ni_node i)). paneIsPlaceholder k (copyPanes e L))"
      "compactLayoutSlots e L p = setTree (Some (ni_node i)) (copyPanes e L)"
    | (blank) s where "compactLayoutSlots e L p = emptyPlaceholderLayoutSlots s"
      "\<forall>k \<in> set (layoutLeafSlots n). paneTabs k (copyPanes e L) = []"
proof (cases "compactLayoutNodeInfo n (copyPanes e L) p (sidePaneSlots L)")
  case None
  with compact_info_ok [of n "copyPanes e L" p "sidePaneSlots L"]
  have none: "\<forall>k \<in> set (layoutLeafSlots n). \<not> paneHasLayoutContent k (copyPanes e L)" by simp
  have "\<exists>s. compactLayoutSlots e L p = emptyPlaceholderLayoutSlots s"
    using t None by (simp add: compactLayoutSlots_def compactLayoutNode_def Let_def) blast
  then show ?thesis using blank none by (auto simp: paneHasLayoutContent_def)
next
  case (Some i)
  with compact_info_ok [of n "copyPanes e L" p "sidePaneSlots L"]
  have ok: "info_ok n (copyPanes e L) i" by simp
  show ?thesis
  proof (cases "\<forall>k \<in> set (layoutLeafSlots (ni_node i)). paneIsPlaceholder k (copyPanes e L)")
    case True
    have "\<exists>s. compactLayoutSlots e L p = emptyPlaceholderLayoutSlots s"
      using t Some True
      by (simp add: compactLayoutSlots_def compactLayoutNode_def Let_def layoutSlotKeys_def list_all_iff)
        blast
    moreover have "\<forall>k \<in> set (layoutLeafSlots n). paneTabs k (copyPanes e L) = []"
      using ok True by (auto simp: info_ok_def dest: placeholder_no_tabs)
    ultimately show ?thesis using blank by blast
  next
    case False
    have "compactLayoutSlots e L p = setTree (Some (ni_node i)) (copyPanes e L)"
      using t Some False
      by (auto simp: compactLayoutSlots_def compactLayoutNode_def Let_def layoutSlotKeys_def list_all_iff)
    with kept Some False show ?thesis by blast
  qed
qed

lemma keys_placeholder [simp]:
  "layoutSlotKeys (emptyPlaceholderLayoutSlots s) = [s]"
  "paneTabs t (emptyPlaceholderLayoutSlots s) = []"
  "lay_tree (emptyPlaceholderLayoutSlots s) = Some (Leaf s)"
  by (simp_all add: emptyPlaceholderLayoutSlots_def layoutSlotKeys_def paneTabs_def)

theorem items_compactLayoutSlots:
  assumes t: "lay_tree L = Some n"
  shows "set (paneItems (compactLayoutSlots e L p)) = {x \<in> set (paneItems L). isLayoutItem e x}"
  using t
proof (cases rule: compact_cases [where e = e and p = p])
  case (kept i)
  have ok: "info_ok n (copyPanes e L) i"
    using compact_info_ok [of n "copyPanes e L" p "sidePaneSlots L"] kept(1) by simp
  have keys: "layoutSlotKeys L = layoutLeafSlots n" using t by (rule layoutSlotKeys_tree)
  have "set (paneItems (compactLayoutSlots e L p))
      = (\<Union>s \<in> set (layoutLeafSlots (ni_node i)). set (paneTabs s (copyPanes e L)))"
    by (simp add: kept(3) set_paneItems layoutSlotKeys_def)
  also have "\<dots> = (\<Union>s \<in> set (layoutLeafSlots n). set (paneTabs s (copyPanes e L)))"
    using ok by (auto simp: info_ok_def)
  also have "\<dots> = {x \<in> set (paneItems L). isLayoutItem e x}"
    by (auto simp: set_paneItems keys paneTabs_copyPanes)
  finally show ?thesis .
next
  case (blank s)
  have keys: "layoutSlotKeys L = layoutLeafSlots n" using t by (rule layoutSlotKeys_tree)
  have "{x \<in> set (paneItems L). isLayoutItem e x}
      = (\<Union>s \<in> set (layoutLeafSlots n). set (paneTabs s (copyPanes e L)))"
    by (auto simp: set_paneItems keys paneTabs_copyPanes)
  with blank(2) have "{x \<in> set (paneItems L). isLayoutItem e x} = {}" by simp
  moreover have "set (paneItems (compactLayoutSlots e L p)) = {}"
    by (simp add: blank(1) set_paneItems)
  ultimately show ?thesis by simp
qed

section \<open>Sorting the side panes\<close>

definition group_items :: "side_group list \<Rightarrow> item set" where
  "group_items gs = (\<Union>g \<in> set gs. set (sg_tabs g))"

definition solid_groups :: "side_group list \<Rightarrow> bool" where
  "solid_groups gs = (\<forall>g \<in> set gs. \<not> sg_placeholder g)"

abbreviation sideAllows :: "env \<Rightarrow> pane_side \<Rightarrow> item \<Rightarrow> bool" where
  "sideAllows e sd x \<equiv> paneRoleAllowsItem e (Side sd) x False False"

lemma in_groups_iff: "in_groups x gs \<longleftrightarrow> x \<in> group_items gs"
  by (auto simp: in_groups_def group_items_def list_ex_iff)

lemma group_items_append [simp]: "group_items (gs @ hs) = group_items gs \<union> group_items hs"
  by (auto simp: group_items_def)

lemma groups_set_groups [simp]:
  "groups_of sd (set_groups sd' gs st) = (if sd = sd' then gs else groups_of sd st)"
  "ss_displaced (set_groups sd gs st) = ss_displaced st"
  by (auto simp: groups_of_def set_groups_def split: pane_side.splits)

lemma groups_displaced [simp]: "groups_of sd (st\<lparr>ss_displaced := d\<rparr>) = groups_of sd st"
  by (auto simp: groups_of_def split: pane_side.splits)

lemma sort_side_items:
  "group_items (groups_of sd (sort_side_slot e L s st)) =
   group_items (groups_of sd st)
   \<union> (if paneRoleForSlot s L = Side sd then {x \<in> set (paneTabs s L). sideAllows e sd x} else {})"
  by (auto simp: sort_side_slot_def Let_def in_groups_iff filter_empty_conv split: pane_role.splits)
    (auto simp: group_items_def)

lemma sort_side_displaced:
  "set (ss_displaced (sort_side_slot e L s st)) =
   set (ss_displaced st)
   \<union> {x \<in> set (paneTabs s L). \<exists>sd. paneRoleForSlot s L = Side sd \<and> \<not> sideAllows e sd x}"
  by (auto simp: sort_side_slot_def Let_def split: pane_role.splits)

lemma sort_side_solid:
  assumes "solid_groups (groups_of sd st)" "paneRoleForSlot s L = Side sd \<Longrightarrow> \<not> paneIsPlaceholder s L"
  shows "solid_groups (groups_of sd (sort_side_slot e L s st))"
  using assms by (auto simp: sort_side_slot_def Let_def solid_groups_def split: pane_role.splits)

lemma fold_sort_side:
  defines "run \<equiv> \<lambda>e L ss st. fold (sort_side_slot e L) ss st"
  shows "group_items (groups_of sd (run e L ss st)) = group_items (groups_of sd st)
      \<union> {x. \<exists>s \<in> set ss. paneRoleForSlot s L = Side sd \<and> x \<in> set (paneTabs s L) \<and> sideAllows e sd x}"
    and "set (ss_displaced (run e L ss st)) = set (ss_displaced st)
      \<union> {x. \<exists>s \<in> set ss. \<exists>sd. paneRoleForSlot s L = Side sd \<and> x \<in> set (paneTabs s L) \<and> \<not> sideAllows e sd x}"
    and "solid_groups (groups_of sd st) \<Longrightarrow>
      (\<And>s. s \<in> set ss \<Longrightarrow> paneRoleForSlot s L = Side sd \<Longrightarrow> \<not> paneIsPlaceholder s L) \<Longrightarrow>
      solid_groups (groups_of sd (run e L ss st))"
  unfolding run_def
  by (induction ss arbitrary: st)
    (auto simp: sort_side_items sort_side_displaced sort_side_solid)

lemma fold_require_left_items: "group_items (fold require_left xs gs) = group_items gs \<union> set xs"
proof (induction xs arbitrary: gs)
  case (Cons x xs)
  have "group_items (require_left x gs) = insert x (group_items gs)"
    by (cases gs) (auto simp: require_left_def Let_def in_groups_iff, auto simp: group_items_def)
  with Cons show ?case by simp
qed simp

lemma fold_require_left_solid: "solid_groups gs \<Longrightarrow> solid_groups (fold require_left xs gs)"
proof (induction xs arbitrary: gs)
  case (Cons x xs)
  have "solid_groups (require_left x gs)"
    using Cons.prems by (cases gs) (auto simp: require_left_def Let_def solid_groups_def)
  with Cons show ?case by simp
qed simp

section \<open>Sorting the generic panes\<close>

definition genericTabs :: "layout_slots \<Rightarrow> slot \<Rightarrow> item list" where
  "genericTabs L s = filter (\<lambda>x. panePlacementForItem x \<noteq> SideRequired) (paneTabs s L)"

definition genericPane :: "env \<Rightarrow> layout_slots \<Rightarrow> slot \<Rightarrow> pane_state" where
  "genericPane e L s =
     (if genericTabs L s \<noteq> [] then paneStateWithTabs e (genericTabs L s) (activeItemForSide s L) Generic
      else emptyPlaceholderPaneState Generic False)"

definition emptiedSlot :: "layout_slots \<Rightarrow> slot \<Rightarrow> bool" where
  "emptiedSlot L s = (genericTabs L s = [] \<and> \<not> paneIsPlaceholder s L)"

lemma sort_generic_slot_alt:
  "sort_generic_slot e L s cs =
     (let left' = fold require_left (filter (\<lambda>x. panePlacementForItem x = SideRequired) (paneTabs s L)) (cs_left cs)
      in if emptiedSlot L s then cs\<lparr>cs_removed := cs_removed cs @ [s], cs_left := left'\<rparr>
         else cs\<lparr>cs_next := setPane s (genericPane e L s) (cs_next cs), cs_left := left'\<rparr>)"
proof -
  have "filter (\<lambda>x. x \<notin> set (filter (\<lambda>x. panePlacementForItem x = SideRequired) (paneTabs s L))) (paneTabs s L)
      = genericTabs L s"
    by (auto simp: genericTabs_def intro: filter_cong)
  then show ?thesis
    by (auto simp: sort_generic_slot_def emptiedSlot_def genericPane_def Let_def)
qed

lemma fold_sort_generic:
  defines "run \<equiv> \<lambda>e L ss cs. fold (sort_generic_slot e L) ss cs"
  shows "getPane (cs_next (run e L ss cs)) t =
      (if t \<in> set ss \<and> \<not> emptiedSlot L t then Some (genericPane e L t) else getPane (cs_next cs) t)"
    and "set (cs_removed (run e L ss cs)) = set (cs_removed cs) \<union> {s \<in> set ss. emptiedSlot L s}"
    and "group_items (cs_left (run e L ss cs)) = group_items (cs_left cs)
      \<union> {x. \<exists>s \<in> set ss. x \<in> set (paneTabs s L) \<and> panePlacementForItem x = SideRequired}"
    and "solid_groups (cs_left cs) \<Longrightarrow> solid_groups (cs_left (run e L ss cs))"
    and "lay_tree (cs_next (run e L ss cs)) = lay_tree (cs_next cs)"
  unfolding run_def
  by (induction ss arbitrary: cs)
    (auto simp: sort_generic_slot_alt Let_def fold_require_left_items fold_require_left_solid)

section \<open>Placing displaced items\<close>

definition tabs_at :: "slot list \<Rightarrow> layout_slots \<Rightarrow> item set" where
  "tabs_at ss L = (\<Union>s \<in> set ss. set (paneTabs s L))"

lemma tabs_at_cong: "(\<And>s. s \<in> set ss \<Longrightarrow> getPane L s = getPane M s) \<Longrightarrow> tabs_at ss L = tabs_at ss M"
  by (auto simp: tabs_at_def paneTabs_def)

lemma tabs_at_append [simp]: "tabs_at (ss @ ts) L = tabs_at ss L \<union> tabs_at ts L"
  by (auto simp: tabs_at_def)

lemma paneTabs_setPane [simp]: "paneTabs t (setPane s p L) = (if t = s then ps_tabs p else paneTabs t L)"
  and paneRole_setPane [simp]: "paneRoleForSlot t (setPane s p L) = (if t = s then ps_role p else paneRoleForSlot t L)"
  by (simp_all add: paneTabs_def paneRoleForSlot_def)

lemma displaced_target_in: "displaced_target L g gs \<in> set (g # gs)"
proof -
  have "List.find P xs = Some s \<Longrightarrow> s \<in> set xs" for P :: "slot \<Rightarrow> bool" and xs s
    by (auto simp: find_Some_iff)
  then show ?thesis unfolding displaced_target_def
    by (cases "List.find (\<lambda>s. \<not> paneIsPlaceholder s L) (g # gs)") (simp, metis option.simps(5))
qed

lemma placed_tabs:
  assumes d: "\<forall>x \<in> set displaced. isLayoutItem e x"
    and p: "\<forall>s \<in> set (treeLeafSlots (lay_tree L)). \<forall>x \<in> set (paneTabs s L). isLayoutItem e x"
  shows "tabs_at (treeLeafSlots (lay_tree (place_displaced e displaced L))) (place_displaced e displaced L)
       = tabs_at (treeLeafSlots (lay_tree L)) L \<union> set displaced"
proof (cases "treeLeafSlots (lay_tree L)")
  case Nil
  with d show ?thesis by (auto simp: place_displaced_def tabs_at_def Let_def)
next
  case (Cons g gs)
  let ?t = "displaced_target L g gs"
  have t: "?t \<in> set (g # gs)" by (rule displaced_target_in)
  show ?thesis
  proof (cases "displaced = []")
    case True
    with Cons show ?thesis by (simp add: place_displaced_def)
  next
    case False
    have "lay_tree (place_displaced e displaced L) = lay_tree L"
      using Cons False by (simp add: place_displaced_def Let_def)
    moreover have "set (paneTabs s (place_displaced e displaced L)) =
        (if s = ?t then set (paneTabs ?t L) \<union> set displaced else set (paneTabs s L))" for s
      using Cons False d p t by (auto simp: place_displaced_def Let_def)
    ultimately show ?thesis
      using t Cons by (auto simp: tabs_at_def split: if_splits)
  qed
qed

lemma placed_generic:
  assumes "\<forall>s \<in> set (treeLeafSlots (lay_tree L)). paneRoleForSlot s L = Generic"
  shows "\<forall>s \<in> set (treeLeafSlots (lay_tree (place_displaced e displaced L))).
           paneRoleForSlot s (place_displaced e displaced L) = Generic"
  using assms by (auto simp: place_displaced_def Let_def split: list.splits)

lemma placed_panes:
  assumes "\<forall>s \<in> set (treeLeafSlots (lay_tree L)). getPane L s \<noteq> None"
  shows "\<forall>s \<in> set (treeLeafSlots (lay_tree (place_displaced e displaced L))).
           getPane (place_displaced e displaced L) s \<noteq> None"
  using assms by (auto simp: place_displaced_def Let_def split: list.splits)

lemma placed_tree: "\<exists>n. lay_tree (place_displaced e displaced L) = Some n"
  by (cases "lay_tree L") (auto simp: place_displaced_def Let_def split: list.splits)

section \<open>Attaching the side panes\<close>

text \<open>A placeholder group carries no tabs.\<close>

definition sound_groups :: "side_group list \<Rightarrow> bool" where
  "sound_groups gs = (\<forall>g \<in> set gs. sg_placeholder g \<longrightarrow> sg_tabs g = [])"

lemma solid_sound: "solid_groups gs \<Longrightarrow> sound_groups gs"
  by (simp add: solid_groups_def sound_groups_def)

lemma sort_side_sound:
  "sound_groups (groups_of sd st) \<Longrightarrow> sound_groups (groups_of sd (fold (sort_side_slot e L) ss st))"
proof (induction ss arbitrary: st)
  case (Cons s ss)
  have "sound_groups (groups_of sd (sort_side_slot e L s st))"
    using Cons.prems by (auto simp: sort_side_slot_def Let_def sound_groups_def split: pane_role.splits)
  with Cons.IH show ?case by simp
qed simp

definition attached :: "env \<Rightarrow> pane_side \<Rightarrow> slot list \<Rightarrow> item set \<Rightarrow> layout_slots \<Rightarrow> layout_slots \<Rightarrow> bool" where
  "attached e sd ss xs L L' =
     (lay_tree L' = lay_tree L \<and> distinct ss
      \<and> (\<forall>s \<in> set ss. getPane L s = None \<and> paneRoleForSlot s L' = Side sd)
      \<and> (\<forall>s. s \<notin> set ss \<longrightarrow> getPane L' s = getPane L s)
      \<and> (\<forall>s \<in> set ss. getPane L' s \<noteq> None)
      \<and> tabs_at ss L' \<subseteq> xs)"

lemma fold_attach:
  "\<exists>new. snd (fold (attach_group e sd) gs (L, ss)) = ss @ new \<and> length new = length gs
     \<and> attached e sd new (group_items gs) L (fst (fold (attach_group e sd) gs (L, ss)))
     \<and> (sound_groups gs \<longrightarrow>
         tabs_at new (fst (fold (attach_group e sd) gs (L, ss))) = {x \<in> group_items gs. isLayoutItem e x})"
proof (induction gs arbitrary: L ss)
  case Nil
  then show ?case by (auto simp: attached_def tabs_at_def group_items_def)
next
  case (Cons g gs)
  obtain s p where g: "attach_group e sd g (L, ss) = (setPane s p L, ss @ [s])"
    and s: "getPane L s = None" and p: "ps_role p = Side sd"
    "set (ps_tabs p) = (if sg_placeholder g then {} else {x \<in> set (sg_tabs g). isLayoutItem e x})"
    by (auto simp: attach_group_def Let_def)
  obtain new where new: "snd (fold (attach_group e sd) gs (setPane s p L, ss @ [s])) = ss @ s # new"
    "length new = length gs"
    "attached e sd new (group_items gs) (setPane s p L) (fst (fold (attach_group e sd) gs (setPane s p L, ss @ [s])))"
    "sound_groups gs \<Longrightarrow> tabs_at new (fst (fold (attach_group e sd) gs (setPane s p L, ss @ [s])))
       = {x \<in> group_items gs. isLayoutItem e x}"
    using Cons.IH [of "setPane s p L" "ss @ [s]"] by auto
  let ?M = "fst (fold (attach_group e sd) gs (setPane s p L, ss @ [s]))"
  have fresh: "s \<notin> set new" using new(3) by (auto simp: attached_def)
  then have Ms: "getPane ?M s = Some p" using new(3) by (auto simp: attached_def)
  then have ts: "paneTabs s ?M = ps_tabs p" and rs: "paneRoleForSlot s ?M = Side sd"
    using p by (simp_all add: paneTabs_def paneRoleForSlot_def)
  have here: "tabs_at (s # new) ?M = set (ps_tabs p) \<union> tabs_at new ?M"
    using ts by (simp add: tabs_at_def)
  have items: "group_items (g # gs) = set (sg_tabs g) \<union> group_items gs"
    by (simp add: group_items_def)
  have "attached e sd (s # new) (group_items (g # gs)) L ?M"
    using new(3) fresh s rs Ms p(2) unfolding attached_def here items
    by (auto split: if_splits)
  moreover have "sound_groups (g # gs) \<longrightarrow> tabs_at (s # new) ?M = {x \<in> group_items (g # gs). isLayoutItem e x}"
    using new(4) p(2) unfolding here items by (auto simp: sound_groups_def)
  ultimately show ?case using new(1,2) g by (intro exI [of _ "s # new"]) simp
qed

lemma sidePaneColumnTree_leaves:
  assumes "ss \<noteq> []" "distinct ss" "distinct (layoutLeafSlots n)" "node_ok n"
  obtains t where "sidePaneColumnTree ss n = Some t" "set (layoutLeafSlots t) = set ss" "distinct (layoutLeafSlots t)"
    "node_ok t"
proof -
  let ?removed = "set (filter (\<lambda>s. s \<notin> set ss) (layoutLeafSlots n))"
  have col: "\<exists>t. columnTreeForSlots ss = Some t \<and> layoutLeafSlots t = ss \<and> node_ok t"
  proof -
    obtain t where t: "columnTreeForSlots ss = Some t"
      using assms(1) leaves_columnTree [of ss] by (cases "columnTreeForSlots ss") (auto simp: treeLeafSlots_def)
    moreover have "layoutLeafSlots t = ss" using leaves_columnTree [of ss] t by (simp add: treeLeafSlots_def)
    moreover have "node_ok t" using chain_tree_ok [of Column ss] t by (simp add: columnTreeForSlots_def tree_ok_def)
    ultimately show ?thesis by blast
  qed
  show ?thesis
  proof (cases "\<exists>t. layoutTreeWithoutSlots n ?removed = Some t \<and> onlyVertical t
      \<and> length (layoutLeafSlots t) = length ss")
    case True
    then obtain t where t: "layoutTreeWithoutSlots n ?removed = Some t" "onlyVertical t"
      "length (layoutLeafSlots t) = length ss" by blast
    have lv: "layoutLeafSlots t = filter (\<lambda>s. s \<notin> ?removed) (layoutLeafSlots n)"
      using leaves_layoutTreeWithoutSlots [of n ?removed] t(1) by (simp add: treeLeafSlots_def)
    then have d: "distinct (layoutLeafSlots t)" using assms(3) by simp
    have sub: "set (layoutLeafSlots t) \<subseteq> set ss" using lv by auto
    have "card (set (layoutLeafSlots t)) = card (set ss)"
      using d assms(2) t(3) by (simp add: distinct_card)
    then have "set (layoutLeafSlots t) = set ss" using sub by (simp add: card_subset_eq)
    moreover have "node_ok t"
      using layoutTreeWithoutSlots_ok [OF assms(4), of ?removed] t(1) by (simp add: tree_ok_def)
    ultimately show ?thesis using that [of t] t d by (simp add: sidePaneColumnTree_def Let_def)
  next
    case False
    then have "sidePaneColumnTree ss n = columnTreeForSlots ss"
      by (auto simp: sidePaneColumnTree_def Let_def split: option.splits)
    then show ?thesis using col that assms(2) by auto
  qed
qed

definition opt_leaves :: "layout_node option \<Rightarrow> slot set" where
  "opt_leaves t = set (treeLeafSlots t)"

lemma joinSideTrees_leaves:
  "set (layoutLeafSlots (joinSideTrees l c r lw rw)) = opt_leaves l \<union> set (layoutLeafSlots c) \<union> opt_leaves r"
  by (cases l; cases r) (auto simp: joinSideTrees_def opt_leaves_def Let_def)

lemma attachSide_spec:
  assumes "distinct (layoutLeafSlots n)" "node_ok n"
  obtains ss where "attached e sd ss (group_items gs) L (fst (attachSide e sd gs n L))"
    "opt_leaves (snd (attachSide e sd gs n L)) = set ss"
    "sound_groups gs \<longrightarrow> tabs_at ss (fst (attachSide e sd gs n L)) = {x \<in> group_items gs. isLayoutItem e x}"
    "snd (attachSide e sd gs n L) \<noteq> None \<longleftrightarrow> gs \<noteq> []"
proof (cases "gs = []")
  case True
  then show ?thesis
    by (intro that [of "[]"]) (auto simp: attachSide_def attached_def tabs_at_def group_items_def opt_leaves_def)
next
  case False
  obtain new where new: "snd (fold (attach_group e sd) gs (L, [])) = new" "length new = length gs"
    "attached e sd new (group_items gs) L (fst (fold (attach_group e sd) gs (L, [])))"
    "sound_groups gs \<Longrightarrow> tabs_at new (fst (fold (attach_group e sd) gs (L, []))) = {x \<in> group_items gs. isLayoutItem e x}"
    using fold_attach [of e sd gs L "[]"] by auto
  have "new \<noteq> []" "distinct new" using False new(2,3) by (auto simp: attached_def)
  then obtain t where t: "sidePaneColumnTree new n = Some t" "set (layoutLeafSlots t) = set new"
    using sidePaneColumnTree_leaves assms by metis
  have eq: "attachSide e sd gs n L = (fst (fold (attach_group e sd) gs (L, [])), Some t)"
    using False new(1) t(1) by (simp add: attachSide_def split_beta Let_def)
  show ?thesis
    using new t False by (intro that [of new]) (simp_all add: eq opt_leaves_def treeLeafSlots_def)
qed

section \<open>Canonical placement\<close>

lemma generic_keys:
  "set (filter (\<lambda>s. s \<notin> set (sidePaneSlots L)) (layoutSlotKeys L))
   = {s \<in> set (layoutSlotKeys L). paneRoleForSlot s L = Generic}"
  by (auto simp: sidePaneSlots_def is_side_role_def)

lemma sortedGeneric_spec:
  shows "getPane (cs_next (sortedGenericPanes e L)) t =
      (if t \<in> set (layoutSlotKeys L) \<and> paneRoleForSlot t L = Generic \<and> \<not> emptiedSlot L t
       then Some (genericPane e L t) else None)"
    and "set (cs_removed (sortedGenericPanes e L)) = set (sidePaneSlots L)
      \<union> {s \<in> set (layoutSlotKeys L). paneRoleForSlot s L = Generic \<and> emptiedSlot L s}"
    and "group_items (cs_left (sortedGenericPanes e L)) = group_items (ss_left (sortedSidePanes e L))
      \<union> {x. \<exists>s \<in> set (layoutSlotKeys L). paneRoleForSlot s L = Generic \<and> x \<in> set (paneTabs s L)
             \<and> panePlacementForItem x = SideRequired}"
    and "solid_groups (ss_left (sortedSidePanes e L)) \<Longrightarrow> solid_groups (cs_left (sortedGenericPanes e L))"
  unfolding sortedGenericPanes_def fold_sort_generic generic_keys
  by (auto simp: fold_sort_generic(4))

lemma sortedSides_spec:
  shows "group_items (groups_of sd (sortedSidePanes e L)) =
      {x. \<exists>s \<in> set (layoutSlotKeys L). paneRoleForSlot s L = Side sd \<and> x \<in> set (paneTabs s L) \<and> sideAllows e sd x}"
    and "set (ss_displaced (sortedSidePanes e L)) =
      {x. \<exists>s \<in> set (layoutSlotKeys L). \<exists>sd. paneRoleForSlot s L = Side sd \<and> x \<in> set (paneTabs s L) \<and> \<not> sideAllows e sd x}"
    and "(\<And>s. s \<in> set (sidePaneSlotsForSide sd L) \<Longrightarrow> \<not> paneIsPlaceholder s L) \<Longrightarrow>
      solid_groups (groups_of sd (sortedSidePanes e L))"
    and "sound_groups (groups_of sd (sortedSidePanes e L))"
proof -
  let ?init = "\<lparr>ss_left = [], ss_right = [], ss_displaced = []\<rparr>"
  have init: "groups_of sd ?init = []" by (cases sd) (simp_all add: groups_of_def)
  show "group_items (groups_of sd (sortedSidePanes e L)) =
      {x. \<exists>s \<in> set (layoutSlotKeys L). paneRoleForSlot s L = Side sd \<and> x \<in> set (paneTabs s L) \<and> sideAllows e sd x}"
    unfolding sortedSidePanes_def fold_sort_side init
    by (auto simp: sidePaneSlots_def group_items_def is_side_role_def)
  show "set (ss_displaced (sortedSidePanes e L)) =
      {x. \<exists>s \<in> set (layoutSlotKeys L). \<exists>sd. paneRoleForSlot s L = Side sd \<and> x \<in> set (paneTabs s L) \<and> \<not> sideAllows e sd x}"
    unfolding sortedSidePanes_def fold_sort_side
    by (auto simp: sidePaneSlots_def is_side_role_def)
  show "solid_groups (groups_of sd (sortedSidePanes e L))"
    if "\<And>s. s \<in> set (sidePaneSlotsForSide sd L) \<Longrightarrow> \<not> paneIsPlaceholder s L"
    unfolding sortedSidePanes_def
    by (rule fold_sort_side(3)) (use that in \<open>auto simp: init solid_groups_def sidePaneSlotsForSide_def\<close>)
  show "sound_groups (groups_of sd (sortedSidePanes e L))"
    unfolding sortedSidePanes_def by (rule sort_side_sound) (simp add: init sound_groups_def)
qed

lemma contentLayout_spec:
  assumes tree: "lay_tree L = Some n"
    and items: "\<forall>x \<in> set (paneItems L). isLayoutItem e x"
  obtains c where "lay_tree (contentLayout e L n) = Some c"
    "tabs_at (layoutLeafSlots c) (contentLayout e L n) =
       {x. \<exists>s \<in> set (layoutLeafSlots n). paneRoleForSlot s L = Generic \<and> x \<in> set (paneTabs s L)
            \<and> panePlacementForItem x \<noteq> SideRequired} \<union> set (ss_displaced (sortedSidePanes e L))"
    "\<forall>s \<in> set (layoutLeafSlots c). getPane (contentLayout e L n) s \<noteq> None
        \<and> paneRoleForSlot s (contentLayout e L n) = Generic"
proof -
  let ?g = "sortedGenericPanes e L"
  let ?N = "setTree (layoutTreeWithoutSlots n (set (cs_removed ?g))) (cs_next ?g)"
  have keys: "layoutSlotKeys L = layoutLeafSlots n" using tree by (rule layoutSlotKeys_tree)
  have mem: "s \<in> set (cs_removed ?g) \<longleftrightarrow> \<not> (paneRoleForSlot s L = Generic \<and> \<not> emptiedSlot L s)"
    if "s \<in> set (layoutLeafSlots n)" for s
    using that by (auto simp: sortedGeneric_spec(2) keys sidePaneSlots_def is_side_role_def)
  have lv: "treeLeafSlots (lay_tree ?N) = filter (\<lambda>s. paneRoleForSlot s L = Generic \<and> \<not> emptiedSlot L s) (layoutLeafSlots n)"
    by (simp add: leaves_layoutTreeWithoutSlots mem cong: filter_cong)
  have pane: "getPane ?N s = Some (genericPane e L s)" if "s \<in> set (treeLeafSlots (lay_tree ?N))" for s
    using that unfolding lv by (simp add: sortedGeneric_spec(1) keys)
  have isl: "isLayoutItem e x" if "s \<in> set (layoutLeafSlots n)" "x \<in> set (paneTabs s L)" for s x
    using items that by (auto simp: set_paneItems keys)
  have gp: "set (ps_tabs (genericPane e L s)) = {x \<in> set (paneTabs s L). panePlacementForItem x \<noteq> SideRequired}"
    if "s \<in> set (layoutLeafSlots n)" for s
    using isl [OF that] by (auto simp: genericPane_def genericTabs_def filter_empty_conv)
  have tabs: "set (paneTabs s ?N) = {x \<in> set (paneTabs s L). panePlacementForItem x \<noteq> SideRequired}"
    if "s \<in> set (treeLeafSlots (lay_tree ?N))" for s
    using pane [OF that] that gp [of s] unfolding lv by (simp add: paneTabs_def [of s "cs_next ?g"])
  have role: "paneRoleForSlot s ?N = Generic" if "s \<in> set (treeLeafSlots (lay_tree ?N))" for s
    using pane [OF that] by (simp add: paneRoleForSlot_def [of s "cs_next ?g"] genericPane_def)
  have at: "tabs_at (treeLeafSlots (lay_tree ?N)) ?N =
      {x. \<exists>s \<in> set (layoutLeafSlots n). paneRoleForSlot s L = Generic \<and> x \<in> set (paneTabs s L)
            \<and> panePlacementForItem x \<noteq> SideRequired}"
    using tabs unfolding tabs_at_def lv
    by (auto simp: emptiedSlot_def genericTabs_def filter_empty_conv dest: placeholder_no_tabs)
  have C: "contentLayout e L n = place_displaced e (ss_displaced (sortedSidePanes e L)) ?N"
    by (simp add: contentLayout_def Let_def)
  obtain c where c: "lay_tree (contentLayout e L n) = Some c" unfolding C using placed_tree by blast
  have dis: "\<forall>x \<in> set (ss_displaced (sortedSidePanes e L)). isLayoutItem e x"
    using isl by (auto simp: sortedSides_spec(2) keys)
  have lit: "\<forall>s \<in> set (treeLeafSlots (lay_tree ?N)). \<forall>x \<in> set (paneTabs s ?N). isLayoutItem e x"
    using isl tabs unfolding lv by auto
  have lc: "treeLeafSlots (lay_tree (contentLayout e L n)) = layoutLeafSlots c" by (simp add: c)
  show ?thesis
  proof (rule that [OF c])
    show "tabs_at (layoutLeafSlots c) (contentLayout e L n) =
       {x. \<exists>s \<in> set (layoutLeafSlots n). paneRoleForSlot s L = Generic \<and> x \<in> set (paneTabs s L)
            \<and> panePlacementForItem x \<noteq> SideRequired} \<union> set (ss_displaced (sortedSidePanes e L))"
      using placed_tabs [OF dis lit] unfolding C [symmetric] lc at .
    show "\<forall>s \<in> set (layoutLeafSlots c). getPane (contentLayout e L n) s \<noteq> None
        \<and> paneRoleForSlot s (contentLayout e L n) = Generic"
      using placed_generic [of ?N e "ss_displaced (sortedSidePanes e L)"] role
        placed_panes [of ?N e "ss_displaced (sortedSidePanes e L)"] pane
      unfolding C [symmetric] lc by blast
  qed
qed

lemma attached_tabs_at:
  "attached e sd ss xs L L' \<Longrightarrow> (\<forall>s \<in> set ts. getPane L s \<noteq> None) \<Longrightarrow> tabs_at ts L' = tabs_at ts L"
  by (rule tabs_at_cong) (metis attached_def)

lemma attached_role:
  "attached e sd ss xs L L' \<Longrightarrow> getPane L s \<noteq> None \<Longrightarrow>
   getPane L' s \<noteq> None \<and> paneRoleForSlot s L' = paneRoleForSlot s L \<and> paneTabs s L' = paneTabs s L"
  by (metis attached_def paneRoleForSlot_def paneTabs_def)

lemma canonical_joined:
  assumes tree: "lay_tree L = Some n" and leaves: "distinct (layoutLeafSlots n)" and node: "node_ok n"
    and items: "\<forall>x \<in> set (paneItems L). isLayoutItem e x"
  obtains M t c ls rs p where "canonicalSidePanes e L n preserve = compactLayoutSlots e (setTree (Some t) M) p"
    "set (layoutLeafSlots t) = set ls \<union> set (layoutLeafSlots c) \<union> set rs"
    "\<forall>s \<in> set ls. paneRoleForSlot s M = Side SideLeft" "\<forall>s \<in> set rs. paneRoleForSlot s M = Side SideRight"
    "\<forall>s \<in> set (layoutLeafSlots c). paneRoleForSlot s M = Generic"
    "tabs_at (layoutLeafSlots c) M = {x. \<exists>s \<in> set (layoutLeafSlots n). paneRoleForSlot s L = Generic \<and> x \<in> set (paneTabs s L)
            \<and> panePlacementForItem x \<noteq> SideRequired} \<union> set (ss_displaced (sortedSidePanes e L))"
    "tabs_at ls M \<subseteq> group_items (cs_left (sortedGenericPanes e L))"
    "tabs_at rs M \<subseteq> group_items (ss_right (sortedSidePanes e L))"
    "solid_groups (cs_left (sortedGenericPanes e L)) \<Longrightarrow>
       tabs_at ls M = {x \<in> group_items (cs_left (sortedGenericPanes e L)). isLayoutItem e x}"
    "tabs_at rs M = {x \<in> group_items (ss_right (sortedSidePanes e L)). isLayoutItem e x}"
proof -
  obtain c where c: "lay_tree (contentLayout e L n) = Some c"
    "tabs_at (layoutLeafSlots c) (contentLayout e L n) = {x. \<exists>s \<in> set (layoutLeafSlots n). paneRoleForSlot s L = Generic \<and> x \<in> set (paneTabs s L)
            \<and> panePlacementForItem x \<noteq> SideRequired} \<union> set (ss_displaced (sortedSidePanes e L))"
    "\<forall>s \<in> set (layoutLeafSlots c). getPane (contentLayout e L n) s \<noteq> None
        \<and> paneRoleForSlot s (contentLayout e L n) = Generic"
    by (rule contentLayout_spec [OF tree items])
  let ?C = "contentLayout e L n"
  let ?l = "attachSide e SideLeft (cs_left (sortedGenericPanes e L)) n ?C"
  let ?r = "attachSide e SideRight (ss_right (sortedSidePanes e L)) n (fst ?l)"
  obtain ls where ls: "attached e SideLeft ls (group_items (cs_left (sortedGenericPanes e L))) ?C (fst ?l)"
    "opt_leaves (snd ?l) = set ls"
    "sound_groups (cs_left (sortedGenericPanes e L)) \<longrightarrow>
       tabs_at ls (fst ?l) = {x \<in> group_items (cs_left (sortedGenericPanes e L)). isLayoutItem e x}"
    by (rule attachSide_spec [OF leaves node, of e SideLeft "cs_left (sortedGenericPanes e L)" ?C])
  obtain rs where rs: "attached e SideRight rs (group_items (ss_right (sortedSidePanes e L))) (fst ?l) (fst ?r)"
    "opt_leaves (snd ?r) = set rs"
    "sound_groups (ss_right (sortedSidePanes e L)) \<longrightarrow>
       tabs_at rs (fst ?r) = {x \<in> group_items (ss_right (sortedSidePanes e L)). isLayoutItem e x}"
    by (rule attachSide_spec [OF leaves node, of e SideRight "ss_right (sortedSidePanes e L)" "fst ?l"])
  have sound: "sound_groups (ss_right (sortedSidePanes e L))"
    using sortedSides_spec(4) [of SideRight e L] by (simp add: groups_of_def)
  have treer: "lay_tree (fst ?r) = Some c" using ls(1) rs(1) c(1) by (simp add: attached_def)
  have lspane: "\<forall>s \<in> set ls. getPane (fst ?l) s \<noteq> None \<and> paneRoleForSlot s (fst ?l) = Side SideLeft"
    using ls(1) by (simp add: attached_def)
  have cpane: "\<forall>s \<in> set (layoutLeafSlots c). getPane (fst ?l) s \<noteq> None \<and> paneRoleForSlot s (fst ?l) = Generic"
    using c(3) attached_role [OF ls(1)] by simp
  have lsr: "tabs_at ls (fst ?r) = tabs_at ls (fst ?l)"
    by (rule attached_tabs_at [OF rs(1)]) (use lspane in blast)
  have cr: "tabs_at (layoutLeafSlots c) (fst ?r) = tabs_at (layoutLeafSlots c) ?C"
    using attached_tabs_at [OF rs(1)] attached_tabs_at [OF ls(1)] cpane c(3) by simp
  let ?t = "joinSideTrees (snd ?l) c (snd ?r) (sidePaneWidthPercent SideLeft L) (sidePaneWidthPercent SideRight L)"
  have eq: "canonicalSidePanes e L n preserve =
      compactLayoutSlots e (setTree (Some ?t) (fst ?r)) (preserve \<or> snd ?l \<noteq> None \<or> snd ?r \<noteq> None)"
    using treer by (simp add: canonicalSidePanes_def split_beta Let_def)
  show ?thesis
  proof (rule that [OF eq])
    show "set (layoutLeafSlots ?t) = set ls \<union> set (layoutLeafSlots c) \<union> set rs"
      by (simp add: joinSideTrees_leaves ls(2) rs(2))
    show "\<forall>s \<in> set ls. paneRoleForSlot s (fst ?r) = Side SideLeft"
      using lspane attached_role [OF rs(1)] by simp
    show "\<forall>s \<in> set rs. paneRoleForSlot s (fst ?r) = Side SideRight"
      using rs(1) by (simp add: attached_def)
    show "\<forall>s \<in> set (layoutLeafSlots c). paneRoleForSlot s (fst ?r) = Generic"
      using cpane attached_role [OF rs(1)] by simp
    show "tabs_at rs (fst ?r) \<subseteq> group_items (ss_right (sortedSidePanes e L))"
      using rs(1) by (simp add: attached_def)
    show "tabs_at ls (fst ?r) \<subseteq> group_items (cs_left (sortedGenericPanes e L))"
      unfolding lsr using ls(1) by (simp add: attached_def)
  qed (use cr c(2) lsr ls(3) rs(3) sound solid_sound in simp_all)
qed

text \<open>Canonical placement keeps the items of the layout.\<close>

lemma canonical_keeps_items:
  assumes tree: "lay_tree L = Some n" and leaves: "distinct (layoutLeafSlots n)" and node: "node_ok n"
    and items: "\<forall>x \<in> set (paneItems L). isLayoutItem e x"
    and solid: "\<forall>s \<in> set (sidePaneSlotsForSide SideLeft L). \<not> paneIsPlaceholder s L"
  shows "set (paneItems (canonicalSidePanes e L n preserve)) = set (paneItems L)"
proof -
  obtain M t c ls rs p where j: "canonicalSidePanes e L n preserve = compactLayoutSlots e (setTree (Some t) M) p"
    "set (layoutLeafSlots t) = set ls \<union> set (layoutLeafSlots c) \<union> set rs"
    "tabs_at (layoutLeafSlots c) M = {x. \<exists>s \<in> set (layoutLeafSlots n). paneRoleForSlot s L = Generic \<and> x \<in> set (paneTabs s L)
            \<and> panePlacementForItem x \<noteq> SideRequired} \<union> set (ss_displaced (sortedSidePanes e L))"
    "solid_groups (cs_left (sortedGenericPanes e L)) \<Longrightarrow>
       tabs_at ls M = {x \<in> group_items (cs_left (sortedGenericPanes e L)). isLayoutItem e x}"
    "tabs_at rs M = {x \<in> group_items (ss_right (sortedSidePanes e L)). isLayoutItem e x}"
    by (rule canonical_joined [OF tree leaves node items]) blast
  have keys: "layoutSlotKeys L = layoutLeafSlots n" using tree by (rule layoutSlotKeys_tree)
  have sl: "solid_groups (cs_left (sortedGenericPanes e L))"
    using sortedGeneric_spec(4) sortedSides_spec(3) [of SideLeft L e] solid by (simp add: groups_of_def)
  have isl: "isLayoutItem e x" if "s \<in> set (layoutLeafSlots n)" "x \<in> set (paneTabs s L)" for s x
    using items that by (auto simp: set_paneItems keys)
  have lg: "group_items (ss_left (sortedSidePanes e L)) =
      {x. \<exists>s \<in> set (layoutLeafSlots n). paneRoleForSlot s L = Side SideLeft \<and> x \<in> set (paneTabs s L) \<and> sideAllows e SideLeft x}"
    using sortedSides_spec(1) [of SideLeft e L] by (simp add: groups_of_def keys)
  have rg: "group_items (ss_right (sortedSidePanes e L)) =
      {x. \<exists>s \<in> set (layoutLeafSlots n). paneRoleForSlot s L = Side SideRight \<and> x \<in> set (paneTabs s L) \<and> sideAllows e SideRight x}"
    using sortedSides_spec(1) [of SideRight e L] by (simp add: groups_of_def keys)
  let ?at = "\<lambda>r P. {x. \<exists>s \<in> set (layoutLeafSlots n). paneRoleForSlot s L = r \<and> x \<in> set (paneTabs s L) \<and> P x}"
  have "set (paneItems (compactLayoutSlots e (setTree (Some t) M) p))
      = {x \<in> set (paneItems (setTree (Some t) M)). isLayoutItem e x}"
    by (rule items_compactLayoutSlots) simp
  also have "set (paneItems (setTree (Some t) M)) = tabs_at ls M \<union> tabs_at (layoutLeafSlots c) M \<union> tabs_at rs M"
    by (simp add: set_paneItems layoutSlotKeys_tree [of _ t] j(2) tabs_at_def)
  finally have "set (paneItems (canonicalSidePanes e L n preserve)) =
      {x \<in> tabs_at ls M \<union> tabs_at (layoutLeafSlots c) M \<union> tabs_at rs M. isLayoutItem e x}"
    using j(1) by simp
  also have "\<dots> = ?at (Side SideLeft) (sideAllows e SideLeft) \<union> ?at Generic (\<lambda>x. panePlacementForItem x = SideRequired)
      \<union> ?at Generic (\<lambda>x. panePlacementForItem x \<noteq> SideRequired) \<union> set (ss_displaced (sortedSidePanes e L))
      \<union> ?at (Side SideRight) (sideAllows e SideRight)"
    using isl sortedSides_spec(2) [of e L]
    by (simp add: j(3) j(4) [OF sl] j(5) sortedGeneric_spec(3) lg rg keys) blast
  also have "\<dots> = (\<Union>s \<in> set (layoutLeafSlots n). set (paneTabs s L))"
  proof -
    have "s \<in> set (layoutLeafSlots n) \<Longrightarrow> x \<in> set (paneTabs s L) \<Longrightarrow>
        paneRoleForSlot s L = Generic \<or> paneRoleForSlot s L = Side SideLeft \<or> paneRoleForSlot s L = Side SideRight" for s x
      by (cases "paneRoleForSlot s L") (auto intro: pane_side.exhaust)
    then show ?thesis
      unfolding sortedSides_spec(2) keys by blast
  qed
  finally show ?thesis by (simp add: set_paneItems keys)
qed

text \<open>Every pane of a layout holds only items its role allows.\<close>

definition layout_roles_ok :: "env \<Rightarrow> layout_slots \<Rightarrow> bool" where
  "layout_roles_ok e L =
     list_all (\<lambda>s. list_all (\<lambda>x. paneRoleAllowsItem e (paneRoleForSlot s L) x False False) (paneTabs s L))
       (layoutSlotKeys L)"

lemma roles_compact:
  assumes tree: "lay_tree L = Some n"
    and ok: "\<forall>s \<in> set (layoutLeafSlots n). \<forall>x \<in> set (paneTabs s L).
        isLayoutItem e x \<longrightarrow> paneRoleAllowsItem e (paneRoleForSlot s L) x False False"
  shows "layout_roles_ok e (compactLayoutSlots e L p)"
  using tree
proof (cases rule: compact_cases [where e = e and p = p])
  case (kept i)
  have keys: "layoutSlotKeys L = layoutLeafSlots n" using tree by (rule layoutSlotKeys_tree)
  have "set (layoutLeafSlots (ni_node i)) \<subseteq> set (layoutLeafSlots n)"
    using compact_info_ok [of n "copyPanes e L" p "sidePaneSlots L"] kept(1) by (simp add: info_ok_def)
  then show ?thesis
    using ok keys
    by (auto simp: kept(3) layout_roles_ok_def list_all_iff layoutSlotKeys_tree [of _ "ni_node i"]
        paneTabs_copyPanes paneRole_copyPanes subset_iff)
next
  case (blank s)
  then show ?thesis by (simp add: layout_roles_ok_def)
qed

lemma canonical_respects_roles:
  assumes tree: "lay_tree L = Some n" and leaves: "distinct (layoutLeafSlots n)" and node: "node_ok n"
    and items: "\<forall>x \<in> set (paneItems L). isLayoutItem e x"
  shows "layout_roles_ok e (canonicalSidePanes e L n preserve)"
proof -
  obtain M t c ls rs p where j: "canonicalSidePanes e L n preserve = compactLayoutSlots e (setTree (Some t) M) p"
    "set (layoutLeafSlots t) = set ls \<union> set (layoutLeafSlots c) \<union> set rs"
    "\<forall>s \<in> set ls. paneRoleForSlot s M = Side SideLeft" "\<forall>s \<in> set rs. paneRoleForSlot s M = Side SideRight"
    "\<forall>s \<in> set (layoutLeafSlots c). paneRoleForSlot s M = Generic"
    "tabs_at (layoutLeafSlots c) M = {x. \<exists>s \<in> set (layoutLeafSlots n). paneRoleForSlot s L = Generic \<and> x \<in> set (paneTabs s L)
            \<and> panePlacementForItem x \<noteq> SideRequired} \<union> set (ss_displaced (sortedSidePanes e L))"
    "tabs_at ls M \<subseteq> group_items (cs_left (sortedGenericPanes e L))"
    "tabs_at rs M \<subseteq> group_items (ss_right (sortedSidePanes e L))"
    by (rule canonical_joined [OF tree leaves node items]) blast
  have keys: "layoutSlotKeys L = layoutLeafSlots n" using tree by (rule layoutSlotKeys_tree)
  have isl: "isLayoutItem e x" if "s \<in> set (layoutLeafSlots n)" "x \<in> set (paneTabs s L)" for s x
    using items that by (auto simp: set_paneItems keys)
  have req: "panePlacementForItem x = SideRequired \<Longrightarrow> isLayoutItem e x \<Longrightarrow> sideAllows e sd x" for x sd
    by (simp add: paneRoleAllowsItem_def is_side_role_def)
  have "paneRoleAllowsItem e (paneRoleForSlot s M) x False False"
    if s: "s \<in> set (layoutLeafSlots t)" and x: "x \<in> set (paneTabs s M)" for s x
  proof -
    consider "s \<in> set ls" | "s \<in> set (layoutLeafSlots c)" | "s \<in> set rs" using s j(2) by blast
    then show ?thesis
    proof cases
      case 1
      then have "x \<in> group_items (cs_left (sortedGenericPanes e L))" using j(7) x by (auto simp: tabs_at_def)
      then show ?thesis using 1 j(3) sortedSides_spec(1) [of SideLeft e L] isl req
        by (auto simp: sortedGeneric_spec(3) groups_of_def keys)
    next
      case 2
      then have "x \<in> tabs_at (layoutLeafSlots c) M" using x by (auto simp: tabs_at_def)
      then have "isLayoutItem e x \<and> panePlacementForItem x \<noteq> SideRequired"
        unfolding j(6) sortedSides_spec(2) keys using isl req by blast
      then show ?thesis using 2 j(5) by (simp add: paneRoleAllowsItem_def is_side_role_def)
    next
      case 3
      then have "x \<in> group_items (ss_right (sortedSidePanes e L))" using j(8) x by (auto simp: tabs_at_def)
      then show ?thesis using 3 j(4) sortedSides_spec(1) [of SideRight e L]
        by (auto simp: groups_of_def keys)
    qed
  qed
  then show ?thesis unfolding j(1) by (intro roles_compact [of _ t]) auto
qed

end
