(* ===== verification/Layout_Properties.thy ===== *)
theory Layout_Properties
  imports Layout_Invariants
begin

text \<open>
  The properties of the layout model: canonical side-pane placement, compaction, trees, tab
  order, fresh slots, widths and the distribution of items over panes, each with a concrete
  instance where it has hypotheses.
\<close>

section \<open>A sample layout\<close>

text \<open>A two-session workspace with Finder in a generic pane and a file tab.\<close>

definition sample_env :: env where
  "sample_env = \<lparr>sessions = [''1'', ''2''], visibleSessions = [''1'', ''2''],
     layoutItems = [''1'', ''2'', finderItemId, ''file:/a''], pinnedTabItems = [], viewportWidth = 1600,
     viewportHeight = 900, coarsePointer = False, tabletViewport = False, cssMinSplitPaneWidth = 0,
     recentSessions = [], defaultLayoutSetting = ''split'', tmuxPending = [], chatMediaUrlValid = (\<lambda>x. False)\<rparr>"

definition sample_tree :: layout_node where
  "sample_tree = Split Row 50 (Leaf ''left'') (Leaf ''right'')"

definition sample_layout :: layout_slots where
  "sample_layout =
     \<lparr>lay_tree = Some sample_tree,
      lay_panes = [(''left'', \<lparr>ps_active = Some ''1'', ps_tabs = [''1'', finderItemId], ps_placeholder = False,
          ps_legacy = False, ps_role = Generic\<rparr>),
        (''right'', \<lparr>ps_active = Some ''2'', ps_tabs = [''2'', ''file:/a''], ps_placeholder = False,
          ps_legacy = False, ps_role = Generic\<rparr>)]\<rparr>"

lemma sample_layout_facts:
  "lay_tree sample_layout = Some sample_tree" "distinct (layoutLeafSlots sample_tree)" "node_ok sample_tree"
  "\<forall>x \<in> set (paneItems sample_layout). isLayoutItem sample_env x"
  "\<forall>s \<in> set (sidePaneSlotsForSide SideLeft sample_layout). \<not> paneIsPlaceholder s sample_layout"
  by code_simp+

section \<open>Canonical placement\<close>

text \<open>
  C1. Canonical side-pane placement keeps exactly the items of the layout: whatever side panes,
  generic panes and placeholders it starts from, no tab is dropped and none appears, provided
  the tree is well formed with distinct leaves, the panes hold known layout items and no left side
  pane is an empty placeholder.
\<close>

theorem canonical_placement_keeps_items:
  assumes "lay_tree L = Some n" "distinct (layoutLeafSlots n)" "node_ok n"
    "\<forall>x \<in> set (paneItems L). isLayoutItem e x"
    "\<forall>s \<in> set (sidePaneSlotsForSide SideLeft L). \<not> paneIsPlaceholder s L"
  shows "set (paneItems (canonicalSidePanes e L n preserve)) = set (paneItems L)"
  using assms by (rule canonical_keeps_items)

theorem canonical_placement_keeps_items_witness:
  "set (paneItems (canonicalSidePanes sample_env sample_layout sample_tree False)) = set (paneItems sample_layout)"
  by (rule canonical_placement_keeps_items) (rule sample_layout_facts)+

text \<open>
  C9. After canonical placement every pane holds only items its role allows: no generic-only tab
  in a side pane and no side-required tab (Finder, Differ, Tabber) in a generic pane.
\<close>

theorem canonical_placement_respects_roles:
  assumes "lay_tree L = Some n" "distinct (layoutLeafSlots n)" "node_ok n"
    "\<forall>x \<in> set (paneItems L). isLayoutItem e x"
  shows "layout_roles_ok e (canonicalSidePanes e L n preserve)"
  using assms by (rule canonical_respects_roles)

theorem canonical_placement_respects_roles_witness:
  "layout_roles_ok sample_env (canonicalSidePanes sample_env sample_layout sample_tree True)"
  by (rule canonical_placement_respects_roles) (rule sample_layout_facts)+

text \<open>
  Without the proviso on placeholders items are lost: with an empty left side pane next to
  it, the Finder tab of a generic pane disappears from the layout.
\<close>

theorem canonical_placement_drops_finder:
  "\<exists>L n. lay_tree L = Some n \<and> distinct (layoutLeafSlots n) \<and> node_ok n
     \<and> list_all (isLayoutItem sample_env) (paneItems L) \<and> finderItemId \<in> set (paneItems L)
     \<and> finderItemId \<notin> set (paneItems (canonicalSidePanes sample_env L n False))"
proof (intro exI conjI)
  let ?n = "Split Row 25 (Leaf ''home'') sample_tree"
  let ?L = "setTree (Some ?n) (setPane ''home'' (emptyPlaceholderPaneState (Side SideLeft) False) sample_layout)"
  show "lay_tree ?L = Some ?n" by simp
qed code_simp+

end
