(* ===== verification/Layout_Unique.thy ===== *)
theory Layout_Unique
  imports Layout_Invariants
begin

text \<open>
  No tab is duplicated: counting the occurrences of one item over the panes of a layout,
  compaction and canonical placement never increase the count, so a layout whose tabs are all
  different stays one.
\<close>

section \<open>Counting occurrences\<close>

definition occ :: "item \<Rightarrow> slot set \<Rightarrow> layout_slots \<Rightarrow> nat" where
  "occ x S L = (\<Sum>s \<in> S. count_list (paneTabs s L) x)"

definition group_occ :: "item \<Rightarrow> side_group list \<Rightarrow> nat" where
  "group_occ x gs = (\<Sum>g \<leftarrow> gs. count_list (sg_tabs g) x)"

definition layout_unique :: "layout_slots \<Rightarrow> bool" where
  "layout_unique L =
     (distinct (layoutSlotKeys L) \<and> distinct (concat (map (\<lambda>s. paneTabs s L) (layoutSlotKeys L))))"

lemma distinct_count: "distinct xs \<Longrightarrow> count_list xs x \<le> 1"
  by (induction xs) (auto simp: count_list_0_iff)

lemma count_distinct: "(\<And>x. count_list xs x \<le> 1) \<Longrightarrow> distinct xs"
proof (induction xs)
  case (Cons a xs)
  have "count_list xs a = 0" using Cons.prems [of a] by simp
  moreover have "count_list xs x \<le> 1" for x using Cons.prems [of x] by (auto split: if_splits)
  ultimately show ?case using Cons.IH by (simp add: count_list_0_iff)
qed simp

lemma count_list_mono:
  assumes "distinct xs" "set xs \<subseteq> set ys"
  shows "count_list xs x \<le> count_list ys x"
proof (cases "x \<in> set xs")
  case True
  with assms(2) have "count_list ys x \<noteq> 0" by (auto simp: count_list_0_iff)
  with distinct_count [OF assms(1), of x] show ?thesis by linarith
next
  case False
  then have "count_list xs x = 0" by (simp add: count_list_0_iff)
  then show ?thesis by simp
qed

lemma count_order [simp]: "count_list (orderPaneTabs e tabs) x \<le> count_list tabs x"
  by (rule count_list_mono) auto

lemma count_filter: "count_list (filter P xs) x = (if P x then count_list xs x else 0)"
  by (induction xs) auto

lemma count_push: "count_list (foldl push_new d xs) x \<le> count_list d x + count_list xs x"
proof (induction xs arbitrary: d)
  case (Cons y ys)
  have "count_list (push_new d y) x \<le> count_list d x + count_list [y] x"
    by (auto simp: push_new_def)
  with Cons.IH [of "push_new d y"] show ?case by (auto split: if_splits)
qed simp

lemma occ_mono: "(\<And>s. s \<in> S \<Longrightarrow> count_list (paneTabs s L) x \<le> count_list (paneTabs s M) x) \<Longrightarrow> occ x S L \<le> occ x S M"
  unfolding occ_def by (rule sum_mono)

lemma occ_subset: "finite T \<Longrightarrow> S \<subseteq> T \<Longrightarrow> occ x S L \<le> occ x T L"
  unfolding occ_def by (rule sum_mono2) auto

lemma occ_cong: "(\<And>s. s \<in> S \<Longrightarrow> paneTabs s L = paneTabs s M) \<Longrightarrow> occ x S L = occ x S M"
  unfolding occ_def by (rule sum.cong) auto

lemma occ_union: "finite S \<Longrightarrow> finite T \<Longrightarrow> occ x (S \<union> T) L \<le> occ x S L + occ x T L"
  unfolding occ_def using sum.union_inter [of S T "\<lambda>s. count_list (paneTabs s L) x"] by linarith

lemma occ_concat: "distinct ss \<Longrightarrow> occ x (set ss) L = count_list (concat (map (\<lambda>s. paneTabs s L) ss)) x"
proof (induction ss)
  case (Cons s ss)
  then have "occ x (set (s # ss)) L = count_list (paneTabs s L) x + occ x (set ss) L"
    by (simp add: occ_def)
  with Cons show ?case by simp
qed (simp add: occ_def)

lemma distinct_iff_count: "distinct xs \<longleftrightarrow> (\<forall>x. count_list xs x \<le> 1)"
proof
  show "distinct xs" if "\<forall>x. count_list xs x \<le> 1" by (rule count_distinct) (simp only: that)
qed (simp only: distinct_count simp_thms)

lemma layout_unique_iff:
  "layout_unique L \<longleftrightarrow> distinct (layoutSlotKeys L) \<and> (\<forall>x. occ x (set (layoutSlotKeys L)) L \<le> 1)"
proof (cases "distinct (layoutSlotKeys L)")
  case True
  show ?thesis
    by (simp only: layout_unique_def occ_concat [OF True] distinct_iff_count [of "concat _"])
next
  case False
  then show ?thesis by (simp only: layout_unique_def simp_thms)
qed

section \<open>Compaction\<close>

lemma compact_info_distinct:
  "distinct (layoutLeafSlots n) \<Longrightarrow> compactLayoutNodeInfo n L p ss = Some i \<Longrightarrow> distinct (layoutLeafSlots (ni_node i))"
proof (induction n arbitrary: i)
  case (Split d q a b)
  let ?a = "compactLayoutNodeInfo a L p ss" and ?b = "compactLayoutNodeInfo b L p ss"
  have sub: "\<And>m i. compactLayoutNodeInfo m L p ss = Some i \<Longrightarrow> set (layoutLeafSlots (ni_node i)) \<subseteq> set (layoutLeafSlots m)"
    using compact_info_ok [where L = L and p = p and ss = ss] by (fastforce simp: info_ok_def split: option.splits)
  have two: "set A \<inter> set B = {}"
    if "set A \<subseteq> set (layoutLeafSlots a)" "set B \<subseteq> set (layoutLeafSlots b)" for A B
    using Split.prems(1) that by auto
  show ?case
  proof (cases "?a = None \<or> ?b = None")
    case True
    then show ?thesis using Split by (cases ?a; cases ?b) auto
  next
    case False
    then obtain i1 i2 where ab: "?a = Some i1" "?b = Some i2" by auto
    then have "distinct (layoutLeafSlots (ni_node i1) @ layoutLeafSlots (ni_node i2))"
      using Split.IH Split.prems(1) two sub by simp
    then show ?thesis using Split.prems(2) ab by (auto simp: Let_def split: if_splits)
  qed
qed (auto split: if_splits)

lemma compact_occ:
  assumes tree: "lay_tree L = Some n"
  shows "occ x (set (layoutSlotKeys (compactLayoutSlots e L p))) (compactLayoutSlots e L p)
       \<le> occ x (set (layoutLeafSlots n)) L"
  using tree
proof (cases rule: compact_cases [where e = e and p = p])
  case (kept i)
  have keys: "layoutSlotKeys L = layoutLeafSlots n" using tree by (rule layoutSlotKeys_tree)
  have sub: "set (layoutLeafSlots (ni_node i)) \<subseteq> set (layoutLeafSlots n)"
    using compact_info_ok [of n "copyPanes e L" p "sidePaneSlots L"] kept(1) by (simp add: info_ok_def)
  have "occ x (set (layoutLeafSlots (ni_node i))) (setTree (Some (ni_node i)) (copyPanes e L))
      \<le> occ x (set (layoutLeafSlots (ni_node i))) L"
    using sub by (intro occ_mono) (auto simp: keys paneTabs_copyPanes)
  also have "\<dots> \<le> occ x (set (layoutLeafSlots n)) L" using sub by (intro occ_subset) simp_all
  finally show ?thesis by (simp add: kept(3) layoutSlotKeys_tree [of _ "ni_node i"])
next
  case (blank s)
  then show ?thesis by (simp add: occ_def)
qed

lemma compact_distinct:
  assumes tree: "lay_tree L = Some n" and leaves: "distinct (layoutLeafSlots n)"
  shows "distinct (layoutSlotKeys (compactLayoutSlots e L p))"
  using tree
proof (cases rule: compact_cases [where e = e and p = p])
  case (kept i)
  then show ?thesis using compact_info_distinct [OF leaves] by (simp add: layoutSlotKeys_tree [of _ "ni_node i"])
qed simp

lemma compact_unique:
  "lay_tree L = Some n \<Longrightarrow> layout_unique L \<Longrightarrow> layout_unique (compactLayoutSlots e L p)"
  using compact_occ [of L n _ e p] compact_distinct [of L n e p]
  by (simp add: layout_unique_iff layoutSlotKeys_tree) (meson le_trans)

section \<open>Canonical placement\<close>

lemma group_occ_simps [simp]:
  "group_occ x [] = 0" "group_occ x (g # gs) = count_list (sg_tabs g) x + group_occ x gs"
  "group_occ x (gs @ hs) = group_occ x gs + group_occ x hs"
  by (simp_all add: group_occ_def)

lemma group_occ_append_set [simp]:
  "ss_left (set_groups SideLeft gs st) = gs" "ss_right (set_groups SideLeft gs st) = ss_right st"
  "ss_right (set_groups SideRight gs st) = gs" "ss_left (set_groups SideRight gs st) = ss_left st"
  by (simp_all add: set_groups_def)

lemma sort_side_occ:
  "group_occ x (ss_left (sort_side_slot e L s st)) + group_occ x (ss_right (sort_side_slot e L s st))
     + count_list (ss_displaced (sort_side_slot e L s st)) x
   \<le> group_occ x (ss_left st) + group_occ x (ss_right st) + count_list (ss_displaced st) x
     + count_list (paneTabs s L) x"
proof (cases "paneRoleForSlot s L")
  case Generic
  then show ?thesis by (simp add: sort_side_slot_def)
next
  case (Side sd)
  let ?d = "filter (\<lambda>x. \<not> sideAllows e sd x) (paneTabs s L)"
  have d: "count_list (foldl push_new (ss_displaced st) ?d) x
      \<le> count_list (ss_displaced st) x + (if sideAllows e sd x then 0 else count_list (paneTabs s L) x)"
    using count_push [of "ss_displaced st" ?d x] by (cases "sideAllows e sd x") (simp_all add: count_filter)
  show ?thesis using d Side
    by (cases sd; cases "sideAllows e sd x") (auto simp: sort_side_slot_def Let_def count_filter groups_of_def)
qed

lemma fold_sort_side_occ:
  "group_occ x (ss_left (fold (sort_side_slot e L) ss st)) + group_occ x (ss_right (fold (sort_side_slot e L) ss st))
     + count_list (ss_displaced (fold (sort_side_slot e L) ss st)) x
   \<le> group_occ x (ss_left st) + group_occ x (ss_right st) + count_list (ss_displaced st) x
     + (\<Sum>s \<leftarrow> ss. count_list (paneTabs s L) x)"
proof (induction ss arbitrary: st)
  case (Cons s ss)
  from Cons.IH [of "sort_side_slot e L s st"] sort_side_occ [of x e L s st] show ?case by simp
qed simp

lemma require_left_occ: "group_occ x (fold require_left xs gs) \<le> group_occ x gs + count_list xs x"
proof (induction xs arbitrary: gs)
  case (Cons y ys)
  have "group_occ x (require_left y gs) \<le> group_occ x gs + count_list [y] x"
    by (cases gs) (auto simp: require_left_def Let_def)
  with Cons.IH [of "require_left y gs"] show ?case by (auto split: if_splits)
qed simp

lemma fold_sort_generic_occ:
  "group_occ x (cs_left (fold (sort_generic_slot e L) ss cs)) + (\<Sum>s \<leftarrow> ss. count_list (genericTabs L s) x)
   \<le> group_occ x (cs_left cs) + (\<Sum>s \<leftarrow> ss. count_list (paneTabs s L) x)"
proof (induction ss arbitrary: cs)
  case (Cons s ss)
  let ?req = "filter (\<lambda>x. panePlacementForItem x = SideRequired) (paneTabs s L)"
  have "cs_left (sort_generic_slot e L s cs) = fold require_left ?req (cs_left cs)"
    by (simp add: sort_generic_slot_alt Let_def)
  then have "group_occ x (cs_left (sort_generic_slot e L s cs)) + count_list (genericTabs L s) x
      \<le> group_occ x (cs_left cs) + count_list (paneTabs s L) x"
    using require_left_occ [of x ?req "cs_left cs"] by (auto simp: count_filter genericTabs_def)
  with Cons.IH [of "sort_generic_slot e L s cs"] show ?case by simp
qed simp

lemma placed_occ:
  assumes "distinct (treeLeafSlots (lay_tree L))"
  shows "occ x (set (treeLeafSlots (lay_tree (place_displaced e displaced L)))) (place_displaced e displaced L)
       \<le> occ x (set (treeLeafSlots (lay_tree L))) L + count_list displaced x"
proof (cases "treeLeafSlots (lay_tree L)")
  case Nil
  then show ?thesis by (auto simp: place_displaced_def occ_def Let_def)
next
  case (Cons g gs)
  let ?t = "displaced_target L g gs"
  have t: "?t \<in> set (g # gs)" by (rule displaced_target_in)
  show ?thesis
  proof (cases "displaced = []")
    case True
    with Cons show ?thesis by (simp add: place_displaced_def)
  next
    case False
    let ?P = "place_displaced e displaced L"
    have tree: "lay_tree ?P = lay_tree L"
      using Cons False by (simp add: place_displaced_def Let_def)
    have tabs: "count_list (paneTabs s ?P) x \<le>
        (if s = ?t then count_list (paneTabs ?t L) x + count_list displaced x else count_list (paneTabs s L) x)" for s
    proof -
      let ?new = "paneTabs ?t L @ filter (\<lambda>x. x \<notin> set (paneTabs ?t L)) displaced"
      have "count_list (orderPaneTabs e ?new) x \<le> count_list (paneTabs ?t L) x + count_list displaced x"
        using count_order [of e ?new x] by (simp add: count_filter split: if_splits)
      then show ?thesis using Cons False by (simp add: place_displaced_def Let_def)
    qed
    have "occ x (set (g # gs)) ?P \<le> (\<Sum>s \<in> set (g # gs).
        (if s = ?t then count_list (paneTabs ?t L) x + count_list displaced x else count_list (paneTabs s L) x))"
      unfolding occ_def using tabs by (rule sum_mono)
    also have "\<dots> = (\<Sum>s \<in> set (g # gs). count_list (paneTabs s L) x + (if s = ?t then count_list displaced x else 0))"
      by (rule sum.cong) auto
    also have "\<dots> = occ x (set (g # gs)) L + count_list displaced x"
      using t by (simp add: sum.distrib occ_def sum.delta' sum.delta del: set_simps)
    finally show ?thesis unfolding tree Cons .
  qed
qed

lemma fold_attach_occ:
  "occ x (set (drop (length ss) (snd (fold (attach_group e sd) gs (L, ss))))) (fst (fold (attach_group e sd) gs (L, ss)))
     \<le> group_occ x gs"
proof (induction gs arbitrary: L ss)
  case Nil
  show ?case by (simp add: occ_def)
next
  case (Cons g gs)
  obtain s p where g: "attach_group e sd g (L, ss) = (setPane s p L, ss @ [s])"
    and p: "count_list (ps_tabs p) x \<le> count_list (sg_tabs g) x"
    by (auto simp: attach_group_def Let_def)
  obtain new where new: "snd (fold (attach_group e sd) gs (setPane s p L, ss @ [s])) = (ss @ [s]) @ new"
    "attached e sd new (group_items gs) (setPane s p L) (fst (fold (attach_group e sd) gs (setPane s p L, ss @ [s])))"
    using fold_attach [of e sd gs "setPane s p L" "ss @ [s]"] by blast
  let ?M = "fst (fold (attach_group e sd) gs (setPane s p L, ss @ [s]))"
  have "s \<notin> set new" using new(2) by (auto simp: attached_def)
  then have "paneTabs s ?M = ps_tabs p" using new(2) by (auto simp: attached_def paneTabs_def)
  then have "occ x (set (s # new)) ?M = count_list (ps_tabs p) x + occ x (set new) ?M"
    using \<open>s \<notin> set new\<close> by (simp add: occ_def)
  moreover have "occ x (set new) ?M \<le> group_occ x gs"
    using Cons.IH [of "ss @ [s]" "setPane s p L"] new(1) by simp
  ultimately show ?case using g p new(1) by simp
qed

lemma attachSide_occ:
  assumes "distinct (layoutLeafSlots n)" "node_ok n"
  shows "occ x (opt_leaves (snd (attachSide e sd gs n L))) (fst (attachSide e sd gs n L)) \<le> group_occ x gs"
    and "distinct (treeLeafSlots (snd (attachSide e sd gs n L)))"
proof -
  let ?f = "fold (attach_group e sd) gs (L, [])"
  obtain new where new: "snd ?f = new" "length new = length gs" "distinct new"
    using fold_attach [of e sd gs L "[]"] by (auto simp: attached_def)
  have "occ x (opt_leaves (snd (attachSide e sd gs n L))) (fst (attachSide e sd gs n L)) \<le> group_occ x gs
      \<and> distinct (treeLeafSlots (snd (attachSide e sd gs n L)))"
  proof (cases "gs = []")
    case True
    then show ?thesis by (simp add: attachSide_def opt_leaves_def occ_def)
  next
    case False
    then have "new \<noteq> []" using new(2) by auto
    then obtain t where t: "sidePaneColumnTree new n = Some t" "set (layoutLeafSlots t) = set new" "distinct (layoutLeafSlots t)"
      using sidePaneColumnTree_leaves assms new(3) by metis
    have eq: "attachSide e sd gs n L = (fst ?f, Some t)"
      using False new(1) t(1) by (simp add: attachSide_def split_beta Let_def)
    show ?thesis using fold_attach_occ [of x "[]" e sd gs L] t new(1)
      by (simp add: eq opt_leaves_def)
  qed
  then show "occ x (opt_leaves (snd (attachSide e sd gs n L))) (fst (attachSide e sd gs n L)) \<le> group_occ x gs"
    "distinct (treeLeafSlots (snd (attachSide e sd gs n L)))" by auto
qed

definition generic_slots :: "layout_slots \<Rightarrow> slot list" where
  "generic_slots L = filter (\<lambda>s. s \<notin> set (sidePaneSlots L)) (layoutSlotKeys L)"

lemma genericPane_count: "count_list (ps_tabs (genericPane e L s)) x \<le> count_list (genericTabs L s) x"
  by (simp add: genericPane_def)

lemma placed_distinct:
  "distinct (treeLeafSlots (lay_tree L)) \<Longrightarrow> distinct (treeLeafSlots (lay_tree (place_displaced e displaced L)))"
  by (auto simp: place_displaced_def Let_def split: list.splits)

lemma content_occ:
  assumes tree: "lay_tree L = Some n" and leaves: "distinct (layoutLeafSlots n)"
    and items: "\<forall>x \<in> set (paneItems L). isLayoutItem e x"
  obtains c where "lay_tree (contentLayout e L n) = Some c" "distinct (layoutLeafSlots c)"
    "\<forall>s \<in> set (layoutLeafSlots c). getPane (contentLayout e L n) s \<noteq> None"
    "occ x (set (layoutLeafSlots c)) (contentLayout e L n)
      \<le> (\<Sum>s \<leftarrow> generic_slots L. count_list (genericTabs L s) x) + count_list (ss_displaced (sortedSidePanes e L)) x"
proof -
  let ?g = "sortedGenericPanes e L"
  let ?N = "setTree (layoutTreeWithoutSlots n (set (cs_removed ?g))) (cs_next ?g)"
  have keys: "layoutSlotKeys L = layoutLeafSlots n" using tree by (rule layoutSlotKeys_tree)
  have lv: "treeLeafSlots (lay_tree ?N) = filter (\<lambda>s. s \<notin> set (cs_removed ?g)) (layoutLeafSlots n)"
    by (simp add: leaves_layoutTreeWithoutSlots)
  have pane: "getPane ?N s = Some (genericPane e L s)" if "s \<in> set (treeLeafSlots (lay_tree ?N))" for s
    using that unfolding lv
    by (auto simp: sortedGeneric_spec(1,2) keys sidePaneSlots_def is_side_role_def)
  have C: "contentLayout e L n = place_displaced e (ss_displaced (sortedSidePanes e L)) ?N"
    by (simp add: contentLayout_def Let_def)
  obtain c where c: "lay_tree (contentLayout e L n) = Some c" unfolding C using placed_tree by blast
  have dist: "distinct (treeLeafSlots (lay_tree ?N))" unfolding lv using leaves by simp
  have sub: "set (treeLeafSlots (lay_tree ?N)) \<subseteq> set (generic_slots L)"
    unfolding lv generic_slots_def by (auto simp: keys sortedGeneric_spec(2))
  have "occ x (set (treeLeafSlots (lay_tree ?N))) ?N
      \<le> (\<Sum>s \<in> set (treeLeafSlots (lay_tree ?N)). count_list (genericTabs L s) x)"
    unfolding occ_def
  proof (rule sum_mono)
    fix s assume "s \<in> set (treeLeafSlots (lay_tree ?N))"
    then have "paneTabs s ?N = ps_tabs (genericPane e L s)" using pane by (simp add: paneTabs_def)
    then show "count_list (paneTabs s ?N) x \<le> count_list (genericTabs L s) x"
      using genericPane_count by simp
  qed
  also have "\<dots> \<le> (\<Sum>s \<in> set (generic_slots L). count_list (genericTabs L s) x)"
    using sub by (intro sum_mono2) auto
  also have "\<dots> = (\<Sum>s \<leftarrow> generic_slots L. count_list (genericTabs L s) x)"
    using leaves by (simp add: sum_list_distinct_conv_sum_set generic_slots_def keys)
  finally have N: "occ x (set (treeLeafSlots (lay_tree ?N))) ?N
      \<le> (\<Sum>s \<leftarrow> generic_slots L. count_list (genericTabs L s) x)" .
  have lc: "treeLeafSlots (lay_tree (contentLayout e L n)) = layoutLeafSlots c" by (simp add: c)
  show ?thesis
  proof (rule that [OF c])
    show "distinct (layoutLeafSlots c)"
      using placed_distinct [OF dist, of e "ss_displaced (sortedSidePanes e L)"] unfolding C [symmetric] lc .
    show "\<forall>s \<in> set (layoutLeafSlots c). getPane (contentLayout e L n) s \<noteq> None"
      using placed_panes [of ?N e "ss_displaced (sortedSidePanes e L)"] pane unfolding C [symmetric] lc by blast
    show "occ x (set (layoutLeafSlots c)) (contentLayout e L n)
      \<le> (\<Sum>s \<leftarrow> generic_slots L. count_list (genericTabs L s) x) + count_list (ss_displaced (sortedSidePanes e L)) x"
      using placed_occ [OF dist, of x e "ss_displaced (sortedSidePanes e L)"] N
      unfolding C [symmetric] lc by linarith
  qed
qed

lemma sorted_occ:
  assumes "distinct (layoutSlotKeys L)"
  shows "group_occ x (cs_left (sortedGenericPanes e L)) + (\<Sum>s \<leftarrow> generic_slots L. count_list (genericTabs L s) x)
     + group_occ x (ss_right (sortedSidePanes e L)) + count_list (ss_displaced (sortedSidePanes e L)) x
   \<le> occ x (set (layoutSlotKeys L)) L"
proof -
  have "group_occ x (cs_left (sortedGenericPanes e L)) + (\<Sum>s \<leftarrow> generic_slots L. count_list (genericTabs L s) x)
      \<le> group_occ x (ss_left (sortedSidePanes e L)) + (\<Sum>s \<leftarrow> generic_slots L. count_list (paneTabs s L) x)"
    using fold_sort_generic_occ [of x e L "generic_slots L"
        "\<lparr>cs_next = emptyLayoutSlots, cs_removed = sidePaneSlots L, cs_left = ss_left (sortedSidePanes e L)\<rparr>"]
    by (simp add: sortedGenericPanes_def generic_slots_def)
  moreover have "group_occ x (ss_left (sortedSidePanes e L)) + group_occ x (ss_right (sortedSidePanes e L))
      + count_list (ss_displaced (sortedSidePanes e L)) x \<le> (\<Sum>s \<leftarrow> sidePaneSlots L. count_list (paneTabs s L) x)"
    using fold_sort_side_occ [of x e L "sidePaneSlots L" "\<lparr>ss_left = [], ss_right = [], ss_displaced = []\<rparr>"]
    by (simp add: sortedSidePanes_def)
  moreover have "(\<Sum>s \<leftarrow> generic_slots L. count_list (paneTabs s L) x) + (\<Sum>s \<leftarrow> sidePaneSlots L. count_list (paneTabs s L) x)
      = occ x (set (layoutSlotKeys L)) L"
  proof -
    have "set (generic_slots L) \<union> set (sidePaneSlots L) = set (layoutSlotKeys L)"
      "set (generic_slots L) \<inter> set (sidePaneSlots L) = {}"
      by (auto simp: generic_slots_def sidePaneSlots_def)
    moreover have "distinct (generic_slots L)" "distinct (sidePaneSlots L)"
      using assms by (auto simp: generic_slots_def sidePaneSlots_def)
    ultimately show ?thesis
      by (simp add: sum_list_distinct_conv_sum_set occ_def flip: sum.union_disjoint)
  qed
  ultimately show ?thesis by linarith
qed

lemma joinSideTrees_distinct:
  assumes "distinct (treeLeafSlots l)" "distinct (layoutLeafSlots c)" "distinct (treeLeafSlots r)"
    "opt_leaves l \<inter> set (layoutLeafSlots c) = {}" "(opt_leaves l \<union> set (layoutLeafSlots c)) \<inter> opt_leaves r = {}"
  shows "distinct (layoutLeafSlots (joinSideTrees l c r lw rw))"
  using assms by (cases l; cases r) (auto simp: joinSideTrees_def opt_leaves_def Let_def)

lemma canonical_occ:
  assumes tree: "lay_tree L = Some n" and leaves: "distinct (layoutLeafSlots n)" and node: "node_ok n"
    and items: "\<forall>x \<in> set (paneItems L). isLayoutItem e x"
  shows "occ x (set (layoutSlotKeys (canonicalSidePanes e L n p))) (canonicalSidePanes e L n p)
      \<le> occ x (set (layoutSlotKeys L)) L"
    and "distinct (layoutSlotKeys (canonicalSidePanes e L n p))"
proof -
  have keys: "layoutSlotKeys L = layoutLeafSlots n" using tree by (rule layoutSlotKeys_tree)
  let ?C = "contentLayout e L n"
  obtain c where c: "lay_tree ?C = Some c" "distinct (layoutLeafSlots c)"
    "\<forall>s \<in> set (layoutLeafSlots c). getPane ?C s \<noteq> None"
    "occ x (set (layoutLeafSlots c)) ?C
      \<le> (\<Sum>s \<leftarrow> generic_slots L. count_list (genericTabs L s) x) + count_list (ss_displaced (sortedSidePanes e L)) x"
    by (rule content_occ [OF tree leaves items])
  let ?l = "attachSide e SideLeft (cs_left (sortedGenericPanes e L)) n ?C"
  let ?r = "attachSide e SideRight (ss_right (sortedSidePanes e L)) n (fst ?l)"
  obtain ls where ls: "attached e SideLeft ls (group_items (cs_left (sortedGenericPanes e L))) ?C (fst ?l)"
    "opt_leaves (snd ?l) = set ls"
    by (rule attachSide_spec [OF leaves node, of e SideLeft "cs_left (sortedGenericPanes e L)" ?C])
  obtain rs where rs: "attached e SideRight rs (group_items (ss_right (sortedSidePanes e L))) (fst ?l) (fst ?r)"
    "opt_leaves (snd ?r) = set rs"
    by (rule attachSide_spec [OF leaves node, of e SideRight "ss_right (sortedSidePanes e L)" "fst ?l"])
  have lsp: "s \<in> set ls \<Longrightarrow> getPane ?C s = None \<and> getPane (fst ?l) s \<noteq> None" for s
    using ls(1) by (simp add: attached_def)
  have rsp: "s \<in> set rs \<Longrightarrow> getPane (fst ?l) s = None" for s using rs(1) by (simp add: attached_def)
  have cp: "s \<in> set (layoutLeafSlots c) \<Longrightarrow> getPane (fst ?l) s \<noteq> None" for s
    using c(3) attached_role [OF ls(1)] by simp
  let ?t = "joinSideTrees (snd ?l) c (snd ?r) (sidePaneWidthPercent SideLeft L) (sidePaneWidthPercent SideRight L)"
  let ?M = "setTree (Some ?t) (fst ?r)"
  have treer: "lay_tree (fst ?r) = Some c" using ls(1) rs(1) c(1) by (simp add: attached_def)
  have eq: "canonicalSidePanes e L n p = compactLayoutSlots e ?M (p \<or> snd ?l \<noteq> None \<or> snd ?r \<noteq> None)"
    using treer by (simp add: canonicalSidePanes_def split_beta Let_def)
  have dist: "distinct (layoutLeafSlots ?t)"
  proof (rule joinSideTrees_distinct)
    show "opt_leaves (snd ?l) \<inter> set (layoutLeafSlots c) = {}" using lsp c(3) unfolding ls(2) by blast
    show "(opt_leaves (snd ?l) \<union> set (layoutLeafSlots c)) \<inter> opt_leaves (snd ?r) = {}"
      using lsp rsp cp unfolding ls(2) rs(2) by blast
  qed (rule attachSide_occ(2) [OF leaves node] c(2))+
  have tabsl: "paneTabs s (fst ?r) = paneTabs s (fst ?l)" if "getPane (fst ?l) s \<noteq> None" for s
    using attached_role [OF rs(1) that] by simp
  have ol: "occ x (set ls) (fst ?r) \<le> group_occ x (cs_left (sortedGenericPanes e L))"
    using attachSide_occ(1) [OF leaves node, of x e SideLeft "cs_left (sortedGenericPanes e L)" ?C]
      occ_cong [of "set ls" "fst ?r" "fst ?l" x] tabsl lsp unfolding ls(2) by simp
  have oc: "occ x (set (layoutLeafSlots c)) (fst ?r) = occ x (set (layoutLeafSlots c)) ?C"
    using occ_cong [of "set (layoutLeafSlots c)" "fst ?r" ?C x] tabsl cp attached_role [OF ls(1)] c(3) by simp
  have or: "occ x (set rs) (fst ?r) \<le> group_occ x (ss_right (sortedSidePanes e L))"
    using attachSide_occ(1) [OF leaves node, of x e SideRight "ss_right (sortedSidePanes e L)" "fst ?l"]
    unfolding rs(2) by simp
  have "occ x (set (layoutLeafSlots ?t)) ?M = occ x (set ls \<union> set (layoutLeafSlots c) \<union> set rs) (fst ?r)"
    by (simp add: joinSideTrees_leaves ls(2) rs(2) occ_def)
  also have "\<dots> \<le> occ x (set ls \<union> set (layoutLeafSlots c)) (fst ?r) + occ x (set rs) (fst ?r)"
    by (rule occ_union) simp_all
  also have "\<dots> \<le> occ x (set ls) (fst ?r) + occ x (set (layoutLeafSlots c)) (fst ?r) + occ x (set rs) (fst ?r)"
    using occ_union [of "set ls" "set (layoutLeafSlots c)" x "fst ?r"] by simp
  also have "\<dots> \<le> occ x (set (layoutSlotKeys L)) L"
    using ol oc or c(4) sorted_occ [of L x e] leaves keys by simp
  finally have M: "occ x (set (layoutLeafSlots ?t)) ?M \<le> occ x (set (layoutSlotKeys L)) L" .
  have tM: "lay_tree ?M = Some ?t" by simp
  show "occ x (set (layoutSlotKeys (canonicalSidePanes e L n p))) (canonicalSidePanes e L n p)
      \<le> occ x (set (layoutSlotKeys L)) L"
    unfolding eq using compact_occ [OF tM] M by (rule order_trans)
  show "distinct (layoutSlotKeys (canonicalSidePanes e L n p))"
    unfolding eq using compact_distinct [OF tM dist] .
qed

lemma canonical_unique:
  assumes "lay_tree L = Some n" "node_ok n" "layout_unique L"
    "\<forall>x \<in> set (paneItems L). isLayoutItem e x"
  shows "layout_unique (canonicalSidePanes e L n p)"
proof -
  have d: "distinct (layoutLeafSlots n)"
    using assms(1,3) by (simp add: layout_unique_iff layoutSlotKeys_tree)
  have "\<forall>x. occ x (set (layoutSlotKeys L)) L \<le> 1"
    using assms(3) unfolding layout_unique_iff by blast
  then show ?thesis
    using canonical_occ [OF assms(1) d assms(2,4)] unfolding layout_unique_iff by (meson le_trans)
qed

end
