(* ===== verification/Layout_Stored.thy ===== *)
theory Layout_Stored
  imports Layout_Unique
begin

text \<open>
  Stored layouts (\<open>20_layout_state.js\<close>): the value read from storage, the URL or a shared
  snapshot is a \<open>raw_layout\<close>; \<open>normalizeLayoutSlots\<close> turns it into a layout of known items.
  A raw node keeps its \<open>split\<close> word, its \<open>pct\<close> and all its children; a raw pane is either a bare
  array of tabs or an object. Tabs and slots of a stored value are strings.
\<close>

section \<open>Raw values\<close>

datatype raw_node = RawNull | RawLeaf slot | RawSplit string pct_value "raw_node list"

record raw_pane =
  rp_array :: bool
  rp_tabs :: "string list"
  rp_active :: "string option"
  rp_placeholder :: bool
  rp_legacy :: bool
  rp_kind :: string
  rp_side :: string

record raw_layout =
  rl_tree :: raw_node
  rl_panes :: "(slot \<times> raw_pane) list"

text \<open>A layout is itself a stored value.\<close>

fun raw_node_of :: "layout_node \<Rightarrow> raw_node" where
  "raw_node_of (Leaf s) = RawLeaf s"
| "raw_node_of (Split d p a b) =
     RawSplit (if d = Column then ''column'' else ''row'') (PctNumber p) [raw_node_of a, raw_node_of b]"

definition raw_pane_of :: "pane_state \<Rightarrow> raw_pane" where
  "raw_pane_of p =
     \<lparr>rp_array = False, rp_tabs = ps_tabs p, rp_active = ps_active p, rp_placeholder = ps_placeholder p,
      rp_legacy = ps_legacy p, rp_kind = (if is_side_role (ps_role p) then ''side'' else []),
      rp_side = (case ps_role p of Side d \<Rightarrow> pane_side_word d | Generic \<Rightarrow> [])\<rparr>"

definition raw_layout_of :: "layout_slots \<Rightarrow> raw_layout" where
  "raw_layout_of L =
     \<lparr>rl_tree = (case lay_tree L of Some n \<Rightarrow> raw_node_of n | None \<Rightarrow> RawNull),
      rl_panes = map (\<lambda>(s, p). (s, raw_pane_of p)) (lay_panes L)\<rparr>"

section \<open>Panes\<close>

definition resolveMaybe :: "env \<Rightarrow> string option \<Rightarrow> item option" where
  "resolveMaybe e x = resolveLayoutItem e (case x of Some s \<Rightarrow> s | None \<Rightarrow> [])"

text \<open>One pass over the tabs: the tabs kept, the items seen so far and whether one of the
  preserved removed items was met.\<close>

fun collect_tabs :: "env \<Rightarrow> item set \<Rightarrow> string list \<Rightarrow> item list \<times> item list \<times> bool \<Rightarrow> item list \<times> item list \<times> bool" where
  "collect_tabs e keep [] acc = acc"
| "collect_tabs e keep (v # vs) (tabs, seen, had) =
     (let r = resolveLayoutItem e v;
          had' = (had \<or> v \<in> keep \<or> (case r of Some x \<Rightarrow> x \<in> keep | None \<Rightarrow> False))
      in (case r of
            Some x \<Rightarrow> if isLayoutItem e x \<and> x \<notin> set seen
                      then collect_tabs e keep vs (tabs @ [x], seen @ [x], had')
                      else collect_tabs e keep vs (tabs, seen, had')
          | None \<Rightarrow> collect_tabs e keep vs (tabs, seen, had')))"

definition normalizePaneState ::
  "env \<Rightarrow> raw_pane option \<Rightarrow> item list \<Rightarrow> norm_options \<Rightarrow> pane_state \<times> item list" where
  "normalizePaneState e raw seen opts =
     (let (tabs, seen', had) =
            collect_tabs e (set (no_preserveRemovedItems opts)) (case raw of Some r \<Rightarrow> rp_tabs r | None \<Rightarrow> []) ([], seen, False);
          ordered = orderPaneTabs e tabs;
          active = resolveMaybe e (case raw of Some r \<Rightarrow> if rp_array r then None else rp_active r | None \<Rightarrow> None);
          stored = (case raw of Some r \<Rightarrow> ordered = [] \<and> \<not> rp_array r \<and> rp_placeholder r | None \<Rightarrow> False)
      in (\<lparr>ps_active = (case active of Some a \<Rightarrow> if a \<in> set ordered then Some a else first_or_none ordered
                        | None \<Rightarrow> first_or_none ordered),
           ps_tabs = ordered,
           ps_placeholder = (stored \<or> (ordered = [] \<and> no_preserveRemovedSlots opts \<and> had)),
           ps_legacy = (stored \<and> (case raw of Some r \<Rightarrow> rp_legacy r | None \<Rightarrow> False)),
           ps_role = (case raw of
               Some r \<Rightarrow> if rp_array r then Generic else paneRoleDefinition (rp_kind r) (rp_side r)
             | None \<Rightarrow> Generic)\<rparr>, seen'))"

section \<open>Trees\<close>

type_synonym norm_state = "layout_slots \<times> item list"

fun normalizeLayoutNode ::
  "env \<Rightarrow> raw_layout \<Rightarrow> norm_options \<Rightarrow> raw_node \<Rightarrow> norm_state \<Rightarrow> layout_node option \<times> norm_state"
and normalizeLayoutNodes ::
  "env \<Rightarrow> raw_layout \<Rightarrow> norm_options \<Rightarrow> raw_node list \<Rightarrow> norm_state \<Rightarrow> layout_node list \<times> norm_state" where
  "normalizeLayoutNode e value opts RawNull st = (None, st)"
| "normalizeLayoutNode e value opts (RawLeaf s) (next, seen) =
     (let (pane, seen') = normalizePaneState e (map_of (rl_panes value) s) seen opts
      in (Some (Leaf s), (setPane s pane next, seen')))"
| "normalizeLayoutNode e value opts (RawSplit w pct children) st =
     (let (cs, st') = normalizeLayoutNodes e value opts children st
      in ((case cs of
             [] \<Rightarrow> None
           | [c] \<Rightarrow> Some c
           | c1 # c2 # _ \<Rightarrow> Some (splitNode (if w = ''column'' then Column else Row) c1 c2 pct)), st'))"
| "normalizeLayoutNodes e value opts [] st = ([], st)"
| "normalizeLayoutNodes e value opts (n # ns) st =
     (let (c, st1) = normalizeLayoutNode e value opts n st;
          (cs, st2) = normalizeLayoutNodes e value opts ns st1
      in ((case c of Some t \<Rightarrow> t # cs | None \<Rightarrow> cs), st2))"

section \<open>Migrations\<close>

definition layoutIsFileSurfaceItem :: "item \<Rightarrow> bool" where
  "layoutIsFileSurfaceItem x = isFileExplorerItem x"

definition legacyUntypedFileSurfaceHomeLeaves :: "layout_slots \<Rightarrow> slot list" where
  "legacyUntypedFileSurfaceHomeLeaves L =
     (case lay_tree L of
        Some (Split Row p a b) \<Rightarrow>
          (let populated = filter (\<lambda>s. paneTabs s L \<noteq> []) (layoutLeafSlots a)
           in if populated \<noteq> [] \<and> list_all (\<lambda>s. list_all layoutIsFileSurfaceItem (paneTabs s L)) populated
              then populated else [])
      | _ \<Rightarrow> [])"

definition migrateLegacyUntypedSidePane :: "env \<Rightarrow> layout_slots \<Rightarrow> bool \<Rightarrow> layout_slots" where
  "migrateLegacyUntypedSidePane e L compacted =
     (if sidePaneSlots L \<noteq> [] then L
      else (case (legacyUntypedFileSurfaceHomeLeaves L, lay_tree L) of
        (targetSlot # others, Some (Split Row p a b)) \<Rightarrow>
          (let tabs = foldl push_new [] (concat (map (\<lambda>s. paneTabs s L) (targetSlot # others)));
               active = or_else
                 (List.find (\<lambda>x. x \<in> set tabs) (somes (map (\<lambda>s. activeItemForSide s L) (targetSlot # others))))
                 (first_or_none tabs);
               next = setTree (Some (splitNode Row (Leaf targetSlot) b (PctNumber p)))
                 (fold deletePane others (setPane targetSlot (paneStateWithTabs e tabs active (Side SideLeft)) L))
           in if compacted then compactLayoutSlots e next True else next)
      | _ \<Rightarrow> L))"

definition repairRedundantLegacyPlaceholders :: "layout_slots \<Rightarrow> layout_slots" where
  "repairRedundantLegacyPlaceholders L =
     (case lay_tree L of
        None \<Rightarrow> L
      | Some rt \<Rightarrow>
          if sidePaneSlots L = [] then L
          else if \<not> list_ex (\<lambda>s. \<not> slotIsSidePane s L \<and> paneTabs s L \<noteq> []) (layoutSlotKeys L) then L
          else
            let removed = filter (\<lambda>s. \<not> slotIsSidePane s L \<and> paneIsPlaceholder s L
                  \<and> (case getPane L s of Some p \<Rightarrow> ps_legacy p | None \<Rightarrow> False)) (layoutSlotKeys L)
            in if removed = [] then L
               else setTree (layoutTreeWithoutSlots rt (set removed)) (fold deletePane removed L))"

section \<open>Normalization of a stored layout\<close>

definition basePaneKeys :: "slot list" where "basePaneKeys = [''left'', ''right'']"
definition paneKeys :: "slot list" where
  "paneKeys = basePaneKeys @ [''leftTop'', ''leftBottom'', ''rightTop'', ''rightBottom'']"

definition normalizeTreeLayout :: "env \<Rightarrow> raw_layout \<Rightarrow> norm_options \<Rightarrow> layout_slots" where
  "normalizeTreeLayout e value opts =
     (let (tree, (next, seen)) = normalizeLayoutNode e value opts (rl_tree value) (emptyLayoutSlots, [])
      in canonicalizeSidePaneLayout e (migrateLegacyUntypedSidePane e (setTree tree next) False) opts)"

definition verticalSplitSlot :: "slot \<Rightarrow> bool \<Rightarrow> slot" where
  "verticalSplitSlot column isTop = column @ (if isTop then ''Top'' else ''Bottom'')"

definition legacyColumnTree :: "slot \<Rightarrow> layout_slots \<Rightarrow> layout_node option" where
  "legacyColumnTree column L =
     (if paneHasLayoutContent column L then Some (Leaf column)
      else
        let upper = verticalSplitSlot column True; lower = verticalSplitSlot column False;
            upperNode = (if paneHasLayoutContent upper L then Some (Leaf upper) else None);
            lowerNode = (if paneHasLayoutContent lower L then Some (Leaf lower) else None)
        in (case (upperNode, lowerNode) of
              (Some t, Some b) \<Rightarrow> Some (splitHalf Column t b)
            | _ \<Rightarrow> or_else upperNode lowerNode))"

definition legacyLayoutTree :: "layout_slots \<Rightarrow> layout_node option" where
  "legacyLayoutTree L =
     (case somes (map (\<lambda>c. legacyColumnTree c L) basePaneKeys) of
        [] \<Rightarrow> None
      | [c] \<Rightarrow> Some c
      | c1 # c2 # _ \<Rightarrow> Some (splitHalf Row c1 c2))"

definition normalizeLegacyLayoutSlots :: "env \<Rightarrow> raw_layout \<Rightarrow> norm_options \<Rightarrow> layout_slots" where
  "normalizeLegacyLayoutSlots e value opts =
     (let (next, seen) = foldl (\<lambda>(next, seen) side.
            let (pane, seen') = normalizePaneState e (map_of (rl_panes value) side) seen opts
            in (setPane side pane next, seen')) (emptyLayoutSlots, []) paneKeys
      in canonicalizeSidePaneLayout e
           (migrateLegacyUntypedSidePane e (setTree (legacyLayoutTree next) next) False) opts)"

definition normalizeLayoutSlots :: "env \<Rightarrow> raw_layout option \<Rightarrow> norm_options \<Rightarrow> layout_slots" where
  "normalizeLayoutSlots e value opts =
     (case value of
        None \<Rightarrow> emptyPlaceholderLayoutSlots ''left''
      | Some v \<Rightarrow> if rl_tree v \<noteq> RawNull then normalizeTreeLayout e v opts
                  else normalizeLegacyLayoutSlots e v opts)"

text \<open>\<open>normalizeLayoutSlotsForViewport\<close>: the layout, and the new value of
  \<open>sidePaneLayoutWasConstrained\<close>.\<close>

definition normalizeLayoutSlotsForViewport ::
  "env \<Rightarrow> bool \<Rightarrow> layout_slots \<Rightarrow> norm_options \<Rightarrow> layout_slots \<times> bool" where
  "normalizeLayoutSlotsForViewport e wasConstrained L opts =
     (let sideConstrained = sidePaneConstrainedMode e;
          source = (if narrowSingleColumnMode e then narrowSingleColumnLayoutSlots e L (no_focusSession opts) else L);
          source' = (if \<not> sideConstrained \<and> wasConstrained \<and> \<not> layoutHasSidePane SideLeft source
                        \<and> list_ex (\<lambda>x. itemInLayout x source) (layoutFileSurfaceItems e)
                     then layoutWithDefaultLeftSidePane e
                            (canonicalizeSidePaneLayout e source (opts\<lparr>no_allowSidePanes := True\<rparr>))
                     else source)
      in (normalizeLayoutSlots e (Some (raw_layout_of source')) (opts\<lparr>no_allowSidePanes := \<not> sideConstrained\<rparr>),
          sideConstrained))"

section \<open>Adding items\<close>

definition slot_allows_all :: "env \<Rightarrow> item list \<Rightarrow> layout_slots \<Rightarrow> slot \<Rightarrow> bool" where
  "slot_allows_all e xs L s =
     (s \<noteq> [] \<and> list_all (\<lambda>x. paneRoleAllowsItemTransfer e x None (Some s) L None None
        (sidePaneConstrainedMode e) False) xs)"

definition layoutWithItems :: "env \<Rightarrow> layout_slots \<Rightarrow> item list \<Rightarrow> slot option \<Rightarrow> layout_slots" where
  "layoutWithItems e L items preferred =
     (let next = normalizeLayoutSlots e (Some (raw_layout_of L)) norm_defaults;
          missing = filter (\<lambda>x. isLayoutItem e x \<and> x \<notin> set (paneItems next)) items
      in if missing = [] then next
         else
           let sideRequired = (if sidePaneConstrainedMode e then []
                 else filter (\<lambda>x. panePlacementForItem x = SideRequired) missing);
               next1 = (if sideRequired \<noteq> [] then layoutWithSidePaneItems e next sideRequired SideLeft False None None
                        else next);
               ordinary = filter (\<lambda>x. x \<notin> set sideRequired) missing
           in if ordinary = [] then next1
              else
                let fits = slot_allows_all e ordinary next1;
                    found = (case preferred of
                       Some s \<Rightarrow> if s \<in> set (layoutSlotKeys next1) \<and> fits s then Some s else None
                     | None \<Rightarrow> None);
                    found' = or_else found (or_else
                       (List.find (\<lambda>s. paneIsPlaceholder s next1 \<and> fits s) (layoutSlotKeys next1))
                       (List.find fits (layoutSlotKeys next1)));
                    (s, next2) = (case found' of
                       Some s \<Rightarrow> (s, next1)
                     | None \<Rightarrow>
                         let s = nextAvailableLayoutSlot next1 (Some (if lay_tree next1 \<noteq> None then ''main'' else ''left''))
                         in (s, setPane s (emptyPlaceholderPaneState Generic False)
                               (setTree (Some (case lay_tree next1 of
                                  Some t \<Rightarrow> splitHalf Row t (Leaf s) | None \<Rightarrow> Leaf s)) next1)));
                    tabs = paneTabs s next2 @ ordinary;
                    active = or_else (activeItemForSide s next2)
                      (or_else (List.find (isTmuxSession e) tabs) (first_or_none tabs))
                in compactLayoutSlots e (setPane s (paneStateWithTabsForSlot e s tabs active next2) next2) False)"

definition layoutFromSessionList :: "env \<Rightarrow> string list \<Rightarrow> layout_slots" where
  "layoutFromSessionList e values =
     (let items = foldl push_new [] (filter (isLayoutItem e) (somes (map (resolveLayoutItem e) values)));
          content = layoutSlotsForItems e items (configuredDefaultLayoutMode e) mode_defaults
      in if \<not> sidePaneConstrainedMode e then layoutWithDefaultLeftSidePane e content
         else layoutWithItems e content [finderItemId] (first_or_none (treeLeafSlots (lay_tree content))))"

text \<open>\<open>defaultLayoutSlots\<close> sorts the visible sessions with \<open>localeCompare\<close>; the sorted list is an
  argument. The result carries the new value of \<open>sidePaneLayoutWasConstrained\<close>.\<close>

definition defaultLayoutSlots :: "env \<Rightarrow> bool \<Rightarrow> string list \<Rightarrow> layout_slots \<times> bool" where
  "defaultLayoutSlots e wasConstrained localeSorted =
     (if mobileSinglePaneMode e then (mobileSinglePaneLayoutSlots e None None, True)
      else
        let content = layoutSlotsForItems e localeSorted (configuredDefaultLayoutMode e) mode_defaults;
            standard = (if sidePaneConstrainedMode e
              then layoutWithItems e content [finderItemId] (first_or_none (treeLeafSlots (lay_tree content)))
              else layoutWithDefaultLeftSidePane e content)
        in if narrowSingleColumnMode e then (narrowSingleColumnLayoutSlots e standard None, True)
           else normalizeLayoutSlotsForViewport e wasConstrained standard norm_defaults)"

section \<open>The Finder dock\<close>

fun layoutNodeHasContent :: "layout_node \<Rightarrow> layout_slots \<Rightarrow> bool" where
  "layoutNodeHasContent (Leaf s) L = paneHasLayoutContent s L"
| "layoutNodeHasContent (Split d p a b) L = (layoutNodeHasContent a L \<or> layoutNodeHasContent b L)"

fun layoutNodeContainsItem :: "layout_node \<Rightarrow> item \<Rightarrow> layout_slots \<Rightarrow> bool" where
  "layoutNodeContainsItem (Leaf s) x L = (x \<in> set (paneTabs s L))"
| "layoutNodeContainsItem (Split d p a b) x L = (layoutNodeContainsItem a x L \<or> layoutNodeContainsItem b x L)"

fun layoutHasHorizontalContentBeforeItem :: "layout_node \<Rightarrow> item \<Rightarrow> layout_slots \<Rightarrow> bool" where
  "layoutHasHorizontalContentBeforeItem (Leaf s) x L = False"
| "layoutHasHorizontalContentBeforeItem (Split Row p a b) x L =
     (if layoutNodeContainsItem a x L then layoutHasHorizontalContentBeforeItem a x L
      else if layoutNodeContainsItem b x L
      then layoutNodeHasContent a L \<or> layoutHasHorizontalContentBeforeItem b x L
      else False)"
| "layoutHasHorizontalContentBeforeItem (Split Column p a b) x L =
     ((layoutNodeContainsItem a x L \<and> layoutHasHorizontalContentBeforeItem a x L)
      \<or> (layoutNodeContainsItem b x L \<and> layoutHasHorizontalContentBeforeItem b x L))"

definition soleFileExplorerSlot :: "layout_slots \<Rightarrow> slot option" where
  "soleFileExplorerSlot L =
     (case filter (\<lambda>s. paneHasLayoutContent s L) (layoutSlotKeys L) of
        [s] \<Rightarrow> if paneTabs s L = [fileExplorerItemId] then Some s else None
      | _ \<Rightarrow> None)"

definition fileExplorerPeerSlot :: "layout_slots \<Rightarrow> slot \<Rightarrow> slot" where
  "fileExplorerPeerSlot L finderSlot =
     (case or_else
        (List.find (\<lambda>s. s \<noteq> finderSlot \<and> \<not> paneHasLayoutContent s L) (treeLeafSlots (lay_tree L)))
        (List.find (\<lambda>s. s \<noteq> finderSlot \<and> \<not> paneHasLayoutContent s L) (map fst (lay_panes L))) of
      Some s \<Rightarrow> s | None \<Rightarrow> nextLayoutSlot L)"

definition layoutWithFileExplorerPeerPane :: "env \<Rightarrow> layout_slots \<Rightarrow> layout_slots" where
  "layoutWithFileExplorerPeerPane e L =
     (if fileExplorerUsesNormalTabMovement e then L
      else (case soleFileExplorerSlot L of
        None \<Rightarrow> L
      | Some finderSlot \<Rightarrow>
          (let peerSlot = fileExplorerPeerSlot L finderSlot
           in compactLayoutSlots e
                (setTree (Some (splitNode Row (Leaf finderSlot) (Leaf peerSlot) (PctNumber sidePaneDefaultWidthPercent)))
                  (setPane peerSlot (emptyPlaceholderPaneState Generic False) L)) False)))"

end
