(* ===== verification/Layout_Restore.thy ===== *)
theory Layout_Restore
  imports Layout_Stored
begin

text \<open>
  Restoring a stored layout: the panes read are well formed, no item is read twice, the tree has
  exactly the stored leaves, and in a wide viewport every known item of the stored value is in
  the restored layout.
\<close>

section \<open>Reading the panes\<close>

fun raw_leaves :: "raw_node \<Rightarrow> slot list" where
  "raw_leaves RawNull = []"
| "raw_leaves (RawLeaf s) = [s]"
| "raw_leaves (RawSplit w p ns) = concat (map raw_leaves ns)"

fun raw_binary :: "raw_node \<Rightarrow> bool" where
  "raw_binary RawNull = True"
| "raw_binary (RawLeaf s) = True"
| "raw_binary (RawSplit w p ns) = (length ns \<le> 2 \<and> list_all raw_binary ns)"

definition raw_items :: "env \<Rightarrow> raw_layout \<Rightarrow> slot list \<Rightarrow> item set" where
  "raw_items e v ss = {x. isLayoutItem e x \<and> (\<exists>s \<in> set ss. \<exists>r. map_of (rl_panes v) s = Some r
     \<and> (\<exists>t \<in> set (rp_tabs r). resolveLayoutItem e t = Some x))}"

lemma collect_tabs_spec:
  assumes "collect_tabs e keep vs (tabs, seen, had) = (tabs', seen', had')"
  shows "\<exists>new. tabs' = tabs @ new \<and> seen' = seen @ new \<and> distinct new \<and> set new \<inter> set seen = {}
    \<and> set new = {x. isLayoutItem e x \<and> (\<exists>v \<in> set vs. resolveLayoutItem e v = Some x)} - set seen"
  using assms
proof (induction vs arbitrary: tabs seen had)
  case (Cons v vs)
  show ?case
  proof (cases "\<exists>x. resolveLayoutItem e v = Some x \<and> isLayoutItem e x \<and> x \<notin> set seen")
    case True
    then obtain x where x: "resolveLayoutItem e v = Some x" "isLayoutItem e x" "x \<notin> set seen" by blast
    then obtain h where "collect_tabs e keep vs (tabs @ [x], seen @ [x], h) = (tabs', seen', had')"
      using Cons.prems by (auto simp: Let_def)
    then obtain new where n: "tabs' = (tabs @ [x]) @ new" "seen' = (seen @ [x]) @ new" "distinct new"
      "set new \<inter> set (seen @ [x]) = {}"
      "set new = {y. isLayoutItem e y \<and> (\<exists>v \<in> set vs. resolveLayoutItem e v = Some y)} - set (seen @ [x])"
      using Cons.IH by blast
    have "set (x # new) = {y. isLayoutItem e y \<and> (\<exists>v \<in> set (v # vs). resolveLayoutItem e v = Some y)} - set seen"
      using n(5) x by auto
    moreover have "distinct (x # new)" "set (x # new) \<inter> set seen = {}" using n(3,4) x(3) by auto
    ultimately show ?thesis using n(1,2) by (intro exI [of _ "x # new"]) simp
  next
    case False
    then obtain h where "collect_tabs e keep vs (tabs, seen, h) = (tabs', seen', had')"
      using Cons.prems by (auto simp: Let_def split: option.splits if_splits)
    then obtain new where n: "tabs' = tabs @ new" "seen' = seen @ new" "distinct new" "set new \<inter> set seen = {}"
      "set new = {y. isLayoutItem e y \<and> (\<exists>v \<in> set vs. resolveLayoutItem e v = Some y)} - set seen"
      using Cons.IH by blast
    have "set new = {y. isLayoutItem e y \<and> (\<exists>v \<in> set (v # vs). resolveLayoutItem e v = Some y)} - set seen"
      using n(5) False by auto
    with n(1-4) show ?thesis by blast
  qed
qed auto

lemma chosen_active:
  "(case act of Some a \<Rightarrow> if a \<in> set xs then Some a else first_or_none xs | None \<Rightarrow> first_or_none xs) = r \<Longrightarrow>
   (case r of None \<Rightarrow> xs = [] | Some a \<Rightarrow> a \<in> set xs)"
  by (cases xs) (auto split: option.splits if_splits)

lemma normalizePaneState_spec:
  assumes "normalizePaneState e raw seen opts = (p, seen')"
  shows "pane_ok e p" "set seen' = set seen \<union> set (ps_tabs p)" "set (ps_tabs p) \<inter> set seen = {}"
    "set (ps_tabs p) = {x. isLayoutItem e x \<and> (\<exists>r. raw = Some r \<and> (\<exists>v \<in> set (rp_tabs r). resolveLayoutItem e v = Some x))}
       - set seen"
proof -
  obtain tabs sn had where c: "collect_tabs e (set (no_preserveRemovedItems opts))
      (case raw of Some r \<Rightarrow> rp_tabs r | None \<Rightarrow> []) ([], seen, False) = (tabs, sn, had)"
    by (cases "collect_tabs e (set (no_preserveRemovedItems opts))
      (case raw of Some r \<Rightarrow> rp_tabs r | None \<Rightarrow> []) ([], seen, False)")
  from collect_tabs_spec [OF c] have s: "sn = seen @ tabs" "distinct tabs" "set tabs \<inter> set seen = {}"
    "set tabs = {x. isLayoutItem e x \<and> (\<exists>v \<in> set (case raw of Some r \<Rightarrow> rp_tabs r | None \<Rightarrow> []). resolveLayoutItem e v = Some x)} - set seen"
    by auto
  have p: "seen' = sn" "ps_tabs p = orderPaneTabs e tabs"
    "ps_placeholder p \<Longrightarrow> orderPaneTabs e tabs = []"
    "\<exists>act. ps_active p = (case act of Some a \<Rightarrow> if a \<in> set (orderPaneTabs e tabs) then Some a
        else first_or_none (orderPaneTabs e tabs) | None \<Rightarrow> first_or_none (orderPaneTabs e tabs))"
    using assms unfolding normalizePaneState_def c by (auto simp: Let_def split: option.splits simp del: set_orderPaneTabs)
  have act: "case ps_active p of None \<Rightarrow> orderPaneTabs e tabs = [] | Some a \<Rightarrow> a \<in> set (orderPaneTabs e tabs)"
    using p(4) chosen_active by metis
  have o: "set (orderPaneTabs e tabs) = set tabs" using s(4) by auto
  have sub: "set (orderPaneTabs e tabs) \<subseteq> set (layoutItems e)" by (auto simp: isLayoutItem_def)
  show "pane_ok e p"
    using p(2,3) act sub by (simp add: pane_ok_def split: option.splits)
  show "set seen' = set seen \<union> set (ps_tabs p)" "set (ps_tabs p) \<inter> set seen = {}" using p o s by auto
  show "set (ps_tabs p) = {x. isLayoutItem e x \<and> (\<exists>r. raw = Some r \<and> (\<exists>v \<in> set (rp_tabs r). resolveLayoutItem e v = Some x))}
       - set seen"
    using p o s(4) by (cases raw) auto
qed

text \<open>What reading a node establishes for its leaves.\<close>

definition read_ok ::
  "env \<Rightarrow> raw_layout \<Rightarrow> norm_options \<Rightarrow> slot list \<Rightarrow> norm_state \<Rightarrow> norm_state \<Rightarrow> bool" where
  "read_ok e v opts ss st st' =
     ((\<forall>s. s \<notin> set ss \<longrightarrow> getPane (fst st') s = getPane (fst st) s)
      \<and> (\<forall>s \<in> set ss. \<exists>seen. getPane (fst st') s = Some (fst (normalizePaneState e (map_of (rl_panes v) s) seen opts)))
      \<and> set (snd st) \<subseteq> set (snd st')
      \<and> (distinct ss \<longrightarrow>
          set (snd st') = set (snd st) \<union> raw_items e v ss
          \<and> tabs_at ss (fst st') = set (snd st') - set (snd st)
          \<and> (\<forall>x. occ x (set ss) (fst st') \<le> (if x \<in> set (snd st) then 0 else 1))))"

lemma read_ok_Nil: "read_ok e v opts [] st st"
  by (simp add: read_ok_def raw_items_def tabs_at_def occ_def)

lemma raw_items_append [simp]: "raw_items e v (ss @ ts) = raw_items e v ss \<union> raw_items e v ts"
  by (auto simp: raw_items_def)

lemma read_ok_append:
  assumes a: "read_ok e v opts ss st st1" and b: "read_ok e v opts ts st1 st2"
  shows "read_ok e v opts (ss @ ts) st st2"
proof -
  have other: "\<forall>s. s \<notin> set (ss @ ts) \<longrightarrow> getPane (fst st2) s = getPane (fst st) s"
    and seen: "set (snd st) \<subseteq> set (snd st2)"
    using a b by (auto simp: read_ok_def)
  have panes: "\<forall>s \<in> set (ss @ ts). \<exists>seen. getPane (fst st2) s = Some (fst (normalizePaneState e (map_of (rl_panes v) s) seen opts))"
  proof
    fix s assume "s \<in> set (ss @ ts)"
    then show "\<exists>seen. getPane (fst st2) s = Some (fst (normalizePaneState e (map_of (rl_panes v) s) seen opts))"
      using a b by (cases "s \<in> set ts") (auto simp: read_ok_def)
  qed
  show ?thesis
  proof (cases "distinct (ss @ ts)")
    case True
    then have d: "distinct ss" "distinct ts" "set ss \<inter> set ts = {}" by auto
    have keep: "paneTabs s (fst st2) = paneTabs s (fst st1)" if "s \<in> set ss" for s
      using b that d(3) by (auto simp: read_ok_def paneTabs_def)
    have t: "tabs_at ss (fst st2) = tabs_at ss (fst st1)" using keep by (simp add: tabs_at_def)
    have o: "occ x (set ss) (fst st2) = occ x (set ss) (fst st1)" for x by (rule occ_cong) (rule keep)
    have A: "set (snd st1) = set (snd st) \<union> raw_items e v ss" "tabs_at ss (fst st1) = set (snd st1) - set (snd st)"
      "\<And>x. occ x (set ss) (fst st1) \<le> (if x \<in> set (snd st) then 0 else 1)"
      using a d(1) by (simp_all add: read_ok_def)
    have B: "set (snd st2) = set (snd st1) \<union> raw_items e v ts" "tabs_at ts (fst st2) = set (snd st2) - set (snd st1)"
      "\<And>x. occ x (set ts) (fst st2) \<le> (if x \<in> set (snd st1) then 0 else 1)"
      using b d(2) by (simp_all add: read_ok_def)
    have zero: "occ x (set ss) (fst st1) = 0" if "x \<notin> set (snd st1)" for x
      using A(2) that by (auto simp: occ_def tabs_at_def count_list_0_iff)
    have "occ x (set (ss @ ts)) (fst st2) \<le> (if x \<in> set (snd st) then 0 else 1)" for x
      using occ_union [of "set ss" "set ts" x "fst st2"] A(1) A(3) [of x] B(3) [of x] zero [of x] o [of x]
      by (auto split: if_splits)
    moreover have "tabs_at (ss @ ts) (fst st2) = set (snd st2) - set (snd st)"
      "set (snd st2) = set (snd st) \<union> raw_items e v (ss @ ts)"
      using t A B by auto
    ultimately show ?thesis using other seen panes by (simp add: read_ok_def)
  next
    case False
    with other seen panes show ?thesis unfolding read_ok_def by blast
  qed
qed

lemma read_ok_leaf:
  assumes "normalizePaneState e (map_of (rl_panes v) s) seen opts = (p, seen')"
  shows "read_ok e v opts [s] (next, seen) (setPane s p next, seen')"
proof -
  note sp = normalizePaneState_spec [OF assms]
  have "raw_items e v [s] = {x. isLayoutItem e x \<and> (\<exists>r. map_of (rl_panes v) s = Some r \<and> (\<exists>t \<in> set (rp_tabs r). resolveLayoutItem e t = Some x))}"
    by (auto simp: raw_items_def)
  moreover have "occ x {s} (setPane s p next) \<le> (if x \<in> set seen then 0 else 1)" for x
    using sp(1,3) distinct_count [of "ps_tabs p" x]
    by (auto simp: occ_def pane_ok_def count_list_0_iff)
  moreover have "fst (normalizePaneState e (map_of (rl_panes v) s) seen opts) = p" using assms by simp
  ultimately show ?thesis using sp by (auto simp: read_ok_def tabs_at_def)
qed

definition node_read ::
  "env \<Rightarrow> raw_layout \<Rightarrow> norm_options \<Rightarrow> raw_node \<Rightarrow> norm_state \<Rightarrow> layout_node option \<times> norm_state \<Rightarrow> bool" where
  "node_read e v opts n st r =
     (read_ok e v opts (raw_leaves n) st (snd r) \<and> tree_ok (fst r)
      \<and> set (treeLeafSlots (fst r)) \<subseteq> set (raw_leaves n)
      \<and> (distinct (raw_leaves n) \<longrightarrow> distinct (treeLeafSlots (fst r)))
      \<and> (raw_binary n \<longrightarrow> treeLeafSlots (fst r) = raw_leaves n))"

definition nodes_read ::
  "env \<Rightarrow> raw_layout \<Rightarrow> norm_options \<Rightarrow> raw_node list \<Rightarrow> norm_state \<Rightarrow> layout_node list \<times> norm_state \<Rightarrow> bool" where
  "nodes_read e v opts ns st r =
     (read_ok e v opts (concat (map raw_leaves ns)) st (snd r) \<and> list_all node_ok (fst r)
      \<and> set (concat (map layoutLeafSlots (fst r))) \<subseteq> set (concat (map raw_leaves ns))
      \<and> (distinct (concat (map raw_leaves ns)) \<longrightarrow> distinct (concat (map layoutLeafSlots (fst r))))
      \<and> length (fst r) \<le> length ns
      \<and> (list_all raw_binary ns \<longrightarrow> concat (map layoutLeafSlots (fst r)) = concat (map raw_leaves ns)))"

lemma node_read_split:
  assumes "nodes_read e v opts ns st (cs, st')"
  shows "node_read e v opts (RawSplit w pct ns) st
     ((case cs of [] \<Rightarrow> None | [c] \<Rightarrow> Some c
       | c1 # c2 # _ \<Rightarrow> Some (splitNode d c1 c2 pct)), st')"
proof -
  let ?t = "case cs of [] \<Rightarrow> None | [c] \<Rightarrow> Some c | c1 # c2 # _ \<Rightarrow> Some (splitNode d c1 c2 pct)"
  have A: "read_ok e v opts (concat (map raw_leaves ns)) st st'" "list_all node_ok cs"
    "set (concat (map layoutLeafSlots cs)) \<subseteq> set (concat (map raw_leaves ns))"
    "distinct (concat (map raw_leaves ns)) \<Longrightarrow> distinct (concat (map layoutLeafSlots cs))"
    "length cs \<le> length ns"
    "list_all raw_binary ns \<Longrightarrow> concat (map layoutLeafSlots cs) = concat (map raw_leaves ns)"
    using assms by (simp_all add: nodes_read_def)
  have lv: "treeLeafSlots ?t = concat (map layoutLeafSlots (take 2 cs))"
    by (auto split: list.splits)
  have parts: "concat (map layoutLeafSlots cs) =
      concat (map layoutLeafSlots (take 2 cs)) @ concat (map layoutLeafSlots (drop 2 cs))"
    by (simp flip: concat_append map_append)
  have "tree_ok ?t" using A(2) by (auto simp: tree_ok_def split: list.splits)
  moreover have "set (treeLeafSlots ?t) \<subseteq> set (raw_leaves (RawSplit w pct ns))"
    using A(3) unfolding lv parts by simp
  moreover have "distinct (raw_leaves (RawSplit w pct ns)) \<longrightarrow> distinct (treeLeafSlots ?t)"
    using A(4) unfolding lv parts by simp
  moreover have "raw_binary (RawSplit w pct ns) \<longrightarrow> treeLeafSlots ?t = raw_leaves (RawSplit w pct ns)"
    using A(5,6) unfolding lv by simp
  ultimately show ?thesis using A(1) by (simp add: node_read_def)
qed

lemma nodes_read_Cons:
  assumes "node_read e v opts n st (c, st1)" "nodes_read e v opts ns st1 (cs, st2)"
  shows "nodes_read e v opts (n # ns) st ((case c of Some t \<Rightarrow> t # cs | None \<Rightarrow> cs), st2)"
proof -
  have "read_ok e v opts (raw_leaves n @ concat (map raw_leaves ns)) st st2"
    using assms by (auto simp: node_read_def nodes_read_def intro: read_ok_append)
  moreover have "concat (map layoutLeafSlots (case c of Some t \<Rightarrow> t # cs | None \<Rightarrow> cs))
      = treeLeafSlots c @ concat (map layoutLeafSlots cs)" by (cases c) auto
  moreover have "list_all node_ok (case c of Some t \<Rightarrow> t # cs | None \<Rightarrow> cs)"
    "length (case c of Some t \<Rightarrow> t # cs | None \<Rightarrow> cs) \<le> length (n # ns)"
    using assms by (auto simp: node_read_def nodes_read_def tree_ok_def split: option.splits)
  ultimately show ?thesis
    using assms by (simp add: node_read_def nodes_read_def) blast
qed

lemma normalizeLayoutNode_spec:
  "node_read e v opts n st (normalizeLayoutNode e v opts n st)"
  "nodes_read e v opts ns st (normalizeLayoutNodes e v opts ns st)"
proof (induction e v opts n st and e v opts ns st rule: normalizeLayoutNode_normalizeLayoutNodes.induct)
  case (2 e v opts s "next" seen)
  obtain p seen' where p: "normalizePaneState e (map_of (rl_panes v) s) seen opts = (p, seen')" by (rule prod.exhaust)
  then show ?case using read_ok_leaf [OF p] by (simp add: node_read_def tree_ok_def)
next
  case (3 e v opts w pct children st)
  obtain cs st' where c: "normalizeLayoutNodes e v opts children st = (cs, st')" by (rule prod.exhaust)
  with 3 show ?case using node_read_split by simp
next
  case (5 e v opts n ns st)
  obtain c st1 where c: "normalizeLayoutNode e v opts n st = (c, st1)" by (rule prod.exhaust)
  obtain cs st2 where cs: "normalizeLayoutNodes e v opts ns st1 = (cs, st2)" by (rule prod.exhaust)
  have "node_read e v opts n st (c, st1)" "nodes_read e v opts ns st1 (cs, st2)" using 5 c cs by auto
  then have "nodes_read e v opts (n # ns) st ((case c of Some t \<Rightarrow> t # cs | None \<Rightarrow> cs), st2)"
    by (rule nodes_read_Cons)
  then show ?case using c cs by simp
qed (simp_all add: node_read_def nodes_read_def read_ok_Nil tree_ok_def)

section \<open>Migration of the untyped home pane\<close>

lemma deletePanes [simp]:
  "getPane (fold deletePane ss L) t = (if t \<in> set ss then None else getPane L t)"
  "lay_tree (fold deletePane ss L) = lay_tree L"
  by (induction ss arbitrary: L) auto

lemma migrate_cases:
  assumes tree: "lay_tree L = Some n"
  obtains (same) "migrateLegacyUntypedSidePane e L False = L"
    | (home) p a b t others where "n = Split Row p a b" "sidePaneSlots L = []"
      "filter (\<lambda>s. paneTabs s L \<noteq> []) (layoutLeafSlots a) = t # others"
      "lay_tree (migrateLegacyUntypedSidePane e L False) = Some (splitNode Row (Leaf t) b (PctNumber p))"
      "\<And>s. s \<notin> set (t # others) \<Longrightarrow> getPane (migrateLegacyUntypedSidePane e L False) s = getPane L s"
      "t \<notin> set others \<Longrightarrow> \<exists>act. getPane (migrateLegacyUntypedSidePane e L False) t =
         Some (paneStateWithTabs e (foldl push_new [] (concat (map (\<lambda>s. paneTabs s L) (t # others)))) act (Side SideLeft))"
proof (cases "sidePaneSlots L = [] \<and> (\<exists>p a b. n = Split Row p a b) \<and> legacyUntypedFileSurfaceHomeLeaves L \<noteq> []")
  case False
  then have "migrateLegacyUntypedSidePane e L False = L"
    using tree by (auto simp: migrateLegacyUntypedSidePane_def legacyUntypedFileSurfaceHomeLeaves_def
        split: list.splits layout_node.splits split_dir.splits)
  then show ?thesis by (rule same)
next
  case True
  then obtain p a b where n1: "n = Split Row p a b" by blast
  obtain t others where n2: "legacyUntypedFileSurfaceHomeLeaves L = t # others"
    using True by (cases "legacyUntypedFileSurfaceHomeLeaves L") auto
  note n = n1 n2
  then have h: "filter (\<lambda>s. paneTabs s L \<noteq> []) (layoutLeafSlots a) = t # others"
    using tree by (auto simp: legacyUntypedFileSurfaceHomeLeaves_def Let_def split: if_splits)
  let ?tabs = "foldl push_new [] (concat (map (\<lambda>s. paneTabs s L) (t # others)))"
  obtain act where M: "migrateLegacyUntypedSidePane e L False =
      setTree (Some (splitNode Row (Leaf t) b (PctNumber p)))
        (fold deletePane others (setPane t (paneStateWithTabs e ?tabs act (Side SideLeft)) L))"
    using True n tree by (simp add: migrateLegacyUntypedSidePane_def Let_def)
  show ?thesis
    by (rule home [OF n(1) _ h]) (use True M in \<open>auto simp del: foldl_Cons\<close>)
qed

text \<open>Migration keeps the items and the occurrences, and adds no left placeholder.\<close>

definition no_left_placeholder :: "layout_slots \<Rightarrow> bool" where
  "no_left_placeholder L = (\<forall>s \<in> set (sidePaneSlotsForSide SideLeft L). \<not> paneIsPlaceholder s L)"

lemma migrate_spec:
  assumes tree: "lay_tree L = Some n" and leaves: "distinct (layoutLeafSlots n)" and node: "node_ok n"
    and items: "\<forall>x \<in> set (paneItems L). isLayoutItem e x"
  defines "M \<equiv> migrateLegacyUntypedSidePane e L False"
  obtains m where "lay_tree M = Some m" "distinct (layoutLeafSlots m)" "node_ok m"
    "set (paneItems M) = set (paneItems L)"
    "\<forall>x. occ x (set (layoutLeafSlots m)) M \<le> occ x (set (layoutLeafSlots n)) L"
    "no_left_placeholder L \<longrightarrow> no_left_placeholder M"
  using tree
proof (cases rule: migrate_cases [where e = e])
  case same
  then show ?thesis using that [of n] tree leaves node by (simp add: M_def)
next
  case (home p a b t others)
  have keys: "layoutSlotKeys L = layoutLeafSlots a @ layoutLeafSlots b"
    using tree home(1) by (simp add: layoutSlotKeys_tree)
  have hs: "set (t # others) \<subseteq> set (layoutLeafSlots a)"
    unfolding home(3) [symmetric] by auto
  have td: "distinct (t # others)" unfolding home(3) [symmetric] using leaves home(1) by simp
  obtain act where Mt: "getPane M t =
         Some (paneStateWithTabs e (foldl push_new [] (concat (map (\<lambda>s. paneTabs s L) (t # others)))) act (Side SideLeft))"
    using home(6) td unfolding M_def by (auto simp del: foldl_Cons)
  let ?tabs = "foldl push_new [] (concat (map (\<lambda>s. paneTabs s L) (t # others)))"
  have tabst: "paneTabs t M = orderPaneTabs e ?tabs" using Mt by (simp add: paneTabs_def del: foldl_Cons)
  have other: "getPane M s = getPane L s" if "s \<in> set (layoutLeafSlots b)" for s
    using home(5) [of s] that hs leaves home(1) unfolding M_def by auto
  have treeM: "lay_tree M = Some (splitNode Row (Leaf t) b (PctNumber p))" using home(4) unfolding M_def .
  have home_items: "(\<Union>s \<in> set (t # others). set (paneTabs s L)) = (\<Union>s \<in> set (layoutLeafSlots a). set (paneTabs s L))"
    unfolding home(3) [symmetric] by auto
  have isl: "isLayoutItem e x" if "s \<in> set (layoutLeafSlots a)" "x \<in> set (paneTabs s L)" for s x
    using items that by (auto simp: set_paneItems keys)
  have settab: "set (paneTabs t M) = (\<Union>s \<in> set (layoutLeafSlots a). set (paneTabs s L))"
    using isl unfolding tabst home_items [symmetric] set_orderPaneTabs set_foldl_push_new using hs by auto
  have occt: "count_list (paneTabs t M) x \<le> occ x (set (layoutLeafSlots a)) L" for x
  proof -
    have "count_list (paneTabs t M) x \<le> count_list (concat (map (\<lambda>s. paneTabs s L) (t # others))) x"
      unfolding tabst using count_order [of e ?tabs x] count_push [of "[]" "concat (map (\<lambda>s. paneTabs s L) (t # others))" x]
      by (simp del: foldl_Cons count_order)
    also have "\<dots> = occ x (set (t # others)) L" using td by (rule occ_concat [symmetric])
    also have "\<dots> \<le> occ x (set (layoutLeafSlots a)) L" using hs by (rule occ_subset [rotated]) simp
    finally show ?thesis .
  qed
  have tb: "t \<notin> set (layoutLeafSlots b)" using leaves home(1) hs by auto
  have tabsb: "paneTabs s M = paneTabs s L" if "s \<in> set (layoutLeafSlots b)" for s
    using other [OF that] by (simp add: paneTabs_def)
  show ?thesis
  proof (rule that [OF treeM])
    show "distinct (layoutLeafSlots (splitNode Row (Leaf t) b (PctNumber p)))" using tb leaves home(1) by simp
    show "node_ok (splitNode Row (Leaf t) b (PctNumber p))" using node home(1) by simp
    show "set (paneItems M) = set (paneItems L)"
      using treeM settab tabsb by (auto simp: set_paneItems keys layoutSlotKeys_tree)
    show "\<forall>x. occ x (set (layoutLeafSlots (splitNode Row (Leaf t) b (PctNumber p)))) M \<le> occ x (set (layoutLeafSlots n)) L"
    proof
      fix x
      have "occ x (set (layoutLeafSlots n)) L = occ x (set (layoutLeafSlots a)) L + occ x (set (layoutLeafSlots b)) L"
        using leaves home(1) by (simp add: occ_def sum.union_disjoint)
      moreover have "occ x (set (layoutLeafSlots (splitNode Row (Leaf t) b (PctNumber p)))) M
          = count_list (paneTabs t M) x + occ x (set (layoutLeafSlots b)) L"
        using tb tabsb by (simp add: occ_def)
      ultimately show "occ x (set (layoutLeafSlots (splitNode Row (Leaf t) b (PctNumber p)))) M \<le> occ x (set (layoutLeafSlots n)) L"
        using occt [of x] by simp
    qed
    have "paneRoleForSlot s L = Generic" if "s \<in> set (layoutLeafSlots b)" for s
      using home(2) that by (auto simp: sidePaneSlots_def filter_empty_conv keys is_side_role_def)
    then have "paneRoleForSlot s M = Generic" if "s \<in> set (layoutLeafSlots b)" for s
      using other [OF that] that by (simp add: paneRoleForSlot_def)
    then show "no_left_placeholder L \<longrightarrow> no_left_placeholder M"
      using Mt treeM by (auto simp: no_left_placeholder_def sidePaneSlotsForSide_def sidePaneSlots_def
          layoutSlotKeys_tree paneIsPlaceholder_def simp del: foldl_Cons)
  qed
qed

section \<open>The restored layout\<close>

definition wide :: "env \<Rightarrow> norm_options \<Rightarrow> bool" where
  "wide e opts = (\<not> narrowSingleColumnMode e \<and> \<not> sidePaneConstrainedMode e \<and> no_allowSidePanes opts)"

definition raw_no_left_placeholder :: "raw_layout \<Rightarrow> bool" where
  "raw_no_left_placeholder v =
     list_all (\<lambda>s. case map_of (rl_panes v) s of
         Some r \<Rightarrow> rp_placeholder r \<longrightarrow> rp_array r \<or> paneRoleDefinition (rp_kind r) (rp_side r) \<noteq> Side SideLeft
       | None \<Rightarrow> True) (raw_leaves (rl_tree v))"

lemma normalizeTreeLayout_restores:
  assumes b: "raw_binary (rl_tree v)" and d: "distinct (raw_leaves (rl_tree v))" and ne: "raw_leaves (rl_tree v) \<noteq> []"
    and w: "wide e opts"
  shows "layout_unique (normalizeTreeLayout e v opts)"
    and "layout_roles_ok e (normalizeTreeLayout e v opts)"
    and "raw_no_left_placeholder v \<Longrightarrow> \<not> no_preserveRemovedSlots opts \<Longrightarrow>
      set (paneItems (normalizeTreeLayout e v opts)) = raw_items e v (raw_leaves (rl_tree v))"
proof -
  obtain t nx seen where r: "normalizeLayoutNode e v opts (rl_tree v) (emptyLayoutSlots, []) = (t, (nx, seen))"
    by (metis prod.exhaust)
  have nr: "node_read e v opts (rl_tree v) (emptyLayoutSlots, []) (t, (nx, seen))"
    using normalizeLayoutNode_spec(1) [of e v opts "rl_tree v" "(emptyLayoutSlots, [])"] unfolding r .
  then have lv: "treeLeafSlots t = raw_leaves (rl_tree v)" and tok: "tree_ok t"
    and rd: "read_ok e v opts (raw_leaves (rl_tree v)) (emptyLayoutSlots, []) (nx, seen)"
    using b by (simp_all add: node_read_def)
  from lv ne obtain n where t: "t = Some n" by (cases t) auto
  let ?L = "setTree t nx"
  have tree: "lay_tree ?L = Some n" and leaves: "distinct (layoutLeafSlots n)" and node: "node_ok n"
    and ln: "layoutLeafSlots n = raw_leaves (rl_tree v)"
    using t tok lv d by (simp_all add: tree_ok_def)
  have its: "set (paneItems ?L) = raw_items e v (raw_leaves (rl_tree v))"
    using rd d by (simp add: set_paneItems layoutSlotKeys_tree [OF tree] ln read_ok_def tabs_at_def)
  have items: "\<forall>x \<in> set (paneItems ?L). isLayoutItem e x" unfolding its by (simp add: raw_items_def)
  have occL: "occ x (set (layoutLeafSlots n)) ?L \<le> 1" for x
    using rd d unfolding ln read_ok_def by (simp add: occ_def)
  let ?M = "migrateLegacyUntypedSidePane e ?L False"
  obtain m where m: "lay_tree ?M = Some m" "distinct (layoutLeafSlots m)" "node_ok m"
    "set (paneItems ?M) = set (paneItems ?L)" "\<forall>x. occ x (set (layoutLeafSlots m)) ?M \<le> occ x (set (layoutLeafSlots n)) ?L"
    "no_left_placeholder ?L \<longrightarrow> no_left_placeholder ?M"
    by (rule migrate_spec [OF tree leaves node items])
  have itemsM: "\<forall>x \<in> set (paneItems ?M). isLayoutItem e x" unfolding m(4) by (rule items)
  have eq: "normalizeTreeLayout e v opts = canonicalSidePanes e ?M m (no_preservePlaceholderSlots opts)"
    using r w m(1) by (simp add: normalizeTreeLayout_def canonicalizeSidePaneLayout_def wide_def)
  have uM: "layout_unique ?M"
    unfolding layout_unique_iff layoutSlotKeys_tree [OF m(1)] using m(2,5) occL by (meson le_trans)
  show "layout_unique (normalizeTreeLayout e v opts)"
    unfolding eq by (rule canonical_unique [OF m(1,3) uM itemsM])
  show "layout_roles_ok e (normalizeTreeLayout e v opts)"
    unfolding eq by (rule canonical_respects_roles [OF m(1-3) itemsM])
  assume np: "raw_no_left_placeholder v" "\<not> no_preserveRemovedSlots opts"
  have "no_left_placeholder ?L"
    unfolding no_left_placeholder_def
  proof
    fix s assume s: "s \<in> set (sidePaneSlotsForSide SideLeft ?L)"
    then have sl: "s \<in> set (raw_leaves (rl_tree v))" and role: "paneRoleForSlot s nx = Side SideLeft"
      by (auto simp: sidePaneSlotsForSide_def sidePaneSlots_def layoutSlotKeys_tree [OF tree] ln)
    from rd sl obtain sn where p: "getPane nx s = Some (fst (normalizePaneState e (map_of (rl_panes v) s) sn opts))"
      by (auto simp: read_ok_def)
    show "\<not> paneIsPlaceholder s ?L"
    proof
      assume "paneIsPlaceholder s ?L"
      with p np(2) role sl np(1) show False
        by (auto simp: paneIsPlaceholder_def paneRoleForSlot_def normalizePaneState_def Let_def split_beta
            raw_no_left_placeholder_def list_all_iff split: option.splits if_splits)
    qed
  qed
  then have "\<forall>s \<in> set (sidePaneSlotsForSide SideLeft ?M). \<not> paneIsPlaceholder s ?M"
    using m(6) by (simp add: no_left_placeholder_def)
  then show "set (paneItems (normalizeTreeLayout e v opts)) = raw_items e v (raw_leaves (rl_tree v))"
    using canonical_keeps_items [OF m(1-3) itemsM] m(4) its unfolding eq by simp
qed

end
