(* ===== verification/Layout_Url.thy ===== *)
theory Layout_Url
  imports Layout_Restore
begin

text \<open>
  The layout in the page URL (\<open>20_layout_state.js\<close>, from \<open>layoutFromParam\<close> to
  \<open>readableItemParam\<close>): the compact tree syntax, the tab states per slot, the JSON form (parsed
  by an argument), the plain session list and the legacy file-surface migration. Parameter
  values are what \<open>URLSearchParams.get\<close> returns, that is already decoded once.
\<close>

section \<open>Printing\<close>

definition layoutTreeKey :: slot where "layoutTreeKey = ''__tree''"
definition emptyPaneParam :: string where "emptyPaneParam = ''__empty_pane__''"
definition intentionalEmptyPaneParam :: string where "intentionalEmptyPaneParam = ''__empty_pane_v2__''"
definition paneRoleParamPrefix :: string where "paneRoleParamPrefix = ''@side-''"
definition layoutTreeParamPrefix :: string where "layoutTreeParamPrefix = ''tree:''"

text \<open>\<open>Math.round(x * 10) / 10\<close>, printed: the number of tenths, without a final zero.\<close>

definition pct_tenths :: "rat \<Rightarrow> nat" where
  "pct_tenths p = nat \<lfloor>p * 10 + 1 / 2\<rfloor>"

definition splitPercentForDisplay :: "pct_value \<Rightarrow> string" where
  "splitPercentForDisplay v =
     (let k = pct_tenths (splitPercent v) in
      if k mod 10 = 0 then showNat (k div 10) else showNat (k div 10) @ CHR ''.'' # showNat (k mod 10))"

fun compactLayoutTreeParam :: "layout_node \<Rightarrow> string" where
  "compactLayoutTreeParam (Leaf s) = readableParamComponent s"
| "compactLayoutTreeParam (Split d p a b) =
     (if d = Column then ''col'' else ''row'') @ CHR ''@'' # splitPercentForDisplay (PctNumber p) @ CHR ''('' #
     js_join '','' (filter (\<lambda>t. t \<noteq> []) [compactLayoutTreeParam a, compactLayoutTreeParam b]) @ '')''"

fun protect_percent :: "string \<Rightarrow> string" where
  "protect_percent [] = []"
| "protect_percent (c # s) = (if c = CHR ''%'' then ''%25'' else [c]) @ protect_percent s"

definition readableItemParam :: "item \<Rightarrow> string" where
  "readableItemParam x = readableParamComponent (protect_percent (itemParam x))"

definition layoutParamValue :: "layout_slots \<Rightarrow> string" where
  "layoutParamValue L =
     (case lay_tree L of
        Some n \<Rightarrow> compactLayoutTreeParam n
      | None \<Rightarrow> if layoutSlotKeys L = [] then ''empty''
                else js_join '','' (map (\<lambda>s. js_join ''+'' (map readableItemParam (paneTabs s L))) (layoutSlotKeys L)))"

definition role_marker :: "pane_role \<Rightarrow> string" where
  "role_marker r = (case r of Side d \<Rightarrow> paneRoleParamPrefix @ pane_side_word d | Generic \<Rightarrow> [])"

definition tab_tokens :: "item option \<Rightarrow> item list \<Rightarrow> string list" where
  "tab_tokens active tabs =
     map (\<lambda>(i, x). readableItemParam x @ (if Some x = active \<and> 0 < i then ''*'' else [])) (enumerate 0 tabs)"

definition slot_value :: "slot \<Rightarrow> layout_slots \<Rightarrow> string option" where
  "slot_value s L =
     (let marker = role_marker (paneRoleForSlot s L) in
      if paneIsPlaceholder s L
      then Some (readableParamComponent s @ CHR '':'' #
             js_join '','' (filter (\<lambda>t. t \<noteq> []) [marker, intentionalEmptyPaneParam]))
      else
        let values = filter (\<lambda>t. t \<noteq> []) (marker # tab_tokens (activeItemForSide s L) (paneTabs s L))
        in if values = [] then None else Some (readableParamComponent s @ CHR '':'' # js_join '','' values))"

definition layoutTabsParamValue :: "layout_slots \<Rightarrow> string" where
  "layoutTabsParamValue L = js_join '';'' (somes (map (\<lambda>s. slot_value s L) (layoutSlotKeys L)))"

section \<open>Parsing the tab states\<close>

definition layoutSlotName :: "string \<Rightarrow> slot option" where
  "layoutSlotName v =
     (let s = js_trim v in if s \<noteq> [] \<and> s \<noteq> layoutTreeKey then Some s else None)"

record tab_parse =
  tp_tabs :: "item list"
  tp_active :: "item option"
  tp_placeholder :: bool
  tp_legacy :: bool
  tp_role :: pane_role

definition tab_parse_init :: tab_parse where
  "tab_parse_init = \<lparr>tp_tabs = [], tp_active = None, tp_placeholder = False, tp_legacy = False, tp_role = Generic\<rparr>"

definition parse_token :: "env \<Rightarrow> tab_parse \<Rightarrow> string \<Rightarrow> tab_parse" where
  "parse_token e st rawItem =
     (let token = js_trim rawItem in
      if token = [] then st
      else
        let activeToken = (last token = CHR ''*'');
            decoded = safeDecodeURIComponent (if activeToken then butlast token else token)
        in if js_startsWith decoded paneRoleParamPrefix
           then st\<lparr>tp_role := paneRoleDefinition ''side'' (drop (length paneRoleParamPrefix) decoded)\<rparr>
           else if decoded = emptyPaneParam \<or> decoded = intentionalEmptyPaneParam
           then st\<lparr>tp_placeholder := True, tp_legacy := (tp_legacy st \<or> decoded = emptyPaneParam)\<rparr>
           else (case resolveLayoutItem e decoded of
             None \<Rightarrow> st
           | Some x \<Rightarrow>
               if isLayoutItem e x \<and> x \<notin> set (tp_tabs st)
               then st\<lparr>tp_tabs := tp_tabs st @ [x], tp_active := (if activeToken then Some x else tp_active st)\<rparr>
               else st))"

definition parsed_pane :: "env \<Rightarrow> tab_parse \<Rightarrow> pane_state" where
  "parsed_pane e st =
     (if tp_placeholder st \<and> tp_tabs st = [] then emptyPlaceholderPaneState (tp_role st) (tp_legacy st)
      else paneStateWithTabs e (tp_tabs st) (tp_active st) (tp_role st))"

definition parse_part :: "env \<Rightarrow> string \<Rightarrow> (slot \<times> pane_state) option" where
  "parse_part e part =
     (if js_trim part = [] then None
      else
        let name = takeWhile (\<lambda>c. c \<noteq> CHR '':'') part; rest = dropWhile (\<lambda>c. c \<noteq> CHR '':'') part
        in if rest = [] \<or> name = [] then None
           else (case layoutSlotName (safeDecodeURIComponent name) of
             None \<Rightarrow> None
           | Some s \<Rightarrow> Some (s, parsed_pane e (foldl (parse_token e) tab_parse_init (js_split (CHR '','') (tl rest))))))"

definition layoutTabStatesFromParam :: "env \<Rightarrow> string \<Rightarrow> (slot \<times> pane_state) list" where
  "layoutTabStatesFromParam e raw =
     foldl (\<lambda>m (s, p). AList.update s p m) [] (somes (map (parse_part e) (js_split (CHR '';'') raw)))"

section \<open>Parsing the tree\<close>

definition skipCompactLayoutWhitespace :: "string \<Rightarrow> string" where
  "skipCompactLayoutWhitespace s = dropWhile js_isSpace s"

definition token_char :: "char \<Rightarrow> bool" where
  "token_char c = (c \<notin> {CHR ''('', CHR '')'', CHR '',''} \<and> \<not> js_isSpace c)"

definition readCompactLayoutToken :: "string \<Rightarrow> string \<times> string" where
  "readCompactLayoutToken s = (takeWhile token_char s, dropWhile token_char s)"

definition lower_char :: "char \<Rightarrow> char" where
  "lower_char c = (let n = of_char c :: nat in if 65 \<le> n \<and> n \<le> 90 then char_of (n + 32) else c)"

text \<open>The match of \<open>/^(row|col|column)(?:@(\d+(?:\.\d+)?))?$/\<close>: the direction and the percentage.\<close>

definition match_pct :: "string \<Rightarrow> pct_value option" where
  "match_pct s =
     (case s of
        [] \<Rightarrow> Some PctMissing
      | c # t \<Rightarrow>
          (let ds = takeWhile is_digit t; r = dropWhile is_digit t in
           if c \<noteq> CHR ''@'' \<or> ds = [] then None
           else if r = [] then Some (PctText t)
           else if hd r = CHR ''.'' \<and> tl r \<noteq> [] \<and> list_all is_digit (tl r) then Some (PctText t)
           else None))"

definition match_word :: "string \<Rightarrow> string \<Rightarrow> pct_value option" where
  "match_word w s = (if js_startsWith s w then match_pct (drop (length w) s) else None)"

definition split_match :: "string \<Rightarrow> (split_dir \<times> pct_value) option" where
  "split_match s =
     (case match_word ''row'' s of
        Some p \<Rightarrow> Some (Row, p)
      | None \<Rightarrow> (case match_word ''col'' s of
          Some p \<Rightarrow> Some (Column, p)
        | None \<Rightarrow> map_option (Pair Column) (match_word ''column'' s)))"

lemma skip_length [simp]: "length (skipCompactLayoutWhitespace s) \<le> length s"
  by (simp add: skipCompactLayoutWhitespace_def length_dropWhile_le)

lemma token_length:
  "readCompactLayoutToken s = (name, rest) \<Longrightarrow> length s = length name + length rest"
  by (auto simp: readCompactLayoutToken_def simp flip: length_append)

text \<open>The recursive descent over the remaining text; \<open>None\<close> is the \<open>null\<close> of a syntax error,
  which every caller propagates. As in the source the list of children may simply end with the
  text.\<close>

function (domintros) parse_node :: "string \<Rightarrow> (layout_node \<times> string) option"
  and parse_children :: "string \<Rightarrow> (layout_node list \<times> string) option" where
  "parse_node s =
     (let (name, r) = readCompactLayoutToken (skipCompactLayoutWhitespace s) in
      if name = [] then None
      else
        let r' = skipCompactLayoutWhitespace r in
        (case (split_match (map lower_char name), r') of
           (Some (d, pct), c # body) \<Rightarrow>
             if c = CHR ''('' then
               (case parse_children body of
                  None \<Rightarrow> None
                | Some ([], q) \<Rightarrow> None
                | Some ([child], q) \<Rightarrow> Some (child, q)
                | Some (c1 # c2 # _, q) \<Rightarrow> Some (splitNode d c1 c2 pct, q))
             else map_option (\<lambda>x. (Leaf x, r')) (layoutSlotName (safeDecodeURIComponent name))
         | _ \<Rightarrow> map_option (\<lambda>x. (Leaf x, r')) (layoutSlotName (safeDecodeURIComponent name))))"
| "parse_children s =
     (if s = [] then Some ([], [])
      else (case parse_node s of
        None \<Rightarrow> None
      | Some (child, q) \<Rightarrow>
          (case skipCompactLayoutWhitespace q of
             [] \<Rightarrow> None
           | c # q' \<Rightarrow>
               if c = CHR '','' then map_option (\<lambda>(cs, z). (child # cs, z)) (parse_children q')
               else if c = CHR '')'' then Some ([child], q')
               else None)))"
  by pat_completeness auto

lemma skip_le: "skipCompactLayoutWhitespace s = t \<Longrightarrow> length t \<le> length s"
  using skip_length by metis

lemma body_length:
  assumes "(name, r) = readCompactLayoutToken (skipCompactLayoutWhitespace s)" "name \<noteq> []"
    "c # body = skipCompactLayoutWhitespace r"
  shows "length body < length s"
proof -
  have "length (skipCompactLayoutWhitespace s) = length name + length r"
    using token_length assms(1) by metis
  moreover have "Suc (length body) \<le> length r" using skip_length [of r] assms(3) by (metis length_Cons)
  moreover have "length (skipCompactLayoutWhitespace s) \<le> length s" by simp
  moreover have "0 < length name" using assms(2) by simp
  ultimately show ?thesis by linarith
qed

lemma parse_node_dom:
  assumes "\<And>q. length q < length s \<Longrightarrow> parse_node_parse_children_dom (Inr q)"
  shows "parse_node_parse_children_dom (Inl s)"
  by (rule parse_node_parse_children.domintros) (blast intro: assms body_length)

lemma parse_node_shrinks:
  assumes dom: "parse_node_parse_children_dom (Inl s)"
    and IH: "\<And>q cs z. length q < length s \<Longrightarrow> parse_children q = Some (cs, z) \<Longrightarrow> length z \<le> length q"
    and p: "parse_node s = Some (n, z)"
  shows "length z < length s"
proof -
  obtain name r where nr: "readCompactLayoutToken (skipCompactLayoutWhitespace s) = (name, r)" by fastforce
  let ?r = "skipCompactLayoutWhitespace r"
  have ne: "name \<noteq> []" using p nr by (auto simp: parse_node.psimps [OF dom])
  have rs: "length ?r < length s"
    using token_length [OF nr] skip_length [of s] skip_length [of r] ne by (auto simp flip: length_greater_0_conv simp del: skip_length)
  show ?thesis
  proof (cases "\<exists>d pct body. split_match (map lower_char name) = Some (d, pct) \<and> ?r = CHR ''('' # body")
    case True
    then obtain d pct body where m: "split_match (map lower_char name) = Some (d, pct)" "?r = CHR ''('' # body" by blast
    then obtain cs where cs: "parse_children body = Some (cs, z)"
      using p nr ne by (auto simp: parse_node.psimps [OF dom] split: option.splits list.splits)
    have "length body < length s" using body_length [OF nr [symmetric] ne m(2) [symmetric]] .
    with IH [OF this cs] show ?thesis by simp
  next
    case False
    then have "z = ?r"
      using p nr ne by (auto simp: parse_node.psimps [OF dom] Let_def split: option.splits list.splits if_splits)
    with rs show ?thesis by simp
  qed
qed

lemma parse_dom:
  "parse_node_parse_children_dom (Inl s) \<and> parse_node_parse_children_dom (Inr s)
   \<and> (\<forall>n z. parse_node s = Some (n, z) \<longrightarrow> length z < length s)
   \<and> (\<forall>cs z. parse_children s = Some (cs, z) \<longrightarrow> length z \<le> length s)"
proof (induction s rule: length_induct)
  case (1 s)
  have IHd: "parse_node_parse_children_dom (Inr q)" if "length q < length s" for q using 1 that by blast
  have IHl: "length z \<le> length q" if "length q < length s" "parse_children q = Some (cs, z)" for q cs z
    using 1 that by blast
  have domn: "parse_node_parse_children_dom (Inl s)" using IHd by (rule parse_node_dom)
  have shr: "length z < length s" if "parse_node s = Some (n, z)" for n z
    using parse_node_shrinks [OF domn _ that] IHl by blast
  have next_len: "length q' < length s" if "parse_node s = Some (n, q)" "skipCompactLayoutWhitespace q = c # q'" for n q c q'
    using shr [OF that(1)] skip_length [of q] that(2) by simp
  have domc: "parse_node_parse_children_dom (Inr s)"
    by (rule parse_node_parse_children.domintros) (use domn next_len IHd in blast)+
  have "length z \<le> length s" if "parse_children s = Some (cs, z)" for cs z
  proof (cases "s = []")
    case True
    with that parse_children.psimps [OF domc] show ?thesis by simp
  next
    case False
    with that obtain n q c q' where q: "parse_node s = Some (n, q)" "skipCompactLayoutWhitespace q = c # q'"
      and r: "(c = CHR '','' \<and> (\<exists>cs'. parse_children q' = Some (cs', z))) \<or> z = q'"
      by (auto simp: parse_children.psimps [OF domc] split: option.splits list.splits if_splits)
    from next_len [OF q] r IHl show ?thesis by force
  qed
  with domn domc shr show ?case by blast
qed

termination parse_node
  using parse_dom by (metis sum.exhaust)

declare parse_node.simps [simp del] parse_children.simps [simp del]

section \<open>Layouts from parameters\<close>

definition compactLayoutParamLooksLikeTree :: "string \<Rightarrow> bool" where
  "compactLayoutParamLooksLikeTree text =
     (let w = takeWhile (\<lambda>c. c \<noteq> CHR ''('') text
      in dropWhile (\<lambda>c. c \<noteq> CHR ''('') text \<noteq> [] \<and> split_match w \<noteq> None)"

text \<open>Both parameter forms end the same way: repair, normalize, and reject an empty result.\<close>

definition restorable :: "env \<Rightarrow> norm_options \<Rightarrow> layout_slots \<Rightarrow> layout_slots option" where
  "restorable e opts L =
     (let normalized = normalizeLayoutSlots e (Some (raw_layout_of (repairRedundantLegacyPlaceholders L))) opts
      in if layoutHasRestorableContent normalized then Some normalized else None)"

definition compact_tree_slots :: "(slot \<times> pane_state) list \<Rightarrow> layout_node \<Rightarrow> layout_slots" where
  "compact_tree_slots states tree =
     setTree (Some tree) (fold (\<lambda>s. setPane s
       (case map_of states s of Some p \<Rightarrow> p | None \<Rightarrow> emptyPlaceholderPaneState Generic False))
       (layoutLeafSlots tree) emptyLayoutSlots)"

definition compactTreeLayoutFromParam :: "env \<Rightarrow> string \<Rightarrow> string \<Rightarrow> norm_options \<Rightarrow> layout_slots option" where
  "compactTreeLayoutFromParam e raw tabsRaw opts =
     (case parse_node raw of
        None \<Rightarrow> None
      | Some (tree, q) \<Rightarrow>
          if skipCompactLayoutWhitespace q \<noteq> [] then None
          else restorable e opts (compact_tree_slots (layoutTabStatesFromParam e tabsRaw) tree))"

definition pane_has_content :: "pane_state \<Rightarrow> bool" where
  "pane_has_content p = (ps_tabs p \<noteq> [] \<or> ps_placeholder p)"

definition namedSlotLayoutFromParam :: "env \<Rightarrow> string \<Rightarrow> string \<Rightarrow> norm_options \<Rightarrow> layout_slots option" where
  "namedSlotLayoutFromParam e raw tabsRaw opts =
     (let states = layoutTabStatesFromParam e tabsRaw;
          slotNames = somes (map (\<lambda>v. layoutSlotName (safeDecodeURIComponent (js_trim v))) (js_split (CHR '','') raw));
          kept = filter (\<lambda>s. case map_of states s of Some p \<Rightarrow> pane_has_content p | None \<Rightarrow> False) (dedupe slotNames)
      in if states = [] \<or> slotNames = [] \<or> kept = [] then None
         else restorable e opts
           (setTree (chain_tree Row kept)
             (fold (\<lambda>s. setPane s (case map_of states s of Some p \<Rightarrow> p | None \<Rightarrow> emptyPaneState Generic))
               kept emptyLayoutSlots)))"

text \<open>\<open>layoutTreeFromParamNode\<close>, on the parsed \<open>tree\<close> of the JSON form.\<close>

fun layoutTreeFromParamNode :: "raw_node \<Rightarrow> layout_node option" where
  "layoutTreeFromParamNode RawNull = None"
| "layoutTreeFromParamNode (RawLeaf s) = map_option Leaf (layoutSlotName s)"
| "layoutTreeFromParamNode (RawSplit w pct children) =
     (case somes (map layoutTreeFromParamNode children) of
        [] \<Rightarrow> None
      | [c] \<Rightarrow> Some c
      | c1 # c2 # _ \<Rightarrow> Some (splitNode (if w = ''column'' then Column else Row) c1 c2 pct))"

definition param_pane :: "env \<Rightarrow> raw_pane option \<Rightarrow> pane_state" where
  "param_pane e raw =
     (let tabs = (case raw of Some r \<Rightarrow> rp_tabs r | None \<Rightarrow> []);
          role = (case raw of Some r \<Rightarrow> if rp_array r then Generic else paneRoleDefinition (rp_kind r) (rp_side r)
                  | None \<Rightarrow> Generic);
          placeholder = (case raw of Some r \<Rightarrow> \<not> rp_array r \<and> rp_placeholder r | None \<Rightarrow> False)
      in if placeholder \<and> tabs = [] then emptyPlaceholderPaneState role False
         else paneStateWithTabs e (somes (map (resolveLayoutItem e) tabs))
           (resolveMaybe e (case raw of Some r \<Rightarrow> if rp_array r then None else rp_active r | None \<Rightarrow> None)) role)"

definition treeLayoutFromParam ::
  "env \<Rightarrow> (string \<Rightarrow> raw_layout option) \<Rightarrow> string \<Rightarrow> norm_options \<Rightarrow> layout_slots option" where
  "treeLayoutFromParam e parse_json raw opts =
     (case parse_json raw of
        None \<Rightarrow> None
      | Some payload \<Rightarrow>
          (let tree = layoutTreeFromParamNode (rl_tree payload)
           in restorable e opts
                (setTree tree (fold (\<lambda>s. setPane s (param_pane e (map_of (rl_panes payload) s)))
                  (treeLeafSlots tree) emptyLayoutSlots))))"

text \<open>The oldest form: sessions joined by \<open>+\<close>, one list per base pane.\<close>

definition push_session :: "env \<Rightarrow> slot \<Rightarrow> layout_slots \<times> item list \<Rightarrow> string \<Rightarrow> layout_slots \<times> item list" where
  "push_session e side = (\<lambda>(L, seen) v.
     if js_trim v = [] then (L, seen)
     else (case resolveLayoutItem e (js_trim v) of
        None \<Rightarrow> (L, seen)
      | Some x \<Rightarrow>
          if isLayoutItem e x \<and> x \<notin> set seen
          then (let p = (case getPane L side of Some p \<Rightarrow> p | None \<Rightarrow> emptyPaneState Generic)
                in (setPane side (p\<lparr>ps_tabs := ps_tabs p @ [x], ps_active := or_else (ps_active p) (Some x)\<rparr>) L,
                    seen @ [x]))
          else (L, seen)))"

definition sessions_layout :: "env \<Rightarrow> string \<Rightarrow> layout_slots" where
  "sessions_layout e text =
     (let sides = js_split (CHR '','') text;
          (next, seen) = foldl (\<lambda>acc (side, part). foldl (push_session e side) acc (js_split (CHR ''+'') part))
            (emptyLayoutSlots, []) (zip basePaneKeys (sides @ [[], []]))
      in setTree (legacyLayoutTree next) next)"

definition layoutFromParam ::
  "env \<Rightarrow> (string \<Rightarrow> raw_layout option) \<Rightarrow> string \<Rightarrow> string \<Rightarrow> norm_options \<Rightarrow> layout_slots option" where
  "layoutFromParam e parse_json raw tabsRaw opts =
     (let text = js_trim raw in
      if text = [] then None
      else if map lower_char text = ''empty'' then Some (emptyPlaceholderLayoutSlots ''left'')
      else if js_startsWith text layoutTreeParamPrefix
      then treeLayoutFromParam e parse_json (drop (length layoutTreeParamPrefix) text) opts
      else if compactLayoutParamLooksLikeTree text then compactTreeLayoutFromParam e text tabsRaw opts
      else (case namedSlotLayoutFromParam e text tabsRaw opts of
        Some L \<Rightarrow> Some L
      | None \<Rightarrow>
          if \<not> list_ex (\<lambda>v. js_trim v \<noteq> []) (js_split (CHR '','') text) then None
          else (let next = sessions_layout e text in if layoutHasRestorableContent next then Some next else None)))"

section \<open>Legacy file-surface parameters\<close>

definition fileExplorerModeFromUrlParam :: "string \<Rightarrow> string" where
  "fileExplorerModeFromUrlParam value =
     (let mode = map lower_char (js_trim value) in
      if mode = ''finder'' \<or> mode = ''files'' then ''files''
      else if mode = ''differ'' \<or> mode = ''diff'' then ''diff''
      else if mode = ''tabber'' then ''tabber'' else [])"

text \<open>The words of a parameter between the delimiters \<open>, ; : |\<close> of the regular expressions.\<close>

fun legacy_words :: "string \<Rightarrow> string list" where
  "legacy_words [] = [[]]"
| "legacy_words (c # cs) =
     (if c \<in> {CHR '','', CHR '';'', CHR '':'', CHR ''|''} then [] # legacy_words cs
      else (case legacy_words cs of [] \<Rightarrow> [[c]] | w # ws \<Rightarrow> (c # w) # ws))"

definition legacyFileSurfaceSelection :: "string \<Rightarrow> string \<Rightarrow> string \<Rightarrow> string \<Rightarrow> item option" where
  "legacyFileSurfaceSelection layout tabs sess finder =
     (let ws = set (legacy_words (js_join '','' [layout, tabs, sess])) in
      if ws \<inter> {''__files__'', ''files'', ''changes'', ''__changes__''} = {} then None
      else
        let mode = fileExplorerModeFromUrlParam finder
        in fileExplorerItemForView
             (if mode \<noteq> [] then mode else if ws \<inter> {''changes'', ''__changes__''} \<noteq> {} then ''differ'' else ''finder''))"

definition migrateLegacyFileSurfaceLayout ::
  "env \<Rightarrow> layout_slots \<Rightarrow> item option \<Rightarrow> layout_slots" where
  "migrateLegacyFileSurfaceLayout e L selection =
     (case selection of
        None \<Rightarrow> L
      | Some selected \<Rightarrow>
          if narrowSingleColumnMode e then narrowSingleColumnLayoutSlots e L (Some selected)
          else (case or_else (slotForItem finderItemId L)
                   (or_else (slotForItem differItemId L) (slotForItem tabberItemId L)) of
            None \<Rightarrow> layoutWithSidePaneItems e L fileExplorerItemIds SideLeft True (Some selected) None
          | Some s \<Rightarrow>
              setPane s (paneStateWithTabsForSlot e s (foldl push_new (paneTabs s L) fileExplorerItemIds)
                (Some selected) L) L))"

text \<open>\<open>initialLayoutSlots\<close>: the URL's layout, the phone layout, the listed sessions, or the default.\<close>

definition initialLayoutSlots ::
  "env \<Rightarrow> (string \<Rightarrow> raw_layout option) \<Rightarrow> bool \<Rightarrow> (string \<Rightarrow> string) \<Rightarrow> string list \<Rightarrow> layout_slots \<times> bool" where
  "initialLayoutSlots e parse_json wasConstrained param localeSorted =
     (case layoutFromParam e parse_json (param ''layout'') (param ''tabs'') norm_defaults of
        Some L \<Rightarrow>
          normalizeLayoutSlotsForViewport e wasConstrained
            (migrateLegacyFileSurfaceLayout e L
              (legacyFileSurfaceSelection (param ''layout'') (param ''tabs'') (param ''sessions'') (param ''finder'')))
            norm_defaults
      | None \<Rightarrow>
          if mobileSinglePaneMode e then (mobileSinglePaneLayoutSlots e None None, True)
          else
            let raw = (if param ''sessions'' \<noteq> [] then param ''sessions'' else param ''active'');
                selected = foldl push_new [] (filter (isLayoutItem e) (somes (map (resolveLayoutItem e)
                  (filter (\<lambda>v. v \<noteq> []) (map js_trim (js_split (CHR '','') raw))))))
            in if selected \<noteq> []
               then (let L = layoutFromSessionList e selected in
                     if narrowSingleColumnMode e then (narrowSingleColumnLayoutSlots e L None, True)
                     else normalizeLayoutSlotsForViewport e wasConstrained L norm_defaults)
               else defaultLayoutSlots e wasConstrained localeSorted)"

end
