(* ===== verification/Layout_Actions.thy ===== *)
theory Layout_Actions
  imports Layout_Url
begin

text \<open>
  The layout actions of \<open>70_layout_actions.js\<close>: closing tabs and panes, the per-pane tab cap,
  minimize and expand, splitting and moving tabs, directional moves and swaps, filling the
  workspace, and \<open>applyLayoutSlots\<close>, which installs the result. An action yields the layout it
  hands to \<open>applyLayoutSlots\<close> with the options that matter to the layout, or \<open>None\<close> when it
  refuses; rendering, focus and status messages are not part of the model.

  What the actions read besides the layout is an \<open>act_env\<close>: the tab environment, the settings,
  the activation times, unsaved editors and the measured rectangles: of the column of a slot, of
  the dock group around a slot's panel and of the dock group around an item's tab.
\<close>

section \<open>Context and outcomes\<close>

record rect =
  re_left :: rat
  re_top :: rat
  re_width :: rat
  re_height :: rat

record act_env =
  ax_env :: env
  ax_maxTabsSetting :: "rat option"
  ax_lastActivated :: "item \<Rightarrow> nat"
  ax_dirty :: "item \<Rightarrow> bool"
  ax_rect :: "slot \<Rightarrow> rect option"
  ax_panelRect :: "slot \<Rightarrow> rect option"
  ax_tabRect :: "item \<Rightarrow> rect option"
  ax_minWidth :: "item option \<Rightarrow> rat"
  ax_minHeight :: rat

record apply_options =
  ao_focus :: "item option"
  ao_preservePlaceholders :: bool
  ao_preserveFilled :: bool

definition apply_focus :: "item option \<Rightarrow> apply_options" where
  "apply_focus x = \<lparr>ao_focus = x, ao_preservePlaceholders = False, ao_preserveFilled = False\<rparr>"

type_synonym outcome = "(layout_slots \<times> apply_options) option"

section \<open>Removing tabs and panes\<close>

definition withoutItem_pane ::
  "env \<Rightarrow> item \<Rightarrow> layout_slots \<Rightarrow> slot option \<Rightarrow> bool \<Rightarrow> slot \<Rightarrow> pane_state" where
  "withoutItem_pane e x L preserveEmptySlot preserveRemovedSlot s =
     (let hadItem = x \<in> set (paneTabs s L);
          active = activeItemForSide s L;
          tabs = filter (\<lambda>y. y \<noteq> x) (paneTabs s L)
      in if tabs = [] \<and> (Some s = preserveEmptySlot \<or> (preserveRemovedSlot \<and> hadItem))
         then emptyPlaceholderPaneState (paneRoleForSlot s L) False
         else paneStateWithTabs e tabs (if active = Some x then None else active) (paneRoleForSlot s L))"

definition layoutWithoutItemFromSlots ::
  "env \<Rightarrow> item \<Rightarrow> layout_slots \<Rightarrow> slot option \<Rightarrow> bool \<Rightarrow> bool \<Rightarrow> layout_slots" where
  "layoutWithoutItemFromSlots e x L preserveEmptySlot preserveRemovedSlot preservePlaceholders =
     fold (\<lambda>s next.
        if paneIsPlaceholder s L
        then (if preservePlaceholders then setPane s (emptyPlaceholderPaneState Generic False) next else next)
        else setPane s (withoutItem_pane e x L preserveEmptySlot preserveRemovedSlot s) next)
       (layoutSlotKeys L) (setTree (lay_tree L) emptyLayoutSlots)"

definition layoutWithoutSlot :: "env \<Rightarrow> slot \<Rightarrow> layout_slots \<Rightarrow> bool \<Rightarrow> layout_slots" where
  "layoutWithoutSlot e s L preserveRemovedSlot =
     fold (\<lambda>t next.
        if t = s then (if preserveRemovedSlot then setPane t (emptyPlaceholderPaneState Generic False) next else next)
        else setPane t (paneStateForLayoutSlot e t L) next)
       (layoutSlotKeys L) (setTree (lay_tree L) emptyLayoutSlots)"

definition removeSessionFromLayout :: "env \<Rightarrow> item \<Rightarrow> item option \<Rightarrow> layout_slots \<Rightarrow> outcome" where
  "removeSessionFromLayout e x focus L =
     (if \<not> itemInLayout x L then None
      else
        let isFiles = isFileExplorerItem x;
            sideSource = (case slotForItem x L of Some s \<Rightarrow> slotIsSidePane s L | None \<Rightarrow> False)
        in Some (layoutWithoutItemFromSlots e x L None (\<not> isFiles \<and> \<not> sideSource) (\<not> isFiles), apply_focus focus))"

definition is_explorer_active :: "slot \<Rightarrow> layout_slots \<Rightarrow> bool" where
  "is_explorer_active s L = (case activeItemForSide s L of Some x \<Rightarrow> isFileExplorerItem x | None \<Rightarrow> False)"

definition shouldPreserveClosedPaneSlot :: "slot \<Rightarrow> layout_slots \<Rightarrow> bool" where
  "shouldPreserveClosedPaneSlot s L =
     (if is_explorer_active s L then False
      else list_ex (\<lambda>t. t \<noteq> s \<and> is_explorer_active t L) (layoutSlotKeys L))"

definition removePaneFromLayout :: "env \<Rightarrow> item \<Rightarrow> layout_slots \<Rightarrow> outcome" where
  "removePaneFromLayout e x L =
     (case slotForItem x L of
        None \<Rightarrow> None
      | Some s \<Rightarrow> Some (layoutWithoutSlot e s L (shouldPreserveClosedPaneSlot s L), apply_focus None))"

definition canCloseEmptyPane :: "slot \<Rightarrow> layout_slots \<Rightarrow> bool" where
  "canCloseEmptyPane s L =
     (if \<not> paneIsPlaceholder s L \<or> slotIsSidePane s L then False
      else list_ex (\<lambda>t. t \<noteq> s \<and> \<not> slotIsSidePane t L \<and> paneHasLayoutContent t L) (layoutSlotKeys L))"

definition closeEmptyPaneFromLayout :: "env \<Rightarrow> slot \<Rightarrow> layout_slots \<Rightarrow> outcome" where
  "closeEmptyPaneFromLayout e s L =
     (if \<not> canCloseEmptyPane s L then None
      else Some (layoutWithoutSlot e s L False, (apply_focus None)\<lparr>ao_preservePlaceholders := True\<rparr>))"

section \<open>The tab cap\<close>

definition appendUniqueItems :: "env \<Rightarrow> item list \<Rightarrow> item list \<Rightarrow> item list" where
  "appendUniqueItems e target items = foldl push_new target (filter (isLayoutItem e) items)"

definition maxTabsPerPane :: "act_env \<Rightarrow> nat" where
  "maxTabsPerPane ax =
     (case ax_maxTabsSetting ax of
        None \<Rightarrow> 10
      | Some v \<Rightarrow> nat (max 2 (min 30 \<lfloor>v\<rfloor>)))"

definition capKeepItemSet :: "env \<Rightarrow> item list \<Rightarrow> item list \<Rightarrow> item list" where
  "capKeepItemSet e keepItem keepItems = filter (isLayoutItem e) (keepItem @ keepItems)"

definition isFileEditorItem :: "item \<Rightarrow> bool" where
  "isFileEditorItem x =
     (case tabTypeForItem x of Some ty \<Rightarrow> tt_key ty = ''file-editor'' \<or> tt_key ty = ''image-viewer'' | None \<Rightarrow> False)"

definition tabIsEvictableForCap :: "act_env \<Rightarrow> item list \<Rightarrow> item \<Rightarrow> bool" where
  "tabIsEvictableForCap ax keep x =
     (if x \<in> set keep \<or> tabIsPinned (ax_env ax) x \<or> isFileExplorerItem x then False
      else \<not> (isFileEditorItem x \<and> ax_dirty ax x))"

datatype refusal = AllPinned | NothingEvictable

definition capRefusalReason :: "env \<Rightarrow> item list \<Rightarrow> item list \<Rightarrow> refusal" where
  "capRefusalReason e tabs keep =
     (let protectedTabs = filter (\<lambda>x. x \<notin> set keep) tabs
      in if protectedTabs \<noteq> [] \<and> list_all (tabIsPinned e) protectedTabs then AllPinned else NothingEvictable)"

record capacity =
  cp_ok :: bool
  cp_cap :: nat
  cp_overflow :: nat
  cp_evicted :: "item list"
  cp_finalTabs :: "item list"
  cp_reason :: "refusal option"

text \<open>The eviction order: least recently activated first, ties by position (a stable sort).\<close>

definition paneCapacityCheck :: "act_env \<Rightarrow> item list \<Rightarrow> item list \<Rightarrow> item list \<Rightarrow> capacity" where
  "paneCapacityCheck ax baseTabs incoming keep =
     (let e = ax_env ax;
          tabs = appendUniqueItems e baseTabs incoming;
          cap = maxTabsPerPane ax;
          overflow = length tabs - cap;
          evictable = filter (tabIsEvictableForCap ax keep) tabs;
          byLeastRecent = sort_key (ax_lastActivated ax) evictable;
          evicted = take (min overflow (length byLeastRecent)) byLeastRecent;
          refused = \<lparr>cp_ok = False, cp_cap = cap, cp_overflow = overflow, cp_evicted = [], cp_finalTabs = tabs,
                     cp_reason = Some (capRefusalReason e tabs keep)\<rparr>
      in if length tabs \<le> cap
         then \<lparr>cp_ok = True, cp_cap = cap, cp_overflow = 0, cp_evicted = [], cp_finalTabs = tabs, cp_reason = None\<rparr>
         else if evictable = [] then refused
         else if length evicted < overflow then refused
         else \<lparr>cp_ok = True, cp_cap = cap, cp_overflow = overflow, cp_evicted = evicted,
               cp_finalTabs = filter (\<lambda>x. x \<notin> set evicted) tabs, cp_reason = None\<rparr>)"

definition paneCapacityCheckForInsert ::
  "act_env \<Rightarrow> slot \<Rightarrow> item list \<Rightarrow> item list \<Rightarrow> layout_slots \<Rightarrow> item list option \<Rightarrow> item list \<Rightarrow> capacity" where
  "paneCapacityCheckForInsert ax s incoming keepItem L optTabs keepItems =
     paneCapacityCheck ax (case optTabs of Some ts \<Rightarrow> ts | None \<Rightarrow> paneTabs s L) incoming
       (capKeepItemSet (ax_env ax) keepItem keepItems)"

definition pinnedTabsInSlot :: "env \<Rightarrow> slot \<Rightarrow> layout_slots \<Rightarrow> item list" where
  "pinnedTabsInSlot e s L = filter (tabIsPinned e) (paneTabs s L)"

definition unpinnedTabsInSlot :: "env \<Rightarrow> slot \<Rightarrow> layout_slots \<Rightarrow> item list" where
  "unpinnedTabsInSlot e s L = filter (\<lambda>x. \<not> tabIsPinned e x) (paneTabs s L)"

section \<open>Minimize and expand\<close>

definition paneTabsForGenericActions :: "slot \<Rightarrow> layout_slots \<Rightarrow> item list" where
  "paneTabsForGenericActions s L = (if slotIsSidePane s L then [] else paneTabs s L)"

definition narrowPaneFrameActionTargetsTab :: "env \<Rightarrow> item \<Rightarrow> layout_slots \<Rightarrow> bool" where
  "narrowPaneFrameActionTargetsTab e x L =
     (if \<not> narrowSingleColumnMode e then False
      else (case slotForItem x L of Some s \<Rightarrow> 1 < length (paneTabs s L) | None \<Rightarrow> False))"

definition nextNarrowPaneFrameItem :: "item \<Rightarrow> layout_slots \<Rightarrow> item option" where
  "nextNarrowPaneFrameItem x L =
     (case slotForItem x L of
        None \<Rightarrow> None
      | Some s \<Rightarrow>
          (let remaining = filter (\<lambda>y. y \<noteq> x) (paneTabs s L)
           in or_else (List.find (\<lambda>y. \<not> isFileExplorerItem y) remaining) (first_or_none remaining)))"

definition canPaneExpand :: "env \<Rightarrow> item \<Rightarrow> layout_slots \<Rightarrow> bool" where
  "canPaneExpand e x L =
     (case slotForItem x L of
        None \<Rightarrow> False
      | Some t \<Rightarrow>
          if slotIsSidePane t L \<or> activeItemForSide t L = None then False
          else list_ex (\<lambda>s. s \<noteq> t \<and> \<not> slotIsSidePane s L \<and> unpinnedTabsInSlot e s L \<noteq> []) (layoutSlotKeys L))"

text \<open>\<open>largestNonFileExplorerPaneSlot\<close>: the first candidate of the greatest area.\<close>

definition slot_area :: "act_env \<Rightarrow> slot \<Rightarrow> rat" where
  "slot_area ax s = (case ax_rect ax s of Some r \<Rightarrow> max 0 (re_width r) * max 0 (re_height r) | None \<Rightarrow> 0)"

definition better_slot :: "act_env \<Rightarrow> slot option \<Rightarrow> slot \<Rightarrow> slot option" where
  "better_slot ax best s =
     (case best of None \<Rightarrow> Some s | Some b \<Rightarrow> if slot_area ax b < slot_area ax s then Some s else Some b)"

definition largestNonFileExplorerPaneSlot :: "act_env \<Rightarrow> slot list \<Rightarrow> layout_slots \<Rightarrow> slot option" where
  "largestNonFileExplorerPaneSlot ax excluded L =
     foldl (better_slot ax) None
       (filter (\<lambda>s. \<not> (s \<in> set excluded \<or> paneTabs s L = [] \<or> is_explorer_active s L)) (layoutSlotKeys L))"

definition largestPaneSlot :: "act_env \<Rightarrow> slot list \<Rightarrow> layout_slots \<Rightarrow> slot option" where
  "largestPaneSlot ax excluded L =
     foldl (better_slot ax) None (filter (\<lambda>s. \<not> (s \<in> set excluded \<or> paneTabs s L = [])) (layoutSlotKeys L))"

text \<open>\<open>activatePaneTab\<close>, as far as the layout is concerned.\<close>

definition activatePaneTab :: "env \<Rightarrow> slot \<Rightarrow> item \<Rightarrow> layout_slots \<Rightarrow> outcome" where
  "activatePaneTab e s x L =
     (if s \<notin> set (layoutSlotKeys L) \<or> \<not> itemInLayout x L then None
      else if activeItemForSide s L = Some x then None
      else Some (setPane s ((paneStateForLayoutSlot e s L)\<lparr>ps_active := Some x\<rparr>)
                  (setTree (lay_tree L) (copyPanes e L)), apply_focus (Some x)))"

text \<open>\<open>minimizePaneFromLayout\<close>; \<open>returnItem\<close> is the diff a historical file returns to.\<close>

definition minimizePaneFromLayout :: "act_env \<Rightarrow> item option \<Rightarrow> item \<Rightarrow> layout_slots \<Rightarrow> outcome" where
  "minimizePaneFromLayout ax returnItem x L =
     (let e = ax_env ax in
      (case slotForItem x L of
         None \<Rightarrow> None
       | Some sourceSlot \<Rightarrow>
           if narrowPaneFrameActionTargetsTab e x L
           then removeSessionFromLayout e x (or_else returnItem (nextNarrowPaneFrameItem x L)) L
           else if narrowSingleColumnMode e then None
           else if slotIsSidePane sourceSlot L then removePaneFromLayout e x L
           else
             let sourceTabs = paneTabsForGenericActions sourceSlot L;
                 preserve = shouldPreserveClosedPaneSlot sourceSlot L;
                 closed = layoutWithoutSlot e sourceSlot L preserve
             in (case (largestNonFileExplorerPaneSlot ax [sourceSlot] L, sourceTabs) of
                  (Some targetSlot, _ # _) \<Rightarrow>
                    (let targetActive = activeItemForSide targetSlot L;
                         keepItems = sourceTabs @ (case returnItem of Some r \<Rightarrow> [r] | None \<Rightarrow> []);
                         capacity = paneCapacityCheckForInsert ax targetSlot sourceTabs [] closed None keepItems
                     in if \<not> cp_ok capacity then None
                        else
                          let active = or_else targetActive (first_or_none (cp_finalTabs capacity));
                              next = setPane targetSlot
                                (paneStateWithTabsForSlot e targetSlot (cp_finalTabs capacity) active closed) closed;
                              returnSlot = (case returnItem of Some r \<Rightarrow> slotForItem r next | None \<Rightarrow> None);
                              next2 = (case returnSlot of
                                 Some rs \<Rightarrow> setPane rs (paneStateWithTabsForSlot e rs (paneTabs rs next) returnItem next) next
                               | None \<Rightarrow> next)
                          in Some (next2, apply_focus (case returnSlot of Some _ \<Rightarrow> returnItem | None \<Rightarrow> active)))
                | _ \<Rightarrow>
                    (case returnItem of
                       Some r \<Rightarrow> if r \<in> set sourceTabs then activatePaneTab e sourceSlot r L
                                 else Some (closed, apply_focus returnItem)
                     | None \<Rightarrow> removePaneFromLayout e x L))))"

definition collapse_pane :: "env \<Rightarrow> slot \<Rightarrow> layout_slots \<Rightarrow> layout_slots" where
  "collapse_pane e s L =
     (let pinned = pinnedTabsInSlot e s L
      in setPane s (if pinned \<noteq> [] then paneStateWithTabsForSlot e s pinned (first_or_none pinned) L
                    else emptyPaneState (paneRoleForSlot s L)) L)"

definition expandPaneFromLayout :: "act_env \<Rightarrow> item \<Rightarrow> layout_slots \<Rightarrow> outcome" where
  "expandPaneFromLayout ax x L =
     (let e = ax_env ax in
      (case slotForItem x L of
         None \<Rightarrow> None
       | Some targetSlot \<Rightarrow>
           if \<not> canPaneExpand e x L then None
           else (case activeItemForSide targetSlot L of
             None \<Rightarrow> None
           | Some active \<Rightarrow>
               (let incoming = foldl (appendUniqueItems e) []
                      (map (\<lambda>s. unpinnedTabsInSlot e s L) (filter (\<lambda>s. s \<noteq> targetSlot) (layoutSlotKeys L)));
                    capacity = paneCapacityCheckForInsert ax targetSlot incoming [active] L None []
                in if incoming = [] then None
                   else if \<not> cp_ok capacity then None
                   else if \<not> list_ex (\<lambda>t. t \<in> set (cp_finalTabs capacity)) incoming then None
                   else
                     let next = setPane targetSlot
                           (paneStateWithTabsForSlot e targetSlot (cp_finalTabs capacity) (Some active) L) L;
                         next2 = fold (collapse_pane e)
                           (filter (\<lambda>s. s \<noteq> targetSlot \<and> \<not> slotIsSidePane s next) (layoutSlotKeys next)) next
                     in Some (next2, (apply_focus (Some active))\<lparr>ao_preservePlaceholders := True\<rparr>)))))"

section \<open>Layout modes and file surfaces\<close>

definition visibleNonFinderPaneItems :: "env \<Rightarrow> layout_slots \<Rightarrow> item list" where
  "visibleNonFinderPaneItems e L =
     foldl (appendUniqueItems e) [] (map (\<lambda>s. paneTabsForGenericActions s L) (layoutSlotKeys L))"

definition firstNonFinderPaneSlot :: "layout_slots \<Rightarrow> slot option" where
  "firstNonFinderPaneSlot L =
     List.find (\<lambda>s. \<not> slotIsSidePane s L \<and> paneTabsForGenericActions s L \<noteq> []) (layoutSlotKeys L)"

definition preferredNonFinderLayoutSlots :: "layout_slots \<Rightarrow> slot list" where
  "preferredNonFinderLayoutSlots L = filter (\<lambda>s. paneTabsForGenericActions s L \<noteq> []) (layoutSlotKeys L)"

definition applyNonFinderLayoutMode :: "env \<Rightarrow> item option \<Rightarrow> layout_mode \<Rightarrow> layout_slots \<Rightarrow> outcome" where
  "applyNonFinderLayoutMode e focused mode L =
     (let items = visibleNonFinderPaneItems e L in
      if items = [] then None
      else
        let active = (case focused of Some f \<Rightarrow> if f \<in> set items then Some f else first_or_none items
                      | None \<Rightarrow> first_or_none items);
            content = layoutSlotsForItems e items mode
              \<lparr>mo_emptySlot = ''left'',
               mo_preferredSlots = (if mode = Single \<or> mode = SplitMode then preferredNonFinderLayoutSlots L else []),
               mo_reservedSlots = sidePaneSlots L, mo_active = active\<rparr>
        in Some (layoutWithPreservedSidePanes e content L, apply_focus active))"

definition applyLayoutMode :: "env \<Rightarrow> item option \<Rightarrow> string \<Rightarrow> layout_slots \<Rightarrow> outcome" where
  "applyLayoutMode e focused mode L =
     applyNonFinderLayoutMode e focused (if narrowSingleColumnMode e then Single else normalizeLayoutMode mode) L"

definition strip_surfaces :: "env \<Rightarrow> slot \<Rightarrow> layout_slots \<Rightarrow> layout_slots" where
  "strip_surfaces e s L =
     (let tabs = filter (\<lambda>x. \<not> layoutIsFileSurfaceItem x) (paneTabs s L)
      in if tabs \<noteq> [] then setPane s (paneStateWithTabsForSlot e s tabs (activeItemForSide s L) L) L
         else if slotIsSidePane s L then deletePane s L
         else setPane s (emptyPlaceholderPaneState Generic False) L)"

definition layoutWithoutFileSurfaces :: "env \<Rightarrow> layout_slots \<Rightarrow> layout_slots" where
  "layoutWithoutFileSurfaces e L = compactLayoutSlots e (fold (strip_surfaces e) (layoutSlotKeys L) L) False"

definition layoutWithFileExplorerDockedLeft :: "env \<Rightarrow> layout_slots \<Rightarrow> item option \<Rightarrow> layout_slots" where
  "layoutWithFileExplorerDockedLeft e L active =
     layoutWithSidePaneItems e (layoutWithoutFileSurfaces e L) (layoutFileSurfaceItems e) SideLeft True
       (or_else active (Some fileExplorerItemId)) None"

definition fileExplorerNeedsLeftDock :: "env \<Rightarrow> layout_slots \<Rightarrow> bool" where
  "fileExplorerNeedsLeftDock e L =
     (if fileExplorerUsesNormalTabMovement e then False
      else (case lay_tree L of Some n \<Rightarrow> layoutHasHorizontalContentBeforeItem n fileExplorerItemId L | None \<Rightarrow> False))"

definition normalizeFileExplorerDock :: "env \<Rightarrow> bool \<Rightarrow> layout_slots \<Rightarrow> layout_slots" where
  "normalizeFileExplorerDock e closedByUser L =
     (if fileExplorerUsesNormalTabMovement e then L
      else
        let finderSharesPane = (case slotForItem fileExplorerItemId L of
                Some s \<Rightarrow> list_ex (\<lambda>x. x \<noteq> fileExplorerItemId) (paneTabs s L) | None \<Rightarrow> False);
            next = (if tabletUsesDesktopLayout e \<and> finderSharesPane then layoutWithFileExplorerDockedLeft e L None
                    else if \<not> itemInLayout fileExplorerItemId L \<and> \<not> closedByUser \<and> paneItems L \<noteq> []
                    then layoutWithFileExplorerDockedLeft e L None
                    else if fileExplorerNeedsLeftDock e L then layoutWithFileExplorerDockedLeft e L None
                    else L)
        in layoutWithFileExplorerPeerPane e next)"

definition firstEmptyPane :: "layout_slots \<Rightarrow> slot option" where
  "firstEmptyPane L =
     (case List.find (\<lambda>s. \<not> slotIsSidePane s L \<and> paneIsPlaceholder s L) (layoutSlotKeys L) of
        Some s \<Rightarrow> Some s
      | None \<Rightarrow> if layoutSlotKeys L \<noteq> [] then None else Some ''left'')"

definition slotForNewSession :: "item option \<Rightarrow> layout_slots \<Rightarrow> slot" where
  "slotForNewSession focused L =
     (case firstEmptyPane L of
        Some s \<Rightarrow> s
      | None \<Rightarrow>
          (case (case focused of Some f \<Rightarrow> slotForItem f L | None \<Rightarrow> None) of
             Some s \<Rightarrow> if \<not> slotIsSidePane s L then s
                       else (case List.find (\<lambda>t. \<not> slotIsSidePane t L) (layoutSlotKeys L) of Some t \<Rightarrow> t | None \<Rightarrow> ''left'')
           | None \<Rightarrow> (case List.find (\<lambda>t. \<not> slotIsSidePane t L) (layoutSlotKeys L) of Some t \<Rightarrow> t | None \<Rightarrow> ''left'')))"

definition toggleAllFileSurfaces :: "env \<Rightarrow> layout_slots \<Rightarrow> layout_slots \<times> apply_options" where
  "toggleAllFileSurfaces e L =
     (if list_ex (\<lambda>x. itemInLayout x L) (layoutFileSurfaceItems e)
      then (layoutWithoutFileSurfaces e L, apply_focus None)
      else (layoutWithDefaultLeftSidePane e L, apply_focus (Some finderItemId)))"

definition openFileSurfacePane :: "env \<Rightarrow> item option \<Rightarrow> item \<Rightarrow> layout_slots \<Rightarrow> outcome" where
  "openFileSurfacePane e focused x L =
     (case resolveLayoutItem e x of
        None \<Rightarrow> None
      | Some resolved \<Rightarrow>
          if \<not> layoutIsFileSurfaceItem resolved then None
          else (case slotForItem resolved L of
            Some s \<Rightarrow> activatePaneTab e s resolved L
          | None \<Rightarrow>
              if sidePaneConstrainedMode e
              then (let next = layoutWithItems e L [resolved] (Some (slotForNewSession focused L))
                    in Some (if narrowSingleColumnMode e then narrowSingleColumnLayoutSlots e next (Some resolved) else next,
                         apply_focus (Some resolved)))
              else Some (layoutWithSidePaneItems e L [resolved] SideLeft False None None, apply_focus (Some resolved))))"

definition openFileSurfaceFromMenu :: "env \<Rightarrow> item option \<Rightarrow> item \<Rightarrow> layout_slots \<Rightarrow> outcome" where
  "openFileSurfaceFromMenu e focused x L =
     (case resolveLayoutItem e x of
        None \<Rightarrow> None
      | Some resolved \<Rightarrow>
          if \<not> layoutIsFileSurfaceItem resolved then None
          else if sidePaneConstrainedMode e then openFileSurfacePane e focused resolved L
          else
            let missing = filter (\<lambda>c. \<not> itemInLayout c L) fileExplorerItemIds
            in Some (if missing \<noteq> []
                     then layoutWithSidePaneItems e L missing SideLeft True
                       (if resolved \<in> set missing then Some resolved else first_or_none missing) None
                     else L, apply_focus (Some resolved)))"

end
