(* ===== verification/Layout_Moves.thy ===== *)
theory Layout_Moves
  imports Layout_Actions
begin

text \<open>
  Moving and splitting tabs (\<open>70_layout_actions.js\<close>): a tab moved to a slot, split off beside a
  slot, at the border of the whole layout or at a gutter, the directional moves and swaps that
  follow the visible geometry, the swap of two panes, and filling the workspace with one tab.
  \<open>applyLayoutSlots\<close> (\<open>20_layout_state.js\<close>) installs the result of an action.
\<close>

section \<open>Moving a tab into a slot\<close>

definition insert_at :: "nat \<Rightarrow> 'a \<Rightarrow> 'a list \<Rightarrow> 'a list" where
  "insert_at i x xs = (let k = min i (length xs) in take k xs @ x # drop k xs)"

text \<open>The layout without the item, with the target slot present.\<close>

definition with_target :: "slot \<Rightarrow> layout_slots \<Rightarrow> layout_slots" where
  "with_target s L =
     (let L1 = (if lay_tree L = None then setTree (Some (Leaf s)) L else L)
      in if getPane L1 s = None then setPane s (emptyPaneState Generic) L1 else L1)"

definition moveSessionToSlot ::
  "act_env \<Rightarrow> item \<Rightarrow> slot \<Rightarrow> slot option \<Rightarrow> nat \<Rightarrow> bool \<Rightarrow> layout_slots \<Rightarrow> outcome" where
  "moveSessionToSlot ax x targetSlot sourceSlot insertIndex preserveSource L =
     (let e = ax_env ax; actualSource = or_else sourceSlot (slotForItem x L) in
      if \<not> isLayoutItem e x \<or> targetSlot = [] then None
      else if \<not> paneRoleAllowsItemTransfer e x actualSource (Some targetSlot) L None None
                  (sidePaneConstrainedMode e) False then None
      else
        let next = with_target targetSlot (layoutWithoutItemFromSlots e x L None preserveSource True);
            tabs = insert_at insertIndex x (paneTabs targetSlot next);
            capacity = paneCapacityCheckForInsert ax targetSlot [] [x] next (Some tabs) []
        in if \<not> cp_ok capacity then None
           else Some (setPane targetSlot
                       (paneStateWithTabsForSlot e targetSlot (cp_finalTabs capacity) (Some x) next) next,
                     \<lparr>ao_focus = Some x, ao_preservePlaceholders = preserveSource, ao_preserveFilled = False\<rparr>))"

section \<open>Splitting\<close>

definition splitPercentForNewItem :: "rat option \<Rightarrow> rat" where
  "splitPercentForNewItem pct = (case pct of Some p \<Rightarrow> p | None \<Rightarrow> defaultSplitPercent)"

definition after_zone :: "zone \<Rightarrow> bool" where
  "after_zone z = (z = ZRight \<or> z = ZBottom)"

definition split_beside :: "zone \<Rightarrow> layout_node \<Rightarrow> layout_node \<Rightarrow> rat \<Rightarrow> layout_node" where
  "split_beside z existing new pct =
     (if after_zone z then splitNode (layoutSplitDirectionForZone z) existing new (PctNumber pct)
      else splitNode (layoutSplitDirectionForZone z) new existing (PctNumber pct))"

definition tree_replace :: "layout_node option \<Rightarrow> slot \<Rightarrow> layout_node \<Rightarrow> layout_node" where
  "tree_replace t s r = (case t of None \<Rightarrow> r | Some n \<Rightarrow> replaceLayoutLeaf n s r)"

definition rootBoundarySplitPercent :: "layout_node \<Rightarrow> zone \<Rightarrow> rat option \<Rightarrow> layout_slots \<Rightarrow> item option \<Rightarrow> rat" where
  "rootBoundarySplitPercent existing z pct L moving =
     (case pct of
        Some p \<Rightarrow> splitPercent (PctNumber p)
      | None \<Rightarrow>
          let populated = filter (\<lambda>s. list_ex (\<lambda>x. Some x \<noteq> moving) (paneTabs s L)
                 \<or> (paneIsPlaceholder s L \<and> (case moving of Some m \<Rightarrow> m \<notin> set (paneTabs s L) | None \<Rightarrow> True)))
                 (layoutLeafSlots existing);
              newPane = 100 / (of_nat (max 1 (length populated)) + 1)
          in splitPercent (PctNumber (if after_zone z then 100 - newPane else newPane)))"

definition shouldPreserveSourceSlotForSplit :: "slot option \<Rightarrow> slot \<Rightarrow> item \<Rightarrow> layout_slots \<Rightarrow> bool" where
  "shouldPreserveSourceSlotForSplit sourceSlot targetSlot x L =
     (case sourceSlot of
        None \<Rightarrow> False
      | Some s \<Rightarrow>
          if s = targetSlot \<or> \<not> slotIsSidePane targetSlot L then False
          else if slotIsSidePane s L \<or> list_ex (\<lambda>y. y \<noteq> x) (paneTabs s L) then False
          else \<not> list_ex (\<lambda>t. t \<noteq> s \<and> \<not> slotIsSidePane t L \<and> paneHasLayoutContent t L) (layoutSlotKeys L))"

text \<open>\<open>layoutSidePaneRootSplit\<close>: whether a child of the root row is a dock of side panes of one
  side, all of them populated; the first such child.\<close>

definition side_dock :: "layout_node \<Rightarrow> layout_slots \<Rightarrow> bool" where
  "side_dock n L =
     (let leaves = layoutLeafSlots n in
      list_all (\<lambda>s. paneHasLayoutContent s L \<and> slotIsSidePane s L) leaves
      \<and> list_all (\<lambda>s. paneRoleForSlot s L = paneRoleForSlot (hd leaves) L) leaves)"

definition layoutSidePaneRootSplit :: "layout_node \<Rightarrow> layout_slots \<Rightarrow> nat option" where
  "layoutSidePaneRootSplit n L =
     (case n of
        Split Row p a b \<Rightarrow> if side_dock a L then Some 0 else if side_dock b L then Some 1 else None
      | _ \<Rightarrow> None)"

definition splitRootPreservingSidePane ::
  "layout_node \<Rightarrow> layout_node \<Rightarrow> zone \<Rightarrow> rat option \<Rightarrow> layout_slots \<Rightarrow> layout_node option" where
  "splitRootPreservingSidePane rt new z pct L =
     (case (layoutSidePaneRootSplit rt L, rt) of
        (Some i, Split d p a b) \<Rightarrow>
          (let content = (if i = 0 then b else a);
               grown = split_beside z content new (rootBoundarySplitPercent content z pct L None)
           in Some (if i = 0 then splitNode Row a grown (PctNumber p) else splitNode Row grown b (PctNumber p)))
      | _ \<Rightarrow> None)"

text \<open>What the user can see: placeholders without a rectangle are dropped.\<close>

definition visible_rect :: "rect option \<Rightarrow> bool" where
  "visible_rect r = (case r of Some q \<Rightarrow> 0 < re_width q \<and> 0 < re_height q | None \<Rightarrow> False)"

definition layoutSlotScreenRect :: "act_env \<Rightarrow> layout_slots \<Rightarrow> slot \<Rightarrow> rect option" where
  "layoutSlotScreenRect ax L s =
     (if visible_rect (ax_rect ax s) then ax_rect ax s
      else if visible_rect (ax_panelRect ax s) then ax_panelRect ax s
      else (case or_else (activeItemForSide s L) (first_or_none (paneTabs s L)) of
        None \<Rightarrow> None
      | Some x \<Rightarrow> if visible_rect (ax_tabRect ax x) then ax_tabRect ax x else None))"

definition unrendered :: "act_env \<Rightarrow> layout_slots \<Rightarrow> slot \<Rightarrow> bool" where
  "unrendered ax L s =
     (\<not> paneHasLayoutContent s L \<or> (paneIsPlaceholder s L \<and> layoutSlotScreenRect ax L s = None))"

definition layoutSlotsWithoutUnrenderedPlaceholders :: "act_env \<Rightarrow> layout_slots \<Rightarrow> layout_slots" where
  "layoutSlotsWithoutUnrenderedPlaceholders ax L =
     (let e = ax_env ax;
          leaves = treeLeafSlots (lay_tree L);
          kept = filter (\<lambda>s. \<not> unrendered ax L s) leaves;
          next = fold (\<lambda>s. setPane s (paneStateForLayoutSlot e s L)) kept emptyLayoutSlots;
          tree = (case lay_tree L of
             None \<Rightarrow> None
           | Some n \<Rightarrow> layoutTreeWithoutSlots n {s \<in> set leaves. unrendered ax L s})
      in compactLayoutSlots e (setTree tree next) True)"

definition splitLayoutItemAtSlot ::
  "act_env \<Rightarrow> item \<Rightarrow> slot \<Rightarrow> zone \<Rightarrow> slot option \<Rightarrow> rat option \<Rightarrow> bool \<Rightarrow> bool \<Rightarrow> layout_slots \<Rightarrow> outcome" where
  "splitLayoutItemAtSlot ax x targetSlot z sourceSlot pct preserveSource forceSplitEmpty L =
     (let e = ax_env ax;
          actualSource = or_else sourceSlot (slotForItem x L);
          targetRole = paneRoleForSlot targetSlot L
      in if \<not> isLayoutItem e x \<or> targetSlot = [] \<or> \<not> layoutSplitZone z then None
         else if (is_side_role targetRole \<and> z \<notin> {ZTop, ZBottom})
               \<or> \<not> paneRoleAllowsItemTransfer e x actualSource (Some targetSlot) L None None False False then None
         else
           let preserveRemoved = (preserveSource \<and> sourceSlot = Some targetSlot \<and> length (paneTabs targetSlot L) = 1);
               liveSource = or_else (slotForItem x L) actualSource;
               liveTarget = (if actualSource = Some targetSlot
                 then (case liveSource of Some s \<Rightarrow> s | None \<Rightarrow> targetSlot) else targetSlot);
               source = (if forceSplitEmpty then layoutSlotsWithoutUnrenderedPlaceholders ax L else L);
               preserveEmpty = (if preserveRemoved \<or> shouldPreserveSourceSlotForSplit liveSource liveTarget x source
                 then liveSource else None);
               next = layoutWithoutItemFromSlots e x source preserveEmpty preserveRemoved True
           in if paneTabs liveTarget next = [] \<and> \<not> forceSplitEmpty
              then moveSessionToSlot ax x liveTarget liveSource 0 False L
              else
                let newSlot = nextLayoutSlot next;
                    next2 = setPane newSlot (paneStateWithTabs e [x] (Some x) targetRole) next;
                    replacement = split_beside z (Leaf liveTarget) (Leaf newSlot) (splitPercentForNewItem pct)
                in Some (setTree (Some (tree_replace (lay_tree next2) liveTarget replacement)) next2,
                     \<lparr>ao_focus = Some x, ao_preservePlaceholders = (preserveRemoved \<or> is_side_role targetRole),
                      ao_preserveFilled = False\<rparr>))"

definition splitSessionBesidePlaceholder ::
  "act_env \<Rightarrow> item \<Rightarrow> slot \<Rightarrow> zone \<Rightarrow> rat \<Rightarrow> layout_slots \<Rightarrow> outcome" where
  "splitSessionBesidePlaceholder ax x targetSlot z pct L =
     (let e = ax_env ax in
      if \<not> isLayoutItem e x \<or> targetSlot = [] \<or> \<not> layoutSplitZone z then None
      else if \<not> paneIsPlaceholder targetSlot L then splitLayoutItemAtSlot ax x targetSlot z None (Some pct) False False L
      else
        let next = layoutWithoutItemFromSlots e x L None False True;
            next1 = (if lay_tree next = None then setTree (Some (Leaf targetSlot)) next else next);
            next2 = (if getPane next1 targetSlot = None
              then setPane targetSlot (emptyPlaceholderPaneState Generic False) next1 else next1);
            newSlot = nextLayoutSlot next2;
            next3 = setPane newSlot (paneStateWithTabs e [x] (Some x) Generic) next2;
            replacement = split_beside z (Leaf targetSlot) (Leaf newSlot) (splitPercentForNewItem (Some pct))
        in Some (setTree (Some (tree_replace (lay_tree next3) targetSlot replacement)) next3, apply_focus (Some x)))"

definition splitSessionAtLayoutBoundary ::
  "act_env \<Rightarrow> item option \<Rightarrow> item \<Rightarrow> zone \<Rightarrow> slot option \<Rightarrow> rat option \<Rightarrow> layout_slots \<Rightarrow> outcome" where
  "splitSessionAtLayoutBoundary ax focused x z sourceSlot pct L =
     (let e = ax_env ax;
          actualSource = or_else sourceSlot (slotForItem x L);
          sourceRole = (case actualSource of Some s \<Rightarrow> paneRoleForSlot s L | None \<Rightarrow> Generic);
          zoneSide = (if z = ZLeft then SideLeft else SideRight);
          split = (\<lambda>targetRole pct.
            if \<not> paneRoleAllowsItemTransfer e x actualSource None L None (Some targetRole) False False then None
            else
              let next = layoutWithoutItemFromSlots e x L None False True
              in (case or_else (lay_tree next) (legacyLayoutTree next) of
                    None \<Rightarrow> moveSessionToSlot ax x
                      (case actualSource of Some s \<Rightarrow> s | None \<Rightarrow> slotForNewSession focused L) actualSource 0 False L
                  | Some rt \<Rightarrow>
                      let newSlot = nextLayoutSlot next;
                          next2 = setPane newSlot (paneStateWithTabs e [x] (Some x) targetRole) next;
                          tree = (case splitRootPreservingSidePane rt (Leaf newSlot) z pct next2 of
                             Some t \<Rightarrow> t
                           | None \<Rightarrow> split_beside z rt (Leaf newSlot) (rootBoundarySplitPercent rt z pct next2 None))
                      in Some (setTree (Some tree) next2, apply_focus (Some x))))
      in if \<not> isLayoutItem e x \<or> \<not> layoutSplitZone z then None
         else (case sourceRole of
             Generic \<Rightarrow> split Generic pct
           | Side sd \<Rightarrow>
               if z \<notin> {ZLeft, ZRight} \<or> sd = zoneSide then None
               else (case sidePaneSlot zoneSide L of
                   Some existing \<Rightarrow>
                     moveSessionToSlot ax x existing actualSource (length (paneTabs existing L)) False L
                 | None \<Rightarrow>
                     split (Side zoneSide) (case pct of
                         Some p \<Rightarrow> Some p
                       | None \<Rightarrow>
                           let w = sidePaneWidthPercent sd L in Some (if z = ZRight then 100 - w else w)))))"


fun splitLayoutNodeAtGutter :: "layout_node \<Rightarrow> layout_node \<Rightarrow> zone \<Rightarrow> rat option \<Rightarrow> layout_node" where
  "splitLayoutNodeAtGutter (Leaf s) new z pct = new"
| "splitLayoutNodeAtGutter (Split d p a b) new z pct =
     (if z = (if d = Row then ZLeft else ZTop)
      then splitNode d (splitNode d a new (PctNumber (splitPercentForNewItem pct))) b (PctNumber p)
      else splitNode d a (splitNode d new b (PctNumber (splitPercentForNewItem pct))) (PctNumber p))"

text \<open>\<open>layoutNodeAtPath\<close> (\<open>78_panel_shell.js\<close>).\<close>

fun layoutNodeAtPath :: "int option list \<Rightarrow> layout_node \<Rightarrow> layout_node option" where
  "layoutNodeAtPath [] n = Some n"
| "layoutNodeAtPath (i # path) (Leaf s) = None"
| "layoutNodeAtPath (i # path) (Split d p a b) =
     (if i = Some 0 then layoutNodeAtPath path a
      else if i = Some 1 then layoutNodeAtPath path b
      else None)"

definition splitSessionAtGutter ::
  "act_env \<Rightarrow> item option \<Rightarrow> item \<Rightarrow> int option list \<Rightarrow> zone \<Rightarrow> slot option \<Rightarrow> rat option \<Rightarrow> layout_slots \<Rightarrow> outcome" where
  "splitSessionAtGutter ax focused x path z sourceSlot pct L =
     (let e = ax_env ax; actualSource = or_else sourceSlot (slotForItem x L) in
      if \<not> isLayoutItem e x \<or> \<not> layoutSplitZone z then None
      else if \<not> paneRoleAllowsItemTransfer e x actualSource None L None (Some Generic) False False then None
      else
        let next = layoutWithoutItemFromSlots e x L None False True
        in (case or_else (lay_tree next) (legacyLayoutTree next) of
              None \<Rightarrow> splitSessionAtLayoutBoundary ax focused x z actualSource pct L
            | Some rt \<Rightarrow>
                (case layoutNodeAtPath path rt of
                   Some (Split d p a b) \<Rightarrow>
                     if layoutNodeContainsSidePane (Split d p a b) next then None
                     else
                       let newSlot = nextLayoutSlot next;
                           next2 = setPane newSlot (paneStateWithTabs e [x] (Some x) Generic) next
                       in Some (setTree (Some (replaceLayoutNodeAtPath rt path
                             (splitLayoutNodeAtGutter (Split d p a b) (Leaf newSlot) z pct))) next2,
                            apply_focus (Some x))
                 | Some (Leaf s) \<Rightarrow>
                     if layoutNodeContainsSidePane (Leaf s) next then None
                     else splitSessionAtLayoutBoundary ax focused x z actualSource pct L
                 | None \<Rightarrow> splitSessionAtLayoutBoundary ax focused x z actualSource pct L)))"

section \<open>Directional moves and swaps\<close>

definition directionalPaneAdjacencyTolerancePx :: rat where
  "directionalPaneAdjacencyTolerancePx = 8"

definition re_right :: "rect \<Rightarrow> rat" where "re_right r = re_left r + re_width r"
definition re_bottom :: "rect \<Rightarrow> rat" where "re_bottom r = re_top r + re_height r"

definition directionalRectOverlap :: "rat \<Rightarrow> rat \<Rightarrow> rat \<Rightarrow> rat \<Rightarrow> rat" where
  "directionalRectOverlap firstStart firstEnd secondStart secondEnd =
     max 0 (min firstEnd secondEnd - max firstStart secondStart)"

definition rect_touches :: "zone \<Rightarrow> rect \<Rightarrow> rect \<Rightarrow> bool" where
  "rect_touches z src tgt =
     (let tol = directionalPaneAdjacencyTolerancePx;
          rows = tol < directionalRectOverlap (re_top src) (re_bottom src) (re_top tgt) (re_bottom tgt);
          columns = tol < directionalRectOverlap (re_left src) (re_right src) (re_left tgt) (re_right tgt)
      in if z = ZLeft then \<bar>re_right tgt - re_left src\<bar> \<le> tol \<and> rows
         else if z = ZRight then \<bar>re_left tgt - re_right src\<bar> \<le> tol \<and> rows
         else if z = ZTop then \<bar>re_bottom tgt - re_top src\<bar> \<le> tol \<and> columns
         else \<bar>re_top tgt - re_bottom src\<bar> \<le> tol \<and> columns)"

text \<open>The rectangles are those of the live layout \<open>L\<close>; the slots those of \<open>V\<close>.\<close>

definition layoutSlotsTouchingDirection :: "act_env \<Rightarrow> layout_slots \<Rightarrow> slot \<Rightarrow> zone \<Rightarrow> layout_slots \<Rightarrow> slot list" where
  "layoutSlotsTouchingDirection ax L s z V =
     (case layoutSlotScreenRect ax L s of
        None \<Rightarrow> []
      | Some src \<Rightarrow>
          filter (\<lambda>t. t \<noteq> s \<and> (case layoutSlotScreenRect ax L t of None \<Rightarrow> False | Some tgt \<Rightarrow> rect_touches z src tgt))
            (layoutSlotKeys V))"

definition directionalLocalSplitHasRoom :: "act_env \<Rightarrow> rect \<Rightarrow> zone \<Rightarrow> bool" where
  "directionalLocalSplitHasRoom ax r z =
     (if z = ZLeft \<or> z = ZRight then minSplitPaneWidthPx (ax_env ax) \<le> re_width r / 2
      else ax_minHeight ax \<le> re_height r / 2)"

fun oppositeZone :: "zone \<Rightarrow> zone" where
  "oppositeZone ZLeft = ZRight"
| "oppositeZone ZRight = ZLeft"
| "oppositeZone ZTop = ZBottom"
| "oppositeZone z = ZTop"

definition directionalLocalSplitAvailable ::
  "act_env \<Rightarrow> layout_slots \<Rightarrow> slot \<Rightarrow> zone \<Rightarrow> rect \<Rightarrow> layout_slots \<Rightarrow> slot list \<Rightarrow> bool" where
  "directionalLocalSplitAvailable ax L s z r V targets =
     (let finderOnly = (case targets of [t] \<Rightarrow> is_explorer_active t V | _ \<Rightarrow> False) in
      if targets \<noteq> [] \<and> \<not> finderOnly then False
      else filter (\<lambda>t. \<not> is_explorer_active t V) (layoutSlotsTouchingDirection ax L s (oppositeZone z) V) = []
           \<and> directionalLocalSplitHasRoom ax r z)"

record capability =
  ca_move :: bool
  ca_swap :: bool
  ca_target :: "slot option"

definition no_capability :: capability where
  "no_capability = \<lparr>ca_move = False, ca_swap = False, ca_target = None\<rparr>"

text \<open>The entry of \<open>tabDirectionalActionCapabilities\<close> for one of the four zones.\<close>

definition tabDirectionalActionCapabilities ::
  "act_env \<Rightarrow> item \<Rightarrow> slot option \<Rightarrow> layout_slots \<Rightarrow> zone \<Rightarrow> capability" where
  "tabDirectionalActionCapabilities ax x sourceSlot L z =
     (let e = ax_env ax; V = layoutSlotsWithoutUnrenderedPlaceholders ax L in
      (case sourceSlot of
         None \<Rightarrow> no_capability
       | Some s \<Rightarrow>
           (case layoutSlotScreenRect ax L s of
              None \<Rightarrow> no_capability
            | Some r \<Rightarrow>
                let sourceRole = paneRoleForSlot s L;
                    targets = layoutSlotsTouchingDirection ax L s z V;
                    local = \<lparr>ca_move = directionalLocalSplitAvailable ax L s z r V targets,
                             ca_swap = False, ca_target = None\<rparr>
                in if \<not> isLayoutItem e x \<or> narrowSingleColumnMode e \<or> tabIsPinned e x then no_capability
                   else if is_side_role sourceRole \<and> (z = ZLeft \<or> z = ZRight)
                   then (let sd = (if z = ZLeft then SideLeft else SideRight); opposite = (sourceRole \<noteq> Side sd)
                         in \<lparr>ca_move = opposite, ca_swap = False,
                             ca_target = (if opposite then sidePaneSlot sd L else None)\<rparr>)
                   else (case targets of
                       [t] \<Rightarrow>
                         if paneRoleForSlot t V \<noteq> sourceRole then local
                         else \<lparr>ca_move = True,
                               ca_swap = (case activeItemForSide t V of
                                  Some y \<Rightarrow> \<not> tabIsPinned e y \<and> \<not> paneIsPlaceholder t L | None \<Rightarrow> False),
                               ca_target = Some t\<rparr>
                     | _ \<Rightarrow> local))))"

definition moveLayoutItemDirectional ::
  "act_env \<Rightarrow> item option \<Rightarrow> item \<Rightarrow> slot option \<Rightarrow> zone \<Rightarrow> layout_slots \<Rightarrow> outcome" where
  "moveLayoutItemDirectional ax focused x sourceSlot z L =
     (let c = tabDirectionalActionCapabilities ax x sourceSlot L z in
      (case sourceSlot of
         None \<Rightarrow> None
       | Some s \<Rightarrow>
           if \<not> ca_move c then None
           else if slotIsSidePane s L \<and> (z = ZLeft \<or> z = ZRight)
           then splitSessionAtLayoutBoundary ax focused x z sourceSlot None L
           else (case ca_target c of
               Some t \<Rightarrow> moveSessionToSlot ax x t sourceSlot 0 True L
             | None \<Rightarrow> splitLayoutItemAtSlot ax x s z sourceSlot None True True L)))"

definition swap_items :: "item \<Rightarrow> item \<Rightarrow> item list \<Rightarrow> item list" where
  "swap_items old new tabs = map (\<lambda>t. if t = old then new else t) tabs"

definition swapLayoutItemDirectional :: "act_env \<Rightarrow> item \<Rightarrow> slot option \<Rightarrow> zone \<Rightarrow> layout_slots \<Rightarrow> outcome" where
  "swapLayoutItemDirectional ax x sourceSlot z L =
     (let e = ax_env ax; c = tabDirectionalActionCapabilities ax x sourceSlot L z in
      (case (sourceSlot, ca_target c) of
         (Some s, Some t) \<Rightarrow>
           if \<not> ca_swap c then None
           else (case activeItemForSide t L of
               None \<Rightarrow> None
             | Some y \<Rightarrow>
                 let sourceTabs = swap_items x y (paneTabs s L);
                     targetTabs = swap_items y x (paneTabs t L);
                     next = setPane s (paneStateWithTabsForSlot e s sourceTabs (Some y) L) L;
                     next2 = setPane t (paneStateWithTabsForSlot e t targetTabs (Some x) next) next
                 in Some (next2, apply_focus (Some x)))
       | _ \<Rightarrow> None))"

section \<open>Swapping panes\<close>

definition rectCanShowPaneTabs :: "act_env \<Rightarrow> rect option \<Rightarrow> item list \<Rightarrow> bool" where
  "rectCanShowPaneTabs ax r tabs =
     (case r of
        None \<Rightarrow> True
      | Some q \<Rightarrow>
          let items = filter (isLayoutItem (ax_env ax)) tabs
          in items \<noteq> [] \<and> list_all (\<lambda>x. ax_minWidth ax (Some x) \<le> re_width q) items \<and> ax_minHeight ax \<le> re_height q)"

definition paneSwapAllowed :: "act_env \<Rightarrow> slot \<Rightarrow> slot \<Rightarrow> layout_slots \<Rightarrow> bool" where
  "paneSwapAllowed ax s t L =
     (s \<noteq> [] \<and> t \<noteq> [] \<and> s \<noteq> t \<and> s \<in> set (layoutSlotKeys L) \<and> t \<in> set (layoutSlotKeys L)
      \<and> \<not> paneIsPlaceholder s L \<and> \<not> paneIsPlaceholder t L \<and> \<not> slotIsSidePane s L \<and> \<not> slotIsSidePane t L
      \<and> paneTabs s L \<noteq> [] \<and> paneTabs t L \<noteq> []
      \<and> rectCanShowPaneTabs ax (layoutSlotScreenRect ax L t) (paneTabs s L)
      \<and> rectCanShowPaneTabs ax (layoutSlotScreenRect ax L s) (paneTabs t L))"

definition swapPaneSlots :: "act_env \<Rightarrow> slot \<Rightarrow> slot \<Rightarrow> layout_slots \<Rightarrow> outcome" where
  "swapPaneSlots ax s t L =
     (if \<not> paneSwapAllowed ax s t L then None
      else
        let e = ax_env ax;
            next = setPane t (paneStateForLayoutSlot e s L) (setPane s (paneStateForLayoutSlot e t L) L)
        in Some (next, apply_focus (or_else (activeItemForSide t next) (activeItemForSide s next))))"

end
