(* ===== verification/Layout_Workspace.thy ===== *)
theory Layout_Workspace
  imports Layout_Moves
begin

text \<open>
  Drop intents, keyboard traversal and the workspace state. A pointer position and the measured
  rectangles decide where a dragged tab may be dropped (\<open>70_layout_actions.js\<close>, from
  \<open>rootBoundaryDropZoneForEvent\<close> to \<open>dropIntentAllowsSession\<close>); \<open>adjacentPaneTabPosition\<close> walks the
  tabs in visual order; \<open>applyLayoutSlots\<close> (\<open>20_layout_state.js\<close>) and the actions that keep state
  beside the layout (filling the workspace, pinning a tab) are the transitions of a workspace.
\<close>

section \<open>Drop zones\<close>

definition layoutBoundaryDropBandPx :: "rat \<Rightarrow> rat" where
  "layoutBoundaryDropBandPx extent = min 64 (max 28 (max 0 extent * (8 / 100)))"

definition rootBoundaryDropZoneForEvent :: "rat \<Rightarrow> rat \<Rightarrow> rect \<Rightarrow> zone option \<Rightarrow> zone option" where
  "rootBoundaryDropZoneForEvent px py r preferred =
     (if re_width r = 0 \<or> re_height r = 0 then None
      else if \<not> (re_left r \<le> px \<and> px \<le> re_right r \<and> re_top r \<le> py \<and> py \<le> re_bottom r) then None
      else
        let xBand = layoutBoundaryDropBandPx (re_width r);
            yBand = layoutBoundaryDropBandPx (re_height r);
            candidates = map (\<lambda>(z, d, a). (z, d)) (filter (\<lambda>(z, d, a). a)
              [(ZLeft, \<bar>px - re_left r\<bar>, px \<le> re_left r + xBand),
               (ZRight, \<bar>re_right r - px\<bar>, re_right r - xBand \<le> px),
               (ZTop, \<bar>py - re_top r\<bar>, py \<le> re_top r + yBand),
               (ZBottom, \<bar>re_bottom r - py\<bar>, re_bottom r - yBand \<le> py)])
        in (case preferred of
              Some z \<Rightarrow> if z \<in> set (map fst candidates) then Some z else None
            | None \<Rightarrow> first_or_none (map fst (sort_key snd candidates))))"

definition gutterDropZoneForEvent :: "rat \<Rightarrow> rat \<Rightarrow> layout_node option \<Rightarrow> rect \<Rightarrow> zone option" where
  "gutterDropZoneForEvent px py n r =
     (case n of
        Some (Split d p a b) \<Rightarrow>
          if re_width r = 0 \<or> re_height r = 0 then None
          else if d = Column then Some (if py < re_top r + re_height r / 2 then ZTop else ZBottom)
          else Some (if px < re_left r + re_width r / 2 then ZLeft else ZRight)
      | _ \<Rightarrow> None)"

definition dropZoneForRect :: "act_env \<Rightarrow> rat \<Rightarrow> rat \<Rightarrow> rect \<Rightarrow> zone" where
  "dropZoneForRect ax px py r =
     (if re_width r = 0 \<or> re_height r = 0 then ZMiddle
      else
        let x = (px - re_left r) / re_width r; y = (py - re_top r) / re_height r;
            tall = (ax_minHeight ax \<le> re_height r / 2); wide = (minSplitPaneWidthPx (ax_env ax) \<le> re_width r / 2)
        in if y < 24 / 100 then (if tall then ZTop else ZMiddle)
           else if 76 / 100 < y then (if tall then ZBottom else ZMiddle)
           else if x < 24 / 100 then (if wide then ZLeft else ZMiddle)
           else if 76 / 100 < x then (if wide then ZRight else ZMiddle)
           else ZMiddle)"

section \<open>Drop intents\<close>

datatype boundary = AtRoot | AtGutter

record drop_intent =
  di_targetSlot :: slot
  di_zone :: zone
  di_targetRect :: "rect option"
  di_boundary :: "boundary option"
  di_splitPath :: "int option list"

definition rectCanShowLayoutItem :: "act_env \<Rightarrow> rect option \<Rightarrow> item \<Rightarrow> bool" where
  "rectCanShowLayoutItem ax r x =
     (case r of None \<Rightarrow> True | Some q \<Rightarrow> ax_minWidth ax (Some x) \<le> re_width q \<and> ax_minHeight ax \<le> re_height q)"

definition dropIntentHasRoomForItem :: "act_env \<Rightarrow> item \<Rightarrow> drop_intent \<Rightarrow> layout_slots \<Rightarrow> bool" where
  "dropIntentHasRoomForItem ax x intent L =
     (if di_boundary intent \<noteq> None then True
      else (case di_targetRect intent of
        None \<Rightarrow> True
      | Some r \<Rightarrow>
          let z = di_zone intent;
              targetMinWidth = ax_minWidth ax (activeItemForSide (di_targetSlot intent) L);
              itemMinWidth = ax_minWidth ax (Some x);
              minHeight = ax_minHeight ax
          in if \<not> layoutSplitZone z then rectCanShowLayoutItem ax (Some r) x
             else if slotIsSidePane (di_targetSlot intent) L \<and> (z = ZTop \<or> z = ZBottom)
             then minHeight + minHeight \<le> re_height r
             else if z = ZLeft \<or> z = ZRight
             then targetMinWidth + itemMinWidth \<le> re_width r \<and> max minHeight minHeight \<le> re_height r
             else max targetMinWidth itemMinWidth \<le> re_width r \<and> minHeight + minHeight \<le> re_height r))"

definition dropIntentCapacityCheckForSession ::
  "act_env \<Rightarrow> item \<Rightarrow> drop_intent \<Rightarrow> slot option \<Rightarrow> layout_slots \<Rightarrow> capacity option" where
  "dropIntentCapacityCheckForSession ax x intent sourceSlot L =
     (if di_targetSlot intent = [] \<or> di_zone intent \<noteq> ZMiddle \<or> di_boundary intent \<noteq> None then None
      else if sourceSlot = Some (di_targetSlot intent) then None
      else Some (paneCapacityCheckForInsert ax (di_targetSlot intent) [x] [x] L None []))"

definition dropIntentCapacityAllowsSession ::
  "act_env \<Rightarrow> item \<Rightarrow> drop_intent \<Rightarrow> slot option \<Rightarrow> layout_slots \<Rightarrow> bool" where
  "dropIntentCapacityAllowsSession ax x intent sourceSlot L =
     (case dropIntentCapacityCheckForSession ax x intent sourceSlot L of None \<Rightarrow> True | Some c \<Rightarrow> cp_ok c)"

definition dropItemCanBeDragged :: "act_env \<Rightarrow> item \<Rightarrow> bool \<Rightarrow> bool" where
  "dropItemCanBeDragged ax x allowCandidate = (isLayoutItem (ax_env ax) x \<or> (allowCandidate \<and> isFileEditorItem x))"

definition dropIntentAllowsSession ::
  "act_env \<Rightarrow> item \<Rightarrow> drop_intent \<Rightarrow> slot option \<Rightarrow> bool \<Rightarrow> layout_slots \<Rightarrow> bool" where
  "dropIntentAllowsSession ax x intent optSource allowCandidate L =
     (let e = ax_env ax;
          sourceSlot = or_else optSource (slotForItem x L);
          sourceRole = (case sourceSlot of Some s \<Rightarrow> paneRoleForSlot s L | None \<Rightarrow> Generic);
          z = di_zone intent; t = di_targetSlot intent;
          allowed = (\<lambda>role. paneRoleAllowsItemTransfer e x sourceSlot None L None (Some role) False allowCandidate)
      in if \<not> dropItemCanBeDragged ax x allowCandidate then False
         else if narrowSingleColumnMode e
         then t \<noteq> [] \<and> z = ZMiddle
              \<and> paneRoleAllowsItemTransfer e x sourceSlot (Some t) L None None True allowCandidate
         else if di_boundary intent = Some AtRoot \<and> layoutSplitZone z
         then (case sourceRole of
                 Generic \<Rightarrow> allowed Generic
               | Side sd \<Rightarrow>
                   let zoneSide = (if z = ZLeft then SideLeft else SideRight)
                   in if z \<notin> {ZLeft, ZRight} \<or> sd = zoneSide then False else allowed (Side zoneSide))
         else if di_boundary intent = Some AtGutter \<and> layoutSplitZone z
         then (case (case lay_tree L of Some n \<Rightarrow> layoutNodeAtPath (di_splitPath intent) n | None \<Rightarrow> None) of
                 Some n \<Rightarrow> \<not> layoutNodeContainsSidePane n L | None \<Rightarrow> True)
              \<and> allowed Generic
         else if t = [] then False
         else if \<not> paneRoleAllowsItemTransfer e x sourceSlot (Some t) L None None False allowCandidate then False
         else if \<not> dropIntentCapacityAllowsSession ax x intent sourceSlot L then False
         else if slotIsSidePane t L
         then z = ZMiddle \<or> (z \<in> {ZTop, ZBottom} \<and> dropIntentHasRoomForItem ax x intent L)
         else dropIntentHasRoomForItem ax x intent L)"

definition dropSessionWithIntent ::
  "act_env \<Rightarrow> item option \<Rightarrow> item \<Rightarrow> drop_intent \<Rightarrow> slot option \<Rightarrow> layout_slots \<Rightarrow> outcome" where
  "dropSessionWithIntent ax focused x intent sourceSlot L =
     (if \<not> dropIntentAllowsSession ax x intent sourceSlot False L then None
      else if di_boundary intent = Some AtGutter
      then splitSessionAtGutter ax focused x (di_splitPath intent) (di_zone intent) sourceSlot None L
      else if di_boundary intent = Some AtRoot
      then splitSessionAtLayoutBoundary ax focused x (di_zone intent) sourceSlot None L
      else if di_targetSlot intent = [] \<or> di_zone intent = ZMiddle
      then moveSessionToSlot ax x (if di_targetSlot intent = [] then slotForNewSession focused L else di_targetSlot intent)
             sourceSlot 0 False L
      else splitLayoutItemAtSlot ax x (di_targetSlot intent) (di_zone intent) sourceSlot None False False L)"

section \<open>Traversal\<close>

definition layoutPaneTabTraversalPositions :: "layout_slots \<Rightarrow> (slot \<times> item) list" where
  "layoutPaneTabTraversalPositions L =
     concat (map (\<lambda>s. map (Pair s) (paneTabs s L)) (treeLeafSlots (lay_tree L)))"

text \<open>A rendered group: its slot, its rectangle and the tabs found in it, in document order.\<close>

record rendered_group =
  rg_slot :: slot
  rg_rect :: rect
  rg_tabs :: "item list"

definition visible_groups :: "layout_slots \<Rightarrow> rendered_group list \<Rightarrow> rendered_group list" where
  "visible_groups L groups =
     foldl (\<lambda>acc g. if rg_slot g \<notin> set (layoutSlotKeys L) \<or> rg_slot g \<in> set (map rg_slot acc)
                      \<or> (re_width (rg_rect g) \<le> 0 \<and> re_height (rg_rect g) \<le> 0)
                    then acc else acc @ [g]) [] groups"

definition append_position :: "layout_slots \<Rightarrow> (slot \<times> item) list \<Rightarrow> slot \<times> item \<Rightarrow> (slot \<times> item) list" where
  "append_position L acc = (\<lambda>(s, x).
     if x = [] \<or> x \<in> set (map snd acc) \<or> x \<notin> set (paneTabs s L) then acc else acc @ [(s, x)])"

definition renderedPaneTabTraversalPositions :: "layout_slots \<Rightarrow> rendered_group list \<Rightarrow> (slot \<times> item) list" where
  "renderedPaneTabTraversalPositions L groups =
     (let records = sort_key (\<lambda>g. re_left (rg_rect g)) (sort_key (\<lambda>g. re_top (rg_rect g)) (visible_groups L groups)) in
      if records = [] then []
      else
        foldl (append_position L) []
          (concat (map (\<lambda>g. map (Pair (rg_slot g))
              (let ts = filter (\<lambda>x. x \<noteq> []) (rg_tabs g) in if ts \<noteq> [] then ts else paneTabs (rg_slot g) L)) records)
           @ layoutPaneTabTraversalPositions L))"

definition paneTabTraversalPositions :: "layout_slots \<Rightarrow> rendered_group list \<Rightarrow> (slot \<times> item) list" where
  "paneTabTraversalPositions L groups =
     (let rendered = renderedPaneTabTraversalPositions L groups
      in if rendered \<noteq> [] then rendered else layoutPaneTabTraversalPositions L)"

fun find_index :: "('a \<Rightarrow> bool) \<Rightarrow> 'a list \<Rightarrow> nat option" where
  "find_index P [] = None"
| "find_index P (x # xs) = (if P x then Some 0 else map_option Suc (find_index P xs))"

text \<open>\<open>adjacentPaneTabPosition\<close>; \<open>current\<close> is the item the caller names or shows.\<close>

definition adjacentPaneTabPosition ::
  "layout_slots \<Rightarrow> rendered_group list \<Rightarrow> bool \<Rightarrow> item option \<Rightarrow> slot option \<Rightarrow> (slot \<times> item) option" where
  "adjacentPaneTabPosition L groups backward current currentSlot =
     (let positions = paneTabTraversalPositions L groups;
          x = or_else current (first_or_none (activePaneItems L));
          s = or_else currentSlot (case x of Some y \<Rightarrow> slotForItem y L | None \<Rightarrow> None)
      in if length positions < 2 then None
         else (case (x, s) of
           (Some y, Some t) \<Rightarrow>
             (case find_index (\<lambda>p. p = (t, y)) positions of
                None \<Rightarrow> None
              | Some i \<Rightarrow>
                  if backward then (if i = 0 then None else Some (positions ! (i - 1)))
                  else if Suc i < length positions then Some (positions ! Suc i) else None)
         | _ \<Rightarrow> None))"

section \<open>The workspace\<close>

record workspace =
  ws_layout :: layout_slots
  ws_constrained :: bool
  ws_filled :: "(item \<times> layout_slots) option"
  ws_active :: "item list"

text \<open>\<open>applyLayoutSlots\<close>, without rendering, polling, focus and the cleanup of removed panels.\<close>

definition applyLayoutSlots :: "env \<Rightarrow> workspace \<Rightarrow> layout_slots \<Rightarrow> apply_options \<Rightarrow> workspace" where
  "applyLayoutSlots e w L opts =
     (let (L', constrained) = normalizeLayoutSlotsForViewport e (ws_constrained w) L
            (norm_defaults\<lparr>no_focusSession := ao_focus opts,
               no_preservePlaceholderSlots := ao_preservePlaceholders opts\<rparr>)
      in \<lparr>ws_layout = L', ws_constrained = constrained,
          ws_filled = (if ao_preserveFilled opts then ws_filled w else None),
          ws_active = sessionsFromSlots L'\<rparr>)"

definition run_action :: "env \<Rightarrow> outcome \<Rightarrow> workspace \<Rightarrow> workspace" where
  "run_action e r w = (case r of None \<Rightarrow> w | Some (L, opts) \<Rightarrow> applyLayoutSlots e w L opts)"

definition tabCanFillWorkspace :: "env \<Rightarrow> item \<Rightarrow> layout_slots \<Rightarrow> bool" where
  "tabCanFillWorkspace e x L =
     (isLayoutItem e x
      \<and> (case slotForItem x L of
           None \<Rightarrow> False
         | Some s \<Rightarrow> \<not> slotIsSidePane s L \<and> 1 < length (treeLeafSlots (lay_tree L)) \<and> \<not> paneIsPlaceholder s L))"

definition tabWorkspaceIsFilled :: "item \<Rightarrow> workspace \<Rightarrow> bool" where
  "tabWorkspaceIsFilled x w = (case ws_filled w of Some (y, saved) \<Rightarrow> y = x | None \<Rightarrow> False)"

definition fill_options :: "item \<Rightarrow> apply_options" where
  "fill_options x = \<lparr>ao_focus = Some x, ao_preservePlaceholders = True, ao_preserveFilled = True\<rparr>"

text \<open>A clone keeps the whole slot object.\<close>

definition toggleTabWorkspaceFill :: "env \<Rightarrow> item \<Rightarrow> workspace \<Rightarrow> workspace \<times> bool" where
  "toggleTabWorkspaceFill e x w =
     (if \<not> isLayoutItem e x then (w, False)
      else (case ws_filled w of
        Some (y, saved) \<Rightarrow>
          if y = x then (applyLayoutSlots e (w\<lparr>ws_filled := None\<rparr>) saved (fill_options x), True)
          else (case (tabCanFillWorkspace e x (ws_layout w), slotForItem x (ws_layout w)) of
            (True, Some s) \<Rightarrow>
              (applyLayoutSlots e (w\<lparr>ws_filled := Some (x, ws_layout w)\<rparr>)
                 (layoutWithPreservedSidePanes e
                   (setTree (Some (Leaf s)) (setPane s (paneStateForLayoutSlot e s (ws_layout w)) emptyLayoutSlots))
                   (ws_layout w)) (fill_options x), True)
          | _ \<Rightarrow> (w, False))
      | None \<Rightarrow>
          (case (tabCanFillWorkspace e x (ws_layout w), slotForItem x (ws_layout w)) of
            (True, Some s) \<Rightarrow>
              (applyLayoutSlots e (w\<lparr>ws_filled := Some (x, ws_layout w)\<rparr>)
                 (layoutWithPreservedSidePanes e
                   (setTree (Some (Leaf s)) (setPane s (paneStateForLayoutSlot e s (ws_layout w)) emptyLayoutSlots))
                   (ws_layout w)) (fill_options x), True)
          | _ \<Rightarrow> (w, False))))"

text \<open>\<open>setTabPinned\<close>: the new pinned items are part of the environment the layout is ordered by.\<close>

definition setTabPinned :: "env \<Rightarrow> string \<Rightarrow> bool \<Rightarrow> workspace \<Rightarrow> env \<times> workspace \<times> bool" where
  "setTabPinned e v pinned w =
     (case resolveLayoutItem e v of
        None \<Rightarrow> (e, w, False)
      | Some x \<Rightarrow>
          if \<not> isPinnableTab e x then (e, w, False)
          else
            let kept = filter (\<lambda>t. t \<noteq> x) (pinnedTabItems e);
                e' = e\<lparr>pinnedTabItems := normalizePinnedTabItems e (if pinned then kept @ [x] else kept)\<rparr>;
                next = fold (\<lambda>s L. setPane s (paneStateWithTabsForSlot e' s (paneTabs s L) (activeItemForSide s L) L) L)
                  (layoutSlotKeys (ws_layout w)) (ws_layout w)
            in (e', applyLayoutSlots e' w next (apply_focus (Some x)), True))"

end
