(* ===== verification/Layout_Action_Lemmas.thy ===== *)
theory Layout_Action_Lemmas
  imports Layout_Workspace Layout_Invariants
begin

text \<open>
  Lemmas about the layout actions: the tab cap, a layout without an item, and what moving,
  swapping and splitting do to the tabs of each pane.
\<close>

section \<open>The tab cap\<close>

lemma set_appendUnique [simp]: "set (appendUniqueItems e ts xs) = set ts \<union> {x \<in> set xs. isLayoutItem e x}"
  by (auto simp: appendUniqueItems_def)

lemma distinct_appendUnique [simp]: "distinct (appendUniqueItems e ts xs) \<longleftrightarrow> distinct ts"
  by (simp add: appendUniqueItems_def)

text \<open>The first \<open>k\<close> of a list sorted by a key come before the others.\<close>

lemma take_sorted_before:
  assumes "x \<in> set (take k (sort_key f xs))" "y \<in> set xs" "y \<notin> set (take k (sort_key f xs))"
  shows "f x \<le> f y"
proof -
  let ?s = "sort_key f xs"
  have "y \<in> set (drop k ?s)" using assms(2,3) by (metis UnE append_take_drop_id set_append set_sort)
  moreover have "sorted (map f (take k ?s @ drop k ?s))" by simp
  ultimately show ?thesis using assms(1) unfolding map_append sorted_append by simp
qed

lemma filter_remove_length:
  assumes "distinct xs" "distinct ys" "set ys \<subseteq> set xs"
  shows "length (filter (\<lambda>x. x \<notin> set ys) xs) = length xs - length ys"
    "mset (filter (\<lambda>x. x \<notin> set ys) xs) + mset ys = mset xs"
proof -
  have e: "mset (filter (\<lambda>x. x \<in> set ys) xs) = mset ys"
    using assms by (intro set_eq_iff_mset_eq_distinct [THEN iffD1]) auto
  have "mset (filter (\<lambda>x. x \<in> set ys) xs) + mset (filter (\<lambda>x. x \<notin> set ys) xs) = mset xs"
    by (simp add: multiset_partition [symmetric])
  then show m: "mset (filter (\<lambda>x. x \<notin> set ys) xs) + mset ys = mset xs" unfolding e by (simp only: add.commute)
  then have "length xs = length (filter (\<lambda>x. x \<notin> set ys) xs) + length ys" by (metis size_mset size_union)
  then show "length (filter (\<lambda>x. x \<notin> set ys) xs) = length xs - length ys" by simp
qed

definition cap_tabs :: "act_env \<Rightarrow> item list \<Rightarrow> item list \<Rightarrow> item list" where
  "cap_tabs ax base incoming = appendUniqueItems (ax_env ax) base incoming"

lemma capacity_ok_iff:
  "cp_ok (paneCapacityCheck ax base incoming keep) \<longleftrightarrow>
     length (cap_tabs ax base incoming) - maxTabsPerPane ax
       \<le> length (filter (tabIsEvictableForCap ax keep) (cap_tabs ax base incoming))"
  by (auto simp: paneCapacityCheck_def cap_tabs_def Let_def)

lemma capacity_final:
  assumes "cp_ok (paneCapacityCheck ax base incoming keep)"
  shows "cp_finalTabs (paneCapacityCheck ax base incoming keep)
      = filter (\<lambda>x. x \<notin> set (cp_evicted (paneCapacityCheck ax base incoming keep))) (cap_tabs ax base incoming)"
    and "cp_evicted (paneCapacityCheck ax base incoming keep)
      = take (length (cap_tabs ax base incoming) - maxTabsPerPane ax)
          (sort_key (ax_lastActivated ax) (filter (tabIsEvictableForCap ax keep) (cap_tabs ax base incoming)))"
  using assms by (auto simp: paneCapacityCheck_def cap_tabs_def Let_def min_def)

lemma capacity_result:
  assumes d: "distinct base" and ok: "cp_ok (paneCapacityCheck ax base incoming keep)"
  defines "c \<equiv> paneCapacityCheck ax base incoming keep"
  shows "length (cp_finalTabs c) \<le> maxTabsPerPane ax"
    and "mset (cp_finalTabs c) + mset (cp_evicted c) = mset (cap_tabs ax base incoming)"
    and "x \<in> set (cp_evicted c) \<Longrightarrow> tabIsEvictableForCap ax keep x"
    and "x \<in> set (cp_evicted c) \<Longrightarrow> y \<in> set (cp_finalTabs c) \<Longrightarrow> tabIsEvictableForCap ax keep y \<Longrightarrow>
      ax_lastActivated ax x \<le> ax_lastActivated ax y"
    and "distinct (cp_finalTabs c)"
proof -
  let ?tabs = "cap_tabs ax base incoming" and ?ev = "filter (tabIsEvictableForCap ax keep) (cap_tabs ax base incoming)"
  let ?k = "length ?tabs - maxTabsPerPane ax"
  note final = capacity_final(1) [OF ok, folded c_def] and evicted = capacity_final(2) [OF ok, folded c_def]
  have dt: "distinct ?tabs" using d by (simp add: cap_tabs_def)
  have de: "distinct (cp_evicted c)" using dt by (simp add: evicted)
  have sub: "set (cp_evicted c) \<subseteq> set ?ev" using set_take_subset [of ?k "sort_key (ax_lastActivated ax) ?ev"]
    by (simp add: evicted)
  then have sub': "set (cp_evicted c) \<subseteq> set ?tabs" by auto
  have len: "length (cp_evicted c) = ?k" using ok unfolding capacity_ok_iff by (simp add: evicted min_def)
  show "length (cp_finalTabs c) \<le> maxTabsPerPane ax"
    using filter_remove_length(1) [OF dt de sub'] len by (simp add: final)
  show "mset (cp_finalTabs c) + mset (cp_evicted c) = mset ?tabs"
    using filter_remove_length(2) [OF dt de sub'] by (simp add: final)
  show "distinct (cp_finalTabs c)" using dt by (simp add: final)
  show "tabIsEvictableForCap ax keep x" if "x \<in> set (cp_evicted c)" for x using that sub by auto
  show "ax_lastActivated ax x \<le> ax_lastActivated ax y"
    if "x \<in> set (cp_evicted c)" "y \<in> set (cp_finalTabs c)" "tabIsEvictableForCap ax keep y" for x y
    using that final by (intro take_sorted_before [of _ ?k _ ?ev]) (auto simp flip: evicted)
qed

section \<open>Layouts rebuilt pane by pane\<close>

lemma getPane_fold_option:
  "getPane (fold (\<lambda>s L. case h s of None \<Rightarrow> L | Some p \<Rightarrow> setPane s p L) ks L0) t
   = (if t \<in> set ks \<and> h t \<noteq> None then h t else getPane L0 t)"
  by (induction ks arbitrary: L0) (auto split: option.splits)

lemma tree_fold_option [simp]:
  "lay_tree (fold (\<lambda>s L. case h s of None \<Rightarrow> L | Some p \<Rightarrow> setPane s p L) ks L0) = lay_tree L0"
  by (induction ks arbitrary: L0) (auto split: option.splits)

definition kept_pane ::
  "env \<Rightarrow> item \<Rightarrow> layout_slots \<Rightarrow> slot option \<Rightarrow> bool \<Rightarrow> bool \<Rightarrow> slot \<Rightarrow> pane_state option" where
  "kept_pane e x L pe pr pp s =
     (if paneIsPlaceholder s L then (if pp then Some (emptyPlaceholderPaneState Generic False) else None)
      else Some (withoutItem_pane e x L pe pr s))"

lemma without_eq:
  "layoutWithoutItemFromSlots e x L pe pr pp =
     fold (\<lambda>s n. case kept_pane e x L pe pr pp s of None \<Rightarrow> n | Some p \<Rightarrow> setPane s p n)
       (layoutSlotKeys L) (setTree (lay_tree L) emptyLayoutSlots)"
  unfolding layoutWithoutItemFromSlots_def kept_pane_def by (rule fold_cong) auto

lemma without_tree [simp]: "lay_tree (layoutWithoutItemFromSlots e x L pe pr pp) = lay_tree L"
  by (simp add: without_eq)

lemma without_getPane:
  "getPane (layoutWithoutItemFromSlots e x L pe pr pp) s
   = (if s \<in> set (layoutSlotKeys L) then kept_pane e x L pe pr pp s else None)"
  by (auto simp: without_eq getPane_fold_option)

text \<open>Every pane's tabs are layout items, pinned first, without repetition.\<close>

definition layout_ordered :: "env \<Rightarrow> layout_slots \<Rightarrow> bool" where
  "layout_ordered e L \<longleftrightarrow> (\<forall>s \<in> set (layoutSlotKeys L). paneTabs s L = orderPaneTabs e (paneTabs s L))"

lemma orderedD:
  assumes "layout_ordered e L" "s \<in> set (layoutSlotKeys L)"
  shows "distinct (paneTabs s L)" "list_all (isLayoutItem e) (paneTabs s L)"
    "paneTabs s L = filter (tabIsPinned e) (paneTabs s L) @ filter (\<lambda>x. \<not> tabIsPinned e x) (paneTabs s L)"
proof -
  have o: "paneTabs s L = orderPaneTabs e (paneTabs s L)" using assms by (simp add: layout_ordered_def)
  show d: "distinct (paneTabs s L)" by (subst o) simp
  have "set (paneTabs s L) = {x \<in> set (paneTabs s L). isLayoutItem e x}" using o set_orderPaneTabs by metis
  then show l: "list_all (isLayoutItem e) (paneTabs s L)" by (auto simp: list_all_iff)
  from orderPaneTabs_sorted [OF d l] o
  show "paneTabs s L = filter (tabIsPinned e) (paneTabs s L) @ filter (\<lambda>x. \<not> tabIsPinned e x) (paneTabs s L)" by simp
qed

lemma order_filter:
  assumes "distinct ts" "list_all (isLayoutItem e) ts" "ts = filter (tabIsPinned e) ts @ filter (\<lambda>x. \<not> tabIsPinned e x) ts"
  shows "orderPaneTabs e (filter P ts) = filter P ts"
proof -
  have "orderPaneTabs e (filter P ts) = filter (tabIsPinned e) (filter P ts) @ filter (\<lambda>x. \<not> tabIsPinned e x) (filter P ts)"
    using assms(1,2) by (intro orderPaneTabs_sorted) (auto simp: list_all_iff)
  also have "\<dots> = filter P (filter (tabIsPinned e) ts @ filter (\<lambda>x. \<not> tabIsPinned e x) ts)"
    by (simp add: filter_filter conj_commute)
  also have "\<dots> = filter P ts" using assms(3) by simp
  finally show ?thesis .
qed

lemma without_tabs:
  assumes "layout_ordered e L"
  shows "paneTabs s (layoutWithoutItemFromSlots e x L pe pr pp)
    = (if s \<in> set (layoutSlotKeys L) then filter (\<lambda>y. y \<noteq> x) (paneTabs s L) else [])"
proof (cases "s \<in> set (layoutSlotKeys L)")
  case True
  have "orderPaneTabs e (filter (\<lambda>y. y \<noteq> x) (paneTabs s L)) = filter (\<lambda>y. y \<noteq> x) (paneTabs s L)"
    using orderedD [OF assms True] by (intro order_filter)
  with True show ?thesis
    by (auto simp: paneTabs_def [of s "layoutWithoutItemFromSlots e x L pe pr pp"] without_getPane kept_pane_def
        withoutItem_pane_def Let_def placeholder_no_tabs)
qed (simp add: paneTabs_def without_getPane)


section \<open>Moving a tab\<close>

lemma set_insert_at [simp]: "set (insert_at i x xs) = insert x (set xs)"
proof -
  have "set (take k xs) \<union> set (drop k xs) = set xs" for k by (metis append_take_drop_id set_append)
  then show ?thesis by (simp add: insert_at_def Let_def)
qed

lemma distinct_insert_at [simp]: "x \<notin> set xs \<Longrightarrow> distinct (insert_at i x xs) \<longleftrightarrow> distinct xs"
proof -
  assume x: "x \<notin> set xs"
  let ?k = "min i (length xs)"
  have "mset (take ?k xs @ x # drop ?k xs) = add_mset x (mset xs)"
    by (metis append_take_drop_id mset_append mset.simps(2) union_mset_add_mset_right)
  then have "mset (insert_at i x xs) = mset (x # xs)" by (simp add: insert_at_def Let_def)
  then have "distinct (insert_at i x xs) = distinct (x # xs)" by (rule mset_eq_imp_distinct_iff)
  with x show ?thesis by simp
qed

lemma with_target_id: "lay_tree L \<noteq> None \<Longrightarrow> getPane (with_target s L) t =
    (if getPane L t = None \<and> t = s then Some (emptyPaneState Generic) else getPane L t)"
  "lay_tree L \<noteq> None \<Longrightarrow> lay_tree (with_target s L) = lay_tree L"
  by (auto simp: with_target_def Let_def)

lemma with_target_tabs: "lay_tree L \<noteq> None \<Longrightarrow> paneTabs t (with_target s L) = paneTabs t L"
  by (auto simp: paneTabs_def with_target_id split: option.split)

text \<open>The result of a move, and the tabs it starts from.\<close>

definition move_base :: "act_env \<Rightarrow> item \<Rightarrow> slot \<Rightarrow> bool \<Rightarrow> layout_slots \<Rightarrow> layout_slots" where
  "move_base ax x t p L = with_target t (layoutWithoutItemFromSlots (ax_env ax) x L None p True)"

definition move_capacity :: "act_env \<Rightarrow> item \<Rightarrow> slot \<Rightarrow> nat \<Rightarrow> bool \<Rightarrow> layout_slots \<Rightarrow> capacity" where
  "move_capacity ax x t i p L =
     paneCapacityCheck ax (insert_at i x (paneTabs t (move_base ax x t p L))) [] (capKeepItemSet (ax_env ax) [x] [])"

lemma move_cases:
  "moveSessionToSlot ax x t src i p L =
     (if \<not> isLayoutItem (ax_env ax) x \<or> t = []
         \<or> \<not> paneRoleAllowsItemTransfer (ax_env ax) x (or_else src (slotForItem x L)) (Some t) L None None
              (sidePaneConstrainedMode (ax_env ax)) False
         \<or> \<not> cp_ok (move_capacity ax x t i p L)
      then None
      else Some (setPane t (paneStateWithTabsForSlot (ax_env ax) t (cp_finalTabs (move_capacity ax x t i p L)) (Some x)
                  (move_base ax x t p L)) (move_base ax x t p L),
             \<lparr>ao_focus = Some x, ao_preservePlaceholders = p, ao_preserveFilled = False\<rparr>))"
  by (simp add: moveSessionToSlot_def move_base_def move_capacity_def paneCapacityCheckForInsert_def Let_def)

lemma move_base_tabs:
  assumes "layout_ordered (ax_env ax) L" "lay_tree L = Some n"
  shows "paneTabs s (move_base ax x t p L) = (if s \<in> set (layoutLeafSlots n) then filter (\<lambda>y. y \<noteq> x) (paneTabs s L) else [])"
    "lay_tree (move_base ax x t p L) = Some n"
  using assms by (simp_all add: move_base_def with_target_tabs with_target_id without_tabs layoutSlotKeys_tree)

lemma capKeep_self: "isLayoutItem e x \<Longrightarrow> capKeepItemSet e [x] [] = [x]"
  by (simp add: capKeepItemSet_def)

lemma activeItemForSide_withTabs:
  "x \<in> set ts \<Longrightarrow> isLayoutItem e x \<Longrightarrow> activeItemForSide t (setPane t (paneStateWithTabs e ts (Some x) r) L) = Some x"
  by (simp add: activeItemForSide_def paneIsPlaceholder_def paneTabs_def Let_def) (simp add: paneStateWithTabs_def Let_def)

lemma move_result:
  assumes ord: "layout_ordered (ax_env ax) L" and n: "lay_tree L = Some n" and t: "t \<in> set (layoutLeafSlots n)"
    and m: "moveSessionToSlot ax x t src i p L = Some (L', opts)"
  shows "lay_tree L' = Some n"
    and "x \<in> set (paneTabs t L')" and "activeItemForSide t L' = Some x"
    and "s \<noteq> t \<Longrightarrow> s \<in> set (layoutLeafSlots n) \<Longrightarrow> paneTabs s L' = filter (\<lambda>y. y \<noteq> x) (paneTabs s L)"
    and "length (paneTabs t L') \<le> maxTabsPerPane ax"
    and "set (paneTabs t L') \<subseteq> insert x (set (paneTabs t L))"
    and "y \<in> set (paneTabs t L) \<Longrightarrow> y \<notin> set (paneTabs t L') \<Longrightarrow> tabIsEvictableForCap ax [x] y"
proof -
  let ?e = "ax_env ax" and ?b = "move_base ax x t p L" and ?c = "move_capacity ax x t i p L"
  have li: "isLayoutItem ?e x" and ok: "cp_ok ?c"
    and L': "L' = setPane t (paneStateWithTabsForSlot ?e t (cp_finalTabs ?c) (Some x) ?b) ?b"
    using m by (auto simp: move_cases split: if_splits)
  note base = move_base_tabs [OF ord n]
  have tk: "t \<in> set (layoutSlotKeys L)" using n t by (simp add: layoutSlotKeys_tree)
  have bt: "paneTabs t ?b = filter (\<lambda>y. y \<noteq> x) (paneTabs t L)" using base t by simp
  have d: "distinct (insert_at i x (paneTabs t ?b))" using orderedD(1) [OF ord tk] by (simp add: bt)
  have keep: "?c = paneCapacityCheck ax (insert_at i x (paneTabs t ?b)) [] [x]"
    using li by (simp add: move_capacity_def capKeep_self)
  note res = capacity_result [OF d ok [unfolded keep], folded keep]
  have tabs: "set (cap_tabs ax (insert_at i x (paneTabs t ?b)) []) = insert x (set (paneTabs t L))"
    by (auto simp: cap_tabs_def bt)
  have eq: "set (cp_finalTabs ?c) \<union> set (cp_evicted ?c) = insert x (set (paneTabs t L))"
    using res(2) tabs by (metis set_mset_mset set_mset_union)
  have nx: "x \<notin> set (cp_evicted ?c)"
  proof
    assume "x \<in> set (cp_evicted ?c)"
    from res(3) [OF this] show False by (simp add: tabIsEvictableForCap_def)
  qed
  then have xf: "x \<in> set (cp_finalTabs ?c)" using eq by auto
  have lall: "list_all (isLayoutItem ?e) (paneTabs t L)" using orderedD(2) [OF ord tk] .
  have items: "\<forall>y \<in> set (cp_finalTabs ?c). isLayoutItem ?e y"
    using eq li lall by (auto simp: list_all_iff)
  have pt: "paneTabs t L' = orderPaneTabs ?e (cp_finalTabs ?c)" by (simp add: L' paneStateWithTabsForSlot_def)
  have st: "set (paneTabs t L') = set (cp_finalTabs ?c)" using items by (auto simp: pt)
  show "lay_tree L' = Some n" using base(2) by (simp add: L')
  show "x \<in> set (paneTabs t L')" using xf st by simp
  show "activeItemForSide t L' = Some x"
    unfolding L' paneStateWithTabsForSlot_def using xf li by (rule activeItemForSide_withTabs)
  show "paneTabs s L' = filter (\<lambda>y. y \<noteq> x) (paneTabs s L)" if "s \<noteq> t" "s \<in> set (layoutLeafSlots n)"
    using that base(1) by (simp add: L')
  have "length (paneTabs t L') = length (cp_finalTabs ?c)"
    using st res(5) distinct_card [of "paneTabs t L'"] distinct_card [of "cp_finalTabs ?c"] by (simp add: pt)
  with res(1) show "length (paneTabs t L') \<le> maxTabsPerPane ax" by simp
  show "set (paneTabs t L') \<subseteq> insert x (set (paneTabs t L))" using st eq by auto
  show "tabIsEvictableForCap ax [x] y" if "y \<in> set (paneTabs t L)" "y \<notin> set (paneTabs t L')"
    using that st eq by (intro res(3)) auto
qed

text \<open>The overlay's capacity check counts the same tabs as the move.\<close>

lemma capacity_ok_cong:
  assumes "distinct base" "distinct base'" "set (cap_tabs ax base inc) = set (cap_tabs ax base' inc')"
  shows "cp_ok (paneCapacityCheck ax base inc keep) = cp_ok (paneCapacityCheck ax base' inc' keep)"
proof -
  have d: "distinct (cap_tabs ax base inc)" "distinct (cap_tabs ax base' inc')" using assms by (simp_all add: cap_tabs_def)
  then have "mset (cap_tabs ax base inc) = mset (cap_tabs ax base' inc')"
    using assms(3) set_eq_iff_mset_eq_distinct by blast
  then have "length (cap_tabs ax base inc) = length (cap_tabs ax base' inc')"
    "length (filter P (cap_tabs ax base inc)) = length (filter P (cap_tabs ax base' inc'))" for P
    by (metis size_mset, metis mset_filter size_mset)
  then show ?thesis by (simp add: capacity_ok_iff)
qed

lemma drop_move_capacity:
  assumes ord: "layout_ordered (ax_env ax) L" and n: "lay_tree L = Some n" and t: "t \<in> set (layoutLeafSlots n)"
    and x: "isLayoutItem (ax_env ax) x"
  shows "cp_ok (paneCapacityCheckForInsert ax t [x] [x] L None []) = cp_ok (move_capacity ax x t i p L)"
proof -
  have tk: "t \<in> set (layoutSlotKeys L)" using n t by (simp add: layoutSlotKeys_tree)
  have d: "distinct (paneTabs t L)" using orderedD(1) [OF ord tk] .
  show ?thesis
    unfolding paneCapacityCheckForInsert_def move_capacity_def option.case
    by (rule capacity_ok_cong) (use d x t in \<open>auto simp: cap_tabs_def move_base_tabs [OF ord n]\<close>)
qed


lemma move_keeps_placeholder:
  assumes "lay_tree L = Some n" "moveSessionToSlot ax x t src i p L = Some (L', opts)"
    and "s \<in> set (layoutLeafSlots n)" "s \<noteq> t" "paneIsPlaceholder s L"
  shows "paneIsPlaceholder s L'"
  using assms
  by (auto simp: move_cases move_base_def paneIsPlaceholder_def [of s "setPane _ _ _"] with_target_id without_getPane
      layoutSlotKeys_tree kept_pane_def emptyPlaceholderPaneState_def split: if_splits option.splits)


section \<open>Drops\<close>

lemma without_side:
  "slotIsSidePane s (layoutWithoutItemFromSlots e x L pe pr pp) \<Longrightarrow> slotIsSidePane s L"
  by (auto simp: slotIsSidePane_def paneRoleForSlot_def [of s "layoutWithoutItemFromSlots e x L pe pr pp"] without_getPane
      kept_pane_def withoutItem_pane_def Let_def emptyPlaceholderPaneState_def paneStateWithTabs_def is_side_role_def split: if_splits)

lemma without_contains_side:
  "layoutNodeContainsSidePane n (layoutWithoutItemFromSlots e x L pe pr pp) \<Longrightarrow> layoutNodeContainsSidePane n L"
  by (auto simp: layoutNodeContainsSidePane_def list_ex_iff dest: without_side)

lemma transfer_mono:
  "paneRoleAllowsItemTransfer e x src t L sr tr False c \<Longrightarrow> paneRoleAllowsItemTransfer e x src t L sr tr b c"
  by (auto simp: paneRoleAllowsItemTransfer_def paneRoleAllowsItem_def Let_def split: option.splits if_splits)

text \<open>A pane with nothing else in it always has room for one tab.\<close>

lemma move_into_empty:
  assumes "layout_ordered (ax_env ax) L" "lay_tree L = Some n" "filter (\<lambda>y. y \<noteq> x) (paneTabs t L) = []"
  shows "cp_ok (move_capacity ax x t i p L)"
proof -
  have "paneTabs t (move_base ax x t p L) = []" using move_base_tabs(1) [OF assms(1,2)] assms(3) by simp
  moreover have "2 \<le> maxTabsPerPane ax" by (auto simp: maxTabsPerPane_def split: option.splits)
  ultimately show ?thesis by (simp add: move_capacity_def capacity_ok_iff cap_tabs_def insert_at_def appendUniqueItems_def)
qed

text \<open>
  The intents the pointer can make on a wide page: the border of the layout, a gutter between two parts of the tree,
  and the middle or a side of a pane.
\<close>

definition intent_fits :: "drop_intent \<Rightarrow> layout_node \<Rightarrow> bool" where
  "intent_fits intent n =
     (case di_boundary intent of
        Some AtRoot \<Rightarrow> layoutSplitZone (di_zone intent)
      | Some AtGutter \<Rightarrow> layoutSplitZone (di_zone intent)
          \<and> (case layoutNodeAtPath (di_splitPath intent) n of Some (Split d p a b) \<Rightarrow> True | _ \<Rightarrow> False)
      | None \<Rightarrow> di_targetSlot intent \<in> set (layoutLeafSlots n) \<and> di_targetSlot intent \<noteq> [])"

text \<open>A side pane tab dropped on the opposite border of the layout, where a side pane is already.\<close>

definition docks_in_side_pane :: "item \<Rightarrow> drop_intent \<Rightarrow> layout_slots \<Rightarrow> bool" where
  "docks_in_side_pane x intent L =
     (di_boundary intent = Some AtRoot \<and> (case slotForItem x L of Some s \<Rightarrow> slotIsSidePane s L | None \<Rightarrow> False)
      \<and> sidePaneSlot (if di_zone intent = ZLeft then SideLeft else SideRight) L \<noteq> None)"

lemma or_else_same [simp]: "or_else a a = a"
  by (cases a) simp_all

lemma allows_item: "dropIntentAllowsSession ax x intent src False L \<Longrightarrow> isLayoutItem (ax_env ax) x"
  by (rule ccontr) (simp add: dropIntentAllowsSession_def dropItemCanBeDragged_def Let_def)

lemma root_drop_done:
  assumes n: "lay_tree L = Some n" and src: "or_else src (slotForItem x L) = slotForItem x L"
    and b: "di_boundary intent = Some AtRoot" "intent_fits intent n" "\<not> docks_in_side_pane x intent L"
    and wide: "\<not> narrowSingleColumnMode (ax_env ax)" and ok: "dropIntentAllowsSession ax x intent src False L"
  shows "splitSessionAtLayoutBoundary ax focused x (di_zone intent) src None L \<noteq> None"
proof -
  have z: "layoutSplitZone (di_zone intent)" using b(1,2) by (simp add: intent_fits_def)
  note x = allows_item [OF ok]
  let ?role = "case slotForItem x L of Some s \<Rightarrow> paneRoleForSlot s L | None \<Rightarrow> Generic"
  have ok': "case ?role of Generic \<Rightarrow> paneRoleAllowsItemTransfer (ax_env ax) x (slotForItem x L) None L None (Some Generic) False False
      | Side sd \<Rightarrow> di_zone intent \<in> {ZLeft, ZRight} \<and> sd \<noteq> (if di_zone intent = ZLeft then SideLeft else SideRight)
          \<and> paneRoleAllowsItemTransfer (ax_env ax) x (slotForItem x L) None L None
              (Some (Side (if di_zone intent = ZLeft then SideLeft else SideRight))) False False"
    using ok x wide z b(1) src by (cases ?role) (auto simp: dropIntentAllowsSession_def dropItemCanBeDragged_def Let_def split: if_splits)
  show ?thesis
  proof (cases ?role)
    case Generic
    then show ?thesis using ok' x z n src by (simp add: splitSessionAtLayoutBoundary_def Let_def)
  next
    case (Side sd)
    then have "sidePaneSlot (if di_zone intent = ZLeft then SideLeft else SideRight) L = None"
      using b(1,3) by (auto simp: docks_in_side_pane_def slotIsSidePane_def is_side_role_def split: option.splits)
    then show ?thesis using ok' x z n src Side by (simp add: splitSessionAtLayoutBoundary_def Let_def)
  qed
qed

lemma gutter_drop_done:
  assumes n: "lay_tree L = Some n" and src: "or_else src (slotForItem x L) = slotForItem x L"
    and b: "di_boundary intent = Some AtGutter" "intent_fits intent n"
    and wide: "\<not> narrowSingleColumnMode (ax_env ax)" and ok: "dropIntentAllowsSession ax x intent src False L"
  shows "splitSessionAtGutter ax focused x (di_splitPath intent) (di_zone intent) src None L \<noteq> None"
proof -
  have z: "layoutSplitZone (di_zone intent)" using b by (simp add: intent_fits_def)
  note x = allows_item [OF ok]
  obtain d p a c where path: "layoutNodeAtPath (di_splitPath intent) n = Some (Split d p a c)"
    using b by (auto simp: intent_fits_def split: option.splits layout_node.splits)
  have free: "\<not> layoutNodeContainsSidePane (Split d p a c) L"
    and role: "paneRoleAllowsItemTransfer (ax_env ax) x (slotForItem x L) None L None (Some Generic) False False"
    using ok x wide z n src b(1) path by (simp_all add: dropIntentAllowsSession_def dropItemCanBeDragged_def Let_def)
  have "\<not> layoutNodeContainsSidePane (Split d p a c) (layoutWithoutItemFromSlots (ax_env ax) x L None False True)"
    using free without_contains_side by blast
  then show ?thesis using x z n src path role by (simp add: splitSessionAtGutter_def Let_def)
qed

lemma middle_drop_done:
  assumes ord: "layout_ordered (ax_env ax) L" and n: "lay_tree L = Some n" and src: "or_else src (slotForItem x L) = slotForItem x L"
    and b: "di_boundary intent = None" "intent_fits intent n" "di_zone intent = ZMiddle" "slotForItem x L \<noteq> Some (di_targetSlot intent)"
    and wide: "\<not> narrowSingleColumnMode (ax_env ax)" and ok: "dropIntentAllowsSession ax x intent src False L"
  shows "moveSessionToSlot ax x (di_targetSlot intent) src 0 False L \<noteq> None"
proof -
  let ?t = "di_targetSlot intent"
  have t: "?t \<in> set (layoutLeafSlots n)" "?t \<noteq> []" using b by (simp_all add: intent_fits_def)
  note x = allows_item [OF ok]
  have role: "paneRoleAllowsItemTransfer (ax_env ax) x (slotForItem x L) (Some ?t) L None None False False"
    and cap: "cp_ok (paneCapacityCheckForInsert ax ?t [x] [x] L None [])"
    using ok x wide src b t(2)
    by (auto simp: dropIntentAllowsSession_def dropItemCanBeDragged_def dropIntentCapacityAllowsSession_def dropIntentCapacityCheckForSession_def
        Let_def split: if_splits)
  have "cp_ok (move_capacity ax x ?t 0 False L)" using drop_move_capacity [OF ord n t(1) x] cap by simp
  then show ?thesis using x role t(2) src by (simp add: move_cases transfer_mono)
qed

lemma side_drop_done:
  assumes ord: "layout_ordered (ax_env ax) L" and n: "lay_tree L = Some n" and src: "or_else src (slotForItem x L) = slotForItem x L"
    and b: "di_boundary intent = None" "intent_fits intent n" "di_zone intent \<noteq> ZMiddle"
    and wide: "\<not> narrowSingleColumnMode (ax_env ax)" and ok: "dropIntentAllowsSession ax x intent src False L"
  shows "splitLayoutItemAtSlot ax x (di_targetSlot intent) (di_zone intent) src None False False L \<noteq> None"
proof -
  let ?t = "di_targetSlot intent"
  have t: "?t \<in> set (layoutLeafSlots n)" "?t \<noteq> []" using b by (simp_all add: intent_fits_def)
  have z: "layoutSplitZone (di_zone intent)" using b(3) by (cases "di_zone intent") (simp_all add: layoutSplitZone_def)
  note x = allows_item [OF ok]
  have role: "paneRoleAllowsItemTransfer (ax_env ax) x (slotForItem x L) (Some ?t) L None None False False"
    and side: "slotIsSidePane ?t L \<longrightarrow> di_zone intent \<in> {ZTop, ZBottom}"
    using ok x wide src b t(2) by (auto simp: dropIntentAllowsSession_def dropItemCanBeDragged_def Let_def split: if_splits)
  have live: "(if slotForItem x L = Some ?t then case slotForItem x L of Some s \<Rightarrow> s | None \<Rightarrow> ?t else ?t) = ?t" by simp
  have move: "moveSessionToSlot ax x ?t (slotForItem x L) 0 False L \<noteq> None"
    if "paneTabs ?t (layoutWithoutItemFromSlots (ax_env ax) x L pe False True) = []" for pe
  proof -
    have "filter (\<lambda>y. y \<noteq> x) (paneTabs ?t L) = []" using that t(1) n by (simp add: without_tabs [OF ord] layoutSlotKeys_tree)
    then show ?thesis using x role t(2) by (simp add: move_cases transfer_mono move_into_empty [OF ord n])
  qed
  have "is_side_role (paneRoleForSlot ?t L) \<longrightarrow> di_zone intent \<in> {ZTop, ZBottom}" using side by (simp add: slotIsSidePane_def)
  then show ?thesis
    using x role z t(2) move unfolding splitLayoutItemAtSlot_def Let_def src or_else_same live by simp
qed


section \<open>Swapping tabs\<close>

lemma filter_swap_items:
  assumes "P x = P y"
  shows "filter P (swap_items x y ts) = swap_items x y (filter P ts)"
  using assms by (induction ts) (auto simp: swap_items_def)

lemma swap_items_append: "swap_items x y (as @ bs) = swap_items x y as @ swap_items x y bs"
  by (simp add: swap_items_def)

lemma set_swap_items: "x \<in> set ts \<Longrightarrow> set (swap_items x y ts) = insert y (set ts - {x})"
  by (auto simp: swap_items_def)

lemma distinct_swap_items: "distinct ts \<Longrightarrow> y \<notin> set ts \<Longrightarrow> distinct (swap_items x y ts)"
  by (induction ts) (auto simp: swap_items_def)

lemma order_swap_items:
  assumes ord: "layout_ordered e L" "s \<in> set (layoutSlotKeys L)"
    and y: "y \<notin> set (paneTabs s L)" "isLayoutItem e y" and p: "\<not> tabIsPinned e x" "\<not> tabIsPinned e y"
  shows "orderPaneTabs e (swap_items x y (paneTabs s L)) = swap_items x y (paneTabs s L)"
proof -
  let ?ts = "paneTabs s L"
  note o = orderedD [OF ord]
  have "orderPaneTabs e (swap_items x y ?ts)
      = filter (tabIsPinned e) (swap_items x y ?ts) @ filter (\<lambda>t. \<not> tabIsPinned e t) (swap_items x y ?ts)"
    using o(1,2) y by (intro orderPaneTabs_sorted distinct_swap_items) (auto simp: swap_items_def list_all_iff)
  also have "\<dots> = swap_items x y (filter (tabIsPinned e) ?ts @ filter (\<lambda>t. \<not> tabIsPinned e t) ?ts)"
    using p by (simp add: filter_swap_items swap_items_append)
  also have "\<dots> = swap_items x y ?ts" using o(3) by simp
  finally show ?thesis .
qed

text \<open>What a swap needs: the capability gives a target with an unpinned active tab.\<close>

lemma touching_slots: "t \<in> set (layoutSlotsTouchingDirection ax L s z V) \<Longrightarrow> t \<in> set (layoutSlotKeys V) \<and> t \<noteq> s"
  by (auto simp: layoutSlotsTouchingDirection_def split: option.splits)

lemma swap_capability:
  assumes c: "ca_swap (tabDirectionalActionCapabilities ax x src L z)"
  defines "V \<equiv> layoutSlotsWithoutUnrenderedPlaceholders ax L"
  obtains s t y where "src = Some s" "ca_target (tabDirectionalActionCapabilities ax x src L z) = Some t" "t \<noteq> s"
    "t \<in> set (layoutSlotKeys V)" "activeItemForSide t V = Some y" "\<not> tabIsPinned (ax_env ax) y"
    "isLayoutItem (ax_env ax) x" "\<not> tabIsPinned (ax_env ax) x"
proof -
  obtain s where s: "src = Some s" using c by (cases src) (auto simp: tabDirectionalActionCapabilities_def no_capability_def)
  obtain r where r: "layoutSlotScreenRect ax L s = Some r"
    using c s by (cases "layoutSlotScreenRect ax L s") (auto simp: tabDirectionalActionCapabilities_def no_capability_def)
  obtain ts where ts: "layoutSlotsTouchingDirection ax L s z V = ts" by simp
  have ok: "isLayoutItem (ax_env ax) x" "\<not> tabIsPinned (ax_env ax) x"
    using c s r by (auto simp: tabDirectionalActionCapabilities_def Let_def no_capability_def split: if_splits)
  obtain t where t: "ts = [t]"
    using c s r ts by (auto simp: tabDirectionalActionCapabilities_def Let_def no_capability_def V_def split: if_splits list.splits)
  have "t \<in> set (layoutSlotKeys V)" "t \<noteq> s" using touching_slots [of t ax L s z V] ts t by auto
  moreover have "ca_target (tabDirectionalActionCapabilities ax x src L z) = Some t \<and>
      (\<exists>y. activeItemForSide t V = Some y \<and> \<not> tabIsPinned (ax_env ax) y)"
    using c s r ts t by (auto simp: tabDirectionalActionCapabilities_def Let_def no_capability_def V_def split: if_splits option.splits)
  ultimately show thesis using that s ok by blast
qed

text \<open>A pane copied for its slot shows the same active tab.\<close>

lemma copied_active:
  assumes g: "getPane M s = Some (paneStateForLayoutSlot e s L)" and o: "orderPaneTabs e (paneTabs s L) = paneTabs s L"
  shows "activeItemForSide s M = activeItemForSide s L" "paneTabs s M = paneTabs s L"
proof -
  show tabs: "paneTabs s M = paneTabs s L"
    using g o by (auto simp: paneTabs_def [of s M] paneStateForLayoutSlot_def placeholder_no_tabs)
  show "activeItemForSide s M = activeItemForSide s L"
  proof (cases "paneTabs s L = []")
    case True
    then show ?thesis using tabs activeItemForSide_defined by metis
  next
    case False
    then obtain a where a: "activeItemForSide s L = Some a" using activeItemForSide_defined by (cases "activeItemForSide s L") auto
    then have "a \<in> set (paneTabs s L)" by (rule activeItemForSide_mem)
    moreover have "\<not> paneIsPlaceholder s L" using False by (auto dest: placeholder_no_tabs)
    ultimately show ?thesis using g o a tabs False
      by (auto simp: activeItemForSide_def [of s M] paneIsPlaceholder_def [of s M] paneStateForLayoutSlot_def paneStateWithTabs_def Let_def)
  qed
qed

lemma active_setTree [simp]: "activeItemForSide s (setTree t L) = activeItemForSide s L"
  by (simp add: activeItemForSide_def paneTabs_def paneIsPlaceholder_def)

lemma visible_active:
  assumes ord: "layout_ordered (ax_env ax) L" and n: "lay_tree L = Some n"
    and a: "activeItemForSide t (layoutSlotsWithoutUnrenderedPlaceholders ax L) = Some y"
  shows "activeItemForSide t L = Some y \<and> t \<in> set (layoutLeafSlots n)"
proof -
  let ?e = "ax_env ax" and ?kept = "filter (\<lambda>s. \<not> unrendered ax L s) (layoutLeafSlots n)"
  define M where "M = setTree (layoutTreeWithoutSlots n {s \<in> set (layoutLeafSlots n). unrendered ax L s})
      (fold (\<lambda>s. setPane s (paneStateForLayoutSlot ?e s L)) ?kept emptyLayoutSlots)"
  have V: "layoutSlotsWithoutUnrenderedPlaceholders ax L = compactLayoutSlots ?e M True"
    using n by (simp add: layoutSlotsWithoutUnrenderedPlaceholders_def M_def Let_def)
  have none: "activeItemForSide t (emptyPlaceholderLayoutSlots s) = None" for s
    by (simp add: activeItemForSide_defined)
  have M: "getPane M s = (if s \<in> set ?kept then Some (paneStateForLayoutSlot ?e s L) else None)" for s
    by (simp add: M_def panes.look_fold_put)
  have o: "orderPaneTabs ?e (paneTabs s L) = paneTabs s L" if "s \<in> set ?kept" for s
    using that ord n by (simp add: layout_ordered_def layoutSlotKeys_tree)
  show ?thesis
  proof (cases "lay_tree M")
    case None
    have "\<exists>s. compactLayoutSlots ?e M True = emptyPlaceholderLayoutSlots s"
      using None by (auto simp: compactLayoutSlots_def compactLayoutNode_def Let_def)
    with a V none show ?thesis by auto
  next
    case (Some m)
    then have keys: "layoutSlotKeys M = layoutLeafSlots m" by (simp add: layoutSlotKeys_tree)
    have mk: "layoutLeafSlots m = ?kept"
      using Some leaves_layoutTreeWithoutSlots [of n "{s \<in> set (layoutLeafSlots n). unrendered ax L s}"]
      by (auto simp: M_def intro: filter_cong)
    show ?thesis
    proof (rule compact_cases [OF Some, of ?e True])
      fix i assume "compactLayoutSlots ?e M True = setTree (Some (ni_node i)) (copyPanes ?e M)"
      then have c: "activeItemForSide t (copyPanes ?e M) = Some y"
        using a V by simp
      show ?thesis
      proof (cases "t \<in> set ?kept")
        case True
        have 1: "activeItemForSide t M = activeItemForSide t L" "paneTabs t M = paneTabs t L"
          using copied_active [OF _ o [OF True], of M] M True by auto
        have "activeItemForSide t (copyPanes ?e M) = activeItemForSide t M"
          using copied_active(1) [of "copyPanes ?e M" t ?e M] True keys mk 1(2) o [OF True] by auto
        with 1 c True show ?thesis by simp
      next
        case False
        then have "t \<notin> set (layoutSlotKeys M)" using keys mk by simp
        then have "activeItemForSide t (copyPanes ?e M) = None"
          by (simp add: activeItemForSide_defined paneTabs_def)
        with c show ?thesis by simp
      qed
    next
      fix s assume "compactLayoutSlots ?e M True = emptyPlaceholderLayoutSlots s"
      with a V none show ?thesis by simp
    qed
  qed
qed

lemma swap_result:
  assumes ord: "layout_ordered (ax_env ax) L" and n: "lay_tree L = Some n"
    and s: "s \<in> set (layoutLeafSlots n)" "x \<in> set (paneTabs s L)"
    and once: "\<And>t y. t \<in> set (layoutLeafSlots n) \<Longrightarrow> t \<noteq> s \<Longrightarrow> y \<in> set (paneTabs t L) \<Longrightarrow> y \<notin> set (paneTabs s L)"
    and r: "swapLayoutItemDirectional ax x (Some s) z L = Some (L', opts)"
  obtains t y where "t \<noteq> s" "activeItemForSide t L = Some y" "paneTabs s L' = swap_items x y (paneTabs s L)"
    "paneTabs t L' = swap_items y x (paneTabs t L)" "\<And>u. u \<noteq> s \<Longrightarrow> u \<noteq> t \<Longrightarrow> getPane L' u = getPane L u"
    "activeItemForSide s L' = Some y" "activeItemForSide t L' = Some x" "lay_tree L' = lay_tree L"
    "t \<in> set (layoutLeafSlots n)"
proof -
  let ?e = "ax_env ax" and ?c = "tabDirectionalActionCapabilities ax x (Some s) L z"
  obtain t0 y0 where ca: "ca_target ?c = Some t0" "ca_swap ?c" "activeItemForSide t0 L = Some y0"
    and L': "L' = setPane t0 (paneStateWithTabsForSlot ?e t0 (swap_items y0 x (paneTabs t0 L)) (Some x)
        (setPane s (paneStateWithTabsForSlot ?e s (swap_items x y0 (paneTabs s L)) (Some y0) L) L))
      (setPane s (paneStateWithTabsForSlot ?e s (swap_items x y0 (paneTabs s L)) (Some y0) L) L)"
    using r by (auto simp: swapLayoutItemDirectional_def Let_def split: option.splits if_splits)
  obtain t y where t: "t \<noteq> s" "ca_target ?c = Some t"
    "activeItemForSide t (layoutSlotsWithoutUnrenderedPlaceholders ax L) = Some y" "\<not> tabIsPinned ?e y"
    "isLayoutItem ?e x" "\<not> tabIsPinned ?e x"
    using swap_capability [OF ca(2)] by (metis option.inject)
  have y: "t0 = t" "y0 = y" using ca(1,3) t(2) visible_active [OF ord n t(3)] by simp_all
  have ay: "activeItemForSide t L = Some y" using ca(3) y by simp
  then have yt: "y \<in> set (paneTabs t L)" by (rule activeItemForSide_mem)
  have tn: "t \<in> set (layoutLeafSlots n)" using visible_active [OF ord n t(3)] by simp
  have keys: "s \<in> set (layoutSlotKeys L)" "t \<in> set (layoutSlotKeys L)" using n s tn by (simp_all add: layoutSlotKeys_tree)
  have ly: "isLayoutItem ?e y" using orderedD(2) [OF ord keys(2)] yt by (simp add: list_all_iff)
  have ny: "y \<notin> set (paneTabs s L)" using once [OF tn t(1) yt] .
  have nx: "x \<notin> set (paneTabs t L)" using once [OF tn t(1), of x] s(2) by blast
  have os: "orderPaneTabs ?e (swap_items x y (paneTabs s L)) = swap_items x y (paneTabs s L)"
    using ord keys(1) ny ly t by (intro order_swap_items) auto
  have ot: "orderPaneTabs ?e (swap_items y x (paneTabs t L)) = swap_items y x (paneTabs t L)"
    using ord keys(2) nx t by (intro order_swap_items) auto
  have L2: "L' = setPane t (paneStateWithTabs ?e (swap_items y x (paneTabs t L)) (Some x) (paneRoleForSlot t L))
      (setPane s (paneStateWithTabs ?e (swap_items x y (paneTabs s L)) (Some y) (paneRoleForSlot s L)) L)"
    using L' y t(1) by (simp add: paneStateWithTabsForSlot_def paneRoleForSlot_def)
  have in_s: "y \<in> set (swap_items x y (paneTabs s L))" using s(2) by (simp add: set_swap_items)
  have in_t: "x \<in> set (swap_items y x (paneTabs t L))" using yt by (simp add: set_swap_items)
  have "activeItemForSide s L' = activeItemForSide s (setPane s (paneStateWithTabs ?e (swap_items x y (paneTabs s L)) (Some y) (paneRoleForSlot s L)) L)"
    using t(1) by (simp add: L2 activeItemForSide_def paneIsPlaceholder_def paneTabs_def)
  also have "\<dots> = Some y" using in_s ly by (rule activeItemForSide_withTabs)
  finally have as: "activeItemForSide s L' = Some y" .
  have at: "activeItemForSide t L' = Some x" unfolding L2 using in_t t(5) by (rule activeItemForSide_withTabs)
  have "paneTabs s L' = swap_items x y (paneTabs s L)" using t(1) os by (simp add: L2)
  moreover have "paneTabs t L' = swap_items y x (paneTabs t L)" using ot by (simp add: L2)
  moreover have "getPane L' u = getPane L u" if "u \<noteq> s" "u \<noteq> t" for u using that by (simp add: L2)
  moreover have "lay_tree L' = lay_tree L" by (simp add: L2)
  ultimately show thesis using that t(1) ay as at tn by blast
qed

section \<open>Geometry\<close>

lemma overlap_sym: "directionalRectOverlap a b c d = directionalRectOverlap c d a b"
  by (simp add: directionalRectOverlap_def min.commute max.commute)

lemma rect_touches_sym:
  assumes "z \<noteq> ZMiddle"
  shows "rect_touches z r q \<longleftrightarrow> rect_touches (oppositeZone z) q r"
  using assms
  by (cases z) (simp_all add: rect_touches_def Let_def overlap_sym [of "re_top r"] overlap_sym [of "re_left r"] abs_minus_commute)

section \<open>Traversal\<close>

lemma find_index_nth: "find_index P xs = Some i \<Longrightarrow> i < length xs \<and> P (xs ! i)"
  by (induction xs arbitrary: i) (auto split: if_splits)

lemma find_index_distinct: "distinct xs \<Longrightarrow> i < length xs \<Longrightarrow> find_index (\<lambda>p. p = xs ! i) xs = Some i"
proof (induction xs arbitrary: i)
  case (Cons a xs)
  show ?case
  proof (cases i)
    case (Suc j)
    with Cons have "a \<noteq> xs ! j" "find_index (\<lambda>p. p = xs ! j) xs = Some j" by auto
    with Suc show ?thesis by simp
  qed simp
qed simp

lemma append_positions_distinct:
  "distinct (map snd acc) \<Longrightarrow> distinct (map snd (foldl (append_position L) acc ps))"
  by (induction ps arbitrary: acc) (auto simp: append_position_def split: prod.split)

lemma rendered_distinct: "distinct (map snd (renderedPaneTabTraversalPositions L groups))"
  by (simp add: renderedPaneTabTraversalPositions_def Let_def append_positions_distinct)

end
