(* ===== verification/Layout_Action_Properties.thy ===== *)
theory Layout_Action_Properties
  imports Layout_Action_Lemmas Layout_Properties
begin

text \<open>
  The properties of the layout actions: the tab cap, removing, moving, swapping, filling the
  workspace, the geometry of directional moves and the keyboard traversal.
\<close>

section \<open>Sample settings\<close>

text \<open>A cap of two tabs per pane; \<open>1\<close> was activated before \<open>2\<close>; two panes side by side.\<close>

definition sample_act :: act_env where
  "sample_act = \<lparr>ax_env = sample_env, ax_maxTabsSetting = Some 2, ax_lastActivated = (\<lambda>x. if x = ''1'' then 1 else 2),
     ax_dirty = (\<lambda>x. False),
     ax_rect = (\<lambda>s. if s = ''left'' then Some \<lparr>re_left = 0, re_top = 0, re_width = 400, re_height = 600\<rparr>
       else if s = ''right'' then Some \<lparr>re_left = 404, re_top = 0, re_width = 400, re_height = 600\<rparr> else None),
     ax_panelRect = (\<lambda>s. None), ax_tabRect = (\<lambda>x. None), ax_minWidth = (\<lambda>x. 100), ax_minHeight = 100\<rparr>"

lemma sample_act_env [simp]: "ax_env sample_act = sample_env"
  by (simp add: sample_act_def)

text \<open>Two panes of terminals and files, tabs in order.\<close>

definition terminal_layout :: layout_slots where
  "terminal_layout =
     \<lparr>lay_tree = Some sample_tree,
      lay_panes = [(''left'', paneStateWithTabs sample_env [''1''] None Generic),
        (''right'', paneStateWithTabs sample_env [''2'', ''file:/a''] None Generic)]\<rparr>"

lemma terminal_layout_facts:
  "lay_tree terminal_layout = Some sample_tree" "layout_ordered sample_env terminal_layout"
  "''left'' \<in> set (layoutLeafSlots sample_tree)" "''right'' \<in> set (layoutLeafSlots sample_tree)"
  "paneTabs ''left'' terminal_layout = [''1'']" "paneTabs ''right'' terminal_layout = [''2'', ''file:/a'']"
  by code_simp+

section \<open>The tab cap\<close>

text \<open>
  C3. The tab cap. An insertion that is accepted leaves at most the cap of tabs, loses exactly the
  evicted ones, evicts no kept, pinned, file-explorer or unsaved tab, and evicts none that was
  activated after a tab it could have evicted instead. One that is refused had too few evictable
  tabs, and reports all the tabs with none evicted.
\<close>

theorem tab_cap:
  assumes "distinct base"
  shows "(let c = paneCapacityCheck ax base incoming keep; tabs = appendUniqueItems (ax_env ax) base incoming in
    if cp_ok c
    then length (cp_finalTabs c) \<le> maxTabsPerPane ax \<and> mset (cp_finalTabs c) + mset (cp_evicted c) = mset tabs
      \<and> list_all (\<lambda>x. x \<notin> set keep \<and> \<not> tabIsPinned (ax_env ax) x \<and> \<not> isFileExplorerItem x
          \<and> \<not> (isFileEditorItem x \<and> ax_dirty ax x)) (cp_evicted c)
      \<and> list_all (\<lambda>x. list_all (\<lambda>y. ax_lastActivated ax x \<le> ax_lastActivated ax y)
          (filter (tabIsEvictableForCap ax keep) (cp_finalTabs c))) (cp_evicted c)
    else length (filter (tabIsEvictableForCap ax keep) tabs) < length tabs - maxTabsPerPane ax
      \<and> cp_evicted c = [] \<and> cp_finalTabs c = tabs)"
proof (cases "cp_ok (paneCapacityCheck ax base incoming keep)")
  case True
  note r = capacity_result [OF assms True]
  have "list_all (\<lambda>x. x \<notin> set keep \<and> \<not> tabIsPinned (ax_env ax) x \<and> \<not> isFileExplorerItem x
          \<and> \<not> (isFileEditorItem x \<and> ax_dirty ax x)) (cp_evicted (paneCapacityCheck ax base incoming keep))"
    using r(3) unfolding list_all_iff tabIsEvictableForCap_def by metis
  with True r(1,2,4) show ?thesis by (simp add: Let_def cap_tabs_def list_all_iff)
next
  case False
  then have "length (filter (tabIsEvictableForCap ax keep) (appendUniqueItems (ax_env ax) base incoming))
      < length (appendUniqueItems (ax_env ax) base incoming) - maxTabsPerPane ax"
    by (simp add: capacity_ok_iff cap_tabs_def)
  moreover have "cp_evicted (paneCapacityCheck ax base incoming keep) = []"
    "cp_finalTabs (paneCapacityCheck ax base incoming keep) = appendUniqueItems (ax_env ax) base incoming"
    using False by (auto simp: paneCapacityCheck_def Let_def)
  ultimately show ?thesis using False by (simp add: Let_def)
qed

theorem tab_cap_witness:
  "cp_evicted (paneCapacityCheck sample_act [''1'', ''2''] [''file:/a''] []) = [''1'']
   \<and> length (cp_finalTabs (paneCapacityCheck sample_act [''1'', ''2''] [''file:/a''] [])) \<le> maxTabsPerPane sample_act"
proof -
  have d: "distinct [''1'', ''2'']" by simp
  have ok: "cp_ok (paneCapacityCheck sample_act [''1'', ''2''] [''file:/a''] [])" by code_simp
  have "cp_evicted (paneCapacityCheck sample_act [''1'', ''2''] [''file:/a''] []) = [''1'']" by code_simp
  with tab_cap [OF d, of sample_act "[''file:/a'']" "[]"] ok show ?thesis by (simp add: Let_def)
qed

section \<open>Removing and moving\<close>

text \<open>
  Closing a tab removes that tab and nothing else: it is refused for a tab that is not shown,
  and otherwise every pane keeps its other tabs in their order, on the same tree.
\<close>

theorem closing_removes_exactly_the_tab:
  assumes "layout_ordered e L" "lay_tree L = Some n"
  shows "(case removeSessionFromLayout e x focus L of
      None \<Rightarrow> x \<notin> set (paneItems L)
    | Some (L', opts) \<Rightarrow> x \<in> set (paneItems L) \<and> lay_tree L' = Some n
        \<and> list_all (\<lambda>s. paneTabs s L' = filter (\<lambda>y. y \<noteq> x) (paneTabs s L)) (layoutLeafSlots n))"
  using assms
  by (auto simp: removeSessionFromLayout_def itemInLayout_def Let_def without_tabs layoutSlotKeys_tree list_all_iff)

theorem closing_removes_exactly_the_tab_witness:
  "(case removeSessionFromLayout sample_env ''2'' None terminal_layout of
      None \<Rightarrow> False
    | Some (L', opts) \<Rightarrow> paneTabs ''right'' L' = [''file:/a''] \<and> paneTabs ''left'' L' = [''1''])"
proof -
  have "''2'' \<in> set (paneItems terminal_layout)" by code_simp
  with closing_removes_exactly_the_tab [OF terminal_layout_facts(2,1), of "''2''" None] show ?thesis
    by (auto simp: sample_tree_def terminal_layout_facts split: option.splits)
qed



text \<open>
  C10. The drop overlay promises exactly the drops that succeed, for every intent the pointer can make
  on a wide page: the border of the layout, a gutter, and the middle or a side of a pane. The
  conditions: the layout is ordered and has a tree, the drag comes from where the tab is, the
  intent names a pane or a split of that tree (a pane other than the tab's own for a drop in the
  middle), and the drop does not dock a tab of a side pane at a border where a side pane is
  already.
\<close>

theorem drop_overlay_promises_drop:
  assumes "layout_ordered (ax_env ax) L" "lay_tree L = Some n" "\<not> narrowSingleColumnMode (ax_env ax)"
    and "src = None \<or> src = slotForItem x L" "intent_fits intent n"
    and "di_boundary intent = None \<and> di_zone intent = ZMiddle \<longrightarrow> slotForItem x L \<noteq> Some (di_targetSlot intent)"
    and "\<not> docks_in_side_pane x intent L"
  shows "dropIntentAllowsSession ax x intent src False L \<longleftrightarrow> dropSessionWithIntent ax focused x intent src L \<noteq> None"
proof
  have src: "or_else src (slotForItem x L) = slotForItem x L" using assms(4) by auto
  assume ok: "dropIntentAllowsSession ax x intent src False L"
  consider (root) "di_boundary intent = Some AtRoot" | (gutter) "di_boundary intent = Some AtGutter"
    | (middle) "di_boundary intent = None" "di_zone intent = ZMiddle" | (side) "di_boundary intent = None" "di_zone intent \<noteq> ZMiddle"
    by (cases "di_boundary intent") (auto intro: boundary.exhaust)
  then show "dropSessionWithIntent ax focused x intent src L \<noteq> None"
  proof cases
    case root
    then show ?thesis using ok root_drop_done [OF assms(2) src root assms(5,7,3) ok] by (simp add: dropSessionWithIntent_def)
  next
    case gutter
    then show ?thesis using ok gutter_drop_done [OF assms(2) src gutter assms(5,3) ok] by (simp add: dropSessionWithIntent_def)
  next
    case middle
    moreover have "di_targetSlot intent \<noteq> []" using middle(1) assms(5) by (simp add: intent_fits_def)
    ultimately show ?thesis using ok middle_drop_done [OF assms(1,2) src middle(1) assms(5) middle(2) _ assms(3) ok] assms(6)
      by (simp add: dropSessionWithIntent_def)
  next
    case side
    moreover have "di_targetSlot intent \<noteq> []" using side(1) assms(5) by (simp add: intent_fits_def)
    ultimately show ?thesis using ok side_drop_done [OF assms(1,2) src side(1) assms(5) side(2) assms(3) ok]
      by (simp add: dropSessionWithIntent_def)
  qed
qed (simp add: dropSessionWithIntent_def split: if_splits)

definition left_intent :: drop_intent where
  "left_intent = \<lparr>di_targetSlot = ''left'', di_zone = ZMiddle, di_targetRect = None, di_boundary = None, di_splitPath = []\<rparr>"

definition below_intent :: drop_intent where
  "below_intent = \<lparr>di_targetSlot = ''right'', di_zone = ZBottom, di_targetRect = None, di_boundary = None, di_splitPath = []\<rparr>"

theorem drop_overlay_promises_drop_witness:
  "(dropIntentAllowsSession sample_act ''2'' left_intent (Some ''right'') False terminal_layout
      \<longleftrightarrow> dropSessionWithIntent sample_act None ''2'' left_intent (Some ''right'') terminal_layout \<noteq> None)
   \<and> (dropIntentAllowsSession sample_act ''1'' below_intent None False terminal_layout
      \<longleftrightarrow> dropSessionWithIntent sample_act None ''1'' below_intent None terminal_layout \<noteq> None)
   \<and> dropIntentAllowsSession sample_act ''1'' below_intent None False terminal_layout"
proof (intro conjI)
  have ord: "layout_ordered (ax_env sample_act) terminal_layout" using terminal_layout_facts(2) by simp
  have wide: "\<not> narrowSingleColumnMode (ax_env sample_act)" by code_simp
  have at: "slotForItem ''2'' terminal_layout = Some ''right''" "di_targetSlot left_intent = ''left''"
    "di_boundary below_intent = None" "di_zone below_intent = ZBottom"
    "\<not> docks_in_side_pane ''2'' left_intent terminal_layout" "\<not> docks_in_side_pane ''1'' below_intent terminal_layout"
    by code_simp+
  have fits: "intent_fits left_intent sample_tree" "intent_fits below_intent sample_tree" by code_simp+
  show "dropIntentAllowsSession sample_act ''2'' left_intent (Some ''right'') False terminal_layout
      \<longleftrightarrow> dropSessionWithIntent sample_act None ''2'' left_intent (Some ''right'') terminal_layout \<noteq> None"
    by (rule drop_overlay_promises_drop [OF ord terminal_layout_facts(1) wide]) (simp_all add: at fits)
  show "dropIntentAllowsSession sample_act ''1'' below_intent None False terminal_layout
      \<longleftrightarrow> dropSessionWithIntent sample_act None ''1'' below_intent None terminal_layout \<noteq> None"
    by (rule drop_overlay_promises_drop [OF ord terminal_layout_facts(1) wide]) (simp_all add: at fits)
  show "dropIntentAllowsSession sample_act ''1'' below_intent None False terminal_layout" by code_simp
qed

text \<open>
  The condition on docking is needed: the overlay offers the border of the layout to a tab of the
  opposite side pane without a look at the tab cap, and the drop is refused when the side pane
  there is full of tabs that may not be evicted.
\<close>

definition dock_act :: act_env where
  "dock_act = sample_act\<lparr>ax_env := sample_env\<lparr>layoutItems := [''1'', finderItemId, differItemId, infoItemId, tabberItemId],
     pinnedTabItems := [infoItemId, differItemId]\<rparr>\<rparr>"

definition dock_layout :: layout_slots where
  "dock_layout =
     \<lparr>lay_tree = Some (Split Row 20 (Leaf ''left'') (Split Row 80 (Leaf ''mid'') (Leaf ''right''))),
      lay_panes = [(''left'', paneStateWithTabs (ax_env dock_act) [finderItemId] None (Side SideLeft)),
        (''mid'', paneStateWithTabs (ax_env dock_act) [''1''] None Generic),
        (''right'', paneStateWithTabs (ax_env dock_act) [infoItemId, differItemId] None (Side SideRight))]\<rparr>"

definition dock_intent :: drop_intent where
  "dock_intent = \<lparr>di_targetSlot = [], di_zone = ZRight, di_targetRect = None, di_boundary = Some AtRoot, di_splitPath = []\<rparr>"

lemma full_dock_refuses_offered_drop:
  "dropIntentAllowsSession dock_act finderItemId dock_intent None False dock_layout
   \<and> dropSessionWithIntent dock_act None finderItemId dock_intent None dock_layout = None
   \<and> layout_ordered (ax_env dock_act) dock_layout"
  by (intro conjI; code_simp)


section \<open>Swapping\<close>

text \<open>
  A directional swap exchanges two tabs in place: the moved tab takes the position of the
  active tab of the neighbouring pane and that tab takes its place, both become active, every
  other tab and every other pane stays as it was, and the layout keeps its tree and its items.
\<close>

theorem directional_swap_exchanges_tabs:
  assumes "layout_ordered (ax_env ax) L" "lay_tree L = Some n" "s \<in> set (layoutLeafSlots n)" "x \<in> set (paneTabs s L)"
    and "\<forall>t \<in> set (layoutLeafSlots n). t = s \<or> set (paneTabs t L) \<inter> set (paneTabs s L) = {}"
    and "swapLayoutItemDirectional ax x (Some s) z L = Some (L', opts)"
  shows "\<exists>t y. t \<noteq> s \<and> activeItemForSide t L = Some y
    \<and> paneTabs s L' = swap_items x y (paneTabs s L) \<and> paneTabs t L' = swap_items y x (paneTabs t L)
    \<and> activeItemForSide s L' = Some y \<and> activeItemForSide t L' = Some x
    \<and> list_all (\<lambda>u. u = s \<or> u = t \<or> getPane L' u = getPane L u) (layoutLeafSlots n)
    \<and> lay_tree L' = Some n \<and> set (paneItems L') = set (paneItems L)"
proof (rule swap_result [OF assms(1-4) _ assms(6)])
  show "y \<notin> set (paneTabs s L)" if "t \<in> set (layoutLeafSlots n)" "t \<noteq> s" "y \<in> set (paneTabs t L)" for t y
    using assms(5) that by blast
next
  fix t y
  assume r: "t \<noteq> s" "activeItemForSide t L = Some y" "paneTabs s L' = swap_items x y (paneTabs s L)"
    "paneTabs t L' = swap_items y x (paneTabs t L)" "\<And>u. u \<noteq> s \<Longrightarrow> u \<noteq> t \<Longrightarrow> getPane L' u = getPane L u"
    "activeItemForSide s L' = Some y" "activeItemForSide t L' = Some x" "lay_tree L' = lay_tree L" "t \<in> set (layoutLeafSlots n)"
  have yt: "y \<in> set (paneTabs t L)" using r(2) by (rule activeItemForSide_mem)
  have other: "paneTabs u L' = paneTabs u L" if "u \<noteq> s" "u \<noteq> t" for u using r(5) [OF that] by (simp add: paneTabs_def)
  have keys: "layoutSlotKeys L' = layoutLeafSlots n" "layoutSlotKeys L = layoutLeafSlots n"
    using assms(2) r(8) by (simp_all add: layoutSlotKeys_tree)
  have two: "set (paneTabs s L') \<union> set (paneTabs t L') = set (paneTabs s L) \<union> set (paneTabs t L)"
    using assms(4) yt unfolding r(3,4) by (auto simp: set_swap_items)
  have split: "(\<Union>u \<in> set (layoutLeafSlots n). set (paneTabs u M)) = (set (paneTabs s M) \<union> set (paneTabs t M))
      \<union> (\<Union>u \<in> set (layoutLeafSlots n) - {s, t}. set (paneTabs u M))" for M
    using assms(3) r(9) by auto
  have "set (paneItems L') = set (paneItems L)"
    unfolding set_paneItems keys split two using other by simp
  with r assms(2) show ?thesis by (auto simp: list_all_iff)
qed

lemma terminal_once:
  "\<forall>t \<in> set (layoutLeafSlots sample_tree). t = ''left'' \<or> set (paneTabs t terminal_layout) \<inter> set (paneTabs ''left'' terminal_layout) = {}"
  by (simp add: sample_tree_def terminal_layout_facts)

theorem directional_swap_exchanges_tabs_witness:
  "(case swapLayoutItemDirectional sample_act ''1'' (Some ''left'') ZRight terminal_layout of
      None \<Rightarrow> False
    | Some (L', opts) \<Rightarrow> set (paneItems L') = set (paneItems terminal_layout))
   \<and> map_option (\<lambda>(L', opts). (paneTabs ''left'' L', paneTabs ''right'' L'))
      (swapLayoutItemDirectional sample_act ''1'' (Some ''left'') ZRight terminal_layout)
      = Some ([''2''], [''1'', ''file:/a''])"
proof -
  have c: "map_option (\<lambda>(L', opts). (paneTabs ''left'' L', paneTabs ''right'' L'))
      (swapLayoutItemDirectional sample_act ''1'' (Some ''left'') ZRight terminal_layout)
      = Some ([''2''], [''1'', ''file:/a''])" by code_simp
  then obtain L' opts where m: "swapLayoutItemDirectional sample_act ''1'' (Some ''left'') ZRight terminal_layout = Some (L', opts)"
    by auto
  have ord: "layout_ordered (ax_env sample_act) terminal_layout" using terminal_layout_facts(2) by simp
  have "''1'' \<in> set (paneTabs ''left'' terminal_layout)" by (simp add: terminal_layout_facts)
  from directional_swap_exchanges_tabs [OF ord terminal_layout_facts(1,3) this terminal_once m]
  have "set (paneItems L') = set (paneItems terminal_layout)" by blast
  with c m show ?thesis by simp
qed

text \<open>
  Swapping two panes exchanges their tabs and their active tabs, leaves every other pane and
  the tree alone, and keeps the items of the layout.
\<close>

theorem pane_swap_exchanges_panes:
  assumes "layout_ordered (ax_env ax) L" "lay_tree L = Some n" "swapPaneSlots ax s t L = Some (L', opts)"
  shows "paneTabs s L' = paneTabs t L \<and> paneTabs t L' = paneTabs s L
    \<and> activeItemForSide s L' = activeItemForSide t L \<and> activeItemForSide t L' = activeItemForSide s L
    \<and> list_all (\<lambda>u. u = s \<or> u = t \<or> getPane L' u = getPane L u) (layoutLeafSlots n)
    \<and> lay_tree L' = Some n \<and> set (paneItems L') = set (paneItems L)"
proof -
  let ?e = "ax_env ax"
  have a: "s \<noteq> t" "s \<in> set (layoutLeafSlots n)" "t \<in> set (layoutLeafSlots n)" "\<not> paneIsPlaceholder s L" "\<not> paneIsPlaceholder t L"
    and L': "L' = setPane t (paneStateForLayoutSlot ?e s L) (setPane s (paneStateForLayoutSlot ?e t L) L)"
    using assms(2,3) by (auto simp: swapPaneSlots_def paneSwapAllowed_def layoutSlotKeys_tree Let_def split: if_splits)
  have o: "orderPaneTabs ?e (paneTabs u L) = paneTabs u L" if "u \<in> {s, t}" for u
    using that assms(1,2) a by (auto simp: layout_ordered_def layoutSlotKeys_tree)
  have swapped: "activeItemForSide u (setPane u (paneStateForLayoutSlot ?e v L) M) = activeItemForSide v L
      \<and> paneTabs u (setPane u (paneStateForLayoutSlot ?e v L) M) = paneTabs v L" if "v \<in> {s, t}" for u v M
  proof -
    let ?M = "setPane v (paneStateForLayoutSlot ?e v L) M" and ?N = "setPane u (paneStateForLayoutSlot ?e v L) M"
    have "getPane ?M v = getPane ?N u" by simp
    then have "activeItemForSide u ?N = activeItemForSide v ?M" "paneTabs u ?N = paneTabs v ?M"
      by (simp_all add: activeItemForSide_def paneIsPlaceholder_def paneTabs_def)
    with copied_active [of ?M v ?e L] o [OF that] show ?thesis by simp
  qed
  have s1: "paneTabs t L' = paneTabs s L" "activeItemForSide t L' = activeItemForSide s L"
    unfolding L' using swapped [of s t] by auto
  have "activeItemForSide s L' = activeItemForSide s (setPane s (paneStateForLayoutSlot ?e t L) L)"
    "paneTabs s L' = paneTabs s (setPane s (paneStateForLayoutSlot ?e t L) L)"
    using a(1) by (simp_all add: L' activeItemForSide_def paneIsPlaceholder_def paneTabs_def)
  then have s2: "paneTabs s L' = paneTabs t L" "activeItemForSide s L' = activeItemForSide t L" using swapped [of t s L] by auto
  have other: "getPane L' u = getPane L u" if "u \<noteq> s" "u \<noteq> t" for u using that by (simp add: L')
  have keys: "layoutSlotKeys L' = layoutLeafSlots n" "layoutSlotKeys L = layoutLeafSlots n"
    using assms(2) by (simp_all add: layoutSlotKeys_tree L')
  have split: "(\<Union>u \<in> set (layoutLeafSlots n). set (paneTabs u M)) = (set (paneTabs s M) \<union> set (paneTabs t M))
      \<union> (\<Union>u \<in> set (layoutLeafSlots n) - {s, t}. set (paneTabs u M))" for M
    using a by auto
  have "set (paneItems L') = set (paneItems L)"
    unfolding set_paneItems keys split s1 s2 using other by (auto simp: paneTabs_def)
  moreover have "lay_tree L' = Some n" using assms(2) by (simp add: L')
  moreover have "list_all (\<lambda>u. u = s \<or> u = t \<or> getPane L' u = getPane L u) (layoutLeafSlots n)"
    using other by (auto simp: list_all_iff)
  ultimately show ?thesis using s1 s2 by blast
qed

theorem pane_swap_exchanges_panes_witness:
  "(case swapPaneSlots sample_act ''left'' ''right'' terminal_layout of
      None \<Rightarrow> False | Some (L', opts) \<Rightarrow> paneTabs ''left'' L' = [''2'', ''file:/a''] \<and> paneTabs ''right'' L' = [''1''])"
proof -
  have "swapPaneSlots sample_act ''left'' ''right'' terminal_layout \<noteq> None" by code_simp
  then obtain L' opts where m: "swapPaneSlots sample_act ''left'' ''right'' terminal_layout = Some (L', opts)" by auto
  have ord: "layout_ordered (ax_env sample_act) terminal_layout" using terminal_layout_facts(2) by simp
  from pane_swap_exchanges_panes [OF ord terminal_layout_facts(1) m] m show ?thesis by (simp add: terminal_layout_facts)
qed

section \<open>Geometry, filling and traversal\<close>

text \<open>
  Directional adjacency is symmetric: a visible pane lies in some direction of another exactly
  when that one lies in the opposite direction of it, so a move or swap can always be answered
  from the other side.
\<close>

theorem directional_adjacency_symmetric:
  assumes "z \<noteq> ZMiddle" "s \<in> set (layoutSlotKeys V)" "t \<in> set (layoutSlotKeys V)"
  shows "t \<in> set (layoutSlotsTouchingDirection ax L s z V)
    \<longleftrightarrow> s \<in> set (layoutSlotsTouchingDirection ax L t (oppositeZone z) V)"
  using assms(2,3) rect_touches_sym [OF assms(1)]
  by (cases "layoutSlotScreenRect ax L s"; cases "layoutSlotScreenRect ax L t")
    (auto simp: layoutSlotsTouchingDirection_def)

theorem directional_adjacency_symmetric_witness:
  "''right'' \<in> set (layoutSlotsTouchingDirection sample_act terminal_layout ''left'' ZRight terminal_layout)
   \<and> ''left'' \<in> set (layoutSlotsTouchingDirection sample_act terminal_layout ''right'' ZLeft terminal_layout)"
proof -
  have keys: "''left'' \<in> set (layoutSlotKeys terminal_layout)" "''right'' \<in> set (layoutSlotKeys terminal_layout)"
    by code_simp+
  have "''right'' \<in> set (layoutSlotsTouchingDirection sample_act terminal_layout ''left'' ZRight terminal_layout)" by code_simp
  with directional_adjacency_symmetric [OF _ keys, of ZRight sample_act terminal_layout] show ?thesis by simp
qed

text \<open>
  Filling the workspace with a tab and toggling again brings the layout back: the second
  toggle applies the layout saved by the first and forgets it.
\<close>

theorem fill_and_restore:
  assumes "ws_filled w = None" "toggleTabWorkspaceFill e x w = (w1, True)" "toggleTabWorkspaceFill e x w1 = (w2, ok)"
  shows "ok \<and> ws_filled w1 = Some (x, ws_layout w) \<and> ws_filled w2 = None
    \<and> ws_layout w2 = fst (normalizeLayoutSlotsForViewport e (ws_constrained w1) (ws_layout w)
        (norm_defaults\<lparr>no_focusSession := Some x, no_preservePlaceholderSlots := True\<rparr>))"
proof -
  have x: "isLayoutItem e x" using assms(2) by (auto simp: toggleTabWorkspaceFill_def split: if_splits)
  have f: "ws_filled w1 = Some (x, ws_layout w)"
    using assms(1,2) x
    by (auto simp: toggleTabWorkspaceFill_def applyLayoutSlots_def fill_options_def split: option.splits bool.splits prod.splits)
  with assms(3) x have "w2 = applyLayoutSlots e (w1\<lparr>ws_filled := None\<rparr>) (ws_layout w) (fill_options x) \<and> ok"
    by (simp add: toggleTabWorkspaceFill_def)
  with f show ?thesis by (auto simp: applyLayoutSlots_def fill_options_def split: prod.split)
qed

definition sample_workspace :: workspace where
  "sample_workspace = \<lparr>ws_layout = terminal_layout, ws_constrained = False, ws_filled = None, ws_active = [''1'', ''2'']\<rparr>"

theorem fill_and_restore_witness:
  "ws_filled (fst (toggleTabWorkspaceFill sample_env ''2'' (fst (toggleTabWorkspaceFill sample_env ''2'' sample_workspace)))) = None"
proof -
  have 1: "ws_filled sample_workspace = None" by (simp add: sample_workspace_def)
  have "snd (toggleTabWorkspaceFill sample_env ''2'' sample_workspace)" by code_simp
  then obtain w1 where 2: "toggleTabWorkspaceFill sample_env ''2'' sample_workspace = (w1, True)" by (metis prod.collapse)
  obtain w2 ok where 3: "toggleTabWorkspaceFill sample_env ''2'' w1 = (w2, ok)" by (rule prod.exhaust)
  from fill_and_restore [OF 1 2 3] 2 3 show ?thesis by simp
qed

text \<open>
  Stepping to the next tab and back returns to the same tab, for any rendered groups and any
  layout in which the walk visits no position twice.
\<close>

theorem tab_traversal_round_trip:
  assumes "distinct (paneTabTraversalPositions L groups)"
    and "adjacentPaneTabPosition L groups backward (Some x) (Some s) = Some (t, y)"
  shows "adjacentPaneTabPosition L groups (\<not> backward) (Some y) (Some t) = Some (s, x)"
proof -
  let ?ps = "paneTabTraversalPositions L groups"
  from assms(2) obtain i where i: "find_index (\<lambda>p. p = (s, x)) ?ps = Some i" and len: "\<not> length ?ps < 2"
    by (auto simp: adjacentPaneTabPosition_def Let_def or_else_def split: if_splits option.splits)
  from find_index_nth [OF i] have at: "i < length ?ps" "?ps ! i = (s, x)" by auto
  show ?thesis
  proof (cases backward)
    case True
    with assms(2) i len have j: "i \<noteq> 0" "?ps ! (i - 1) = (t, y)"
      by (auto simp: adjacentPaneTabPosition_def Let_def or_else_def split: if_splits)
    have "find_index (\<lambda>p. p = ?ps ! (i - 1)) ?ps = Some (i - 1)" using assms(1) at(1) by (intro find_index_distinct) auto
    with True j at len show ?thesis by (simp add: adjacentPaneTabPosition_def Let_def or_else_def)
  next
    case False
    with assms(2) i len have j: "Suc i < length ?ps" "?ps ! Suc i = (t, y)"
      by (auto simp: adjacentPaneTabPosition_def Let_def or_else_def split: if_splits)
    have "find_index (\<lambda>p. p = ?ps ! Suc i) ?ps = Some (Suc i)" using assms(1) j(1) by (intro find_index_distinct) auto
    with False j at len show ?thesis by (simp add: adjacentPaneTabPosition_def Let_def or_else_def)
  qed
qed

theorem tab_traversal_round_trip_witness:
  "adjacentPaneTabPosition terminal_layout [] True (Some ''2'') (Some ''right'') = Some (''left'', ''1'')"
proof -
  have d: "distinct (paneTabTraversalPositions terminal_layout [])" by code_simp
  have "adjacentPaneTabPosition terminal_layout [] False (Some ''1'') (Some ''left'') = Some (''right'', ''2'')" by code_simp
  from tab_traversal_round_trip [OF d this] show ?thesis by simp
qed

end
