(* ===== verification/Layout_Url_Roundtrip.thy ===== *)
theory Layout_Url_Roundtrip
  imports Layout_Url
begin

text \<open>
  The URL syntax read back: a printed tree parses to the same tree with its percentages rounded
  to tenths, and printed tab states parse to the panes they came from, for items whose text
  needs no protection inside the parameter.
\<close>

section \<open>Percentages\<close>

definition rounded_pct :: "rat \<Rightarrow> rat" where
  "rounded_pct p = of_nat (pct_tenths (splitPercent (PctNumber p))) / 10"

lemma takeWhile_all_append: "\<forall>c \<in> set s. P c \<Longrightarrow> takeWhile P (s @ t) = s @ takeWhile P t"
  by (simp add: takeWhile_append)

lemma dropWhile_all_append: "\<forall>c \<in> set s. P c \<Longrightarrow> dropWhile P (s @ t) = dropWhile P t"
  by (induction s) auto

lemma digits_takeWhile [simp]:
  "takeWhile is_digit (showNat n) = showNat n" "dropWhile is_digit (showNat n) = []"
  "takeWhile is_digit (showNat n @ t) = showNat n @ takeWhile is_digit t"
  "dropWhile is_digit (showNat n @ t) = dropWhile is_digit t"
  using showNat_digits [of n] by (simp_all add: takeWhile_eq_all_conv dropWhile_eq_Nil_conv takeWhile_all_append dropWhile_all_append)

lemma digit_not_special: "is_digit c \<Longrightarrow> \<not> js_isSpace c" "is_digit c \<Longrightarrow> c \<noteq> CHR ''-''" "is_digit c \<Longrightarrow> c \<noteq> CHR ''+''"
  "is_digit c \<Longrightarrow> c \<noteq> CHR ''.''" "is_digit c \<Longrightarrow> c \<noteq> CHR ''x''" "is_digit c \<Longrightarrow> c \<noteq> CHR ''o''" "is_digit c \<Longrightarrow> c \<noteq> CHR ''b''"
  "is_digit c \<Longrightarrow> c \<noteq> CHR ''X''" "is_digit c \<Longrightarrow> c \<noteq> CHR ''O''" "is_digit c \<Longrightarrow> c \<noteq> CHR ''B''"
  by (auto simp: is_digit_def js_isSpace_def)

lemma dot_not_digit [simp]: "\<not> is_digit (CHR ''.'')"
  by (simp add: is_digit_def)

lemma showNat_one [simp]: "n < 10 \<Longrightarrow> showNat n = [digit_char n]"
  by (simp add: showNat.simps)

lemma readNat_append_digit: "d < 10 \<Longrightarrow> readNat (showNat n @ [digit_char d]) = 10 * n + d"
  by (simp add: readNat_snoc)

definition decimal_char :: "char \<Rightarrow> bool" where
  "decimal_char c = (is_digit c \<or> c = CHR ''.'')"

lemma decimal_char_not:
  "decimal_char c \<Longrightarrow> \<not> js_isSpace c"
  "decimal_char c \<Longrightarrow> c \<notin> {CHR ''x'', CHR ''X'', CHR ''o'', CHR ''O'', CHR ''b'', CHR ''B'', CHR ''-'', CHR ''+''}"
  by (auto simp: decimal_char_def is_digit_def js_isSpace_def)

lemma js_Number_decimal:
  assumes "s \<noteq> []" "\<forall>c \<in> set s. decimal_char c"
  shows "js_Number s = js_unsigned_decimal s"
proof -
  have trim: "js_trim s = s" by (rule js_trim_free) (use assms(2) decimal_char_not(1) in blast)
  obtain c cs where s: "s = c # cs" using assms(1) by (cases s) auto
  have c: "c \<noteq> CHR ''-''" "c \<noteq> CHR ''+''" using decimal_char_not(2) [of c] assms(2) s by auto
  show ?thesis
  proof (cases cs)
    case Nil
    then have "js_trim [c] = [c]" using trim s by simp
    with c Nil show ?thesis unfolding js_Number_def s by simp
  next
    case (Cons d ds)
    then have "d \<notin> {CHR ''x'', CHR ''X'', CHR ''o'', CHR ''O'', CHR ''b'', CHR ''B'', CHR ''-'', CHR ''+''}"
      using decimal_char_not(2) [of d] assms(2) s by simp
    moreover have "js_trim (c # d # ds) = c # d # ds" using trim s Cons by simp
    ultimately show ?thesis using c unfolding js_Number_def s Cons by simp
  qed
qed

lemma decimal_showNat: "c \<in> set (showNat n) \<Longrightarrow> decimal_char c"
  using showNat_digits [of n] by (auto simp: decimal_char_def)

lemma js_Number_tenths:
  "js_Number (if k mod 10 = 0 then showNat (k div 10) else showNat (k div 10) @ CHR ''.'' # showNat (k mod 10))
   = Some (of_nat k / 10)"
proof (cases "k mod 10 = 0")
  case True
  then obtain j where "k = 10 * j" by auto
  then show ?thesis using js_Number_decimal [of "showNat j"] decimal_showNat by (simp add: js_unsigned_decimal_def Let_def)
next
  case False
  let ?j = "k div 10" and ?d = "k mod 10"
  have k: "of_nat k = (of_nat (10 * ?j + ?d) :: rat)" by simp
  have "js_Number (showNat ?j @ CHR ''.'' # showNat ?d) = js_unsigned_decimal (showNat ?j @ CHR ''.'' # showNat ?d)"
    by (rule js_Number_decimal) (use decimal_showNat in \<open>auto simp: decimal_char_def simp del: showNat_one\<close>)
  also have "\<dots> = Some (of_nat (10 * ?j + ?d) / 10)"
    by (simp add: js_unsigned_decimal_def Let_def readNat_append_digit)
  finally show ?thesis using False by simp
qed

lemma splitPercent_display:
  "splitPercent (PctText (splitPercentForDisplay (PctNumber p))) = rounded_pct p"
proof -
  let ?q = "splitPercent (PctNumber p)"
  have q: "5 \<le> ?q" "?q \<le> 95" using splitPercent_bounds [of "PctNumber p"] by (simp_all add: pct_defs)
  have "50 \<le> \<lfloor>?q * 10 + 1 / 2\<rfloor>" "\<lfloor>?q * 10 + 1 / 2\<rfloor> \<le> 950" using q by linarith+
  then have k: "50 \<le> pct_tenths ?q" "pct_tenths ?q \<le> 950" unfolding pct_tenths_def by linarith+
  have ne: "splitPercentForDisplay (PctNumber p) \<noteq> []" by (simp add: splitPercentForDisplay_def Let_def del: splitPercent.simps)
  have "js_Number (splitPercentForDisplay (PctNumber p)) = Some (rounded_pct p)"
    unfolding splitPercentForDisplay_def Let_def js_Number_tenths rounded_pct_def ..
  moreover have "5 \<le> rounded_pct p" "rounded_pct p \<le> 95"
    using k unfolding rounded_pct_def by simp_all
  ultimately show ?thesis using ne by (simp add: pct_defs)
qed

lemma match_pct_display: "match_pct (CHR ''@'' # splitPercentForDisplay v) = Some (PctText (splitPercentForDisplay v))"
proof -
  have all: "list_all is_digit (showNat n)" for n using showNat_digits by (simp add: list_all_iff)
  show ?thesis by (simp add: match_pct_def splitPercentForDisplay_def Let_def all showNat_digits del: showNat_one)
qed

lemma split_match_row: "split_match (''row@'' @ splitPercentForDisplay v) = Some (Row, PctText (splitPercentForDisplay v))"
  and split_match_col: "split_match (''col@'' @ splitPercentForDisplay v) = Some (Column, PctText (splitPercentForDisplay v))"
  by (simp_all add: split_match_def match_word_def js_startsWith_def match_pct_display)

section \<open>The tree\<close>

fun rounded_node :: "layout_node \<Rightarrow> layout_node" where
  "rounded_node (Leaf s) = Leaf s"
| "rounded_node (Split d p a b) = Split d (rounded_pct p) (rounded_node a) (rounded_node b)"

definition slot_printable :: "slot \<Rightarrow> bool" where
  "slot_printable s = (utf8_wf s \<and> layoutSlotName s = Some s)"

definition node_ends :: "string \<Rightarrow> bool" where
  "node_ends rest = (rest = [] \<or> hd rest = CHR '','' \<or> hd rest = CHR '')'')"

lemma readable_nonempty [simp]: "readableParamComponent s = [] \<longleftrightarrow> s = []"
  by (cases s) (auto simp: readableParamComponent_alt percent_def)

lemma readable_token: "c \<in> set (readableParamComponent s) \<Longrightarrow> token_char c"
  using readable_free [of s] by (auto simp: token_char_def layout_delims_def)

lemma display_token: "c \<in> set (splitPercentForDisplay v) \<Longrightarrow> token_char c"
proof -
  have "decimal_char c \<Longrightarrow> token_char c"
    using decimal_char_not(1) [of c] by (auto simp: token_char_def decimal_char_def is_digit_def)
  moreover have "c \<in> set (splitPercentForDisplay v) \<Longrightarrow> decimal_char c"
    using decimal_showNat by (auto simp: splitPercentForDisplay_def Let_def decimal_char_def simp del: showNat_one split: if_splits)
  ultimately show "c \<in> set (splitPercentForDisplay v) \<Longrightarrow> token_char c" by blast
qed

lemma display_lower: "map lower_char (splitPercentForDisplay v) = splitPercentForDisplay v"
proof -
  have "lower_char c = c" if "decimal_char c" for c
    using that by (auto simp: decimal_char_def is_digit_def lower_char_def Let_def)
  moreover have "c \<in> set (splitPercentForDisplay v) \<Longrightarrow> decimal_char c" for c
    using decimal_showNat by (auto simp: splitPercentForDisplay_def Let_def decimal_char_def simp del: showNat_one split: if_splits)
  ultimately show ?thesis by (simp add: map_idI)
qed

lemma token_read:
  assumes "name \<noteq> []" "\<forall>c \<in> set name. token_char c" "rest = [] \<or> \<not> token_char (hd rest)"
  shows "readCompactLayoutToken (skipCompactLayoutWhitespace (name @ rest)) = (name, rest)"
proof -
  have "skipCompactLayoutWhitespace (name @ rest) = name @ rest"
    using assms(1,2) by (cases name) (auto simp: skipCompactLayoutWhitespace_def token_char_def)
  moreover have "takeWhile token_char rest = []" "dropWhile token_char rest = rest"
    using assms(3) by (cases rest; simp)+
  ultimately show ?thesis
    using assms(2) by (simp add: readCompactLayoutToken_def takeWhile_all_append dropWhile_all_append)
qed

lemma node_ends_token: "node_ends rest \<Longrightarrow> rest = [] \<or> \<not> token_char (hd rest)"
  by (auto simp: node_ends_def token_char_def)

lemma node_ends_skip: "node_ends rest \<Longrightarrow> skipCompactLayoutWhitespace rest = rest"
  by (cases rest) (auto simp: node_ends_def skipCompactLayoutWhitespace_def js_isSpace_def)

lemma parse_leaf:
  assumes s: "slot_printable s" and r: "node_ends rest"
  shows "parse_node (readableParamComponent s @ rest) = Some (Leaf s, rest)"
proof -
  have ne: "s \<noteq> []" using s by (auto simp: slot_printable_def layoutSlotName_def)
  have "readCompactLayoutToken (skipCompactLayoutWhitespace (readableParamComponent s @ rest))
      = (readableParamComponent s, rest)"
    by (rule token_read) (use ne readable_token node_ends_token [OF r] in auto)
  moreover have "safeDecodeURIComponent (readableParamComponent s) = s"
    using s by (simp add: safeDecodeURIComponent_def decode_readable slot_printable_def)
  moreover have "hd rest \<noteq> CHR ''(''" if "rest \<noteq> []" using r that by (auto simp: node_ends_def)
  ultimately show ?thesis
    using ne s r node_ends_skip [OF r]
    by (subst parse_node.simps) (auto simp: Let_def slot_printable_def split: option.splits list.splits)
qed

lemma compact_nonempty: "list_all slot_printable (layoutLeafSlots n) \<Longrightarrow> compactLayoutTreeParam n \<noteq> []"
  by (cases n) (auto simp: slot_printable_def layoutSlotName_def)

lemma parse_split:
  assumes "readCompactLayoutToken (skipCompactLayoutWhitespace s) = (name, CHR ''('' # body)" "name \<noteq> []"
    "split_match (map lower_char name) = Some (d, pct)" "parse_children body = Some ([c1, c2], q)"
  shows "parse_node s = Some (splitNode d c1 c2 pct, q)"
proof -
  have "skipCompactLayoutWhitespace (CHR ''('' # body) = CHR ''('' # body"
    by (simp add: skipCompactLayoutWhitespace_def js_isSpace_def)
  with assms show ?thesis by (subst parse_node.simps) simp
qed

lemma parse_compact_tree:
  assumes "list_all slot_printable (layoutLeafSlots n)" "node_ends rest"
  shows "parse_node (compactLayoutTreeParam n @ rest) = Some (rounded_node n, rest)"
  using assms
proof (induction n arbitrary: rest)
  case (Leaf s)
  then show ?case by (simp add: parse_leaf)
next
  case (Split d p a b)
  let ?w = "if d = Column then ''col'' else ''row''" and ?disp = "splitPercentForDisplay (PctNumber p)"
  let ?name = "?w @ CHR ''@'' # ?disp"
  let ?ca = "compactLayoutTreeParam a" and ?cb = "compactLayoutTreeParam b"
  have ne: "?ca \<noteq> []" "?cb \<noteq> []" using Split.prems(1) compact_nonempty by auto
  then have str: "compactLayoutTreeParam (Split d p a b) @ rest
      = ?name @ CHR ''('' # ?ca @ CHR '','' # ?cb @ CHR '')'' # rest" by simp
  have tok: "readCompactLayoutToken (skipCompactLayoutWhitespace (?name @ CHR ''('' # ?ca @ CHR '','' # ?cb @ CHR '')'' # rest))
      = (?name, CHR ''('' # ?ca @ CHR '','' # ?cb @ CHR '')'' # rest)"
    by (rule token_read) (use display_token in \<open>auto simp: token_char_def js_isSpace_def\<close>)
  have sm: "split_match (map lower_char ?name) = Some (d, PctText ?disp)"
  proof -
    have "map lower_char ?name = ?name"
      by (simp only: map_append list.map display_lower) (simp add: lower_char_def Let_def)
    then show ?thesis using split_match_row split_match_col by (cases d) auto
  qed
  have A: "parse_node (?ca @ CHR '','' # ?cb @ CHR '')'' # rest) = Some (rounded_node a, CHR '','' # ?cb @ CHR '')'' # rest)"
    by (rule Split.IH(1)) (use Split.prems(1) in \<open>auto simp: node_ends_def\<close>)
  have B: "parse_node (?cb @ CHR '')'' # rest) = Some (rounded_node b, CHR '')'' # rest)"
    by (rule Split.IH(2)) (use Split.prems(1) in \<open>auto simp: node_ends_def\<close>)
  have sk: "skipCompactLayoutWhitespace (c # q) = c # q" if "c = CHR '','' \<or> c = CHR '')'' \<or> c = CHR ''(''" for c q
    using that by (auto simp: skipCompactLayoutWhitespace_def js_isSpace_def)
  have pb: "parse_children (?cb @ CHR '')'' # rest) = Some ([rounded_node b], rest)"
    by (subst parse_children.simps) (simp add: B sk)
  have pa: "parse_children (?ca @ CHR '','' # ?cb @ CHR '')'' # rest) = Some ([rounded_node a, rounded_node b], rest)"
    by (subst parse_children.simps) (simp add: A sk pb)
  have "parse_node (?name @ CHR ''('' # ?ca @ CHR '','' # ?cb @ CHR '')'' # rest)
      = Some (splitNode d (rounded_node a) (rounded_node b) (PctText ?disp), rest)"
    by (rule parse_split [OF tok _ sm pa]) simp
  then show ?case unfolding str splitNode_def splitPercent_display by simp
qed

section \<open>The tab states\<close>

text \<open>A slot name that is its own encoding, and an item whose parameter text survives being
  written between commas.\<close>

definition slot_plain :: "slot \<Rightarrow> bool" where
  "slot_plain s = (s \<noteq> [] \<and> list_all readable_safe s \<and> s \<noteq> layoutTreeKey)"

definition item_url_safe :: "env \<Rightarrow> item \<Rightarrow> bool" where
  "item_url_safe e x =
     (let t = itemParam x in
      t \<noteq> [] \<and> CHR '','' \<notin> set t \<and> CHR '';'' \<notin> set t \<and> \<not> js_isSpace (hd t) \<and> \<not> js_isSpace (last t)
      \<and> last t \<noteq> CHR ''*'' \<and> \<not> js_startsWith t paneRoleParamPrefix
      \<and> t \<noteq> emptyPaneParam \<and> t \<noteq> intentionalEmptyPaneParam
      \<and> resolveLayoutItem e t = Some x \<and> isLayoutItem e x)"

text \<open>\<open>fd p r\<close>: form decoding turns the printed text \<open>p\<close> into \<open>r\<close>, in any context.\<close>

definition fd :: "string \<Rightarrow> string \<Rightarrow> bool" where
  "fd p r = (\<forall>t. formDecode (p @ t) = r @ formDecode t)"

lemma fd_Nil [simp, intro]: "fd [] []"
  and fd_readable [simp, intro]: "fd (readableParamComponent s) s"
  by (simp_all add: fd_def formDecode_readable_append)

lemma fd_append: "fd p r \<Longrightarrow> fd q s \<Longrightarrow> fd (p @ q) (r @ s)"
  by (simp add: fd_def)

lemma fd_Cons: "c \<noteq> CHR ''%'' \<Longrightarrow> c \<noteq> CHR ''+'' \<Longrightarrow> fd q s \<Longrightarrow> fd (c # q) (c # s)"
  by (simp add: fd_def formDecode_plain)

lemma fd_join:
  "list_all2 fd ps rs \<Longrightarrow> c \<noteq> CHR ''%'' \<Longrightarrow> c \<noteq> CHR ''+'' \<Longrightarrow> fd (js_join [c] ps) (js_join [c] rs)"
proof (induction "[c]" ps arbitrary: rs rule: js_join.induct)
  case (3 p q ps)
  then obtain r s rs' where rs: "rs = r # s # rs'" "fd p r" "list_all2 fd (q # ps) (s # rs')"
    by (auto simp: list_all2_Cons1)
  then show ?case using 3 by (auto intro: fd_append fd_Cons)
qed (auto simp: list_all2_Cons1)

lemma fd_whole: "fd p r \<Longrightarrow> formDecode p = r"
  using fd_def [of p r] by (metis append_Nil2 formDecode_Nil)

definition raw_tokens :: "item option \<Rightarrow> item list \<Rightarrow> string list" where
  "raw_tokens active tabs =
     map (\<lambda>(i, x). protect_percent (itemParam x) @ (if Some x = active \<and> 0 < i then ''*'' else [])) (enumerate 0 tabs)"

lemma fd_tokens: "list_all2 fd (tab_tokens active tabs) (raw_tokens active tabs)"
  by (auto simp: tab_tokens_def raw_tokens_def list_all2_map1 list_all2_map2 readableItemParam_def
      intro!: list_all2_all_nthI fd_append fd_Cons split: prod.splits)

text \<open>Decoding the protected text.\<close>

lemma decode_plain: "c \<noteq> CHR ''%'' \<Longrightarrow> decodeURIComponent (c # s) = map_option (Cons c) (decodeURIComponent s)"
  by (subst decodeURIComponent.simps) simp

lemma decode_protect: "decodeURIComponent (protect_percent s) = Some s"
proof (induction s)
  case (Cons c s)
  show ?case
  proof (cases "c = CHR ''%''")
    case True
    have "decodeURIComponent (''%25'' @ protect_percent s) = map_option (Cons (CHR ''%'')) (decodeURIComponent (protect_percent s))"
    proof -
      have "percent_encode (\<lambda>c. False) ''%'' = ''%25''" by code_simp
      moreover have "utf8_group (map byte ''%'')" by code_simp
      ultimately show ?thesis using decode_percent_group [of "''%''" "\<lambda>c. False" "protect_percent s"] by (simp add: append_Cons [abs_def])
    qed
    with True Cons show ?thesis by simp
  next
    case False
    with Cons show ?thesis by (simp add: decode_plain)
  qed
qed (subst decodeURIComponent.simps, simp)

lemma safeDecode_protect: "safeDecodeURIComponent (protect_percent s) = s"
  by (simp add: safeDecodeURIComponent_def decode_protect)

lemma protect_id: "CHR ''%'' \<notin> set s \<Longrightarrow> protect_percent s = s"
  by (induction s) auto

lemma safeDecode_plain: "CHR ''%'' \<notin> set s \<Longrightarrow> safeDecodeURIComponent s = s"
  using safeDecode_protect [of s] protect_id [of s] by simp

section \<open>Parsing the tokens of one pane\<close>

lemma protect_simps [simp]: "protect_percent s = [] \<longleftrightarrow> s = []"
  by (cases s) auto

lemma protect_set: "c \<in> set (protect_percent s) \<Longrightarrow> c \<in> set s \<or> c = CHR ''2'' \<or> c = CHR ''5''"
  by (induction s) (auto split: if_splits)

lemma protect_append: "protect_percent (s @ t) = protect_percent s @ protect_percent t"
  by (induction s) auto

lemma protect_last: "s \<noteq> [] \<Longrightarrow> last (protect_percent s) = (if last s = CHR ''%'' then CHR ''5'' else last s)"
  by (induction s rule: rev_induct) (auto simp: protect_append)

lemma protect_hd: "s \<noteq> [] \<Longrightarrow> hd (protect_percent s) = hd s"
  by (cases s) auto

lemma js_trim_ends:
  assumes "s \<noteq> []" "\<not> js_isSpace (hd s)" "\<not> js_isSpace (last s)"
  shows "js_trim s = s"
proof -
  have "dropWhile js_isSpace s = s" using assms(1,2) by (cases s) auto
  moreover have "dropWhile js_isSpace (rev s) = rev s"
    using assms(1,3) by (simp add: dropWhile_eq_self_iff hd_rev)
  ultimately show ?thesis by (simp add: js_trim_def)
qed

definition item_token :: "bool \<Rightarrow> item \<Rightarrow> string" where
  "item_token star x = protect_percent (itemParam x) @ (if star then ''*'' else [])"

lemma parse_item_token:
  assumes "item_url_safe e x" "x \<notin> set (tp_tabs st)"
  shows "parse_token e st (item_token star x) =
    st\<lparr>tp_tabs := tp_tabs st @ [x], tp_active := (if star then Some x else tp_active st)\<rparr>"
proof -
  let ?t = "itemParam x" and ?p = "protect_percent (itemParam x)"
  have t: "?t \<noteq> []" "\<not> js_isSpace (hd ?t)" "\<not> js_isSpace (last ?t)" "last ?t \<noteq> CHR ''*''"
    "\<not> js_startsWith ?t paneRoleParamPrefix" "?t \<noteq> emptyPaneParam" "?t \<noteq> intentionalEmptyPaneParam"
    "resolveLayoutItem e ?t = Some x" "isLayoutItem e x"
    using assms(1) by (simp_all add: item_url_safe_def Let_def)
  have trim: "js_trim (item_token star x) = item_token star x"
    using t by (intro js_trim_ends) (auto simp: item_token_def protect_hd protect_last js_isSpace_def)
  have star: "last (item_token star x) = CHR ''*'' \<longleftrightarrow> star"
    using t by (auto simp: item_token_def protect_last)
  have body: "(if star then butlast (item_token star x) else item_token star x) = ?p"
    by (simp add: item_token_def)
  have ne: "item_token star x \<noteq> []" using t(1) by (simp add: item_token_def)
  show ?thesis
    unfolding parse_token_def trim Let_def star body safeDecode_protect
    using ne t assms(2) by simp
qed

lemma parse_item_tokens:
  assumes "\<forall>x \<in> set xs. item_url_safe e x" "distinct (tp_tabs st @ xs)"
  shows "foldl (parse_token e) st (map (\<lambda>(i, x). item_token (Some x = active \<and> 0 < i) x) (enumerate k xs)) =
    st\<lparr>tp_tabs := tp_tabs st @ xs,
       tp_active := (if \<exists>i < length xs. Some (xs ! i) = active \<and> 0 < k + i then active else tp_active st)\<rparr>"
  using assms
proof (induction xs arbitrary: st k)
  case Nil
  then show ?case by simp
next
  case (Cons x xs)
  let ?star = "Some x = active \<and> 0 < k"
  let ?st = "st\<lparr>tp_tabs := tp_tabs st @ [x], tp_active := (if ?star then Some x else tp_active st)\<rparr>"
  have step: "parse_token e st (item_token ?star x) = ?st"
    using Cons.prems by (intro parse_item_token) auto
  have rest: "foldl (parse_token e) ?st (map (\<lambda>(i, x). item_token (Some x = active \<and> 0 < i) x) (enumerate (Suc k) xs)) =
    ?st\<lparr>tp_tabs := tp_tabs ?st @ xs,
       tp_active := (if \<exists>i < length xs. Some (xs ! i) = active \<and> 0 < Suc k + i then active else tp_active ?st)\<rparr>"
    by (rule Cons.IH) (use Cons.prems in auto)
  have ex: "(\<exists>i < length (x # xs). Some ((x # xs) ! i) = active \<and> 0 < k + i) \<longleftrightarrow>
      ?star \<or> (\<exists>i < length xs. Some (xs ! i) = active \<and> 0 < Suc k + i)"
    by (auto simp: less_Suc_eq_0_disj)
  show ?case using step rest unfolding ex by (auto simp del: length_Cons)
qed

section \<open>One part\<close>

definition pane_printable :: "env \<Rightarrow> pane_state \<Rightarrow> bool" where
  "pane_printable e p =
     (pane_ok e p \<and> \<not> ps_legacy p \<and> (ps_placeholder p \<longleftrightarrow> ps_tabs p = [])
      \<and> list_all (item_url_safe e) (ps_tabs p))"

definition part_tokens :: "slot \<Rightarrow> layout_slots \<Rightarrow> string list" where
  "part_tokens s L =
     (if paneIsPlaceholder s L then filter (\<lambda>t. t \<noteq> []) [role_marker (paneRoleForSlot s L), intentionalEmptyPaneParam]
      else filter (\<lambda>t. t \<noteq> []) [role_marker (paneRoleForSlot s L)]
        @ raw_tokens (activeItemForSide s L) (paneTabs s L))"

definition raw_part :: "slot \<Rightarrow> layout_slots \<Rightarrow> string" where
  "raw_part s L = s @ CHR '':'' # js_join '','' (part_tokens s L)"

lemma fd_plain: "\<forall>c \<in> set s. c \<noteq> CHR ''%'' \<and> c \<noteq> CHR ''+'' \<Longrightarrow> fd s s"
  by (induction s) (auto intro: fd_Cons)

lemma role_marker_values: "role_marker r = [] \<or> role_marker r = ''@side-left'' \<or> role_marker r = ''@side-right''"
proof (cases r)
  case (Side sd)
  then show ?thesis by (cases sd) (simp_all add: role_marker_def paneRoleParamPrefix_def)
qed (simp add: role_marker_def)

lemma marker_fd [simp]: "fd (role_marker r) (role_marker r)"
  using role_marker_values [of r] by (intro fd_plain) auto

lemma marker_chars: "c \<in> set (role_marker r) \<Longrightarrow> c \<noteq> CHR '','' \<and> c \<noteq> CHR '';'' \<and> c \<noteq> CHR ''*'' \<and> c \<noteq> CHR ''%'' \<and> \<not> js_isSpace c"
  using role_marker_values [of r] by (auto simp: js_isSpace_def)

lemma raw_tokens_alt:
  "raw_tokens active tabs = map (\<lambda>(i, x). item_token (Some x = active \<and> 0 < i) x) (enumerate 0 tabs)"
  by (simp add: raw_tokens_def item_token_def)

lemma raw_tokens_mem: "t \<in> set (raw_tokens active tabs) \<Longrightarrow> \<exists>x \<in> set tabs. \<exists>b. t = item_token b x"
  unfolding raw_tokens_alt by (clarsimp simp: in_set_enumerate_eq) (metis nth_mem)

lemma tab_tokens_nonempty:
  assumes "list_all (item_url_safe e) tabs"
  shows "filter (\<lambda>t. t \<noteq> []) (tab_tokens active tabs) = tab_tokens active tabs"
proof -
  have "readableItemParam x \<noteq> []" if "x \<in> set tabs" for x
    using assms that by (auto simp: list_all_iff readableItemParam_def item_url_safe_def Let_def)
  then show ?thesis
    by (auto simp: filter_id_conv tab_tokens_def in_set_enumerate_eq dest: nth_mem)
qed

lemma slot_value_printed:
  assumes "getPane L s = Some p" "pane_printable e p"
  obtains out where "slot_value s L = Some out" "fd out (raw_part s L)"
proof (cases "paneIsPlaceholder s L")
  case True
  let ?ts = "filter (\<lambda>t. t \<noteq> []) [role_marker (paneRoleForSlot s L), intentionalEmptyPaneParam]"
  have "list_all2 fd ?ts ?ts"
    by (auto intro: fd_plain simp: intentionalEmptyPaneParam_def)
  then have "fd (readableParamComponent s @ CHR '':'' # js_join '','' ?ts) (s @ CHR '':'' # js_join '','' ?ts)"
    by (intro fd_append fd_Cons fd_join) auto
  with True that show ?thesis by (simp add: slot_value_def raw_part_def part_tokens_def Let_def)
next
  case False
  let ?m = "filter (\<lambda>t. t \<noteq> []) [role_marker (paneRoleForSlot s L)]"
  have tabs: "paneTabs s L = ps_tabs p" using assms(1) by (simp add: paneTabs_def)
  have np: "ps_tabs p \<noteq> []" using False assms by (auto simp: paneIsPlaceholder_def pane_printable_def)
  have ne: "filter (\<lambda>t. t \<noteq> []) (tab_tokens (activeItemForSide s L) (paneTabs s L)) = tab_tokens (activeItemForSide s L) (paneTabs s L)"
    using assms(2) by (intro tab_tokens_nonempty [where e = e]) (simp add: tabs pane_printable_def)
  have some: "tab_tokens (activeItemForSide s L) (paneTabs s L) \<noteq> []"
    using np by (cases "ps_tabs p") (simp_all add: tab_tokens_def tabs)
  have "list_all2 fd (?m @ tab_tokens (activeItemForSide s L) (paneTabs s L)) (?m @ raw_tokens (activeItemForSide s L) (paneTabs s L))"
    using fd_tokens by (intro list_all2_appendI) auto
  then have "fd (readableParamComponent s @ CHR '':'' # js_join '','' (?m @ tab_tokens (activeItemForSide s L) (paneTabs s L)))
      (s @ CHR '':'' # js_join '','' (?m @ raw_tokens (activeItemForSide s L) (paneTabs s L)))"
    by (intro fd_append fd_Cons fd_join) auto
  moreover have "slot_value s L = Some (readableParamComponent s @ CHR '':'' #
      js_join '','' (?m @ tab_tokens (activeItemForSide s L) (paneTabs s L)))"
    using False ne some by (auto simp: slot_value_def Let_def)
  ultimately show ?thesis using that False by (simp add: raw_part_def part_tokens_def)
qed

lemma raw_token_chars:
  assumes "list_all (item_url_safe e) tabs" "t \<in> set (raw_tokens active tabs)"
  shows "CHR '','' \<notin> set t \<and> CHR '';'' \<notin> set t"
proof -
  obtain x b where x: "x \<in> set tabs" "t = item_token b x" using raw_tokens_mem [OF assms(2)] by blast
  then have "CHR '','' \<notin> set (itemParam x)" "CHR '';'' \<notin> set (itemParam x)"
    using assms(1) by (auto simp: list_all_iff item_url_safe_def Let_def)
  then show ?thesis unfolding x(2) item_token_def by (auto dest!: protect_set)
qed

lemma part_token_chars:
  assumes "getPane L s = Some p" "pane_printable e p" "t \<in> set (part_tokens s L)"
  shows "CHR '','' \<notin> set t \<and> CHR '';'' \<notin> set t"
proof -
  have tabs: "list_all (item_url_safe e) (paneTabs s L)" using assms(1,2) by (simp add: paneTabs_def pane_printable_def)
  have "CHR '','' \<notin> set intentionalEmptyPaneParam \<and> CHR '';'' \<notin> set intentionalEmptyPaneParam"
    by (simp add: intentionalEmptyPaneParam_def)
  then show ?thesis
    using assms(3) raw_token_chars [OF tabs, of t] marker_chars
    by (auto simp: part_tokens_def split: if_splits)
qed

lemma readable_safe_not:
  "readable_safe c \<Longrightarrow> c \<noteq> CHR '':'' \<and> c \<noteq> CHR '';'' \<and> c \<noteq> CHR ''%'' \<and> \<not> js_isSpace c"
  by (auto simp: readable_safe_def uri_unreserved_def readable_extra_def js_isSpace_def byte_def Let_def)

lemma slot_plain_facts:
  assumes "slot_plain s"
  shows "CHR '':'' \<notin> set s" "CHR '';'' \<notin> set s" "layoutSlotName (safeDecodeURIComponent s) = Some s" "s \<noteq> []"
proof -
  have c: "\<And>c. c \<in> set s \<Longrightarrow> c \<noteq> CHR '':'' \<and> c \<noteq> CHR '';'' \<and> c \<noteq> CHR ''%'' \<and> \<not> js_isSpace c"
    using assms readable_safe_not by (simp add: slot_plain_def list_all_iff)
  show "CHR '':'' \<notin> set s" "CHR '';'' \<notin> set s" "s \<noteq> []" using c assms by (auto simp: slot_plain_def)
  have "js_trim s = s" by (rule js_trim_free) (use c in blast)
  moreover have "safeDecodeURIComponent s = s" by (rule safeDecode_plain) (use c in blast)
  ultimately show "layoutSlotName (safeDecodeURIComponent s) = Some s"
    using assms by (simp add: layoutSlotName_def slot_plain_def)
qed

lemma js_trim_nonempty: "c \<in> set s \<Longrightarrow> \<not> js_isSpace c \<Longrightarrow> js_trim s \<noteq> []"
  by (auto simp: js_trim_def dropWhile_eq_Nil_conv dest: set_dropWhileD)
    (metis dropWhile_eq_Nil_conv list.set_intros set_rev dropWhile_append3 hd_dropWhile hd_in_set rev_is_Nil_conv)

lemma parse_marker:
  assumes "role_marker r \<noteq> []"
  shows "parse_token e st (role_marker r) = st\<lparr>tp_role := r\<rparr>"
proof (cases r)
  case (Side sd)
  have trim: "js_trim (role_marker r) = role_marker r" by (rule js_trim_free) (use marker_chars in blast)
  have dec: "safeDecodeURIComponent (role_marker r) = role_marker r" by (rule safeDecode_plain) (use marker_chars in blast)
  have "last (role_marker r) \<noteq> CHR ''*''" using role_marker_values [of r] assms by auto
  then show ?thesis
    unfolding parse_token_def trim Let_def using assms Side
    by (cases sd) (simp_all add: dec [unfolded Side] Side role_marker_def paneRoleParamPrefix_def
        js_startsWith_def paneRoleDefinition_def pane_side_of_def safeDecode_plain)
qed (use assms in \<open>simp add: role_marker_def\<close>)

lemma parse_placeholder:
  "parse_token e st intentionalEmptyPaneParam = st\<lparr>tp_placeholder := True\<rparr>"
proof -
  have "js_trim intentionalEmptyPaneParam = intentionalEmptyPaneParam"
    by (rule js_trim_free) (simp add: intentionalEmptyPaneParam_def js_isSpace_def)
  moreover have "safeDecodeURIComponent intentionalEmptyPaneParam = intentionalEmptyPaneParam"
    by (rule safeDecode_plain) (simp add: intentionalEmptyPaneParam_def)
  ultimately show ?thesis
    by (simp add: parse_token_def Let_def)
      (simp add: intentionalEmptyPaneParam_def emptyPaneParam_def paneRoleParamPrefix_def js_startsWith_def)
qed

lemma parse_markers:
  "foldl (parse_token e) st (filter (\<lambda>t. t \<noteq> []) [role_marker r]) = (if r = Generic then st else st\<lparr>tp_role := r\<rparr>)"
  using parse_marker [of r e st] by (cases r) (auto simp: role_marker_def paneRoleParamPrefix_def)

lemma parsed_tokens:
  assumes p: "getPane L s = Some p" "pane_printable e p"
  shows "parsed_pane e (foldl (parse_token e) tab_parse_init (part_tokens s L)) = p"
proof -
  let ?st = "tab_parse_init\<lparr>tp_role := ps_role p\<rparr>"
  have role: "paneRoleForSlot s L = ps_role p" and tabs: "paneTabs s L = ps_tabs p"
    using p(1) by (simp_all add: paneRoleForSlot_def paneTabs_def)
  have init: "foldl (parse_token e) tab_parse_init (filter (\<lambda>t. t \<noteq> []) [role_marker (ps_role p)]) = ?st"
    unfolding parse_markers by (simp add: tab_parse_init_def)
  have ok: "pane_ok e p" "\<not> ps_legacy p" "ps_placeholder p \<longleftrightarrow> ps_tabs p = []" "list_all (item_url_safe e) (ps_tabs p)"
    using p(2) by (simp_all add: pane_printable_def)
  show ?thesis
  proof (cases "paneIsPlaceholder s L")
    case True
    then have e: "ps_tabs p = []" "ps_placeholder p" using p(1) by (simp_all add: paneIsPlaceholder_def)
    have "part_tokens s L = filter (\<lambda>t. t \<noteq> []) [role_marker (ps_role p)] @ [intentionalEmptyPaneParam]"
      using True by (simp add: part_tokens_def role intentionalEmptyPaneParam_def)
    then have "foldl (parse_token e) tab_parse_init (part_tokens s L) = ?st\<lparr>tp_placeholder := True\<rparr>"
      using init by (simp add: parse_placeholder)
    moreover have "ps_active p = None" using ok(1) e(1) by (auto simp: pane_ok_def split: option.splits)
    ultimately show ?thesis
      using e ok(2) by (simp add: parsed_pane_def tab_parse_init_def emptyPlaceholderPaneState_def)
  next
    case False
    let ?a = "activeItemForSide s L"
    have ne: "ps_tabs p \<noteq> []" using False p(1) ok(3) by (auto simp: paneIsPlaceholder_def)
    have act: "?a = ps_active p"
      using ok(1) p(1) False ne tabs by (auto simp: activeItemForSide_def Let_def pane_ok_def split: option.splits)
    then obtain a where a: "ps_active p = Some a" "a \<in> set (ps_tabs p)"
      using ok(1) ne by (auto simp: pane_ok_def split: option.splits)
    have dist: "distinct (ps_tabs p)" and ord: "orderPaneTabs e (ps_tabs p) = ps_tabs p"
      using ok(1) by (simp_all add: pane_ok_def)
    let ?ex = "\<exists>i < length (ps_tabs p). Some (ps_tabs p ! i) = ps_active p \<and> 0 < 0 + i"
    have pt: "part_tokens s L = filter (\<lambda>t. t \<noteq> []) [role_marker (ps_role p)] @ raw_tokens (ps_active p) (ps_tabs p)"
      using False by (simp add: part_tokens_def role tabs act)
    have "foldl (parse_token e) ?st (raw_tokens (ps_active p) (ps_tabs p)) =
        ?st\<lparr>tp_tabs := tp_tabs ?st @ ps_tabs p, tp_active := (if ?ex then ps_active p else tp_active ?st)\<rparr>"
      unfolding raw_tokens_alt
      by (rule parse_item_tokens) (use ok(4) dist in \<open>simp_all add: list_all_iff tab_parse_init_def\<close>)
    moreover have "tp_tabs ?st = []" "tp_active ?st = None" by (simp_all add: tab_parse_init_def)
    ultimately have fold: "foldl (parse_token e) tab_parse_init (part_tokens s L) =
        ?st\<lparr>tp_tabs := ps_tabs p, tp_active := (if ?ex then ps_active p else None)\<rparr>"
      unfolding pt foldl_append init by (simp only: append_Nil)
    have "(if ?ex then ps_active p else None) = ps_active p \<or> first_or_none (ps_tabs p) = ps_active p"
    proof -
      obtain i where i: "i < length (ps_tabs p)" "ps_tabs p ! i = a" using a(2) by (auto simp: in_set_conv_nth)
      show ?thesis
      proof (cases "0 < i")
        case True
        then show ?thesis using i a(1) by auto
      next
        case False
        then show ?thesis using i a(1) ne by (cases "ps_tabs p") auto
      qed
    qed
    moreover have "(if b then ps_active p else None) = Some a \<or> (if b then ps_active p else None) = None \<and> first_or_none (ps_tabs p) = Some a"
      if "(if b then ps_active p else None) = ps_active p \<or> first_or_none (ps_tabs p) = ps_active p" for b
      using that a(1) by (cases b) simp_all
    ultimately have pick: "(if ?ex then ps_active p else None) = Some a
        \<or> (if ?ex then ps_active p else None) = None \<and> first_or_none (ps_tabs p) = Some a" by blast
    have pane: "parsed_pane e (?st\<lparr>tp_tabs := ps_tabs p, tp_active := act\<rparr>) = p"
      if "act = Some a \<or> act = None \<and> first_or_none (ps_tabs p) = Some a" for act
    proof -
      have "parsed_pane e (?st\<lparr>tp_tabs := ps_tabs p, tp_active := act\<rparr>) = paneStateWithTabs e (ps_tabs p) act (ps_role p)"
        by (simp add: parsed_pane_def tab_parse_init_def)
      moreover have "ps_active (paneStateWithTabs e (ps_tabs p) act (ps_role p)) = ps_active p"
        using that a ord by (auto simp: paneStateWithTabs_def Let_def)
      ultimately show ?thesis using ord ok(2,3) ne by (simp add: paneStateWithTabs_def Let_def)
    qed
    show ?thesis unfolding fold using pick by (rule pane)
  qed
qed

lemma parse_raw_part:
  assumes s: "slot_plain s" and p: "getPane L s = Some p" "pane_printable e p"
  shows "parse_part e (raw_part s L) = Some (s, p)"
proof -
  note f = slot_plain_facts [OF s]
  have colon: "CHR '':'' \<in> set (raw_part s L)" by (simp add: raw_part_def)
  have trim: "js_trim (raw_part s L) \<noteq> []"
    using colon by (rule js_trim_nonempty) (simp add: js_isSpace_def)
  have tw: "takeWhile (\<lambda>c. c \<noteq> CHR '':'') (raw_part s L) = s"
    "dropWhile (\<lambda>c. c \<noteq> CHR '':'') (raw_part s L) = CHR '':'' # js_join '','' (part_tokens s L)"
    using f(1) unfolding raw_part_def
    by (subst takeWhile_append2 dropWhile_append2; auto)+
  have ne: "part_tokens s L \<noteq> []"
    using p by (auto simp: part_tokens_def intentionalEmptyPaneParam_def pane_printable_def paneIsPlaceholder_def
        paneTabs_def raw_tokens_def enumerate_eq_zip)
  have "js_split (CHR '','') (js_join '','' (part_tokens s L)) = part_tokens s L"
    using part_token_chars [OF p] by (intro js_split_join ne) blast
  then show ?thesis
    using trim f(3,4) parsed_tokens [OF p] by (simp add: parse_part_def tw Let_def)
qed

lemma raw_part_semicolon:
  assumes "slot_plain s" "getPane L s = Some p" "pane_printable e p"
  shows "CHR '';'' \<notin> set (raw_part s L)"
proof -
  have "CHR '';'' \<notin> set (js_join '','' ts)" if "\<forall>t \<in> set ts. CHR '';'' \<notin> set t" for ts
    using that by (induction "'',''" ts rule: js_join.induct) auto
  then show ?thesis
    using slot_plain_facts(2) [OF assms(1)] part_token_chars [OF assms(2,3)] by (auto simp: raw_part_def)
qed

section \<open>The whole layout\<close>

definition layout_printable :: "env \<Rightarrow> layout_slots \<Rightarrow> bool" where
  "layout_printable e L =
     (list_all slot_plain (layoutSlotKeys L)
      \<and> list_all (\<lambda>s. case getPane L s of Some p \<Rightarrow> pane_printable e p | None \<Rightarrow> False) (layoutSlotKeys L))"

lemma printable_pane:
  "layout_printable e L \<Longrightarrow> s \<in> set (layoutSlotKeys L) \<Longrightarrow>
   slot_plain s \<and> (\<exists>p. getPane L s = Some p \<and> pane_printable e p)"
  by (auto simp: layout_printable_def list_all_iff split: option.splits)

lemma fold_update_map_of:
  "map_of (foldl (\<lambda>m (s, p). AList.update s p m) m (map (\<lambda>s. (s, f s)) ss)) t =
   (if t \<in> set ss then Some (f t) else map_of m t)"
  by (induction ss arbitrary: m) auto

lemma tabs_param_decoded:
  assumes "layout_printable e L"
  shows "formDecode (layoutTabsParamValue L) = js_join '';'' (map (\<lambda>s. raw_part s L) (layoutSlotKeys L))"
proof -
  have "list_all2 fd (somes (map (\<lambda>s. slot_value s L) ss)) (map (\<lambda>s. raw_part s L) ss)"
    if "set ss \<subseteq> set (layoutSlotKeys L)" for ss
    using that
  proof (induction ss)
    case (Cons s ss)
    obtain p where p: "getPane L s = Some p" "pane_printable e p"
      using printable_pane [OF assms] Cons.prems by auto
    obtain out where "slot_value s L = Some out" "fd out (raw_part s L)"
      by (rule slot_value_printed [OF p])
    with Cons show ?case by simp
  qed simp
  then have "fd (layoutTabsParamValue L) (js_join '';'' (map (\<lambda>s. raw_part s L) (layoutSlotKeys L)))"
    unfolding layoutTabsParamValue_def by (intro fd_join) auto
  then show ?thesis by (rule fd_whole)
qed

lemma tab_states_read_back:
  assumes "layout_printable e L" "s \<in> set (layoutSlotKeys L)"
  shows "map_of (layoutTabStatesFromParam e (formDecode (layoutTabsParamValue L))) s = getPane L s"
proof -
  let ?ss = "layoutSlotKeys L"
  have pane: "\<And>t. t \<in> set ?ss \<Longrightarrow> \<exists>p. getPane L t = Some p \<and> pane_printable e p \<and> slot_plain t"
    using printable_pane [OF assms(1)] by blast
  have "js_split (CHR '';'') (js_join '';'' (map (\<lambda>s. raw_part s L) ?ss)) = map (\<lambda>s. raw_part s L) ?ss"
  proof (rule js_split_join)
    show "map (\<lambda>s. raw_part s L) ?ss \<noteq> []" using assms(2) by auto
    show "\<forall>t \<in> set (map (\<lambda>s. raw_part s L) ?ss). CHR '';'' \<notin> set t"
      using pane raw_part_semicolon by fastforce
  qed
  moreover have "somes (map (parse_part e) (map (\<lambda>s. raw_part s L) ts)) = map (\<lambda>s. (s, the (getPane L s))) ts"
    if "set ts \<subseteq> set ?ss" for ts
    using that
  proof (induction ts)
    case (Cons t ts)
    then obtain p where "getPane L t = Some p" "pane_printable e p" "slot_plain t" using pane by auto
    with Cons show ?case by (simp add: parse_raw_part)
  qed simp
  ultimately have "layoutTabStatesFromParam e (formDecode (layoutTabsParamValue L)) =
      foldl (\<lambda>m (s, p). AList.update s p m) [] (map (\<lambda>s. (s, the (getPane L s))) ?ss)"
    by (simp add: layoutTabStatesFromParam_def tabs_param_decoded [OF assms(1)])
  then show ?thesis
    using pane [OF assms(2)] assms(2) by (auto simp: fold_update_map_of)
qed

text \<open>The tree parameter of plain slots is unchanged by form decoding.\<close>

lemma plain_readable: "slot_plain s \<Longrightarrow> readableParamComponent s = s"
proof -
  have "list_all readable_safe s \<Longrightarrow> percent_encode readable_safe s = s"
    by (induction s) auto
  then show "slot_plain s \<Longrightarrow> readableParamComponent s = s"
    by (simp add: slot_plain_def readableParamComponent_alt)
qed

lemma fd_compact:
  "list_all slot_plain (layoutLeafSlots n) \<Longrightarrow> fd (compactLayoutTreeParam n) (compactLayoutTreeParam n)"
proof (induction n)
  case (Leaf s)
  then show ?case using fd_readable [of s] plain_readable [of s] by simp
next
  case (Split d p a b)
  have "\<forall>c \<in> set (splitPercentForDisplay (PctNumber p)). decimal_char c"
    using decimal_showNat by (auto simp: splitPercentForDisplay_def Let_def decimal_char_def simp del: showNat_one splitPercent.simps split: if_splits)
  then have "fd (splitPercentForDisplay (PctNumber p)) (splitPercentForDisplay (PctNumber p))"
    by (intro fd_plain) (auto simp: decimal_char_def is_digit_def)
  with Split show ?case
    by (auto intro!: fd_append fd_Cons)
qed

lemma slot_plain_printable: "slot_plain s \<Longrightarrow> slot_printable s"
proof -
  assume s: "slot_plain s"
  have "\<forall>c \<in> set s. byte c < 128"
    using s by (auto simp: slot_plain_def list_all_iff readable_safe_def uri_unreserved_def Let_def byte_def)
  moreover have "safeDecodeURIComponent s = s"
    using s readable_safe_not by (intro safeDecode_plain) (auto simp: slot_plain_def list_all_iff)
  ultimately show ?thesis using slot_plain_facts(3) [OF s] by (simp add: slot_printable_def utf8_wf_ascii)
qed

text \<open>The slots read back: every leaf has its pane again, in the tree rounded to tenths.\<close>

lemma layout_url_read_back:
  assumes tree: "lay_tree L = Some n" and p: "layout_printable e L"
  shows "parse_node (formDecode (layoutParamValue L)) = Some (rounded_node n, [])"
    and "\<forall>s \<in> set (layoutLeafSlots n).
      getPane (compact_tree_slots (layoutTabStatesFromParam e (formDecode (layoutTabsParamValue L))) (rounded_node n)) s
      = getPane L s"
proof -
  have keys: "layoutSlotKeys L = layoutLeafSlots n" using tree by (rule layoutSlotKeys_tree)
  then have plain: "list_all slot_plain (layoutLeafSlots n)" using p by (simp add: layout_printable_def)
  then have "formDecode (layoutParamValue L) = compactLayoutTreeParam n"
    using tree fd_whole [OF fd_compact] by (simp add: layoutParamValue_def)
  moreover have "list_all slot_printable (layoutLeafSlots n)"
    using plain slot_plain_printable by (simp add: list_all_iff)
  ultimately show "parse_node (formDecode (layoutParamValue L)) = Some (rounded_node n, [])"
    using parse_compact_tree [of n "[]"] by (simp add: node_ends_def)
  have lv: "layoutLeafSlots (rounded_node m) = layoutLeafSlots m" for m by (induction m) auto
  show "\<forall>s \<in> set (layoutLeafSlots n).
      getPane (compact_tree_slots (layoutTabStatesFromParam e (formDecode (layoutTabsParamValue L))) (rounded_node n)) s
      = getPane L s"
    using tab_states_read_back [OF p] printable_pane [OF p]
    by (auto simp: compact_tree_slots_def lv keys panes.look_fold_put split: option.splits)
qed

end
