(* ===== verification/Storage_Properties.thy ===== *)
theory Storage_Properties
  imports "HOL-Library.Sublist" Layout_Action_Properties Layout_Unique Layout_Restore Layout_Url_Roundtrip
begin

text \<open>
  The properties of layouts at rest: what survives canonical placement once more (each tab shown
  once), a stored layout read back, the layout URL written and read, the component codec below it,
  fresh slot names, tab order and the distribution of items over panes.
\<close>

section \<open>Canonical and stored layouts\<close>

text \<open>
  Canonical side-pane placement never shows a tab twice: a layout whose leaves and tabs are
  distinct is placed into a layout whose leaves and tabs are distinct.
\<close>

theorem canonical_placement_shows_tabs_once:
  assumes "lay_tree L = Some n" "node_ok n" "layout_unique L" "\<forall>x \<in> set (paneItems L). isLayoutItem e x"
  shows "layout_unique (canonicalSidePanes e L n preserve)"
  using assms by (rule canonical_unique)

theorem canonical_placement_shows_tabs_once_witness:
  "layout_unique (canonicalSidePanes sample_env sample_layout sample_tree False)"
proof (rule canonical_placement_shows_tabs_once)
  show "layout_unique sample_layout" by code_simp
qed (rule sample_layout_facts)+

definition sample_stored :: raw_layout where
  "sample_stored = raw_layout_of sample_layout"

definition wide_options :: norm_options where
  "wide_options = norm_defaults\<lparr>no_allowSidePanes := True\<rparr>"

text \<open>
  C6. Reading a stored layout on a wide viewport gives a sound one: the leaves and tabs are distinct
  and every pane holds only tabs its role allows. The stored tree may be any binary one with at
  least one leaf and distinct leaves, with unknown words, percentages and repeated tabs. The items
  of the layout are exactly the stored tabs that still resolve to known items, provided that no
  stored left side pane is an empty placeholder and that removed slots are not preserved.
\<close>

theorem stored_layout_restores:
  assumes "raw_binary (rl_tree v)" "distinct (raw_leaves (rl_tree v))" "raw_leaves (rl_tree v) \<noteq> []" "wide e opts"
  shows "layout_unique (normalizeTreeLayout e v opts) \<and> layout_roles_ok e (normalizeTreeLayout e v opts)
    \<and> (raw_no_left_placeholder v \<longrightarrow> \<not> no_preserveRemovedSlots opts \<longrightarrow>
        set (paneItems (normalizeTreeLayout e v opts)) = raw_items e v (raw_leaves (rl_tree v)))"
  using normalizeTreeLayout_restores [OF assms] by blast

theorem stored_layout_restores_witness:
  "layout_unique (normalizeTreeLayout sample_env sample_stored wide_options)
   \<and> set (paneItems (normalizeTreeLayout sample_env sample_stored wide_options))
     = raw_items sample_env sample_stored [''left'', ''right'']"
proof -
  have lv: "raw_leaves (rl_tree sample_stored) = [''left'', ''right'']" by code_simp
  have a: "raw_binary (rl_tree sample_stored)" "wide sample_env wide_options"
    "raw_no_left_placeholder sample_stored" "\<not> no_preserveRemovedSlots wide_options"
    by code_simp+
  have "distinct (raw_leaves (rl_tree sample_stored))" "raw_leaves (rl_tree sample_stored) \<noteq> []" by (simp_all add: lv)
  from stored_layout_restores [OF a(1) this a(2)] a(3,4) show ?thesis by (simp add: lv)
qed

section \<open>The layout URL\<close>

text \<open>
  C4. A layout written into the URL reads back: the layout parameter parses to the same tree, with
  each split rounded to a tenth of a percent, the parameter is used up, and every leaf gets its
  pane back with its role, tabs, order and active tab. It holds for layouts whose item parameters
  hold none of the separators of the tabs parameter.
\<close>

theorem layout_url_round_trip:
  assumes "lay_tree L = Some n" "layout_printable e L"
  shows "parse_node (formDecode (layoutParamValue L)) = Some (rounded_node n, [])
    \<and> (\<forall>s \<in> set (layoutLeafSlots n).
        getPane (compact_tree_slots (layoutTabStatesFromParam e (formDecode (layoutTabsParamValue L))) (rounded_node n)) s
        = getPane L s)"
  using layout_url_read_back [OF assms] by blast

theorem layout_url_round_trip_witness:
  "parse_node (formDecode (layoutParamValue terminal_layout)) = Some (rounded_node sample_tree, [])"
proof -
  have "layout_printable sample_env terminal_layout" by code_simp
  with layout_url_round_trip [OF terminal_layout_facts(1)] show ?thesis by blast
qed

definition semicolon_item :: item where
  "semicolon_item = ''file:/a;b''"

definition semicolon_env :: env where
  "semicolon_env = sample_env\<lparr>layoutItems := [''1'', semicolon_item]\<rparr>"

definition semicolon_layout :: layout_slots where
  "semicolon_layout = \<lparr>lay_tree = Some (Leaf ''left''),
     lay_panes = [(''left'', paneStateWithTabs semicolon_env [''1'', semicolon_item] None Generic)]\<rparr>"

text \<open>
  A path with a semicolon does not survive the URL: the separator is percent-encoded, but the
  query parser decodes it before the tabs parameter is split, so the reader cuts the tab in two and
  the pane comes back without it.
\<close>

theorem semicolon_path_lost_in_url:
  "resolveLayoutItem semicolon_env (itemParam semicolon_item) = Some semicolon_item
   \<and> paneTabs ''left'' semicolon_layout = [''1'', semicolon_item]
   \<and> map_option ps_tabs (map_of (layoutTabStatesFromParam semicolon_env
        (formDecode (layoutTabsParamValue semicolon_layout))) ''left'') = Some [''1'']"
  by (intro conjI; code_simp)

text \<open>
  The component codec is lossless and safe: decoding a readable component gives the string
  back, also through the query parser, and no separator of the layout syntax occurs in it.
\<close>

theorem readable_component_round_trip:
  assumes "utf8_wf s"
  shows "decodeURIComponent (readableParamComponent s) = Some s \<and> formDecode (readableParamComponent s) = s
    \<and> set (readableParamComponent s) \<inter> layout_delims = {}"
  using decode_readable [OF assms] formDecode_readable readable_free by blast

theorem readable_component_round_trip_witness:
  "decodeURIComponent (readableParamComponent ''a;(b)%'') = Some ''a;(b)%''"
proof -
  have "utf8_wf ''a;(b)%''" by (rule utf8_wf_ascii) (simp add: byte_def)
  then show ?thesis using readable_component_round_trip by blast
qed

text \<open>
  C11. Reading a compact tree always makes progress: the recursive reader stops on every input and
  whatever it accepts leaves a strictly shorter rest, so nested and malformed parameters end.
\<close>

theorem compact_tree_reader_progress:
  "case parse_node s of None \<Rightarrow> True | Some (n, rest) \<Rightarrow> length rest < length s"
proof (cases "parse_node s")
  case (Some r)
  obtain n rest where r: "r = (n, rest)" by (rule prod.exhaust)
  with Some parse_dom [of s] show ?thesis by auto
qed simp

section \<open>Slots, tabs and groups\<close>

text \<open>
  A fresh slot is unused and the least of its kind: it is \<open>slot<k>\<close> with \<open>k\<close> at least 1, no pane
  of the layout has it, and every smaller number is taken.
\<close>

theorem fresh_slot_least:
  "\<exists>k\<ge>1. nextLayoutSlot L = numbered_slot k \<and> getPane L (nextLayoutSlot L) = None
     \<and> list_all (\<lambda>j. getPane L (numbered_slot j) \<noteq> None) [1..<k]"
proof -
  let ?used = "map fst (lay_panes L)"
  note s = free_slot_index_spec [of ?used 1]
  have "list_all (\<lambda>j. getPane L (numbered_slot j) \<noteq> None) [1..<free_slot_index ?used 1]"
    using s by (auto simp: list_all_iff getPane_None_iff)
  moreover have "1 \<le> free_slot_index ?used 1" using s by blast
  moreover have "nextLayoutSlot L = numbered_slot (free_slot_index ?used 1)" by (simp add: nextLayoutSlot_def)
  ultimately show ?thesis using nextLayoutSlot_fresh by blast
qed

text \<open>
  Ordering the tabs of a pane keeps exactly the known items once each, puts the pinned ones
  first, keeps the order within the pinned and the unpinned ones, and changes nothing the second
  time.
\<close>

theorem tab_order_pinned_first:
  "set (orderPaneTabs e tabs) = {x \<in> set tabs. isLayoutItem e x} \<and> distinct (orderPaneTabs e tabs)
   \<and> (\<exists>u. subseq u tabs \<and> orderPaneTabs e tabs = filter (tabIsPinned e) u @ filter (\<lambda>x. \<not> tabIsPinned e x) u)
   \<and> orderPaneTabs e (orderPaneTabs e tabs) = orderPaneTabs e tabs"
proof -
  let ?u = "foldl push_new [] (filter (isLayoutItem e) tabs)"
  have "subseq (foldl push_new acc xs) (acc @ xs)" for acc xs :: "item list"
  proof (induction xs arbitrary: acc)
    case (Cons x xs)
    have "subseq (push_new acc x @ xs) (acc @ x # xs)" by (auto simp: push_new_def intro: list_emb_append_mono)
    with Cons.IH [of "push_new acc x"] show ?case by (simp add: subseq_order.trans)
  qed simp
  from this [of "[]" "filter (isLayoutItem e) tabs"] have sub: "subseq ?u (filter (isLayoutItem e) tabs)" by simp
  have "subseq ?u tabs" by (rule subseq_order.trans [OF sub subseq_filter_left])
  moreover have "orderPaneTabs e tabs = filter (tabIsPinned e) ?u @ filter (\<lambda>x. \<not> tabIsPinned e x) ?u"
    by (simp add: orderPaneTabs_def Let_def)
  ultimately have "\<exists>u. subseq u tabs \<and> orderPaneTabs e tabs = filter (tabIsPinned e) u @ filter (\<lambda>x. \<not> tabIsPinned e x) u"
    by blast
  then show ?thesis by simp
qed

text \<open>
  Items are spread evenly over panes: the groups are as many as asked for, together they are
  the items in order, and their sizes differ from an even share by at most rounding.
\<close>

theorem items_spread_evenly:
  assumes "0 < n"
  shows "length (partitionLayoutItems items n) = n \<and> concat (partitionLayoutItems items n) = items
    \<and> list_all (\<lambda>g. length items div n \<le> length g \<and> length g \<le> (length items + n - 1) div n) (partitionLayoutItems items n)"
  using concat_partition [OF assms] partition_sizes by (auto simp: list_all_iff)

theorem items_spread_evenly_witness:
  "concat (partitionLayoutItems [1 :: nat, 2, 3, 4, 5] 3) = [1, 2, 3, 4, 5]"
  using items_spread_evenly [of 3 "[1 :: nat, 2, 3, 4, 5]"] by simp

end
