(* ===== verification/Tmux_Lifecycle.thy ===== *)
theory Tmux_Lifecycle
  imports Layout_Workspace
begin

text \<open>
  The lifecycle of tmux sessions (\<open>20_layout_state.js\<close>, from \<open>newTmuxSessionLifecycleRecord\<close> to
  \<open>computeLayoutItems\<close>): one record per generation of a session name, the leases of API
  requests, the owned scopes, sources and timers, and the create, rename and kill transactions
  that \<open>runTmuxSessionMutation\<close> (\<open>70_layout_actions.js\<close>) drives against the server.

  A record is identified by its generation: \<open>tmuxSessionLifecycleGeneration\<close> is incremented for
  every record, so the generation distinguishes record objects, and a token (a record with its
  generation) is that number. Scopes, sources and timers are numbers too; \<open>tm_released\<close> lists
  what the retirement of records has disposed, closed or cleared. Times are in milliseconds and
  every operation that reads the clock takes the time as an argument.
\<close>

section \<open>State\<close>

datatype phase = Stable | Creating | RenamingIn | RenamingOut | Killing | Retired

definition pendingTmuxSessionGraceMs :: nat where "pendingTmuxSessionGraceMs = 30000"

definition pending_phase :: "phase \<Rightarrow> bool" where
  "pending_phase p = (p \<in> {Creating, RenamingIn})"

definition blocked_phase :: "phase \<Rightarrow> bool" where
  "blocked_phase p = (p \<in> {RenamingOut, Killing, Retired})"

datatype resource = Scope nat | Source nat | Timer nat

record lc_record =
  lc_name :: string
  lc_topologyEpoch :: nat
  lc_phase :: phase
  lc_committed :: bool
  lc_pendingUntil :: nat
  lc_leases :: "nat list"
  lc_owned :: "resource list"
  lc_serverGeneration :: nat

datatype mutation_kind = MCreate | MRename | MKill
datatype txn_state = TActive | TSuperseded | TCommitted | TRolledBack

record txn =
  tx_kind :: mutation_kind
  tx_topologyEpoch :: nat
  tx_session :: string
  tx_newName :: string
  tx_state :: txn_state
  tx_old :: "nat option"
  tx_new :: "nat option"
  tx_serverGeneration :: nat

record tmux_state =
  tm_store :: "(nat \<times> lc_record) list"
  tm_names :: "(string \<times> nat) list"
  tm_generation :: nat
  tm_epoch :: nat
  tm_serial :: nat
  tm_current :: "nat option"
  tm_txns :: "(nat \<times> txn) list"
  tm_leaseSerial :: nat
  tm_leaseOwner :: "(nat \<times> nat) list"
  tm_settled :: "nat list"
  tm_sourceToken :: "(nat \<times> nat) list"
  tm_released :: "resource list"

definition tmux_init :: tmux_state where
  "tmux_init = \<lparr>tm_store = [], tm_names = [], tm_generation = 0, tm_epoch = 0, tm_serial = 0,
     tm_current = None, tm_txns = [], tm_leaseSerial = 0, tm_leaseOwner = [], tm_settled = [],
     tm_sourceToken = [], tm_released = []\<rparr>"

definition getRecord :: "tmux_state \<Rightarrow> nat \<Rightarrow> lc_record option" where
  "getRecord s g = map_of (tm_store s) g"

definition putRecord :: "nat \<Rightarrow> lc_record \<Rightarrow> tmux_state \<Rightarrow> tmux_state" where
  "putRecord g r s = s\<lparr>tm_store := AList.update g r (tm_store s)\<rparr>"

definition namedRecord :: "tmux_state \<Rightarrow> string \<Rightarrow> nat option" where
  "namedRecord s n = map_of (tm_names s) n"

definition getTxn :: "tmux_state \<Rightarrow> nat \<Rightarrow> txn option" where
  "getTxn s i = map_of (tm_txns s) i"

definition putTxn :: "nat \<Rightarrow> txn \<Rightarrow> tmux_state \<Rightarrow> tmux_state" where
  "putTxn i t s = s\<lparr>tm_txns := AList.update i t (tm_txns s)\<rparr>"

text \<open>A change of one record, nothing when there is no such record.\<close>

definition modRecord :: "nat \<Rightarrow> (lc_record \<Rightarrow> lc_record) \<Rightarrow> tmux_state \<Rightarrow> tmux_state" where
  "modRecord g f s = (case getRecord s g of None \<Rightarrow> s | Some r \<Rightarrow> putRecord g (f r) s)"

definition recordPhase :: "tmux_state \<Rightarrow> nat \<Rightarrow> phase option" where
  "recordPhase s g = map_option lc_phase (getRecord s g)"

section \<open>Records and tokens\<close>

definition retireTmuxSessionLifecycleRecord :: "nat \<Rightarrow> tmux_state \<Rightarrow> tmux_state" where
  "retireTmuxSessionLifecycleRecord g s =
     (case getRecord s g of
        None \<Rightarrow> s
      | Some r \<Rightarrow>
          if lc_phase r = Retired then s
          else (putRecord g (r\<lparr>lc_phase := Retired, lc_pendingUntil := 0, lc_owned := []\<rparr>) s)
                 \<lparr>tm_released := tm_released s @ lc_owned r\<rparr>)"

definition newTmuxSessionLifecycleRecord ::
  "string \<Rightarrow> phase \<Rightarrow> nat \<Rightarrow> nat \<Rightarrow> tmux_state \<Rightarrow> nat option \<times> tmux_state" where
  "newTmuxSessionLifecycleRecord session phase epoch now s =
     (let name = js_trim session in
      if name = [] then (None, s)
      else
        let s1 = (case namedRecord s name of Some g \<Rightarrow> retireTmuxSessionLifecycleRecord g s | None \<Rightarrow> s);
            g = Suc (tm_generation s1);
            r = \<lparr>lc_name = name, lc_topologyEpoch = epoch, lc_phase = phase, lc_committed = (phase = Stable),
                 lc_pendingUntil = (if pending_phase phase then now + pendingTmuxSessionGraceMs else 0),
                 lc_leases = [], lc_owned = [], lc_serverGeneration = 0\<rparr>
        in (Some g, (putRecord g r s1)\<lparr>tm_generation := g, tm_names := AList.update name g (tm_names s1)\<rparr>))"

text \<open>The record of a session, created as a stable one when there is none.\<close>

definition tmuxSessionLifecycleRecord :: "string \<Rightarrow> nat \<Rightarrow> tmux_state \<Rightarrow> nat option \<times> tmux_state" where
  "tmuxSessionLifecycleRecord session now s =
     (let name = js_trim session in
      if name = [] then (None, s)
      else (case namedRecord s name of
        Some g \<Rightarrow> (Some g, s)
      | None \<Rightarrow> newTmuxSessionLifecycleRecord name Stable (tm_epoch s) now s))"

definition tmuxSessionLifecycleTokenIsCurrent :: "nat \<Rightarrow> bool \<Rightarrow> tmux_state \<Rightarrow> bool" where
  "tmuxSessionLifecycleTokenIsCurrent g allowBlocked s =
     (case getRecord s g of
        None \<Rightarrow> False
      | Some r \<Rightarrow> namedRecord s (lc_name r) = Some g
          \<and> (if allowBlocked then lc_phase r \<noteq> Retired else \<not> blocked_phase (lc_phase r)))"

definition tmuxSessionLifecycleAllowsTopologySession :: "string \<Rightarrow> tmux_state \<Rightarrow> bool" where
  "tmuxSessionLifecycleAllowsTopologySession session s =
     (case namedRecord s (js_trim session) of
        None \<Rightarrow> True
      | Some g \<Rightarrow>
          (case getRecord s g of
             None \<Rightarrow> True
           | Some r \<Rightarrow> \<not> blocked_phase (lc_phase r) \<and> (\<not> pending_phase (lc_phase r) \<or> lc_committed r)))"

section \<open>Owned resources\<close>

definition ownResource :: "nat \<Rightarrow> resource \<Rightarrow> tmux_state \<Rightarrow> tmux_state" where
  "ownResource g x = modRecord g (\<lambda>r. if x \<in> set (lc_owned r) then r else r\<lparr>lc_owned := lc_owned r @ [x]\<rparr>)"

definition releaseResource :: "nat \<Rightarrow> resource \<Rightarrow> tmux_state \<Rightarrow> tmux_state" where
  "releaseResource g x = modRecord g (\<lambda>r. r\<lparr>lc_owned := filter (\<lambda>y. y \<noteq> x) (lc_owned r)\<rparr>)"

definition tmuxSessionLifecycleOwnSource :: "string \<Rightarrow> nat \<Rightarrow> nat \<Rightarrow> tmux_state \<Rightarrow> nat option \<times> tmux_state" where
  "tmuxSessionLifecycleOwnSource session source now s =
     (case tmuxSessionLifecycleRecord session now s of
        (None, s1) \<Rightarrow> (None, s1)
      | (Some g, s1) \<Rightarrow>
          (Some g, (ownResource g (Source source) s1)\<lparr>tm_sourceToken := AList.update source g (tm_sourceToken s1)\<rparr>))"

definition tmuxSessionLifecycleReleaseSource :: "nat \<Rightarrow> nat \<Rightarrow> tmux_state \<Rightarrow> tmux_state" where
  "tmuxSessionLifecycleReleaseSource g source s =
     (let s1 = releaseResource g (Source source) s
      in if map_of (tm_sourceToken s) source = Some g
         then s1\<lparr>tm_sourceToken := AList.delete source (tm_sourceToken s)\<rparr> else s1)"

definition tmuxSessionLifecycleSourceIsCurrent :: "nat \<Rightarrow> tmux_state \<Rightarrow> bool" where
  "tmuxSessionLifecycleSourceIsCurrent source s =
     (case map_of (tm_sourceToken s) source of
        None \<Rightarrow> False | Some g \<Rightarrow> tmuxSessionLifecycleTokenIsCurrent g False s)"

definition tmuxSessionLifecycleOwnScope :: "nat \<Rightarrow> nat \<Rightarrow> tmux_state \<Rightarrow> tmux_state" where
  "tmuxSessionLifecycleOwnScope g scope = ownResource g (Scope scope)"

definition tmuxSessionLifecycleReleaseScope :: "nat \<Rightarrow> nat \<Rightarrow> tmux_state \<Rightarrow> tmux_state" where
  "tmuxSessionLifecycleReleaseScope g scope = releaseResource g (Scope scope)"

definition tmuxSessionLifecycleOwnTimer :: "nat \<Rightarrow> nat \<Rightarrow> tmux_state \<Rightarrow> tmux_state" where
  "tmuxSessionLifecycleOwnTimer g timer = ownResource g (Timer timer)"

definition tmuxSessionLifecycleReleaseTimer :: "nat \<Rightarrow> nat \<Rightarrow> tmux_state \<Rightarrow> tmux_state" where
  "tmuxSessionLifecycleReleaseTimer g timer = releaseResource g (Timer timer)"

section \<open>Request leases\<close>

definition tmuxSessionLifecycleAcquireRequest :: "string \<Rightarrow> nat \<Rightarrow> tmux_state \<Rightarrow> nat option \<times> tmux_state" where
  "tmuxSessionLifecycleAcquireRequest session now s =
     (case tmuxSessionLifecycleRecord session now s of
        (None, s1) \<Rightarrow> (None, s1)
      | (Some g, s1) \<Rightarrow>
          (case getRecord s1 g of
             None \<Rightarrow> (None, s1)
           | Some r \<Rightarrow>
               if blocked_phase (lc_phase r) then (None, s1)
               else
                 let l = Suc (tm_leaseSerial s1)
                 in (Some l, (putRecord g (r\<lparr>lc_leases := lc_leases r @ [l]\<rparr>) s1)
                      \<lparr>tm_leaseSerial := l, tm_leaseOwner := AList.update l g (tm_leaseOwner s1)\<rparr>)))"

text \<open>\<open>lease.release\<close>: the promise settles the first time.\<close>

definition releaseLease :: "nat \<Rightarrow> tmux_state \<Rightarrow> tmux_state \<times> bool" where
  "releaseLease l s =
     (case map_of (tm_leaseOwner s) l of
        None \<Rightarrow> (s, False)
      | Some g \<Rightarrow>
          (case getRecord s g of
             None \<Rightarrow> (s, False)
           | Some r \<Rightarrow>
               if l \<in> set (lc_leases r)
               then ((putRecord g (r\<lparr>lc_leases := filter (\<lambda>m. m \<noteq> l) (lc_leases r)\<rparr>) s)
                       \<lparr>tm_settled := tm_settled s @ [l]\<rparr>, True)
               else (s, False)))"

section \<open>Mutations\<close>

definition set_phase :: "phase \<Rightarrow> lc_record \<Rightarrow> lc_record" where
  "set_phase p r = r\<lparr>lc_phase := p, lc_pendingUntil := 0\<rparr>"

definition retireOption :: "nat option \<Rightarrow> tmux_state \<Rightarrow> tmux_state" where
  "retireOption g s = (case g of Some k \<Rightarrow> retireTmuxSessionLifecycleRecord k s | None \<Rightarrow> s)"

text \<open>The old record becomes stable again when it is still the record of its name.\<close>

definition is_named :: "nat \<Rightarrow> tmux_state \<Rightarrow> bool" where
  "is_named g s = (case getRecord s g of None \<Rightarrow> False | Some r \<Rightarrow> namedRecord s (lc_name r) = Some g)"

definition reconcileSupersededTmuxSessionLifecycleMutation :: "nat \<Rightarrow> tmux_state \<Rightarrow> tmux_state" where
  "reconcileSupersededTmuxSessionLifecycleMutation i s =
     (case getTxn s i of
        None \<Rightarrow> s
      | Some t \<Rightarrow>
          (let s1 = retireOption (tx_new t) (putTxn i (t\<lparr>tx_state := TSuperseded\<rparr>) s)
           in (case tx_old t of
                 None \<Rightarrow> s1
               | Some g \<Rightarrow> if is_named g s1 \<and> recordPhase s1 g \<noteq> Some Retired
                           then modRecord g (set_phase Stable) s1 else s1)))"

definition supersedeCurrent :: "tmux_state \<Rightarrow> tmux_state" where
  "supersedeCurrent s =
     (case tm_current s of
        None \<Rightarrow> s
      | Some i \<Rightarrow>
          (case getTxn s i of
             Some t \<Rightarrow> if tx_state t = TActive then reconcileSupersededTmuxSessionLifecycleMutation i s else s
           | None \<Rightarrow> s))"

text \<open>\<open>beginTmuxSessionLifecycleMutation\<close>, in the order of the source: the serial and the epoch,
  the superseded transaction, the old record, the new record. The result is the transaction's id.\<close>

definition beginOldRecord :: "mutation_kind \<Rightarrow> string \<Rightarrow> nat \<Rightarrow> nat \<Rightarrow> tmux_state \<Rightarrow> nat option \<times> tmux_state" where
  "beginOldRecord kind session epoch now s =
     (if session = [] \<or> kind = MCreate then (None, s)
      else (case tmuxSessionLifecycleRecord session now s of
        (None, s1) \<Rightarrow> (None, s1)
      | (Some g, s1) \<Rightarrow>
          (Some g, modRecord g (\<lambda>r. set_phase (if kind = MRename then RenamingOut else Killing)
             (r\<lparr>lc_topologyEpoch := epoch\<rparr>)) s1)))"

definition beginNewRecord ::
  "mutation_kind \<Rightarrow> string \<Rightarrow> string \<Rightarrow> nat \<Rightarrow> nat \<Rightarrow> nat \<Rightarrow> tmux_state \<Rightarrow> nat option \<times> tmux_state" where
  "beginNewRecord kind session newName serverGeneration epoch now s =
     (if kind = MCreate \<and> session \<noteq> []
      then (case newTmuxSessionLifecycleRecord session Creating epoch now s of
              (None, s1) \<Rightarrow> (None, s1)
            | (Some g, s1) \<Rightarrow> (Some g, modRecord g (\<lambda>r. r\<lparr>lc_serverGeneration := serverGeneration\<rparr>) s1))
      else if kind = MRename \<and> newName \<noteq> []
      then newTmuxSessionLifecycleRecord newName RenamingIn epoch now s
      else (None, s))"

definition beginTmuxSessionLifecycleMutation ::
  "mutation_kind \<Rightarrow> string \<Rightarrow> string \<Rightarrow> nat \<Rightarrow> nat \<Rightarrow> tmux_state \<Rightarrow> nat \<times> tmux_state" where
  "beginTmuxSessionLifecycleMutation kind rawSession rawNewName serverGeneration now s =
     (let session = js_trim rawSession; newName = js_trim rawNewName;
          i = Suc (tm_serial s); epoch = Suc (tm_epoch s);
          s1 = (supersedeCurrent (s\<lparr>tm_serial := i, tm_epoch := epoch\<rparr>))\<lparr>tm_current := Some i\<rparr>;
          (old, s2) = beginOldRecord kind session epoch now s1;
          (new, s3) = beginNewRecord kind session newName serverGeneration epoch now s2
      in (i, putTxn i \<lparr>tx_kind = kind, tx_topologyEpoch = epoch, tx_session = session, tx_newName = newName,
                tx_state = TActive, tx_old = old, tx_new = new, tx_serverGeneration = serverGeneration\<rparr> s3))"

definition tmuxSessionLifecycleMutationIsCurrent :: "nat \<Rightarrow> tmux_state \<Rightarrow> bool" where
  "tmuxSessionLifecycleMutationIsCurrent i s =
     (tm_current s = Some i \<and> (case getTxn s i of Some t \<Rightarrow> tx_state t = TActive | None \<Rightarrow> False))"

text \<open>The leases a mutation waits for: those of the old record when it begins.\<close>

definition tmuxSessionLifecycleMutationLeasePromises :: "nat \<Rightarrow> tmux_state \<Rightarrow> nat list" where
  "tmuxSessionLifecycleMutationLeasePromises i s =
     (case getTxn s i of
        Some t \<Rightarrow> (case tx_old t of
            Some g \<Rightarrow> (case getRecord s g of Some r \<Rightarrow> lc_leases r | None \<Rightarrow> [])
          | None \<Rightarrow> [])
      | None \<Rightarrow> [])"

definition commitNewRecord :: "txn \<Rightarrow> string \<Rightarrow> string \<Rightarrow> nat \<Rightarrow> tmux_state \<Rightarrow> nat option \<times> tmux_state" where
  "commitNewRecord t optSession optNewName now s =
     (case (tx_kind t, tx_new t) of
        (MCreate, None) \<Rightarrow> newTmuxSessionLifecycleRecord (js_trim optSession) Creating (tx_topologyEpoch t) now s
      | (MRename, Some g) \<Rightarrow>
          (let current = (case getRecord s g of Some r \<Rightarrow> lc_name r | None \<Rightarrow> []);
               committedName = js_trim (if optNewName \<noteq> [] then optNewName else current)
           in if committedName \<noteq> [] \<and> committedName \<noteq> current
              then newTmuxSessionLifecycleRecord committedName RenamingIn (tx_topologyEpoch t) now
                     (retireTmuxSessionLifecycleRecord g s)
              else (Some g, s))
      | (_, new) \<Rightarrow> (new, s))"

definition commitTmuxSessionLifecycleMutation ::
  "nat \<Rightarrow> string \<Rightarrow> string \<Rightarrow> nat \<Rightarrow> tmux_state \<Rightarrow> nat option \<times> tmux_state" where
  "commitTmuxSessionLifecycleMutation i optSession optNewName now s =
     (case getTxn s i of
        None \<Rightarrow> (None, s)
      | Some t \<Rightarrow>
          if \<not> tmuxSessionLifecycleMutationIsCurrent i s then (None, s)
          else
            let (new, s1) = commitNewRecord t optSession optNewName now s;
                s2 = retireOption (tx_old t) s1;
                s3 = (case new of Some g \<Rightarrow> modRecord g (\<lambda>r. r\<lparr>lc_committed := True\<rparr>) s2 | None \<Rightarrow> s2)
            in (or_else new (tx_old t),
                (putTxn i (t\<lparr>tx_state := TCommitted, tx_new := new\<rparr>) s3)\<lparr>tm_current := None\<rparr>))"

definition rollbackTmuxSessionLifecycleMutation :: "nat \<Rightarrow> tmux_state \<Rightarrow> tmux_state \<times> bool" where
  "rollbackTmuxSessionLifecycleMutation i s =
     (case getTxn s i of
        None \<Rightarrow> (s, False)
      | Some t \<Rightarrow>
          if \<not> tmuxSessionLifecycleMutationIsCurrent i s then (s, False)
          else
            let s1 = retireOption (tx_new t) s;
                s2 = (case tx_old t of
                   None \<Rightarrow> s1
                 | Some g \<Rightarrow>
                     if is_named g s1
                     then modRecord g (\<lambda>r. r\<lparr>lc_phase := Stable, lc_topologyEpoch := tx_topologyEpoch t\<rparr>) s1
                     else s1)
            in ((putTxn i (t\<lparr>tx_state := TRolledBack\<rparr>) s2)\<lparr>tm_current := None\<rparr>, True))"

section \<open>Pending sessions\<close>

definition expire :: "nat \<Rightarrow> lc_record \<Rightarrow> lc_record" where
  "expire now r = (if pending_phase (lc_phase r) \<and> lc_pendingUntil r \<le> now then set_phase Stable r else r)"

definition pruneExpiredPendingTmuxSessions :: "nat \<Rightarrow> tmux_state \<Rightarrow> tmux_state" where
  "pruneExpiredPendingTmuxSessions now s = fold (\<lambda>x. modRecord (snd x) (expire now)) (tm_names s) s"

definition pendingTmuxSessionNames :: "tmux_state \<Rightarrow> string list" where
  "pendingTmuxSessionNames s =
     map fst (filter (\<lambda>(n, g). case getRecord s g of
         Some r \<Rightarrow> pending_phase (lc_phase r) \<and> (lc_phase r \<noteq> Creating \<or> lc_committed r)
       | None \<Rightarrow> False) (tm_names s))"

definition isPendingTmuxSession :: "string \<Rightarrow> tmux_state \<Rightarrow> bool" where
  "isPendingTmuxSession session s =
     (case namedRecord s (js_trim session) of
        None \<Rightarrow> False
      | Some g \<Rightarrow> (case getRecord s g of Some r \<Rightarrow> pending_phase (lc_phase r) | None \<Rightarrow> False))"

definition markPendingTmuxSession :: "string \<Rightarrow> nat \<Rightarrow> tmux_state \<Rightarrow> tmux_state" where
  "markPendingTmuxSession session now s =
     (let key = js_trim session;
          fresh = (case newTmuxSessionLifecycleRecord key Creating (tm_epoch s) now s of
                     (None, s1) \<Rightarrow> s1
                   | (Some g, s1) \<Rightarrow> modRecord g (\<lambda>r. r\<lparr>lc_committed := True\<rparr>) s1)
      in if key = [] then s
         else (case namedRecord s key of
           None \<Rightarrow> fresh
         | Some g \<Rightarrow>
             (case getRecord s g of
                None \<Rightarrow> fresh
              | Some r \<Rightarrow>
                  if blocked_phase (lc_phase r) then fresh
                  else putRecord g (r\<lparr>lc_phase := (if lc_phase r = RenamingIn then RenamingIn else Creating),
                         lc_committed := True, lc_pendingUntil := now + pendingTmuxSessionGraceMs\<rparr>) s)))"

definition clearPendingTmuxSession :: "string \<Rightarrow> tmux_state \<Rightarrow> tmux_state" where
  "clearPendingTmuxSession session s =
     (case namedRecord s (js_trim session) of
        None \<Rightarrow> s
      | Some g \<Rightarrow> modRecord g (\<lambda>r. if pending_phase (lc_phase r) then set_phase Stable r else r) s)"

definition clearConfirmedPendingTmuxSessions :: "string list \<Rightarrow> tmux_state \<Rightarrow> tmux_state" where
  "clearConfirmedPendingTmuxSessions next s = fold clearPendingTmuxSession next s"

end
