(* ===== verification/Tmux_Sessions.thy ===== *)
theory Tmux_Sessions
  imports Tmux_Lifecycle
begin

text \<open>
  The client around the lifecycle records: the session lists and the layout that
  \<open>updateSessionList\<close> keeps consistent with them (\<open>20_layout_state.js\<close>), and the mutations that
  \<open>runTmuxSessionMutation\<close> runs (\<open>70_layout_actions.js\<close>): a run waits for the leases of the old
  record, sends its request, and commits or rolls back when the answer arrives. Several runs and
  all other events interleave; \<open>client_step\<close> is one event.
\<close>

section \<open>Session lists\<close>

definition normalizedSessionOrder :: "string list option \<Rightarrow> string list option" where
  "normalizedSessionOrder raw = map_option (\<lambda>xs. dedupe (filter (\<lambda>x. x \<noteq> []) xs)) raw"

definition sessionOrderIncludingPending :: "string list \<Rightarrow> nat \<Rightarrow> tmux_state \<Rightarrow> string list \<times> tmux_state" where
  "sessionOrderIncludingPending next now s =
     (let s1 = pruneExpiredPendingTmuxSessions now s
      in (foldl push_new (case normalizedSessionOrder (Some next) of Some xs \<Rightarrow> xs | None \<Rightarrow> [])
            (pendingTmuxSessionNames s1), s1))"

text \<open>The other layout items (virtual tabs, open editors) are an argument.\<close>

definition computeLayoutItems :: "item list \<Rightarrow> string list \<Rightarrow> string list \<Rightarrow> item list" where
  "computeLayoutItems others visible pending = dedupe (others @ visible @ pending)"

definition pending_names :: "tmux_state \<Rightarrow> string list" where
  "pending_names s = filter (\<lambda>n. isPendingTmuxSession n s) (map fst (tm_names s))"

record client =
  cl_tmux :: tmux_state
  cl_env :: env
  cl_ws :: workspace
  cl_others :: "item list"
  cl_maxSessionTabs :: nat

definition with_layoutItems :: "string list \<Rightarrow> string list \<Rightarrow> tmux_state \<Rightarrow> client \<Rightarrow> client" where
  "with_layoutItems all visible s c =
     c\<lparr>cl_tmux := s,
       cl_env := (cl_env c)\<lparr>sessions := all, visibleSessions := visible,
         layoutItems := computeLayoutItems (cl_others c) visible (pendingTmuxSessionNames s),
         tmuxPending := pending_names s\<rparr>\<rparr>"

definition setSessionOrder :: "string list \<Rightarrow> nat \<Rightarrow> client \<Rightarrow> client" where
  "setSessionOrder next now c =
     (let (order, s) = sessionOrderIncludingPending next now (cl_tmux c)
      in with_layoutItems order (take (cl_maxSessionTabs c) order) s c)"

definition updateSessionList :: "string list option \<Rightarrow> bool \<Rightarrow> nat \<Rightarrow> client \<Rightarrow> client \<times> bool" where
  "updateSessionList nextSessions clearConfirmedPending now c =
     (case normalizedSessionOrder nextSessions of
        None \<Rightarrow> (c, False)
      | Some next \<Rightarrow>
          (let s1 = pruneExpiredPendingTmuxSessions now (cl_tmux c);
               s2 = (if clearConfirmedPending then clearConfirmedPendingTmuxSessions next s1 else s1);
               (effectiveNext, s3) = sessionOrderIncludingPending next now s2;
               e = cl_env c
           in if effectiveNext = sessions e
              then (with_layoutItems (sessions e) (visibleSessions e) s3 c, False)
              else
                let removedSessions = filter (\<lambda>x. x \<notin> set effectiveNext) (visibleSessions e);
                    c1 = setSessionOrder effectiveNext now (c\<lparr>cl_tmux := s3\<rparr>);
                    w = cl_ws c1;
                    (L, constrained) = normalizeLayoutSlotsForViewport (cl_env c1) (ws_constrained w) (ws_layout w)
                      (norm_defaults\<lparr>no_preserveRemovedItems := removedSessions, no_preserveRemovedSlots := True\<rparr>)
                in (c1\<lparr>cl_ws := w\<lparr>ws_layout := L, ws_constrained := constrained, ws_active := sessionsFromSlots L\<rparr>\<rparr>,
                    True)))"

section \<open>Renaming a session\<close>

text \<open>\<open>tmuxSessionNameError\<close>, the three messages.\<close>

datatype name_error = NameRequired | NameTooLong | NameInvalidChars

definition session_name_char :: "char \<Rightarrow> bool" where
  "session_name_char c =
     (let n = of_char c :: nat
      in (48 \<le> n \<and> n \<le> 57) \<or> (65 \<le> n \<and> n \<le> 90) \<or> (97 \<le> n \<and> n \<le> 122) \<or> c \<in> {CHR ''_'', CHR ''.'', CHR '' '', CHR ''-''})"

definition tmuxSessionNameError :: "string \<Rightarrow> name_error option" where
  "tmuxSessionNameError name =
     (let text = js_trim name in
      if text = [] then Some NameRequired
      else if 64 < length text then Some NameTooLong
      else if \<not> list_all session_name_char text then Some NameInvalidChars
      else None)"

definition rekeyMap :: "('k \<times> 'v) list \<Rightarrow> 'k \<Rightarrow> 'k \<Rightarrow> ('k \<times> 'v) list" where
  "rekeyMap m oldKey newKey =
     (case map_of m oldKey of
        None \<Rightarrow> m
      | Some v \<Rightarrow>
          if oldKey = newKey then m
          else AList.delete oldKey (if map_of m newKey = None then AList.update newKey v m else m))"

text \<open>\<open>layoutWithReplacedItem\<close> (\<open>45_file_explorer_actions.js\<close>).\<close>

definition layoutWithReplacedItem :: "env \<Rightarrow> item \<Rightarrow> item \<Rightarrow> layout_slots \<Rightarrow> layout_slots" where
  "layoutWithReplacedItem e old new L =
     compactLayoutSlots e
       (fold (\<lambda>s. setPane s
          (if paneIsPlaceholder s L then emptyPlaceholderPaneState Generic False
           else paneStateWithTabsForSlot e s (map (\<lambda>x. if x = old then new else x) (paneTabs s L))
                  (map_option (\<lambda>x. if x = old then new else x) (activeItemForSide s L)) L))
         (layoutSlotKeys L) (setTree (lay_tree L) emptyLayoutSlots)) False"

definition replaceTmuxSessionInClient :: "string \<Rightarrow> string \<Rightarrow> string list option \<Rightarrow> nat \<Rightarrow> client \<Rightarrow> client" where
  "replaceTmuxSessionInClient oldSession newSession nextSessions now c =
     (let s = markPendingTmuxSession newSession now (clearPendingTmuxSession oldSession (cl_tmux c));
          next = (case normalizedSessionOrder nextSessions of
             Some xs \<Rightarrow> xs
           | None \<Rightarrow> map (\<lambda>x. if x = oldSession then newSession else x) (sessions (cl_env c)));
          c1 = setSessionOrder next now (c\<lparr>cl_tmux := s\<rparr>)
      in c1\<lparr>cl_ws := applyLayoutSlots (cl_env c1) (cl_ws c1)
              (layoutWithReplacedItem (cl_env c1) oldSession newSession (ws_layout (cl_ws c1))) (apply_focus (Some newSession))\<rparr>)"

section \<open>Reconciliation after a mutation\<close>

text \<open>The verdicts of the two settled promises, the metadata refresh first.\<close>

datatype ('v, 'e) settled = Fulfilled 'v | Rejected 'e

datatype 'v reconciliation =
  ReconciledValue 'v
| MetadataFailed
| AutoStatusFailed 'v

definition tmuxSessionMutationReconciliation :: "('v, 'e) settled \<Rightarrow> ('w, 'e) settled \<Rightarrow> 'v reconciliation" where
  "tmuxSessionMutationReconciliation metadata autoStatuses =
     (case metadata of
        Rejected c \<Rightarrow> MetadataFailed
      | Fulfilled v \<Rightarrow> (case autoStatuses of Rejected c \<Rightarrow> AutoStatusFailed v | Fulfilled w \<Rightarrow> ReconciledValue v))"

section \<open>Runs\<close>

datatype run_result =
  RunCommitted
| RunSuperseded
| RunSupersededAfterSuccess
| RunFailed
| RunSupersededAfterFailure

datatype stage = Waiting "nat list" | Requesting | Finished run_result

record system =
  sy_tmux :: tmux_state
  sy_runs :: "(nat \<times> stage) list"

definition runStage :: "system \<Rightarrow> nat \<Rightarrow> stage option" where
  "runStage y i = map_of (sy_runs y) i"

definition setStage :: "nat \<Rightarrow> stage \<Rightarrow> system \<Rightarrow> system" where
  "setStage i st y = y\<lparr>sy_runs := AList.update i st (sy_runs y)\<rparr>"

text \<open>The first part of \<open>runTmuxSessionMutation\<close>: begin, and wait for the leases held now.\<close>

definition startRun :: "mutation_kind \<Rightarrow> string \<Rightarrow> string \<Rightarrow> nat \<Rightarrow> nat \<Rightarrow> system \<Rightarrow> system" where
  "startRun kind session newName serverGeneration now y =
     (let (i, s) = beginTmuxSessionLifecycleMutation kind session newName serverGeneration now (sy_tmux y)
      in setStage i (Waiting (tmuxSessionLifecycleMutationLeasePromises i s)) (y\<lparr>sy_tmux := s\<rparr>))"

definition leasesSettled :: "nat \<Rightarrow> system \<Rightarrow> system" where
  "leasesSettled i y =
     setStage i (if tmuxSessionLifecycleMutationIsCurrent i (sy_tmux y) then Requesting else Finished RunSuperseded) y"

text \<open>What the commit callback of each mutation does to the records; the answer to a create names
  its session.\<close>

definition commitCallback :: "mutation_kind \<Rightarrow> string \<Rightarrow> string \<Rightarrow> nat \<Rightarrow> tmux_state \<Rightarrow> tmux_state" where
  "commitCallback kind session renamed now s =
     (case kind of
        MCreate \<Rightarrow> markPendingTmuxSession session now s
      | MRename \<Rightarrow> markPendingTmuxSession renamed now (clearPendingTmuxSession session s)
      | MKill \<Rightarrow> clearPendingTmuxSession session s)"

text \<open>The answer: \<open>payloadSession\<close> and \<open>payloadNewName\<close> already fall back to the names of the run.\<close>

definition requestSucceeded :: "nat \<Rightarrow> string \<Rightarrow> string \<Rightarrow> nat \<Rightarrow> system \<Rightarrow> system" where
  "requestSucceeded i payloadSession payloadNewName now y =
     (case getTxn (sy_tmux y) i of
        None \<Rightarrow> y
      | Some t \<Rightarrow>
          if tmuxSessionLifecycleMutationIsCurrent i (sy_tmux y)
          then setStage i (Finished RunCommitted) (y\<lparr>sy_tmux :=
                 commitCallback (tx_kind t) (if tx_kind t = MCreate then payloadSession else tx_session t) payloadNewName now
                   (snd (commitTmuxSessionLifecycleMutation i payloadSession payloadNewName now (sy_tmux y)))\<rparr>)
          else setStage i (Finished RunSupersededAfterSuccess) y)"

definition requestFailed :: "nat \<Rightarrow> system \<Rightarrow> system" where
  "requestFailed i y =
     (if tmuxSessionLifecycleMutationIsCurrent i (sy_tmux y)
      then setStage i (Finished RunFailed) (y\<lparr>sy_tmux := fst (rollbackTmuxSessionLifecycleMutation i (sy_tmux y))\<rparr>)
      else setStage i (Finished RunSupersededAfterFailure) y)"

text \<open>Every other operation on the records, as one event.\<close>

inductive record_event :: "tmux_state \<Rightarrow> tmux_state \<Rightarrow> bool" where
  acquire: "record_event s (snd (tmuxSessionLifecycleAcquireRequest session now s))"
| release: "record_event s (fst (releaseLease l s))"
| token: "record_event s (snd (tmuxSessionLifecycleRecord session now s))"
| own_source: "record_event s (snd (tmuxSessionLifecycleOwnSource session source now s))"
| release_source: "record_event s (tmuxSessionLifecycleReleaseSource g source s)"
| own_scope: "record_event s (tmuxSessionLifecycleOwnScope g scope s)"
| release_scope: "record_event s (tmuxSessionLifecycleReleaseScope g scope s)"
| own_timer: "record_event s (tmuxSessionLifecycleOwnTimer g timer s)"
| release_timer: "record_event s (tmuxSessionLifecycleReleaseTimer g timer s)"
| prune: "record_event s (pruneExpiredPendingTmuxSessions now s)"
| mark: "record_event s (markPendingTmuxSession session now s)"
| clear: "record_event s (clearPendingTmuxSession session s)"

inductive system_step :: "system \<Rightarrow> system \<Rightarrow> bool" where
  event: "record_event (sy_tmux y) s \<Longrightarrow> system_step y (y\<lparr>sy_tmux := s\<rparr>)"
| start: "system_step y (startRun kind session newName serverGeneration now y)"
| settle: "runStage y i = Some (Waiting ls) \<Longrightarrow> list_all (\<lambda>l. l \<in> set (tm_settled (sy_tmux y))) ls \<Longrightarrow>
    system_step y (leasesSettled i y)"
| succeed: "runStage y i = Some Requesting \<Longrightarrow>
    system_step y (requestSucceeded i payloadSession payloadNewName now y)"
| fail: "runStage y i = Some Requesting \<Longrightarrow> system_step y (requestFailed i y)"

definition system_init :: system where
  "system_init = \<lparr>sy_tmux = tmux_init, sy_runs = []\<rparr>"

inductive_simps record_event_simps: "record_event s s'"
inductive_cases system_stepE: "system_step y y'"

end
