(* ===== verification/Tmux_Invariants.thy ===== *)
theory Tmux_Invariants
  imports Tmux_Sessions
begin

text \<open>
  What every operation on the lifecycle records keeps. \<open>tmux_ok\<close> is the invariant of the records
  and the leases (every live record is the record of its name, generations are bounded, a lease
  belongs to one record and is either held or settled); \<open>txns_ok\<close> that of the transactions (only
  the current one is active, and its old record is blocked); \<open>keeps\<close> is what an operation outside
  the transactions leaves alone (blocked records stay blocked and get no new lease). They make
  up \<open>system_ok\<close>, an invariant of \<open>system_step\<close>.
\<close>

section \<open>The store\<close>

lemma getRecord_put [simp]: "getRecord (putRecord g r s) k = (if k = g then Some r else getRecord s k)"
  by (simp add: getRecord_def putRecord_def)

lemma put_frame [simp]:
  "tm_names (putRecord g r s) = tm_names s" "tm_generation (putRecord g r s) = tm_generation s"
  "tm_epoch (putRecord g r s) = tm_epoch s" "tm_serial (putRecord g r s) = tm_serial s"
  "tm_current (putRecord g r s) = tm_current s" "tm_txns (putRecord g r s) = tm_txns s"
  "tm_leaseSerial (putRecord g r s) = tm_leaseSerial s" "tm_leaseOwner (putRecord g r s) = tm_leaseOwner s"
  "tm_settled (putRecord g r s) = tm_settled s"
  by (simp_all add: putRecord_def)

text \<open>The fields of the state that one operation on records leaves alone.\<close>

definition same_txns :: "tmux_state \<Rightarrow> tmux_state \<Rightarrow> bool" where
  "same_txns s s' \<longleftrightarrow> tm_serial s' = tm_serial s \<and> tm_current s' = tm_current s \<and> tm_txns s' = tm_txns s"

definition blocked_at :: "tmux_state \<Rightarrow> nat \<Rightarrow> bool" where
  "blocked_at s g = (case getRecord s g of Some r \<Rightarrow> blocked_phase (lc_phase r) | None \<Rightarrow> False)"

definition leases_at :: "tmux_state \<Rightarrow> nat \<Rightarrow> nat list" where
  "leases_at s g = (case getRecord s g of Some r \<Rightarrow> lc_leases r | None \<Rightarrow> [])"

text \<open>One record against the rest of the state.\<close>

definition record_ok :: "tmux_state \<Rightarrow> nat \<Rightarrow> lc_record \<Rightarrow> bool" where
  "record_ok s g r \<longleftrightarrow>
     0 < g \<and> g \<le> tm_generation s
     \<and> (lc_phase r \<noteq> Retired \<longrightarrow> namedRecord s (lc_name r) = Some g)
     \<and> (\<not> pending_phase (lc_phase r) \<longrightarrow> lc_pendingUntil r = 0)
     \<and> distinct (lc_leases r)
     \<and> (\<forall>l \<in> set (lc_leases r). map_of (tm_leaseOwner s) l = Some g \<and> l \<notin> set (tm_settled s))"

definition tmux_ok :: "tmux_state \<Rightarrow> bool" where
  "tmux_ok s \<longleftrightarrow>
     (\<forall>g r. getRecord s g = Some r \<longrightarrow> record_ok s g r)
     \<and> (\<forall>n g. namedRecord s n = Some g \<longrightarrow> (\<exists>r. getRecord s g = Some r \<and> lc_name r = n))
     \<and> (\<forall>l g. map_of (tm_leaseOwner s) l = Some g \<longrightarrow> l \<le> tm_leaseSerial s)
     \<and> (\<forall>l \<in> set (tm_settled s). l \<le> tm_leaseSerial s)"

lemma tmux_ok_record: "tmux_ok s \<Longrightarrow> getRecord s g = Some r \<Longrightarrow> record_ok s g r"
  by (simp add: tmux_ok_def)

lemma tmux_ok_named: "tmux_ok s \<Longrightarrow> namedRecord s n = Some g \<Longrightarrow> \<exists>r. getRecord s g = Some r \<and> lc_name r = n"
  by (simp add: tmux_ok_def)

lemma record_ok_frame:
  "record_ok s g r \<Longrightarrow> tm_generation s \<le> tm_generation s' \<Longrightarrow> tm_names s' = tm_names s \<Longrightarrow>
   tm_leaseOwner s' = tm_leaseOwner s \<Longrightarrow> tm_settled s' = tm_settled s \<Longrightarrow> record_ok s' g r"
  by (auto simp: record_ok_def namedRecord_def)

text \<open>Replacing one record.\<close>

lemma tmux_okI:
  assumes "\<And>g r. getRecord s g = Some r \<Longrightarrow> record_ok s g r"
    and "\<And>n g. namedRecord s n = Some g \<Longrightarrow> \<exists>r. getRecord s g = Some r \<and> lc_name r = n"
    and "\<And>l g. map_of (tm_leaseOwner s) l = Some g \<Longrightarrow> l \<le> tm_leaseSerial s"
    and "\<And>l. l \<in> set (tm_settled s) \<Longrightarrow> l \<le> tm_leaseSerial s"
  shows "tmux_ok s"
  using assms by (simp add: tmux_ok_def)

lemma tmux_ok_leases:
  "tmux_ok s \<Longrightarrow> map_of (tm_leaseOwner s) l = Some g \<Longrightarrow> l \<le> tm_leaseSerial s"
  "tmux_ok s \<Longrightarrow> l \<in> set (tm_settled s) \<Longrightarrow> l \<le> tm_leaseSerial s"
  by (auto simp: tmux_ok_def)

lemma namedRecord_put [simp]: "namedRecord (putRecord g r s) n = namedRecord s n"
  by (simp add: namedRecord_def)

lemma record_ok_put [simp]: "record_ok (putRecord g r s) k q = record_ok s k q"
  by (simp add: record_ok_def)

lemma tmux_ok_put:
  assumes ok: "tmux_ok s" and g: "getRecord s g = Some r" and r': "record_ok s g r'" "lc_name r' = lc_name r"
  shows "tmux_ok (putRecord g r' s)"
proof (rule tmux_okI)
  fix k q assume "getRecord (putRecord g r' s) k = Some q"
  then show "record_ok (putRecord g r' s) k q"
    using r' tmux_ok_record [OF ok] by (auto split: if_splits)
next
  fix n k assume "namedRecord (putRecord g r' s) n = Some k"
  then show "\<exists>q. getRecord (putRecord g r' s) k = Some q \<and> lc_name q = n"
    using tmux_ok_named [OF ok, of n k] g r' by auto
qed (use tmux_ok_leases [OF ok] in auto)

lemma tmux_ok_frame:
  "tmux_ok s \<Longrightarrow> tm_store s' = tm_store s \<Longrightarrow> tm_names s' = tm_names s \<Longrightarrow> tm_generation s' = tm_generation s \<Longrightarrow>
   tm_leaseOwner s' = tm_leaseOwner s \<Longrightarrow> tm_settled s' = tm_settled s \<Longrightarrow> tm_leaseSerial s' = tm_leaseSerial s \<Longrightarrow>
   tmux_ok s'"
  by (auto simp: tmux_ok_def record_ok_def getRecord_def namedRecord_def)

text \<open>A change of one record is harmless when it keeps the name and the leases, does not revive
  a retired record and clears the pending time with the pending phase.\<close>

definition harmless :: "(lc_record \<Rightarrow> lc_record) \<Rightarrow> bool" where
  "harmless f \<longleftrightarrow> (\<forall>r. lc_name (f r) = lc_name r \<and> lc_leases (f r) = lc_leases r
     \<and> (lc_phase r = Retired \<longrightarrow> lc_phase (f r) = Retired)
     \<and> (\<not> pending_phase (lc_phase (f r)) \<longrightarrow> (\<not> pending_phase (lc_phase r) \<longrightarrow> lc_pendingUntil r = 0) \<longrightarrow> lc_pendingUntil (f r) = 0))"

lemma record_ok_harmless: "record_ok s g r \<Longrightarrow> harmless f \<Longrightarrow> record_ok s g (f r)"
  unfolding record_ok_def harmless_def by auto

lemma harmless_name: "harmless f \<Longrightarrow> lc_name (f r) = lc_name r"
  by (simp add: harmless_def)

lemma tmux_ok_mod:
  assumes "tmux_ok s" "harmless f"
  shows "tmux_ok (modRecord g f s)"
proof (cases "getRecord s g")
  case None
  with assms show ?thesis by (simp add: modRecord_def)
next
  case (Some r)
  have "tmux_ok (putRecord g (f r) s)"
    using assms Some tmux_ok_record harmless_name record_ok_harmless by (blast intro: tmux_ok_put)
  with Some show ?thesis by (simp add: modRecord_def)
qed

lemma mod_frame [simp]:
  "tm_names (modRecord g f s) = tm_names s" "tm_generation (modRecord g f s) = tm_generation s"
  "tm_epoch (modRecord g f s) = tm_epoch s" "tm_serial (modRecord g f s) = tm_serial s"
  "tm_current (modRecord g f s) = tm_current s" "tm_txns (modRecord g f s) = tm_txns s"
  "tm_leaseSerial (modRecord g f s) = tm_leaseSerial s" "tm_leaseOwner (modRecord g f s) = tm_leaseOwner s"
  "tm_settled (modRecord g f s) = tm_settled s"
  by (simp_all add: modRecord_def split: option.splits)

lemma getRecord_mod: "getRecord (modRecord g f s) k = (if k = g then map_option f (getRecord s g) else getRecord s k)"
  by (auto simp: modRecord_def split: option.splits)

text \<open>Fields outside the records.\<close>

lemma getRecord_fields [simp]:
  "getRecord (s\<lparr>tm_released := a\<rparr>) = getRecord s" "getRecord (s\<lparr>tm_serial := b\<rparr>) = getRecord s"
  "getRecord (s\<lparr>tm_epoch := b\<rparr>) = getRecord s" "getRecord (s\<lparr>tm_current := c\<rparr>) = getRecord s"
  "getRecord (s\<lparr>tm_sourceToken := d\<rparr>) = getRecord s" "getRecord (putTxn i t s) = getRecord s"
  "getRecord (s\<lparr>tm_leaseSerial := b\<rparr>) = getRecord s" "getRecord (s\<lparr>tm_leaseOwner := d\<rparr>) = getRecord s"
  "getRecord (s\<lparr>tm_settled := l\<rparr>) = getRecord s" "getRecord (s\<lparr>tm_names := m\<rparr>) = getRecord s"
  "getRecord (s\<lparr>tm_generation := b\<rparr>) = getRecord s"
  by (auto simp: getRecord_def putTxn_def)

lemma tmux_ok_fields [simp]:
  "tmux_ok (s\<lparr>tm_released := a\<rparr>) = tmux_ok s" "tmux_ok (s\<lparr>tm_serial := b\<rparr>) = tmux_ok s"
  "tmux_ok (s\<lparr>tm_epoch := b\<rparr>) = tmux_ok s" "tmux_ok (s\<lparr>tm_current := c\<rparr>) = tmux_ok s"
  "tmux_ok (s\<lparr>tm_sourceToken := d\<rparr>) = tmux_ok s" "tmux_ok (putTxn i t s) = tmux_ok s"
  by (auto simp: tmux_ok_def record_ok_def getRecord_def namedRecord_def putTxn_def)

text \<open>Retiring.\<close>

definition retired_of :: "lc_record \<Rightarrow> lc_record" where
  "retired_of r = (if lc_phase r = Retired then r else r\<lparr>lc_phase := Retired, lc_pendingUntil := 0, lc_owned := []\<rparr>)"

lemma retired_of_simps [simp]:
  "lc_phase (retired_of r) = Retired" "lc_name (retired_of r) = lc_name r" "lc_leases (retired_of r) = lc_leases r"
  by (simp_all add: retired_of_def)

lemma getRecord_retire:
  "getRecord (retireTmuxSessionLifecycleRecord g s) k = (if k = g then map_option retired_of (getRecord s g) else getRecord s k)"
  by (auto simp: retireTmuxSessionLifecycleRecord_def retired_of_def split: option.splits)

lemma retire_frame [simp]:
  "tm_names (retireTmuxSessionLifecycleRecord g s) = tm_names s"
  "tm_generation (retireTmuxSessionLifecycleRecord g s) = tm_generation s"
  "tm_epoch (retireTmuxSessionLifecycleRecord g s) = tm_epoch s"
  "tm_serial (retireTmuxSessionLifecycleRecord g s) = tm_serial s"
  "tm_current (retireTmuxSessionLifecycleRecord g s) = tm_current s"
  "tm_txns (retireTmuxSessionLifecycleRecord g s) = tm_txns s"
  "tm_leaseSerial (retireTmuxSessionLifecycleRecord g s) = tm_leaseSerial s"
  "tm_leaseOwner (retireTmuxSessionLifecycleRecord g s) = tm_leaseOwner s"
  "tm_settled (retireTmuxSessionLifecycleRecord g s) = tm_settled s"
  by (simp_all add: retireTmuxSessionLifecycleRecord_def split: option.splits)

lemma harmless_retired_of: "harmless retired_of"
  by (auto simp: harmless_def retired_of_def pending_phase_def)

lemma tmux_ok_retire: "tmux_ok s \<Longrightarrow> tmux_ok (retireTmuxSessionLifecycleRecord g s)"
  using tmux_ok_mod [OF _ harmless_retired_of, of s g]
  by (auto simp: retireTmuxSessionLifecycleRecord_def modRecord_def retired_of_def split: option.splits)

lemma tmux_ok_retireOption: "tmux_ok s \<Longrightarrow> tmux_ok (retireOption g s)"
  by (simp add: retireOption_def tmux_ok_retire split: option.split)


text \<open>A new record.\<close>

definition retireNamed :: "string \<Rightarrow> tmux_state \<Rightarrow> tmux_state" where
  "retireNamed name s = retireOption (namedRecord s name) s"

definition freshRecord :: "string \<Rightarrow> phase \<Rightarrow> nat \<Rightarrow> nat \<Rightarrow> lc_record" where
  "freshRecord name phase epoch now =
     \<lparr>lc_name = name, lc_topologyEpoch = epoch, lc_phase = phase, lc_committed = (phase = Stable),
      lc_pendingUntil = (if pending_phase phase then now + pendingTmuxSessionGraceMs else 0),
      lc_leases = [], lc_owned = [], lc_serverGeneration = 0\<rparr>"

lemma freshRecord_simps [simp]:
  "lc_name (freshRecord name phase epoch now) = name" "lc_phase (freshRecord name phase epoch now) = phase"
  "lc_leases (freshRecord name phase epoch now) = []" "lc_owned (freshRecord name phase epoch now) = []"
  by (simp_all add: freshRecord_def)

lemma retireOption_frame [simp]:
  "tm_names (retireOption g s) = tm_names s" "tm_generation (retireOption g s) = tm_generation s"
  "tm_epoch (retireOption g s) = tm_epoch s" "tm_serial (retireOption g s) = tm_serial s"
  "tm_current (retireOption g s) = tm_current s" "tm_txns (retireOption g s) = tm_txns s"
  "tm_leaseSerial (retireOption g s) = tm_leaseSerial s" "tm_leaseOwner (retireOption g s) = tm_leaseOwner s"
  "tm_settled (retireOption g s) = tm_settled s"
  by (simp_all add: retireOption_def split: option.splits)

lemma newRecord_eq:
  "newTmuxSessionLifecycleRecord session phase epoch now s =
     (if js_trim session = [] then (None, s)
      else (let s1 = retireNamed (js_trim session) s; g = Suc (tm_generation s)
            in (Some g, (putRecord g (freshRecord (js_trim session) phase epoch now) s1)
                 \<lparr>tm_generation := g, tm_names := AList.update (js_trim session) g (tm_names s)\<rparr>)))"
  by (simp add: newTmuxSessionLifecycleRecord_def retireNamed_def retireOption_def freshRecord_def Let_def
      split: option.splits)

lemma getRecord_retireOption:
  "getRecord (retireOption g s) k = (if g = Some k then map_option retired_of (getRecord s k) else getRecord s k)"
  by (auto simp: retireOption_def getRecord_retire split: option.splits)

lemma tmux_ok_bound: "tmux_ok s \<Longrightarrow> getRecord s g = Some r \<Longrightarrow> g \<le> tm_generation s"
  by (drule (1) tmux_ok_record) (simp add: record_ok_def)

lemma tmux_ok_fresh_none: "tmux_ok s \<Longrightarrow> getRecord s (Suc (tm_generation s)) = None"
  by (cases "getRecord s (Suc (tm_generation s))") (auto dest: tmux_ok_bound)

lemma tmux_ok_add:
  assumes ok: "tmux_ok s" and p: "phase \<noteq> Retired"
    and none: "\<And>g r. getRecord s g = Some r \<Longrightarrow> lc_phase r \<noteq> Retired \<Longrightarrow> lc_name r \<noteq> name"
  shows "tmux_ok ((putRecord (Suc (tm_generation s)) (freshRecord name phase epoch now) s)
      \<lparr>tm_generation := Suc (tm_generation s), tm_names := AList.update name (Suc (tm_generation s)) (tm_names s)\<rparr>)"
    (is "tmux_ok ?s")
proof (rule tmux_okI)
  fix g r assume g: "getRecord ?s g = Some r"
  show "record_ok ?s g r"
  proof (cases "g = Suc (tm_generation s)")
    case True
    with g p show ?thesis by (auto simp: record_ok_def namedRecord_def freshRecord_def)
  next
    case False
    with g have r: "getRecord s g = Some r" by simp
    have "record_ok s g r" using ok r by (rule tmux_ok_record)
    with none [OF r] show ?thesis by (auto simp: record_ok_def namedRecord_def)
  qed
next
  fix n g assume "namedRecord ?s n = Some g"
  then show "\<exists>r. getRecord ?s g = Some r \<and> lc_name r = n"
    using tmux_ok_named [OF ok, of n g] tmux_ok_fresh_none [OF ok] by (auto simp: namedRecord_def split: if_splits)
qed (use tmux_ok_leases [OF ok] in auto)

lemma tmux_ok_retireNamed: "tmux_ok s \<Longrightarrow> tmux_ok (retireNamed name s)"
  by (simp add: retireNamed_def tmux_ok_retireOption)

lemma retireNamed_none:
  assumes "tmux_ok s" "getRecord (retireNamed name s) g = Some r" "lc_phase r \<noteq> Retired"
  shows "lc_name r \<noteq> name"
proof
  assume n: "lc_name r = name"
  from tmux_ok_retireNamed [OF assms(1)] assms(2) have "record_ok (retireNamed name s) g r" by (rule tmux_ok_record)
  with assms(3) n have "namedRecord s name = Some g"
    by (simp add: record_ok_def retireNamed_def namedRecord_def)
  with assms(2,3) show False by (auto simp: retireNamed_def getRecord_retireOption)
qed

lemma tmux_ok_newRecord:
  assumes "tmux_ok s" "phase \<noteq> Retired"
  shows "tmux_ok (snd (newTmuxSessionLifecycleRecord session phase epoch now s))"
  using tmux_ok_add [OF tmux_ok_retireNamed [OF assms(1)] assms(2) retireNamed_none [OF assms(1)]] assms(1)
  by (simp add: newRecord_eq Let_def retireNamed_def)

lemma tmux_ok_lookup: "tmux_ok s \<Longrightarrow> tmux_ok (snd (tmuxSessionLifecycleRecord session now s))"
  by (simp add: tmuxSessionLifecycleRecord_def Let_def tmux_ok_newRecord split: option.split)


section \<open>What events keep\<close>

definition keeps :: "tmux_state \<Rightarrow> tmux_state \<Rightarrow> bool" where
  "keeps s s' \<longleftrightarrow>
     same_txns s s' \<and> set (tm_settled s) \<subseteq> set (tm_settled s') \<and> tm_generation s \<le> tm_generation s'
     \<and> (\<forall>g. blocked_at s g \<longrightarrow> blocked_at s' g \<and> set (leases_at s' g) \<subseteq> set (leases_at s g))
     \<and> (\<forall>g. recordPhase s g = Some Retired \<longrightarrow> recordPhase s' g = Some Retired)"

lemma keeps_refl [simp, intro]: "keeps s s"
  by (auto simp: keeps_def same_txns_def)

lemma keeps_trans: "keeps s t \<Longrightarrow> keeps t u \<Longrightarrow> keeps s u"
  unfolding keeps_def same_txns_def by (metis (no_types, lifting) order_trans)

lemma keepsI:
  assumes "same_txns s s'" "tm_settled s' = tm_settled s" "tm_generation s \<le> tm_generation s'"
    and "\<And>g r. getRecord s g = Some r \<Longrightarrow> blocked_phase (lc_phase r) \<Longrightarrow>
      \<exists>r'. getRecord s' g = Some r' \<and> blocked_phase (lc_phase r') \<and> set (lc_leases r') \<subseteq> set (lc_leases r)
        \<and> (lc_phase r = Retired \<longrightarrow> lc_phase r' = Retired)"
  shows "keeps s s'"
proof -
  have b: "blocked_at s' g \<and> set (leases_at s' g) \<subseteq> set (leases_at s g)" if "blocked_at s g" for g
  proof -
    from that obtain r where r: "getRecord s g = Some r" "blocked_phase (lc_phase r)"
      by (auto simp: blocked_at_def split: option.splits)
    from assms(4) [OF r] r show ?thesis by (auto simp: blocked_at_def leases_at_def)
  qed
  have "recordPhase s' g = Some Retired" if "recordPhase s g = Some Retired" for g
  proof -
    from that obtain r where r: "getRecord s g = Some r" "lc_phase r = Retired"
      by (auto simp: recordPhase_def)
    from assms(4) [OF r(1)] r show ?thesis by (auto simp: recordPhase_def blocked_phase_def)
  qed
  with b assms show ?thesis by (simp add: keeps_def)
qed

definition calm :: "(lc_record \<Rightarrow> lc_record) \<Rightarrow> bool" where
  "calm f \<longleftrightarrow> (\<forall>r. set (lc_leases (f r)) \<subseteq> set (lc_leases r)
     \<and> (lc_phase r = Retired \<longrightarrow> lc_phase (f r) = Retired)
     \<and> (blocked_phase (lc_phase r) \<longrightarrow> blocked_phase (lc_phase (f r))))"

lemma keeps_mod: "calm f \<Longrightarrow> keeps s (modRecord g f s)"
  by (rule keepsI) (auto simp: getRecord_mod same_txns_def calm_def)

lemma keeps_put:
  "getRecord s g = Some r \<Longrightarrow> set (lc_leases r') \<subseteq> set (lc_leases r) \<Longrightarrow> (lc_phase r = Retired \<longrightarrow> lc_phase r' = Retired) \<Longrightarrow>
   (blocked_phase (lc_phase r) \<longrightarrow> blocked_phase (lc_phase r')) \<Longrightarrow> keeps s (putRecord g r' s)"
  by (rule keepsI) (auto simp: same_txns_def)

lemma calm_retired_of: "calm retired_of"
  by (auto simp: calm_def blocked_phase_def)

lemma keeps_retire: "keeps s (retireTmuxSessionLifecycleRecord g s)"
  by (rule keepsI) (auto simp: getRecord_retire same_txns_def blocked_phase_def)

lemma keeps_retireOption: "keeps s (retireOption g s)"
  by (auto simp: retireOption_def keeps_retire split: option.split)

lemma keeps_newRecord: "tmux_ok s \<Longrightarrow> keeps s (snd (newTmuxSessionLifecycleRecord session phase epoch now s))"
  by (rule keepsI)
    (auto simp: newRecord_eq Let_def retireNamed_def getRecord_retireOption same_txns_def blocked_phase_def tmux_ok_fresh_none)

lemma keeps_lookup: "tmux_ok s \<Longrightarrow> keeps s (snd (tmuxSessionLifecycleRecord session now s))"
  by (simp add: tmuxSessionLifecycleRecord_def Let_def keeps_newRecord split: option.split)

lemma lookup_named:
  "tmux_ok s \<Longrightarrow> tmuxSessionLifecycleRecord session now s = (Some g, s') \<Longrightarrow>
   \<exists>r. getRecord s' g = Some r \<and> lc_name r = js_trim session \<and> namedRecord s' (js_trim session) = Some g"
  by (auto simp: tmuxSessionLifecycleRecord_def Let_def newRecord_eq namedRecord_def js_trim_idem
      dest: tmux_ok_named [unfolded namedRecord_def] split: option.splits if_splits)

text \<open>Owned resources never matter to the lifecycle.\<close>

lemma harmless_owned: "harmless (\<lambda>r. r\<lparr>lc_owned := h r\<rparr>)" "calm (\<lambda>r. r\<lparr>lc_owned := h r\<rparr>)"
  by (auto simp: harmless_def calm_def)

lemma own_harmless: "harmless (\<lambda>r. if P r then r else r\<lparr>lc_owned := h r\<rparr>)" "calm (\<lambda>r. if P r then r else r\<lparr>lc_owned := h r\<rparr>)"
  by (auto simp: harmless_def calm_def)

lemma own_ok: "tmux_ok s \<Longrightarrow> tmux_ok (ownResource g x s)" "keeps s (ownResource g x s)"
  by (simp_all add: ownResource_def tmux_ok_mod keeps_mod own_harmless)

lemma releaseResource_ok: "tmux_ok s \<Longrightarrow> tmux_ok (releaseResource g x s)" "keeps s (releaseResource g x s)"
  by (simp_all add: releaseResource_def tmux_ok_mod keeps_mod harmless_owned)

text \<open>Pending phases.\<close>

lemma expire_harmless:
  "harmless (expire now)" "calm (expire now)"
  "harmless (\<lambda>r. if pending_phase (lc_phase r) then set_phase Stable r else r)"
  "calm (\<lambda>r. if pending_phase (lc_phase r) then set_phase Stable r else r)"
  by (auto simp: harmless_def calm_def expire_def set_phase_def pending_phase_def blocked_phase_def)

lemma fold_mod_ok:
  assumes "harmless f" "calm f" "tmux_ok s"
  shows "tmux_ok (fold (\<lambda>x. modRecord (snd x) f) xs s) \<and> keeps s (fold (\<lambda>x. modRecord (snd x) f) xs s)"
  using assms(3)
proof (induction xs arbitrary: s)
  case (Cons x xs)
  have ok: "tmux_ok (modRecord (snd x) f s)" using Cons.prems assms(1) by (rule tmux_ok_mod)
  from Cons.IH [OF ok] keeps_mod [OF assms(2), of s "snd x"] show ?case
    by (auto intro: keeps_trans)
qed simp

lemma prune_ok: "tmux_ok s \<Longrightarrow> tmux_ok (pruneExpiredPendingTmuxSessions now s) \<and> keeps s (pruneExpiredPendingTmuxSessions now s)"
  unfolding pruneExpiredPendingTmuxSessions_def by (rule fold_mod_ok) (auto intro: expire_harmless)

lemma clear_ok: "tmux_ok s \<Longrightarrow> tmux_ok (clearPendingTmuxSession session s)" "keeps s (clearPendingTmuxSession session s)"
  by (auto simp: clearPendingTmuxSession_def tmux_ok_mod keeps_mod expire_harmless split: option.split)


text \<open>Leases.\<close>

definition with_lease :: "nat \<Rightarrow> lc_record \<Rightarrow> tmux_state \<Rightarrow> tmux_state" where
  "with_lease g r s =
     (let l = Suc (tm_leaseSerial s)
      in (putRecord g (r\<lparr>lc_leases := lc_leases r @ [l]\<rparr>) s)
           \<lparr>tm_leaseSerial := l, tm_leaseOwner := AList.update l g (tm_leaseOwner s)\<rparr>)"

lemma acquire_cases:
  "tmuxSessionLifecycleAcquireRequest session now s = (res, s') \<Longrightarrow>
   (res = None \<and> s' = snd (tmuxSessionLifecycleRecord session now s))
   \<or> (\<exists>g s1 r. tmuxSessionLifecycleRecord session now s = (Some g, s1) \<and> getRecord s1 g = Some r
        \<and> \<not> blocked_phase (lc_phase r) \<and> res = Some (Suc (tm_leaseSerial s1)) \<and> s' = with_lease g r s1)"
  by (auto simp: tmuxSessionLifecycleAcquireRequest_def with_lease_def Let_def
      split: prod.splits option.splits if_splits)

lemma with_lease_ok:
  assumes ok: "tmux_ok s" and r: "getRecord s g = Some r"
  shows "tmux_ok (with_lease g r s)"
proof -
  let ?l = "Suc (tm_leaseSerial s)" and ?s = "with_lease g r s"
  have fresh: "?l \<notin> set (tm_settled s)" "map_of (tm_leaseOwner s) ?l = None"
    using tmux_ok_leases [OF ok] by (fastforce, cases "map_of (tm_leaseOwner s) ?l") fastforce+
  have same: "record_ok ?s k q" if "record_ok s k q" for k q
    using that fresh by (fastforce simp: record_ok_def with_lease_def Let_def namedRecord_def)
  have new: "record_ok ?s g (r\<lparr>lc_leases := lc_leases r @ [?l]\<rparr>)"
    using tmux_ok_record [OF ok r] fresh
    by (fastforce simp: record_ok_def with_lease_def Let_def namedRecord_def)
  show ?thesis
  proof (rule tmux_okI)
    fix k q assume "getRecord ?s k = Some q"
    then show "record_ok ?s k q"
      using same new tmux_ok_record [OF ok] by (auto simp: with_lease_def Let_def split: if_splits)
  next
    fix n k assume "namedRecord ?s n = Some k"
    then have "namedRecord s n = Some k" by (simp add: namedRecord_def with_lease_def Let_def)
    from tmux_ok_named [OF ok this] r show "\<exists>q. getRecord ?s k = Some q \<and> lc_name q = n"
      by (auto simp: with_lease_def Let_def)
  qed (use tmux_ok_leases [OF ok] in \<open>auto simp: with_lease_def Let_def le_SucI split: if_splits\<close>)
qed

lemma with_lease_keeps: "getRecord s g = Some r \<Longrightarrow> \<not> blocked_phase (lc_phase r) \<Longrightarrow> keeps s (with_lease g r s)"
  by (rule keepsI) (auto simp: with_lease_def Let_def same_txns_def)

lemma acquire_ok:
  assumes "tmux_ok s"
  shows "tmux_ok (snd (tmuxSessionLifecycleAcquireRequest session now s))"
    "keeps s (snd (tmuxSessionLifecycleAcquireRequest session now s))"
proof -
  obtain res s' where a: "tmuxSessionLifecycleAcquireRequest session now s = (res, s')" by (rule prod.exhaust)
  have "tmux_ok s' \<and> keeps s s'"
    using acquire_cases [OF a]
  proof (elim disjE exE conjE)
    fix g s1 r
    assume l: "tmuxSessionLifecycleRecord session now s = (Some g, s1)" and r: "getRecord s1 g = Some r"
      and nb: "\<not> blocked_phase (lc_phase r)" and s': "s' = with_lease g r s1"
    have "tmux_ok s1" "keeps s s1"
      using tmux_ok_lookup [OF assms, of session now] keeps_lookup [OF assms, of session now] l by simp_all
    with with_lease_ok [OF _ r] with_lease_keeps [OF r nb] s' show ?thesis by (auto intro: keeps_trans)
  qed (use assms tmux_ok_lookup keeps_lookup in simp)
  with a show "tmux_ok (snd (tmuxSessionLifecycleAcquireRequest session now s))"
    "keeps s (snd (tmuxSessionLifecycleAcquireRequest session now s))" by simp_all
qed

lemma releaseLease_ok:
  assumes ok: "tmux_ok s"
  shows "tmux_ok (fst (releaseLease l s)) \<and> keeps s (fst (releaseLease l s))"
proof (cases "snd (releaseLease l s)")
  case False
  then have "fst (releaseLease l s) = s" by (auto simp: releaseLease_def split: option.splits if_splits)
  with ok show ?thesis by simp
next
  case True
  then obtain g r where o: "map_of (tm_leaseOwner s) l = Some g" and r: "getRecord s g = Some r" and l: "l \<in> set (lc_leases r)"
    by (auto simp: releaseLease_def split: option.splits if_splits)
  let ?r = "r\<lparr>lc_leases := filter (\<lambda>m. m \<noteq> l) (lc_leases r)\<rparr>"
  let ?s = "(putRecord g ?r s)\<lparr>tm_settled := tm_settled s @ [l]\<rparr>"
  have s': "fst (releaseLease l s) = ?s" using o r l by (simp add: releaseLease_def)
  have new: "record_ok ?s g ?r" using tmux_ok_record [OF ok r] by (auto simp: record_ok_def namedRecord_def)
  have other: "record_ok ?s k q" if "record_ok s k q" "k \<noteq> g" for k q
    using that o by (auto simp: record_ok_def namedRecord_def)
  have "tmux_ok ?s"
  proof (rule tmux_okI)
    fix k q assume "getRecord ?s k = Some q"
    then show "record_ok ?s k q"
      using new other tmux_ok_record [OF ok] by (auto split: if_splits)
  next
    fix n k assume "namedRecord ?s n = Some k"
    then have "namedRecord s n = Some k" by (simp add: namedRecord_def)
    from tmux_ok_named [OF ok this] r show "\<exists>q. getRecord ?s k = Some q \<and> lc_name q = n" by auto
  qed (use tmux_ok_leases [OF ok] o in auto)
  moreover have "keeps s (putRecord g ?r s)" by (rule keeps_put [OF r]) auto
  then have "keeps s ?s" by (auto simp: keeps_def same_txns_def blocked_at_def leases_at_def recordPhase_def)
  ultimately show ?thesis using s' by simp
qed

lemma mark_harmless: "harmless (\<lambda>r. r\<lparr>lc_committed := True\<rparr>)" "calm (\<lambda>r. r\<lparr>lc_committed := True\<rparr>)"
  "harmless (\<lambda>r. r\<lparr>lc_serverGeneration := v\<rparr>)" "calm (\<lambda>r. r\<lparr>lc_serverGeneration := v\<rparr>)"
  by (simp_all add: harmless_def calm_def)

lemma mark_ok:
  assumes ok: "tmux_ok s"
  shows "tmux_ok (markPendingTmuxSession session now s) \<and> keeps s (markPendingTmuxSession session now s)"
proof -
  let ?key = "js_trim session"
  obtain o1 s1 where n: "newTmuxSessionLifecycleRecord ?key Creating (tm_epoch s) now s = (o1, s1)" by (rule prod.exhaust)
  have s1: "tmux_ok s1" "keeps s s1"
    using tmux_ok_newRecord [OF ok, of Creating ?key "tm_epoch s" now] keeps_newRecord [OF ok, of ?key Creating "tm_epoch s" now] n by simp_all
  then have fresh: "tmux_ok (modRecord g (\<lambda>r. r\<lparr>lc_committed := True\<rparr>) s1)"
    "keeps s (modRecord g (\<lambda>r. r\<lparr>lc_committed := True\<rparr>) s1)" for g
    by (auto intro: tmux_ok_mod mark_harmless keeps_trans keeps_mod)
  have live: "tmux_ok (putRecord g (r\<lparr>lc_phase := p, lc_committed := True, lc_pendingUntil := u\<rparr>) s)"
    "keeps s (putRecord g (r\<lparr>lc_phase := p, lc_committed := True, lc_pendingUntil := u\<rparr>) s)"
    if "getRecord s g = Some r" "\<not> blocked_phase (lc_phase r)" "p = RenamingIn \<or> p = Creating" for g r p u
    using that tmux_ok_record [OF ok that(1)]
    by (auto intro!: tmux_ok_put [OF ok] keeps_put simp: record_ok_def pending_phase_def blocked_phase_def)
  from s1 fresh live n ok show ?thesis
    by (auto simp: markPendingTmuxSession_def Let_def split: option.splits)
qed

lemma keeps_fields [simp]:
  "keeps s (s'\<lparr>tm_sourceToken := d\<rparr>) = keeps s s'" "keeps s (s'\<lparr>tm_released := a\<rparr>) = keeps s s'"
  by (auto simp: keeps_def same_txns_def blocked_at_def leases_at_def recordPhase_def)

lemma own_source_ok: "tmux_ok s \<Longrightarrow> tmux_ok (snd (tmuxSessionLifecycleOwnSource session source now s))
  \<and> keeps s (snd (tmuxSessionLifecycleOwnSource session source now s))"
  using tmux_ok_lookup [of s session now] keeps_lookup [of s session now]
  by (auto simp: tmuxSessionLifecycleOwnSource_def own_ok split: prod.splits option.splits
      intro: keeps_trans own_ok(2))

lemma record_event_ok: "record_event s s' \<Longrightarrow> tmux_ok s \<Longrightarrow> tmux_ok s' \<and> keeps s s'"
  by (induction rule: record_event.induct)
    (simp_all add: acquire_ok releaseLease_ok tmux_ok_lookup keeps_lookup own_source_ok own_ok releaseResource_ok
      prune_ok clear_ok mark_ok tmuxSessionLifecycleReleaseSource_def tmuxSessionLifecycleOwnScope_def
      tmuxSessionLifecycleReleaseScope_def tmuxSessionLifecycleOwnTimer_def tmuxSessionLifecycleReleaseTimer_def Let_def)

section \<open>Transactions\<close>

definition txns_ok :: "tmux_state \<Rightarrow> bool" where
  "txns_ok s \<longleftrightarrow>
     (\<forall>i t. getTxn s i = Some t \<longrightarrow> i \<le> tm_serial s \<and> (tx_state t = TActive \<longrightarrow> tm_current s = Some i))
     \<and> (\<forall>i. tm_current s = Some i \<longrightarrow> (\<exists>t. getTxn s i = Some t \<and> tx_state t = TActive
           \<and> (\<forall>g. tx_old t = Some g \<longrightarrow> blocked_at s g)))"

lemma txns_ok_keeps:
  assumes k: "keeps s s'" and t: "txns_ok s"
  shows "txns_ok s'"
proof -
  have same: "tm_serial s' = tm_serial s" "tm_current s' = tm_current s" "getTxn s' = getTxn s"
    using k by (auto simp: keeps_def same_txns_def getTxn_def)
  have "blocked_at s g \<Longrightarrow> blocked_at s' g" for g using k by (simp add: keeps_def)
  with t show ?thesis unfolding txns_ok_def same by metis
qed

lemma is_named_iff: "is_named g s \<longleftrightarrow> (\<exists>r. getRecord s g = Some r \<and> namedRecord s (lc_name r) = Some g)"
  by (simp add: is_named_def split: option.split)

text \<open>A named record may take any phase.\<close>

lemma tmux_ok_rephase:
  assumes ok: "tmux_ok s" and named: "is_named g s"
    and f: "\<And>r. lc_name (f r) = lc_name r \<and> lc_leases (f r) = lc_leases r
      \<and> ((pending_phase (lc_phase r) \<or> lc_pendingUntil r = 0) \<longrightarrow> \<not> pending_phase (lc_phase (f r)) \<longrightarrow> lc_pendingUntil (f r) = 0)"
  shows "tmux_ok (modRecord g f s)"
proof -
  from named obtain r where r: "getRecord s g = Some r" "namedRecord s (lc_name r) = Some g"
    by (auto simp: is_named_iff)
  have "record_ok s g (f r)" using tmux_ok_record [OF ok r(1)] f r(2) by (auto simp: record_ok_def)
  with tmux_ok_put [OF ok r(1)] f r(1) show ?thesis by (simp add: modRecord_def)
qed

lemma set_phase_simps [simp]:
  "lc_name (set_phase p r) = lc_name r" "lc_leases (set_phase p r) = lc_leases r"
  "lc_phase (set_phase p r) = p" "lc_pendingUntil (set_phase p r) = 0"
  by (simp_all add: set_phase_def)

lemma supersede_ok: "tmux_ok s \<Longrightarrow> tmux_ok (supersedeCurrent s)"
  by (auto simp: supersedeCurrent_def reconcileSupersededTmuxSessionLifecycleMutation_def Let_def
      intro!: tmux_ok_rephase tmux_ok_retireOption split: option.splits)


lemma getTxn_simps [simp]:
  "getTxn (putTxn i t s) j = (if j = i then Some t else getTxn s j)"
  "getTxn (s\<lparr>tm_serial := b\<rparr>) = getTxn s" "getTxn (s\<lparr>tm_epoch := b\<rparr>) = getTxn s"
  "getTxn (s\<lparr>tm_current := c\<rparr>) = getTxn s" "getTxn (modRecord g f s) = getTxn s" "getTxn (retireOption g' s) = getTxn s"
  by (auto simp: getTxn_def putTxn_def)

lemma putTxn_frame [simp]:
  "tm_serial (putTxn i t s) = tm_serial s" "tm_current (putTxn i t s) = tm_current s"
  "tm_epoch (putTxn i t s) = tm_epoch s" "tm_generation (putTxn i t s) = tm_generation s"
  "tm_names (putTxn i t s) = tm_names s" "tm_settled (putTxn i t s) = tm_settled s"
  by (simp_all add: putTxn_def)

lemma blocked_at_fields [simp]:
  "blocked_at (putTxn i t s) g = blocked_at s g" "blocked_at (s\<lparr>tm_current := c\<rparr>) g = blocked_at s g"
  "leases_at (putTxn i t s) g = leases_at s g" "leases_at (s\<lparr>tm_current := c\<rparr>) g = leases_at s g"
  by (simp_all add: blocked_at_def leases_at_def)

lemma supersede_txns:
  assumes "txns_ok s" "tm_txns u = tm_txns s" "tm_current u = tm_current s" "getTxn (supersedeCurrent u) j = Some t"
  shows "j \<le> tm_serial s \<and> tx_state t \<noteq> TActive"
proof -
  have u: "getTxn u = getTxn s" using assms(2) by (auto simp: getTxn_def)
  show ?thesis
  proof (cases "tm_current s")
    case None
    then have "getTxn s j = Some t" using assms(3,4) u by (simp add: supersedeCurrent_def)
    with assms(1) None show ?thesis by (auto simp: txns_ok_def)
  next
    case (Some i)
    then obtain ti where ti: "getTxn s i = Some ti" "tx_state ti = TActive" using assms(1) by (auto simp: txns_ok_def)
    have "supersedeCurrent u = reconcileSupersededTmuxSessionLifecycleMutation i u"
      using Some ti u assms(3) by (simp add: supersedeCurrent_def)
    moreover have "getTxn u i = Some ti" using ti u by simp
    ultimately have g: "getTxn (supersedeCurrent u) k = (if k = i then Some (ti\<lparr>tx_state := TSuperseded\<rparr>) else getTxn s k)" for k
      by (simp add: reconcileSupersededTmuxSessionLifecycleMutation_def Let_def u split: option.splits)
    have serial: "i \<le> tm_serial s" using assms(1) ti(1) by (auto simp: txns_ok_def)
    show ?thesis
    proof (cases "j = i")
      case True
      with assms(4) g serial show ?thesis by auto
    next
      case False
      with assms(4) g have "getTxn s j = Some t" by simp
      with assms(1) False Some show ?thesis by (auto simp: txns_ok_def)
    qed
  qed
qed

lemma supersede_frame [simp]: "tm_serial (supersedeCurrent s) = tm_serial s" "tm_epoch (supersedeCurrent s) = tm_epoch s"
  "tm_settled (supersedeCurrent s) = tm_settled s"
  by (auto simp: supersedeCurrent_def reconcileSupersededTmuxSessionLifecycleMutation_def Let_def split: option.splits)

lemma same_txns_refl [simp, intro]: "same_txns s s"
  by (simp add: same_txns_def)

lemma keeps_same: "keeps s s' \<Longrightarrow> same_txns s s'"
  by (simp add: keeps_def)

lemma beginOld_ok:
  assumes ok: "tmux_ok s" and b: "beginOldRecord kind session epoch now s = (old, s')"
  shows "tmux_ok s' \<and> same_txns s s' \<and> (\<forall>g. old = Some g \<longrightarrow> blocked_at s' g)
    \<and> set (tm_settled s) \<subseteq> set (tm_settled s')"
proof -
  obtain o1 s1 where l: "tmuxSessionLifecycleRecord session now s = (o1, s1)" by (rule prod.exhaust)
  have s1: "tmux_ok s1" "keeps s s1"
    using tmux_ok_lookup [OF ok, of session now] keeps_lookup [OF ok, of session now] l by simp_all
  show ?thesis
  proof (cases "session = [] \<or> kind = MCreate \<or> o1 = None")
    case True
    then have "old = None" "s' = s \<or> s' = s1" using b l by (auto simp: beginOldRecord_def split: if_splits)
    with s1 ok show ?thesis by (auto simp: keeps_def)
  next
    case False
    then obtain g where g: "o1 = Some g" by auto
    let ?f = "\<lambda>r. set_phase (if kind = MRename then RenamingOut else Killing) (r\<lparr>lc_topologyEpoch := epoch\<rparr>)"
    have s': "old = Some g" "s' = modRecord g ?f s1" using b l False g by (auto simp: beginOldRecord_def)
    have named: "is_named g s1" using lookup_named [OF ok l [unfolded g]] by (auto simp: is_named_iff)
    have "tmux_ok s'" unfolding s' using s1(1) named by (rule tmux_ok_rephase) (simp add: pending_phase_def)
    moreover have "blocked_at s' g"
      using named by (auto simp: s' blocked_at_def getRecord_mod blocked_phase_def is_named_iff)
    moreover have "same_txns s s'" using keeps_same [OF s1(2)] by (simp add: s' same_txns_def)
    moreover have "set (tm_settled s) \<subseteq> set (tm_settled s')" using s1(2) by (simp add: s' keeps_def)
    ultimately show ?thesis using s'(1) by simp
  qed
qed

lemma beginNew_ok:
  assumes ok: "tmux_ok s" and b: "beginNewRecord kind session newName sg epoch now s = (new, s')"
  shows "tmux_ok s' \<and> keeps s s'"
proof -
  have new: "tmux_ok (snd (newTmuxSessionLifecycleRecord n p epoch now s))" "keeps s (snd (newTmuxSessionLifecycleRecord n p epoch now s))"
    if "p \<noteq> Retired" for n p
    using ok that by (simp_all add: tmux_ok_newRecord keeps_newRecord)
  obtain o1 s1 where n: "newTmuxSessionLifecycleRecord session Creating epoch now s = (o1, s1)" by (rule prod.exhaust)
  have s1: "tmux_ok s1" "keeps s s1" using new [of Creating session] n by simp_all
  have "tmux_ok (modRecord g (\<lambda>r. r\<lparr>lc_serverGeneration := sg\<rparr>) s1)"
    "keeps s (modRecord g (\<lambda>r. r\<lparr>lc_serverGeneration := sg\<rparr>) s1)" for g
    using s1 by (auto intro: tmux_ok_mod mark_harmless keeps_trans keeps_mod)
  with b n s1 ok new [of RenamingIn newName] show ?thesis
    by (auto simp: beginNewRecord_def split: if_splits option.splits)
qed

lemma begin_ok:
  assumes ok: "tmux_ok s" "txns_ok s"
    and b: "beginTmuxSessionLifecycleMutation kind session newName sg now s = (i, s')"
  shows "tmux_ok s' \<and> txns_ok s' \<and> i = Suc (tm_serial s) \<and> tm_serial s' = i \<and> tm_current s' = Some i
    \<and> set (tm_settled s) \<subseteq> set (tm_settled s')"
proof -
  let ?u = "s\<lparr>tm_serial := Suc (tm_serial s), tm_epoch := Suc (tm_epoch s)\<rparr>"
  let ?s1 = "(supersedeCurrent ?u)\<lparr>tm_current := Some (Suc (tm_serial s))\<rparr>"
  obtain old s2 where o: "beginOldRecord kind (js_trim session) (Suc (tm_epoch s)) now ?s1 = (old, s2)" by (rule prod.exhaust)
  obtain new s3 where n: "beginNewRecord kind (js_trim session) (js_trim newName) sg (Suc (tm_epoch s)) now s2 = (new, s3)"
    by (rule prod.exhaust)
  have "tmux_ok ?u" using ok(1) by simp
  then have s1: "tmux_ok ?s1" by (simp add: supersede_ok)
  from beginOld_ok [OF s1 o]
  have s2: "tmux_ok s2" "same_txns ?s1 s2" "\<And>g. old = Some g \<Longrightarrow> blocked_at s2 g" "set (tm_settled s) \<subseteq> set (tm_settled s2)" by auto
  from beginNew_ok [OF s2(1) n]
  have s3: "tmux_ok s3" "same_txns s2 s3" "\<And>g. blocked_at s2 g \<Longrightarrow> blocked_at s3 g" "set (tm_settled s2) \<subseteq> set (tm_settled s3)"
    by (auto simp: keeps_def)
  let ?t = "\<lparr>tx_kind = kind, tx_topologyEpoch = Suc (tm_epoch s), tx_session = js_trim session, tx_newName = js_trim newName,
                tx_state = TActive, tx_old = old, tx_new = new, tx_serverGeneration = sg\<rparr>"
  have i: "i = Suc (tm_serial s)" "s' = putTxn i ?t s3"
    using b o n by (auto simp: beginTmuxSessionLifecycleMutation_def Let_def)
  have cur: "tm_current s3 = Some i" "tm_serial s3 = i" "getTxn s3 = getTxn (supersedeCurrent ?u)"
    using s2(2) s3(2) i by (auto simp: same_txns_def getTxn_def)
  have past: "j \<le> tm_serial s \<and> tx_state t \<noteq> TActive" if "getTxn s3 j = Some t" for j t
    using that unfolding cur by (intro supersede_txns [OF ok(2), of ?u]) auto
  have "txns_ok s'"
    unfolding txns_ok_def using past cur i s2(3) s3(3) by (fastforce split: if_splits)
  with s3(1) s3(4) s2(4) cur i show ?thesis by simp
qed


lemma txns_okD:
  assumes "txns_ok s"
  shows "getTxn s i = Some t \<Longrightarrow> i \<le> tm_serial s"
    and "getTxn s i = Some t \<Longrightarrow> tx_state t = TActive \<Longrightarrow> tm_current s = Some i"
    and "tm_current s = Some i \<Longrightarrow> \<exists>t. getTxn s i = Some t \<and> tx_state t = TActive"
    and "tm_current s = Some i \<Longrightarrow> getTxn s i = Some t \<Longrightarrow> tx_old t = Some g \<Longrightarrow> blocked_at s g"
  using assms unfolding txns_ok_def by (blast, blast, blast, metis option.inject)

lemma current_txn:
  assumes "txns_ok s"
  shows "tmuxSessionLifecycleMutationIsCurrent i s \<longleftrightarrow> tm_current s = Some i"
proof
  assume "tm_current s = Some i"
  with txns_okD(3) [OF assms] obtain t where "getTxn s i = Some t" "tx_state t = TActive" by blast
  with \<open>tm_current s = Some i\<close> show "tmuxSessionLifecycleMutationIsCurrent i s"
    by (simp add: tmuxSessionLifecycleMutationIsCurrent_def)
qed (simp add: tmuxSessionLifecycleMutationIsCurrent_def)

lemma txns_ok_end:
  assumes t: "txns_ok s" "tm_current s = Some i" "getTxn s i = Some t" and st: "tx_state t' \<noteq> TActive"
    and same: "same_txns s s'"
  shows "txns_ok ((putTxn i t' s')\<lparr>tm_current := None\<rparr>)"
proof -
  have g: "getTxn s' = getTxn s" "tm_serial s' = tm_serial s" using same by (auto simp: same_txns_def getTxn_def)
  have "j \<le> tm_serial s' \<and> tx_state u \<noteq> TActive"
    if u: "getTxn ((putTxn i t' s')\<lparr>tm_current := None\<rparr>) j = Some u" for j u
  proof (cases "j = i")
    case True
    with u st txns_okD(1) [OF t(1,3)] show ?thesis by (simp add: g(2))
  next
    case False
    with u have u: "getTxn s j = Some u" by (simp add: g(1))
    have "tx_state u \<noteq> TActive" using txns_okD(2) [OF t(1) u] t(2) False by auto
    with txns_okD(1) [OF t(1) u] show ?thesis by (simp add: g(2))
  qed
  then show ?thesis unfolding txns_ok_def by auto
qed

lemma commitNew_ok:
  assumes ok: "tmux_ok s" and c: "commitNewRecord t a b now s = (new, s')"
  shows "tmux_ok s' \<and> keeps s s'"
proof -
  have n: "tmux_ok (snd (newTmuxSessionLifecycleRecord m p e now u)) \<and> keeps u (snd (newTmuxSessionLifecycleRecord m p e now u))"
    if "p \<noteq> Retired" "tmux_ok u" for m p e u
    using that by (simp add: tmux_ok_newRecord keeps_newRecord)
  have r: "tmux_ok (retireTmuxSessionLifecycleRecord g s)" "keeps s (retireTmuxSessionLifecycleRecord g s)" for g
    using ok by (simp_all add: tmux_ok_retire keeps_retire)
  have nr: "tmux_ok (snd (newTmuxSessionLifecycleRecord m RenamingIn e now (retireTmuxSessionLifecycleRecord g s)))
      \<and> keeps s (snd (newTmuxSessionLifecycleRecord m RenamingIn e now (retireTmuxSessionLifecycleRecord g s)))" for m e g
    using n [OF _ r(1), of RenamingIn] r(2) by (blast intro: keeps_trans)
  have "s' = s \<or> (\<exists>m e. s' = snd (newTmuxSessionLifecycleRecord m Creating e now s))
      \<or> (\<exists>m e g. s' = snd (newTmuxSessionLifecycleRecord m RenamingIn e now (retireTmuxSessionLifecycleRecord g s)))"
    using c by (cases "tx_kind t"; cases "tx_new t") (auto simp: commitNewRecord_def Let_def split: if_splits; metis snd_conv)+
  with ok n [OF _ ok, of Creating] nr show ?thesis by auto
qed

lemma commit_ok:
  assumes ok: "tmux_ok s" "txns_ok s"
  shows "tmux_ok (snd (commitTmuxSessionLifecycleMutation i a b now s)) \<and>
    txns_ok (snd (commitTmuxSessionLifecycleMutation i a b now s)) \<and>
    set (tm_settled s) \<subseteq> set (tm_settled (snd (commitTmuxSessionLifecycleMutation i a b now s)))"
proof (cases "tmuxSessionLifecycleMutationIsCurrent i s")
  case False
  then have "snd (commitTmuxSessionLifecycleMutation i a b now s) = s"
    by (simp add: commitTmuxSessionLifecycleMutation_def split: option.split)
  with ok show ?thesis by simp
next
  case True
  with ok(2) have cur: "tm_current s = Some i" by (simp add: current_txn)
  then obtain t where t: "getTxn s i = Some t" using txns_okD(3) [OF ok(2)] by blast
  obtain new s1 where c: "commitNewRecord t a b now s = (new, s1)" by (rule prod.exhaust)
  let ?s2 = "retireOption (tx_old t) s1"
  let ?s3 = "case new of Some g \<Rightarrow> modRecord g (\<lambda>r. r\<lparr>lc_committed := True\<rparr>) ?s2 | None \<Rightarrow> ?s2"
  have s': "snd (commitTmuxSessionLifecycleMutation i a b now s)
      = (putTxn i (t\<lparr>tx_state := TCommitted, tx_new := new\<rparr>) ?s3)\<lparr>tm_current := None\<rparr>"
    using True t c by (simp add: commitTmuxSessionLifecycleMutation_def Let_def)
  have s1: "tmux_ok s1" "keeps s s1" using commitNew_ok [OF ok(1) c] by auto
  then have s2: "tmux_ok ?s2" "keeps s ?s2" by (auto intro: tmux_ok_retireOption keeps_trans keeps_retireOption)
  then have s3: "tmux_ok ?s3 \<and> keeps s ?s3"
    by (auto split: option.split intro: tmux_ok_mod mark_harmless keeps_trans keeps_mod)
  have "txns_ok ((putTxn i (t\<lparr>tx_state := TCommitted, tx_new := new\<rparr>) ?s3)\<lparr>tm_current := None\<rparr>)"
    using s3 by (intro txns_ok_end [OF ok(2) cur t]) (auto simp: keeps_def)
  with s3 s' show ?thesis by (auto simp: keeps_def)
qed

lemma rollback_ok:
  assumes ok: "tmux_ok s" "txns_ok s"
  shows "tmux_ok (fst (rollbackTmuxSessionLifecycleMutation i s)) \<and>
    txns_ok (fst (rollbackTmuxSessionLifecycleMutation i s)) \<and>
    set (tm_settled s) \<subseteq> set (tm_settled (fst (rollbackTmuxSessionLifecycleMutation i s)))"
proof (cases "tmuxSessionLifecycleMutationIsCurrent i s")
  case False
  then have "fst (rollbackTmuxSessionLifecycleMutation i s) = s"
    by (simp add: rollbackTmuxSessionLifecycleMutation_def split: option.split)
  with ok show ?thesis by simp
next
  case True
  with ok(2) have cur: "tm_current s = Some i" by (simp add: current_txn)
  then obtain t where t: "getTxn s i = Some t" using txns_okD(3) [OF ok(2)] by blast
  have blk: "\<And>g. tx_old t = Some g \<Longrightarrow> blocked_at s g" using txns_okD(4) [OF ok(2) cur t] .
  let ?s1 = "retireOption (tx_new t) s"
  let ?f = "\<lambda>r. r\<lparr>lc_phase := Stable, lc_topologyEpoch := tx_topologyEpoch t\<rparr>"
  let ?s2 = "case tx_old t of None \<Rightarrow> ?s1 | Some g \<Rightarrow> if is_named g ?s1 then modRecord g ?f ?s1 else ?s1"
  have s': "fst (rollbackTmuxSessionLifecycleMutation i s) = (putTxn i (t\<lparr>tx_state := TRolledBack\<rparr>) ?s2)\<lparr>tm_current := None\<rparr>"
    using True t by (simp add: rollbackTmuxSessionLifecycleMutation_def Let_def)
  have s1: "tmux_ok ?s1" "keeps s ?s1" using ok(1) by (simp_all add: tmux_ok_retireOption keeps_retireOption)
  have "tmux_ok ?s2 \<and> same_txns ?s1 ?s2 \<and> set (tm_settled ?s1) \<subseteq> set (tm_settled ?s2)"
  proof (cases "tx_old t")
    case (Some g)
    have "tmux_ok (modRecord g ?f ?s1)" if "is_named g ?s1"
    proof -
      from that obtain r where r: "getRecord ?s1 g = Some r" "namedRecord ?s1 (lc_name r) = Some g" by (auto simp: is_named_iff)
      have "blocked_at ?s1 g" using blk [OF Some] s1(2) by (simp add: keeps_def)
      with r(1) have "\<not> pending_phase (lc_phase r)" by (auto simp: blocked_at_def blocked_phase_def pending_phase_def)
      with tmux_ok_record [OF s1(1) r(1)] r(2) have "record_ok ?s1 g (?f r)" by (simp add: record_ok_def)
      from tmux_ok_put [OF s1(1) r(1) this] r(1) show ?thesis by (simp add: modRecord_def)
    qed
    with Some s1 show ?thesis by (simp add: same_txns_def)
  qed (use s1 in simp)
  moreover from this s1(2) have "same_txns s ?s2" by (simp add: keeps_def same_txns_def)
  then have "txns_ok ((putTxn i (t\<lparr>tx_state := TRolledBack\<rparr>) ?s2)\<lparr>tm_current := None\<rparr>)"
    by (intro txns_ok_end [OF ok(2) cur t]) auto
  ultimately show ?thesis using s' s1(2) by (auto simp: keeps_def)
qed

section \<open>The whole system\<close>

definition run_ok :: "system \<Rightarrow> nat \<Rightarrow> stage \<Rightarrow> bool" where
  "run_ok y i st \<longleftrightarrow>
     (let s = sy_tmux y in
      i \<le> tm_serial s \<and>
      (tm_current s = Some i \<longrightarrow>
        (\<forall>t g. getTxn s i = Some t \<longrightarrow> tx_old t = Some g \<longrightarrow>
          (case st of Waiting ls \<Rightarrow> set (leases_at s g) \<subseteq> set ls | Requesting \<Rightarrow> leases_at s g = [] | Finished v \<Rightarrow> True))))"

definition system_ok :: "system \<Rightarrow> bool" where
  "system_ok y \<longleftrightarrow> tmux_ok (sy_tmux y) \<and> txns_ok (sy_tmux y)
     \<and> (\<forall>i st. runStage y i = Some st \<longrightarrow> run_ok y i st)"

lemma runStage_set [simp]: "runStage (setStage i st y) j = (if j = i then Some st else runStage y j)"
  by (simp add: runStage_def setStage_def)

lemma setStage_tmux [simp]: "sy_tmux (setStage i st y) = sy_tmux y"
  by (simp add: setStage_def)

lemma runStage_tmux [simp]: "runStage (y\<lparr>sy_tmux := s\<rparr>) = runStage y"
  by (simp add: runStage_def fun_eq_iff)

lemma run_ok_set [simp]: "run_ok (setStage j st' y) i st = run_ok y i st"
  by (simp add: run_ok_def)

text \<open>A run whose transaction is not the current one has nothing to show.\<close>

lemma run_ok_other: "i \<le> tm_serial (sy_tmux y) \<Longrightarrow> tm_current (sy_tmux y) \<noteq> Some i \<Longrightarrow> run_ok y i st"
  by (simp add: run_ok_def)

lemma run_ok_keeps:
  assumes k: "keeps (sy_tmux y) s" and t: "txns_ok (sy_tmux y)" and r: "run_ok y i st"
  shows "run_ok (y\<lparr>sy_tmux := s\<rparr>) i st"
proof -
  have same: "tm_serial s = tm_serial (sy_tmux y)" "tm_current s = tm_current (sy_tmux y)" "getTxn s = getTxn (sy_tmux y)"
    using k by (auto simp: keeps_def same_txns_def getTxn_def)
  have l: "set (leases_at s g) \<subseteq> set (leases_at (sy_tmux y) g)"
    if "tm_current (sy_tmux y) = Some i" "getTxn (sy_tmux y) i = Some u" "tx_old u = Some g" for u g
  proof -
    have "blocked_at (sy_tmux y) g" using txns_okD(4) [OF t that] .
    with k show ?thesis by (simp add: keeps_def)
  qed
  have "case st of Waiting ls \<Rightarrow> set (leases_at s g) \<subseteq> set ls | Requesting \<Rightarrow> leases_at s g = [] | Finished v \<Rightarrow> True"
    if c: "tm_current (sy_tmux y) = Some i" "getTxn (sy_tmux y) i = Some u" "tx_old u = Some g" for u g
    using l [OF c] r c by (auto simp: run_ok_def Let_def split: stage.splits)
  moreover have "i \<le> tm_serial (sy_tmux y)" using r by (simp add: run_ok_def Let_def)
  ultimately show ?thesis by (simp add: run_ok_def Let_def same)
qed


lemma startRun_ok:
  assumes ok: "system_ok y"
  shows "system_ok (startRun kind session newName sg now y)"
proof -
  obtain i s where b: "beginTmuxSessionLifecycleMutation kind session newName sg now (sy_tmux y) = (i, s)" by (rule prod.exhaust)
  from ok have t: "tmux_ok (sy_tmux y)" "txns_ok (sy_tmux y)" by (simp_all add: system_ok_def)
  from begin_ok [OF t b] have s: "tmux_ok s" "txns_ok s" "i = Suc (tm_serial (sy_tmux y))" "tm_serial s = i" "tm_current s = Some i"
    by simp_all
  let ?y = "y\<lparr>sy_tmux := s\<rparr>" and ?w = "Waiting (tmuxSessionLifecycleMutationLeasePromises i s)"
  have y': "startRun kind session newName sg now y = setStage i ?w ?y" using b by (simp add: startRun_def)
  have "run_ok ?y i ?w"
    by (auto simp: run_ok_def s tmuxSessionLifecycleMutationLeasePromises_def leases_at_def)
  moreover have "run_ok ?y j st" if "runStage y j = Some st" "j \<noteq> i" for j st
  proof (rule run_ok_other)
    have "run_ok y j st" using ok that(1) by (simp add: system_ok_def)
    then show "j \<le> tm_serial (sy_tmux ?y)" by (simp add: run_ok_def s Let_def)
    show "tm_current (sy_tmux ?y) \<noteq> Some j" using that(2) s by simp
  qed
  ultimately show ?thesis using s by (auto simp: y' system_ok_def)
qed

lemma system_ok_run: "system_ok y \<Longrightarrow> runStage y i = Some st \<Longrightarrow> run_ok y i st"
  by (simp add: system_ok_def)

lemma leasesSettled_ok:
  assumes ok: "system_ok y" and r: "runStage y i = Some (Waiting ls)"
    and settled: "list_all (\<lambda>l. l \<in> set (tm_settled (sy_tmux y))) ls"
  shows "system_ok (leasesSettled i y)"
proof -
  have t: "tmux_ok (sy_tmux y)" "txns_ok (sy_tmux y)" using ok by (simp_all add: system_ok_def)
  have w: "run_ok y i (Waiting ls)" using ok r by (rule system_ok_run)
  have "leases_at (sy_tmux y) g = []" if "set (leases_at (sy_tmux y) g) \<subseteq> set ls" for g
  proof -
    have "l \<notin> set (leases_at (sy_tmux y) g)" if "l \<in> set (tm_settled (sy_tmux y))" for l
    proof (cases "getRecord (sy_tmux y) g")
      case (Some q)
      with tmux_ok_record [OF t(1)] have "record_ok (sy_tmux y) g q" by blast
      with Some that show ?thesis by (auto simp: leases_at_def record_ok_def)
    qed (simp add: leases_at_def)
    with that settled show ?thesis by (metis list_all_iff list.set_intros(1) neq_Nil_conv subset_iff)
  qed
  with w have "run_ok y i Requesting" by (auto simp: run_ok_def Let_def)
  moreover have "run_ok y i (Finished RunSuperseded)" using w by (simp add: run_ok_def Let_def)
  ultimately show ?thesis using ok t by (auto simp: leasesSettled_def system_ok_def)
qed

text \<open>Ending a transaction: its run is finished and no run is current.\<close>

lemma end_ok:
  assumes ok: "system_ok y" and s: "tmux_ok s" "txns_ok s" "tm_current s = None" "tm_serial (sy_tmux y) \<le> tm_serial s"
    and i: "i \<le> tm_serial s"
  shows "system_ok (setStage i (Finished v) (y\<lparr>sy_tmux := s\<rparr>))"
proof -
  have "run_ok (y\<lparr>sy_tmux := s\<rparr>) j st" if "runStage y j = Some st" for j st
  proof (rule run_ok_other)
    have "run_ok y j st" using ok that by (rule system_ok_run)
    then show "j \<le> tm_serial (sy_tmux (y\<lparr>sy_tmux := s\<rparr>))" using s(4) by (simp add: run_ok_def Let_def)
  qed (simp add: s)
  moreover have "run_ok (y\<lparr>sy_tmux := s\<rparr>) i (Finished v)" using i s(3) by (simp add: run_ok_other)
  ultimately show ?thesis using s by (auto simp: system_ok_def)
qed

lemma finish_ok: "system_ok y \<Longrightarrow> runStage y i = Some st \<Longrightarrow> system_ok (setStage i (Finished v) y)"
  using system_ok_run [of y i st] by (auto simp: system_ok_def run_ok_def Let_def)

lemma commit_current: 
  assumes "tm_current s = Some i" "txns_ok s"
  shows "tm_current (snd (commitTmuxSessionLifecycleMutation i a b now s)) = None"
    "tm_current (fst (rollbackTmuxSessionLifecycleMutation i s)) = None"
proof -
  obtain t where "getTxn s i = Some t" using txns_okD(3) [OF assms(2,1)] by blast
  then show "tm_current (snd (commitTmuxSessionLifecycleMutation i a b now s)) = None"
    "tm_current (fst (rollbackTmuxSessionLifecycleMutation i s)) = None"
    using assms by (auto simp: commitTmuxSessionLifecycleMutation_def rollbackTmuxSessionLifecycleMutation_def current_txn
        Let_def split: prod.splits)
qed


lemma commitCallback_ok:
  "tmux_ok s \<Longrightarrow> tmux_ok (commitCallback kind a b now s) \<and> keeps s (commitCallback kind a b now s)"
proof -
  assume ok: "tmux_ok s"
  have "tmux_ok (markPendingTmuxSession b now (clearPendingTmuxSession a s))
      \<and> keeps (clearPendingTmuxSession a s) (markPendingTmuxSession b now (clearPendingTmuxSession a s))"
    using clear_ok(1) [OF ok] by (intro mark_ok) auto
  then show ?thesis
    using mark_ok [OF ok] clear_ok(1) [OF ok] clear_ok(2) [of s a] keeps_trans [OF clear_ok(2) [of s a]]
    by (cases kind) (auto simp: commitCallback_def)
qed

lemma finished_keeps:
  "keeps s s' \<Longrightarrow> tm_current s = None \<Longrightarrow> tm_current s' = None \<and> tm_serial s' = tm_serial s"
  by (simp add: keeps_def same_txns_def)

lemma commit_serial: "tmux_ok s \<Longrightarrow> tm_serial (snd (commitTmuxSessionLifecycleMutation i a b now s)) = tm_serial s"
  "tm_serial (fst (rollbackTmuxSessionLifecycleMutation i s)) = tm_serial s"
  by (auto simp: commitTmuxSessionLifecycleMutation_def rollbackTmuxSessionLifecycleMutation_def Let_def
      split: option.splits prod.splits dest!: commitNew_ok [rotated] simp: keeps_def same_txns_def)

lemma requestSucceeded_ok:
  assumes ok: "system_ok y" and r: "runStage y i = Some Requesting"
  shows "system_ok (requestSucceeded i a b now y)"
proof (cases "getTxn (sy_tmux y) i")
  case None
  with ok show ?thesis by (simp add: requestSucceeded_def)
next
  case (Some t)
  let ?s = "sy_tmux y"
  have t: "tmux_ok ?s" "txns_ok ?s" using ok by (simp_all add: system_ok_def)
  show ?thesis
  proof (cases "tmuxSessionLifecycleMutationIsCurrent i ?s")
    case False
    with Some finish_ok [OF ok r] show ?thesis by (simp add: requestSucceeded_def)
  next
    case True
    then have cur: "tm_current ?s = Some i" using t(2) by (simp add: current_txn)
    define s1 where "s1 = snd (commitTmuxSessionLifecycleMutation i a b now ?s)"
    define s2 where "s2 = commitCallback (tx_kind t) (if tx_kind t = MCreate then a else tx_session t) b now s1"
    have s1: "tmux_ok s1" "txns_ok s1" "tm_current s1 = None" "tm_serial s1 = tm_serial ?s"
      using commit_ok [OF t] commit_current(1) [OF cur t(2)] commit_serial(1) [OF t(1)] by (simp_all add: s1_def)
    have s2: "tmux_ok s2" "keeps s1 s2" using commitCallback_ok [OF s1(1)] by (simp_all add: s2_def)
    have y': "requestSucceeded i a b now y = setStage i (Finished RunCommitted) (y\<lparr>sy_tmux := s2\<rparr>)"
      using Some True by (simp add: requestSucceeded_def s1_def s2_def)
    have "i \<le> tm_serial ?s" using txns_okD(1) [OF t(2) Some] .
    with s1(4) finished_keeps [OF s2(2) s1(3)] show ?thesis
      unfolding y' by (intro end_ok [OF ok s2(1) txns_ok_keeps [OF s2(2) s1(2)]]) auto
  qed
qed

lemma requestFailed_ok:
  assumes ok: "system_ok y" and r: "runStage y i = Some Requesting"
  shows "system_ok (requestFailed i y)"
proof (cases "tmuxSessionLifecycleMutationIsCurrent i (sy_tmux y)")
  case False
  with finish_ok [OF ok r] show ?thesis by (simp add: requestFailed_def)
next
  case True
  have t: "tmux_ok (sy_tmux y)" "txns_ok (sy_tmux y)" using ok by (simp_all add: system_ok_def)
  have cur: "tm_current (sy_tmux y) = Some i" using True t(2) by (simp add: current_txn)
  obtain u where "getTxn (sy_tmux y) i = Some u" using txns_okD(3) [OF t(2) cur] by blast
  then have "i \<le> tm_serial (sy_tmux y)" using txns_okD(1) [OF t(2)] by blast
  with True rollback_ok [OF t] commit_current(2) [OF cur t(2)] show ?thesis
    by (auto simp: requestFailed_def commit_serial intro!: end_ok [OF ok])
qed

lemma event_ok: "record_event (sy_tmux y) s \<Longrightarrow> system_ok y \<Longrightarrow> system_ok (y\<lparr>sy_tmux := s\<rparr>)"
  using record_event_ok [of "sy_tmux y" s]
  by (auto simp: system_ok_def intro: txns_ok_keeps run_ok_keeps)

lemma system_step_ok: "system_step y y' \<Longrightarrow> system_ok y \<Longrightarrow> system_ok y'"
  by (induction rule: system_step.induct)
    (auto intro: event_ok startRun_ok leasesSettled_ok requestSucceeded_ok requestFailed_ok)

lemma system_init_ok: "system_ok system_init"
  by (simp add: system_ok_def system_init_def tmux_init_def runStage_def tmux_ok_def txns_ok_def getRecord_def
      namedRecord_def getTxn_def)

text \<open>The counters: a generation is never used twice.\<close>

definition generation_of :: "system \<Rightarrow> nat" where
  "generation_of y = tm_generation (sy_tmux y)"


lemma begin_generation:
  assumes ok: "tmux_ok s" and b: "beginTmuxSessionLifecycleMutation kind session newName sg now s = (i, s')"
  shows "tm_generation s \<le> tm_generation s'"
proof -
  let ?u = "s\<lparr>tm_serial := Suc (tm_serial s), tm_epoch := Suc (tm_epoch s)\<rparr>"
  let ?s1 = "(supersedeCurrent ?u)\<lparr>tm_current := Some (Suc (tm_serial s))\<rparr>"
  obtain old s2 where o: "beginOldRecord kind (js_trim session) (Suc (tm_epoch s)) now ?s1 = (old, s2)" by (rule prod.exhaust)
  obtain new s3 where n: "beginNewRecord kind (js_trim session) (js_trim newName) sg (Suc (tm_epoch s)) now s2 = (new, s3)"
    by (rule prod.exhaust)
  have s1: "tmux_ok ?s1" using ok by (simp add: supersede_ok)
  have "tm_generation ?s1 = tm_generation s"
    by (auto simp: supersedeCurrent_def reconcileSupersededTmuxSessionLifecycleMutation_def Let_def split: option.splits)
  moreover have "tm_generation ?s1 \<le> tm_generation s2"
    using o keeps_lookup [OF s1, of "js_trim session" now]
    by (auto simp: beginOldRecord_def keeps_def split: if_splits prod.splits option.splits)
  moreover have "tm_generation s2 \<le> tm_generation s3"
    using beginNew_ok [OF _ n] beginOld_ok [OF s1 o] by (simp add: keeps_def)
  moreover have "tm_generation s' = tm_generation s3"
    using b o n by (auto simp: beginTmuxSessionLifecycleMutation_def Let_def)
  ultimately show ?thesis by simp
qed

lemma commit_generation:
  assumes "tmux_ok s"
  shows "tm_generation s \<le> tm_generation (snd (commitTmuxSessionLifecycleMutation i a b now s))"
    and "tm_generation s \<le> tm_generation (fst (rollbackTmuxSessionLifecycleMutation i s))"
  using assms commitNew_ok [OF assms]
  by (auto simp: commitTmuxSessionLifecycleMutation_def rollbackTmuxSessionLifecycleMutation_def Let_def keeps_def
      split: option.splits prod.splits)

lemma system_step_generation: "system_step y y' \<Longrightarrow> system_ok y \<Longrightarrow> generation_of y \<le> generation_of y'"
proof (induction rule: system_step.induct)
  case (event y s)
  with record_event_ok [of "sy_tmux y" s] show ?case by (simp add: generation_of_def system_ok_def keeps_def)
next
  case (start y kind session newName sg now)
  then show ?case
    by (auto simp: startRun_def generation_of_def system_ok_def split: prod.splits intro: begin_generation)
next
  case (succeed y i a b now)
  let ?c = "snd (commitTmuxSessionLifecycleMutation i a b now (sy_tmux y))"
  have ok: "tmux_ok (sy_tmux y)" "txns_ok (sy_tmux y)" using succeed by (simp_all add: system_ok_def)
  have "tm_generation ?c \<le> tm_generation (commitCallback kind v b now ?c)" for kind v
    using commitCallback_ok [of ?c] commit_ok [OF ok] by (simp add: keeps_def)
  then show ?case
    using commit_generation(1) [OF ok(1), of i a b now]
    by (auto simp: requestSucceeded_def generation_of_def split: option.split intro: order_trans)
next
  case (fail y i)
  then show ?case
    using commit_generation(2) [of "sy_tmux y" i] by (simp add: requestFailed_def generation_of_def system_ok_def)
qed (simp add: leasesSettled_def generation_of_def)

interpretation lifecycle: counting_machine system_step system_ok generation_of
  by unfold_locales (auto intro: system_step_ok system_step_generation)

lemma reachable_ok: "system_step\<^sup>*\<^sup>* system_init y \<Longrightarrow> tmux_ok (sy_tmux y) \<and> txns_ok (sy_tmux y)"
  using lifecycle.inv_reach [OF _ system_init_ok] by (simp add: system_ok_def)

end
