(* ===== verification/Tmux_Overtaken.thy ===== *)
theory Tmux_Overtaken
  imports Tmux_Invariants
begin

text \<open>
  Transactions that have ended (\<open>20_layout_state.js\<close>, \<open>70_layout_actions.js\<close>): a mutation that begins
  supersedes the one under way, and no later event of the client changes a transaction that was
  superseded, committed or rolled back.
\<close>

section \<open>Beginning\<close>

lemma getTxn_supersede:
  assumes "txns_ok s" "tm_txns u = tm_txns s" "tm_current u = tm_current s"
  shows "getTxn (supersedeCurrent u) j =
    (if tm_current s = Some j then map_option (\<lambda>t. t\<lparr>tx_state := TSuperseded\<rparr>) (getTxn s j) else getTxn s j)"
proof -
  have u: "getTxn u = getTxn s" using assms(2) by (auto simp: getTxn_def)
  show ?thesis
  proof (cases "tm_current s")
    case None
    then show ?thesis using assms(3) u by (simp add: supersedeCurrent_def)
  next
    case (Some i)
    then obtain t where t: "getTxn s i = Some t" "tx_state t = TActive" using txns_okD(3) [OF assms(1)] by blast
    then have "supersedeCurrent u = reconcileSupersededTmuxSessionLifecycleMutation i u"
      using Some u assms(3) by (simp add: supersedeCurrent_def)
    with t Some u show ?thesis
      by (auto simp: reconcileSupersededTmuxSessionLifecycleMutation_def Let_def split: option.splits)
  qed
qed

lemma begin_txns:
  assumes ok: "tmux_ok s" "txns_ok s"
    and b: "beginTmuxSessionLifecycleMutation kind session newName sg now s = (i, s')" and j: "j \<noteq> i"
  shows "getTxn s' j =
    (if tm_current s = Some j then map_option (\<lambda>t. t\<lparr>tx_state := TSuperseded\<rparr>) (getTxn s j) else getTxn s j)"
proof -
  let ?u = "s\<lparr>tm_serial := Suc (tm_serial s), tm_epoch := Suc (tm_epoch s)\<rparr>"
  let ?s1 = "(supersedeCurrent ?u)\<lparr>tm_current := Some (Suc (tm_serial s))\<rparr>"
  obtain old s2 where o: "beginOldRecord kind (js_trim session) (Suc (tm_epoch s)) now ?s1 = (old, s2)" by (rule prod.exhaust)
  obtain new s3 where n: "beginNewRecord kind (js_trim session) (js_trim newName) sg (Suc (tm_epoch s)) now s2 = (new, s3)"
    by (rule prod.exhaust)
  have s1: "tmux_ok ?s1" using ok(1) by (simp add: supersede_ok)
  have s2: "tmux_ok s2" "same_txns ?s1 s2" using beginOld_ok [OF s1 o] by auto
  have s3: "same_txns s2 s3" using beginNew_ok [OF s2(1) n] by (simp add: keeps_def)
  have "getTxn s' j = getTxn s3 j" using b o n j by (auto simp: beginTmuxSessionLifecycleMutation_def Let_def)
  also have "\<dots> = getTxn (supersedeCurrent ?u) j" using s2(2) s3 by (simp add: same_txns_def getTxn_def)
  also have "\<dots> = (if tm_current s = Some j then map_option (\<lambda>t. t\<lparr>tx_state := TSuperseded\<rparr>) (getTxn s j) else getTxn s j)"
    by (rule getTxn_supersede [OF ok(2)]) simp_all
  finally show ?thesis .
qed

section \<open>Ended transactions\<close>

definition ended_txn :: "nat \<Rightarrow> txn \<Rightarrow> tmux_state \<Rightarrow> bool" where
  "ended_txn j t s = (getTxn s j = Some t \<and> tx_state t \<noteq> TActive)"

lemma ended_not_current: "txns_ok s \<Longrightarrow> ended_txn j t s \<Longrightarrow> \<not> tmuxSessionLifecycleMutationIsCurrent j s"
  by (auto simp: ended_txn_def tmuxSessionLifecycleMutationIsCurrent_def)

lemma ended_keeps: "keeps s s' \<Longrightarrow> ended_txn j t s \<Longrightarrow> ended_txn j t s'"
  by (simp add: keeps_def same_txns_def ended_txn_def getTxn_def)

lemma ended_begin:
  assumes "tmux_ok s" "txns_ok s" "beginTmuxSessionLifecycleMutation kind session newName sg now s = (i, s')" "ended_txn j t s"
  shows "ended_txn j t s'"
proof -
  have "j \<noteq> i" using begin_ok [OF assms(1-3)] txns_okD(1) [OF assms(2)] assms(4) by (fastforce simp: ended_txn_def)
  moreover have "tm_current s \<noteq> Some j" using txns_okD(3) [OF assms(2), of j] assms(4) by (auto simp: ended_txn_def)
  ultimately show ?thesis using begin_txns [OF assms(1-3), of j] assms(4) by (simp add: ended_txn_def)
qed

lemma ended_commit:
  assumes "tmux_ok s" "txns_ok s" "ended_txn j t s"
  shows "ended_txn j t (snd (commitTmuxSessionLifecycleMutation i a b now s))"
proof (cases "tmuxSessionLifecycleMutationIsCurrent i s")
  case False
  then show ?thesis using assms(3) by (auto simp: commitTmuxSessionLifecycleMutation_def split: option.split)
next
  case True
  then have ij: "j \<noteq> i" using ended_not_current [OF assms(2,3)] by auto
  obtain u where u: "getTxn s i = Some u" using True by (auto simp: tmuxSessionLifecycleMutationIsCurrent_def split: option.splits)
  obtain new s1 where c: "commitNewRecord u a b now s = (new, s1)" by (rule prod.exhaust)
  have "ended_txn j t s1" using ended_keeps commitNew_ok [OF assms(1) c] assms(3) by blast
  then show ?thesis using True u c ij
    by (auto simp: commitTmuxSessionLifecycleMutation_def ended_txn_def Let_def split: option.split)
qed

lemma ended_rollback:
  assumes "txns_ok s" "ended_txn j t s"
  shows "ended_txn j t (fst (rollbackTmuxSessionLifecycleMutation i s))"
  using assms ended_not_current [OF assms]
  by (auto simp: rollbackTmuxSessionLifecycleMutation_def ended_txn_def Let_def split: option.split)

lemma ended_step: "system_step y y' \<Longrightarrow> system_ok y \<Longrightarrow> ended_txn j t (sy_tmux y) \<Longrightarrow> ended_txn j t (sy_tmux y')"
proof (induction rule: system_step.induct)
  case (event y s)
  then have "keeps (sy_tmux y) s" using record_event_ok by (simp add: system_ok_def)
  from ended_keeps [OF this event.prems(2)] show ?case by simp
next
  case (start y kind session newName sg now)
  then show ?case by (auto simp: startRun_def system_ok_def split: prod.splits intro: ended_begin)
next
  case (succeed y i a b now)
  let ?c = "snd (commitTmuxSessionLifecycleMutation i a b now (sy_tmux y))"
  have ok: "tmux_ok (sy_tmux y)" "txns_ok (sy_tmux y)" using succeed by (simp_all add: system_ok_def)
  have "ended_txn j t ?c" using ok succeed.prems(2) by (rule ended_commit)
  moreover have "tmux_ok ?c" using commit_ok [OF ok] by simp
  ultimately have "ended_txn j t (commitCallback k v b now ?c)" for k v using ended_keeps commitCallback_ok by blast
  with succeed.prems(2) show ?case by (simp add: requestSucceeded_def split: option.split)
next
  case (fail y i)
  then show ?case using ended_rollback by (simp add: requestFailed_def system_ok_def)
qed (simp add: leasesSettled_def)

interpretation ended: invariant_machine system_step "\<lambda>y. system_ok y \<and> ended_txn j t (sy_tmux y)" for j t
  by unfold_locales (auto intro: system_step_ok ended_step)

text \<open>The answers to a mutation that is not the current one.\<close>

lemma late_answers:
  assumes "\<not> tmuxSessionLifecycleMutationIsCurrent i (sy_tmux y)"
  shows "sy_tmux (requestSucceeded i a b now y) = sy_tmux y" "sy_tmux (requestFailed i y) = sy_tmux y"
    "sy_tmux (leasesSettled i y) = sy_tmux y" "runStage (leasesSettled i y) i = Some (Finished RunSuperseded)"
  using assms by (simp_all add: requestSucceeded_def requestFailed_def leasesSettled_def split: option.split)

end
