(* ===== verification/Tmux_Properties.thy ===== *)
theory Tmux_Properties
  imports Tmux_Overtaken Layout_Properties
begin

text \<open>
  The properties of the session lifecycle: what the reachable states guarantee, what a failed or
  overtaken mutation leaves behind, and two defects of the source.
\<close>

section \<open>Idle mutations\<close>

lemma supersede_idle [simp]: "tm_current s = None \<Longrightarrow> supersedeCurrent s = s"
  by (simp add: supersedeCurrent_def)

lemma named_fields [simp]:
  "namedRecord (s\<lparr>tm_serial := a\<rparr>) = namedRecord s" "namedRecord (s\<lparr>tm_epoch := a\<rparr>) = namedRecord s"
  "namedRecord (s\<lparr>tm_current := c\<rparr>) = namedRecord s" "namedRecord (modRecord g f s) = namedRecord s"
  "namedRecord (putTxn i t s) = namedRecord s" "namedRecord (retireOption o' s) = namedRecord s"
  by (simp_all add: namedRecord_def fun_eq_iff)

lemma lookup_existing:
  "js_trim session \<noteq> [] \<Longrightarrow> namedRecord s (js_trim session) = Some g \<Longrightarrow> tmuxSessionLifecycleRecord session now s = (Some g, s)"
  by (simp add: tmuxSessionLifecycleRecord_def)

definition blocked_old :: "mutation_kind \<Rightarrow> nat \<Rightarrow> lc_record \<Rightarrow> lc_record" where
  "blocked_old kind epoch r = set_phase (if kind = MRename then RenamingOut else Killing) (r\<lparr>lc_topologyEpoch := epoch\<rparr>)"

lemma blocked_old_simps [simp]:
  "lc_name (blocked_old kind epoch r) = lc_name r" "lc_leases (blocked_old kind epoch r) = lc_leases r"
  "blocked_phase (lc_phase (blocked_old kind epoch r))" "lc_phase (blocked_old kind epoch r) \<noteq> Retired"
  by (simp_all add: blocked_old_def blocked_phase_def)

text \<open>A mutation of a known session begun when none is active.\<close>

lemma begin_idle:
  assumes "tm_current s = None" "js_trim session \<noteq> []" "namedRecord s (js_trim session) = Some g" "kind \<noteq> MCreate"
    and "beginNewRecord kind (js_trim session) (js_trim newName) sg (Suc (tm_epoch s)) now
      (modRecord g (blocked_old kind (Suc (tm_epoch s)))
        (s\<lparr>tm_serial := Suc (tm_serial s), tm_epoch := Suc (tm_epoch s), tm_current := Some (Suc (tm_serial s))\<rparr>)) = (new, s1)"
  shows "beginTmuxSessionLifecycleMutation kind session newName sg now s =
    (Suc (tm_serial s), putTxn (Suc (tm_serial s))
      \<lparr>tx_kind = kind, tx_topologyEpoch = Suc (tm_epoch s), tx_session = js_trim session, tx_newName = js_trim newName,
       tx_state = TActive, tx_old = Some g, tx_new = new, tx_serverGeneration = sg\<rparr> s1)"
  using assms
  by (simp add: beginTmuxSessionLifecycleMutation_def beginOldRecord_def lookup_existing Let_def blocked_old_def [abs_def])

lemma begin_id: "fst (beginTmuxSessionLifecycleMutation kind session newName sg now s) = Suc (tm_serial s)"
  by (simp add: beginTmuxSessionLifecycleMutation_def Let_def split: prod.split)

lemma rollback_active:
  assumes "tm_current s = Some i" "getTxn s i = Some t" "tx_state t = TActive" "tx_old t = Some g"
  shows "rollbackTmuxSessionLifecycleMutation i s =
    ((putTxn i (t\<lparr>tx_state := TRolledBack\<rparr>)
       (if is_named g (retireOption (tx_new t) s)
        then modRecord g (\<lambda>r. r\<lparr>lc_phase := Stable, lc_topologyEpoch := tx_topologyEpoch t\<rparr>) (retireOption (tx_new t) s)
        else retireOption (tx_new t) s))\<lparr>tm_current := None\<rparr>, True)"
  using assms
  by (simp add: rollbackTmuxSessionLifecycleMutation_def tmuxSessionLifecycleMutationIsCurrent_def Let_def)

section \<open>Properties\<close>

text \<open>
  C2. The request of a rename or kill is sent only when no API request holds a lease on the old
  generation of the session any more, and from then on none is granted: the old record is
  blocked for as long as the mutation is current. For every interleaving of mutations with
  requests, timers, streams and roster updates.
\<close>

theorem mutation_waits_for_leases:
  assumes "system_step\<^sup>*\<^sup>* system_init y" "runStage y i = Some Requesting"
    and "tmuxSessionLifecycleMutationIsCurrent i (sy_tmux y)"
  shows "(case getTxn (sy_tmux y) i of
      None \<Rightarrow> False
    | Some t \<Rightarrow> (case tx_old t of
        None \<Rightarrow> True
      | Some g \<Rightarrow> (case getRecord (sy_tmux y) g of
          None \<Rightarrow> False | Some r \<Rightarrow> lc_leases r = [] \<and> blocked_phase (lc_phase r))))"
proof -
  have ok: "system_ok y" using assms(1) system_init_ok by (rule lifecycle.inv_reach)
  then have t: "txns_ok (sy_tmux y)" by (simp add: system_ok_def)
  have cur: "tm_current (sy_tmux y) = Some i" using assms(3) t by (simp add: current_txn)
  obtain u where u: "getTxn (sy_tmux y) i = Some u" using txns_okD(3) [OF t cur] by blast
  have run: "run_ok y i Requesting" using ok assms(2) by (rule system_ok_run)
  show ?thesis
  proof (cases "tx_old u")
    case (Some g)
    have "leases_at (sy_tmux y) g = []" "blocked_at (sy_tmux y) g"
      using run cur u Some txns_okD(4) [OF t cur u Some] by (auto simp: run_ok_def Let_def)
    with u Some show ?thesis by (auto simp: leases_at_def blocked_at_def split: option.splits)
  qed (simp add: u)
qed

text \<open>A run: a request is leased on session \<open>a\<close>, a kill of it begins, the lease is released, and
  the kill is sent.\<close>

definition kill_1 :: system where
  "kill_1 = system_init\<lparr>sy_tmux := snd (tmuxSessionLifecycleAcquireRequest ''a'' 5 (sy_tmux system_init))\<rparr>"
definition kill_2 :: system where "kill_2 = startRun MKill ''a'' [] 0 6 kill_1"
definition kill_3 :: system where "kill_3 = kill_2\<lparr>sy_tmux := fst (releaseLease 1 (sy_tmux kill_2))\<rparr>"
definition kill_4 :: system where "kill_4 = leasesSettled 1 kill_3"

lemma kill_steps: "system_step\<^sup>*\<^sup>* system_init kill_4"
proof -
  have "system_step system_init kill_1"
    unfolding kill_1_def by (intro system_step.event record_event.acquire)
  moreover have "system_step kill_1 kill_2" unfolding kill_2_def by (rule system_step.start)
  moreover have "system_step kill_2 kill_3" unfolding kill_3_def by (intro system_step.event record_event.release)
  moreover have "system_step kill_3 kill_4" unfolding kill_4_def
  proof (rule system_step.settle)
    show "runStage kill_3 1 = Some (Waiting [1])" by code_simp
    show "list_all (\<lambda>l. l \<in> set (tm_settled (sy_tmux kill_3))) [1]" by code_simp
  qed
  ultimately show ?thesis by (meson converse_rtranclp_into_rtranclp rtranclp.rtrancl_refl)
qed

theorem mutation_waits_for_leases_witness:
  "runStage kill_2 1 = Some (Waiting [1]) \<and> fst (tmuxSessionLifecycleAcquireRequest ''a'' 7 (sy_tmux kill_4)) = None \<and>
   (case getTxn (sy_tmux kill_4) 1 of
      None \<Rightarrow> False
    | Some t \<Rightarrow> (case tx_old t of
        None \<Rightarrow> True
      | Some g \<Rightarrow> (case getRecord (sy_tmux kill_4) g of
          None \<Rightarrow> False | Some r \<Rightarrow> lc_leases r = [] \<and> blocked_phase (lc_phase r))))"
proof (intro conjI)
  show "runStage kill_2 1 = Some (Waiting [1])" by code_simp
  show "fst (tmuxSessionLifecycleAcquireRequest ''a'' 7 (sy_tmux kill_4)) = None" by code_simp
  have 1: "runStage kill_4 1 = Some Requesting" by code_simp
  have 2: "tmuxSessionLifecycleMutationIsCurrent 1 (sy_tmux kill_4)" by code_simp
  from mutation_waits_for_leases [OF kill_steps 1 2]
  show "case getTxn (sy_tmux kill_4) 1 of
      None \<Rightarrow> False
    | Some t \<Rightarrow> (case tx_old t of
        None \<Rightarrow> True
      | Some g \<Rightarrow> (case getRecord (sy_tmux kill_4) g of
          None \<Rightarrow> False | Some r \<Rightarrow> lc_leases r = [] \<and> blocked_phase (lc_phase r)))" .
qed

text \<open>
  C5. In every reachable state at most one generation of a session name is alive, and it is the
  one the name leads to.
\<close>

theorem one_live_generation:
  assumes "system_step\<^sup>*\<^sup>* system_init y"
    and "getRecord (sy_tmux y) g = Some r" "getRecord (sy_tmux y) h = Some q"
    and "lc_phase r \<noteq> Retired" "lc_phase q \<noteq> Retired" "lc_name r = lc_name q"
  shows "g = h \<and> namedRecord (sy_tmux y) (lc_name r) = Some g"
  using reachable_ok [OF assms(1)] assms(2-) tmux_ok_record [of "sy_tmux y" g r] tmux_ok_record [of "sy_tmux y" h q]
  by (auto simp: record_ok_def)

theorem one_live_generation_witness:
  "namedRecord (sy_tmux kill_4) ''a'' = Some 1 \<and> recordPhase (sy_tmux kill_4) 1 = Some Killing"
proof -
  have r: "getRecord (sy_tmux kill_4) 1 = Some \<lparr>lc_name = ''a'', lc_topologyEpoch = 1, lc_phase = Killing,
      lc_committed = True, lc_pendingUntil = 0, lc_leases = [], lc_owned = [], lc_serverGeneration = 0\<rparr>"
    by code_simp
  from one_live_generation [OF kill_steps r r] r show ?thesis by (simp add: recordPhase_def)
qed

text \<open>At most one mutation is active in a reachable state, and it is the current one.\<close>

theorem one_active_mutation:
  assumes "system_step\<^sup>*\<^sup>* system_init y"
    and "getTxn (sy_tmux y) i = Some t" "getTxn (sy_tmux y) j = Some u" "tx_state t = TActive" "tx_state u = TActive"
  shows "i = j \<and> tmuxSessionLifecycleMutationIsCurrent i (sy_tmux y)"
proof -
  have ok: "txns_ok (sy_tmux y)" using reachable_ok [OF assms(1)] by simp
  have "tm_current (sy_tmux y) = Some i" "tm_current (sy_tmux y) = Some j"
    using txns_okD(2) [OF ok] assms by blast+
  then show ?thesis using ok by (simp add: current_txn)
qed

text \<open>
  A lease settles exactly once: in every reachable state a request for a session whose record
  is not blocked gets a lease, releasing it works the first time, and releasing it again does
  nothing.
\<close>

theorem lease_settles_once:
  assumes "system_step\<^sup>*\<^sup>* system_init y"
    and "tmuxSessionLifecycleAcquireRequest session now (sy_tmux y) = (Some l, s)"
  shows "snd (releaseLease l s) \<and> \<not> snd (releaseLease l (fst (releaseLease l s))) \<and> l \<notin> set (tm_settled (sy_tmux y))
    \<and> l \<in> set (tm_settled (fst (releaseLease l s)))"
proof -
  have ok: "tmux_ok (sy_tmux y)" using reachable_ok [OF assms(1)] by simp
  from acquire_cases [OF assms(2)] obtain g s1 r where l: "tmuxSessionLifecycleRecord session now (sy_tmux y) = (Some g, s1)"
    and r: "getRecord s1 g = Some r" and s: "l = Suc (tm_leaseSerial s1)" "s = with_lease g r s1" by auto
  have s1: "tmux_ok s1" "keeps (sy_tmux y) s1"
    using tmux_ok_lookup [OF ok, of session now] keeps_lookup [OF ok, of session now] l by simp_all
  have "l \<notin> set (tm_settled s1)" using tmux_ok_leases(2) [OF s1(1), of l] s(1) by auto
  with s1(2) have fresh: "l \<notin> set (tm_settled (sy_tmux y))" by (auto simp: keeps_def)
  have owner: "map_of (tm_leaseOwner s) l = Some g" "getRecord s g = Some (r\<lparr>lc_leases := lc_leases r @ [l]\<rparr>)"
    by (simp_all add: s with_lease_def Let_def)
  with fresh show ?thesis by (simp add: releaseLease_def)
qed


theorem one_active_mutation_witness:
  "tmuxSessionLifecycleMutationIsCurrent 1 (sy_tmux kill_4)"
proof -
  have t: "getTxn (sy_tmux kill_4) 1 = Some \<lparr>tx_kind = MKill, tx_topologyEpoch = 1, tx_session = ''a'', tx_newName = [],
      tx_state = TActive, tx_old = Some 1, tx_new = None, tx_serverGeneration = 0\<rparr>"
    by code_simp
  from one_active_mutation [OF kill_steps t t] show ?thesis by simp
qed

theorem lease_settles_once_witness:
  "snd (releaseLease 2 (snd (tmuxSessionLifecycleAcquireRequest ''b'' 7 (sy_tmux kill_4))))"
proof -
  have "tmuxSessionLifecycleAcquireRequest ''b'' 7 (sy_tmux kill_4)
      = (Some 2, snd (tmuxSessionLifecycleAcquireRequest ''b'' 7 (sy_tmux kill_4)))"
    by code_simp
  from lease_settles_once [OF kill_steps this] show ?thesis by simp
qed

text \<open>
  C8. A mutation that begins while another is under way supersedes it for good: the later one is
  the current mutation, and after any further events (other mutations begun, answered, committed
  and rolled back, leases released, names pruned) the transaction of the earlier one is still
  superseded, it is never current again, it sends no request when its leases settle, and its
  answer, success or failure, changes nothing.
\<close>

theorem overtaken_mutation_is_inert:
  assumes "system_step\<^sup>*\<^sup>* system_init y" "tmuxSessionLifecycleMutationIsCurrent i (sy_tmux y)"
    and "system_step\<^sup>*\<^sup>* (startRun kind session newName sg now y) z"
  shows "tmuxSessionLifecycleMutationIsCurrent (Suc (tm_serial (sy_tmux y))) (sy_tmux (startRun kind session newName sg now y))
    \<and> getTxn (sy_tmux z) i = map_option (\<lambda>t. t\<lparr>tx_state := TSuperseded\<rparr>) (getTxn (sy_tmux y) i)
    \<and> \<not> tmuxSessionLifecycleMutationIsCurrent i (sy_tmux z)
    \<and> runStage (leasesSettled i z) i = Some (Finished RunSuperseded) \<and> sy_tmux (leasesSettled i z) = sy_tmux z
    \<and> sy_tmux (requestSucceeded i payloadSession payloadNewName later z) = sy_tmux z \<and> sy_tmux (requestFailed i z) = sy_tmux z"
proof -
  let ?s = "sy_tmux y" and ?y = "startRun kind session newName sg now y"
  have ok: "system_ok y" by (rule lifecycle.inv_reach [OF assms(1) system_init_ok])
  then have t: "tmux_ok ?s" "txns_ok ?s" by (simp_all add: system_ok_def)
  obtain n s where b: "beginTmuxSessionLifecycleMutation kind session newName sg now ?s = (n, s)" by (rule prod.exhaust)
  have y: "sy_tmux ?y = s" using b by (simp add: startRun_def)
  have s: "txns_ok s" "n = Suc (tm_serial ?s)" "tm_current s = Some n" using begin_ok [OF t b] by simp_all
  obtain u where u: "getTxn ?s i = Some u" "tm_current ?s = Some i"
    using assms(2) by (auto simp: tmuxSessionLifecycleMutationIsCurrent_def split: option.splits)
  have "i \<noteq> n" using txns_okD(1) [OF t(2) u(1)] s(2) by simp
  then have "ended_txn i (u\<lparr>tx_state := TSuperseded\<rparr>) s" using begin_txns [OF t b] u by (simp add: ended_txn_def)
  then have "system_ok ?y \<and> ended_txn i (u\<lparr>tx_state := TSuperseded\<rparr>) (sy_tmux ?y)" using startRun_ok [OF ok] y by simp
  from ended.inv_reach [OF assms(3) this] have z: "txns_ok (sy_tmux z)" "ended_txn i (u\<lparr>tx_state := TSuperseded\<rparr>) (sy_tmux z)"
    by (simp_all add: system_ok_def)
  have "\<not> tmuxSessionLifecycleMutationIsCurrent i (sy_tmux z)" using z by (rule ended_not_current)
  with late_answers [OF this] z(2) u(1) s current_txn [OF s(1), of n] y show ?thesis by (simp add: ended_txn_def)
qed

theorem overtaken_mutation_is_inert_witness:
  "tmuxSessionLifecycleMutationIsCurrent 2 (sy_tmux (startRun MKill ''b'' [] 0 8 kill_4))
   \<and> sy_tmux (requestFailed 1 (startRun MKill ''b'' [] 0 8 kill_4)) = sy_tmux (startRun MKill ''b'' [] 0 8 kill_4)"
proof -
  have c: "tmuxSessionLifecycleMutationIsCurrent 1 (sy_tmux kill_4)" by code_simp
  have n: "tm_serial (sy_tmux kill_4) = 1" by code_simp
  from overtaken_mutation_is_inert [OF kill_steps c rtranclp.rtrancl_refl, of MKill "''b''" "[]" 0 8] show ?thesis
    by (simp add: n numeral_2_eq_2)
qed

text \<open>
  A kill that fails leaves the session as it was: the record of its name is the same
  generation, stable again and open for requests, every other record is untouched, and no
  mutation is active.
\<close>

theorem failed_kill_restores_session:
  assumes "tm_current s = None" "js_trim session \<noteq> []" "namedRecord s (js_trim session) = Some g"
    and "getRecord s g = Some r" "lc_name r = js_trim session"
    and "beginTmuxSessionLifecycleMutation MKill session newName sg now s = (i, s1)"
    and "rollbackTmuxSessionLifecycleMutation i s1 = (s2, ok)"
  shows "ok \<and> tm_current s2 = None \<and> recordPhase s2 g = Some Stable \<and> tmuxSessionLifecycleTokenIsCurrent g False s2
    \<and> fst (tmuxSessionLifecycleAcquireRequest session now s2) \<noteq> None
    \<and> list_all (\<lambda>k. k = g \<or> getRecord s2 k = getRecord s k) [0..<n]"
proof -
  let ?u = "modRecord g (blocked_old MKill (Suc (tm_epoch s)))
        (s\<lparr>tm_serial := Suc (tm_serial s), tm_epoch := Suc (tm_epoch s), tm_current := Some (Suc (tm_serial s))\<rparr>)"
  have b: "beginNewRecord MKill (js_trim session) (js_trim newName) sg (Suc (tm_epoch s)) now ?u = (None, ?u)"
    by (simp add: beginNewRecord_def)
  from begin_idle [OF assms(1-3) _ b] assms(6)
  have i: "i = Suc (tm_serial s)" and s1: "s1 = putTxn i \<lparr>tx_kind = MKill, tx_topologyEpoch = Suc (tm_epoch s),
      tx_session = js_trim session, tx_newName = js_trim newName, tx_state = TActive, tx_old = Some g, tx_new = None,
      tx_serverGeneration = sg\<rparr> ?u"
    by auto
  have named: "is_named g s1" using assms(3-5) by (simp add: is_named_iff s1 getRecord_mod)
  have "tm_current s1 = Some i" "tx_state (the (getTxn s1 i)) = TActive" by (simp_all add: s1 i)
  with rollback_active [of s1 i] named assms(7)
  have ok: "ok" and s2: "s2 = (putTxn i \<lparr>tx_kind = MKill, tx_topologyEpoch = Suc (tm_epoch s), tx_session = js_trim session,
        tx_newName = js_trim newName, tx_state = TRolledBack, tx_old = Some g, tx_new = None, tx_serverGeneration = sg\<rparr>
      (modRecord g (\<lambda>r. r\<lparr>lc_phase := Stable, lc_topologyEpoch := Suc (tm_epoch s)\<rparr>) s1))\<lparr>tm_current := None\<rparr>"
    by (auto simp: s1 i retireOption_def)
  have g2: "getRecord s2 g = Some ((blocked_old MKill (Suc (tm_epoch s)) r)\<lparr>lc_phase := Stable, lc_topologyEpoch := Suc (tm_epoch s)\<rparr>)"
    using assms(4) by (simp add: s2 s1 getRecord_mod)
  have n2: "namedRecord s2 = namedRecord s" by (simp add: s2 s1)
  have others: "getRecord s2 k = getRecord s k" if "k \<noteq> g" for k
    using that by (simp add: s2 s1 getRecord_mod)
  have "tmuxSessionLifecycleRecord session now s2 = (Some g, s2)"
    using lookup_existing [of session s2 g now] assms(2,3) by (simp add: n2)
  with g2 have "fst (tmuxSessionLifecycleAcquireRequest session now s2) \<noteq> None"
    by (simp add: tmuxSessionLifecycleAcquireRequest_def blocked_phase_def Let_def)
  moreover have "tm_current s2 = None" by (simp add: s2)
  ultimately show ?thesis
    using ok g2 others assms(3,5)
    by (auto simp: recordPhase_def tmuxSessionLifecycleTokenIsCurrent_def n2 blocked_phase_def list_all_iff)
qed

text \<open>
  A rename whose request fails takes the session that already has the new name out of
  service, for every idle state of the client: the record of that name is the retired one of
  the mutation, so the session's requests are refused and the topology filter hides the session,
  although it still runs. The session to be renamed is usable again.
\<close>

theorem failed_rename_blocks_namesake:
  assumes "tmux_ok s" "tm_current s = None" "js_trim session \<noteq> []" "js_trim newName \<noteq> []" "js_trim newName \<noteq> js_trim session"
    and "namedRecord s (js_trim session) = Some g" "namedRecord s (js_trim newName) = Some h"
    and "beginTmuxSessionLifecycleMutation MRename session newName sg now s = (i, s1)"
    and "rollbackTmuxSessionLifecycleMutation i s1 = (s2, ok)"
  shows "fst (tmuxSessionLifecycleAcquireRequest newName later s2) = None
    \<and> \<not> tmuxSessionLifecycleAllowsTopologySession newName s2
    \<and> \<not> tmuxSessionLifecycleTokenIsCurrent h True s2
    \<and> tmuxSessionLifecycleAllowsTopologySession session s2"
proof -
  let ?b = "js_trim newName" and ?k = "Suc (tm_generation s)"
  let ?e = "Suc (tm_epoch s)"
  let ?u = "modRecord g (blocked_old MRename ?e)
        (s\<lparr>tm_serial := Suc (tm_serial s), tm_epoch := ?e, tm_current := Some (Suc (tm_serial s))\<rparr>)"
  obtain new u1 where n: "newTmuxSessionLifecycleRecord ?b RenamingIn ?e now ?u = (new, u1)" by (rule prod.exhaust)
  have b: "beginNewRecord MRename (js_trim session) ?b sg ?e now ?u = (new, u1)"
    using assms(4) n by (simp add: beginNewRecord_def)
  from begin_idle [OF assms(2,3,6) _ b] assms(8)
  have i: "i = Suc (tm_serial s)" and s1: "s1 = putTxn i \<lparr>tx_kind = MRename, tx_topologyEpoch = ?e,
      tx_session = js_trim session, tx_newName = ?b, tx_state = TActive, tx_old = Some g, tx_new = new,
      tx_serverGeneration = sg\<rparr> u1"
    by auto
  have new: "new = Some ?k" and u1: "u1 = (putRecord ?k (freshRecord ?b RenamingIn ?e now) (retireNamed ?b ?u))
      \<lparr>tm_generation := ?k, tm_names := AList.update ?b ?k (tm_names s)\<rparr>"
    using n assms(4) by (auto simp: newRecord_eq Let_def)
  obtain r where r: "getRecord s g = Some r" "lc_name r = js_trim session" using tmux_ok_named [OF assms(1,6)] by blast
  obtain q where q: "getRecord s h = Some q" "lc_name q = ?b" using tmux_ok_named [OF assms(1,7)] by blast
  have gh: "g \<noteq> h" using r q assms(5) by auto
  have bound: "g \<noteq> ?k" "h \<noteq> ?k" using tmux_ok_bound [OF assms(1) r(1)] tmux_ok_bound [OF assms(1) q(1)] by auto
  have names: "namedRecord s1 n = (if n = ?b then Some ?k else namedRecord s n)" for n
    by (simp add: s1 u1 namedRecord_def)
  have g1: "getRecord s1 g = Some (blocked_old MRename ?e r)" "getRecord s1 ?k = Some (freshRecord ?b RenamingIn ?e now)"
    using r gh bound assms(7) by (simp_all add: s1 u1 retireNamed_def getRecord_retireOption getRecord_mod)
  have h1: "getRecord s1 h = Some (retired_of q)"
    using q gh bound assms(7) by (simp add: s1 u1 retireNamed_def getRecord_retireOption getRecord_mod)
  have cur: "tm_current s1 = Some i" "getTxn s1 i = Some \<lparr>tx_kind = MRename, tx_topologyEpoch = ?e,
      tx_session = js_trim session, tx_newName = ?b, tx_state = TActive, tx_old = Some g, tx_new = Some ?k,
      tx_serverGeneration = sg\<rparr>"
    by (simp_all add: s1 u1 retireNamed_def i new)
  have named: "is_named g (retireOption (Some ?k) s1)"
    using g1 r bound assms(5,6) names by (simp add: is_named_iff getRecord_retireOption)
  from rollback_active [OF cur] named assms(9)
  have s2: "getRecord s2 = getRecord (modRecord g (\<lambda>r. r\<lparr>lc_phase := Stable, lc_topologyEpoch := ?e\<rparr>) (retireOption (Some ?k) s1))"
    "namedRecord s2 = namedRecord s1"
    by auto
  have k2: "getRecord s2 ?k = Some (retired_of (freshRecord ?b RenamingIn ?e now))"
    using g1 bound by (simp add: s2 getRecord_mod getRecord_retireOption)
  have g2: "\<exists>r'. getRecord s2 g = Some r' \<and> lc_phase r' = Stable"
    using g1 bound by (simp add: s2 getRecord_mod getRecord_retireOption)
  have b2: "namedRecord s2 ?b = Some ?k" by (simp add: s2 names)
  have "tmuxSessionLifecycleRecord newName later s2 = (Some ?k, s2)" using assms(4) b2 by (rule lookup_existing)
  with k2 have "fst (tmuxSessionLifecycleAcquireRequest newName later s2) = None"
    by (simp add: tmuxSessionLifecycleAcquireRequest_def blocked_phase_def)
  moreover have "\<not> tmuxSessionLifecycleAllowsTopologySession newName s2"
    using b2 k2 by (simp add: tmuxSessionLifecycleAllowsTopologySession_def blocked_phase_def)
  moreover have "\<not> tmuxSessionLifecycleTokenIsCurrent h True s2"
    using h1 gh bound by (simp add: tmuxSessionLifecycleTokenIsCurrent_def s2 getRecord_mod getRecord_retireOption)
  moreover have "tmuxSessionLifecycleAllowsTopologySession session s2"
    using g2 assms(5,6) by (auto simp: tmuxSessionLifecycleAllowsTopologySession_def s2 names blocked_phase_def pending_phase_def)
  ultimately show ?thesis by simp
qed


text \<open>Two sessions \<open>a\<close> and \<open>b\<close> that have made a request each.\<close>

definition twin :: tmux_state where
  "twin = snd (tmuxSessionLifecycleRecord ''b'' 6 (snd (tmuxSessionLifecycleRecord ''a'' 5 tmux_init)))"

lemma twin_ok: "tmux_ok twin"
proof -
  have "tmux_ok tmux_init" using system_init_ok by (simp only: system_ok_def system_init_def system.select_convs)
  then show ?thesis unfolding twin_def by (intro tmux_ok_lookup)
qed

lemma twin_current: "tm_current twin = None" by code_simp
lemma twin_serial: "tm_serial twin = 0" by code_simp
lemma trim_letters: "js_trim ''a'' = ''a''" "js_trim ''b'' = ''b''"
  by (simp_all add: js_trim_def js_isSpace_def)
lemma twin_names: "namedRecord twin ''a'' = Some 1" "namedRecord twin ''b'' = Some 2"
  by code_simp+
lemma twin_trimmed: "namedRecord twin (js_trim ''a'') = Some 1" "namedRecord twin (js_trim ''b'') = Some 2"
  by (simp_all only: trim_letters twin_names)
lemmas twin_facts = twin_current trim_letters twin_trimmed

theorem failed_kill_restores_session_witness:
  "fst (tmuxSessionLifecycleAcquireRequest ''a'' 9 (fst (rollbackTmuxSessionLifecycleMutation 1
     (snd (beginTmuxSessionLifecycleMutation MKill ''a'' [] 0 9 twin))))) \<noteq> None"
proof -
  obtain r where r: "getRecord twin 1 = Some r" "lc_name r = js_trim ''a''"
    using tmux_ok_named [OF twin_ok twin_facts(4)] by blast
  have b: "beginTmuxSessionLifecycleMutation MKill ''a'' [] 0 9 twin
      = (1, snd (beginTmuxSessionLifecycleMutation MKill ''a'' [] 0 9 twin))"
    using twin_serial by (simp add: begin_id prod_eq_iff)
  have ne: "js_trim ''a'' \<noteq> []" by (simp add: twin_facts)
  obtain s2 ok where k: "rollbackTmuxSessionLifecycleMutation 1
      (snd (beginTmuxSessionLifecycleMutation MKill ''a'' [] 0 9 twin)) = (s2, ok)" by (rule prod.exhaust)
  from failed_kill_restores_session [OF twin_facts(1) ne twin_facts(4) r b k] k show ?thesis by simp
qed

theorem failed_rename_blocks_namesake_witness:
  "fst (tmuxSessionLifecycleAcquireRequest ''b'' 10 twin) \<noteq> None \<and>
   fst (tmuxSessionLifecycleAcquireRequest ''b'' 10 (fst (rollbackTmuxSessionLifecycleMutation 1
     (snd (beginTmuxSessionLifecycleMutation MRename ''a'' ''b'' 0 9 twin))))) = None"
proof -
  have b: "beginTmuxSessionLifecycleMutation MRename ''a'' ''b'' 0 9 twin
      = (1, snd (beginTmuxSessionLifecycleMutation MRename ''a'' ''b'' 0 9 twin))"
    using twin_serial by (simp add: begin_id prod_eq_iff)
  have ne: "js_trim ''a'' \<noteq> []" "js_trim ''b'' \<noteq> []" "js_trim ''b'' \<noteq> js_trim ''a''" by (simp_all add: twin_facts)
  obtain s2 ok where k: "rollbackTmuxSessionLifecycleMutation 1
      (snd (beginTmuxSessionLifecycleMutation MRename ''a'' ''b'' 0 9 twin)) = (s2, ok)" by (rule prod.exhaust)
  have "fst (tmuxSessionLifecycleAcquireRequest ''b'' 10 twin) \<noteq> None" by code_simp
  with failed_rename_blocks_namesake [OF twin_ok twin_facts(1) ne twin_facts(4,5) b k, of 10] k show ?thesis by simp
qed

text \<open>
  Retirement is not final: after a kill of \<open>a\<close> was committed its generation is retired, but a
  second kill of the name (a session created again outside this client) that fails makes the
  same generation current again, and with it every token taken before the first kill.
\<close>

definition killed_a :: tmux_state where
  "killed_a = snd (commitTmuxSessionLifecycleMutation 1 ''a'' [] 10
     (snd (beginTmuxSessionLifecycleMutation MKill ''a'' [] 0 9 twin)))"

theorem failed_kill_revives_retired_generation:
  "tmuxSessionLifecycleTokenIsCurrent 1 False twin
   \<and> recordPhase killed_a 1 = Some Retired \<and> \<not> tmuxSessionLifecycleTokenIsCurrent 1 True killed_a
   \<and> tmuxSessionLifecycleTokenIsCurrent 1 False (fst (rollbackTmuxSessionLifecycleMutation 2
       (snd (beginTmuxSessionLifecycleMutation MKill ''a'' [] 0 11 killed_a))))"
  by code_simp

section \<open>Rosters\<close>

lemma prune_names [simp]: "tm_names (pruneExpiredPendingTmuxSessions now s) = tm_names s"
proof -
  have "tm_names (fold (\<lambda>x. modRecord (snd x) f) xs u) = tm_names u" for f u and xs :: "(string \<times> nat) list"
    by (induction xs arbitrary: u) auto
  then show ?thesis by (simp add: pruneExpiredPendingTmuxSessions_def)
qed

lemma clear_names [simp]: "tm_names (clearPendingTmuxSession session s) = tm_names s"
  by (simp add: clearPendingTmuxSession_def split: option.split)

lemma clearConfirmed_ok:
  "tmux_ok s \<Longrightarrow> tmux_ok (clearConfirmedPendingTmuxSessions ns s) \<and> keeps s (clearConfirmedPendingTmuxSessions ns s)
    \<and> tm_names (clearConfirmedPendingTmuxSessions ns s) = tm_names s"
proof (induction ns arbitrary: s)
  case (Cons n ms)
  from Cons.IH [OF clear_ok(1) [OF Cons.prems]] keeps_trans [OF clear_ok(2) [of s n]] show ?case
    by (simp add: clearConfirmedPendingTmuxSessions_def)
qed (simp add: clearConfirmedPendingTmuxSessions_def)


text \<open>Nothing has expired; none of the given sessions is pending.\<close>

definition unexpired :: "nat \<Rightarrow> tmux_state \<Rightarrow> bool" where
  "unexpired now s \<longleftrightarrow> (\<forall>g r. g \<in> snd ` set (tm_names s) \<longrightarrow> getRecord s g = Some r \<longrightarrow>
     pending_phase (lc_phase r) \<longrightarrow> now < lc_pendingUntil r)"

definition confirmed :: "string list \<Rightarrow> tmux_state \<Rightarrow> bool" where
  "confirmed ns s \<longleftrightarrow> (\<forall>n \<in> set ns. \<not> isPendingTmuxSession n s)"

lemma pending_Stable [simp]: "\<not> pending_phase Stable"
  by (simp add: pending_phase_def)

lemma expire_idem [simp]: "expire now (expire now r) = expire now r"
  by (simp add: expire_def)

lemma expire_pending: "pending_phase (lc_phase (expire now r)) \<longleftrightarrow> pending_phase (lc_phase r) \<and> now < lc_pendingUntil r"
  by (auto simp: expire_def pending_phase_def)

lemma getRecord_prune:
  "getRecord (pruneExpiredPendingTmuxSessions now s) k
   = (if k \<in> snd ` set (tm_names s) then map_option (expire now) (getRecord s k) else getRecord s k)"
proof -
  have "getRecord (fold (\<lambda>x. modRecord (snd x) (expire now)) xs u) k
      = (if k \<in> snd ` set xs then map_option (expire now) (getRecord u k) else getRecord u k)" for xs :: "(string \<times> nat) list" and u
  proof (induction xs arbitrary: u)
    case (Cons x xs)
    show ?case by (auto simp: Cons.IH getRecord_mod option.map_comp comp_def)
  qed simp
  then show ?thesis by (simp add: pruneExpiredPendingTmuxSessions_def)
qed

lemma unexpired_prune: "unexpired now (pruneExpiredPendingTmuxSessions now s)"
proof -
  have "expire now z = z" if "pending_phase (lc_phase (expire now z))" for z
    using that by (simp add: expire_pending) (simp add: expire_def)
  then show ?thesis by (fastforce simp: unexpired_def getRecord_prune expire_pending)
qed

lemma prune_unexpired: "unexpired now s \<Longrightarrow> getRecord (pruneExpiredPendingTmuxSessions now s) = getRecord s"
proof
  fix k assume u: "unexpired now s"
  show "getRecord (pruneExpiredPendingTmuxSessions now s) k = getRecord s k"
    using u by (cases "getRecord s k") (auto simp: getRecord_prune unexpired_def expire_def)
qed

lemma getRecord_clear:
  "getRecord (clearPendingTmuxSession n s) k
   = (if namedRecord s (js_trim n) = Some k
      then map_option (\<lambda>r. if pending_phase (lc_phase r) then set_phase Stable r else r) (getRecord s k) else getRecord s k)"
  by (auto simp: clearPendingTmuxSession_def getRecord_mod split: option.split)

lemma unexpired_clear: "unexpired now s \<Longrightarrow> unexpired now (clearPendingTmuxSession n s)"
  by (auto simp: unexpired_def getRecord_clear pending_phase_def split: if_splits)

lemma named_clear [simp]: "namedRecord (clearPendingTmuxSession n s) = namedRecord s"
  by (simp add: namedRecord_def fun_eq_iff)

lemma named_prune [simp]: "namedRecord (pruneExpiredPendingTmuxSessions now s) = namedRecord s"
  by (simp add: namedRecord_def fun_eq_iff)

lemma pending_clear: "isPendingTmuxSession m (clearPendingTmuxSession n s) \<longleftrightarrow>
    isPendingTmuxSession m s \<and> namedRecord s (js_trim n) \<noteq> namedRecord s (js_trim m)"
  by (auto simp: isPendingTmuxSession_def getRecord_clear pending_phase_def split: option.splits)

lemma clearConfirmed_confirms:
  "unexpired now s \<Longrightarrow> confirmed ns (clearConfirmedPendingTmuxSessions ns s)
    \<and> unexpired now (clearConfirmedPendingTmuxSessions ns s)"
proof (induction ns arbitrary: s)
  case (Cons n ns)
  let ?t = "clearPendingTmuxSession n s"
  have stay: "\<not> isPendingTmuxSession m u \<Longrightarrow> \<not> isPendingTmuxSession m (fold clearPendingTmuxSession ms u)" for m ms u
    by (induction ms arbitrary: u) (auto simp: pending_clear)
  have "\<not> isPendingTmuxSession n ?t" by (simp add: pending_clear)
  from Cons.IH [of ?t] unexpired_clear [OF Cons.prems] stay [OF this, of ns] show ?case
    by (auto simp: clearConfirmedPendingTmuxSessions_def confirmed_def)
qed (simp add: clearConfirmedPendingTmuxSessions_def confirmed_def)

lemma clearConfirmed_confirmed: "confirmed ns s \<Longrightarrow>
   getRecord (clearConfirmedPendingTmuxSessions ns s) = getRecord s \<and> tm_names (clearConfirmedPendingTmuxSessions ns s) = tm_names s"
proof (induction ns arbitrary: s)
  case (Cons n ns)
  have eq: "getRecord (clearPendingTmuxSession n s) = getRecord s"
  proof
    fix k show "getRecord (clearPendingTmuxSession n s) k = getRecord s k"
      using Cons.prems by (cases "getRecord s k") (auto simp: getRecord_clear confirmed_def isPendingTmuxSession_def)
  qed
  then have "isPendingTmuxSession m (clearPendingTmuxSession n s) = isPendingTmuxSession m s" for m
    by (simp only: isPendingTmuxSession_def named_clear)
  then have "confirmed ns (clearPendingTmuxSession n s)"
    using Cons.prems by (simp add: confirmed_def)
  from Cons.IH [OF this] eq show ?case by (simp add: clearConfirmedPendingTmuxSessions_def)
qed (simp add: clearConfirmedPendingTmuxSessions_def)


lemma pendingNames_cong:
  "tm_names s' = tm_names s \<Longrightarrow> getRecord s' = getRecord s \<Longrightarrow> pendingTmuxSessionNames s' = pendingTmuxSessionNames s"
  by (simp only: pendingTmuxSessionNames_def)

lemma confirmed_cong:
  "tm_names s' = tm_names s \<Longrightarrow> getRecord s' = getRecord s \<Longrightarrow> confirmed ns s' = confirmed ns s"
  by (simp only: confirmed_def isPendingTmuxSession_def namedRecord_def)

lemma push_new_prefix: "\<exists>zs. foldl push_new xs ys = xs @ zs"
proof (induction ys arbitrary: xs)
  case (Cons y ys)
  obtain zs where "foldl push_new (push_new xs y) ys = push_new xs y @ zs" using Cons.IH by blast
  then show ?case by (cases "y \<in> set xs") (auto simp: push_new_def [of xs])
qed simp

lemma push_new_known: "set ys \<subseteq> set xs \<Longrightarrow> foldl push_new xs ys = xs"
  by (induction ys) (auto simp: push_new_def)

lemma normalizedSessionOrder_fixed:
  "distinct xs \<Longrightarrow> [] \<notin> set xs \<Longrightarrow> normalizedSessionOrder (Some xs) = Some xs"
proof -
  assume "distinct xs" "[] \<notin> set xs"
  then have "filter (\<lambda>x. x \<noteq> []) xs = xs" by (auto simp: filter_id_conv)
  with \<open>distinct xs\<close> show ?thesis by (simp add: normalizedSessionOrder_def dedupe_id)
qed

lemma normalizedSessionOrder_good: "normalizedSessionOrder raw = Some xs \<Longrightarrow> distinct xs \<and> [] \<notin> set xs"
  by (auto simp: normalizedSessionOrder_def dedupe_def)

definition named_sessions :: "tmux_state \<Rightarrow> bool" where
  "named_sessions s \<longleftrightarrow> [] \<notin> fst ` set (tm_names s)"

lemma pending_named: "named_sessions s \<Longrightarrow> [] \<notin> set (pendingTmuxSessionNames s)"
  by (force simp: named_sessions_def pendingTmuxSessionNames_def)


lemma order_pending:
  assumes "sessionOrderIncludingPending xs now s = (order, s')" "distinct xs" "[] \<notin> set xs"
  shows "order = foldl push_new xs (pendingTmuxSessionNames s')" "s' = pruneExpiredPendingTmuxSessions now s"
  using assms normalizedSessionOrder_fixed [of xs] by (auto simp: sessionOrderIncludingPending_def Let_def)

lemma order_again:
  assumes "unexpired now s" "distinct xs" "[] \<notin> set xs"
    and "order = foldl push_new xs (pendingTmuxSessionNames s)" "named_sessions s"
  shows "sessionOrderIncludingPending order now s = (order, pruneExpiredPendingTmuxSessions now s)"
    "pendingTmuxSessionNames (pruneExpiredPendingTmuxSessions now s) = pendingTmuxSessionNames s"
proof -
  show p: "pendingTmuxSessionNames (pruneExpiredPendingTmuxSessions now s) = pendingTmuxSessionNames s"
    using assms(1) by (intro pendingNames_cong) (simp_all add: prune_unexpired)
  have "distinct order" "[] \<notin> set order" "set (pendingTmuxSessionNames s) \<subseteq> set order"
    using assms pending_named by auto
  then show "sessionOrderIncludingPending order now s = (order, pruneExpiredPendingTmuxSessions now s)"
    using p normalizedSessionOrder_fixed [of order] by (simp add: sessionOrderIncludingPending_def Let_def push_new_known)
qed

text \<open>The state a roster update leaves: its records, and the session list computed from them.\<close>

lemma updateSessionList_leaves:
  assumes u: "updateSessionList raw conf now c = (c', ch)" and x: "normalizedSessionOrder raw = Some xs"
    and n: "named_sessions (cl_tmux c)"
  defines "s2 \<equiv> (if conf then clearConfirmedPendingTmuxSessions xs (pruneExpiredPendingTmuxSessions now (cl_tmux c))
                 else pruneExpiredPendingTmuxSessions now (cl_tmux c))"
  shows "getRecord (cl_tmux c') = getRecord s2 \<and> tm_names (cl_tmux c') = tm_names (cl_tmux c)
    \<and> unexpired now s2 \<and> (conf \<longrightarrow> confirmed xs s2)
    \<and> sessions (cl_env c') = foldl push_new xs (pendingTmuxSessionNames s2)"
proof -
  have good: "distinct xs" "[] \<notin> set xs" using normalizedSessionOrder_good [OF x] by auto
  have un: "unexpired now s2" "conf \<longrightarrow> confirmed xs s2"
    using clearConfirmed_confirms [OF unexpired_prune, of xs now "cl_tmux c"] by (auto simp: s2_def unexpired_prune)
  have "tm_names (clearConfirmedPendingTmuxSessions xs s) = tm_names s" for s
    unfolding clearConfirmedPendingTmuxSessions_def by (induction xs arbitrary: s) auto
  then have names: "tm_names s2 = tm_names (cl_tmux c)" by (simp add: s2_def)
  obtain order s3 where o: "sessionOrderIncludingPending xs now s2 = (order, s3)" by (rule prod.exhaust)
  from order_pending [OF o good] have s3: "s3 = pruneExpiredPendingTmuxSessions now s2"
    and order: "order = foldl push_new xs (pendingTmuxSessionNames s3)" by auto
  have r3: "getRecord s3 = getRecord s2" "tm_names s3 = tm_names s2" by (simp_all add: s3 prune_unexpired un)
  then have p3: "pendingTmuxSessionNames s3 = pendingTmuxSessionNames s2" by (intro pendingNames_cong)
  have un3: "unexpired now s3" using un(1) r3 by (simp add: unexpired_def)
  have n3: "named_sessions s3" using n names r3 by (simp add: named_sessions_def)
  from order_again [OF un3 good order n3]
  have again: "sessionOrderIncludingPending order now s3 = (order, pruneExpiredPendingTmuxSessions now s3)" by simp
  show ?thesis
  proof (cases "order = sessions (cl_env c)")
    case True
    then have "c' = with_layoutItems (sessions (cl_env c)) (visibleSessions (cl_env c)) s3 c"
      using u x o by (simp add: updateSessionList_def Let_def s2_def)
    then show ?thesis using True un names r3 p3 order by (simp add: with_layoutItems_def)
  next
    case False
    have "cl_tmux (setSessionOrder order now (c\<lparr>cl_tmux := s3\<rparr>)) = pruneExpiredPendingTmuxSessions now s3"
      "sessions (cl_env (setSessionOrder order now (c\<lparr>cl_tmux := s3\<rparr>))) = order"
      using again by (simp_all add: setSessionOrder_def with_layoutItems_def)
    moreover have "cl_tmux c' = cl_tmux (setSessionOrder order now (c\<lparr>cl_tmux := s3\<rparr>))"
      "cl_env c' = cl_env (setSessionOrder order now (c\<lparr>cl_tmux := s3\<rparr>))"
      using u x o False by (auto simp: updateSessionList_def Let_def s2_def split: prod.splits)
    ultimately show ?thesis using un names r3 p3 order un3 by (simp add: prune_unexpired)
  qed
qed


text \<open>
  A roster update installs the server's order (its valid names, without repetition, first),
  keeps every session that is still pending after it, and is settled: the same update at the
  same time changes nothing any more.
\<close>

theorem roster_update_settles:
  assumes "updateSessionList raw conf now c = (c', ch)" "normalizedSessionOrder raw = Some xs"
    and "named_sessions (cl_tmux c)"
  shows "take (length xs) (sessions (cl_env c')) = xs \<and> distinct (sessions (cl_env c'))
    \<and> list_all (\<lambda>n. n \<in> set (sessions (cl_env c'))) (pendingTmuxSessionNames (cl_tmux c'))
    \<and> \<not> snd (updateSessionList raw conf now c')"
proof -
  have good: "distinct xs" "[] \<notin> set xs" using normalizedSessionOrder_good [OF assms(2)] by auto
  obtain s2 where l: "getRecord (cl_tmux c') = getRecord s2" "tm_names (cl_tmux c') = tm_names (cl_tmux c)"
      "unexpired now s2" "conf \<longrightarrow> confirmed xs s2" "sessions (cl_env c') = foldl push_new xs (pendingTmuxSessionNames s2)"
      "tm_names s2 = tm_names (cl_tmux c)"
  proof -
    let ?s = "pruneExpiredPendingTmuxSessions now (cl_tmux c)"
    have "tm_names (clearConfirmedPendingTmuxSessions xs s) = tm_names s" for s
      unfolding clearConfirmedPendingTmuxSessions_def by (induction xs arbitrary: s) auto
    with updateSessionList_leaves [OF assms] that [of "if conf then clearConfirmedPendingTmuxSessions xs ?s else ?s"]
    show ?thesis by auto
  qed
  let ?s = "cl_tmux c'"
  have p: "pendingTmuxSessionNames ?s = pendingTmuxSessionNames s2" using l by (intro pendingNames_cong) auto
  have un: "unexpired now ?s" using l by (simp add: unexpired_def)
  have conf: "conf \<longrightarrow> confirmed xs ?s" using l confirmed_cong [of ?s s2 xs] by simp
  obtain c'' ch'' where u2: "updateSessionList raw conf now c' = (c'', ch'')" by (rule prod.exhaust)
  have "named_sessions ?s" using assms(3) l by (simp add: named_sessions_def)
  define t where "t = (if conf then clearConfirmedPendingTmuxSessions xs (pruneExpiredPendingTmuxSessions now ?s)
    else pruneExpiredPendingTmuxSessions now ?s)"
  have conf': "conf \<longrightarrow> confirmed xs (pruneExpiredPendingTmuxSessions now ?s)"
    using conf un confirmed_cong [of "pruneExpiredPendingTmuxSessions now ?s" ?s xs] by (simp add: prune_unexpired)
  have t: "getRecord t = getRecord ?s" "tm_names t = tm_names ?s"
    using clearConfirmed_confirmed conf' by (auto simp: t_def prune_unexpired un)
  obtain order s3 where o: "sessionOrderIncludingPending xs now t = (order, s3)" by (rule prod.exhaust)
  from order_pending [OF o good] have "order = foldl push_new xs (pendingTmuxSessionNames (pruneExpiredPendingTmuxSessions now t))" by simp
  moreover have "pendingTmuxSessionNames (pruneExpiredPendingTmuxSessions now t) = pendingTmuxSessionNames ?s"
    using t un by (intro pendingNames_cong) (simp_all add: prune_unexpired unexpired_def)
  ultimately have "order = sessions (cl_env c')" using l(5) p by simp
  then have "\<not> ch''" using u2 assms(2) o by (auto simp: updateSessionList_def Let_def t_def)
  moreover have "take (length xs) (foldl push_new xs ys) = xs" for ys using push_new_prefix [of xs ys] by auto
  ultimately show ?thesis using u2 good l(5) p by (auto simp: list_all_iff)
qed

text \<open>
  A roster that lists a session whose last generation was retired (killed here, then created
  again by someone else) puts it on the session list, but the record stays retired: every
  request for the session is refused and the topology filter of the metadata and status
  payloads removes it again.
\<close>

theorem recreated_session_listed_but_refused:
  assumes "updateSessionList raw conf now c = (c', ch)" "normalizedSessionOrder raw = Some xs"
    and "named_sessions (cl_tmux c)" "tmux_ok (cl_tmux c)"
    and "session \<in> set xs" "js_trim session \<noteq> []"
    and "namedRecord (cl_tmux c) (js_trim session) = Some g" "recordPhase (cl_tmux c) g = Some Retired"
  shows "session \<in> set (sessions (cl_env c'))
    \<and> fst (tmuxSessionLifecycleAcquireRequest session later (cl_tmux c')) = None
    \<and> \<not> tmuxSessionLifecycleAllowsTopologySession session (cl_tmux c')"
proof -
  let ?s = "pruneExpiredPendingTmuxSessions now (cl_tmux c)"
  let ?s2 = "if conf then clearConfirmedPendingTmuxSessions xs ?s else ?s"
  from updateSessionList_leaves [OF assms(1-3)]
  have l: "getRecord (cl_tmux c') = getRecord ?s2" "tm_names (cl_tmux c') = tm_names (cl_tmux c)"
    "session \<in> set (sessions (cl_env c'))" using assms(5) by auto
  have ok: "tmux_ok ?s" "keeps (cl_tmux c) ?s" using prune_ok [OF assms(4)] by auto
  have "keeps (cl_tmux c) ?s2" using clearConfirmed_ok [OF ok(1), of xs] ok(2) by (auto intro: keeps_trans)
  then have "recordPhase (cl_tmux c') g = Some Retired" using assms(8) l(1) by (simp add: keeps_def recordPhase_def)
  then obtain r where r: "getRecord (cl_tmux c') g = Some r" "lc_phase r = Retired" by (auto simp: recordPhase_def)
  have n: "namedRecord (cl_tmux c') (js_trim session) = Some g" using assms(7) l(2) by (simp add: namedRecord_def)
  have "tmuxSessionLifecycleRecord session later (cl_tmux c') = (Some g, cl_tmux c')" using assms(6) n by (rule lookup_existing)
  with r n l(3) show ?thesis
    by (simp add: tmuxSessionLifecycleAcquireRequest_def tmuxSessionLifecycleAllowsTopologySession_def blocked_phase_def)
qed

text \<open>
  Moving the retained per-session values to the new name of a session: the old name has no
  value any more, the new name has its own value if it had one and the old name's otherwise, and
  no other name is affected.
\<close>

theorem rekeyMap_lookup:
  "map_of (rekeyMap m oldKey newKey) =
     (if oldKey = newKey \<or> map_of m oldKey = None then map_of m
      else (map_of m)(oldKey := None,
             newKey := (case map_of m newKey of Some v \<Rightarrow> Some v | None \<Rightarrow> map_of m oldKey)))"
  by (auto simp: rekeyMap_def fun_eq_iff split: option.splits)


text \<open>A client whose session \<open>a\<close> was killed.\<close>

definition killed_client :: client where
  "killed_client = \<lparr>cl_tmux = killed_a, cl_env = sample_env,
     cl_ws = \<lparr>ws_layout = emptyPlaceholderLayoutSlots ''left'', ws_constrained = False, ws_filled = None, ws_active = []\<rparr>,
     cl_others = [finderItemId], cl_maxSessionTabs = 10\<rparr>"

lemma killed_ok: "tmux_ok killed_a"
proof -
  have i: "tmux_ok tmux_init" "txns_ok tmux_init"
    using system_init_ok by (simp_all only: system_ok_def system_init_def system.select_convs)
  have "txns_ok twin" unfolding twin_def
    using keeps_lookup [OF i(1), of "''a''" 5] keeps_lookup [OF tmux_ok_lookup [OF i(1), of "''a''" 5], of "''b''" 6] i(2)
    by (blast intro: txns_ok_keeps keeps_trans)
  obtain j s where b: "beginTmuxSessionLifecycleMutation MKill ''a'' [] 0 9 twin = (j, s)" by (rule prod.exhaust)
  from begin_ok [OF twin_ok \<open>txns_ok twin\<close> b] have "tmux_ok s" "txns_ok s" by auto
  from commit_ok [OF this] show ?thesis unfolding killed_a_def b by simp
qed

lemma killed_facts:
  "normalizedSessionOrder (Some [''a'', ''b'']) = Some [''a'', ''b'']" "named_sessions (cl_tmux killed_client)"
  "namedRecord (cl_tmux killed_client) ''a'' = Some 1" "recordPhase (cl_tmux killed_client) 1 = Some Retired"
  by code_simp+

theorem roster_update_settles_witness:
  "\<not> snd (updateSessionList (Some [''a'', ''b'']) False 12 (fst (updateSessionList (Some [''a'', ''b'']) False 12 killed_client)))"
proof -
  obtain c' ch where u: "updateSessionList (Some [''a'', ''b'']) False 12 killed_client = (c', ch)" by (rule prod.exhaust)
  from roster_update_settles [OF u killed_facts(1,2)] u show ?thesis by simp
qed

theorem recreated_session_listed_but_refused_witness:
  "''a'' \<in> set (sessions (cl_env (fst (updateSessionList (Some [''a'', ''b'']) False 12 killed_client))))
   \<and> fst (tmuxSessionLifecycleAcquireRequest ''a'' 13 (cl_tmux (fst (updateSessionList (Some [''a'', ''b'']) False 12 killed_client)))) = None"
proof -
  obtain c' ch where u: "updateSessionList (Some [''a'', ''b'']) False 12 killed_client = (c', ch)" by (rule prod.exhaust)
  have 1: "tmux_ok (cl_tmux killed_client)" using killed_ok by (simp add: killed_client_def)
  have 2: "''a'' \<in> set [''a'', ''b'']" "js_trim ''a'' \<noteq> []" by (simp_all add: trim_letters)
  have 3: "namedRecord (cl_tmux killed_client) (js_trim ''a'') = Some 1" by (simp only: trim_letters killed_facts(3))
  from recreated_session_listed_but_refused [OF u killed_facts(1,2) 1 2 3 killed_facts(4), of 13] u show ?thesis by simp
qed

end
