(* ===== verification/Request_Coordinator.thy ===== *)
theory Request_Coordinator
  imports Js_Prelude
begin

text \<open>
  The coordinator of startup and refresh requests (\<open>10_core_utils.js\<close>, \<open>startupRefreshApiCoordinator\<close>
  and \<open>runStartupRefreshApiRequest\<close>): at most eight requests of the page run at a time, the others
  wait in a queue, and an abort signal settles a waiting or running request at once.

  A request is the index of its item. Every item keeps whether it was started, whether it holds one
  of the eight places, its signal, and its outcome once it is settled. The body of a request and the
  promises are not modelled: \<open>finishRequest\<close> is the event that the promise of \<open>item.run()\<close> settles.
\<close>

section \<open>State\<close>

definition startupRefreshApiConcurrencyLimit :: nat where
  "startupRefreshApiConcurrencyLimit = 8"

datatype req_outcome = ReqResolved string | ReqRejected string | ReqAborted nat

record req_item =
  ri_signal :: "nat option"
  ri_started :: bool
  ri_owned :: bool
  ri_outcome :: "req_outcome option"

record coordinator =
  co_active :: nat
  co_queue :: "nat list"
  co_items :: "req_item list"
  co_aborted :: "nat list"

definition coordinator_init :: coordinator where
  "coordinator_init = \<lparr>co_active = 0, co_queue = [], co_items = [], co_aborted = []\<rparr>"

definition modItem :: "nat \<Rightarrow> (req_item \<Rightarrow> req_item) \<Rightarrow> coordinator \<Rightarrow> coordinator" where
  "modItem i f s =
     (if i < length (co_items s) then s\<lparr>co_items := (co_items s)[i := f (co_items s ! i)]\<rparr> else s)"

definition aborted_by :: "nat \<Rightarrow> coordinator \<Rightarrow> nat option" where
  "aborted_by i s =
     (if i < length (co_items s)
      then (case ri_signal (co_items s ! i) of
              Some g \<Rightarrow> if g \<in> set (co_aborted s) then Some g else None
            | None \<Rightarrow> None)
      else None)"

definition unsettled :: "nat \<Rightarrow> coordinator \<Rightarrow> bool" where
  "unsettled i s = (i < length (co_items s) \<and> ri_outcome (co_items s ! i) = None)"

definition holds_place :: "nat \<Rightarrow> coordinator \<Rightarrow> bool" where
  "holds_place i s = (i < length (co_items s) \<and> ri_owned (co_items s ! i))"

definition is_started :: "nat \<Rightarrow> coordinator \<Rightarrow> bool" where
  "is_started i s = (i < length (co_items s) \<and> ri_started (co_items s ! i))"

section \<open>Operations\<close>

text \<open>\<open>item.settle\<close> up to the drain that follows when the item held a place.\<close>

definition settleItem :: "nat \<Rightarrow> req_outcome \<Rightarrow> coordinator \<Rightarrow> coordinator" where
  "settleItem i out s =
     (if \<not> unsettled i s then s
      else (modItem i (\<lambda>r. r\<lparr>ri_outcome := Some out, ri_owned := False\<rparr>) s)
             \<lparr>co_active := (if holds_place i s then co_active s - 1 else co_active s)\<rparr>)"

definition startItem :: "nat \<Rightarrow> coordinator \<Rightarrow> coordinator" where
  "startItem i s =
     (modItem i (\<lambda>r. r\<lparr>ri_started := True, ri_owned := True\<rparr>) s)\<lparr>co_active := co_active s + 1\<rparr>"

text \<open>The loop of \<open>drainStartupRefreshApiCoordinator\<close>; a waiting item holds no place, so settling it
  starts no further drain.\<close>

fun drain_queue :: "nat list \<Rightarrow> coordinator \<Rightarrow> coordinator" where
  "drain_queue [] s = s\<lparr>co_queue := []\<rparr>"
| "drain_queue (i # q) s =
     (if co_active s < startupRefreshApiConcurrencyLimit
      then (case aborted_by i s of
              Some g \<Rightarrow> drain_queue q (settleItem i (ReqAborted g) s)
            | None \<Rightarrow> drain_queue q (startItem i s))
      else s\<lparr>co_queue := i # q\<rparr>)"

definition drainStartupRefreshApiCoordinator :: "coordinator \<Rightarrow> coordinator" where
  "drainStartupRefreshApiCoordinator s = drain_queue (co_queue s) s"

definition settleRequest :: "nat \<Rightarrow> req_outcome \<Rightarrow> coordinator \<Rightarrow> coordinator" where
  "settleRequest i out s =
     (if unsettled i s \<and> holds_place i s
      then drainStartupRefreshApiCoordinator (settleItem i out s) else settleItem i out s)"

definition abortItem :: "nat \<Rightarrow> nat \<Rightarrow> coordinator \<Rightarrow> coordinator" where
  "abortItem g i s =
     settleRequest i (ReqAborted g)
       (if is_started i s then s else s\<lparr>co_queue := filter (\<lambda>j. j \<noteq> i) (co_queue s)\<rparr>)"

definition runStartupRefreshApiRequest :: "nat option \<Rightarrow> coordinator \<Rightarrow> coordinator" where
  "runStartupRefreshApiRequest signal s =
     (let i = length (co_items s);
          s1 = s\<lparr>co_items := co_items s @ [\<lparr>ri_signal = signal, ri_started = False, ri_owned = False, ri_outcome = None\<rparr>]\<rparr>
      in (case aborted_by i s1 of
            Some g \<Rightarrow> abortItem g i s1
          | None \<Rightarrow> drainStartupRefreshApiCoordinator (s1\<lparr>co_queue := co_queue s1 @ [i]\<rparr>)))"

text \<open>An abort signal fires once: its listeners run in the order of registration, and a settled item
  has removed its own.\<close>

definition abortSignal :: "nat \<Rightarrow> coordinator \<Rightarrow> coordinator" where
  "abortSignal g s =
     (if g \<in> set (co_aborted s) then s
      else fold (\<lambda>i s. if unsettled i s \<and> ri_signal (co_items s ! i) = Some g then abortItem g i s else s)
             [0..<length (co_items s)] (s\<lparr>co_aborted := g # co_aborted s\<rparr>))"

definition finishRequest :: "nat \<Rightarrow> req_outcome \<Rightarrow> coordinator \<Rightarrow> coordinator" where
  "finishRequest i out s = (if is_started i s then settleRequest i out s else s)"

inductive coordinator_step :: "coordinator \<Rightarrow> coordinator \<Rightarrow> bool" where
  submit: "coordinator_step s (runStartupRefreshApiRequest signal s)"
| finish: "coordinator_step s (finishRequest i out s)"
| abort: "coordinator_step s (abortSignal g s)"

inductive_cases coordinator_stepE: "coordinator_step s s'"

section \<open>The invariant\<close>

text \<open>The places taken are counted, a request holds one exactly while it runs, and the queue is the
  requests that wait, in the order they were made.\<close>

definition places :: "req_item list \<Rightarrow> nat" where
  "places rs = sum_list (map (\<lambda>r. if ri_owned r then 1 else 0) rs)"

definition accounts_ok :: "coordinator \<Rightarrow> bool" where
  "accounts_ok s =
     (co_active s = places (co_items s) \<and> co_active s \<le> startupRefreshApiConcurrencyLimit
      \<and> (\<forall>i < length (co_items s). holds_place i s \<longleftrightarrow> is_started i s \<and> unsettled i s))"

definition waiting :: "nat list \<Rightarrow> coordinator \<Rightarrow> bool" where
  "waiting q s = (sorted_wrt (<) q \<and> set q = {i. unsettled i s \<and> \<not> is_started i s})"

definition coordinator_ok :: "coordinator \<Rightarrow> bool" where
  "coordinator_ok s =
     (accounts_ok s \<and> waiting (co_queue s) s
      \<and> (co_queue s \<noteq> [] \<longrightarrow> co_active s = startupRefreshApiConcurrencyLimit))"

lemmas item_defs = unsettled_def holds_place_def is_started_def aborted_by_def

lemma places_update:
  "i < length rs \<Longrightarrow> places (rs[i := r]) + (if ri_owned (rs ! i) then 1 else 0) = places rs + (if ri_owned r then 1 else 0)"
proof (induction rs arbitrary: i)
  case (Cons a rs)
  then show ?case by (cases i) (auto simp: places_def)
qed simp

lemma modItem_simps [simp]:
  "co_active (modItem i f s) = co_active s" "co_queue (modItem i f s) = co_queue s"
  "co_aborted (modItem i f s) = co_aborted s" "length (co_items (modItem i f s)) = length (co_items s)"
  by (simp_all add: modItem_def)

lemma modItem_nth:
  "j < length (co_items s) \<Longrightarrow> co_items (modItem i f s) ! j = (if j = i then f (co_items s ! i) else co_items s ! j)"
  by (auto simp: modItem_def)

lemma settleItem_simps [simp]:
  "co_queue (settleItem i out s) = co_queue s" "length (co_items (settleItem i out s)) = length (co_items s)"
  "co_aborted (settleItem i out s) = co_aborted s"
  by (simp_all add: settleItem_def)

lemma startItem_simps [simp]:
  "co_queue (startItem i s) = co_queue s" "length (co_items (startItem i s)) = length (co_items s)"
  "co_aborted (startItem i s) = co_aborted s"
  by (simp_all add: startItem_def)

lemma unsettled_settleItem: "unsettled j (settleItem i out s) \<longleftrightarrow> unsettled j s \<and> j \<noteq> i"
  by (auto simp: settleItem_def unsettled_def modItem_nth split: if_splits)

lemma started_settleItem: "is_started j (settleItem i out s) \<longleftrightarrow> is_started j s"
  by (auto simp: settleItem_def is_started_def unsettled_def modItem_nth split: if_splits)

lemma unsettled_startItem: "unsettled j (startItem i s) \<longleftrightarrow> unsettled j s"
  by (auto simp: startItem_def unsettled_def modItem_nth split: if_splits)

lemma started_startItem: "is_started j (startItem i s) \<longleftrightarrow> is_started j s \<or> (j = i \<and> i < length (co_items s))"
  by (auto simp: startItem_def is_started_def modItem_nth split: if_splits)

lemma accounts_settleItem:
  assumes "accounts_ok s"
  shows "accounts_ok (settleItem i out s)"
proof (cases "unsettled i s")
  case True
  then have i: "i < length (co_items s)" by (simp add: unsettled_def)
  let ?r = "co_items s ! i"
  have "places ((co_items s)[i := ?r\<lparr>ri_outcome := Some out, ri_owned := False\<rparr>]) + (if ri_owned ?r then 1 else 0)
      = places (co_items s)"
    using places_update [OF i, of "?r\<lparr>ri_outcome := Some out, ri_owned := False\<rparr>"] by simp
  then have "places (co_items (settleItem i out s)) + (if holds_place i s then 1 else 0) = places (co_items s)"
    using True i by (simp add: settleItem_def modItem_def holds_place_def)
  moreover have "holds_place j (settleItem i out s) \<longleftrightarrow> is_started j (settleItem i out s) \<and> unsettled j (settleItem i out s)"
    if "j < length (co_items s)" for j
    using assms True that unfolding accounts_ok_def
    by (auto simp: settleItem_def modItem_nth item_defs)
  ultimately show ?thesis using assms True by (auto simp: accounts_ok_def settleItem_def)
next
  case False
  with assms show ?thesis by (simp add: settleItem_def)
qed

lemma accounts_startItem:
  assumes "accounts_ok s" "unsettled i s" "\<not> is_started i s" "co_active s < startupRefreshApiConcurrencyLimit"
  shows "accounts_ok (startItem i s)"
proof -
  have i: "i < length (co_items s)" using assms(2) by (simp add: unsettled_def)
  let ?r = "co_items s ! i"
  have free: "\<not> ri_owned ?r" using assms(1,3) i by (auto simp: accounts_ok_def item_defs)
  have "places ((co_items s)[i := ?r\<lparr>ri_started := True, ri_owned := True\<rparr>]) = places (co_items s) + 1"
    using places_update [OF i, of "?r\<lparr>ri_started := True, ri_owned := True\<rparr>"] free by simp
  then have "places (co_items (startItem i s)) = places (co_items s) + 1" using i by (simp add: startItem_def modItem_def)
  moreover have "holds_place j (startItem i s) \<longleftrightarrow> is_started j (startItem i s) \<and> unsettled j (startItem i s)"
    if "j < length (co_items s)" for j
    using assms(1,2) that unfolding accounts_ok_def by (auto simp: startItem_def modItem_nth item_defs)
  ultimately show ?thesis using assms(1,4) by (auto simp: accounts_ok_def startItem_def)
qed

lemma item_frames [simp]:
  "unsettled i (s\<lparr>co_queue := q\<rparr>) \<longleftrightarrow> unsettled i s" "is_started i (s\<lparr>co_queue := q\<rparr>) \<longleftrightarrow> is_started i s"
  "holds_place i (s\<lparr>co_queue := q\<rparr>) \<longleftrightarrow> holds_place i s" "accounts_ok (s\<lparr>co_queue := q\<rparr>) \<longleftrightarrow> accounts_ok s"
  "waiting r (s\<lparr>co_queue := q\<rparr>) \<longleftrightarrow> waiting r s"
  "unsettled i (s\<lparr>co_aborted := a\<rparr>) \<longleftrightarrow> unsettled i s" "is_started i (s\<lparr>co_aborted := a\<rparr>) \<longleftrightarrow> is_started i s"
  "accounts_ok (s\<lparr>co_aborted := a\<rparr>) \<longleftrightarrow> accounts_ok s" "waiting r (s\<lparr>co_aborted := a\<rparr>) \<longleftrightarrow> waiting r s"
  by (simp_all add: item_defs accounts_ok_def waiting_def)

lemma waiting_tail:
  assumes "waiting (i # q) s"
  shows "waiting q (settleItem i out s)" and "waiting q (startItem i s)"
proof -
  have i: "i < length (co_items s)" "i \<notin> set q" "unsettled i s" "\<not> is_started i s"
    using assms by (auto simp: waiting_def unsettled_def)
  show "waiting q (settleItem i out s)" "waiting q (startItem i s)"
    using assms i by (auto simp: waiting_def unsettled_settleItem started_settleItem unsettled_startItem started_startItem)
qed

lemma drain_queue_ok: "accounts_ok s \<Longrightarrow> waiting q s \<Longrightarrow> coordinator_ok (drain_queue q s)"
proof (induction q arbitrary: s)
  case Nil
  then show ?case by (simp add: coordinator_ok_def)
next
  case (Cons i q)
  then have i: "unsettled i s" "\<not> is_started i s" by (auto simp: waiting_def)
  show ?case
  proof (cases "co_active s < startupRefreshApiConcurrencyLimit")
    case True
    have "accounts_ok (settleItem i out s)" for out using Cons.prems(1) by (rule accounts_settleItem)
    moreover have "accounts_ok (startItem i s)" using Cons.prems(1) i True by (rule accounts_startItem)
    ultimately show ?thesis
      using True Cons.IH waiting_tail [OF Cons.prems(2)] by (simp split: option.split)
  next
    case False
    with Cons.prems show ?thesis by (simp add: coordinator_ok_def accounts_ok_def)
  qed
qed

lemma drain_ok: "accounts_ok s \<Longrightarrow> waiting (co_queue s) s \<Longrightarrow> coordinator_ok (drainStartupRefreshApiCoordinator s)"
  by (simp add: drainStartupRefreshApiCoordinator_def drain_queue_ok)

lemma coordinator_okD:
  assumes "coordinator_ok s"
  shows "accounts_ok s" "waiting (co_queue s) s" "co_queue s \<noteq> [] \<longrightarrow> co_active s = startupRefreshApiConcurrencyLimit"
    "sorted_wrt (<) (co_queue s)" "set (co_queue s) = {j. unsettled j s \<and> \<not> is_started j s}"
  using assms by (simp_all add: coordinator_ok_def waiting_def)

lemma settle_started_ok:
  assumes "coordinator_ok s" "is_started i s"
  shows "coordinator_ok (settleRequest i out s)"
proof (cases "unsettled i s")
  case True
  then have h: "holds_place i s" using assms coordinator_okD(1) by (auto simp: accounts_ok_def unsettled_def)
  have "waiting (co_queue s) (settleItem i out s)"
    using assms by (auto simp: coordinator_ok_def waiting_def unsettled_settleItem started_settleItem)
  then have "coordinator_ok (drainStartupRefreshApiCoordinator (settleItem i out s))"
    using coordinator_okD(1) [OF assms(1)] by (intro drain_ok) (simp_all add: accounts_settleItem)
  with True h show ?thesis by (simp add: settleRequest_def)
next
  case False
  with assms(1) show ?thesis by (simp add: settleRequest_def settleItem_def)
qed

lemma abort_waiting_ok:
  assumes "accounts_ok s" "unsettled i s" "\<not> is_started i s" "sorted_wrt (<) (co_queue s)"
    "set (co_queue s) - {i} = {j. unsettled j s \<and> \<not> is_started j s} - {i}"
    "co_queue s \<noteq> [] \<longrightarrow> co_active s = startupRefreshApiConcurrencyLimit"
  shows "coordinator_ok (abortItem g i s)"
proof -
  let ?q = "filter (\<lambda>j. j \<noteq> i) (co_queue s)" and ?t = "settleItem i (ReqAborted g) (s\<lparr>co_queue := filter (\<lambda>j. j \<noteq> i) (co_queue s)\<rparr>)"
  have free: "\<not> holds_place i s" using assms(1-3) by (auto simp: accounts_ok_def unsettled_def)
  have "accounts_ok ?t" using assms(1) by (simp add: accounts_settleItem)
  moreover have "waiting ?q ?t"
    using assms(4,5) by (auto simp: waiting_def sorted_wrt_filter unsettled_settleItem started_settleItem)
  moreover have "?q \<noteq> [] \<longrightarrow> co_active ?t = startupRefreshApiConcurrencyLimit"
    using assms(6) free by (auto simp: settleItem_def)
  ultimately show ?thesis using assms(3) free by (simp add: abortItem_def settleRequest_def coordinator_ok_def)
qed

lemma abortItem_ok: "coordinator_ok s \<Longrightarrow> unsettled i s \<Longrightarrow> coordinator_ok (abortItem g i s)"
proof (cases "is_started i s")
  case True
  assume "coordinator_ok s"
  with True show ?thesis by (simp add: abortItem_def settle_started_ok)
next
  case False
  assume ok: "coordinator_ok s" and u: "unsettled i s"
  show ?thesis
    by (rule abort_waiting_ok [OF coordinator_okD(1) [OF ok] u False coordinator_okD(4) [OF ok] _ coordinator_okD(3) [OF ok]])
      (simp add: coordinator_okD(5) [OF ok])
qed

text \<open>A new item changes no other.\<close>

definition with_item :: "nat option \<Rightarrow> coordinator \<Rightarrow> coordinator" where
  "with_item signal s =
     s\<lparr>co_items := co_items s @ [\<lparr>ri_signal = signal, ri_started = False, ri_owned = False, ri_outcome = None\<rparr>]\<rparr>"

lemma with_item_simps [simp]:
  "co_queue (with_item g s) = co_queue s" "co_active (with_item g s) = co_active s" "co_aborted (with_item g s) = co_aborted s"
  "length (co_items (with_item g s)) = Suc (length (co_items s))"
  "unsettled i (with_item g s) \<longleftrightarrow> unsettled i s \<or> i = length (co_items s)"
  "is_started i (with_item g s) \<longleftrightarrow> is_started i s" "holds_place i (with_item g s) \<longleftrightarrow> holds_place i s"
  by (auto simp: with_item_def item_defs nth_append)

lemma with_item_accounts: "accounts_ok s \<Longrightarrow> accounts_ok (with_item g s)"
proof -
  assume a: "accounts_ok s"
  have "places (co_items (with_item g s)) = places (co_items s)" by (simp add: with_item_def places_def)
  moreover have "\<not> is_started (length (co_items s)) s" "\<not> holds_place (length (co_items s)) s"
    by (simp_all add: item_defs)
  ultimately show ?thesis using a by (auto simp: accounts_ok_def less_Suc_eq)
qed

lemma submit_ok:
  assumes "coordinator_ok s"
  shows "coordinator_ok (runStartupRefreshApiRequest signal s)"
proof -
  let ?i = "length (co_items s)" and ?s = "with_item signal s"
  note ok = coordinator_okD [OF assms]
  have acc: "accounts_ok ?s" using ok(1) by (rule with_item_accounts)
  have new: "unsettled ?i ?s" "\<not> is_started ?i ?s" by (simp, simp add: is_started_def [of _ s])
  have below: "\<forall>j \<in> set (co_queue s). j < ?i" using ok(5) by (auto simp: unsettled_def)
  have run: "runStartupRefreshApiRequest signal s =
      (case aborted_by ?i ?s of Some g \<Rightarrow> abortItem g ?i ?s
       | None \<Rightarrow> drainStartupRefreshApiCoordinator (?s\<lparr>co_queue := co_queue ?s @ [?i]\<rparr>))"
    unfolding runStartupRefreshApiRequest_def Let_def with_item_def [symmetric] by simp
  have wait: "waiting (co_queue s @ [?i]) ?s"
    using ok(4,5) below new by (auto simp: waiting_def sorted_wrt_append)
  have "coordinator_ok (abortItem g ?i ?s)" for g
  proof (rule abort_waiting_ok [OF acc new])
    show "set (co_queue ?s) - {?i} = {j. unsettled j ?s \<and> \<not> is_started j ?s} - {?i}" using ok(5) by auto
  qed (simp_all add: ok(3,4))
  moreover have "coordinator_ok (drainStartupRefreshApiCoordinator (?s\<lparr>co_queue := co_queue ?s @ [?i]\<rparr>))"
    using acc wait by (intro drain_ok) simp_all
  ultimately show ?thesis unfolding run by (simp split: option.split)
qed

lemma abortSignal_ok:
  assumes "coordinator_ok s"
  shows "coordinator_ok (abortSignal g s)"
proof -
  have "coordinator_ok (fold (\<lambda>i s. if unsettled i s \<and> ri_signal (co_items s ! i) = Some g then abortItem g i s else s) is t)"
    if "coordinator_ok t" for "is" t
    using that by (induction "is" arbitrary: t) (simp_all add: abortItem_ok)
  moreover have "coordinator_ok (s\<lparr>co_aborted := g # co_aborted s\<rparr>)" using assms by (simp add: coordinator_ok_def)
  ultimately show ?thesis using assms by (simp add: abortSignal_def)
qed

lemma coordinator_step_ok: "coordinator_step s s' \<Longrightarrow> coordinator_ok s \<Longrightarrow> coordinator_ok s'"
  by (erule coordinator_stepE) (auto simp: submit_ok abortSignal_ok settle_started_ok finishRequest_def)

interpretation requests: invariant_machine coordinator_step coordinator_ok
  by unfold_locales (rule coordinator_step_ok)

lemma coordinator_init_ok: "coordinator_ok coordinator_init"
  by (simp add: coordinator_ok_def accounts_ok_def waiting_def coordinator_init_def places_def unsettled_def
      startupRefreshApiConcurrencyLimit_def)

lemma coordinator_reachable_ok: "coordinator_step\<^sup>*\<^sup>* coordinator_init s \<Longrightarrow> coordinator_ok s"
  using requests.inv_reach coordinator_init_ok by blast

section \<open>Progress\<close>

text \<open>Nothing is undone: a started request stays started and a settled one keeps its outcome.\<close>

definition outcome_of :: "nat \<Rightarrow> coordinator \<Rightarrow> req_outcome option" where
  "outcome_of i s = (if i < length (co_items s) then ri_outcome (co_items s ! i) else None)"

definition advances :: "coordinator \<Rightarrow> coordinator \<Rightarrow> bool" where
  "advances s s' =
     (length (co_items s) \<le> length (co_items s')
      \<and> (\<forall>j. (is_started j s \<longrightarrow> is_started j s') \<and> (\<forall>out. outcome_of j s = Some out \<longrightarrow> outcome_of j s' = Some out)))"

lemma unsettled_outcome: "unsettled i s \<longleftrightarrow> i < length (co_items s) \<and> outcome_of i s = None"
  by (auto simp: unsettled_def outcome_of_def)

lemma advances_refl [simp]: "advances s s"
  by (simp add: advances_def)

lemma advances_trans: "advances s t \<Longrightarrow> advances t u \<Longrightarrow> advances s u"
  by (auto simp: advances_def)

lemma advances_frames [simp]:
  "advances s (t\<lparr>co_queue := q\<rparr>) \<longleftrightarrow> advances s t" "advances (s\<lparr>co_queue := q\<rparr>) t \<longleftrightarrow> advances s t"
  "advances s (t\<lparr>co_aborted := a\<rparr>) \<longleftrightarrow> advances s t" "advances (s\<lparr>co_aborted := a\<rparr>) t \<longleftrightarrow> advances s t"
  by (simp_all add: advances_def outcome_of_def is_started_def)

lemma advances_settleItem [simp]: "advances s (settleItem i out s)"
  by (auto simp: advances_def started_settleItem outcome_of_def)
    (auto simp: settleItem_def unsettled_def modItem_nth split: if_splits)

lemma advances_startItem [simp]: "advances s (startItem i s)"
  by (auto simp: advances_def started_startItem outcome_of_def) (auto simp: startItem_def modItem_nth split: if_splits)

lemma advances_drain_queue: "advances s (drain_queue q s)"
proof (induction q arbitrary: s)
  case (Cons i q)
  have "advances s (drain_queue q (settleItem i out s))" for out
    using advances_trans [OF advances_settleItem Cons.IH] .
  moreover have "advances s (drain_queue q (startItem i s))" using advances_trans [OF advances_startItem Cons.IH] .
  ultimately show ?case by (simp split: option.split)
qed simp

lemma advances_settleRequest [simp]: "advances s (settleRequest i out s)"
  using advances_trans [OF advances_settleItem advances_drain_queue]
  by (simp add: settleRequest_def drainStartupRefreshApiCoordinator_def)

lemma advances_abortItem [simp]: "advances s (abortItem g i s)"
proof -
  have "advances s (settleRequest i (ReqAborted g) (s\<lparr>co_queue := q\<rparr>))" for q
    using advances_settleRequest [of "s\<lparr>co_queue := q\<rparr>" i "ReqAborted g"] by (simp only: advances_frames)
  then show ?thesis by (simp add: abortItem_def)
qed

lemma advances_step: "coordinator_step s s' \<Longrightarrow> advances s s'"
proof (induction rule: coordinator_step.induct)
  case (submit s signal)
  have new: "advances s (with_item signal s)"
    by (auto simp: advances_def outcome_of_def) (simp add: with_item_def nth_append)
  then have "advances s (abortItem g i (with_item signal s))" for g i using advances_abortItem by (rule advances_trans)
  moreover have "advances s (drain_queue q ((with_item signal s)\<lparr>co_queue := r\<rparr>))" for q r
    by (rule advances_trans [OF _ advances_drain_queue]) (simp add: new)
  ultimately show ?case
    unfolding runStartupRefreshApiRequest_def Let_def with_item_def [symmetric] drainStartupRefreshApiCoordinator_def
    by (simp split: option.split)
next
  case (finish s i out)
  then show ?case by (simp add: finishRequest_def)
next
  case (abort s g)
  have "advances t (fold (\<lambda>i s. if unsettled i s \<and> ri_signal (co_items s ! i) = Some g then abortItem g i s else s) is t)"
    for "is" t
  proof (induction "is" arbitrary: t)
    case (Cons i "is")
    show ?case using Cons.IH advances_trans [OF advances_abortItem Cons.IH] by simp
  qed simp
  from this [of "s\<lparr>co_aborted := g # co_aborted s\<rparr>"] show ?case by (simp add: abortSignal_def)
qed

text \<open>How many requests wait before \<open>k\<close>.\<close>

definition ahead :: "nat \<Rightarrow> coordinator \<Rightarrow> nat" where
  "ahead k s = length (filter (\<lambda>m. m < k) (co_queue s))"

lemma ahead_card: "coordinator_ok s \<Longrightarrow> ahead k s = card {m. unsettled m s \<and> \<not> is_started m s \<and> m < k}"
proof -
  assume ok: "coordinator_ok s"
  let ?f = "filter (\<lambda>m. m < k) (co_queue s)"
  have "distinct ?f" using coordinator_okD(4) [OF ok] by (simp add: strict_sorted_iff)
  then have "length ?f = card (set ?f)" by (simp only: distinct_card)
  also have "set ?f = {m. unsettled m s \<and> \<not> is_started m s \<and> m < k}" using coordinator_okD(5) [OF ok] by auto
  finally show ?thesis by (simp add: ahead_def)
qed

lemma advances_waiting:
  "advances s s' \<Longrightarrow> m < length (co_items s) \<Longrightarrow> unsettled m s' \<and> \<not> is_started m s' \<Longrightarrow> unsettled m s \<and> \<not> is_started m s"
  unfolding advances_def unsettled_outcome by (metis not_Some_eq)

lemma ahead_mono:
  assumes "coordinator_ok s" "coordinator_ok s'" "advances s s'" "k < length (co_items s)"
  shows "ahead k s' \<le> ahead k s"
    and "m \<in> set (co_queue s) \<Longrightarrow> m \<notin> set (co_queue s') \<Longrightarrow> m < k \<Longrightarrow> ahead k s' < ahead k s"
proof -
  let ?w = "\<lambda>t. {m. unsettled m t \<and> \<not> is_started m t \<and> m < k}"
  have sub: "?w s' \<subseteq> ?w s" using advances_waiting [OF assms(3)] assms(4) by (auto intro: less_trans)
  have fin: "finite (?w s)" by simp
  show "ahead k s' \<le> ahead k s" using card_mono [OF fin sub] assms(1,2) by (simp add: ahead_card)
  assume "m \<in> set (co_queue s)" "m \<notin> set (co_queue s')" "m < k"
  then have "m \<in> ?w s" "m \<notin> ?w s'" using coordinator_okD(5) assms(1,2) by auto
  with sub have "?w s' \<subset> ?w s" by blast
  from psubset_card_mono [OF fin this] show "ahead k s' < ahead k s" using assms(1,2) by (simp add: ahead_card)
qed

lemma finish_takes_head:
  assumes ok: "coordinator_ok s" and h: "holds_place i s" and q: "co_queue s = j # q"
  shows "j \<notin> set (co_queue (finishRequest i out s))"
proof -
  note c = coordinator_okD [OF ok]
  have i: "is_started i s" "unsettled i s" using c(1) h by (auto simp: accounts_ok_def holds_place_def)
  let ?s = "settleItem i out s"
  have j: "unsettled j s" "\<not> is_started j s" "j \<noteq> i" using c(5) q i by auto
  then have js: "j < length (co_items s)" by (simp add: unsettled_def)
  have room: "co_active ?s < startupRefreshApiConcurrencyLimit"
    using c(3) q i h by (simp add: settleItem_def startupRefreshApiConcurrencyLimit_def)
  have fin: "finishRequest i out s = drain_queue (j # q) ?s"
    using i h q by (simp add: finishRequest_def settleRequest_def drainStartupRefreshApiCoordinator_def)
  have adv: "advances t (drain_queue q t)" for t by (rule advances_drain_queue)
  have "is_started j (finishRequest i out s) \<or> \<not> unsettled j (finishRequest i out s)"
  proof (cases "aborted_by j ?s")
    case None
    then have "advances (startItem j ?s) (finishRequest i out s)" using room adv by (simp add: fin)
    then show ?thesis using js by (auto simp: advances_def started_startItem)
  next
    case (Some g)
    then have a: "advances (settleItem j (ReqAborted g) ?s) (finishRequest i out s)" using room adv by (simp add: fin)
    have "\<not> unsettled j (settleItem j (ReqAborted g) ?s)" by (simp add: unsettled_settleItem)
    with a js show ?thesis by (fastforce simp: advances_def unsettled_outcome)
  qed
  moreover have "coordinator_ok (finishRequest i out s)" using ok coordinator_step_ok finish by blast
  ultimately show ?thesis using coordinator_okD(5) by blast
qed

lemma some_running:
  assumes "coordinator_ok s" "co_queue s \<noteq> []"
  shows "\<exists>i. holds_place i s"
proof (rule ccontr)
  assume none: "\<nexists>i. holds_place i s"
  then have "\<forall>r \<in> set (co_items s). \<not> ri_owned r" by (auto simp: holds_place_def in_set_conv_nth)
  then have "places (co_items s) = 0" by (simp add: places_def)
  with coordinator_okD(1,3) [OF assms(1)] assms(2) show False
    by (simp add: accounts_ok_def startupRefreshApiConcurrencyLimit_def)
qed

end
