(* ===== verification/Server_Events.thy ===== *)
theory Server_Events
  imports Js_Prelude
begin

text \<open>
  The client-event stream (\<open>99_client_event_transport.js\<close>, \<open>adoptServerEpoch\<close> of
  \<open>00_bootstrap_state.js\<close> and \<open>applyClientEventKeyedPatch\<close> of \<open>99_terminal_boot.js\<close>): every event of
  the server belongs to a resource and has a revision, a patch also the revision it is based on; the
  client keeps the last accepted revision of each resource, repairs the patched resources over HTTP
  when a revision is missing, and queues accepted events until the next animation frame. All
  numbers start again when a new server process, a new epoch, is seen.

  The refreshes of other components are logged by channel in \<open>ev_refreshes\<close>, the dispatched events in
  \<open>ev_dispatched\<close>. A repair is a run: its read is answered, or fails, in a later event.
\<close>

section \<open>Keyed patches\<close>

text \<open>JSON values as far as patches look into them: a collection is an object of records or an array
  of records; a record is its text.\<close>

datatype json = JText string | JObject "(string \<times> string) list" | JArray "string list"

record keyed_patch =
  kp_collection :: string
  kp_changes :: "(string \<times> string) list option"
  kp_removed_keys :: "string list"
  kp_fields :: "(string \<times> json) list"
  kp_removed_fields :: "string list"

definition js_assign :: "('k \<times> 'v) list \<Rightarrow> ('k \<times> 'v) list \<Rightarrow> ('k \<times> 'v) list" where
  "js_assign new old = fold (\<lambda>(k, v). AList.update k v) new old"

definition delete_keys :: "'k list \<Rightarrow> ('k \<times> 'v) list \<Rightarrow> ('k \<times> 'v) list" where
  "delete_keys ks m = fold AList.delete ks m"

text \<open>The records by key; an array needs a key function and usable, distinct keys.\<close>

definition keyed_records :: "(string \<Rightarrow> string) option \<Rightarrow> json \<Rightarrow> (string \<times> string) list option" where
  "keyed_records keyForRecord j =
     (case j of
        JText t \<Rightarrow> None
      | JObject rs \<Rightarrow> Some rs
      | JArray rs \<Rightarrow>
          (case keyForRecord of
             None \<Rightarrow> None
           | Some key \<Rightarrow> if distinct (map key rs) \<and> [] \<notin> set (map key rs) then Some (map (\<lambda>r. (key r, r)) rs) else None))"

definition applyClientEventKeyedPatch ::
  "(string \<Rightarrow> string) option \<Rightarrow> keyed_patch \<Rightarrow> (string \<times> json) list \<Rightarrow> (string \<times> json) list option" where
  "applyClientEventKeyedPatch keyForRecord p current =
     (case map_of current (kp_collection p) of
        None \<Rightarrow> None
      | Some coll \<Rightarrow>
          (case (keyed_records keyForRecord coll, kp_changes p) of
             (Some records, Some changes) \<Rightarrow>
               if kp_collection p = [] then None
               else
                 let recs = js_assign changes (delete_keys (kp_removed_keys p) records);
                     next = delete_keys (kp_removed_fields p) (js_assign (kp_fields p) current)
                 in Some (AList.update (kp_collection p)
                      (case coll of JArray rs \<Rightarrow> JArray (map snd recs) | _ \<Rightarrow> JObject recs) next)
           | _ \<Rightarrow> None))"

section \<open>Events and state\<close>

text \<open>A number of an envelope is \<open>None\<close> when it is not a safe integer.\<close>

record envelope =
  en_epoch :: string
  en_resource :: string
  en_revision :: "int option"
  en_base :: "int option"
  en_revisions :: "(string \<times> int option) list"
  en_repairs :: "string list"

record payload =
  pl_patch :: "keyed_patch option"
  pl_session :: string
  pl_operation :: string
  pl_body :: string

record queued_event =
  qe_type :: string
  qe_payload :: payload
  qe_server :: bool
  qe_generation :: nat

record repair_run =
  rr_resource :: string
  rr_epoch :: string
  rr_target :: int
  rr_reading :: int

record event_state =
  ev_epoch :: string
  ev_epochGeneration :: nat
  ev_revisions :: "(string \<times> int) list"
  ev_repairs :: "(string \<times> nat) list"
  ev_runs :: "(nat \<times> repair_run) list"
  ev_logRuns :: "(nat \<times> string \<times> (string \<times> int) list) list"
  ev_serial :: nat
  ev_queue :: "(string \<times> queued_event) list"
  ev_dispatched :: "(string \<times> payload) list"
  ev_refreshes :: "string list list"
  md_epoch :: string
  md_previousEpoch :: string
  md_generation :: nat
  md_rosterGeneration :: nat
  md_pendingGeneration :: nat
  ev_topologyGeneration :: nat

definition event_init :: event_state where
  "event_init = \<lparr>ev_epoch = [], ev_epochGeneration = 0, ev_revisions = [], ev_repairs = [], ev_runs = [],
     ev_logRuns = [], ev_serial = 0, ev_queue = [], ev_dispatched = [], ev_refreshes = [], md_epoch = [],
     md_previousEpoch = [], md_generation = 0, md_rosterGeneration = 0, md_pendingGeneration = 0,
     ev_topologyGeneration = 0\<rparr>"

definition accepted_revision :: "string \<Rightarrow> event_state \<Rightarrow> int" where
  "accepted_revision r s = (case map_of (ev_revisions s) r of Some n \<Rightarrow> n | None \<Rightarrow> 0)"

definition setRevision :: "string \<Rightarrow> int \<Rightarrow> event_state \<Rightarrow> event_state" where
  "setRevision r n s = s\<lparr>ev_revisions := AList.update r n (ev_revisions s)\<rparr>"

definition adoptServerEpoch :: "string \<Rightarrow> event_state \<Rightarrow> event_state" where
  "adoptServerEpoch epoch s =
     (if epoch = [] \<or> ev_epoch s = epoch then s
      else s\<lparr>md_previousEpoch := md_epoch s, ev_epoch := epoch, ev_epochGeneration := ev_epochGeneration s + 1,
             ev_revisions := [], ev_repairs := [], md_epoch := epoch, md_generation := 0,
             md_rosterGeneration := 0, md_pendingGeneration := 0, ev_topologyGeneration := 0\<rparr>)"

section \<open>Repairs\<close>

fun js_includes :: "string \<Rightarrow> string \<Rightarrow> bool" where
  "js_includes [] p = (p = [])"
| "js_includes (c # s) p = (js_startsWith (c # s) p \<or> js_includes s p)"

definition repair_channel :: "bool \<Rightarrow> string \<Rightarrow> string" where
  "repair_channel activitySummaryEnabled r =
     (if list_ex (js_startsWith r) [''files_changed'', ''fs_changed'', ''roots_changed'', ''session_files_ready''] then ''files''
      else if list_ex (js_startsWith r) [''auto_approve_changed'', ''attention_acks_changed'', ''tmux_signals_changed''] then ''status''
      else if js_startsWith r ''event_log_changed'' then ''events''
      else if list_ex (js_startsWith r) [''transcripts_changed'', ''context_changed'', ''context_items_ready''] then ''transcripts''
      else if activitySummaryEnabled \<and> (js_startsWith r ''activity_summary_ready'' \<or> js_includes r ''background:tabber-activity'')
      then ''activity''
      else if js_startsWith r ''yoagent_'' then ''yoagent''
      else if js_startsWith r ''chat_'' then ''chat''
      else ''core'')"

definition clientEventRepairChannels :: "bool \<Rightarrow> string list \<Rightarrow> string list" where
  "clientEventRepairChannels enabled rs = dedupe (map (repair_channel enabled) rs)"

definition patch_resources :: "string list" where
  "patch_resources = [''auto_approve_changed'', ''tmux_signals_changed'']"

definition operation_resource :: "string \<Rightarrow> bool" where
  "operation_resource r = js_startsWith r ''operation_terminal:''"

definition clientEventPatchResourceRevision :: "string \<Rightarrow> envelope \<Rightarrow> int" where
  "clientEventPatchResourceRevision r en =
     (case map_of (en_revisions en) r of
        Some (Some n) \<Rightarrow> if 0 < n then n
          else if en_resource en \<noteq> r then 0
          else (case en_revision en of Some m \<Rightarrow> if 0 < m then m else 0 | None \<Rightarrow> 0)
      | _ \<Rightarrow> if en_resource en \<noteq> r then 0
          else (case en_revision en of Some m \<Rightarrow> if 0 < m then m else 0 | None \<Rightarrow> 0))"

text \<open>A new repair of another epoch than the current one ends before its first read, and with it the
  entry it has just made.\<close>

definition startRepair :: "string \<Rightarrow> string \<Rightarrow> int \<Rightarrow> event_state \<Rightarrow> event_state" where
  "startRepair r epoch target s =
     (if ev_epoch s = epoch
      then s\<lparr>ev_serial := Suc (ev_serial s), ev_repairs := AList.update r (ev_serial s) (ev_repairs s),
             ev_runs := AList.update (ev_serial s)
               \<lparr>rr_resource = r, rr_epoch = epoch, rr_target = target, rr_reading = target\<rparr> (ev_runs s)\<rparr>
      else s\<lparr>ev_repairs := AList.delete r (ev_repairs s)\<rparr>)"

definition repairClientEventPatchResource :: "string \<Rightarrow> envelope \<Rightarrow> event_state \<Rightarrow> event_state \<times> bool" where
  "repairClientEventPatchResource r en s =
     (let epoch = (if en_epoch en \<noteq> [] then en_epoch en else ev_epoch s);
          target = clientEventPatchResourceRevision r en
      in if r \<notin> set patch_resources \<or> epoch = [] \<or> target < 1 then (s, False)
         else (case map_of (ev_repairs s) r of
                 None \<Rightarrow> (startRepair r epoch target s, True)
               | Some i \<Rightarrow>
                   (case map_of (ev_runs s) i of
                      Some run \<Rightarrow>
                        if rr_epoch run = epoch
                        then (s\<lparr>ev_runs := AList.update i (run\<lparr>rr_target := max (rr_target run) target\<rparr>) (ev_runs s)\<rparr>, True)
                        else (startRepair r epoch target s, True)
                    | None \<Rightarrow> (startRepair r epoch target s, True))))"

definition repairStep :: "envelope \<Rightarrow> string \<Rightarrow> event_state \<times> string list \<Rightarrow> event_state \<times> string list" where
  "repairStep en r acc =
     (if operation_resource r then acc
      else (case repairClientEventPatchResource r en (fst acc) of
              (s, True) \<Rightarrow> (s, snd acc)
            | (s, False) \<Rightarrow> (s, snd acc @ [r])))"

definition repairClientEventResources :: "bool \<Rightarrow> string list \<Rightarrow> envelope \<Rightarrow> event_state \<Rightarrow> event_state" where
  "repairClientEventResources enabled rs en s =
     (let (s', generic) = fold (repairStep en) rs (s, []);
          channels = clientEventRepairChannels enabled generic
      in if channels = [] then s' else s'\<lparr>ev_refreshes := ev_refreshes s' @ [channels]\<rparr>)"

text \<open>The answer to the read of a repair, and its failure.\<close>

definition endRepair :: "nat \<Rightarrow> repair_run \<Rightarrow> event_state \<Rightarrow> event_state" where
  "endRepair i run s =
     s\<lparr>ev_runs := AList.delete i (ev_runs s),
       ev_repairs := (if map_of (ev_repairs s) (rr_resource run) = Some i
                      then AList.delete (rr_resource run) (ev_repairs s) else ev_repairs s)\<rparr>"

definition repairAnswered :: "nat \<Rightarrow> event_state \<Rightarrow> event_state" where
  "repairAnswered i s =
     (case map_of (ev_runs s) i of
        None \<Rightarrow> s
      | Some run \<Rightarrow>
          if ev_epoch s \<noteq> rr_epoch run then endRepair i run s
          else if rr_target run \<noteq> rr_reading run
          then s\<lparr>ev_runs := AList.update i (run\<lparr>rr_reading := rr_target run\<rparr>) (ev_runs s)\<rparr>
          else endRepair i run (setRevision (rr_resource run) (rr_reading run) s))"

definition repairFailed :: "nat \<Rightarrow> event_state \<Rightarrow> event_state" where
  "repairFailed i s = (case map_of (ev_runs s) i of None \<Rightarrow> s | Some run \<Rightarrow> endRepair i run s)"

section \<open>Accepting and dispatching events\<close>

definition clientEventEnvelopeIsCurrent :: "bool \<Rightarrow> envelope \<Rightarrow> payload \<Rightarrow> event_state \<Rightarrow> event_state \<times> bool" where
  "clientEventEnvelopeIsCurrent enabled en p s =
     (case en_revision en of
        None \<Rightarrow> (s, True)
      | Some n \<Rightarrow>
          if en_epoch en = [] \<or> en_resource en = [] \<or> n < 1 then (s, True)
          else
            let s1 = adoptServerEpoch (en_epoch en) s; previous = accepted_revision (en_resource en) s1
            in if n \<le> previous then (s1, False)
               else if pl_patch p \<noteq> None \<and> (en_base en \<noteq> Some previous \<or> n \<noteq> previous + 1)
               then (repairClientEventResources enabled [en_resource en] en s1, False)
               else (setRevision (en_resource en) n s1, True))"

definition server_event_types :: "string list" where
  "server_event_types =
     [''settings_changed'', ''pricing_catalog_changed'', ''stats_sample'', ''attention_acks_changed'', ''auto_approve_changed'',
      ''backend_health_changed'', ''background_refresh_done'', ''background_refresh_requested'', ''tmux_signals_changed'',
      ''watched_prs_changed'', ''files_changed'', ''fs_changed'', ''roots_changed'', ''search_progress'', ''session_files_ready'',
      ''transcripts_changed'', ''tmux_roster_changed'', ''operation_terminal'', ''context_changed'', ''context_items_ready'',
      ''activity_summary_ready'', ''event_log_changed'', ''update_available'', ''yoagent_conversation_changed'',
      ''yoagent_jobs_changed'', ''yoagent_skills_changed'', ''yoagent_stream_delta'', ''chat_messages_changed'',
      ''chat_typing_changed'']"

definition clientPushEventCoalesceKey :: "string \<Rightarrow> payload \<Rightarrow> string" where
  "clientPushEventCoalesceKey type p =
     (let key = (if type = [] then ''event'' else type)
      in if type = ''operation_terminal'' \<and> pl_operation p \<noteq> [] then key @ '':'' @ pl_operation p
         else if pl_session p \<noteq> [] then key @ '':'' @ pl_session p
         else key)"

definition flushQueuedClientPushEvents :: "event_state \<Rightarrow> event_state" where
  "flushQueuedClientPushEvents s =
     s\<lparr>ev_queue := [],
       ev_dispatched := ev_dispatched s @
         map (\<lambda>q. (qe_type q, qe_payload q))
           (filter (\<lambda>q. \<not> qe_server q \<or> qe_generation q = ev_epochGeneration s) (map snd (ev_queue s)))\<rparr>"

text \<open>A hidden page dispatches at once, a visible one at its next animation frame, which is a later
  \<open>flushQueuedClientPushEvents\<close>.\<close>

definition queueClientPushEvent :: "bool \<Rightarrow> string \<Rightarrow> payload \<Rightarrow> event_state \<Rightarrow> event_state" where
  "queueClientPushEvent hidden type p s =
     (let q = \<lparr>qe_type = type, qe_payload = p, qe_server = type \<in> set server_event_types,
            qe_generation = ev_epochGeneration s\<rparr>;
          s1 = s\<lparr>ev_queue := AList.update (clientPushEventCoalesceKey type p) q (ev_queue s)\<rparr>
      in if hidden then flushQueuedClientPushEvents s1 else s1)"

definition handleClientPushEvent :: "bool \<Rightarrow> bool \<Rightarrow> string \<Rightarrow> payload \<Rightarrow> envelope \<Rightarrow> event_state \<Rightarrow> event_state \<times> bool" where
  "handleClientPushEvent enabled hidden type p en s =
     (let s1 = repairClientEventResources enabled (en_repairs en) en s
      in if pl_patch p \<noteq> None \<and> en_resource en \<in> set (en_repairs en) then (s1, False)
         else (case clientEventEnvelopeIsCurrent enabled en p s1 of
                 (s2, False) \<Rightarrow> (s2, False)
               | (s2, True) \<Rightarrow> (queueClientPushEvent hidden type p s2, True)))"

section \<open>Reconnection\<close>

definition clientEventReadyGapResources :: "envelope \<Rightarrow> event_state \<Rightarrow> string list" where
  "clientEventReadyGapResources en s =
     map fst (filter (\<lambda>(r, n). case n of Some m \<Rightarrow> 1 \<le> m \<and> accepted_revision r s < m | None \<Rightarrow> False) (en_revisions en))"

definition event_log_resource :: "string \<Rightarrow> bool" where
  "event_log_resource r = js_startsWith r ''event_log_changed''"

definition repairReadyEventLogRevisions :: "string list \<Rightarrow> envelope \<Rightarrow> event_state \<Rightarrow> event_state" where
  "repairReadyEventLogRevisions rs en s =
     (let logs = filter event_log_resource rs
      in if logs = [] then s
         else s\<lparr>ev_serial := Suc (ev_serial s),
                ev_logRuns := AList.update (ev_serial s)
                  (en_epoch en, concat (map (\<lambda>r. case map_of (en_revisions en) r of
                     Some (Some n) \<Rightarrow> [(r, n)] | _ \<Rightarrow> []) logs)) (ev_logRuns s)\<rparr>)"

definition eventLogsRead :: "nat \<Rightarrow> event_state \<Rightarrow> event_state" where
  "eventLogsRead i s =
     (case map_of (ev_logRuns s) i of
        None \<Rightarrow> s
      | Some (epoch, rs) \<Rightarrow>
          (let s1 = s\<lparr>ev_logRuns := AList.delete i (ev_logRuns s)\<rparr>
           in if ev_epoch s \<noteq> epoch then s1 else fold (\<lambda>(r, n). setRevision r n) rs s1))"

text \<open>The \<open>ready\<close> frame of a stream; \<open>channels\<close> are the channels the page demands.\<close>

definition clientEventReady :: "bool \<Rightarrow> string list \<Rightarrow> envelope \<Rightarrow> event_state \<Rightarrow> event_state" where
  "clientEventReady enabled channels en s =
     (let fresh = (en_epoch en = [] \<or> ev_epoch s \<noteq> en_epoch en);
          s1 = adoptServerEpoch (en_epoch en) s
      in if fresh
         then (let rs = map fst (en_revisions en);
                   s2 = repairClientEventResources enabled rs en s1;
                   rest = filter (\<lambda>c. c \<notin> set (clientEventRepairChannels enabled rs)) channels
               in s2\<lparr>ev_refreshes := ev_refreshes s2 @ [rest]\<rparr>)
         else (let gaps = clientEventReadyGapResources en s1
               in repairClientEventResources enabled (filter (\<lambda>r. \<not> event_log_resource r) gaps) en
                    (repairReadyEventLogRevisions gaps en s1)))"

inductive event_step :: "event_state \<Rightarrow> event_state \<Rightarrow> bool" where
  receive: "event_step s (fst (handleClientPushEvent enabled hidden type p en s))"
| frame: "event_step s (flushQueuedClientPushEvents s)"
| ready: "event_step s (clientEventReady enabled channels en s)"
| answered: "event_step s (repairAnswered i s)"
| failed: "event_step s (repairFailed i s)"
| logs_read: "event_step s (eventLogsRead i s)"

inductive_cases event_stepE: "event_step s s'"

section \<open>What a patch does to the maps\<close>

text \<open>The abstract view of a patched resource: its records and its other fields, as maps.\<close>

definition patch_view ::
  "(string \<Rightarrow> string) option \<Rightarrow> string \<Rightarrow> (string \<times> json) list \<Rightarrow> ((string \<rightharpoonup> string) \<times> (string \<rightharpoonup> json)) option" where
  "patch_view keyForRecord c current =
     (case map_of current c of
        None \<Rightarrow> None
      | Some coll \<Rightarrow> map_option (\<lambda>rs. (map_of rs, (map_of current)(c := None))) (keyed_records keyForRecord coll))"

definition patch_spec ::
  "keyed_patch \<Rightarrow> (string \<rightharpoonup> string) \<times> (string \<rightharpoonup> json) \<Rightarrow> (string \<rightharpoonup> string) \<times> (string \<rightharpoonup> json)" where
  "patch_spec p view =
     ((fst view |` (- set (kp_removed_keys p))) ++ map_of (case kp_changes p of Some cs \<Rightarrow> cs | None \<Rightarrow> []),
      ((snd view ++ map_of (kp_fields p)) |` (- set (kp_removed_fields p)))(kp_collection p := None))"

text \<open>A patch of the server: its objects have each key once, and records come under their own keys.\<close>

definition patch_ok :: "(string \<Rightarrow> string) option \<Rightarrow> string \<Rightarrow> keyed_patch \<Rightarrow> bool" where
  "patch_ok keyForRecord c p =
     (kp_collection p = c \<and> c \<noteq> [] \<and> distinct (map fst (kp_fields p))
      \<and> (case kp_changes p of
            None \<Rightarrow> False
          | Some cs \<Rightarrow> distinct (map fst cs)
              \<and> (case keyForRecord of None \<Rightarrow> True | Some key \<Rightarrow> list_all (\<lambda>(k, r). key r = k \<and> k \<noteq> []) cs)))"

fun applyClientEventKeyedPatches ::
  "(string \<Rightarrow> string) option \<Rightarrow> keyed_patch list \<Rightarrow> (string \<times> json) list \<Rightarrow> (string \<times> json) list option" where
  "applyClientEventKeyedPatches keyForRecord [] current = Some current"
| "applyClientEventKeyedPatches keyForRecord (p # ps) current =
     (case applyClientEventKeyedPatch keyForRecord p current of
        None \<Rightarrow> None | Some next \<Rightarrow> applyClientEventKeyedPatches keyForRecord ps next)"

lemma map_of_js_assign: "distinct (map fst new) \<Longrightarrow> map_of (js_assign new old) = map_of old ++ map_of new"
proof (induction new arbitrary: old)
  case (Cons kv new)
  obtain k v where kv: "kv = (k, v)" by (rule prod.exhaust)
  with Cons have "map_of (js_assign new (AList.update k v old)) = (map_of old)(k \<mapsto> v) ++ map_of new" by simp
  moreover have "map_of new k = None" using Cons.prems kv by (simp add: map_of_eq_None_iff)
  ultimately show ?case by (auto simp: js_assign_def kv map_add_def fun_eq_iff split: option.splits)
qed (simp add: js_assign_def)

lemma map_of_delete_keys: "map_of (delete_keys ks m) = map_of m |` (- set ks)"
  by (induction ks arbitrary: m) (auto simp: delete_keys_def restrict_map_def fun_eq_iff)

lemma keys_js_assign: "distinct (map fst old) \<Longrightarrow> distinct (map fst (js_assign new old))"
  by (induction new arbitrary: old) (auto simp: js_assign_def distinct_update)

lemma keys_delete_keys: "distinct (map fst m) \<Longrightarrow> distinct (map fst (delete_keys ks m))"
  by (induction ks arbitrary: m) (auto simp: delete_keys_def distinct_delete)

lemma set_js_assign: "set (js_assign new old) \<subseteq> set new \<union> set old"
proof (induction new arbitrary: old)
  case (Cons kv new)
  obtain k v where kv: "kv = (k, v)" by (rule prod.exhaust)
  have "set (AList.update k v old) \<subseteq> insert (k, v) (set old)" by (induction old) auto
  with Cons.IH [of "AList.update k v old"] show ?case by (auto simp: js_assign_def kv)
qed (simp add: js_assign_def)

lemma set_delete_keys: "set (delete_keys ks m) \<subseteq> set m"
proof (induction ks arbitrary: m)
  case (Cons k ks)
  have "set (AList.delete k m) \<subseteq> set m" by (auto simp: AList.delete_eq)
  with Cons.IH [of "AList.delete k m"] show ?case by (auto simp: delete_keys_def)
qed (simp add: delete_keys_def)

text \<open>An array of the values of records that come under their own keys has those records.\<close>

lemma keyed_records_array:
  assumes "distinct (map fst rs)" "\<forall>(k, r) \<in> set rs. key r = k \<and> k \<noteq> []"
  shows "keyed_records (Some key) (JArray (map snd rs)) = Some rs"
proof -
  have k: "map (\<lambda>x. key (snd x)) rs = map fst rs" and r: "map (\<lambda>x. (key (snd x), snd x)) rs = rs"
    using assms(2) by (auto intro!: map_idI simp: case_prod_unfold)
  have "[] \<notin> set (map fst rs)" using assms(2) by auto
  then show ?thesis
    using assms(1) unfolding keyed_records_def by (simp add: comp_def k r del: set_map list.set_map)
qed

lemma keyed_records_own:
  "keyed_records (Some key) (JArray rs) = Some recs \<Longrightarrow> \<forall>(k, r) \<in> set recs. key r = k \<and> k \<noteq> []"
  "keyed_records (Some key) (JArray rs) = Some recs \<Longrightarrow> distinct (map fst recs)"
  by (auto simp: keyed_records_def comp_def split: if_splits)

lemma patch_refines:
  assumes ok: "patch_ok key c p" and v: "patch_view key c cur = Some view"
  shows "\<exists>nxt. applyClientEventKeyedPatch key p cur = Some nxt \<and> patch_view key c nxt = Some (patch_spec p view)"
proof -
  obtain coll recs where cur: "map_of cur c = Some coll" "keyed_records key coll = Some recs"
    "view = (map_of recs, (map_of cur)(c := None))"
    using v by (auto simp: patch_view_def split: option.splits)
  obtain cs where cs: "kp_changes p = Some cs" "distinct (map fst cs)" "kp_collection p = c" "c \<noteq> []"
    "distinct (map fst (kp_fields p))"
    using ok by (auto simp: patch_ok_def split: option.splits)
  let ?recs = "js_assign cs (delete_keys (kp_removed_keys p) recs)"
  let ?next = "delete_keys (kp_removed_fields p) (js_assign (kp_fields p) cur)"
  let ?coll = "case coll of JArray rs \<Rightarrow> JArray (map snd ?recs) | _ \<Rightarrow> JObject ?recs"
  have "applyClientEventKeyedPatch key p cur = Some (AList.update c ?coll ?next)"
    using cur cs by (simp add: applyClientEventKeyedPatch_def Let_def)
  moreover have "keyed_records key ?coll = Some ?recs"
  proof (cases coll)
    case (JArray rs)
    then obtain k where k: "key = Some k" using cur(2) by (auto simp: keyed_records_def split: option.splits)
    note own = keyed_records_own [of k rs recs] 
    have "\<forall>(a, r) \<in> set cs. k r = a \<and> a \<noteq> []" using ok cs(1) k by (auto simp: patch_ok_def list_all_iff)
    then have "\<forall>(a, r) \<in> set ?recs. k r = a \<and> a \<noteq> []"
      using own(1) cur(2) k JArray set_js_assign [of cs "delete_keys (kp_removed_keys p) recs"]
        set_delete_keys [of "kp_removed_keys p" recs] by fastforce
    moreover have "distinct (map fst ?recs)" using own(2) cur(2) k JArray by (simp add: keys_js_assign keys_delete_keys)
    ultimately show ?thesis using JArray k by (simp add: keyed_records_array)
  qed (use cur(2) in \<open>simp_all add: keyed_records_def\<close>)
  moreover have "map_of ?recs = fst (patch_spec p view)"
    using cs cur(3) by (simp add: patch_spec_def map_of_js_assign map_of_delete_keys)
  moreover have "(map_of ?next)(c := None) = snd (patch_spec p view)"
    using cs cur(3) by (auto simp: patch_spec_def map_of_js_assign map_of_delete_keys map_add_def restrict_map_def fun_eq_iff
        split: option.splits)
  ultimately show ?thesis by (auto simp: patch_view_def prod_eq_iff)
qed

lemma patches_refine:
  "list_all (patch_ok key c) ps \<Longrightarrow> patch_view key c cur = Some view \<Longrightarrow>
   \<exists>nxt. applyClientEventKeyedPatches key ps cur = Some nxt \<and> patch_view key c nxt = Some (fold patch_spec ps view)"
proof (induction ps arbitrary: cur view)
  case (Cons p ps)
  then have "patch_ok key c p" by simp
  then obtain nxt where "applyClientEventKeyedPatch key p cur = Some nxt" "patch_view key c nxt = Some (patch_spec p view)"
    using patch_refines Cons.prems(2) by blast
  with Cons.IH [of nxt "patch_spec p view"] Cons.prems(1) show ?case by simp
qed simp

section \<open>Order of revisions\<close>

text \<open>Resources whose revision only events set: neither repaired by a read nor an event log.\<close>

definition plain_resource :: "string \<Rightarrow> bool" where
  "plain_resource r = (r \<notin> set patch_resources \<and> \<not> event_log_resource r)"

definition not_older :: "string \<Rightarrow> event_state \<Rightarrow> event_state \<Rightarrow> bool" where
  "not_older r s s' =
     (ev_epochGeneration s < ev_epochGeneration s'
      \<or> (ev_epochGeneration s' = ev_epochGeneration s \<and> ev_epoch s' = ev_epoch s
          \<and> accepted_revision r s \<le> accepted_revision r s'))"

lemma not_older_refl [simp]: "not_older r s s"
  by (simp add: not_older_def)

lemma not_older_trans: "not_older r s t \<Longrightarrow> not_older r t u \<Longrightarrow> not_older r s u"
  by (auto simp: not_older_def)

lemma not_older_fields:
  "ev_epochGeneration t = ev_epochGeneration s \<Longrightarrow> ev_epoch t = ev_epoch s \<Longrightarrow> ev_revisions t = ev_revisions s \<Longrightarrow>
   not_older r s t"
  by (simp add: not_older_def accepted_revision_def)

lemma accepted_setRevision: "accepted_revision r (setRevision q n s) = (if r = q then n else accepted_revision r s)"
  by (simp add: accepted_revision_def setRevision_def)

lemma setRevision_simps [simp]:
  "ev_epoch (setRevision r n s) = ev_epoch s" "ev_epochGeneration (setRevision r n s) = ev_epochGeneration s"
  by (simp_all add: setRevision_def)

lemma not_older_adopt: "not_older r s (adoptServerEpoch epoch s)"
  by (simp add: adoptServerEpoch_def not_older_def)

text \<open>Repairs change no revision until they are answered.\<close>

definition same_revisions :: "event_state \<Rightarrow> event_state \<Rightarrow> bool" where
  "same_revisions s t =
     (ev_epochGeneration t = ev_epochGeneration s \<and> ev_epoch t = ev_epoch s \<and> ev_revisions t = ev_revisions s
      \<and> ev_queue t = ev_queue s \<and> ev_dispatched t = ev_dispatched s)"

lemma same_revisions_not_older: "same_revisions s t \<Longrightarrow> not_older r s t"
  by (simp add: same_revisions_def not_older_fields)

lemma same_repairPatch: "same_revisions s (fst (repairClientEventPatchResource r en s))"
  by (auto simp: repairClientEventPatchResource_def startRepair_def same_revisions_def Let_def split: option.splits)

lemma same_repairStep: "same_revisions s (fst acc) \<Longrightarrow> same_revisions s (fst (repairStep en r acc))"
proof -
  assume "same_revisions s (fst acc)"
  moreover have "same_revisions (fst acc) (fst (repairStep en r acc))"
    using same_repairPatch [of "fst acc" r en]
    by (auto simp: repairStep_def same_revisions_def split: prod.splits bool.splits)
  ultimately show ?thesis by (simp add: same_revisions_def)
qed

lemma same_repairs: "same_revisions s (repairClientEventResources enabled rs en s)"
proof -
  have "same_revisions s (fst (fold (repairStep en) rs acc))" if "same_revisions s (fst acc)" for acc
    using that by (induction rs arbitrary: acc) (simp_all add: same_repairStep)
  from this [of "(s, [])"] have "same_revisions s (fst (fold (repairStep en) rs (s, [])))"
    by (simp add: same_revisions_def)
  then show ?thesis
    by (cases "fold (repairStep en) rs (s, [])") (simp add: repairClientEventResources_def Let_def same_revisions_def)
qed

lemma queue_fields [simp]:
  "ev_epochGeneration (queueClientPushEvent h ty p s) = ev_epochGeneration s"
  "ev_epoch (queueClientPushEvent h ty p s) = ev_epoch s" "ev_revisions (queueClientPushEvent h ty p s) = ev_revisions s"
  by (simp_all add: queueClientPushEvent_def flushQueuedClientPushEvents_def Let_def)

lemma current_not_older: "not_older r s (fst (clientEventEnvelopeIsCurrent enabled en p s))"
proof -
  let ?s = "adoptServerEpoch (en_epoch en) s"
  have "not_older r ?s (repairClientEventResources enabled [en_resource en] en ?s)"
    using same_repairs by (rule same_revisions_not_older)
  moreover have "not_older r ?s (setRevision (en_resource en) n ?s)" if "accepted_revision (en_resource en) ?s \<le> n" for n
    using that by (auto simp: not_older_def accepted_setRevision)
  ultimately show ?thesis
    using not_older_adopt [of r s "en_epoch en"] not_older_trans [of r s ?s]
    by (auto simp: clientEventEnvelopeIsCurrent_def Let_def split: option.split)
qed

lemma handle_not_older: "not_older r s (fst (handleClientPushEvent enabled hidden ty p en s))"
proof -
  let ?s = "repairClientEventResources enabled (en_repairs en) en s"
  have "not_older r s ?s" using same_repairs by (rule same_revisions_not_older)
  moreover have "not_older r ?s (fst (clientEventEnvelopeIsCurrent enabled en p ?s))" by (rule current_not_older)
  moreover have "not_older r t (queueClientPushEvent hidden ty p t)" for t by (simp add: not_older_fields)
  ultimately show ?thesis
    using not_older_trans by (simp add: handleClientPushEvent_def Let_def split: prod.splits bool.splits)
qed

lemma logs_not_older: "plain_resource r \<Longrightarrow> \<forall>x \<in> set rs. event_log_resource (fst x) \<Longrightarrow>
    not_older r s (fold (\<lambda>(q, n). setRevision q n) rs s)"
proof (induction rs arbitrary: s)
  case (Cons x rs)
  then have "fst x \<noteq> r" by (auto simp: plain_resource_def)
  then have "not_older r s (setRevision (fst x) (snd x) s)" by (simp add: not_older_def accepted_setRevision)
  moreover have "not_older r (setRevision (fst x) (snd x) s) (fold (\<lambda>(q, n). setRevision q n) rs (setRevision (fst x) (snd x) s))"
    using Cons by simp
  ultimately show ?case by (simp add: case_prod_unfold not_older_trans)
qed simp

text \<open>What the outstanding reads are for.\<close>

definition runs_ok :: "event_state \<Rightarrow> bool" where
  "runs_ok s =
     ((\<forall>i run. map_of (ev_runs s) i = Some run \<longrightarrow> rr_resource run \<in> set patch_resources)
      \<and> (\<forall>i e rs. map_of (ev_logRuns s) i = Some (e, rs) \<longrightarrow> (\<forall>x \<in> set rs. event_log_resource (fst x))))"

lemma runs_ok_same: "ev_runs t = ev_runs s \<Longrightarrow> ev_logRuns t = ev_logRuns s \<Longrightarrow> runs_ok s \<Longrightarrow> runs_ok t"
  by (simp add: runs_ok_def)

lemma runs_ok_repairPatch: "runs_ok s \<Longrightarrow> runs_ok (fst (repairClientEventPatchResource r en s))"
  by (auto simp: repairClientEventPatchResource_def startRepair_def runs_ok_def Let_def split: option.splits if_splits)

lemma runs_ok_repairs: "runs_ok s \<Longrightarrow> runs_ok (repairClientEventResources enabled rs en s)"
proof -
  assume ok: "runs_ok s"
  have step: "runs_ok (fst acc) \<Longrightarrow> runs_ok (fst (repairStep en r acc))" for r acc
    using runs_ok_repairPatch [of "fst acc" r en] by (auto simp: repairStep_def split: prod.splits bool.splits)
  have "runs_ok (fst acc) \<Longrightarrow> runs_ok (fst (fold (repairStep en) rs acc))" for acc
    by (induction rs arbitrary: acc) (simp_all add: step)
  from this [of "(s, [])"] ok have "runs_ok (fst (fold (repairStep en) rs (s, [])))" by simp
  then show ?thesis
    by (cases "fold (repairStep en) rs (s, [])") (simp add: repairClientEventResources_def Let_def runs_ok_def)
qed

lemma runs_ok_adopt: "runs_ok s \<Longrightarrow> runs_ok (adoptServerEpoch e s)"
  by (simp add: adoptServerEpoch_def runs_ok_def)

lemma runs_ok_current: "runs_ok s \<Longrightarrow> runs_ok (fst (clientEventEnvelopeIsCurrent enabled en p s))"
proof -
  assume "runs_ok s"
  then have "runs_ok (adoptServerEpoch (en_epoch en) s)" by (rule runs_ok_adopt)
  with \<open>runs_ok s\<close> show ?thesis
    using runs_ok_repairs runs_ok_same [of "setRevision _ _ _"]
    by (auto simp: clientEventEnvelopeIsCurrent_def Let_def setRevision_def split: option.split)
qed

lemma runs_ok_handle: "runs_ok s \<Longrightarrow> runs_ok (fst (handleClientPushEvent enabled hidden ty p en s))"
proof -
  assume "runs_ok s"
  then have r: "runs_ok (repairClientEventResources enabled (en_repairs en) en s)" by (rule runs_ok_repairs)
  have q: "runs_ok (queueClientPushEvent hidden ty p t) \<longleftrightarrow> runs_ok t" for t
    by (simp add: queueClientPushEvent_def flushQueuedClientPushEvents_def Let_def runs_ok_def)
  obtain t b where t: "clientEventEnvelopeIsCurrent enabled en p (repairClientEventResources enabled (en_repairs en) en s) = (t, b)"
    by (rule prod.exhaust)
  with runs_ok_current [OF r, of enabled en p] have "runs_ok t" by simp
  with r t show ?thesis by (simp add: handleClientPushEvent_def Let_def q split: bool.split)
qed

lemma runs_ok_readyLogs: "runs_ok s \<Longrightarrow> runs_ok (repairReadyEventLogRevisions rs en s)"
  by (auto simp: repairReadyEventLogRevisions_def runs_ok_def Let_def split: option.splits)

lemma runs_ok_ready: "runs_ok s \<Longrightarrow> runs_ok (clientEventReady enabled channels en s)"
proof -
  assume "runs_ok s"
  then have a: "runs_ok (adoptServerEpoch (en_epoch en) s)" by (rule runs_ok_adopt)
  have "runs_ok (t\<lparr>ev_refreshes := r\<rparr>) \<longleftrightarrow> runs_ok t" for t r by (simp add: runs_ok_def)
  then show ?thesis
    using runs_ok_repairs [OF a] runs_ok_repairs [OF runs_ok_readyLogs [OF a]] by (simp add: clientEventReady_def Let_def)
qed

lemma fold_setRevision_fields [simp]:
  "ev_runs (fold (\<lambda>(q, n). setRevision q n) rs s) = ev_runs s"
  "ev_logRuns (fold (\<lambda>(q, n). setRevision q n) rs s) = ev_logRuns s"
  by (induction rs arbitrary: s) (auto simp: setRevision_def)

lemma runs_ok_step: "event_step s s' \<Longrightarrow> runs_ok s \<Longrightarrow> runs_ok s'"
proof (induction rule: event_step.induct)
  case (frame s)
  then show ?case by (simp add: flushQueuedClientPushEvents_def runs_ok_def)
next
  case (answered s i)
  then show ?case
    by (auto simp: repairAnswered_def endRepair_def runs_ok_def setRevision_def split: option.split if_splits)
next
  case (failed s i)
  then show ?case by (auto simp: repairFailed_def endRepair_def runs_ok_def split: option.split if_splits)
next
  case (logs_read s i)
  then show ?case
    by (auto simp: eventLogsRead_def runs_ok_def Let_def split: option.split if_splits)
qed (simp_all add: runs_ok_handle runs_ok_ready)

interpretation events: invariant_machine event_step runs_ok
  by unfold_locales (rule runs_ok_step)

lemma event_init_ok: "runs_ok event_init"
  by (simp add: runs_ok_def event_init_def)

lemma ready_not_older: "not_older r s (clientEventReady enabled channels en s)"
proof -
  let ?s = "adoptServerEpoch (en_epoch en) s"
  have logs: "same_revisions t (repairReadyEventLogRevisions rs en t)" for t rs
    by (simp add: repairReadyEventLogRevisions_def same_revisions_def Let_def)
  have "not_older r ?s (clientEventReady enabled channels en s)"
    using same_repairs [of ?s enabled "map fst (en_revisions en)" en] logs [of ?s "clientEventReadyGapResources en ?s"]
      same_repairs [of "repairReadyEventLogRevisions (clientEventReadyGapResources en ?s) en ?s" enabled
        "filter (\<lambda>r. \<not> event_log_resource r) (clientEventReadyGapResources en ?s)" en]
    by (intro not_older_fields) (simp_all add: clientEventReady_def Let_def same_revisions_def)
  with not_older_adopt show ?thesis by (rule not_older_trans)
qed

lemma step_not_older: "event_step s s' \<Longrightarrow> runs_ok s \<Longrightarrow> plain_resource r \<Longrightarrow> not_older r s s'"
proof (induction rule: event_step.induct)
  case (frame s)
  show ?case by (simp add: flushQueuedClientPushEvents_def not_older_fields)
next
  case (answered s i)
  then have "map_of (ev_runs s) i = Some run \<Longrightarrow> rr_resource run \<noteq> r" for run
    by (auto simp: runs_ok_def plain_resource_def)
  then show ?case
    by (auto simp: repairAnswered_def endRepair_def not_older_def accepted_revision_def setRevision_def split: option.splits)
next
  case (failed s i)
  show ?case by (auto simp: repairFailed_def endRepair_def intro: not_older_fields split: option.split)
next
  case (logs_read s i)
  show ?case
  proof (cases "map_of (ev_logRuns s) i")
    case (Some x)
    obtain e rs where x: "x = (e, rs)" by (rule prod.exhaust)
    let ?t = "s\<lparr>ev_logRuns := AList.delete i (ev_logRuns s)\<rparr>"
    have t: "not_older r s ?t" by (simp add: not_older_fields)
    have "\<forall>x \<in> set rs. event_log_resource (fst x)" using logs_read.prems(1) Some x by (simp add: runs_ok_def)
    with logs_read.prems(2) have "not_older r ?t (fold (\<lambda>(q, n). setRevision q n) rs ?t)" by (rule logs_not_older)
    with t not_older_trans [OF t] show ?thesis by (simp add: eventLogsRead_def Some x Let_def)
  qed (simp add: eventLogsRead_def)
qed (simp_all add: handle_not_older ready_not_older)

lemma reachable_not_older: "event_step\<^sup>*\<^sup>* s s' \<Longrightarrow> runs_ok s \<Longrightarrow> plain_resource r \<Longrightarrow> not_older r s s'"
proof (induction rule: rtranclp_induct)
  case (step t u)
  then have "runs_ok t" by (blast intro: events.inv_reach)
  with step show ?case by (blast intro: not_older_trans step_not_older)
qed simp

text \<open>After its acceptance an event is refused as long as the same server process is talking.\<close>

lemma accepted_then_refused:
  assumes "runs_ok s" "en_revision en = Some n" "1 \<le> n" "en_epoch en \<noteq> []" "plain_resource (en_resource en)" "en_resource en \<noteq> []"
    and "handleClientPushEvent enabled hidden ty p en s = (s1, True)"
    and "event_step\<^sup>*\<^sup>* s1 s2" "ev_epochGeneration s2 = ev_epochGeneration s1"
  shows "\<not> snd (handleClientPushEvent enabled' hidden' ty' p' en s2)"
proof -
  let ?r = "en_resource en"
  have step1: "event_step s s1" using receive [of s enabled hidden ty p en] assms(7) by simp
  obtain t where t: "clientEventEnvelopeIsCurrent enabled en p (repairClientEventResources enabled (en_repairs en) en s) = (t, True)"
    "s1 = queueClientPushEvent hidden ty p t"
    using assms(7) by (auto simp: handleClientPushEvent_def Let_def split: if_splits prod.splits bool.splits)
  have "ev_epoch t = en_epoch en \<and> accepted_revision ?r t = n"
    using t(1) assms(2-6)
    by (auto simp: clientEventEnvelopeIsCurrent_def Let_def accepted_setRevision adoptServerEpoch_def split: if_splits)
  then have s1: "ev_epoch s1 = en_epoch en" "accepted_revision ?r s1 = n" by (simp_all add: t(2) accepted_revision_def)
  have "runs_ok s1" using assms(1) step1 by (rule runs_ok_step [rotated])
  then have "not_older ?r s1 s2" using assms(5,8) reachable_not_older by blast
  then have s2: "ev_epoch s2 = en_epoch en" "n \<le> accepted_revision ?r s2" using s1 assms(9) by (auto simp: not_older_def)
  let ?s = "repairClientEventResources enabled' (en_repairs en) en s2"
  have "same_revisions s2 ?s" by (rule same_repairs)
  with s2 have "ev_epoch ?s = en_epoch en" "n \<le> accepted_revision ?r ?s"
    by (simp_all add: same_revisions_def accepted_revision_def)
  then have "\<not> snd (clientEventEnvelopeIsCurrent enabled' en p' ?s)"
    using assms(2-6) by (simp add: clientEventEnvelopeIsCurrent_def Let_def adoptServerEpoch_def)
  then show ?thesis
    by (cases "clientEventEnvelopeIsCurrent enabled' en p' ?s") (simp add: handleClientPushEvent_def Let_def split: bool.split)
qed

end
