(* ===== verification/Transport_Properties.thy ===== *)
theory Transport_Properties
  imports Request_Coordinator Server_Events
begin

text \<open>
  The properties of the client's dealings with its server: the coordinator of requests and the
  stream of events.
\<close>

section \<open>Requests\<close>

text \<open>
  C12. At most eight requests of the page run at a time, and none is held back without need: in every
  reachable state the running requests are counted exactly, are at most eight, and a request waits
  only while eight run. The waiting requests are those neither started nor settled, oldest first.
\<close>

theorem requests_bounded_and_busy:
  assumes "coordinator_step\<^sup>*\<^sup>* coordinator_init s"
  shows "co_active s = places (co_items s) \<and> co_active s \<le> 8 \<and> (co_queue s \<noteq> [] \<longrightarrow> co_active s = 8)
    \<and> sorted_wrt (<) (co_queue s) \<and> set (co_queue s) = {i. unsettled i s \<and> \<not> is_started i s}"
  using coordinator_okD [OF coordinator_reachable_ok [OF assms]]
  by (simp add: accounts_ok_def startupRefreshApiConcurrencyLimit_def)

fun submitted :: "nat \<Rightarrow> coordinator \<Rightarrow> coordinator" where
  "submitted 0 s = s"
| "submitted (Suc n) s = submitted n (runStartupRefreshApiRequest None s)"

lemma submitted_steps: "coordinator_step\<^sup>*\<^sup>* s (submitted n s)"
proof (induction n arbitrary: s)
  case (Suc n)
  from converse_rtranclp_into_rtranclp [OF submit Suc.IH] show ?case by simp
qed simp

theorem requests_bounded_and_busy_witness:
  "co_queue (submitted 10 coordinator_init) = [8, 9] \<and> co_active (submitted 10 coordinator_init) = 8"
proof -
  have q: "co_queue (submitted 10 coordinator_init) = [8, 9]" by code_simp
  with requests_bounded_and_busy [OF submitted_steps, of 10] show ?thesis by simp
qed

text \<open>
  C13. No request starves: while one waits, another runs; whenever a running request ends, however it
  ends, the waiting request leaves the queue or has fewer requests before it; and no other step puts
  a request before it.
\<close>

theorem waiting_request_progresses:
  assumes "coordinator_step\<^sup>*\<^sup>* coordinator_init s" "k \<in> set (co_queue s)"
  shows "(\<exists>i. holds_place i s)
    \<and> (holds_place i s \<longrightarrow> k \<notin> set (co_queue (finishRequest i out s)) \<or> ahead k (finishRequest i out s) < ahead k s)
    \<and> (coordinator_step s s' \<longrightarrow> ahead k s' \<le> ahead k s)"
proof -
  have ok: "coordinator_ok s" using assms(1) by (rule coordinator_reachable_ok)
  have k: "k < length (co_items s)" using assms(2) coordinator_okD(5) [OF ok] by (simp add: unsettled_def)
  have mono: "ahead k t \<le> ahead k s" if "coordinator_step s t" for t
    using ahead_mono(1) [OF ok coordinator_step_ok [OF that ok] advances_step [OF that] k] .
  have "k \<notin> set (co_queue (finishRequest i out s)) \<or> ahead k (finishRequest i out s) < ahead k s" if h: "holds_place i s"
  proof -
    obtain j q where q: "co_queue s = j # q" using assms(2) by (cases "co_queue s") auto
    have step: "coordinator_step s (finishRequest i out s)" by (rule finish)
    have head: "j \<in> set (co_queue s)" "j \<notin> set (co_queue (finishRequest i out s))"
      using q finish_takes_head [OF ok h q] by simp_all
    have "j = k \<or> j < k" using assms(2) q coordinator_okD(4) [OF ok] by auto
    with ahead_mono(2) [OF ok coordinator_step_ok [OF step ok] advances_step [OF step] k head] head show ?thesis by blast
  qed
  moreover have "\<exists>i. holds_place i s" using some_running [OF ok] assms(2) by (metis empty_iff list.set(1))
  ultimately show ?thesis using mono by blast
qed

theorem waiting_request_progresses_witness:
  "ahead 9 (finishRequest 0 (ReqResolved []) (submitted 10 coordinator_init)) < ahead 9 (submitted 10 coordinator_init)"
proof -
  have "9 \<in> set (co_queue (submitted 10 coordinator_init))" "holds_place 0 (submitted 10 coordinator_init)"
    "9 \<in> set (co_queue (finishRequest 0 (ReqResolved []) (submitted 10 coordinator_init)))" by code_simp+
  with waiting_request_progresses [OF submitted_steps] show ?thesis by blast
qed

text \<open>
  A request settles once: its first outcome, be it a result, a failure or an abort, is never
  replaced in any continuation, and it is never started again.
\<close>

theorem request_settles_once:
  assumes "coordinator_step\<^sup>*\<^sup>* s s'" "outcome_of i s = Some out"
  shows "outcome_of i s' = Some out \<and> \<not> unsettled i s'"
proof -
  have "advances s s'"
    using assms(1) by (induction rule: rtranclp_induct) (auto intro: advances_trans advances_step)
  with assms(2) have "outcome_of i s' = Some out" by (simp add: advances_def)
  then show ?thesis by (simp add: unsettled_outcome)
qed

theorem request_settles_once_witness:
  "outcome_of 0 (abortSignal 5 (finishRequest 0 (ReqResolved ''x'') (runStartupRefreshApiRequest (Some 5) coordinator_init)))
   = Some (ReqResolved ''x'')"
proof -
  let ?s = "finishRequest 0 (ReqResolved ''x'') (runStartupRefreshApiRequest (Some 5) coordinator_init)"
  have "outcome_of 0 ?s = Some (ReqResolved ''x'')" by code_simp
  moreover have "coordinator_step\<^sup>*\<^sup>* ?s (abortSignal 5 ?s)" by (rule r_into_rtranclp) (rule abort)
  ultimately show ?thesis using request_settles_once by blast
qed

section \<open>Server events\<close>

text \<open>
  C14. Patches applied in order keep the client's copy equal to the server's: seen as maps, a patched
  collection and its other fields after any list of well-formed patches are what the patches say,
  removals before changes, whether the collection is an object or an array of records with keys.
\<close>

theorem patches_refine_maps:
  assumes "list_all (patch_ok key c) ps" "patch_view key c cur = Some view"
  shows "\<exists>nxt. applyClientEventKeyedPatches key ps cur = Some nxt \<and> patch_view key c nxt = Some (fold patch_spec ps view)"
  using assms by (rule patches_refine)

definition signals :: "(string \<times> json) list" where
  "signals = [(''windows'', JObject [(''1'', ''a''), (''2'', ''b'')]), (''status'', JText ''ok'')]"

definition change_patch :: "string \<Rightarrow> string \<Rightarrow> keyed_patch" where
  "change_patch k v = \<lparr>kp_collection = ''windows'', kp_changes = Some [(k, v)], kp_removed_keys = [],
     kp_fields = [], kp_removed_fields = []\<rparr>"

theorem patches_refine_maps_witness:
  "\<exists>nxt. applyClientEventKeyedPatches None [change_patch ''1'' ''x'', change_patch ''3'' ''y''] signals = Some nxt"
proof -
  let ?view = "(map_of [(''1'', ''a''), (''2'', ''b'')], (map_of signals)(''windows'' := None))"
  have "list_all (patch_ok None ''windows'') [change_patch ''1'' ''x'', change_patch ''3'' ''y'']" by code_simp
  moreover have "patch_view None ''windows'' signals = Some ?view"
    by (simp add: patch_view_def signals_def keyed_records_def)
  ultimately show ?thesis using patches_refine_maps by blast
qed

text \<open>
  C15. An event of a plain resource (not the log, the auto-approve map or the tmux signals, whose
  revisions are kept otherwise), with a revision of at least 1 and a nonempty epoch and resource, is
  accepted at most once: after it was accepted it is refused whenever it arrives again, as long as
  the same server process is talking (the epoch generation is the same), whatever events, repairs
  and reconnections come between.
\<close>

theorem event_accepted_once:
  assumes "runs_ok s" "en_revision en = Some n" "1 \<le> n" "en_epoch en \<noteq> []" "plain_resource (en_resource en)" "en_resource en \<noteq> []"
    and "handleClientPushEvent enabled hidden ty p en s = (s1, True)"
    and "event_step\<^sup>*\<^sup>* s1 s2" "ev_epochGeneration s2 = ev_epochGeneration s1"
  shows "\<not> snd (handleClientPushEvent enabled' hidden' ty' p' en s2)"
  using assms by (rule accepted_then_refused)

definition plain_envelope :: envelope where
  "plain_envelope = \<lparr>en_epoch = ''e'', en_resource = ''chat_messages_changed'', en_revision = Some 3, en_base = Some 2,
     en_revisions = [], en_repairs = []\<rparr>"

definition plain_payload :: payload where
  "plain_payload = \<lparr>pl_patch = None, pl_session = [], pl_operation = [], pl_body = ''m''\<rparr>"

theorem event_accepted_once_witness:
  "\<not> snd (handleClientPushEvent True False ''chat_messages_changed'' plain_payload plain_envelope
      (fst (handleClientPushEvent True False ''chat_messages_changed'' plain_payload plain_envelope event_init)))"
proof -
  let ?h = "handleClientPushEvent True False ''chat_messages_changed'' plain_payload plain_envelope event_init"
  have "snd ?h" by code_simp
  then have h: "?h = (fst ?h, True)" by (simp add: prod_eq_iff)
  have p: "plain_resource (en_resource plain_envelope)" "en_resource plain_envelope \<noteq> []" "en_epoch plain_envelope \<noteq> []" by code_simp+
  have n: "en_revision plain_envelope = Some 3" by (simp add: plain_envelope_def)
  show ?thesis by (rule event_accepted_once [OF event_init_ok n _ p(3) p(1) p(2) h]) simp_all
qed

definition signal_event :: "int \<Rightarrow> keyed_patch \<Rightarrow> event_state \<Rightarrow> event_state \<times> bool" where
  "signal_event n p =
     handleClientPushEvent True False ''tmux_signals_changed''
       \<lparr>pl_patch = Some p, pl_session = [], pl_operation = [], pl_body = []\<rparr>
       \<lparr>en_epoch = ''e'', en_resource = ''tmux_signals_changed'', en_revision = Some n, en_base = Some (n - 1),
        en_revisions = [], en_repairs = []\<rparr>"

definition dispatched_patches :: "event_state \<Rightarrow> keyed_patch list" where
  "dispatched_patches s = somes (map (\<lambda>(ty, p). pl_patch p) (ev_dispatched s))"

text \<open>
  Two patches of one resource that arrive before the same animation frame are both accepted, and
  the second revision is recorded, but the first patch is never applied: the queue keeps one event
  per type and session. The client's copy then misses the first change, and no repair is started.
\<close>

theorem patch_lost_between_frames:
  "case signal_event 1 (change_patch ''1'' ''x'') event_init of (s1, ok1) \<Rightarrow>
   case signal_event 2 (change_patch ''2'' ''y'') s1 of (s2, ok2) \<Rightarrow>
     let s3 = flushQueuedClientPushEvents s2 in
     ok1 \<and> ok2 \<and> accepted_revision ''tmux_signals_changed'' s3 = 2 \<and> ev_runs s3 = []
     \<and> applyClientEventKeyedPatches None (dispatched_patches s3) signals
         = Some [(''windows'', JObject [(''1'', ''a''), (''2'', ''y'')]), (''status'', JText ''ok'')]
     \<and> applyClientEventKeyedPatches None [change_patch ''1'' ''x'', change_patch ''2'' ''y''] signals
         = Some [(''windows'', JObject [(''1'', ''x''), (''2'', ''y'')]), (''status'', JText ''ok'')]"
  by code_simp

end
