(* ===== verification/Operation_Receipts.thy ===== *)
theory Operation_Receipts
  imports Js_Prelude
begin

text \<open>
  Accepted operations (\<open>10_core_utils.js\<close>, from \<open>apiOperationTerminalCursor\<close> to
  \<open>registerApiOperationReceipt\<close>, and the replay streams of \<open>99_client_event_transport.js\<close>): the
  server answers a long request with a receipt, the terminal result arrives later as an event, maybe
  before the receipt, maybe more than once. Callers wait for the result; the client acknowledges it.

  A waiter is a number; \<open>op_results\<close> holds how its promise was settled. The session token of a
  record is modelled by the argument \<open>tokenCurrent\<close> of the operations that complete a record. A
  replay stream is a number; opening one may fail.
\<close>

section \<open>State\<close>

definition apiOperationReplayLimit :: nat where "apiOperationReplayLimit = 128"
definition operationTerminalAckLimit :: nat where "operationTerminalAckLimit = 64"

text \<open>A sequence number is \<open>None\<close> when it is not a safe integer.\<close>

record cursor =
  cu_epoch :: string
  cu_seq :: "int option"

datatype op_result = OpReady string | OpFailed string

record terminal =
  te_id :: string
  te_cursor :: cursor
  te_result :: "op_result option"

datatype op_phase = OpAccepted | OpTerminal

record op_record =
  or_kind :: string
  or_operation :: string
  or_eventsUrl :: string
  or_cursor :: cursor
  or_phase :: op_phase
  or_source :: "nat option"
  or_handled :: nat

record receipt =
  rc_id :: string
  rc_kind :: string
  rc_operation :: string
  rc_eventsUrl :: string
  rc_cursor :: cursor

datatype wait_result = WaitResolved string | WaitRejected string

record op_state =
  op_records :: "(string \<times> op_record) list"
  op_pending :: "string list"
  op_terminals :: "(string \<times> terminal) list"
  op_repairs :: "string list"
  op_waiters :: "(string \<times> nat list) list"
  op_results :: "(nat \<times> wait_result) list"
  op_waiterSerial :: nat
  op_sourceSerial :: nat
  op_acks :: "(string \<times> cursor) list"
  op_ackBatch :: "(string \<times> cursor) list option"

definition op_init :: op_state where
  "op_init = \<lparr>op_records = [], op_pending = [], op_terminals = [], op_repairs = [], op_waiters = [], op_results = [],
     op_waiterSerial = 0, op_sourceSerial = 0, op_acks = [], op_ackBatch = None\<rparr>"

definition recordOf :: "string \<Rightarrow> op_state \<Rightarrow> op_record option" where
  "recordOf i s = map_of (op_records s) i"

definition terminalOf :: "string \<Rightarrow> op_state \<Rightarrow> terminal option" where
  "terminalOf i s = map_of (op_terminals s) i"

definition waitersOf :: "string \<Rightarrow> op_state \<Rightarrow> nat list" where
  "waitersOf i s = (case map_of (op_waiters s) i of Some ws \<Rightarrow> ws | None \<Rightarrow> [])"

definition resultOf :: "nat \<Rightarrow> op_state \<Rightarrow> wait_result option" where
  "resultOf w s = map_of (op_results s) w"

section \<open>Cursors\<close>

definition seq_after :: "cursor \<Rightarrow> cursor \<Rightarrow> bool" where
  "seq_after next prev = (case (cu_seq next, cu_seq prev) of (Some n, Some p) \<Rightarrow> p < n | _ \<Rightarrow> False)"

definition seq_positive :: "cursor \<Rightarrow> bool" where
  "seq_positive c = (case cu_seq c of Some n \<Rightarrow> 0 < n | None \<Rightarrow> False)"

definition apiOperationTerminalIsNewer :: "terminal option \<Rightarrow> terminal \<Rightarrow> bool" where
  "apiOperationTerminalIsNewer current incoming =
     (let next = te_cursor incoming in
      if cu_epoch next = [] \<or> cu_seq next = None then False
      else (case current of
              None \<Rightarrow> seq_positive next
            | Some c \<Rightarrow> cu_epoch (te_cursor c) = cu_epoch next \<and> seq_after next (te_cursor c)))"

definition apiOperationTerminalMatchesRecord :: "op_record \<Rightarrow> terminal \<Rightarrow> bool" where
  "apiOperationTerminalMatchesRecord r t =
     (let accepted = or_cursor r; next = te_cursor t in
      cu_epoch next \<noteq> [] \<and> seq_positive next
      \<and> (cu_epoch accepted = [] \<or> cu_epoch accepted = cu_epoch next) \<and> seq_after next accepted)"

section \<open>Waiters and acknowledgements\<close>

definition setResult :: "nat \<Rightarrow> wait_result \<Rightarrow> op_state \<Rightarrow> op_state" where
  "setResult w v s = s\<lparr>op_results := op_results s @ [(w, v)]\<rparr>"

definition apiOperationTerminalData :: "terminal \<Rightarrow> wait_result" where
  "apiOperationTerminalData t =
     (case te_result t of
        Some (OpReady d) \<Rightarrow> WaitResolved d
      | Some (OpFailed e) \<Rightarrow> WaitRejected e
      | None \<Rightarrow> WaitRejected ''operation_failed'')"

definition settleApiOperationWaiters :: "string \<Rightarrow> terminal \<Rightarrow> op_state \<Rightarrow> op_state" where
  "settleApiOperationWaiters i t s =
     fold (\<lambda>w. setResult w (apiOperationTerminalData t)) (waitersOf i s)
       (s\<lparr>op_waiters := AList.delete i (op_waiters s)\<rparr>)"

definition detachApiOperationWaiter :: "string \<Rightarrow> nat \<Rightarrow> string \<Rightarrow> op_state \<Rightarrow> op_state" where
  "detachApiOperationWaiter i w e s =
     (if w \<notin> set (waitersOf i s) then s
      else
        let ws = filter (\<lambda>v. v \<noteq> w) (waitersOf i s)
        in setResult w (WaitRejected e)
             (s\<lparr>op_waiters := (if ws = [] then AList.delete i (op_waiters s) else AList.update i ws (op_waiters s))\<rparr>))"

definition enqueueOperationTerminalAck :: "string \<Rightarrow> cursor \<Rightarrow> op_state \<Rightarrow> op_state" where
  "enqueueOperationTerminalAck i c s =
     (if i = [] \<or> cu_epoch c = [] \<or> \<not> seq_positive c then s
      else s\<lparr>op_acks := AList.update i c (op_acks s)\<rparr>)"

text \<open>A batch is sent, and answered with the ids the server is done with, or fails.\<close>

definition flushOperationTerminalAcks :: "op_state \<Rightarrow> op_state" where
  "flushOperationTerminalAcks s =
     (if op_ackBatch s \<noteq> None \<or> op_acks s = [] then s
      else s\<lparr>op_ackBatch := Some (take operationTerminalAckLimit (op_acks s))\<rparr>)"

definition acksAnswered :: "string list \<Rightarrow> op_state \<Rightarrow> op_state" where
  "acksAnswered ids s =
     (case op_ackBatch s of
        None \<Rightarrow> s
      | Some batch \<Rightarrow>
          s\<lparr>op_ackBatch := None,
            op_acks := fold (\<lambda>(i, c) acks. if i \<in> set ids \<and> map_of acks i = Some c then AList.delete i acks else acks)
              batch (op_acks s)\<rparr>)"

definition acksFailed :: "op_state \<Rightarrow> op_state" where
  "acksFailed s = s\<lparr>op_ackBatch := None\<rparr>"

section \<open>Completion\<close>

definition putOpRecord :: "string \<Rightarrow> op_record \<Rightarrow> op_state \<Rightarrow> op_state" where
  "putOpRecord i r s = s\<lparr>op_records := AList.update i r (op_records s)\<rparr>"

text \<open>The terminal handler runs once, and only for a session generation that is still current.\<close>

definition completeApiOperationRecord :: "bool \<Rightarrow> string \<Rightarrow> terminal \<Rightarrow> op_state \<Rightarrow> op_state \<times> bool" where
  "completeApiOperationRecord tokenCurrent i t s =
     (case recordOf i s of
        None \<Rightarrow> (s, False)
      | Some r \<Rightarrow>
          if or_phase r \<noteq> OpAccepted \<or> \<not> apiOperationTerminalMatchesRecord r t then (s, False)
          else
            (enqueueOperationTerminalAck i (te_cursor t)
               (settleApiOperationWaiters i t
                 ((putOpRecord i
                     (r\<lparr>or_phase := OpTerminal, or_cursor := te_cursor t, or_source := None,
                        or_handled := (if tokenCurrent then or_handled r + 1 else or_handled r)\<rparr>) s)
                   \<lparr>op_pending := filter (\<lambda>j. j \<noteq> i) (op_pending s)\<rparr>)), True))"

text \<open>The replay memory keeps the newest terminals, and every one somebody still needs.\<close>

fun prune_keys :: "string list \<Rightarrow> op_state \<Rightarrow> op_state" where
  "prune_keys [] s = s"
| "prune_keys (i # is) s =
     (if length (op_terminals s) \<le> apiOperationReplayLimit then s
      else if i \<in> set (op_pending s) \<or> map_of (op_waiters s) i \<noteq> None then prune_keys is s
      else prune_keys is
        (s\<lparr>op_terminals := AList.delete i (op_terminals s),
           op_records := (case recordOf i s of
              Some r \<Rightarrow> if or_phase r = OpTerminal then AList.delete i (op_records s) else op_records s
            | None \<Rightarrow> op_records s)\<rparr>))"

definition pruneApiOperationReplay :: "op_state \<Rightarrow> op_state" where
  "pruneApiOperationReplay s = prune_keys (map fst (op_terminals s)) s"

definition applyApiOperationTerminal :: "bool \<Rightarrow> terminal \<Rightarrow> op_state \<Rightarrow> op_state \<times> bool" where
  "applyApiOperationTerminal tokenCurrent t s =
     (let i = te_id t; rec = recordOf i s in
      if i = [] \<or> te_result t = None then (s, False)
      else if (case rec of Some r \<Rightarrow> or_phase r \<noteq> OpAccepted \<or> \<not> apiOperationTerminalMatchesRecord r t | None \<Rightarrow> False)
      then (s, False)
      else if \<not> apiOperationTerminalIsNewer (terminalOf i s) t then (s, False)
      else
        let s1 = s\<lparr>op_terminals := AList.update i t (op_terminals s)\<rparr> in
        (case rec of
           None \<Rightarrow> (pruneApiOperationReplay s1, True)
         | Some r \<Rightarrow>
             let (s2, done) = completeApiOperationRecord tokenCurrent i t s1
             in (pruneApiOperationReplay s2, done)))"

section \<open>Replay streams\<close>

definition addRepair :: "string \<Rightarrow> op_state \<Rightarrow> op_state" where
  "addRepair i s = s\<lparr>op_repairs := (if i \<in> set (op_repairs s) then op_repairs s else op_repairs s @ [i])\<rparr>"

definition deleteRepair :: "string \<Rightarrow> op_state \<Rightarrow> op_state" where
  "deleteRepair i s = s\<lparr>op_repairs := filter (\<lambda>j. j \<noteq> i) (op_repairs s)\<rparr>"

text \<open>The oldest repairs are dropped beyond the limit.\<close>

definition trimRepairs :: "op_state \<Rightarrow> op_state" where
  "trimRepairs s =
     s\<lparr>op_repairs := drop (length (op_repairs s) - apiOperationReplayLimit) (op_repairs s)\<rparr>"

definition repairOperationTerminal :: "bool \<Rightarrow> bool \<Rightarrow> string \<Rightarrow> op_state \<Rightarrow> op_state" where
  "repairOperationTerminal pendingOnly opens i s =
     (if i = [] then s
      else (case recordOf i s of
        None \<Rightarrow> trimRepairs (addRepair i (deleteRepair i s))
      | Some r \<Rightarrow>
          if pendingOnly \<and> i \<notin> set (op_repairs s) then s
          else
            let s1 = deleteRepair i s in
            if or_phase r \<noteq> OpAccepted \<or> or_source r \<noteq> None \<or> or_eventsUrl r = [] then s1
            else if \<not> opens then addRepair i s1
            else putOpRecord i (r\<lparr>or_source := Some (op_sourceSerial s)\<rparr>) (s1\<lparr>op_sourceSerial := Suc (op_sourceSerial s)\<rparr>)))"

definition replayFailed :: "string \<Rightarrow> nat \<Rightarrow> op_state \<Rightarrow> op_state" where
  "replayFailed i source s =
     (case recordOf i s of
        None \<Rightarrow> s
      | Some r \<Rightarrow> if or_source r \<noteq> Some source \<or> or_phase r \<noteq> OpAccepted then s
                  else addRepair i (putOpRecord i (r\<lparr>or_source := None\<rparr>) s))"

definition retryPendingOperationTerminalRepairs :: "bool \<Rightarrow> op_state \<Rightarrow> op_state" where
  "retryPendingOperationTerminalRepairs opens s =
     fold (\<lambda>i s. case recordOf i s of
         Some r \<Rightarrow> if or_phase r = OpAccepted \<and> or_source r = None then repairOperationTerminal False opens i s else s
       | None \<Rightarrow> s) (op_repairs s) s"

section \<open>Receipts\<close>

definition registerApiOperationReceipt :: "bool \<Rightarrow> bool \<Rightarrow> receipt \<Rightarrow> op_state \<Rightarrow> op_state" where
  "registerApiOperationReceipt tokenCurrent opens rc s =
     (let i = rc_id rc in
      if i = [] \<or> recordOf i s \<noteq> None then s
      else
        let r = \<lparr>or_kind = rc_kind rc, or_operation = rc_operation rc, or_eventsUrl = rc_eventsUrl rc,
               or_cursor = rc_cursor rc, or_phase = OpAccepted, or_source = None, or_handled = 0\<rparr>;
            s1 = (putOpRecord i r s)\<lparr>op_pending := op_pending s @ [i]\<rparr>
        in (case terminalOf i s of
              Some t \<Rightarrow>
                if apiOperationTerminalMatchesRecord r t
                then pruneApiOperationReplay (fst (completeApiOperationRecord tokenCurrent i t
                       (deleteRepair i (s1\<lparr>op_terminals := AList.delete i (op_terminals s) @ [(i, t)]\<rparr>))))
                else repairOperationTerminal True opens i (s1\<lparr>op_terminals := AList.delete i (op_terminals s)\<rparr>)
            | None \<Rightarrow> repairOperationTerminal True opens i s1))"

text \<open>A caller waits for the result of a receipt. \<open>kind\<close> and \<open>operation\<close> are what it expects, empty
  when it expects nothing, and \<open>aborted\<close> is the state of its signal.\<close>

definition addWaiter :: "string \<Rightarrow> op_state \<Rightarrow> op_state" where
  "addWaiter i s =
     s\<lparr>op_waiters := AList.update i (waitersOf i s @ [op_waiterSerial s]) (op_waiters s),
       op_waiterSerial := Suc (op_waiterSerial s)\<rparr>"

definition settleNewWaiter :: "wait_result \<Rightarrow> op_state \<Rightarrow> op_state" where
  "settleNewWaiter v s = (setResult (op_waiterSerial s) v s)\<lparr>op_waiterSerial := Suc (op_waiterSerial s)\<rparr>"

definition waitForApiOperationResult ::
  "bool \<Rightarrow> bool \<Rightarrow> receipt \<Rightarrow> string \<Rightarrow> string \<Rightarrow> bool \<Rightarrow> op_state \<Rightarrow> op_state" where
  "waitForApiOperationResult tokenCurrent opens rc kind operation aborted s =
     (let i = rc_id rc; s1 = registerApiOperationReceipt tokenCurrent opens rc s in
      (case recordOf i s1 of
         None \<Rightarrow> settleNewWaiter (WaitRejected ''operation receipt is missing an id'') s1
       | Some r \<Rightarrow>
           if (kind \<noteq> [] \<and> or_kind r \<noteq> kind) \<or> (operation \<noteq> [] \<and> or_operation r \<noteq> operation)
           then settleNewWaiter (WaitRejected ''unexpected operation receipt'') s1
           else
             (case (or_phase r, terminalOf i s1) of
                (OpTerminal, Some t) \<Rightarrow> settleNewWaiter (apiOperationTerminalData t) s1
              | _ \<Rightarrow>
                  let s2 = addWaiter i s1 in
                  if aborted then detachApiOperationWaiter i (op_waiterSerial s1) ''aborted'' s2
                  else (case terminalOf i s2 of
                          Some t \<Rightarrow> if or_phase r = OpAccepted
                            then fst (completeApiOperationRecord tokenCurrent i t s2) else s2
                        | None \<Rightarrow> s2))))"

text \<open>The transport is disposed: running replay streams become repairs.\<close>

definition rememberReplay :: "string \<times> op_record \<Rightarrow> op_state \<Rightarrow> op_state" where
  "rememberReplay p s =
     (if or_phase (snd p) = OpAccepted \<and> or_source (snd p) \<noteq> None then addRepair (fst p) s else s)"

definition disposeOperationReplays :: "op_state \<Rightarrow> op_state" where
  "disposeOperationReplays s =
     (trimRepairs (fold rememberReplay (op_records s) s))
       \<lparr>op_records := map (\<lambda>(i, r). (i, r\<lparr>or_source := None\<rparr>)) (op_records s)\<rparr>"

inductive op_step :: "op_state \<Rightarrow> op_state \<Rightarrow> bool" where
  register: "op_step s (registerApiOperationReceipt tc opens rc s)"
| await: "op_step s (waitForApiOperationResult tc opens rc kind operation aborted s)"
| terminal: "op_step s (fst (applyApiOperationTerminal tc t s))"
| detach: "op_step s (detachApiOperationWaiter i w e s)"
| repair: "op_step s (repairOperationTerminal pendingOnly opens i s)"
| replay_failed: "op_step s (replayFailed i source s)"
| retry: "op_step s (retryPendingOperationTerminalRepairs opens s)"
| flush: "op_step s (flushOperationTerminalAcks s)"
| acked: "op_step s (acksAnswered ids s)"
| ack_failed: "op_step s (acksFailed s)"
| dispose: "op_step s (disposeOperationReplays s)"

inductive_cases op_stepE: "op_step s s'"

section \<open>The invariant\<close>

definition accepted :: "string \<Rightarrow> op_state \<Rightarrow> bool" where
  "accepted i s = (\<exists>r. recordOf i s = Some r \<and> or_phase r = OpAccepted)"

definition op_record_ok :: "op_record \<Rightarrow> bool" where
  "op_record_ok r = (case or_phase r of OpAccepted \<Rightarrow> or_handled r = 0 | OpTerminal \<Rightarrow> or_handled r \<le> 1)"

definition keys_ok :: "op_state \<Rightarrow> bool" where
  "keys_ok s = (distinct (map fst (op_records s)) \<and> distinct (map fst (op_terminals s)) \<and> distinct (map fst (op_waiters s)))"

text \<open>\<open>X\<close> names the operations in the middle of their completion.\<close>

definition tables_ok :: "string set \<Rightarrow> op_state \<Rightarrow> bool" where
  "tables_ok X s =
     ((\<forall>i. i \<in> set (op_pending s) \<longleftrightarrow> accepted i s)
      \<and> (\<forall>i. i \<notin> X \<longrightarrow> accepted i s \<longrightarrow> terminalOf i s = None)
      \<and> (\<forall>i r. recordOf i s = Some r \<longrightarrow> op_record_ok r \<and> (or_phase r = OpTerminal \<longrightarrow> terminalOf i s \<noteq> None))
      \<and> (\<forall>i ws. map_of (op_waiters s) i = Some ws \<longrightarrow> accepted i s \<and> ws \<noteq> []))"

lemma tables_okI:
  assumes "\<And>i. i \<in> set (op_pending s) \<longleftrightarrow> accepted i s"
    and "\<And>i. i \<notin> X \<Longrightarrow> accepted i s \<Longrightarrow> terminalOf i s = None"
    and "\<And>i r. recordOf i s = Some r \<Longrightarrow> op_record_ok r"
    and "\<And>i r. recordOf i s = Some r \<Longrightarrow> or_phase r = OpTerminal \<Longrightarrow> terminalOf i s \<noteq> None"
    and "\<And>i ws. map_of (op_waiters s) i = Some ws \<Longrightarrow> accepted i s \<and> ws \<noteq> []"
  shows "tables_ok X s"
  using assms unfolding tables_ok_def by blast

lemma tables_okD:
  assumes "tables_ok X s"
  shows "i \<in> set (op_pending s) \<longleftrightarrow> accepted i s"
    and "i \<notin> X \<Longrightarrow> accepted i s \<Longrightarrow> terminalOf i s = None"
    and "recordOf i s = Some r \<Longrightarrow> op_record_ok r"
    and "recordOf i s = Some r \<Longrightarrow> or_phase r = OpTerminal \<Longrightarrow> terminalOf i s \<noteq> None"
    and "map_of (op_waiters s) i = Some ws \<Longrightarrow> accepted i s \<and> ws \<noteq> []"
  using assms unfolding tables_ok_def by blast+

definition all_waiters :: "op_state \<Rightarrow> nat list" where
  "all_waiters s = concat (map snd (op_waiters s))"

definition waiters_ok :: "op_state \<Rightarrow> bool" where
  "waiters_ok s = (mset (all_waiters s) + mset (map fst (op_results s)) = mset [0..<op_waiterSerial s])"

definition op_ok :: "op_state \<Rightarrow> bool" where
  "op_ok s = (keys_ok s \<and> tables_ok {} s \<and> waiters_ok s \<and> length (op_terminals s) \<le> apiOperationReplayLimit)"

lemma op_init_ok: "op_ok op_init"
  by (simp add: op_ok_def keys_ok_def tables_ok_def waiters_ok_def all_waiters_def op_init_def accepted_def recordOf_def)

subsection \<open>Waiter numbers\<close>

definition listed :: "nat list option \<Rightarrow> nat list" where
  "listed m = (case m of Some ws \<Rightarrow> ws | None \<Rightarrow> [])"

lemma waitersOf_listed: "waitersOf i s = listed (map_of (op_waiters s) i)"
  by (simp add: waitersOf_def listed_def)

lemma waiting_delete:
  "distinct (map fst al) \<Longrightarrow>
   mset (concat (map snd al)) = mset (listed (map_of al k)) + mset (concat (map snd (AList.delete k al)))"
proof (induction al)
  case (Cons p al)
  then show ?case
    by (cases p; cases "fst p = k") (auto simp: listed_def delete_absent)
qed (simp add: listed_def)

lemma waiting_update:
  "distinct (map fst al) \<Longrightarrow>
   mset (concat (map snd (AList.update k ws al))) = mset ws + mset (concat (map snd (AList.delete k al)))"
proof (induction al)
  case (Cons p al)
  then show ?case by (cases p; cases "fst p = k") (auto simp: delete_absent)
qed simp

lemma fold_setResult: "fold (\<lambda>w. setResult w v) ws s = s\<lparr>op_results := op_results s @ map (\<lambda>w. (w, v)) ws\<rparr>"
  by (induction ws arbitrary: s) (simp_all add: setResult_def)

lemma settle_eq:
  "settleApiOperationWaiters i t s =
     s\<lparr>op_waiters := AList.delete i (op_waiters s),
       op_results := op_results s @ map (\<lambda>w. (w, apiOperationTerminalData t)) (waitersOf i s)\<rparr>"
  by (simp add: settleApiOperationWaiters_def fold_setResult)

lemma waiters_ok_settle: "keys_ok s \<Longrightarrow> waiters_ok s \<Longrightarrow> waiters_ok (settleApiOperationWaiters i t s)"
  using waiting_delete [of "op_waiters s" i]
  by (simp add: waiters_ok_def settle_eq all_waiters_def keys_ok_def waitersOf_listed o_def ac_simps)

lemma waiters_ok_settleNew: "waiters_ok s \<Longrightarrow> waiters_ok (settleNewWaiter v s)"
  by (simp add: waiters_ok_def settleNewWaiter_def setResult_def all_waiters_def)

lemma waiters_ok_add: "keys_ok s \<Longrightarrow> waiters_ok s \<Longrightarrow> waiters_ok (addWaiter i s)"
  using waiting_delete [of "op_waiters s" i]
  by (simp add: waiters_ok_def addWaiter_def all_waiters_def keys_ok_def waitersOf_listed waiting_update)

lemma waiters_ok_congI:
  "op_waiters s' = op_waiters s \<Longrightarrow> op_results s' = op_results s \<Longrightarrow> op_waiterSerial s' = op_waiterSerial s
   \<Longrightarrow> waiters_ok s' = waiters_ok s"
  by (simp add: waiters_ok_def all_waiters_def)

lemma waiters_ok_distinct:
  assumes "waiters_ok s"
  shows "distinct (all_waiters s)" "distinct (map fst (op_results s))"
    and "set (all_waiters s) \<union> set (map fst (op_results s)) = {..<op_waiterSerial s}"
    and "set (all_waiters s) \<inter> set (map fst (op_results s)) = {}"
proof -
  have e: "mset (all_waiters s @ map fst (op_results s)) = mset [0..<op_waiterSerial s]"
    using assms by (simp add: waiters_ok_def)
  have d: "distinct (all_waiters s @ map fst (op_results s))"
    using e by (metis distinct_upt mset_eq_imp_distinct_iff)
  have "set (all_waiters s @ map fst (op_results s)) = {..<op_waiterSerial s}"
    using arg_cong [OF e, of set_mset] by auto
  then show "set (all_waiters s) \<union> set (map fst (op_results s)) = {..<op_waiterSerial s}" by simp
  show "distinct (all_waiters s)" "distinct (map fst (op_results s))" "set (all_waiters s) \<inter> set (map fst (op_results s)) = {}"
    using d by simp_all
qed

lemma remove_waiter: "w \<in> set ws \<Longrightarrow> distinct ws \<Longrightarrow> mset ws = add_mset w (mset (filter (\<lambda>v. v \<noteq> w) ws))"
proof (induction ws)
  case (Cons v ws)
  have "w \<notin> set ws \<Longrightarrow> filter (\<lambda>v. v \<noteq> w) ws = ws" by (simp add: filter_id_conv) blast
  with Cons show ?case by (auto simp del: mset_filter)
qed simp

lemma waitersOf_distinct: "waiters_ok s \<Longrightarrow> distinct (waitersOf i s)"
  using waiters_ok_distinct(1) [of s]
  by (auto simp: all_waiters_def waitersOf_def distinct_concat_iff dest!: map_of_SomeD split: option.split)

lemma waiters_ok_detach:
  assumes "keys_ok s" "waiters_ok s"
  shows "waiters_ok (detachApiOperationWaiter i w e s)"
proof (cases "w \<in> set (waitersOf i s)")
  case True
  define fs where "fs = filter (\<lambda>v. v \<noteq> w) (waitersOf i s)"
  have "mset (waitersOf i s) = add_mset w (mset fs)"
    using remove_waiter [OF True waitersOf_distinct [OF assms(2)]] by (simp add: fs_def)
  then have w: "mset (concat (map snd (op_waiters s)))
      = add_mset w (mset fs + mset (concat (map snd (AList.delete i (op_waiters s)))))"
    using waiting_delete [of "op_waiters s" i] assms by (simp add: keys_ok_def waitersOf_listed)
  show ?thesis using True w assms
    by (cases "fs = []")
      (simp_all add: waiters_ok_def detachApiOperationWaiter_def fs_def [symmetric] setResult_def all_waiters_def keys_ok_def waiting_update)
qed (use assms in \<open>simp add: detachApiOperationWaiter_def\<close>)

subsection \<open>Completion and pruning\<close>

definition sound :: "string set \<Rightarrow> op_state \<Rightarrow> bool" where
  "sound X s = (keys_ok s \<and> tables_ok X s \<and> waiters_ok s)"

lemma op_ok_sound: "op_ok s \<longleftrightarrow> sound {} s \<and> length (op_terminals s) \<le> apiOperationReplayLimit"
  by (auto simp: op_ok_def sound_def)

lemma recordOf_put [simp]: "recordOf j (putOpRecord i r s) = (if j = i then Some r else recordOf j s)"
  by (simp add: recordOf_def putOpRecord_def)

lemma putOpRecord_frame [simp]:
  "op_pending (putOpRecord i r s) = op_pending s" "op_terminals (putOpRecord i r s) = op_terminals s"
  "op_waiters (putOpRecord i r s) = op_waiters s" "op_results (putOpRecord i r s) = op_results s"
  "op_waiterSerial (putOpRecord i r s) = op_waiterSerial s" "op_repairs (putOpRecord i r s) = op_repairs s"
  "op_acks (putOpRecord i r s) = op_acks s"
  by (simp_all add: putOpRecord_def)

lemma keys_ok_put: "keys_ok s \<Longrightarrow> keys_ok (putOpRecord i r s)"
  by (simp add: keys_ok_def putOpRecord_def distinct_update)

lemma ack_frame [simp]:
  "recordOf j (enqueueOperationTerminalAck i c s) = recordOf j s" "terminalOf j (enqueueOperationTerminalAck i c s) = terminalOf j s"
  "op_pending (enqueueOperationTerminalAck i c s) = op_pending s" "op_terminals (enqueueOperationTerminalAck i c s) = op_terminals s"
  "op_waiters (enqueueOperationTerminalAck i c s) = op_waiters s" "op_records (enqueueOperationTerminalAck i c s) = op_records s"
  "op_results (enqueueOperationTerminalAck i c s) = op_results s"
  "op_waiterSerial (enqueueOperationTerminalAck i c s) = op_waiterSerial s"
  by (simp_all add: enqueueOperationTerminalAck_def recordOf_def terminalOf_def)

lemma sound_frame:
  "op_records s' = op_records s \<Longrightarrow> op_pending s' = op_pending s \<Longrightarrow> op_terminals s' = op_terminals s
   \<Longrightarrow> op_waiters s' = op_waiters s \<Longrightarrow> op_results s' = op_results s \<Longrightarrow> op_waiterSerial s' = op_waiterSerial s
   \<Longrightarrow> sound X s' = sound X s"
  by (simp add: sound_def keys_ok_def tables_ok_def waiters_ok_def all_waiters_def accepted_def recordOf_def terminalOf_def)

lemma sound_ack [simp]: "sound X (enqueueOperationTerminalAck i c s) = sound X s"
  by (rule sound_frame) simp_all

definition completed :: "bool \<Rightarrow> terminal \<Rightarrow> op_record \<Rightarrow> op_record" where
  "completed tc t r = r\<lparr>or_phase := OpTerminal, or_cursor := te_cursor t, or_source := None,
     or_handled := (if tc then or_handled r + 1 else or_handled r)\<rparr>"

lemma completed_phase [simp]: "or_phase (completed tc t r) = OpTerminal"
  by (simp add: completed_def)

lemma complete_eq:
  "recordOf i s = Some r \<Longrightarrow> or_phase r = OpAccepted \<Longrightarrow> apiOperationTerminalMatchesRecord r t \<Longrightarrow>
   completeApiOperationRecord tc i t s =
     (enqueueOperationTerminalAck i (te_cursor t) (settleApiOperationWaiters i t
        ((putOpRecord i (completed tc t r) s)\<lparr>op_pending := filter (\<lambda>j. j \<noteq> i) (op_pending s)\<rparr>)), True)"
  by (simp add: completeApiOperationRecord_def completed_def)

lemma complete_frame [simp]: "op_terminals (fst (completeApiOperationRecord tc i t s)) = op_terminals s"
  by (simp add: completeApiOperationRecord_def settle_eq putOpRecord_def split: option.split)

lemma complete_ok:
  assumes "sound {i} s" "recordOf i s = Some r" "or_phase r = OpAccepted" "apiOperationTerminalMatchesRecord r u"
    and "terminalOf i s \<noteq> None"
  shows "sound {} (fst (completeApiOperationRecord tc i u s))"
proof -
  let ?s1 = "(putOpRecord i (completed tc u r) s)\<lparr>op_pending := filter (\<lambda>j. j \<noteq> i) (op_pending s)\<rparr>"
  let ?s2 = "settleApiOperationWaiters i u ?s1"
  have k: "keys_ok ?s1" using keys_ok_put [of s] assms(1) by (simp add: sound_def keys_ok_def)
  have "waiters_ok ?s1" using assms(1) by (simp add: sound_def waiters_ok_def all_waiters_def)
  then have w: "waiters_ok ?s2" by (rule waiters_ok_settle [OF k])
  have kk: "keys_ok ?s2" using k by (simp add: settle_eq keys_ok_def distinct_delete)
  have ok: "op_record_ok r" using assms by (simp add: sound_def tables_ok_def)
  have rec: "recordOf j ?s2 = (if j = i then Some (completed tc u r) else recordOf j s)" for j
    by (simp add: settle_eq recordOf_def putOpRecord_def)
  have ter: "terminalOf j ?s2 = terminalOf j s" for j
    by (simp add: settle_eq terminalOf_def)
  have acc: "accepted j ?s2 \<longleftrightarrow> accepted j s \<and> j \<noteq> i" for j
    by (auto simp: accepted_def rec)
  have pen: "op_pending ?s2 = filter (\<lambda>j. j \<noteq> i) (op_pending s)" by (simp add: settle_eq)
  have wai: "map_of (op_waiters ?s2) = (map_of (op_waiters s))(i := None)" by (simp add: settle_eq)
  have "op_record_ok (completed tc u r)" using ok assms(3) by (simp add: op_record_ok_def completed_def)
  have t: "tables_ok {i} s" using assms(1) by (simp add: sound_def)
  have "tables_ok {} ?s2"
  proof (rule tables_okI)
    fix j show "j \<in> set (op_pending ?s2) \<longleftrightarrow> accepted j ?s2"
      unfolding acc pen using tables_okD(1) [OF t, of j] by simp
    show "accepted j ?s2 \<Longrightarrow> terminalOf j ?s2 = None"
      unfolding acc ter using tables_okD(2) [OF t, of j] by blast
    fix r' assume r': "recordOf j ?s2 = Some r'"
    show "op_record_ok r'"
      using r' tables_okD(3) [OF t, of j r'] \<open>op_record_ok (completed tc u r)\<close> unfolding rec by (simp split: if_splits)
    show "or_phase r' = OpTerminal \<Longrightarrow> terminalOf j ?s2 \<noteq> None"
      using r' tables_okD(4) [OF t, of j r'] assms(5) unfolding rec ter by (simp split: if_splits)
  next
    fix j ws assume "map_of (op_waiters ?s2) j = Some ws"
    then have "map_of (op_waiters s) j = Some ws" "j \<noteq> i" unfolding wai by (simp_all split: if_splits)
    then show "accepted j ?s2 \<and> ws \<noteq> []" unfolding acc using tables_okD(5) [OF t, of j ws] by blast
  qed
  with w kk have "sound {} ?s2" by (simp add: sound_def)
  then show ?thesis by (simp add: complete_eq [OF assms(2,3,4)])
qed

lemma length_delete: "distinct (map fst al) \<Longrightarrow> k \<in> fst ` set al \<Longrightarrow> length (AList.delete k al) = length al - 1"
proof (induction al)
  case (Cons p al)
  then show ?case by (cases "fst p = k"; cases al) (auto simp: delete_absent)
qed simp

definition forget :: "string \<Rightarrow> op_state \<Rightarrow> op_state" where
  "forget i s = s\<lparr>op_terminals := AList.delete i (op_terminals s),
     op_records := (case recordOf i s of
        Some r \<Rightarrow> if or_phase r = OpTerminal then AList.delete i (op_records s) else op_records s
      | None \<Rightarrow> op_records s)\<rparr>"

lemma forget_lookup:
  "terminalOf j (forget i s) = (if j = i then None else terminalOf j s)"
  "recordOf j (forget i s) = (if j = i \<and> \<not> accepted i s then None else recordOf j s)"
  "accepted j (forget i s) = accepted j s"
  by (auto simp: forget_def terminalOf_def recordOf_def accepted_def split: option.split op_phase.split)
    (metis op_phase.exhaust)+

lemma prune_keys_forget:
  "prune_keys (i # is) s =
     (if length (op_terminals s) \<le> apiOperationReplayLimit then s
      else if i \<in> set (op_pending s) \<or> map_of (op_waiters s) i \<noteq> None then prune_keys is s
      else prune_keys is (forget i s))"
  by (simp add: forget_def)

lemma forget_frame [simp]:
  "op_pending (forget i s) = op_pending s" "op_waiters (forget i s) = op_waiters s"
  "op_results (forget i s) = op_results s" "op_waiterSerial (forget i s) = op_waiterSerial s"
  "op_terminals (forget i s) = AList.delete i (op_terminals s)"
  by (simp_all add: forget_def)

lemma forget_ok:
  assumes "sound X s"
  shows "sound X (forget i s)"
proof -
  have k: "keys_ok s" and t: "tables_ok X s" and w: "waiters_ok s" using assms by (simp_all add: sound_def)
  have "keys_ok (forget i s)" using k by (auto simp: keys_ok_def forget_def distinct_delete split: option.split)
  moreover have "waiters_ok (forget i s)" using w by (simp add: waiters_ok_def all_waiters_def)
  moreover have "tables_ok X (forget i s)"
  proof (rule tables_okI)
    fix j r assume r: "recordOf j (forget i s) = Some r" "or_phase r = OpTerminal"
    then have "recordOf j s = Some r" "j \<noteq> i" by (auto simp: forget_lookup accepted_def split: if_splits)
    with r(2) show "terminalOf j (forget i s) \<noteq> None" using tables_okD(4) [OF t, of j r] by (simp add: forget_lookup)
  qed (use tables_okD [OF t] in \<open>auto simp: forget_lookup split: if_splits\<close>)
  ultimately show ?thesis by (simp add: sound_def)
qed

lemma prune_keys_ok: "sound X s \<Longrightarrow> sound X (prune_keys is s)"
proof (induction "is" arbitrary: s)
  case (Cons i "is")
  then show ?case unfolding prune_keys_forget using Cons.IH [OF forget_ok [OF Cons.prems, of i]] Cons.IH [OF Cons.prems] by simp
qed simp

text \<open>With no completion under way every remembered terminal may be forgotten.\<close>

lemma terminal_prunable:
  assumes "sound {} s" "i \<in> fst ` set (op_terminals s)"
  shows "i \<notin> set (op_pending s)" "map_of (op_waiters s) i = None"
proof -
  have t: "tables_ok {} s" using assms(1) by (simp add: sound_def)
  have "terminalOf i s \<noteq> None" using assms(2) by (simp add: terminalOf_def map_of_eq_None_iff)
  then have a: "\<not> accepted i s" using tables_okD(2) [OF t, of i] by auto
  then show "i \<notin> set (op_pending s)" using tables_okD(1) [OF t, of i] by simp
  show "map_of (op_waiters s) i = None" using a tables_okD(5) [OF t, of i] by (cases "map_of (op_waiters s) i") blast+
qed

lemma prune_keys_length:
  "sound {} s \<Longrightarrow> distinct is \<Longrightarrow> set is \<subseteq> fst ` set (op_terminals s) \<Longrightarrow>
   length (op_terminals (prune_keys is s)) \<le> max apiOperationReplayLimit (length (op_terminals s) - length is)"
proof (induction "is" arbitrary: s)
  case (Cons i "is")
  have i: "i \<notin> set (op_pending s)" "map_of (op_waiters s) i = None" using terminal_prunable [OF Cons.prems(1)] Cons.prems(3) by auto
  have d: "distinct (map fst (op_terminals s))" using Cons.prems(1) by (simp add: sound_def keys_ok_def)
  have l: "length (AList.delete i (op_terminals s)) = length (op_terminals s) - 1"
    using length_delete [OF d] Cons.prems(3) by simp
  have "fst ` set (op_terminals (forget i s)) = fst ` set (op_terminals s) - {i}"
    using arg_cong [OF delete_keys [of i "op_terminals s"], of set] by simp
  then have "set is \<subseteq> fst ` set (op_terminals (forget i s))" using Cons.prems by auto
  from Cons.IH [OF forget_ok [OF Cons.prems(1)] _ this] Cons.prems(2) show ?case
    unfolding prune_keys_forget using i by (simp add: l)
qed simp

lemma op_prune_ok: "sound {} s \<Longrightarrow> op_ok (pruneApiOperationReplay s)"
  using prune_keys_ok [of "{}" s] prune_keys_length [of s "map fst (op_terminals s)"]
  by (simp add: op_ok_sound pruneApiOperationReplay_def sound_def keys_ok_def)

text \<open>Pruning starts with the oldest terminal, so the newest one stays while the limit is not exceeded by more than one.\<close>

lemma prune_keys_short: "length (op_terminals s) \<le> apiOperationReplayLimit \<Longrightarrow> prune_keys is s = s"
  by (cases "is") simp_all

lemma prune_at_most_oldest:
  assumes "sound {} s" "length (op_terminals s) \<le> Suc apiOperationReplayLimit"
  shows "pruneApiOperationReplay s =
    (if length (op_terminals s) \<le> apiOperationReplayLimit then s else forget (fst (hd (op_terminals s))) s)"
proof (cases "op_terminals s")
  case (Cons p ts)
  have d: "distinct (map fst (op_terminals s))" using assms(1) by (simp add: sound_def keys_ok_def)
  have i: "fst p \<notin> set (op_pending s)" "map_of (op_waiters s) (fst p) = None"
    using terminal_prunable [OF assms(1), of "fst p"] Cons by simp_all
  have "length (op_terminals (forget (fst p) s)) \<le> apiOperationReplayLimit"
    using length_delete [OF d, of "fst p"] Cons assms(2) by simp
  then have "prune_keys is (forget (fst p) s) = forget (fst p) s" for "is" by (rule prune_keys_short)
  moreover have "pruneApiOperationReplay s = prune_keys (fst p # map fst ts) s"
    by (simp add: pruneApiOperationReplay_def Cons)
  ultimately show ?thesis unfolding prune_keys_forget using i Cons by simp
qed (simp add: pruneApiOperationReplay_def)

subsection \<open>The operations keep the invariant\<close>

lemma op_ok_frame:
  "op_records s' = op_records s \<Longrightarrow> op_pending s' = op_pending s \<Longrightarrow> op_terminals s' = op_terminals s
   \<Longrightarrow> op_waiters s' = op_waiters s \<Longrightarrow> op_results s' = op_results s \<Longrightarrow> op_waiterSerial s' = op_waiterSerial s
   \<Longrightarrow> op_ok s' \<longleftrightarrow> op_ok s"
  using sound_frame [of s' s] by (simp add: op_ok_sound)

lemma tables_okD_accepted: "tables_ok X s \<Longrightarrow> recordOf i s = None \<Longrightarrow> i \<notin> set (op_pending s)"
  using tables_okD(1) [of X s i] by (simp add: accepted_def)

text \<open>A record may change what the invariant does not see.\<close>

lemma sound_put:
  assumes "sound X s" "recordOf i s = Some r" "or_phase r' = or_phase r" "or_handled r' = or_handled r"
  shows "sound X (putOpRecord i r' s)"
proof -
  have t: "tables_ok X s" and k: "keys_ok s" and w: "waiters_ok s" using assms(1) by (simp_all add: sound_def)
  have a: "accepted j (putOpRecord i r' s) = accepted j s" for j using assms(2,3) by (simp add: accepted_def)
  have ter: "terminalOf j (putOpRecord i r' s) = terminalOf j s" for j by (simp add: terminalOf_def)
  have "tables_ok X (putOpRecord i r' s)"
  proof (rule tables_okI)
    fix j q assume q: "recordOf j (putOpRecord i r' s) = Some q"
    show "op_record_ok q" using q tables_okD(3) [OF t, of j q] tables_okD(3) [OF t assms(2)] assms(3,4)
      by (auto simp: op_record_ok_def split: if_splits op_phase.splits)
    show "or_phase q = OpTerminal \<Longrightarrow> terminalOf j (putOpRecord i r' s) \<noteq> None"
      using q tables_okD(4) [OF t, of j q] tables_okD(4) [OF t assms(2)] assms(3) by (auto simp: ter split: if_splits)
  next
    fix j show "j \<in> set (op_pending (putOpRecord i r' s)) \<longleftrightarrow> accepted j (putOpRecord i r' s)"
      using tables_okD(1) [OF t, of j] by (simp add: a)
    show "j \<notin> X \<Longrightarrow> accepted j (putOpRecord i r' s) \<Longrightarrow> terminalOf j (putOpRecord i r' s) = None"
      using tables_okD(2) [OF t, of j] by (simp add: a ter)
    fix ws show "map_of (op_waiters (putOpRecord i r' s)) j = Some ws \<Longrightarrow> accepted j (putOpRecord i r' s) \<and> ws \<noteq> []"
      using tables_okD(5) [OF t, of j ws] by (simp add: a)
  qed
  with keys_ok_put [OF k] w show ?thesis by (simp add: sound_def waiters_ok_def all_waiters_def)
qed

lemma op_ok_put:
  "op_ok s \<Longrightarrow> recordOf i s = Some r \<Longrightarrow> or_phase r' = or_phase r \<Longrightarrow> or_handled r' = or_handled r \<Longrightarrow> op_ok (putOpRecord i r' s)"
  by (simp add: op_ok_sound sound_put)

lemma waiters_ok_frame:
  "op_waiters s' = op_waiters s \<Longrightarrow> op_results s' = op_results s \<Longrightarrow> op_waiterSerial s' = op_waiterSerial s
   \<Longrightarrow> waiters_ok s' = waiters_ok s"
  by (simp add: waiters_ok_def all_waiters_def)

text \<open>A terminal may be stored for an operation that is about to be completed, or has no record.\<close>

lemma sound_terminal:
  assumes "sound {} s" "op_terminals s' = AList.update i t (op_terminals s)" "op_records s' = op_records s"
    and "op_pending s' = op_pending s" "op_waiters s' = op_waiters s" "op_results s' = op_results s"
    and "op_waiterSerial s' = op_waiterSerial s"
  shows "sound {i} s'" "\<not> accepted i s \<Longrightarrow> sound {} s'"
proof -
  have t: "tables_ok {} s" and k: "keys_ok s" and w: "waiters_ok s" using assms(1) by (simp_all add: sound_def)
  have k': "keys_ok s'" using k assms by (simp add: keys_ok_def distinct_update)
  have w': "waiters_ok s'" using w waiters_ok_frame assms by blast
  have a: "accepted j s' = accepted j s" and r: "recordOf j s' = recordOf j s" for j
    using assms by (simp_all add: accepted_def recordOf_def)
  have e: "terminalOf j s' = (if j = i then Some t else terminalOf j s)" for j
    using assms by (simp add: terminalOf_def)
  have gen: "tables_ok X s'" if "\<forall>j. j \<notin> X \<longrightarrow> accepted j s \<longrightarrow> j \<noteq> i" for X
  proof (rule tables_okI)
    fix j show "j \<in> set (op_pending s') \<longleftrightarrow> accepted j s'" using tables_okD(1) [OF t, of j] assms a by simp
    show "j \<notin> X \<Longrightarrow> accepted j s' \<Longrightarrow> terminalOf j s' = None" using that tables_okD(2) [OF t, of j] by (simp add: a e)
    fix q show "recordOf j s' = Some q \<Longrightarrow> op_record_ok q" using tables_okD(3) [OF t, of j q] by (simp add: r)
    show "recordOf j s' = Some q \<Longrightarrow> or_phase q = OpTerminal \<Longrightarrow> terminalOf j s' \<noteq> None"
      using tables_okD(4) [OF t, of j q] by (simp add: r e)
    fix ws show "map_of (op_waiters s') j = Some ws \<Longrightarrow> accepted j s' \<and> ws \<noteq> []"
      using tables_okD(5) [OF t, of j ws] assms a by simp
  qed
  show "sound {i} s'" using gen [of "{i}"] k' w' by (simp add: sound_def)
  show "sound {} s'" if "\<not> accepted i s" using gen [of "{}"] that k' w' by (auto simp: sound_def)
qed

lemma apply_ok: "op_ok s \<Longrightarrow> op_ok (fst (applyApiOperationTerminal tc t s))"
proof -
  assume ok: "op_ok s"
  let ?i = "te_id t" and ?s1 = "s\<lparr>op_terminals := AList.update (te_id t) t (op_terminals s)\<rparr>"
  have s: "sound {} s" using ok by (simp add: op_ok_sound)
  have a: "sound {?i} ?s1" by (rule sound_terminal(1) [OF s]) simp_all
  have n: "op_ok (pruneApiOperationReplay ?s1)" if "recordOf ?i s = None"
    by (rule op_prune_ok, rule sound_terminal(2) [OF s, where i = ?i and t = t]) (simp_all add: accepted_def that)
  have c: "op_ok (pruneApiOperationReplay (fst (completeApiOperationRecord tc ?i t ?s1)))"
    if "recordOf ?i s = Some r" "or_phase r = OpAccepted" "apiOperationTerminalMatchesRecord r t" for r
    by (rule op_prune_ok, rule complete_ok [OF a]) (use that in \<open>simp_all add: recordOf_def terminalOf_def\<close>)
  show ?thesis
    using ok n c
    by (auto simp: applyApiOperationTerminal_def Let_def case_prod_beta split: option.splits)
qed

lemma op_ok_repairs [simp]: "op_ok (op_repairs_update f s) = op_ok s"
  by (rule op_ok_frame) simp_all

lemma sound_repairs [simp]: "sound X (op_repairs_update f s) = sound X s"
  by (rule sound_frame) simp_all

lemma op_ok_sourceSerial [simp]: "op_ok (op_sourceSerial_update f s) = op_ok s"
  by (rule op_ok_frame) simp_all

lemma lookup_frame [simp]:
  "recordOf i (op_repairs_update f s) = recordOf i s" "recordOf i (op_sourceSerial_update g s) = recordOf i s"
  "terminalOf i (op_repairs_update f s) = terminalOf i s" "waitersOf i (op_repairs_update f s) = waitersOf i s"
  "waitersOf i (op_sourceSerial_update g s) = waitersOf i s" "waitersOf i (putOpRecord j r s) = waitersOf i s"
  by (simp_all add: recordOf_def terminalOf_def waitersOf_def)

lemmas repair_defs = addRepair_def deleteRepair_def trimRepairs_def

lemma repair_ok: "op_ok s \<Longrightarrow> op_ok (repairOperationTerminal pendingOnly opens i s)"
  by (auto simp: repairOperationTerminal_def repair_defs Let_def split: option.split intro: op_ok_put)

lemma replayFailed_ok: "op_ok s \<Longrightarrow> op_ok (replayFailed i source s)"
  by (auto simp: replayFailed_def repair_defs split: option.split intro: op_ok_put)

lemma fold_keeps: "(\<And>x s. P s \<Longrightarrow> P (f x s)) \<Longrightarrow> P s \<Longrightarrow> P (fold f xs s)"
  by (induction xs arbitrary: s) simp_all

lemma retry_ok: "op_ok s \<Longrightarrow> op_ok (retryPendingOperationTerminalRepairs opens s)"
  unfolding retryPendingOperationTerminalRepairs_def by (rule fold_keeps) (auto intro: repair_ok split: option.split)

lemma remember_frame:
  "op_pending (fold rememberReplay xs s) = op_pending s" "op_terminals (fold rememberReplay xs s) = op_terminals s"
  "op_waiters (fold rememberReplay xs s) = op_waiters s" "op_results (fold rememberReplay xs s) = op_results s"
  "op_waiterSerial (fold rememberReplay xs s) = op_waiterSerial s"
  by (induction xs arbitrary: s) (simp_all add: rememberReplay_def addRepair_def)

text \<open>Dropping the sources of all records changes nothing the invariant sees.\<close>

lemma map_of_sources: "map_of (map (\<lambda>(i, r). (i, r\<lparr>or_source := None\<rparr>)) al) i = map_option (\<lambda>r. r\<lparr>or_source := None\<rparr>) (map_of al i)"
  by (induction al) auto

lemma dispose_ok:
  assumes "op_ok s"
  shows "op_ok (disposeOperationReplays s)" "op_results (disposeOperationReplays s) = op_results s"
proof -
  let ?s = "disposeOperationReplays s"
  have f: "op_pending ?s = op_pending s" "op_terminals ?s = op_terminals s" "op_waiters ?s = op_waiters s" "op_results ?s = op_results s"
    "op_waiterSerial ?s = op_waiterSerial s" "op_records ?s = map (\<lambda>(i, r). (i, r\<lparr>or_source := None\<rparr>)) (op_records s)"
    by (simp_all add: disposeOperationReplays_def remember_frame trimRepairs_def)
  have r: "recordOf i ?s = map_option (\<lambda>r. r\<lparr>or_source := None\<rparr>) (recordOf i s)" for i
    by (simp add: recordOf_def f map_of_sources)
  have a: "accepted i ?s = accepted i s" and e: "terminalOf i ?s = terminalOf i s" for i
    by (auto simp: accepted_def r terminalOf_def f)
  have t: "tables_ok {} s" and k: "keys_ok s" and w: "waiters_ok s" and l: "length (op_terminals s) \<le> apiOperationReplayLimit"
    using assms by (simp_all add: op_ok_def)
  have "tables_ok {} ?s"
  proof (rule tables_okI)
    fix i q assume q: "recordOf i ?s = Some q"
    then obtain q' where q': "recordOf i s = Some q'" "q = q'\<lparr>or_source := None\<rparr>" by (auto simp: r)
    show "op_record_ok q" using tables_okD(3) [OF t q'(1)] by (simp add: q'(2) op_record_ok_def split: op_phase.splits)
    show "or_phase q = OpTerminal \<Longrightarrow> terminalOf i ?s \<noteq> None" using tables_okD(4) [OF t q'(1)] by (simp add: q'(2) e)
  next
    fix i show "i \<in> set (op_pending ?s) \<longleftrightarrow> accepted i ?s" using tables_okD(1) [OF t, of i] by (simp add: f a)
    show "i \<notin> {} \<Longrightarrow> accepted i ?s \<Longrightarrow> terminalOf i ?s = None" using tables_okD(2) [OF t, of i] by (simp add: a e)
    fix ws show "map_of (op_waiters ?s) i = Some ws \<Longrightarrow> accepted i ?s \<and> ws \<noteq> []"
      using tables_okD(5) [OF t, of i ws] by (simp add: f a)
  qed
  moreover have "keys_ok ?s" using k by (simp add: keys_ok_def f case_prod_beta o_def)
  moreover have "waiters_ok ?s" using w by (simp add: waiters_ok_def all_waiters_def f)
  ultimately show "op_ok ?s" using l by (simp add: op_ok_def f)
  show "op_results ?s = op_results s" by (rule f(4))
qed

lemma flush_ok: "op_ok s \<Longrightarrow> op_ok (flushOperationTerminalAcks s)"
  by (subst op_ok_frame) (simp_all add: flushOperationTerminalAcks_def)

lemma acks_ok: "op_ok s \<Longrightarrow> op_ok (acksAnswered ids s)" "op_ok s \<Longrightarrow> op_ok (acksFailed s)"
  by (subst op_ok_frame; simp add: acksAnswered_def acksFailed_def split: option.split)+

subsection \<open>Registration and waiting\<close>

text \<open>A registered operation has a record with nothing done yet.\<close>

lemma sound_register:
  assumes "sound {} s" "recordOf i s = None" "or_phase r = OpAccepted" "or_handled r = 0"
  defines "s1 \<equiv> (putOpRecord i r s)\<lparr>op_pending := op_pending s @ [i]\<rparr>"
  shows "sound {i} s1" "terminalOf i s = None \<Longrightarrow> sound {} s1"
proof -
  have t: "tables_ok {} s" and k: "keys_ok s" and w: "waiters_ok s" using assms(1) by (simp_all add: sound_def)
  have k': "keys_ok s1" using keys_ok_put [OF k] by (simp add: s1_def keys_ok_def)
  have w': "waiters_ok s1" using w by (simp add: s1_def waiters_ok_def all_waiters_def)
  have r: "recordOf j s1 = (if j = i then Some r else recordOf j s)" for j
    by (simp add: s1_def recordOf_def putOpRecord_def)
  have e: "terminalOf j s1 = terminalOf j s" for j by (simp add: s1_def terminalOf_def)
  have a: "accepted j s1 \<longleftrightarrow> j = i \<or> accepted j s" for j using assms(3) by (simp add: accepted_def r)
  have gen: "tables_ok X s1" if "i \<in> X \<or> terminalOf i s = None" for X
  proof (rule tables_okI)
    fix j show "j \<in> set (op_pending s1) \<longleftrightarrow> accepted j s1" using tables_okD(1) [OF t, of j] by (auto simp: a) (auto simp: s1_def)
    show "j \<notin> X \<Longrightarrow> accepted j s1 \<Longrightarrow> terminalOf j s1 = None"
      using that tables_okD(2) [OF t, of j] by (auto simp: a e)
    fix q show "recordOf j s1 = Some q \<Longrightarrow> op_record_ok q"
      using tables_okD(3) [OF t, of j q] assms(3,4) by (auto simp: r op_record_ok_def split: if_splits)
    show "recordOf j s1 = Some q \<Longrightarrow> or_phase q = OpTerminal \<Longrightarrow> terminalOf j s1 \<noteq> None"
      using tables_okD(4) [OF t, of j q] assms(3) by (auto simp: r e split: if_splits)
    fix ws show "map_of (op_waiters s1) j = Some ws \<Longrightarrow> accepted j s1 \<and> ws \<noteq> []"
      using tables_okD(5) [OF t, of j ws] by (simp add: a) (simp add: s1_def)
  qed
  show "sound {i} s1" using gen [of "{i}"] k' w' by (simp add: sound_def)
  show "terminalOf i s = None \<Longrightarrow> sound {} s1" using gen [of "{}"] k' w' by (simp add: sound_def)
qed

lemma acceptedI: "recordOf i s = Some r \<Longrightarrow> or_phase r = OpAccepted \<Longrightarrow> accepted i s"
  by (simp add: accepted_def)

definition newRecord :: "receipt \<Rightarrow> op_record" where
  "newRecord rc = \<lparr>or_kind = rc_kind rc, or_operation = rc_operation rc, or_eventsUrl = rc_eventsUrl rc,
     or_cursor = rc_cursor rc, or_phase = OpAccepted, or_source = None, or_handled = 0\<rparr>"

definition registered :: "receipt \<Rightarrow> op_state \<Rightarrow> op_state" where
  "registered rc s = (putOpRecord (rc_id rc) (newRecord rc) s)\<lparr>op_pending := op_pending s @ [rc_id rc]\<rparr>"

lemma newRecord_sel [simp]: "or_phase (newRecord rc) = OpAccepted" "or_handled (newRecord rc) = 0"
  "or_cursor (newRecord rc) = rc_cursor rc"
  by (simp_all add: newRecord_def)

lemma register_cases:
  assumes "rc_id rc \<noteq> []" "recordOf (rc_id rc) s = None"
  shows "registerApiOperationReceipt tc opens rc s =
    (case terminalOf (rc_id rc) s of
       Some t \<Rightarrow> if apiOperationTerminalMatchesRecord (newRecord rc) t
         then pruneApiOperationReplay (fst (completeApiOperationRecord tc (rc_id rc) t
           (deleteRepair (rc_id rc) ((registered rc s)\<lparr>op_terminals := AList.delete (rc_id rc) (op_terminals s) @ [(rc_id rc, t)]\<rparr>))))
         else repairOperationTerminal True opens (rc_id rc) ((registered rc s)\<lparr>op_terminals := AList.delete (rc_id rc) (op_terminals s)\<rparr>)
     | None \<Rightarrow> repairOperationTerminal True opens (rc_id rc) (registered rc s))"
  using assms by (simp add: registerApiOperationReceipt_def registered_def newRecord_def Let_def split: option.split)

text \<open>An older terminal of the same operation is dropped, or moved to the end of the memory.\<close>

lemma sound_drop_terminal:
  assumes "sound {i} s" "accepted i s" "op_terminals s' = AList.delete i (op_terminals s) @ new"
    and "new = [] \<or> (\<exists>t. new = [(i, t)])"
    and "op_records s' = op_records s" "op_pending s' = op_pending s" "op_waiters s' = op_waiters s"
    and "op_results s' = op_results s" "op_waiterSerial s' = op_waiterSerial s"
  shows "sound {i} s'" "new = [] \<Longrightarrow> sound {} s'"
proof -
  have t: "tables_ok {i} s" and k: "keys_ok s" and w: "waiters_ok s" using assms(1) by (simp_all add: sound_def)
  have "i \<notin> set (map fst (AList.delete i (op_terminals s)))" by (rule deleted_key)
  then have k': "keys_ok s'" using k assms(3-7) by (auto simp: keys_ok_def distinct_delete) (metis fst_conv image_eqI)
  have w': "waiters_ok s'" using w waiters_ok_frame assms by blast
  have a: "accepted j s' = accepted j s" and r: "recordOf j s' = recordOf j s" for j
    using assms(5) by (simp_all add: accepted_def recordOf_def)
  have e: "terminalOf j s' = (if j = i then map_of new i else terminalOf j s)" for j
    using assms(3,4) by (auto simp: terminalOf_def map_add_def split: option.split)
  have gen: "tables_ok X s'" if "i \<in> X \<or> new = []" for X
  proof (rule tables_okI)
    fix j show "j \<in> set (op_pending s') \<longleftrightarrow> accepted j s'" using tables_okD(1) [OF t, of j] assms(6) by (simp add: a)
    show "j \<notin> X \<Longrightarrow> accepted j s' \<Longrightarrow> terminalOf j s' = None"
      using that tables_okD(2) [OF t, of j] by (auto simp: a e)
    fix q show "recordOf j s' = Some q \<Longrightarrow> op_record_ok q" using tables_okD(3) [OF t, of j q] by (simp add: r)
    show "recordOf j s' = Some q \<Longrightarrow> or_phase q = OpTerminal \<Longrightarrow> terminalOf j s' \<noteq> None"
      using tables_okD(4) [OF t, of j q] assms(2) by (auto simp: r e accepted_def)
    fix ws show "map_of (op_waiters s') j = Some ws \<Longrightarrow> accepted j s' \<and> ws \<noteq> []"
      using tables_okD(5) [OF t, of j ws] assms(7) by (simp add: a)
  qed
  show "sound {i} s'" using gen [of "{i}"] k' w' by (simp add: sound_def)
  show "new = [] \<Longrightarrow> sound {} s'" using gen [of "{}"] k' w' by (simp add: sound_def)
qed

lemma registered_frame [simp]:
  "recordOf j (registered rc s) = (if j = rc_id rc then Some (newRecord rc) else recordOf j s)"
  "op_terminals (registered rc s) = op_terminals s" "terminalOf j (registered rc s) = terminalOf j s"
  "op_waiters (registered rc s) = op_waiters s" "op_results (registered rc s) = op_results s"
  "op_waiterSerial (registered rc s) = op_waiterSerial s"
  by (simp_all add: registered_def recordOf_def putOpRecord_def terminalOf_def)

lemma register_ok: 
  assumes "op_ok s"
  shows "op_ok (registerApiOperationReceipt tc opens rc s)"
proof (cases "rc_id rc = [] \<or> recordOf (rc_id rc) s \<noteq> None")
  case False
  let ?i = "rc_id rc"
  have s: "sound {} s" and l: "length (op_terminals s) \<le> apiOperationReplayLimit" using assms by (simp_all add: op_ok_sound)
  from sound_register [OF s, of ?i "newRecord rc"] False
  have r: "sound {?i} (registered rc s)" "terminalOf ?i s = None \<Longrightarrow> sound {} (registered rc s)"
    by (simp_all add: registered_def)
  have acc: "accepted ?i (registered rc s)" by (simp add: accepted_def)
  show ?thesis
  proof (cases "terminalOf ?i s")
    case None
    then have "op_ok (registered rc s)" using r(2) l by (simp add: op_ok_sound)
    then show ?thesis using False None by (simp add: register_cases repair_ok)
  next
    case (Some t)
    let ?d = "(registered rc s)\<lparr>op_terminals := AList.delete ?i (op_terminals s)\<rparr>"
    let ?m = "deleteRepair ?i ((registered rc s)\<lparr>op_terminals := AList.delete ?i (op_terminals s) @ [(?i, t)]\<rparr>)"
    have "sound {} ?d" by (rule sound_drop_terminal(2) [OF r(1) acc, where new = "[]"]) simp_all
    moreover have "length (AList.delete ?i (op_terminals s)) \<le> length (op_terminals s)" by (rule length_delete_le)
    ultimately have d: "op_ok ?d" using l by (simp add: op_ok_sound)
    have m: "sound {?i} ?m" by (rule sound_drop_terminal(1) [OF r(1) acc, where new = "[(?i, t)]"]) (simp_all add: deleteRepair_def)
    have mr: "recordOf ?i ?m = Some (newRecord rc)" by (simp add: deleteRepair_def recordOf_def registered_def putOpRecord_def)
    have mt: "terminalOf ?i ?m \<noteq> None" by (simp add: deleteRepair_def terminalOf_def map_add_def)
    have "op_ok (pruneApiOperationReplay (fst (completeApiOperationRecord tc ?i t ?m)))"
      if "apiOperationTerminalMatchesRecord (newRecord rc) t"
      by (rule op_prune_ok, rule complete_ok [OF m mr _ that mt]) simp
    then show ?thesis using False Some d by (simp add: register_cases repair_ok)
  qed
qed (use assms in \<open>auto simp: registerApiOperationReceipt_def\<close>)

lemma settleNew_ok: "op_ok s \<Longrightarrow> op_ok (settleNewWaiter v s)"
proof -
  assume "op_ok s"
  then have "waiters_ok (settleNewWaiter v s)" by (simp add: op_ok_def waiters_ok_settleNew)
  moreover have "keys_ok (settleNewWaiter v s) = keys_ok s" "tables_ok {} (settleNewWaiter v s) = tables_ok {} s"
    by (simp_all add: settleNewWaiter_def setResult_def keys_ok_def tables_ok_def accepted_def recordOf_def terminalOf_def)
  ultimately show ?thesis using \<open>op_ok s\<close> by (simp add: op_ok_def) (simp add: settleNewWaiter_def setResult_def)
qed

text \<open>A change of the waiters of one accepted operation.\<close>

lemma op_ok_waiters:
  assumes "op_ok s" "waiters_ok s'" "accepted i s"
    and "map_of (op_waiters s') = (map_of (op_waiters s))(i := m)" "m \<noteq> Some []" "distinct (map fst (op_waiters s'))"
    and "op_records s' = op_records s" "op_pending s' = op_pending s" "op_terminals s' = op_terminals s"
  shows "op_ok s'"
proof -
  have t: "tables_ok {} s" and k: "keys_ok s" using assms(1) by (simp_all add: op_ok_def)
  have a: "accepted j s' = accepted j s" and r: "recordOf j s' = recordOf j s" and e: "terminalOf j s' = terminalOf j s" for j
    using assms(7,9) by (simp_all add: accepted_def recordOf_def terminalOf_def)
  have "tables_ok {} s'"
  proof (rule tables_okI)
    fix j ws assume ws: "map_of (op_waiters s') j = Some ws"
    show "accepted j s' \<and> ws \<noteq> []"
      using ws assms(3,5) tables_okD(5) [OF t, of j ws] by (auto simp: assms(4) a split: if_splits)
  qed (use tables_okD(1,2,3,4) [OF t] assms(8) in \<open>simp_all only: a r e\<close>, blast+)
  moreover have "keys_ok s'" using k assms(6,7,9) by (simp add: keys_ok_def)
  ultimately show ?thesis using assms(1,2,9) by (simp add: op_ok_def)
qed

lemma addWaiter_ok: "op_ok s \<Longrightarrow> accepted i s \<Longrightarrow> op_ok (addWaiter i s)"
  by (rule op_ok_waiters [where s = s and i = i and m = "Some (waitersOf i s @ [op_waiterSerial s])"])
    (simp_all add: op_ok_def waiters_ok_add, simp_all add: addWaiter_def keys_ok_def distinct_update)

lemma detach_ok:
  assumes "op_ok s"
  shows "op_ok (detachApiOperationWaiter i w e s)"
proof (cases "w \<in> set (waitersOf i s)")
  case True
  then obtain ws where ws: "map_of (op_waiters s) i = Some ws" by (cases "map_of (op_waiters s) i") (auto simp: waitersOf_def)
  have "accepted i s" using assms tables_okD(5) [OF _ ws] by (auto simp: op_ok_def)
  let ?ws = "filter (\<lambda>v. v \<noteq> w) (waitersOf i s)"
  let ?al = "if ?ws = [] then AList.delete i (op_waiters s) else AList.update i ?ws (op_waiters s)"
  have d: "detachApiOperationWaiter i w e s = setResult w (WaitRejected e) (s\<lparr>op_waiters := ?al\<rparr>)"
    using True by (simp add: detachApiOperationWaiter_def Let_def)
  have k: "keys_ok s" and w: "waiters_ok s" using assms by (simp_all add: op_ok_def)
  show ?thesis
  proof (rule op_ok_waiters [OF assms waiters_ok_detach [OF k w] \<open>accepted i s\<close>])
    show "map_of (op_waiters (detachApiOperationWaiter i w e s))
        = (map_of (op_waiters s))(i := (if ?ws = [] then None else Some ?ws))"
      unfolding d by (simp add: setResult_def)
    show "(if ?ws = [] then None else Some ?ws) \<noteq> Some []" by simp
    show "distinct (map fst (op_waiters (detachApiOperationWaiter i w e s)))"
      unfolding d using k by (simp add: setResult_def keys_ok_def distinct_delete distinct_update)
  qed (simp_all only: d setResult_def, simp_all)
qed (use assms in \<open>simp add: detachApiOperationWaiter_def\<close>)

lemma op_okD:
  assumes "op_ok s"
  shows "recordOf i s = Some r \<Longrightarrow> or_phase r = OpAccepted \<Longrightarrow> terminalOf i s = None"
    and "recordOf i s = Some r \<Longrightarrow> or_phase r = OpTerminal \<Longrightarrow> terminalOf i s \<noteq> None"
    and "recordOf i s = Some r \<Longrightarrow> op_record_ok r"
    and "i \<in> set (op_pending s) \<longleftrightarrow> accepted i s"
    and "map_of (op_waiters s) i = Some ws \<Longrightarrow> accepted i s \<and> ws \<noteq> []"
proof -
  have t: "tables_ok {} s" using assms by (simp add: op_ok_def)
  show "recordOf i s = Some r \<Longrightarrow> or_phase r = OpAccepted \<Longrightarrow> terminalOf i s = None"
    using tables_okD(2) [OF t, of i] by (auto intro: acceptedI)
  show "recordOf i s = Some r \<Longrightarrow> or_phase r = OpTerminal \<Longrightarrow> terminalOf i s \<noteq> None"
    "recordOf i s = Some r \<Longrightarrow> op_record_ok r" "i \<in> set (op_pending s) \<longleftrightarrow> accepted i s"
    "map_of (op_waiters s) i = Some ws \<Longrightarrow> accepted i s \<and> ws \<noteq> []"
    using tables_okD [OF t] by blast+
qed

lemma addWaiter_frame [simp]: "recordOf j (addWaiter i s) = recordOf j s" "terminalOf j (addWaiter i s) = terminalOf j s"
  by (simp_all add: addWaiter_def recordOf_def terminalOf_def)

lemma await_ok:
  assumes "op_ok s"
  shows "op_ok (waitForApiOperationResult tc opens rc kind operation aborted s)"
proof -
  let ?s1 = "registerApiOperationReceipt tc opens rc s" and ?i = "rc_id rc"
  have s1: "op_ok ?s1" using assms by (rule register_ok)
  show ?thesis
  proof (cases "recordOf ?i ?s1")
    case (Some r)
    show ?thesis
    proof (cases "or_phase r")
      case OpAccepted
      then have "terminalOf ?i ?s1 = None" "accepted ?i ?s1" using op_okD(1) [OF s1 Some] Some by (auto intro: acceptedI)
      then show ?thesis using s1 Some OpAccepted
        by (auto simp: waitForApiOperationResult_def Let_def intro: settleNew_ok addWaiter_ok detach_ok)
    next
      case OpTerminal
      then have "terminalOf ?i ?s1 \<noteq> None" using op_okD(2) [OF s1 Some] by simp
      then show ?thesis using s1 Some OpTerminal
        by (auto simp: waitForApiOperationResult_def Let_def intro: settleNew_ok)
    qed
  qed (use s1 in \<open>simp add: waitForApiOperationResult_def Let_def settleNew_ok\<close>)
qed

lemma op_step_ok: "op_step s s' \<Longrightarrow> op_ok s \<Longrightarrow> op_ok s'"
  by (erule op_stepE) (simp_all add: register_ok await_ok apply_ok detach_ok repair_ok replayFailed_ok retry_ok flush_ok acks_ok dispose_ok)

interpretation operations: invariant_machine op_step op_ok
  by unfold_locales (rule op_step_ok)

lemma operations_reachable: "op_step\<^sup>*\<^sup>* op_init s \<Longrightarrow> op_ok s"
  using operations.inv_reach op_init_ok by blast

end
