(* ===== verification/Operation_Properties.thy ===== *)
theory Operation_Properties
  imports Operation_Receipts
begin

text \<open>
  The properties of accepted operations: every wait is settled once, a terminal event settles all of
  its operation, and the receipt and the terminal may come in either order.
\<close>

section \<open>What an operation does to one receipt\<close>

definition grows :: "op_state \<Rightarrow> op_state \<Rightarrow> bool" where
  "grows s s' = (\<exists>xs. op_results s' = op_results s @ xs)"

lemma grows_same [intro]: "op_results s' = op_results s \<Longrightarrow> grows s s'"
  by (simp add: grows_def)

lemma grows_trans: "grows s t \<Longrightarrow> grows t u \<Longrightarrow> grows s u"
  by (auto simp: grows_def)

lemma results_frame [simp]: "op_results (forget i s) = op_results s" "op_results (enqueueOperationTerminalAck i c s) = op_results s"
  by (simp_all add: forget_def)

lemma prune_results [simp]: "op_results (pruneApiOperationReplay s) = op_results s"
proof -
  have "op_results (prune_keys is s) = op_results s" for "is"
    by (induction "is" arbitrary: s) (simp_all add: prune_keys_forget del: prune_keys.simps(2))
  then show ?thesis by (simp add: pruneApiOperationReplay_def)
qed

lemma complete_grows: "grows s (fst (completeApiOperationRecord tc i t s))"
  by (simp add: completeApiOperationRecord_def settle_eq grows_def split: option.split)

lemma apply_grows: "grows s (fst (applyApiOperationTerminal tc t s))"
proof -
  let ?s1 = "s\<lparr>op_terminals := AList.update (te_id t) t (op_terminals s)\<rparr>"
  have "grows ?s1 (fst (completeApiOperationRecord tc (te_id t) t ?s1))" by (rule complete_grows)
  then show ?thesis
    by (auto simp: applyApiOperationTerminal_def Let_def case_prod_beta grows_def split: option.split)
qed

lemma repair_results [simp]: "op_results (repairOperationTerminal pendingOnly opens i s) = op_results s"
  by (simp add: repairOperationTerminal_def repair_defs Let_def split: option.split)

lemma register_grows: "grows s (registerApiOperationReceipt tc opens rc s)"
proof (cases "rc_id rc = [] \<or> recordOf (rc_id rc) s \<noteq> None")
  case False
  let ?m = "\<lambda>t. deleteRepair (rc_id rc) ((registered rc s)\<lparr>op_terminals := AList.delete (rc_id rc) (op_terminals s) @ [(rc_id rc, t)]\<rparr>)"
  have "grows (?m t) (fst (completeApiOperationRecord tc (rc_id rc) t (?m t)))" for t by (rule complete_grows)
  then show ?thesis using False by (auto simp: register_cases grows_def deleteRepair_def split: option.split)
qed (auto simp: registerApiOperationReceipt_def)

lemma detach_grows: "grows s (detachApiOperationWaiter i w e s)"
  by (simp add: detachApiOperationWaiter_def Let_def setResult_def grows_def)

lemma settleNew_grows: "grows s (settleNewWaiter v s)"
  by (simp add: settleNewWaiter_def setResult_def grows_def)

lemma addWaiter_results [simp]: "op_results (addWaiter i s) = op_results s"
  by (simp add: addWaiter_def)

lemma await_grows: "grows s (waitForApiOperationResult tc opens rc kind operation aborted s)"
proof -
  let ?s1 = "registerApiOperationReceipt tc opens rc s"
  have "grows ?s1 (waitForApiOperationResult tc opens rc kind operation aborted s)"
    using detach_grows [of "addWaiter (rc_id rc) ?s1" "rc_id rc" "op_waiterSerial ?s1" "''aborted''"]
      complete_grows [of "addWaiter (rc_id rc) ?s1" tc "rc_id rc"]
    by (auto simp: waitForApiOperationResult_def Let_def settleNew_grows split: option.split op_phase.split)
      (auto simp: grows_def)
  with register_grows show ?thesis by (rule grows_trans)
qed

lemma retry_results [simp]: "op_results (retryPendingOperationTerminalRepairs opens s) = op_results s"
  unfolding retryPendingOperationTerminalRepairs_def
  by (rule fold_keeps [where P = "\<lambda>t. op_results t = op_results s"]) (auto split: option.split)

lemma op_step_grows: "op_step s s' \<Longrightarrow> grows s s'"
proof (erule op_stepE)
qed (auto simp: register_grows await_grows apply_grows detach_grows replayFailed_def repair_defs flushOperationTerminalAcks_def
  acksAnswered_def acksFailed_def disposeOperationReplays_def remember_frame trimRepairs_def split: option.split intro!: grows_same)

lemma reachable_grows: "op_step\<^sup>*\<^sup>* s s' \<Longrightarrow> grows s s'"
  by (induction rule: rtranclp_induct) (auto intro: grows_trans op_step_grows)

lemma grows_result: "grows s s' \<Longrightarrow> resultOf w s = Some v \<Longrightarrow> resultOf w s' = Some v"
  by (auto simp: grows_def resultOf_def map_add_def)

lemma waiting_waitersOf: "op_ok s \<Longrightarrow> w \<in> set (all_waiters s) \<longleftrightarrow> (\<exists>i. accepted i s \<and> w \<in> set (waitersOf i s))"
proof
  assume ok: "op_ok s" and "w \<in> set (all_waiters s)"
  then obtain i ws where "(i, ws) \<in> set (op_waiters s)" "w \<in> set ws" by (auto simp: all_waiters_def)
  moreover from this(1) have "map_of (op_waiters s) i = Some ws" using ok by (simp add: op_ok_def keys_ok_def)
  ultimately show "\<exists>i. accepted i s \<and> w \<in> set (waitersOf i s)" using op_okD(5) [OF ok, of i ws] by (auto simp: waitersOf_def)
next
  assume "\<exists>i. accepted i s \<and> w \<in> set (waitersOf i s)"
  then obtain i where i: "w \<in> set (waitersOf i s)" by blast
  then obtain ws where "map_of (op_waiters s) i = Some ws" by (cases "map_of (op_waiters s) i") (auto simp: waitersOf_def)
  with i show "w \<in> set (all_waiters s)" by (force simp: waitersOf_def all_waiters_def dest: map_of_SomeD)
qed

text \<open>
  C16. Nobody who waits for an operation is forgotten or answered twice: every issued waiter waits for
  an operation that is still running or has its one answer, never both, and an answer is never
  replaced.
\<close>

theorem waiters_settle_once:
  assumes "op_step\<^sup>*\<^sup>* op_init s" "w < op_waiterSerial s"
  shows "(resultOf w s = None \<longleftrightarrow> (\<exists>i. accepted i s \<and> w \<in> set (waitersOf i s)))
    \<and> (op_step\<^sup>*\<^sup>* s s' \<longrightarrow> resultOf w s \<noteq> None \<longrightarrow> resultOf w s' = resultOf w s)"
proof -
  have ok: "op_ok s" using assms(1) by (rule operations_reachable)
  then have w: "waiters_ok s" by (simp add: op_ok_def)
  have "w \<in> set (all_waiters s) \<longleftrightarrow> w \<notin> set (map fst (op_results s))"
    using waiters_ok_distinct(3,4) [OF w] assms(2) by (metis UnCI UnE IntI emptyE lessThan_iff)
  then have "resultOf w s = None \<longleftrightarrow> w \<in> set (all_waiters s)" by (simp add: resultOf_def map_of_eq_None_iff)
  moreover have "resultOf w s' = resultOf w s" if "op_step\<^sup>*\<^sup>* s s'" "resultOf w s \<noteq> None"
    using that(2) grows_result [OF reachable_grows [OF that(1)]] by (cases "resultOf w s") simp_all
  ultimately show ?thesis by (simp add: waiting_waitersOf [OF ok])
qed

definition mv_receipt :: receipt where
  "mv_receipt = \<lparr>rc_id = ''o'', rc_kind = ''fs'', rc_operation = ''move'', rc_eventsUrl = ''u'', rc_cursor = \<lparr>cu_epoch = ''e'', cu_seq = Some 0\<rparr>\<rparr>"

definition mv_done :: terminal where
  "mv_done = \<lparr>te_id = ''o'', te_cursor = \<lparr>cu_epoch = ''e'', cu_seq = Some 4\<rparr>, te_result = Some (OpReady ''ok'')\<rparr>"

definition mv_waiting :: op_state where
  "mv_waiting = waitForApiOperationResult True True mv_receipt ''fs'' [] False op_init"

lemma mv_reachable: "op_step\<^sup>*\<^sup>* op_init mv_waiting"
  unfolding mv_waiting_def by (rule r_into_rtranclp) (rule await)

theorem waiters_settle_once_witness:
  "resultOf 0 mv_waiting = None \<longleftrightarrow> (\<exists>i. accepted i mv_waiting \<and> 0 \<in> set (waitersOf i mv_waiting))"
proof -
  have "0 < op_waiterSerial mv_waiting" by code_simp
  from waiters_settle_once [OF mv_reachable this] show ?thesis by blast
qed


lemma update_append: "map_of al k = None \<Longrightarrow> AList.update k v al = al @ [(k, v)]"
  by (induction al) auto

text \<open>The result of completing an operation whose terminal is stored.\<close>

lemma prune_keeps_newest:
  assumes "sound {} s" "op_terminals s = ts @ [(i, t)]" "length ts \<le> apiOperationReplayLimit"
  shows "terminalOf i (pruneApiOperationReplay s) = Some t" "recordOf i (pruneApiOperationReplay s) = recordOf i s"
    "waitersOf i (pruneApiOperationReplay s) = waitersOf i s" "op_acks (pruneApiOperationReplay s) = op_acks s"
    "op_pending (pruneApiOperationReplay s) = op_pending s"
proof -
  have d: "distinct (map fst (op_terminals s))" using assms(1) by (simp add: sound_def keys_ok_def)
  have i: "terminalOf i s = Some t" using d assms(2) by (force simp: terminalOf_def map_add_def split: option.split dest: map_of_SomeD)
  have e: "pruneApiOperationReplay s =
      (if length (op_terminals s) \<le> apiOperationReplayLimit then s else forget (fst (hd (op_terminals s))) s)"
    using assms by (intro prune_at_most_oldest) simp_all
  have h: "fst (hd (op_terminals s)) \<noteq> i" if "\<not> length (op_terminals s) \<le> apiOperationReplayLimit"
    using that assms(2,3) d by (cases ts) (auto simp: apiOperationReplayLimit_def)
  show "terminalOf i (pruneApiOperationReplay s) = Some t" "recordOf i (pruneApiOperationReplay s) = recordOf i s"
    using h i by (auto simp: e forget_lookup)
  show "waitersOf i (pruneApiOperationReplay s) = waitersOf i s" "op_acks (pruneApiOperationReplay s) = op_acks s"
    "op_pending (pruneApiOperationReplay s) = op_pending s"
    by (simp_all add: e waitersOf_def) (simp add: forget_def)
qed

lemma matches_newer: "apiOperationTerminalMatchesRecord r t \<Longrightarrow> apiOperationTerminalIsNewer None t"
  by (auto simp: apiOperationTerminalMatchesRecord_def apiOperationTerminalIsNewer_def Let_def seq_positive_def split: option.splits)

lemma complete_effect:
  fixes tc :: bool
  assumes "recordOf i s = Some r" "or_phase r = OpAccepted" "apiOperationTerminalMatchesRecord r t" "i \<noteq> []"
  defines "s' \<equiv> fst (completeApiOperationRecord tc i t s)"
  shows "recordOf i s' = Some (completed tc t r)" "waitersOf i s' = []" "map_of (op_acks s') i = Some (te_cursor t)"
    "op_results s' = op_results s @ map (\<lambda>w. (w, apiOperationTerminalData t)) (waitersOf i s)"
proof -
  have "seq_positive (te_cursor t)" "cu_epoch (te_cursor t) \<noteq> []"
    using assms(3) by (simp_all add: apiOperationTerminalMatchesRecord_def Let_def)
  then show "map_of (op_acks s') i = Some (te_cursor t)"
    using assms(4) by (simp add: s'_def complete_eq [OF assms(1-3)] enqueueOperationTerminalAck_def)
  show "recordOf i s' = Some (completed tc t r)" "waitersOf i s' = []"
    "op_results s' = op_results s @ map (\<lambda>w. (w, apiOperationTerminalData t)) (waitersOf i s)"
    by (simp_all add: s'_def complete_eq [OF assms(1-3)] settle_eq waitersOf_def recordOf_def putOpRecord_def)
qed

lemma apply_effect:
  fixes tc :: bool
  assumes ok: "op_ok s" and rec: "recordOf (te_id t) s = Some r" "or_phase r = OpAccepted"
    and t: "te_id t \<noteq> []" "te_result t \<noteq> None" "apiOperationTerminalMatchesRecord r t"
  defines "s' \<equiv> fst (applyApiOperationTerminal tc t s)"
  shows "snd (applyApiOperationTerminal tc t s)"
    "recordOf (te_id t) s' = Some (completed tc t r)" "terminalOf (te_id t) s' = Some t" "waitersOf (te_id t) s' = []"
    "map_of (op_acks s') (te_id t) = Some (te_cursor t)"
    "op_results s' = op_results s @ map (\<lambda>w. (w, apiOperationTerminalData t)) (waitersOf (te_id t) s)"
proof -
  let ?i = "te_id t" and ?s1 = "s\<lparr>op_terminals := AList.update (te_id t) t (op_terminals s)\<rparr>"
  let ?s2 = "fst (completeApiOperationRecord tc ?i t ?s1)"
  have none: "terminalOf ?i s = None" using op_okD(1) [OF ok rec] .
  have app: "applyApiOperationTerminal tc t s = (pruneApiOperationReplay ?s2, True)"
    using rec t none matches_newer [OF t(3)]
    by (simp add: applyApiOperationTerminal_def Let_def case_prod_beta complete_eq recordOf_def)
  have r1: "recordOf ?i ?s1 = Some r" using rec by (simp add: recordOf_def)
  have w1: "waitersOf ?i ?s1 = waitersOf ?i s" by (simp add: waitersOf_def)
  note eff = complete_effect [OF r1 rec(2) t(3,1), where tc = tc]
  have ts: "op_terminals ?s2 = op_terminals s @ [(?i, t)]" using none by (simp add: update_append terminalOf_def)
  have "sound {?i} ?s1" by (rule sound_terminal(1) [where s = s]) (use ok in \<open>simp_all add: op_ok_sound\<close>)
  then have s2: "sound {} ?s2" by (rule complete_ok [OF _ r1 rec(2) t(3)]) (simp add: terminalOf_def)
  have l: "length (op_terminals s) \<le> apiOperationReplayLimit" using ok by (simp add: op_ok_def)
  note keep = prune_keeps_newest [OF s2 ts l]
  show "snd (applyApiOperationTerminal tc t s)" by (simp add: app)
  show "recordOf ?i s' = Some (completed tc t r)" "terminalOf ?i s' = Some t" "waitersOf ?i s' = []"
    "map_of (op_acks s') ?i = Some (te_cursor t)"
    "op_results s' = op_results s @ map (\<lambda>w. (w, apiOperationTerminalData t)) (waitersOf ?i s)"
    using eff keep by (simp_all add: s'_def app w1)
qed



section \<open>Either order\<close>

lemma register_fresh:
  assumes "recordOf (rc_id rc) s = None" "terminalOf (rc_id rc) s = None" "rc_id rc \<noteq> []"
  shows "\<exists>src. recordOf (rc_id rc) (registerApiOperationReceipt tc opens rc s) = Some ((newRecord rc)\<lparr>or_source := src\<rparr>)"
proof -
  have "or_source (newRecord rc) = None" by (simp add: newRecord_def)
  then have n: "newRecord rc = (newRecord rc)\<lparr>or_source := None\<rparr>" by simp
  have "registerApiOperationReceipt tc opens rc s = repairOperationTerminal True opens (rc_id rc) (registered rc s)"
    using assms by (simp add: register_cases)
  then show ?thesis using n
    by (auto simp: repairOperationTerminal_def repair_defs Let_def)
qed

text \<open>
  C18. The receipt of an operation and its terminal event may arrive in either order: the record ends
  the same, with the same terminal remembered and acknowledged and the handler run once.
\<close>

theorem receipt_and_terminal_commute:
  assumes "op_step\<^sup>*\<^sup>* op_init s" "recordOf (rc_id rc) s = None" "terminalOf (rc_id rc) s = None"
    and "rc_id rc \<noteq> []" "te_id t = rc_id rc" "te_result t \<noteq> None"
    and "apiOperationTerminalMatchesRecord (newRecord rc) t"
    and "a = fst (applyApiOperationTerminal True t (registerApiOperationReceipt True opens rc s))"
    and "b = registerApiOperationReceipt True opens' rc (fst (applyApiOperationTerminal True t s))"
  shows "recordOf (rc_id rc) a = recordOf (rc_id rc) b \<and> terminalOf (rc_id rc) a = terminalOf (rc_id rc) b
    \<and> map_of (op_acks a) (rc_id rc) = map_of (op_acks b) (rc_id rc)
    \<and> (\<exists>r. recordOf (rc_id rc) a = Some r \<and> or_phase r = OpTerminal \<and> or_handled r = 1)"
proof -
  let ?i = "rc_id rc" and ?r = "newRecord rc"
  have ok: "op_ok s" using assms(1) by (rule operations_reachable)
  have l: "length (op_terminals s) \<le> apiOperationReplayLimit" using ok by (simp add: op_ok_def)
  obtain src where src: "recordOf ?i (registerApiOperationReceipt True opens rc s) = Some (?r\<lparr>or_source := src\<rparr>)"
    using register_fresh [OF assms(2-4)] by blast
  have m: "apiOperationTerminalMatchesRecord (?r\<lparr>or_source := src\<rparr>) t"
    using assms(7) by (simp add: apiOperationTerminalMatchesRecord_def)
  note A = apply_effect [OF register_ok [OF ok], of t _ _ rc, unfolded assms(5), OF src _ assms(4,6) m, where tc = True]
  have a: "recordOf ?i a = Some (completed True t ?r)" "terminalOf ?i a = Some t" "map_of (op_acks a) ?i = Some (te_cursor t)"
    using A by (simp_all add: assms(8) completed_def)
  let ?u = "s\<lparr>op_terminals := AList.update ?i t (op_terminals s)\<rparr>"
  have u: "fst (applyApiOperationTerminal True t s) = pruneApiOperationReplay ?u"
    using assms(2-6) matches_newer [OF assms(7)] by (auto simp: applyApiOperationTerminal_def Let_def)
  have su: "sound {} ?u" by (rule sound_terminal(2) [where s = s and i = ?i and t = t]) (use ok assms(2) in \<open>simp_all add: op_ok_sound accepted_def\<close>)
  have tu: "op_terminals ?u = op_terminals s @ [(?i, t)]" using assms(3) by (simp add: update_append terminalOf_def)
  let ?p = "pruneApiOperationReplay ?u"
  have p: "op_ok ?p" using su by (rule op_prune_ok)
  have pt: "terminalOf ?i ?p = Some t" and pr: "recordOf ?i ?p = None"
    using prune_keeps_newest [OF su tu l] assms(2) by (simp_all add: recordOf_def)
  let ?m = "deleteRepair ?i ((registered rc ?p)\<lparr>op_terminals := AList.delete ?i (op_terminals ?p) @ [(?i, t)]\<rparr>)"
  let ?c = "fst (completeApiOperationRecord True ?i t ?m)"
  have b: "b = pruneApiOperationReplay ?c" using pt pr assms(4,7) by (simp add: assms(9) u register_cases)
  have pok: "sound {?i} (registered rc ?p)"
    using sound_register(1) [of ?p ?i ?r] p pr by (simp add: registered_def op_ok_sound)
  have acc: "accepted ?i (registered rc ?p)" by (simp add: accepted_def)
  have ms: "sound {?i} ?m" by (rule sound_drop_terminal(1) [OF pok acc, where new = "[(?i, t)]"]) (simp_all add: deleteRepair_def)
  have mr: "recordOf ?i ?m = Some ?r" by (simp add: deleteRepair_def recordOf_def registered_def putOpRecord_def)
  have cs: "sound {} ?c"
    by (rule complete_ok [OF ms mr _ assms(7)]) (simp_all add: deleteRepair_def terminalOf_def map_add_def)
  have ct: "op_terminals ?c = AList.delete ?i (op_terminals ?p) @ [(?i, t)]" by (simp add: deleteRepair_def)
  have "length (AList.delete ?i (op_terminals ?p)) \<le> apiOperationReplayLimit"
    using length_delete_le [of ?i "op_terminals ?p"] p by (simp add: op_ok_def)
  note keep = prune_keeps_newest [OF cs ct this]
  note eff = complete_effect [OF mr _ assms(7,4), where tc = True]
  have "recordOf ?i b = Some (completed True t ?r)" "terminalOf ?i b = Some t" "map_of (op_acks b) ?i = Some (te_cursor t)"
    using keep eff by (simp_all add: b)
  with a show ?thesis by (simp add: completed_def)
qed

theorem receipt_and_terminal_commute_witness:
  "recordOf ''o'' (fst (applyApiOperationTerminal True mv_done (registerApiOperationReceipt True True mv_receipt op_init)))
   = recordOf ''o'' (registerApiOperationReceipt True False mv_receipt (fst (applyApiOperationTerminal True mv_done op_init)))"
proof -
  have i: "rc_id mv_receipt = ''o''" by code_simp
  have "recordOf (rc_id mv_receipt) op_init = None" "terminalOf (rc_id mv_receipt) op_init = None" "rc_id mv_receipt \<noteq> []"
    "te_id mv_done = rc_id mv_receipt" "te_result mv_done \<noteq> None"
    "apiOperationTerminalMatchesRecord (newRecord mv_receipt) mv_done"
    by code_simp+
  from receipt_and_terminal_commute [OF rtranclp.rtrancl_refl this refl refl, of True False] show ?thesis
    unfolding i by blast
qed

text \<open>A registered receipt always has a record, so a wait fails for a missing id only.\<close>

lemma repair_keeps_record: "recordOf i s \<noteq> None \<Longrightarrow> recordOf i (repairOperationTerminal pendingOnly opens j s) \<noteq> None"
  by (auto simp: repairOperationTerminal_def repair_defs Let_def split: option.split)

lemma register_keeps_record:
  assumes ok: "op_ok s" and i: "rc_id rc \<noteq> []"
  shows "recordOf (rc_id rc) (registerApiOperationReceipt tc opens rc s) \<noteq> None"
proof (cases "recordOf (rc_id rc) s")
  case None
  let ?i = "rc_id rc" and ?r = "newRecord rc"
  have "recordOf ?i (pruneApiOperationReplay (fst (completeApiOperationRecord tc ?i t
      (deleteRepair ?i ((registered rc s)\<lparr>op_terminals := AList.delete ?i (op_terminals s) @ [(?i, t)]\<rparr>))))) \<noteq> None"
    (is "recordOf ?i (pruneApiOperationReplay (fst (completeApiOperationRecord tc ?i t ?m))) \<noteq> None")
    if m: "apiOperationTerminalMatchesRecord ?r t" for t
  proof -
    let ?c = "fst (completeApiOperationRecord tc ?i t ?m)"
    have pok: "sound {?i} (registered rc s)"
      using sound_register(1) [of s ?i ?r] ok None by (simp add: registered_def op_ok_sound)
    have acc: "accepted ?i (registered rc s)" by (simp add: accepted_def)
    have ms: "sound {?i} ?m" by (rule sound_drop_terminal(1) [OF pok acc, where new = "[(?i, t)]"]) (simp_all add: deleteRepair_def)
    have mr: "recordOf ?i ?m = Some ?r" by (simp add: deleteRepair_def recordOf_def registered_def putOpRecord_def)
    have cs: "sound {} ?c" by (rule complete_ok [OF ms mr _ m]) (simp_all add: deleteRepair_def terminalOf_def map_add_def)
    have ct: "op_terminals ?c = AList.delete ?i (op_terminals s) @ [(?i, t)]" by (simp add: deleteRepair_def)
    have "length (AList.delete ?i (op_terminals s)) \<le> apiOperationReplayLimit"
      using length_delete_le [of ?i "op_terminals s"] ok by (simp add: op_ok_def)
    from prune_keeps_newest(2) [OF cs ct this] complete_effect(1) [OF mr _ m i, of tc] show ?thesis by simp
  qed
  moreover have "recordOf ?i ((registered rc s)\<lparr>op_terminals := ts\<rparr>) \<noteq> None" for ts by (simp add: registered_def recordOf_def putOpRecord_def)
  ultimately show ?thesis using i None repair_keeps_record [of ?i "registered rc s"]
      repair_keeps_record [of ?i "(registered rc s)\<lparr>op_terminals := AList.delete ?i (op_terminals s)\<rparr>"]
    unfolding register_cases [OF i None] by (auto simp del: not_None_eq split: option.split)
qed (simp add: registerApiOperationReceipt_def)

end
