(* ===== verification/Lifecycle_Scope.thy ===== *)
theory Lifecycle_Scope
  imports Js_Prelude
begin

text \<open>
  The owners of disposable resources (\<open>10_core_utils.js\<close>): \<open>createLifecycleScope\<close>, which keeps named
  timers, listeners, observers and streams and disposes them, \<open>dedupeInflight\<close>, which shares one
  request between callers, and \<open>createLatestResource\<close>, whose newest read wins.

  An object (a timer, a stream, a controller) is a number. A disposer is named, and its calls are
  logged in \<open>sc_disposals\<close>; a disposer that calls back into its own scope is outside the model, as
  none of the program does.
\<close>

section \<open>Lifecycle scopes\<close>

datatype disposer = ClearTimer | CloseStream | Disconnect | RemoveListener | AbortController | CancelFrame | NoDisposer

type_synonym resource = "nat \<times> disposer"

record scope =
  sc_resources :: "(string \<times> resource) list"
  sc_disposed :: bool
  sc_disposals :: "resource list"

definition createLifecycleScope :: scope where
  "createLifecycleScope = \<lparr>sc_resources = [], sc_disposed = False, sc_disposals = []\<rparr>"

definition scopeCurrent :: "bool \<Rightarrow> scope \<Rightarrow> bool" where
  "scopeCurrent isCurrent s = (\<not> sc_disposed s \<and> isCurrent)"

definition scopeValue :: "string \<Rightarrow> scope \<Rightarrow> nat option" where
  "scopeValue k s = map_option fst (map_of (sc_resources s) k)"

definition disposeResource :: "resource \<Rightarrow> scope \<Rightarrow> scope" where
  "disposeResource r s = s\<lparr>sc_disposals := sc_disposals s @ [r]\<rparr>"

definition dropResource :: "string \<Rightarrow> scope \<Rightarrow> scope" where
  "dropResource k s = s\<lparr>sc_resources := AList.delete k (sc_resources s)\<rparr>"

definition scopeReplace :: "string \<Rightarrow> nat option \<Rightarrow> disposer \<Rightarrow> scope \<Rightarrow> scope" where
  "scopeReplace k value d s =
     (if value \<noteq> None \<and> scopeValue k s = value then s
      else
        let s1 = (case map_of (sc_resources s) k of
                    Some r \<Rightarrow> dropResource k (disposeResource r s) | None \<Rightarrow> s)
        in (case value of
              None \<Rightarrow> s1
            | Some v \<Rightarrow> if sc_disposed s1 then disposeResource (v, d) s1
                        else s1\<lparr>sc_resources := sc_resources s1 @ [(k, (v, d))]\<rparr>))"

text \<open>A value argument of \<open>None\<close> stands for \<open>undefined\<close>: the holder of the key does not matter.\<close>

definition scopeHolds :: "string \<Rightarrow> nat option \<Rightarrow> scope \<Rightarrow> resource option" where
  "scopeHolds k value s =
     (case map_of (sc_resources s) k of
        Some r \<Rightarrow> if value = None \<or> value = Some (fst r) then Some r else None
      | None \<Rightarrow> None)"

definition scopeRelease :: "string \<Rightarrow> nat option \<Rightarrow> scope \<Rightarrow> scope \<times> bool" where
  "scopeRelease k value s =
     (case scopeHolds k value s of
        Some r \<Rightarrow> (disposeResource r (dropResource k s), True)
      | None \<Rightarrow> (s, False))"

definition scopeRelinquish :: "string \<Rightarrow> nat option \<Rightarrow> scope \<Rightarrow> scope \<times> bool" where
  "scopeRelinquish k value s =
     (case scopeHolds k value s of Some r \<Rightarrow> (dropResource k s, True) | None \<Rightarrow> (s, False))"

definition scopeDispose :: "scope \<Rightarrow> scope \<times> bool" where
  "scopeDispose s =
     (if sc_disposed s then (s, False)
      else (s\<lparr>sc_disposed := True, sc_disposals := sc_disposals s @ rev (map snd (sc_resources s)), sc_resources := []\<rparr>, True))"

definition ownTimer :: "string \<Rightarrow> nat \<Rightarrow> scope \<Rightarrow> scope" where
  "ownTimer k timer = scopeReplace k (Some timer) ClearTimer"

definition ownStream :: "string \<Rightarrow> nat \<Rightarrow> scope \<Rightarrow> scope" where
  "ownStream k stream = scopeReplace k (Some stream) CloseStream"

definition ownObserver :: "string \<Rightarrow> nat \<Rightarrow> scope \<Rightarrow> scope" where
  "ownObserver k ob = scopeReplace k (Some ob) Disconnect"

definition ownEvent :: "string \<Rightarrow> nat \<Rightarrow> scope \<Rightarrow> scope" where
  "ownEvent k listener = scopeReplace k (Some listener) RemoveListener"

subsection \<open>Programs over a scope\<close>

datatype scope_op =
    Replace string "nat option" disposer
  | Release string "nat option"
  | Relinquish string "nat option"
  | Dispose

fun scope_do :: "scope_op \<Rightarrow> scope \<Rightarrow> scope" where
  "scope_do (Replace k v d) s = scopeReplace k v d s"
| "scope_do (Release k v) s = fst (scopeRelease k v s)"
| "scope_do (Relinquish k v) s = fst (scopeRelinquish k v s)"
| "scope_do Dispose s = fst (scopeDispose s)"

text \<open>What an operation hands to the scope, and what it takes back without disposing it.\<close>

fun handed :: "scope_op \<Rightarrow> scope \<Rightarrow> resource list" where
  "handed (Replace k v d) s = (case v of Some x \<Rightarrow> if scopeValue k s = v then [] else [(x, d)] | None \<Rightarrow> [])"
| "handed _ s = []"

fun taken_back :: "scope_op \<Rightarrow> scope \<Rightarrow> resource list" where
  "taken_back (Relinquish k v) s = (case scopeHolds k v s of Some r \<Rightarrow> [r] | None \<Rightarrow> [])"
| "taken_back _ s = []"

definition held :: "scope \<Rightarrow> resource list" where
  "held s = map snd (sc_resources s)"

fun scope_run :: "scope_op list \<Rightarrow> scope \<Rightarrow> scope" where
  "scope_run [] s = s"
| "scope_run (op # ops) s = scope_run ops (scope_do op s)"

fun all_handed :: "scope_op list \<Rightarrow> scope \<Rightarrow> resource list" where
  "all_handed [] s = []"
| "all_handed (op # ops) s = handed op s @ all_handed ops (scope_do op s)"

fun all_taken_back :: "scope_op list \<Rightarrow> scope \<Rightarrow> resource list" where
  "all_taken_back [] s = []"
| "all_taken_back (op # ops) s = taken_back op s @ all_taken_back ops (scope_do op s)"

definition scope_ok :: "scope \<Rightarrow> bool" where
  "scope_ok s = (distinct (map fst (sc_resources s)) \<and> (sc_disposed s \<longrightarrow> sc_resources s = []))"

lemma createLifecycleScope_ok: "scope_ok createLifecycleScope"
  by (simp add: scope_ok_def createLifecycleScope_def)

lemma mset_delete:
  "distinct (map fst al) \<Longrightarrow> map_of al k = Some r \<Longrightarrow>
   mset (map snd al) = add_mset r (mset (map snd (AList.delete k al)))"
  by (induction al) (auto simp: delete_absent split: if_splits)

lemma absent_key: "map_of al k = None \<Longrightarrow> k \<notin> set (map fst al)"
  by (simp add: map_of_eq_None_iff)

lemma scope_do_ok: "scope_ok s \<Longrightarrow> scope_ok (scope_do op s)"
proof (cases op)
  case (Replace k v d)
  assume ok: "scope_ok s"
  then show ?thesis using Replace deleted_key [of k "sc_resources s"] absent_key [of "sc_resources s" k]
    by (auto simp: scopeReplace_def scope_ok_def Let_def dropResource_def disposeResource_def distinct_delete
        simp del: set_map split: option.split)
qed (auto simp: scopeRelease_def scopeRelinquish_def scopeDispose_def scope_ok_def dropResource_def disposeResource_def
    distinct_delete split: option.split)

lemma scopeHolds_Some: "scopeHolds k v s = Some r \<Longrightarrow> map_of (sc_resources s) k = Some r"
  by (simp add: scopeHolds_def split: option.splits if_splits)

lemma scope_do_balance:
  assumes "scope_ok s"
  shows "mset (held (scope_do op s)) + mset (sc_disposals (scope_do op s)) + mset (taken_back op s)
    = mset (held s) + mset (sc_disposals s) + mset (handed op s)"
proof -
  have d: "distinct (map fst (sc_resources s))" using assms by (simp add: scope_ok_def)
  note del = mset_delete [OF d]
  show ?thesis
  proof (cases op)
    case (Replace k v d)
    then show ?thesis using del [of k]
      by (auto simp: scopeReplace_def held_def Let_def dropResource_def disposeResource_def scopeValue_def split: option.split)
  next
    case (Release k v)
    then show ?thesis using del [of k] scopeHolds_Some [of k v s]
      by (auto simp: scopeRelease_def held_def dropResource_def disposeResource_def split: option.split)
  next
    case (Relinquish k v)
    then show ?thesis using del [of k] scopeHolds_Some [of k v s]
      by (auto simp: scopeRelinquish_def held_def dropResource_def split: option.split)
  next
    case Dispose
    then show ?thesis by (simp add: scopeDispose_def held_def)
  qed
qed

lemma scope_run_ok: "scope_ok s \<Longrightarrow> scope_ok (scope_run ops s)"
  by (induction ops arbitrary: s) (simp_all add: scope_do_ok)

lemma scope_run_balance:
  "scope_ok s \<Longrightarrow>
   mset (held (scope_run ops s)) + mset (sc_disposals (scope_run ops s)) + mset (all_taken_back ops s)
     = mset (held s) + mset (sc_disposals s) + mset (all_handed ops s)"
proof (induction ops arbitrary: s)
  case (Cons op ops)
  from Cons.IH [OF scope_do_ok [OF Cons.prems], of op] scope_do_balance [OF Cons.prems, of op] show ?case
    by (simp add: ac_simps)
qed simp

section \<open>Shared requests in flight\<close>

text \<open>\<open>inflight\<close> maps a key to its request. A caller gets an existing request when it may reuse one; the
  request that was made last for the key removes the entry when it settles.\<close>

definition dedupeInflight :: "string \<Rightarrow> bool \<Rightarrow> nat \<Rightarrow> (string \<times> nat) list \<Rightarrow> (string \<times> nat) list \<times> nat" where
  "dedupeInflight k canReuse fresh inflight =
     (if canReuse
      then (case map_of inflight k of
              Some request \<Rightarrow> (inflight, request)
            | None \<Rightarrow> (AList.update k fresh inflight, fresh))
      else (inflight, fresh))"

definition inflightSettled :: "string \<Rightarrow> nat \<Rightarrow> (string \<times> nat) list \<Rightarrow> (string \<times> nat) list" where
  "inflightSettled k request inflight =
     (if map_of inflight k = Some request then AList.delete k inflight else inflight)"

section \<open>Latest resources\<close>

text \<open>
  A read is a number; its controller has the same number. Every read runs in the scope of the
  generation \<open>la_generation\<close> it started; renewing the scope disposes the old one, so a read is
  current exactly while its generation is the newest. The answer of the load and the \<open>finally\<close> that
  follows it are two steps, since other code may run between them. \<open>apply\<close> may throw (\<open>Inl\<close>) or
  return \<open>undefined\<close> (\<open>Inr None\<close>). The \<open>onState\<close> notifications are logged.
\<close>

datatype 'p answer = Loaded 'p | LoadFailed string

datatype read_phase = Loading | Answered | Settled

datatype notice = NoticeLoading | NoticeApplied | NoticeFailed | NoticeSettled | NoticeReplaced | NoticeInvalidated

record 't read_run =
  rd_target :: 't
  rd_generation :: nat
  rd_phase :: read_phase

record ('t, 'v) latest =
  la_value :: 'v
  la_target :: 't
  la_request :: "nat option"
  la_error :: "string option"
  la_scope :: scope
  la_generation :: nat
  la_aborted :: "nat list"
  la_runs :: "'t read_run list"
  la_notices :: "notice list"

definition createLatestResource :: "'v \<Rightarrow> 't \<Rightarrow> ('t, 'v) latest" where
  "createLatestResource initial noTarget =
     \<lparr>la_value = initial, la_target = noTarget, la_request = None, la_error = None, la_scope = createLifecycleScope,
      la_generation = 0, la_aborted = [], la_runs = [], la_notices = []\<rparr>"

definition latestLoading :: "('t, 'v) latest \<Rightarrow> bool" where
  "latestLoading s = (la_request s \<noteq> None)"

definition latestNotify :: "notice \<Rightarrow> ('t, 'v) latest \<Rightarrow> ('t, 'v) latest" where
  "latestNotify n s = s\<lparr>la_notices := la_notices s @ [n]\<rparr>"

text \<open>The disposals of an old scope are moved to \<open>la_aborted\<close>.\<close>

definition renewScope :: "('t, 'v) latest \<Rightarrow> ('t, 'v) latest" where
  "renewScope s =
     s\<lparr>la_aborted := la_aborted s @ map fst (sc_disposals (fst (scopeDispose (la_scope s)))),
       la_scope := createLifecycleScope, la_generation := Suc (la_generation s)\<rparr>"

definition latestAssign :: "'v \<Rightarrow> 't \<Rightarrow> ('t, 'v) latest \<Rightarrow> ('t, 'v) latest" where
  "latestAssign v t s = s\<lparr>la_target := t, la_value := v, la_error := None\<rparr>"

definition latestRead :: "'t \<Rightarrow> ('t, 'v) latest \<Rightarrow> ('t, 'v) latest" where
  "latestRead t s =
     (if la_request s \<noteq> None \<and> la_target s = t then s
      else
        let s1 = renewScope s; i = length (la_runs s)
        in latestNotify NoticeLoading
             (s1\<lparr>la_target := t, la_error := None, la_scope := scopeReplace ''request-controller'' (Some i) AbortController (la_scope s1),
                 la_runs := la_runs s @ [\<lparr>rd_target = t, rd_generation = la_generation s1, rd_phase = Loading\<rparr>],
                 la_request := Some i\<rparr>))"

definition setPhase :: "nat \<Rightarrow> read_phase \<Rightarrow> ('t, 'v) latest \<Rightarrow> ('t, 'v) latest" where
  "setPhase i p s = s\<lparr>la_runs := (la_runs s)[i := (la_runs s ! i)\<lparr>rd_phase := p\<rparr>]\<rparr>"

definition readIsCurrent :: "nat \<Rightarrow> ('t, 'v) latest \<Rightarrow> bool" where
  "readIsCurrent i s = (i < length (la_runs s) \<and> rd_generation (la_runs s ! i) = la_generation s)"

definition readPhase :: "nat \<Rightarrow> ('t, 'v) latest \<Rightarrow> read_phase" where
  "readPhase i s = (if i < length (la_runs s) then rd_phase (la_runs s ! i) else Settled)"

definition latestAnswer ::
  "('p \<Rightarrow> 't \<Rightarrow> 'v \<Rightarrow> string + 'v option) \<Rightarrow> nat \<Rightarrow> 'p answer \<Rightarrow> ('t, 'v) latest \<Rightarrow> ('t, 'v) latest" where
  "latestAnswer apply i ans s =
     (if readPhase i s \<noteq> Loading then s
      else
        let s1 = setPhase i Answered s; t = rd_target (la_runs s ! i);
            failed = (\<lambda>e. latestNotify NoticeFailed (s1\<lparr>la_error := Some e\<rparr>))
        in if \<not> readIsCurrent i s then s1
           else (case ans of
                   LoadFailed e \<Rightarrow> failed e
                 | Loaded p \<Rightarrow>
                     (case apply p t (la_value s) of
                        Inl e \<Rightarrow> failed e
                      | Inr None \<Rightarrow> latestNotify NoticeApplied (s1\<lparr>la_error := None\<rparr>)
                      | Inr (Some v) \<Rightarrow> latestNotify NoticeApplied (latestAssign v t s1))))"

definition latestFinally :: "nat \<Rightarrow> ('t, 'v) latest \<Rightarrow> ('t, 'v) latest" where
  "latestFinally i s =
     (if readPhase i s \<noteq> Answered then s
      else
        let s1 = setPhase i Settled s
        in if \<not> readIsCurrent i s \<or> la_request s \<noteq> Some i then s1
           else latestNotify NoticeSettled
                  (s1\<lparr>la_request := None, la_scope := fst (scopeRelease ''request-controller'' (Some i) (la_scope s))\<rparr>))"

definition latestReplace :: "'v \<Rightarrow> 't \<Rightarrow> ('t, 'v) latest \<Rightarrow> ('t, 'v) latest" where
  "latestReplace v t s = latestNotify NoticeReplaced (latestAssign v t ((renewScope s)\<lparr>la_request := None\<rparr>))"

definition latestInvalidate :: "('t, 'v) latest \<Rightarrow> ('t, 'v) latest" where
  "latestInvalidate s = latestNotify NoticeInvalidated ((renewScope s)\<lparr>la_request := None, la_error := None\<rparr>)"

inductive latest_step :: "('p \<Rightarrow> 't \<Rightarrow> 'v \<Rightarrow> string + 'v option) \<Rightarrow> ('t, 'v) latest \<Rightarrow> ('t, 'v) latest \<Rightarrow> bool"
  for app where
  read: "latest_step app s (latestRead t s)"
| answer: "latest_step app s (latestAnswer app i ans s)"
| finally_step: "latest_step app s (latestFinally i s)"
| replace: "latest_step app s (latestReplace v t s)"
| assign: "latest_step app s (latestAssign v t s)"
| invalidate: "latest_step app s (latestInvalidate s)"

inductive_cases latest_stepE: "latest_step app s s'"

subsection \<open>One read is live\<close>

definition live :: "nat \<Rightarrow> ('t, 'v) latest \<Rightarrow> bool" where
  "live i s = (readIsCurrent i s \<and> readPhase i s \<noteq> Settled)"

text \<open>The controllers that have been aborted, by a renewal or by the release after the answer.\<close>

definition abortedControllers :: "('t, 'v) latest \<Rightarrow> nat list" where
  "abortedControllers s = la_aborted s @ map fst (sc_disposals (la_scope s))"

definition latest_ok :: "('t, 'v) latest \<Rightarrow> bool" where
  "latest_ok s =
     ((\<forall>i < length (la_runs s). rd_generation (la_runs s ! i) \<le> la_generation s)
      \<and> (\<forall>i. live i s \<longleftrightarrow> la_request s = Some i)
      \<and> \<not> sc_disposed (la_scope s)
      \<and> sc_resources (la_scope s) = (case la_request s of Some i \<Rightarrow> [(''request-controller'', (i, AbortController))] | None \<Rightarrow> [])
      \<and> mset (abortedControllers s) + mset (map fst (held (la_scope s))) = mset [0..<length (la_runs s)])"

lemma latest_okD:
  assumes "latest_ok s"
  shows "i < length (la_runs s) \<Longrightarrow> rd_generation (la_runs s ! i) \<le> la_generation s"
    and "live i s \<longleftrightarrow> la_request s = Some i"
    and "\<not> sc_disposed (la_scope s)"
    and "sc_resources (la_scope s) = (case la_request s of Some i \<Rightarrow> [(''request-controller'', (i, AbortController))] | None \<Rightarrow> [])"
    and "mset (abortedControllers s) + mset (map fst (held (la_scope s))) = mset [0..<length (la_runs s)]"
  using assms unfolding latest_ok_def by blast+

lemma created_ok: "latest_ok (createLatestResource v t)"
  by (simp add: latest_ok_def createLatestResource_def createLifecycleScope_def live_def readIsCurrent_def
      abortedControllers_def held_def)

lemma notify_ok [simp]: "latest_ok (latestNotify n s) = latest_ok s"
  by (simp add: latest_ok_def latestNotify_def live_def readIsCurrent_def readPhase_def abortedControllers_def)

lemma latest_error_ok [simp]: "latest_ok (la_error_update f s) = latest_ok s"
  by (simp add: latest_ok_def live_def readIsCurrent_def readPhase_def abortedControllers_def)

lemma assign_ok [simp]: "latest_ok (latestAssign v t s) = latest_ok s"
  by (simp add: latest_ok_def latestAssign_def live_def readIsCurrent_def readPhase_def abortedControllers_def)

lemma setPhase_generation: "rd_generation (la_runs (setPhase i p s) ! j) = rd_generation (la_runs s ! j)"
  by (cases "i < length (la_runs s)"; cases "i = j") (simp_all add: setPhase_def not_less list_update_beyond)

lemma setPhase_frame [simp]:
  "readIsCurrent j (setPhase i p s) = readIsCurrent j s" "la_request (setPhase i p s) = la_request s"
  "la_scope (setPhase i p s) = la_scope s" "la_value (setPhase i p s) = la_value s" "la_target (setPhase i p s) = la_target s"
  "la_error (setPhase i p s) = la_error s" "la_generation (setPhase i p s) = la_generation s" "la_aborted (setPhase i p s) = la_aborted s"
  "length (la_runs (setPhase i p s)) = length (la_runs s)"
  using setPhase_generation [of i p s j] by (simp_all add: readIsCurrent_def) (simp_all add: setPhase_def)

lemma readPhase_setPhase: "readPhase j (setPhase i p s) = (if j = i \<and> i < length (la_runs s) then p else readPhase j s)"
  by (auto simp: readPhase_def setPhase_def nth_list_update)

lemma renew_runs [simp]: "la_runs (renewScope s) = la_runs s" "la_generation (renewScope s) = Suc (la_generation s)"
  "la_scope (renewScope s) = createLifecycleScope" "la_request (renewScope s) = la_request s"
  by (simp_all add: renewScope_def)

text \<open>A renewal aborts what was held and leaves nothing live.\<close>

lemma renew_aborts:
  assumes "latest_ok s"
  shows "mset (la_aborted (renewScope s)) = mset [0..<length (la_runs s)]"
  using latest_okD(5) [OF assms] latest_okD(3) [OF assms]
  by (simp add: renewScope_def scopeDispose_def abortedControllers_def held_def multiset.map_comp ac_simps)

lemma renew_nothing_current: "latest_ok s \<Longrightarrow> i < length (la_runs s) \<Longrightarrow> rd_generation (la_runs s ! i) \<noteq> Suc (la_generation s)"
  using latest_okD(1) [of s i] by simp

lemma cleared_ok:
  assumes "latest_ok s"
  shows "latest_ok ((renewScope s)\<lparr>la_request := None\<rparr>)"
  using renew_aborts [OF assms] renew_nothing_current [OF assms] latest_okD(1) [OF assms]
  by (auto simp: latest_ok_def live_def readIsCurrent_def abortedControllers_def createLifecycleScope_def held_def
      readPhase_def le_SucI)

lemma replace_ok: "latest_ok s \<Longrightarrow> latest_ok (latestReplace v t s)"
  by (simp add: latestReplace_def cleared_ok)

lemma invalidate_ok: "latest_ok s \<Longrightarrow> latest_ok (latestInvalidate s)"
  using cleared_ok [of s] by (simp add: latestInvalidate_def)

lemma latest_read_ok:
  assumes "latest_ok s"
  shows "latest_ok (latestRead t s)"
proof (cases "la_request s \<noteq> None \<and> la_target s = t")
  case False
  let ?n = "length (la_runs s)" and ?s = "latestRead t s"
  have s: "la_runs ?s = la_runs s @ [\<lparr>rd_target = t, rd_generation = Suc (la_generation s), rd_phase = Loading\<rparr>]"
    "la_generation ?s = Suc (la_generation s)" "la_request ?s = Some ?n" "la_aborted ?s = la_aborted (renewScope s)"
    "la_scope ?s = \<lparr>sc_resources = [(''request-controller'', (?n, AbortController))], sc_disposed = False, sc_disposals = []\<rparr>"
    using False by (auto simp: latestRead_def Let_def latestNotify_def scopeReplace_def createLifecycleScope_def scopeValue_def)
  have "live i ?s \<longleftrightarrow> i = ?n" for i
    using renew_nothing_current [OF assms, of i] by (auto simp: live_def readIsCurrent_def readPhase_def s nth_append)
  moreover have "rd_generation (la_runs ?s ! i) \<le> la_generation ?s" if "i < length (la_runs ?s)" for i
    using that latest_okD(1) [OF assms, of i] by (auto simp: s nth_append less_Suc_eq intro: le_SucI)
  ultimately show ?thesis
    using renew_aborts [OF assms] by (auto simp: latest_ok_def s abortedControllers_def held_def)
qed (use assms in \<open>simp add: latestRead_def\<close>)

lemma latest_answered_ok:
  assumes "latest_ok s" "readPhase i s = Loading"
  shows "latest_ok (setPhase i Answered s)"
proof -
  have "live j (setPhase i Answered s) = live j s" for j
    using assms(2) by (auto simp: live_def readPhase_setPhase)
  then show ?thesis using assms(1) by (simp add: latest_ok_def abortedControllers_def setPhase_generation)
qed

lemma answer_ok: "latest_ok s \<Longrightarrow> latest_ok (latestAnswer app i ans s)"
  by (simp add: latestAnswer_def Let_def latest_answered_ok split: answer.split sum.split option.split)

lemma finally_ok:
  assumes "latest_ok s"
  shows "latest_ok (latestFinally i s)"
proof -
  let ?s1 = "setPhase i Settled s"
  have l: "live j ?s1 = (live j s \<and> j \<noteq> i)" for j
    by (auto simp: live_def readPhase_setPhase) (simp add: readIsCurrent_def)
  note ok = latest_okD [OF assms]
  show ?thesis
  proof (cases "readPhase i s \<noteq> Answered")
    case False
    show ?thesis
    proof (cases "la_request s = Some i")
      case True
      then have c: "readIsCurrent i s" using ok(2) [of i] by (simp add: live_def)
      have r: "scopeRelease ''request-controller'' (Some i) (la_scope s)
          = (disposeResource (i, AbortController) (dropResource ''request-controller'' (la_scope s)), True)"
        using ok(4) True by (simp add: scopeRelease_def scopeHolds_def)
      have "mset (abortedControllers s) + {#i#} = mset [0..<length (la_runs s)]"
        using ok(5) ok(4) True by (simp add: held_def)
      let ?s2 = "?s1\<lparr>la_request := None, la_scope := disposeResource (i, AbortController) (dropResource ''request-controller'' (la_scope s))\<rparr>"
      have e: "latestFinally i s = latestNotify NoticeSettled ?s2"
        using False True c r by (simp add: latestFinally_def Let_def)
      have "live j ?s2 = live j ?s1" for j by (simp add: live_def readIsCurrent_def readPhase_def)
      then have "\<not> live j ?s2" for j using l ok(2) True by simp
      moreover have "sc_resources (la_scope ?s2) = []" "\<not> sc_disposed (la_scope ?s2)"
        using ok(3,4) True by (simp_all add: disposeResource_def dropResource_def)
      moreover have "mset (abortedControllers ?s2) = mset [0..<length (la_runs s)]"
        using \<open>mset (abortedControllers s) + {#i#} = _\<close> by (simp add: abortedControllers_def disposeResource_def dropResource_def)
      ultimately have "latest_ok ?s2"
        using ok(1) by (simp add: latest_ok_def setPhase_generation held_def)
      then show ?thesis by (simp add: e)
    next
      case r: False
      have "\<not> live i s" using r ok(2) [of i] by simp
      then have "live j ?s1 = live j s" for j using l by auto
      then show ?thesis using assms False r
        by (simp add: latestFinally_def Let_def latest_ok_def abortedControllers_def setPhase_generation)
    qed
  qed (use assms in \<open>simp add: latestFinally_def\<close>)
qed

lemma latest_step_ok: "latest_step app s s' \<Longrightarrow> latest_ok s \<Longrightarrow> latest_ok s'"
  by (erule latest_stepE) (simp_all add: latest_read_ok answer_ok finally_ok replace_ok invalidate_ok)

end
