(* ===== verification/Lifecycle_Properties.thy ===== *)
theory Lifecycle_Properties
  imports Lifecycle_Scope
begin

text \<open>The properties of lifecycle scopes and latest resources.\<close>

text \<open>
  C19. A lifecycle scope loses nothing and disposes nothing twice: whatever a program does with it,
  everything handed to it is held, has been disposed once, or was taken back; a disposed scope holds
  nothing, also when something is handed to it later.
\<close>

theorem scope_disposes_exactly_once:
  assumes "s = scope_run ops createLifecycleScope"
  shows "mset (held s) + mset (sc_disposals s) + mset (all_taken_back ops createLifecycleScope)
      = mset (all_handed ops createLifecycleScope)
    \<and> (sc_disposed s \<longrightarrow> held s = [])"
  using scope_run_balance [OF createLifecycleScope_ok, of ops] scope_run_ok [OF createLifecycleScope_ok, of ops]
  by (simp add: assms scope_ok_def held_def createLifecycleScope_def)

definition timer_program :: "scope_op list" where
  "timer_program =
     [Replace ''retry'' (Some 1) ClearTimer, Replace ''stream'' (Some 2) CloseStream, Replace ''retry'' (Some 3) ClearTimer,
      Relinquish ''stream'' (Some 2), Dispose, Replace ''retry'' (Some 4) ClearTimer]"

theorem scope_disposes_exactly_once_witness:
  "mset (sc_disposals (scope_run timer_program createLifecycleScope)) + {# (2, CloseStream) #}
   = mset [(1, ClearTimer), (2, CloseStream), (3, ClearTimer), (4, ClearTimer)]"
proof -
  have "all_taken_back timer_program createLifecycleScope = [(2, CloseStream)]"
    "all_handed timer_program createLifecycleScope = [(1, ClearTimer), (2, CloseStream), (3, ClearTimer), (4, ClearTimer)]"
    "sc_disposed (scope_run timer_program createLifecycleScope)" by code_simp+
  with scope_disposes_exactly_once [OF refl, of timer_program] show ?thesis by auto
qed

interpretation latest: invariant_machine "latest_step app" "latest_ok :: ('t, 'v) latest \<Rightarrow> bool"
  for app :: "'p \<Rightarrow> 't \<Rightarrow> 'v \<Rightarrow> string + 'v option"
  by unfold_locales (rule latest_step_ok)

lemma not_live_answer:
  assumes "\<not> live i s"
  shows "la_value (latestAnswer app i ans s) = la_value s" "la_target (latestAnswer app i ans s) = la_target s"
    "la_error (latestAnswer app i ans s) = la_error s" "la_request (latestAnswer app i ans s) = la_request s"
  using assms by (auto simp: latestAnswer_def Let_def live_def)

text \<open>
  C20. The newest read wins: in every reachable state at most one read is live, the one the resource
  calls its request; every other read has had its controller aborted exactly once, and its answer,
  whatever it is and whenever it comes, changes neither the value nor the target, error or request.
\<close>

theorem latest_read_wins:
  assumes "(latest_step app)\<^sup>*\<^sup>* (createLatestResource initial noTarget) s" "i < length (la_runs s)"
  shows "(live i s \<longleftrightarrow> la_request s = Some i)
    \<and> count (mset (abortedControllers s)) i = (if live i s then 0 else 1)
    \<and> (\<not> live i s \<longrightarrow>
        la_value (latestAnswer app i ans s) = la_value s \<and> la_target (latestAnswer app i ans s) = la_target s
        \<and> la_error (latestAnswer app i ans s) = la_error s \<and> la_request (latestAnswer app i ans s) = la_request s)"
proof -
  have ok: "latest_ok s" by (rule latest.inv_reach [OF assms(1) created_ok])
  have "count (mset (abortedControllers s)) i + count (mset (map fst (held (la_scope s)))) i = count (mset [0..<length (la_runs s)]) i"
    using arg_cong [OF latest_okD(5) [OF ok], of "\<lambda>m. count m i"] by simp
  moreover have "count (mset [0..<length (la_runs s)]) i = 1" using assms(2) by (simp add: count_mset_set)
  moreover have "count (mset (map fst (held (la_scope s)))) i = (if la_request s = Some i then 1 else 0)"
    using latest_okD(4) [OF ok] by (auto simp: held_def split: option.split)
  ultimately show ?thesis using latest_okD(2) [OF ok, of i] not_live_answer [of i s app ans] by auto
qed

definition replied :: "string \<Rightarrow> string \<Rightarrow> string \<Rightarrow> string + string option" where
  "replied payload target previous = Inr (Some payload)"

definition two_reads :: "(string, string) latest" where
  "two_reads = latestRead ''b'' (latestRead ''a'' (createLatestResource [] []))"

theorem latest_read_wins_witness:
  "la_value (latestAnswer replied 0 (Loaded ''old'') two_reads) = []
   \<and> la_value (latestAnswer replied 1 (Loaded ''new'') two_reads) = ''new''"
proof -
  have "(latest_step replied)\<^sup>*\<^sup>* (createLatestResource [] []) two_reads"
    unfolding two_reads_def by (rule rtranclp.rtrancl_into_rtrancl [OF r_into_rtranclp]) (rule read)+
  from latest_read_wins [OF this, of 0 "Loaded ''old''"] have "la_value (latestAnswer replied 0 (Loaded ''old'') two_reads) = la_value two_reads"
    by (simp add: two_reads_def latestRead_def createLatestResource_def Let_def live_def readIsCurrent_def renewScope_def latestNotify_def)
  moreover have "la_value two_reads = []" by code_simp
  moreover have "la_value (latestAnswer replied 1 (Loaded ''new'') two_reads) = ''new''" by code_simp
  ultimately show ?thesis by simp
qed

end
