(* ===== verification/Client_Stream.thy ===== *)
theory Client_Stream
  imports Tab_Model Lifecycle_Scope "HOL-Library.List_Lexorder" "HOL-Library.Char_ord"
begin

text \<open>
  The connection of the client to the server's event stream (\<open>99_client_event_transport.js\<close> from
  \<open>clientEventDemandDescriptor\<close> on): which channels the page demands, the active stream, the
  candidate that replaces it when the demand changes, their retries and diagnostics.

  A stream is the index of its record in \<open>st_streams\<close>, a timer is a number. The text of a demand
  signature is modelled by the demand it is computed from. Every operation that reads the page takes
  its present demand as an argument, and every operation that opens a stream the outcome of
  \<open>new EventSource\<close>. Timers fire in later steps.
\<close>

section \<open>Demand\<close>

record page =
  pg_env :: env
  pg_visible :: bool
  pg_items :: "item list"
  pg_fileEditor :: "item \<Rightarrow> bool"
  pg_eventsTab :: "item \<Rightarrow> bool"
  pg_transcriptPreview :: "item \<Rightarrow> bool"
  pg_finderMode :: string
  pg_finderShown :: bool
  pg_statsPush :: bool
  pg_notifySystem :: bool
  pg_notifyInApp :: bool

record demand =
  dm_visible :: bool
  dm_panes :: "string list"
  dm_finder :: string
  dm_yoagent :: bool
  dm_chat :: bool
  dm_channels :: "string list"
  dm_operations :: "string list"
  dm_attention :: bool

definition normalizeFileExplorerMode :: "string \<Rightarrow> string" where
  "normalizeFileExplorerMode m = (if m = ''diff'' \<or> m = ''tabber'' then m else ''files'')"

definition finderActiveMode :: "page \<Rightarrow> string" where
  "finderActiveMode p = (if pg_finderShown p then normalizeFileExplorerMode (pg_finderMode p) else [])"

definition demand_channels :: "page \<Rightarrow> string list \<Rightarrow> string list" where
  "demand_channels p operations =
     (let xs = (if pg_visible p then pg_items p else []);
          finder = (fileExplorerItemId \<in> set xs);
          tmux = (\<lambda>f. list_ex (\<lambda>x. isTmuxSession (pg_env p) x \<and> f x) xs);
          chat = (pg_notifyInApp p \<or> pg_notifySystem p)
      in dedupe
           ((if pg_visible p
             then [''core'', ''status'']
               @ (if finder \<and> pg_finderMode p = ''tabber'' then [''activity''] else [])
               @ (if (finder \<and> pg_finderMode p \<noteq> ''tabber'') \<or> differItemId \<in> set xs \<or> list_ex (pg_fileEditor p) xs
                  then [''files''] else [])
               @ (if infoItemId \<in> set xs then [''activity'', ''transcripts''] else [])
               @ (if tmux (pg_eventsTab p) then [''events''] else [])
               @ (if debugPaneItemId \<in> set xs \<and> pg_statsPush p then [''stats''] else [])
               @ (if yoagentItemId \<in> set xs then [''activity'', ''transcripts'', ''yoagent''] else [])
               @ (if chatItemId \<in> set xs \<or> chat then [''chat''] else [])
               @ (if tmux (pg_transcriptPreview p) then [''transcripts''] else [])
             else if pg_notifySystem p then [''attention'', ''chat''] else [])
            @ (if operations \<noteq> [] then [''core''] else [])))"

definition clientEventDemandDescriptor :: "page \<Rightarrow> string list \<Rightarrow> demand" where
  "clientEventDemandDescriptor p pending =
     (let xs = (if pg_visible p then pg_items p else []); operations = sort pending
      in \<lparr>dm_visible = pg_visible p, dm_panes = sort xs, dm_finder = finderActiveMode p,
          dm_yoagent = (yoagentItemId \<in> set xs), dm_chat = (chatItemId \<in> set xs),
          dm_channels = sort (demand_channels p operations), dm_operations = operations,
          dm_attention = pg_notifySystem p\<rparr>)"

definition clientEventDemandItemLimit :: nat where "clientEventDemandItemLimit = 64"
definition clientEventDemandItemTextLimit :: nat where "clientEventDemandItemTextLimit = 128"

definition normalizedClientEventDemandItems :: "string list \<Rightarrow> string list" where
  "normalizedClientEventDemandItems xs =
     take clientEventDemandItemLimit
       (sort (dedupe (filter (\<lambda>x. x \<noteq> []) (map (\<lambda>x. take clientEventDemandItemTextLimit (js_trim x)) xs))))"

definition normalizeClientEventDemandDescriptor :: "demand \<Rightarrow> demand" where
  "normalizeClientEventDemandDescriptor d =
     d\<lparr>dm_channels := normalizedClientEventDemandItems (dm_channels d),
       dm_operations := normalizedClientEventDemandItems (dm_operations d)\<rparr>"

text \<open>Operation ids do not identify a connection.\<close>

definition clientEventDemandSignature :: "demand \<Rightarrow> demand" where
  "clientEventDemandSignature d = (normalizeClientEventDemandDescriptor d)\<lparr>dm_operations := []\<rparr>"

section \<open>State\<close>

definition clientEventCandidateRetryLimit :: nat where "clientEventCandidateRetryLimit = 3"

record disconnect_episode =
  de_id :: nat
  de_source :: "nat option"
  de_reported :: bool
  de_probed :: bool

record candidate_episode =
  ce_source :: nat
  ce_signature :: demand
  ce_attempts :: nat
  ce_probed :: bool

text \<open>A disconnect timer closes over the source it was scheduled for and its episode.\<close>

record disconnect_timer =
  dt_timer :: nat
  dt_source :: "nat option"
  dt_episode :: nat

record stream_info =
  si_channels :: "string list"
  si_operations :: "string list"
  si_signature :: demand

datatype stream_report = Failure nat | Recovered nat | CandidateFailed nat | Probe

record stream_state =
  st_source :: "nat option"
  st_candidate :: "nat option"
  st_connected :: bool
  st_reconnectPending :: bool
  st_disconnectTimer :: "disconnect_timer option"
  st_disconnectEpisode :: "disconnect_episode option"
  st_nextDisconnectEpisode :: nat
  st_enabled :: bool
  st_demand :: "demand option"
  st_demandSignature :: "demand option"
  st_demandTimer :: "nat option"
  st_candidateEpisode :: "candidate_episode option"
  st_resyncTimer :: "nat option"
  st_scope :: scope
  st_streams :: "stream_info list"
  st_closed :: "nat list"
  st_timerSerial :: nat
  st_reports :: "stream_report list"
  st_resyncs :: nat

definition stream_init :: stream_state where
  "stream_init = \<lparr>st_source = None, st_candidate = None, st_connected = False, st_reconnectPending = False,
     st_disconnectTimer = None, st_disconnectEpisode = None, st_nextDisconnectEpisode = 1, st_enabled = False,
     st_demand = None, st_demandSignature = None, st_demandTimer = None, st_candidateEpisode = None, st_resyncTimer = None,
     st_scope = createLifecycleScope, st_streams = [], st_closed = [], st_timerSerial = 0, st_reports = [], st_resyncs = 0\<rparr>"

definition closed_by :: "scope \<Rightarrow> nat list" where
  "closed_by sc = map fst (filter (\<lambda>r. snd r = CloseStream) (sc_disposals sc))"

definition closedStreams :: "stream_state \<Rightarrow> nat list" where
  "closedStreams s = st_closed s @ closed_by (st_scope s)"

definition stream_open :: "nat \<Rightarrow> stream_state \<Rightarrow> bool" where
  "stream_open i s = (i < length (st_streams s) \<and> i \<notin> set (closedStreams s))"

text \<open>A disposed scope is replaced when the current one is asked for.\<close>

definition currentClientEventTransportLifecycleScope :: "stream_state \<Rightarrow> stream_state" where
  "currentClientEventTransportLifecycleScope s =
     (if sc_disposed (st_scope s)
      then s\<lparr>st_scope := createLifecycleScope, st_closed := st_closed s @ closed_by (st_scope s)\<rparr> else s)"

definition inScope :: "(scope \<Rightarrow> scope) \<Rightarrow> stream_state \<Rightarrow> stream_state" where
  "inScope f s = (let s1 = currentClientEventTransportLifecycleScope s in s1\<lparr>st_scope := f (st_scope s1)\<rparr>)"

definition closeStream :: "nat \<Rightarrow> stream_state \<Rightarrow> stream_state" where
  "closeStream i s = s\<lparr>st_closed := st_closed s @ [i]\<rparr>"

text \<open>\<open>if (!scope.release(key, source)) source?.close?.()\<close>\<close>

definition releaseStream :: "string \<Rightarrow> nat option \<Rightarrow> stream_state \<Rightarrow> stream_state" where
  "releaseStream k source s =
     (let s1 = currentClientEventTransportLifecycleScope s
      in (case source of
            None \<Rightarrow> s1
          | Some i \<Rightarrow>
              (case scopeRelease k (Some i) (st_scope s1) of
                 (sc, True) \<Rightarrow> s1\<lparr>st_scope := sc\<rparr>
               | (sc, False) \<Rightarrow> closeStream i s1)))"

definition report :: "stream_report \<Rightarrow> stream_state \<Rightarrow> stream_state" where
  "report r s = s\<lparr>st_reports := st_reports s @ [r]\<rparr>"

section \<open>Disconnect episodes\<close>

definition clearClientEventDisconnectEpisode :: "nat option \<Rightarrow> bool \<Rightarrow> stream_state \<Rightarrow> stream_state" where
  "clearClientEventDisconnectEpisode source recovered s =
     (case st_disconnectEpisode s of
        None \<Rightarrow> s
      | Some e \<Rightarrow>
          if de_source e \<noteq> source then s
          else
            let s1 = (case st_disconnectTimer s of
                        Some t \<Rightarrow> inScope (\<lambda>sc. fst (scopeRelease ''disconnect-episode'' (Some (dt_timer t)) sc)) s
                      | None \<Rightarrow> s);
                s2 = s1\<lparr>st_disconnectTimer := None, st_disconnectEpisode := None\<rparr>
            in if recovered \<and> de_reported e then report (Recovered (de_id e)) s2 else s2)"

definition scheduleClientEventDisconnectEpisode :: "nat option \<Rightarrow> stream_state \<Rightarrow> stream_state" where
  "scheduleClientEventDisconnectEpisode source s =
     (if st_source s \<noteq> source then s
      else if (case st_disconnectEpisode s of Some e \<Rightarrow> de_source e = source | None \<Rightarrow> False) then s
      else
        let e = \<lparr>de_id = st_nextDisconnectEpisode s, de_source = source, de_reported = False, de_probed = (source \<noteq> None)\<rparr>;
            t = st_timerSerial s;
            s1 = s\<lparr>st_nextDisconnectEpisode := Suc (st_nextDisconnectEpisode s), st_disconnectEpisode := Some e,
                   st_timerSerial := Suc t\<rparr>;
            s2 = (if source \<noteq> None then report Probe s1 else s1)
        in inScope (ownTimer ''disconnect-episode'' t)
             (s2\<lparr>st_disconnectTimer := Some \<lparr>dt_timer = t, dt_source = source, dt_episode = de_id e\<rparr>\<rparr>))"

text \<open>The timer fires; a timer that has been released does not.\<close>

definition disconnectTimerFires :: "stream_state \<Rightarrow> stream_state" where
  "disconnectTimerFires s =
     (case st_disconnectTimer s of
        None \<Rightarrow> s
      | Some t \<Rightarrow>
          if sc_disposed (st_scope s) then s
          else
            let s1 = (inScope (\<lambda>sc. fst (scopeRelinquish ''disconnect-episode'' (Some (dt_timer t)) sc)) s)\<lparr>st_disconnectTimer := None\<rparr>
            in (case st_disconnectEpisode s of
                  None \<Rightarrow> s1
                | Some e \<Rightarrow>
                    if st_source s \<noteq> dt_source t \<or> st_connected s \<or> de_id e \<noteq> dt_episode t then s1
                    else report (Failure (de_id e)) (s1\<lparr>st_disconnectEpisode := Some (e\<lparr>de_reported := True\<rparr>)\<rparr>)))"

section \<open>Candidates\<close>

definition clearClientEventCandidateEpisode :: "nat option \<Rightarrow> stream_state \<Rightarrow> stream_state" where
  "clearClientEventCandidateEpisode source s =
     (case st_candidateEpisode s of
        None \<Rightarrow> s
      | Some e \<Rightarrow> if source \<noteq> None \<and> source \<noteq> Some (ce_source e) then s else s\<lparr>st_candidateEpisode := None\<rparr>)"

definition abandonClientEventCandidate :: "nat \<Rightarrow> stream_state \<Rightarrow> stream_state" where
  "abandonClientEventCandidate i s =
     (if st_candidate s \<noteq> Some i then s
      else releaseStream ''candidate-stream'' (Some i) (clearClientEventCandidateEpisode (Some i) (s\<lparr>st_candidate := None\<rparr>)))"

definition closeClientEventStream :: "stream_state \<Rightarrow> stream_state" where
  "closeClientEventStream s =
     (let source = st_source s; candidate = st_candidate s;
          s1 = (clearClientEventDisconnectEpisode source False s)\<lparr>st_source := None, st_candidate := None\<rparr>;
          s2 = releaseStream ''active-stream'' source ((clearClientEventCandidateEpisode None s1)\<lparr>st_connected := False\<rparr>)
      in if candidate \<noteq> source then releaseStream ''candidate-stream'' candidate s2 else s2)"

definition prepareClientEventOperationReplay :: "string \<Rightarrow> stream_state \<Rightarrow> stream_state" where
  "prepareClientEventOperationReplay operation s =
     (case st_source s of
        None \<Rightarrow> s
      | Some i \<Rightarrow>
          if operation = [] \<or> st_connected s \<or> operation \<in> set (si_operations (st_streams s ! i)) then s
          else closeClientEventStream s)"

section \<open>Opening a stream\<close>

datatype open_result = NoEventSource | OpenThrows | Opens

definition openFailed :: "stream_state \<Rightarrow> stream_state" where
  "openFailed s = scheduleClientEventDisconnectEpisode None (s\<lparr>st_connected := False, st_reconnectPending := True\<rparr>)"

definition openClientEventStream :: "open_result \<Rightarrow> demand \<Rightarrow> bool \<Rightarrow> stream_state \<Rightarrow> stream_state" where
  "openClientEventStream result raw replace s =
     (let d = normalizeClientEventDemandDescriptor raw; signature = clientEventDemandSignature raw
      in if dm_channels d = [] then s
         else if result \<noteq> Opens then openFailed s
         else
           let i = length (st_streams s);
               s1 = s\<lparr>st_streams := st_streams s @ [\<lparr>si_channels = dm_channels d, si_operations = dm_operations d, si_signature = signature\<rparr>],
                      st_disconnectEpisode := (case st_disconnectEpisode s of
                        Some e \<Rightarrow> Some (if de_source e = None then e\<lparr>de_source := Some i\<rparr> else e) | None \<Rightarrow> None)\<rparr>
           in if replace \<and> st_source s \<noteq> None
              then inScope (ownStream ''candidate-stream'' i)
                     (releaseStream ''candidate-stream'' (st_candidate s)
                       (s1\<lparr>st_candidate := Some i,
                           st_candidateEpisode := Some \<lparr>ce_source = i, ce_signature = signature, ce_attempts = 0, ce_probed = False\<rparr>\<rparr>))
              else inScope (ownStream ''active-stream'' i) (s1\<lparr>st_source := Some i\<rparr>))"

text \<open>\<open>timer\<close> is the timer that fired, \<open>None\<close> for an immediate call.\<close>

definition applyClientEventDemand :: "open_result \<Rightarrow> demand \<Rightarrow> nat option \<Rightarrow> stream_state \<Rightarrow> stream_state" where
  "applyClientEventDemand result d timer s =
     (if timer \<noteq> None \<and> (sc_disposed (st_scope s) \<or> st_demandTimer s \<noteq> timer) then s
      else
        let s1 = (case timer of Some t \<Rightarrow> inScope (\<lambda>sc. fst (scopeRelease ''demand'' (Some t) sc)) s | None \<Rightarrow> s);
            s2 = s1\<lparr>st_demandTimer := None\<rparr>;
            signature = clientEventDemandSignature d; same = (st_demandSignature s = Some signature);
            s3 = s2\<lparr>st_demand := Some d\<rparr>
        in if \<not> st_enabled s then s2
           else if same \<and> st_source s \<noteq> None then s3
           else
             let s4 = s3\<lparr>st_demandSignature := Some signature\<rparr>
             in if dm_channels d = [] then (if same then s4 else closeClientEventStream s4)
                else openClientEventStream result d (\<not> same) s4)"

definition releaseDemandTimer :: "stream_state \<Rightarrow> stream_state" where
  "releaseDemandTimer s =
     (case st_demandTimer s of
        Some t \<Rightarrow> inScope (\<lambda>sc. fst (scopeRelease ''demand'' (Some t) sc)) s
      | None \<Rightarrow> s)"

definition syncClientEventDemand :: "open_result \<Rightarrow> demand \<Rightarrow> bool \<Rightarrow> stream_state \<Rightarrow> stream_state" where
  "syncClientEventDemand result d immediate s =
     (if \<not> st_enabled s then s
      else
        let s1 = releaseDemandTimer s
        in if immediate then applyClientEventDemand result d None s1
           else
             let t = st_timerSerial s1
             in inScope (ownTimer ''demand'' t) (s1\<lparr>st_demandTimer := Some t, st_timerSerial := Suc t\<rparr>))"

definition demandTimerFires :: "open_result \<Rightarrow> demand \<Rightarrow> stream_state \<Rightarrow> stream_state" where
  "demandTimerFires result d s =
     (if st_demandTimer s = None then s else applyClientEventDemand result d (st_demandTimer s) s)"

definition installClientEventStream :: "open_result \<Rightarrow> demand \<Rightarrow> stream_state \<Rightarrow> stream_state" where
  "installClientEventStream result d s = syncClientEventDemand result d True (s\<lparr>st_enabled := True\<rparr>)"

definition scheduleReconnectResync :: "stream_state \<Rightarrow> stream_state" where
  "scheduleReconnectResync s =
     (let s1 = (case st_resyncTimer s of
                  Some t \<Rightarrow> inScope (\<lambda>sc. fst (scopeRelease ''resync'' (Some t) sc)) s | None \<Rightarrow> s);
          t = st_timerSerial s1
      in inScope (ownTimer ''resync'' t) (s1\<lparr>st_resyncTimer := Some t, st_timerSerial := Suc t\<rparr>))"

definition resyncTimerFires :: "stream_state \<Rightarrow> stream_state" where
  "resyncTimerFires s =
     (case st_resyncTimer s of
        None \<Rightarrow> s
      | Some t \<Rightarrow>
          if sc_disposed (st_scope s) then s
          else (inScope (\<lambda>sc. fst (scopeRelinquish ''resync'' (Some t) sc)) s)\<lparr>st_resyncTimer := None, st_resyncs := Suc (st_resyncs s)\<rparr>)"

section \<open>Events of a stream\<close>

text \<open>The result says whether the frame is handed on to \<open>clientEventReady\<close>.\<close>

definition streamReady :: "open_result \<Rightarrow> demand \<Rightarrow> nat \<Rightarrow> stream_state \<Rightarrow> stream_state \<times> bool" where
  "streamReady result d i s =
     (let served = (\<lambda>s. ((clearClientEventDisconnectEpisode (Some i) True s)\<lparr>st_reconnectPending := False, st_connected := True\<rparr>, True))
      in if st_candidate s = Some i
         then (if si_signature (st_streams s ! i) \<noteq> clientEventDemandSignature d
               then (syncClientEventDemand result d True
                       (closeStream i (clearClientEventCandidateEpisode (Some i) (s\<lparr>st_candidate := None\<rparr>))), False)
               else served (inScope (\<lambda>sc. ownStream ''active-stream'' i (fst (scopeRelinquish ''candidate-stream'' (Some i) sc)))
                      (clearClientEventCandidateEpisode (Some i) (s\<lparr>st_source := Some i, st_candidate := None\<rparr>))))
         else if st_source s = Some i then served s
         else (s, False))"

text \<open>A ping or a pushed event of the active stream; events of any other stream are ignored.\<close>

definition streamEvent :: "nat \<Rightarrow> stream_state \<Rightarrow> stream_state \<times> bool" where
  "streamEvent i s = (if st_source s = Some i then (s\<lparr>st_connected := True\<rparr>, True) else (s, False))"

definition candidateError :: "open_result \<Rightarrow> demand \<Rightarrow> nat \<Rightarrow> stream_state \<Rightarrow> stream_state" where
  "candidateError result d i s =
     (case st_candidateEpisode s of
        None \<Rightarrow> s
      | Some e \<Rightarrow>
          if ce_source e \<noteq> i then s
          else
            let e' = e\<lparr>ce_attempts := Suc (ce_attempts e), ce_probed := True\<rparr>;
                s1 = (if ce_probed e then s else report Probe s)\<lparr>st_candidateEpisode := Some e'\<rparr>
            in if ce_attempts e' < clientEventCandidateRetryLimit then s1
               else
                 let s2 = (abandonClientEventCandidate i s1)\<lparr>st_connected := False, st_reconnectPending := True\<rparr>;
                     s3 = (report (CandidateFailed (ce_attempts e')) s2)\<lparr>st_demandSignature := None\<rparr>
                 in syncClientEventDemand result d True (scheduleReconnectResync s3))"

definition streamError :: "open_result \<Rightarrow> demand \<Rightarrow> nat \<Rightarrow> stream_state \<Rightarrow> stream_state" where
  "streamError result d i s =
     (if st_candidate s = Some i then candidateError result d i s
      else if st_source s \<noteq> Some i then s
      else scheduleClientEventDisconnectEpisode (Some i) (s\<lparr>st_connected := False, st_reconnectPending := True\<rparr>))"

definition disposeClientEventTransportLifecycle :: "stream_state \<Rightarrow> stream_state" where
  "disposeClientEventTransportLifecycle s =
     s\<lparr>st_scope := fst (scopeDispose (st_scope s)), st_source := None, st_candidate := None, st_connected := False,
       st_disconnectTimer := None, st_disconnectEpisode := None, st_candidateEpisode := None, st_demandTimer := None,
       st_resyncTimer := None\<rparr>"

definition retireAuthentication :: "stream_state \<Rightarrow> stream_state" where
  "retireAuthentication s = disposeClientEventTransportLifecycle (s\<lparr>st_enabled := False\<rparr>)"

definition pageshow :: "open_result \<Rightarrow> demand \<Rightarrow> bool \<Rightarrow> stream_state \<Rightarrow> stream_state" where
  "pageshow result d persisted s = (if persisted \<and> st_enabled s then syncClientEventDemand result d True s else s)"

text \<open>Steps in which \<open>new EventSource\<close> succeeds are marked by \<open>r = Opens\<close>.\<close>

inductive stream_step :: "open_result \<Rightarrow> stream_state \<Rightarrow> stream_state \<Rightarrow> bool" where
  install: "stream_step r s (installClientEventStream r d s)"
| sync: "stream_step r s (syncClientEventDemand r d immediate s)"
| demand_timer: "stream_step r s (demandTimerFires r d s)"
| prepare: "stream_step r s (prepareClientEventOperationReplay operation s)"
| ready: "stream_step r s (fst (streamReady r d i s))"
| event: "stream_step r s (fst (streamEvent i s))"
| error: "stream_step r s (streamError r d i s)"
| disconnect_timer: "stream_step r s (disconnectTimerFires s)"
| resync: "stream_step r s (scheduleReconnectResync s)"
| resync_timer: "stream_step r s (resyncTimerFires s)"
| dispose: "stream_step r s (disposeClientEventTransportLifecycle s)"
| retire: "stream_step r s (retireAuthentication s)"
| pageshow: "stream_step r s (pageshow r d persisted s)"

inductive_cases stream_stepE: "stream_step r s s'"

end
