(* ===== verification/Client_Stream_Invariants.thy ===== *)
theory Client_Stream_Invariants
  imports Client_Stream
begin

text \<open>
  The invariant of the event-stream connection: the open streams are exactly the active one and the
  candidate, the lifecycle scope holds them, and the stream that serves was opened for the demand
  that is in force.
\<close>

section \<open>What the scope holds\<close>

definition stream_keys :: "string set" where
  "stream_keys = {''active-stream'', ''candidate-stream''}"

definition typed :: "scope \<Rightarrow> bool" where
  "typed sc = (scope_ok sc \<and>
     (\<forall>k v d. map_of (sc_resources sc) k = Some (v, d) \<longrightarrow> d = (if k \<in> stream_keys then CloseStream else ClearTimer)))"

definition cl :: "stream_state \<Rightarrow> nat set" where
  "cl s = set (closedStreams s)"

definition owns :: "string \<Rightarrow> stream_state \<Rightarrow> nat option" where
  "owns k s = scopeValue k (st_scope s)"

lemma typedD: "typed sc \<Longrightarrow> map_of (sc_resources sc) k = Some r \<Longrightarrow> snd r = (if k \<in> stream_keys then CloseStream else ClearTimer)"
  unfolding typed_def by (cases r) auto

lemma typed_ok: "typed sc \<Longrightarrow> scope_ok sc"
  by (simp add: typed_def)

lemma typed_new: "typed createLifecycleScope"
  by (simp add: typed_def createLifecycleScope_ok) (simp add: createLifecycleScope_def)

lemma typed_disposed: "typed sc \<Longrightarrow> sc_disposed sc \<Longrightarrow> sc_resources sc = []"
  by (simp add: typed_def scope_ok_def)

lemma closed_by_more: "set (closed_by (disposeResource r sc)) = set (closed_by sc) \<union> (if snd r = CloseStream then {fst r} else {})"
  by (simp add: closed_by_def disposeResource_def)

lemma closed_by_frame [simp]:
  "closed_by (dropResource k sc) = closed_by sc" "closed_by (sc\<lparr>sc_resources := x\<rparr>) = closed_by sc"
  by (simp_all add: closed_by_def dropResource_def)

lemma resources_frame [simp]:
  "sc_resources (disposeResource r sc) = sc_resources sc" "sc_disposed (disposeResource r sc) = sc_disposed sc"
  "sc_resources (dropResource k sc) = AList.delete k (sc_resources sc)" "sc_disposed (dropResource k sc) = sc_disposed sc"
  by (simp_all add: disposeResource_def dropResource_def)

lemma typed_drop: "typed sc \<Longrightarrow> typed (dropResource k sc)"
  by (auto simp: typed_def scope_ok_def distinct_delete split: if_splits)

lemma typed_dispose [simp]: "typed (disposeResource r sc) = typed sc"
  by (simp add: typed_def scope_ok_def)

lemma scopeValue_frame [simp]:
  "scopeValue j (disposeResource r sc) = scopeValue j sc"
  "scopeValue j (dropResource k sc) = (if j = k then None else scopeValue j sc)"
  by (simp_all add: scopeValue_def)

subsection \<open>Replacing, releasing, relinquishing\<close>

lemma replace_facts:
  fixes v :: nat
  assumes t: "typed sc" and live: "\<not> sc_disposed sc" and d: "d = (if k \<in> stream_keys then CloseStream else ClearTimer)"
  defines "sc' \<equiv> scopeReplace k (Some v) d sc"
  shows "typed sc'" "sc_disposed sc' = False" "scopeValue j sc' = (if j = k then Some v else scopeValue j sc)"
    "set (closed_by sc') = set (closed_by sc) \<union> (if k \<in> stream_keys then set_option (scopeValue k sc) - {v} else {})"
proof -
  show "typed sc'"
  proof (cases "scopeValue k sc = Some v")
    case False
    have "scope_ok sc'" using scope_do_ok [OF typed_ok [OF t], of "Replace k (Some v) d"] by (simp add: sc'_def)
    moreover have "map_of (sc_resources sc') j = (if j = k then Some (v, d) else map_of (sc_resources sc) j)" for j
      using False live by (cases "map_of (sc_resources sc) k")
        (auto simp: sc'_def scopeReplace_def scopeValue_def map_add_def split: option.split)
    ultimately show ?thesis using t d by (auto simp: typed_def split: if_splits)
  qed (use t in \<open>simp add: sc'_def scopeReplace_def\<close>)
  show "sc_disposed sc' = False" using live by (simp add: sc'_def scopeReplace_def Let_def split: option.split)
  show "scopeValue j sc' = (if j = k then Some v else scopeValue j sc)"
    using live by (cases "map_of (sc_resources sc) k")
      (auto simp: sc'_def scopeReplace_def scopeValue_def map_add_def Let_def split: option.split)
  show "set (closed_by sc') = set (closed_by sc) \<union> (if k \<in> stream_keys then set_option (scopeValue k sc) - {v} else {})"
    using live typedD [OF t, of k] by (cases "map_of (sc_resources sc) k")
      (auto simp: sc'_def scopeReplace_def scopeValue_def closed_by_more)
qed

lemma release_facts:
  assumes t: "typed sc"
  shows "typed (fst (scopeRelease k (Some v) sc))" "sc_disposed (fst (scopeRelease k (Some v) sc)) = sc_disposed sc"
    "snd (scopeRelease k (Some v) sc) = (scopeValue k sc = Some v)"
    "scopeValue j (fst (scopeRelease k (Some v) sc)) = (if j = k \<and> scopeValue k sc = Some v then None else scopeValue j sc)"
    "set (closed_by (fst (scopeRelease k (Some v) sc))) = set (closed_by sc) \<union> (if k \<in> stream_keys \<and> scopeValue k sc = Some v then {v} else {})"
  using typedD [OF t, of k] typed_drop [OF t, of k]
  by (auto simp: scopeRelease_def scopeHolds_def t scopeValue_def closed_by_more split: option.split)

lemma relinquish_facts:
  assumes t: "typed sc"
  shows "typed (fst (scopeRelinquish k (Some v) sc))" "sc_disposed (fst (scopeRelinquish k (Some v) sc)) = sc_disposed sc"
    "scopeValue j (fst (scopeRelinquish k (Some v) sc)) = (if j = k \<and> scopeValue k sc = Some v then None else scopeValue j sc)"
    "closed_by (fst (scopeRelinquish k (Some v) sc)) = closed_by sc"
  using typed_drop [OF t, of k]
  by (auto simp: scopeRelinquish_def scopeHolds_def t scopeValue_def split: option.split)

section \<open>The streams of the client\<close>

definition linked :: "stream_state \<Rightarrow> bool" where
  "linked s =
     (typed (st_scope s) \<and> owns ''active-stream'' s = st_source s
      \<and> (\<forall>i. owns ''candidate-stream'' s = Some i \<longrightarrow> st_candidate s = Some i \<or> i \<in> cl s)
      \<and> (\<forall>i. st_candidate s = Some i \<longrightarrow> owns ''candidate-stream'' s = Some i)
      \<and> (\<forall>i < length (st_streams s). i \<notin> cl s \<longleftrightarrow> st_source s = Some i \<or> st_candidate s = Some i)
      \<and> (\<forall>i. st_source s = Some i \<or> st_candidate s = Some i \<longrightarrow> i < length (st_streams s))
      \<and> (st_candidate s \<noteq> None \<longrightarrow> st_source s \<noteq> None \<and> st_candidate s \<noteq> st_source s)
      \<and> (\<forall>i \<in> cl s. i < length (st_streams s)))"

lemma linkedD:
  assumes "linked s"
  shows "typed (st_scope s)" "owns ''active-stream'' s = st_source s"
    "owns ''candidate-stream'' s = Some i \<Longrightarrow> st_candidate s = Some i \<or> i \<in> cl s"
    "st_candidate s = Some i \<Longrightarrow> owns ''candidate-stream'' s = Some i"
    "i < length (st_streams s) \<Longrightarrow> i \<notin> cl s \<longleftrightarrow> st_source s = Some i \<or> st_candidate s = Some i"
    "st_source s = Some i \<Longrightarrow> i < length (st_streams s)" "st_candidate s = Some i \<Longrightarrow> i < length (st_streams s)"
    "st_candidate s = Some i \<Longrightarrow> st_source s \<noteq> None \<and> st_source s \<noteq> Some i"
    "i \<in> cl s \<Longrightarrow> i < length (st_streams s)"
proof -
  show "typed (st_scope s)" "owns ''active-stream'' s = st_source s"
    "owns ''candidate-stream'' s = Some i \<Longrightarrow> st_candidate s = Some i \<or> i \<in> cl s"
    "st_candidate s = Some i \<Longrightarrow> owns ''candidate-stream'' s = Some i"
    "i < length (st_streams s) \<Longrightarrow> i \<notin> cl s \<longleftrightarrow> st_source s = Some i \<or> st_candidate s = Some i"
    "st_source s = Some i \<Longrightarrow> i < length (st_streams s)" "st_candidate s = Some i \<Longrightarrow> i < length (st_streams s)"
    "i \<in> cl s \<Longrightarrow> i < length (st_streams s)"
    using assms unfolding linked_def by blast+
  show "st_candidate s = Some i \<Longrightarrow> st_source s \<noteq> None \<and> st_source s \<noteq> Some i"
    using assms unfolding linked_def by (metis option.distinct(1))
qed

text \<open>A change that the streams do not see.\<close>

definition same_streams :: "stream_state \<Rightarrow> stream_state \<Rightarrow> bool" where
  "same_streams s s' =
     (typed (st_scope s') \<and> (\<forall>k \<in> stream_keys. owns k s' = owns k s) \<and> cl s' = cl s
      \<and> st_source s' = st_source s \<and> st_candidate s' = st_candidate s \<and> st_streams s' = st_streams s)"

lemma same_streams_linked: "same_streams s s' \<Longrightarrow> linked s \<Longrightarrow> linked s'"
  by (simp add: same_streams_def linked_def stream_keys_def)

lemma same_streams_trans: "same_streams s t \<Longrightarrow> same_streams t u \<Longrightarrow> same_streams s u"
  by (simp add: same_streams_def)

lemma same_streams_frame:
  "typed (st_scope s) \<Longrightarrow> st_scope s' = st_scope s \<Longrightarrow> st_closed s' = st_closed s \<Longrightarrow> st_source s' = st_source s
   \<Longrightarrow> st_candidate s' = st_candidate s \<Longrightarrow> st_streams s' = st_streams s \<Longrightarrow> same_streams s s'"
  by (simp add: same_streams_def owns_def cl_def closedStreams_def)

lemma current_scope:
  assumes "typed (st_scope s)"
  defines "s' \<equiv> currentClientEventTransportLifecycleScope s"
  shows "typed (st_scope s')" "\<not> sc_disposed (st_scope s')" "owns k s' = owns k s" "cl s' = cl s"
    "st_source s' = st_source s" "st_candidate s' = st_candidate s" "st_streams s' = st_streams s"
    "st_connected s' = st_connected s" "st_enabled s' = st_enabled s" "st_demandSignature s' = st_demandSignature s"
    "st_candidateEpisode s' = st_candidateEpisode s"
  using assms typed_new typed_disposed [OF assms(1)]
  by (auto simp: currentClientEventTransportLifecycleScope_def owns_def cl_def closedStreams_def closed_by_def
      createLifecycleScope_def scopeValue_def)

lemma inScope_same:
  assumes "typed (st_scope s)"
    and "\<And>sc. typed sc \<Longrightarrow> \<not> sc_disposed sc \<Longrightarrow> typed (f sc)"
    and "\<And>sc k. typed sc \<Longrightarrow> \<not> sc_disposed sc \<Longrightarrow> k \<in> stream_keys \<Longrightarrow> scopeValue k (f sc) = scopeValue k sc"
    and "\<And>sc. typed sc \<Longrightarrow> \<not> sc_disposed sc \<Longrightarrow> set (closed_by (f sc)) = set (closed_by sc)"
  shows "same_streams s (inScope f s)"
  using current_scope [OF assms(1)] assms(2-)
  by (simp add: same_streams_def inScope_def Let_def owns_def cl_def closedStreams_def)

definition timer_keys :: "string set" where
  "timer_keys = {''demand'', ''disconnect-episode'', ''resync''}"

lemma timer_keys_no_stream: "k \<in> timer_keys \<Longrightarrow> k \<notin> stream_keys"
  by (auto simp: timer_keys_def stream_keys_def)

lemma own_timer_same: "typed (st_scope s) \<Longrightarrow> k \<in> timer_keys \<Longrightarrow> same_streams s (inScope (ownTimer k t) s)"
  using replace_facts [where d = ClearTimer and k = k and v = t] timer_keys_no_stream [of k]
  by (intro inScope_same) (auto simp: ownTimer_def)

lemma release_timer_same:
  "typed (st_scope s) \<Longrightarrow> k \<in> timer_keys \<Longrightarrow> same_streams s (inScope (\<lambda>sc. fst (scopeRelease k (Some t) sc)) s)"
  using release_facts [where k = k and v = t] timer_keys_no_stream [of k] by (intro inScope_same) auto

lemma relinquish_timer_same:
  "typed (st_scope s) \<Longrightarrow> k \<in> timer_keys \<Longrightarrow> same_streams s (inScope (\<lambda>sc. fst (scopeRelinquish k (Some t) sc)) s)"
  using relinquish_facts [where k = k and v = t] timer_keys_no_stream [of k] by (intro inScope_same) auto

lemma inScope_frame [simp]:
  "st_source (inScope f s) = st_source s" "st_candidate (inScope f s) = st_candidate s" "st_streams (inScope f s) = st_streams s"
  "st_connected (inScope f s) = st_connected s" "st_enabled (inScope f s) = st_enabled s"
  "st_demandSignature (inScope f s) = st_demandSignature s" "st_candidateEpisode (inScope f s) = st_candidateEpisode s"
  "st_demandTimer (inScope f s) = st_demandTimer s" "st_disconnectEpisode (inScope f s) = st_disconnectEpisode s"
  by (simp_all add: inScope_def currentClientEventTransportLifecycleScope_def Let_def)

lemma releaseStream_frame [simp]:
  "st_source (releaseStream k i s) = st_source s" "st_candidate (releaseStream k i s) = st_candidate s"
  "st_streams (releaseStream k i s) = st_streams s" "st_connected (releaseStream k i s) = st_connected s"
  "st_enabled (releaseStream k i s) = st_enabled s" "st_demandSignature (releaseStream k i s) = st_demandSignature s"
  "st_candidateEpisode (releaseStream k i s) = st_candidateEpisode s"
  by (simp_all add: releaseStream_def currentClientEventTransportLifecycleScope_def Let_def closeStream_def
      split: option.split prod.split bool.split)

text \<open>Releasing a stream closes it, whether the scope holds it or not.\<close>

lemma releaseStream_facts:
  assumes "typed (st_scope s)" "k \<in> stream_keys"
  shows "typed (st_scope (releaseStream k source s))"
    "owns j (releaseStream k source s) = (if j = k \<and> source \<noteq> None \<and> owns k s = source then None else owns j s)"
    "cl (releaseStream k source s) = cl s \<union> set_option source"
proof -
  let ?c = "currentClientEventTransportLifecycleScope s"
  note c = current_scope [OF assms(1)]
  note r = release_facts [OF c(1), where k = k]
  show "typed (st_scope (releaseStream k source s))"
    "owns j (releaseStream k source s) = (if j = k \<and> source \<noteq> None \<and> owns k s = source then None else owns j s)"
    "cl (releaseStream k source s) = cl s \<union> set_option source"
  proof (atomize (full), cases source)
    case (Some i)
    show "typed (st_scope (releaseStream k source s)) \<and>
      owns j (releaseStream k source s) = (if j = k \<and> source \<noteq> None \<and> owns k s = source then None else owns j s) \<and>
      cl (releaseStream k source s) = cl s \<union> set_option source"
      using r [where v = i] c(1,3,4) assms(2) Some
      by (cases "scopeRelease k (Some i) (st_scope ?c)"; cases "snd (scopeRelease k (Some i) (st_scope ?c))")
        (auto simp: releaseStream_def Let_def closeStream_def owns_def cl_def closedStreams_def)
  qed (use c in \<open>simp add: releaseStream_def\<close>)
qed

lemma ownStream_facts:
  assumes "typed (st_scope s)" "k \<in> stream_keys"
  shows "typed (st_scope (inScope (ownStream k i) s))"
    "owns j (inScope (ownStream k i) s) = (if j = k then Some i else owns j s)"
    "cl (inScope (ownStream k i) s) = cl s \<union> (set_option (owns k s) - {i})"
  using replace_facts [OF current_scope(1,2) [OF assms(1)], where d = CloseStream and k = k and v = i] assms(2) current_scope [OF assms(1)]
  by (simp_all add: inScope_def Let_def ownStream_def owns_def cl_def closedStreams_def) auto

section \<open>Quiet changes\<close>

definition quiet :: "stream_state \<Rightarrow> stream_state \<Rightarrow> bool" where
  "quiet s s' =
     (same_streams s s' \<and> st_connected s' = st_connected s \<and> st_enabled s' = st_enabled s
      \<and> st_candidateEpisode s' = st_candidateEpisode s \<and> st_demandSignature s' = st_demandSignature s)"

lemma quiet_trans: "quiet s t \<Longrightarrow> quiet t u \<Longrightarrow> quiet s u"
  unfolding quiet_def using same_streams_trans by metis

lemma quiet_typed: "quiet s t \<Longrightarrow> typed (st_scope t)"
  by (simp add: quiet_def same_streams_def)

lemma quiet_frame:
  "typed (st_scope s) \<Longrightarrow> st_scope s' = st_scope s \<Longrightarrow> st_closed s' = st_closed s \<Longrightarrow> st_source s' = st_source s
   \<Longrightarrow> st_candidate s' = st_candidate s \<Longrightarrow> st_streams s' = st_streams s \<Longrightarrow> st_connected s' = st_connected s
   \<Longrightarrow> st_enabled s' = st_enabled s \<Longrightarrow> st_candidateEpisode s' = st_candidateEpisode s
   \<Longrightarrow> st_demandSignature s' = st_demandSignature s \<Longrightarrow> quiet s s'"
  by (simp add: quiet_def same_streams_frame)

lemma quiet_timers:
  assumes "typed (st_scope s)" "k \<in> timer_keys"
  shows "quiet s (inScope (ownTimer k t) s)" "quiet s (inScope (\<lambda>sc. fst (scopeRelease k (Some t) sc)) s)"
    "quiet s (inScope (\<lambda>sc. fst (scopeRelinquish k (Some t) sc)) s)"
  using own_timer_same [OF assms] release_timer_same [OF assms] relinquish_timer_same [OF assms]
  by (simp_all add: quiet_def)

lemma timer_keys_mem [simp]: "''demand'' \<in> timer_keys" "''disconnect-episode'' \<in> timer_keys" "''resync'' \<in> timer_keys"
  by (simp_all add: timer_keys_def)

lemma quiet_updates [simp]:
  "quiet s (st_reports_update f t) = quiet s t" "quiet s (st_disconnectTimer_update g t) = quiet s t"
  "quiet s (st_disconnectEpisode_update h t) = quiet s t" "quiet s (st_nextDisconnectEpisode_update n t) = quiet s t"
  "quiet s (st_timerSerial_update n t) = quiet s t" "quiet s (st_demandTimer_update d t) = quiet s t"
  "quiet s (st_resyncTimer_update r t) = quiet s t" "quiet s (st_resyncs_update n t) = quiet s t"
  "quiet s (st_demand_update e t) = quiet s t" "quiet s (st_reconnectPending_update p t) = quiet s t"
  by (simp_all add: quiet_def same_streams_def owns_def cl_def closedStreams_def)

lemma quiet_refl: "typed (st_scope s) \<Longrightarrow> quiet s s"
  by (rule quiet_frame) simp_all

lemma quiet_report [simp]: "quiet s (report r t) = quiet s t"
  by (simp add: report_def)

lemma clear_disconnect_quiet: "typed (st_scope s) \<Longrightarrow> quiet s (clearClientEventDisconnectEpisode source recovered s)"
  by (simp add: clearClientEventDisconnectEpisode_def Let_def quiet_refl quiet_timers split: option.split)

lemma schedule_disconnect_quiet:
  assumes "typed (st_scope s)"
  shows "quiet s (scheduleClientEventDisconnectEpisode source s)"
proof -
  have "quiet s (inScope (ownTimer ''disconnect-episode'' t) u)" if "quiet s u" for t u
    using quiet_trans [OF that quiet_timers(1) [OF quiet_typed [OF that]]] by simp
  then show ?thesis
    using assms by (simp add: scheduleClientEventDisconnectEpisode_def Let_def quiet_refl)
qed

lemma disconnect_fires_quiet: "typed (st_scope s) \<Longrightarrow> quiet s (disconnectTimerFires s)"
  by (simp add: disconnectTimerFires_def Let_def quiet_refl quiet_timers split: option.split)

lemma release_demand_quiet: "typed (st_scope s) \<Longrightarrow> quiet s (releaseDemandTimer s)"
  by (simp add: releaseDemandTimer_def quiet_refl quiet_timers split: option.split)

lemma quiet_own_timer: "quiet s u \<Longrightarrow> k \<in> timer_keys \<Longrightarrow> quiet s (inScope (ownTimer k t) u)"
  using quiet_trans [OF _ quiet_timers(1) [OF quiet_typed]] by blast

lemma resync_quiet: "typed (st_scope s) \<Longrightarrow> quiet s (scheduleReconnectResync s)"
  by (simp add: scheduleReconnectResync_def Let_def quiet_own_timer quiet_refl quiet_timers split: option.split)

lemma resync_fires_quiet: "typed (st_scope s) \<Longrightarrow> quiet s (resyncTimerFires s)"
  by (simp add: resyncTimerFires_def quiet_refl quiet_timers split: option.split)

section \<open>The invariant\<close>

definition stream_ok :: "stream_state \<Rightarrow> bool" where
  "stream_ok s =
     (linked s \<and> (st_connected s \<longrightarrow> st_source s \<noteq> None)
      \<and> st_candidate s = map_option ce_source (st_candidateEpisode s)
      \<and> (\<forall>e. st_candidateEpisode s = Some e \<longrightarrow> ce_attempts e < clientEventCandidateRetryLimit)
      \<and> (\<not> st_enabled s \<longrightarrow> st_source s = None))"

lemma stream_ok_linked: "stream_ok s \<Longrightarrow> linked s"
  by (simp add: stream_ok_def)

lemma stream_ok_typed: "stream_ok s \<Longrightarrow> typed (st_scope s)"
  using linkedD(1) stream_ok_linked by blast

lemma quiet_ok: "quiet s s' \<Longrightarrow> stream_ok s \<Longrightarrow> stream_ok s'"
  unfolding quiet_def stream_ok_def using same_streams_linked by (metis same_streams_def)

lemma stream_init_ok: "stream_ok stream_init"
  by (simp add: stream_ok_def stream_init_def linked_def typed_new owns_def)
    (simp add: createLifecycleScope_def scopeValue_def cl_def closedStreams_def closed_by_def)

lemma linked_frame:
  "st_scope s' = st_scope s \<Longrightarrow> st_closed s' = st_closed s \<Longrightarrow> st_source s' = st_source s
   \<Longrightarrow> st_candidate s' = st_candidate s \<Longrightarrow> st_streams s' = st_streams s \<Longrightarrow> linked s' = linked s"
  by (simp add: linked_def owns_def cl_def closedStreams_def)

lemma disconnected_ok: "stream_ok s \<Longrightarrow> stream_ok (s\<lparr>st_connected := False, st_reconnectPending := p\<rparr>)"
  by (simp add: stream_ok_def linked_frame [of "s\<lparr>st_connected := False, st_reconnectPending := p\<rparr>" s])

lemma openFailed_ok: "stream_ok s \<Longrightarrow> stream_ok (openFailed s)"
  unfolding openFailed_def
  using quiet_ok [OF schedule_disconnect_quiet [OF stream_ok_typed [OF disconnected_ok]] disconnected_ok] by blast

lemma signature_ok [simp]: "stream_ok (st_demandSignature_update f s) = stream_ok s"
  using linked_frame [of "st_demandSignature_update f s" s] by (simp add: stream_ok_def)

lemma plain_updates_ok [simp]:
  "stream_ok (st_demand_update f s) = stream_ok s" "stream_ok (st_demandTimer_update g s) = stream_ok s"
  "stream_ok (st_reports_update h s) = stream_ok s" "stream_ok (st_timerSerial_update k s) = stream_ok s"
  "stream_ok (st_reconnectPending_update p s) = stream_ok s" "stream_ok (st_disconnectEpisode_update q s) = stream_ok s"
  by (simp_all add: stream_ok_def linked_def owns_def cl_def closedStreams_def)

lemma report_ok [simp]: "stream_ok (report r s) = stream_ok s"
  by (simp add: report_def)

lemma connect_ok: "stream_ok s \<Longrightarrow> st_source s \<noteq> None \<Longrightarrow> stream_ok (s\<lparr>st_connected := c\<rparr>)"
  using linked_frame [of "s\<lparr>st_connected := c\<rparr>" s] by (simp add: stream_ok_def)

section \<open>Closing and opening\<close>

lemma stream_keys_mem [simp]: "''active-stream'' \<in> stream_keys" "''candidate-stream'' \<in> stream_keys"
  by (simp_all add: stream_keys_def)

text \<open>Forgetting both streams and closing them.\<close>

lemma clear_candidate_frame [simp]:
  "st_scope (clearClientEventCandidateEpisode i s) = st_scope s" "st_closed (clearClientEventCandidateEpisode i s) = st_closed s"
  "st_source (clearClientEventCandidateEpisode i s) = st_source s" "st_candidate (clearClientEventCandidateEpisode i s) = st_candidate s"
  "st_streams (clearClientEventCandidateEpisode i s) = st_streams s" "st_connected (clearClientEventCandidateEpisode i s) = st_connected s"
  "st_enabled (clearClientEventCandidateEpisode i s) = st_enabled s"
  "st_demandSignature (clearClientEventCandidateEpisode i s) = st_demandSignature s"
  by (simp_all add: clearClientEventCandidateEpisode_def split: option.split)

lemma clear_candidate_all: "st_candidateEpisode (clearClientEventCandidateEpisode None s) = None"
  by (simp add: clearClientEventCandidateEpisode_def split: option.split)

lemma candidate_has_episode: "stream_ok s \<Longrightarrow> st_candidate s = Some i \<Longrightarrow> \<exists>e. st_candidateEpisode s = Some e \<and> ce_source e = i"
  unfolding stream_ok_def by (metis map_option_eq_Some)

lemma clear_candidate_one:
  assumes "stream_ok s" "st_candidate s = Some i" "st_candidateEpisode t = st_candidateEpisode s"
  shows "st_candidateEpisode (clearClientEventCandidateEpisode (Some i) t) = None"
  using candidate_has_episode [OF assms(1,2)] assms(3) by (auto simp: clearClientEventCandidateEpisode_def)

lemma view_frame:
  "st_scope s' = st_scope s \<Longrightarrow> st_closed s' = st_closed s \<Longrightarrow> cl s' = cl s \<and> owns k s' = owns k s"
  by (simp add: cl_def closedStreams_def owns_def)

lemma close_ok:
  assumes "stream_ok s"
  shows "stream_ok (closeClientEventStream s)" "st_source (closeClientEventStream s) = None"
    "st_enabled (closeClientEventStream s) = st_enabled s" "st_demandSignature (closeClientEventStream s) = st_demandSignature s"
proof -
  let ?q = "clearClientEventDisconnectEpisode (st_source s) False s"
  have q: "quiet s ?q" by (rule clear_disconnect_quiet [OF stream_ok_typed [OF assms]])
  have qok: "stream_ok ?q" by (rule quiet_ok [OF q assms])
  have e: "st_source ?q = st_source s" "st_candidate ?q = st_candidate s" "st_enabled ?q = st_enabled s"
    "st_demandSignature ?q = st_demandSignature s"
    using q by (simp_all add: quiet_def same_streams_def)
  define u where "u = (clearClientEventCandidateEpisode None (?q\<lparr>st_source := None, st_candidate := None\<rparr>))\<lparr>st_connected := False\<rparr>"
  define a where "a = releaseStream ''active-stream'' (st_source s) u"
  define r where "r = (if st_candidate s \<noteq> st_source s then releaseStream ''candidate-stream'' (st_candidate s) a else a)"
  have r: "closeClientEventStream s = r" by (simp add: closeClientEventStream_def Let_def r_def a_def u_def)
  note L = linkedD [OF stream_ok_linked [OF qok]]
  have ut: "typed (st_scope u)" using L(1) by (simp add: u_def)
  have uv: "cl u = cl ?q" "owns k u = owns k ?q" for k using view_frame [of u ?q] by (simp_all add: u_def)
  note a = releaseStream_facts [OF ut stream_keys_mem(1), where source = "st_source s", folded a_def]
  note b = releaseStream_facts [OF a(1) stream_keys_mem(2)]
  have rt: "typed (st_scope r)" using a(1) b(1) by (simp add: r_def)
  have cl: "cl r = cl ?q \<union> set_option (st_source s) \<union> set_option (st_candidate s)"
    using a(3) b(3) by (auto simp: uv r_def)
  have f: "st_streams r = st_streams ?q" "st_source r = None" "st_candidate r = None" "st_connected r = False"
    "st_candidateEpisode r = None" "st_enabled r = st_enabled ?q" "st_demandSignature r = st_demandSignature ?q"
    by (simp_all add: r_def a_def u_def clear_candidate_all)
  have act: "owns ''active-stream'' r = None" using L(2) a(2) [of "''active-stream''"] b(2) [of "''active-stream''"]
    by (auto simp: r_def uv e split: if_splits)
  have cand: "i \<in> cl r" if i: "owns ''candidate-stream'' r = Some i" for i
  proof -
    have "owns ''candidate-stream'' ?q = Some i"
      using i a(2) [of "''candidate-stream''"] b(2) [of "''candidate-stream''"] by (simp add: r_def uv split: if_splits)
    then have "st_candidate ?q = Some i \<or> i \<in> cl ?q" by (rule L(3))
    then show ?thesis unfolding cl by (auto simp: e)
  qed
  have all: "i \<in> cl r" if "i < length (st_streams r)" for i
    using L(5) [of i] that unfolding cl f by (auto simp: e)
  have "i < length (st_streams r)" if "i \<in> cl r" for i
    using that L(6,7,9) [of i] unfolding cl f by (auto simp: e)
  then have "linked r" unfolding linked_def using rt act cand all f by simp
  then show "stream_ok (closeClientEventStream s)"
    unfolding r stream_ok_def by (simp add: f)
  show "st_source (closeClientEventStream s) = None" "st_enabled (closeClientEventStream s) = st_enabled s"
    "st_demandSignature (closeClientEventStream s) = st_demandSignature s"
    unfolding r by (simp_all add: e f)
qed

text \<open>Dropping the candidate, by the scope or directly.\<close>

lemma drop_candidate_ok:
  assumes "stream_ok s" "st_candidate s = Some i"
    and "typed (st_scope s')" "owns ''active-stream'' s' = owns ''active-stream'' s" "cl s' = insert i (cl s)"
    and "owns ''candidate-stream'' s' = owns ''candidate-stream'' s \<or> owns ''candidate-stream'' s' = None"
    and "st_source s' = st_source s" "st_candidate s' = None" "st_candidateEpisode s' = None" "st_streams s' = st_streams s"
    and "st_connected s' = st_connected s" "st_enabled s' = st_enabled s"
  shows "stream_ok s'"
proof -
  note L = linkedD [OF stream_ok_linked [OF assms(1)]]
  have "linked s'" unfolding linked_def
  proof (intro conjI allI impI)
    fix j assume "owns ''candidate-stream'' s' = Some j"
    then have "owns ''candidate-stream'' s = Some j" using assms(6) by auto
    then show "st_candidate s' = Some j \<or> j \<in> cl s'" using L(3) [of j] assms(2,5) by auto
  next
    fix j assume j: "j < length (st_streams s')"
    show "j \<notin> cl s' \<longleftrightarrow> st_source s' = Some j \<or> st_candidate s' = Some j"
      using L(5) [of j] L(8) [OF assms(2)] j assms(2,5,7,8,10) by auto
  next
    fix j assume "st_source s' = Some j \<or> st_candidate s' = Some j"
    then show "j < length (st_streams s')" using L(6) [of j] assms(7,8,10) by simp
  next
    show "\<forall>j \<in> cl s'. j < length (st_streams s')" using L(7) [OF assms(2)] L(9) assms(5,10) by auto
  qed (use assms L(2) in simp_all)
  then show ?thesis using assms by (simp add: stream_ok_def)
qed

lemma abandon_ok:
  assumes "stream_ok s" "st_candidate s = Some i"
  shows "stream_ok (abandonClientEventCandidate i s)"
proof -
  let ?u = "clearClientEventCandidateEpisode (Some i) (s\<lparr>st_candidate := None\<rparr>)"
  have t: "typed (st_scope ?u)" using stream_ok_typed [OF assms(1)] by simp
  have e: "st_candidateEpisode ?u = None" by (rule clear_candidate_one [OF assms]) simp
  have v: "cl ?u = cl s" "owns k ?u = owns k s" for k using view_frame [of ?u s] by simp_all
  note r = releaseStream_facts [OF t stream_keys_mem(2), where source = "Some i"]
  have "stream_ok (releaseStream ''candidate-stream'' (Some i) ?u)"
    by (rule drop_candidate_ok [OF assms]) (simp_all add: r e v)
  then show ?thesis using assms(2) by (simp add: abandonClientEventCandidate_def)
qed

lemma closeStream_frame [simp]:
  "st_scope (closeStream i s) = st_scope s" "st_source (closeStream i s) = st_source s" "owns k (closeStream i s) = owns k s"
  "st_candidate (closeStream i s) = st_candidate s" "st_candidateEpisode (closeStream i s) = st_candidateEpisode s"
  "st_streams (closeStream i s) = st_streams s" "st_connected (closeStream i s) = st_connected s"
  "st_enabled (closeStream i s) = st_enabled s" "st_demandSignature (closeStream i s) = st_demandSignature s"
  "cl (closeStream i s) = insert i (cl s)"
  by (auto simp: closeStream_def owns_def cl_def closedStreams_def)

lemma close_candidate_ok:
  assumes "stream_ok s" "st_candidate s = Some i"
  shows "stream_ok (closeStream i (clearClientEventCandidateEpisode (Some i) (s\<lparr>st_candidate := None\<rparr>)))"
proof -
  let ?u = "clearClientEventCandidateEpisode (Some i) (s\<lparr>st_candidate := None\<rparr>)"
  have e: "st_candidateEpisode ?u = None" by (rule clear_candidate_one [OF assms]) simp
  have v: "cl ?u = cl s" "owns k ?u = owns k s" for k using view_frame [of ?u s] by simp_all
  show ?thesis by (rule drop_candidate_ok [OF assms]) (simp_all add: e v stream_ok_typed [OF assms(1)])
qed

text \<open>A new stream, as the active one or as the candidate.\<close>

lemma open_active_ok:
  assumes "stream_ok s" "st_source s = None" "st_enabled s"
    and "typed (st_scope s')" "owns ''active-stream'' s' = Some i" "owns ''candidate-stream'' s' = owns ''candidate-stream'' s"
    and "cl s' = cl s" "i = length (st_streams s)" "st_streams s' = st_streams s @ [x]"
    and "st_source s' = Some i" "st_candidate s' = None" "st_candidateEpisode s' = None" "st_enabled s' = st_enabled s"
  shows "stream_ok s'"
proof -
  note L = linkedD [OF stream_ok_linked [OF assms(1)]]
  have nc: "st_candidate s = None" using L(8) assms(2) by (cases "st_candidate s") simp_all
  have "linked s'" unfolding linked_def
  proof (intro conjI allI impI)
    fix j assume "owns ''candidate-stream'' s' = Some j"
    then show "st_candidate s' = Some j \<or> j \<in> cl s'" using L(3) [of j] nc assms(6,7) by simp
  next
    fix j assume "j < length (st_streams s')"
    then have j: "j < length (st_streams s) \<or> j = i" using assms(8,9) by auto
    have "i \<notin> cl s" using L(9) [of i] assms(8) by auto
    then show "j \<notin> cl s' \<longleftrightarrow> st_source s' = Some j \<or> st_candidate s' = Some j"
      using j L(5) [of j] assms(2,7,8,10,11) nc by auto
  next
    show "\<forall>j \<in> cl s'. j < length (st_streams s')" using L(9) assms(7,9) by fastforce
  qed (use assms in auto)
  then show ?thesis using assms by (simp add: stream_ok_def)
qed

lemma open_candidate_ok:
  assumes "stream_ok s" "st_source s \<noteq> None" "st_enabled s"
    and "typed (st_scope s')" "owns ''active-stream'' s' = owns ''active-stream'' s" "owns ''candidate-stream'' s' = Some i"
    and "cl s' = cl s \<union> set_option (st_candidate s)" "i = length (st_streams s)" "st_streams s' = st_streams s @ [x]"
    and "st_source s' = st_source s" "st_candidate s' = Some i" "st_enabled s' = st_enabled s"
    and "st_candidateEpisode s' = Some e" "ce_source e = i" "ce_attempts e = 0"
  shows "stream_ok s'"
proof -
  note L = linkedD [OF stream_ok_linked [OF assms(1)]]
  have ne: "st_source s \<noteq> Some i" using L(6) [of i] assms(8) by auto
  have ni: "i \<notin> cl s'" using L(7,9) [of i] assms(7,8) by auto
  have "linked s'" unfolding linked_def
  proof (intro conjI allI impI)
    fix j assume "j < length (st_streams s')"
    then have j: "j < length (st_streams s) \<or> j = i" using assms(8,9) by auto
    show "j \<notin> cl s' \<longleftrightarrow> st_source s' = Some j \<or> st_candidate s' = Some j"
    proof (cases "j = i")
      case False
      then show ?thesis using j L(5) [of j] L(8) [of j] assms(7,10,11) by auto
    qed (use ni assms(11) in simp)
  next
    fix j assume "st_source s' = Some j \<or> st_candidate s' = Some j"
    then show "j < length (st_streams s')" using L(6) [of j] assms(8-11) by auto
  next
    show "\<forall>j \<in> cl s'. j < length (st_streams s')" using L(7,9) assms(7,9) by fastforce
  qed (use assms L(2) ne in auto)
  then show ?thesis using assms by (simp add: stream_ok_def clientEventCandidateRetryLimit_def)
qed

definition serving :: "stream_state \<Rightarrow> nat option" where
  "serving s = (case st_candidate s of Some j \<Rightarrow> Some j | None \<Rightarrow> st_source s)"

lemma opened_ok:
  assumes ok: "stream_ok s" and en: "st_enabled s" and r: "replace \<or> st_source s = None"
    and ch: "dm_channels (normalizeClientEventDemandDescriptor d) \<noteq> []"
  defines "s' \<equiv> openClientEventStream Opens d replace s"
  shows "stream_ok s'" "serving s' = Some (length (st_streams s))"
    "\<exists>x. st_streams s' = st_streams s @ [x] \<and> si_signature x = clientEventDemandSignature d"
    "st_enabled s' = st_enabled s" "st_demandSignature s' = st_demandSignature s"
proof -
  note L = linkedD [OF stream_ok_linked [OF ok]]
  let ?i = "length (st_streams s)"
  let ?x = "\<lparr>si_channels = dm_channels (normalizeClientEventDemandDescriptor d),
    si_operations = dm_operations (normalizeClientEventDemandDescriptor d), si_signature = clientEventDemandSignature d\<rparr>"
  obtain t where t: "st_scope t = st_scope s" "st_closed t = st_closed s" "st_source t = st_source s" "st_candidate t = st_candidate s"
      "st_streams t = st_streams s @ [?x]" "st_enabled t = st_enabled s" "st_demandSignature t = st_demandSignature s"
      "st_candidateEpisode t = st_candidateEpisode s"
    and s': "s' = (if replace \<and> st_source s \<noteq> None
       then inScope (ownStream ''candidate-stream'' ?i) (releaseStream ''candidate-stream'' (st_candidate s)
              (t\<lparr>st_candidate := Some ?i, st_candidateEpisode := Some \<lparr>ce_source = ?i, ce_signature = clientEventDemandSignature d,
                 ce_attempts = 0, ce_probed = False\<rparr>\<rparr>))
       else inScope (ownStream ''active-stream'' ?i) (t\<lparr>st_source := Some ?i\<rparr>))"
    by (rule that [of "s\<lparr>st_streams := st_streams s @ [?x], st_disconnectEpisode := (case st_disconnectEpisode s of
        Some e \<Rightarrow> Some (if de_source e = None then e\<lparr>de_source := Some ?i\<rparr> else e) | None \<Rightarrow> None)\<rparr>"])
      (simp_all add: s'_def openClientEventStream_def Let_def ch)
  show "\<exists>x. st_streams s' = st_streams s @ [x] \<and> si_signature x = clientEventDemandSignature d"
    "st_enabled s' = st_enabled s" "st_demandSignature s' = st_demandSignature s"
    by (simp_all add: s' t)
  have both: "stream_ok s' \<and> serving s' = Some ?i"
  proof (cases "st_source s")
    case None
    have nc: "st_candidate s = None" using L(8) None by (cases "st_candidate s") simp_all
    then have ne: "st_candidateEpisode s = None" using ok by (auto simp: stream_ok_def)
    have ut: "typed (st_scope (t\<lparr>st_source := Some ?i\<rparr>))" using L(1) t by simp
    note o = ownStream_facts [OF ut stream_keys_mem(1), where i = ?i]
    have v: "cl (t\<lparr>st_source := Some ?i\<rparr>) = cl s" "owns k (t\<lparr>st_source := Some ?i\<rparr>) = owns k s" for k
      using view_frame [of "t\<lparr>st_source := Some ?i\<rparr>" s] t by simp_all
    have e: "s' = inScope (ownStream ''active-stream'' ?i) (t\<lparr>st_source := Some ?i\<rparr>)" using None by (simp add: s')
    have "owns ''active-stream'' s = None" using L(2) None by simp
    then have "stream_ok s'"
      using open_active_ok [OF ok None en, of s' ?i ?x] o nc ne by (simp add: e t v)
    then show ?thesis using nc by (simp add: e t serving_def)
  next
    case (Some src)
    define u where "u = t\<lparr>st_candidate := Some ?i, st_candidateEpisode := Some \<lparr>ce_source = ?i, ce_signature = clientEventDemandSignature d,
      ce_attempts = 0, ce_probed = False\<rparr>\<rparr>"
    define a where "a = releaseStream ''candidate-stream'' (st_candidate s) u"
    have e: "s' = inScope (ownStream ''candidate-stream'' ?i) a" using Some r by (simp add: s' a_def u_def)
    have ut: "typed (st_scope u)" using L(1) t by (simp add: u_def)
    have v: "cl u = cl s" "owns k u = owns k s" for k using view_frame [of u s] t by (simp_all add: u_def)
    note A = releaseStream_facts [OF ut stream_keys_mem(2), where source = "st_candidate s", folded a_def]
    note O = ownStream_facts [OF A(1) stream_keys_mem(2), where i = ?i]
    have "set_option (owns ''candidate-stream'' a) - {?i} \<subseteq> cl s"
    proof
      fix j assume "j \<in> set_option (owns ''candidate-stream'' a) - {?i}"
      then have "owns ''candidate-stream'' s = Some j" "st_candidate s \<noteq> Some j"
        using A(2) [of "''candidate-stream''"] v by (auto split: if_splits)
      then show "j \<in> cl s" using L(3) by blast
    qed
    then have c: "cl s' = cl s \<union> set_option (st_candidate s)" using O(3) A(3) v by (auto simp: e)
    have f: "st_candidate s' = Some ?i" "st_source s' = st_source s" "st_streams s' = st_streams s @ [?x]" "st_enabled s' = st_enabled s"
      "st_candidateEpisode s' = Some \<lparr>ce_source = ?i, ce_signature = clientEventDemandSignature d, ce_attempts = 0, ce_probed = False\<rparr>"
      by (simp_all add: e a_def u_def t)
    have "stream_ok s'"
      by (rule open_candidate_ok [OF ok _ en _ _ _ c refl f(3,2,1,4,5)])
        (use Some O(1) O(2) [of "''active-stream''"] O(2) [of "''candidate-stream''"] A(2) [of "''active-stream''"] v in \<open>simp_all add: e\<close>)
    then show ?thesis using f by (simp add: serving_def)
  qed
  then show "stream_ok s'" "serving s' = Some ?i" by simp_all
qed

section \<open>Demand is covered\<close>

definition covered_for :: "demand \<Rightarrow> stream_state \<Rightarrow> bool" where
  "covered_for g s =
     (st_demandSignature s = Some g \<longrightarrow> dm_channels g \<noteq> [] \<longrightarrow>
        (\<forall>i. serving s = Some i \<longrightarrow> si_signature (st_streams s ! i) = g))"

definition covered :: "stream_state \<Rightarrow> bool" where
  "covered s = (\<forall>g. covered_for g s)"

lemma quiet_covered_for: "quiet s s' \<Longrightarrow> covered_for g s' = covered_for g s"
  by (cases "st_candidate s") (auto simp: quiet_def same_streams_def covered_for_def serving_def)

lemma quiet_covered: "quiet s s' \<Longrightarrow> covered s' = covered s"
  by (simp add: covered_def quiet_covered_for)

lemma covered_none: "serving s = None \<Longrightarrow> covered s"
  by (simp add: covered_def covered_for_def)

lemma signature_channels: "dm_channels (clientEventDemandSignature d) = dm_channels (normalizeClientEventDemandDescriptor d)"
  by (simp add: clientEventDemandSignature_def)

lemma serving_source: "stream_ok s \<Longrightarrow> serving s = None \<longleftrightarrow> st_source s = None"
  using linkedD(8) [OF stream_ok_linked] by (auto simp: serving_def split: option.split)

text \<open>What is left of \<open>applyClientEventDemand\<close> once the timer is out of the way.\<close>

definition driveDemand :: "open_result \<Rightarrow> demand \<Rightarrow> stream_state \<Rightarrow> stream_state" where
  "driveDemand result d s =
     (let signature = clientEventDemandSignature d; same = (st_demandSignature s = Some signature);
          s3 = s\<lparr>st_demand := Some d\<rparr>; s4 = s3\<lparr>st_demandSignature := Some signature\<rparr>
      in if \<not> st_enabled s then s
         else if same \<and> st_source s \<noteq> None then s3
         else if dm_channels d = [] then (if same then s4 else closeClientEventStream s4)
         else openClientEventStream result d (\<not> same) s4)"

lemma apply_drive:
  assumes "typed (st_scope s)"
  shows "applyClientEventDemand result d timer s = s \<or>
    (\<exists>t. quiet s t \<and> applyClientEventDemand result d timer s = driveDemand result d t)"
proof (cases "timer \<noteq> None \<and> (sc_disposed (st_scope s) \<or> st_demandTimer s \<noteq> timer)")
  case False
  define t where "t = (case timer of Some t \<Rightarrow> inScope (\<lambda>sc. fst (scopeRelease ''demand'' (Some t) sc)) s | None \<Rightarrow> s)\<lparr>st_demandTimer := None\<rparr>"
  have q: "quiet s t" using assms by (simp add: t_def quiet_refl quiet_timers split: option.split)
  then have e: "st_enabled t = st_enabled s" "st_demandSignature t = st_demandSignature s" "st_source t = st_source s"
    by (simp_all add: quiet_def same_streams_def)
  have "applyClientEventDemand result d timer s = driveDemand result d t"
    unfolding applyClientEventDemand_def driveDemand_def Let_def e if_not_P [OF False] t_def [symmetric] by simp
  with q show ?thesis by blast
qed (simp add: applyClientEventDemand_def)

lemma apply_drive_now:
  "typed (st_scope s) \<Longrightarrow> \<exists>t. quiet s t \<and> applyClientEventDemand result d None s = driveDemand result d t"
  by (rule exI [of _ "s\<lparr>st_demandTimer := None\<rparr>"]) (auto simp: applyClientEventDemand_def driveDemand_def Let_def quiet_refl)

lemma openFailed_frame:
  assumes "stream_ok s"
  shows "st_source (openFailed s) = st_source s" "st_enabled (openFailed s) = st_enabled s"
    "st_demandSignature (openFailed s) = st_demandSignature s"
  using schedule_disconnect_quiet [OF stream_ok_typed [OF disconnected_ok [OF assms]]]
  by (simp_all add: openFailed_def quiet_def same_streams_def)

lemma open_any_ok:
  assumes "stream_ok s" "st_enabled s" "replace \<or> st_source s = None"
  shows "stream_ok (openClientEventStream result d replace s)"
proof (cases "dm_channels (normalizeClientEventDemandDescriptor d) \<noteq> [] \<and> result = Opens")
  case True
  then show ?thesis using opened_ok(1) [OF assms] by simp
qed (use openFailed_ok [OF assms(1)] assms(1) in \<open>auto simp: openClientEventStream_def Let_def\<close>)

lemma drive_ok:
  assumes "stream_ok s"
  shows "stream_ok (driveDemand result d s)"
  using assms close_ok(1) [of "s\<lparr>st_demand := Some d, st_demandSignature := Some (clientEventDemandSignature d)\<rparr>"]
  by (auto simp: driveDemand_def Let_def intro!: open_any_ok)

lemma stream_apply_ok: "stream_ok s \<Longrightarrow> stream_ok (applyClientEventDemand result d timer s)"
  using apply_drive [OF stream_ok_typed] quiet_ok drive_ok by metis

lemma no_items: "normalizedClientEventDemandItems [] = []"
  by code_simp

lemma drive_covered:
  assumes ok: "stream_ok s" and en: "st_enabled s" and c: "covered_for (clientEventDemandSignature d) s"
  defines "s' \<equiv> driveDemand Opens d s"
  shows "covered s'" "st_enabled s'" "st_demandSignature s' = Some (clientEventDemandSignature d)"
    "dm_channels (clientEventDemandSignature d) \<noteq> [] \<Longrightarrow> serving s' \<noteq> None"
proof -
  let ?g = "clientEventDemandSignature d"
  let ?s4 = "s\<lparr>st_demand := Some d, st_demandSignature := Some ?g\<rparr>"
  have raw: "dm_channels d \<noteq> []" if "dm_channels ?g \<noteq> []"
    using that by (auto simp: signature_channels normalizeClientEventDemandDescriptor_def no_items)
  consider (same) "st_demandSignature s = Some ?g" "st_source s \<noteq> None"
    | (idle) "\<not> (st_demandSignature s = Some ?g \<and> st_source s \<noteq> None)" "dm_channels ?g = []"
    | (opens) "\<not> (st_demandSignature s = Some ?g \<and> st_source s \<noteq> None)" "dm_channels ?g \<noteq> []" by blast
  then have "covered s' \<and> st_enabled s' \<and> st_demandSignature s' = Some ?g \<and> (dm_channels ?g \<noteq> [] \<longrightarrow> serving s' \<noteq> None)"
  proof cases
    case same
    then have e: "s' = s\<lparr>st_demand := Some d\<rparr>" using en by (simp add: s'_def driveDemand_def)
    have "serving s' = serving s" by (simp add: e serving_def split: option.split)
    then show ?thesis using same c serving_source [OF ok] en by (simp add: e covered_def covered_for_def)
  next
    case idle
    have no: "openClientEventStream Opens d r s = s" for r s
      using idle(2) by (simp add: openClientEventStream_def signature_channels)
    have sig: "st_demandSignature s' = Some ?g" "st_enabled s'"
      using idle en close_ok(3,4) [of ?s4] ok by (auto simp: s'_def driveDemand_def Let_def no)
    then show ?thesis using idle(2) by (simp add: covered_def covered_for_def)
  next
    case opens
    have e: "s' = openClientEventStream Opens d (st_demandSignature s \<noteq> Some ?g) ?s4"
      using opens en raw by (auto simp: s'_def driveDemand_def Let_def)
    have ok4: "stream_ok ?s4" using ok by simp
    note o = opened_ok [OF ok4, of "st_demandSignature s \<noteq> Some ?g" d, folded e]
    have "serving s' = Some (length (st_streams s))" "\<exists>x. st_streams s' = st_streams s @ [x] \<and> si_signature x = ?g"
      "st_enabled s'" "st_demandSignature s' = Some ?g"
      using o opens en by (simp_all add: signature_channels)
    then show ?thesis by (auto simp: covered_def covered_for_def)
  qed
  then show "covered s'" "st_enabled s'" "st_demandSignature s' = Some ?g" "dm_channels ?g \<noteq> [] \<Longrightarrow> serving s' \<noteq> None"
    by simp_all
qed

section \<open>Every step\<close>

text \<open>An immediate synchronization of an enabled connection drives the demand.\<close>

lemma sync_now:
  assumes "stream_ok s" "st_enabled s"
  shows "\<exists>t. quiet s t \<and> syncClientEventDemand result d True s = driveDemand result d t"
proof -
  have q: "quiet s (releaseDemandTimer s)" by (rule release_demand_quiet [OF stream_ok_typed [OF assms(1)]])
  from apply_drive_now [OF quiet_typed [OF q], of result d] obtain t where
    t: "quiet (releaseDemandTimer s) t" "applyClientEventDemand result d None (releaseDemandTimer s) = driveDemand result d t" by blast
  then show ?thesis using quiet_trans [OF q t(1)] assms(2) by (auto simp: syncClientEventDemand_def)
qed

lemma sync_later: "stream_ok s \<Longrightarrow> quiet s (syncClientEventDemand result d False s)"
  using release_demand_quiet [OF stream_ok_typed]
  by (auto simp: syncClientEventDemand_def Let_def quiet_refl stream_ok_typed intro!: quiet_own_timer)

lemma sync_ok: "stream_ok s \<Longrightarrow> stream_ok (syncClientEventDemand result d immediate s)"
proof (cases "st_enabled s \<and> immediate")
  case True
  assume ok: "stream_ok s"
  from sync_now [OF ok] True obtain t where "quiet s t" "syncClientEventDemand result d True s = driveDemand result d t" by blast
  then show ?thesis using True quiet_ok [OF _ ok] drive_ok by simp
next
  case False
  assume ok: "stream_ok s"
  then show ?thesis using False quiet_ok [OF sync_later [OF ok, of result d] ok]
    by (cases immediate) (auto simp: syncClientEventDemand_def)
qed

lemma sync_covers:
  assumes "stream_ok s" "st_enabled s" "covered_for (clientEventDemandSignature d) s"
  defines "s' \<equiv> syncClientEventDemand Opens d True s"
  shows "covered s'" "st_enabled s'" "st_demandSignature s' = Some (clientEventDemandSignature d)"
    "dm_channels (clientEventDemandSignature d) \<noteq> [] \<Longrightarrow> serving s' \<noteq> None"
proof -
  obtain t where t: "quiet s t" "s' = driveDemand Opens d t" using sync_now [OF assms(1,2)] s'_def by blast
  have "stream_ok t" "st_enabled t" "covered_for (clientEventDemandSignature d) t"
    using quiet_ok [OF t(1) assms(1)] t(1) assms(2,3) quiet_covered_for [OF t(1)] by (simp_all add: quiet_def)
  note D = drive_covered [OF this, folded t(2)]
  show "covered s'" "st_enabled s'" "st_demandSignature s' = Some (clientEventDemandSignature d)"
    "dm_channels (clientEventDemandSignature d) \<noteq> [] \<Longrightarrow> serving s' \<noteq> None"
    using D by simp_all
qed

lemma enable_ok: "stream_ok s \<Longrightarrow> stream_ok (s\<lparr>st_enabled := True\<rparr>)"
  using linked_frame [of "s\<lparr>st_enabled := True\<rparr>" s] by (simp add: stream_ok_def)

lemma prepare_ok: "stream_ok s \<Longrightarrow> stream_ok (prepareClientEventOperationReplay operation s)"
  by (simp add: prepareClientEventOperationReplay_def close_ok split: option.split)

text \<open>The candidate becomes the active stream, which closes the one before.\<close>

lemma promote_ok:
  assumes ok: "stream_ok s" and c: "st_candidate s = Some i"
  defines "s' \<equiv> inScope (\<lambda>sc. ownStream ''active-stream'' i (fst (scopeRelinquish ''candidate-stream'' (Some i) sc)))
      (clearClientEventCandidateEpisode (Some i) (s\<lparr>st_source := Some i, st_candidate := None\<rparr>))"
  shows "stream_ok s'" "st_source s' = Some i" "serving s' = serving s" "st_streams s' = st_streams s"
    "st_demandSignature s' = st_demandSignature s" "st_enabled s' = st_enabled s"
proof -
  note L = linkedD [OF stream_ok_linked [OF ok]]
  define u where "u = clearClientEventCandidateEpisode (Some i) (s\<lparr>st_source := Some i, st_candidate := None\<rparr>)"
  have ue: "st_candidateEpisode u = None" unfolding u_def by (rule clear_candidate_one [OF ok c]) simp
  have ut: "typed (st_scope u)" using L(1) by (simp add: u_def)
  have v: "cl u = cl s" "owns k u = owns k s" for k using view_frame [of u s] by (simp_all add: u_def)
  define sc where "sc = fst (scopeRelinquish ''candidate-stream'' (Some i) (st_scope (currentClientEventTransportLifecycleScope u)))"
  note C = current_scope [OF ut]
  note R = relinquish_facts [OF C(1), where k = "''candidate-stream''" and v = i, folded sc_def]
  have live: "\<not> sc_disposed sc" using R(2) C(2) by simp
  note O = replace_facts [OF R(1) live, where d = CloseStream and k = "''active-stream''" and v = i, simplified]
  have e: "s' = (currentClientEventTransportLifecycleScope u)\<lparr>st_scope := ownStream ''active-stream'' i sc\<rparr>"
    by (simp add: s'_def inScope_def Let_def u_def sc_def)
  have oc: "owns ''candidate-stream'' s = Some i" by (rule L(4) [OF c])
  have own: "owns ''active-stream'' s' = Some i" "owns ''candidate-stream'' s' = None"
    using O(3) R(3) C(3) v(2) oc by (simp_all add: e owns_def ownStream_def)
  have cl': "cl s' = cl s \<union> (set_option (st_source s) - {i})"
    using O(4) R(3) R(4) C(3,4) v L(2)
    by (simp add: e cl_def closedStreams_def ownStream_def owns_def) (auto simp: cl_def closedStreams_def)
  have f: "st_source s' = Some i" "st_candidate s' = None" "st_streams s' = st_streams s" "st_candidateEpisode s' = None"
    "st_enabled s' = st_enabled s" "st_demandSignature s' = st_demandSignature s" "st_connected s' = st_connected s"
    using C ue by (simp_all add: e u_def)
  have "linked s'" unfolding linked_def
  proof (intro conjI allI impI)
    show "typed (st_scope s')" using O(1) by (simp add: e ownStream_def)
    fix j assume "j < length (st_streams s')"
    then show "j \<notin> cl s' \<longleftrightarrow> st_source s' = Some j \<or> st_candidate s' = Some j"
      using L(5) [of j] L(5) [of i] L(7,8) [OF c] c by (auto simp: f cl')
  next
    show "\<forall>j \<in> cl s'. j < length (st_streams s')" using L(6,9) by (auto simp: f cl')
  qed (use own f L(7) [OF c] in auto)
  moreover have "st_enabled s" using ok L(8) [OF c] unfolding stream_ok_def by blast
  ultimately show "stream_ok s'" by (simp add: stream_ok_def f)
  show "st_source s' = Some i" "serving s' = serving s" "st_streams s' = st_streams s"
    "st_demandSignature s' = st_demandSignature s" "st_enabled s' = st_enabled s"
    using f c by (simp_all add: serving_def)
qed

lemma connected_updates_ok: "stream_ok s \<Longrightarrow> st_source s \<noteq> None \<Longrightarrow> stream_ok (s\<lparr>st_reconnectPending := p, st_connected := True\<rparr>)"
  using linked_frame [of "s\<lparr>st_reconnectPending := p, st_connected := True\<rparr>" s] by (simp add: stream_ok_def)

definition served_by :: "nat \<Rightarrow> stream_state \<Rightarrow> stream_state" where
  "served_by i s = (clearClientEventDisconnectEpisode (Some i) True s)\<lparr>st_reconnectPending := False, st_connected := True\<rparr>"

lemma served_by_ok:
  assumes "stream_ok s" "st_source s \<noteq> None"
  shows "stream_ok (served_by i s)" "covered (served_by i s) = covered s" "st_enabled (served_by i s) = st_enabled s"
proof -
  have q: "quiet s (clearClientEventDisconnectEpisode (Some i) True s)"
    by (rule clear_disconnect_quiet [OF stream_ok_typed [OF assms(1)]])
  then have "st_source (clearClientEventDisconnectEpisode (Some i) True s) \<noteq> None" using assms(2)
    by (simp add: quiet_def same_streams_def)
  with quiet_ok [OF q assms(1)] show "stream_ok (served_by i s)" unfolding served_by_def by (rule connected_updates_ok)
  show "covered (served_by i s) = covered s" using quiet_covered [OF q]
    by (simp add: served_by_def covered_def covered_for_def serving_def cong: option.case_cong)
  show "st_enabled (served_by i s) = st_enabled s" using q by (simp add: served_by_def quiet_def)
qed

lemma ready_eq:
  "streamReady result d i s =
     (if st_candidate s = Some i
      then (if si_signature (st_streams s ! i) \<noteq> clientEventDemandSignature d
            then (syncClientEventDemand result d True (closeStream i (clearClientEventCandidateEpisode (Some i) (s\<lparr>st_candidate := None\<rparr>))), False)
            else (served_by i (inScope (\<lambda>sc. ownStream ''active-stream'' i (fst (scopeRelinquish ''candidate-stream'' (Some i) sc)))
                   (clearClientEventCandidateEpisode (Some i) (s\<lparr>st_source := Some i, st_candidate := None\<rparr>))), True))
      else if st_source s = Some i then (served_by i s, True) else (s, False))"
  by (simp add: streamReady_def served_by_def Let_def)

lemma ready_ok: "stream_ok s \<Longrightarrow> stream_ok (fst (streamReady result d i s))"
  using sync_ok [OF close_candidate_ok] promote_ok(1,2) [of s i] served_by_ok(1) by (simp add: ready_eq)

lemma source_enabled: "stream_ok s \<Longrightarrow> st_source s \<noteq> None \<Longrightarrow> st_enabled s"
  unfolding stream_ok_def by blast

lemma drop_candidate_frame [simp]:
  "st_enabled (closeStream i (clearClientEventCandidateEpisode (Some i) (s\<lparr>st_candidate := None\<rparr>))) = st_enabled s"
  by simp

lemma ready_covered:
  assumes ok: "stream_ok s" and c: "covered s"
  shows "covered (fst (streamReady Opens d i s))"
proof (cases "st_candidate s = Some i")
  case True
  note L = linkedD [OF stream_ok_linked [OF ok]]
  have en: "st_enabled s" using source_enabled [OF ok] L(8) [OF True] by simp
  show ?thesis
  proof (cases "si_signature (st_streams s ! i) = clientEventDemandSignature d")
    case same: True
    let ?t = "inScope (\<lambda>sc. ownStream ''active-stream'' i (fst (scopeRelinquish ''candidate-stream'' (Some i) sc)))
        (clearClientEventCandidateEpisode (Some i) (s\<lparr>st_source := Some i, st_candidate := None\<rparr>))"
    note P = promote_ok [OF ok True]
    have "covered ?t" using c P by (simp add: covered_def covered_for_def)
    then show ?thesis using P True same served_by_ok(2) [OF P(1), of i] by (simp add: ready_eq)
  next
    case False
    let ?u = "closeStream i (clearClientEventCandidateEpisode (Some i) (s\<lparr>st_candidate := None\<rparr>))"
    have "covered_for (clientEventDemandSignature d) ?u"
      using c False True unfolding covered_def covered_for_def serving_def by auto
    from sync_covers(1) [OF close_candidate_ok [OF ok True] _ this] en show ?thesis
      using True False by (simp add: ready_eq)
  qed
next
  case False
  then show ?thesis using c served_by_ok(2) [OF ok, of i] by (simp add: ready_eq)
qed

lemma stream_event_ok: "stream_ok s \<Longrightarrow> stream_ok (fst (streamEvent i s))"
  by (simp add: streamEvent_def connect_ok)

lemma event_covered: "covered s \<Longrightarrow> covered (fst (streamEvent i s))"
  by (simp add: streamEvent_def covered_def covered_for_def serving_def cong: option.case_cong)

text \<open>A failing candidate: what is driven anew is a state without it and without a signature.\<close>

lemma abandon_frame:
  "st_enabled (abandonClientEventCandidate i s) = st_enabled s" "st_source (abandonClientEventCandidate i s) = st_source s"
  by (simp_all add: abandonClientEventCandidate_def)

lemma attempt_ok:
  assumes "stream_ok s" "st_candidateEpisode s = Some e" "ce_source e' = ce_source e"
    "ce_attempts e' < clientEventCandidateRetryLimit"
  shows "stream_ok ((if b then s else report Probe s)\<lparr>st_candidateEpisode := Some e'\<rparr>)"
proof -
  have "linked ((if b then s else report Probe s)\<lparr>st_candidateEpisode := Some e'\<rparr>)"
    using stream_ok_linked [OF assms(1)] by (subst linked_frame [of _ s]) (simp_all add: report_def)
  then show ?thesis using assms by (simp add: stream_ok_def report_def)
qed

text \<open>The episode counts as far as the candidate is concerned, so its attempts may reach the limit
  just before the candidate goes.\<close>

lemma abandon_attempts:
  "st_candidateEpisode s = Some e \<Longrightarrow> ce_source e = i \<Longrightarrow> ce_source e' = i \<Longrightarrow>
   abandonClientEventCandidate i ((if b then s else report Probe s)\<lparr>st_candidateEpisode := Some e'\<rparr>)
     = (if b then abandonClientEventCandidate i s else report Probe (abandonClientEventCandidate i s))
   \<or> st_candidate s \<noteq> Some i"
  by (auto simp: abandonClientEventCandidate_def clearClientEventCandidateEpisode_def report_def releaseStream_def Let_def
      currentClientEventTransportLifecycleScope_def closeStream_def split: prod.split bool.split)

definition candidateLost :: "nat \<Rightarrow> bool \<Rightarrow> nat \<Rightarrow> stream_state \<Rightarrow> stream_state" where
  "candidateLost i b n s =
     scheduleReconnectResync
       ((report (CandidateFailed n)
          ((if b then abandonClientEventCandidate i s else report Probe (abandonClientEventCandidate i s))
            \<lparr>st_connected := False, st_reconnectPending := True\<rparr>))\<lparr>st_demandSignature := None\<rparr>)"

lemma candidateLost_ok:
  assumes ok: "stream_ok s" and c: "st_candidate s = Some i"
  shows "stream_ok (candidateLost i b n s)" "st_enabled (candidateLost i b n s)" "st_demandSignature (candidateLost i b n s) = None"
proof -
  let ?a = "if b then abandonClientEventCandidate i s else report Probe (abandonClientEventCandidate i s)"
  let ?t = "(report (CandidateFailed n) (?a\<lparr>st_connected := False, st_reconnectPending := True\<rparr>))\<lparr>st_demandSignature := None\<rparr>"
  have "stream_ok ?a" using abandon_ok [OF ok c] by simp
  then have t: "stream_ok ?t" using disconnected_ok by simp
  have q: "quiet ?t (candidateLost i b n s)" unfolding candidateLost_def by (rule resync_quiet [OF stream_ok_typed [OF t]])
  have "st_enabled s" using source_enabled [OF ok] linkedD(8) [OF stream_ok_linked [OF ok] c] by simp
  then have "st_enabled ?t" "st_demandSignature ?t = None" by (simp_all add: abandon_frame report_def)
  then show "st_enabled (candidateLost i b n s)" "st_demandSignature (candidateLost i b n s) = None"
    using q by (simp_all add: quiet_def)
  show "stream_ok (candidateLost i b n s)" using quiet_ok [OF q t] .
qed

lemma candidate_error_cases:
  assumes ok: "stream_ok s" and c: "st_candidate s = Some i"
  obtains (retry) e e' where "st_candidateEpisode s = Some e" "ce_source e' = ce_source e"
      "ce_attempts e' < clientEventCandidateRetryLimit"
      "candidateError result d i s = (if ce_probed e then s else report Probe s)\<lparr>st_candidateEpisode := Some e'\<rparr>"
    | (lost) b n where "candidateError result d i s = syncClientEventDemand result d True (candidateLost i b n s)"
proof -
  obtain e where e: "st_candidateEpisode s = Some e" "ce_source e = i" using candidate_has_episode [OF ok c] by blast
  let ?e = "e\<lparr>ce_attempts := Suc (ce_attempts e), ce_probed := True\<rparr>"
  show thesis
  proof (cases "ce_attempts ?e < clientEventCandidateRetryLimit")
    case True
    have "candidateError result d i s = (if ce_probed e then s else report Probe s)\<lparr>st_candidateEpisode := Some ?e\<rparr>"
      using True by (simp add: candidateError_def e Let_def)
    with True e show thesis by (intro retry [of e ?e]) simp_all
  next
    case False
    have "candidateError result d i s = syncClientEventDemand result d True (candidateLost i (ce_probed e) (ce_attempts ?e) s)"
      using False c abandon_attempts [of s e i ?e "ce_probed e"] e
      by (simp add: candidateError_def candidateLost_def Let_def)
    then show thesis by (rule lost)
  qed
qed

lemma stream_error_ok: "stream_ok s \<Longrightarrow> stream_ok (streamError result d i s)"
proof -
  assume ok: "stream_ok s"
  show ?thesis
  proof (cases "st_candidate s = Some i")
    case True
    from ok True have "stream_ok (candidateError result d i s)"
      by (cases rule: candidate_error_cases [of s i result d]) (simp_all add: ok True attempt_ok sync_ok candidateLost_ok)
    then show ?thesis using True by (simp add: streamError_def)
  next
    case False
    have d: "stream_ok (s\<lparr>st_connected := False, st_reconnectPending := True\<rparr>)" by (rule disconnected_ok [OF ok])
    show ?thesis using False ok quiet_ok [OF schedule_disconnect_quiet [OF stream_ok_typed [OF d]] d, of "Some i"]
      by (simp add: streamError_def)
  qed
qed

lemma error_covered:
  assumes ok: "stream_ok s" and c: "covered s"
  shows "covered (streamError Opens d i s)"
proof (cases "st_candidate s = Some i")
  case True
  from ok True have "covered (candidateError Opens d i s)"
  proof (cases rule: candidate_error_cases [of s i Opens d])
    case (retry e e')
    then show ?thesis using c by (simp add: covered_def covered_for_def serving_def report_def cong: option.case_cong)
  next
    case (lost b n)
    note C = candidateLost_ok [OF ok True, of b n]
    have "covered_for g (candidateLost i b n s)" for g using C(3) by (simp add: covered_for_def)
    then show ?thesis using sync_covers(1) [OF C(1,2)] lost by simp
  qed
  then show ?thesis using True by (simp add: streamError_def)
next
  case False
  let ?s = "s\<lparr>st_connected := False, st_reconnectPending := True\<rparr>"
  have d: "stream_ok ?s" by (rule disconnected_ok [OF ok])
  have "covered ?s" using c by (simp add: covered_def covered_for_def serving_def cong: option.case_cong)
  then show ?thesis using False c quiet_covered [OF schedule_disconnect_quiet [OF stream_ok_typed [OF d]], of "Some i"]
    by (simp add: streamError_def)
qed

lemma closed_by_dispose:
  assumes "typed sc" "\<not> sc_disposed sc"
  shows "set (closed_by (fst (scopeDispose sc))) = set (closed_by sc) \<union> (\<Union>k \<in> stream_keys. set_option (scopeValue k sc))"
proof -
  have ok: "distinct (map fst (sc_resources sc))" using assms(1) by (simp add: typed_def scope_ok_def)
  have "v \<in> (\<Union>k \<in> stream_keys. set_option (scopeValue k sc)) \<longleftrightarrow> (\<exists>k. (k, (v, CloseStream)) \<in> set (sc_resources sc))" (is "?l \<longleftrightarrow> ?r") for v
  proof
    assume ?l
    then obtain k where k: "k \<in> stream_keys" "scopeValue k sc = Some v" by (auto simp: elem_set)
    then obtain d where "map_of (sc_resources sc) k = Some (v, d)" by (auto simp: scopeValue_def)
    with typedD [OF assms(1) this] k show ?r by (auto dest: map_of_SomeD)
  next
    assume ?r
    then obtain k where "(k, (v, CloseStream)) \<in> set (sc_resources sc)" by blast
    then have m: "map_of (sc_resources sc) k = Some (v, CloseStream)" using ok by simp
    with typedD [OF assms(1) m] have "k \<in> stream_keys" by (auto split: if_splits)
    with m show ?l by (auto simp: scopeValue_def)
  qed
  then have u: "(\<Union>k \<in> stream_keys. set_option (scopeValue k sc)) = {v. \<exists>k. (k, (v, CloseStream)) \<in> set (sc_resources sc)}"
    by blast
  have c: "set (map fst (filter (\<lambda>r. snd r = CloseStream) (rev (map snd (sc_resources sc)))))
      = {v. \<exists>k. (k, (v, CloseStream)) \<in> set (sc_resources sc)}" by force
  have "closed_by (fst (scopeDispose sc))
      = closed_by sc @ map fst (filter (\<lambda>r. snd r = CloseStream) (rev (map snd (sc_resources sc))))"
    using assms(2) by (simp add: closed_by_def scopeDispose_def)
  then show ?thesis unfolding u c [symmetric] by simp
qed

lemma stream_dispose_ok:
  assumes "stream_ok s"
  shows "stream_ok (disposeClientEventTransportLifecycle s)" "serving (disposeClientEventTransportLifecycle s) = None"
proof -
  let ?s = "disposeClientEventTransportLifecycle s" and ?sc = "st_scope s"
  note L = linkedD [OF stream_ok_linked [OF assms]]
  have res: "sc_resources (fst (scopeDispose ?sc)) = []" using typed_disposed [OF L(1)] by (simp add: scopeDispose_def)
  then have t: "typed (fst (scopeDispose ?sc))" by (simp add: typed_def scope_ok_def)
  have own: "owns k ?s = None" for k using res by (simp add: owns_def scopeValue_def disposeClientEventTransportLifecycle_def)
  have cl: "cl ?s = cl s \<union> (\<Union>k \<in> stream_keys. set_option (owns k s))"
  proof (cases "sc_disposed ?sc")
    case True
    then show ?thesis using typed_disposed [OF L(1) True]
      by (simp add: scopeDispose_def cl_def closedStreams_def disposeClientEventTransportLifecycle_def owns_def scopeValue_def)
  next
    case False
    then show ?thesis using closed_by_dispose [OF L(1) False]
      by (auto simp: cl_def closedStreams_def disposeClientEventTransportLifecycle_def owns_def)
  qed
  have f: "st_source ?s = None" "st_candidate ?s = None" "st_streams ?s = st_streams s" "st_candidateEpisode ?s = None"
    "st_connected ?s = False" "st_scope ?s = fst (scopeDispose ?sc)"
    by (simp_all add: disposeClientEventTransportLifecycle_def)
  have all: "i \<in> cl ?s" if "i < length (st_streams s)" for i
    using L(5) [OF that] L(4) [of i] L(2) unfolding cl by (auto simp: stream_keys_def)
  have bound: "i < length (st_streams s)" if "i \<in> cl ?s" for i
    using that L(2,9) L(6,7,3) [of i] unfolding cl stream_keys_def by auto
  have "linked ?s" unfolding linked_def using t own all bound f by simp
  then show "stream_ok ?s" by (simp add: stream_ok_def f)
  show "serving ?s = None" by (simp add: serving_def f)
qed

lemma disable_ok: "stream_ok s \<Longrightarrow> stream_ok (retireAuthentication s)" "stream_ok s \<Longrightarrow> serving (retireAuthentication s) = None"
proof -
  assume ok: "stream_ok s"
  have e: "retireAuthentication s = (disposeClientEventTransportLifecycle s)\<lparr>st_enabled := False\<rparr>"
    by (simp add: retireAuthentication_def disposeClientEventTransportLifecycle_def)
  have "linked (retireAuthentication s)" unfolding e
    using stream_ok_linked [OF stream_dispose_ok(1) [OF ok]] by (subst linked_frame) simp_all
  then show "stream_ok (retireAuthentication s)" using stream_dispose_ok(1) [OF ok]
    by (simp add: e stream_ok_def) (simp add: disposeClientEventTransportLifecycle_def)
  show "serving (retireAuthentication s) = None" by (simp add: e serving_def disposeClientEventTransportLifecycle_def)
qed

lemma stream_step_ok: "stream_step r s s' \<Longrightarrow> stream_ok s \<Longrightarrow> stream_ok s'"
proof (induction rule: stream_step.induct)
  case (disconnect_timer r s)
  then show ?case using quiet_ok disconnect_fires_quiet stream_ok_typed by blast
next
  case (resync r s)
  then show ?case using quiet_ok resync_quiet stream_ok_typed by blast
next
  case (resync_timer r s)
  then show ?case using quiet_ok resync_fires_quiet stream_ok_typed by blast
qed (simp_all add: installClientEventStream_def sync_ok enable_ok demandTimerFires_def stream_apply_ok prepare_ok ready_ok stream_event_ok
    stream_error_ok stream_dispose_ok disable_ok pageshow_def)

interpretation streams: invariant_machine "stream_step r" stream_ok for r
  by unfold_locales (rule stream_step_ok)

lemma apply_covered: "stream_ok s \<Longrightarrow> covered s \<Longrightarrow> covered (applyClientEventDemand Opens d timer s)"
proof -
  assume ok: "stream_ok s" and c: "covered s"
  have "covered (driveDemand Opens d t)" if q: "quiet s t" for t
  proof (cases "st_enabled t")
    case True
    have "covered_for (clientEventDemandSignature d) t" using c quiet_covered_for [OF q] by (simp add: covered_def)
    with drive_covered(1) [OF quiet_ok [OF q ok] True] show ?thesis by blast
  qed (use c quiet_covered [OF q] in \<open>simp add: driveDemand_def\<close>)
  then show ?thesis using apply_drive [OF stream_ok_typed [OF ok], of Opens d timer] c by auto
qed

lemma sync_covered: "stream_ok s \<Longrightarrow> covered s \<Longrightarrow> covered (syncClientEventDemand Opens d immediate s)"
  using sync_covers(1) [of s d] quiet_covered [OF sync_later [of s Opens d]]
  by (cases "st_enabled s"; cases immediate) (auto simp: covered_def syncClientEventDemand_def)

definition well_served :: "stream_state \<Rightarrow> bool" where
  "well_served s = (stream_ok s \<and> covered s)"

lemma well_served_step: "stream_step Opens s s' \<Longrightarrow> well_served s \<Longrightarrow> well_served s'"
proof -
  assume step: "stream_step Opens s s'" and w: "well_served s"
  then have ok: "stream_ok s" and c: "covered s" by (simp_all add: well_served_def)
  have e: "covered (s\<lparr>st_enabled := True\<rparr>)" using c by (simp add: covered_def covered_for_def serving_def cong: option.case_cong)
  have p: "covered (prepareClientEventOperationReplay operation s)" for operation
    using c covered_none [of "closeClientEventStream s"] serving_source [OF close_ok(1) [OF ok]] close_ok(2) [OF ok]
    by (simp add: prepareClientEventOperationReplay_def split: option.split)
  have t: "typed (st_scope s)" by (rule stream_ok_typed [OF ok])
  have "covered s'" using step
    by (cases rule: stream_stepE)
      (auto simp: installClientEventStream_def sync_covered enable_ok ok e c demandTimerFires_def apply_covered p ready_covered
        event_covered error_covered covered_none stream_dispose_ok disable_ok pageshow_def
        quiet_covered [OF disconnect_fires_quiet [OF t]] quiet_covered [OF resync_quiet [OF t]] quiet_covered [OF resync_fires_quiet [OF t]])
  with stream_step_ok [OF step ok] show ?thesis by (simp add: well_served_def)
qed

interpretation served: invariant_machine "stream_step Opens" well_served
  by unfold_locales (rule well_served_step)

lemma stream_init_served: "well_served stream_init"
  using stream_init_ok by (simp add: well_served_def covered_none serving_def stream_init_def)

end
