(* ===== verification/Client_Stream_Properties.thy ===== *)
theory Client_Stream_Properties
  imports Client_Stream_Invariants Server_Events
begin

text \<open>The properties of the event-stream connection and of its composition with the events.\<close>

section \<open>Streams\<close>

definition stream_moves :: "stream_state \<Rightarrow> stream_state \<Rightarrow> bool" where
  "stream_moves s s' = (\<exists>r. stream_step r s s')"

interpretation moves: invariant_machine stream_moves stream_ok
  by unfold_locales (auto simp: stream_moves_def intro: stream_step_ok)

text \<open>
  C21. No stream leaks: whatever happens, and even if opening a stream fails at any time, the open
  streams are exactly the active one and the candidate that is to replace it; there is a candidate
  only beside an active stream, it is another stream and has failed fewer than three times; only the
  active stream delivers events.
\<close>

theorem no_stream_leaks:
  assumes "stream_moves\<^sup>*\<^sup>* stream_init s"
  shows "(stream_open i s \<longleftrightarrow> st_source s = Some i \<or> st_candidate s = Some i)
    \<and> (st_candidate s = Some i \<longrightarrow> st_source s \<noteq> None \<and> st_source s \<noteq> Some i
          \<and> (\<exists>e. st_candidateEpisode s = Some e \<and> ce_source e = i \<and> ce_attempts e < 3))
    \<and> (snd (streamEvent i s) \<longleftrightarrow> st_source s = Some i)"
proof -
  have ok: "stream_ok s" using moves.inv_reach [OF assms stream_init_ok] .
  note L = linkedD [OF stream_ok_linked [OF ok]]
  have "stream_open i s \<longleftrightarrow> st_source s = Some i \<or> st_candidate s = Some i"
    using L(5,6,7) [of i] by (auto simp: stream_open_def cl_def)
  moreover have "\<exists>e. st_candidateEpisode s = Some e \<and> ce_source e = i \<and> ce_attempts e < 3" if "st_candidate s = Some i"
    using candidate_has_episode [OF ok that] ok by (auto simp: stream_ok_def clientEventCandidateRetryLimit_def)
  ultimately show ?thesis using L(8) [of i] by (auto simp: streamEvent_def)
qed

definition want :: "string list \<Rightarrow> demand" where
  "want channels = \<lparr>dm_visible = True, dm_panes = [], dm_finder = [], dm_yoagent = False, dm_chat = False,
     dm_channels = channels, dm_operations = [], dm_attention = False\<rparr>"

text \<open>A connected page whose demand has changed once: stream 0 is active, stream 1 its candidate.\<close>

definition replacing :: stream_state where
  "replacing = syncClientEventDemand Opens (want [''core'', ''files'']) True
     (fst (streamReady Opens (want [''core'']) 0 (installClientEventStream Opens (want [''core'']) stream_init)))"

lemma replacing_reachable: "(stream_step Opens)\<^sup>*\<^sup>* stream_init replacing"
proof -
  let ?a = "installClientEventStream Opens (want [''core'']) stream_init"
  let ?b = "fst (streamReady Opens (want [''core'']) 0 ?a)"
  have "stream_step Opens stream_init ?a" by (rule stream_step.install)
  moreover have "stream_step Opens ?a ?b" by (rule stream_step.ready)
  moreover have "stream_step Opens ?b replacing" unfolding replacing_def by (rule stream_step.sync)
  ultimately show ?thesis by (meson converse_rtranclp_into_rtranclp rtranclp.rtrancl_refl)
qed

theorem no_stream_leaks_witness: "stream_open 1 replacing \<and> \<not> snd (streamEvent 1 replacing)"
proof -
  have "stream_moves\<^sup>*\<^sup>* stream_init replacing"
    using replacing_reachable by (rule rtranclp_mono [THEN predicate2D, rotated]) (auto simp: stream_moves_def)
  moreover have "st_source replacing = Some 0" "st_candidate replacing = Some 1" by code_simp+
  ultimately show ?thesis using no_stream_leaks [of replacing 1] by simp
qed

text \<open>
  C22. The demand of an enabled page is always served, as long as streams can be opened: after a
  synchronization with the page's present demand there is an open stream, the candidate or the
  active one, that was opened for exactly this demand; and at any time the serving stream is the one
  of the demand in force.
\<close>

theorem demand_is_served:
  assumes "(stream_step Opens)\<^sup>*\<^sup>* stream_init s" "st_enabled s" "dm_channels (clientEventDemandSignature d) \<noteq> []"
  shows "(\<exists>i. serving (syncClientEventDemand Opens d True s) = Some i
        \<and> stream_open i (syncClientEventDemand Opens d True s)
        \<and> si_signature (st_streams (syncClientEventDemand Opens d True s) ! i) = clientEventDemandSignature d)
    \<and> (st_demandSignature s = Some (clientEventDemandSignature d) \<longrightarrow> serving s = Some j \<longrightarrow>
        si_signature (st_streams s ! j) = clientEventDemandSignature d)"
proof -
  have w: "well_served s" using served.inv_reach [OF assms(1) stream_init_served] .
  then have ok: "stream_ok s" and c: "covered_for (clientEventDemandSignature d) s" by (simp_all add: well_served_def covered_def)
  let ?s = "syncClientEventDemand Opens d True s"
  note S = sync_covers [OF ok assms(2) c]
  obtain i where i: "serving ?s = Some i" using S(4) [OF assms(3)] by blast
  have "si_signature (st_streams ?s ! i) = clientEventDemandSignature d"
    using S(1,3) i assms(3) by (simp add: covered_def covered_for_def)
  moreover have "st_source ?s = Some i \<or> st_candidate ?s = Some i" using i by (auto simp: serving_def split: option.splits)
  moreover have "stream_ok ?s" by (rule sync_ok [OF ok])
  ultimately show ?thesis using i c assms(3) linkedD(5,6,7) [OF stream_ok_linked, of ?s i]
    by (auto simp: stream_open_def cl_def covered_for_def)
qed

theorem demand_is_served_witness:
  "\<exists>i. serving (syncClientEventDemand Opens (want [''chat'']) True replacing) = Some i
     \<and> stream_open i (syncClientEventDemand Opens (want [''chat'']) True replacing)"
proof -
  have "st_enabled replacing" "dm_channels (clientEventDemandSignature (want [''chat''])) \<noteq> []" by code_simp+
  from demand_is_served [OF replacing_reachable this] show ?thesis by blast
qed

text \<open>
  When opening the replacement of a stream fails once, the changed demand is lost: its signature is
  already recorded, so later synchronizations with the same demand do nothing, although streams can
  be opened again, and the old stream goes on serving the old channels.
\<close>

theorem failed_open_strands_demand:
  "let d = want [''core'', ''files''];
       s0 = fst (streamReady Opens (want [''core'']) 0 (installClientEventStream Opens (want [''core'']) stream_init));
       s1 = syncClientEventDemand OpenThrows d True s0;
       s2 = syncClientEventDemand Opens d True s1
   in serving s2 = Some 0 \<and> length (st_streams s2) = 1
    \<and> si_channels (st_streams s2 ! 0) = [''core''] \<and> st_demandSignature s2 = Some (clientEventDemandSignature d)"
  by code_simp

text \<open>After a failed first open, the disconnection of the stream that follows is never reported: the
  timer was scheduled for no stream, and the episode was passed on to the new one.\<close>

lemma disconnect_never_reported:
  "let s1 = installClientEventStream OpenThrows (want [''core'']) stream_init;
       s2 = syncClientEventDemand Opens (want [''core'']) True s1;
       s3 = disconnectTimerFires (streamError Opens (want [''core'']) 0 s2);
       s4 = disconnectTimerFires (streamError Opens (want [''core'']) 0 s3)
   in st_source s4 = Some 0 \<and> \<not> st_connected s4 \<and> st_reports s4 = [] \<and> st_disconnectTimer s4 = None
    \<and> map_option de_reported (st_disconnectEpisode s4) = Some False"
  by code_simp

section \<open>The connection and the events together\<close>

text \<open>A frame of a stream reaches the events only if the connection lets it.\<close>

definition deliverReady ::
  "bool \<Rightarrow> open_result \<Rightarrow> demand \<Rightarrow> nat \<Rightarrow> envelope \<Rightarrow> stream_state \<times> event_state \<Rightarrow> stream_state \<times> event_state" where
  "deliverReady enabled result d i en c =
     (case streamReady result d i (fst c) of
        (st, True) \<Rightarrow> (st, clientEventReady enabled (si_channels (st_streams (fst c) ! i)) en (snd c))
      | (st, False) \<Rightarrow> (st, snd c))"

definition deliverEvent ::
  "bool \<Rightarrow> bool \<Rightarrow> string \<Rightarrow> payload \<Rightarrow> envelope \<Rightarrow> nat \<Rightarrow> stream_state \<times> event_state \<Rightarrow> (stream_state \<times> event_state) \<times> bool" where
  "deliverEvent enabled hidden ty p en i c =
     (case streamEvent i (fst c) of
        (st, True) \<Rightarrow> (let (ev, ok) = handleClientPushEvent enabled hidden ty p en (snd c) in ((st, ev), ok))
      | (st, False) \<Rightarrow> ((st, snd c), False))"

inductive connection_step :: "stream_state \<times> event_state \<Rightarrow> stream_state \<times> event_state \<Rightarrow> bool" where
  deliver_ready: "connection_step c (deliverReady enabled r d i en c)"
| deliver_event: "connection_step c (fst (deliverEvent enabled hidden ty p en i c))"
| stream_only: "stream_moves st st' \<Longrightarrow> connection_step (st, ev) (st', ev)"
| event_only: "event_step ev ev' \<Longrightarrow> connection_step (st, ev) (st, ev')"

lemma deliverReady_parts:
  "stream_moves\<^sup>*\<^sup>* (fst c) (fst (deliverReady enabled r d i en c))"
  "event_step\<^sup>*\<^sup>* (snd c) (snd (deliverReady enabled r d i en c))"
proof -
  have "fst (deliverReady enabled r d i en c) = fst (streamReady r d i (fst c))"
    by (simp add: deliverReady_def split: prod.split bool.split)
  then have "stream_moves (fst c) (fst (deliverReady enabled r d i en c))" using stream_step.ready stream_moves_def by metis
  then show "stream_moves\<^sup>*\<^sup>* (fst c) (fst (deliverReady enabled r d i en c))" ..
  show "event_step\<^sup>*\<^sup>* (snd c) (snd (deliverReady enabled r d i en c))"
    by (auto simp: deliverReady_def intro: event_step.ready split: prod.split bool.split)
qed

lemma deliverEvent_parts:
  "stream_moves\<^sup>*\<^sup>* (fst c) (fst (fst (deliverEvent enabled hidden ty p en i c)))"
  "event_step\<^sup>*\<^sup>* (snd c) (snd (fst (deliverEvent enabled hidden ty p en i c)))"
proof -
  have "fst (fst (deliverEvent enabled hidden ty p en i c)) = fst (streamEvent i (fst c))"
    by (simp add: deliverEvent_def split: prod.split bool.split)
  then have "stream_moves (fst c) (fst (fst (deliverEvent enabled hidden ty p en i c)))" using stream_step.event stream_moves_def by metis
  then show "stream_moves\<^sup>*\<^sup>* (fst c) (fst (fst (deliverEvent enabled hidden ty p en i c)))" ..
  have "event_step (snd c) (fst (handleClientPushEvent enabled hidden ty p en (snd c)))" by (rule receive)
  then show "event_step\<^sup>*\<^sup>* (snd c) (snd (fst (deliverEvent enabled hidden ty p en i c)))"
    by (auto simp: deliverEvent_def split: prod.split bool.split)
qed

text \<open>The composition simulates its parts.\<close>

lemma connection_parts:
  "connection_step\<^sup>*\<^sup>* c c' \<Longrightarrow> stream_moves\<^sup>*\<^sup>* (fst c) (fst c') \<and> event_step\<^sup>*\<^sup>* (snd c) (snd c')"
proof (induction rule: rtranclp_induct)
  case (step c' c'')
  from step(2) have "stream_moves\<^sup>*\<^sup>* (fst c') (fst c'') \<and> event_step\<^sup>*\<^sup>* (snd c') (snd c'')"
    by (cases rule: connection_step.cases) (simp_all add: deliverReady_parts deliverEvent_parts r_into_rtranclp)
  then show ?case using step.IH by auto
qed simp

text \<open>
  Replacing streams never applies an event twice: an event of a plain resource that one stream
  delivered and that was accepted is refused when any stream, the same or one that has replaced it,
  delivers it again while the same server process is talking.
\<close>

theorem replay_refused_across_streams:
  assumes "connection_step\<^sup>*\<^sup>* (stream_init, event_init) c"
    and "en_revision en = Some n" "1 \<le> n" "en_epoch en \<noteq> []" "plain_resource (en_resource en)" "en_resource en \<noteq> []"
    and "deliverEvent enabled hidden ty p en i c = (c1, True)"
    and "connection_step\<^sup>*\<^sup>* c1 c2" "ev_epochGeneration (snd c2) = ev_epochGeneration (snd c1)"
  shows "\<not> snd (deliverEvent enabled' hidden' ty' p' en j c2)"
proof -
  have runs: "runs_ok (snd c)" using events.inv_reach [OF _ event_init_ok] connection_parts [OF assms(1)] by simp
  have first: "handleClientPushEvent enabled hidden ty p en (snd c) = (snd c1, True)"
    using assms(7) by (auto simp: deliverEvent_def split: prod.splits bool.splits)
  have "event_step\<^sup>*\<^sup>* (snd c1) (snd c2)" using connection_parts [OF assms(8)] by simp
  from accepted_then_refused [OF runs assms(2-6) first this assms(9)]
  have "\<not> snd (handleClientPushEvent enabled' hidden' ty' p' en (snd c2))" .
  then show ?thesis by (auto simp: deliverEvent_def split: prod.splits bool.splits)
qed

definition chat_event :: envelope where
  "chat_event = \<lparr>en_epoch = ''e'', en_resource = ''chat_messages_changed'', en_revision = Some 3, en_base = Some 2,
     en_revisions = [], en_repairs = []\<rparr>"

definition chat_payload :: payload where
  "chat_payload = \<lparr>pl_patch = None, pl_session = [], pl_operation = [], pl_body = ''m''\<rparr>"

text \<open>Stream 0 delivers the event, stream 1 replaces it and delivers it again.\<close>

theorem replay_refused_across_streams_witness:
  "let c1 = fst (deliverEvent True False ''chat_messages_changed'' chat_payload chat_event 0 (replacing, event_init));
       c2 = deliverReady True Opens (want [''core'', ''files'']) 1
              \<lparr>en_epoch = ''e'', en_resource = [], en_revision = None, en_base = None, en_revisions = [], en_repairs = []\<rparr> c1
   in st_source (fst c2) = Some 1 \<and> \<not> snd (deliverEvent True False ''chat_messages_changed'' chat_payload chat_event 1 c2)"
proof -
  let ?d = "deliverEvent True False ''chat_messages_changed'' chat_payload chat_event 0 (replacing, event_init)"
  let ?c2 = "deliverReady True Opens (want [''core'', ''files'']) 1
    \<lparr>en_epoch = ''e'', en_resource = [], en_revision = None, en_base = None, en_revisions = [], en_repairs = []\<rparr> (fst ?d)"
  have reach: "connection_step\<^sup>*\<^sup>* (stream_init, event_init) (replacing, event_init)"
    using replacing_reachable
  proof (induction rule: rtranclp_induct)
    case (step y z)
    then have "stream_moves y z" by (auto simp: stream_moves_def)
    then have "connection_step (y, event_init) (z, event_init)" by (rule stream_only)
    with step.IH show ?case by (rule rtranclp.rtrancl_into_rtrancl)
  qed simp
  have "snd ?d" by code_simp
  then have d: "?d = (fst ?d, True)" by (simp add: prod_eq_iff)
  have p: "plain_resource (en_resource chat_event)" "en_resource chat_event \<noteq> []" "en_epoch chat_event \<noteq> []" by code_simp+
  have n: "en_revision chat_event = Some 3" by (simp add: chat_event_def)
  have g: "ev_epochGeneration (snd ?c2) = ev_epochGeneration (snd (fst ?d))" by code_simp
  have "connection_step\<^sup>*\<^sup>* (fst ?d) ?c2" using deliver_ready by blast
  from replay_refused_across_streams [OF reach n _ p(3) p(1) p(2) d this g]
  have "\<not> snd (deliverEvent True False ''chat_messages_changed'' chat_payload chat_event 1 ?c2)" by simp
  moreover have "st_source (fst ?c2) = Some 1" by code_simp
  ultimately show ?thesis by (simp add: Let_def)
qed

end
