(* ===== verification/Nav_History.thy ===== *)
theory Nav_History
  imports Tab_Model
begin

text \<open>
  Back and forward between visited tabs (\<open>87_editor_nav.js\<close>): a bounded stack of visited items with
  a position. A step back or forward re-activates an item, which may take time; while it does,
  activations are not recorded, and entries that cannot be re-activated are skipped.

  A walk in progress is its target position and direction. Whether an item can be re-activated is
  the answer of the step \<open>navAnswered\<close>; a walk that waits for its answer is a member of \<open>nav_walks\<close>.
\<close>

section \<open>The stack\<close>

definition NAV_STACK_LIMIT :: nat where "NAV_STACK_LIMIT = 50"

text \<open>The position is -1 while the stack is empty.\<close>

record nav_walk =
  nw_position :: int
  nw_delta :: int

record nav_state =
  nav_stack :: "item list"
  nav_index :: int
  nav_navigating :: bool
  nav_walks :: "nav_walk list"

definition nav_init :: nav_state where
  "nav_init = \<lparr>nav_stack = [], nav_index = -1, nav_navigating = False, nav_walks = []\<rparr>"

definition nav_at :: "nav_state \<Rightarrow> int \<Rightarrow> item option" where
  "nav_at s i = (if 0 \<le> i \<and> i < int (length (nav_stack s)) then Some (nav_stack s ! nat i) else None)"

text \<open>The list is the stack with its top first.\<close>

fun collapse_top :: "item list \<Rightarrow> item list" where
  "collapse_top (b2 # a2 # b1 # a1 # rest) =
     (if a1 \<noteq> a2 \<or> b1 \<noteq> b2 then b2 # a2 # b1 # a1 # rest else collapse_top (b1 # a1 # rest))"
| "collapse_top xs = xs"

definition collapseEditorNavPingPong :: "item list \<Rightarrow> item list" where
  "collapseEditorNavPingPong stack = rev (collapse_top (rev stack))"

definition recordEditorNav :: "item \<Rightarrow> nav_state \<Rightarrow> nav_state" where
  "recordEditorNav x s =
     (if nav_navigating s \<or> x = [] \<or> nav_at s (nav_index s) = Some x then s
      else
        let stack = collapseEditorNavPingPong (take (nat (nav_index s + 1)) (nav_stack s) @ [x]);
            bounded = (if NAV_STACK_LIMIT < length stack then drop (length stack - NAV_STACK_LIMIT) stack else stack)
        in s\<lparr>nav_stack := bounded, nav_index := int (length bounded) - 1\<rparr>)"

section \<open>Walking\<close>

text \<open>A walk continues with the entry at its position, or ends when there is none.\<close>

definition continueWalk :: "nav_walk \<Rightarrow> nav_state \<Rightarrow> nav_state" where
  "continueWalk w s =
     (if nav_at s (nw_position w) = None then s
      else s\<lparr>nav_navigating := True, nav_walks := nav_walks s @ [w]\<rparr>)"

definition editorNavGo :: "int \<Rightarrow> nav_state \<Rightarrow> nav_state" where
  "editorNavGo delta s = continueWalk \<lparr>nw_position = nav_index s + delta, nw_delta = delta\<rparr> s"

definition editorNavBack :: "nav_state \<Rightarrow> nav_state" where "editorNavBack = editorNavGo (- 1)"
definition editorNavForward :: "nav_state \<Rightarrow> nav_state" where "editorNavForward = editorNavGo 1"

text \<open>The re-activation of the \<open>k\<close>-th pending walk ends: it succeeded, could not be done, or failed
  with an exception, which ends the walk.\<close>

datatype activation = Activated | NotRestorable | ActivationThrew

definition navAnswered :: "nat \<Rightarrow> activation \<Rightarrow> nav_state \<Rightarrow> nav_state" where
  "navAnswered k result s =
     (if length (nav_walks s) \<le> k then s
      else
        let w = nav_walks s ! k;
            s1 = s\<lparr>nav_navigating := False, nav_walks := take k (nav_walks s) @ drop (Suc k) (nav_walks s)\<rparr>
        in (case result of
              Activated \<Rightarrow> s1\<lparr>nav_index := nw_position w\<rparr>
            | NotRestorable \<Rightarrow> continueWalk (w\<lparr>nw_position := nw_position w + nw_delta w\<rparr>) s1
            | ActivationThrew \<Rightarrow> s1))"

definition backDisabled :: "nav_state \<Rightarrow> bool" where
  "backDisabled s = (nav_index s \<le> 0)"

definition forwardDisabled :: "nav_state \<Rightarrow> bool" where
  "forwardDisabled s = (int (length (nav_stack s)) - 1 \<le> nav_index s)"

text \<open>
  The events, in any order: nothing in the code stops a step back or forward from starting while an
  earlier one waits for its answer. The calm runs are those in which each is answered before the
  next one starts.
\<close>

inductive nav_step :: "nav_state \<Rightarrow> nav_state \<Rightarrow> bool" where
  visit: "nav_step s (recordEditorNav x s)"
| go_back: "nav_step s (editorNavBack s)"
| go_forward: "nav_step s (editorNavForward s)"
| answered: "nav_step s (navAnswered k result s)"

inductive_cases nav_stepE: "nav_step s s'"

inductive nav_calm_step :: "nav_state \<Rightarrow> nav_state \<Rightarrow> bool" where
  calm_visit: "nav_calm_step s (recordEditorNav x s)"
| calm_back: "nav_walks s = [] \<Longrightarrow> nav_calm_step s (editorNavBack s)"
| calm_forward: "nav_walks s = [] \<Longrightarrow> nav_calm_step s (editorNavForward s)"
| calm_answered: "nav_calm_step s (navAnswered k result s)"

inductive_cases nav_calm_stepE: "nav_calm_step s s'"

section \<open>The invariants\<close>

text \<open>No entry repeats its predecessor, and nowhere does the stack go a, b, a, b.\<close>

definition no_repeat :: "item list \<Rightarrow> bool" where
  "no_repeat xs = (\<forall>i. Suc i < length xs \<longrightarrow> xs ! i \<noteq> xs ! Suc i)"

definition no_ping_pong :: "item list \<Rightarrow> bool" where
  "no_ping_pong xs = (\<forall>i. i + 3 < length xs \<longrightarrow> \<not> (xs ! i = xs ! (i + 2) \<and> xs ! (i + 1) = xs ! (i + 3)))"

definition nav_ok :: "nav_state \<Rightarrow> bool" where
  "nav_ok s =
     (length (nav_stack s) \<le> NAV_STACK_LIMIT \<and> no_repeat (nav_stack s) \<and> no_ping_pong (nav_stack s)
      \<and> (nav_stack s = [] \<longrightarrow> nav_index s = -1)
      \<and> (nav_stack s \<noteq> [] \<longrightarrow> 0 \<le> nav_index s \<and> nav_index s < int (length (nav_stack s)))
      \<and> length (nav_walks s) \<le> 1 \<and> nav_navigating s = (nav_walks s \<noteq> [])
      \<and> (\<forall>w \<in> set (nav_walks s). 0 \<le> nw_position w \<and> nw_position w < int (length (nav_stack s))))"

text \<open>What holds in every run, whatever overlaps.\<close>

definition nav_bounded :: "nav_state \<Rightarrow> bool" where
  "nav_bounded s =
     (length (nav_stack s) \<le> NAV_STACK_LIMIT \<and> no_ping_pong (nav_stack s) \<and> - 1 \<le> nav_index s
      \<and> (\<forall>w \<in> set (nav_walks s). 0 \<le> nw_position w))"

lemma no_repeat_take: "no_repeat xs \<Longrightarrow> no_repeat (take n xs)"
  by (simp add: no_repeat_def)

lemma no_ping_pong_take: "no_ping_pong xs \<Longrightarrow> no_ping_pong (take n xs)"
  by (simp add: no_ping_pong_def)

lemma no_repeat_drop: "no_repeat xs \<Longrightarrow> no_repeat (drop n xs)"
  by (auto simp: no_repeat_def)

lemma no_ping_pong_drop: "no_ping_pong xs \<Longrightarrow> no_ping_pong (drop n xs)"
proof -
  assume a: "no_ping_pong xs"
  show "no_ping_pong (drop n xs)" unfolding no_ping_pong_def
  proof (intro allI impI)
    fix i assume "i + 3 < length (drop n xs)"
    then have "n + i + 3 < length xs" by simp
    with a have "\<not> (xs ! (n + i) = xs ! (n + i + 2) \<and> xs ! (n + i + 1) = xs ! (n + i + 3))" unfolding no_ping_pong_def by blast
    then show "\<not> (drop n xs ! i = drop n xs ! (i + 2) \<and> drop n xs ! (i + 1) = drop n xs ! (i + 3))"
      using \<open>n + i + 3 < length xs\<close> by (simp add: add.assoc)
  qed
qed

lemma no_repeat_snoc:
  assumes "no_repeat xs" "xs \<noteq> [] \<Longrightarrow> last xs \<noteq> x"
  shows "no_repeat (xs @ [x])"
  unfolding no_repeat_def
proof (intro allI impI)
  fix i assume i: "Suc i < length (xs @ [x])"
  show "(xs @ [x]) ! i \<noteq> (xs @ [x]) ! Suc i"
  proof (cases "Suc i < length xs")
    case True
    then show ?thesis using assms(1) by (simp add: no_repeat_def nth_append)
  next
    case False
    then have len: "length xs = Suc i" using i by simp
    then have "xs \<noteq> []" by auto
    then show ?thesis using assms(2) len by (simp add: nth_append last_conv_nth)
  qed
qed

lemma collapse_top_drop: "\<exists>k. collapse_top r = drop k r \<and> (r \<noteq> [] \<longrightarrow> k < length r)"
proof (induction r rule: collapse_top.induct)
  case (1 b2 a2 b1 a1 rest)
  show ?case
  proof (cases "a1 \<noteq> a2 \<or> b1 \<noteq> b2")
    case True
    then show ?thesis by (auto intro: exI [of _ 0])
  next
    case False
    with "1.IH" obtain k where "collapse_top (b1 # a1 # rest) = drop k (b1 # a1 # rest)" "k < length (b1 # a1 # rest)" by auto
    with False show ?thesis by (auto intro!: exI [of _ "Suc (Suc k)"])
  qed
qed (auto intro: exI [of _ 0])

lemma collapse_top_fixed:
  assumes "collapse_top r = r" "3 < length r"
  shows "\<not> (r ! 3 = r ! 1 \<and> r ! 2 = r ! 0)"
proof (cases r rule: collapse_top.cases)
  case (1 b2 a2 b1 a1 rest)
  obtain k where k: "collapse_top (b1 # a1 # rest) = drop k (b1 # a1 # rest)"
    using collapse_top_drop [of "b1 # a1 # rest"] by blast
  have "length (collapse_top (b1 # a1 # rest)) < length r" unfolding k 1 by simp
  then have "collapse_top (b1 # a1 # rest) \<noteq> r" by blast
  then have "a1 \<noteq> a2 \<or> b1 \<noteq> b2" using assms(1) 1 by (simp split: if_splits)
  then show ?thesis by (simp add: 1 numeral_3_eq_3 numeral_2_eq_2)
qed (use assms(2) in simp_all)

lemma collapse_prefix:
  obtains n where "collapseEditorNavPingPong xs = take n xs" "xs \<noteq> [] \<longrightarrow> 0 < n" "n \<le> length xs"
proof -
  obtain k where k: "collapse_top (rev xs) = drop k (rev xs)" "xs \<noteq> [] \<longrightarrow> k < length xs"
    using collapse_top_drop [of "rev xs"] by auto
  then have "collapseEditorNavPingPong xs = take (length xs - k) xs"
    by (simp add: collapseEditorNavPingPong_def drop_rev)
  then show thesis using k(2) by (intro that [of "length xs - k"]) auto
qed

lemma no_ping_pong_collapse:
  assumes "no_ping_pong xs"
  shows "no_ping_pong (collapseEditorNavPingPong (xs @ [x]))"
proof -
  let ?ys = "xs @ [x]"
  obtain n where n: "collapseEditorNavPingPong ?ys = take n ?ys" "n \<le> length ?ys" by (rule collapse_prefix) 
  show ?thesis
  proof (cases "n = length ?ys")
    case False
    then show ?thesis using n no_ping_pong_take [OF assms, of n] by simp
  next
    case True
    then have "rev (collapse_top (rev ?ys)) = ?ys" using n by (simp add: collapseEditorNavPingPong_def)
    then have e: "collapse_top (rev ?ys) = rev ?ys" by (metis rev_rev_ident)
    have "\<not> (?ys ! i = ?ys ! (i + 2) \<and> ?ys ! (i + 1) = ?ys ! (i + 3))" if i: "i + 3 < length ?ys" for i
    proof (cases "i + 3 < length xs")
      case True
      then show ?thesis using assms by (simp add: no_ping_pong_def nth_append)
    next
      case False
      then have i: "i + 3 = length xs" using i by simp
      have "\<not> (rev ?ys ! 3 = rev ?ys ! 1 \<and> rev ?ys ! 2 = rev ?ys ! 0)" by (rule collapse_top_fixed [OF e]) (use i in simp)
      moreover have "rev ?ys ! j = ?ys ! (i + 3 - j)" if "j \<le> 3" for j using i that by (subst rev_nth) auto
      then have "rev ?ys ! 0 = ?ys ! (i + 3)" "rev ?ys ! 1 = ?ys ! (i + 2)" "rev ?ys ! 2 = ?ys ! (i + 1)"
        "rev ?ys ! 3 = ?ys ! i" by (simp_all del: rev_append rev.simps)
      ultimately show ?thesis by metis
    qed
    then show ?thesis using True n by (simp add: no_ping_pong_def)
  qed
qed

text \<open>What a visit leaves on the stack.\<close>

lemma visit_cases:
  assumes "nav_ok s" "\<not> nav_navigating s" "x \<noteq> []" "nav_at s (nav_index s) \<noteq> Some x"
  defines "stack \<equiv> nav_stack (recordEditorNav x s)"
  shows "no_repeat stack" "no_ping_pong stack" "stack \<noteq> []" "length stack \<le> NAV_STACK_LIMIT"
    "nav_index (recordEditorNav x s) = int (length stack) - 1" "nav_walks (recordEditorNav x s) = nav_walks s"
    "nav_navigating (recordEditorNav x s) = nav_navigating s"
proof -
  let ?pre = "take (nat (nav_index s + 1)) (nav_stack s)"
  let ?c = "collapseEditorNavPingPong (?pre @ [x])"
  let ?b = "if NAV_STACK_LIMIT < length ?c then drop (length ?c - NAV_STACK_LIMIT) ?c else ?c"
  have s: "recordEditorNav x s = s\<lparr>nav_stack := ?b, nav_index := int (length ?b) - 1\<rparr>"
    using assms(2-4) by (simp add: recordEditorNav_def Let_def)
  have ok: "no_repeat (nav_stack s)" "no_ping_pong (nav_stack s)" using assms(1) by (simp_all add: nav_ok_def)
  have lastx: "last ?pre \<noteq> x" if "?pre \<noteq> []"
  proof -
    have r: "0 \<le> nav_index s" "nav_index s < int (length (nav_stack s))" using assms(1) that by (auto simp: nav_ok_def)
    then have len: "length ?pre = Suc (nat (nav_index s))" by simp
    have "last ?pre = ?pre ! nat (nav_index s)" using that len by (subst last_conv_nth) simp_all
    then have "last ?pre = nav_stack s ! nat (nav_index s)" using r by simp
    with assms(4) r show ?thesis by (simp add: nav_at_def)
  qed
  have rep: "no_repeat (?pre @ [x])" by (rule no_repeat_snoc [OF no_repeat_take [OF ok(1)] lastx])
  obtain n where n: "?c = take n (?pre @ [x])" "0 < n" by (rule collapse_prefix [of "?pre @ [x]"]) auto
  have c: "no_repeat ?c" "no_ping_pong ?c" "?c \<noteq> []"
    subgoal using no_repeat_take [OF rep, of n] n(1) by simp
    subgoal by (rule no_ping_pong_collapse [OF no_ping_pong_take [OF ok(2)]])
    subgoal using n(2) by (simp only: n(1) take_eq_Nil) simp
    done
  have st: "stack = ?b" by (simp add: stack_def s)
  show "no_repeat stack" "no_ping_pong stack" using c no_repeat_drop no_ping_pong_drop by (simp_all add: st)
  show "stack \<noteq> []" using c(3) by (auto simp: st NAV_STACK_LIMIT_def)
  show "length stack \<le> NAV_STACK_LIMIT" by (simp add: st)
  show "nav_index (recordEditorNav x s) = int (length stack) - 1" by (simp add: st s)
  show "nav_walks (recordEditorNav x s) = nav_walks s" "nav_navigating (recordEditorNav x s) = nav_navigating s" by (simp_all add: s)
qed

lemma visit_ok: "nav_ok s \<Longrightarrow> nav_ok (recordEditorNav x s)"
proof (cases "nav_navigating s \<or> x = [] \<or> nav_at s (nav_index s) = Some x")
  case False
  assume ok: "nav_ok s"
  then have "nav_walks s = []" using False by (simp add: nav_ok_def)
  with visit_cases [OF ok, of x] False show ?thesis
    by (simp add: nav_ok_def)
qed (simp add: recordEditorNav_def)

lemma continue_ok: "nav_ok s \<Longrightarrow> nav_walks s = [] \<Longrightarrow> nav_ok (continueWalk w s)"
  by (auto simp: continueWalk_def nav_ok_def nav_at_def split: if_splits)

lemma nav_answered_ok: "nav_ok s \<Longrightarrow> nav_ok (navAnswered k result s)"
proof -
  assume ok: "nav_ok s"
  show ?thesis
  proof (cases "length (nav_walks s) \<le> k")
    case False
    then obtain w where w: "nav_walks s = [w]" "k = 0" using ok
      by (cases "nav_walks s") (auto simp: nav_ok_def)
    let ?s1 = "s\<lparr>nav_navigating := False, nav_walks := []\<rparr>"
    have s1: "nav_ok ?s1" using ok by (simp add: nav_ok_def)
    have p: "nav_ok (?s1\<lparr>nav_index := nw_position w\<rparr>)" using ok w by (auto simp: nav_ok_def)
    show ?thesis using w s1 p continue_ok [OF s1] by (simp add: navAnswered_def Let_def split: activation.split)
  qed (use ok in \<open>simp add: navAnswered_def\<close>)
qed

lemma nav_calm_step_ok: "nav_calm_step s s' \<Longrightarrow> nav_ok s \<Longrightarrow> nav_ok s'"
  by (erule nav_calm_stepE)
    (simp_all add: visit_ok nav_answered_ok editorNavBack_def editorNavForward_def editorNavGo_def continue_ok)

interpretation nav: invariant_machine nav_calm_step nav_ok
  by unfold_locales (rule nav_calm_step_ok)

lemma nav_init_ok: "nav_ok nav_init"
  by (simp add: nav_ok_def nav_init_def no_repeat_def no_ping_pong_def)

lemma visit_bounded: "nav_bounded s \<Longrightarrow> nav_bounded (recordEditorNav x s)"
  by (auto simp: nav_bounded_def recordEditorNav_def Let_def intro!: no_ping_pong_drop no_ping_pong_collapse no_ping_pong_take)

lemma continue_bounded: "nav_bounded s \<Longrightarrow> nav_bounded (continueWalk w s)"
  by (auto simp: continueWalk_def nav_bounded_def nav_at_def split: if_splits)

lemma answered_bounded: "nav_bounded s \<Longrightarrow> nav_bounded (navAnswered k result s)"
proof (cases "length (nav_walks s) \<le> k")
  case False
  assume b: "nav_bounded s"
  let ?s1 = "s\<lparr>nav_navigating := False, nav_walks := take k (nav_walks s) @ drop (Suc k) (nav_walks s)\<rparr>"
  have s1: "nav_bounded ?s1" using b by (auto simp: nav_bounded_def dest: in_set_takeD in_set_dropD)
  have "0 \<le> nw_position (nav_walks s ! k)" using b False by (simp add: nav_bounded_def)
  then have "nav_bounded (?s1\<lparr>nav_index := nw_position (nav_walks s ! k)\<rparr>)" using s1 by (simp add: nav_bounded_def)
  then show ?thesis using s1 continue_bounded [OF s1] False
    by (simp add: navAnswered_def Let_def split: activation.split)
qed (simp add: navAnswered_def)

lemma nav_step_bounded: "nav_step s s' \<Longrightarrow> nav_bounded s \<Longrightarrow> nav_bounded s'"
  by (erule nav_stepE)
    (simp_all add: visit_bounded answered_bounded continue_bounded editorNavBack_def editorNavForward_def editorNavGo_def)

interpretation nav_any: invariant_machine nav_step nav_bounded
  by unfold_locales (rule nav_step_bounded)

lemma nav_init_bounded: "nav_bounded nav_init"
  by (simp add: nav_bounded_def nav_init_def no_ping_pong_def)

section \<open>A visit and back\<close>

lemma collapse_top_top: "\<exists>zs. collapse_top (x # y # r) = x # y # zs"
proof (induction "x # y # r" arbitrary: r rule: collapse_top.induct)
  case (1 b1 a1 rest)
  then show ?case by auto
qed auto

lemma collapse_keeps_end: "\<exists>zs. collapseEditorNavPingPong (xs @ [y, x]) = zs @ [y, x]"
proof -
  obtain zs where "collapse_top (x # y # rev xs) = x # y # zs" using collapse_top_top by blast
  then show ?thesis by (auto simp: collapseEditorNavPingPong_def)
qed

lemma visit_end:
  assumes "nav_walks s = []" "\<not> nav_navigating s" "x \<noteq> []" "x \<noteq> y" "nav_at s (nav_index s) = Some y"
  obtains zs where "recordEditorNav x s = s\<lparr>nav_stack := zs @ [y, x], nav_index := int (length zs) + 1\<rparr>"
proof -
  let ?pre = "take (nat (nav_index s + 1)) (nav_stack s)"
  have r: "0 \<le> nav_index s" "nat (nav_index s) < length (nav_stack s)" "nav_stack s ! nat (nav_index s) = y"
    using assms(5) by (auto simp: nav_at_def split: if_splits)
  then have "?pre = take (nat (nav_index s)) (nav_stack s) @ [y]"
    by (simp add: nat_add_distrib take_Suc_conv_app_nth)
  then obtain c where c: "collapseEditorNavPingPong (?pre @ [x]) = c @ [y, x]" using collapse_keeps_end by fastforce
  have "recordEditorNav x s = s\<lparr>nav_stack := drop (length c - 48) c @ [y, x],
      nav_index := int (length (drop (length c - 48) c)) + 1\<rparr>"
    using assms(2-5) c by (simp add: recordEditorNav_def Let_def NAV_STACK_LIMIT_def)
  then show thesis by (rule that)
qed

section \<open>Properties\<close>

lemma visit_reachable:
  "nav_calm_step\<^sup>*\<^sup>* nav_init s \<Longrightarrow> nav_calm_step\<^sup>*\<^sup>* nav_init (recordEditorNav x s)"
  by (erule rtranclp.rtrancl_into_rtrancl) (rule nav_calm_step.calm_visit)

lemma visit_reachable_any: "nav_step\<^sup>*\<^sup>* nav_init s \<Longrightarrow> nav_step\<^sup>*\<^sup>* nav_init (recordEditorNav x s)"
  by (erule rtranclp.rtrancl_into_rtrancl) (rule nav_step.visit)

text \<open>
  C23. However visits, steps back and forward and their answers interleave, the history keeps at
  most fifty entries, its position is at least -1, and no four entries in a row go a, b, a, b. In
  the runs in which every step back or forward is answered before the next one starts, moreover no
  entry is the same as the one just before it, and the position stays on an entry. (An item may
  occur several times in the history, apart from that.)
\<close>

theorem nav_history_sound:
  assumes "nav_step\<^sup>*\<^sup>* nav_init s"
  shows "length (nav_stack s) \<le> NAV_STACK_LIMIT \<and> no_ping_pong (nav_stack s) \<and> - 1 \<le> nav_index s
    \<and> (nav_calm_step\<^sup>*\<^sup>* nav_init s \<longrightarrow>
        no_repeat (nav_stack s) \<and> (if nav_stack s = [] then nav_index s = -1 else nav_at s (nav_index s) \<noteq> None))"
proof -
  have b: "nav_bounded s" by (rule nav_any.inv_reach [OF assms nav_init_bounded])
  have "nav_ok s" if "nav_calm_step\<^sup>*\<^sup>* nav_init s" by (rule nav.inv_reach [OF that nav_init_ok])
  with b show ?thesis by (auto simp: nav_bounded_def nav_ok_def nav_at_def)
qed

definition visited :: nav_state where
  "visited = recordEditorNav ''b'' (recordEditorNav ''a'' (recordEditorNav ''b'' (recordEditorNav ''a'' nav_init)))"

theorem nav_history_sound_witness:
  "nav_step\<^sup>*\<^sup>* nav_init visited \<and> nav_calm_step\<^sup>*\<^sup>* nav_init visited \<and> nav_stack visited = [''a'', ''b'']
    \<and> no_ping_pong (nav_stack visited) \<and> no_repeat (nav_stack visited) \<and> nav_at visited (nav_index visited) \<noteq> None"
proof -
  have r: "nav_step\<^sup>*\<^sup>* nav_init visited" unfolding visited_def
    by (intro visit_reachable_any rtranclp.rtrancl_refl)
  have c: "nav_calm_step\<^sup>*\<^sup>* nav_init visited" unfolding visited_def
    by (intro visit_reachable rtranclp.rtrancl_refl)
  have e: "nav_stack visited = [''a'', ''b'']" by code_simp
  from nav_history_sound [OF r] c e r show ?thesis by simp
qed

text \<open>
  In a calm run, after a visit Back returns to the tab the user came from, and Forward from there to the visited
  tab, however full the history is and however it was collapsed.
\<close>

theorem back_returns_to_previous:
  assumes "nav_calm_step\<^sup>*\<^sup>* nav_init s" "nav_walks s = []" "nav_at s (nav_index s) = Some y" "x \<noteq> []" "x \<noteq> y"
  defines "t \<equiv> navAnswered 0 Activated (editorNavBack (recordEditorNav x s))"
    and "u \<equiv> navAnswered 0 Activated (editorNavForward (navAnswered 0 Activated (editorNavBack (recordEditorNav x s))))"
  shows "nav_at t (nav_index t) = Some y \<and> nav_at u (nav_index u) = Some x"
proof -
  have ok: "nav_ok s" by (rule nav.inv_reach [OF assms(1) nav_init_ok])
  then have idle: "\<not> nav_navigating s" using assms(2) by (simp add: nav_ok_def)
  obtain zs where v: "recordEditorNav x s = s\<lparr>nav_stack := zs @ [y, x], nav_index := int (length zs) + 1\<rparr>"
    using visit_end [OF assms(2) idle assms(4,5,3)] by blast
  have t: "t = s\<lparr>nav_stack := zs @ [y, x], nav_index := int (length zs), nav_navigating := False, nav_walks := []\<rparr>"
    using assms(2) unfolding t_def v
    by (simp add: editorNavBack_def editorNavGo_def continueWalk_def nav_at_def navAnswered_def)
  have u: "u = navAnswered 0 Activated (editorNavForward t)" unfolding u_def t_def ..
  have "u = t\<lparr>nav_index := int (length zs) + 1\<rparr>"
    unfolding u t using assms(2)
    by (simp add: editorNavForward_def editorNavGo_def continueWalk_def nav_at_def navAnswered_def)
  then show ?thesis unfolding t by (simp add: nav_at_def nth_append nat_add_distrib)
qed

theorem back_returns_to_previous_witness:
  "(let s = recordEditorNav ''a'' nav_init;
        t = navAnswered 0 Activated (editorNavBack (recordEditorNav ''b'' s))
    in nav_at t (nav_index t) = Some ''a'')"
proof -
  have r: "nav_calm_step\<^sup>*\<^sup>* nav_init (recordEditorNav ''a'' nav_init)"
    by (intro visit_reachable rtranclp.rtrancl_refl)
  have w: "nav_walks (recordEditorNav ''a'' nav_init) = []" by code_simp
  have a: "nav_at (recordEditorNav ''a'' nav_init) (nav_index (recordEditorNav ''a'' nav_init)) = Some ''a''" by code_simp
  from back_returns_to_previous [OF r w a, of "''b''"] show ?thesis by (simp add: Let_def)
qed

definition overlapped :: nav_state where
  "overlapped =
     (let four = recordEditorNav ''d'' (recordEditorNav ''c'' (recordEditorNav ''b'' (recordEditorNav ''a'' nav_init)));
          second = navAnswered 0 Activated (editorNavBack (navAnswered 0 Activated (editorNavBack four)));
          both = editorNavBack (editorNavForward second)
      in navAnswered 0 Activated (recordEditorNav ''e'' (navAnswered 1 Activated both)))"

text \<open>
  Nothing orders two steps through the history that overlap: with four tabs visited and the position
  on the second, a slow step forward, a step back that is answered first, and a visit that cuts the
  history to two entries leave the position, once the forward step is answered, on no entry at all.
\<close>

theorem overlapping_walks_lose_position:
  "nav_stack overlapped = [''a'', ''e''] \<and> nav_index overlapped = 2 \<and> nav_at overlapped (nav_index overlapped) = None"
  by code_simp

end
