(* ===== verification/Backend_Health.thy ===== *)
theory Backend_Health
  imports Js_Prelude
begin

text \<open>
  The health indicator of the top bar (\<open>10_core_utils.js\<close>): the server pushes reports of its services,
  ordered by epoch and revision, the rows of the system panel are a second source, and failed
  requests are counted. \<open>backendHealthState\<close> is the record \<open>health\<close>.

  A translated sentence is a value of \<open>health_text\<close>, which names the sentence and its parameters; a
  label of \<open>None\<close> is the generic noun. A revision is \<open>None\<close> where \<open>Number\<close> gives no finite number.
\<close>

section \<open>Severities\<close>

datatype severity = NoSeverity | Ready | Degraded | Down | Unresponsive

fun backendHealthSeverityRank :: "severity \<Rightarrow> nat" where
  "backendHealthSeverityRank NoSeverity = 0"
| "backendHealthSeverityRank Ready = 1"
| "backendHealthSeverityRank Degraded = 2"
| "backendHealthSeverityRank Down = 3"
| "backendHealthSeverityRank Unresponsive = 4"

instantiation severity :: linorder
begin

definition less_eq_severity :: "severity \<Rightarrow> severity \<Rightarrow> bool" where
  "less_eq_severity a b = (backendHealthSeverityRank a \<le> backendHealthSeverityRank b)"

definition less_severity :: "severity \<Rightarrow> severity \<Rightarrow> bool" where
  "less_severity a b = (backendHealthSeverityRank a < backendHealthSeverityRank b)"

instance
proof
  fix a b c :: severity
  show "(a < b) = (a \<le> b \<and> \<not> b \<le> a)" by (auto simp: less_eq_severity_def less_severity_def)
  show "a \<le> a" by (simp add: less_eq_severity_def)
  show "a \<le> b \<Longrightarrow> b \<le> c \<Longrightarrow> a \<le> c" by (simp add: less_eq_severity_def)
  show "a \<le> b \<Longrightarrow> b \<le> a \<Longrightarrow> a = b" by (cases a; cases b; simp add: less_eq_severity_def)
  show "a \<le> b \<or> b \<le> a" by (auto simp: less_eq_severity_def)
qed

end

definition backendHealthDownStates :: "string list" where
  "backendHealthDownStates = [''down'', ''upgrade_required'']"

definition backendHealthDegradedStates :: "string list" where
  "backendHealthDegradedStates = [''degraded'', ''backoff'', ''unknown'']"

definition backendHealthStateSeverity :: "string \<Rightarrow> severity" where
  "backendHealthStateSeverity v =
     (if v \<in> set backendHealthDownStates then Down
      else if v \<in> set backendHealthDegradedStates then Degraded else NoSeverity)"

section \<open>State\<close>

definition backendHealthFailureThreshold :: nat where "backendHealthFailureThreshold = 3"
definition backendHealthResourceLimit :: nat where "backendHealthResourceLimit = 8"
definition backendHealthNamedResourceLimit :: nat where "backendHealthNamedResourceLimit = 1"

record health_row =
  hr_id :: string
  hr_label :: string
  hr_severity :: severity
  hr_reasonCode :: string

record health_entry =
  he_id :: string
  he_label :: string
  he_state :: string
  he_reason_code :: string

record health_payload =
  hp_epoch :: string
  hp_revision :: "rat option"
  hp_overall_state :: string
  hp_degraded_resources :: "health_entry list"

record health =
  bh_consecutiveFailures :: nat
  bh_epoch :: string
  bh_revision :: rat
  bh_serviceSeverity :: severity
  bh_resources :: "health_row list"
  bh_resourceCount :: nat
  bh_observedResources :: "health_row list"
  bh_retiredEpochs :: "string list"
  bh_rosterOnlyResources :: "health_row list"

definition health_init :: health where
  "health_init = \<lparr>bh_consecutiveFailures = 0, bh_epoch = [], bh_revision = -1, bh_serviceSeverity = NoSeverity,
     bh_resources = [], bh_resourceCount = 0, bh_observedResources = [], bh_retiredEpochs = [], bh_rosterOnlyResources = []\<rparr>"

section \<open>Operations\<close>

text \<open>A stable sort, worst first.\<close>

definition worst_first :: "health_row list \<Rightarrow> health_row list" where
  "worst_first = sort_key (\<lambda>r. - int (backendHealthSeverityRank (hr_severity r)))"

definition backendHealthResourcesFromPayload :: "health_entry list \<Rightarrow> health_row list" where
  "backendHealthResourcesFromPayload entries =
     worst_first (filter (\<lambda>r. hr_severity r \<noteq> NoSeverity)
       (map (\<lambda>e. \<lparr>hr_id = he_id e, hr_label = js_trim (he_label e),
                   hr_severity = backendHealthStateSeverity (he_state e), hr_reasonCode = he_reason_code e\<rparr>) entries))"

definition failing_rows :: "health_row list \<Rightarrow> health_row list" where
  "failing_rows = filter (\<lambda>r. hr_severity r \<noteq> NoSeverity \<and> hr_severity r \<noteq> Ready)"

definition raiseSeverity :: "health_row \<Rightarrow> severity \<Rightarrow> severity" where
  "raiseSeverity r s = (if s < hr_severity r then hr_severity r else s)"

definition reduceBackendHealthAggregate :: "health \<Rightarrow> health" where
  "reduceBackendHealthAggregate s =
     (let failing = worst_first (bh_observedResources s @ bh_rosterOnlyResources s)
      in s\<lparr>bh_serviceSeverity := fold raiseSeverity failing (if 0 \<le> bh_revision s then Ready else NoSeverity),
           bh_resources := take backendHealthResourceLimit failing,
           bh_resourceCount := length failing\<rparr>)"

definition keepLast :: "nat \<Rightarrow> 'a list \<Rightarrow> 'a list" where
  "keepLast n xs = drop (length xs - n) xs"

definition acceptBackendHealthReport ::
  "string \<Rightarrow> rat option \<Rightarrow> health_row list \<Rightarrow> bool \<Rightarrow> health \<Rightarrow> health \<times> bool" where
  "acceptBackendHealthReport epoch revision resources allowSameRevision s =
     (case revision of
        None \<Rightarrow> (s, False)
      | Some r \<Rightarrow>
          if epoch \<in> set (bh_retiredEpochs s) then (s, False)
          else if epoch = bh_epoch s \<and> (r < bh_revision s \<or> r = bh_revision s \<and> \<not> allowSameRevision) then (s, False)
          else
            let retired = (if epoch \<noteq> bh_epoch s \<and> bh_epoch s \<noteq> []
                           then keepLast backendHealthResourceLimit (bh_retiredEpochs s @ [bh_epoch s])
                           else bh_retiredEpochs s)
            in (reduceBackendHealthAggregate
                  (s\<lparr>bh_retiredEpochs := retired, bh_epoch := epoch, bh_revision := r, bh_observedResources := resources\<rparr>), True))"

definition applyBackendHealthRosterOnlyState :: "health_row list \<Rightarrow> health \<Rightarrow> health" where
  "applyBackendHealthRosterOnlyState rows s =
     reduceBackendHealthAggregate (s\<lparr>bh_rosterOnlyResources := failing_rows rows\<rparr>)"

definition payload_rows :: "health_payload \<Rightarrow> health_row list" where
  "payload_rows p =
     (let resources = backendHealthResourcesFromPayload (hp_degraded_resources p);
          overall = backendHealthStateSeverity (hp_overall_state p)
      in if overall \<noteq> NoSeverity \<and> \<not> list_ex (\<lambda>r. overall \<le> hr_severity r) resources
         then resources @ [\<lparr>hr_id = [], hr_label = [], hr_severity = overall, hr_reasonCode = []\<rparr>]
         else resources)"

definition applyBackendHealthPayload :: "health_payload \<Rightarrow> health \<Rightarrow> health \<times> bool" where
  "applyBackendHealthPayload p s =
     acceptBackendHealthReport (hp_epoch p) (hp_revision p) (payload_rows p) False s"

definition applyBackendHealthRosterState ::
  "string \<Rightarrow> rat option \<Rightarrow> health_row list \<Rightarrow> string list \<Rightarrow> health \<Rightarrow> health \<times> bool" where
  "applyBackendHealthRosterState epoch revision rows observedIds s =
     (let failing = failing_rows rows;
          s1 = s\<lparr>bh_rosterOnlyResources := filter (\<lambda>r. hr_id r \<notin> set observedIds) failing\<rparr>
      in (case acceptBackendHealthReport epoch revision (filter (\<lambda>r. hr_id r \<in> set observedIds) failing) True s1 of
            (s2, True) \<Rightarrow> (s2, True)
          | (s2, False) \<Rightarrow> (reduceBackendHealthAggregate s2, False)))"

definition noteBackendHealthFailure :: "health \<Rightarrow> health" where
  "noteBackendHealthFailure s = s\<lparr>bh_consecutiveFailures := Suc (bh_consecutiveFailures s)\<rparr>"

definition noteBackendHealthSuccess :: "health \<Rightarrow> health" where
  "noteBackendHealthSuccess s = (if bh_consecutiveFailures s = 0 then s else s\<lparr>bh_consecutiveFailures := 0\<rparr>)"

section \<open>The indicator\<close>

datatype health_text =
    Disconnected
  | AllReady
  | ProbeTimeout "string option" nat
  | IsDown "string option" nat
  | IsDegraded "string option" nat

record health_model =
  hm_severity :: severity
  hm_text :: health_text
  hm_reasonCode :: string

definition backendHealthIndicatorModel :: "health \<Rightarrow> health_model option" where
  "backendHealthIndicatorModel s =
     (if backendHealthFailureThreshold \<le> bh_consecutiveFailures s
      then Some \<lparr>hm_severity = Unresponsive, hm_text = Disconnected, hm_reasonCode = []\<rparr>
      else if bh_serviceSeverity s = NoSeverity then None
      else if bh_serviceSeverity s = Ready then Some \<lparr>hm_severity = Ready, hm_text = AllReady, hm_reasonCode = []\<rparr>
      else
        let named = List.find (\<lambda>r. hr_label r \<noteq> []) (bh_resources s);
            label = map_option hr_label named;
            count = bh_resourceCount s - backendHealthNamedResourceLimit;
            reason = (case named of Some r \<Rightarrow> hr_reasonCode r | None \<Rightarrow> [])
        in Some \<lparr>hm_severity = bh_serviceSeverity s,
                 hm_text = (if reason = ''probe_timeout'' then ProbeTimeout label count
                            else if bh_serviceSeverity s = Down then IsDown label count
                            else IsDegraded label count),
                 hm_reasonCode = reason\<rparr>)"

section \<open>Runs\<close>

datatype health_event =
    Pushed health_payload
  | RosterRead string "rat option" "health_row list" "string list"
  | RosterOnly "health_row list"
  | RequestFailed
  | RequestSucceeded

fun health_do :: "health_event \<Rightarrow> health \<Rightarrow> health" where
  "health_do (Pushed p) s = fst (applyBackendHealthPayload p s)"
| "health_do (RosterRead e r rows ids) s = fst (applyBackendHealthRosterState e r rows ids s)"
| "health_do (RosterOnly rows) s = applyBackendHealthRosterOnlyState rows s"
| "health_do RequestFailed s = noteBackendHealthFailure s"
| "health_do RequestSucceeded s = noteBackendHealthSuccess s"

fun health_run :: "health_event list \<Rightarrow> health \<Rightarrow> health" where
  "health_run [] s = s"
| "health_run (e # es) s = health_run es (health_do e s)"

text \<open>How often the epoch changes during a run.\<close>

fun epoch_changes :: "health_event list \<Rightarrow> health \<Rightarrow> nat" where
  "epoch_changes [] s = 0"
| "epoch_changes (e # es) s =
     (if bh_epoch (health_do e s) = bh_epoch s then 0 else 1) + epoch_changes es (health_do e s)"

section \<open>The aggregate\<close>

lemma set_worst_first [simp]: "set (worst_first xs) = set xs"
  by (simp add: worst_first_def)

lemma length_worst_first [simp]: "length (worst_first xs) = length xs"
  by (simp add: worst_first_def)

lemma fold_raise: "fold raiseSeverity xs s = Max (insert s (hr_severity ` set xs))"
proof (induction xs arbitrary: s)
  case (Cons x xs)
  have "raiseSeverity x s = max (hr_severity x) s" by (auto simp: raiseSeverity_def max_def)
  then have "Max (insert (raiseSeverity x s) (hr_severity ` set xs)) = max (max (hr_severity x) s) (Max (insert s (hr_severity ` set xs)))"
    by (cases "xs = []") (auto simp: max.assoc max.left_commute max.commute)
  also have "\<dots> = Max (insert s (hr_severity ` set (x # xs)))"
    by (cases "xs = []") (auto simp: max.assoc max.left_commute max.commute)
  finally show ?case by (simp add: Cons.IH)
qed simp

definition rows_ok :: "health \<Rightarrow> bool" where
  "rows_ok s = (\<forall>r \<in> set (bh_observedResources s @ bh_rosterOnlyResources s). Ready < hr_severity r)"

definition health_ok :: "health \<Rightarrow> bool" where
  "health_ok s =
     (let failing = worst_first (bh_observedResources s @ bh_rosterOnlyResources s)
      in rows_ok s
       \<and> bh_serviceSeverity s = fold raiseSeverity failing (if 0 \<le> bh_revision s then Ready else NoSeverity)
       \<and> bh_resources s = take backendHealthResourceLimit failing \<and> bh_resourceCount s = length failing)"

lemma reduce_ok: "rows_ok s \<Longrightarrow> health_ok (reduceBackendHealthAggregate s)"
  by (simp add: health_ok_def reduceBackendHealthAggregate_def Let_def rows_ok_def)

lemma failing_rows_ok: "r \<in> set (failing_rows rows) \<Longrightarrow> Ready < hr_severity r"
  by (cases "hr_severity r") (auto simp: failing_rows_def less_severity_def)

lemma state_severity: "backendHealthStateSeverity v \<noteq> NoSeverity \<Longrightarrow> Ready < backendHealthStateSeverity v"
  by (cases "v \<in> set backendHealthDownStates"; cases "v \<in> set backendHealthDegradedStates")
    (simp_all add: backendHealthStateSeverity_def less_severity_def)

lemma payload_rows_ok: "r \<in> set (payload_rows p) \<Longrightarrow> Ready < hr_severity r"
  by (auto simp: payload_rows_def Let_def backendHealthResourcesFromPayload_def state_severity split: if_splits)

lemma accept_cases:
  assumes "rows_ok s" "\<forall>r \<in> set rows. Ready < hr_severity r"
  shows "(if snd (acceptBackendHealthReport e r rows same s)
          then health_ok (fst (acceptBackendHealthReport e r rows same s))
          else fst (acceptBackendHealthReport e r rows same s) = s)"
proof -
  have red: "health_ok (reduceBackendHealthAggregate x)"
    if "bh_observedResources x = rows" "bh_rosterOnlyResources x = bh_rosterOnlyResources s" for x
    by (rule reduce_ok) (use assms that in \<open>auto simp: rows_ok_def\<close>)
  show ?thesis by (cases r) (simp_all add: acceptBackendHealthReport_def Let_def red)
qed

lemma health_do_ok: "health_ok s \<Longrightarrow> health_ok (health_do e s)"
proof (cases e)
  case (Pushed p)
  assume ok: "health_ok s"
  then have "rows_ok s" by (simp add: health_ok_def Let_def)
  with accept_cases [of s "payload_rows p"] payload_rows_ok ok Pushed show ?thesis
    by (metis applyBackendHealthPayload_def health_do.simps(1))
next
  case (RosterRead ep rv rows ids)
  assume ok: "health_ok s"
  define s1 where "s1 = s\<lparr>bh_rosterOnlyResources := filter (\<lambda>r. hr_id r \<notin> set ids) (failing_rows rows)\<rparr>"
  define owned where "owned = filter (\<lambda>r. hr_id r \<in> set ids) (failing_rows rows)"
  have s1: "rows_ok s1" using ok by (auto simp: s1_def rows_ok_def health_ok_def Let_def failing_rows_ok)
  have "\<forall>r \<in> set owned. Ready < hr_severity r" by (auto simp: owned_def failing_rows_ok)
  from accept_cases [OF s1 this, of ep rv True] reduce_ok [OF s1] show ?thesis
    unfolding RosterRead by (auto simp: applyBackendHealthRosterState_def Let_def s1_def [symmetric] owned_def [symmetric] split: prod.split bool.split)
next
  case (RosterOnly rows)
  assume "health_ok s"
  then have "rows_ok (s\<lparr>bh_rosterOnlyResources := failing_rows rows\<rparr>)"
    by (auto simp: rows_ok_def health_ok_def Let_def failing_rows_ok)
  then show ?thesis using RosterOnly by (simp add: applyBackendHealthRosterOnlyState_def reduce_ok)
qed (simp_all add: noteBackendHealthFailure_def noteBackendHealthSuccess_def health_ok_def rows_ok_def Let_def)

lemma health_run_ok: "health_ok s \<Longrightarrow> health_ok (health_run es s)"
  by (induction es arbitrary: s) (simp_all add: health_do_ok)

lemma health_init_ok: "health_ok health_init"
  by (simp add: health_ok_def health_init_def rows_ok_def worst_first_def)

lemma worst_first_sorted: "sorted_wrt (\<lambda>a b. hr_severity b \<le> hr_severity a) (worst_first xs)"
proof -
  have "sorted (map (\<lambda>r. - int (backendHealthSeverityRank (hr_severity r))) (worst_first xs))"
    by (simp add: worst_first_def)
  then show ?thesis by (simp add: sorted_map less_eq_severity_def)
qed

section \<open>Reports are ordered\<close>

lemma keepLast_mono: "x \<in> set (keepLast m xs) \<Longrightarrow> m \<le> n \<Longrightarrow> x \<in> set (keepLast n xs)"
  using set_drop_subset_set_drop [of "length xs - n" "length xs - m" xs] diff_le_mono2 [of m n "length xs"]
  by (auto simp: keepLast_def)

lemma keepLast_snoc: "keepLast (Suc n) (xs @ [y]) = keepLast n xs @ [y]"
  by (simp add: keepLast_def)

lemma keepLast_keepLast: "m \<le> n \<Longrightarrow> keepLast m (keepLast n xs) = keepLast m xs"
  by (cases "n \<le> length xs") (auto simp: keepLast_def)

definition remembered :: "nat \<Rightarrow> string \<Rightarrow> rat \<Rightarrow> health \<Rightarrow> bool" where
  "remembered n e r s =
     (if n = 0 then bh_epoch s = e \<and> r \<le> bh_revision s else e \<in> set (keepLast n (bh_retiredEpochs s)))"

lemma reduce_frame [simp]:
  "bh_epoch (reduceBackendHealthAggregate s) = bh_epoch s" "bh_revision (reduceBackendHealthAggregate s) = bh_revision s"
  "bh_retiredEpochs (reduceBackendHealthAggregate s) = bh_retiredEpochs s"
  by (simp_all add: reduceBackendHealthAggregate_def Let_def)

text \<open>What one event does to the order of reports: nothing, a newer revision, or a newer epoch.\<close>

lemma accept_moves:
  defines "t \<equiv> \<lambda>e r rows same s. fst (acceptBackendHealthReport e r rows same s)"
  shows "bh_epoch (t e r rows same s) = bh_epoch s \<and> bh_revision s \<le> bh_revision (t e r rows same s)
       \<and> bh_retiredEpochs (t e r rows same s) = bh_retiredEpochs s
    \<or> bh_epoch (t e r rows same s) \<noteq> bh_epoch s
       \<and> bh_retiredEpochs (t e r rows same s) =
           (if bh_epoch s = [] then bh_retiredEpochs s else keepLast backendHealthResourceLimit (bh_retiredEpochs s @ [bh_epoch s]))"
  by (auto simp: t_def acceptBackendHealthReport_def Let_def not_less split: option.split)

lemma event_moves:
  "bh_epoch (health_do v s) = bh_epoch s \<and> bh_revision s \<le> bh_revision (health_do v s)
       \<and> bh_retiredEpochs (health_do v s) = bh_retiredEpochs s
    \<or> bh_epoch (health_do v s) \<noteq> bh_epoch s
       \<and> bh_retiredEpochs (health_do v s) =
           (if bh_epoch s = [] then bh_retiredEpochs s else keepLast backendHealthResourceLimit (bh_retiredEpochs s @ [bh_epoch s]))"
proof (cases v)
  case (Pushed p)
  then show ?thesis using accept_moves by (simp add: applyBackendHealthPayload_def)
next
  case (RosterRead ep rv rows ids)
  let ?s1 = "s\<lparr>bh_rosterOnlyResources := filter (\<lambda>r. hr_id r \<notin> set ids) (failing_rows rows)\<rparr>"
  let ?a = "acceptBackendHealthReport ep rv (filter (\<lambda>r. hr_id r \<in> set ids) (failing_rows rows)) True ?s1"
  have "bh_epoch (health_do v s) = bh_epoch (fst ?a)" "bh_revision (health_do v s) = bh_revision (fst ?a)"
    "bh_retiredEpochs (health_do v s) = bh_retiredEpochs (fst ?a)"
    by (simp_all add: RosterRead applyBackendHealthRosterState_def Let_def split: prod.split bool.split)
  moreover have "bh_epoch ?s1 = bh_epoch s" "bh_revision ?s1 = bh_revision s" "bh_retiredEpochs ?s1 = bh_retiredEpochs s"
    by simp_all
  ultimately show ?thesis
    using accept_moves [of ep rv "filter (\<lambda>r. hr_id r \<in> set ids) (failing_rows rows)" True ?s1] by presburger
qed (simp_all add: applyBackendHealthRosterOnlyState_def noteBackendHealthFailure_def noteBackendHealthSuccess_def)

lemma remembered_step:
  assumes "remembered n e r s" "e \<noteq> []"
    "n' = (if bh_epoch (health_do v s) = bh_epoch s then n else Suc n)" "n' \<le> backendHealthResourceLimit"
  shows "remembered n' e r (health_do v s)"
  using event_moves [of v s]
proof (elim disjE conjE)
  assume "bh_epoch (health_do v s) = bh_epoch s" "bh_revision s \<le> bh_revision (health_do v s)"
    "bh_retiredEpochs (health_do v s) = bh_retiredEpochs s"
  with assms show ?thesis by (auto simp: remembered_def)
next
  assume changed: "bh_epoch (health_do v s) \<noteq> bh_epoch s"
    and ret: "bh_retiredEpochs (health_do v s) =
      (if bh_epoch s = [] then bh_retiredEpochs s else keepLast backendHealthResourceLimit (bh_retiredEpochs s @ [bh_epoch s]))"
  have n': "n' = Suc n" using assms(3) changed by simp
  have "e \<in> set (keepLast (Suc n) (bh_retiredEpochs (health_do v s)))"
  proof (cases "bh_epoch s = []")
    case True
    then have "n \<noteq> 0" using assms(1,2) by (cases "n = 0") (simp_all add: remembered_def)
    then show ?thesis using assms(1) True ret keepLast_mono [of e n _ "Suc n"] by (simp add: remembered_def)
  next
    case False
    have "e \<in> set (keepLast (Suc n) (bh_retiredEpochs s @ [bh_epoch s]))"
      using assms(1) by (auto simp: remembered_def keepLast_snoc split: if_splits)
    then show ?thesis using False ret assms(4) n' by (simp add: keepLast_keepLast)
  qed
  then show ?thesis by (simp add: remembered_def n')
qed

lemma remembered_run:
  "remembered n e r s \<Longrightarrow> e \<noteq> [] \<Longrightarrow> n + epoch_changes es s \<le> backendHealthResourceLimit
    \<Longrightarrow> remembered (n + epoch_changes es s) e r (health_run es s)"
proof (induction es arbitrary: n s)
  case (Cons v es)
  define n' where "n' = (if bh_epoch (health_do v s) = bh_epoch s then n else Suc n)"
  have "remembered n' e r (health_do v s)"
    by (rule remembered_step [OF Cons.prems(1,2) n'_def]) (use Cons.prems(3) in \<open>simp add: n'_def split: if_splits\<close>)
  from Cons.IH [OF this Cons.prems(2)] Cons.prems(3) show ?case by (simp add: n'_def split: if_splits)
qed simp

lemma remembered_refused:
  "remembered n e r s \<Longrightarrow> q \<le> r \<Longrightarrow> acceptBackendHealthReport e (Some q) rows False s = (s, False)"
  by (auto simp: remembered_def acceptBackendHealthReport_def keepLast_def split: if_splits dest: in_set_dropD)

section \<open>Properties\<close>

text \<open>
  No report is replayed: once a report of an epoch has been accepted, a pushed report of that epoch
  that is not newer is refused and changes nothing, whatever reports, roster reads and requests happen
  in between, as long as the epoch has not changed more than eight times since.
\<close>

theorem report_never_replayed:
  assumes "acceptBackendHealthReport e (Some r) rows same s = (t, True)" "e \<noteq> []"
    "epoch_changes es t \<le> backendHealthResourceLimit" "hp_epoch p = e" "hp_revision p = Some q" "q \<le> r"
  shows "applyBackendHealthPayload p (health_run es t) = (health_run es t, False)"
proof -
  have "remembered 0 e r t" using assms(1)
    by (auto simp: acceptBackendHealthReport_def Let_def remembered_def split: if_splits)
  from remembered_run [OF this assms(2)] assms(3) have "remembered (epoch_changes es t) e r (health_run es t)" by simp
  from remembered_refused [OF this assms(6)] show ?thesis by (simp add: applyBackendHealthPayload_def assms(4,5))
qed

definition down_report :: "string \<Rightarrow> rat \<Rightarrow> health_payload" where
  "down_report e r = \<lparr>hp_epoch = e, hp_revision = Some r, hp_overall_state = ''down'',
     hp_degraded_resources = [\<lparr>he_id = ''indexd'', he_label = ''Indexer'', he_state = ''down'', he_reason_code = ''exit''\<rparr>]\<rparr>"

theorem report_never_replayed_witness:
  "(let t = fst (acceptBackendHealthReport ''b'' (Some 4) [] True health_init)
    in applyBackendHealthPayload (down_report ''b'' 3) (health_run [Pushed (down_report ''c'' 1)] t)
         = (health_run [Pushed (down_report ''c'' 1)] t, False))"
proof -
  define t where "t = fst (acceptBackendHealthReport ''b'' (Some 4) [] True health_init)"
  have a: "acceptBackendHealthReport ''b'' (Some 4) [] True health_init = (t, True)"
    by (simp add: t_def acceptBackendHealthReport_def Let_def health_init_def)
  have n: "epoch_changes [Pushed (down_report ''c'' 1)] t \<le> backendHealthResourceLimit"
    by (simp add: backendHealthResourceLimit_def)
  have p: "hp_epoch (down_report ''b'' 3) = ''b''" "hp_revision (down_report ''b'' 3) = Some 3"
    by (simp_all add: down_report_def)
  have q: "(3::rat) \<le> 4" "''b'' \<noteq> []" by simp_all
  from report_never_replayed [OF a q(2) n p q(1)] show ?thesis by (simp only: t_def Let_def)
qed

text \<open>
  After any sequence of reports, roster reads and request outcomes the indicator tells the worst
  that is known: three failed requests in a row outrank everything; otherwise its severity is the
  greatest severity of an observed or displayed failing row, or ready when there is none and some
  report has been accepted, and it names at most eight rows, worst first.
\<close>

theorem indicator_shows_worst:
  defines "s \<equiv> \<lambda>es. health_run es health_init"
    and "rows \<equiv> \<lambda>s. bh_observedResources s @ bh_rosterOnlyResources s"
  shows "map_option hm_severity (backendHealthIndicatorModel (s es)) =
      (if backendHealthFailureThreshold \<le> bh_consecutiveFailures (s es) then Some Unresponsive
       else if rows (s es) \<noteq> [] then Some (Max (hr_severity ` set (rows (s es))))
       else if 0 \<le> bh_revision (s es) then Some Ready else None)
    \<and> length (bh_resources (s es)) \<le> backendHealthResourceLimit \<and> bh_resourceCount (s es) = length (rows (s es))
    \<and> sorted_wrt (\<lambda>a b. hr_severity b \<le> hr_severity a) (bh_resources (s es))"
proof -
  define h where "h = s es"
  have ok: "health_ok h" unfolding h_def s_def by (rule health_run_ok [OF health_init_ok])
  have sev: "bh_serviceSeverity h = Max (insert (if 0 \<le> bh_revision h then Ready else NoSeverity) (hr_severity ` set (rows h)))"
    using ok by (simp add: health_ok_def Let_def fold_raise rows_def image_Un del: Max_insert)
  have worst: "bh_serviceSeverity h = Max (hr_severity ` set (rows h)) \<and> Ready < bh_serviceSeverity h" if "rows h \<noteq> []"
  proof -
    obtain r where r: "r \<in> set (rows h)" using \<open>rows h \<noteq> []\<close> by (cases "rows h") auto
    have "Ready < hr_severity r" using ok r by (auto simp: health_ok_def rows_ok_def Let_def rows_def)
    also have "\<dots> \<le> Max (hr_severity ` set (rows h))" using r by simp
    finally have m: "Ready < Max (hr_severity ` set (rows h))" .
    moreover have "(if 0 \<le> bh_revision h then Ready else NoSeverity) \<le> Ready" by (simp add: less_eq_severity_def)
    ultimately have "(if 0 \<le> bh_revision h then Ready else NoSeverity) \<le> Max (hr_severity ` set (rows h))"
      by (metis less_imp_le order_trans)
    then show ?thesis using m r by (subst (1 2) sev, subst (1 2) Max_insert) (auto simp: max_def)
  qed
  have none: "bh_serviceSeverity h = (if 0 \<le> bh_revision h then Ready else NoSeverity)" if "rows h = []"
    using sev that by simp
  have ne: "Ready < x \<Longrightarrow> x \<noteq> Ready \<and> x \<noteq> NoSeverity" for x by (cases x) (auto simp: less_severity_def)
  have "map_option hm_severity (backendHealthIndicatorModel h) =
      (if backendHealthFailureThreshold \<le> bh_consecutiveFailures h then Some Unresponsive
       else if rows h \<noteq> [] then Some (Max (hr_severity ` set (rows h)))
       else if 0 \<le> bh_revision h then Some Ready else None)"
    using worst none ne [of "bh_serviceSeverity h"] by (cases "rows h = []") (auto simp: backendHealthIndicatorModel_def Let_def)
  moreover have "sorted_wrt (\<lambda>a b. hr_severity b \<le> hr_severity a) (bh_resources h)"
    using ok worst_first_sorted by (simp add: health_ok_def Let_def sorted_wrt_take)
  ultimately show ?thesis using ok unfolding h_def [symmetric] by (simp add: health_ok_def Let_def rows_def)
qed

end
