(* ===== verification/Editor_Files.thy ===== *)
theory Editor_Files
  imports Js_Prelude
begin

text \<open>
  An open text file and its disk copy (\<open>45_file_explorer_actions.js\<close>, \<open>92_codemirror_editor.js\<close>,
  \<open>86_changes_editor.js\<close>, \<open>10_core_utils.js\<close>): edits, autosave, the queue of saves, conflicts, reloads
  and the verdict that a file is missing.

  The model follows one path. \<open>fileState\<close> maps the path to an object that asynchronous operations keep
  while another object takes its place, so objects are indices into \<open>ed_objects\<close> and \<open>ed_current\<close> is the
  one the path maps to. An asynchronous function that waits is a task or the phase of the save owner, and
  its answer is a later step. The clock is an argument. Historical editors, Git metadata and the layout of
  panels are not modelled; the text of the panel an operation reads is an argument.
\<close>

section \<open>Disk entries\<close>

record entry =
  en_mtime :: int
  en_size :: "int option"

definition FILE_MTIME_NS_CHANGE_TOLERANCE :: int where "FILE_MTIME_NS_CHANGE_TOLERANCE = 10000000"
definition FILE_MTIME_NS_MIN_VALUE :: int where "FILE_MTIME_NS_MIN_VALUE = 1000000000000000"

definition fileMtimesMatch :: "int \<Rightarrow> int \<Rightarrow> bool" where
  "fileMtimesMatch l r =
     (if l = r then True
      else if max \<bar>l\<bar> \<bar>r\<bar> < FILE_MTIME_NS_MIN_VALUE then False
      else \<bar>l - r\<bar> \<le> FILE_MTIME_NS_CHANGE_TOLERANCE)"

text \<open>\<open>KEmpty\<close> is a record without a kind.\<close>

datatype file_kind = KText | KImage | KMedia | KTooLarge | KError | KEmpty

record file_state =
  fs_kind :: file_kind
  fs_mtime :: int
  fs_size :: "int option"
  fs_original :: string
  fs_content :: string
  fs_dirty :: bool
  fs_externalChanged :: "(int \<times> int option) option"
  fs_externalMissing :: bool
  fs_externalError :: bool
  fs_externalChangeEditPrompted :: bool
  fs_externalReloadDeferred :: "(int \<times> int option) option"
  fs_lastCleanAt :: "int option"
  fs_conflictDialogOpen :: bool
  fs_diffAvailable :: bool

definition fileEntryChanged :: "file_state option \<Rightarrow> entry \<Rightarrow> bool" where
  "fileEntryChanged st e =
     (case st of
        None \<Rightarrow> True
      | Some f \<Rightarrow>
          if \<not> fileMtimesMatch (fs_mtime f) (en_mtime e) then True
          else if fs_size f = None \<or> en_size e = None then True
          else fs_size f \<noteq> en_size e)"

definition plain_state :: "file_kind \<Rightarrow> int \<Rightarrow> int option \<Rightarrow> string \<Rightarrow> file_state" where
  "plain_state kind mtime sz content =
     \<lparr>fs_kind = kind, fs_mtime = mtime, fs_size = sz, fs_original = content, fs_content = content, fs_dirty = False,
      fs_externalChanged = None, fs_externalMissing = False, fs_externalError = False, fs_externalChangeEditPrompted = False,
      fs_externalReloadDeferred = None, fs_lastCleanAt = None, fs_conflictDialogOpen = False, fs_diffAvailable = False\<rparr>"

definition textFileStateFromReadPayload :: "int \<Rightarrow> int option \<Rightarrow> string \<Rightarrow> file_state" where
  "textFileStateFromReadPayload = plain_state KText"

definition fileErrorState :: file_state where "fileErrorState = plain_state KError 0 None []"

definition missingFileState :: file_state where
  "missingFileState = fileErrorState\<lparr>fs_externalMissing := True\<rparr>"

definition tooLargeFileState :: "int option \<Rightarrow> file_state" where
  "tooLargeFileState sz = plain_state KTooLarge 0 sz []"

definition oversizeOrErrorFileState :: "int option \<Rightarrow> bool \<Rightarrow> file_state" where
  "oversizeOrErrorFileState sz oversize = (if oversize then tooLargeFileState sz else fileErrorState)"

definition clearOpenFileMissingState :: "file_state \<Rightarrow> file_state" where
  "clearOpenFileMissingState f = f\<lparr>fs_externalMissing := False\<rparr>"

definition clearOpenFileExternalState :: "file_state \<Rightarrow> file_state" where
  "clearOpenFileExternalState f =
     (clearOpenFileMissingState f)\<lparr>fs_externalChanged := None, fs_externalError := False,
        fs_externalChangeEditPrompted := False, fs_externalReloadDeferred := None\<rparr>"

section \<open>Save hygiene\<close>

record hygiene =
  trimTrailingWhitespace :: bool
  ensureFinalNewline :: bool

definition is_blank :: "char \<Rightarrow> bool" where "is_blank c = (c = CHR '' '' \<or> c = CHR 0x09)"

fun at_line_end :: "string \<Rightarrow> bool" where
  "at_line_end [] = True"
| "at_line_end (c # s) = (c = CHR 0x0A \<or> c = CHR 0x0D \<and> s \<noteq> [] \<and> hd s = CHR 0x0A)"

text \<open>\<open>text.replace(/[ \t]+(?=\r?\n|$)/g, '')\<close>\<close>

fun trim_line_ends :: "string \<Rightarrow> string" where
  "trim_line_ends [] = []"
| "trim_line_ends (c # s) =
     (if is_blank c \<and> at_line_end (dropWhile is_blank s) then trim_line_ends s else c # trim_line_ends s)"

definition normalizeFileEditorSaveContent :: "hygiene \<Rightarrow> string \<Rightarrow> string" where
  "normalizeFileEditorSaveContent h content =
     (let text = (if trimTrailingWhitespace h then trim_line_ends content else content)
      in if ensureFinalNewline h \<and> text \<noteq> [] \<and> last text \<noteq> CHR 0x0A then text @ [CHR 0x0A] else text)"

section \<open>State\<close>

record config =
  cf_readOnly :: bool
  cf_autosave :: bool
  cf_hygiene :: hygiene
  cf_kind :: file_kind
  cf_maxBytes :: int

record self_write =
  ak_mtime :: int
  ak_size :: int
  ak_pending :: bool
  ak_expires :: int

record save_options =
  so_autosave :: bool
  so_closing :: bool
  so_force :: bool

record save_request =
  rq_options :: save_options
  rq_resolvers :: "nat list"

datatype save_result = SaveConflict | SaveDone bool

text \<open>What the loop of the save owner waits for. The write keeps the object whose content it saves, that
  content, and the mtime it expects on the disk unless it is forced.\<close>

datatype save_phase =
    Writing nat string "int option"
  | SaveReload
  | Performed save_result
  | Dialog
  | Comparing
  | DialogReload
  | DialogClosed bool bool

record save_owner =
  ow_active :: "save_request option"
  ow_pending :: "save_request option"
  ow_conflict :: bool
  ow_request :: "save_request option"
  ow_phase :: save_phase

text \<open>Who waits for a reload.\<close>

datatype reload_caller = ForSave | ForDialog | ForNobody

datatype task =
    Joining nat "entry option" reload_caller
  | Inspecting reload_caller
  | Reading entry reload_caller
  | Confirming nat reload_caller
  | Loaded file_state reload_caller
  | Finished bool
  | Probing nat

record editor =
  ed_objects :: "file_state list"
  ed_current :: "nat option"
  ed_generation :: nat
  ed_ack :: "self_write option"
  ed_owner :: "save_owner option"
  ed_autosave :: "nat option"
  ed_timerSerial :: nat
  ed_reloadFlight :: "nat option"
  ed_tasks :: "task list"
  ed_calls :: nat
  ed_settled :: "(nat \<times> bool) list"

definition editor_init :: editor where
  "editor_init = \<lparr>ed_objects = [], ed_current = None, ed_generation = 0, ed_ack = None, ed_owner = None, ed_autosave = None,
     ed_timerSerial = 0, ed_reloadFlight = None, ed_tasks = [], ed_calls = 0, ed_settled = []\<rparr>"

definition fileStateOf :: "editor \<Rightarrow> file_state option" where
  "fileStateOf s = map_option (\<lambda>i. ed_objects s ! i) (ed_current s)"

definition modObject :: "nat \<Rightarrow> (file_state \<Rightarrow> file_state) \<Rightarrow> editor \<Rightarrow> editor" where
  "modObject i f s = s\<lparr>ed_objects := (ed_objects s)[i := f (ed_objects s ! i)]\<rparr>"

definition modCurrent :: "(file_state \<Rightarrow> file_state) \<Rightarrow> editor \<Rightarrow> editor" where
  "modCurrent f s = (case ed_current s of Some i \<Rightarrow> modObject i f s | None \<Rightarrow> s)"

text \<open>A new object keeps the dialog flag of the one it replaces.\<close>

definition setFileState :: "file_state \<Rightarrow> editor \<Rightarrow> editor" where
  "setFileState f s =
     (let f1 = (case fileStateOf s of Some p \<Rightarrow> f\<lparr>fs_conflictDialogOpen := fs_conflictDialogOpen p\<rparr> | None \<Rightarrow> f)
      in s\<lparr>ed_objects := ed_objects s @ [f1], ed_current := Some (length (ed_objects s))\<rparr>)"

definition ensureFileState :: "editor \<Rightarrow> editor" where
  "ensureFileState s = (if ed_current s = None then setFileState (plain_state KEmpty 0 None []) s else s)"

definition fileConflictDialogOpen :: "editor \<Rightarrow> bool" where
  "fileConflictDialogOpen s = (case fileStateOf s of Some f \<Rightarrow> fs_conflictDialogOpen f | None \<Rightarrow> False)"

definition setFileConflictDialogOpen :: "bool \<Rightarrow> editor \<Rightarrow> editor" where
  "setFileConflictDialogOpen b s = modCurrent (\<lambda>f. f\<lparr>fs_conflictDialogOpen := b\<rparr>) (ensureFileState s)"

definition bumpOpenFileContentGeneration :: "editor \<Rightarrow> editor" where
  "bumpOpenFileContentGeneration s = s\<lparr>ed_generation := Suc (ed_generation s)\<rparr>"

definition clearFileAutosaveTimer :: "editor \<Rightarrow> editor" where
  "clearFileAutosaveTimer s = s\<lparr>ed_autosave := None\<rparr>"

section \<open>The client's own writes\<close>

text \<open>\<open>Number(size)\<close>, where \<open>null\<close> counts as zero. An acknowledgement that has expired, which the source
  deletes when it meets it, counts as absent.\<close>

definition size_number :: "int option \<Rightarrow> int" where
  "size_number sz = (case sz of Some n \<Rightarrow> n | None \<Rightarrow> 0)"

definition fileEditorSelfWriteAcknowledged :: "int \<Rightarrow> entry \<Rightarrow> editor \<Rightarrow> bool" where
  "fileEditorSelfWriteAcknowledged now e s =
     (case ed_ack s of
        None \<Rightarrow> False
      | Some a \<Rightarrow>
          now \<le> ak_expires a
          \<and> ((\<not> ak_pending a \<and> fileMtimesMatch (en_mtime e) (ak_mtime a) \<and> size_number (en_size e) = ak_size a)
             \<or> (ak_pending a \<and> size_number (en_size e) = 0)))"

definition fileEditorSelfWritePending :: "int \<Rightarrow> editor \<Rightarrow> bool" where
  "fileEditorSelfWritePending now s = (case ed_ack s of Some a \<Rightarrow> now \<le> ak_expires a | None \<Rightarrow> False)"

section \<open>Reloading from the disk\<close>

datatype fetched = Found entry | Omitted | FetchFailed

text \<open>\<open>ReadStatus\<close> says whether the server named the size as the reason; \<open>ReadSniffed\<close> is status 415 for a file
  whose sniffed type has a raw preview.\<close>

datatype read_answer = ReadOk int "int option" string | ReadStatus nat bool | ReadSniffed | ReadUnreachable

definition addTask :: "task \<Rightarrow> editor \<Rightarrow> editor" where
  "addTask t s = s\<lparr>ed_tasks := ed_tasks s @ [t]\<rparr>"

definition setTask :: "nat \<Rightarrow> task \<Rightarrow> editor \<Rightarrow> editor" where
  "setTask k t s = s\<lparr>ed_tasks := (ed_tasks s)[k := t]\<rparr>"

definition taskAt :: "nat \<Rightarrow> editor \<Rightarrow> task" where
  "taskAt k s = (if k < length (ed_tasks s) then ed_tasks s ! k else Finished False)"

text \<open>What \<open>openFileStateFromDisk\<close> does with an entry: large files, images and media need no read.\<close>

definition loadFromEntry :: "config \<Rightarrow> entry \<Rightarrow> reload_caller \<Rightarrow> task" where
  "loadFromEntry cf e caller =
     (if cf_maxBytes cf < size_number (en_size e) then Loaded ((tooLargeFileState (en_size e))\<lparr>fs_mtime := en_mtime e\<rparr>) caller
      else if cf_kind cf \<noteq> KText then Loaded (plain_state (cf_kind cf) (en_mtime e) (en_size e) []) caller
      else Reading e caller)"

definition loadOpenFileStateFromDisk :: "config \<Rightarrow> entry option \<Rightarrow> reload_caller \<Rightarrow> task" where
  "loadOpenFileStateFromDisk cf e caller = (case e of Some x \<Rightarrow> loadFromEntry cf x caller | None \<Rightarrow> Inspecting caller)"

definition startReload :: "config \<Rightarrow> entry option \<Rightarrow> reload_caller \<Rightarrow> editor \<Rightarrow> editor" where
  "startReload cf e caller s =
     (addTask (loadOpenFileStateFromDisk cf e caller) s)\<lparr>ed_reloadFlight := Some (length (ed_tasks s))\<rparr>"

definition replaceOpenFileStateFromDisk :: "config \<Rightarrow> entry option \<Rightarrow> reload_caller \<Rightarrow> editor \<Rightarrow> editor" where
  "replaceOpenFileStateFromDisk cf e caller s =
     (case ed_reloadFlight s of
        Some flight \<Rightarrow> addTask (Joining flight e caller) s
      | None \<Rightarrow> startReload cf e caller s)"

text \<open>The result of a reload reaches its caller, who takes it up in a later step.\<close>

definition setSavePhase :: "save_phase \<Rightarrow> editor \<Rightarrow> editor" where
  "setSavePhase p s = s\<lparr>ed_owner := map_option (\<lambda>w. w\<lparr>ow_phase := p\<rparr>) (ed_owner s)\<rparr>"

definition answerCaller :: "reload_caller \<Rightarrow> bool \<Rightarrow> editor \<Rightarrow> editor" where
  "answerCaller caller result s =
     (case caller of
        ForSave \<Rightarrow> setSavePhase (Performed (SaveDone result)) s
      | ForDialog \<Rightarrow> setSavePhase (DialogClosed False result) s
      | ForNobody \<Rightarrow> s)"

definition finishReload :: "nat \<Rightarrow> reload_caller \<Rightarrow> bool \<Rightarrow> editor \<Rightarrow> editor" where
  "finishReload k caller result s =
     (let s1 = setTask k (Finished result) s
      in answerCaller caller result (if ed_reloadFlight s = Some k then s1\<lparr>ed_reloadFlight := None\<rparr> else s1))"

definition markOpenFileMissing :: "editor \<Rightarrow> editor" where
  "markOpenFileMissing s =
     (let s1 = (case fileStateOf s of None \<Rightarrow> setFileState missingFileState (clearFileAutosaveTimer s)
                                    | Some _ \<Rightarrow> clearFileAutosaveTimer s)
      in (case fileStateOf s1 of
            None \<Rightarrow> s1
          | Some f \<Rightarrow>
              if fs_dirty f \<or> fs_diffAvailable f
              then modCurrent (\<lambda>f. f\<lparr>fs_externalMissing := True, fs_externalChanged := None, fs_externalError := False\<rparr>) s1
              else setFileState missingFileState s1))"

text \<open>The entry of the file is looked up in its directory.\<close>

definition entryAnswered :: "config \<Rightarrow> nat \<Rightarrow> fetched \<Rightarrow> editor \<Rightarrow> editor" where
  "entryAnswered cf k ans s =
     (case taskAt k s of
        Inspecting caller \<Rightarrow>
          setTask k (case ans of
              Found e \<Rightarrow> loadFromEntry cf e caller
            | Omitted \<Rightarrow> Confirming (ed_generation s) caller
            | FetchFailed \<Rightarrow> Loaded fileErrorState caller) s
      | _ \<Rightarrow> s)"

definition readAnswered :: "nat \<Rightarrow> read_answer \<Rightarrow> editor \<Rightarrow> editor" where
  "readAnswered k ans s =
     (case taskAt k s of
        Reading e caller \<Rightarrow>
          setTask k (case ans of
              ReadOk mtime sz content \<Rightarrow> Loaded (textFileStateFromReadPayload mtime sz content) caller
            | ReadStatus status oversize \<Rightarrow>
                Loaded ((if status = 413 then oversizeOrErrorFileState (en_size e) oversize else if status = 404 then missingFileState else fileErrorState)
                          \<lparr>fs_mtime := en_mtime e, fs_size := en_size e\<rparr>) caller
            | ReadSniffed \<Rightarrow> Loaded (plain_state KMedia (en_mtime e) (en_size e) []) caller
            | ReadUnreachable \<Rightarrow> Loaded fileErrorState caller) s
      | _ \<Rightarrow> s)"

text \<open>An omission in a listing is confirmed by reading the file itself, and the verdict counts only while no
  newer content has been shown.\<close>

datatype verdict = VerdictMissing | VerdictState file_state | NoVerdict

definition resolveOpenFileMissingVerdict :: "config \<Rightarrow> nat \<Rightarrow> read_answer \<Rightarrow> editor \<Rightarrow> verdict" where
  "resolveOpenFileMissingVerdict cf seen ans s =
     (case ans of
        ReadOk mtime sz content \<Rightarrow>
          if ed_generation s \<noteq> seen \<or> cf_kind cf \<noteq> KText then NoVerdict
          else VerdictState (textFileStateFromReadPayload mtime sz content)
      | ReadStatus status oversize \<Rightarrow> if status = 404 \<and> ed_generation s = seen then VerdictMissing else NoVerdict
      | _ \<Rightarrow> NoVerdict)"

definition confirmAnswered :: "config \<Rightarrow> nat \<Rightarrow> read_answer \<Rightarrow> editor \<Rightarrow> editor" where
  "confirmAnswered cf k ans s =
     (case taskAt k s of
        Confirming seen caller \<Rightarrow>
          (case resolveOpenFileMissingVerdict cf seen ans s of
             NoVerdict \<Rightarrow> finishReload k caller False s
           | VerdictMissing \<Rightarrow> finishReload k caller False (markOpenFileMissing s)
           | VerdictState f \<Rightarrow> setTask k (Loaded f caller) s)
      | Probing seen \<Rightarrow>
          (case resolveOpenFileMissingVerdict cf seen ans s of
             VerdictMissing \<Rightarrow> setTask k (Finished False) (markOpenFileMissing s)
           | _ \<Rightarrow> setTask k (Finished False) s)
      | _ \<Rightarrow> s)"

definition applyLoaded :: "nat \<Rightarrow> editor \<Rightarrow> editor" where
  "applyLoaded k s =
     (case taskAt k s of
        Loaded f caller \<Rightarrow>
          finishReload k caller True
            (bumpOpenFileContentGeneration (setFileState (clearOpenFileExternalState f) (clearFileAutosaveTimer s)))
      | _ \<Rightarrow> s)"

definition joinAnswered :: "config \<Rightarrow> nat \<Rightarrow> editor \<Rightarrow> editor" where
  "joinAnswered cf k s =
     (case taskAt k s of
        Joining flight e caller \<Rightarrow>
          (case taskAt flight s of
             Finished result \<Rightarrow>
               if (case e of Some x \<Rightarrow> fileEntryChanged (fileStateOf s) x | None \<Rightarrow> False)
               then (setTask k (loadOpenFileStateFromDisk cf e caller) s)\<lparr>ed_reloadFlight := Some k\<rparr>
               else answerCaller caller result (setTask k (Finished result) s)
           | _ \<Rightarrow> s)
      | _ \<Rightarrow> s)"

definition reloadOpenFileFromDisk :: "config \<Rightarrow> bool \<Rightarrow> reload_caller \<Rightarrow> editor \<Rightarrow> editor" where
  "reloadOpenFileFromDisk cf confirmed caller s =
     (case fileStateOf s of
        None \<Rightarrow> answerCaller caller False s
      | Some f \<Rightarrow> if fs_dirty f \<and> \<not> confirmed then answerCaller caller False s else replaceOpenFileStateFromDisk cf None caller s)"

section \<open>Autosave\<close>

definition openFileAutosaveReady :: "config \<Rightarrow> int \<Rightarrow> editor \<Rightarrow> bool" where
  "openFileAutosaveReady cf now s =
     (case fileStateOf s of
        None \<Rightarrow> False
      | Some f \<Rightarrow>
          \<not> cf_readOnly cf \<and> cf_autosave cf \<and> fs_kind f = KText \<and> fs_dirty f
          \<and> (fs_externalChanged f = None \<or> fileEditorSelfWritePending now s)
          \<and> \<not> fs_externalMissing f \<and> \<not> fs_externalError f)"

definition scheduleFileAutosave :: "config \<Rightarrow> int \<Rightarrow> editor \<Rightarrow> editor" where
  "scheduleFileAutosave cf now s =
     (let s1 = clearFileAutosaveTimer s
      in if openFileAutosaveReady cf now s1
         then s1\<lparr>ed_autosave := Some (ed_timerSerial s), ed_timerSerial := Suc (ed_timerSerial s)\<rparr> else s1)"

section \<open>Edits\<close>

definition updateDirtyFlag :: "file_state \<Rightarrow> file_state" where
  "updateDirtyFlag f = (if fs_kind f = KText then f\<lparr>fs_dirty := (fs_content f \<noteq> fs_original f)\<rparr> else f)"

text \<open>The text of the panel, where one shows the file; a final newline of the original is kept.\<close>

definition syncOpenFileContentFromPanels :: "string option \<Rightarrow> file_state \<Rightarrow> file_state" where
  "syncOpenFileContentFromPanels shown f =
     (case shown of
        None \<Rightarrow> updateDirtyFlag f
      | Some c \<Rightarrow>
          if fs_kind f \<noteq> KText then f
          else
            let keep = (fs_original f \<noteq> [] \<and> last (fs_original f) = CHR 0x0A \<and> c \<noteq> fs_original f
                        \<and> \<not> (c \<noteq> [] \<and> last c = CHR 0x0A))
            in updateDirtyFlag (f\<lparr>fs_content := (if keep then c @ [CHR 0x0A] else c)\<rparr>))"

definition promptExternalChangeBeforeEditing :: "config \<Rightarrow> editor \<Rightarrow> editor" where
  "promptExternalChangeBeforeEditing cf s =
     (case fileStateOf s of
        None \<Rightarrow> s
      | Some f \<Rightarrow>
          if fs_externalChanged f = None \<or> fs_externalChangeEditPrompted f then s
          else if \<not> fs_dirty f then reloadOpenFileFromDisk cf True ForNobody s
          else modCurrent (\<lambda>f. f\<lparr>fs_externalChangeEditPrompted := True\<rparr>) s)"

definition handleFileEditorContentChanged :: "config \<Rightarrow> int \<Rightarrow> bool \<Rightarrow> string \<Rightarrow> editor \<Rightarrow> editor" where
  "handleFileEditorContentChanged cf now deferAutosave content s =
     (case fileStateOf s of
        None \<Rightarrow> s
      | Some f \<Rightarrow>
          if fs_kind f \<noteq> KText then s
          else
            let dirty = (content \<noteq> fs_original f);
                s1 = modCurrent (\<lambda>f. f\<lparr>fs_content := content, fs_dirty := dirty,
                       fs_lastCleanAt := (if dirty = fs_dirty f then fs_lastCleanAt f else if dirty then None else Some now)\<rparr>) s;
                s2 = (if fs_externalChanged f \<noteq> None \<and> \<not> fs_externalChangeEditPrompted f \<and> \<not> fileEditorSelfWritePending now s
                      then promptExternalChangeBeforeEditing cf s1 else s1)
            in if dirty \<and> \<not> deferAutosave then scheduleFileAutosave cf now s2 else clearFileAutosaveTimer s2)"

section \<open>Saving\<close>

definition fileEditorSaveRequest :: "save_options \<Rightarrow> nat list \<Rightarrow> save_request" where
  "fileEditorSaveRequest opts resolvers = \<lparr>rq_options = opts, rq_resolvers = resolvers\<rparr>"

definition mergeFileEditorSaveRequest :: "save_request \<Rightarrow> save_options \<Rightarrow> nat \<Rightarrow> save_request" where
  "mergeFileEditorSaveRequest r opts resolver =
     r\<lparr>rq_options := \<lparr>so_autosave = (so_autosave (rq_options r) \<and> so_autosave opts),
                      so_closing = (so_closing (rq_options r) \<or> so_closing opts),
                      so_force = (so_force (rq_options r) \<or> so_force opts)\<rparr>,
       rq_resolvers := rq_resolvers r @ [resolver]\<rparr>"

definition resolveFileEditorSaveRequest :: "save_request option \<Rightarrow> bool \<Rightarrow> editor \<Rightarrow> editor" where
  "resolveFileEditorSaveRequest r result s =
     (case r of Some q \<Rightarrow> s\<lparr>ed_settled := ed_settled s @ map (\<lambda>i. (i, result)) (rq_resolvers q)\<rparr> | None \<Rightarrow> s)"

definition performFileEditorSave :: "config \<Rightarrow> int \<Rightarrow> string option \<Rightarrow> save_options \<Rightarrow> editor \<Rightarrow> editor" where
  "performFileEditorSave cf now shown opts s =
     (case ed_current s of
        None \<Rightarrow> setSavePhase (Performed (SaveDone False)) s
      | Some i \<Rightarrow>
          if cf_readOnly cf \<or> fs_kind (ed_objects s ! i) \<noteq> KText then setSavePhase (Performed (SaveDone False)) s
          else
            let s1 = modObject i (syncOpenFileContentFromPanels shown) s; f = ed_objects s1 ! i
            in if \<not> so_force opts \<and> (fs_externalChanged f \<noteq> None \<and> \<not> fileEditorSelfWritePending now s1 \<or> fs_externalMissing f)
               then (if \<not> fs_dirty f then reloadOpenFileFromDisk cf True ForSave (setSavePhase SaveReload s1)
                     else setSavePhase (Performed SaveConflict) (clearFileAutosaveTimer s1))
               else
                 let s2 = modObject i (\<lambda>f. updateDirtyFlag (f\<lparr>fs_content := normalizeFileEditorSaveContent (cf_hygiene cf) (fs_content f)\<rparr>)) s1;
                     g = ed_objects s2 ! i
                 in if \<not> fs_dirty g \<and> \<not> so_force opts then setSavePhase (Performed (SaveDone True)) s2
                    else setSavePhase (Writing i (fs_content g) (if so_force opts then None else Some (fs_mtime g)))
                           (s2\<lparr>ed_ack := Some \<lparr>ak_mtime = fs_mtime g, ak_size = int (length (fs_content g)),
                                               ak_pending = True, ak_expires = now + 10000\<rparr>\<rparr>))"

definition performActive :: "config \<Rightarrow> int \<Rightarrow> string option \<Rightarrow> editor \<Rightarrow> editor" where
  "performActive cf now shown s =
     (case ed_owner s of
        None \<Rightarrow> s
      | Some w \<Rightarrow> (case ow_active w of Some r \<Rightarrow> performFileEditorSave cf now shown (rq_options r) s
                                     | None \<Rightarrow> s\<lparr>ed_owner := None\<rparr>))"

definition modOwner :: "(save_owner \<Rightarrow> save_owner) \<Rightarrow> editor \<Rightarrow> editor" where
  "modOwner f s = s\<lparr>ed_owner := map_option f (ed_owner s)\<rparr>"

text \<open>A call is answered later; its resolver is the number of the call.\<close>

definition queueFileEditorSave :: "config \<Rightarrow> int \<Rightarrow> string option \<Rightarrow> save_options \<Rightarrow> editor \<Rightarrow> editor" where
  "queueFileEditorSave cf now shown opts s =
     (let n = ed_calls s; s1 = s\<lparr>ed_calls := Suc n\<rparr>
      in (case ed_owner s of
            None \<Rightarrow> s1
          | Some w \<Rightarrow>
              if ow_active w \<noteq> None \<or> ow_conflict w
              then modOwner (\<lambda>w. w\<lparr>ow_pending := Some (case ow_pending w of
                       Some r \<Rightarrow> mergeFileEditorSaveRequest r opts n | None \<Rightarrow> fileEditorSaveRequest opts [n])\<rparr>) s1
              else performActive cf now shown (modOwner (\<lambda>w. w\<lparr>ow_active := Some (fileEditorSaveRequest opts [n])\<rparr>) s1)))"

definition saveFileEditor :: "config \<Rightarrow> int \<Rightarrow> string option \<Rightarrow> save_options \<Rightarrow> editor \<Rightarrow> editor" where
  "saveFileEditor cf now shown opts s =
     (if cf_readOnly cf \<or> (case fileStateOf s of Some f \<Rightarrow> fs_kind f \<noteq> KText | None \<Rightarrow> True)
      then s\<lparr>ed_calls := Suc (ed_calls s), ed_settled := ed_settled s @ [(ed_calls s, False)]\<rparr>
      else
        let s1 = (if ed_owner s = None
                  then s\<lparr>ed_owner := Some \<lparr>ow_active = None, ow_pending = None, ow_conflict = False, ow_request = None,
                                            ow_phase = Performed (SaveDone False)\<rparr>\<rparr> else s)
        in queueFileEditorSave cf now shown opts s1)"

text \<open>The server answers a write.\<close>

datatype write_answer = Written int int | WriteRefused | WriteFailed

definition writeAnswered :: "int \<Rightarrow> write_answer \<Rightarrow> editor \<Rightarrow> editor" where
  "writeAnswered now ans s =
     (case ed_owner s of
        None \<Rightarrow> s
      | Some w \<Rightarrow>
          (case ow_phase w of
             Writing i content expected \<Rightarrow>
               (case ans of
                  Written mtime sz \<Rightarrow>
                    setSavePhase (Performed (SaveDone True))
                      (clearFileAutosaveTimer
                        (modObject i (\<lambda>f. clearOpenFileExternalState
                            (f\<lparr>fs_mtime := mtime, fs_size := Some sz, fs_original := content, fs_dirty := (fs_content f \<noteq> content),
                               fs_lastCleanAt := (if fs_content f \<noteq> content then None else Some now)\<rparr>))
                          (s\<lparr>ed_ack := Some \<lparr>ak_mtime = mtime, ak_size = sz, ak_pending = False, ak_expires = now + 5000\<rparr>\<rparr>)))
                | WriteRefused \<Rightarrow> setSavePhase (Performed SaveConflict) (s\<lparr>ed_ack := None\<rparr>)
                | WriteFailed \<Rightarrow> setSavePhase (Performed (SaveDone False)) (s\<lparr>ed_ack := None\<rparr>))
           | _ \<Rightarrow> s))"

text \<open>The conflict dialog marks the file as changed outside. It does not open twice.\<close>

definition showFileSaveConflictDialog :: "editor \<Rightarrow> editor" where
  "showFileSaveConflictDialog s =
     (if fileConflictDialogOpen s then setSavePhase (DialogClosed False False) s
      else
        setSavePhase Dialog
          (modCurrent (\<lambda>f. f\<lparr>fs_externalChanged :=
               (if fs_externalChanged f = None \<and> \<not> fs_externalMissing f then Some (0, None) else fs_externalChanged f)\<rparr>)
             (setFileConflictDialogOpen True s)))"

text \<open>One iteration of \<open>runFileEditorSaveOwner\<close>, from the result of a save to the start of the next.\<close>

definition ownerContinues :: "config \<Rightarrow> int \<Rightarrow> string option \<Rightarrow> editor \<Rightarrow> editor" where
  "ownerContinues cf now shown s =
     (case ed_owner s of
        None \<Rightarrow> s
      | Some w \<Rightarrow>
          (case (ow_active w, ow_phase w) of
             (Some r, Performed SaveConflict) \<Rightarrow>
               showFileSaveConflictDialog (modOwner (\<lambda>w. w\<lparr>ow_active := None, ow_conflict := True, ow_request := Some r\<rparr>) s)
           | (Some r, Performed (SaveDone result)) \<Rightarrow>
               let s1 = modOwner (\<lambda>w. w\<lparr>ow_active := ow_pending w, ow_pending := None\<rparr>) (resolveFileEditorSaveRequest (Some r) result s)
               in if ow_pending w = None \<and> result \<and> openFileAutosaveReady cf now s1
                  then performActive cf now shown
                         (modOwner (\<lambda>w. w\<lparr>ow_active := Some (fileEditorSaveRequest \<lparr>so_autosave = True, so_closing = False, so_force = False\<rparr> [])\<rparr>)
                           (clearFileAutosaveTimer s1))
                  else performActive cf now shown s1
           | _ \<Rightarrow> s))"

datatype choice = Overwrite | KeepDisk | Compare | Cancel

definition dialogChosen :: "config \<Rightarrow> choice \<Rightarrow> editor \<Rightarrow> editor" where
  "dialogChosen cf c s =
     (case ed_owner s of
        None \<Rightarrow> s
      | Some w \<Rightarrow>
          if ow_phase w \<noteq> Dialog \<and> ow_phase w \<noteq> Comparing then s
          else (case c of
                  Overwrite \<Rightarrow> setSavePhase (DialogClosed True True) s
                | KeepDisk \<Rightarrow> reloadOpenFileFromDisk cf True ForDialog (setSavePhase DialogReload s)
                | Compare \<Rightarrow> if ow_phase w = Dialog then setSavePhase Comparing s else s
                | Cancel \<Rightarrow> setSavePhase (DialogClosed False False) s))"

text \<open>The dialog is closed: an overwrite takes over what was queued meanwhile and saves by force, anything else
  ends the owner.\<close>

definition dialogDone :: "config \<Rightarrow> int \<Rightarrow> string option \<Rightarrow> editor \<Rightarrow> editor" where
  "dialogDone cf now shown s =
     (case ed_owner s of
        None \<Rightarrow> s
      | Some w \<Rightarrow>
          (case (ow_request w, ow_phase w) of
             (Some r, DialogClosed overwrite result) \<Rightarrow>
               let s1 = setFileConflictDialogOpen False s
               in if overwrite
                  then
                    let opts = (rq_options r)\<lparr>so_force := True,
                          so_closing := (so_closing (rq_options r) \<or> (case ow_pending w of Some p \<Rightarrow> so_closing (rq_options p) | None \<Rightarrow> False))\<rparr>;
                        resolvers = rq_resolvers r @ (case ow_pending w of Some p \<Rightarrow> rq_resolvers p | None \<Rightarrow> [])
                    in performActive cf now shown
                         (modOwner (\<lambda>w. w\<lparr>ow_active := Some (fileEditorSaveRequest opts resolvers), ow_pending := None,
                                          ow_conflict := False, ow_request := None\<rparr>) s1)
                  else (resolveFileEditorSaveRequest (ow_pending w) False (resolveFileEditorSaveRequest (Some r) result s1))\<lparr>ed_owner := None\<rparr>
           | _ \<Rightarrow> s))"

definition autoSaveFileEditor :: "config \<Rightarrow> int \<Rightarrow> string option \<Rightarrow> editor \<Rightarrow> editor" where
  "autoSaveFileEditor cf now shown s =
     (if \<not> openFileAutosaveReady cf now s then s
      else
        let s1 = modCurrent (syncOpenFileContentFromPanels shown) s
        in if \<not> openFileAutosaveReady cf now s1 then s1
           else saveFileEditor cf now shown \<lparr>so_autosave = True, so_closing = False, so_force = False\<rparr> s1)"

definition autosaveTimerFires :: "config \<Rightarrow> int \<Rightarrow> string option \<Rightarrow> editor \<Rightarrow> editor" where
  "autosaveTimerFires cf now shown s =
     (if ed_autosave s = None then s else autoSaveFileEditor cf now shown (s\<lparr>ed_autosave := None\<rparr>))"

section \<open>Watching the disk\<close>

definition openFileBackgroundReloadDeferMs :: int where "openFileBackgroundReloadDeferMs = 2000"

definition openFileBackgroundReloadShouldDefer :: "int \<Rightarrow> bool \<Rightarrow> file_state \<Rightarrow> bool" where
  "openFileBackgroundReloadShouldDefer now focused f =
     (if fs_externalMissing f then False
      else if focused then True
      else (case fs_lastCleanAt f of Some t \<Rightarrow> 0 < t \<and> now - t < openFileBackgroundReloadDeferMs | None \<Rightarrow> False))"

definition markOpenFileReloadDeferred :: "entry \<Rightarrow> file_state \<Rightarrow> file_state" where
  "markOpenFileReloadDeferred e f =
     (clearOpenFileMissingState (f\<lparr>fs_externalChanged := Some (en_mtime e, en_size e), fs_externalReloadDeferred := Some (en_mtime e, en_size e),
        fs_externalChangeEditPrompted := False\<rparr>))\<lparr>fs_externalError := False\<rparr>"

text \<open>\<open>i\<close> is the object that was current when the inspection started.\<close>

definition refreshOpenFileFromFetchedStatus ::
  "config \<Rightarrow> int \<Rightarrow> bool \<Rightarrow> nat \<Rightarrow> fetched \<Rightarrow> editor \<Rightarrow> editor" where
  "refreshOpenFileFromFetchedStatus cf now focused i fetched s =
     (let f = ed_objects s ! i
      in (case fetched of
            Omitted \<Rightarrow> if fs_externalMissing f then s else addTask (Probing (ed_generation s)) s
          | FetchFailed \<Rightarrow> (case ed_current s of None \<Rightarrow> s
              | Some _ \<Rightarrow> modCurrent (\<lambda>f. f\<lparr>fs_externalError := True\<rparr>) (clearFileAutosaveTimer s))
          | Found e \<Rightarrow>
              if fileEditorSelfWriteAcknowledged now e s then s
              else if \<not> fileEntryChanged (Some f) e then
                let s1 = (if fs_externalChanged f \<noteq> None \<or> fs_externalMissing f \<or> fs_externalError f
                          then modObject i (\<lambda>f. (clearOpenFileMissingState f)
                                 \<lparr>fs_externalError := False,
                                  fs_externalChanged := (if fs_dirty f then fs_externalChanged f else None),
                                  fs_externalReloadDeferred := (if fs_dirty f then fs_externalReloadDeferred f else None),
                                  fs_externalChangeEditPrompted := (fs_dirty f \<and> fs_externalChangeEditPrompted f)\<rparr>) s
                          else s)
                in if fs_dirty f then scheduleFileAutosave cf now s1 else s1
              else if fs_dirty f then
                if fs_externalChanged f = Some (en_mtime e, en_size e) then s
                else clearFileAutosaveTimer
                       (modObject i (\<lambda>f. (clearOpenFileMissingState f)
                          \<lparr>fs_externalChanged := Some (en_mtime e, en_size e), fs_externalReloadDeferred := None,
                           fs_externalChangeEditPrompted := False, fs_externalError := False\<rparr>) s)
              else if openFileBackgroundReloadShouldDefer now focused f then modObject i (markOpenFileReloadDeferred e) s
              else replaceOpenFileStateFromDisk cf (Some e) ForNobody s))"

definition recoverOpenFileAfterMissing :: "config \<Rightarrow> entry \<Rightarrow> editor \<Rightarrow> editor" where
  "recoverOpenFileAfterMissing cf e s =
     (case fileStateOf s of
        None \<Rightarrow> s
      | Some f \<Rightarrow>
          if \<not> fs_externalMissing f then s
          else if fs_dirty f
          then modCurrent (\<lambda>f. (clearOpenFileMissingState f)
                 \<lparr>fs_externalChanged := Some (en_mtime e, en_size e), fs_externalError := False,
                  fs_externalReloadDeferred := None, fs_externalChangeEditPrompted := False\<rparr>) (clearFileAutosaveTimer s)
          else replaceOpenFileStateFromDisk cf (Some e) ForNobody (clearFileAutosaveTimer s))"

section \<open>Opening and closing\<close>

definition openFileStateHasLoadedEditorPayload :: "file_state \<Rightarrow> bool" where
  "openFileStateHasLoadedEditorPayload f = (fs_kind f \<noteq> KError \<and> fs_kind f \<noteq> KEmpty)"

definition openFilesSetAndShow :: "file_state \<Rightarrow> editor \<Rightarrow> editor" where
  "openFilesSetAndShow f s =
     (if openFileStateHasLoadedEditorPayload f then bumpOpenFileContentGeneration (setFileState f s) else setFileState f s)"

definition deleteFileState :: "editor \<Rightarrow> editor" where
  "deleteFileState s = (clearFileAutosaveTimer s)\<lparr>ed_current := None\<rparr>"

section \<open>Events and the disk\<close>

datatype editor_event =
    Edited int bool string
  | SaveCalled int "string option" save_options
  | OwnerContinues int "string option"
  | DialogChosen choice
  | DialogDone int "string option"
  | AutosaveFires int "string option"
  | Refreshed int bool nat fetched
  | Recovered entry
  | Reloaded bool
  | EntryAnswered nat fetched
  | ReadAnswered nat read_answer
  | ConfirmAnswered nat read_answer
  | Joined nat
  | Applied nat
  | Opened file_state
  | Closed

fun editor_do :: "config \<Rightarrow> editor_event \<Rightarrow> editor \<Rightarrow> editor" where
  "editor_do cf (Edited now defer content) s = handleFileEditorContentChanged cf now defer content s"
| "editor_do cf (SaveCalled now shown opts) s = saveFileEditor cf now shown opts s"
| "editor_do cf (OwnerContinues now shown) s = ownerContinues cf now shown s"
| "editor_do cf (DialogChosen c) s = dialogChosen cf c s"
| "editor_do cf (DialogDone now shown) s = dialogDone cf now shown s"
| "editor_do cf (AutosaveFires now shown) s = autosaveTimerFires cf now shown s"
| "editor_do cf (Refreshed now focused i fetched) s = refreshOpenFileFromFetchedStatus cf now focused i fetched s"
| "editor_do cf (Recovered e) s = recoverOpenFileAfterMissing cf e s"
| "editor_do cf (Reloaded confirmed) s = reloadOpenFileFromDisk cf confirmed ForNobody s"
| "editor_do cf (EntryAnswered k ans) s = entryAnswered cf k ans s"
| "editor_do cf (ReadAnswered k ans) s = readAnswered k ans s"
| "editor_do cf (ConfirmAnswered k ans) s = confirmAnswered cf k ans s"
| "editor_do cf (Joined k) s = joinAnswered cf k s"
| "editor_do cf (Applied k) s = applyLoaded k s"
| "editor_do cf (Opened f) s = openFilesSetAndShow f s"
| "editor_do cf Closed s = deleteFileState s"

text \<open>
  The disk keeps the versions of the file, each an mtime and a content, the last one current. What the code
  relies on: a read returns some version with its own mtime; a write that expects an mtime is refused unless
  the current version has it; a new version has an mtime that none of the older ones matches. An answer to a
  write may be lost after the write was done.
\<close>

record disk =
  dk_history :: "(int \<times> string) list"
  dk_served :: "write_answer option"
  dk_editor :: editor

definition fresh_mtime :: "int \<Rightarrow> (int \<times> string) list \<Rightarrow> bool" where
  "fresh_mtime m h = (\<forall>v \<in> set h. \<not> fileMtimesMatch (fst v) m)"

definition read_from :: "(int \<times> string) list \<Rightarrow> read_answer \<Rightarrow> bool" where
  "read_from h ans = (case ans of ReadOk m sz c \<Rightarrow> (m, c) \<in> set h | _ \<Rightarrow> True)"

definition text_from :: "(int \<times> string) list \<Rightarrow> file_state \<Rightarrow> bool" where
  "text_from h f = (fs_kind f = KText \<longrightarrow> (fs_mtime f, fs_original f) \<in> set h)"

fun event_from :: "(int \<times> string) list \<Rightarrow> editor \<Rightarrow> editor_event \<Rightarrow> bool" where
  "event_from h s (ReadAnswered k ans) = read_from h ans"
| "event_from h s (ConfirmAnswered k ans) = read_from h ans"
| "event_from h s (Opened f) = text_from h f"
| "event_from h s (Refreshed now focused i fetched) = (i < length (ed_objects s))"
| "event_from h s _ = True"

definition phase_of :: "editor \<Rightarrow> save_phase option" where
  "phase_of s = map_option ow_phase (ed_owner s)"

definition accepts :: "int option \<Rightarrow> (int \<times> string) list \<Rightarrow> bool" where
  "accepts expected h = (case expected of None \<Rightarrow> True | Some e \<Rightarrow> h \<noteq> [] \<and> fileMtimesMatch e (fst (last h)))"

inductive disk_step :: "config \<Rightarrow> disk \<Rightarrow> disk \<Rightarrow> bool" for cf where
  client: "event_from (dk_history d) (dk_editor d) ev \<Longrightarrow> disk_step cf d (d\<lparr>dk_editor := editor_do cf ev (dk_editor d)\<rparr>)"
| outside: "fresh_mtime m (dk_history d) \<Longrightarrow> disk_step cf d (d\<lparr>dk_history := dk_history d @ [(m, c)]\<rparr>)"
| written: "phase_of (dk_editor d) = Some (Writing i c expected) \<Longrightarrow> dk_served d = None \<Longrightarrow> accepts expected (dk_history d)
    \<Longrightarrow> fresh_mtime m (dk_history d) \<Longrightarrow> ans = Written m (int (length c)) \<or> ans = WriteFailed
    \<Longrightarrow> disk_step cf d (d\<lparr>dk_history := dk_history d @ [(m, c)], dk_served := Some ans\<rparr>)"
| refused: "phase_of (dk_editor d) = Some (Writing i c expected) \<Longrightarrow> dk_served d = None \<Longrightarrow> ans = WriteRefused \<or> ans = WriteFailed
    \<Longrightarrow> disk_step cf d (d\<lparr>dk_served := Some ans\<rparr>)"
| answered: "dk_served d = Some ans \<Longrightarrow> disk_step cf d (d\<lparr>dk_served := None, dk_editor := writeAnswered now ans (dk_editor d)\<rparr>)"

inductive_cases disk_stepE: "disk_step cf d d'"

definition disk_init :: "(int \<times> string) list \<Rightarrow> disk" where
  "disk_init h = \<lparr>dk_history = h, dk_served = None, dk_editor = editor_init\<rparr>"

end
