(* ===== verification/Editor_Tables.thy ===== *)
theory Editor_Tables
  imports Editor_Files
begin

text \<open>
  What the operations of an open file leave alone, and the invariant of its tables: every text object holds
  a version of the disk, so does every loaded task, and the current object exists.
\<close>

section \<open>What an operation leaves alone\<close>

definition view :: "editor \<Rightarrow> (file_kind \<times> int \<times> string) list" where
  "view s = map (\<lambda>f. (fs_kind f, fs_mtime f, fs_original f)) (ed_objects s)"

definition keeps_versions :: "(file_state \<Rightarrow> file_state) \<Rightarrow> bool" where
  "keeps_versions f = (\<forall>x. fs_kind (f x) = fs_kind x \<and> fs_mtime (f x) = fs_mtime x \<and> fs_original (f x) = fs_original x)"

named_theorems frame

lemma length_view [frame]: "length (view s) = length (ed_objects s)"
  by (simp add: view_def)

lemma view_modObject [frame]: "keeps_versions f \<Longrightarrow> view (modObject i f s) = view s"
  by (cases "i < length (ed_objects s)") (auto simp: view_def modObject_def keeps_versions_def map_update list_update_beyond intro: list_update_same_conv [THEN iffD2])

lemma view_modCurrent [frame]: "keeps_versions f \<Longrightarrow> view (modCurrent f s) = view s"
  by (simp add: modCurrent_def view_modObject split: option.split)

lemma modObject_frame [frame]:
  "ed_tasks (modObject i f s) = ed_tasks s" "ed_owner (modObject i f s) = ed_owner s" "ed_current (modObject i f s) = ed_current s"
  "ed_calls (modObject i f s) = ed_calls s" "ed_settled (modObject i f s) = ed_settled s"
  "length (ed_objects (modObject i f s)) = length (ed_objects s)" "ed_generation (modObject i f s) = ed_generation s"
  "ed_reloadFlight (modObject i f s) = ed_reloadFlight s"
  by (simp_all add: modObject_def)

lemma modCurrent_frame [frame]:
  "ed_tasks (modCurrent f s) = ed_tasks s" "ed_owner (modCurrent f s) = ed_owner s" "ed_current (modCurrent f s) = ed_current s"
  "ed_calls (modCurrent f s) = ed_calls s" "ed_settled (modCurrent f s) = ed_settled s"
  "length (ed_objects (modCurrent f s)) = length (ed_objects s)" "ed_generation (modCurrent f s) = ed_generation s"
  "ed_reloadFlight (modCurrent f s) = ed_reloadFlight s"
  by (simp_all add: modCurrent_def modObject_frame split: option.split)

lemma keeps_sync [frame]: "keeps_versions (syncOpenFileContentFromPanels shown)"
  by (auto simp: keeps_versions_def syncOpenFileContentFromPanels_def updateDirtyFlag_def Let_def split: option.split)

lemma keeps_hygiene [frame]: "keeps_versions (\<lambda>f. updateDirtyFlag (f\<lparr>fs_content := g f\<rparr>))"
  by (simp add: keeps_versions_def updateDirtyFlag_def)

text \<open>A small step of the tables other than the owner: objects keep their versions or one from the disk is
  added, and the current object exists.\<close>

definition text_versions :: "(int \<times> string) list \<Rightarrow> editor \<Rightarrow> bool" where
  "text_versions h s = (\<forall>m c. (KText, m, c) \<in> set (view s) \<longrightarrow> (m, c) \<in> set h)"

fun task_from :: "(int \<times> string) list \<Rightarrow> task \<Rightarrow> bool" where
  "task_from h (Loaded f caller) = text_from h f"
| "task_from h t = True"

definition current_ok :: "editor \<Rightarrow> bool" where
  "current_ok s = (\<forall>i. ed_current s = Some i \<longrightarrow> i < length (ed_objects s))"

definition file_tables_ok :: "(int \<times> string) list \<Rightarrow> editor \<Rightarrow> bool" where
  "file_tables_ok h s = (text_versions h s \<and> (\<forall>t \<in> set (ed_tasks s). task_from h t) \<and> current_ok s)"

lemma tables_modObject: "keeps_versions f \<Longrightarrow> file_tables_ok h (modObject i f s) = file_tables_ok h s"
  by (simp add: file_tables_ok_def text_versions_def current_ok_def frame)

lemma tables_modCurrent: "keeps_versions f \<Longrightarrow> file_tables_ok h (modCurrent f s) = file_tables_ok h s"
  by (simp add: file_tables_ok_def text_versions_def current_ok_def frame)

lemma tables_irrelevant:
  "file_tables_ok h (s\<lparr>ed_owner := w\<rparr>) = file_tables_ok h s" "file_tables_ok h (s\<lparr>ed_autosave := a\<rparr>) = file_tables_ok h s"
  "file_tables_ok h (s\<lparr>ed_ack := k\<rparr>) = file_tables_ok h s" "file_tables_ok h (s\<lparr>ed_timerSerial := n\<rparr>) = file_tables_ok h s"
  "file_tables_ok h (s\<lparr>ed_reloadFlight := r\<rparr>) = file_tables_ok h s" "file_tables_ok h (s\<lparr>ed_generation := n\<rparr>) = file_tables_ok h s"
  "file_tables_ok h (s\<lparr>ed_calls := n\<rparr>) = file_tables_ok h s" "file_tables_ok h (s\<lparr>ed_settled := l\<rparr>) = file_tables_ok h s"
  by (simp_all add: file_tables_ok_def text_versions_def current_ok_def view_def)

lemma tables_setFileState: "file_tables_ok h s \<Longrightarrow> text_from h f \<Longrightarrow> file_tables_ok h (setFileState f s)"
  by (auto simp: file_tables_ok_def text_versions_def current_ok_def view_def setFileState_def text_from_def Let_def split: option.splits)

lemma tables_addTask: "file_tables_ok h s \<Longrightarrow> task_from h t \<Longrightarrow> file_tables_ok h (addTask t s)"
  by (auto simp: file_tables_ok_def text_versions_def current_ok_def view_def addTask_def)

lemma tables_setTask: "file_tables_ok h s \<Longrightarrow> task_from h t \<Longrightarrow> file_tables_ok h (setTask k t s)"
  using set_update_subset_insert [of "ed_tasks s" k t]
  by (auto simp: file_tables_ok_def text_versions_def current_ok_def view_def setTask_def)

lemma text_from_intros:
  "text_from h fileErrorState" "text_from h missingFileState" "text_from h (tooLargeFileState sz)"
  "kind \<noteq> KText \<Longrightarrow> text_from h (plain_state kind m sz c)"
  "(m, c) \<in> set h \<Longrightarrow> text_from h (textFileStateFromReadPayload m sz c)"
  "text_from h f \<Longrightarrow> text_from h (clearOpenFileExternalState f)"
  by (simp_all add: text_from_def fileErrorState_def missingFileState_def tooLargeFileState_def plain_state_def
      textFileStateFromReadPayload_def clearOpenFileExternalState_def clearOpenFileMissingState_def)

lemma tables_answerCaller: "file_tables_ok h (answerCaller c r s) = file_tables_ok h s"
  by (simp add: answerCaller_def setSavePhase_def tables_irrelevant split: reload_caller.split)

lemma tables_setPhase: "file_tables_ok h (setSavePhase p s) = file_tables_ok h s"
  by (simp add: setSavePhase_def tables_irrelevant)

lemma tables_modOwner: "file_tables_ok h (modOwner f s) = file_tables_ok h s"
  by (simp add: modOwner_def tables_irrelevant)

lemma tables_clear: "file_tables_ok h (clearFileAutosaveTimer s) = file_tables_ok h s"
  by (simp add: clearFileAutosaveTimer_def tables_irrelevant)

lemma tables_bump: "file_tables_ok h (bumpOpenFileContentGeneration s) = file_tables_ok h s"
  by (simp add: bumpOpenFileContentGeneration_def tables_irrelevant)

lemma tables_schedule: "file_tables_ok h (scheduleFileAutosave cf now s) = file_tables_ok h s"
  by (simp add: scheduleFileAutosave_def Let_def tables_clear tables_irrelevant)

lemma tables_resolve: "file_tables_ok h (resolveFileEditorSaveRequest r b s) = file_tables_ok h s"
  by (simp add: resolveFileEditorSaveRequest_def tables_irrelevant split: option.split)

lemmas tables_simps = tables_irrelevant tables_answerCaller tables_setPhase tables_modOwner tables_clear tables_bump
  tables_schedule tables_resolve

lemma loadFromEntry_from: "task_from h (loadFromEntry cf e caller)"
  by (simp add: loadFromEntry_def text_from_def tooLargeFileState_def plain_state_def)

lemma load_from: "task_from h (loadOpenFileStateFromDisk cf e caller)"
  by (simp add: loadOpenFileStateFromDisk_def loadFromEntry_from split: option.split)

lemma tables_replace: "file_tables_ok h s \<Longrightarrow> file_tables_ok h (replaceOpenFileStateFromDisk cf e caller s)"
  by (simp add: replaceOpenFileStateFromDisk_def startReload_def tables_simps tables_addTask load_from
      split: option.split)

lemma tables_reload: "file_tables_ok h s \<Longrightarrow> file_tables_ok h (reloadOpenFileFromDisk cf b caller s)"
  by (simp add: reloadOpenFileFromDisk_def tables_simps tables_replace split: option.split)

lemma tables_finish: "file_tables_ok h s \<Longrightarrow> file_tables_ok h (finishReload k caller r s)"
  by (simp add: finishReload_def Let_def tables_simps tables_setTask)

lemma tables_missing: "file_tables_ok h s \<Longrightarrow> file_tables_ok h (markOpenFileMissing s)"
  by (simp add: markOpenFileMissing_def Let_def tables_simps tables_setFileState text_from_intros tables_modCurrent keeps_versions_def
      split: option.split)


lemma tables_ensure: "file_tables_ok h s \<Longrightarrow> file_tables_ok h (ensureFileState s)"
  by (simp add: ensureFileState_def tables_setFileState text_from_intros)

lemma tables_flag: "file_tables_ok h s \<Longrightarrow> file_tables_ok h (setFileConflictDialogOpen b s)"
  by (simp add: setFileConflictDialogOpen_def tables_modCurrent keeps_versions_def tables_ensure)

lemma tables_show: "file_tables_ok h s \<Longrightarrow> file_tables_ok h (showFileSaveConflictDialog s)"
  by (simp add: showFileSaveConflictDialog_def tables_simps tables_modCurrent keeps_versions_def tables_flag)

lemma tables_perform: "file_tables_ok h s \<Longrightarrow> file_tables_ok h (performFileEditorSave cf now shown opts s)"
  by (simp add: performFileEditorSave_def Let_def tables_simps tables_modObject frame tables_reload split: option.split)

lemma tables_active: "file_tables_ok h s \<Longrightarrow> file_tables_ok h (performActive cf now shown s)"
  by (simp add: performActive_def tables_simps tables_perform split: option.split)

lemma tables_queue: "file_tables_ok h s \<Longrightarrow> file_tables_ok h (queueFileEditorSave cf now shown opts s)"
  by (simp add: queueFileEditorSave_def Let_def tables_simps tables_active split: option.split)

lemma tables_save: "file_tables_ok h s \<Longrightarrow> file_tables_ok h (saveFileEditor cf now shown opts s)"
  by (simp add: saveFileEditor_def Let_def tables_simps tables_queue)

lemma tables_continues: "file_tables_ok h s \<Longrightarrow> file_tables_ok h (ownerContinues cf now shown s)"
  by (auto simp: ownerContinues_def Let_def tables_simps tables_show tables_active
      split: option.split save_phase.split save_result.split)

lemma tables_chosen: "file_tables_ok h s \<Longrightarrow> file_tables_ok h (dialogChosen cf c s)"
  by (simp add: dialogChosen_def tables_simps tables_reload split: option.split choice.split)

lemma tables_done: "file_tables_ok h s \<Longrightarrow> file_tables_ok h (dialogDone cf now shown s)"
  by (auto simp: dialogDone_def Let_def tables_simps tables_active tables_flag split: option.split save_phase.split)

lemma tables_autosave: "file_tables_ok h s \<Longrightarrow> file_tables_ok h (autosaveTimerFires cf now shown s)"
  by (simp add: autosaveTimerFires_def autoSaveFileEditor_def Let_def tables_simps tables_save tables_modCurrent frame)

lemma tables_edit: "file_tables_ok h s \<Longrightarrow> file_tables_ok h (handleFileEditorContentChanged cf now d c s)"
  by (simp add: handleFileEditorContentChanged_def promptExternalChangeBeforeEditing_def Let_def tables_simps tables_modCurrent
      keeps_versions_def tables_reload split: option.split)

lemma tables_refresh: "file_tables_ok h s \<Longrightarrow> file_tables_ok h (refreshOpenFileFromFetchedStatus cf now b i fetched s)"
  by (simp add: refreshOpenFileFromFetchedStatus_def Let_def tables_simps tables_modObject tables_modCurrent keeps_versions_def
      clearOpenFileMissingState_def markOpenFileReloadDeferred_def tables_replace tables_addTask
      split: fetched.split option.split)

lemma tables_recover: "file_tables_ok h s \<Longrightarrow> file_tables_ok h (recoverOpenFileAfterMissing cf e s)"
  by (simp add: recoverOpenFileAfterMissing_def tables_simps tables_modCurrent keeps_versions_def clearOpenFileMissingState_def
      tables_replace split: option.split)

lemma tables_entry: "file_tables_ok h s \<Longrightarrow> file_tables_ok h (entryAnswered cf k ans s)"
  by (auto simp: entryAnswered_def tables_setTask loadFromEntry_from text_from_intros split: task.split fetched.split)

lemma tables_read: "file_tables_ok h s \<Longrightarrow> read_from h ans \<Longrightarrow> file_tables_ok h (readAnswered k ans s)"
  by (auto simp: readAnswered_def read_from_def text_from_def textFileStateFromReadPayload_def plain_state_def
      oversizeOrErrorFileState_def tooLargeFileState_def missingFileState_def fileErrorState_def intro!: tables_setTask split: task.split read_answer.split)

lemma tables_confirm: "file_tables_ok h s \<Longrightarrow> read_from h ans \<Longrightarrow> file_tables_ok h (confirmAnswered cf k ans s)"
  by (auto simp: confirmAnswered_def resolveOpenFileMissingVerdict_def read_from_def text_from_intros
      intro!: tables_setTask tables_finish tables_missing split: task.split read_answer.split verdict.split if_splits)

lemma task_from_at: "file_tables_ok h s \<Longrightarrow> taskAt k s = Loaded f c \<Longrightarrow> text_from h f"
  by (auto simp: file_tables_ok_def taskAt_def split: if_splits) (metis nth_mem task_from.simps(1))

lemma tables_apply: "file_tables_ok h s \<Longrightarrow> file_tables_ok h (applyLoaded k s)"
  by (auto simp: applyLoaded_def tables_simps intro!: tables_finish tables_setFileState text_from_intros
      dest: task_from_at split: task.split)

lemma tables_join: "file_tables_ok h s \<Longrightarrow> file_tables_ok h (joinAnswered cf k s)"
  by (auto simp: joinAnswered_def tables_simps load_from intro!: tables_setTask split: task.split)

lemma tables_open: "file_tables_ok h s \<Longrightarrow> text_from h f \<Longrightarrow> file_tables_ok h (openFilesSetAndShow f s)"
  by (simp add: openFilesSetAndShow_def tables_simps tables_setFileState)

lemma tables_close: "file_tables_ok h s \<Longrightarrow> file_tables_ok h (deleteFileState s)"
  by (simp add: deleteFileState_def clearFileAutosaveTimer_def file_tables_ok_def text_versions_def current_ok_def view_def)

lemma tables_event: "event_from h s ev \<Longrightarrow> file_tables_ok h s \<Longrightarrow> file_tables_ok h (editor_do cf ev s)"
  by (cases ev) (simp_all add: tables_edit tables_save tables_continues tables_chosen tables_done tables_autosave tables_refresh
      tables_recover tables_reload tables_entry tables_read tables_confirm tables_join tables_apply tables_open tables_close)

lemma tables_more: "file_tables_ok h s \<Longrightarrow> file_tables_ok (h @ h') s"
proof -
  have "task_from h t \<Longrightarrow> task_from (h @ h') t" for t by (cases t) (auto simp: text_from_def)
  then show "file_tables_ok h s \<Longrightarrow> file_tables_ok (h @ h') s" by (auto simp: file_tables_ok_def text_versions_def)
qed

end
