(* ===== verification/Editor_Owner.thy ===== *)
theory Editor_Owner
  imports Editor_Tables
begin

text \<open>
  The invariant of the save owner of an open file: the phase agrees with the slots of the owner, exactly the
  phases that wait for a reload have one reloads_for, every call to save is open or answered once, and the write
  in flight saves the object whose mtime it expects. Events that do not concern the owner are \<open>undisturbed\<close>.
\<close>

section \<open>The save owner\<close>

fun caller_of :: "task \<Rightarrow> reload_caller option" where
  "caller_of (Joining flight e caller) = Some caller"
| "caller_of (Inspecting caller) = Some caller"
| "caller_of (Reading e caller) = Some caller"
| "caller_of (Confirming seen caller) = Some caller"
| "caller_of (Loaded f caller) = Some caller"
| "caller_of (Finished r) = None"
| "caller_of (Probing seen) = None"

definition reloads_for :: "reload_caller \<Rightarrow> editor \<Rightarrow> nat" where
  "reloads_for c s = count (mset (map caller_of (ed_tasks s))) (Some c)"

definition reload_phase :: "reload_caller \<Rightarrow> save_phase option" where
  "reload_phase c = (case c of ForSave \<Rightarrow> Some SaveReload | ForDialog \<Rightarrow> Some DialogReload | ForNobody \<Rightarrow> None)"

definition callers_ok :: "editor \<Rightarrow> bool" where
  "callers_ok s = (\<forall>c. c \<noteq> ForNobody \<longrightarrow> reloads_for c s = (if phase_of s = reload_phase c then 1 else 0))"

definition saving :: "save_phase \<Rightarrow> bool" where
  "saving p = (case p of Writing i c e \<Rightarrow> True | SaveReload \<Rightarrow> True | Performed r \<Rightarrow> True | _ \<Rightarrow> False)"

text \<open>A write that expects nothing belongs to a forced request.\<close>

fun expects_ok :: "save_phase \<Rightarrow> save_request option \<Rightarrow> bool" where
  "expects_ok (Writing i c None) (Some r) = so_force (rq_options r)"
| "expects_ok p r = True"

lemma expects_not_writing: "(\<And>i c. p \<noteq> Writing i c None) \<Longrightarrow> expects_ok p r"
  by (cases "(p, r)" rule: expects_ok.cases) auto

definition owner_ok :: "editor \<Rightarrow> bool" where
  "owner_ok s =
     (\<forall>w. ed_owner s = Some w \<longrightarrow>
        (ow_active w \<noteq> None) = saving (ow_phase w) \<and> ow_conflict w = (\<not> saving (ow_phase w))
        \<and> (ow_request w \<noteq> None) = (\<not> saving (ow_phase w)) \<and> expects_ok (ow_phase w) (ow_active w))"

definition resolvers_of :: "save_request option \<Rightarrow> nat list" where
  "resolvers_of r = (case r of Some q \<Rightarrow> rq_resolvers q | None \<Rightarrow> [])"

definition open_calls :: "editor \<Rightarrow> nat list" where
  "open_calls s =
     (case ed_owner s of
        Some w \<Rightarrow> resolvers_of (ow_active w) @ resolvers_of (ow_pending w) @ resolvers_of (ow_request w)
      | None \<Rightarrow> [])"

definition calls_ok :: "editor \<Rightarrow> bool" where
  "calls_ok s = (mset (map fst (ed_settled s)) + mset (open_calls s) = mset [0..<ed_calls s])"

definition writing_ok :: "editor \<Rightarrow> bool" where
  "writing_ok s =
     (\<forall>i c e. phase_of s = Some (Writing i c e) \<longrightarrow>
        i < length (view s) \<and> fst (view s ! i) = KText \<and> (\<forall>x. e = Some x \<longrightarrow> fst (snd (view s ! i)) = x))"

definition editor_ok :: "editor \<Rightarrow> bool" where
  "editor_ok s = (callers_ok s \<and> owner_ok s \<and> calls_ok s \<and> writing_ok s)"

text \<open>Operations that leave these tables alone.\<close>

definition same_saves :: "editor \<Rightarrow> editor \<Rightarrow> bool" where
  "same_saves s t = (ed_owner t = ed_owner s \<and> ed_calls t = ed_calls s \<and> ed_settled t = ed_settled s
     \<and> take (length (view s)) (view t) = view s)"

lemma writing_frame:
  assumes "phase_of t = phase_of s" "take (length (view s)) (view t) = view s" "writing_ok s"
  shows "writing_ok t"
  unfolding writing_ok_def
proof (intro allI impI)
  fix i c e assume "phase_of t = Some (Writing i c e)"
  then have w: "i < length (view s)" "fst (view s ! i) = KText" "\<forall>x. e = Some x \<longrightarrow> fst (snd (view s ! i)) = x"
    using assms by (auto simp: writing_ok_def)
  have "length (view s) \<le> length (view t)" using arg_cong [OF assms(2), of length] by simp
  moreover have "view t ! i = view s ! i" using assms(2) w(1) by (metis nth_take)
  ultimately show "i < length (view t) \<and> fst (view t ! i) = KText \<and> (\<forall>x. e = Some x \<longrightarrow> fst (snd (view t ! i)) = x)"
    using w by simp
qed

lemma same_saves_ok:
  assumes "same_saves s t" "editor_ok s" "\<And>c. c \<noteq> ForNobody \<Longrightarrow> reloads_for c t = reloads_for c s"
  shows "editor_ok t"
proof -
  have "phase_of t = phase_of s" using assms(1) by (simp add: same_saves_def phase_of_def)
  then show ?thesis using assms writing_frame [of t s]
    by (simp add: editor_ok_def callers_ok_def owner_ok_def calls_ok_def open_calls_def same_saves_def)
qed

lemma reloads_for_setTask:
  "k < length (ed_tasks s) \<Longrightarrow>
   reloads_for c (setTask k t s) + (if caller_of (ed_tasks s ! k) = Some c then 1 else 0)
     = reloads_for c s + (if caller_of t = Some c then 1 else 0)"
proof -
  assume k: "k < length (ed_tasks s)"
  define l where "l = map caller_of (ed_tasks s)"
  have l: "l ! k = caller_of (ed_tasks s ! k)" "k < length l" using k by (simp_all add: l_def)
  have "mset (map caller_of (ed_tasks (setTask k t s))) = add_mset (caller_of t) (mset l - {#l ! k#})"
    using k by (simp add: setTask_def map_update mset_update l_def)
  then have "reloads_for c (setTask k t s) = count (add_mset (caller_of t) (mset l - {#l ! k#})) (Some c)"
    by (simp add: reloads_for_def)
  moreover have "reloads_for c s = count (mset l) (Some c)" by (simp add: reloads_for_def l_def)
  moreover have "0 < count (mset l) (l ! k)" using l by (metis count_greater_zero_iff nth_mem set_mset_mset)
  ultimately show ?thesis by (auto simp: l(1) [symmetric])
qed

lemma reloads_for_addTask: "reloads_for c (addTask t s) = reloads_for c s + (if caller_of t = Some c then 1 else 0)"
  by (simp add: reloads_for_def addTask_def)

lemma reloads_for_frame: "ed_tasks t = ed_tasks s \<Longrightarrow> reloads_for c t = reloads_for c s"
  by (simp add: reloads_for_def)

lemma caller_load [simp]: "caller_of (loadOpenFileStateFromDisk cf e c) = Some c" "caller_of (loadFromEntry cf x c) = Some c"
  by (simp_all add: loadOpenFileStateFromDisk_def loadFromEntry_def split: option.split)

lemma reloads_for_replace: "reloads_for c (replaceOpenFileStateFromDisk cf e c' s) = reloads_for c s + (if c = c' then 1 else 0)"
proof -
  have "reloads_for c (x\<lparr>ed_reloadFlight := r\<rparr>) = reloads_for c x" for x r by (simp add: reloads_for_def)
  then show ?thesis
    by (auto simp: replaceOpenFileStateFromDisk_def startReload_def reloads_for_addTask split: option.split)
qed

lemma replace_frame:
  "ed_owner (replaceOpenFileStateFromDisk cf e c s) = ed_owner s" "ed_calls (replaceOpenFileStateFromDisk cf e c s) = ed_calls s"
  "ed_settled (replaceOpenFileStateFromDisk cf e c s) = ed_settled s" "view (replaceOpenFileStateFromDisk cf e c s) = view s"
  "ed_current (replaceOpenFileStateFromDisk cf e c s) = ed_current s"
  by (simp_all add: replaceOpenFileStateFromDisk_def startReload_def addTask_def view_def split: option.split)

lemma setSavePhase_frame:
  "ed_tasks (setSavePhase p s) = ed_tasks s" "ed_calls (setSavePhase p s) = ed_calls s" "ed_settled (setSavePhase p s) = ed_settled s"
  "view (setSavePhase p s) = view s" "ed_current (setSavePhase p s) = ed_current s" "open_calls (setSavePhase p s) = open_calls s"
  "phase_of (setSavePhase p s) = (if ed_owner s = None then None else Some p)" "ed_objects (setSavePhase p s) = ed_objects s"
  by (auto simp: setSavePhase_def view_def open_calls_def phase_of_def split: option.split)

section \<open>Performing a save\<close>

text \<open>The owner is about to save its active request, or has none and nothing pending.\<close>

definition perform_pre :: "editor \<Rightarrow> bool" where
  "perform_pre s =
     (calls_ok s \<and> current_ok s \<and> (\<forall>c. c \<noteq> ForNobody \<longrightarrow> reloads_for c s = 0)
      \<and> (\<forall>w. ed_owner s = Some w \<longrightarrow> \<not> ow_conflict w \<and> ow_request w = None \<and> (ow_active w = None \<longrightarrow> ow_pending w = None)))"

definition active_pre :: "editor \<Rightarrow> bool" where
  "active_pre s = (perform_pre s \<and> (\<exists>w. ed_owner s = Some w \<and> ow_active w \<noteq> None))"

lemma active_pre_frame:
  "ed_owner t = ed_owner s \<Longrightarrow> ed_calls t = ed_calls s \<Longrightarrow> ed_settled t = ed_settled s \<Longrightarrow> ed_tasks t = ed_tasks s
    \<Longrightarrow> current_ok t = current_ok s \<Longrightarrow> active_pre t = active_pre s"
  by (simp add: active_pre_def perform_pre_def calls_ok_def open_calls_def reloads_for_def)

lemma settled_phase:
  assumes "active_pre s" "saving p" "p \<noteq> SaveReload"
    "\<And>i c e. p = Writing i c e \<Longrightarrow> i < length (view s) \<and> fst (view s ! i) = KText \<and> (\<forall>x. e = Some x \<longrightarrow> fst (snd (view s ! i)) = x)"
    "\<And>w. ed_owner s = Some w \<Longrightarrow> expects_ok p (ow_active w)"
  shows "editor_ok (setSavePhase p s)"
proof -
  obtain w where w: "ed_owner s = Some w" "ow_active w \<noteq> None" "\<not> ow_conflict w" "ow_request w = None"
    using assms(1) by (auto simp: active_pre_def perform_pre_def)
  have "phase_of (setSavePhase p s) = Some p" using w by (simp add: setSavePhase_frame)
  moreover have "p \<noteq> DialogReload" using assms(2) by (auto simp: saving_def)
  ultimately have "callers_ok (setSavePhase p s)" using assms(1,3)
    by (simp add: callers_ok_def active_pre_def perform_pre_def reloads_for_frame [OF setSavePhase_frame(1)] reload_phase_def split: reload_caller.split)
  moreover have "owner_ok (setSavePhase p s)" using w assms(2,5) by (simp add: owner_ok_def setSavePhase_def)
  moreover have "calls_ok (setSavePhase p s)" using assms(1) by (simp add: calls_ok_def setSavePhase_frame active_pre_def perform_pre_def)
  moreover have "writing_ok (setSavePhase p s)" using assms(4) w by (simp add: writing_ok_def setSavePhase_frame)
  ultimately show ?thesis by (simp add: editor_ok_def)
qed

lemma reload_for_save:
  assumes "active_pre s"
  shows "editor_ok (reloadOpenFileFromDisk cf True ForSave (setSavePhase SaveReload s))"
proof -
  let ?s = "setSavePhase SaveReload s"
  obtain w where w: "ed_owner s = Some w" "ow_active w \<noteq> None" "\<not> ow_conflict w" "ow_request w = None"
    using assms by (auto simp: active_pre_def perform_pre_def)
  have again: "setSavePhase p ?s = setSavePhase p s" for p by (simp add: setSavePhase_def map_option.compositionality o_def)
  let ?r = "replaceOpenFileStateFromDisk cf None ForSave ?s"
  have "phase_of ?r = Some SaveReload" using w by (simp add: phase_of_def replace_frame setSavePhase_def)
  then have "callers_ok ?r" using assms
    by (simp add: callers_ok_def reloads_for_replace reloads_for_frame [OF setSavePhase_frame(1)] active_pre_def perform_pre_def reload_phase_def split: reload_caller.split)
  moreover have "owner_ok ?r" using w by (simp add: owner_ok_def replace_frame setSavePhase_def saving_def)
  moreover have "calls_ok ?r" using assms
    by (simp add: calls_ok_def replace_frame setSavePhase_frame open_calls_def [of ?r] open_calls_def [of ?s, symmetric] active_pre_def perform_pre_def)
  moreover have "writing_ok ?r" using \<open>phase_of ?r = Some SaveReload\<close> by (simp add: writing_ok_def)
  ultimately have "editor_ok ?r" by (simp add: editor_ok_def)
  moreover have "editor_ok (setSavePhase (Performed (SaveDone False)) s)"
    by (rule settled_phase [OF assms]) (simp_all add: saving_def)
  ultimately show ?thesis by (simp add: reloadOpenFileFromDisk_def answerCaller_def again split: option.split)
qed

lemma perform_ok:
  assumes "active_pre s" "ed_owner s = Some w" "ow_active w = Some r" "opts = rq_options r"
  shows "editor_ok (performFileEditorSave cf now shown opts s)"
proof -
  have performed: "editor_ok (setSavePhase (Performed r) t)" if "active_pre t" for r t
    by (rule settled_phase [OF that]) (simp_all add: saving_def)
  show ?thesis
  proof (cases "ed_current s")
    case None
    then show ?thesis using performed [OF assms(1)] by (simp add: performFileEditorSave_def)
  next
    case (Some i)
    then have i: "i < length (ed_objects s)" using assms(1) by (simp add: active_pre_def perform_pre_def current_ok_def)
    show ?thesis
    proof (cases "cf_readOnly cf \<or> fs_kind (ed_objects s ! i) \<noteq> KText")
      case True
      then show ?thesis using Some performed [OF assms(1)] by (simp add: performFileEditorSave_def)
    next
      case False
      define s1 where "s1 = modObject i (syncOpenFileContentFromPanels shown) s"
      define s2 where "s2 = modObject i (\<lambda>f. updateDirtyFlag (f\<lparr>fs_content := normalizeFileEditorSaveContent (cf_hygiene cf) (fs_content f)\<rparr>)) s1"
      define a where "a = \<lparr>ak_mtime = fs_mtime (ed_objects s2 ! i), ak_size = int (length (fs_content (ed_objects s2 ! i))),
                           ak_pending = True, ak_expires = now + 10000\<rparr>"
      define e where "e = (if so_force opts then None else Some (fs_mtime (ed_objects s2 ! i)))"
      have cur: "current_ok s1 = current_ok s" "current_ok s2 = current_ok s"
        by (simp_all add: s1_def s2_def current_ok_def frame)
      have p: "active_pre s1" "active_pre s2"
        using assms(1) active_pre_frame [of s1 s] active_pre_frame [of s2 s] cur by (simp_all add: s1_def s2_def frame)
      have p': "active_pre (clearFileAutosaveTimer s1)" "active_pre (s2\<lparr>ed_ack := Some a\<rparr>)"
        using p by (simp_all add: clearFileAutosaveTimer_def active_pre_def perform_pre_def calls_ok_def open_calls_def reloads_for_def current_ok_def)
      have v: "view s2 = view s" by (simp add: s1_def s2_def frame)
      have vi: "view (s2\<lparr>ed_ack := Some a\<rparr>) ! i = (KText, fs_mtime (ed_objects s2 ! i), fs_original (ed_objects s2 ! i))"
        "i < length (view (s2\<lparr>ed_ack := Some a\<rparr>))"
      proof -
        have l: "i < length (ed_objects s2)" using i by (simp add: s1_def s2_def frame)
        then have "fs_kind (ed_objects s2 ! i) = fst (view s2 ! i)" by (simp add: view_def)
        also have "\<dots> = KText" using False i by (simp add: v) (simp add: view_def)
        finally show "view (s2\<lparr>ed_ack := Some a\<rparr>) ! i = (KText, fs_mtime (ed_objects s2 ! i), fs_original (ed_objects s2 ! i))"
          using l by (simp add: view_def)
        show "i < length (view (s2\<lparr>ed_ack := Some a\<rparr>))" using l by (simp add: view_def)
      qed
      have w: "editor_ok (setSavePhase (Writing i (fs_content (ed_objects s2 ! i)) e) (s2\<lparr>ed_ack := Some a\<rparr>))"
        by (rule settled_phase [OF p'(2)]) (use vi assms in \<open>auto simp: saving_def e_def s1_def s2_def frame split: if_splits\<close>)
      have goal: "performFileEditorSave cf now shown opts s =
        (let f = ed_objects s1 ! i
         in if \<not> so_force opts \<and> (fs_externalChanged f \<noteq> None \<and> \<not> fileEditorSelfWritePending now s1 \<or> fs_externalMissing f)
            then (if \<not> fs_dirty f then reloadOpenFileFromDisk cf True ForSave (setSavePhase SaveReload s1)
                  else setSavePhase (Performed SaveConflict) (clearFileAutosaveTimer s1))
            else if \<not> fs_dirty (ed_objects s2 ! i) \<and> \<not> so_force opts then setSavePhase (Performed (SaveDone True)) s2
            else setSavePhase (Writing i (fs_content (ed_objects s2 ! i)) e) (s2\<lparr>ed_ack := Some a\<rparr>))"
        using Some False by (auto simp add: performFileEditorSave_def Let_def s1_def [symmetric] s2_def [symmetric] a_def e_def)
      show ?thesis unfolding goal Let_def
        using reload_for_save [OF p(1)] performed [OF p'(1)] performed [OF p(2)] w by simp
    qed
  qed
qed

lemma performActive_ok:
  assumes "perform_pre s"
  shows "editor_ok (performActive cf now shown s)"
proof (cases "ed_owner s")
  case None
  then have "phase_of s = None" by (simp add: phase_of_def)
  then show ?thesis using assms None
    by (auto simp: performActive_def editor_ok_def callers_ok_def owner_ok_def writing_ok_def perform_pre_def reload_phase_def split: reload_caller.split)
next
  case (Some w)
  show ?thesis
  proof (cases "ow_active w")
    case None
    then have "performActive cf now shown s = s\<lparr>ed_owner := None\<rparr>" using Some by (simp add: performActive_def)
    then show ?thesis using assms Some None
      by (auto simp: editor_ok_def callers_ok_def owner_ok_def writing_ok_def perform_pre_def phase_of_def reload_phase_def
          reloads_for_def calls_ok_def open_calls_def resolvers_of_def split: reload_caller.split)
  next
    case (Some r)
    then have "active_pre s" using assms \<open>ed_owner s = Some w\<close> by (simp add: active_pre_def)
    then show ?thesis using Some \<open>ed_owner s = Some w\<close> perform_ok [OF _ _ _ refl] by (simp add: performActive_def)
  qed
qed

section \<open>Events that leave the owner alone\<close>

definition undisturbed :: "editor \<Rightarrow> editor \<Rightarrow> bool" where
  "undisturbed s t = (same_saves s t \<and> (\<forall>c. c \<noteq> ForNobody \<longrightarrow> reloads_for c t = reloads_for c s))"

lemma undisturbed_ok: "undisturbed s t \<Longrightarrow> editor_ok s \<Longrightarrow> editor_ok t"
  by (rule same_saves_ok) (simp_all add: undisturbed_def)

lemma undisturbed_refl [simp]: "undisturbed s s" by (simp add: undisturbed_def same_saves_def)

lemma undisturbed_trans [trans]:
  assumes "undisturbed s t" "undisturbed t u" shows "undisturbed s u"
proof -
  have 1: "take (length (view s)) (view t) = view s" "take (length (view t)) (view u) = view t"
    using assms by (simp_all add: undisturbed_def same_saves_def)
  have "length (view s) \<le> length (view t)" using arg_cong [OF 1(1), of length] by simp
  then have "take (length (view s)) (view u) = view s" using 1 by (metis min.absorb1 take_take)
  then show ?thesis using assms by (simp add: undisturbed_def same_saves_def)
qed

lemma undisturbed_objects: "keeps_versions f \<Longrightarrow> undisturbed s t \<Longrightarrow> undisturbed s (modObject i f t)"
  by (erule undisturbed_trans) (simp add: undisturbed_def same_saves_def frame reloads_for_def)

lemma undisturbed_current: "keeps_versions f \<Longrightarrow> undisturbed s t \<Longrightarrow> undisturbed s (modCurrent f t)"
  by (erule undisturbed_trans) (simp add: undisturbed_def same_saves_def frame reloads_for_def)

lemma undisturbed_fields:
  "undisturbed s t \<Longrightarrow> undisturbed s (t\<lparr>ed_autosave := a\<rparr>)" "undisturbed s t \<Longrightarrow> undisturbed s (t\<lparr>ed_timerSerial := n\<rparr>)"
  "undisturbed s t \<Longrightarrow> undisturbed s (t\<lparr>ed_reloadFlight := r\<rparr>)" "undisturbed s t \<Longrightarrow> undisturbed s (t\<lparr>ed_generation := n\<rparr>)"
  "undisturbed s t \<Longrightarrow> undisturbed s (t\<lparr>ed_current := j\<rparr>)" "undisturbed s t \<Longrightarrow> undisturbed s (t\<lparr>ed_ack := k\<rparr>)"
  by (simp_all add: undisturbed_def same_saves_def view_def reloads_for_def)

lemma undisturbed_clear: "undisturbed s t \<Longrightarrow> undisturbed s (clearFileAutosaveTimer t)"
  by (simp add: clearFileAutosaveTimer_def undisturbed_fields)

lemma undisturbed_bump: "undisturbed s t \<Longrightarrow> undisturbed s (bumpOpenFileContentGeneration t)"
  by (simp add: bumpOpenFileContentGeneration_def undisturbed_fields)

lemma undisturbed_schedule: "undisturbed s t \<Longrightarrow> undisturbed s (scheduleFileAutosave cf now t)"
  by (simp add: scheduleFileAutosave_def Let_def undisturbed_fields undisturbed_clear)

lemma undisturbed_set: "undisturbed s t \<Longrightarrow> undisturbed s (setFileState f t)"
  by (erule undisturbed_trans) (simp add: setFileState_def Let_def undisturbed_def same_saves_def view_def reloads_for_def)

lemma undisturbed_replace: "undisturbed s t \<Longrightarrow> undisturbed s (replaceOpenFileStateFromDisk cf e ForNobody t)"
  by (erule undisturbed_trans) (simp add: undisturbed_def same_saves_def replace_frame reloads_for_replace)

lemma undisturbed_reload: "undisturbed s t \<Longrightarrow> undisturbed s (reloadOpenFileFromDisk cf b ForNobody t)"
  by (simp add: reloadOpenFileFromDisk_def answerCaller_def undisturbed_replace split: option.split)

lemma undisturbed_probe: "undisturbed s t \<Longrightarrow> undisturbed s (addTask (Probing g) t)"
  by (erule undisturbed_trans) (simp add: undisturbed_def same_saves_def addTask_def view_def reloads_for_def)

lemma taskAt_range: "caller_of (taskAt k s) = Some c \<Longrightarrow> k < length (ed_tasks s)"
  by (auto simp: taskAt_def split: if_splits)

lemma undisturbed_setTask:
  assumes "k < length (ed_tasks s)" "caller_of t = caller_of (taskAt k s)"
  shows "undisturbed s (setTask k t s)"
proof -
  have "reloads_for c (setTask k t s) = reloads_for c s" for c
    using reloads_for_setTask [of k s c t] assms by (simp add: taskAt_def split: if_splits)
  then show ?thesis by (simp add: undisturbed_def same_saves_def) (simp add: setTask_def view_def)
qed

lemmas undisturbed_intros = undisturbed_refl undisturbed_objects undisturbed_current undisturbed_fields undisturbed_clear undisturbed_bump undisturbed_schedule undisturbed_set
  undisturbed_replace undisturbed_reload undisturbed_probe

lemma undisturbed_missing: "undisturbed s t \<Longrightarrow> undisturbed s (markOpenFileMissing t)"
  by (auto simp: markOpenFileMissing_def Let_def keeps_versions_def intro!: undisturbed_intros split: option.split)

lemma undisturbed_if: "undisturbed s t \<Longrightarrow> undisturbed s u \<Longrightarrow> undisturbed s (if b then t else u)"
  by simp

lemma undisturbed_prompt: "undisturbed s t \<Longrightarrow> undisturbed s (promptExternalChangeBeforeEditing cf t)"
  by (auto simp: promptExternalChangeBeforeEditing_def keeps_versions_def intro!: undisturbed_reload undisturbed_current split: option.split)

lemma undisturbed_edit: "undisturbed s (handleFileEditorContentChanged cf now d c s)"
proof (cases "fileStateOf s")
  case (Some f)
  have "keeps_versions (\<lambda>x. x\<lparr>fs_content := c, fs_dirty := b, fs_lastCleanAt := g x\<rparr>)" for b g by (simp add: keeps_versions_def)
  then show ?thesis unfolding handleFileEditorContentChanged_def Some option.case Let_def
    by (intro undisturbed_if undisturbed_prompt undisturbed_schedule undisturbed_clear undisturbed_current undisturbed_refl)
qed (simp add: handleFileEditorContentChanged_def)

lemma keeps_refresh:
  "keeps_versions (\<lambda>f. (clearOpenFileMissingState f)\<lparr>fs_externalError := False, fs_externalChanged := a f, fs_externalReloadDeferred := b f,
      fs_externalChangeEditPrompted := d f\<rparr>)"
  "keeps_versions (\<lambda>f. (clearOpenFileMissingState f)\<lparr>fs_externalChanged := x, fs_externalReloadDeferred := y,
      fs_externalChangeEditPrompted := q, fs_externalError := z\<rparr>)"
  "keeps_versions (\<lambda>f. f\<lparr>fs_externalError := z\<rparr>)" "keeps_versions (markOpenFileReloadDeferred e)"
  by (simp_all add: keeps_versions_def clearOpenFileMissingState_def markOpenFileReloadDeferred_def)

lemma undisturbed_refresh: "undisturbed s (refreshOpenFileFromFetchedStatus cf now b i fetched s)"
proof (cases fetched)
  case (Found e)
  show ?thesis unfolding refreshOpenFileFromFetchedStatus_def Let_def Found fetched.case
    by (intro undisturbed_if undisturbed_intros keeps_refresh)
next
  case FetchFailed
  show ?thesis unfolding refreshOpenFileFromFetchedStatus_def Let_def FetchFailed fetched.case
    by (auto intro!: undisturbed_intros keeps_refresh split: option.split)
qed (simp add: refreshOpenFileFromFetchedStatus_def Let_def undisturbed_probe)

lemma undisturbed_recover: "undisturbed s (recoverOpenFileAfterMissing cf e s)"
  by (auto simp: recoverOpenFileAfterMissing_def keeps_versions_def clearOpenFileMissingState_def intro!: undisturbed_intros split: option.split)

lemma undisturbed_entry: "undisturbed s (entryAnswered cf k ans s)"
proof (cases "taskAt k s")
  case (Inspecting c)
  then have "k < length (ed_tasks s)" using taskAt_range [of k s c] by simp
  then show ?thesis using Inspecting by (auto simp: entryAnswered_def intro!: undisturbed_setTask split: fetched.split)
qed (simp_all add: entryAnswered_def)

lemma undisturbed_read: "undisturbed s (readAnswered k ans s)"
proof (cases "taskAt k s")
  case (Reading e c)
  then have "k < length (ed_tasks s)" using taskAt_range [of k s c] by simp
  then show ?thesis using Reading by (auto simp: readAnswered_def intro!: undisturbed_setTask split: read_answer.split)
qed (simp_all add: readAnswered_def)

lemma undisturbed_open: "undisturbed s (openFilesSetAndShow f s)"
  by (auto simp: openFilesSetAndShow_def intro!: undisturbed_intros)

lemma undisturbed_close: "undisturbed s (deleteFileState s)"
  by (auto simp: deleteFileState_def intro!: undisturbed_intros)

section \<open>Reloads that answer the owner\<close>

lemma callers_phase:
  assumes "editor_ok s" "caller_of (taskAt k s) = Some c" "c \<noteq> ForNobody"
  shows "phase_of s = reload_phase c" "reloads_for c s = 1"
proof -
  have "Some c \<in> set (map caller_of (ed_tasks s))" using assms(2) taskAt_range [OF assms(2)] by (simp add: taskAt_def) (metis image_eqI nth_mem)
  then have "reloads_for c s \<noteq> 0" by (simp add: reloads_for_def count_eq_zero_iff) 
  then show "phase_of s = reload_phase c" "reloads_for c s = 1" using assms by (auto simp: editor_ok_def callers_ok_def split: if_splits)
qed

lemma phase_owner: "phase_of s = Some p \<Longrightarrow> \<exists>w. ed_owner s = Some w \<and> ow_phase w = p"
  by (auto simp: phase_of_def)

definition answer_phase :: "reload_caller \<Rightarrow> bool \<Rightarrow> save_phase" where
  "answer_phase c r = (if c = ForSave then Performed (SaveDone r) else DialogClosed False r)"

lemma answered_ok:
  assumes ok: "editor_ok s" and c: "c \<noteq> ForNobody" "phase_of s = reload_phase c"
    and t: "same_saves s t" "reloads_for c t = 0" "\<And>c'. c' \<noteq> c \<Longrightarrow> c' \<noteq> ForNobody \<Longrightarrow> reloads_for c' t = reloads_for c' s"
  shows "editor_ok (setSavePhase (answer_phase c r) t)"
proof -
  let ?t = "setSavePhase (answer_phase c r) t"
  obtain w where w: "ed_owner s = Some w" "reload_phase c = Some (ow_phase w)"
    using c phase_owner [of s] by (cases c) (auto simp: reload_phase_def)
  have ow: "ed_owner t = Some w" using t(1) w(1) by (simp add: same_saves_def)
  have ph: "phase_of ?t = Some (answer_phase c r)" using ow by (simp add: setSavePhase_frame)
  have "reloads_for c' ?t = 0" if "c' \<noteq> ForNobody" for c'
    using ok t c that by (cases "c' = c") (auto simp: reloads_for_frame [OF setSavePhase_frame(1)] editor_ok_def callers_ok_def reload_phase_def
        split: reload_caller.splits)
  moreover have "phase_of ?t \<noteq> reload_phase c'" if "c' \<noteq> ForNobody" for c'
    using that unfolding ph by (cases c') (simp_all add: answer_phase_def reload_phase_def)
  ultimately have "callers_ok ?t" by (simp add: callers_ok_def)
  moreover have "owner_ok ?t" using ok w ow c
    by (cases c) (auto simp: owner_ok_def setSavePhase_def editor_ok_def saving_def answer_phase_def reload_phase_def)
  moreover have "calls_ok ?t" using ok t(1)
    by (simp add: calls_ok_def setSavePhase_frame editor_ok_def same_saves_def) (simp add: open_calls_def)
  moreover have "writing_ok ?t" using ph by (simp add: writing_ok_def answer_phase_def)
  ultimately show ?thesis by (simp add: editor_ok_def)
qed

lemma answer_caller_ok:
  assumes ok: "editor_ok s" and k: "caller_of (taskAt k s) = Some c"
    and u: "undisturbed s u" "ed_tasks u = ed_tasks s"
  shows "editor_ok (answerCaller c r ((setTask k (Finished r') u)\<lparr>ed_reloadFlight := fl\<rparr>))"
proof -
  let ?t = "(setTask k (Finished r') u)\<lparr>ed_reloadFlight := fl\<rparr>"
  have kl: "k < length (ed_tasks u)" "caller_of (ed_tasks u ! k) = Some c"
    using taskAt_range [OF k] k u by (simp_all add: taskAt_def)
  have w: "reloads_for c' ?t + (if c' = c then 1 else 0) = reloads_for c' s" for c'
  proof -
    have "reloads_for c' ?t = reloads_for c' (setTask k (Finished r') u)" by (simp add: reloads_for_def)
    then show ?thesis using reloads_for_setTask [OF kl(1), of c' "Finished r'"] kl(2) reloads_for_frame [OF u(2), of c'] by auto
  qed
  have ss: "same_saves s ?t" using u(1) by (simp add: undisturbed_def same_saves_def setTask_def view_def)
  show ?thesis
  proof (cases "c = ForNobody")
    case True
    have "undisturbed s ?t" using ss w True by (simp add: undisturbed_def) (metis add.right_neutral)
    then show ?thesis using True ok undisturbed_ok by (simp add: answerCaller_def)
  next
    case False
    have "reloads_for c ?t = 0" using w [of c] callers_phase(2) [OF ok k False] by simp
    moreover have "reloads_for c' ?t = reloads_for c' s" if "c' \<noteq> c" for c' using w [of c'] that by simp
    ultimately have "editor_ok (setSavePhase (answer_phase c r) ?t)"
      using answered_ok [OF ok False callers_phase(1) [OF ok k False] ss] by blast
    then show ?thesis using False by (cases c) (simp_all add: answerCaller_def answer_phase_def)
  qed
qed

lemma no_field_change: "s\<lparr>ed_reloadFlight := ed_reloadFlight s\<rparr> = s" by simp

lemma reload_finish_ok:
  assumes "editor_ok s" "caller_of (taskAt k s) = Some c" "undisturbed s u" "ed_tasks u = ed_tasks s"
  shows "editor_ok (finishReload k c r u)"
  using answer_caller_ok [OF assms, where r = r and r' = r and fl = None] answer_caller_ok [OF assms, where r = r and r' = r and fl = "ed_reloadFlight u"]
  by (simp add: finishReload_def Let_def setTask_def)

lemma missing_tasks: "ed_tasks (markOpenFileMissing s) = ed_tasks s"
  by (simp add: markOpenFileMissing_def Let_def frame setFileState_def clearFileAutosaveTimer_def split: option.split)

lemma confirm_ok:
  assumes "editor_ok s" shows "editor_ok (confirmAnswered cf k ans s)"
proof (cases "taskAt k s")
  case (Confirming seen c)
  then have k: "caller_of (taskAt k s) = Some c" by simp
  have "undisturbed s (setTask k (Loaded f c) s)" for f using taskAt_range [OF k] k by (intro undisturbed_setTask) simp_all
  then show ?thesis using Confirming assms k undisturbed_ok
    by (auto simp: confirmAnswered_def missing_tasks intro!: reload_finish_ok undisturbed_missing undisturbed_refl split: verdict.split)
next
  case (Probing seen)
  then have k: "k < length (ed_tasks s)" by (auto simp: taskAt_def split: if_splits)
  have "undisturbed u (setTask k (Finished False) u)" if "ed_tasks u = ed_tasks s" for u
    using Probing k that by (intro undisturbed_setTask) (simp_all add: taskAt_def)
  then have "undisturbed s (setTask k (Finished False) (markOpenFileMissing s))" "undisturbed s (setTask k (Finished False) s)"
    using missing_tasks undisturbed_missing [OF undisturbed_refl] undisturbed_trans by blast+
  then show ?thesis using Probing assms undisturbed_ok by (auto simp: confirmAnswered_def split: verdict.split)
qed (simp_all add: confirmAnswered_def assms)

lemma applied_ok:
  assumes "editor_ok s" shows "editor_ok (applyLoaded k s)"
proof (cases "taskAt k s")
  case (Loaded f c)
  then show ?thesis using assms
    by (auto simp: applyLoaded_def bumpOpenFileContentGeneration_def setFileState_def clearFileAutosaveTimer_def Let_def
        intro!: reload_finish_ok undisturbed_fields) (auto simp: undisturbed_def same_saves_def view_def reloads_for_def)
qed (simp_all add: applyLoaded_def assms)

lemma join_ok:
  assumes "editor_ok s" shows "editor_ok (joinAnswered cf k s)"
proof (cases "taskAt k s")
  case (Joining flight e c)
  then have k: "caller_of (taskAt k s) = Some c" by simp
  have "undisturbed s ((setTask k (loadOpenFileStateFromDisk cf e c) s)\<lparr>ed_reloadFlight := Some k\<rparr>)"
    using taskAt_range [OF k] k by (intro undisturbed_fields undisturbed_setTask) simp_all
  moreover have "editor_ok (answerCaller c r (setTask k (Finished r) s))" for r
    using answer_caller_ok [OF assms k undisturbed_refl refl, where r = r and r' = r and fl = "ed_reloadFlight s"] by (simp add: setTask_def)
  ultimately show ?thesis using Joining assms undisturbed_ok by (auto simp: joinAnswered_def split: task.split)
qed (simp_all add: joinAnswered_def assms)

section \<open>Events of the owner\<close>

lemma no_waiting:
  assumes "editor_ok s" "phase_of s \<noteq> Some SaveReload" "phase_of s \<noteq> Some DialogReload" "c \<noteq> ForNobody"
  shows "reloads_for c s = 0"
  using assms by (cases c) (simp_all add: editor_ok_def callers_ok_def reload_phase_def)

lemma owner_cases:
  assumes "editor_ok s" "ed_owner s = Some w"
  obtains r where "saving (ow_phase w)" "ow_active w = Some r" "\<not> ow_conflict w" "ow_request w = None"
  | r where "\<not> saving (ow_phase w)" "ow_active w = None" "ow_conflict w" "ow_request w = Some r"
  using assms by (cases "saving (ow_phase w)") (auto simp: editor_ok_def owner_ok_def)

lemma pending_ok:
  assumes "editor_ok s" "ed_owner s = Some w"
    "mset (resolvers_of (Some r)) = add_mset (ed_calls s) (mset (resolvers_of (ow_pending w)))"
  shows "editor_ok (modOwner (\<lambda>w. w\<lparr>ow_pending := Some r\<rparr>) (s\<lparr>ed_calls := Suc (ed_calls s)\<rparr>))" (is "editor_ok ?t")
proof -
  have ph: "phase_of ?t = phase_of s" and v: "view ?t = view s" using assms(2) by (simp_all add: phase_of_def modOwner_def view_def)
  have "callers_ok ?t" using assms(1) by (simp add: editor_ok_def callers_ok_def ph) (simp add: modOwner_def reloads_for_def)
  moreover have "owner_ok ?t" using assms(1,2) by (simp add: editor_ok_def owner_ok_def modOwner_def)
  moreover have "calls_ok ?t" using assms by (simp add: editor_ok_def calls_ok_def open_calls_def modOwner_def)
  moreover have "writing_ok ?t" using assms(1) by (simp add: editor_ok_def writing_ok_def ph v)
  ultimately show ?thesis by (simp add: editor_ok_def)
qed

lemma refused_call_ok:
  assumes "editor_ok s"
  shows "editor_ok (s\<lparr>ed_calls := Suc (ed_calls s), ed_settled := ed_settled s @ [(ed_calls s, False)]\<rparr>)" (is "editor_ok ?t")
proof -
  have ph: "phase_of ?t = phase_of s" and v: "view ?t = view s" by (simp_all add: phase_of_def view_def)
  have "callers_ok ?t" using assms by (simp add: editor_ok_def callers_ok_def ph) (simp add: reloads_for_def)
  moreover have "calls_ok ?t" using assms by (simp add: editor_ok_def calls_ok_def open_calls_def)
  ultimately show ?thesis using assms by (simp add: editor_ok_def writing_ok_def ph v owner_ok_def)
qed

lemma save_ok:
  assumes "editor_ok s" "current_ok s"
  shows "editor_ok (saveFileEditor cf now shown opts s)"
proof (cases "cf_readOnly cf \<or> (case fileStateOf s of Some f \<Rightarrow> fs_kind f \<noteq> KText | None \<Rightarrow> True)")
  case True
  then show ?thesis using refused_call_ok [OF assms(1)] by (simp add: saveFileEditor_def)
next
  case False
  show ?thesis
  proof (cases "ed_owner s")
    case None
    then have nw: "reloads_for c s = 0" if "c \<noteq> ForNobody" for c using no_waiting [OF assms(1)] that by (simp add: phase_of_def)
    define t where "t = s\<lparr>ed_calls := Suc (ed_calls s), ed_owner := Some \<lparr>ow_active = Some (fileEditorSaveRequest opts [ed_calls s]),
        ow_pending = None, ow_conflict = False, ow_request = None, ow_phase = Performed (SaveDone False)\<rparr>\<rparr>"
    have "saveFileEditor cf now shown opts s = performActive cf now shown t"
      unfolding t_def using False None by (simp add: saveFileEditor_def queueFileEditorSave_def Let_def modOwner_def)
    moreover have "perform_pre t" unfolding t_def using assms None nw
      by (simp add: perform_pre_def editor_ok_def calls_ok_def open_calls_def resolvers_of_def fileEditorSaveRequest_def
          current_ok_def) (simp add: reloads_for_def)
    ultimately show ?thesis using performActive_ok by simp
  next
    case (Some w)
    then have w: "ow_active w \<noteq> None \<or> ow_conflict w" using assms(1) by (auto elim: owner_cases)
    define r where "r = (case ow_pending w of Some r \<Rightarrow> mergeFileEditorSaveRequest r opts (ed_calls s) | None \<Rightarrow> fileEditorSaveRequest opts [ed_calls s])"
    have "mset (resolvers_of (Some r)) = add_mset (ed_calls s) (mset (resolvers_of (ow_pending w)))"
      by (simp add: r_def resolvers_of_def mergeFileEditorSaveRequest_def fileEditorSaveRequest_def split: option.split)
    from pending_ok [OF assms(1) Some this] show ?thesis using False Some w
      by (simp add: saveFileEditor_def queueFileEditorSave_def Let_def modOwner_def r_def)
  qed
qed

lemma autosave_ok:
  assumes "editor_ok s" "current_ok s"
  shows "editor_ok (autosaveTimerFires cf now shown s)"
proof -
  let ?t = "modCurrent (syncOpenFileContentFromPanels shown) (s\<lparr>ed_autosave := None\<rparr>)"
  have "undisturbed s (s\<lparr>ed_autosave := None\<rparr>)" by (intro undisturbed_fields undisturbed_refl)
  then have 1: "editor_ok (s\<lparr>ed_autosave := None\<rparr>)" using assms(1) undisturbed_ok by blast
  have "undisturbed s ?t" by (intro undisturbed_intros keeps_sync)
  then have 2: "editor_ok ?t" using assms(1) undisturbed_ok by blast
  have "current_ok ?t" using assms(2) by (simp add: current_ok_def frame)
  then show ?thesis using assms(1) 1 2 save_ok by (simp add: autosaveTimerFires_def autoSaveFileEditor_def Let_def)
qed

text \<open>A conflict: the request leaves the active slot for the dialog.\<close>

definition dialog_pre :: "editor \<Rightarrow> bool" where
  "dialog_pre s =
     (calls_ok s \<and> (\<forall>c. c \<noteq> ForNobody \<longrightarrow> reloads_for c s = 0)
      \<and> (\<exists>w. ed_owner s = Some w \<and> ow_active w = None \<and> ow_conflict w \<and> ow_request w \<noteq> None))"

lemma dialog_phase:
  assumes "dialog_pre s" "\<not> saving p" "p \<noteq> DialogReload"
  shows "editor_ok (setSavePhase p s)"
proof -
  obtain w where w: "ed_owner s = Some w" "ow_active w = None" "ow_conflict w" "ow_request w \<noteq> None"
    using assms(1) by (auto simp: dialog_pre_def)
  have ph: "phase_of (setSavePhase p s) = Some p" using w by (simp add: setSavePhase_frame)
  have np: "p \<noteq> SaveReload" "\<And>i c e. p \<noteq> Writing i c e" using assms(2) by (auto simp: saving_def)
  then have "callers_ok (setSavePhase p s)" using assms(1,3) ph
    by (simp add: callers_ok_def dialog_pre_def reloads_for_frame [OF setSavePhase_frame(1)] reload_phase_def split: reload_caller.split)
  moreover have "owner_ok (setSavePhase p s)" using w assms(2) np(2) by (simp add: owner_ok_def setSavePhase_def expects_not_writing)
  moreover have "calls_ok (setSavePhase p s)" using assms(1) by (simp add: calls_ok_def setSavePhase_frame dialog_pre_def)
  moreover have "writing_ok (setSavePhase p s)" using np ph by (simp add: writing_ok_def)
  ultimately show ?thesis by (simp add: editor_ok_def)
qed

lemma dialog_pre_frame:
  "ed_owner t = ed_owner s \<Longrightarrow> ed_calls t = ed_calls s \<Longrightarrow> ed_settled t = ed_settled s \<Longrightarrow> ed_tasks t = ed_tasks s
    \<Longrightarrow> dialog_pre t = dialog_pre s"
  by (simp add: dialog_pre_def calls_ok_def open_calls_def reloads_for_def)

lemma set_frame:
  "ed_owner (setFileState f s) = ed_owner s" "ed_calls (setFileState f s) = ed_calls s" "ed_settled (setFileState f s) = ed_settled s"
  "ed_tasks (setFileState f s) = ed_tasks s"
  by (simp_all add: setFileState_def Let_def)

lemma flag_frame:
  "ed_owner (setFileConflictDialogOpen b s) = ed_owner s" "ed_calls (setFileConflictDialogOpen b s) = ed_calls s"
  "ed_settled (setFileConflictDialogOpen b s) = ed_settled s" "ed_tasks (setFileConflictDialogOpen b s) = ed_tasks s"
  by (simp_all add: setFileConflictDialogOpen_def ensureFileState_def frame set_frame)

lemma flag_current: "current_ok s \<Longrightarrow> current_ok (setFileConflictDialogOpen b s)"
  by (simp add: setFileConflictDialogOpen_def ensureFileState_def current_ok_def frame setFileState_def Let_def)

lemma show_ok: "dialog_pre s \<Longrightarrow> editor_ok (showFileSaveConflictDialog s)"
proof -
  assume s: "dialog_pre s"
  let ?t = "modCurrent (\<lambda>f. f\<lparr>fs_externalChanged :=
      (if fs_externalChanged f = None \<and> \<not> fs_externalMissing f then Some (0, None) else fs_externalChanged f)\<rparr>) (setFileConflictDialogOpen True s)"
  have "dialog_pre ?t = dialog_pre s" by (rule dialog_pre_frame) (simp_all add: frame flag_frame)
  then have "editor_ok (setSavePhase Dialog ?t)" using s dialog_phase by (simp add: saving_def)
  moreover have "editor_ok (setSavePhase (DialogClosed False False) s)" using s by (intro dialog_phase) (simp_all add: saving_def)
  ultimately show ?thesis by (simp add: showFileSaveConflictDialog_def)
qed

lemma continues_ok:
  assumes ok: "editor_ok s" "current_ok s"
  shows "editor_ok (ownerContinues cf now shown s)"
proof (cases "ed_owner s")
  case None
  then show ?thesis using ok by (simp add: ownerContinues_def)
next
  case (Some w)
  have nw: "reloads_for c s = 0" if "ow_phase w = Performed r" "c \<noteq> ForNobody" for c r
    using no_waiting [OF ok(1)] Some that by (simp add: phase_of_def)
  from ok(1) Some show ?thesis
  proof (cases rule: owner_cases)
    case (1 q)
    have calls: "calls_ok s" using ok by (simp add: editor_ok_def)
    show ?thesis
    proof (cases "ow_phase w")
      case (Performed r)
      show ?thesis
      proof (cases r)
        case SaveConflict
        have "dialog_pre (modOwner (\<lambda>w. w\<lparr>ow_active := None, ow_conflict := True, ow_request := Some q\<rparr>) s)"
          using Some 1 calls nw [OF Performed]
          by (simp add: dialog_pre_def modOwner_def calls_ok_def open_calls_def resolvers_of_def) (simp add: reloads_for_def add.commute)
        then show ?thesis using Some 1 Performed SaveConflict show_ok by (simp add: ownerContinues_def)
      next
        case (SaveDone b)
        define t where "t = modOwner (\<lambda>w. w\<lparr>ow_active := ow_pending w, ow_pending := None\<rparr>) (resolveFileEditorSaveRequest (Some q) b s)"
        define u where "u = modOwner (\<lambda>w. w\<lparr>ow_active := Some (fileEditorSaveRequest \<lparr>so_autosave = True, so_closing = False, so_force = False\<rparr> [])\<rparr>)
          (clearFileAutosaveTimer t)"
        have t: "ed_owner t = Some (w\<lparr>ow_active := ow_pending w, ow_pending := None\<rparr>)" "ed_calls t = ed_calls s" "ed_tasks t = ed_tasks s"
          "ed_settled t = ed_settled s @ map (\<lambda>i. (i, b)) (rq_resolvers q)" "ed_current t = ed_current s" "ed_objects t = ed_objects s"
          using Some by (simp_all add: t_def modOwner_def resolveFileEditorSaveRequest_def)
        have "map fst (map (\<lambda>i. (i, b)) l) = l" for l by (simp add: o_def)
        then have ct: "calls_ok t" using calls Some 1
          by (simp add: calls_ok_def t open_calls_def resolvers_of_def o_def ac_simps del: mset_map)
        have pt: "perform_pre t" using ct nw [OF Performed] t 1 ok(2)
          by (auto simp: perform_pre_def current_ok_def) (simp add: reloads_for_def)
        have pu: "perform_pre u" if "ow_pending w = None"
          using pt t(1) that 1 by (simp add: u_def perform_pre_def modOwner_def clearFileAutosaveTimer_def calls_ok_def open_calls_def
              resolvers_of_def fileEditorSaveRequest_def current_ok_def reloads_for_def)
        show ?thesis using Some 1 Performed SaveDone pt pu performActive_ok
          by (simp add: ownerContinues_def Let_def t_def [symmetric] u_def [symmetric])
      qed
    qed (use Some 1 ok in \<open>simp_all add: ownerContinues_def\<close>)
  next
    case (2 q)
    then show ?thesis using Some ok by (simp add: ownerContinues_def)
  qed
qed

lemma dialog_owner_pre:
  assumes "editor_ok s" "ed_owner s = Some w" "\<not> saving (ow_phase w)" "ow_phase w \<noteq> DialogReload"
  shows "dialog_pre s"
proof -
  have "reloads_for c s = 0" if "c \<noteq> ForNobody" for c
    using assms no_waiting [OF assms(1) _ _ that] by (cases "ow_phase w") (simp_all add: phase_of_def saving_def)
  then show ?thesis using assms by (auto simp: dialog_pre_def editor_ok_def owner_ok_def)
qed

lemma reload_for_dialog:
  assumes "dialog_pre s"
  shows "editor_ok (reloadOpenFileFromDisk cf True ForDialog (setSavePhase DialogReload s))"
proof -
  let ?s = "setSavePhase DialogReload s"
  obtain w where w: "ed_owner s = Some w" "ow_active w = None" "ow_conflict w" "ow_request w \<noteq> None"
    using assms by (auto simp: dialog_pre_def)
  have again: "setSavePhase p ?s = setSavePhase p s" for p by (simp add: setSavePhase_def map_option.compositionality o_def)
  let ?r = "replaceOpenFileStateFromDisk cf None ForDialog ?s"
  have ph: "phase_of ?r = Some DialogReload" using w by (simp add: phase_of_def replace_frame setSavePhase_def)
  then have "callers_ok ?r" using assms
    by (simp add: callers_ok_def reloads_for_replace reloads_for_frame [OF setSavePhase_frame(1)] dialog_pre_def reload_phase_def split: reload_caller.split)
  moreover have "owner_ok ?r" using w by (simp add: owner_ok_def replace_frame setSavePhase_def saving_def)
  moreover have "calls_ok ?r" using assms
    by (simp add: calls_ok_def replace_frame setSavePhase_frame open_calls_def [of ?r] open_calls_def [of ?s, symmetric] dialog_pre_def)
  moreover have "writing_ok ?r" using ph by (simp add: writing_ok_def)
  ultimately have "editor_ok ?r" by (simp add: editor_ok_def)
  moreover have "editor_ok (setSavePhase (DialogClosed False False) s)" by (rule dialog_phase [OF assms]) (simp_all add: saving_def)
  ultimately show ?thesis by (simp add: reloadOpenFileFromDisk_def answerCaller_def again split: option.split)
qed

lemma chosen_ok:
  assumes "editor_ok s" shows "editor_ok (dialogChosen cf c s)"
proof (cases "\<exists>w. ed_owner s = Some w \<and> (ow_phase w = Dialog \<or> ow_phase w = Comparing)")
  case True
  then obtain w where w: "ed_owner s = Some w" "ow_phase w = Dialog \<or> ow_phase w = Comparing" by blast
  then have d: "dialog_pre s" using assms by (intro dialog_owner_pre) (auto simp: saving_def)
  then have "editor_ok (setSavePhase p s)" if "\<not> saving p" "p \<noteq> DialogReload" for p using dialog_phase that by blast
  then have "editor_ok (setSavePhase (DialogClosed b r) s)" "editor_ok (setSavePhase Comparing s)" for b r by (simp_all add: saving_def)
  then show ?thesis using w assms reload_for_dialog [OF d] by (auto simp: dialogChosen_def split: choice.split)
next
  case False
  then show ?thesis using assms by (auto simp: dialogChosen_def split: option.split)
qed

lemma done_ok:
  assumes ok: "editor_ok s" "current_ok s" shows "editor_ok (dialogDone cf now shown s)"
proof (cases "\<exists>w b r. ed_owner s = Some w \<and> ow_phase w = DialogClosed b r")
  case False
  then show ?thesis using ok by (auto simp: dialogDone_def split: option.split save_phase.split)
next
  case True
  then obtain w b r where w: "ed_owner s = Some w" "ow_phase w = DialogClosed b r" by blast
  then obtain q where q: "ow_active w = None" "ow_conflict w" "ow_request w = Some q"
    using ok by (auto simp: editor_ok_def owner_ok_def saving_def)
  have nw: "reloads_for c s = 0" if "c \<noteq> ForNobody" for c
    using no_waiting [OF ok(1)] w that by (simp add: phase_of_def)
  define s1 where "s1 = setFileConflictDialogOpen False s"
  define opts where "opts = (rq_options q)\<lparr>so_force := True,
      so_closing := (so_closing (rq_options q) \<or> (case ow_pending w of Some p \<Rightarrow> so_closing (rq_options p) | None \<Rightarrow> False))\<rparr>"
  define calls where "calls = rq_resolvers q @ (case ow_pending w of Some p \<Rightarrow> rq_resolvers p | None \<Rightarrow> [])"
  define t where "t = modOwner (\<lambda>w. w\<lparr>ow_active := Some (fileEditorSaveRequest opts calls), ow_pending := None, ow_conflict := False,
      ow_request := None\<rparr>) s1"
  define u where "u = (resolveFileEditorSaveRequest (ow_pending w) False (resolveFileEditorSaveRequest (Some q) r s1))\<lparr>ed_owner := None\<rparr>"
  have s1: "ed_owner s1 = Some w" "ed_calls s1 = ed_calls s" "ed_settled s1 = ed_settled s" "ed_tasks s1 = ed_tasks s" "current_ok s1"
    using w flag_current [OF ok(2)] by (simp_all add: s1_def flag_frame)
  have c: "mset (map fst (ed_settled s)) + mset calls = mset [0..<ed_calls s]"
    using ok(1) w q by (simp add: editor_ok_def calls_ok_def open_calls_def resolvers_of_def calls_def ac_simps split: option.splits)
  have "perform_pre t" using s1 nw c q
    by (simp add: perform_pre_def t_def modOwner_def calls_ok_def open_calls_def resolvers_of_def fileEditorSaveRequest_def
        current_ok_def reloads_for_def)
  moreover have "editor_ok u"
  proof -
    have o: "ed_owner u = None" by (simp add: u_def)
    have ph: "phase_of u = None" by (simp add: u_def phase_of_def)
    have "ed_tasks u = ed_tasks s" "ed_calls u = ed_calls s" using s1 by (simp_all add: u_def resolveFileEditorSaveRequest_def split: option.split)
    then have "callers_ok u" using nw by (auto simp: callers_ok_def ph reload_phase_def reloads_for_def split: reload_caller.split)
    moreover have "mset (map fst (ed_settled u)) = mset (map fst (ed_settled s)) + mset calls"
      using s1 by (simp add: u_def resolveFileEditorSaveRequest_def calls_def o_def ac_simps del: mset_map split: option.split)
    then have "calls_ok u" using c \<open>ed_calls u = ed_calls s\<close> by (simp add: calls_ok_def open_calls_def o del: mset_map)
    ultimately show ?thesis using o ph by (simp add: editor_ok_def owner_ok_def writing_ok_def)
  qed
  moreover have "dialogDone cf now shown s = (if b then performActive cf now shown t else u)"
    using w q by (simp add: dialogDone_def Let_def s1_def [symmetric] t_def opts_def calls_def u_def)
  ultimately show ?thesis using performActive_ok by simp
qed

lemma written_ok:
  assumes "editor_ok s" shows "editor_ok (writeAnswered now ans s)"
proof (cases "\<exists>i c e. phase_of s = Some (Writing i c e)")
  case False
  then show ?thesis using assms by (auto simp: writeAnswered_def phase_of_def split: option.split save_phase.split)
next
  case True
  then obtain i c e w where w: "ed_owner s = Some w" "ow_phase w = Writing i c e" by (auto simp: phase_of_def)
  have nw: "reloads_for x s = 0" if "x \<noteq> ForNobody" for x using no_waiting [OF assms(1)] w that by (simp add: phase_of_def)
  have pre: "editor_ok (setSavePhase (Performed r) t)"
    if "ed_owner t = ed_owner s" "ed_calls t = ed_calls s" "ed_settled t = ed_settled s" "ed_tasks t = ed_tasks s" for t r
  proof -
    let ?t = "setSavePhase (Performed r) t"
    have ph: "phase_of ?t = Some (Performed r)" using that w by (simp add: setSavePhase_frame)
    have "callers_ok ?t" using nw that(4) unfolding callers_ok_def ph
      by (simp add: reloads_for_frame [OF setSavePhase_frame(1)] reloads_for_frame [OF that(4)] reload_phase_def split: reload_caller.split)
    moreover have "owner_ok ?t" using assms w that by (simp add: editor_ok_def owner_ok_def setSavePhase_def saving_def)
    moreover have "calls_ok ?t" using assms that by (simp add: calls_ok_def setSavePhase_frame editor_ok_def) (simp add: open_calls_def that)
    moreover have "writing_ok ?t" using ph by (simp add: writing_ok_def)
    ultimately show ?thesis by (simp add: editor_ok_def)
  qed
  show ?thesis using w
    by (cases ans) (auto simp: writeAnswered_def modObject_def clearFileAutosaveTimer_def intro!: pre)
qed

theorem editor_ok_event:
  assumes "editor_ok s" "current_ok s" shows "editor_ok (editor_do cf ev s)"
  using assms undisturbed_ok [OF _ assms(1)]
  by (cases ev) (simp_all add: undisturbed_edit save_ok continues_ok chosen_ok done_ok autosave_ok undisturbed_refresh undisturbed_recover
      undisturbed_reload [OF undisturbed_refl] undisturbed_entry undisturbed_read confirm_ok join_ok applied_ok undisturbed_open undisturbed_close)

lemma editor_ok_init: "editor_ok editor_init"
  by (auto simp: editor_ok_def editor_init_def callers_ok_def owner_ok_def calls_ok_def writing_ok_def phase_of_def open_calls_def
      reloads_for_def reload_phase_def split: reload_caller.split)

section \<open>The write in flight\<close>

lemma phase_answer: "phase_of (answerCaller ForNobody r s) = phase_of s"
  by (simp add: answerCaller_def)

lemma undisturbed_phase: "undisturbed s t \<Longrightarrow> phase_of t = phase_of s"
  by (simp add: undisturbed_def same_saves_def phase_of_def)

lemmas undisturbed_phases = undisturbed_phase [OF undisturbed_edit] undisturbed_phase [OF undisturbed_refresh] undisturbed_phase [OF undisturbed_recover]
  undisturbed_phase [OF undisturbed_reload [OF undisturbed_refl]] undisturbed_phase [OF undisturbed_entry] undisturbed_phase [OF undisturbed_read]
  undisturbed_phase [OF undisturbed_open] undisturbed_phase [OF undisturbed_close]

lemma writing_kept:
  assumes ok: "editor_ok s" and p: "phase_of s = Some (Writing i c e)"
  shows "phase_of (editor_do cf ev s) = Some (Writing i c e)"
proof -
  obtain w where w: "ed_owner s = Some w" "ow_phase w = Writing i c e" using p by (auto simp: phase_of_def)
  have a: "ow_active w \<noteq> None" using ok w by (simp add: editor_ok_def owner_ok_def saving_def)
  have nobody: "c' = ForNobody" if "caller_of (taskAt k s) = Some c'" for c' k
    using callers_phase(1) [OF ok that] p by (cases c') (auto simp: reload_phase_def)
  have save: "phase_of (saveFileEditor cf now shown opts t) = Some (Writing i c e)" if "ed_owner t = Some w" for now shown opts t
    using that w a by (auto simp: saveFileEditor_def queueFileEditorSave_def Let_def phase_of_def modOwner_def)
  have fin: "phase_of (finishReload k ForNobody r t) = phase_of t" for k r t
    by (simp add: finishReload_def Let_def answerCaller_def phase_of_def setTask_def)
  have st: "phase_of (setTask k x t) = phase_of t" for k x t by (simp add: phase_of_def setTask_def)
  show ?thesis
  proof (cases ev)
    case (AutosaveFires now shown)
    then show ?thesis using p w save by (simp add: autosaveTimerFires_def autoSaveFileEditor_def Let_def phase_of_def frame)
  next
    case (ConfirmAnswered k ans)
    have m: "phase_of (markOpenFileMissing s) = phase_of s" by (intro undisturbed_phase undisturbed_missing undisturbed_refl)
    show ?thesis
    proof (cases "taskAt k s")
      case (Confirming seen caller)
      with nobody [of k] have "caller = ForNobody" by simp
      then show ?thesis using ConfirmAnswered Confirming p by (simp add: confirmAnswered_def fin m st split: verdict.split)
    qed (use ConfirmAnswered p in \<open>simp_all add: confirmAnswered_def m st split: verdict.split\<close>)
  next
    case (Applied k)
    have m: "phase_of (bumpOpenFileContentGeneration (setFileState f (clearFileAutosaveTimer s))) = phase_of s" for f
      by (intro undisturbed_phase undisturbed_intros)
    show ?thesis
    proof (cases "taskAt k s")
      case (Loaded f caller)
      with nobody [of k] have "caller = ForNobody" by simp
      then show ?thesis using Applied Loaded p by (simp add: applyLoaded_def fin m)
    qed (use Applied p in \<open>simp_all add: applyLoaded_def\<close>)
  next
    case (Joined k)
    show ?thesis
    proof (cases "taskAt k s")
      case (Joining flight en caller)
      with nobody [of k] have "caller = ForNobody" by simp
      then show ?thesis using Joined Joining p
        by (simp add: joinAnswered_def phase_answer st split: task.split) (simp add: phase_of_def setTask_def)
    qed (use Joined p in \<open>simp_all add: joinAnswered_def\<close>)
  qed (use p w a in \<open>simp_all add: undisturbed_phases save ownerContinues_def dialogChosen_def dialogDone_def split: option.split\<close>)
qed

end
