(* ===== verification/Editor_Properties.thy ===== *)
theory Editor_Properties
  imports Editor_Owner
begin

text \<open>
  The properties of an open file and its disk copy: what a save may overwrite, that every call to save is
  answered once, what hygiene does to a text, and what a reload loses.
\<close>

section \<open>The disk\<close>

definition history_ok :: "(int \<times> string) list \<Rightarrow> bool" where
  "history_ok h = sorted_wrt (\<lambda>u v. \<not> fileMtimesMatch (fst u) (fst v)) h"

text \<open>An answer under way belongs to the write in flight.\<close>

fun served_ok :: "(int \<times> string) list \<Rightarrow> write_answer option \<Rightarrow> save_phase option \<Rightarrow> bool" where
  "served_ok h None p = True"
| "served_ok h (Some (Written m sz)) p = (\<exists>i c e. p = Some (Writing i c e) \<and> (m, c) \<in> set h)"
| "served_ok h (Some ans) p = (\<exists>i c e. p = Some (Writing i c e))"

definition disk_ok :: "disk \<Rightarrow> bool" where
  "disk_ok d = (history_ok (dk_history d) \<and> file_tables_ok (dk_history d) (dk_editor d) \<and> editor_ok (dk_editor d)
     \<and> served_ok (dk_history d) (dk_served d) (phase_of (dk_editor d)))"

lemma match_sym: "fileMtimesMatch a b = fileMtimesMatch b a"
  by (auto simp: fileMtimesMatch_def max.commute abs_minus_commute)

lemma history_more: "history_ok h \<Longrightarrow> fresh_mtime m h \<Longrightarrow> history_ok (h @ [(m, c)])"
  by (simp add: history_ok_def sorted_wrt_append fresh_mtime_def)

lemma history_unique:
  assumes "history_ok h" "u \<in> set h" "v \<in> set h" "fileMtimesMatch (fst u) (fst v)"
  shows "u = v"
proof -
  obtain i j where ij: "i < length h" "j < length h" "u = h ! i" "v = h ! j" using assms(2,3) by (auto simp: in_set_conv_nth)
  have "\<not> fileMtimesMatch (fst (h ! a)) (fst (h ! b))" if "a < b" "b < length h" for a b
    using assms(1) that by (auto simp: history_ok_def sorted_wrt_iff_nth_less)
  then have "\<not> i < j" "\<not> j < i" using assms(4) ij match_sym by auto
  then show ?thesis using ij by simp
qed

lemma served_more: "served_ok h a p \<Longrightarrow> served_ok (h @ h') a p"
  by (induction h a p rule: served_ok.induct) auto

lemma served_writing: "served_ok h (Some a) p \<Longrightarrow> \<exists>i c e. p = Some (Writing i c e)"
  by (cases a) auto

lemma served_client:
  assumes "editor_ok s" "served_ok h a (phase_of s)"
  shows "served_ok h a (phase_of (editor_do cf ev s))"
proof (cases a)
  case (Some x)
  then obtain i c e where "phase_of s = Some (Writing i c e)" using assms(2) served_writing by blast
  then show ?thesis using assms writing_kept by simp
qed simp

lemma tables_answered:
  assumes "file_tables_ok h s" "editor_ok s" "served_ok h (Some ans) (phase_of s)"
  shows "file_tables_ok h (writeAnswered now ans s)"
proof -
  obtain i c e where p: "phase_of s = Some (Writing i c e)" using assms(3) served_writing by blast
  then obtain w where w: "ed_owner s = Some w" "ow_phase w = Writing i c e" by (auto simp: phase_of_def)
  have i: "i < length (ed_objects s)" using assms(2) p by (auto simp: editor_ok_def writing_ok_def length_view)
  show ?thesis
  proof (cases ans)
    case (Written m sz)
    then have mc: "(m, c) \<in> set h" using assms(3) p by simp
    define g where "g = (\<lambda>f. clearOpenFileExternalState (f\<lparr>fs_mtime := m, fs_size := Some sz, fs_original := c, fs_dirty := (fs_content f \<noteq> c),
                               fs_lastCleanAt := (if fs_content f \<noteq> c then None else Some now)\<rparr>))"
    have "file_tables_ok h (modObject i g (s\<lparr>ed_ack := k\<rparr>))" for k
    proof -
      have "view (modObject i g (s\<lparr>ed_ack := k\<rparr>)) = (view s)[i := (fs_kind (ed_objects s ! i), m, c)]"
        by (simp add: view_def modObject_def map_update g_def clearOpenFileExternalState_def clearOpenFileMissingState_def)
      then show ?thesis using assms(1) mc set_update_subset_insert [of "view s" i "(fs_kind (ed_objects s ! i), m, c)"]
        by (auto simp: file_tables_ok_def text_versions_def current_ok_def modObject_def)
    qed
    then show ?thesis using w Written by (simp add: writeAnswered_def tables_simps g_def)
  qed (use w assms(1) in \<open>simp_all add: writeAnswered_def tables_simps\<close>)
qed

lemma current_tables: "file_tables_ok h s \<Longrightarrow> current_ok s"
  by (simp add: file_tables_ok_def)

lemma disk_ok_step: "disk_step cf d d' \<Longrightarrow> disk_ok d \<Longrightarrow> disk_ok d'"
proof (induction rule: disk_step.induct)
  case (client d ev)
  then have "current_ok (dk_editor d)" using current_tables by (auto simp: disk_ok_def)
  then show ?case using client tables_event editor_ok_event served_client by (simp add: disk_ok_def)
next
  case (outside m d c)
  then show ?case using history_more tables_more served_more by (simp add: disk_ok_def)
next
  case (written d i c expected m ans)
  then show ?case using history_more tables_more by (auto simp: disk_ok_def)
next
  case (refused d i c expected ans)
  then show ?case by (auto simp: disk_ok_def)
next
  case (answered d ans now)
  then show ?case using tables_answered written_ok by (simp add: disk_ok_def)
qed

interpretation open_file: invariant_machine "disk_step cf" disk_ok for cf
  by unfold_locales (rule disk_ok_step)

lemma disk_ok_init: "history_ok h \<Longrightarrow> disk_ok (disk_init h)"
  by (simp add: disk_ok_def disk_init_def editor_ok_init) (simp add: file_tables_ok_def text_versions_def current_ok_def editor_init_def view_def)

section \<open>What a save may overwrite\<close>

text \<open>
  C24. A write of a request that is not forced, when the server accepts it, replaces exactly the text the saved file was
  loaded with or last saved as: no other change on the disk is overwritten unseen.
\<close>

theorem no_silent_overwrite:
  assumes "history_ok h" "(disk_step cf)\<^sup>*\<^sup>* (disk_init h) d"
    "ed_owner (dk_editor d) = Some w" "ow_active w = Some r" "\<not> so_force (rq_options r)"
    "ow_phase w = Writing i content expected" "accepts expected (dk_history d)"
  shows "i < length (ed_objects (dk_editor d))
    \<and> last (dk_history d) = (fs_mtime (ed_objects (dk_editor d) ! i), fs_original (ed_objects (dk_editor d) ! i))"
proof -
  let ?s = "dk_editor d" and ?f = "ed_objects (dk_editor d) ! i"
  have ok: "disk_ok d" using open_file.inv_reach [OF assms(2) disk_ok_init [OF assms(1)]] .
  then have "expects_ok (Writing i content expected) (Some r)"
    using assms(3,4,6) by (auto simp: disk_ok_def editor_ok_def owner_ok_def)
  then obtain e where e: "expected = Some e" using assms(5) by (cases expected) auto
  have "phase_of ?s = Some (Writing i content (Some e))" using assms(3,6) e by (simp add: phase_of_def)
  then have i: "i < length (ed_objects ?s)" "fs_kind ?f = KText" "fs_mtime ?f = e"
    using ok by (auto simp: disk_ok_def editor_ok_def writing_ok_def view_def)
  then have "view ?s ! i = (KText, e, fs_original ?f)" "i < length (view ?s)" by (simp_all add: view_def)
  then have "(KText, e, fs_original ?f) \<in> set (view ?s)" by (metis nth_mem)
  then have "(e, fs_original ?f) \<in> set (dk_history d)" using ok by (auto simp: disk_ok_def file_tables_ok_def text_versions_def)
  moreover have "last (dk_history d) \<in> set (dk_history d)" "fileMtimesMatch e (fst (last (dk_history d)))"
    using assms(7) by (simp_all add: accepts_def e)
  ultimately have "(e, fs_original ?f) = last (dk_history d)"
    using ok history_unique [of "dk_history d"] by (metis disk_ok_def fst_conv)
  then show ?thesis using i by simp
qed

text \<open>Runs of the client that nothing outside interrupts.\<close>

fun event_run :: "config \<Rightarrow> (int \<times> string) list \<Rightarrow> editor_event list \<Rightarrow> editor \<Rightarrow> editor option" where
  "event_run cf h [] s = Some s"
| "event_run cf h (ev # evs) s = (if event_from h s ev then event_run cf h evs (editor_do cf ev s) else None)"

lemma event_run_reach:
  "event_run cf (dk_history d) evs (dk_editor d) = Some s \<Longrightarrow> (disk_step cf)\<^sup>*\<^sup>* d (d\<lparr>dk_editor := s\<rparr>)"
proof (induction evs arbitrary: d)
  case (Cons ev evs)
  let ?d = "d\<lparr>dk_editor := editor_do cf ev (dk_editor d)\<rparr>"
  have "event_from (dk_history d) (dk_editor d) ev" using Cons.prems by (simp split: if_splits)
  then have "disk_step cf d ?d" by (rule disk_step.client)
  moreover have "(disk_step cf)\<^sup>*\<^sup>* ?d (d\<lparr>dk_editor := s\<rparr>)" using Cons.IH [of ?d] Cons.prems by (simp split: if_splits)
  ultimately show ?case by (rule converse_rtranclp_into_rtranclp)
next
  case Nil
  then have "d\<lparr>dk_editor := s\<rparr> = d" by auto
  then show ?case by simp
qed

definition sample_config :: config where
  "sample_config = \<lparr>cf_readOnly = False, cf_autosave = True, cf_hygiene = \<lparr>trimTrailingWhitespace = False, ensureFinalNewline = False\<rparr>,
     cf_kind = KText, cf_maxBytes = 1000\<rparr>"

definition manual_save :: save_options where
  "manual_save = \<lparr>so_autosave = False, so_closing = False, so_force = False\<rparr>"

definition sample_text :: file_state where
  "sample_text = textFileStateFromReadPayload 1 (Some 1) ''a''"

definition sample_events :: "editor_event list" where
  "sample_events = [Opened sample_text, Edited 5 True ''ab'', SaveCalled 6 None manual_save]"

definition sample_save :: "editor option" where
  "sample_save = event_run sample_config [(1, ''a'')] sample_events editor_init"

definition sample_disk :: "editor \<Rightarrow> disk" where
  "sample_disk s = (disk_init [(1, ''a'')])\<lparr>dk_editor := s\<rparr>"

lemma sample_disk_fields: "dk_editor (sample_disk s) = s" "dk_history (sample_disk s) = [(1, ''a'')]"
  by (simp_all add: sample_disk_def disk_init_def)

definition sample_owner :: save_owner where
  "sample_owner = \<lparr>ow_active = Some \<lparr>rq_options = manual_save, rq_resolvers = [0]\<rparr>, ow_pending = None, ow_conflict = False,
     ow_request = None, ow_phase = Writing 0 ''ab'' (Some 1)\<rparr>"

lemma sample_save_value:
  "map_option (\<lambda>s. (ed_owner s, fs_original (ed_objects s ! 0))) sample_save = Some (Some sample_owner, ''a'')"
  by code_simp

lemma sample_reach: "sample_save = Some s \<Longrightarrow> (disk_step sample_config)\<^sup>*\<^sup>* (disk_init [(1, ''a'')]) (sample_disk s)"
  unfolding sample_disk_def by (rule event_run_reach [where evs = sample_events]) (simp add: disk_init_def sample_save_def)

lemma history_ok_single: "history_ok [v]"
  by (simp add: history_ok_def)

theorem no_silent_overwrite_witness:
  "\<exists>d :: disk. ed_owner (dk_editor d) = Some sample_owner \<and> last (dk_history d) = (1, ''a'')
     \<and> fs_original (ed_objects (dk_editor d) ! 0) = ''a''"
proof -
  obtain s where s: "sample_save = Some s" "ed_owner s = Some sample_owner" "fs_original (ed_objects s ! 0) = ''a''"
    using sample_save_value by auto
  have "accepts (Some 1) (dk_history (sample_disk s))" by (simp add: accepts_def sample_disk_fields fileMtimesMatch_def)
  then have "last (dk_history (sample_disk s)) = (fs_mtime (ed_objects s ! 0), fs_original (ed_objects s ! 0))"
    using no_silent_overwrite [OF history_ok_single sample_reach [OF s(1)], of sample_owner "\<lparr>rq_options = manual_save, rq_resolvers = [0]\<rparr>" 0 "''ab''" "Some 1"] s(2)
    by (simp add: sample_disk_fields sample_owner_def manual_save_def)
  then show ?thesis using s by - (rule exI [of _ "sample_disk s"], simp add: sample_disk_fields)
qed

section \<open>Answers to the calls\<close>

text \<open>
  C25. Every call to save is answered at most once, only calls that were made are answered, and a file that has
  no save under way has answered all of them.
\<close>

theorem saves_settle_once:
  assumes "history_ok h" "(disk_step cf)\<^sup>*\<^sup>* (disk_init h) d"
  shows "distinct (map fst (ed_settled (dk_editor d))) \<and> fst ` set (ed_settled (dk_editor d)) \<subseteq> {..<ed_calls (dk_editor d)}
    \<and> (ed_owner (dk_editor d) \<noteq> None \<or> fst ` set (ed_settled (dk_editor d)) = {..<ed_calls (dk_editor d)})"
proof -
  let ?s = "dk_editor d"
  have "disk_ok d" using open_file.inv_reach [OF assms(2) disk_ok_init [OF assms(1)]] .
  then have c: "mset (map fst (ed_settled ?s) @ open_calls ?s) = mset [0..<ed_calls ?s]"
    by (simp add: disk_ok_def editor_ok_def calls_ok_def)
  then have "distinct (map fst (ed_settled ?s) @ open_calls ?s)" using distinct_upt mset_eq_imp_distinct_iff by blast
  moreover have s: "fst ` set (ed_settled ?s) \<union> set (open_calls ?s) = {..<ed_calls ?s}"
    using mset_eq_setD [OF c] by (simp add: atLeast0LessThan)
  moreover have "ed_owner ?s = None \<Longrightarrow> open_calls ?s = []" by (simp add: open_calls_def)
  ultimately show ?thesis by auto
qed

theorem saves_settle_once_witness:
  "\<exists>d :: disk. ed_calls (dk_editor d) = 1 \<and> ed_owner (dk_editor d) \<noteq> None \<and> distinct (map fst (ed_settled (dk_editor d)))"
proof -
  have "map_option (\<lambda>s. (ed_calls s, ed_owner s = None)) sample_save = Some (1, False)" by code_simp
  then obtain s where s: "sample_save = Some s" "ed_calls s = 1" "ed_owner s \<noteq> None" by auto
  from saves_settle_once [OF history_ok_single sample_reach [OF s(1)]] s show ?thesis
    by - (rule exI [of _ "sample_disk s"], simp add: sample_disk_fields)
qed

section \<open>Typing during a reload\<close>

text \<open>A text file is shown, and the \<open>k\<close>-th reload waits for the server to read it.\<close>

definition reading :: "nat \<Rightarrow> entry \<Rightarrow> reload_caller \<Rightarrow> string \<Rightarrow> editor \<Rightarrow> bool" where
  "reading k e caller original s =
     (current_ok s \<and> taskAt k s = Reading e caller
      \<and> (case fileStateOf s of None \<Rightarrow> False | Some f \<Rightarrow> fs_kind f = KText \<and> fs_original f = original))"

definition shows_text :: "string \<Rightarrow> bool \<Rightarrow> editor \<Rightarrow> bool" where
  "shows_text c dirty s = (map_option (\<lambda>f. (fs_content f, fs_dirty f)) (fileStateOf s) = Some (c, dirty))"

lemma editing_frame:
  "taskAt k (clearFileAutosaveTimer s) = taskAt k s" "fileStateOf (clearFileAutosaveTimer s) = fileStateOf s"
  "current_ok (clearFileAutosaveTimer s) = current_ok s"
  "taskAt k (scheduleFileAutosave cf now s) = taskAt k s" "fileStateOf (scheduleFileAutosave cf now s) = fileStateOf s"
  "current_ok (scheduleFileAutosave cf now s) = current_ok s"
  by (simp_all add: clearFileAutosaveTimer_def scheduleFileAutosave_def taskAt_def fileStateOf_def current_ok_def Let_def)

lemma reload_frame:
  assumes "taskAt k s = Reading e caller"
  shows "taskAt k (replaceOpenFileStateFromDisk cf x c s) = Reading e caller"
    "fileStateOf (replaceOpenFileStateFromDisk cf x c s) = fileStateOf s"
    "current_ok (replaceOpenFileStateFromDisk cf x c s) = current_ok s"
  using assms
  by (auto simp: replaceOpenFileStateFromDisk_def startReload_def addTask_def fileStateOf_def current_ok_def taskAt_def
      nth_append split: if_splits option.split)

lemma shown_frame:
  "current_ok s \<Longrightarrow> fileStateOf s = Some f \<Longrightarrow> fileStateOf (modCurrent g s) = Some (g f)"
  "taskAt k (modCurrent g s) = taskAt k s" "current_ok (modCurrent g s) = current_ok s"
  by (auto simp: modCurrent_def modObject_def fileStateOf_def current_ok_def taskAt_def split: option.split)

lemma prompt_frame:
  assumes "reading k e caller original s" "shows_text c dirty s"
  shows "reading k e caller original (promptExternalChangeBeforeEditing cf s) \<and> shows_text c dirty (promptExternalChangeBeforeEditing cf s)"
proof -
  obtain f where f: "fileStateOf s = Some f" "fs_kind f = KText" "fs_original f = original"
    using assms(1) by (auto simp: reading_def split: option.splits)
  have s: "current_ok s" "taskAt k s = Reading e caller" using assms(1) by (simp_all add: reading_def)
  then show ?thesis using assms f reload_frame [OF s(2)] shown_frame(1) [OF s(1) f(1)]
    by (simp add: promptExternalChangeBeforeEditing_def reloadOpenFileFromDisk_def reading_def shows_text_def shown_frame(2,3))
qed

lemma edit_while_reading:
  assumes "reading k e caller original s"
  shows "reading k e caller original (handleFileEditorContentChanged cf now defer c s)
    \<and> shows_text c (c \<noteq> original) (handleFileEditorContentChanged cf now defer c s)"
proof -
  obtain f where f: "fileStateOf s = Some f" "fs_kind f = KText" "fs_original f = original"
    using assms by (auto simp: reading_def split: option.splits)
  have s: "current_ok s" "taskAt k s = Reading e caller" using assms by (simp_all add: reading_def)
  let ?dirty = "c \<noteq> original"
  let ?s1 = "modCurrent (\<lambda>f. f\<lparr>fs_content := c, fs_dirty := ?dirty,
    fs_lastCleanAt := (if ?dirty = fs_dirty f then fs_lastCleanAt f else if ?dirty then None else Some now)\<rparr>) s"
  have 1: "reading k e caller original ?s1" "shows_text c ?dirty ?s1"
    using s f shown_frame(1) [OF s(1) f(1)] by (simp_all add: reading_def shows_text_def shown_frame(2,3))
  note 2 = prompt_frame [OF 1, of cf]
  have prompted: "reading k e caller original (if p then promptExternalChangeBeforeEditing cf ?s1 else ?s1)
      \<and> shows_text c ?dirty (if p then promptExternalChangeBeforeEditing cf ?s1 else ?s1)" for p
    using 1 2 by (cases p) (simp_all only: if_True if_False simp_thms)
  have timed: "reading k e caller original (if q then scheduleFileAutosave cf now t else clearFileAutosaveTimer t)
      \<and> shows_text c ?dirty (if q then scheduleFileAutosave cf now t else clearFileAutosaveTimer t)"
    if "reading k e caller original t \<and> shows_text c ?dirty t" for q t
    using that by (simp add: reading_def shows_text_def editing_frame)
  show ?thesis
    unfolding handleFileEditorContentChanged_def f(1) option.case Let_def f(3)
    using timed [OF prompted] f(2) by (simp only: not_True_eq_False not_False_eq_True if_True if_False simp_thms)
qed

text \<open>The texts typed one after the other: when, whether autosave is deferred, and the text.\<close>

definition type_texts :: "config \<Rightarrow> (int \<times> bool \<times> string) list \<Rightarrow> editor \<Rightarrow> editor" where
  "type_texts cf = fold (\<lambda>(now, defer, c). editor_do cf (Edited now defer c))"

lemma typed_while_reading:
  "reading k e caller original s \<Longrightarrow> reading k e caller original (type_texts cf edits s)
    \<and> (edits \<noteq> [] \<longrightarrow> shows_text (snd (snd (last edits))) (snd (snd (last edits)) \<noteq> original) (type_texts cf edits s))"
proof (induction edits arbitrary: s)
  case (Cons x edits)
  obtain now d c where x: "x = (now, d, c)" by (rule prod_cases3)
  from Cons.IH [OF conjunct1 [OF edit_while_reading [OF Cons.prems, of cf now d c]]]
    conjunct2 [OF edit_while_reading [OF Cons.prems, of cf now d c]]
  show ?case by (cases "edits = []") (simp_all add: type_texts_def x)
qed (simp add: type_texts_def)

lemma load_while_reading:
  assumes "reading k e caller original s" "t = editor_do cf (Applied k) (editor_do cf (ReadAnswered k (ReadOk m sz c)) s)"
  shows "map_option (\<lambda>f. (fs_content f, fs_original f, fs_dirty f, fs_externalChanged f)) (fileStateOf t) = Some (c, c, False, None)"
    and "ed_autosave t = None"
proof -
  let ?f = "textFileStateFromReadPayload m sz c"
  have k: "taskAt k s = Reading e caller" "k < length (ed_tasks s)"
    using assms(1) by (auto simp: reading_def taskAt_def split: if_splits)
  then have r: "editor_do cf (ReadAnswered k (ReadOk m sz c)) s = setTask k (Loaded ?f caller) s" by (simp add: readAnswered_def)
  have "taskAt k (setTask k (Loaded ?f caller) s) = Loaded ?f caller" using k(2) by (simp add: taskAt_def setTask_def)
  then have t: "t = finishReload k caller True (bumpOpenFileContentGeneration (setFileState (clearOpenFileExternalState ?f)
      (clearFileAutosaveTimer (setTask k (Loaded ?f caller) s))))"
    unfolding assms(2) r by (simp add: applyLoaded_def)
  show "map_option (\<lambda>f. (fs_content f, fs_original f, fs_dirty f, fs_externalChanged f)) (fileStateOf t) = Some (c, c, False, None)"
    and "ed_autosave t = None"
    unfolding t
    by (cases caller; simp add: finishReload_def answerCaller_def setSavePhase_def setTask_def bumpOpenFileContentGeneration_def
        setFileState_def clearFileAutosaveTimer_def fileStateOf_def clearOpenFileExternalState_def clearOpenFileMissingState_def
        textFileStateFromReadPayload_def plain_state_def Let_def split: option.split)+
qed

text \<open>
  C26. A reload that waits for the server to read a text file replaces whatever the user types
  meanwhile: in every reachable state with such a reload, after any texts typed one after the other
  the file shows the last of them and is dirty exactly when it differs from the saved text; once
  the answer is taken up, it shows the text the server read, it counts as saved, no change on the
  disk is announced and no autosave is scheduled.
\<close>

theorem reload_loses_typed_text:
  assumes "history_ok h" "(disk_step cf)\<^sup>*\<^sup>* (disk_init h) d" "taskAt k (dk_editor d) = Reading e caller"
    "fileStateOf (dk_editor d) = Some f" "fs_kind f = KText" "edits \<noteq> []"
    "typed = type_texts cf edits (dk_editor d)"
    "loaded = editor_do cf (Applied k) (editor_do cf (ReadAnswered k (ReadOk m sz c)) typed)"
  shows "map_option (\<lambda>g. (fs_content g, fs_dirty g)) (fileStateOf typed)
      = Some (snd (snd (last edits)), snd (snd (last edits)) \<noteq> fs_original f)
    \<and> map_option (\<lambda>g. (fs_content g, fs_original g, fs_dirty g, fs_externalChanged g)) (fileStateOf loaded) = Some (c, c, False, None)
    \<and> ed_autosave loaded = None"
proof -
  have "disk_ok d" using open_file.inv_reach [OF assms(2) disk_ok_init [OF assms(1)]] .
  then have "reading k e caller (fs_original f) (dk_editor d)"
    using assms(3-5) current_tables by (auto simp: disk_ok_def reading_def)
  from typed_while_reading [OF this, of cf edits]
  have r: "reading k e caller (fs_original f) typed"
    and t: "shows_text (snd (snd (last edits))) (snd (snd (last edits)) \<noteq> fs_original f) typed"
    using assms(6,7) by simp_all
  show ?thesis using t [unfolded shows_text_def] load_while_reading [OF r assms(8)] by (intro conjI)
qed

definition watch_events :: "editor_event list" where
  "watch_events = [Opened sample_text, Refreshed 5 False 0 (Found \<lparr>en_mtime = 2, en_size = Some 1\<rparr>)]"

definition changed_versions :: "(int \<times> string) list" where
  "changed_versions = [(1, ''a''), (2, ''b'')]"

theorem reload_loses_typed_text_witness:
  "\<exists>d :: disk. taskAt 0 (dk_editor d) = Reading \<lparr>en_mtime = 2, en_size = Some 1\<rparr> ForNobody
     \<and> (let typed = type_texts sample_config [(6, False, ''a t''), (7, False, ''a typed'')] (dk_editor d);
            loaded = editor_do sample_config (Applied 0) (editor_do sample_config (ReadAnswered 0 (ReadOk 2 (Some 1) ''b'')) typed)
        in map_option (\<lambda>g. (fs_content g, fs_dirty g)) (fileStateOf typed) = Some (''a typed'', True)
         \<and> map_option (\<lambda>g. (fs_content g, fs_dirty g)) (fileStateOf loaded) = Some (''b'', False))"
proof -
  have "map_option (\<lambda>s. (taskAt 0 s, fileStateOf s)) (event_run sample_config changed_versions watch_events editor_init)
      = Some (Reading \<lparr>en_mtime = 2, en_size = Some 1\<rparr> ForNobody, Some sample_text)" by code_simp
  then obtain s where s: "event_run sample_config changed_versions watch_events editor_init = Some s"
    "taskAt 0 s = Reading \<lparr>en_mtime = 2, en_size = Some 1\<rparr> ForNobody" "fileStateOf s = Some sample_text" by auto
  let ?d = "(disk_init changed_versions)\<lparr>dk_editor := s\<rparr>"
  have h: "history_ok changed_versions" by (simp add: history_ok_def changed_versions_def fileMtimesMatch_def FILE_MTIME_NS_MIN_VALUE_def FILE_MTIME_NS_CHANGE_TOLERANCE_def)
  have r: "(disk_step sample_config)\<^sup>*\<^sup>* (disk_init changed_versions) ?d"
    by (rule event_run_reach [where evs = watch_events]) (simp add: disk_init_def s(1))
  have f: "fs_kind sample_text = KText" "fs_original sample_text = ''a''" by code_simp+
  show ?thesis
    using reload_loses_typed_text [OF h r _ _ f(1) _ refl refl, of 0 "\<lparr>en_mtime = 2, en_size = Some 1\<rparr>" ForNobody
        "[(6, False, ''a t''), (7, False, ''a typed'')]" 2 "Some 1" "''b''"] s f(2)
    by (intro exI [of _ ?d]) (auto simp: Let_def)
qed

section \<open>Save hygiene\<close>

lemma trim_line_end: "CHR 0x0D \<notin> set s \<Longrightarrow> at_line_end (dropWhile is_blank (trim_line_ends s)) = at_line_end (dropWhile is_blank s)"
  by (induction s) auto

lemma trim_line_ends_idem: "CHR 0x0D \<notin> set s \<Longrightarrow> trim_line_ends (trim_line_ends s) = trim_line_ends s"
  by (induction s) (auto simp: trim_line_end)

end
