(* ===== verification/Stats_Wire.thy ===== *)
theory Stats_Wire
  imports Js_Prelude "HOL-Library.Char_ord" "HOL-Library.List_Lexorder" "HOL-Library.Product_Lexorder"
begin

text \<open>
  What the statistics client reads from the server (\<open>84_stats_current.js\<close>): buckets, spans without data, cost
  reports, snapshots, the chunks a large snapshot is cut into, and the tombstones of a delta, with the
  validation of each.

  A value is typed, so the fields the code counts with \<open>exactFields\<close> are the fields of a record; a payload of
  another shape is \<open>Unreadable\<close> where it arrives. The entries of an object stand in the order of their
  names, so that \<open>sameJson\<close> is equality. A validator is true where the code throws nothing.
\<close>

section \<open>Numbers and texts\<close>

definition safe_integer :: "int \<Rightarrow> bool" where "safe_integer n = (\<bar>n\<bar> \<le> 2 ^ 53 - 1)"

definition generationNumber :: "int \<Rightarrow> bool" where "generationNumber n = (safe_integer n \<and> 0 \<le> n)"

definition positiveInteger :: "int \<Rightarrow> bool" where "positiveInteger n = (safe_integer n \<and> 0 < n)"

definition costInteger :: "int \<Rightarrow> bool" where "costInteger = generationNumber"

definition identityText :: "string \<Rightarrow> bool" where
  "identityText s = (s \<noteq> [] \<and> list_all (\<lambda>c. 32 \<le> (of_char c :: nat) \<and> (of_char c :: nat) \<noteq> 127) s \<and> length s \<le> 256)"

text \<open>Code points compare as their UTF-8 bytes; only the sign of a comparison counts.\<close>

fun compareUnicode :: "string \<Rightarrow> string \<Rightarrow> int" where
  "compareUnicode (a # l) (b # r) = (if a = b then compareUnicode l r else of_char a - of_char b)"
| "compareUnicode l r = int (length l) - int (length r)"

definition sign_of :: "rat \<Rightarrow> int" where "sign_of x = (if x < 0 then -1 else if x = 0 then 0 else 1)"

definition or_then :: "int \<Rightarrow> int \<Rightarrow> int" where "or_then a b = (if a \<noteq> 0 then a else b)"

section \<open>Buckets\<close>

record series_point =
  sp_name :: string
  sp_value :: rat
  sp_unit :: "string option"
  sp_count :: int
  sp_first :: rat
  sp_last :: rat

record bucket =
  bk_start :: int
  bk_duration :: int
  bk_series :: "series_point list"
  bk_count :: int
  bk_first :: "rat option"
  bk_last :: "rat option"
  bk_open :: bool

definition series_ok :: "series_point \<Rightarrow> bool" where
  "series_ok p =
     (identityText (sp_name p) \<and> (case sp_unit p of Some u \<Rightarrow> identityText u | None \<Rightarrow> True)
      \<and> positiveInteger (sp_count p) \<and> 0 \<le> sp_first p \<and> sp_first p \<le> sp_last p)"

definition source_ok :: "bucket \<Rightarrow> bool" where
  "source_ok b =
     (generationNumber (bk_count b)
      \<and> (if bk_count b = 0 then bk_first b = None \<and> bk_last b = None \<and> bk_series b = []
         else (case (bk_first b, bk_last b) of (Some f, Some l) \<Rightarrow> 0 \<le> f \<and> f \<le> l | _ \<Rightarrow> False) \<and> bk_series b \<noteq> []))"

text \<open>The loop over the buckets gives the end of the last one, or nothing where the code throws.\<close>

fun scanBuckets :: "int \<Rightarrow> bool \<Rightarrow> int \<Rightarrow> int option \<Rightarrow> int \<Rightarrow> int \<Rightarrow> bucket list \<Rightarrow> int option" where
  "scanBuckets duration dense windowStart windowEnd expected previous [] = Some expected"
| "scanBuckets duration dense windowStart windowEnd expected previous (b # bs) =
     (if bk_duration b \<noteq> duration \<or> bk_start b mod duration \<noteq> 0 \<or> dense \<and> bk_start b \<noteq> expected \<or> bk_start b \<le> previous
         \<or> (case windowEnd of Some e \<Rightarrow> bk_start b < windowStart \<or> e < bk_start b + duration | None \<Rightarrow> False)
         \<or> \<not> list_all series_ok (bk_series b) \<or> \<not> source_ok b
         \<or> bk_open b \<and> (case windowEnd of Some e \<Rightarrow> bk_start b + duration \<noteq> e | None \<Rightarrow> False)
      then None
      else scanBuckets duration dense windowStart windowEnd (bk_start b + duration) (bk_start b) bs)"

definition validateBuckets :: "bucket list \<Rightarrow> int \<Rightarrow> int \<Rightarrow> bool \<Rightarrow> int \<Rightarrow> int option \<Rightarrow> bool" where
  "validateBuckets bs duration maxBuckets dense windowStart windowEnd =
     (int (length bs) \<le> maxBuckets
      \<and> (dense \<and> bs = []
         \<or> (case scanBuckets duration dense windowStart windowEnd windowStart (-1) bs of
              None \<Rightarrow> False | Some expected \<Rightarrow> dense \<longrightarrow> windowEnd = Some expected)))"

section \<open>Spans without data\<close>

record gap =
  gp_family :: string
  gp_source :: string
  gp_epoch :: string
  gp_reason :: string
  gp_start :: rat
  gp_end :: rat
  gp_cadence :: rat

definition compareNoData :: "gap \<Rightarrow> gap \<Rightarrow> int" where
  "compareNoData l r =
     or_then (compareUnicode (gp_family l) (gp_family r))
       (or_then (compareUnicode (gp_source l) (gp_source r))
         (or_then (sign_of (gp_start l - gp_start r)) (sign_of (gp_end l - gp_end r))))"

fun scanNoData :: "rat option \<Rightarrow> rat option \<Rightarrow> ((string \<times> string) \<times> rat) list \<Rightarrow> gap option \<Rightarrow> gap list \<Rightarrow> bool" where
  "scanNoData windowStart windowEnd ends previous [] = True"
| "scanNoData windowStart windowEnd ends previous (g # gs) =
     (identityText (gp_family g) \<and> identityText (gp_source g) \<and> identityText (gp_epoch g) \<and> identityText (gp_reason g)
      \<and> gp_start g < gp_end g \<and> 0 \<le> gp_start g \<and> 0 < gp_cadence g
      \<and> (case windowStart of Some w \<Rightarrow> w \<le> gp_start g | None \<Rightarrow> True)
      \<and> (case windowEnd of Some w \<Rightarrow> gp_end g \<le> w | None \<Rightarrow> True)
      \<and> (case previous of Some p \<Rightarrow> 0 < compareNoData g p | None \<Rightarrow> True)
      \<and> (case map_of ends (gp_family g, gp_source g) of Some e \<Rightarrow> e \<le> gp_start g | None \<Rightarrow> True)
      \<and> scanNoData windowStart windowEnd (AList.update (gp_family g, gp_source g) (gp_end g) ends) (Some g) gs)"

definition validateNoData :: "gap list \<Rightarrow> rat option \<Rightarrow> rat option \<Rightarrow> bool" where
  "validateNoData gs windowStart windowEnd = scanNoData windowStart windowEnd [] None gs"

text \<open>\<open>sort(compareNoData)\<close> is the stable sort by this key (\<open>compareNoData_key\<close> below).\<close>

definition gap_key :: "gap \<Rightarrow> string \<times> string \<times> rat \<times> rat" where
  "gap_key g = (gp_family g, gp_source g, gp_start g, gp_end g)"

section \<open>Cost reports\<close>

record amounts =
  am_tokens :: int
  am_micro :: int
  am_list :: int

record coverage =
  cv_atoms :: int
  cv_tokens :: int

record cost_totals =
  co_tokens :: int
  co_micro :: int
  co_list :: int
  co_dimensions :: "amounts list"
  co_priced :: coverage
  co_unpriced :: coverage

record cost_source = cost_totals +
  cs_source :: string

record cost_model = cost_totals +
  cm_key :: string
  cm_provider :: string
  cm_model :: string

record cost_agent = cost_totals +
  ca_key :: string
  ca_source :: string
  ca_label :: string
  ca_sources :: "cost_source list"

record cost_evidence =
  ev_key :: string
  ev_texts :: "string list"
  ev_dimension :: string
  ev_url :: string
  ev_tokens :: int
  ev_micro :: int
  ev_list :: int
  ev_atoms :: int
  ev_scale :: int
  ev_revision :: int

record cost_report = cost_totals +
  cr_schema :: int
  cr_reasoning :: bool
  cr_models :: "cost_model list"
  cr_agents :: "cost_agent list"
  cr_evidence :: "cost_evidence list"
  cr_revision :: int
  cr_omissions :: "int list"

definition cost_dimensions :: "string list" where
  "cost_dimensions = [''input'', ''cache_read'', ''cache_write_5m'', ''cache_write_1h'', ''output'', ''other'']"

definition cost_source_kinds :: "string list" where
  "cost_source_kinds = [''claude'', ''codex'', ''opencode'', ''yoagent'', ''summary'', ''images'', ''responses'', ''legacy'', ''unknown'']"

definition validateCostDimensions :: "amounts list \<Rightarrow> bool" where
  "validateCostDimensions ds =
     (length ds = length cost_dimensions \<and> list_all (\<lambda>a. costInteger (am_tokens a) \<and> costInteger (am_micro a) \<and> costInteger (am_list a)) ds)"

definition validateCostCoverage :: "coverage \<Rightarrow> bool" where
  "validateCostCoverage c = (costInteger (cv_atoms c) \<and> costInteger (cv_tokens c))"

text \<open>The checks every row and the report itself share: totals, dimensions and coverage agree.\<close>

definition cost_totals_ok :: "'a cost_totals_scheme \<Rightarrow> bool" where
  "cost_totals_ok r =
     (costInteger (co_tokens r) \<and> costInteger (co_micro r) \<and> costInteger (co_list r)
      \<and> validateCostDimensions (co_dimensions r)
      \<and> sum_list (map am_tokens (co_dimensions r)) = co_tokens r
      \<and> sum_list (map am_micro (co_dimensions r)) = co_micro r
      \<and> sum_list (map am_list (co_dimensions r)) = co_list r
      \<and> validateCostCoverage (co_priced r) \<and> validateCostCoverage (co_unpriced r)
      \<and> cv_tokens (co_priced r) + cv_tokens (co_unpriced r) = co_tokens r)"

definition is_hex_digit :: "char \<Rightarrow> bool" where
  "is_hex_digit c = (is_digit c \<or> CHR ''a'' \<le> c \<and> c \<le> CHR ''f'')"

definition validateCostKey :: "string \<Rightarrow> bool" where
  "validateCostKey s = (length s = 24 \<and> list_all is_hex_digit s)"

text \<open>The rank sorts by tokens, list price and cost, highest first, then by name.\<close>

type_synonym cost_rank_key = "int \<times> int \<times> int \<times> string"

definition compareCostRank :: "cost_rank_key \<Rightarrow> cost_rank_key \<Rightarrow> int" where
  "compareCostRank l r =
     (case (l, r) of ((a, b, c, x), (a', b', c', y)) \<Rightarrow>
        or_then (a - a') (or_then (b - b') (or_then (c - c') (compareUnicode x y))))"

definition cost_rank :: "string \<Rightarrow> 'a cost_totals_scheme \<Rightarrow> cost_rank_key" where
  "cost_rank name r = (- co_tokens r, - co_list r, - co_micro r, name)"

definition ranked :: "cost_rank_key list \<Rightarrow> bool" where
  "ranked rs = (\<forall>i < length rs - 1. 0 < compareCostRank (rs ! Suc i) (rs ! i))"

definition validateCostSources :: "cost_source list \<Rightarrow> 'a cost_totals_scheme \<Rightarrow> bool" where
  "validateCostSources rows parent =
     (length rows \<le> length cost_source_kinds \<and> distinct (map cs_source rows)
      \<and> list_all (\<lambda>r. identityText (cs_source r) \<and> cs_source r \<in> set cost_source_kinds \<and> cost_totals_ok r) rows
      \<and> ranked (map (\<lambda>r. cost_rank (cs_source r) r) rows)
      \<and> sum_list (map co_tokens rows) = co_tokens parent
      \<and> sum_list (map co_micro rows) = co_micro parent \<and> sum_list (map co_list rows) = co_list parent)"

definition cost_models_ok :: "cost_model list \<Rightarrow> bool" where
  "cost_models_ok rows =
     (length rows \<le> 16 \<and> distinct (map cm_key rows)
      \<and> list_all (\<lambda>r. validateCostKey (cm_key r) \<and> identityText (cm_provider r) \<and> identityText (cm_model r) \<and> cost_totals_ok r) rows
      \<and> ranked (map (\<lambda>r. cost_rank (cm_key r) r) rows))"

definition cost_agents_ok :: "cost_agent list \<Rightarrow> bool" where
  "cost_agents_ok rows =
     (length rows \<le> 16 \<and> distinct (map ca_key rows)
      \<and> list_all (\<lambda>r. validateCostKey (ca_key r) \<and> identityText (ca_source r) \<and> identityText (ca_label r)
           \<and> validateCostSources (ca_sources r) r \<and> cost_totals_ok r) rows
      \<and> ranked (map (\<lambda>r. cost_rank (ca_key r) r) rows))"

definition is_http_url :: "string \<Rightarrow> bool" where
  "is_http_url s = (js_startsWith s ''http://'' \<or> js_startsWith s ''https://'')"

text \<open>\<open>ev_texts\<close> are the other fields that must be identity texts.\<close>

definition validateCostEvidence :: "cost_evidence list \<Rightarrow> bool" where
  "validateCostEvidence rows =
     (length rows \<le> 32 \<and> distinct (map ev_key rows)
      \<and> list_all (\<lambda>r. validateCostKey (ev_key r) \<and> list_all identityText (ev_texts r) \<and> identityText (ev_dimension r)
           \<and> ev_dimension r \<in> set cost_dimensions \<and> (ev_url r = [] \<or> identityText (ev_url r) \<and> is_http_url (ev_url r))
           \<and> costInteger (ev_tokens r) \<and> costInteger (ev_micro r) \<and> costInteger (ev_list r)
           \<and> costInteger (ev_atoms r) \<and> costInteger (ev_scale r) \<and> costInteger (ev_revision r)) rows
      \<and> ranked (map (\<lambda>r. (- ev_tokens r, - ev_list r, - ev_micro r, ev_key r)) rows))"

definition validateCostReport :: "cost_report \<Rightarrow> bool" where
  "validateCostReport c =
     (cr_schema c = 4 \<and> \<not> cr_reasoning c \<and> cost_totals_ok c
      \<and> cost_models_ok (cr_models c) \<and> cost_agents_ok (cr_agents c) \<and> validateCostEvidence (cr_evidence c)
      \<and> costInteger (cr_revision c) \<and> list_all (\<lambda>e. ev_revision e \<le> cr_revision c) (cr_evidence c)
      \<and> length (cr_omissions c) = 3 \<and> list_all costInteger (cr_omissions c))"

section \<open>Snapshots\<close>

text \<open>The resolution AUTO is \<open>None\<close>. The optional field of the backfill is its text.\<close>

record snapshot =
  sn_protocol :: int
  sn_range :: int
  sn_requested :: "int option"
  sn_resolution :: int
  sn_start :: int
  sn_end :: int
  sn_generated :: rat
  sn_source :: int
  sn_cache :: int
  sn_open :: bool
  sn_buckets :: "bucket list"
  sn_gaps :: "gap list"
  sn_cost :: cost_report
  sn_backfill :: "string option"

definition CURRENT_STATS_WIRE_PROTOCOL_VERSION :: int where "CURRENT_STATS_WIRE_PROTOCOL_VERSION = 2"

definition last_open :: "bucket list \<Rightarrow> bool" where
  "last_open bs = (bs \<noteq> [] \<and> bk_open (last bs))"

definition validateSnapshot :: "snapshot \<Rightarrow> int \<Rightarrow> int option \<Rightarrow> int \<Rightarrow> int \<Rightarrow> bool" where
  "validateSnapshot s rng resolution concrete maxBuckets =
     (sn_protocol s = CURRENT_STATS_WIRE_PROTOCOL_VERSION \<and> sn_range s = rng \<and> sn_requested s = resolution
      \<and> sn_resolution s = concrete \<and> generationNumber (sn_source s) \<and> generationNumber (sn_cache s)
      \<and> generationNumber (sn_start s) \<and> generationNumber (sn_end s) \<and> sn_end s - sn_start s = rng
      \<and> 0 \<le> sn_generated s
      \<and> validateBuckets (sn_buckets s) concrete maxBuckets True (sn_start s) (Some (sn_end s))
      \<and> validateNoData (sn_gaps s) (Some (of_int (sn_start s))) (Some (of_int (sn_end s)))
      \<and> validateCostReport (sn_cost s) \<and> last_open (sn_buckets s) = sn_open s)"

section \<open>Identities and tombstones\<close>

datatype identity = BucketId int int | GapId string string string rat rat

definition bucketIdentityKey :: "bucket \<Rightarrow> identity" where
  "bucketIdentityKey b = BucketId (bk_start b) (bk_duration b)"

definition noDataIdentityKey :: "gap \<Rightarrow> identity" where
  "noDataIdentityKey g = GapId (gp_family g) (gp_source g) (gp_epoch g) (gp_start g) (gp_end g)"

fun compareIdentityParts :: "identity \<Rightarrow> identity \<Rightarrow> int" where
  "compareIdentityParts (BucketId s d) (BucketId s' d') = or_then (s - s') (d - d')"
| "compareIdentityParts (GapId f i e s t) (GapId f' i' e' s' t') =
     or_then (compareUnicode f f') (or_then (compareUnicode i i') (or_then (compareUnicode e e')
       (or_then (sign_of (s - s')) (sign_of (t - t')))))"
| "compareIdentityParts (BucketId _ _) (GapId _ _ _ _ _) = compareUnicode ''bucket'' ''no_data''"
| "compareIdentityParts (GapId _ _ _ _ _) (BucketId _ _) = compareUnicode ''no_data'' ''bucket''"

fun tombstone_ok :: "int \<Rightarrow> identity \<Rightarrow> bool" where
  "tombstone_ok resolution (BucketId s d) =
     (generationNumber s \<and> positiveInteger d \<and> d = resolution \<and> s mod resolution = 0)"
| "tombstone_ok resolution (GapId f i e s t) =
     (identityText f \<and> identityText i \<and> identityText e \<and> 0 \<le> s \<and> s < t)"

fun scanTombstones :: "int \<Rightarrow> identity option \<Rightarrow> identity list \<Rightarrow> bool" where
  "scanTombstones resolution previous [] = True"
| "scanTombstones resolution previous (t # ts) =
     (tombstone_ok resolution t \<and> (case previous of Some p \<Rightarrow> 0 < compareIdentityParts t p | None \<Rightarrow> True)
      \<and> scanTombstones resolution (Some t) ts)"

definition validateTombstones :: "identity list \<Rightarrow> int \<Rightarrow> int \<Rightarrow> bool" where
  "validateTombstones ts resolution maximum = (int (length ts) \<le> maximum \<and> scanTombstones resolution None ts)"

section \<open>Snapshot chunks\<close>

record chunk = snapshot +
  ch_index :: int
  ch_count :: int
  ch_start :: int
  ch_end :: int

definition CURRENT_STATS_MAX_SNAPSHOT_CHUNKS :: int where "CURRENT_STATS_MAX_SNAPSHOT_CHUNKS = 64"

text \<open>The request asks for a range and a resolution.\<close>

definition validateSnapshotChunk :: "chunk \<Rightarrow> int \<Rightarrow> int option \<Rightarrow> int \<Rightarrow> bool" where
  "validateSnapshotChunk c rng resolution maxBuckets =
     (let concrete = sn_resolution c in
      sn_protocol c = CURRENT_STATS_WIRE_PROTOCOL_VERSION \<and> sn_range c = rng \<and> sn_requested c = resolution
      \<and> positiveInteger concrete \<and> generationNumber (sn_source c) \<and> generationNumber (sn_cache c)
      \<and> generationNumber (sn_start c) \<and> generationNumber (sn_end c) \<and> sn_end c - sn_start c = rng
      \<and> 2 \<le> ch_count c \<and> ch_count c \<le> CURRENT_STATS_MAX_SNAPSHOT_CHUNKS
      \<and> generationNumber (ch_index c) \<and> ch_index c < ch_count c
      \<and> generationNumber (ch_start c) \<and> generationNumber (ch_end c)
      \<and> sn_start c \<le> ch_start c \<and> ch_start c < ch_end c \<and> ch_end c \<le> sn_end c
      \<and> (ch_start c - sn_start c) mod concrete = 0 \<and> (ch_end c - sn_start c) mod concrete = 0
      \<and> (ch_index c = 0 \<longrightarrow> ch_start c = sn_start c) \<and> (ch_index c = ch_count c - 1 \<longrightarrow> ch_end c = sn_end c)
      \<and> 0 \<le> sn_generated c
      \<and> validateBuckets (sn_buckets c) concrete maxBuckets True (ch_start c) (Some (ch_end c))
      \<and> int (length (sn_buckets c)) * concrete = ch_end c - ch_start c
      \<and> validateNoData (sn_gaps c) (Some (of_int (ch_start c))) (Some (of_int (ch_end c)))
      \<and> validateCostReport (sn_cost c)
      \<and> last_open (sn_buckets c) = (ch_index c = ch_count c - 1 \<and> sn_open c))"

definition snapshotChunkSharedValue :: "chunk \<Rightarrow> snapshot" where
  "snapshotChunkSharedValue c = (snapshot.truncate c)\<lparr>sn_buckets := [], sn_gaps := []\<rparr>"

definition same_gap_source :: "gap \<Rightarrow> gap \<Rightarrow> bool" where
  "same_gap_source p g =
     (gp_end p = gp_start g \<and> gp_family p = gp_family g \<and> gp_source p = gp_source g \<and> gp_epoch p = gp_epoch g
      \<and> gp_reason p = gp_reason g \<and> gp_cadence p = gp_cadence g)"

text \<open>The merged spans, the last one first.\<close>

fun merge_gap :: "gap list \<Rightarrow> gap \<Rightarrow> gap list" where
  "merge_gap [] g = [g]"
| "merge_gap (p # merged) g = (if same_gap_source p g then p\<lparr>gp_end := gp_end g\<rparr> # merged else g # p # merged)"

definition mergeGaps :: "gap list \<Rightarrow> gap list" where
  "mergeGaps gs = rev (foldl merge_gap [] gs)"

definition mergeSnapshotChunkNoData :: "chunk list \<Rightarrow> gap list" where
  "mergeSnapshotChunkNoData cs = mergeGaps (sort_key gap_key (concat (map sn_gaps cs)))"

record assembly =
  as_first :: chunk
  as_range :: int
  as_resolution :: "int option"
  as_max :: int
  as_chunks :: "(int \<times> chunk) list"

text \<open>\<open>None\<close>: the code throws; the flag says whether the chunk is new.\<close>

definition assemblyAccept :: "chunk \<Rightarrow> assembly \<Rightarrow> (assembly \<times> bool) option" where
  "assemblyAccept c a =
     (if \<not> validateSnapshotChunk c (as_range a) (as_resolution a) (as_max a)
         \<or> snapshotChunkSharedValue c \<noteq> snapshotChunkSharedValue (as_first a) \<or> ch_count c \<noteq> ch_count (as_first a)
      then None
      else (case map_of (as_chunks a) (ch_index c) of
              Some existing \<Rightarrow> if existing \<noteq> c then None else Some (a, False)
            | None \<Rightarrow>
                if list_ex (\<lambda>(i, d). ch_start c < ch_end d \<and> ch_start d < ch_end c) (as_chunks a) then None
                else Some (a\<lparr>as_chunks := as_chunks a @ [(ch_index c, c)]\<rparr>, True)))"

definition createSnapshotChunkAssembly :: "chunk \<Rightarrow> int \<Rightarrow> int option \<Rightarrow> int \<Rightarrow> assembly option" where
  "createSnapshotChunkAssembly c rng resolution maxBuckets =
     (if validateSnapshotChunk c rng resolution maxBuckets
      then map_option fst (assemblyAccept c \<lparr>as_first = c, as_range = rng, as_resolution = resolution, as_max = maxBuckets, as_chunks = []\<rparr>)
      else None)"

definition orderedChunks :: "assembly \<Rightarrow> chunk list" where
  "orderedChunks a = sort_key ch_index (map snd (as_chunks a))"

definition assembledSnapshot :: "assembly \<Rightarrow> snapshot" where
  "assembledSnapshot a =
     (snapshotChunkSharedValue (as_first a))
       \<lparr>sn_buckets := concat (map sn_buckets (orderedChunks a)), sn_gaps := mergeSnapshotChunkNoData (orderedChunks a)\<rparr>"

fun contiguous :: "chunk list \<Rightarrow> bool" where
  "contiguous (c # d # cs) = (ch_end c = ch_start d \<and> contiguous (d # cs))"
| "contiguous cs = True"

definition assemblySnapshot :: "assembly \<Rightarrow> snapshot option" where
  "assemblySnapshot a =
     (let ordered = orderedChunks a; candidate = assembledSnapshot a
      in if int (length (as_chunks a)) = ch_count (as_first a)
            \<and> ch_start (hd ordered) = sn_start (as_first a) \<and> ch_end (last ordered) = sn_end (as_first a) \<and> contiguous ordered
            \<and> validateSnapshot candidate (as_range a) (as_resolution a) (sn_resolution (as_first a)) (as_max a)
         then Some candidate else None)"

section \<open>Capabilities and the selection\<close>

record capability_range =
  cp_range :: int
  cp_auto :: int
  cp_explicit :: "int list"
  cp_buckets :: "(int \<times> int) list"

record capabilities =
  cp_choices :: "int list"
  cp_max :: int
  cp_min :: int
  cp_cadence :: int
  cp_ranges :: "capability_range list"
  cp_migration :: "(string \<times> string \<times> string list) option"

definition CURRENT_RESOLUTIONS :: "int list" where "CURRENT_RESOLUTIONS = [1, 10, 60, 300]"

definition capability_range_ok :: "int \<Rightarrow> int \<Rightarrow> capability_range \<Rightarrow> bool" where
  "capability_range_ok minBuckets maxBuckets r =
     (positiveInteger (cp_range r) \<and> cp_explicit r \<noteq> [] \<and> list_all positiveInteger (cp_explicit r)
      \<and> list_all (\<lambda>c. c \<in> set CURRENT_RESOLUTIONS) (cp_explicit r) \<and> sorted_wrt (<) (cp_explicit r)
      \<and> positiveInteger (cp_auto r) \<and> cp_auto r \<in> set (cp_explicit r)
      \<and> length (cp_buckets r) = length (cp_explicit r)
      \<and> list_all (\<lambda>c. case map_of (cp_buckets r) c of
            None \<Rightarrow> False
          | Some n \<Rightarrow> positiveInteger n \<and> cp_range r mod c = 0 \<and> n = cp_range r div c \<and> minBuckets \<le> n \<and> n \<le> maxBuckets)
         (cp_explicit r))"

definition normalizeStatsMigration :: "(string \<times> string \<times> string list) option \<Rightarrow> bool" where
  "normalizeStatsMigration m =
     (case m of
        None \<Rightarrow> True
      | Some (state, result, kinds) \<Rightarrow>
          state = ''ready'' \<and> result \<in> set [''existing'', ''activated'', ''recovered'']
          \<and> length kinds \<le> 16 \<and> list_all (\<lambda>k. length k \<le> 80) kinds)"

definition normalizeCapabilities :: "capabilities \<Rightarrow> bool" where
  "normalizeCapabilities c =
     (cp_ranges c \<noteq> [] \<and> cp_choices c = CURRENT_RESOLUTIONS \<and> positiveInteger (cp_max c) \<and> cp_max c \<le> 600
      \<and> positiveInteger (cp_min c) \<and> cp_min c \<le> cp_max c \<and> cp_cadence c = 60
      \<and> sorted_wrt (<) (map cp_range (cp_ranges c)) \<and> list_all (capability_range_ok (cp_min c) (cp_max c)) (cp_ranges c)
      \<and> normalizeStatsMigration (cp_migration c))"

text \<open>A saved resolution after \<open>canonicalSavedInteger\<close>.\<close>

datatype saved_resolution = SavedAuto | SavedInteger int | SavedOther

record selection =
  sl_range :: int
  sl_resolution :: "int option"
  sl_capability :: capability_range

definition normalizeSelection :: "capabilities \<Rightarrow> int option \<Rightarrow> saved_resolution \<Rightarrow> selection" where
  "normalizeSelection c savedRange savedResolution =
     (let matched = List.find (\<lambda>r. Some (cp_range r) = savedRange) (cp_ranges c);
          capability = (case matched of Some r \<Rightarrow> r | None \<Rightarrow> hd (cp_ranges c));
          resolution = (if matched = None then None
                        else case savedResolution of
                          SavedInteger n \<Rightarrow> if n \<in> set (cp_explicit capability) then Some n else None
                        | _ \<Rightarrow> None)
      in \<lparr>sl_range = cp_range capability, sl_resolution = resolution, sl_capability = capability\<rparr>)"

end
