(* ===== verification/Stats_Controller.thy ===== *)
theory Stats_Controller
  imports Stats_Wire
begin

text \<open>
  The controller of the statistics panel (\<open>createController\<close> of \<open>84_stats_current.js\<close>): the selection, the
  generation it shows, the deltas that advance it, the ticks and repairs that refetch it, and the window that
  is presented.

  The clock is an argument. A timer is the time it is due, or \<open>None\<close>. A fetch in flight keeps the request and
  the serial of the selection it was made for; its answer is a later step. The calls of the controller's
  callbacks are logged in \<open>ct_log\<close>, the newest last.
\<close>

section \<open>State\<close>

record stats_config =
  sc_capabilities :: capabilities
  sc_repairBase :: int
  sc_repairMax :: int
  sc_client :: string

record stats_request =
  sr_range :: int
  sr_resolution :: "int option"
  sr_client :: string
  sr_since :: int

record stats_frame =
  sf_range :: rat
  sf_resolution :: int
  sf_source :: int
  sf_cache :: int
  sf_revision :: int
  sf_start :: rat
  sf_end :: rat
  sf_buckets :: "bucket list"
  sf_gaps :: "gap list"

record delta =
  dl_protocol :: int
  dl_range :: int
  dl_resolution :: int
  dl_source :: int
  dl_base :: int
  dl_cache :: int
  dl_revision :: int
  dl_buckets :: "bucket list"
  dl_gaps :: "gap list"
  dl_tombstones :: "identity list"
  dl_cost :: cost_report

datatype rejection = Envelope | Key | Buckets | NoData | Cost | Tombstones | Apply

datatype stats_failure =
    ContractViolation
  | CadenceStall int
  | UnservedRange
  | DeltaRejected rejection
  | TransportFailure

datatype stats_callback =
    OnGeneration snapshot
  | OnDelta snapshot delta
  | OnViewport "stats_frame option"
  | OnFailure stats_failure
  | OnRetirement
  | OnRepairNeeded
  | OnRepairComplete "snapshot option"
  | OnPushProof

record stats_fetch =
  sf_request :: stats_request
  sf_serial :: nat

record controller =
  ct_selection :: selection
  ct_serial :: nat
  ct_active :: "snapshot option"
  ct_running :: bool
  ct_stopped :: bool
  ct_visible :: bool
  ct_zoomed :: bool
  ct_tickTimer :: "int option"
  ct_tick :: "stats_fetch option"
  ct_repairTimer :: "int option"
  ct_repair :: "stats_fetch option"
  ct_repairNeeded :: bool
  ct_fullRepair :: bool
  ct_repairDelay :: int
  ct_anchorMs :: "int option"
  ct_anchorEnd :: "int option"
  ct_windowEnd :: "int option"
  ct_zoom :: "(rat \<times> rat) option"
  ct_revision :: int
  ct_advancedAt :: "int option"
  ct_floors :: "((int \<times> int) \<times> int) list"
  ct_snapshots :: "((int \<times> int) \<times> snapshot \<times> int) list"
  ct_latched :: bool
  ct_log :: "stats_callback list"

definition stats_call :: "stats_callback \<Rightarrow> controller \<Rightarrow> controller" where
  "stats_call x s = s\<lparr>ct_log := ct_log s @ [x]\<rparr>"

definition createController :: "stats_config \<Rightarrow> int option \<Rightarrow> saved_resolution \<Rightarrow> controller option" where
  "createController cf savedRange savedResolution =
     (if \<not> normalizeCapabilities (sc_capabilities cf) \<or> \<not> positiveInteger (sc_repairBase cf) \<or> \<not> positiveInteger (sc_repairMax cf)
         \<or> sc_repairMax cf < sc_repairBase cf \<or> sc_client cf = [] \<or> 128 < length (sc_client cf)
         \<or> list_ex (\<lambda>c. (of_char c :: nat) < 32 \<or> (of_char c :: nat) = 127) (sc_client cf)
      then None
      else Some
        \<lparr>ct_selection = normalizeSelection (sc_capabilities cf) savedRange savedResolution, ct_serial = 0, ct_active = None,
         ct_running = False, ct_stopped = False, ct_visible = True, ct_zoomed = False, ct_tickTimer = None, ct_tick = None,
         ct_repairTimer = None, ct_repair = None, ct_repairNeeded = False, ct_fullRepair = False,
         ct_repairDelay = sc_repairBase cf, ct_anchorMs = None, ct_anchorEnd = None, ct_windowEnd = None, ct_zoom = None,
         ct_revision = 0, ct_advancedAt = None, ct_floors = [], ct_snapshots = [], ct_latched = False, ct_log = []\<rparr>)"

section \<open>Selection and requests\<close>

definition resolutionSecondsFor :: "selection \<Rightarrow> int" where
  "resolutionSecondsFor sel = (case sl_resolution sel of None \<Rightarrow> cp_auto (sl_capability sel) | Some r \<Rightarrow> r)"

definition concreteResolution :: "controller \<Rightarrow> int" where
  "concreteResolution s = resolutionSecondsFor (ct_selection s)"

definition selectionSnapshotKey :: "controller \<Rightarrow> int \<times> int" where
  "selectionSnapshotKey s = (sl_range (ct_selection s), concreteResolution s)"

definition active_cache :: "controller \<Rightarrow> int" where
  "active_cache s = (case ct_active s of Some g \<Rightarrow> sn_cache g | None \<Rightarrow> 0)"

definition buildRequest :: "stats_config \<Rightarrow> controller \<Rightarrow> stats_request" where
  "buildRequest cf s =
     \<lparr>sr_range = sl_range (ct_selection s), sr_resolution = sl_resolution (ct_selection s), sr_client = sc_client cf,
      sr_since = (if ct_fullRepair s then 0 else active_cache s)\<rparr>"

record delta_request =
  dr_range :: int
  dr_resolution :: int
  dr_client :: string
  dr_cache :: int
  dr_revision :: int

definition buildDeltaRequest :: "stats_config \<Rightarrow> controller \<Rightarrow> delta_request" where
  "buildDeltaRequest cf s =
     \<lparr>dr_range = sl_range (ct_selection s), dr_resolution = concreteResolution s, dr_client = sc_client cf,
      dr_cache = active_cache s, dr_revision = ct_revision s\<rparr>"

definition requestMatches :: "stats_fetch \<Rightarrow> controller \<Rightarrow> bool" where
  "requestMatches f s =
     (sf_serial f = ct_serial s \<and> sr_range (sf_request f) = sl_range (ct_selection s)
      \<and> sr_resolution (sf_request f) = sl_resolution (ct_selection s))"

section \<open>Failures\<close>

definition reportFailure :: "stats_failure \<Rightarrow> controller \<Rightarrow> controller" where
  "reportFailure x s = (if ct_latched s then s else stats_call (OnFailure x) (s\<lparr>ct_latched := True\<rparr>))"

definition liveCadenceSeconds :: "stats_config \<Rightarrow> controller \<Rightarrow> int" where
  "liveCadenceSeconds cf s = min (concreteResolution s) (cp_cadence (sc_capabilities cf))"

definition reportCadenceStall :: "stats_config \<Rightarrow> int \<Rightarrow> controller \<Rightarrow> controller" where
  "reportCadenceStall cf now s =
     (let advanced = (case ct_advancedAt s of Some t \<Rightarrow> t | None \<Rightarrow> now); s1 = s\<lparr>ct_advancedAt := Some advanced\<rparr>;
          cadence = liveCadenceSeconds cf s
      in if now - advanced \<le> cadence * 3000 then s1 else reportFailure (CadenceStall (cadence * 3)) s1)"

definition noteStreamHeartbeat :: "int \<Rightarrow> controller \<Rightarrow> controller" where
  "noteStreamHeartbeat now s = (if ct_running s then s\<lparr>ct_advancedAt := Some now\<rparr> else s)"

section \<open>Presentation\<close>

definition anchorPresentation :: "stats_config \<Rightarrow> int \<Rightarrow> int \<Rightarrow> controller \<Rightarrow> controller" where
  "anchorPresentation cf now windowEnd s =
     (let cadence = liveCadenceSeconds cf s * 1000
      in s\<lparr>ct_anchorMs := Some (now div cadence * cadence), ct_anchorEnd := Some windowEnd, ct_windowEnd := Some windowEnd\<rparr>)"

definition updatePresentation :: "stats_config \<Rightarrow> int \<Rightarrow> controller \<Rightarrow> controller" where
  "updatePresentation cf now s =
     (case (ct_active s, ct_anchorMs s, ct_anchorEnd s) of
        (Some g, Some ms, Some e) \<Rightarrow>
          let cadence = liveCadenceSeconds cf s
          in s\<lparr>ct_windowEnd := Some (e + max 0 (now - ms) div (cadence * 1000) * cadence)\<rparr>
      | _ \<Rightarrow> s)"

definition presentation :: "controller \<Rightarrow> stats_frame option" where
  "presentation s =
     (case ct_active s of
        None \<Rightarrow> None
      | Some g \<Rightarrow>
          let windowEnd = of_int (case ct_windowEnd s of Some e \<Rightarrow> e | None \<Rightarrow> sn_end g);
              live = (windowEnd - of_int (sl_range (ct_selection s)), windowEnd);
              window = (if ct_zoomed s then (case ct_zoom s of Some z \<Rightarrow> z | None \<Rightarrow> live) else live)
          in Some \<lparr>sf_range = snd window - fst window, sf_resolution = concreteResolution s, sf_source = sn_source g,
                   sf_cache = sn_cache g, sf_revision = ct_revision s, sf_start = fst window, sf_end = snd window,
                   sf_buckets = sn_buckets g, sf_gaps = sn_gaps g\<rparr>)"

text \<open>The points of a series in the presented frame: start, value and place in the plot.\<close>

definition projectSeries :: "string \<Rightarrow> rat \<Rightarrow> controller \<Rightarrow> (int \<times> rat \<times> rat) list option" where
  "projectSeries name plotWidth s =
     (if name = [] \<or> plotWidth < 0 then None
      else case presentation s of
        None \<Rightarrow> Some []
      | Some frame \<Rightarrow> Some (concat (map (\<lambda>b. map (\<lambda>p. (bk_start b, sp_value p, (of_int (bk_start b) - sf_start frame) / sf_range frame * plotWidth))
                                          (filter (\<lambda>p. sp_name p = name) (bk_series b))) (sf_buckets frame))))"

section \<open>Ticks and repairs\<close>

definition scheduleTick :: "stats_config \<Rightarrow> int \<Rightarrow> controller \<Rightarrow> controller" where
  "scheduleTick cf now s =
     (if \<not> ct_running s \<or> \<not> ct_visible s \<or> ct_zoomed s \<or> ct_tickTimer s \<noteq> None then s
      else
        let cadence = liveCadenceSeconds cf s * 1000; remainder = now mod cadence
        in s\<lparr>ct_tickTimer := Some (now + (if remainder = 0 then cadence else cadence - remainder))\<rparr>)"

definition scheduleRepair :: "int \<Rightarrow> bool \<Rightarrow> controller \<Rightarrow> controller" where
  "scheduleRepair now immediate s =
     (if ct_stopped s then s
      else
        let s1 = (if ct_repairNeeded s then s else stats_call OnRepairNeeded (s\<lparr>ct_repairNeeded := True\<rparr>))
        in if \<not> ct_visible s \<or> ct_zoomed s \<or> ct_repair s \<noteq> None then s1
           else if ct_repairTimer s \<noteq> None \<and> \<not> immediate then s1
           else s1\<lparr>ct_repairTimer := Some (now + (if immediate then 0 else ct_repairDelay s))\<rparr>)"

definition clearRepair :: "stats_config \<Rightarrow> controller \<Rightarrow> controller" where
  "clearRepair cf s = s\<lparr>ct_repairTimer := None, ct_repairNeeded := False, ct_fullRepair := False, ct_repairDelay := sc_repairBase cf\<rparr>"

definition resetTickTimer :: "stats_config \<Rightarrow> int \<Rightarrow> controller \<Rightarrow> controller" where
  "resetTickTimer cf now s = scheduleTick cf now (s\<lparr>ct_tickTimer := None\<rparr>)"

definition resetSchedulers :: "stats_config \<Rightarrow> int \<Rightarrow> controller \<Rightarrow> controller" where
  "resetSchedulers cf now s =
     (let s1 = resetTickTimer cf now (s\<lparr>ct_repairTimer := None\<rparr>)
      in if ct_repairNeeded s1 then scheduleRepair now False s1 else s1)"

section \<open>Snapshots and deltas\<close>

definition floor_of :: "controller \<Rightarrow> int" where
  "floor_of s = (case map_of (ct_floors s) (selectionSnapshotKey s) of Some n \<Rightarrow> n | None \<Rightarrow> 0)"

definition stats_publish :: "stats_config \<Rightarrow> int \<Rightarrow> snapshot \<Rightarrow> bool \<Rightarrow> delta option \<Rightarrow> controller \<Rightarrow> controller" where
  "stats_publish cf now g authoritative d s =
     (let key = selectionSnapshotKey s;
          s1 = s\<lparr>ct_active := Some g, ct_floors := AList.update key (max (floor_of s) (sn_source g)) (ct_floors s),
                 ct_advancedAt := Some now, ct_snapshots := AList.update key (g, ct_revision s) (ct_snapshots s)\<rparr>;
          s2 = (if \<not> ct_zoomed s1 \<or> ct_windowEnd s1 = None
                then anchorPresentation cf now
                       (if authoritative then sn_end g
                        else max (case ct_windowEnd s1 of Some e \<Rightarrow> e | None \<Rightarrow> sn_end g) (sn_end g)) s1
                else s1)
      in stats_call (case d of Some x \<Rightarrow> OnDelta g x | None \<Rightarrow> OnGeneration g) s2)"

text \<open>\<open>None\<close>: the code throws.\<close>

definition acceptSnapshot :: "stats_config \<Rightarrow> int \<Rightarrow> snapshot \<Rightarrow> controller \<Rightarrow> (controller \<times> bool) option" where
  "acceptSnapshot cf now g s =
     (let accepted = (clearRepair cf (stats_publish cf now g True None (s\<lparr>ct_revision := 0\<rparr>)), True)
      in if \<not> validateSnapshot g (sl_range (ct_selection s)) (sl_resolution (ct_selection s)) (concreteResolution s) (cp_max (sc_capabilities cf))
         then None
         else case ct_active s of
           Some a \<Rightarrow>
             if sn_cache g < sn_cache a then None
             else if sn_cache g = sn_cache a then
               (if 0 < ct_revision s then Some accepted else if g \<noteq> a then None else Some (s, False))
             else if sn_source g < floor_of s then None else Some accepted
         | None \<Rightarrow> if sn_source g < floor_of s then None else Some accepted)"

definition identity_of_tombstones :: "identity list \<Rightarrow> (identity \<times> 'a) list \<Rightarrow> (identity \<times> 'a) list" where
  "identity_of_tombstones ts al = fold AList.delete ts al"

definition put_all :: "(identity \<times> 'a) list \<Rightarrow> (identity \<times> 'a) list \<Rightarrow> (identity \<times> 'a) list" where
  "put_all new al = fold (\<lambda>(k, v). AList.update k v) new al"

definition by_identity :: "('a \<Rightarrow> identity) \<Rightarrow> 'a list \<Rightarrow> (identity \<times> 'a) list" where
  "by_identity f xs = put_all (map (\<lambda>x. (f x, x)) xs) []"

definition delta_end :: "delta \<Rightarrow> snapshot \<Rightarrow> int \<Rightarrow> int" where
  "delta_end d a resolution =
     (case (if sn_source a < dl_source d then List.find bk_open (dl_buckets d) else None) of
        Some b \<Rightarrow>
          if safe_integer (bk_start b + resolution) then bk_start b + resolution
          else fold max (map (\<lambda>b. bk_start b + bk_duration b) (dl_buckets d)) (sn_end a)
      | None \<Rightarrow> fold max (map (\<lambda>b. bk_start b + bk_duration b) (dl_buckets d)) (sn_end a))"

text \<open>The generation after a delta, without the checks.\<close>

definition delta_candidate :: "delta \<Rightarrow> snapshot \<Rightarrow> int \<Rightarrow> int \<Rightarrow> snapshot" where
  "delta_candidate d a rng resolution =
     (let e = delta_end d a resolution; b = e - rng;
          buckets = sort_key bk_start (filter (\<lambda>x. b \<le> bk_start x \<and> bk_start x + bk_duration x \<le> e)
            (map snd (put_all (by_identity bucketIdentityKey (dl_buckets d))
              (identity_of_tombstones (dl_tombstones d) (by_identity bucketIdentityKey (sn_buckets a))))));
          gaps = sort_key gap_key (filter (\<lambda>g. of_int b < gp_end g \<and> gp_start g < of_int e)
            (map snd (put_all (by_identity noDataIdentityKey (dl_gaps d))
              (identity_of_tombstones (dl_tombstones d) (by_identity noDataIdentityKey (sn_gaps a))))))
      in a\<lparr>sn_source := dl_source d, sn_cache := dl_cache d, sn_start := b, sn_end := e, sn_open := last_open buckets,
           sn_buckets := buckets, sn_gaps := gaps, sn_cost := dl_cost d\<rparr>)"

datatype delta_outcome = Ignored | Rejected rejection | Advances snapshot

definition delta_verdict :: "stats_config \<Rightarrow> delta \<Rightarrow> snapshot \<Rightarrow> controller \<Rightarrow> delta_outcome" where
  "delta_verdict cf d a s =
     (let resolution = concreteResolution s; rng = sl_range (ct_selection s); most = cp_max (sc_capabilities cf);
          replaced = map bucketIdentityKey (dl_buckets d) @ map noDataIdentityKey (dl_gaps d);
          candidate = delta_candidate d a rng resolution
      in if dl_protocol d \<noteq> CURRENT_STATS_WIRE_PROTOCOL_VERSION \<or> \<not> generationNumber (dl_source d) \<or> \<not> generationNumber (dl_base d)
            \<or> \<not> generationNumber (dl_cache d) \<or> \<not> positiveInteger (dl_revision d)
         then Rejected Envelope
         else if dl_cache d \<le> sn_cache a then Ignored
         else if dl_range d \<noteq> rng \<or> dl_resolution d \<noteq> resolution \<or> dl_source d < sn_source a \<or> dl_base d \<noteq> sn_cache a
                 \<or> dl_cache d \<le> dl_base d \<or> 0 < ct_revision s \<and> dl_revision d \<noteq> ct_revision s + 1
         then Rejected Key
         else if \<not> validateBuckets (dl_buckets d) resolution most False 0 None then Rejected Buckets
         else if \<not> validateNoData (dl_gaps d) None None then Rejected NoData
         else if \<not> validateCostReport (dl_cost d) then Rejected Cost
         else if \<not> validateTombstones (dl_tombstones d) resolution (most * 2)
                 \<or> most * 2 < int (length (dl_buckets d) + length (dl_gaps d) + length (dl_tombstones d))
         then Rejected Tombstones
         else if list_ex (\<lambda>t. t \<in> set replaced) (dl_tombstones d) \<or> replaced = [] \<and> dl_tombstones d = []
                 \<or> \<not> validateBuckets (sn_buckets candidate) resolution most True (sn_start candidate) (Some (sn_end candidate))
                 \<or> \<not> validateNoData (sn_gaps candidate) None None
         then Rejected Apply
         else Advances candidate)"

text \<open>\<open>None\<close> is a delta whose own fields are not exact.\<close>

definition rejectDelta :: "int \<Rightarrow> rejection \<Rightarrow> controller \<Rightarrow> controller" where
  "rejectDelta now phase s = scheduleRepair now False ((reportFailure (DeltaRejected phase) s)\<lparr>ct_fullRepair := True\<rparr>)"

definition acceptDelta :: "stats_config \<Rightarrow> int \<Rightarrow> delta option \<Rightarrow> controller \<Rightarrow> controller" where
  "acceptDelta cf now payload s =
     (if \<not> ct_visible s then s\<lparr>ct_repairNeeded := True\<rparr>
      else case ct_active s of
        None \<Rightarrow> scheduleRepair now False s
      | Some a \<Rightarrow>
          (case payload of
             None \<Rightarrow> rejectDelta now Envelope s
           | Some d \<Rightarrow>
               (case delta_verdict cf d a s of
                  Ignored \<Rightarrow> s
                | Rejected phase \<Rightarrow> rejectDelta now phase s
                | Advances g \<Rightarrow>
                    clearRepair cf (stats_call OnPushProof
                      ((stats_publish cf now g False (Some d) (s\<lparr>ct_revision := dl_revision d\<rparr>))\<lparr>ct_latched := False\<rparr>)))))"

section \<open>Timers and answers\<close>

definition tickFires :: "stats_config \<Rightarrow> int \<Rightarrow> controller \<Rightarrow> controller" where
  "tickFires cf now s =
     (if ct_tickTimer s = None then s
      else
        let s0 = s\<lparr>ct_tickTimer := None\<rparr>
        in if \<not> ct_running s \<or> \<not> ct_visible s \<or> ct_zoomed s then s0
           else
             let s1 = reportCadenceStall cf now s0
             in if ct_tick s \<noteq> None \<or> ct_repair s \<noteq> None then scheduleTick cf now s1
                else
                  let s2 = updatePresentation cf now (s1\<lparr>ct_tick := Some \<lparr>sf_request = buildRequest cf s1, sf_serial = ct_serial s1\<rparr>\<rparr>)
                  in stats_call (OnViewport (presentation s2)) s2)"

datatype stats_answer = NoAnswer | Answered snapshot | Unreadable | NotModified | Fails "int option" bool

text \<open>\<open>Unreadable\<close> is a snapshot whose fields are not exact. The flag of \<open>Fails\<close>: the error the fetch failed
  with is a violation of the contract.\<close>

definition reportContractViolation :: "bool \<Rightarrow> controller \<Rightarrow> controller" where
  "reportContractViolation violation s = (if violation then reportFailure ContractViolation s else s)"

definition tickAnswered :: "stats_config \<Rightarrow> int \<Rightarrow> stats_answer \<Rightarrow> controller \<Rightarrow> controller" where
  "tickAnswered cf now ans s =
     (case ct_tick s of
        None \<Rightarrow> s
      | Some f \<Rightarrow>
          let wanted = requestMatches f s \<and> ct_running s \<and> ct_visible s \<and> \<not> ct_zoomed s;
              s1 = (case ans of
                Answered g \<Rightarrow>
                  if wanted then (case acceptSnapshot cf now g s of None \<Rightarrow> scheduleRepair now False s | Some (t, b) \<Rightarrow> t) else s
              | Unreadable \<Rightarrow> if wanted then scheduleRepair now False (reportContractViolation True s) else s
              | Fails pending violation \<Rightarrow> scheduleRepair now False (reportContractViolation violation s)
              | _ \<Rightarrow> s)
          in scheduleTick cf now (s1\<lparr>ct_tick := None\<rparr>))"

definition repairFires :: "stats_config \<Rightarrow> int \<Rightarrow> controller \<Rightarrow> controller" where
  "repairFires cf now s =
     (if ct_repairTimer s = None then s
      else
        let s0 = s\<lparr>ct_repairTimer := None\<rparr>
        in if \<not> ct_visible s \<or> ct_zoomed s \<or> ct_repair s \<noteq> None then s0
           else if ct_tick s \<noteq> None then scheduleRepair now False s0
           else s0\<lparr>ct_repairNeeded := False, ct_repair := Some \<lparr>sf_request = buildRequest cf s, sf_serial = ct_serial s\<rparr>\<rparr>)"

text \<open>The state after the body of the repair, whether it succeeded, and the delay the server asked for.\<close>

definition repairBody :: "stats_config \<Rightarrow> int \<Rightarrow> stats_fetch \<Rightarrow> stats_answer \<Rightarrow> controller \<Rightarrow> controller \<times> bool \<times> int option" where
  "repairBody cf now f ans s =
     (let wanted = requestMatches f s \<and> ct_visible s \<and> \<not> ct_zoomed s
      in (case ans of
            Fails pending violation \<Rightarrow> (reportContractViolation violation s, False, pending)
          | Answered g \<Rightarrow>
              if \<not> wanted then (s, False, None)
              else (case acceptSnapshot cf now g s of
                      None \<Rightarrow> (s, False, None)
                    | Some (t, b) \<Rightarrow> (stats_call (OnRepairComplete (ct_active t)) t, True, None))
          | Unreadable \<Rightarrow> (reportContractViolation wanted s, False, None)
          | NotModified \<Rightarrow>
              if \<not> wanted then (s, False, None)
              else if ct_active s = None then (reportContractViolation True s, False, None)
              else (stats_call (OnRepairComplete (ct_active s)) s, True, None)
          | NoAnswer \<Rightarrow> (s, False, None)))"

definition statsRepairAnswered :: "stats_config \<Rightarrow> int \<Rightarrow> stats_answer \<Rightarrow> controller \<Rightarrow> controller" where
  "statsRepairAnswered cf now ans s =
     (case ct_repair s of
        None \<Rightarrow> s
      | Some f \<Rightarrow>
          (case repairBody cf now f ans s of
             (s1, succeeded, pending) \<Rightarrow>
               let s2 = s1\<lparr>ct_repair := None\<rparr>
               in if succeeded then s2\<lparr>ct_repairDelay := sc_repairBase cf\<rparr>
                  else scheduleRepair now (\<not> requestMatches f s2)
                         (s2\<lparr>ct_repairDelay := (case pending of Some ms \<Rightarrow> ms | None \<Rightarrow> min (sc_repairMax cf) (ct_repairDelay s2 * 2))\<rparr>)))"

section \<open>The user's operations\<close>

definition stats_select :: "stats_config \<Rightarrow> int \<Rightarrow> int option \<Rightarrow> saved_resolution \<Rightarrow> controller \<Rightarrow> controller" where
  "stats_select cf now rangeSeconds resolution s =
     (let served = list_ex (\<lambda>r. Some (cp_range r) = rangeSeconds) (cp_ranges (sc_capabilities cf));
          next = normalizeSelection (sc_capabilities cf) rangeSeconds resolution
      in if \<not> served then reportFailure UnservedRange s
         else if sl_range next = sl_range (ct_selection s) \<and> sl_resolution next = sl_resolution (ct_selection s) then s
         else
           let s1 = (clearRepair cf (s\<lparr>ct_selection := next, ct_serial := Suc (ct_serial s), ct_anchorMs := None, ct_anchorEnd := None,
                       ct_windowEnd := None, ct_zoom := None\<rparr>))\<lparr>ct_tickTimer := None\<rparr>
           in (case map_of (ct_snapshots s1) (selectionSnapshotKey s1) of
                 Some (g, revision) \<Rightarrow>
                   scheduleTick cf now (stats_publish cf now (g\<lparr>sn_requested := sl_resolution next\<rparr>) True None
                     (s1\<lparr>ct_revision := revision, ct_zoomed := False\<rparr>))
               | None \<Rightarrow>
                   scheduleRepair now True (scheduleTick cf now
                     (s1\<lparr>ct_active := None, ct_zoomed := False, ct_revision := 0, ct_advancedAt := Some now\<rparr>))))"

definition setVisible :: "stats_config \<Rightarrow> int \<Rightarrow> bool \<Rightarrow> controller \<Rightarrow> controller" where
  "setVisible cf now v s =
     (let shown = v \<and> \<not> ct_visible s;
          s1 = resetSchedulers cf now (s\<lparr>ct_visible := v, ct_advancedAt := (if shown then Some now else ct_advancedAt s)\<rparr>)
      in if shown then scheduleRepair now True s1 else s1)"

definition setZoomedStatic :: "stats_config \<Rightarrow> int \<Rightarrow> bool \<Rightarrow> controller \<Rightarrow> controller" where
  "setZoomedStatic cf now v s =
     (let s0 = s\<lparr>ct_zoomed := v\<rparr>;
          s1 = (if v \<and> \<not> ct_zoomed s then s0\<lparr>ct_zoom := map_option (\<lambda>f. (sf_start f, sf_end f)) (presentation s0)\<rparr>
                else if \<not> v then s0\<lparr>ct_zoom := None\<rparr> else s0);
          s2 = (case ct_active s1 of Some g \<Rightarrow> if ct_zoomed s \<and> \<not> v then anchorPresentation cf now (sn_end g) s1 else s1 | None \<Rightarrow> s1);
          s3 = resetSchedulers cf now s2
      in if \<not> v \<and> ct_repairNeeded s3 then scheduleRepair now True s3 else s3)"

text \<open>The flag tells that nothing was thrown. The window is assigned before its size is checked.\<close>

definition setZoomWindow :: "stats_config \<Rightarrow> int \<Rightarrow> rat \<Rightarrow> rat \<Rightarrow> controller \<Rightarrow> controller \<times> bool" where
  "setZoomWindow cf now a b s =
     (case ct_active s of
        None \<Rightarrow> (s, False)
      | Some g \<Rightarrow>
          if b \<le> a then (s, False)
          else
            let upper = max (of_int (sn_end g)) (case presentation s of Some f \<Rightarrow> sf_end f | None \<Rightarrow> of_int (sn_end g));
                zoom = (max (of_int (sn_start g)) a, min upper b); s1 = s\<lparr>ct_zoom := Some zoom\<rparr>
            in if snd zoom - fst zoom < of_int (concreteResolution s) then (s1, False)
               else
                 let s2 = resetSchedulers cf now (s1\<lparr>ct_zoomed := True\<rparr>)
                 in (stats_call (OnViewport (presentation s2)) s2, True))"

definition clearZoom :: "stats_config \<Rightarrow> int \<Rightarrow> controller \<Rightarrow> controller" where
  "clearZoom cf now s = (let s1 = setZoomedStatic cf now False s in stats_call (OnViewport (presentation s1)) s1)"

definition handleReconnect :: "int \<Rightarrow> bool \<Rightarrow> controller \<Rightarrow> controller" where
  "handleReconnect now requiresFull s = scheduleRepair now False (s\<lparr>ct_fullRepair := (ct_fullRepair s \<or> requiresFull)\<rparr>)"

definition handleTransportFailure :: "int \<Rightarrow> controller \<Rightarrow> controller" where
  "handleTransportFailure now s = handleReconnect now False (reportFailure TransportFailure s)"

definition handleTransportRetirement :: "int \<Rightarrow> controller \<Rightarrow> controller" where
  "handleTransportRetirement now s = handleReconnect now False (stats_call OnRetirement s)"

definition stats_start :: "stats_config \<Rightarrow> int \<Rightarrow> controller \<Rightarrow> controller" where
  "stats_start cf now s =
     (if ct_running s then s
      else
        let s1 = scheduleTick cf now (s\<lparr>ct_stopped := False, ct_running := True,
                   ct_advancedAt := (case ct_advancedAt s of Some t \<Rightarrow> Some t | None \<Rightarrow> Some now)\<rparr>)
        in if ct_active s1 = None then scheduleRepair now True s1 else s1)"

definition stats_stop :: "stats_config \<Rightarrow> int \<Rightarrow> controller \<Rightarrow> controller" where
  "stats_stop cf now s =
     (clearRepair cf (resetTickTimer cf now (s\<lparr>ct_stopped := True, ct_running := False\<rparr>)))\<lparr>ct_advancedAt := None\<rparr>"

section \<open>Events\<close>

datatype stats_event =
    TickFires
  | TickAnswered stats_answer
  | RepairFires
  | RepairAnswered stats_answer
  | Delta "delta option"
  | Selected "int option" saved_resolution
  | Visible bool
  | Zoomed bool
  | ZoomWindow rat rat
  | ClearZoom
  | Reconnect bool
  | Failed
  | Retired
  | Heartbeat
  | Start
  | Stop

fun stats_do :: "stats_config \<Rightarrow> int \<Rightarrow> stats_event \<Rightarrow> controller \<Rightarrow> controller" where
  "stats_do cf now TickFires s = tickFires cf now s"
| "stats_do cf now (TickAnswered ans) s = tickAnswered cf now ans s"
| "stats_do cf now RepairFires s = repairFires cf now s"
| "stats_do cf now (RepairAnswered ans) s = statsRepairAnswered cf now ans s"
| "stats_do cf now (Delta payload) s = acceptDelta cf now payload s"
| "stats_do cf now (Selected rng resolution) s = stats_select cf now rng resolution s"
| "stats_do cf now (Visible v) s = setVisible cf now v s"
| "stats_do cf now (Zoomed v) s = setZoomedStatic cf now v s"
| "stats_do cf now (ZoomWindow a b) s = fst (setZoomWindow cf now a b s)"
| "stats_do cf now ClearZoom s = clearZoom cf now s"
| "stats_do cf now (Reconnect full) s = handleReconnect now full s"
| "stats_do cf now Failed s = handleTransportFailure now s"
| "stats_do cf now Retired s = handleTransportRetirement now s"
| "stats_do cf now Heartbeat s = noteStreamHeartbeat now s"
| "stats_do cf now Start s = stats_start cf now s"
| "stats_do cf now Stop s = stats_stop cf now s"

inductive stats_step :: "stats_config \<Rightarrow> controller \<Rightarrow> controller \<Rightarrow> bool" for cf where
  stats_event: "stats_step cf s (stats_do cf now ev s)"

inductive_cases stats_stepE: "stats_step cf s t"

end
