(* ===== verification/Stats_Invariants.thy ===== *)
theory Stats_Invariants
  imports Stats_Controller
begin

text \<open>
  What the operations of the statistics controller leave alone, and its invariants: every generation it shows
  or remembers is valid for its selection, and an empty view has a repair under way.
\<close>

section \<open>Valid generations\<close>

definition view_ok :: "stats_config \<Rightarrow> int \<times> int \<Rightarrow> snapshot \<Rightarrow> bool" where
  "view_ok cf key g =
     (sn_range g = fst key \<and> sn_resolution g = snd key \<and> sn_end g - sn_start g = fst key
      \<and> validateBuckets (sn_buckets g) (snd key) (cp_max (sc_capabilities cf)) True (sn_start g) (Some (sn_end g))
      \<and> validateNoData (sn_gaps g) None None \<and> validateCostReport (sn_cost g) \<and> last_open (sn_buckets g) = sn_open g)"

lemma scan_unbounded: "scanNoData w e ends prev gs \<Longrightarrow> scanNoData None None ends prev gs"
  by (induction w e ends prev gs rule: scanNoData.induct) auto

lemma snapshot_view: "validateSnapshot g rng resolution concrete (cp_max (sc_capabilities cf)) \<Longrightarrow> view_ok cf (rng, concrete) g"
  by (auto simp: validateSnapshot_def view_ok_def validateNoData_def intro: scan_unbounded)

lemma candidate_fields:
  "sn_range (delta_candidate d a rng r) = sn_range a" "sn_resolution (delta_candidate d a rng r) = sn_resolution a"
  "sn_end (delta_candidate d a rng r) - sn_start (delta_candidate d a rng r) = rng"
  "sn_source (delta_candidate d a rng r) = dl_source d" "sn_cache (delta_candidate d a rng r) = dl_cache d"
  "sn_cost (delta_candidate d a rng r) = dl_cost d"
  "last_open (sn_buckets (delta_candidate d a rng r)) = sn_open (delta_candidate d a rng r)"
  by (simp_all add: delta_candidate_def Let_def)

text \<open>What a delta that advances the generation has passed.\<close>

lemma delta_advances:
  assumes "delta_verdict cf d a s = Advances g"
  shows "g = delta_candidate d a (sl_range (ct_selection s)) (concreteResolution s)"
    "sn_cache a < dl_cache d" "dl_base d = sn_cache a" "sn_source a \<le> dl_source d" "0 < ct_revision s \<longrightarrow> dl_revision d = ct_revision s + 1"
    "0 < dl_revision d" "validateCostReport (dl_cost d)" "\<forall>t \<in> set (dl_tombstones d). t \<notin> bucketIdentityKey ` set (dl_buckets d)"
    "validateBuckets (sn_buckets g) (concreteResolution s) (cp_max (sc_capabilities cf)) True (sn_start g) (Some (sn_end g))"
    "validateNoData (sn_gaps g) None None"
proof -
  define c where "c = delta_candidate d a (sl_range (ct_selection s)) (concreteResolution s)"
  note v = assms [unfolded delta_verdict_def Let_def, folded c_def]
  show "g = delta_candidate d a (sl_range (ct_selection s)) (concreteResolution s)" using v by (fold c_def) (simp split: if_splits)
  show "sn_cache a < dl_cache d" "dl_base d = sn_cache a" "sn_source a \<le> dl_source d" "0 < ct_revision s \<longrightarrow> dl_revision d = ct_revision s + 1"
    "0 < dl_revision d" "validateCostReport (dl_cost d)" using v by (simp_all add: positiveInteger_def split: if_splits)
  show "\<forall>t \<in> set (dl_tombstones d). t \<notin> bucketIdentityKey ` set (dl_buckets d)" using v by (auto simp: list_ex_iff split: if_splits)
  show "validateBuckets (sn_buckets g) (concreteResolution s) (cp_max (sc_capabilities cf)) True (sn_start g) (Some (sn_end g))"
    "validateNoData (sn_gaps g) None None" using v by (simp_all split: if_splits)
qed

lemma candidate_view:
  assumes "delta_verdict cf d a s = Advances g" "sn_range a = sl_range (ct_selection s)" "sn_resolution a = concreteResolution s"
  shows "view_ok cf (selectionSnapshotKey s) g"
  using delta_advances(7,9,10) [OF assms(1)] assms(2,3)
  by (simp add: view_ok_def selectionSnapshotKey_def) (simp add: delta_advances(1) [OF assms(1)] candidate_fields)

definition views_ok :: "stats_config \<Rightarrow> controller \<Rightarrow> bool" where
  "views_ok cf s =
     ((\<forall>g. ct_active s = Some g \<longrightarrow> view_ok cf (selectionSnapshotKey s) g)
      \<and> (\<forall>key g r. map_of (ct_snapshots s) key = Some (g, r) \<longrightarrow> view_ok cf key g))"

text \<open>Operations that show nothing new.\<close>

definition same_view :: "controller \<Rightarrow> controller \<Rightarrow> bool" where
  "same_view s t = (ct_active t = ct_active s \<and> ct_selection t = ct_selection s \<and> ct_snapshots t = ct_snapshots s
     \<and> ct_revision t = ct_revision s \<and> ct_serial t = ct_serial s \<and> ct_floors t = ct_floors s)"

lemma same_view_ok: "same_view s t \<Longrightarrow> views_ok cf t = views_ok cf s"
  by (simp add: same_view_def views_ok_def selectionSnapshotKey_def concreteResolution_def)

lemma same_view_refl [simp]: "same_view s s" by (simp add: same_view_def)

lemma same_view_trans [trans]: "same_view s t \<Longrightarrow> same_view t u \<Longrightarrow> same_view s u" by (simp add: same_view_def)

named_theorems same_view

lemma same_view_fields [same_view]:
  "same_view s t \<Longrightarrow> same_view s (t\<lparr>ct_running := b\<rparr>)" "same_view s t \<Longrightarrow> same_view s (t\<lparr>ct_stopped := b\<rparr>)"
  "same_view s t \<Longrightarrow> same_view s (t\<lparr>ct_visible := b\<rparr>)" "same_view s t \<Longrightarrow> same_view s (t\<lparr>ct_zoomed := b\<rparr>)"
  "same_view s t \<Longrightarrow> same_view s (t\<lparr>ct_tickTimer := n\<rparr>)" "same_view s t \<Longrightarrow> same_view s (t\<lparr>ct_tick := f\<rparr>)"
  "same_view s t \<Longrightarrow> same_view s (t\<lparr>ct_repairTimer := n\<rparr>)" "same_view s t \<Longrightarrow> same_view s (t\<lparr>ct_repair := f\<rparr>)"
  "same_view s t \<Longrightarrow> same_view s (t\<lparr>ct_repairNeeded := b\<rparr>)" "same_view s t \<Longrightarrow> same_view s (t\<lparr>ct_fullRepair := b\<rparr>)"
  "same_view s t \<Longrightarrow> same_view s (t\<lparr>ct_repairDelay := d\<rparr>)" "same_view s t \<Longrightarrow> same_view s (t\<lparr>ct_anchorMs := n\<rparr>)"
  "same_view s t \<Longrightarrow> same_view s (t\<lparr>ct_anchorEnd := n\<rparr>)" "same_view s t \<Longrightarrow> same_view s (t\<lparr>ct_windowEnd := n\<rparr>)"
  "same_view s t \<Longrightarrow> same_view s (t\<lparr>ct_zoom := z\<rparr>)" "same_view s t \<Longrightarrow> same_view s (t\<lparr>ct_advancedAt := n\<rparr>)"
  "same_view s t \<Longrightarrow> same_view s (t\<lparr>ct_latched := b\<rparr>)" "same_view s t \<Longrightarrow> same_view s (stats_call x t)"
  by (simp_all add: same_view_def stats_call_def)

lemma same_view_if [same_view]: "same_view s t \<Longrightarrow> same_view s u \<Longrightarrow> same_view s (if b then t else u)"
  by simp

lemma same_view_report [same_view]: "same_view s t \<Longrightarrow> same_view s (reportFailure x t)"
  unfolding reportFailure_def by (intro same_view)

lemma same_view_violation [same_view]: "same_view s t \<Longrightarrow> same_view s (reportContractViolation b t)"
  unfolding reportContractViolation_def by (intro same_view)

lemma same_view_stall [same_view]: "same_view s t \<Longrightarrow> same_view s (reportCadenceStall cf now t)"
  unfolding reportCadenceStall_def Let_def by (intro same_view)

lemma same_view_heartbeat [same_view]: "same_view s t \<Longrightarrow> same_view s (noteStreamHeartbeat now t)"
  unfolding noteStreamHeartbeat_def by (intro same_view)

lemma same_view_anchor [same_view]: "same_view s t \<Longrightarrow> same_view s (anchorPresentation cf now e t)"
  unfolding anchorPresentation_def Let_def by (intro same_view)

lemma same_view_update [same_view]: "same_view s t \<Longrightarrow> same_view s (updatePresentation cf now t)"
  by (auto simp: updatePresentation_def Let_def intro: same_view split: option.split)

lemma same_view_tick [same_view]: "same_view s t \<Longrightarrow> same_view s (scheduleTick cf now t)"
  unfolding scheduleTick_def Let_def by (intro same_view)

lemma same_view_repair [same_view]: "same_view s t \<Longrightarrow> same_view s (scheduleRepair now b t)"
  unfolding scheduleRepair_def Let_def by (intro same_view)

lemma same_view_clear [same_view]: "same_view s t \<Longrightarrow> same_view s (clearRepair cf t)"
  by (simp add: clearRepair_def same_view_def)

lemma same_view_resetTick [same_view]: "same_view s t \<Longrightarrow> same_view s (resetTickTimer cf now t)"
  unfolding resetTickTimer_def by (intro same_view)

lemma same_view_reset [same_view]: "same_view s t \<Longrightarrow> same_view s (resetSchedulers cf now t)"
  unfolding resetSchedulers_def Let_def by (intro same_view)

lemma same_view_reject [same_view]: "same_view s t \<Longrightarrow> same_view s (rejectDelta now p t)"
  unfolding rejectDelta_def by (intro same_view)

lemma same_view_ticks: "same_view s (tickFires cf now s)"
  unfolding tickFires_def Let_def by (intro same_view same_view_refl)

lemma same_view_repairs: "same_view s (repairFires cf now s)"
proof -
  have "same_view s (s\<lparr>ct_repairTimer := None, ct_repairNeeded := b, ct_repair := f\<rparr>)" for b f by (simp add: same_view_def)
  then show ?thesis unfolding repairFires_def Let_def by (intro same_view same_view_refl)
qed

lemma same_view_visible: "same_view s (setVisible cf now v s)"
proof -
  have "same_view s (s\<lparr>ct_visible := v, ct_advancedAt := n\<rparr>)" for n by (simp add: same_view_def)
  then have "same_view s (resetSchedulers cf now (s\<lparr>ct_visible := v, ct_advancedAt := n\<rparr>))" for n by (rule same_view_reset)
  then show ?thesis unfolding setVisible_def Let_def by (intro same_view_if same_view_repair)
qed

lemma same_view_zoomed: "same_view s (setZoomedStatic cf now v s)"
proof -
  define s1 where "s1 = (if v \<and> \<not> ct_zoomed s then s\<lparr>ct_zoomed := v, ct_zoom := map_option (\<lambda>f. (sf_start f, sf_end f)) (presentation (s\<lparr>ct_zoomed := v\<rparr>))\<rparr>
                else if \<not> v then s\<lparr>ct_zoomed := v, ct_zoom := None\<rparr> else s\<lparr>ct_zoomed := v\<rparr>)"
  have "same_view s s1" by (simp add: s1_def same_view_def)
  then have "same_view s (case ct_active s1 of Some g \<Rightarrow> if ct_zoomed s \<and> \<not> v then anchorPresentation cf now (sn_end g) s1 else s1 | None \<Rightarrow> s1)"
    by (auto intro: same_view split: option.split)
  then show ?thesis unfolding setZoomedStatic_def Let_def s1_def by (intro same_view) simp_all
qed

lemma same_view_window: "same_view s (fst (setZoomWindow cf now a b s))"
proof -
  have "same_view s (s\<lparr>ct_zoom := z, ct_zoomed := True\<rparr>)" "same_view s (s\<lparr>ct_zoom := z\<rparr>)" for z by (simp_all add: same_view_def)
  then show ?thesis by (auto simp: setZoomWindow_def Let_def intro: same_view split: option.split)
qed

lemma same_view_others:
  "same_view s (clearZoom cf now s)" "same_view s (handleReconnect now b s)" "same_view s (handleTransportFailure now s)"
  "same_view s (handleTransportRetirement now s)" "same_view s (stats_start cf now s)" "same_view s (stats_stop cf now s)"
proof -
  show "same_view s (clearZoom cf now s)" unfolding clearZoom_def Let_def by (intro same_view same_view_zoomed)
  have "same_view s (s\<lparr>ct_stopped := a, ct_running := b\<rparr>)" "same_view s (s\<lparr>ct_stopped := a, ct_running := b, ct_advancedAt := n\<rparr>)" for a b n
    by (simp_all add: same_view_def)
  then show "same_view s (handleReconnect now b s)" "same_view s (handleTransportFailure now s)"
    "same_view s (handleTransportRetirement now s)" "same_view s (stats_start cf now s)" "same_view s (stats_stop cf now s)"
    unfolding handleReconnect_def handleTransportFailure_def handleTransportRetirement_def stats_start_def stats_stop_def Let_def
    by (intro same_view same_view_refl; simp)+
qed

section \<open>Showing a generation\<close>

lemma publish_fields:
  "ct_active (stats_publish cf now g au d s) = Some g" "ct_selection (stats_publish cf now g au d s) = ct_selection s"
  "ct_snapshots (stats_publish cf now g au d s) = AList.update (selectionSnapshotKey s) (g, ct_revision s) (ct_snapshots s)"
  "ct_revision (stats_publish cf now g au d s) = ct_revision s" "ct_serial (stats_publish cf now g au d s) = ct_serial s"
  "ct_floors (stats_publish cf now g au d s) = AList.update (selectionSnapshotKey s) (max (floor_of s) (sn_source g)) (ct_floors s)"
  "ct_running (stats_publish cf now g au d s) = ct_running s" "ct_stopped (stats_publish cf now g au d s) = ct_stopped s"
  "ct_repair (stats_publish cf now g au d s) = ct_repair s" "ct_repairTimer (stats_publish cf now g au d s) = ct_repairTimer s"
  "ct_repairNeeded (stats_publish cf now g au d s) = ct_repairNeeded s" "ct_visible (stats_publish cf now g au d s) = ct_visible s"
  "ct_zoomed (stats_publish cf now g au d s) = ct_zoomed s"
  by (simp_all add: stats_publish_def Let_def stats_call_def anchorPresentation_def)

lemma publish_ok:
  assumes "views_ok cf s" "view_ok cf (selectionSnapshotKey s) g"
  shows "views_ok cf (stats_publish cf now g au d s)"
proof -
  have "selectionSnapshotKey (stats_publish cf now g au d s) = selectionSnapshotKey s"
    by (simp add: selectionSnapshotKey_def concreteResolution_def publish_fields)
  then show ?thesis using assms by (auto simp: views_ok_def publish_fields)
qed

lemma accept_same_selection: "acceptSnapshot cf now g s = Some (t, b) \<Longrightarrow> ct_selection t = ct_selection s"
  by (auto simp: acceptSnapshot_def Let_def clearRepair_def publish_fields split: if_splits option.splits)

lemma snapshot_ok:
  assumes "views_ok cf s" "acceptSnapshot cf now g s = Some (t, b)"
  shows "views_ok cf t"
proof -
  let ?p = "clearRepair cf (stats_publish cf now g True None (s\<lparr>ct_revision := 0\<rparr>))"
  have v: "validateSnapshot g (sl_range (ct_selection s)) (sl_resolution (ct_selection s)) (concreteResolution s) (cp_max (sc_capabilities cf))"
    and t: "t = ?p \<or> t = s"
    using assms(2) by (auto simp: acceptSnapshot_def Let_def split: if_splits option.splits)
  have "views_ok cf (s\<lparr>ct_revision := 0\<rparr>)" "selectionSnapshotKey (s\<lparr>ct_revision := 0\<rparr>) = selectionSnapshotKey s"
    using assms(1) by (simp_all add: views_ok_def selectionSnapshotKey_def concreteResolution_def)
  then have "views_ok cf (stats_publish cf now g True None (s\<lparr>ct_revision := 0\<rparr>))"
    using publish_ok snapshot_view [OF v] by (simp add: selectionSnapshotKey_def)
  then have "views_ok cf ?p" using same_view_ok [OF same_view_clear [OF same_view_refl]] by blast
  then show ?thesis using t assms(1) by auto
qed

lemma delta_ok:
  assumes "views_ok cf s" shows "views_ok cf (acceptDelta cf now payload s)"
proof (cases "\<exists>a d g. ct_visible s \<and> ct_active s = Some a \<and> payload = Some d \<and> delta_verdict cf d a s = Advances g")
  case False
  have "same_view s (acceptDelta cf now payload s)"
    using False by (auto simp: acceptDelta_def intro: same_view split: option.splits delta_outcome.splits)
  then show ?thesis using assms same_view_ok by blast
next
  case True
  then obtain a d g where h: "ct_visible s" "ct_active s = Some a" "payload = Some d" "delta_verdict cf d a s = Advances g" by blast
  let ?s = "s\<lparr>ct_revision := dl_revision d\<rparr>"
  have "view_ok cf (selectionSnapshotKey s) a" using assms h(2) by (simp add: views_ok_def)
  then have "view_ok cf (selectionSnapshotKey s) g"
    using candidate_view [OF h(4)] by (simp add: view_ok_def selectionSnapshotKey_def)
  moreover have "views_ok cf ?s" "selectionSnapshotKey ?s = selectionSnapshotKey s"
    using assms by (simp_all add: views_ok_def selectionSnapshotKey_def concreteResolution_def)
  ultimately have p: "views_ok cf (stats_publish cf now g False (Some d) ?s)" using publish_ok by simp
  have "same_view x (clearRepair cf (stats_call OnPushProof (x\<lparr>ct_latched := False\<rparr>)))" for x by (intro same_view same_view_refl)
  then have "views_ok cf (clearRepair cf (stats_call OnPushProof ((stats_publish cf now g False (Some d) ?s)\<lparr>ct_latched := False\<rparr>)))"
    using p same_view_ok by blast
  then show ?thesis using h by (simp add: acceptDelta_def)
qed

text \<open>An answered tick or repair shows a snapshot it accepts, or nothing new.\<close>

lemma tick_cases:
  obtains "same_view s (tickAnswered cf now ans s)"
  | g t b where "acceptSnapshot cf now g s = Some (t, b)" "same_view t (tickAnswered cf now ans s)"
proof (cases "\<exists>f g t b. ct_tick s = Some f \<and> ans = Answered g \<and> requestMatches f s \<and> ct_running s \<and> ct_visible s \<and> \<not> ct_zoomed s
    \<and> acceptSnapshot cf now g s = Some (t, b)")
  case True
  then obtain f g t b where h: "ct_tick s = Some f" "ans = Answered g" "requestMatches f s \<and> ct_running s \<and> ct_visible s \<and> \<not> ct_zoomed s"
    "acceptSnapshot cf now g s = Some (t, b)" by blast
  have "tickAnswered cf now ans s = scheduleTick cf now (t\<lparr>ct_tick := None\<rparr>)" using h by (simp add: tickAnswered_def Let_def)
  moreover have "same_view t (scheduleTick cf now (t\<lparr>ct_tick := None\<rparr>))" by (intro same_view same_view_refl)
  ultimately show ?thesis using that(2) h(4) by simp
next
  case False
  have "same_view s (tickAnswered cf now ans s)"
  proof (cases "ct_tick s")
    case (Some f)
    show ?thesis
    proof (cases ans)
      case (Answered g)
      then show ?thesis using False Some
        by (auto simp: tickAnswered_def Let_def intro!: same_view_tick same_view_fields same_view_repair split: option.split)
    next
      case (Fails p v)
      then show ?thesis using Some
        by (simp add: tickAnswered_def Let_def same_view_tick same_view_fields same_view_repair same_view_violation)
    qed (use Some in \<open>simp_all add: tickAnswered_def Let_def same_view_tick same_view_fields same_view_repair same_view_violation\<close>)
  qed (simp add: tickAnswered_def)
  then show ?thesis by (rule that(1))
qed

lemma repair_cases:
  obtains "same_view s (statsRepairAnswered cf now ans s)"
  | g t b where "acceptSnapshot cf now g s = Some (t, b)" "same_view t (statsRepairAnswered cf now ans s)"
proof (cases "ct_repair s")
  case None
  then show ?thesis using that(1) by (simp add: statsRepairAnswered_def)
next
  case (Some f)
  obtain u ok pending where u: "repairBody cf now f ans s = (u, ok, pending)" by (cases "repairBody cf now f ans s") auto
  have r: "same_view u (statsRepairAnswered cf now ans s)"
    using Some u by (simp add: statsRepairAnswered_def Let_def) (auto intro!: same_view_fields same_view_repair)
  have call: "same_view t (stats_call x t)" for x t by (intro same_view same_view_refl)
  have "same_view s u \<or> (\<exists>g t b. acceptSnapshot cf now g s = Some (t, b) \<and> same_view t u)"
  proof (cases ans)
    case (Answered g)
    show ?thesis
    proof (cases "acceptSnapshot cf now g s")
      case None
      then show ?thesis using u Answered by (auto simp: repairBody_def Let_def split: if_splits)
    next
      case (Some r)
      obtain t b where tb: "r = (t, b)" by (rule prod.exhaust)
      have "u = s \<or> u = stats_call (OnRepairComplete (ct_active t)) t"
        using u Answered Some tb by (simp add: repairBody_def Let_def split: if_splits)
      then show ?thesis using call Some tb same_view_refl by blast
    qed
  qed (use u in \<open>auto simp: repairBody_def Let_def intro: call same_view_violation split: if_splits\<close>)
  then show ?thesis using that r same_view_trans by blast
qed

lemma select_cases:
  obtains "same_view s (stats_select cf now rng res s)"
  | s1 g where "map_of (ct_snapshots s) (selectionSnapshotKey s1) = Some (g, ct_revision s1)" "ct_snapshots s1 = ct_snapshots s"
      "ct_serial s1 = Suc (ct_serial s)" "ct_floors s1 = ct_floors s"
      "stats_select cf now rng res s = scheduleTick cf now (stats_publish cf now (g\<lparr>sn_requested := sl_resolution (ct_selection s1)\<rparr>) True None s1)"
  | "ct_active (stats_select cf now rng res s) = None" "ct_snapshots (stats_select cf now rng res s) = ct_snapshots s"
      "ct_serial (stats_select cf now rng res s) = Suc (ct_serial s)"
      "map_of (ct_snapshots s) (selectionSnapshotKey (stats_select cf now rng res s)) = None"
proof -
  define nx where "nx = normalizeSelection (sc_capabilities cf) rng res"
  define s1 where "s1 = (clearRepair cf (s\<lparr>ct_selection := nx, ct_serial := Suc (ct_serial s), ct_anchorMs := None, ct_anchorEnd := None,
                       ct_windowEnd := None, ct_zoom := None\<rparr>))\<lparr>ct_tickTimer := None\<rparr>"
  have s1: "ct_snapshots s1 = ct_snapshots s" "ct_serial s1 = Suc (ct_serial s)" "ct_floors s1 = ct_floors s" "ct_selection s1 = nx"
    by (simp_all add: s1_def clearRepair_def)
  consider "\<not> list_ex (\<lambda>r. Some (cp_range r) = rng) (cp_ranges (sc_capabilities cf))"
    | "list_ex (\<lambda>r. Some (cp_range r) = rng) (cp_ranges (sc_capabilities cf))"
      "sl_range nx = sl_range (ct_selection s) \<and> sl_resolution nx = sl_resolution (ct_selection s)"
    | g r where "list_ex (\<lambda>r. Some (cp_range r) = rng) (cp_ranges (sc_capabilities cf))"
      "\<not> (sl_range nx = sl_range (ct_selection s) \<and> sl_resolution nx = sl_resolution (ct_selection s))"
      "map_of (ct_snapshots s1) (selectionSnapshotKey s1) = Some (g, r)"
    | "list_ex (\<lambda>r. Some (cp_range r) = rng) (cp_ranges (sc_capabilities cf))"
      "\<not> (sl_range nx = sl_range (ct_selection s) \<and> sl_resolution nx = sl_resolution (ct_selection s))"
      "map_of (ct_snapshots s1) (selectionSnapshotKey s1) = None"
    by (cases "map_of (ct_snapshots s1) (selectionSnapshotKey s1)") auto
  then show ?thesis
  proof cases
    case 1
    then have "stats_select cf now rng res s = reportFailure UnservedRange s" by (simp add: stats_select_def Let_def)
    then show ?thesis using that(1) by (simp add: same_view_report)
  next
    case 2
    then have "stats_select cf now rng res s = s" by (simp add: stats_select_def Let_def nx_def)
    then show ?thesis using that(1) by simp
  next
    case (3 g r)
    let ?s2 = "s1\<lparr>ct_revision := r, ct_zoomed := False\<rparr>"
    have "stats_select cf now rng res s = scheduleTick cf now (stats_publish cf now (g\<lparr>sn_requested := sl_resolution nx\<rparr>) True None ?s2)"
      using 3(1,3) if_not_P [OF 3(2)] by (simp only: stats_select_def Let_def nx_def [symmetric] s1_def [symmetric] not_not if_not_P [OF 3(2)]) simp
    moreover have "selectionSnapshotKey ?s2 = selectionSnapshotKey s1" by (simp add: selectionSnapshotKey_def concreteResolution_def)
    ultimately show ?thesis using that(2) [of ?s2 g] 3(3) s1 by simp
  next
    case 4
    let ?s2 = "s1\<lparr>ct_active := None, ct_zoomed := False, ct_revision := 0, ct_advancedAt := Some now\<rparr>"
    have r: "stats_select cf now rng res s = scheduleRepair now True (scheduleTick cf now ?s2)"
      using 4(1,3) by (simp only: stats_select_def Let_def nx_def [symmetric] s1_def [symmetric] not_not if_not_P [OF 4(2)]) simp
    have v: "same_view ?s2 (stats_select cf now rng res s)" unfolding r by (intro same_view same_view_refl)
    then have "selectionSnapshotKey (stats_select cf now rng res s) = selectionSnapshotKey s1"
      by (simp add: same_view_def selectionSnapshotKey_def concreteResolution_def)
    then show ?thesis using that(3) s1 v 4(3) by (simp add: same_view_def)
  qed
qed

lemma selected_ok:
  assumes "views_ok cf s" shows "views_ok cf (stats_select cf now rng res s)"
proof (rule select_cases [of s cf now rng res])
  assume "same_view s (stats_select cf now rng res s)"
  then show ?thesis using assms same_view_ok by blast
next
  fix s1 g
  assume h: "map_of (ct_snapshots s) (selectionSnapshotKey s1) = Some (g, ct_revision s1)" "ct_snapshots s1 = ct_snapshots s"
    "stats_select cf now rng res s = scheduleTick cf now (stats_publish cf now (g\<lparr>sn_requested := sl_resolution (ct_selection s1)\<rparr>) True None s1)"
  let ?g = "g\<lparr>sn_requested := sl_resolution (ct_selection s1)\<rparr>"
  have "view_ok cf (selectionSnapshotKey s1) g" using assms h(1) unfolding views_ok_def by blast
  then have g: "view_ok cf (selectionSnapshotKey s1) ?g" by (simp add: view_ok_def)
  have "selectionSnapshotKey (stats_publish cf now ?g True None s1) = selectionSnapshotKey s1"
    by (simp add: selectionSnapshotKey_def concreteResolution_def publish_fields)
  then have "views_ok cf (stats_publish cf now ?g True None s1)" using g assms h(2) by (auto simp: views_ok_def publish_fields)
  then show ?thesis using h(3) same_view_ok [OF same_view_tick [OF same_view_refl]] by simp
next
  assume h: "ct_active (stats_select cf now rng res s) = None" "ct_snapshots (stats_select cf now rng res s) = ct_snapshots s"
  then show ?thesis using assms by (simp add: views_ok_def)
qed

lemma views_ok_event:
  assumes "views_ok cf s" shows "views_ok cf (stats_do cf now ev s)"
proof (cases ev)
  case (TickAnswered ans)
  show ?thesis
  proof (rule tick_cases [of s cf now ans])
    assume "same_view s (tickAnswered cf now ans s)"
    then show ?thesis using TickAnswered assms same_view_ok by simp
  next
    fix g t b assume "acceptSnapshot cf now g s = Some (t, b)" "same_view t (tickAnswered cf now ans s)"
    then show ?thesis using TickAnswered snapshot_ok [OF assms] same_view_ok by simp
  qed
next
  case (RepairAnswered ans)
  show ?thesis
  proof (rule repair_cases [of s cf now ans])
    assume "same_view s (statsRepairAnswered cf now ans s)"
    then show ?thesis using RepairAnswered assms same_view_ok by simp
  next
    fix g t b assume "acceptSnapshot cf now g s = Some (t, b)" "same_view t (statsRepairAnswered cf now ans s)"
    then show ?thesis using RepairAnswered snapshot_ok [OF assms] same_view_ok by simp
  qed
next
  case TickFires
  then show ?thesis using assms same_view_ok [OF same_view_ticks] by simp
next
  case RepairFires
  then show ?thesis using assms same_view_ok [OF same_view_repairs] by simp
next
  case (Visible v)
  then show ?thesis using assms same_view_ok [OF same_view_visible] by simp
next
  case (Zoomed v)
  then show ?thesis using assms same_view_ok [OF same_view_zoomed] by simp
next
  case (ZoomWindow a b)
  then show ?thesis using assms same_view_ok [OF same_view_window] by simp
next
  case Heartbeat
  then show ?thesis using assms same_view_ok [OF same_view_heartbeat [OF same_view_refl]] by simp
qed (use assms delta_ok selected_ok same_view_ok [OF same_view_others(1)] same_view_ok [OF same_view_others(2)]
    same_view_ok [OF same_view_others(3)] same_view_ok [OF same_view_others(4)] same_view_ok [OF same_view_others(5)]
    same_view_ok [OF same_view_others(6)] in simp_all)

lemma views_ok_init: "createController cf a b = Some s \<Longrightarrow> views_ok cf s"
  by (auto simp: createController_def views_ok_def split: if_splits)

end
