(* ===== verification/Stats_Loading.thy ===== *)
theory Stats_Loading
  imports Stats_Invariants
begin

text \<open>
  Two more invariants of the statistics controller: a view without data has its fetch under way or due, and
  the generations remembered for the selections only advance.
\<close>

section \<open>An empty view is being loaded\<close>

definition loading :: "controller \<Rightarrow> bool" where
  "loading s =
     (ct_running s \<longrightarrow> \<not> ct_stopped s \<and>
        (ct_active s = None \<longrightarrow> ct_repair s \<noteq> None
           \<or> ct_repairNeeded s \<and> (ct_visible s \<and> \<not> ct_zoomed s \<longrightarrow> ct_repairTimer s \<noteq> None)))"

definition awake :: "controller \<Rightarrow> bool" where "awake s = (ct_running s \<longrightarrow> \<not> ct_stopped s)"

lemma loading_awake: "loading s \<Longrightarrow> awake s" by (simp add: loading_def awake_def)

lemma loading_active: "awake s \<Longrightarrow> ct_active s \<noteq> None \<Longrightarrow> loading s" by (auto simp: loading_def awake_def)

lemma loading_repair: "awake s \<Longrightarrow> loading (scheduleRepair now b s)"
  by (auto simp: loading_def awake_def scheduleRepair_def Let_def stats_call_def)

text \<open>Fields an operation leaves alone, as the invariant needs them.\<close>

definition same_duty :: "controller \<Rightarrow> controller \<Rightarrow> bool" where
  "same_duty s t =
     (ct_running t = ct_running s \<and> ct_stopped t = ct_stopped s \<and> ct_active t = ct_active s \<and> ct_repair t = ct_repair s
      \<and> ct_repairNeeded t = ct_repairNeeded s \<and> ct_visible t = ct_visible s \<and> ct_zoomed t = ct_zoomed s \<and> ct_repairTimer t = ct_repairTimer s)"

lemma same_duty_loading: "same_duty s t \<Longrightarrow> loading t = loading s" by (simp add: same_duty_def loading_def)

lemma same_duty_awake: "same_duty s t \<Longrightarrow> awake t = awake s" by (simp add: same_duty_def awake_def)

lemma same_duty_refl [simp]: "same_duty s s" by (simp add: same_duty_def)

named_theorems duty

lemma duty_fields [duty]:
  "same_duty s t \<Longrightarrow> same_duty s (t\<lparr>ct_tickTimer := n\<rparr>)" "same_duty s t \<Longrightarrow> same_duty s (t\<lparr>ct_tick := f\<rparr>)"
  "same_duty s t \<Longrightarrow> same_duty s (t\<lparr>ct_fullRepair := b\<rparr>)" "same_duty s t \<Longrightarrow> same_duty s (t\<lparr>ct_repairDelay := d\<rparr>)"
  "same_duty s t \<Longrightarrow> same_duty s (t\<lparr>ct_windowEnd := n\<rparr>)" "same_duty s t \<Longrightarrow> same_duty s (t\<lparr>ct_zoom := z\<rparr>)"
  "same_duty s t \<Longrightarrow> same_duty s (t\<lparr>ct_advancedAt := n\<rparr>)" "same_duty s t \<Longrightarrow> same_duty s (t\<lparr>ct_latched := b\<rparr>)"
  "same_duty s t \<Longrightarrow> same_duty s (t\<lparr>ct_revision := r\<rparr>)" "same_duty s t \<Longrightarrow> same_duty s (stats_call x t)"
  by (simp_all add: same_duty_def stats_call_def)

lemma duty_if [duty]: "same_duty s t \<Longrightarrow> same_duty s u \<Longrightarrow> same_duty s (if b then t else u)"
  by simp

lemma duty_report [duty]: "same_duty s t \<Longrightarrow> same_duty s (reportFailure x t)"
  unfolding reportFailure_def by (intro duty)

lemma duty_violation [duty]: "same_duty s t \<Longrightarrow> same_duty s (reportContractViolation b t)"
  unfolding reportContractViolation_def by (intro duty)

lemma duty_stall [duty]: "same_duty s t \<Longrightarrow> same_duty s (reportCadenceStall cf now t)"
  unfolding reportCadenceStall_def Let_def by (intro duty)

lemma duty_heartbeat [duty]: "same_duty s t \<Longrightarrow> same_duty s (noteStreamHeartbeat now t)"
  unfolding noteStreamHeartbeat_def by (intro duty)

lemma duty_anchor [duty]: "same_duty s t \<Longrightarrow> same_duty s (anchorPresentation cf now e t)"
  by (simp add: anchorPresentation_def Let_def same_duty_def)

lemma duty_update [duty]: "same_duty s t \<Longrightarrow> same_duty s (updatePresentation cf now t)"
  by (auto simp: updatePresentation_def Let_def intro: duty split: option.split)

lemma duty_tick [duty]: "same_duty s t \<Longrightarrow> same_duty s (scheduleTick cf now t)"
  unfolding scheduleTick_def Let_def by (intro duty)

lemma duty_resetTick [duty]: "same_duty s t \<Longrightarrow> same_duty s (resetTickTimer cf now t)"
  unfolding resetTickTimer_def by (intro duty)

lemma awake_fields [simp]:
  "awake (t\<lparr>ct_active := g\<rparr>) = awake t" "awake (t\<lparr>ct_visible := b\<rparr>) = awake t" "awake (t\<lparr>ct_zoomed := b\<rparr>) = awake t"
  "awake (t\<lparr>ct_tickTimer := n\<rparr>) = awake t" "awake (t\<lparr>ct_tick := f\<rparr>) = awake t" "awake (t\<lparr>ct_repairTimer := n\<rparr>) = awake t"
  "awake (t\<lparr>ct_repair := f\<rparr>) = awake t" "awake (t\<lparr>ct_repairNeeded := b\<rparr>) = awake t" "awake (t\<lparr>ct_fullRepair := b\<rparr>) = awake t"
  "awake (t\<lparr>ct_repairDelay := i\<rparr>) = awake t" "awake (t\<lparr>ct_zoom := z\<rparr>) = awake t" "awake (t\<lparr>ct_revision := i\<rparr>) = awake t"
  "awake (t\<lparr>ct_advancedAt := n\<rparr>) = awake t" "awake (t\<lparr>ct_latched := b\<rparr>) = awake t" "awake (t\<lparr>ct_selection := l\<rparr>) = awake t"
  "awake (t\<lparr>ct_serial := k\<rparr>) = awake t" "awake (t\<lparr>ct_anchorMs := n\<rparr>) = awake t" "awake (t\<lparr>ct_anchorEnd := n\<rparr>) = awake t"
  "awake (t\<lparr>ct_windowEnd := n\<rparr>) = awake t"
  by (simp_all add: awake_def)

lemma awake_operations [simp]:
  "awake (stats_call x t) = awake t" "awake (reportFailure y t) = awake t" "awake (reportContractViolation b t) = awake t"
  "awake (anchorPresentation cf now e t) = awake t" "awake (scheduleTick cf now t) = awake t" "awake (resetTickTimer cf now t) = awake t"
  "awake (clearRepair cf t) = awake t" "awake (stats_publish cf now g au d t) = awake t"
  by ((rule same_duty_awake, intro duty same_duty_refl; fail)+, simp_all add: awake_def clearRepair_def publish_fields)

lemma active_operations [simp]:
  "ct_active (stats_call x t) = ct_active t" "ct_active (scheduleTick cf now t) = ct_active t" "ct_active (clearRepair cf t) = ct_active t"
  "ct_active (stats_publish cf now g au d t) = Some g"
  by (simp_all add: stats_call_def scheduleTick_def Let_def clearRepair_def publish_fields)

lemma loading_same:
  "loading (stats_call x t) = loading t" "loading (reportFailure y t) = loading t" "loading (scheduleTick cf now t) = loading t"
  "loading (t\<lparr>ct_zoom := z\<rparr>) = loading t" "loading (t\<lparr>ct_tick := f\<rparr>) = loading t" "loading (noteStreamHeartbeat now t) = loading t"
  by (rule same_duty_loading, intro duty same_duty_refl)+

lemma loading_reset:
  assumes "awake s" "ct_active s = None \<Longrightarrow> ct_running s \<Longrightarrow> ct_repair s \<noteq> None \<or> ct_repairNeeded s"
  shows "loading (resetSchedulers cf now s)"
proof -
  define u where "u = resetTickTimer cf now (s\<lparr>ct_repairTimer := None\<rparr>)"
  have d: "same_duty (s\<lparr>ct_repairTimer := None\<rparr>) u" unfolding u_def by (intro duty same_duty_refl)
  have r: "resetSchedulers cf now s = (if ct_repairNeeded u then scheduleRepair now False u else u)"
    by (simp add: resetSchedulers_def Let_def u_def)
  have "awake u" using d assms(1) by (simp add: same_duty_def awake_def)
  moreover have "loading u" if "\<not> ct_repairNeeded u"
    using that d assms by (auto simp: same_duty_def awake_def loading_def)
  ultimately show ?thesis unfolding r by (simp add: loading_repair)
qed

lemma loading_due: "loading s \<Longrightarrow> ct_active s = None \<Longrightarrow> ct_running s \<Longrightarrow> ct_repair s \<noteq> None \<or> ct_repairNeeded s"
  by (auto simp: loading_def)

lemma awake_repair [simp]: "awake (scheduleRepair now b s) = awake s"
  by (simp add: scheduleRepair_def Let_def)

lemma awake_resetSchedulers [simp]: "awake (resetSchedulers cf now s) = awake s"
  by (simp add: resetSchedulers_def Let_def)

lemma accept_keeps_awake: "acceptSnapshot cf now g s = Some (t, b) \<Longrightarrow> ct_active t \<noteq> None \<and> awake t = awake s"
  by (auto simp: acceptSnapshot_def Let_def split: if_splits option.splits)

lemma loading_accept: "awake s \<Longrightarrow> acceptSnapshot cf now g s = Some (t, b) \<Longrightarrow> loading t"
  using accept_keeps_awake loading_active by blast

lemma loading_delta:
  assumes "loading s" shows "loading (acceptDelta cf now payload s)"
proof (cases "ct_visible s")
  case False
  then show ?thesis using assms by (auto simp: acceptDelta_def loading_def)
next
  case True
  have a: "awake s" using assms by (rule loading_awake)
  then have "loading (rejectDelta now p s)" for p unfolding rejectDelta_def by (intro loading_repair) simp
  moreover have "loading (clearRepair cf (stats_call OnPushProof ((stats_publish cf now g False (Some d) (s\<lparr>ct_revision := r\<rparr>))\<lparr>ct_latched := False\<rparr>)))" for g d r
    using a by (intro loading_active) (simp_all add: publish_fields)
  ultimately show ?thesis using True assms loading_repair [OF a]
    by (simp add: acceptDelta_def split: option.split delta_outcome.split)
qed

lemma loading_answered: "loading s \<Longrightarrow> loading (tickAnswered cf now ans s)"
proof -
  assume l: "loading s"
  then have a: "awake s" by (rule loading_awake)
  have v: "loading (scheduleRepair now False (reportContractViolation b s))" for b using a by (intro loading_repair) simp
  show ?thesis
    using l v loading_repair [OF a] loading_accept [OF a]
    by (cases ans) (auto simp: tickAnswered_def Let_def loading_same split: option.split)
qed

lemma loading_fires:
  assumes "loading s" shows "loading (tickFires cf now s)" "loading (repairFires cf now s)"
proof -
  have "same_duty s (tickFires cf now s)" unfolding tickFires_def Let_def by (intro duty same_duty_refl)
  then show "loading (tickFires cf now s)" using assms same_duty_loading by blast
  have "awake (s\<lparr>ct_repairTimer := None\<rparr>)" using assms by (simp add: loading_def awake_def)
  then show "loading (repairFires cf now s)"
    using assms loading_repair by (auto simp: repairFires_def Let_def loading_def)
qed

lemma body_keeps:
  assumes "awake s" "repairBody cf now f ans s = (u, ok, pending)"
  shows "awake u \<and> (ok \<longrightarrow> ct_active u \<noteq> None)"
proof (cases ans)
  case (Answered g)
  then show ?thesis using assms
    by (cases "acceptSnapshot cf now g s") (auto simp: repairBody_def Let_def dest: accept_keeps_awake split: if_splits)
qed (use assms in \<open>auto simp: repairBody_def Let_def split: if_splits\<close>)

lemma loading_repaired: "loading s \<Longrightarrow> loading (statsRepairAnswered cf now ans s)"
proof (cases "ct_repair s")
  case (Some f)
  assume l: "loading s"
  obtain u ok pending where b: "repairBody cf now f ans s = (u, ok, pending)" by (cases "repairBody cf now f ans s") auto
  note k = body_keeps [OF loading_awake [OF l] b]
  have w: "loading (scheduleRepair now b (u\<lparr>ct_repair := None, ct_repairDelay := d\<rparr>))" for b d using k by (intro loading_repair) simp
  show ?thesis
  proof (cases ok)
    case True
    then have "loading (u\<lparr>ct_repair := None, ct_repairDelay := sc_repairBase cf\<rparr>)" using k by (intro loading_active) simp_all
    then show ?thesis using Some b True by (simp add: statsRepairAnswered_def Let_def)
  next
    case False
    then show ?thesis using Some b w by (simp add: statsRepairAnswered_def Let_def)
  qed
qed (simp add: statsRepairAnswered_def)

lemma loading_select:
  assumes "loading s" shows "loading (stats_select cf now rng res s)"
proof -
  define nx where "nx = normalizeSelection (sc_capabilities cf) rng res"
  define s1 where "s1 = (clearRepair cf (s\<lparr>ct_selection := nx, ct_serial := Suc (ct_serial s), ct_anchorMs := None, ct_anchorEnd := None,
                       ct_windowEnd := None, ct_zoom := None\<rparr>))\<lparr>ct_tickTimer := None\<rparr>"
  have a: "awake s1" using loading_awake [OF assms] by (simp add: s1_def)
  have shown: "loading (scheduleTick cf now (stats_publish cf now g True None (s1\<lparr>ct_revision := r, ct_zoomed := False\<rparr>)))" for g r
    using a by (intro loading_active) simp_all
  have blank: "loading (scheduleRepair now True (scheduleTick cf now (s1\<lparr>ct_active := None, ct_zoomed := False, ct_revision := 0, ct_advancedAt := Some now\<rparr>)))"
    using a by (intro loading_repair) simp
  show ?thesis using assms shown blank
    by (simp add: stats_select_def Let_def loading_same nx_def [symmetric] s1_def [symmetric] split: option.split)
qed

lemma loading_visible:
  assumes "loading s" shows "loading (setVisible cf now v s)"
proof -
  have a: "awake s" using assms by (rule loading_awake)
  then have "loading (resetSchedulers cf now (s\<lparr>ct_visible := v, ct_advancedAt := n\<rparr>))" for n
    by (intro loading_reset) (use loading_due [OF assms] in auto)
  moreover have "loading (scheduleRepair now True (resetSchedulers cf now (s\<lparr>ct_visible := v, ct_advancedAt := n\<rparr>)))" for n
    using a by (intro loading_repair) simp
  moreover obtain n where "setVisible cf now v s =
      (if v \<and> \<not> ct_visible s then scheduleRepair now True (resetSchedulers cf now (s\<lparr>ct_visible := v, ct_advancedAt := n\<rparr>))
       else resetSchedulers cf now (s\<lparr>ct_visible := v, ct_advancedAt := n\<rparr>))"
    unfolding setVisible_def Let_def by blast
  ultimately show ?thesis by (metis (full_types))
qed

lemma loading_zoomed:
  assumes "loading s" shows "loading (setZoomedStatic cf now v s)"
proof -
  define s1 where "s1 = (if v \<and> \<not> ct_zoomed s then s\<lparr>ct_zoomed := v, ct_zoom := map_option (\<lambda>f. (sf_start f, sf_end f)) (presentation (s\<lparr>ct_zoomed := v\<rparr>))\<rparr>
                else if \<not> v then s\<lparr>ct_zoomed := v, ct_zoom := None\<rparr> else s\<lparr>ct_zoomed := v\<rparr>)"
  define s2 where "s2 = (case ct_active s1 of Some g \<Rightarrow> if ct_zoomed s \<and> \<not> v then anchorPresentation cf now (sn_end g) s1 else s1 | None \<Rightarrow> s1)"
  have 1: "awake s1" "ct_active s1 = ct_active s" "ct_running s1 = ct_running s" "ct_repair s1 = ct_repair s" "ct_repairNeeded s1 = ct_repairNeeded s"
    using assms by (auto simp: s1_def loading_def awake_def)
  have "same_duty s1 s2" by (auto simp: s2_def intro: duty split: option.split)
  then have 2: "awake s2" "ct_active s2 = ct_active s" "ct_running s2 = ct_running s" "ct_repair s2 = ct_repair s" "ct_repairNeeded s2 = ct_repairNeeded s"
    using 1 by (simp_all add: same_duty_def awake_def)
  then have "loading (resetSchedulers cf now s2)"
    by (intro loading_reset) (use loading_due [OF assms] in auto)
  moreover have "setZoomedStatic cf now v s =
      (if \<not> v \<and> ct_repairNeeded (resetSchedulers cf now s2) then scheduleRepair now True (resetSchedulers cf now s2) else resetSchedulers cf now s2)"
    by (simp add: setZoomedStatic_def Let_def s1_def s2_def cong: if_cong option.case_cong)
  ultimately show ?thesis using 2(1) by (simp add: loading_repair)
qed

lemma loading_others:
  assumes "loading s"
  shows "loading (fst (setZoomWindow cf now a b s))" "loading (clearZoom cf now s)" "loading (handleReconnect now full s)"
    "loading (handleTransportFailure now s)" "loading (handleTransportRetirement now s)" "loading (stats_start cf now s)" "loading (stats_stop cf now s)"
    "loading (noteStreamHeartbeat now s)"
proof -
  have w: "awake s" using assms by (rule loading_awake)
  then have "loading (resetSchedulers cf now (s\<lparr>ct_zoom := z, ct_zoomed := True\<rparr>))" for z
    by (intro loading_reset) (use loading_due [OF assms] in auto)
  then show "loading (fst (setZoomWindow cf now a b s))"
    using assms by (simp add: setZoomWindow_def Let_def loading_same split: option.split)
  show "loading (clearZoom cf now s)" by (simp add: clearZoom_def Let_def loading_same loading_zoomed assms)
  show "loading (handleReconnect now full s)" "loading (handleTransportFailure now s)" "loading (handleTransportRetirement now s)"
    unfolding handleTransportFailure_def handleTransportRetirement_def handleReconnect_def using w by (simp_all add: loading_repair)
  show "loading (noteStreamHeartbeat now s)" using assms by (simp add: loading_same)
  have b: "awake (s\<lparr>ct_stopped := False, ct_running := True, ct_advancedAt := n\<rparr>)" for n by (simp add: awake_def)
  show "loading (stats_start cf now s)"
  proof (cases "ct_running s")
    case False
    define u where "u = scheduleTick cf now (s\<lparr>ct_stopped := False, ct_running := True,
                   ct_advancedAt := (case ct_advancedAt s of Some t \<Rightarrow> Some t | None \<Rightarrow> Some now)\<rparr>)"
    have "awake u" using b by (simp add: u_def)
    moreover have "stats_start cf now s = (if ct_active u = None then scheduleRepair now True u else u)"
      using False by (simp add: stats_start_def Let_def u_def)
    ultimately show ?thesis by (simp add: loading_repair loading_active)
  qed (use assms in \<open>simp add: stats_start_def\<close>)
  have "ct_running (resetTickTimer cf now t) = ct_running t" for t
    using duty_resetTick [of t t cf now] by (simp add: same_duty_def)
  then show "loading (stats_stop cf now s)" by (simp add: stats_stop_def loading_def clearRepair_def)
qed

lemma loading_event: "loading s \<Longrightarrow> loading (stats_do cf now ev s)"
  by (cases ev) (simp_all add: loading_fires loading_answered loading_repaired loading_delta loading_select loading_visible loading_zoomed loading_others)

lemma loading_init: "createController cf a b = Some s \<Longrightarrow> loading s"
  by (auto simp: createController_def loading_def split: if_splits)

section \<open>Remembered generations\<close>

text \<open>The generation shown is the one remembered for its selection.\<close>

definition remembers :: "controller \<Rightarrow> bool" where
  "remembers s =
     (case ct_active s of
        None \<Rightarrow> map_of (ct_snapshots s) (selectionSnapshotKey s) = None
      | Some g \<Rightarrow> \<exists>h. map_of (ct_snapshots s) (selectionSnapshotKey s) = Some (h, ct_revision s) \<and> sn_cache h = sn_cache g)"

text \<open>The newest cache generation accepted for a range and a resolution.\<close>

definition newest :: "controller \<Rightarrow> int \<times> int \<Rightarrow> int option" where
  "newest s key = map_option (\<lambda>v. sn_cache (fst v)) (map_of (ct_snapshots s) key)"

definition advanced :: "controller \<Rightarrow> controller \<Rightarrow> bool" where
  "advanced s t = (\<forall>key n. newest s key = Some n \<longrightarrow> (\<exists>m. newest t key = Some m \<and> n \<le> m))"

lemma advanced_refl [simp]: "advanced s s" by (simp add: advanced_def)

lemma advanced_trans: "advanced s t \<Longrightarrow> advanced t u \<Longrightarrow> advanced s u"
  by (meson advanced_def order_trans)

lemma newest_same: "ct_snapshots t = ct_snapshots s \<Longrightarrow> newest t = newest s"
  by (simp add: newest_def fun_eq_iff)

lemma advanced_same: "newest t = newest s \<Longrightarrow> advanced s t"
  by (auto simp: advanced_def)

lemma key_same: "ct_selection t = ct_selection s \<Longrightarrow> selectionSnapshotKey t = selectionSnapshotKey s"
  by (simp add: selectionSnapshotKey_def concreteResolution_def)

lemma same_view_newest: "same_view s t \<Longrightarrow> newest t = newest s"
  by (rule newest_same) (simp add: same_view_def)

lemma same_view_remembers: "same_view s t \<Longrightarrow> remembers t = remembers s"
  by (simp add: same_view_def remembers_def selectionSnapshotKey_def concreteResolution_def split: option.split)

lemma same_view_advanced: "same_view s t \<Longrightarrow> same_view t u \<or> advanced t u \<Longrightarrow> advanced s u"
  by (metis advanced_same advanced_trans same_view_newest)

text \<open>Publishing a generation that is not older than the one remembered.\<close>

lemma publish_remembers:
  assumes "\<And>n. newest s (selectionSnapshotKey s) = Some n \<Longrightarrow> n \<le> sn_cache g"
  shows "remembers (stats_publish cf now g au d s) \<and> advanced s (stats_publish cf now g au d s)
    \<and> newest (stats_publish cf now g au d s) (selectionSnapshotKey s) = Some (sn_cache g)"
proof -
  let ?t = "stats_publish cf now g au d s"
  have k: "selectionSnapshotKey ?t = selectionSnapshotKey s" by (rule key_same) (simp add: publish_fields)
  have n: "newest ?t key = (if key = selectionSnapshotKey s then Some (sn_cache g) else newest s key)" for key
    by (auto simp: newest_def publish_fields)
  show ?thesis using assms by (auto simp: remembers_def advanced_def k n publish_fields)
qed

lemma active_newest: "remembers s \<Longrightarrow> newest s (selectionSnapshotKey s) = map_option sn_cache (ct_active s)"
  by (auto simp: remembers_def newest_def split: option.splits)

lemma snapshot_remembers:
  assumes "remembers s" "acceptSnapshot cf now g s = Some (t, b)"
  shows "remembers t \<and> advanced s t"
proof (cases "t = s")
  case False
  let ?s = "s\<lparr>ct_revision := 0\<rparr>"
  have t: "t = clearRepair cf (stats_publish cf now g True None ?s)" and newer: "\<forall>a. ct_active s = Some a \<longrightarrow> sn_cache a \<le> sn_cache g"
    using assms(2) False by (auto simp: acceptSnapshot_def Let_def split: if_splits option.splits)
  have n: "newest ?s = newest s" "selectionSnapshotKey ?s = selectionSnapshotKey s" by (rule newest_same key_same, simp)+
  define p where "p = stats_publish cf now g True None ?s"
  have le: "m \<le> sn_cache g" if "newest ?s (selectionSnapshotKey ?s) = Some m" for m
    using that n active_newest [OF assms(1)] newer by auto
  have "remembers p \<and> advanced ?s p" unfolding p_def using publish_remembers [OF le] by blast
  moreover have "same_view p t" unfolding t p_def by (intro same_view same_view_refl)
  ultimately have "remembers t" "advanced ?s t" using same_view_remembers [of p t] advanced_same [OF same_view_newest, of p t] advanced_trans by blast+
  then show ?thesis using n(1) by (simp add: advanced_def)
qed (use assms(1) in simp)

lemma delta_remembers:
  assumes "remembers s"
  shows "remembers (acceptDelta cf now payload s) \<and> advanced s (acceptDelta cf now payload s)"
proof (cases "\<exists>a d g. ct_visible s \<and> ct_active s = Some a \<and> payload = Some d \<and> delta_verdict cf d a s = Advances g")
  case False
  have "same_view s (acceptDelta cf now payload s)"
    using False by (auto simp: acceptDelta_def intro: same_view split: option.splits delta_outcome.splits)
  then show ?thesis using assms same_view_remembers advanced_same [OF same_view_newest] by blast
next
  case True
  then obtain a d g where h: "ct_visible s" "ct_active s = Some a" "payload = Some d" "delta_verdict cf d a s = Advances g" by blast
  let ?s = "s\<lparr>ct_revision := dl_revision d\<rparr>"
  have n: "newest ?s = newest s" "selectionSnapshotKey ?s = selectionSnapshotKey s" by (rule newest_same key_same, simp)+
  have "sn_cache a \<le> sn_cache g" using delta_advances(1,2) [OF h(4)] candidate_fields(5) by simp
  define p where "p = stats_publish cf now g False (Some d) ?s"
  have "remembers p \<and> advanced ?s p" unfolding p_def
    using publish_remembers [of ?s g] active_newest [OF assms] n h(2) \<open>sn_cache a \<le> sn_cache g\<close> by simp
  moreover have "acceptDelta cf now payload s = clearRepair cf (stats_call OnPushProof (p\<lparr>ct_latched := False\<rparr>))"
    using h by (simp add: acceptDelta_def p_def)
  moreover have c: "same_view p (clearRepair cf (stats_call OnPushProof (p\<lparr>ct_latched := False\<rparr>)))" by (intro same_view same_view_refl)
  ultimately have "remembers (acceptDelta cf now payload s)" "advanced ?s (acceptDelta cf now payload s)"
    using same_view_remembers [OF c] advanced_same [OF same_view_newest [OF c]] advanced_trans by simp_all blast
  then show ?thesis using n(1) by (simp add: advanced_def)
qed

lemma select_remembers:
  assumes "remembers s"
  shows "remembers (stats_select cf now rng res s) \<and> advanced s (stats_select cf now rng res s)"
proof (rule select_cases [of s cf now rng res])
  assume "same_view s (stats_select cf now rng res s)"
  then show ?thesis using assms same_view_remembers advanced_same [OF same_view_newest] by blast
next
  fix s1 g
  assume h: "map_of (ct_snapshots s) (selectionSnapshotKey s1) = Some (g, ct_revision s1)" "ct_snapshots s1 = ct_snapshots s"
    "stats_select cf now rng res s = scheduleTick cf now (stats_publish cf now (g\<lparr>sn_requested := sl_resolution (ct_selection s1)\<rparr>) True None s1)"
  define p where "p = stats_publish cf now (g\<lparr>sn_requested := sl_resolution (ct_selection s1)\<rparr>) True None s1"
  have n: "newest s1 = newest s" using h(2) by (rule newest_same)
  have "remembers p \<and> advanced s1 p" unfolding p_def
    using publish_remembers [of s1 "g\<lparr>sn_requested := sl_resolution (ct_selection s1)\<rparr>"] h(1,2) by (simp add: newest_def)
  moreover have v: "same_view p (stats_select cf now rng res s)" unfolding h(3) p_def [symmetric] by (intro same_view same_view_refl)
  ultimately have "remembers (stats_select cf now rng res s)" "advanced s1 (stats_select cf now rng res s)"
    using same_view_remembers [OF v] advanced_same [OF same_view_newest [OF v]] advanced_trans [of s1 p] by simp_all
  then show ?thesis using n by (simp add: advanced_def)
next
  assume h: "ct_active (stats_select cf now rng res s) = None" "ct_snapshots (stats_select cf now rng res s) = ct_snapshots s"
    "map_of (ct_snapshots s) (selectionSnapshotKey (stats_select cf now rng res s)) = None"
  then show ?thesis by (simp add: remembers_def advanced_same [OF newest_same])
qed

text \<open>Every other operation shows nothing new.\<close>

lemma same_view_event:
  assumes "\<forall>ans. ev \<noteq> TickAnswered ans" "\<forall>ans. ev \<noteq> RepairAnswered ans" "\<forall>d. ev \<noteq> Delta d" "\<forall>r v. ev \<noteq> Selected r v"
  shows "same_view s (stats_do cf now ev s)"
  using assms
  by (cases ev) (simp_all add: same_view_ticks same_view_repairs same_view_visible same_view_zoomed same_view_window same_view_others same_view_heartbeat)

lemma remembers_event:
  assumes "remembers s" shows "remembers (stats_do cf now ev s) \<and> advanced s (stats_do cf now ev s)"
proof -
  have same: "remembers t \<and> advanced s t" if "same_view s t" for t
    using that assms same_view_remembers advanced_same [OF same_view_newest] by blast
  have answer: "remembers u \<and> advanced s u" if "acceptSnapshot cf now g s = Some (t, b)" "same_view t u" for g t b u
    using snapshot_remembers [OF assms that(1)] that(2) same_view_remembers advanced_same [OF same_view_newest] advanced_trans by blast
  show ?thesis
  proof (cases "same_view s (stats_do cf now ev s)")
    case False
    then consider ans where "ev = TickAnswered ans" | ans where "ev = RepairAnswered ans" | d where "ev = Delta d" | r v where "ev = Selected r v"
      using same_view_event by blast
    then show ?thesis
    proof cases
      case 1
      then show ?thesis using same answer by (simp, metis tick_cases)
    next
      case 2
      then show ?thesis using same answer by (simp, metis repair_cases)
    qed (simp_all add: delta_remembers select_remembers assms)
  qed (rule same)
qed

lemma remembers_init: "createController cf a b = Some s \<Longrightarrow> remembers s"
  by (auto simp: createController_def remembers_def split: if_splits)

end
