(* ===== verification/Stats_Chunks.thy ===== *)
theory Stats_Chunks
  imports Stats_Wire
begin

text \<open>
  The chunks of a snapshot: they may arrive in any order and more than once, and a snapshot that was cut into
  chunks is put together again.
\<close>

section \<open>Comparisons\<close>

lemma of_char_less: "((of_char a :: int) < of_char b) = (a < b)"
proof -
  have "(of_char c :: int) = int (of_char c)" for c :: char by (cases c) (simp add: of_char_def)
  then show ?thesis by (simp add: less_char_def)
qed

lemma compareUnicode_zero: "(compareUnicode l r = 0) = (l = r)"
  by (induction l r rule: compareUnicode.induct) auto

lemma Nil_less_string: "([] < (r :: string)) = (r \<noteq> [])"
  by (cases r) simp_all

lemma compareUnicode_less: "(compareUnicode l r < 0) = (l < r)"
proof (induction l r rule: compareUnicode.induct)
  case (1 a l b r)
  show ?case
  proof (cases "a = b")
    case True
    then show ?thesis using 1 by simp
  next
    case False
    have "(of_char a - of_char b < (0::int)) = (of_char a < (of_char b :: int))" by linarith
    then show ?thesis using False by (simp add: of_char_less)
  qed
qed (simp_all add: Nil_less_string)

lemma sign_of_less: "(sign_of x < 0) = (x < 0)" "(sign_of x = 0) = (x = 0)"
  by (auto simp: sign_of_def)

lemma or_then_less: "(or_then a b < 0) = (a < 0 \<or> a = 0 \<and> b < 0)" "(or_then a b = 0) = (a = 0 \<and> b = 0)"
  by (auto simp: or_then_def)

lemma compareNoData_less: "(compareNoData l r < 0) = (gap_key l < gap_key r)"
  by (auto simp: compareNoData_def or_then_less compareUnicode_less compareUnicode_zero sign_of_less gap_key_def less_prod_def)

lemma compareNoData_zero: "(compareNoData l r = 0) = (gap_key l = gap_key r)"
  by (auto simp: compareNoData_def or_then_less compareUnicode_zero sign_of_less gap_key_def)

lemma compareNoData_key: "(0 < compareNoData l r) = (gap_key r < gap_key l)"
proof -
  have "(0 < compareNoData l r) = (\<not> compareNoData l r < 0 \<and> compareNoData l r \<noteq> 0)" by auto
  then show ?thesis by (simp only: compareNoData_less compareNoData_zero) auto
qed

section \<open>Any order\<close>

fun assemble_all :: "chunk list \<Rightarrow> assembly \<Rightarrow> assembly option" where
  "assemble_all [] a = Some a"
| "assemble_all (c # cs) a = (case assemblyAccept c a of None \<Rightarrow> None | Some (b, new) \<Rightarrow> assemble_all cs b)"

definition assembleChunks :: "int \<Rightarrow> int option \<Rightarrow> int \<Rightarrow> chunk list \<Rightarrow> snapshot option" where
  "assembleChunks rng resolution most cs =
     (case cs of
        [] \<Rightarrow> None
      | c # ds \<Rightarrow> Option.bind (createSnapshotChunkAssembly c rng resolution most) (\<lambda>a. Option.bind (assemble_all ds a) assemblySnapshot))"

definition compatible :: "chunk \<Rightarrow> chunk \<Rightarrow> bool" where
  "compatible c d =
     (if ch_index c = ch_index d then c = d else \<not> (ch_start c < ch_end d \<and> ch_start d < ch_end c))"

lemma compatible_sym: "compatible c d = compatible d c"
  by (auto simp: compatible_def)

text \<open>The chunks an assembly holds, and what it has checked of them.\<close>

definition held_chunks :: "assembly \<Rightarrow> chunk set" where "held_chunks a = snd ` set (as_chunks a)"

definition kin :: "chunk \<Rightarrow> assembly \<Rightarrow> bool" where
  "kin c a = (validateSnapshotChunk c (as_range a) (as_resolution a) (as_max a)
     \<and> snapshotChunkSharedValue c = snapshotChunkSharedValue (as_first a) \<and> ch_count c = ch_count (as_first a))"

definition indexed :: "assembly \<Rightarrow> bool" where
  "indexed a = (map fst (as_chunks a) = map (\<lambda>r. ch_index (snd r)) (as_chunks a) \<and> distinct (map fst (as_chunks a)))"

definition assembly_ok :: "assembly \<Rightarrow> bool" where
  "assembly_ok a = (indexed a \<and> (\<forall>d \<in> held_chunks a. kin d a) \<and> (\<forall>d \<in> held_chunks a. \<forall>e \<in> held_chunks a. compatible d e))"

definition same_assembly :: "assembly \<Rightarrow> assembly \<Rightarrow> bool" where
  "same_assembly a b = (as_first a = as_first b \<and> as_range a = as_range b \<and> as_resolution a = as_resolution b \<and> as_max a = as_max b)"

lemma kin_same: "same_assembly a b \<Longrightarrow> kin c a = kin c b"
  by (simp add: kin_def same_assembly_def)

lemma same_assembly_trans: "same_assembly a b \<Longrightarrow> same_assembly b c \<Longrightarrow> same_assembly a c"
  by (simp add: same_assembly_def)

lemma indexed_pair: "indexed a \<Longrightarrow> (i, d) \<in> set (as_chunks a) \<Longrightarrow> i = ch_index d"
  unfolding indexed_def by (metis fst_conv map_eq_conv snd_conv)

lemma existing_chunk:
  assumes "indexed a" shows "map_of (as_chunks a) i = Some d \<longleftrightarrow> d \<in> held_chunks a \<and> ch_index d = i"
proof
  assume "map_of (as_chunks a) i = Some d"
  then have "(i, d) \<in> set (as_chunks a)" by (rule map_of_SomeD)
  then show "d \<in> held_chunks a \<and> ch_index d = i" using indexed_pair [OF assms] by (force simp: held_chunks_def)
next
  assume d: "d \<in> held_chunks a \<and> ch_index d = i"
  then obtain j where "(j, d) \<in> set (as_chunks a)" by (auto simp: held_chunks_def)
  then have "(i, d) \<in> set (as_chunks a)" using indexed_pair [OF assms] d by auto
  then show "map_of (as_chunks a) i = Some d" using assms by (simp add: indexed_def)
qed

lemma absent_chunk: "indexed a \<Longrightarrow> map_of (as_chunks a) i = None \<longleftrightarrow> (\<forall>d \<in> held_chunks a. ch_index d \<noteq> i)"
  using existing_chunk [of a i] by (cases "map_of (as_chunks a) i") auto

lemma overlap_held:
  "list_ex (\<lambda>(i, d). ch_start c < ch_end d \<and> ch_start d < ch_end c) (as_chunks a)
     \<longleftrightarrow> (\<exists>d \<in> held_chunks a. ch_start c < ch_end d \<and> ch_start d < ch_end c)"
  by (force simp: held_chunks_def list_ex_iff)

lemma chunk_accept_cases:
  assumes "assembly_ok a"
  shows "assemblyAccept c a =
    (if \<not> kin c a \<or> (\<exists>d \<in> held_chunks a. \<not> compatible c d) then None
     else if c \<in> held_chunks a then Some (a, False) else Some (a\<lparr>as_chunks := as_chunks a @ [(ch_index c, c)]\<rparr>, True))"
proof (cases "map_of (as_chunks a) (ch_index c)")
  case None
  have ix: "indexed a" using assms by (simp add: assembly_ok_def)
  have n: "\<forall>d \<in> held_chunks a. ch_index d \<noteq> ch_index c" using absent_chunk [OF ix] None by blast
  then have "(\<exists>d \<in> held_chunks a. \<not> compatible c d) = (\<exists>d \<in> held_chunks a. ch_start c < ch_end d \<and> ch_start d < ch_end c)"
    by (metis compatible_def)
  then show ?thesis using None n unfolding assemblyAccept_def overlap_held kin_def by auto
next
  case (Some e)
  have ix: "indexed a" using assms by (simp add: assembly_ok_def)
  have e: "e \<in> held_chunks a" "ch_index e = ch_index c" using existing_chunk [OF ix] Some by auto
  have "(\<exists>d \<in> held_chunks a. \<not> compatible c d) = (e \<noteq> c)"
  proof
    assume "\<exists>d \<in> held_chunks a. \<not> compatible c d"
    then show "e \<noteq> c" using e assms by (auto simp: assembly_ok_def)
  next
    assume "e \<noteq> c"
    then show "\<exists>d \<in> held_chunks a. \<not> compatible c d" using e by (intro bexI [of _ e]) (simp_all add: compatible_def)
  qed
  then show ?thesis using Some e unfolding assemblyAccept_def kin_def by auto
qed

lemma held_add: "held_chunks (a\<lparr>as_chunks := as_chunks a @ [(i, c)]\<rparr>) = insert c (held_chunks a)"
  by (simp add: held_chunks_def)

lemma accept_ok:
  assumes "assembly_ok a" "assemblyAccept c a = Some (b, new)"
  shows "assembly_ok b \<and> same_assembly a b \<and> held_chunks b = insert c (held_chunks a)"
proof -
  have k: "kin c a" "\<forall>d \<in> held_chunks a. compatible c d" using assms chunk_accept_cases [OF assms(1), of c] by (auto split: if_splits)
  show ?thesis
  proof (cases "c \<in> held_chunks a")
    case True
    then have "b = a" using assms chunk_accept_cases [OF assms(1), of c] by (auto split: if_splits)
    then show ?thesis using True assms(1) by (auto simp: same_assembly_def)
  next
    case False
    then have b: "b = a\<lparr>as_chunks := as_chunks a @ [(ch_index c, c)]\<rparr>" using assms chunk_accept_cases [OF assms(1), of c] by (auto split: if_splits)
    have s: "same_assembly a b" by (simp add: b same_assembly_def)
    have h: "held_chunks b = insert c (held_chunks a)" by (simp add: b held_add)
    have "\<forall>d \<in> held_chunks a. ch_index d \<noteq> ch_index c" using k(2) False by (metis compatible_def)
    then have "ch_index c \<notin> set (map fst (as_chunks a))"
      using assms(1) absent_chunk [of a "ch_index c"] by (auto simp: assembly_ok_def map_of_eq_None_iff)
    then have "indexed b" using assms(1) by (simp add: assembly_ok_def indexed_def b)
    moreover have "compatible d e" if "d \<in> held_chunks b" "e \<in> held_chunks b" for d e
      using that k(2) assms(1) compatible_sym [of d e] by (auto simp: h assembly_ok_def compatible_def [of c c])
    moreover have "kin d b" if "d \<in> held_chunks b" for d
      using that k(1) assms(1) kin_same [OF s] by (auto simp: h assembly_ok_def)
    ultimately show ?thesis using s h by (simp add: assembly_ok_def)
  qed
qed

lemma assemble_all_ok:
  "assembly_ok a \<Longrightarrow> assemble_all cs a = Some b \<Longrightarrow> assembly_ok b \<and> same_assembly a b \<and> held_chunks b = set cs \<union> held_chunks a"
proof (induction cs arbitrary: a)
  case Nil
  then show ?case by (simp add: same_assembly_def)
next
  case (Cons c cs)
  then obtain a' new where a': "assemblyAccept c a = Some (a', new)" "assemble_all cs a' = Some b" by (auto split: option.splits)
  from accept_ok [OF Cons.prems(1) a'(1)] Cons.IH [OF _ a'(2)] show ?case using same_assembly_trans by auto
qed

lemma assemble_all_iff:
  "assembly_ok a \<Longrightarrow> (assemble_all cs a = None) = (\<exists>c \<in> set cs. \<not> kin c a \<or> (\<exists>d \<in> set cs \<union> held_chunks a. \<not> compatible c d))"
proof (induction cs arbitrary: a)
  case (Cons c cs)
  show ?case
  proof (cases "assemblyAccept c a")
    case None
    then have "\<not> kin c a \<or> (\<exists>d \<in> held_chunks a. \<not> compatible c d)" using chunk_accept_cases [OF Cons.prems, of c] by (auto split: if_splits)
    then show ?thesis using None by auto
  next
    case (Some r)
    obtain a' new where r: "r = (a', new)" by (rule prod.exhaust)
    note a' = accept_ok [OF Cons.prems Some [unfolded r]]
    have k: "kin c a" "\<forall>d \<in> held_chunks a. compatible c d" using chunk_accept_cases [OF Cons.prems, of c] Some by (auto split: if_splits)
    have cc: "compatible c c" by (simp add: compatible_def)
    have "(assemble_all (c # cs) a = None) = (\<exists>x \<in> set cs. \<not> kin x a \<or> (\<exists>d \<in> set cs \<union> insert c (held_chunks a). \<not> compatible x d))"
      using Cons.IH [of a'] a' kin_same [of a a'] Some r by simp
    also have "\<dots> = (\<exists>x \<in> set (c # cs). \<not> kin x a \<or> (\<exists>d \<in> set (c # cs) \<union> held_chunks a. \<not> compatible x d))"
      (is "?l = ?r")
    proof
      assume ?l then show ?r by auto
    next
      have sy: "compatible d c \<Longrightarrow> compatible c d" for d using compatible_sym by blast
      assume ?r
      then obtain x d where x: "x \<in> set (c # cs)" "d \<in> set (c # cs) \<union> held_chunks a" "\<not> kin x a \<or> \<not> compatible x d" by auto
      show ?l
      proof (cases "x = c")
        case True
        then have "d \<in> set cs" "\<not> compatible d c" using x k cc sy by auto
        then show ?thesis by auto
      qed (use x in auto)
    qed
    finally show ?thesis .
  qed
qed simp

lemma ordered_distinct: "assembly_ok x \<Longrightarrow> distinct (map ch_index (orderedChunks x))"
proof -
  assume x: "assembly_ok x"
  have "map ch_index (map snd (as_chunks x)) = map (\<lambda>r. ch_index (snd r)) (as_chunks x)" by simp
  then have "distinct (map ch_index (map snd (as_chunks x)))" using x by (simp only: assembly_ok_def indexed_def) metis
  moreover have "mset (map ch_index (orderedChunks x)) = mset (map ch_index (map snd (as_chunks x)))"
    by (simp add: orderedChunks_def image_mset.compositionality)
  ultimately show ?thesis using mset_eq_imp_distinct_iff by blast
qed

lemma ordered_is:
  assumes "assembly_ok a" "held_chunks a = set cs" "sorted (map ch_index cs)" "distinct (map ch_index cs)"
  shows "orderedChunks a = cs"
proof -
  have s: "set (orderedChunks a) = set cs" using assms(2) by (simp add: orderedChunks_def held_chunks_def)
  have "inj_on ch_index (set (orderedChunks a) \<union> set cs)" using assms(4) by (simp add: s distinct_map)
  moreover have "sorted (map ch_index (orderedChunks a))" by (simp add: orderedChunks_def)
  ultimately show ?thesis using assms(3,4) ordered_distinct [OF assms(1)] s by (intro map_sorted_distinct_set_unique) simp_all
qed

lemma ordered_unique:
  assumes "assembly_ok a" "assembly_ok b" "held_chunks a = held_chunks b"
  shows "orderedChunks a = orderedChunks b"
proof (rule ordered_is [OF assms(1)])
  show "held_chunks a = set (orderedChunks b)" using assms(3) by (simp add: orderedChunks_def held_chunks_def)
  show "sorted (map ch_index (orderedChunks b))" by (simp add: orderedChunks_def)
qed (rule ordered_distinct [OF assms(2)])

lemma assembly_length: "assembly_ok a \<Longrightarrow> length (as_chunks a) = card (held_chunks a)"
proof -
  assume a: "assembly_ok a"
  then have "distinct (map (\<lambda>r. ch_index (snd r)) (as_chunks a))" by (simp only: assembly_ok_def indexed_def) metis
  then have "distinct (map ch_index (map snd (as_chunks a)))" by (simp add: o_def)
  then have "distinct (map snd (as_chunks a))" by (rule distinct_map [THEN iffD1, THEN conjunct1])
  then have "card (set (map snd (as_chunks a))) = length (map snd (as_chunks a))" by (rule distinct_card)
  then show ?thesis by (simp add: held_chunks_def)
qed

lemma shared_fields:
  "snapshotChunkSharedValue c = snapshotChunkSharedValue d \<Longrightarrow>
   sn_start c = sn_start d \<and> sn_end c = sn_end d \<and> sn_resolution c = sn_resolution d"
  by (auto simp: snapshotChunkSharedValue_def snapshot.truncate_def)

lemma snapshot_unique:
  assumes "assembly_ok a" "assembly_ok b" "held_chunks a = held_chunks b"
    "as_range a = as_range b" "as_resolution a = as_resolution b" "as_max a = as_max b"
    "snapshotChunkSharedValue (as_first a) = snapshotChunkSharedValue (as_first b)" "ch_count (as_first a) = ch_count (as_first b)"
  shows "assemblySnapshot a = assemblySnapshot b"
  using ordered_unique [OF assms(1-3)] shared_fields [OF assms(7)] assms assembly_length [OF assms(1)] assembly_length [OF assms(2)]
  by (simp add: assemblySnapshot_def assembledSnapshot_def Let_def)

lemma create_ok:
  "createSnapshotChunkAssembly c rng resolution most = Some a \<Longrightarrow>
     assembly_ok a \<and> as_first a = c \<and> as_range a = rng \<and> as_resolution a = resolution \<and> as_max a = most \<and> held_chunks a = {c}"
  by (auto simp: createSnapshotChunkAssembly_def assemblyAccept_def assembly_ok_def indexed_def held_chunks_def kin_def compatible_def split: if_splits)

lemma create_iff: "createSnapshotChunkAssembly c rng resolution most \<noteq> None \<longleftrightarrow> validateSnapshotChunk c rng resolution most"
  by (auto simp: createSnapshotChunkAssembly_def assemblyAccept_def)

text \<open>What decides whether chunks fit together, whatever their order.\<close>

definition chunks_fit :: "int \<Rightarrow> int option \<Rightarrow> int \<Rightarrow> chunk set \<Rightarrow> bool" where
  "chunks_fit rng resolution most C =
     ((\<forall>c \<in> C. validateSnapshotChunk c rng resolution most)
      \<and> (\<forall>c \<in> C. \<forall>d \<in> C. compatible c d \<and> snapshotChunkSharedValue c = snapshotChunkSharedValue d \<and> ch_count c = ch_count d))"

lemma assembled:
  assumes "chunks_fit rng resolution most (set (c # cs))"
  obtains b where "assembleChunks rng resolution most (c # cs) = assemblySnapshot b" "assembly_ok b" "as_first b = c"
    "as_range b = rng" "as_resolution b = resolution" "as_max b = most" "held_chunks b = set (c # cs)"
proof -
  obtain a where a: "createSnapshotChunkAssembly c rng resolution most = Some a"
  proof -
    have "validateSnapshotChunk c rng resolution most" using assms by (simp add: chunks_fit_def)
    then have "createSnapshotChunkAssembly c rng resolution most \<noteq> None" using create_iff by blast
    then show ?thesis using that by blast
  qed
  note c = create_ok [OF a]
  have h: "held_chunks a = {c}" and ok: "assembly_ok a" using c by simp_all
  have "validateSnapshotChunk x rng resolution most \<and> snapshotChunkSharedValue x = snapshotChunkSharedValue c \<and> ch_count x = ch_count c"
    if "x \<in> set cs" for x
    using assms that unfolding chunks_fit_def by (meson list.set_intros)
  then have k: "\<forall>x \<in> set cs. kin x a" using c by (simp add: kin_def)
  have m: "\<forall>x \<in> set (c # cs). \<forall>y \<in> set (c # cs). compatible x y" using assms unfolding chunks_fit_def by blast
  have "\<not> (\<exists>x \<in> set cs. \<not> kin x a \<or> (\<exists>d \<in> set cs \<union> held_chunks a. \<not> compatible x d))" unfolding h using k m by simp
  then have "assemble_all cs a \<noteq> None" using assemble_all_iff [OF ok] by blast
  then obtain b where b: "assemble_all cs a = Some b" by blast
  have bb: "assembly_ok b" "same_assembly a b" "held_chunks b = set (c # cs)" using assemble_all_ok [OF ok b] h by auto
  have r: "assembleChunks rng resolution most (c # cs) = assemblySnapshot b" by (simp add: assembleChunks_def a b)
  have f: "as_first a = c" "as_range a = rng" "as_resolution a = resolution" "as_max a = most" using c by blast+
  show ?thesis by (rule that [OF r bb(1)]) (use bb f in \<open>simp_all only: same_assembly_def\<close>)
qed

lemma unassembled:
  assumes "\<not> chunks_fit rng resolution most (set cs)" shows "assembleChunks rng resolution most cs = None"
proof (rule ccontr)
  assume n: "assembleChunks rng resolution most cs \<noteq> None"
  then obtain c ds where cs: "cs = c # ds" by (cases cs) (auto simp: assembleChunks_def)
  then obtain a b where a: "createSnapshotChunkAssembly c rng resolution most = Some a" "assemble_all ds a = Some b"
    using n by (auto simp: assembleChunks_def bind_eq_Some_conv)
  note k = create_ok [OF a(1)]
  from assemble_all_ok [OF _ a(2)] k have b: "assembly_ok b" "same_assembly a b" "held_chunks b = set cs" by (auto simp: cs)
  then have "\<forall>x \<in> set cs. kin x b" "\<forall>x \<in> set cs. \<forall>y \<in> set cs. compatible x y" by (simp_all add: assembly_ok_def)
  then have "chunks_fit rng resolution most (set cs)" using k b(2) by (simp add: chunks_fit_def kin_def same_assembly_def)
  then show False using assms by simp
qed

lemma chunks_any_order:
  assumes "set cs = set ds"
  shows "assembleChunks rng resolution most cs = assembleChunks rng resolution most ds"
proof (cases "chunks_fit rng resolution most (set cs)")
  case False
  then show ?thesis using unassembled assms by simp
next
  case True
  show ?thesis
  proof (cases cs)
    case (Cons c cs')
    then obtain d ds' where d: "ds = d # ds'" using assms by (cases ds) auto
    obtain a where a: "assembleChunks rng resolution most cs = assemblySnapshot a" "assembly_ok a" "as_first a = c"
      "as_range a = rng" "as_resolution a = resolution" "as_max a = most" "held_chunks a = set cs"
      using assembled [of rng resolution most c cs'] True Cons by metis
    obtain b where b: "assembleChunks rng resolution most ds = assemblySnapshot b" "assembly_ok b" "as_first b = d"
      "as_range b = rng" "as_resolution b = resolution" "as_max b = most" "held_chunks b = set ds"
      using assembled [of rng resolution most d ds'] True d assms by metis
    have "c \<in> set cs" "d \<in> set cs" using Cons d assms by auto
    then have "snapshotChunkSharedValue c = snapshotChunkSharedValue d" "ch_count c = ch_count d"
      using True unfolding chunks_fit_def by blast+
    then show ?thesis using snapshot_unique [OF a(2) b(2)] a b assms by simp
  qed (use assms in simp)
qed

end
