(* ===== verification/Stats_Cut.thy ===== *)
theory Stats_Cut
  imports Stats_Chunks
begin

text \<open>
  A snapshot cut at bucket bounds into chunks, and how the pieces of its buckets and of its spans without data
  go together again.
\<close>

section \<open>Dense buckets\<close>

definition bucket_local :: "int \<Rightarrow> bucket \<Rightarrow> bool" where
  "bucket_local d b = (bk_duration b = d \<and> bk_start b mod d = 0 \<and> list_all series_ok (bk_series b) \<and> source_ok b)"

definition dense_from :: "int \<Rightarrow> int \<Rightarrow> int \<Rightarrow> bucket list \<Rightarrow> bool" where
  "dense_from d e p bs =
     (\<forall>i < length bs. bucket_local d (bs ! i) \<and> bk_start (bs ! i) = p + int i * d \<and> p + int i * d + d \<le> e
        \<and> (bk_open (bs ! i) \<longrightarrow> p + int i * d + d = e))"

lemma dense_from_Cons:
  "dense_from d e p (b # bs) =
     (bucket_local d b \<and> bk_start b = p \<and> p + d \<le> e \<and> (bk_open b \<longrightarrow> p + d = e) \<and> dense_from d e (p + d) bs)"
proof -
  have "(\<forall>i < Suc n. P i) = (P 0 \<and> (\<forall>i < n. P (Suc i)))" for n P by (metis less_Suc_eq_0_disj not_less_eq)
  then show ?thesis by (simp add: dense_from_def algebra_simps)
qed

lemma scan_dense:
  assumes "0 < d"
  shows "prev < p \<Longrightarrow> w \<le> p \<Longrightarrow> (scanBuckets d True w (Some e) p prev bs = Some x) = (dense_from d e p bs \<and> x = p + int (length bs) * d)"
proof (induction bs arbitrary: p prev)
  case Nil
  then show ?case by (auto simp: dense_from_def)
next
  case (Cons b bs)
  have "(scanBuckets d True w (Some e) (p + d) p bs = Some x) = (dense_from d e (p + d) bs \<and> x = p + d + int (length bs) * d)"
    using Cons.IH [of p "p + d"] assms Cons.prems by simp
  then show ?case using Cons.prems by (auto simp: dense_from_Cons bucket_local_def algebra_simps)
qed

lemma validate_dense:
  assumes "0 < d" "0 \<le> w" "bs \<noteq> []"
  shows "validateBuckets bs d most True w (Some e) \<longleftrightarrow> int (length bs) \<le> most \<and> dense_from d e w bs \<and> w + int (length bs) * d = e"
proof (cases "scanBuckets d True w (Some e) w (-1) bs")
  case None
  then have "\<not> dense_from d e w bs" using scan_dense [OF assms(1), of "-1" w w e bs "w + int (length bs) * d"] assms(2) by auto
  then show ?thesis using None assms(3) by (simp add: validateBuckets_def)
next
  case (Some x)
  then have "dense_from d e w bs \<and> x = w + int (length bs) * d" using scan_dense [OF assms(1), of "-1" w w e bs x] assms(2) by simp
  then show ?thesis using Some assms(3) by (auto simp: validateBuckets_def)
qed

definition bucket_within :: "int \<Rightarrow> int \<Rightarrow> bucket \<Rightarrow> bool" where
  "bucket_within p q b = (p \<le> bk_start b \<and> bk_start b + bk_duration b \<le> q)"

lemma dense_segment:
  assumes "dense_from d e w bs" "0 < d" "p = w + int m * d" "q = p + int n * d" "m + n \<le> length bs"
  shows "filter (bucket_within p q) bs = take n (drop m bs)"
proof -
  have s: "bk_start (bs ! i) = w + int i * d" "bk_duration (bs ! i) = d" if "i < length bs" for i
    using assms(1) that by (auto simp: dense_from_def bucket_local_def)
  have w: "bucket_within p q (bs ! i) = (m \<le> i \<and> i < m + n)" if "i < length bs" for i
  proof -
    have "bucket_within p q (bs ! i) = (int m * d \<le> int i * d \<and> (int i + 1) * d \<le> (int m + int n) * d)"
      using s [OF that] assms(3,4) by (simp add: bucket_within_def algebra_simps)
    then show ?thesis using assms(2) by (auto simp: mult_le_cancel_right)
  qed
  have "bs = take m bs @ take n (drop m bs) @ drop (m + n) bs"
    by (metis append_take_drop_id drop_drop add.commute)
  then have "filter (bucket_within p q) bs = filter (bucket_within p q) (take m bs) @ filter (bucket_within p q) (take n (drop m bs)) @ filter (bucket_within p q) (drop (m + n) bs)"
    by (metis filter_append)
  moreover have "filter (bucket_within p q) (take m bs) = []" using w by (auto simp: filter_empty_conv in_set_conv_nth)
  moreover have "filter (bucket_within p q) (drop (m + n) bs) = []" using w by (auto simp: filter_empty_conv in_set_conv_nth)
  moreover have "filter (bucket_within p q) (take n (drop m bs)) = take n (drop m bs)"
    using w assms(5) by (auto simp: filter_id_conv in_set_conv_nth)
  ultimately show ?thesis by simp
qed

section \<open>Spans in order\<close>

definition gap_local :: "rat option \<Rightarrow> rat option \<Rightarrow> gap \<Rightarrow> bool" where
  "gap_local w e g =
     (identityText (gp_family g) \<and> identityText (gp_source g) \<and> identityText (gp_epoch g) \<and> identityText (gp_reason g)
      \<and> gp_start g < gp_end g \<and> 0 \<le> gp_start g \<and> 0 < gp_cadence g
      \<and> (\<forall>x. w = Some x \<longrightarrow> x \<le> gp_start g) \<and> (\<forall>x. e = Some x \<longrightarrow> gp_end g \<le> x))"

definition gap_before :: "gap \<Rightarrow> gap \<Rightarrow> bool" where
  "gap_before g h =
     ((gp_family g, gp_source g) < (gp_family h, gp_source h)
      \<or> (gp_family g, gp_source g) = (gp_family h, gp_source h) \<and> gp_end g \<le> gp_start h)"

lemma gap_before_key: "gap_before g h \<Longrightarrow> gp_start g < gp_end g \<Longrightarrow> gap_key g < gap_key h"
  by (auto simp: gap_before_def gap_key_def less_prod_def)

lemma gap_before_trans: "gap_before g h \<Longrightarrow> gap_before h k \<Longrightarrow> gp_start h < gp_end h \<Longrightarrow> gap_before g k"
  by (auto simp: gap_before_def)

text \<open>What the scan knows of the spans it has passed: the last one, and where each source ended.\<close>

definition scanned :: "gap list \<Rightarrow> ((string \<times> string) \<times> rat) list \<Rightarrow> gap option \<Rightarrow> bool" where
  "scanned gs ends prev =
     (prev = last_or_none gs \<and> (\<forall>k. map_of ends k = map_option gp_end (last_or_none (filter (\<lambda>g. (gp_family g, gp_source g) = k) gs))))"

lemma last_or_none_mem: "last_or_none xs = Some x \<Longrightarrow> x \<in> set xs"
  by (auto simp: last_or_none_def split: if_splits)

lemma last_or_none_snoc [simp]: "last_or_none (xs @ [x]) = Some x"
  by (simp add: last_or_none_def)

lemma scanned_snoc: "scanned gs ends prev \<Longrightarrow> scanned (gs @ [g]) (AList.update (gp_family g, gp_source g) (gp_end g) ends) (Some g)"
  by (auto simp: scanned_def)

lemma scan_step:
  "scanNoData w e ends prev (h # hs) =
     (gap_local w e h
      \<and> ((case prev of Some p \<Rightarrow> 0 < compareNoData h p | None \<Rightarrow> True)
         \<and> (case map_of ends (gp_family h, gp_source h) of Some x \<Rightarrow> x \<le> gp_start h | None \<Rightarrow> True))
      \<and> scanNoData w e (AList.update (gp_family h, gp_source h) (gp_end h) ends) (Some h) hs)"
  by (cases w; cases e) (simp_all add: gap_local_def)

lemma scan_gaps:
  "scanned gs ends prev \<Longrightarrow> sorted_wrt gap_before gs \<Longrightarrow> \<forall>g \<in> set gs. gp_start g < gp_end g \<Longrightarrow>
   scanNoData w e ends prev hs = (list_all (gap_local w e) hs \<and> sorted_wrt gap_before (gs @ hs))"
proof (induction hs arbitrary: gs ends prev)
  case (Cons h hs)
  let ?k = "(gp_family h, gp_source h)"
  let ?now = "(case prev of Some p \<Rightarrow> 0 < compareNoData h p | None \<Rightarrow> True)
      \<and> (case map_of ends ?k of Some x \<Rightarrow> x \<le> gp_start h | None \<Rightarrow> True)"
  have now: "?now = (\<forall>g \<in> set gs. gap_before g h)" if "gp_start h < gp_end h"
  proof
    assume n: ?now
    show "\<forall>g \<in> set gs. gap_before g h"
    proof (cases gs rule: rev_cases)
      case (snoc fs l)
      then have p: "gap_key l < gap_key h" using n Cons.prems(1) by (simp add: scanned_def compareNoData_key)
      have "gap_before l h"
      proof (cases "(gp_family l, gp_source l) = ?k")
        case True
        then have "map_of ends ?k = Some (gp_end l)" using Cons.prems(1) snoc by (simp add: scanned_def)
        then show ?thesis using n True by (simp add: gap_before_def)
      next
        case False
        then show ?thesis using p by (auto simp: gap_before_def gap_key_def less_prod_def)
      qed
      moreover have "gap_before g l" if "g \<in> set fs" for g using Cons.prems(2) snoc that by (simp add: sorted_wrt_append)
      ultimately show ?thesis using gap_before_trans Cons.prems(3) snoc by (metis in_set_conv_decomp last_in_set last_snoc rotate1.simps(2) set_ConsD set_rotate1 snoc_eq_iff_butlast)
    qed simp
  next
    assume b: "\<forall>g \<in> set gs. gap_before g h"
    have "0 < compareNoData h p" if "prev = Some p" for p
    proof -
      have "p \<in> set gs" using that Cons.prems(1) by (auto simp: scanned_def last_or_none_def split: if_splits)
      then show ?thesis using b gap_before_key Cons.prems(3) by (simp add: compareNoData_key)
    qed
    moreover have "x \<le> gp_start h" if "map_of ends ?k = Some x" for x
    proof -
      have "map_option gp_end (last_or_none (filter (\<lambda>g. (gp_family g, gp_source g) = ?k) gs)) = Some x"
        using that Cons.prems(1) unfolding scanned_def by metis
      then obtain g where g: "last_or_none (filter (\<lambda>g. (gp_family g, gp_source g) = ?k) gs) = Some g" "x = gp_end g"
        by auto
      have "g \<in> set (filter (\<lambda>g. (gp_family g, gp_source g) = ?k) gs)" by (rule last_or_none_mem [OF g(1)])
      then have m: "g \<in> set gs" "gp_family g = gp_family h" "gp_source g = gp_source h" by simp_all
      then have "gap_before g h" using b by blast
      then show ?thesis using m(2,3) g(2) by (simp add: gap_before_def)
    qed
    ultimately show ?now by (auto split: option.split)
  qed
  show ?case
  proof (cases "gap_local w e h \<and> (\<forall>g \<in> set gs. gap_before g h)")
    case True
    then have h: "gp_start h < gp_end h" by (simp add: gap_local_def)
    have "sorted_wrt gap_before (gs @ [h])" using Cons.prems(2) True by (simp add: sorted_wrt_append)
    then have "scanNoData w e (AList.update ?k (gp_end h) ends) (Some h) hs = (list_all (gap_local w e) hs \<and> sorted_wrt gap_before ((gs @ [h]) @ hs))"
      using Cons.IH [OF scanned_snoc [OF Cons.prems(1), of h]] Cons.prems(3) h by auto
    then show ?thesis unfolding scan_step now [OF h] using True by simp
  next
    case False
    have "\<not> sorted_wrt gap_before (gs @ h # hs)" if "\<not> (\<forall>g \<in> set gs. gap_before g h)" using that by (auto simp: sorted_wrt_append)
    moreover have "\<not> scanNoData w e ends prev (h # hs)"
    proof
      assume "scanNoData w e ends prev (h # hs)"
      then have s: "gap_local w e h" ?now unfolding scan_step by blast+
      then have "gp_start h < gp_end h" by (simp add: gap_local_def)
      then show False using False now s by blast
    qed
    ultimately show ?thesis using False by (simp del: scanNoData.simps)
  qed
qed simp

lemma validate_gaps: "validateNoData gs w e = (list_all (gap_local w e) gs \<and> sorted_wrt gap_before gs)"
  using scan_gaps [of "[]" "[]" None w e gs] by (simp add: validateNoData_def scanned_def last_or_none_def)

section \<open>Windows\<close>

fun windows :: "int list \<Rightarrow> (int \<times> int) list" where
  "windows (p # q # ps) = (p, q) # windows (q # ps)"
| "windows ps = []"

lemma windows_first: "windows (p # ps) \<noteq> [] \<Longrightarrow> fst (hd (windows (p # ps))) = p"
  by (cases ps) simp_all

lemma windows_last: "ps \<noteq> [] \<Longrightarrow> snd (last (windows (p # ps))) = last ps"
  by (induction ps arbitrary: p rule: list_nonempty_induct) (auto simp: neq_Nil_conv)

lemma windows_length: "length (windows (p # ps)) = length ps"
  by (induction ps arbitrary: p) simp_all

lemma windows_nth: "i < length ps \<Longrightarrow> windows (p # ps) ! i = ((p # ps) ! i, ps ! i)"
proof (induction ps arbitrary: p i)
  case (Cons q ps)
  then show ?case by (cases i) simp_all
qed simp

lemma windows_bounds:
  "sorted_wrt (<) (p # ps) \<Longrightarrow> v \<in> set (windows (p # ps)) \<Longrightarrow> p \<le> fst v \<and> fst v < snd v \<and> snd v \<le> last (p # ps)"
proof (induction ps arbitrary: p)
  case (Cons q ps)
  then have q: "p < q" "sorted_wrt (<) (q # ps)" by simp_all
  have "q \<le> last (q # ps)" using q(2) by (cases ps rule: rev_cases) (auto simp: sorted_wrt_append)
  moreover have "v = (p, q) \<or> v \<in> set (windows (q # ps))" using Cons.prems(2) by simp
  ultimately show ?case using q Cons.IH [OF q(2)] by auto
qed simp

lemma windows_disjoint: "sorted_wrt (<) ps \<Longrightarrow> sorted_wrt (\<lambda>u v. snd u \<le> fst v) (windows ps)"
proof (induction ps rule: windows.induct)
  case (1 p q ps)
  then show ?case using windows_bounds [of q ps] by auto
qed simp_all

section \<open>Pieces of spans\<close>

definition clip_gap :: "int \<times> int \<Rightarrow> gap \<Rightarrow> gap list" where
  "clip_gap w g =
     (let a = max (of_int (fst w)) (gp_start g); b = min (of_int (snd w)) (gp_end g)
      in if a < b then [g\<lparr>gp_start := a, gp_end := b\<rparr>] else [])"

definition pieces :: "(int \<times> int) list \<Rightarrow> gap \<Rightarrow> gap list" where
  "pieces ws g = concat (map (\<lambda>w. clip_gap w g) ws)"

lemma clip_facts:
  "h \<in> set (clip_gap w g) \<Longrightarrow>
     gp_start g \<le> gp_start h \<and> gp_start h < gp_end h \<and> gp_end h \<le> gp_end g \<and> of_int (fst w) \<le> gp_start h \<and> gp_end h \<le> of_int (snd w)
     \<and> gp_family h = gp_family g \<and> gp_source h = gp_source g \<and> gp_epoch h = gp_epoch g \<and> gp_reason h = gp_reason g \<and> gp_cadence h = gp_cadence g"
  by (auto simp: clip_gap_def Let_def split: if_splits)

lemma clip_length: "length (clip_gap w g) \<le> 1"
  by (simp add: clip_gap_def Let_def)

lemma pieces_facts:
  "h \<in> set (pieces ws g) \<Longrightarrow>
     gp_start g \<le> gp_start h \<and> gp_start h < gp_end h \<and> gp_end h \<le> gp_end g \<and> gp_family h = gp_family g \<and> gp_source h = gp_source g
     \<and> gp_epoch h = gp_epoch g \<and> gp_reason h = gp_reason g \<and> gp_cadence h = gp_cadence g"
  by (auto simp: pieces_def dest: clip_facts)

lemma before_clipped:
  "gap_before g h \<Longrightarrow> x \<in> set (pieces ws g) \<Longrightarrow> y \<in> set (pieces vs h) \<Longrightarrow> gap_before x y"
  using pieces_facts [of x ws g] pieces_facts [of y vs h] by (auto simp: gap_before_def)

lemma pieces_sorted: "sorted_wrt (\<lambda>u v. snd u \<le> fst v) ws \<Longrightarrow> sorted_wrt gap_before (pieces ws g)"
proof (induction ws)
  case (Cons w ws)
  have "sorted_wrt gap_before (clip_gap w g)" by (simp add: clip_gap_def Let_def)
  moreover have "gap_before x y" if x: "x \<in> set (clip_gap w g)" and y: "y \<in> set (pieces ws g)" for x y
  proof -
    obtain v where v: "v \<in> set ws" "y \<in> set (clip_gap v g)" using y by (auto simp: pieces_def)
    then have "snd w \<le> fst v" using Cons.prems by simp
    then have "(of_int (snd w) :: rat) \<le> of_int (fst v)" by simp
    then show ?thesis using clip_facts [OF x] clip_facts [OF v(2)] by (auto simp: gap_before_def)
  qed
  ultimately show ?case using Cons by (simp add: pieces_def sorted_wrt_append)
qed (simp add: pieces_def)

lemma all_pieces_sorted:
  assumes "sorted_wrt gap_before gs" "sorted_wrt (\<lambda>u v. snd u \<le> fst v) ws"
  shows "sorted_wrt gap_before (concat (map (pieces ws) gs))"
  using assms(1)
proof (induction gs)
  case (Cons g gs)
  then show ?case using pieces_sorted [OF assms(2), of g] before_clipped by (auto simp: sorted_wrt_append)
qed simp

lemma pieces_swap: "mset (concat (map (\<lambda>w. concat (map (clip_gap w) gs)) ws)) = mset (concat (map (pieces ws) gs))"
proof (induction ws)
  case Nil
  have "concat (map (pieces []) gs) = []" by (induction gs) (simp_all add: pieces_def)
  then show ?case by simp
next
  case (Cons w ws)
  have "mset (concat (map (pieces (w # ws)) gs)) = mset (concat (map (clip_gap w) gs)) + mset (concat (map (pieces ws) gs))"
    by (induction gs) (simp_all add: pieces_def)
  then show ?case using Cons by simp
qed

lemma key_sort_unique:
  fixes f :: "'a \<Rightarrow> 'b::linorder"
  assumes "mset xs = mset ys" "sorted_wrt (\<lambda>x y. f x < f y) ys"
  shows "sort_key f xs = ys"
proof -
  have d: "distinct (map f ys)" "sorted (map f ys)"
  proof -
    have "sorted_wrt (<) (map f ys)" using assms(2) by (simp add: sorted_wrt_map)
    then show "distinct (map f ys)" "sorted (map f ys)" by (simp_all add: strict_sorted_iff)
  qed
  have "mset (sort_key f xs) = mset ys" using assms(1) by simp
  then have s: "set (sort_key f xs) = set ys" "mset (map f (sort_key f xs)) = mset (map f ys)"
    by (metis set_mset_mset, metis mset_map)
  have "distinct (map f (sort_key f xs))" using d(1) s(2) mset_eq_imp_distinct_iff by blast
  then show ?thesis using d s(1) by (intro map_sorted_distinct_set_unique [of f]) (auto simp: distinct_map)
qed

lemma sorted_pieces:
  assumes "sorted_wrt gap_before gs" "sorted_wrt (\<lambda>u v. snd u \<le> fst v) ws"
  shows "sort_key gap_key (concat (map (\<lambda>w. concat (map (clip_gap w) gs)) ws)) = concat (map (pieces ws) gs)"
proof (rule key_sort_unique [OF pieces_swap])
  have "gp_start x < gp_end x" if "x \<in> set (concat (map (pieces ws) gs))" for x using that pieces_facts by auto
  then show "sorted_wrt (\<lambda>x y. gap_key x < gap_key y) (concat (map (pieces ws) gs))"
    using gap_before_key by (intro sorted_wrt_mono_rel [OF _ all_pieces_sorted [OF assms]]) blast
qed

text \<open>Merging the pieces of a span one after the other is merging the span.\<close>

lemma pieces_past:
  assumes "sorted_wrt (<) (p # ps)" "gp_end g \<le> of_int p" shows "pieces (windows (p # ps)) g = []"
proof -
  have "clip_gap w g = []" if "w \<in> set (windows (p # ps))" for w
  proof -
    have "p \<le> fst w" using windows_bounds [OF assms(1) that] by simp
    then have "(of_int p :: rat) \<le> of_int (fst w)" by simp
    then show ?thesis using assms(2) by (simp add: clip_gap_def Let_def)
  qed
  then show ?thesis by (simp add: pieces_def)
qed

definition same_origin :: "gap \<Rightarrow> gap \<Rightarrow> bool" where
  "same_origin h g = (gp_family h = gp_family g \<and> gp_source h = gp_source g \<and> gp_epoch h = gp_epoch g \<and> gp_reason h = gp_reason g
     \<and> gp_cadence h = gp_cadence g)"

lemma merge_rest:
  assumes "sorted_wrt (<) (p # ps)" "gp_end h = min (of_int p) (gp_end g)" "gp_start g \<le> of_int p"
    "gp_end g \<le> of_int (last (p # ps))" "same_origin h g"
  shows "foldl merge_gap (h # acc) (pieces (windows (p # ps)) g) = h\<lparr>gp_end := gp_end g\<rparr> # acc"
  using assms
proof (induction ps arbitrary: p h)
  case Nil
  then have "h\<lparr>gp_end := gp_end g\<rparr> = h" by simp
  then show ?case by (simp add: pieces_def)
next
  case (Cons q ps)
  have pq: "(of_int p :: rat) < of_int q" using Cons.prems(1) by simp
  show ?case
  proof (cases "gp_end g \<le> of_int p")
    case True
    then have "h\<lparr>gp_end := gp_end g\<rparr> = h" using Cons.prems(2) by simp
    then show ?thesis using pieces_past [OF Cons.prems(1) True] by simp
  next
    case False
    define b where "b = min (of_int q) (gp_end g)"
    have c: "clip_gap (p, q) g = [g\<lparr>gp_start := of_int p, gp_end := b\<rparr>]"
      using False Cons.prems(3) pq by (simp add: clip_gap_def Let_def b_def max_absorb1)
    have "merge_gap (h # acc) (g\<lparr>gp_start := of_int p, gp_end := b\<rparr>) = h\<lparr>gp_end := b\<rparr> # acc"
      using Cons.prems False by (simp add: same_gap_source_def same_origin_def)
    then have "foldl merge_gap (h # acc) (pieces (windows (p # q # ps)) g) = foldl merge_gap (h\<lparr>gp_end := b\<rparr> # acc) (pieces (windows (q # ps)) g)"
      by (simp add: pieces_def c)
    then show ?thesis using Cons.IH [of q "h\<lparr>gp_end := b\<rparr>"] Cons.prems pq by (simp add: same_origin_def b_def)
  qed
qed

lemma merge_pieces:
  assumes "sorted_wrt (<) (p # ps)" "of_int p \<le> gp_start g" "gp_end g \<le> of_int (last (p # ps))" "gp_start g < gp_end g"
  shows "foldl merge_gap acc (pieces (windows (p # ps)) g) = merge_gap acc g"
  using assms
proof (induction ps arbitrary: p)
  case (Cons q ps)
  show ?case
  proof (cases "of_int q \<le> gp_start g")
    case True
    then have "clip_gap (p, q) g = []" by (simp add: clip_gap_def Let_def)
    then show ?thesis using Cons True by (simp add: pieces_def)
  next
    case False
    define g1 where "g1 = g\<lparr>gp_end := min (of_int q) (gp_end g)\<rparr>"
    have c: "clip_gap (p, q) g = [g1]"
      using False Cons.prems by (simp add: clip_gap_def Let_def g1_def max_absorb2)
    have s: "sorted_wrt (<) (q # ps)" "gp_start g \<le> of_int q" "gp_end g \<le> of_int (last (q # ps))" using Cons.prems False by simp_all
    have split: "foldl merge_gap acc (pieces (windows (p # q # ps)) g) = foldl merge_gap (merge_gap acc g1) (pieces (windows (q # ps)) g)"
      by (simp add: pieces_def c)
    show ?thesis
    proof (cases "\<exists>a as. acc = a # as \<and> same_gap_source a g")
      case True
      then obtain a as where a: "acc = a # as" "same_gap_source a g" by blast
      then have "merge_gap acc g1 = a\<lparr>gp_end := gp_end g1\<rparr> # as" "merge_gap acc g = a\<lparr>gp_end := gp_end g\<rparr> # as"
        by (simp_all add: same_gap_source_def g1_def)
      moreover have "same_origin (a\<lparr>gp_end := gp_end g1\<rparr>) g" using a(2) by (simp add: same_gap_source_def same_origin_def)
      ultimately show ?thesis unfolding split using merge_rest [OF s(1) _ s(2,3), of "a\<lparr>gp_end := gp_end g1\<rparr>" as] by (simp add: g1_def)
    next
      case False
      then have "merge_gap acc g1 = g1 # acc" "merge_gap acc g = g # acc"
        by (cases acc; simp add: same_gap_source_def g1_def)+
      moreover have "same_origin g1 g" by (simp add: g1_def same_origin_def)
      ultimately show ?thesis unfolding split using merge_rest [OF s(1) _ s(2,3), of g1 acc] by (simp add: g1_def)
    qed
  qed
qed simp

lemma merge_all_pieces:
  assumes "sorted_wrt (<) (p # ps)" "\<forall>g \<in> set gs. of_int p \<le> gp_start g \<and> gp_end g \<le> of_int (last (p # ps)) \<and> gp_start g < gp_end g"
  shows "mergeGaps (concat (map (pieces (windows (p # ps))) gs)) = mergeGaps gs"
proof -
  have "foldl merge_gap acc (concat (map (pieces (windows (p # ps))) gs)) = foldl merge_gap acc gs" for acc
    using assms(2)
  proof (induction gs arbitrary: acc)
    case (Cons g gs)
    then show ?case using merge_pieces [OF assms(1), of g acc] by simp
  qed simp
  then show ?thesis by (simp add: mergeGaps_def)
qed

section \<open>Cutting a snapshot\<close>

definition chunk_at :: "snapshot \<Rightarrow> nat \<Rightarrow> nat \<Rightarrow> int \<times> int \<Rightarrow> chunk" where
  "chunk_at s n i w =
     snapshot.extend (s\<lparr>sn_buckets := filter (bucket_within (fst w) (snd w)) (sn_buckets s), sn_gaps := concat (map (clip_gap w) (sn_gaps s))\<rparr>)
       (chunk.fields (int i) (int n) (fst w) (snd w))"

definition cut_snapshot :: "snapshot \<Rightarrow> int list \<Rightarrow> chunk list" where
  "cut_snapshot s ps = (let ws = windows ps in map (\<lambda>i. chunk_at s (length ws) i (ws ! i)) [0..<length ws])"

text \<open>Bounds a snapshot may be cut at.\<close>

definition cut_points :: "snapshot \<Rightarrow> int list \<Rightarrow> bool" where
  "cut_points s ps =
     (sorted_wrt (<) ps \<and> 3 \<le> length ps \<and> length ps \<le> 65 \<and> hd ps = sn_start s \<and> last ps = sn_end s
      \<and> (\<forall>p \<in> set ps. (p - sn_start s) mod sn_resolution s = 0))"

lemma chunk_at_fields:
  "ch_index (chunk_at s n i w) = int i" "ch_count (chunk_at s n i w) = int n" "ch_start (chunk_at s n i w) = fst w" "ch_end (chunk_at s n i w) = snd w"
  "sn_buckets (chunk_at s n i w) = filter (bucket_within (fst w) (snd w)) (sn_buckets s)"
  "sn_gaps (chunk_at s n i w) = concat (map (clip_gap w) (sn_gaps s))"
  "sn_protocol (chunk_at s n i w) = sn_protocol s" "sn_range (chunk_at s n i w) = sn_range s" "sn_requested (chunk_at s n i w) = sn_requested s"
  "sn_resolution (chunk_at s n i w) = sn_resolution s" "sn_start (chunk_at s n i w) = sn_start s" "sn_end (chunk_at s n i w) = sn_end s"
  "sn_generated (chunk_at s n i w) = sn_generated s" "sn_source (chunk_at s n i w) = sn_source s" "sn_cache (chunk_at s n i w) = sn_cache s"
  "sn_open (chunk_at s n i w) = sn_open s" "sn_cost (chunk_at s n i w) = sn_cost s"
  by (simp_all add: chunk_at_def snapshot.defs chunk.defs)

lemma chunk_at_shared: "snapshotChunkSharedValue (chunk_at s n i w) = s\<lparr>sn_buckets := [], sn_gaps := []\<rparr>"
  by (simp add: chunk_at_def snapshotChunkSharedValue_def snapshot.defs chunk.defs)

text \<open>A valid snapshot with buckets and bounds it may be cut at.\<close>

definition cuttable :: "snapshot \<Rightarrow> int \<Rightarrow> int option \<Rightarrow> int \<Rightarrow> int list \<Rightarrow> bool" where
  "cuttable s rng resolution most ps =
     (validateSnapshot s rng resolution (sn_resolution s) most \<and> positiveInteger (sn_resolution s) \<and> sn_buckets s \<noteq> [] \<and> cut_points s ps)"

lemma start_ok:
  assumes "cuttable s rng resolution most ps"
  shows "0 \<le> sn_start s" "0 < sn_resolution s" "safe_integer (sn_end s)" "sn_start s \<le> sn_end s"
proof -
  have valid: "validateSnapshot s rng resolution (sn_resolution s) most" and step: "positiveInteger (sn_resolution s)"
    and points: "cut_points s ps" using assms by (simp_all add: cuttable_def)
  show "0 \<le> sn_start s" "0 < sn_resolution s" "safe_integer (sn_end s)"
    using valid step by (auto simp: validateSnapshot_def generationNumber_def positiveInteger_def)
  obtain p q r where "ps = p # q # r" using points by (cases ps; cases "tl ps") (auto simp: cut_points_def)
  then show "sn_start s \<le> sn_end s" using points windows_bounds [of p "q # r" "(p, q)"] by (auto simp: cut_points_def)
qed

lemma dense_snapshot:
  assumes "cuttable s rng resolution most ps"
  shows "dense_from (sn_resolution s) (sn_end s) (sn_start s) (sn_buckets s)"
    "sn_start s + int (length (sn_buckets s)) * sn_resolution s = sn_end s" "int (length (sn_buckets s)) \<le> most"
  using assms validate_dense [OF start_ok(2,1) [OF assms], of "sn_buckets s" most "sn_end s"]
  by (simp_all add: cuttable_def validateSnapshot_def)

lemma gaps_snapshot:
  assumes "cuttable s rng resolution most ps"
  shows "list_all (gap_local (Some (of_int (sn_start s))) (Some (of_int (sn_end s)))) (sn_gaps s)" "sorted_wrt gap_before (sn_gaps s)"
  using assms by (simp_all add: cuttable_def validateSnapshot_def validate_gaps)

lemma point_steps:
  assumes "cuttable s rng resolution most ps" "p \<in> set ps" "sn_start s \<le> p" obtains m where "p = sn_start s + int m * sn_resolution s"
proof -
  have "(p - sn_start s) mod sn_resolution s = 0" using assms(1,2) by (simp add: cuttable_def cut_points_def)
  then have "p - sn_start s = (p - sn_start s) div sn_resolution s * sn_resolution s" by (metis add.right_neutral div_mult_mod_eq)
  moreover have "0 \<le> (p - sn_start s) div sn_resolution s" using assms(3) start_ok(2) [OF assms(1)] by (simp add: pos_imp_zdiv_nonneg_iff)
  ultimately have "p = sn_start s + int (nat ((p - sn_start s) div sn_resolution s)) * sn_resolution s" by simp
  then show ?thesis using that by blast
qed

lemma window_facts:
  assumes "cuttable s rng resolution most ps" "i < length (windows ps)"
  shows "sn_start s \<le> fst (windows ps ! i)" "fst (windows ps ! i) < snd (windows ps ! i)" "snd (windows ps ! i) \<le> sn_end s"
    "fst (windows ps ! i) \<in> set ps" "snd (windows ps ! i) \<in> set ps"
    "(i = 0) = (fst (windows ps ! i) = sn_start s)" "(Suc i = length (windows ps)) = (snd (windows ps ! i) = sn_end s)"
proof -
  have points: "cut_points s ps" using assms(1) by (simp add: cuttable_def)
  obtain p r where ps: "ps = p # r" using points by (cases ps) (auto simp: cut_points_def)
  then have i: "i < length r" using assms(2) by (simp add: windows_length)
  have w: "windows ps ! i = ((p # r) ! i, r ! i)" using i by (simp add: ps windows_nth)
  have st: "sorted_wrt (<) (p # r)" "p = sn_start s" "last (p # r) = sn_end s" using points by (auto simp: ps cut_points_def)
  note b = windows_bounds [OF st(1), of "windows ps ! i"]
  show "sn_start s \<le> fst (windows ps ! i)" "fst (windows ps ! i) < snd (windows ps ! i)" "snd (windows ps ! i) \<le> sn_end s"
    using b assms(2) st by (simp_all add: ps)
  show "fst (windows ps ! i) \<in> set ps" "snd (windows ps ! i) \<in> set ps" unfolding w using i by (auto simp: ps nth_Cons split: nat.split)
  have lt: "(p # r) ! j < (p # r) ! k" if "j < k" "k < length (p # r)" for j k using st(1) that by (simp add: sorted_wrt_iff_nth_less)
  show "(i = 0) = (fst (windows ps ! i) = sn_start s)"
    using lt [of 0 i] i st(2) unfolding w by (cases i) auto
  have l: "last (p # r) = (p # r) ! length r" using i by (simp add: last_conv_nth)
  show "(Suc i = length (windows ps)) = (snd (windows ps ! i) = sn_end s)"
  proof (cases "Suc i = length r")
    case True
    then have "(p # r) ! length r = r ! i" by (metis nth_Cons_Suc)
    then show ?thesis using True st(3) unfolding w l by (simp add: ps windows_length)
  next
    case False
    then show ?thesis using lt [of "Suc i" "length r"] i st(3) unfolding w l by (simp add: ps windows_length)
  qed
qed

lemma segment:
  assumes "cuttable s rng resolution most ps" "i < length (windows ps)"
  obtains m n where "fst (windows ps ! i) = sn_start s + int m * sn_resolution s" "snd (windows ps ! i) = fst (windows ps ! i) + int n * sn_resolution s"
    "0 < n" "m + n \<le> length (sn_buckets s)"
    "filter (bucket_within (fst (windows ps ! i)) (snd (windows ps ! i))) (sn_buckets s) = take n (drop m (sn_buckets s))"
proof -
  note w = window_facts [OF assms] and d = start_ok(2) [OF assms(1)] and dense = dense_snapshot [OF assms(1)]
  obtain m where m: "fst (windows ps ! i) = sn_start s + int m * sn_resolution s" using point_steps [OF assms(1) w(4,1)] .
  obtain k where k: "snd (windows ps ! i) = sn_start s + int k * sn_resolution s" using point_steps [OF assms(1) w(5)] w(1,2) by auto
  have "int m * sn_resolution s < int k * sn_resolution s" using w(2) m k by simp
  then have "m < k" using d by (simp add: mult_less_cancel_right)
  have "int k * sn_resolution s \<le> int (length (sn_buckets s)) * sn_resolution s" using w(3) k dense(2) by simp
  then have "k \<le> length (sn_buckets s)" using d by (simp add: mult_le_cancel_right)
  have q: "snd (windows ps ! i) = fst (windows ps ! i) + int (k - m) * sn_resolution s" using m k \<open>m < k\<close> by (simp add: of_nat_diff algebra_simps)
  have l: "m + (k - m) \<le> length (sn_buckets s)" "0 < k - m" using \<open>m < k\<close> \<open>k \<le> _\<close> by simp_all
  show ?thesis by (rule that [OF m q l(2,1) dense_segment [OF dense(1) d m q l(1)]])
qed

lemma cut_buckets:
  fixes s ps i
  defines "p \<equiv> fst (windows ps ! i)" and "q \<equiv> snd (windows ps ! i)"
  defines "bs \<equiv> filter (bucket_within p q) (sn_buckets s)"
  assumes "cuttable s rng resolution most ps" "i < length (windows ps)"
  shows "validateBuckets bs (sn_resolution s) most True p (Some q)"
    "int (length bs) * sn_resolution s = q - p" "last_open bs = (Suc i = length (windows ps) \<and> sn_open s)"
proof -
  note w = window_facts [OF assms(4,5), folded p_def q_def] and d = start_ok(2) [OF assms(4)] and dense = dense_snapshot [OF assms(4)]
  obtain m n where mn: "p = sn_start s + int m * sn_resolution s" "q = p + int n * sn_resolution s" "0 < n" "m + n \<le> length (sn_buckets s)"
    "bs = take n (drop m (sn_buckets s))" by (rule segment [OF assms(4,5), folded p_def q_def, folded bs_def])
  have l: "length bs = n" using mn(4) by (simp add: mn(5))
  have nth: "bs ! k = sn_buckets s ! (m + k)" if "k < n" for k using that mn(4) by (simp add: mn(5))
  have df: "bucket_local (sn_resolution s) (sn_buckets s ! (m + k))" "bk_start (sn_buckets s ! (m + k)) = p + int k * sn_resolution s"
    "p + int k * sn_resolution s + sn_resolution s \<le> q" "bk_open (sn_buckets s ! (m + k)) \<longrightarrow> p + int k * sn_resolution s + sn_resolution s = sn_end s"
    if "k < n" for k
  proof -
    have j: "m + k < length (sn_buckets s)" using that mn(4) by simp
    have e: "p + int k * sn_resolution s = sn_start s + int (m + k) * sn_resolution s" using mn(1) by (simp add: algebra_simps)
    show "bucket_local (sn_resolution s) (sn_buckets s ! (m + k))" "bk_start (sn_buckets s ! (m + k)) = p + int k * sn_resolution s"
      "bk_open (sn_buckets s ! (m + k)) \<longrightarrow> p + int k * sn_resolution s + sn_resolution s = sn_end s"
      using dense(1) j unfolding e dense_from_def by auto
    have "(int k + 1) * sn_resolution s \<le> int n * sn_resolution s" using that d by (intro mult_right_mono) simp_all
    then show "p + int k * sn_resolution s + sn_resolution s \<le> q" using mn(2) by (simp add: algebra_simps)
  qed
  have open_end: "p + int k * sn_resolution s + sn_resolution s = q" if "k < n" "bk_open (sn_buckets s ! (m + k))" for k
    using df(3,4) [OF that(1)] that(2) w(3) by simp
  have "dense_from (sn_resolution s) q p bs" unfolding dense_from_def l using nth df open_end by simp
  moreover have "p + int (length bs) * sn_resolution s = q" using l mn(2) by simp
  moreover have "int (length bs) \<le> most" using l mn(4) dense(3) by simp
  moreover have "bs \<noteq> []" using l mn(3) by auto
  moreover have "0 \<le> p" using w(1) start_ok(1) [OF assms(4)] by simp
  ultimately show "validateBuckets bs (sn_resolution s) most True p (Some q)" using validate_dense [OF d, of p bs most q] by blast
  show "int (length bs) * sn_resolution s = q - p" using l mn(2) by simp
  have last: "last bs = sn_buckets s ! (m + (n - 1))" using nth [of "n - 1"] l mn(3) by (metis diff_less last_conv_nth length_greater_0_conv zero_less_one)
  show "last_open bs = (Suc i = length (windows ps) \<and> sn_open s)"
  proof (cases "Suc i = length (windows ps)")
    case True
    then have "q = sn_end s" using w(7) by simp
    then have "int (m + n) * sn_resolution s = int (length (sn_buckets s)) * sn_resolution s" using mn(1,2) dense(2) by (simp add: algebra_simps)
    then have "m + n = length (sn_buckets s)" using d by simp
    then have "last bs = last (sn_buckets s)" using last mn(3) assms(4) by (simp add: cuttable_def last_conv_nth)
    then have "last_open bs = last_open (sn_buckets s)" using l mn(3) assms(4) by (auto simp: last_open_def cuttable_def)
    then show ?thesis using True assms(4) by (simp add: cuttable_def validateSnapshot_def)
  next
    case False
    then have "q \<noteq> sn_end s" using w(7) by simp
    then have "\<not> bk_open (last bs)" using df(4) [of "n - 1"] open_end [of "n - 1"] mn(3) last by (metis diff_less zero_less_one)
    then show ?thesis using False by (simp add: last_open_def)
  qed
qed

lemma cut_gaps:
  assumes "cuttable s rng resolution most ps" "i < length (windows ps)"
  shows "validateNoData (concat (map (clip_gap (windows ps ! i)) (sn_gaps s))) (Some (of_int (fst (windows ps ! i)))) (Some (of_int (snd (windows ps ! i))))"
proof -
  let ?w = "windows ps ! i"
  have "clip_gap ?w = pieces [?w]" by (rule ext) (simp add: pieces_def)
  then have s: "sorted_wrt gap_before (concat (map (clip_gap ?w) (sn_gaps s)))"
    using all_pieces_sorted [OF gaps_snapshot(2) [OF assms(1)], of "[?w]"] by simp
  have p: "(0::rat) \<le> of_int (fst ?w)" using window_facts(1) [OF assms] start_ok(1) [OF assms(1)] by simp
  have "gap_local (Some (of_int (fst ?w))) (Some (of_int (snd ?w))) h" if "h \<in> set (concat (map (clip_gap ?w) (sn_gaps s)))" for h
  proof -
    have "h \<in> (\<Union>g \<in> set (sn_gaps s). set (clip_gap ?w g))" using that by simp
    then obtain g where g: "g \<in> set (sn_gaps s)" "h \<in> set (clip_gap ?w g)" by blast
    then have "gap_local (Some (of_int (sn_start s))) (Some (of_int (sn_end s))) g" using gaps_snapshot(1) [OF assms(1)] by (simp add: list_all_iff)
    then show ?thesis using clip_facts [OF g(2)] p by (simp add: gap_local_def)
  qed
  then show ?thesis using s by (simp add: validate_gaps list_all_iff)
qed

lemma windows_count: "cuttable s rng resolution most ps \<Longrightarrow> 2 \<le> length (windows ps) \<and> length (windows ps) \<le> 64"
  by (cases ps) (auto simp: cuttable_def cut_points_def windows_length)

lemma cut_valid:
  assumes "cuttable s rng resolution most ps" "i < length (windows ps)"
  shows "validateSnapshotChunk (chunk_at s (length (windows ps)) i (windows ps ! i)) rng resolution most"
proof -
  note w = window_facts [OF assms] and b = cut_buckets [OF assms]
  have v: "validateSnapshot s rng resolution (sn_resolution s) most" "positiveInteger (sn_resolution s)" using assms(1) by (simp_all add: cuttable_def)
  have "(p - sn_start s) mod sn_resolution s = 0" if "p \<in> set ps" for p using assms(1) that by (simp add: cuttable_def cut_points_def)
  then have al: "(fst (windows ps ! i) - sn_start s) mod sn_resolution s = 0" "(snd (windows ps ! i) - sn_start s) mod sn_resolution s = 0"
    using w(4,5) by blast+
  have safe: "generationNumber x" if "sn_start s \<le> x" "x \<le> sn_end s" for x
    using that start_ok(1,3) [OF assms(1)] by (simp add: generationNumber_def safe_integer_def)
  have n: "2 \<le> length (windows ps)" "length (windows ps) \<le> 64" using windows_count [OF assms(1)] by simp_all
  have ix: "generationNumber (int i)" using assms(2) n(2) by (simp add: generationNumber_def safe_integer_def)
  have fin: "(int i = int (length (windows ps)) - 1) = (Suc i = length (windows ps))" using assms(2) by auto
  have e: "sn_start s \<le> snd (windows ps ! i)" "fst (windows ps ! i) \<le> sn_end s" using w by simp_all
  show ?thesis unfolding validateSnapshotChunk_def Let_def chunk_at_fields fin
    using v w(1,2,3,6,7) al b cut_gaps [OF assms] n ix safe [OF w(1) e(2)] safe [OF e(1) w(3)] assms(2)
    by (simp add: validateSnapshot_def CURRENT_STATS_MAX_SNAPSHOT_CHUNKS_def)
qed

lemma cut_nth: "i < length (windows ps) \<Longrightarrow> cut_snapshot s ps ! i = chunk_at s (length (windows ps)) i (windows ps ! i)"
  by (simp add: cut_snapshot_def Let_def)

lemma cut_length: "length (cut_snapshot s ps) = length (windows ps)"
  by (simp add: cut_snapshot_def Let_def)

lemma cut_mem: "c \<in> set (cut_snapshot s ps) \<Longrightarrow> \<exists>i < length (windows ps). c = chunk_at s (length (windows ps)) i (windows ps ! i)"
  by (auto simp: cut_snapshot_def Let_def)

lemma cut_fits:
  assumes "cuttable s rng resolution most ps"
  shows "chunks_fit rng resolution most (set (cut_snapshot s ps))"
proof -
  have "sorted_wrt (<) ps" using assms by (simp add: cuttable_def cut_points_def)
  then have dj: "snd (windows ps ! i) \<le> fst (windows ps ! j)" if "i < j" "j < length (windows ps)" for i j
    using windows_disjoint that by (auto simp: sorted_wrt_iff_nth_less)
  have "compatible c d \<and> snapshotChunkSharedValue c = snapshotChunkSharedValue d \<and> ch_count c = ch_count d"
    if c: "c \<in> set (cut_snapshot s ps)" and d: "d \<in> set (cut_snapshot s ps)" for c d
  proof -
    obtain i where i: "i < length (windows ps)" "c = chunk_at s (length (windows ps)) i (windows ps ! i)" using cut_mem [OF c] by blast
    obtain j where j: "j < length (windows ps)" "d = chunk_at s (length (windows ps)) j (windows ps ! j)" using cut_mem [OF d] by blast
    show ?thesis using dj [of i j] dj [of j i] i j
      by (cases i j rule: linorder_cases) (simp_all add: compatible_def chunk_at_fields chunk_at_shared)
  qed
  moreover have "validateSnapshotChunk c rng resolution most" if "c \<in> set (cut_snapshot s ps)" for c
    using cut_mem [OF that] cut_valid [OF assms] by blast
  ultimately show ?thesis unfolding chunks_fit_def by blast
qed

lemma cut_buckets_all:
  assumes "cuttable s rng resolution most ps"
  shows "concat (map sn_buckets (cut_snapshot s ps)) = sn_buckets s"
proof -
  have points: "sorted_wrt (<) ps" "ps \<noteq> []" "hd ps = sn_start s" "last ps = sn_end s" using assms by (auto simp: cuttable_def cut_points_def)
  note dense = dense_snapshot [OF assms] and d = start_ok(2) [OF assms]
  have take: "concat (map sn_buckets (take k (cut_snapshot s ps))) = take m (sn_buckets s)"
    if "k \<le> length (windows ps)" "(if k = 0 then sn_start s else snd (windows ps ! (k - 1))) = sn_start s + int m * sn_resolution s" for k m
    using that
  proof (induction k arbitrary: m)
    case 0
    then show ?case using d by simp
  next
    case (Suc k)
    have k: "k < length (windows ps)" using Suc.prems by simp
    obtain a n where an: "fst (windows ps ! k) = sn_start s + int a * sn_resolution s" "snd (windows ps ! k) = fst (windows ps ! k) + int n * sn_resolution s"
      "filter (bucket_within (fst (windows ps ! k)) (snd (windows ps ! k))) (sn_buckets s) = take n (drop a (sn_buckets s))"
      using segment [OF assms k] by metis
    have "(if k = 0 then sn_start s else snd (windows ps ! (k - 1))) = fst (windows ps ! k)"
    proof (cases k)
      case 0
      then show ?thesis using window_facts(6) [OF assms k] by simp
    next
      case (Suc j)
      obtain p r where r: "ps = p # r" using points(2) by (cases ps) auto
      then show ?thesis using k Suc by (simp add: windows_nth windows_length)
    qed
    then have "concat (map sn_buckets (take k (cut_snapshot s ps))) = take a (sn_buckets s)" using Suc.IH [of a] k an(1) by simp
    moreover have "sn_buckets (cut_snapshot s ps ! k) = take n (drop a (sn_buckets s))" using an(3) k by (simp add: cut_nth chunk_at_fields)
    moreover have "m = a + n"
    proof -
      have "int m * sn_resolution s = int (a + n) * sn_resolution s" using Suc.prems(2) an(1,2) by (simp add: algebra_simps)
      then show ?thesis using d by simp
    qed
    ultimately show ?case using k by (simp add: take_Suc_conv_app_nth cut_length take_add)
  qed
  have n: "0 < length (windows ps)" using windows_count [OF assms] by linarith
  then have "snd (windows ps ! (length (windows ps) - 1)) = sn_end s" using window_facts(7) [OF assms, of "length (windows ps) - 1"] by simp
  then have "concat (map sn_buckets (take (length (windows ps)) (cut_snapshot s ps))) = take (length (sn_buckets s)) (sn_buckets s)"
    using take [of "length (windows ps)" "length (sn_buckets s)"] n dense(2) by simp
  then show ?thesis by (simp add: cut_length take_all)
qed

lemma cut_gaps_all:
  assumes "cuttable s rng resolution most ps"
  shows "mergeSnapshotChunkNoData (cut_snapshot s ps) = mergeGaps (sn_gaps s)"
proof -
  obtain p r where ps: "ps = p # r" using assms by (cases ps) (auto simp: cuttable_def cut_points_def)
  have points: "sorted_wrt (<) (p # r)" "p = sn_start s" "last (p # r) = sn_end s" using assms by (auto simp: ps cuttable_def cut_points_def)
  have "map sn_gaps (cut_snapshot s ps) = map (\<lambda>w. concat (map (clip_gap w) (sn_gaps s))) (windows ps)"
    by (rule nth_equalityI) (simp_all add: cut_length cut_nth chunk_at_fields)
  then have "sort_key gap_key (concat (map sn_gaps (cut_snapshot s ps))) = concat (map (pieces (windows ps)) (sn_gaps s))"
    using sorted_pieces [OF gaps_snapshot(2) [OF assms] windows_disjoint [of ps]] points(1) by (simp add: ps)
  moreover have "\<forall>g \<in> set (sn_gaps s). of_int p \<le> gp_start g \<and> gp_end g \<le> of_int (last (p # r)) \<and> gp_start g < gp_end g"
    using gaps_snapshot(1) [OF assms] points(2,3) by (auto simp: list_all_iff gap_local_def simp del: last.simps)
  ultimately show ?thesis using merge_all_pieces [OF points(1)] by (simp add: mergeSnapshotChunkNoData_def ps)
qed

lemma cut_contiguous:
  assumes "cuttable s rng resolution most ps" shows "contiguous (cut_snapshot s ps)"
proof -
  have "contiguous cs" if "\<forall>i. Suc i < length cs \<longrightarrow> ch_end (cs ! i) = ch_start (cs ! Suc i)" for cs
    using that
  proof (induction cs rule: contiguous.induct)
    case (1 c d cs)
    have "\<forall>i. Suc i < length (d # cs) \<longrightarrow> ch_end ((d # cs) ! i) = ch_start ((d # cs) ! Suc i)" using 1(2) by (metis Suc_less_eq length_Cons nth_Cons_Suc)
    moreover have "ch_end c = ch_start d" using 1(2) by force
    ultimately show ?case using 1(1) by simp
  qed simp_all
  moreover obtain p r where ps: "ps = p # r" using assms by (cases ps) (auto simp: cuttable_def cut_points_def)
  ultimately show ?thesis by (simp add: cut_length cut_nth chunk_at_fields windows_length windows_nth)
qed

lemma cut_assembles:
  assumes "cuttable s rng resolution most ps" "mergeGaps (sn_gaps s) = sn_gaps s"
  shows "assembleChunks rng resolution most (cut_snapshot s ps) = Some s"
proof -
  have n: "2 \<le> length (windows ps)" using windows_count [OF assms(1)] by simp
  obtain c cs where cs: "cut_snapshot s ps = c # cs" using n cut_length [of s ps] by (cases "cut_snapshot s ps") auto
  have c: "c = chunk_at s (length (windows ps)) 0 (windows ps ! 0)" using cut_nth [of 0 ps s] cs n by (cases "windows ps") simp_all
  obtain b where b: "assembleChunks rng resolution most (cut_snapshot s ps) = assemblySnapshot b" "assembly_ok b" "as_first b = c"
    "as_range b = rng" "as_resolution b = resolution" "as_max b = most" "held_chunks b = set (cut_snapshot s ps)"
    using assembled [of rng resolution most c cs] cut_fits [OF assms(1)] cs by metis
  have ix: "map ch_index (cut_snapshot s ps) = map int [0..<length (windows ps)]"
    by (rule nth_equalityI) (simp_all add: cut_length cut_nth chunk_at_fields)
  then have dist: "distinct (map ch_index (cut_snapshot s ps))" "sorted (map ch_index (cut_snapshot s ps))" by (simp_all add: distinct_map sorted_map sorted_wrt_map [symmetric] sorted_wrt_upt)
  have ob: "orderedChunks b = cut_snapshot s ps" by (rule ordered_is [OF b(2,7) dist(2,1)])
  have "distinct (cut_snapshot s ps)" using dist(1) by (rule distinct_map [THEN iffD1, THEN conjunct1])
  then have len: "length (as_chunks b) = length (windows ps)"
    using assembly_length [OF b(2)] by (simp add: b(7) distinct_card cut_length)
  have cand: "assembledSnapshot b = s"
    using cut_buckets_all [OF assms(1)] cut_gaps_all [OF assms(1)] assms(2)
    by (simp add: assembledSnapshot_def ob b(3) c chunk_at_shared)
  have "cut_snapshot s ps \<noteq> []" using cs by simp
  moreover obtain N where N: "length (windows ps) = Suc N" using n by (cases "length (windows ps)") simp_all
  ultimately have "last (cut_snapshot s ps) = chunk_at s (length (windows ps)) N (windows ps ! N)"
    by (simp add: last_conv_nth cut_length cut_nth)
  then have l: "ch_end (last (cut_snapshot s ps)) = sn_end s" using window_facts(7) [OF assms(1), of N] N by (simp add: chunk_at_fields)
  have f: "ch_start (hd (cut_snapshot s ps)) = sn_start s" using window_facts(6) [OF assms(1), of 0] N by (simp add: cs c chunk_at_fields)
  have "assemblySnapshot b = Some s" using assms(1) cut_contiguous [OF assms(1)] l f
    by (simp add: assemblySnapshot_def Let_def ob cand len b(3-6)) (simp add: c chunk_at_fields cuttable_def)
  then show ?thesis using b(1) by simp
qed

end
