(* ===== verification/Stats_Tables.thy ===== *)
theory Stats_Tables
  imports Stats_Loading Stats_Cut
begin

text \<open>
  The buckets and the spans of a generation as tables keyed by identity, and what an accepted delta does to
  them.
\<close>

section \<open>Tables\<close>

definition table :: "('a \<Rightarrow> identity) \<Rightarrow> 'a list \<Rightarrow> identity \<Rightarrow> 'a option" where
  "table f xs = map_of (map (\<lambda>x. (f x, x)) xs)"

definition updated :: "(identity \<Rightarrow> 'a option) \<Rightarrow> (identity \<Rightarrow> 'a option) \<Rightarrow> identity list \<Rightarrow> identity \<Rightarrow> 'a option" where
  "updated old new gone k = (case new k of Some v \<Rightarrow> Some v | None \<Rightarrow> if k \<in> set gone then None else old k)"

definition kept :: "('a \<Rightarrow> bool) \<Rightarrow> (identity \<Rightarrow> 'a option) \<Rightarrow> identity \<Rightarrow> 'a option" where
  "kept P m k = (case m k of Some v \<Rightarrow> if P v then Some v else None | None \<Rightarrow> None)"

lemma map_of_rev_distinct: "distinct (map fst al) \<Longrightarrow> map_of (rev al) = map_of al"
  by (subst map_of_inject_set) (simp_all add: rev_map [symmetric])

lemma map_of_put_all: "map_of (put_all new al) = map_of al ++ map_of (rev new)"
proof (induction new arbitrary: al)
  case (Cons p new)
  obtain k v where p: "p = (k, v)" by (rule prod.exhaust)
  have "put_all (p # new) al = put_all new (AList.update k v al)" by (simp add: put_all_def p)
  then show ?case using Cons.IH by (simp add: p update_conv' map_add_def fun_eq_iff split: option.split)
qed (simp add: put_all_def)

lemma put_all_keys: "distinct (map fst al) \<Longrightarrow> distinct (map fst (put_all new al))"
  by (induction new arbitrary: al) (auto simp: put_all_def distinct_update)

lemma tombstones_map: "map_of (identity_of_tombstones ts al) = (\<lambda>k. if k \<in> set ts then None else map_of al k)"
  by (induction ts arbitrary: al) (auto simp: identity_of_tombstones_def delete_conv' fun_eq_iff)

lemma tombstones_keys: "distinct (map fst al) \<Longrightarrow> distinct (map fst (identity_of_tombstones ts al))"
  by (induction ts arbitrary: al) (auto simp: identity_of_tombstones_def distinct_delete)

definition keyed :: "('a \<Rightarrow> identity) \<Rightarrow> (identity \<times> 'a) list \<Rightarrow> bool" where
  "keyed f al = (distinct (map fst al) \<and> (\<forall>k v. map_of al k = Some v \<longrightarrow> f v = k))"

lemma keyed_identity: "keyed f (by_identity f xs)"
proof -
  have m: "map_of (by_identity f xs) = map_of (rev (map (\<lambda>x. (f x, x)) xs))" by (simp add: by_identity_def map_of_put_all)
  have "f v = k" if "map_of (by_identity f xs) k = Some v" for k v
  proof -
    have "(k, v) \<in> set (rev (map (\<lambda>x. (f x, x)) xs))" using that unfolding m by (rule map_of_SomeD)
    then show ?thesis by auto
  qed
  moreover have "distinct (map fst (by_identity f xs))" by (simp add: by_identity_def put_all_keys)
  ultimately show ?thesis unfolding keyed_def by blast
qed

lemma keyed_tombstones: "keyed f al \<Longrightarrow> keyed f (identity_of_tombstones ts al)"
  by (auto simp: keyed_def tombstones_map tombstones_keys split: if_splits)

lemma keyed_put: "keyed f al \<Longrightarrow> keyed f new \<Longrightarrow> keyed f (put_all new al)"
  by (auto simp: keyed_def map_of_put_all put_all_keys map_of_rev_distinct dest: map_add_SomeD)

lemma keyed_values:
  assumes "keyed f al"
  shows "table f (map snd al) = map_of al" "distinct (map f (map snd al))"
proof -
  have "map (\<lambda>x. (f x, x)) (map snd al) = al"
    using assms by (force simp: keyed_def intro!: map_idI)
  then show "table f (map snd al) = map_of al" by (simp add: table_def)
  have "map f (map snd al) = map fst al" using assms by (force simp: keyed_def)
  moreover have "distinct (map fst al)" using assms by (simp add: keyed_def)
  ultimately show "distinct (map f (map snd al))" by metis
qed

lemma identity_table: "distinct (map f xs) \<Longrightarrow> map_of (by_identity f xs) = table f xs"
  using map_of_rev_distinct [of "map (\<lambda>x. (f x, x)) xs"] by (simp add: by_identity_def map_of_put_all table_def comp_def)

lemma table_kept: "distinct (map f xs) \<Longrightarrow> table f (filter P xs) = kept P (table f xs)"
proof (induction xs)
  case (Cons x xs)
  have "table f xs (f x) = None" using Cons.prems by (auto simp: table_def map_of_eq_None_iff)
  then show ?case using Cons by (auto simp: table_def kept_def fun_eq_iff)
qed (simp add: table_def kept_def fun_eq_iff)

lemma table_sorted: "distinct (map f xs) \<Longrightarrow> table f (sort_key g xs) = table f xs"
proof -
  assume d: "distinct (map f xs)"
  have "mset (map f (sort_key g xs)) = mset (map f xs)" by simp
  then have "distinct (map f (sort_key g xs))" using d by (metis mset_eq_imp_distinct_iff)
  then show ?thesis using d unfolding table_def by (subst map_of_inject_set) (simp_all add: comp_def)
qed

lemma merged_table:
  fixes f :: "'a \<Rightarrow> identity" and ts :: "identity list"
  assumes "distinct (map f old)" "distinct (map f new)"
  defines "al \<equiv> put_all (by_identity f new) (identity_of_tombstones ts (by_identity f old))"
  shows "table f (sort_key g (filter P (map snd al))) = kept P (updated (table f old) (table f new) ts)"
proof -
  have k: "keyed f al" unfolding al_def by (intro keyed_put keyed_tombstones keyed_identity)
  have "distinct (map fst (by_identity f new))" using keyed_identity [of f new] by (simp add: keyed_def)
  then have "map_of al = updated (table f old) (table f new) ts"
    by (auto simp: al_def map_of_put_all map_of_rev_distinct tombstones_map identity_table assms(1,2) updated_def fun_eq_iff map_add_def split: option.split)
  moreover have "distinct (map f (filter P (map snd al)))" using keyed_values(2) [OF k] by (rule distinct_map_filter)
  ultimately show ?thesis using keyed_values [OF k] by (simp add: table_sorted table_kept)
qed

section \<open>Identities of validated lists\<close>

lemma scan_increasing:
  "scanBuckets d dense w e p prev bs = Some x \<Longrightarrow> sorted_wrt (<) (map bk_start bs) \<and> (\<forall>b \<in> set bs. prev < bk_start b)"
  by (induction bs arbitrary: p prev) (fastforce split: if_splits)+

lemma bucket_identities: "validateBuckets bs d most dense w e \<Longrightarrow> distinct (map bucketIdentityKey bs)"
proof -
  assume "validateBuckets bs d most dense w e"
  then have "sorted_wrt (<) (map bk_start bs)"
    by (auto simp: validateBuckets_def dest: scan_increasing split: option.splits)
  then have "distinct (map bk_start bs)" by (simp add: strict_sorted_iff)
  then show ?thesis by (auto simp: distinct_map bucketIdentityKey_def intro!: inj_onI dest: inj_onD)
qed

lemma gap_identities: "validateNoData gs w e \<Longrightarrow> distinct (map noDataIdentityKey gs)"
proof -
  assume v: "validateNoData gs w e"
  then have "sorted_wrt gap_before gs" "\<forall>g \<in> set gs. gp_start g < gp_end g"
    by (auto simp: validate_gaps list_all_iff gap_local_def)
  then have "sorted_wrt (\<lambda>g h. gap_key g < gap_key h) gs"
    by (auto intro: sorted_wrt_mono_rel gap_before_key)
  then have "distinct (map gap_key gs)" by (simp add: sorted_wrt_map [symmetric] strict_sorted_iff)
  then have "distinct gs" "\<forall>g \<in> set gs. \<forall>h \<in> set gs. gap_key g = gap_key h \<longrightarrow> g = h" by (simp_all add: distinct_map inj_on_def)
  then show ?thesis by (simp add: distinct_map inj_on_def noDataIdentityKey_def gap_key_def)
qed

lemma delta_lists:
  assumes "delta_verdict cf d a s = Advances g"
  shows "distinct (map bucketIdentityKey (dl_buckets d))" "distinct (map noDataIdentityKey (dl_gaps d))"
    "dl_range d = sl_range (ct_selection s)" "dl_resolution d = concreteResolution s"
proof -
  define c where "c = delta_candidate d a (sl_range (ct_selection s)) (concreteResolution s)"
  note v = assms [unfolded delta_verdict_def Let_def, folded c_def]
  have "validateBuckets (dl_buckets d) (concreteResolution s) (cp_max (sc_capabilities cf)) False 0 None" "validateNoData (dl_gaps d) None None"
    using v by (simp_all split: if_splits)
  then show "distinct (map bucketIdentityKey (dl_buckets d))" "distinct (map noDataIdentityKey (dl_gaps d))"
    using bucket_identities gap_identities by blast+
  show "dl_range d = sl_range (ct_selection s)" "dl_resolution d = concreteResolution s" using v by (simp_all split: if_splits)
qed

lemma candidate_lists:
  "sn_buckets (delta_candidate d a rng r) =
     (let e = delta_end d a r in sort_key bk_start (filter (\<lambda>x. e - rng \<le> bk_start x \<and> bk_start x + bk_duration x \<le> e)
            (map snd (put_all (by_identity bucketIdentityKey (dl_buckets d))
              (identity_of_tombstones (dl_tombstones d) (by_identity bucketIdentityKey (sn_buckets a)))))))"
  "sn_gaps (delta_candidate d a rng r) =
     (let e = delta_end d a r in sort_key gap_key (filter (\<lambda>g. of_int (e - rng) < gp_end g \<and> gp_start g < of_int e)
            (map snd (put_all (by_identity noDataIdentityKey (dl_gaps d))
              (identity_of_tombstones (dl_tombstones d) (by_identity noDataIdentityKey (sn_gaps a)))))))"
  "sn_end (delta_candidate d a rng r) = delta_end d a r" "sn_start (delta_candidate d a rng r) = delta_end d a r - rng"
  by (simp_all add: delta_candidate_def Let_def)

lemma delta_tables:
  assumes "delta_verdict cf d a s = Advances g" "view_ok cf key a"
  shows "table bucketIdentityKey (sn_buckets g) =
      kept (\<lambda>b. sn_start g \<le> bk_start b \<and> bk_start b + bk_duration b \<le> sn_end g)
        (updated (table bucketIdentityKey (sn_buckets a)) (table bucketIdentityKey (dl_buckets d)) (dl_tombstones d))"
    "table noDataIdentityKey (sn_gaps g) =
      kept (\<lambda>x. of_int (sn_start g) < gp_end x \<and> gp_start x < of_int (sn_end g))
        (updated (table noDataIdentityKey (sn_gaps a)) (table noDataIdentityKey (dl_gaps d)) (dl_tombstones d))"
proof -
  have "distinct (map bucketIdentityKey (sn_buckets a))" "distinct (map noDataIdentityKey (sn_gaps a))"
    using assms(2) bucket_identities gap_identities by (auto simp: view_ok_def)
  then show "table bucketIdentityKey (sn_buckets g) =
      kept (\<lambda>b. sn_start g \<le> bk_start b \<and> bk_start b + bk_duration b \<le> sn_end g)
        (updated (table bucketIdentityKey (sn_buckets a)) (table bucketIdentityKey (dl_buckets d)) (dl_tombstones d))"
    "table noDataIdentityKey (sn_gaps g) =
      kept (\<lambda>x. of_int (sn_start g) < gp_end x \<and> gp_start x < of_int (sn_end g))
        (updated (table noDataIdentityKey (sn_gaps a)) (table noDataIdentityKey (dl_gaps d)) (dl_tombstones d))"
    unfolding delta_advances(1) [OF assms(1)] candidate_lists Let_def
    by (simp_all only: merged_table [OF _ delta_lists(1) [OF assms(1)]] merged_table [OF _ delta_lists(2) [OF assms(1)]])
qed

end
