(* ===== verification/Stats_Properties.thy ===== *)
theory Stats_Properties
  imports Stats_Tables
begin

text \<open>
  The properties of the statistics client: the view it shows, the deltas that advance it, its repairs, and the
  assembly of chunked snapshots.
\<close>

interpretation stats_views: invariant_machine "stats_step cf" "views_ok cf" for cf
  by unfold_locales (auto elim!: stats_stepE intro: views_ok_event)

interpretation stats_loads: invariant_machine "stats_step cf" loading for cf
  by unfold_locales (auto elim!: stats_stepE intro: loading_event)

interpretation stats_memory: invariant_machine "stats_step cf" "\<lambda>s. remembers s \<and> advanced s\<^sub>0 s" for cf s\<^sub>0
  by unfold_locales (auto elim!: stats_stepE dest: remembers_event intro: advanced_trans)

section \<open>Concrete runs\<close>

definition stats_run :: "stats_config \<Rightarrow> (int \<times> stats_event) list \<Rightarrow> controller \<Rightarrow> controller" where
  "stats_run cf evs s = fold (\<lambda>(now, ev). stats_do cf now ev) evs s"

lemma stats_run_reach: "(stats_step cf)\<^sup>*\<^sup>* s (stats_run cf evs s)"
proof (induction evs arbitrary: s)
  case (Cons e evs)
  have "stats_step cf s (stats_do cf (fst e) (snd e) s)" by (rule stats_event)
  with Cons.IH [of "stats_do cf (fst e) (snd e) s"] show ?case
    by (simp add: stats_run_def split_beta converse_rtranclp_into_rtranclp)
qed (simp add: stats_run_def)

definition sample_caps :: capabilities where
  "sample_caps = \<lparr>cp_choices = [1, 10, 60, 300], cp_max = 600, cp_min = 1, cp_cadence = 60,
     cp_ranges = [\<lparr>cp_range = 4, cp_auto = 1, cp_explicit = [1], cp_buckets = [(1, 4)]\<rparr>,
       \<lparr>cp_range = 20, cp_auto = 10, cp_explicit = [1, 10], cp_buckets = [(1, 20), (10, 2)]\<rparr>], cp_migration = None\<rparr>"

definition sample_stats_config :: stats_config where
  "sample_stats_config = \<lparr>sc_capabilities = sample_caps, sc_repairBase = 500, sc_repairMax = 30000, sc_client = ''c''\<rparr>"

definition sample_bucket :: "bool \<Rightarrow> int \<Rightarrow> bucket" where
  "sample_bucket opened t =
     \<lparr>bk_start = t, bk_duration = 1, bk_series = [], bk_count = 0, bk_first = None, bk_last = None, bk_open = opened\<rparr>"

definition sample_cost :: cost_report where
  "sample_cost = \<lparr>co_tokens = 0, co_micro = 0, co_list = 0, co_dimensions = replicate 6 \<lparr>am_tokens = 0, am_micro = 0, am_list = 0\<rparr>,
     co_priced = \<lparr>cv_atoms = 0, cv_tokens = 0\<rparr>, co_unpriced = \<lparr>cv_atoms = 0, cv_tokens = 0\<rparr>, cr_schema = 4, cr_reasoning = False,
     cr_models = [], cr_agents = [], cr_evidence = [], cr_revision = 0, cr_omissions = [0, 0, 0]\<rparr>"

definition sample_snapshot :: snapshot where
  "sample_snapshot = \<lparr>sn_protocol = 2, sn_range = 4, sn_requested = None, sn_resolution = 1, sn_start = 100, sn_end = 104,
     sn_generated = 104, sn_source = 1, sn_cache = 1, sn_open = True,
     sn_buckets = map (sample_bucket False) [100, 101, 102] @ [sample_bucket True 103], sn_gaps = [], sn_cost = sample_cost, sn_backfill = None\<rparr>"

definition sample_delta :: delta where
  "sample_delta = \<lparr>dl_protocol = 2, dl_range = 4, dl_resolution = 1, dl_source = 2, dl_base = 1, dl_cache = 2, dl_revision = 1,
     dl_buckets = [sample_bucket False 103, sample_bucket True 104], dl_gaps = [], dl_tombstones = [BucketId 100 1], dl_cost = sample_cost\<rparr>"

definition sample_controller :: controller where
  "sample_controller = the (createController sample_stats_config (Some 4) SavedAuto)"

lemma sample_created: "createController sample_stats_config (Some 4) SavedAuto = Some sample_controller"
proof -
  have "createController sample_stats_config (Some 4) SavedAuto \<noteq> None" by code_simp
  then show ?thesis by (simp add: sample_controller_def)
qed

text \<open>The first snapshot has arrived; then a delta.\<close>

definition sample_first :: controller where
  "sample_first = stats_run sample_stats_config
     [(103000, Start), (103000, RepairFires), (103100, RepairAnswered (Answered sample_snapshot))] sample_controller"

lemma sample_first_reach: "(stats_step sample_stats_config)\<^sup>*\<^sup>* sample_controller sample_first"
  by (simp add: sample_first_def stats_run_reach)

section \<open>The view\<close>

lemma scan_tiles:
  "scanBuckets d True w (Some e) p prev bs = Some x \<Longrightarrow>
     map bk_start bs = map (\<lambda>i. p + int i * d) [0..<length bs] \<and> x = p + int (length bs) * d"
proof (induction bs arbitrary: p prev)
  case (Cons b bs)
  then have "bk_start b = p" "scanBuckets d True w (Some e) (p + d) p bs = Some x" by (auto split: if_splits)
  with Cons.IH [of "p + d" p] show ?case
    by (simp add: map_upt_Suc algebra_simps del: upt_Suc)
qed simp

lemma validate_tiles:
  assumes "validateBuckets bs d most True w (Some e)"
  shows "int (length bs) \<le> most"
    "bs = [] \<or> map bk_start bs = map (\<lambda>i. w + int i * d) [0..<length bs] \<and> w + int (length bs) * d = e"
  using assms scan_tiles [of d w e w "-1" bs] by (auto simp: validateBuckets_def split: option.splits)

text \<open>
  C28. In every reachable state the generation shown has the range and the resolution of the selection, its window
  is exactly the range, and its buckets, if there are any, tile the window without a hole and stay within the
  bound the server announced.
\<close>

theorem stats_view_exact:
  assumes "createController cf range0 resolution0 = Some s0" "(stats_step cf)\<^sup>*\<^sup>* s0 s" "ct_active s = Some g"
  shows "sn_range g = sl_range (ct_selection s) \<and> sn_resolution g = concreteResolution s
    \<and> sn_end g - sn_start g = sl_range (ct_selection s)
    \<and> (sn_buckets g = []
       \<or> map bk_start (sn_buckets g) = map (\<lambda>i. sn_start g + int i * concreteResolution s) [0..<length (sn_buckets g)]
         \<and> int (length (sn_buckets g)) * concreteResolution s = sl_range (ct_selection s))
    \<and> int (length (sn_buckets g)) \<le> cp_max (sc_capabilities cf)"
proof -
  have "views_ok cf s" using stats_views.inv_reach [OF assms(2) views_ok_init [OF assms(1)]] .
  then have v: "view_ok cf (selectionSnapshotKey s) g" using assms(3) by (simp add: views_ok_def)
  then have "validateBuckets (sn_buckets g) (concreteResolution s) (cp_max (sc_capabilities cf)) True (sn_start g) (Some (sn_end g))"
    by (simp add: view_ok_def selectionSnapshotKey_def)
  from validate_tiles [OF this] v show ?thesis by (auto simp: view_ok_def selectionSnapshotKey_def)
qed

theorem stats_view_exact_witness:
  "\<exists>g. ct_active sample_first = Some g \<and> sn_end g - sn_start g = 4 \<and> length (sn_buckets g) = 4"
proof -
  have a: "ct_active sample_first = Some sample_snapshot" "sl_range (ct_selection sample_first) = 4" by code_simp+
  from stats_view_exact [OF sample_created sample_first_reach a(1)] a(2) have "sn_end sample_snapshot - sn_start sample_snapshot = 4" by simp
  moreover have "length (sn_buckets sample_snapshot) = 4" by code_simp
  ultimately show ?thesis using a(1) by blast
qed

text \<open>
  C27. A delta that is accepted updates the tables of the generation: the buckets and the spans without data, keyed by
  identity, are those of the delta, and those of the old generation that the delta neither replaces nor removes, as
  far as they lie in (the spans: reach into) the new window.
\<close>

theorem delta_refines_update:
  assumes "createController cf range0 resolution0 = Some s0" "(stats_step cf)\<^sup>*\<^sup>* s0 s"
    "ct_active s = Some a" "ct_active (acceptDelta cf now (Some d) s) = Some g" "g \<noteq> a"
  shows "table bucketIdentityKey (sn_buckets g) =
      kept (\<lambda>b. sn_start g \<le> bk_start b \<and> bk_start b + bk_duration b \<le> sn_end g)
        (updated (table bucketIdentityKey (sn_buckets a)) (table bucketIdentityKey (dl_buckets d)) (dl_tombstones d))
    \<and> table noDataIdentityKey (sn_gaps g) =
      kept (\<lambda>x. of_int (sn_start g) < gp_end x \<and> gp_start x < of_int (sn_end g))
        (updated (table noDataIdentityKey (sn_gaps a)) (table noDataIdentityKey (dl_gaps d)) (dl_tombstones d))
    \<and> sn_cache g = dl_cache d \<and> sn_source g = dl_source d"
proof -
  have "views_ok cf s" using stats_views.inv_reach [OF assms(2) views_ok_init [OF assms(1)]] .
  then have v: "view_ok cf (selectionSnapshotKey s) a" using assms(3) by (simp add: views_ok_def)
  have "ct_active (rejectDelta now p s) = ct_active s" for p
    using same_view_reject [OF same_view_refl, of s now p] by (simp add: same_view_def)
  then have d: "delta_verdict cf d a s = Advances g" using assms(3-5)
    by (auto simp: acceptDelta_def split: if_splits delta_outcome.splits)
  show ?thesis using delta_tables [OF d v] by (simp add: delta_advances(1) [OF d] candidate_fields)
qed

theorem delta_refines_update_witness:
  "\<exists>g. ct_active (acceptDelta sample_stats_config 104000 (Some sample_delta) sample_first) = Some g
     \<and> sn_cache g = 2 \<and> table bucketIdentityKey (sn_buckets g) (BucketId 100 1) = None
     \<and> table bucketIdentityKey (sn_buckets g) (BucketId 103 1) = Some (sample_bucket False 103)"
proof -
  let ?t = "acceptDelta sample_stats_config 104000 (Some sample_delta) sample_first"
  have a: "ct_active sample_first = Some sample_snapshot" by code_simp
  have "map_option (\<lambda>g. (sn_cache g, sn_start g, sn_end g)) (ct_active ?t) = Some (2, 101, 105)" by code_simp
  then obtain g where g: "ct_active ?t = Some g" "sn_cache g = 2" "sn_start g = 101" "sn_end g = 105" by auto
  then have "g \<noteq> sample_snapshot" by (auto simp: sample_snapshot_def)
  from delta_refines_update [OF sample_created sample_first_reach a g(1) this] g show ?thesis
    by (simp add: kept_def updated_def table_def sample_delta_def sample_bucket_def bucketIdentityKey_def)
qed

section \<open>Deltas\<close>

text \<open>
  C29. A delta is applied at most once over the life of the controller: once it has been accepted, no later state,
  whatever was selected, shown or repaired in between, lets it change the generation again.
\<close>

theorem delta_applied_once:
  assumes "createController cf range0 resolution0 = Some s0" "(stats_step cf)\<^sup>*\<^sup>* s0 s"
    "ct_active (acceptDelta cf now (Some d) s) \<noteq> ct_active s" "(stats_step cf)\<^sup>*\<^sup>* (acceptDelta cf now (Some d) s) t"
  shows "ct_active (acceptDelta cf later (Some d) t) = ct_active t"
proof (rule ccontr)
  let ?key = "(dl_range d, dl_resolution d)"
  have same: "ct_active (acceptDelta cf n (Some d) u) = ct_active u" if "\<And>a g. ct_active u = Some a \<Longrightarrow> delta_verdict cf d a u \<noteq> Advances g" for n u
  proof -
    have "same_view u (acceptDelta cf n (Some d) u)"
      using that by (auto simp: acceptDelta_def intro: same_view split: option.splits delta_outcome.splits)
    then show ?thesis by (simp add: same_view_def)
  qed
  have key: "selectionSnapshotKey u = ?key" if "delta_verdict cf d a u = Advances g" for a u g
    using delta_lists(3,4) [OF that] by (simp add: selectionSnapshotKey_def)
  have r: "remembers s" using stats_memory.inv_reach [OF assms(2), of s0] remembers_init [OF assms(1)] by simp
  obtain a g where g: "ct_active s = Some a" "delta_verdict cf d a s = Advances g" using same assms(3) by blast
  have "ct_visible s" using assms(3) by (auto simp: acceptDelta_def split: if_splits)
  then have act: "ct_active (acceptDelta cf now (Some d) s) = Some g" "ct_selection (acceptDelta cf now (Some d) s) = ct_selection s"
    using g by (simp_all add: acceptDelta_def publish_fields clearRepair_def stats_call_def)
  have r1: "remembers (acceptDelta cf now (Some d) s)" using delta_remembers [OF r] by blast
  have "newest (acceptDelta cf now (Some d) s) ?key = Some (dl_cache d)"
    using active_newest [OF r1] act key_same [OF act(2)] key [OF g(2)]
    by (simp add: delta_advances(1) [OF g(2)] candidate_fields)
  moreover have m: "remembers t \<and> advanced (acceptDelta cf now (Some d) s) t"
    using stats_memory.inv_reach [OF assms(4), of "acceptDelta cf now (Some d) s"] r1 by simp
  ultimately obtain n where n: "newest t ?key = Some n" "dl_cache d \<le> n" unfolding advanced_def by blast
  assume "ct_active (acceptDelta cf later (Some d) t) \<noteq> ct_active t"
  then obtain b h where h: "ct_active t = Some b" "delta_verdict cf d b t = Advances h" using same by blast
  have "newest t ?key = Some (sn_cache b)" using active_newest [of t] m h(1) key [OF h(2)] by simp
  then show False using n delta_advances(2) [OF h(2)] by simp
qed

theorem delta_applied_once_witness:
  "ct_active (acceptDelta sample_stats_config 105000 (Some sample_delta)
      (acceptDelta sample_stats_config 104000 (Some sample_delta) sample_first))
   = ct_active (acceptDelta sample_stats_config 104000 (Some sample_delta) sample_first)
   \<and> ct_active (acceptDelta sample_stats_config 104000 (Some sample_delta) sample_first) \<noteq> ct_active sample_first"
proof -
  let ?t = "acceptDelta sample_stats_config 104000 (Some sample_delta) sample_first"
  have "map_option sn_cache (ct_active ?t) = Some 2" "map_option sn_cache (ct_active sample_first) = Some 1" by code_simp+
  then have n: "ct_active ?t \<noteq> ct_active sample_first" by auto
  show ?thesis using delta_applied_once [OF sample_created sample_first_reach n rtranclp.rtrancl_refl] n by blast
qed

section \<open>Repairs\<close>

text \<open>
  C30. A visible, running client that shows no data is always about to load it: a fetch is under way, or a repair is
  due, and when that fires it fetches exactly the current selection, unless a tick is still being answered.
\<close>

theorem empty_view_is_loading:
  assumes "createController cf range0 resolution0 = Some s0" "(stats_step cf)\<^sup>*\<^sup>* s0 s"
    "ct_running s" "ct_visible s" "\<not> ct_zoomed s" "ct_active s = None"
  shows "ct_repair s \<noteq> None
    \<or> ct_repairTimer s \<noteq> None
      \<and> (ct_tick s \<noteq> None
         \<or> ct_repair (repairFires cf now s) = Some \<lparr>sf_request = buildRequest cf s, sf_serial = ct_serial s\<rparr>)"
proof -
  have "loading s" using stats_loads.inv_reach [OF assms(2) loading_init [OF assms(1)]] .
  then show ?thesis using assms(3-6) by (auto simp: loading_def repairFires_def Let_def)
qed

theorem empty_view_is_loading_witness:
  "\<exists>s. s = stats_run sample_stats_config [(103000, Start), (103000, RepairFires), (103100, RepairAnswered (Fails None False))] sample_controller
     \<and> ct_active s = None \<and> ct_repair (repairFires sample_stats_config 104100 s) \<noteq> None"
proof -
  let ?s = "stats_run sample_stats_config [(103000, Start), (103000, RepairFires), (103100, RepairAnswered (Fails None False))] sample_controller"
  have s: "ct_running ?s" "ct_visible ?s" "\<not> ct_zoomed ?s" "ct_active ?s = None" "ct_tick ?s = None" "ct_repair ?s = None"
    by code_simp+
  from empty_view_is_loading [OF sample_created stats_run_reach s(1-4), of 104100] s(4-6) show ?thesis by auto
qed

section \<open>Chunked snapshots\<close>

text \<open>
  C31. A valid snapshot whose no-data spans are merged already (merging leaves them as they are) and
  that is cut into chunks at bucket bounds is assembled to itself again, in whatever order and
  however often its chunks arrive. The assembly merges spans of one source that touch, so a
  snapshot that holds such spans comes back with them merged.
\<close>

theorem chunked_snapshot_round_trip:
  assumes "cuttable s range0 resolution most points" "mergeGaps (sn_gaps s) = sn_gaps s" "set cs = set (cut_snapshot s points)"
  shows "assembleChunks range0 resolution most cs = Some s"
  using chunks_any_order [OF assms(3)] cut_assembles [OF assms(1,2)] by simp

theorem chunked_snapshot_round_trip_witness:
  "assembleChunks 4 None 600 (rev (cut_snapshot sample_snapshot [100, 102, 104])) = Some sample_snapshot"
proof -
  have "cuttable sample_snapshot 4 None 600 [100, 102, 104]" by code_simp
  moreover have "mergeGaps (sn_gaps sample_snapshot) = sn_gaps sample_snapshot" by code_simp
  ultimately show ?thesis by (rule chunked_snapshot_round_trip) simp
qed

section \<open>Zoom\<close>

text \<open>
  A zoom that is refused because it is smaller than a bucket has moved the window all the same: the presented
  frame is the refused one.
\<close>

theorem failed_zoom_moves_window:
  "map_option (\<lambda>f. (sf_start f, sf_end f)) (presentation (stats_do sample_stats_config 103200 (ZoomWindow 101 103) sample_first)) = Some (101, 103)
   \<and> snd (setZoomWindow sample_stats_config 103300 (207 / 2) 200 (stats_do sample_stats_config 103200 (ZoomWindow 101 103) sample_first)) = False
   \<and> map_option (\<lambda>f. (sf_start f, sf_end f))
       (presentation (fst (setZoomWindow sample_stats_config 103300 (207 / 2) 200 (stats_do sample_stats_config 103200 (ZoomWindow 101 103) sample_first))))
     = Some (207 / 2, 104)"
  by (intro conjI) code_simp+

end
