(* ===== verification/Fs_Batch.thy ===== *)
theory Fs_Batch
  imports Tab_Model "HOL-Library.Char_ord" "HOL-Library.List_Lexorder"
begin

text \<open>
  The batches of the file explorer (\<open>40_file_explorer_files.js\<close>): fetches of paths are queued, sent in chunks the
  server accepts, and settled by the answer of their chunk, by the result of the operation the server has made of
  it, or, when the product of a path is still being made, by a repair once its generation is ready.

  An item is an index into \<open>fb_items\<close>; its promise is \<open>it_settled\<close>, which keeps its first outcome. A request in
  flight is an entry of \<open>fb_calls\<close>; its answer is a later step. A response is classified as
  \<open>apiPendingResponseFromNestedEnvelope\<close> does it: \<open>RespQueued\<close> is one that has a key.
\<close>

section \<open>Bounded maps\<close>

definition setLimitedMapEntry :: "nat \<Rightarrow> string \<Rightarrow> 'v \<Rightarrow> (string \<times> 'v) list \<Rightarrow> (string \<times> 'v) list" where
  "setLimitedMapEntry limit key v m =
     (if key = [] then m else let m' = AList.delete key m @ [(key, v)] in drop (length m' - limit) m')"

section \<open>State\<close>

datatype fs_type = ListType | InfoType

definition type_name :: "fs_type \<Rightarrow> string" where
  "type_name t = (case t of ListType \<Rightarrow> ''list'' | InfoType \<Rightarrow> ''info'')"

definition fileExplorerFsBatchKey :: "fs_type \<Rightarrow> string \<Rightarrow> string" where
  "fileExplorerFsBatchKey t path = type_name t @ CHR 0x1F # normalizeDirectoryPath path"

record fs_config =
  fx_requests :: nat
  fx_triggers :: nat
  fx_memory :: nat
  fx_ttl :: int

record product =
  pr_ticket :: "string option"
  pr_key :: string
  pr_generation :: int

datatype fs_outcome = ItemOk string | ItemFails int

record fs_item =
  it_type :: fs_type
  it_path :: string
  it_triggers :: "(string \<times> nat) list"
  it_owners :: "string list"
  it_sent :: bool
  it_product :: "product option"
  it_repairing :: bool
  it_settled :: "fs_outcome option"

text \<open>A flush posts its chunks one after the other: \<open>ChunkCall\<close> is the chunk in flight and the chunks behind it,
  \<open>NextChunks\<close> the flush between two of them.\<close>

datatype fs_call = ChunkCall "nat list" "nat list list" | NextChunks "nat list list" | SingleCall nat | RepairCall nat | CallDone

record fs_batch =
  fb_items :: "fs_item list"
  fb_queue :: "nat list"
  fb_pending :: "(string \<times> nat) list"
  fb_operations :: "(string \<times> nat list) list"
  fb_ready :: "(string \<times> int) list"
  fb_timer :: bool
  fb_calls :: "fs_call list"
  fb_owned :: "(string \<times> string list) list"

definition batch_init :: fs_batch where
  "batch_init = \<lparr>fb_items = [], fb_queue = [], fb_pending = [], fb_operations = [], fb_ready = [], fb_timer = False,
     fb_calls = [], fb_owned = []\<rparr>"

definition modFsItem :: "nat \<Rightarrow> (fs_item \<Rightarrow> fs_item) \<Rightarrow> fs_batch \<Rightarrow> fs_batch" where
  "modFsItem i f s = s\<lparr>fb_items := (fb_items s)[i := f (fb_items s ! i)]\<rparr>"

definition it_key :: "fs_item \<Rightarrow> string" where
  "it_key it = fileExplorerFsBatchKey (it_type it) (it_path it)"

definition keyOf :: "nat \<Rightarrow> fs_batch \<Rightarrow> string" where
  "keyOf i s = it_key (fb_items s ! i)"

text \<open>The promise of an item keeps its first outcome.\<close>

definition settlePromise :: "fs_outcome \<Rightarrow> fs_item \<Rightarrow> fs_item" where
  "settlePromise x it = (case it_settled it of None \<Rightarrow> it\<lparr>it_settled := Some x\<rparr> | Some y \<Rightarrow> it)"

definition addCall :: "fs_call \<Rightarrow> fs_batch \<Rightarrow> fs_batch" where
  "addCall c s = s\<lparr>fb_calls := fb_calls s @ [c]\<rparr>"

section \<open>Triggers and owners\<close>

record fs_options =
  fo_user :: bool
  fo_fresh :: bool
  fo_force :: bool
  fo_immediate :: bool
  fo_enrich :: bool
  fo_enrichRoot :: bool
  fo_trigger :: string
  fo_owner :: string

definition FILE_EXPLORER_FS_BATCH_TRIGGERS :: "string list" where
  "FILE_EXPLORER_FS_BATCH_TRIGGERS =
     [''tree-render'', ''explicit-user'', ''fresh-repair'', ''watch-diff-fallback'', ''deferred-interaction'', ''sync-revalidation'', ''repo-enrichment'']"

definition FILE_EXPLORER_FS_BATCH_TERMINAL_OWNERS :: "string list" where
  "FILE_EXPLORER_FS_BATCH_TERMINAL_OWNERS = [''filesystem-watch-diff-refresh'']"

definition fileExplorerFsBatchTrigger :: "fs_options \<Rightarrow> string" where
  "fileExplorerFsBatchTrigger opts =
     (if fo_trigger opts \<in> set FILE_EXPLORER_FS_BATCH_TRIGGERS then fo_trigger opts
      else if fo_user opts then ''explicit-user'' else if fo_fresh opts then ''fresh-repair'' else ''tree-render'')"

definition recordFileExplorerFsBatchTrigger :: "fs_config \<Rightarrow> string \<Rightarrow> fs_item \<Rightarrow> fs_item" where
  "recordFileExplorerFsBatchTrigger cf trigger it =
     (let count = (case map_of (it_triggers it) trigger of Some n \<Rightarrow> n | None \<Rightarrow> 0)
      in it\<lparr>it_triggers := AList.update trigger (min (fx_triggers cf) (count + 1)) (it_triggers it)\<rparr>)"

definition recordFileExplorerFsBatchTerminalOwner :: "string \<Rightarrow> fs_item \<Rightarrow> fs_item" where
  "recordFileExplorerFsBatchTerminalOwner owner it =
     (if owner \<in> set FILE_EXPLORER_FS_BATCH_TERMINAL_OWNERS then it\<lparr>it_owners := push_new (it_owners it) owner\<rparr> else it)"

definition fileExplorerFsBatchTerminalOwners :: "fs_item list \<Rightarrow> string list" where
  "fileExplorerFsBatchTerminalOwners its = dedupe (concat (map it_owners its))"

record ownership =
  ws_queued :: nat
  ws_pending :: nat
  ws_operations :: nat
  ws_ids :: "string list"

definition fileExplorerFsBatchOwnershipState :: "string \<Rightarrow> fs_batch \<Rightarrow> ownership" where
  "fileExplorerFsBatchOwnershipState owner s =
     (let owned = (\<lambda>i. owner \<in> set (it_owners (fb_items s ! i)));
          operations = filter (\<lambda>(k, is). list_ex owned is) (fb_operations s)
      in \<lparr>ws_queued = length (filter owned (fb_queue s)), ws_pending = length (filter (\<lambda>(k, i). owned i) (fb_pending s)),
          ws_operations = length operations, ws_ids = sort (map fst operations)\<rparr>)"

definition recordPendingFileExplorerFsBatchTrigger :: "fs_config \<Rightarrow> fs_type \<Rightarrow> string \<Rightarrow> fs_options \<Rightarrow> fs_batch \<Rightarrow> fs_batch" where
  "recordPendingFileExplorerFsBatchTrigger cf t path opts s =
     (case map_of (fb_pending s) (fileExplorerFsBatchKey t (normalizeDirectoryPath path)) of
        Some i \<Rightarrow> if it_sent (fb_items s ! i) then s else modFsItem i (recordFileExplorerFsBatchTrigger cf (fileExplorerFsBatchTrigger opts)) s
      | None \<Rightarrow> s)"

section \<open>Products and repairs\<close>

definition STORAGED_PREFIX :: string where "STORAGED_PREFIX = ''storaged.products:''"

definition apiGenerationReadyKey :: "string \<Rightarrow> string" where
  "apiGenerationReadyKey k = (if js_startsWith k STORAGED_PREFIX then drop (length STORAGED_PREFIX) k else k)"

definition apiGenerationReadyMatchesKey :: "string \<Rightarrow> string \<Rightarrow> bool" where
  "apiGenerationReadyMatchesKey pendingKey key =
     (apiGenerationReadyKey pendingKey \<noteq> [] \<and> apiGenerationReadyKey key \<noteq> [] \<and> apiGenerationReadyKey pendingKey = apiGenerationReadyKey key)"

definition safe_generation :: "int \<Rightarrow> bool" where
  "safe_generation n = (1 \<le> n \<and> n \<le> 2 ^ 53 - 1)"

definition repairable :: "string \<Rightarrow> int \<Rightarrow> fs_item \<Rightarrow> bool" where
  "repairable key generation it =
     (case it_product it of
        Some p \<Rightarrow> apiGenerationReadyMatchesKey (pr_key p) key \<and> pr_generation p < generation \<and> \<not> it_repairing it
      | None \<Rightarrow> False)"

definition startItemRepair :: "int \<Rightarrow> nat \<Rightarrow> fs_batch \<Rightarrow> fs_batch" where
  "startItemRepair generation i s =
     addCall (RepairCall i)
       (modFsItem i (\<lambda>it. it\<lparr>it_product := map_option (\<lambda>p. p\<lparr>pr_generation := generation\<rparr>) (it_product it), it_repairing := True\<rparr>) s)"

definition repairReady :: "string \<Rightarrow> int \<Rightarrow> nat list \<Rightarrow> fs_batch \<Rightarrow> fs_batch" where
  "repairReady key generation is s =
     fold (\<lambda>i s. if repairable key generation (fb_items s ! i) then startItemRepair generation i s else s) is s"

definition handleFileExplorerFsBatchGenerationReady :: "fs_config \<Rightarrow> string \<Rightarrow> int \<Rightarrow> fs_batch \<Rightarrow> fs_batch" where
  "handleFileExplorerFsBatchGenerationReady cf key generation s =
     (if key = [] \<or> \<not> safe_generation generation then s
      else repairReady key generation (map snd (fb_pending s))
             (s\<lparr>fb_ready := setLimitedMapEntry (fx_memory cf) (apiGenerationReadyKey key) generation (fb_ready s)\<rparr>))"

section \<open>Settling items\<close>

datatype fs_response = RespOk string | RespQueued "string option" string | RespFails int

definition releasePending :: "nat \<Rightarrow> fs_batch \<Rightarrow> fs_batch" where
  "releasePending i s =
     (if map_of (fb_pending s) (keyOf i s) = Some i then s\<lparr>fb_pending := AList.delete (keyOf i s) (fb_pending s)\<rparr> else s)"

definition finishItem :: "nat \<Rightarrow> fs_outcome \<Rightarrow> fs_batch \<Rightarrow> fs_batch" where
  "finishItem i x s =
     modFsItem i (\<lambda>it. settlePromise x (it\<lparr>it_product := None, it_repairing := False\<rparr>)) (releasePending i s)"

definition queueProduct :: "fs_config \<Rightarrow> nat \<Rightarrow> string option \<Rightarrow> string \<Rightarrow> fs_batch \<Rightarrow> fs_batch" where
  "queueProduct cf i ticket key s =
     (let generation = (case it_product (fb_items s ! i) of
            Some p \<Rightarrow> if apiGenerationReadyMatchesKey (pr_key p) key then pr_generation p else 0
          | None \<Rightarrow> 0);
          s1 = modFsItem i (\<lambda>it. it\<lparr>it_product := Some \<lparr>pr_ticket = ticket, pr_key = key, pr_generation = generation\<rparr>, it_repairing := False\<rparr>) s;
          s2 = (if map_of (fb_pending s1) (keyOf i s1) = None then s1\<lparr>fb_pending := AList.update (keyOf i s1) i (fb_pending s1)\<rparr> else s1)
      in (case map_of (fb_ready s2) (apiGenerationReadyKey key) of
            Some g \<Rightarrow> if safe_generation g then handleFileExplorerFsBatchGenerationReady cf key g s2 else s2
          | None \<Rightarrow> s2))"

definition settleFileExplorerFsBatchItem :: "fs_config \<Rightarrow> nat \<Rightarrow> fs_response \<Rightarrow> fs_batch \<Rightarrow> fs_batch" where
  "settleFileExplorerFsBatchItem cf i resp s =
     (case resp of
        RespQueued ticket key \<Rightarrow> queueProduct cf i ticket key s
      | RespOk payload \<Rightarrow> finishItem i (ItemOk payload) s
      | RespFails status \<Rightarrow> finishItem i (ItemFails status) s)"

definition rejectFileExplorerFsBatchItem :: "nat \<Rightarrow> int \<Rightarrow> fs_batch \<Rightarrow> fs_batch" where
  "rejectFileExplorerFsBatchItem i status s = finishItem i (ItemFails status) s"

text \<open>The responses by item; a later one for the same item counts.\<close>

definition settleAll :: "fs_config \<Rightarrow> (nat \<times> fs_response) list \<Rightarrow> nat list \<Rightarrow> fs_batch \<Rightarrow> fs_batch" where
  "settleAll cf responses is s =
     fold (\<lambda>i. settleFileExplorerFsBatchItem cf i (case map_of (rev responses) i of Some r \<Rightarrow> r | None \<Rightarrow> RespFails 500)) is s"

definition rejectAll :: "int \<Rightarrow> nat list \<Rightarrow> fs_batch \<Rightarrow> fs_batch" where
  "rejectAll status is s = fold (\<lambda>i. rejectFileExplorerFsBatchItem i status) is s"

datatype fs_op_result = BatchReady "(nat \<times> fs_response) list" | BatchFailed int

definition applyFileExplorerFsBatchOperationResult :: "fs_config \<Rightarrow> string \<Rightarrow> fs_op_result \<Rightarrow> fs_batch \<Rightarrow> fs_batch" where
  "applyFileExplorerFsBatchOperationResult cf operationId result s =
     (case map_of (fb_operations s) operationId of
        None \<Rightarrow> s
      | Some is \<Rightarrow>
          if operationId = [] then s
          else
            let s1 = s\<lparr>fb_operations := AList.delete operationId (fb_operations s)\<rparr>
            in (case result of BatchReady responses \<Rightarrow> settleAll cf responses is s1 | BatchFailed status \<Rightarrow> rejectAll status is s1))"

text \<open>The owners are recorded on the operation; its result may be known already.\<close>

definition acceptFileExplorerFsBatchOperation :: "fs_config \<Rightarrow> string \<Rightarrow> fs_op_result option \<Rightarrow> nat list \<Rightarrow> fs_batch \<Rightarrow> fs_batch" where
  "acceptFileExplorerFsBatchOperation cf operationId known is s =
     (let owners = fileExplorerFsBatchTerminalOwners (map (\<lambda>i. fb_items s ! i) is);
          s1 = s\<lparr>fb_operations := AList.update operationId is (fb_operations s),
                 fb_owned := (if owners = [] then fb_owned s else fb_owned s @ [(operationId, owners)])\<rparr>
      in (case known of Some result \<Rightarrow> applyFileExplorerFsBatchOperationResult cf operationId result s1 | None \<Rightarrow> s1))"

section \<open>Sending\<close>

fun slices :: "nat \<Rightarrow> 'a list \<Rightarrow> nat \<Rightarrow> 'a list list" where
  "slices k xs 0 = []"
| "slices k xs (Suc n) = (if xs = [] then [] else take k xs # slices k (drop k xs) n)"

definition fileExplorerFsBatchChunks :: "fs_config \<Rightarrow> nat list \<Rightarrow> nat list list" where
  "fileExplorerFsBatchChunks cf is = slices (fx_requests cf) is (length is)"

definition markSent :: "nat list \<Rightarrow> fs_batch \<Rightarrow> fs_batch" where
  "markSent is s = fold (\<lambda>i. modFsItem i (\<lambda>it. it\<lparr>it_sent := True\<rparr>)) is s"

definition postFileExplorerFsBatchChunk :: "nat list \<Rightarrow> nat list list \<Rightarrow> fs_batch \<Rightarrow> fs_batch" where
  "postFileExplorerFsBatchChunk is rest s = addCall (ChunkCall is rest) (markSent is s)"

definition flushFileExplorerFsBatch :: "fs_config \<Rightarrow> fs_batch \<Rightarrow> fs_batch" where
  "flushFileExplorerFsBatch cf s =
     (let s1 = s\<lparr>fb_timer := False, fb_queue := []\<rparr>
      in (case fileExplorerFsBatchChunks cf (fb_queue s) of [] \<Rightarrow> s1 | c # rest \<Rightarrow> postFileExplorerFsBatchChunk c rest s1))"

definition scheduleFileExplorerFsBatchFlush :: "fs_batch \<Rightarrow> fs_batch" where
  "scheduleFileExplorerFsBatchFlush s = s\<lparr>fb_timer := True\<rparr>"

definition newItem :: "fs_type \<Rightarrow> string \<Rightarrow> fs_options \<Rightarrow> fs_item" where
  "newItem t path opts =
     recordFileExplorerFsBatchTerminalOwner (fo_owner opts)
       \<lparr>it_type = t, it_path = path, it_triggers = [(fileExplorerFsBatchTrigger opts, 1)], it_owners = [], it_sent = False,
        it_product = None, it_repairing = False, it_settled = None\<rparr>"

text \<open>The item whose promise is returned. \<open>shared\<close> is \<open>options.dedupe !== false\<close>.\<close>

definition fetchFilesystemBatchItem :: "fs_config \<Rightarrow> fs_type \<Rightarrow> string \<Rightarrow> bool \<Rightarrow> fs_options \<Rightarrow> fs_batch \<Rightarrow> fs_batch \<times> nat" where
  "fetchFilesystemBatchItem cf t path shared opts s =
     (let normalized = normalizeDirectoryPath path; key = fileExplorerFsBatchKey t normalized
      in (case (if shared then map_of (fb_pending s) key else None) of
            Some i \<Rightarrow>
              (modFsItem i (\<lambda>it. recordFileExplorerFsBatchTerminalOwner (fo_owner opts)
                 (if it_sent it then it else recordFileExplorerFsBatchTrigger cf (fileExplorerFsBatchTrigger opts) it)) s, i)
          | None \<Rightarrow>
              let i = length (fb_items s);
                  s1 = s\<lparr>fb_items := fb_items s @ [newItem t normalized opts],
                         fb_pending := (if shared then AList.update key i (fb_pending s) else fb_pending s),
                         fb_queue := fb_queue s @ [i]\<rparr>
              in (if fo_immediate opts then flushFileExplorerFsBatch cf s1 else scheduleFileExplorerFsBatchFlush s1, i)))"

section \<open>Answers\<close>

datatype fs_answer = AnsResponses "(nat \<times> fs_response) list" | AnsOperation string "fs_op_result option" | AnsFails int

datatype fs_single = SingleOk string | SinglePending "string option" string | SingleFails int

definition setCall :: "nat \<Rightarrow> fs_call \<Rightarrow> fs_batch \<Rightarrow> fs_batch" where
  "setCall n c s = s\<lparr>fb_calls := (fb_calls s)[n := c]\<rparr>"

definition chunkSettled :: "fs_config \<Rightarrow> nat list \<Rightarrow> fs_answer \<Rightarrow> fs_batch \<Rightarrow> fs_batch" where
  "chunkSettled cf is ans s =
     (case ans of
        AnsResponses responses \<Rightarrow> settleAll cf responses is s
      | AnsOperation operationId known \<Rightarrow>
          if operationId = [] then rejectAll 202 is s else acceptFileExplorerFsBatchOperation cf operationId known is s
      | AnsFails status \<Rightarrow> rejectAll status is s)"

definition chunkAnswered :: "fs_config \<Rightarrow> nat \<Rightarrow> fs_answer \<Rightarrow> fs_batch \<Rightarrow> fs_batch" where
  "chunkAnswered cf n ans s =
     (case fb_calls s ! n of
        ChunkCall is rest \<Rightarrow> chunkSettled cf is ans (setCall n (if rest = [] then CallDone else NextChunks rest) s)
      | _ \<Rightarrow> s)"

definition flushContinues :: "nat \<Rightarrow> fs_batch \<Rightarrow> fs_batch" where
  "flushContinues n s =
     (case fb_calls s ! n of
        NextChunks (c # rest) \<Rightarrow> postFileExplorerFsBatchChunk c rest (setCall n CallDone s)
      | _ \<Rightarrow> s)"

text \<open>The \<open>finally\<close> of a repair: an item that is still pending is no longer repairing.\<close>

definition repairEnds :: "nat \<Rightarrow> fs_batch \<Rightarrow> fs_batch" where
  "repairEnds i s =
     (if map_of (fb_pending s) (keyOf i s) = Some i then modFsItem i (\<lambda>it. it\<lparr>it_repairing := False\<rparr>) s else s)"

definition repairItemAnswered :: "fs_config \<Rightarrow> nat \<Rightarrow> fs_answer \<Rightarrow> fs_batch \<Rightarrow> fs_batch" where
  "repairItemAnswered cf n ans s =
     (case fb_calls s ! n of
        RepairCall i \<Rightarrow> repairEnds i (chunkSettled cf [i] ans (setCall n CallDone s))
      | _ \<Rightarrow> s)"

definition singleAnswered :: "fs_config \<Rightarrow> nat \<Rightarrow> fs_single \<Rightarrow> fs_batch \<Rightarrow> fs_batch" where
  "singleAnswered cf n ans s =
     (case fb_calls s ! n of
        SingleCall i \<Rightarrow>
          let s1 = setCall n CallDone s
          in (case ans of
                SingleOk payload \<Rightarrow> settleFileExplorerFsBatchItem cf i (RespOk payload) s1
              | SinglePending ticket key \<Rightarrow> settleFileExplorerFsBatchItem cf i (if key = [] then RespFails 202 else RespQueued ticket key) s1
              | SingleFails status \<Rightarrow> rejectFileExplorerFsBatchItem i status s1)
      | _ \<Rightarrow> s)"

definition fetchFileExplorerFsBatchSingleItem :: "nat \<Rightarrow> fs_batch \<Rightarrow> fs_batch" where
  "fetchFileExplorerFsBatchSingleItem i s = addCall (SingleCall i) (modFsItem i (\<lambda>it. it\<lparr>it_sent := True\<rparr>) s)"

definition admitted :: "fs_item \<Rightarrow> bool" where
  "admitted it = (it_sent it \<and> it_product it \<noteq> None \<and> \<not> it_repairing it)"

definition drainFileExplorerFsBatchWithoutPush :: "fs_batch \<Rightarrow> fs_batch" where
  "drainFileExplorerFsBatchWithoutPush s =
     (let admittedItems = filter (\<lambda>i. admitted (fb_items s ! i)) (map snd (fb_pending s));
          s1 = fold (\<lambda>i. modFsItem i (\<lambda>it. it\<lparr>it_repairing := True\<rparr>)) admittedItems (s\<lparr>fb_timer := False, fb_queue := []\<rparr>)
      in fold fetchFileExplorerFsBatchSingleItem (fb_queue s @ admittedItems) s1)"

section \<open>Steps\<close>

datatype fs_event =
    Fetched fs_type string bool fs_options
  | FlushTimer
  | ChunkAnswered nat fs_answer
  | FlushContinues nat
  | RepairItemAnswered nat fs_answer
  | SingleAnswered nat fs_single
  | OperationResult string fs_op_result
  | GenerationReady string int
  | Drained

fun batch_do :: "fs_config \<Rightarrow> fs_event \<Rightarrow> fs_batch \<Rightarrow> fs_batch" where
  "batch_do cf (Fetched t path shared opts) s = fst (fetchFilesystemBatchItem cf t path shared opts s)"
| "batch_do cf FlushTimer s = flushFileExplorerFsBatch cf s"
| "batch_do cf (ChunkAnswered n ans) s = chunkAnswered cf n ans s"
| "batch_do cf (FlushContinues n) s = flushContinues n s"
| "batch_do cf (RepairItemAnswered n ans) s = repairItemAnswered cf n ans s"
| "batch_do cf (SingleAnswered n ans) s = singleAnswered cf n ans s"
| "batch_do cf (OperationResult operationId result) s = applyFileExplorerFsBatchOperationResult cf operationId result s"
| "batch_do cf (GenerationReady key generation) s = handleFileExplorerFsBatchGenerationReady cf key generation s"
| "batch_do cf Drained s = drainFileExplorerFsBatchWithoutPush s"

text \<open>
  What may happen: an answer is to a request in flight, and the server names every operation it accepts anew. A
  timer that an immediate flush has left running may fire at any time.
\<close>

definition names_operation :: "fs_answer \<Rightarrow> fs_batch \<Rightarrow> bool" where
  "names_operation ans s =
     (case ans of AnsOperation operationId known \<Rightarrow> map_of (fb_operations s) operationId = None | _ \<Rightarrow> True)"

fun possible :: "fs_event \<Rightarrow> fs_batch \<Rightarrow> bool" where
  "possible (ChunkAnswered n ans) s = (n < length (fb_calls s) \<and> names_operation ans s)"
| "possible (FlushContinues n) s = (n < length (fb_calls s))"
| "possible (RepairItemAnswered n ans) s = (n < length (fb_calls s) \<and> names_operation ans s)"
| "possible (SingleAnswered n ans) s = (n < length (fb_calls s))"
| "possible _ s = True"

inductive batch_step :: "fs_config \<Rightarrow> fs_batch \<Rightarrow> fs_batch \<Rightarrow> bool" for cf where
  batch_event: "possible ev s \<Longrightarrow> batch_step cf s (batch_do cf ev s)"

inductive_cases batch_stepE: "batch_step cf s t"

end
