(* ===== verification/Fs_Client.thy ===== *)
theory Fs_Client
  imports Fs_Batch
begin

text \<open>
  The cached listings and path infos of the file explorer (\<open>40_file_explorer_files.js\<close>,
  \<open>45_file_explorer_actions.js\<close>): bounded records with a time to live, requests that only the newest of a
  record may publish, back-off after failures, listings pushed by the server, tombstones of deleted paths, and the
  waves that fetch repository details.

  A record object is an index into \<open>fs_heap\<close>, so that a record that was evicted and created again is another
  object. A request is an index into \<open>fs_requests\<close>; its answer is a later step. Times are arguments.
\<close>

section \<open>State\<close>

record dir_entry =
  de_name :: string
  de_dir :: bool
  de_deferred :: bool
  de_repo :: bool

datatype fs_value = Entries "dir_entry list" | Info string

record fs_record =
  fr_value :: "fs_value option"
  fr_storedAt :: int
  fr_request :: "nat option"
  fr_user :: bool
  fr_generation :: nat
  fr_failures :: nat
  fr_status :: int
  fr_retryAt :: int

datatype fs_delivery = Delivered "fs_value option" | FailedWith int bool

text \<open>The flag of \<open>FailedWith\<close>: the message of the error is \<open>fs.error.notDirectory\<close>.\<close>

record fs_request =
  fq_type :: fs_type
  fq_path :: string
  fq_options :: fs_options
  fq_record :: nat
  fq_generation :: nat
  fq_item :: "nat option"
  fq_outcome :: "fs_delivery option"

datatype fs_reply = Reused fs_value | NegativeReuse | Coalesced nat | SkippedRequest | Requested nat

record wave_request =
  wv_path :: string
  wv_global :: nat
  wv_generation :: nat
  wv_reply :: fs_reply

record fs_client =
  fs_heap :: "fs_record list"
  fs_map :: "(string \<times> nat) list"
  fs_requests :: "fs_request list"
  fs_tombstones :: "string list"
  en_pending :: "string list"
  en_inFlight :: "string list"
  en_resolved :: "string list"
  en_watch :: "string list"
  en_global :: nat
  en_paths :: "(string \<times> nat) list"
  en_next :: nat
  en_frame :: bool
  en_waves :: "wave_request list list"
  fs_batches :: fs_batch

definition fs_init :: fs_client where
  "fs_init = \<lparr>fs_heap = [], fs_map = [], fs_requests = [], fs_tombstones = [], en_pending = [], en_inFlight = [], en_resolved = [],
     en_watch = [], en_global = 0, en_paths = [], en_next = 1, en_frame = False, en_waves = [], fs_batches = batch_init\<rparr>"

definition modFsRecord :: "nat \<Rightarrow> (fs_record \<Rightarrow> fs_record) \<Rightarrow> fs_client \<Rightarrow> fs_client" where
  "modFsRecord r f s = s\<lparr>fs_heap := (fs_heap s)[r := f (fs_heap s ! r)]\<rparr>"

section \<open>Paths\<close>

definition childPath :: "string \<Rightarrow> string \<Rightarrow> string" where
  "childPath parent name = (if parent = ''/'' then ''/'' @ name else parent @ ''/'' @ name)"

definition dirnameOf :: "string \<Rightarrow> string" where
  "dirnameOf path =
     (if path = [] \<or> path = ''/'' then ''/''
      else let parts = js_split CHR ''/'' path; parent = js_join ''/'' (butlast parts)
           in if length parts \<le> 1 \<or> parent = [] then ''/'' else parent)"

definition pathIsInsideDirectory :: "string \<Rightarrow> string \<Rightarrow> bool" where
  "pathIsInsideDirectory path base =
     (let child = normalizeDirectoryPath path; parent = normalizeDirectoryPath base
      in if parent = ''/'' then js_startsWith child ''/'' else child = parent \<or> js_startsWith child (parent @ ''/''))"

section \<open>Records\<close>

definition new_record :: fs_record where
  "new_record = \<lparr>fr_value = None, fr_storedAt = 0, fr_request = None, fr_user = False, fr_generation = 0,
     fr_failures = 0, fr_status = 0, fr_retryAt = 0\<rparr>"

definition fileExplorerFsResourceRecord :: "fs_config \<Rightarrow> fs_type \<Rightarrow> string \<Rightarrow> fs_client \<Rightarrow> fs_client \<times> nat" where
  "fileExplorerFsResourceRecord cf t path s =
     (let key = fileExplorerFsBatchKey t path
      in (case map_of (fs_map s) key of
            Some r \<Rightarrow> (s, r)
          | None \<Rightarrow>
              let r = length (fs_heap s)
              in (s\<lparr>fs_heap := fs_heap s @ [new_record], fs_map := setLimitedMapEntry (fx_memory cf) key r (fs_map s)\<rparr>, r)))"

definition clearFileExplorerFsResourceFailure :: "fs_record \<Rightarrow> fs_record" where
  "clearFileExplorerFsResourceFailure r = r\<lparr>fr_failures := 0, fr_status := 0, fr_retryAt := 0\<rparr>"

definition fileExplorerFsNegativeBackoffBaseMs :: int where "fileExplorerFsNegativeBackoffBaseMs = 30000"

definition fileExplorerFsNegativeBackoffMaxMs :: int where "fileExplorerFsNegativeBackoffMaxMs = 300000"

definition recordFileExplorerFsResourceFailure :: "int \<Rightarrow> int \<Rightarrow> fs_record \<Rightarrow> fs_record" where
  "recordFileExplorerFsResourceFailure now status r =
     (let failures = min 32 (fr_failures r + 1); exponent = min 4 (failures - 1)
      in r\<lparr>fr_failures := failures, fr_status := status,
           fr_retryAt := now + min fileExplorerFsNegativeBackoffMaxMs (fileExplorerFsNegativeBackoffBaseMs * 2 ^ exponent)\<rparr>)"

definition markFileExplorerDirectoryDemandNegative :: "fs_config \<Rightarrow> int \<Rightarrow> string \<Rightarrow> int \<Rightarrow> fs_client \<Rightarrow> fs_client" where
  "markFileExplorerDirectoryDemandNegative cf now path status s =
     (case fileExplorerFsResourceRecord cf ListType path s of
        (s1, r) \<Rightarrow> modFsRecord r (\<lambda>x. recordFileExplorerFsResourceFailure now status
          (x\<lparr>fr_generation := Suc (fr_generation x), fr_value := None, fr_storedAt := 0, fr_request := None\<rparr>)) s1)"

definition setFileExplorerFsResourceValue :: "fs_config \<Rightarrow> int \<Rightarrow> fs_type \<Rightarrow> string \<Rightarrow> fs_value \<Rightarrow> fs_client \<Rightarrow> fs_client" where
  "setFileExplorerFsResourceValue cf now t path v s =
     (case fileExplorerFsResourceRecord cf t path s of
        (s1, r) \<Rightarrow> modFsRecord r (\<lambda>x. clearFileExplorerFsResourceFailure
          (x\<lparr>fr_generation := Suc (fr_generation x), fr_request := None, fr_value := Some v, fr_storedAt := now\<rparr>)) s1)"

text \<open>The record of a key and what it holds.\<close>

definition record_at :: "string \<Rightarrow> fs_client \<Rightarrow> fs_record option" where
  "record_at key s = map_option (\<lambda>r. fs_heap s ! r) (map_of (fs_map s) key)"

definition cached :: "string \<Rightarrow> fs_client \<Rightarrow> fs_value option" where
  "cached key s = Option.bind (record_at key s) fr_value"

definition fileExplorerFsResourceHasValue :: "fs_type \<Rightarrow> string \<Rightarrow> fs_client \<Rightarrow> bool" where
  "fileExplorerFsResourceHasValue t path s = (cached (fileExplorerFsBatchKey t path) s \<noteq> None)"

definition cachedFileExplorerFsResourceValue :: "fs_config \<Rightarrow> fs_type \<Rightarrow> string \<Rightarrow> fs_client \<Rightarrow> fs_client \<times> fs_value option" where
  "cachedFileExplorerFsResourceValue cf t path s =
     (let key = fileExplorerFsBatchKey t path
      in (case map_of (fs_map s) key of
            None \<Rightarrow> (s, None)
          | Some r \<Rightarrow>
              (case fr_value (fs_heap s ! r) of
                 None \<Rightarrow> (s, None)
               | Some v \<Rightarrow> (s\<lparr>fs_map := setLimitedMapEntry (fx_memory cf) key r (fs_map s)\<rparr>, Some v))))"

definition invalidateFileExplorerFsResourceRecord :: "string \<Rightarrow> nat \<Rightarrow> fs_client \<Rightarrow> fs_client" where
  "invalidateFileExplorerFsResourceRecord key r s =
     (let s1 = modFsRecord r (\<lambda>x. clearFileExplorerFsResourceFailure
            (x\<lparr>fr_generation := Suc (fr_generation x), fr_value := None, fr_storedAt := 0, fr_request := None\<rparr>)) s
      in if map_of (fs_map s1) key = Some r then s1\<lparr>fs_map := AList.delete key (fs_map s1)\<rparr> else s1)"

definition invalidateRecords :: "(string \<Rightarrow> bool) \<Rightarrow> fs_client \<Rightarrow> fs_client" where
  "invalidateRecords drops s =
     fold (\<lambda>(key, r). invalidateFileExplorerFsResourceRecord key r) (filter (\<lambda>(key, r). drops key) (fs_map s)) s"

text \<open>The path of a key is its last part for the roots and its second part for a retired directory.\<close>

definition key_path :: "string \<Rightarrow> string" where
  "key_path key = last (js_split (CHR 0x1F) key)"

definition key_candidate :: "string \<Rightarrow> string" where
  "key_candidate key = (case js_split (CHR 0x1F) key of _ # c # _ \<Rightarrow> c | _ \<Rightarrow> [])"

section \<open>Tombstones\<close>

definition markFileExplorerDeletedPaths :: "string list \<Rightarrow> fs_client \<Rightarrow> fs_client" where
  "markFileExplorerDeletedPaths paths s =
     s\<lparr>fs_tombstones := foldl push_new (fs_tombstones s) (map normalizeDirectoryPath paths)\<rparr>"

definition clearFileExplorerDeletedPaths :: "string list \<Rightarrow> fs_client \<Rightarrow> fs_client" where
  "clearFileExplorerDeletedPaths paths s =
     s\<lparr>fs_tombstones := filter (\<lambda>p. p \<notin> normalizeDirectoryPath ` set paths) (fs_tombstones s)\<rparr>"

definition reconcileFileExplorerDeletedPathTombstones :: "string \<Rightarrow> dir_entry list \<Rightarrow> bool \<Rightarrow> fs_client \<Rightarrow> fs_client" where
  "reconcileFileExplorerDeletedPathTombstones directory entries authoritative s =
     (if \<not> authoritative then s
      else
        let dir = normalizeDirectoryPath directory; listed = map (\<lambda>e. childPath dir (de_name e)) entries
        in s\<lparr>fs_tombstones := filter (\<lambda>p. \<not> (dirnameOf p = dir \<and> p \<notin> set listed)) (fs_tombstones s)\<rparr>)"

definition filterFileExplorerDeletedPathTombstones :: "string \<Rightarrow> dir_entry list \<Rightarrow> fs_client \<Rightarrow> dir_entry list" where
  "filterFileExplorerDeletedPathTombstones directory entries s =
     (let dir = normalizeDirectoryPath directory
      in filter (\<lambda>e. childPath dir (de_name e) \<notin> set (fs_tombstones s)) entries)"

section \<open>Repository details\<close>

record enrich_options =
  eo_withRoot :: bool
  eo_refresh :: bool
  eo_watched :: bool

definition enrich_candidates :: "string \<Rightarrow> dir_entry list \<Rightarrow> bool \<Rightarrow> string list" where
  "enrich_candidates base entries withRoot =
     (if withRoot then [base] else []) @ map (\<lambda>e. childPath base (de_name e)) (filter (\<lambda>e. de_dir e \<and> de_deferred e \<and> \<not> de_repo e) entries)"

definition enrich_candidate :: "enrich_options \<Rightarrow> string \<Rightarrow> fs_client \<Rightarrow> fs_client" where
  "enrich_candidate eo path s =
     (let s1 = (if eo_watched eo then s\<lparr>en_watch := push_new (en_watch s) path\<rparr> else s);
          s2 = (if eo_refresh eo
                then s1\<lparr>en_paths := AList.update path (en_next s1) (en_paths s1), en_next := Suc (en_next s1), en_resolved := removeAll path (en_resolved s1)\<rparr>
                else s1)
      in if path \<notin> set (en_resolved s2) \<and> (path \<notin> set (en_inFlight s2) \<or> eo_refresh eo)
         then s2\<lparr>en_pending := push_new (en_pending s2) path\<rparr> else s2)"

definition collectCandidates :: "string \<Rightarrow> dir_entry list \<Rightarrow> enrich_options \<Rightarrow> fs_client \<Rightarrow> fs_client" where
  "collectCandidates parentPath entries eo s =
     fold (enrich_candidate eo) (enrich_candidates (normalizeDirectoryPath parentPath) entries (eo_withRoot eo)) s"

definition enrichment_waits :: "fs_client \<Rightarrow> bool" where
  "enrichment_waits s = (en_pending s = [] \<or> en_frame s \<or> en_inFlight s \<noteq> [])"

definition scheduleFileExplorerRepoInfoEnrichment :: "string \<Rightarrow> dir_entry list \<Rightarrow> enrich_options \<Rightarrow> fs_client \<Rightarrow> fs_client" where
  "scheduleFileExplorerRepoInfoEnrichment parentPath entries eo s =
     (let s1 = collectCandidates parentPath entries eo s in if enrichment_waits s1 then s1 else s1\<lparr>en_frame := True\<rparr>)"

definition schedule_listing :: "string \<Rightarrow> dir_entry list \<Rightarrow> fs_options \<Rightarrow> fs_client \<Rightarrow> fs_client" where
  "schedule_listing base entries opts s =
     (if fo_enrich opts
      then scheduleFileExplorerRepoInfoEnrichment base entries \<lparr>eo_withRoot = fo_enrichRoot opts, eo_refresh = fo_fresh opts, eo_watched = False\<rparr> s
      else s)"

section \<open>Requests\<close>

text \<open>What the page looks like when a fetch is asked for.\<close>

record page_view =
  pv_hidden :: bool
  pv_open :: bool
  pv_connected :: bool
  pv_active :: bool
  pv_refreshing :: bool

definition suppressBackgroundFilesystemFetch :: "fs_options \<Rightarrow> page_view \<Rightarrow> bool" where
  "suppressBackgroundFilesystemFetch opts v =
     (if fo_force opts \<or> fo_user opts then False
      else if pv_hidden v \<or> \<not> pv_open v then True
      else pv_connected v \<and> \<not> pv_active v)"

definition skips :: "fs_type \<Rightarrow> fs_options \<Rightarrow> page_view \<Rightarrow> bool" where
  "skips t opts v = (t = ListType \<and> pv_refreshing v \<or> suppressBackgroundFilesystemFetch opts v)"

definition coalesces :: "fs_type \<Rightarrow> fs_options \<Rightarrow> fs_record \<Rightarrow> bool" where
  "coalesces t opts r =
     ((\<not> fo_fresh opts \<or> t = ListType) \<and> fr_request r \<noteq> None \<and> \<not> (fo_user opts \<and> \<not> fr_user r))"

text \<open>The start of a request: its batch item, if it asks for a path info, and its place in the record. The
  options that make a user request leave the shared item are not passed on by \<open>fetchFilePathInfo\<close>.\<close>

definition startRequest :: "fs_config \<Rightarrow> fs_type \<Rightarrow> string \<Rightarrow> fs_options \<Rightarrow> nat \<Rightarrow> fs_client \<Rightarrow> fs_client" where
  "startRequest cf t path opts r s =
     (let generation = Suc (fr_generation (fs_heap s ! r)); i = length (fs_requests s);
          (b, item) = (case t of
              ListType \<Rightarrow> (fs_batches s, None)
            | InfoType \<Rightarrow> (case fetchFilesystemBatchItem cf InfoType path (\<not> fo_fresh opts) opts (fs_batches s) of (b, j) \<Rightarrow> (b, Some j)))
      in (modFsRecord r (\<lambda>x. x\<lparr>fr_generation := generation, fr_request := Some i, fr_user := fo_user opts\<rparr>) s)
           \<lparr>fs_requests := fs_requests s @ [\<lparr>fq_type = t, fq_path = path, fq_options = opts, fq_record = r, fq_generation = generation,
              fq_item = item, fq_outcome = None\<rparr>], fs_batches := b\<rparr>)"

definition requestFileExplorerFsResource ::
  "fs_config \<Rightarrow> int \<Rightarrow> page_view \<Rightarrow> fs_type \<Rightarrow> string \<Rightarrow> fs_options \<Rightarrow> fs_client \<Rightarrow> fs_client \<times> fs_reply" where
  "requestFileExplorerFsResource cf now v t path opts s0 =
     (let normalized = normalizeDirectoryPath path; (s, r) = fileExplorerFsResourceRecord cf t normalized s0; x = fs_heap s ! r
      in (case (if \<not> fo_fresh opts \<and> 0 < fx_ttl cf \<and> now - fr_storedAt x < fx_ttl cf then fr_value x else None) of
            Some value \<Rightarrow> ((case value of Entries es \<Rightarrow> schedule_listing normalized es opts s | Info i \<Rightarrow> s), Reused value)
          | None \<Rightarrow>
              if \<not> fo_user opts \<and> now < fr_retryAt x then (s, NegativeReuse)
              else if coalesces t opts x then
                ((if t = InfoType then s\<lparr>fs_batches := recordPendingFileExplorerFsBatchTrigger cf InfoType normalized opts (fs_batches s)\<rparr> else s),
                 Coalesced (the (fr_request x)))
              else if skips t opts v then (s, SkippedRequest)
              else (startRequest cf t normalized opts r s, Requested (length (fs_requests s)))))"

definition fetchDirectory :: "fs_config \<Rightarrow> int \<Rightarrow> page_view \<Rightarrow> string \<Rightarrow> fs_options \<Rightarrow> fs_client \<Rightarrow> fs_client \<times> fs_reply" where
  "fetchDirectory cf now v path opts s = requestFileExplorerFsResource cf now v ListType path opts s"

definition fetchFilePathInfo :: "fs_config \<Rightarrow> int \<Rightarrow> page_view \<Rightarrow> string \<Rightarrow> fs_options \<Rightarrow> fs_client \<Rightarrow> fs_client \<times> fs_reply" where
  "fetchFilePathInfo cf now v path opts s = requestFileExplorerFsResource cf now v InfoType path opts s"

definition fileExplorerRepoInfoEnrichmentChunkLimit :: nat where "fileExplorerRepoInfoEnrichmentChunkLimit = 8"

definition wave_options :: "bool \<Rightarrow> fs_options" where
  "wave_options watched =
     \<lparr>fo_user = False, fo_fresh = True, fo_force = True, fo_immediate = False, fo_enrich = True, fo_enrichRoot = False,
      fo_trigger = ''repo-enrichment'', fo_owner = (if watched then ''filesystem-watch-diff-refresh'' else [])\<rparr>"

definition path_generation :: "string \<Rightarrow> fs_client \<Rightarrow> nat" where
  "path_generation path s = (case map_of (en_paths s) path of Some n \<Rightarrow> n | None \<Rightarrow> 0)"

text \<open>The requests of a wave are collected first and sent in order.\<close>

definition wave_fetch :: "fs_config \<Rightarrow> int \<Rightarrow> page_view \<Rightarrow> string \<Rightarrow> wave_request list \<times> fs_client \<Rightarrow> wave_request list \<times> fs_client" where
  "wave_fetch cf now v path ws =
     (case fetchFilePathInfo cf now v path (wave_options (path \<in> set (en_watch (snd ws)))) (snd ws) of
        (t, reply) \<Rightarrow>
          (fst ws @ [\<lparr>wv_path = path, wv_global = en_global (snd ws), wv_generation = path_generation path (snd ws), wv_reply = reply\<rparr>], t))"

definition enrichFileExplorerRepoInfoEntries :: "fs_config \<Rightarrow> int \<Rightarrow> page_view \<Rightarrow> fs_client \<Rightarrow> fs_client" where
  "enrichFileExplorerRepoInfoEntries cf now v s =
     (let paths = take fileExplorerRepoInfoEnrichmentChunkLimit (filter (\<lambda>p. p \<notin> set (en_inFlight s)) (en_pending s))
      in if paths = [] then s
         else
           let s1 = s\<lparr>en_pending := filter (\<lambda>p. p \<notin> set paths) (en_pending s), en_inFlight := en_inFlight s @ paths\<rparr>;
               (wave, s2) = fold (wave_fetch cf now v) paths ([], s1)
           in s2\<lparr>en_waves := en_waves s2 @ [wave]\<rparr>)"

definition enrichFrame :: "fs_config \<Rightarrow> int \<Rightarrow> page_view \<Rightarrow> fs_client \<Rightarrow> fs_client" where
  "enrichFrame cf now v s =
     (if en_frame s then enrichFileExplorerRepoInfoEntries cf now v (s\<lparr>en_frame := False\<rparr>) else s)"

text \<open>The immediate enrichment of the root that is shown.\<close>

definition enrichRootNow :: "fs_config \<Rightarrow> int \<Rightarrow> page_view \<Rightarrow> string \<Rightarrow> fs_client \<Rightarrow> fs_client" where
  "enrichRootNow cf now v path s =
     (let s1 = collectCandidates (normalizeDirectoryPath path) [] \<lparr>eo_withRoot = True, eo_refresh = False, eo_watched = False\<rparr> s
      in if enrichment_waits s1 then s1 else enrichFileExplorerRepoInfoEntries cf now v s1)"

definition reply_settled :: "fs_client \<Rightarrow> fs_reply \<Rightarrow> bool" where
  "reply_settled s reply =
     (case reply of
        Requested i \<Rightarrow> fq_outcome (fs_requests s ! i) \<noteq> None
      | Coalesced i \<Rightarrow> fq_outcome (fs_requests s ! i) \<noteq> None
      | _ \<Rightarrow> True)"

definition reply_fulfilled :: "fs_client \<Rightarrow> fs_reply \<Rightarrow> bool" where
  "reply_fulfilled s reply =
     (case reply of
        Requested i \<Rightarrow> (case fq_outcome (fs_requests s ! i) of Some (Delivered v) \<Rightarrow> True | _ \<Rightarrow> False)
      | Coalesced i \<Rightarrow> (case fq_outcome (fs_requests s ! i) of Some (Delivered v) \<Rightarrow> True | _ \<Rightarrow> False)
      | _ \<Rightarrow> True)"

definition wave_result :: "wave_request \<Rightarrow> fs_client \<Rightarrow> fs_client" where
  "wave_result w s =
     (let s1 = s\<lparr>en_inFlight := removeAll (wv_path w) (en_inFlight s)\<rparr>;
          s2 = (if wv_path w \<notin> set (en_pending s1) then s1\<lparr>en_watch := removeAll (wv_path w) (en_watch s1)\<rparr> else s1)
      in if reply_fulfilled s2 (wv_reply w) \<and> wv_global w = en_global s2 \<and> wv_generation w = path_generation (wv_path w) s2
         then s2\<lparr>en_resolved := push_new (en_resolved s2) (normalizeDirectoryPath (wv_path w))\<rparr> else s2)"

text \<open>A wave ends when all its requests have settled.\<close>

definition waveSettles :: "nat \<Rightarrow> fs_client \<Rightarrow> fs_client" where
  "waveSettles n s =
     (let wave = en_waves s ! n
      in if list_all (\<lambda>w. reply_settled s (wv_reply w)) wave
         then
           let s1 = fold wave_result wave (s\<lparr>en_waves := take n (en_waves s) @ drop (Suc n) (en_waves s)\<rparr>)
           in if en_pending s1 = [] then s1
              else scheduleFileExplorerRepoInfoEnrichment [] [] \<lparr>eo_withRoot = False, eo_refresh = False, eo_watched = False\<rparr> s1
         else s)"

section \<open>Answers\<close>

definition fileExplorerFsResourceCurrent :: "fs_request \<Rightarrow> fs_client \<Rightarrow> bool" where
  "fileExplorerFsResourceCurrent q s =
     (map_of (fs_map s) (fileExplorerFsBatchKey (fq_type q) (fq_path q)) = Some (fq_record q)
      \<and> fr_generation (fs_heap s ! fq_record q) = fq_generation q)"

definition fileExplorerDirectoryDemandTerminalError :: "int \<Rightarrow> bool \<Rightarrow> bool" where
  "fileExplorerDirectoryDemandTerminalError status notDirectory = (status = 404 \<or> status = 400 \<and> notDirectory)"

text \<open>The listings below a directory that is gone; the other owners of the tree are not modelled.\<close>

definition retireFileExplorerDirectoryDemand :: "string \<Rightarrow> fs_client \<Rightarrow> fs_client" where
  "retireFileExplorerDirectoryDemand path s =
     invalidateRecords (\<lambda>key. js_startsWith key (type_name ListType @ [CHR 0x1F])
       \<and> key_candidate key \<noteq> normalizeDirectoryPath path \<and> pathIsInsideDirectory (key_candidate key) (normalizeDirectoryPath path)) s"

text \<open>A directory found missing, or found to be a file, and one found again.\<close>

definition directoryIsGone :: "fs_config \<Rightarrow> int \<Rightarrow> string \<Rightarrow> int \<Rightarrow> fs_client \<Rightarrow> fs_client" where
  "directoryIsGone cf now path status s =
     retireFileExplorerDirectoryDemand path (markFileExplorerDirectoryDemandNegative cf now path status s)"

definition directoryIsFound :: "string \<Rightarrow> fs_client \<Rightarrow> fs_client" where
  "directoryIsFound path s =
     (let key = fileExplorerFsBatchKey ListType (normalizeDirectoryPath path)
      in (case map_of (fs_map s) key of
            Some r \<Rightarrow> if fr_status (fs_heap s ! r) \<noteq> 0 then invalidateFileExplorerFsResourceRecord key r s else s
          | None \<Rightarrow> s))"

text \<open>A listing passes the tombstones before it is known whether it is still current.\<close>

definition received :: "fs_request \<Rightarrow> fs_value option \<Rightarrow> fs_client \<Rightarrow> fs_client \<times> fs_value option" where
  "received q v s =
     (case v of
        Some (Entries es) \<Rightarrow>
          if fq_type q = ListType then
            let s1 = reconcileFileExplorerDeletedPathTombstones (fq_path q) es (fo_fresh (fq_options q) \<or> fo_user (fq_options q)) s
            in (s1, Some (Entries (filterFileExplorerDeletedPathTombstones (fq_path q) es s1)))
          else (s, v)
      | _ \<Rightarrow> (s, v))"

definition publishes :: "int \<Rightarrow> fs_request \<Rightarrow> fs_value \<Rightarrow> fs_client \<Rightarrow> fs_client" where
  "publishes now q v s =
     (let s1 = modFsRecord (fq_record q) (\<lambda>x. clearFileExplorerFsResourceFailure (x\<lparr>fr_value := Some v, fr_storedAt := now\<rparr>)) s
      in (case v of Entries es \<Rightarrow> schedule_listing (fq_path q) es (fq_options q) s1 | Info i \<Rightarrow> s1))"

definition answered_body :: "int \<Rightarrow> fs_request \<Rightarrow> fs_delivery \<Rightarrow> fs_client \<Rightarrow> fs_client" where
  "answered_body now q d s =
     (case d of
        Delivered v \<Rightarrow>
          (case received q v s of
             (s1, Some w) \<Rightarrow> if fileExplorerFsResourceCurrent q s1 then publishes now q w s1 else s1
           | (s1, None) \<Rightarrow> s1)
      | FailedWith status notDirectory \<Rightarrow>
          if fileExplorerFsResourceCurrent q s \<and> fq_type q = ListType \<and> fileExplorerDirectoryDemandTerminalError status notDirectory
          then retireFileExplorerDirectoryDemand (fq_path q) (modFsRecord (fq_record q) (recordFileExplorerFsResourceFailure now status) s)
          else s)"

definition requestEnds :: "nat \<Rightarrow> fs_client \<Rightarrow> fs_client" where
  "requestEnds i s =
     (let q = fs_requests s ! i
      in if fileExplorerFsResourceCurrent q s \<and> fr_request (fs_heap s ! fq_record q) = Some i
         then modFsRecord (fq_record q) (\<lambda>x. x\<lparr>fr_request := None\<rparr>) s else s)"

definition requestAnswered :: "int \<Rightarrow> nat \<Rightarrow> fs_delivery \<Rightarrow> fs_client \<Rightarrow> fs_client" where
  "requestAnswered now i d s =
     (let q = fs_requests s ! i; s1 = answered_body now q d s
      in requestEnds i (s1\<lparr>fs_requests := (fs_requests s1)[i := q\<lparr>fq_outcome := Some d\<rparr>]\<rparr>))"

section \<open>Pushes and invalidation\<close>

definition pushDirectory :: "fs_config \<Rightarrow> int \<Rightarrow> bool \<Rightarrow> string \<Rightarrow> string \<times> bool \<times> dir_entry list \<Rightarrow> fs_client \<Rightarrow> fs_client" where
  "pushDirectory cf now watched base item s =
     (let path = normalizeDirectoryPath (fst item); entries = snd (snd item);
          s1 = reconcileFileExplorerDeletedPathTombstones path entries True s;
          visible = filterFileExplorerDeletedPathTombstones path entries s1
      in if \<not> fst (snd item) then s1 else scheduleFileExplorerRepoInfoEnrichment path visible \<lparr>eo_withRoot = (path = base), eo_refresh = False, eo_watched = watched\<rparr>
           (setFileExplorerFsResourceValue cf now ListType path (Entries visible) s1))"

text \<open>The directories of a push that carry entries, with a flag for success; \<open>base\<close> is the current root of the explorer.\<close>

definition entriesByDirFromFilesystemPush :: "fs_config \<Rightarrow> int \<Rightarrow> bool \<Rightarrow> string \<Rightarrow> (string \<times> bool \<times> dir_entry list) list \<Rightarrow> fs_client \<Rightarrow> fs_client" where
  "entriesByDirFromFilesystemPush cf now watched base directories s = fold (pushDirectory cf now watched base) directories s"

definition invalidateFileExplorerFsCaches :: "fs_client \<Rightarrow> fs_client" where
  "invalidateFileExplorerFsCaches s =
     invalidateRecords (\<lambda>key. True)
       (s\<lparr>en_global := Suc (en_global s), en_paths := [], en_resolved := [], en_pending := foldl push_new (en_pending s) (en_inFlight s)\<rparr>)"

definition drop_enrichment :: "string \<Rightarrow> fs_client \<Rightarrow> fs_client" where
  "drop_enrichment path s =
     s\<lparr>en_paths := AList.update path (en_next s) (en_paths s), en_next := Suc (en_next s), en_resolved := removeAll path (en_resolved s),
       en_pending := (if path \<in> set (en_inFlight s) then push_new (en_pending s) path else en_pending s)\<rparr>"

definition invalidateFileExplorerRoots :: "string list \<Rightarrow> fs_client \<Rightarrow> fs_client" where
  "invalidateFileExplorerRoots roots s =
     (let normalizedRoots = map normalizeDirectoryPath (filter (\<lambda>r. r \<noteq> []) (map js_trim roots));
          drops = (\<lambda>path. list_ex (\<lambda>base. pathIsInsideDirectory path base) normalizedRoots);
          paths = dedupe (en_pending s @ en_inFlight s @ en_resolved s @ map fst (en_paths s))
      in if normalizedRoots = [] then s
         else invalidateRecords (\<lambda>key. drops (normalizeDirectoryPath (key_path key))) (fold drop_enrichment (filter drops paths) s))"

section \<open>Steps\<close>

datatype fs_client_event =
    BatchEvent fs_event
  | AskDirectory page_view string fs_options
  | AskInfo page_view string fs_options
  | RequestAnswered nat fs_delivery
  | Pushed bool string "(string \<times> bool \<times> dir_entry list) list"
  | InvalidatedAll
  | InvalidatedRoots "string list"
  | MarkedDeleted "string list"
  | ClearedDeleted "string list"
  | DirectoryIsGone string int
  | DirectoryIsFound string
  | ReadCached fs_type string
  | EnrichFrame page_view
  | EnrichRootNow page_view string
  | WaveSettles nat

fun fs_do :: "fs_config \<Rightarrow> int \<Rightarrow> fs_client_event \<Rightarrow> fs_client \<Rightarrow> fs_client" where
  "fs_do cf now (BatchEvent ev) s = s\<lparr>fs_batches := batch_do cf ev (fs_batches s)\<rparr>"
| "fs_do cf now (AskDirectory v path opts) s = fst (fetchDirectory cf now v path opts s)"
| "fs_do cf now (AskInfo v path opts) s = fst (fetchFilePathInfo cf now v path opts s)"
| "fs_do cf now (RequestAnswered i d) s = requestAnswered now i d s"
| "fs_do cf now (Pushed watched base directories) s = entriesByDirFromFilesystemPush cf now watched base directories s"
| "fs_do cf now InvalidatedAll s = invalidateFileExplorerFsCaches s"
| "fs_do cf now (InvalidatedRoots roots) s = invalidateFileExplorerRoots roots s"
| "fs_do cf now (MarkedDeleted paths) s = markFileExplorerDeletedPaths paths s"
| "fs_do cf now (ClearedDeleted paths) s = clearFileExplorerDeletedPaths paths s"
| "fs_do cf now (DirectoryIsGone path status) s = directoryIsGone cf now path status s"
| "fs_do cf now (DirectoryIsFound path) s = directoryIsFound path s"
| "fs_do cf now (ReadCached t path) s = fst (cachedFileExplorerFsResourceValue cf t path s)"
| "fs_do cf now (EnrichFrame v) s = enrichFrame cf now v s"
| "fs_do cf now (EnrichRootNow v path) s = enrichRootNow cf now v path s"
| "fs_do cf now (WaveSettles n) s = waveSettles n s"

text \<open>
  What may happen: fetches of batch items come from requests alone, a request is answered once, and the request for
  a path info is answered with the outcome of its item.
\<close>

definition answers_item :: "fs_client \<Rightarrow> fs_request \<Rightarrow> fs_delivery \<Rightarrow> bool" where
  "answers_item s q d =
     (case fq_item q of
        None \<Rightarrow> True
      | Some j \<Rightarrow>
          (case it_settled (fb_items (fs_batches s) ! j) of
             Some (ItemOk payload) \<Rightarrow> d = Delivered (Some (Info payload))
           | Some (ItemFails status) \<Rightarrow> \<exists>b. d = FailedWith status b
           | None \<Rightarrow> False))"

fun fs_possible :: "fs_client_event \<Rightarrow> fs_client \<Rightarrow> bool" where
  "fs_possible (BatchEvent ev) s = ((case ev of Fetched t path shared opts \<Rightarrow> False | _ \<Rightarrow> True) \<and> possible ev (fs_batches s))"
| "fs_possible (RequestAnswered i d) s =
     (i < length (fs_requests s) \<and> fq_outcome (fs_requests s ! i) = None \<and> answers_item s (fs_requests s ! i) d)"
| "fs_possible (WaveSettles n) s = (n < length (en_waves s))"
| "fs_possible _ s = True"

inductive fs_step :: "fs_config \<Rightarrow> fs_client \<Rightarrow> fs_client \<Rightarrow> bool" for cf where
  fs_event: "fs_possible ev s \<Longrightarrow> fs_step cf s (fs_do cf now ev s)"

inductive_cases fs_stepE: "fs_step cf s t"

end
