(* ===== verification/Fs_Items.thy ===== *)
theory Fs_Items
  imports Fs_Batch
begin

text \<open>
  Where the items of the file explorer batches are: an item that is not settled is queued, in a request in flight
  or about to be sent, in an operation the server has chunk_accepted, or waits for a product. And the item nobody will
  ever settle.
\<close>

section \<open>Chunks\<close>

lemma slices_concat: "0 < k \<Longrightarrow> length xs \<le> n \<Longrightarrow> concat (slices k xs n) = xs"
proof (induction n arbitrary: xs)
  case (Suc n)
  then have "length (drop k xs) \<le> n" by auto
  with Suc show ?case by simp
qed simp

lemma slices_bounded: "0 < k \<Longrightarrow> c \<in> set (slices k xs n) \<Longrightarrow> c \<noteq> [] \<and> length c \<le> k"
  by (induction n arbitrary: xs) (auto split: if_splits)

lemma chunks_concat: "0 < fx_requests cf \<Longrightarrow> concat (fileExplorerFsBatchChunks cf is) = is"
  by (simp add: fileExplorerFsBatchChunks_def slices_concat)

section \<open>Places\<close>

fun holds :: "fs_call \<Rightarrow> nat set" where
  "holds (ChunkCall is rest) = set is \<union> set (concat rest)"
| "holds (NextChunks rest) = set (concat rest)"
| "holds (SingleCall i) = {i}"
| "holds (RepairCall i) = {i}"
| "holds CallDone = {}"

definition in_flight :: "fs_batch \<Rightarrow> nat set" where
  "in_flight s = set (fb_queue s) \<union> (\<Union>c \<in> set (fb_calls s). holds c) \<union> (\<Union>p \<in> set (fb_operations s). set (snd p))"

definition item_open :: "fs_batch \<Rightarrow> nat \<Rightarrow> bool" where
  "item_open s i = (i < length (fb_items s) \<and> it_settled (fb_items s ! i) = None)"

definition awaits :: "fs_batch \<Rightarrow> nat \<Rightarrow> bool" where
  "awaits s i = (it_product (fb_items s ! i) \<noteq> None)"

definition placed :: "fs_batch \<Rightarrow> bool" where
  "placed s = (\<forall>i. item_open s i \<longrightarrow> i \<in> in_flight s \<or> awaits s i)"

text \<open>Settling and marking items loses no place of the items that stay item_open.\<close>

definition batch_grows :: "fs_batch \<Rightarrow> fs_batch \<Rightarrow> bool" where
  "batch_grows s t =
     (length (fb_items t) = length (fb_items s) \<and> fb_queue t = fb_queue s \<and> fb_operations t = fb_operations s
      \<and> set (fb_calls s) \<subseteq> set (fb_calls t)
      \<and> (\<forall>i. item_open t i \<longrightarrow> item_open s i \<and> (awaits s i \<longrightarrow> awaits t i)))"

lemma batch_grows_refl [simp]: "batch_grows s s" by (simp add: batch_grows_def)

lemma batch_grows_trans: "batch_grows s t \<Longrightarrow> batch_grows t u \<Longrightarrow> batch_grows s u"
  by (auto simp: batch_grows_def)

lemma grows_flight: "batch_grows s t \<Longrightarrow> in_flight s \<subseteq> in_flight t"
  by (auto simp: batch_grows_def in_flight_def)

lemma grows_placed: "batch_grows s t \<Longrightarrow> (\<And>i. item_open t i \<Longrightarrow> i \<in> in_flight t \<or> awaits t i \<or> i \<in> in_flight s \<or> awaits s i) \<Longrightarrow> placed t"
  using grows_flight by (fastforce simp: batch_grows_def placed_def)

text \<open>Every item of a list is settled or awaits a product.\<close>

definition handled :: "nat set \<Rightarrow> fs_batch \<Rightarrow> bool" where
  "handled is s = (\<forall>i \<in> is. item_open s i \<longrightarrow> awaits s i)"

lemma grows_handled: "batch_grows s t \<Longrightarrow> handled is s \<Longrightarrow> handled is t"
  by (auto simp: batch_grows_def handled_def)

named_theorems growing

lemma grows_mod [growing]:
  assumes "\<And>it. it_settled (f it) = None \<Longrightarrow> it_settled it = None \<and> (it_product it \<noteq> None \<longrightarrow> it_product (f it) \<noteq> None)"
  shows "batch_grows s (modFsItem i f s)"
proof -
  have "item_open s j \<and> (awaits s j \<longrightarrow> awaits (modFsItem i f s) j)" if "item_open (modFsItem i f s) j" for j
    using that assms [of "fb_items s ! i"] by (cases "i = j") (auto simp: item_open_def awaits_def modFsItem_def)
  then show ?thesis by (simp add: batch_grows_def) (simp add: modFsItem_def)
qed

lemma grows_call: "batch_grows s (addCall c s)"
  by (auto simp: batch_grows_def addCall_def item_open_def awaits_def)

lemma grows_pending: "batch_grows s (s\<lparr>fb_pending := p\<rparr>)" "batch_grows s (s\<lparr>fb_ready := r\<rparr>)" "batch_grows s (s\<lparr>fb_owned := w\<rparr>)" "batch_grows s (s\<lparr>fb_timer := b\<rparr>)"
  by (simp_all add: batch_grows_def item_open_def awaits_def)

lemma grows_fold: "(\<And>x s. batch_grows s (f x s)) \<Longrightarrow> batch_grows s (fold f xs s)"
proof (induction xs arbitrary: s)
  case (Cons x xs)
  then show ?case using batch_grows_trans by (metis fold_simps(2))
qed simp

lemma grows_repair: "batch_grows s (startItemRepair g i s)"
  unfolding startItemRepair_def by (rule batch_grows_trans [OF grows_mod grows_call]) simp

lemma grows_ready: "batch_grows s (handleFileExplorerFsBatchGenerationReady cf key g s)"
proof -
  have "batch_grows s (repairReady key g is s)" for s "is"
    unfolding repairReady_def by (rule grows_fold) (simp add: grows_repair)
  then have "batch_grows s (repairReady key g is (s\<lparr>fb_ready := r\<rparr>))" for r "is" by (rule batch_grows_trans [OF grows_pending(2)])
  then show ?thesis by (simp add: handleFileExplorerFsBatchGenerationReady_def)
qed

lemma grows_release: "batch_grows s (releasePending i s)"
  by (simp add: releasePending_def grows_pending)

lemma settlePromise_settled: "it_settled (settlePromise x it) \<noteq> None"
  by (simp add: settlePromise_def split: option.split)

lemma finish_item: "batch_grows s (finishItem i x s) \<and> handled {i} (finishItem i x s)"
proof
  show "batch_grows s (finishItem i x s)" unfolding finishItem_def
    by (rule batch_grows_trans [OF grows_release grows_mod]) (simp add: settlePromise_settled)
  show "handled {i} (finishItem i x s)"
    by (auto simp: finishItem_def handled_def item_open_def modFsItem_def settlePromise_settled)
qed

lemma queue_product: "batch_grows s (queueProduct cf i ticket key s) \<and> handled {i} (queueProduct cf i ticket key s)"
proof -
  define g where "g = (case it_product (fb_items s ! i) of
            Some p \<Rightarrow> if apiGenerationReadyMatchesKey (pr_key p) key then pr_generation p else 0 | None \<Rightarrow> 0)"
  define s1 where "s1 = modFsItem i (\<lambda>it. it\<lparr>it_product := Some \<lparr>pr_ticket = ticket, pr_key = key, pr_generation = g\<rparr>, it_repairing := False\<rparr>) s"
  define s2 where "s2 = (if map_of (fb_pending s1) (keyOf i s1) = None then s1\<lparr>fb_pending := AList.update (keyOf i s1) i (fb_pending s1)\<rparr> else s1)"
  have r: "queueProduct cf i ticket key s = (case map_of (fb_ready s2) (apiGenerationReadyKey key) of
            Some g \<Rightarrow> if safe_generation g then handleFileExplorerFsBatchGenerationReady cf key g s2 else s2 | None \<Rightarrow> s2)"
    unfolding queueProduct_def Let_def g_def s1_def s2_def by (rule refl)
  have "batch_grows s s1" unfolding s1_def by (rule grows_mod) simp
  moreover have h: "handled {i} s1" by (auto simp: s1_def handled_def item_open_def awaits_def modFsItem_def)
  moreover have "batch_grows s1 s2" by (simp add: s2_def grows_pending)
  moreover have "batch_grows s2 (queueProduct cf i ticket key s)" unfolding r by (simp add: grows_ready split: option.split)
  ultimately show ?thesis by (meson batch_grows_trans grows_handled)
qed

lemma settle_item: "batch_grows s (settleFileExplorerFsBatchItem cf i r s) \<and> handled {i} (settleFileExplorerFsBatchItem cf i r s)"
  by (cases r) (simp_all add: settleFileExplorerFsBatchItem_def finish_item queue_product)

lemma fold_handled:
  assumes "\<And>i s. batch_grows s (f i s) \<and> handled {i} (f i s)"
  shows "batch_grows s (fold f is s) \<and> handled (set is) (fold f is s)"
proof (induction "is" arbitrary: s)
  case (Cons i "is")
  have a: "batch_grows s (f i s)" "handled {i} (f i s)" using assms by blast+
  have b: "batch_grows (f i s) (fold f is (f i s))" "handled (set is) (fold f is (f i s))" using Cons.IH by blast+
  show ?case using batch_grows_trans [OF a(1) b(1)] grows_handled [OF b(1) a(2)] b(2) by (simp add: handled_def)
qed (simp add: handled_def)

lemma settle_all: "batch_grows s (settleAll cf rs is s) \<and> handled (set is) (settleAll cf rs is s)"
  unfolding settleAll_def by (rule fold_handled) (rule settle_item)

lemma reject_all: "batch_grows s (rejectAll st is s) \<and> handled (set is) (rejectAll st is s)"
  unfolding rejectAll_def rejectFileExplorerFsBatchItem_def by (rule fold_handled) (rule finish_item)

text \<open>A state in which the listed items alone have lost their place.\<close>

definition placed_but :: "nat set \<Rightarrow> fs_batch \<Rightarrow> bool" where
  "placed_but is s = (\<forall>i. item_open s i \<longrightarrow> i \<in> in_flight s \<or> awaits s i \<or> i \<in> is)"

lemma placed_handled:
  assumes "placed_but is s" "batch_grows s t" "handled is t"
  shows "placed t"
  using assms grows_flight [OF assms(2)] by (fastforce simp: placed_but_def placed_def batch_grows_def handled_def)

lemma placed_but_grows: "placed_but is s \<Longrightarrow> batch_grows s t \<Longrightarrow> placed_but is t"
  using grows_flight by (fastforce simp: placed_but_def batch_grows_def)

lemma placed_grows: "placed s \<Longrightarrow> batch_grows s t \<Longrightarrow> placed t"
  by (rule placed_handled [of "{}"]) (simp_all add: placed_but_def placed_def handled_def)

lemma operation_removed:
  assumes "placed s" "distinct (map fst (fb_operations s))" "map_of (fb_operations s) k = Some is"
  shows "placed_but (set is) (s\<lparr>fb_operations := AList.delete k (fb_operations s)\<rparr>)"
  unfolding placed_but_def
proof (intro allI impI)
  let ?s = "s\<lparr>fb_operations := AList.delete k (fb_operations s)\<rparr>"
  fix i assume "item_open ?s i"
  then have "i \<in> in_flight s \<or> awaits s i" using assms(1) by (simp add: placed_def item_open_def)
  moreover have "p \<in> set (AList.delete k (fb_operations s))" if "p \<in> set (fb_operations s)" "fst p \<noteq> k" for p
    using that by (auto simp: AList.delete_eq)
  moreover have "i \<in> set is" if "p \<in> set (fb_operations s)" "fst p = k" "i \<in> set (snd p)" for p
    using that assms(2,3) by (metis map_of_eq_Some_iff option.inject prod.collapse)
  ultimately show "i \<in> in_flight ?s \<or> awaits ?s i \<or> i \<in> set is"
    by (force simp: in_flight_def awaits_def)
qed

lemma operation_applied:
  assumes "placed s" "distinct (map fst (fb_operations s))"
  shows "placed (applyFileExplorerFsBatchOperationResult cf k res s)"
proof (cases "map_of (fb_operations s) k")
  case (Some "is")
  note but = operation_removed [OF assms Some]
  have "placed (settleAll cf rs is (s\<lparr>fb_operations := AList.delete k (fb_operations s)\<rparr>))" for rs
    using placed_handled [OF but] settle_all by blast
  moreover have "placed (rejectAll st is (s\<lparr>fb_operations := AList.delete k (fb_operations s)\<rparr>))" for st
    using placed_handled [OF but] reject_all by blast
  ultimately show ?thesis using Some assms
    by (simp add: applyFileExplorerFsBatchOperationResult_def Let_def split: fs_op_result.split)
qed (use assms in \<open>simp add: applyFileExplorerFsBatchOperationResult_def\<close>)

section \<open>Every operation keeps the places\<close>

definition batch_ok :: "fs_batch \<Rightarrow> bool" where
  "batch_ok s = (placed s \<and> distinct (map fst (fb_operations s)))"

lemma operations_settled:
  "fb_operations (settleAll cf rs is s) = fb_operations s" "fb_operations (rejectAll st is s) = fb_operations s"
  using settle_all reject_all by (simp_all add: batch_grows_def)

lemma distinct_operations:
  "distinct (map fst (fb_operations s)) \<Longrightarrow> distinct (map fst (fb_operations (applyFileExplorerFsBatchOperationResult cf k res s)))"
  by (simp add: applyFileExplorerFsBatchOperationResult_def Let_def operations_settled distinct_delete split: option.split fs_op_result.split)

lemma update_absent: "k \<notin> fst ` set al \<Longrightarrow> AList.update k v al = al @ [(k, v)]"
  by (induction al) auto

text \<open>An operation chunk_accepted under a new name takes over the items.\<close>

lemma chunk_accepted:
  assumes "placed_but (set is) s" "distinct (map fst (fb_operations s))" "map_of (fb_operations s) k = None"
  shows "batch_ok (acceptFileExplorerFsBatchOperation cf k known is s)"
proof -
  define owned where "owned = fileExplorerFsBatchTerminalOwners (map (\<lambda>i. fb_items s ! i) is)"
  define t where "t = s\<lparr>fb_operations := AList.update k is (fb_operations s),
      fb_owned := (if owned = [] then fb_owned s else fb_owned s @ [(k, owned)])\<rparr>"
  have eq: "acceptFileExplorerFsBatchOperation cf k known is s
      = (case known of Some res \<Rightarrow> applyFileExplorerFsBatchOperationResult cf k res t | None \<Rightarrow> t)"
    unfolding acceptFileExplorerFsBatchOperation_def Let_def t_def owned_def by (rule refl)
  have "k \<notin> fst ` set (fb_operations s)" using assms(3) by (simp add: map_of_eq_None_iff)
  then have u: "AList.update k is (fb_operations s) = fb_operations s @ [(k, is)]" by (rule update_absent)
  have "batch_ok t" using assms by (auto simp: batch_ok_def t_def placed_def placed_but_def in_flight_def u item_open_def awaits_def distinct_update)
  then show ?thesis using operation_applied distinct_operations
    by (simp add: eq batch_ok_def split: option.split)
qed

lemma chunk_settled:
  assumes "placed_but (set is) s" "distinct (map fst (fb_operations s))" "names_operation ans s"
  shows "batch_ok (chunkSettled cf is ans s)"
proof (cases ans)
  case (AnsResponses rs)
  then show ?thesis using placed_handled [OF assms(1)] settle_all assms(2) by (simp add: chunkSettled_def batch_ok_def operations_settled)
next
  case (AnsOperation k known)
  then show ?thesis using placed_handled [OF assms(1)] reject_all chunk_accepted [OF assms(1,2)] assms(2,3)
    by (simp add: chunkSettled_def batch_ok_def operations_settled names_operation_def)
next
  case (AnsFails st)
  then show ?thesis using placed_handled [OF assms(1)] reject_all assms(2) by (simp add: chunkSettled_def batch_ok_def operations_settled)
qed

lemma call_replaced:
  assumes "placed s" "n < length (fb_calls s)" "holds (fb_calls s ! n) \<subseteq> holds c \<union> is"
  shows "placed_but is (setCall n c s)"
  unfolding placed_but_def
proof (intro allI impI)
  fix i assume "item_open (setCall n c s) i"
  then have "i \<in> in_flight s \<or> awaits s i" using assms(1) by (simp add: placed_def item_open_def setCall_def)
  moreover have "(\<Union>d \<in> set (fb_calls s). holds d) \<subseteq> (\<Union>d \<in> set ((fb_calls s)[n := c]). holds d) \<union> is"
  proof
    fix i assume "i \<in> (\<Union>d \<in> set (fb_calls s). holds d)"
    then obtain m where m: "m < length (fb_calls s)" "i \<in> holds (fb_calls s ! m)" by (auto simp: in_set_conv_nth)
    show "i \<in> (\<Union>d \<in> set ((fb_calls s)[n := c]). holds d) \<union> is"
    proof (cases "m = n")
      case True
      then show ?thesis using m(2) assms(2,3) set_update_memI [of n "fb_calls s" c] by auto
    next
      case False
      then have "(fb_calls s)[n := c] ! m = fb_calls s ! m" by simp
      then have "fb_calls s ! m \<in> set ((fb_calls s)[n := c])" using m(1) by (metis length_list_update nth_mem)
      then show ?thesis using m(2) by blast
    qed
  qed
  ultimately show "i \<in> in_flight (setCall n c s) \<or> awaits (setCall n c s) i \<or> i \<in> is"
    by (auto simp: in_flight_def setCall_def awaits_def)
qed

lemma chunk_answered:
  assumes "batch_ok s" "n < length (fb_calls s)" "names_operation ans s"
  shows "batch_ok (chunkAnswered cf n ans s)"
proof (cases "fb_calls s ! n")
  case (ChunkCall "is" rest)
  let ?t = "setCall n (if rest = [] then CallDone else NextChunks rest) s"
  have "placed_but (set is) ?t" using assms ChunkCall by (intro call_replaced) (auto simp: batch_ok_def)
  moreover have "distinct (map fst (fb_operations ?t))" "names_operation ans ?t"
    using assms by (simp_all add: batch_ok_def setCall_def names_operation_def split: fs_answer.splits)
  ultimately show ?thesis using ChunkCall chunk_settled by (simp add: chunkAnswered_def)
qed (use assms in \<open>simp_all add: chunkAnswered_def\<close>)

lemma grows_ok: "batch_ok s \<Longrightarrow> batch_grows s t \<Longrightarrow> batch_ok t"
  using placed_grows by (auto simp: batch_ok_def batch_grows_def)

lemma repair_answered:
  assumes "batch_ok s" "n < length (fb_calls s)" "names_operation ans s"
  shows "batch_ok (repairItemAnswered cf n ans s)"
proof (cases "fb_calls s ! n")
  case (RepairCall i)
  have "placed_but (set [i]) (setCall n CallDone s)" using assms RepairCall by (intro call_replaced) (auto simp: batch_ok_def)
  moreover have "distinct (map fst (fb_operations (setCall n CallDone s)))" "names_operation ans (setCall n CallDone s)"
    using assms by (simp_all add: batch_ok_def setCall_def names_operation_def split: fs_answer.splits)
  ultimately have "batch_ok (chunkSettled cf [i] ans (setCall n CallDone s))" by (rule chunk_settled)
  moreover have "batch_grows u (modFsItem i (\<lambda>it. it\<lparr>it_repairing := False\<rparr>) u)" for u by (rule grows_mod) simp
  then have "batch_grows u (repairEnds i u)" for u by (simp add: repairEnds_def)
  ultimately show ?thesis using RepairCall grows_ok by (simp add: repairItemAnswered_def)
qed (use assms in \<open>simp_all add: repairItemAnswered_def\<close>)

lemma single_answered:
  assumes "batch_ok s" "n < length (fb_calls s)"
  shows "batch_ok (singleAnswered cf n ans s)"
proof (cases "fb_calls s ! n")
  case (SingleCall i)
  let ?t = "setCall n CallDone s"
  have p: "placed_but {i} ?t" using assms SingleCall by (intro call_replaced) (auto simp: batch_ok_def)
  have d: "distinct (map fst (fb_operations ?t))" using assms by (simp add: batch_ok_def setCall_def)
  have "batch_ok u" if "batch_grows ?t u \<and> handled {i} u" for u
    using that placed_handled [OF p] d by (simp add: batch_ok_def batch_grows_def)
  then show ?thesis using SingleCall settle_item finish_item
    by (simp add: singleAnswered_def Let_def rejectFileExplorerFsBatchItem_def split: fs_single.split)
qed (use assms in \<open>simp_all add: singleAnswered_def\<close>)

lemma grows_marked: "batch_grows s (fold (\<lambda>i. modFsItem i (\<lambda>it. it\<lparr>it_sent := True\<rparr>)) is s)" "batch_grows s (fold (\<lambda>i. modFsItem i (\<lambda>it. it\<lparr>it_repairing := True\<rparr>)) is s)"
  by (rule grows_fold, rule grows_mod, simp)+

text \<open>Posting a chunk gives its items and those behind it a place.\<close>

lemma posted:
  assumes "placed_but (set is \<union> set (concat rest)) s"
  shows "placed (postFileExplorerFsBatchChunk is rest s)"
proof -
  have g: "batch_grows s (markSent is s)" unfolding markSent_def by (rule grows_marked)
  have "placed_but (set is \<union> set (concat rest)) (markSent is s)"
    using assms g by (rule placed_but_grows)
  then show ?thesis
    by (auto simp: postFileExplorerFsBatchChunk_def placed_def placed_but_def in_flight_def addCall_def item_open_def awaits_def)
qed

lemma posted_operations: "fb_operations (postFileExplorerFsBatchChunk is rest s) = fb_operations s"
proof -
  have "batch_grows s (markSent is s)" unfolding markSent_def by (rule grows_marked)
  then show ?thesis by (simp add: postFileExplorerFsBatchChunk_def addCall_def batch_grows_def)
qed

lemma flush_continued:
  assumes "batch_ok s" "n < length (fb_calls s)" shows "batch_ok (flushContinues n s)"
proof (cases "\<exists>c rest. fb_calls s ! n = NextChunks (c # rest)")
  case True
  then obtain c rest where c: "fb_calls s ! n = NextChunks (c # rest)" by blast
  have "placed_but (set c \<union> set (concat rest)) (setCall n CallDone s)"
    using assms c by (intro call_replaced) (auto simp: batch_ok_def)
  then have "placed (postFileExplorerFsBatchChunk c rest (setCall n CallDone s))" by (rule posted)
  then show ?thesis using c assms by (simp add: flushContinues_def batch_ok_def posted_operations setCall_def)
qed (use assms in \<open>auto simp: flushContinues_def split: fs_call.split list.split\<close>)

lemma flushed:
  assumes "batch_ok s" "0 < fx_requests cf" shows "batch_ok (flushFileExplorerFsBatch cf s)"
proof -
  let ?s = "s\<lparr>fb_timer := False, fb_queue := []\<rparr>"
  have q: "concat (fileExplorerFsBatchChunks cf (fb_queue s)) = fb_queue s" using assms(2) by (rule chunks_concat)
  have p: "placed_but (set (fb_queue s)) ?s"
    using assms(1) by (auto simp: batch_ok_def placed_def placed_but_def in_flight_def item_open_def awaits_def)
  show ?thesis
  proof (cases "fileExplorerFsBatchChunks cf (fb_queue s)")
    case Nil
    then have "fb_queue s = []" using q by simp
    then have "placed ?s" using p by (simp add: placed_def placed_but_def)
    then show ?thesis using Nil assms(1) by (simp add: flushFileExplorerFsBatch_def batch_ok_def)
  next
    case (Cons c rest)
    then have "set c \<union> set (concat rest) = set (fb_queue s)" using q by (metis concat.simps(2) set_append)
    then have "placed (postFileExplorerFsBatchChunk c rest ?s)" using posted [of c rest ?s] p by simp
    then show ?thesis using Cons assms(1) by (simp add: flushFileExplorerFsBatch_def batch_ok_def posted_operations)
  qed
qed

lemma item_fetched:
  assumes "batch_ok s" "0 < fx_requests cf" shows "batch_ok (fst (fetchFilesystemBatchItem cf t path shared opts s))"
proof (cases "if shared then map_of (fb_pending s) (fileExplorerFsBatchKey t (normalizeDirectoryPath path)) else None")
  case (Some i)
  have "batch_grows s (modFsItem i (\<lambda>it. recordFileExplorerFsBatchTerminalOwner (fo_owner opts)
                 (if it_sent it then it else recordFileExplorerFsBatchTrigger cf (fileExplorerFsBatchTrigger opts) it)) s)"
    by (rule grows_mod) (simp add: recordFileExplorerFsBatchTerminalOwner_def recordFileExplorerFsBatchTrigger_def Let_def split: if_splits)
  then show ?thesis using Some grows_ok [OF assms(1)] by (simp add: fetchFilesystemBatchItem_def Let_def)
next
  case None
  define u where "u = s\<lparr>fb_items := fb_items s @ [newItem t (normalizeDirectoryPath path) opts],
      fb_pending := (if shared then AList.update (fileExplorerFsBatchKey t (normalizeDirectoryPath path)) (length (fb_items s)) (fb_pending s) else fb_pending s),
      fb_queue := fb_queue s @ [length (fb_items s)]\<rparr>"
  have "batch_ok u" using assms(1)
    by (auto simp: u_def batch_ok_def placed_def in_flight_def item_open_def awaits_def nth_append less_Suc_eq)
  moreover have "batch_grows u (scheduleFileExplorerFsBatchFlush u)" by (simp add: scheduleFileExplorerFsBatchFlush_def grows_pending)
  ultimately show ?thesis using None flushed [OF _ assms(2)] grows_ok
    by (simp add: fetchFilesystemBatchItem_def Let_def u_def [symmetric])
qed

lemma singles:
  assumes "placed_but (set is) s"
  shows "placed (fold fetchFileExplorerFsBatchSingleItem is s)"
  using assms
proof (induction "is" arbitrary: s)
  case (Cons i "is")
  have "batch_grows s (modFsItem i (\<lambda>it. it\<lparr>it_sent := True\<rparr>) s)" by (rule grows_mod) simp
  with Cons.prems have "placed_but (set (i # is)) (modFsItem i (\<lambda>it. it\<lparr>it_sent := True\<rparr>) s)" by (rule placed_but_grows)
  then have "placed_but (set is) (fetchFileExplorerFsBatchSingleItem i s)"
    by (auto simp: fetchFileExplorerFsBatchSingleItem_def placed_but_def in_flight_def addCall_def item_open_def awaits_def)
  then show ?case using Cons.IH by simp
qed (simp add: placed_def placed_but_def)

lemma drained:
  assumes "batch_ok s" shows "batch_ok (drainFileExplorerFsBatchWithoutPush s)"
proof -
  define ad where "ad = filter (\<lambda>i. admitted (fb_items s ! i)) (map snd (fb_pending s))"
  let ?s = "s\<lparr>fb_timer := False, fb_queue := []\<rparr>"
  define u where "u = fold (\<lambda>i. modFsItem i (\<lambda>it. it\<lparr>it_repairing := True\<rparr>)) ad ?s"
  have g: "batch_grows ?s u" unfolding u_def by (rule grows_marked)
  have "placed_but (set (fb_queue s @ ad)) ?s"
    using assms by (auto simp: batch_ok_def placed_def placed_but_def in_flight_def item_open_def awaits_def)
  then have "placed_but (set (fb_queue s @ ad)) u" using g by (rule placed_but_grows)
  then have p: "placed (fold fetchFileExplorerFsBatchSingleItem (fb_queue s @ ad) u)" by (rule singles)
  have "fb_operations (fold fetchFileExplorerFsBatchSingleItem is v) = fb_operations v" for "is" v
    by (induction "is" arbitrary: v) (simp_all add: fetchFileExplorerFsBatchSingleItem_def addCall_def modFsItem_def)
  then show ?thesis using p assms g
    by (simp add: drainFileExplorerFsBatchWithoutPush_def Let_def ad_def [symmetric] u_def [symmetric] batch_ok_def batch_grows_def)
qed

lemma batch_ok_event:
  assumes "batch_ok s" "0 < fx_requests cf" "possible ev s" shows "batch_ok (batch_do cf ev s)"
proof (cases ev)
  case (OperationResult k res)
  then show ?thesis using assms(1) operation_applied distinct_operations by (simp add: batch_ok_def)
next
  case (GenerationReady key g)
  then show ?thesis using grows_ok [OF assms(1) grows_ready] by simp
qed (use assms item_fetched flushed chunk_answered flush_continued repair_answered single_answered drained in simp_all)

lemma batch_ok_init: "batch_ok batch_init"
  by (simp add: batch_ok_def batch_init_def placed_def item_open_def)

end
