(* ===== verification/Fs_Stranded.thy ===== *)
theory Fs_Stranded
  imports Fs_Items
begin

text \<open>An item that is in no request, no operation and not the pending one of its path is never settled.\<close>

definition stranded :: "nat \<Rightarrow> fs_batch \<Rightarrow> bool" where
  "stranded i s = (item_open s i \<and> i \<notin> in_flight s \<and> i \<notin> snd ` set (fb_pending s))"

lemma stranded_mod: "stranded i s \<Longrightarrow> j \<noteq> i \<Longrightarrow> stranded i (modFsItem j f s)"
  by (simp add: stranded_def modFsItem_def item_open_def in_flight_def)

lemma stranded_call: "stranded i s \<Longrightarrow> i \<notin> holds c \<Longrightarrow> stranded i (addCall c s)"
  by (simp add: stranded_def addCall_def item_open_def in_flight_def)

lemma stranded_fields:
  "stranded i (s\<lparr>fb_ready := r\<rparr>) = stranded i s" "stranded i (s\<lparr>fb_timer := b\<rparr>) = stranded i s" "stranded i (s\<lparr>fb_owned := w\<rparr>) = stranded i s"
  by (simp_all add: stranded_def item_open_def in_flight_def)

lemma stranded_fewer: "stranded i s \<Longrightarrow> set p \<subseteq> set (fb_pending s) \<Longrightarrow> stranded i (s\<lparr>fb_pending := p\<rparr>)"
  by (auto simp: stranded_def item_open_def in_flight_def)

lemma update_values: "snd ` set (AList.update k v al) \<subseteq> insert v (snd ` set al)"
  by (induction al) auto

lemma stranded_added: "stranded i s \<Longrightarrow> j \<noteq> i \<Longrightarrow> stranded i (s\<lparr>fb_pending := AList.update k j (fb_pending s)\<rparr>)"
  using update_values [of k j "fb_pending s"] by (auto simp: stranded_def item_open_def in_flight_def)

lemma stranded_fold: "stranded i s \<Longrightarrow> (\<And>j s. j \<in> set js \<Longrightarrow> stranded i s \<Longrightarrow> stranded i (f j s)) \<Longrightarrow> stranded i (fold f js s)"
  by (induction js arbitrary: s) auto

lemma stranded_ready:
  assumes "stranded i s" shows "stranded i (handleFileExplorerFsBatchGenerationReady cf key g s)"
proof -
  have n: "i \<notin> set (map snd (fb_pending s))" using assms by (simp add: stranded_def)
  have start: "stranded i (startItemRepair g j u)" if "stranded i u" "j \<noteq> i" for j u
    unfolding startItemRepair_def using that by (intro stranded_call stranded_mod) simp_all
  have "stranded i (repairReady key g (map snd (fb_pending s)) (s\<lparr>fb_ready := r\<rparr>))" for r
    unfolding repairReady_def
  proof (rule stranded_fold)
    show "stranded i (s\<lparr>fb_ready := r\<rparr>)" using assms by (simp add: stranded_fields)
    fix j u assume "j \<in> set (map snd (fb_pending s))" "stranded i u"
    moreover from this n have "j \<noteq> i" by blast
    ultimately show "stranded i (if repairable key g (fb_items u ! j) then startItemRepair g j u else u)" using start by simp
  qed
  then show ?thesis using assms by (simp add: handleFileExplorerFsBatchGenerationReady_def)
qed

lemma stranded_finish: "stranded i s \<Longrightarrow> j \<noteq> i \<Longrightarrow> stranded i (finishItem j x s)"
  unfolding finishItem_def releasePending_def
  by (rule stranded_mod) (auto intro!: stranded_fewer simp: AList.delete_eq)

lemma stranded_queue: "stranded i s \<Longrightarrow> j \<noteq> i \<Longrightarrow> stranded i (queueProduct cf j ticket key s)"
  unfolding queueProduct_def Let_def
  by (auto intro!: stranded_ready stranded_mod stranded_added split: option.split)

lemma stranded_settle: "stranded i s \<Longrightarrow> j \<noteq> i \<Longrightarrow> stranded i (settleFileExplorerFsBatchItem cf j r s)"
  by (cases r) (simp_all add: settleFileExplorerFsBatchItem_def stranded_finish stranded_queue)

lemma stranded_all: "stranded i s \<Longrightarrow> i \<notin> set js \<Longrightarrow> stranded i (settleAll cf rs js s)" "stranded i s \<Longrightarrow> i \<notin> set js \<Longrightarrow> stranded i (rejectAll st js s)"
  unfolding settleAll_def rejectAll_def rejectFileExplorerFsBatchItem_def
  by (auto intro!: stranded_fold stranded_settle stranded_finish)

lemma stranded_apply:
  assumes "stranded i s" shows "stranded i (applyFileExplorerFsBatchOperationResult cf k res s)"
proof (cases "map_of (fb_operations s) k")
  case (Some js)
  have "i \<notin> set js" using assms map_of_SomeD [OF Some] by (force simp: stranded_def in_flight_def)
  moreover have "stranded i (s\<lparr>fb_operations := AList.delete k (fb_operations s)\<rparr>)"
    using assms by (auto simp: stranded_def item_open_def in_flight_def AList.delete_eq)
  ultimately show ?thesis using Some assms stranded_all
    by (simp add: applyFileExplorerFsBatchOperationResult_def Let_def split: fs_op_result.split)
qed (use assms in \<open>simp add: applyFileExplorerFsBatchOperationResult_def\<close>)

lemma update_entries: "set (AList.update k v al) \<subseteq> insert (k, v) (set al)"
  by (induction al) auto

lemma stranded_accept:
  assumes "stranded i s" "i \<notin> set js" shows "stranded i (acceptFileExplorerFsBatchOperation cf k known js s)"
proof -
  have "i \<notin> set (snd p)" if "p \<in> set (AList.update k js (fb_operations s))" for p
    using that assms update_entries [of k js "fb_operations s"] by (auto simp: stranded_def in_flight_def)
  then have "stranded i (s\<lparr>fb_operations := AList.update k js (fb_operations s), fb_owned := w\<rparr>)" for w
    using assms by (simp add: stranded_def item_open_def in_flight_def)
  then show ?thesis using stranded_apply unfolding acceptFileExplorerFsBatchOperation_def Let_def by (cases known) simp_all
qed

lemma stranded_chunk: "stranded i s \<Longrightarrow> i \<notin> set js \<Longrightarrow> stranded i (chunkSettled cf js ans s)"
  by (cases ans) (simp_all add: chunkSettled_def stranded_all stranded_accept)

lemma stranded_held: "stranded i s \<Longrightarrow> n < length (fb_calls s) \<Longrightarrow> i \<notin> holds (fb_calls s ! n)"
  by (auto simp: stranded_def in_flight_def)

lemma stranded_setCall: "stranded i s \<Longrightarrow> i \<notin> holds c \<Longrightarrow> stranded i (setCall n c s)"
  using set_update_subset_insert [of "fb_calls s" n c] by (auto simp: stranded_def setCall_def item_open_def in_flight_def)

lemma stranded_post:
  assumes "stranded i s" "i \<notin> set js" "i \<notin> set (concat rest)"
  shows "stranded i (postFileExplorerFsBatchChunk js rest s)"
  unfolding postFileExplorerFsBatchChunk_def markSent_def
  using assms by (intro stranded_call stranded_fold stranded_mod) auto

lemma stranded_flush:
  assumes "stranded i s" "0 < fx_requests cf" shows "stranded i (flushFileExplorerFsBatch cf s)"
proof -
  have s: "stranded i (s\<lparr>fb_timer := False, fb_queue := []\<rparr>)" using assms(1) by (auto simp: stranded_def item_open_def in_flight_def)
  have "i \<notin> set (concat (fileExplorerFsBatchChunks cf (fb_queue s)))"
    using assms by (simp add: chunks_concat stranded_def in_flight_def)
  then show ?thesis using s stranded_post
    by (simp add: flushFileExplorerFsBatch_def Let_def split: list.split)
qed

lemma stranded_fetch:
  assumes "stranded i s" "0 < fx_requests cf" shows "stranded i (fst (fetchFilesystemBatchItem cf t path shared opts s))"
proof (cases "if shared then map_of (fb_pending s) (fileExplorerFsBatchKey t (normalizeDirectoryPath path)) else None")
  case (Some j)
  then have "(fileExplorerFsBatchKey t (normalizeDirectoryPath path), j) \<in> set (fb_pending s)" by (auto split: if_splits dest: map_of_SomeD)
  then have "j \<noteq> i" using assms(1) by (force simp: stranded_def)
  then show ?thesis using Some assms(1) by (simp add: fetchFilesystemBatchItem_def Let_def stranded_mod)
next
  case None
  define u where "u = s\<lparr>fb_items := fb_items s @ [newItem t (normalizeDirectoryPath path) opts],
      fb_pending := (if shared then AList.update (fileExplorerFsBatchKey t (normalizeDirectoryPath path)) (length (fb_items s)) (fb_pending s) else fb_pending s),
      fb_queue := fb_queue s @ [length (fb_items s)]\<rparr>"
  have "i < length (fb_items s)" using assms(1) by (simp add: stranded_def item_open_def)
  then have "stranded i u"
    using assms(1) update_values [of "fileExplorerFsBatchKey t (normalizeDirectoryPath path)" "length (fb_items s)" "fb_pending s"]
    by (auto simp: u_def stranded_def item_open_def in_flight_def nth_append)
  then show ?thesis using None stranded_flush [OF _ assms(2)]
    by (simp add: fetchFilesystemBatchItem_def Let_def u_def [symmetric] scheduleFileExplorerFsBatchFlush_def stranded_fields)
qed

lemma stranded_drain:
  assumes "stranded i s" shows "stranded i (drainFileExplorerFsBatchWithoutPush s)"
proof -
  define ad where "ad = filter (\<lambda>j. admitted (fb_items s ! j)) (map snd (fb_pending s))"
  have n: "i \<notin> set ad" "i \<notin> set (fb_queue s)" using assms by (auto simp: ad_def stranded_def in_flight_def)
  have "stranded i (s\<lparr>fb_timer := False, fb_queue := []\<rparr>)" using assms by (auto simp: stranded_def item_open_def in_flight_def)
  then have u: "stranded i (fold (\<lambda>j. modFsItem j (\<lambda>it. it\<lparr>it_repairing := True\<rparr>)) ad (s\<lparr>fb_timer := False, fb_queue := []\<rparr>))"
    using n by (intro stranded_fold) (auto intro: stranded_mod)
  show ?thesis unfolding drainFileExplorerFsBatchWithoutPush_def Let_def ad_def [symmetric]
    using n by (intro stranded_fold [OF u]) (auto simp: fetchFileExplorerFsBatchSingleItem_def intro!: stranded_call stranded_mod)
qed

lemma stranded_answers:
  assumes "stranded i s" "n < length (fb_calls s)"
  shows "stranded i (chunkAnswered cf n ans s)" "stranded i (flushContinues n s)" "stranded i (repairItemAnswered cf n ans s)"
    "stranded i (singleAnswered cf n single s)"
proof -
  have h: "i \<notin> holds (fb_calls s ! n)" by (rule stranded_held [OF assms])
  show "stranded i (chunkAnswered cf n ans s)" "stranded i (flushContinues n s)"
    using assms(1) h stranded_setCall [OF assms(1)]
    by (auto simp: chunkAnswered_def flushContinues_def intro!: stranded_chunk stranded_post split: fs_call.split list.split)
  have ends: "stranded i (repairEnds j u)" if "stranded i u" "j \<noteq> i" for j u using that by (simp add: repairEnds_def stranded_mod)
  show "stranded i (repairItemAnswered cf n ans s)"
    using assms(1) h stranded_setCall [OF assms(1), of CallDone n]
    by (auto simp: repairItemAnswered_def intro!: ends stranded_chunk split: fs_call.split)
  show "stranded i (singleAnswered cf n single s)"
    using assms(1) h stranded_setCall [OF assms(1), of CallDone n]
    by (auto simp: singleAnswered_def Let_def rejectFileExplorerFsBatchItem_def intro!: stranded_settle stranded_finish split: fs_call.split fs_single.split)
qed

lemma stranded_event:
  assumes "stranded i s" "0 < fx_requests cf" "possible ev s" shows "stranded i (batch_do cf ev s)"
  using assms by (cases ev) (simp_all add: stranded_fetch stranded_flush stranded_answers stranded_apply stranded_ready stranded_drain)

end
