(* ===== verification/Fs_Records.thy ===== *)
theory Fs_Records
  imports Fs_Client Fs_Stranded
begin

text \<open>
  What every operation of the file explorer keeps of its records: they are bounded and unique per path, their
  generations only grow, an evicted record never comes back, so a request that is no longer current stays so.
\<close>

section \<open>Records only move forward\<close>

text \<open>A request that was for the record it names and no newer than it.\<close>

definition request_ok :: "fs_record list \<Rightarrow> fs_request \<Rightarrow> bool" where
  "request_ok heap q = (fq_record q < length heap \<and> fq_generation q \<le> fr_generation (heap ! fq_record q))"

definition same_request :: "fs_request \<Rightarrow> fs_request \<Rightarrow> bool" where
  "same_request p q = (q = p\<lparr>fq_outcome := fq_outcome q\<rparr>)"

definition heap_grows :: "fs_record list \<Rightarrow> fs_record list \<Rightarrow> bool" where
  "heap_grows h h' = (length h \<le> length h' \<and> (\<forall>r < length h. fr_generation (h ! r) \<le> fr_generation (h' ! r)))"

definition map_moves :: "nat \<Rightarrow> nat \<Rightarrow> nat \<Rightarrow> (string \<times> nat) list \<Rightarrow> (string \<times> nat) list \<Rightarrow> bool" where
  "map_moves limit low high m m' =
     ((\<forall>p \<in> set m'. p \<in> set m \<or> low \<le> snd p \<and> snd p < high)
      \<and> (distinct (map fst m) \<longrightarrow> distinct (map fst m')) \<and> (length m \<le> limit \<longrightarrow> length m' \<le> limit))"

definition requests_grow :: "fs_record list \<Rightarrow> fs_request list \<Rightarrow> fs_request list \<Rightarrow> bool" where
  "requests_grow h rs rs' =
     (length rs \<le> length rs' \<and> (\<forall>i < length rs. same_request (rs ! i) (rs' ! i))
      \<and> (\<forall>i. length rs \<le> i \<and> i < length rs' \<longrightarrow> request_ok h (rs' ! i)))"

definition evolves :: "fs_config \<Rightarrow> fs_client \<Rightarrow> fs_client \<Rightarrow> bool" where
  "evolves cf s t =
     (heap_grows (fs_heap s) (fs_heap t) \<and> map_moves (fx_memory cf) (length (fs_heap s)) (length (fs_heap t)) (fs_map s) (fs_map t)
      \<and> requests_grow (fs_heap t) (fs_requests s) (fs_requests t))"

lemma map_moves_refl [simp]: "map_moves limit low high m m" by (simp add: map_moves_def)

lemma heap_grows_refl [simp]: "heap_grows h h" by (simp add: heap_grows_def)

lemma same_request_refl [simp]: "same_request p p" by (simp add: same_request_def)

lemma requests_grow_refl [simp]: "requests_grow h rs rs" by (auto simp: requests_grow_def)

lemma same_request_fields:
  "same_request p q \<Longrightarrow> fq_type q = fq_type p \<and> fq_path q = fq_path p \<and> fq_record q = fq_record p \<and> fq_generation q = fq_generation p
     \<and> fq_item q = fq_item p \<and> fq_options q = fq_options p"
  unfolding same_request_def by (metis fs_request.select_convs(1-6) fs_request.surjective fs_request.update_convs(7))

lemma same_request_trans: "same_request p q \<Longrightarrow> same_request q r \<Longrightarrow> same_request p r"
  unfolding same_request_def by (metis fs_request.surjective fs_request.update_convs(7))

lemma evolves_refl [simp]: "evolves cf s s"
  by (auto simp: evolves_def heap_grows_def map_moves_def requests_grow_def)

lemma request_ok_grows: "request_ok h q \<Longrightarrow> heap_grows h h' \<Longrightarrow> same_request q q' \<Longrightarrow> request_ok h' q'"
  using same_request_fields [of q q'] by (fastforce simp: request_ok_def heap_grows_def intro: order_trans)

lemma evolves_trans:
  assumes "evolves cf s t" "evolves cf t u" shows "evolves cf s u"
proof -
  have h: "heap_grows (fs_heap s) (fs_heap u)"
    using assms unfolding evolves_def heap_grows_def by (meson order_less_le_trans order_trans)
  have "map_moves (fx_memory cf) (length (fs_heap s)) (length (fs_heap u)) (fs_map s) (fs_map u)"
    using assms by (fastforce simp: evolves_def heap_grows_def map_moves_def)
  moreover have "requests_grow (fs_heap u) (fs_requests s) (fs_requests u)"
    unfolding requests_grow_def
  proof (intro conjI allI impI)
    show "length (fs_requests s) \<le> length (fs_requests u)" using assms by (auto simp: evolves_def requests_grow_def)
    show "same_request (fs_requests s ! i) (fs_requests u ! i)" if "i < length (fs_requests s)" for i
      using that assms same_request_trans unfolding evolves_def requests_grow_def by (meson order_less_le_trans)
    show "request_ok (fs_heap u) (fs_requests u ! i)" if "length (fs_requests s) \<le> i \<and> i < length (fs_requests u)" for i
    proof (cases "i < length (fs_requests t)")
      case True
      then have "request_ok (fs_heap t) (fs_requests t ! i)" "same_request (fs_requests t ! i) (fs_requests u ! i)"
        using that assms by (simp_all add: evolves_def requests_grow_def)
      then show ?thesis using assms(2) request_ok_grows by (auto simp: evolves_def)
    qed (use that assms(2) in \<open>simp add: evolves_def requests_grow_def\<close>)
  qed
  ultimately show ?thesis using h by (simp add: evolves_def)
qed

lemma evolves_same: "fs_heap t = fs_heap s \<Longrightarrow> fs_map t = fs_map s \<Longrightarrow> fs_requests t = fs_requests s \<Longrightarrow> evolves cf s t"
  by (auto simp: evolves_def heap_grows_def map_moves_def requests_grow_def)

lemma evolves_fold: "(\<And>x s. evolves cf s (f x s)) \<Longrightarrow> evolves cf s (fold f xs s)"
  by (induction xs arbitrary: s) (auto intro: evolves_trans)

lemma evolves_mod:
  assumes "\<And>x. fr_generation x \<le> fr_generation (f x)" shows "evolves cf s (modFsRecord r f s)"
proof -
  have "fr_generation (h ! i) \<le> fr_generation (h[r := f (h ! r)] ! i)" if "i < length h" for h i
    using that assms by (cases "i = r") simp_all
  then show ?thesis by (auto simp: evolves_def modFsRecord_def heap_grows_def map_moves_def requests_grow_def)
qed

lemma limited_entry:
  assumes "p \<in> set (setLimitedMapEntry limit k v m)" shows "p \<in> set m \<or> p = (k, v)"
  using assms set_drop_subset [of _ "AList.delete k m @ [(k, v)]"]
  by (auto simp: setLimitedMapEntry_def Let_def AList.delete_eq split: if_splits dest!: in_set_dropD)

lemma limited_moves:
  assumes "(k, v) \<in> set m \<or> low \<le> v \<and> v < high" shows "map_moves limit low high m (setLimitedMapEntry limit k v m)"
proof -
  have d: "distinct (map fst m) \<Longrightarrow> distinct (map fst (AList.delete k m @ [(k, v)]))"
    using distinct_delete [of m k] deleted_key [of k m] by simp
  have "distinct (map fst (drop n al))" if "distinct (map fst al)" for n and al :: "(string \<times> nat) list"
    using distinct_drop [OF that, of n] by (simp add: drop_map)
  then have "distinct (map fst m) \<longrightarrow> distinct (map fst (setLimitedMapEntry limit k v m))"
    using d by (auto simp only: setLimitedMapEntry_def Let_def split: if_split)
  moreover have "length m \<le> limit \<longrightarrow> length (setLimitedMapEntry limit k v m) \<le> limit"
    by (auto simp: setLimitedMapEntry_def Let_def)
  ultimately show ?thesis using assms limited_entry by (fastforce simp: map_moves_def)
qed

lemma evolves_record: "evolves cf s (fst (fileExplorerFsResourceRecord cf t path s))"
proof (cases "map_of (fs_map s) (fileExplorerFsBatchKey t path)")
  case None
  have "map_moves (fx_memory cf) (length (fs_heap s)) (Suc (length (fs_heap s))) (fs_map s)
      (setLimitedMapEntry (fx_memory cf) (fileExplorerFsBatchKey t path) (length (fs_heap s)) (fs_map s))"
    by (rule limited_moves) simp
  then show ?thesis using None
    by (auto simp: fileExplorerFsResourceRecord_def Let_def evolves_def heap_grows_def requests_grow_def nth_append)
qed (simp add: fileExplorerFsResourceRecord_def)

lemma evolves_touch: "evolves cf s (fst (cachedFileExplorerFsResourceValue cf t path s))"
proof -
  have "map_moves (fx_memory cf) (length (fs_heap s)) (length (fs_heap s)) (fs_map s)
      (setLimitedMapEntry (fx_memory cf) (fileExplorerFsBatchKey t path) r (fs_map s))"
    if "map_of (fs_map s) (fileExplorerFsBatchKey t path) = Some r" for r
    using map_of_SomeD [OF that] by (intro limited_moves) simp
  then show ?thesis
    by (auto simp: cachedFileExplorerFsResourceValue_def Let_def evolves_def split: option.split)
qed

lemma evolves_invalidated: "evolves cf s (invalidateFileExplorerFsResourceRecord key r s)"
proof -
  have "evolves cf s (modFsRecord r (\<lambda>x. clearFileExplorerFsResourceFailure
            (x\<lparr>fr_generation := Suc (fr_generation x), fr_value := None, fr_storedAt := 0, fr_request := None\<rparr>)) s)"
    by (rule evolves_mod) (simp add: clearFileExplorerFsResourceFailure_def)
  moreover have "evolves cf u (u\<lparr>fs_map := AList.delete key (fs_map u)\<rparr>)" for u
  proof -
    have "p \<in> set (AList.delete key (fs_map u)) \<Longrightarrow> p \<in> set (fs_map u)" for p by (auto simp: AList.delete_eq)
    then have "map_moves (fx_memory cf) (length (fs_heap u)) (length (fs_heap u)) (fs_map u) (AList.delete key (fs_map u))"
      using length_delete_le [of key "fs_map u"] distinct_delete [of "fs_map u" key] unfolding map_moves_def by (meson order_trans)
    then show ?thesis by (simp add: evolves_def)
  qed
  ultimately show ?thesis unfolding invalidateFileExplorerFsResourceRecord_def Let_def
    by (auto intro: evolves_trans)
qed

lemma evolves_records: "evolves cf s (invalidateRecords drops s)"
  unfolding invalidateRecords_def by (rule evolves_fold) (auto simp: evolves_invalidated split: prod.split)

lemma evolves_value: "evolves cf s (setFileExplorerFsResourceValue cf now t path v s)"
  "evolves cf s (markFileExplorerDirectoryDemandNegative cf now path status s)"
  unfolding setFileExplorerFsResourceValue_def markFileExplorerDirectoryDemandNegative_def
  by (cases "fileExplorerFsResourceRecord cf t path s", use evolves_record [of cf s t path] in
      \<open>auto intro!: evolves_trans [OF _ evolves_mod] simp: clearFileExplorerFsResourceFailure_def\<close>)
    (cases "fileExplorerFsResourceRecord cf ListType path s", use evolves_record [of cf s ListType path] in
      \<open>auto intro!: evolves_trans [OF _ evolves_mod] simp: recordFileExplorerFsResourceFailure_def Let_def\<close>)

end
