(* ===== verification/Fs_Evolution.thy ===== *)
theory Fs_Evolution
  imports Fs_Records
begin

text \<open>Every step of the file explorer moves its records forward.\<close>

section \<open>Well-formed records\<close>

definition records_ok :: "fs_config \<Rightarrow> fs_client \<Rightarrow> bool" where
  "records_ok cf s =
     (distinct (map fst (fs_map s)) \<and> length (fs_map s) \<le> fx_memory cf \<and> (\<forall>p \<in> set (fs_map s). snd p < length (fs_heap s))
      \<and> (\<forall>q \<in> set (fs_requests s). request_ok (fs_heap s) q))"

lemma records_ok_init: "records_ok cf fs_init" by (simp add: records_ok_def fs_init_def)

lemma records_ok_evolves:
  assumes "records_ok cf s" "evolves cf s t" shows "records_ok cf t"
proof -
  have "request_ok (fs_heap t) q" if q: "q \<in> set (fs_requests t)" for q
  proof -
    obtain i where i: "i < length (fs_requests t)" "q = fs_requests t ! i" using q by (auto simp: in_set_conv_nth)
    show ?thesis
    proof (cases "i < length (fs_requests s)")
      case True
      then have "request_ok (fs_heap s) (fs_requests s ! i)" using assms(1) by (simp add: records_ok_def)
      moreover have "heap_grows (fs_heap s) (fs_heap t)" "same_request (fs_requests s ! i) (fs_requests t ! i)"
        using True assms(2) by (simp_all add: evolves_def requests_grow_def)
      ultimately show ?thesis unfolding i(2) by (rule request_ok_grows)
    qed (use i assms(2) in \<open>simp add: evolves_def requests_grow_def\<close>)
  qed
  moreover have "snd p < length (fs_heap t)" if "p \<in> set (fs_map t)" for p
    using that assms by (force simp: evolves_def map_moves_def heap_grows_def records_ok_def)
  ultimately show ?thesis using assms by (simp add: evolves_def map_moves_def records_ok_def)
qed

lemma evolves_ok_trans: "records_ok cf s \<Longrightarrow> evolves cf s t \<Longrightarrow> (records_ok cf t \<Longrightarrow> evolves cf t u) \<Longrightarrow> evolves cf s u"
  by (blast intro: evolves_trans records_ok_evolves)

section \<open>Operations that leave the records alone\<close>

definition core_same :: "fs_client \<Rightarrow> fs_client \<Rightarrow> bool" where
  "core_same s t = (fs_heap t = fs_heap s \<and> fs_map t = fs_map s \<and> fs_requests t = fs_requests s)"

named_theorems core

lemma core_refl [simp]: "core_same s s" by (simp add: core_same_def)

lemma core_trans: "core_same s t \<Longrightarrow> core_same t u \<Longrightarrow> core_same s u" by (simp add: core_same_def)

lemma core_evolves: "core_same s t \<Longrightarrow> evolves cf s t" by (simp add: core_same_def evolves_same)

lemma core_fold: "(\<And>x s. core_same s (f x s)) \<Longrightarrow> core_same s (fold f xs s)"
  by (induction xs arbitrary: s) (auto intro: core_trans)

lemma core_updates [simp]:
  "core_same s (s\<lparr>fs_tombstones := x\<rparr>)" "core_same s (s\<lparr>en_pending := x\<rparr>)" "core_same s (s\<lparr>en_inFlight := x\<rparr>)"
  "core_same s (s\<lparr>en_frame := b\<rparr>)" "core_same s (s\<lparr>en_waves := w\<rparr>)" "core_same s (s\<lparr>fs_batches := bs\<rparr>)"
  by (simp_all add: core_same_def)

lemma core_tombstones [core]:
  "core_same s (markFileExplorerDeletedPaths paths s)" "core_same s (clearFileExplorerDeletedPaths paths s)"
  "core_same s (reconcileFileExplorerDeletedPathTombstones d es b s)"
  by (simp_all add: markFileExplorerDeletedPaths_def clearFileExplorerDeletedPaths_def reconcileFileExplorerDeletedPathTombstones_def Let_def)

lemma core_candidate: "core_same s (enrich_candidate eo path s)"
  by (simp add: enrich_candidate_def Let_def core_same_def)

lemma core_collected: "core_same s (collectCandidates p es eo s)"
  unfolding collectCandidates_def by (rule core_fold) (rule core_candidate)

lemma core_schedule [core]: "core_same s (scheduleFileExplorerRepoInfoEnrichment p es eo s)"
proof -
  have "core_same s (collectCandidates p es eo s)" by (rule core_collected)
  then show ?thesis by (simp add: scheduleFileExplorerRepoInfoEnrichment_def Let_def core_same_def)
qed

lemma core_listing [core]: "core_same s (schedule_listing b es opts s)"
  by (simp add: schedule_listing_def core_schedule)

lemma core_wave [core]: "core_same s (waveSettles n s)"
proof -
  have r: "core_same u (wave_result w u)" for w u by (simp add: wave_result_def Let_def core_same_def)
  have f: "core_same s (fold wave_result ws (s\<lparr>en_waves := x\<rparr>))" for ws x
    by (rule core_trans [OF core_updates(5) core_fold]) (rule r)
  show ?thesis unfolding waveSettles_def Let_def
    by (auto intro: f core_trans [OF f core_schedule])
qed

lemma core_dropped: "core_same s (fold drop_enrichment ps s)"
  by (rule core_fold) (simp add: drop_enrichment_def core_same_def)

section \<open>Requests\<close>

lemma record_index:
  assumes "records_ok cf s" "fileExplorerFsResourceRecord cf t path s = (u, r)" shows "r < length (fs_heap u)"
proof (cases "map_of (fs_map s) (fileExplorerFsBatchKey t path)")
  case (Some n)
  then have "n < length (fs_heap s)" using assms(1) map_of_SomeD [OF Some] by (auto simp: records_ok_def)
  then show ?thesis using assms(2) Some by (simp add: fileExplorerFsResourceRecord_def)
qed (use assms(2) in \<open>auto simp: fileExplorerFsResourceRecord_def Let_def\<close>)

lemma evolves_start:
  assumes "r < length (fs_heap s)" shows "evolves cf s (startRequest cf t path opts r s)"
proof -
  define x where "x = (fs_heap s ! r)\<lparr>fr_generation := Suc (fr_generation (fs_heap s ! r)), fr_request := Some (length (fs_requests s)), fr_user := fo_user opts\<rparr>"
  obtain b item where e: "startRequest cf t path opts r s = s\<lparr>fs_heap := (fs_heap s)[r := x],
       fs_requests := fs_requests s @ [\<lparr>fq_type = t, fq_path = path, fq_options = opts, fq_record = r, fq_generation = Suc (fr_generation (fs_heap s ! r)),
              fq_item = item, fq_outcome = None\<rparr>], fs_batches := b\<rparr>"
    by (rule that [of "fst (case t of ListType \<Rightarrow> (fs_batches s, None)
            | InfoType \<Rightarrow> (case fetchFilesystemBatchItem cf InfoType path (\<not> fo_fresh opts) opts (fs_batches s) of (b, j) \<Rightarrow> (b, Some j)))"
        "snd (case t of ListType \<Rightarrow> (fs_batches s, None)
            | InfoType \<Rightarrow> (case fetchFilesystemBatchItem cf InfoType path (\<not> fo_fresh opts) opts (fs_batches s) of (b, j) \<Rightarrow> (b, Some j)))"])
      (simp add: startRequest_def Let_def modFsRecord_def x_def split_beta)
  have "heap_grows (fs_heap s) ((fs_heap s)[r := x])"
    using assms by (auto simp: heap_grows_def x_def nth_list_update split: if_split)
  then show ?thesis unfolding e using assms
    by (auto simp: evolves_def requests_grow_def nth_append request_ok_def x_def less_Suc_eq_le)
qed

lemma evolves_request:
  assumes "records_ok cf s" shows "evolves cf s (fst (requestFileExplorerFsResource cf now v t path opts s))"
proof -
  obtain u r where ur: "fileExplorerFsResourceRecord cf t (normalizeDirectoryPath path) s = (u, r)" by force
  have e: "evolves cf s u" using evolves_record [of cf s t "normalizeDirectoryPath path"] ur by simp
  have r: "r < length (fs_heap u)" by (rule record_index [OF assms ur])
  have "evolves cf u (fst (requestFileExplorerFsResource cf now v t path opts s))"
    unfolding requestFileExplorerFsResource_def Let_def ur
    using evolves_start [OF r] by (auto intro!: core_evolves core split: option.split fs_value.split)
  then show ?thesis using e evolves_trans by blast
qed

section \<open>Answers, pushes and waves\<close>

lemma evolves_retire: "evolves cf s (retireFileExplorerDirectoryDemand path s)"
  unfolding retireFileExplorerDirectoryDemand_def by (rule evolves_records)

lemma evolves_receive: "received q v s = (t, w) \<Longrightarrow> core_same s t"
  by (auto simp: received_def Let_def core split: option.splits fs_value.splits if_splits)

lemma evolves_publish: "evolves cf s (publishes now q v s)"
proof -
  have "evolves cf s (modFsRecord (fq_record q) (\<lambda>x. clearFileExplorerFsResourceFailure (x\<lparr>fr_value := Some v, fr_storedAt := now\<rparr>)) s)"
    by (rule evolves_mod) (simp add: clearFileExplorerFsResourceFailure_def)
  then show ?thesis unfolding publishes_def Let_def
    by (auto intro: evolves_trans core_evolves core split: fs_value.split)
qed

lemma evolves_body: "evolves cf s (answered_body now q d s)"
proof (cases d)
  case (Delivered v)
  obtain t w where r: "received q v s = (t, w)" by force
  have e: "evolves cf s t" by (rule core_evolves [OF evolves_receive [OF r]])
  show ?thesis using e evolves_trans [OF e evolves_publish [of cf t now q]]
    by (cases w) (simp_all add: Delivered answered_body_def r)
next
  case (FailedWith st b)
  have "evolves cf s (modFsRecord (fq_record q) (recordFileExplorerFsResourceFailure now st) s)"
    by (rule evolves_mod) (simp add: recordFileExplorerFsResourceFailure_def Let_def)
  then show ?thesis by (auto simp: FailedWith answered_body_def intro: evolves_trans evolves_retire)
qed

lemma evolves_ends: "evolves cf s (requestEnds i s)"
  unfolding requestEnds_def Let_def by (auto intro: evolves_mod)

lemma body_requests: "fs_requests (answered_body now q d s) = fs_requests s"
proof -
  have i: "fs_requests (invalidateRecords f u) = fs_requests u" for f u
    unfolding invalidateRecords_def by (rule fold_invariant [where P = "\<lambda>x. fs_requests x = fs_requests u" and Q = "\<lambda>x. True"])
      (auto simp: invalidateFileExplorerFsResourceRecord_def Let_def modFsRecord_def)
  have p: "fs_requests (publishes now q v u) = fs_requests u" for v u
    using core_listing [of "modFsRecord (fq_record q) (\<lambda>x. clearFileExplorerFsResourceFailure (x\<lparr>fr_value := Some v, fr_storedAt := now\<rparr>)) u"]
    by (auto simp: publishes_def Let_def core_same_def modFsRecord_def split: fs_value.split)
  show ?thesis
  proof (cases d)
    case (Delivered v)
    obtain t w where r: "received q v s = (t, w)" by force
    have "fs_requests t = fs_requests s" using evolves_receive [OF r] by (simp add: core_same_def)
    then show ?thesis using p by (auto simp: Delivered answered_body_def r split: option.split)
  qed (auto simp: answered_body_def retireFileExplorerDirectoryDemand_def i modFsRecord_def)
qed

lemma evolves_answer:
  assumes "i < length (fs_requests s)" shows "evolves cf s (requestAnswered now i d s)"
proof -
  define q u where "q = fs_requests s ! i" and "u = answered_body now q d s"
  have u: "fs_requests u = fs_requests s" by (simp add: u_def body_requests)
  have "same_request q (q\<lparr>fq_outcome := Some d\<rparr>)" by (simp add: same_request_def)
  then have "evolves cf u (u\<lparr>fs_requests := (fs_requests u)[i := q\<lparr>fq_outcome := Some d\<rparr>]\<rparr>)"
    using assms u q_def by (auto simp: evolves_def requests_grow_def nth_list_update)
  moreover have "evolves cf s u" unfolding u_def by (rule evolves_body)
  ultimately show ?thesis
    unfolding requestAnswered_def Let_def q_def [symmetric] u_def [symmetric] by (blast intro: evolves_trans evolves_ends)
qed

lemma evolves_push: "evolves cf s (entriesByDirFromFilesystemPush cf now w base ds s)"
  unfolding entriesByDirFromFilesystemPush_def
proof (rule evolves_fold)
  fix item s
  show "evolves cf s (pushDirectory cf now w base item s)"
    unfolding pushDirectory_def Let_def
    by (simp add: core_evolves core_tombstones)
      (blast intro: evolves_trans [OF core_evolves [OF core_tombstones(3)] evolves_trans [OF evolves_value(1) core_evolves [OF core_schedule]]])
qed

lemma evolves_wave:
  assumes "records_ok cf u" shows "evolves cf u (enrichFileExplorerRepoInfoEntries cf now v u)"
proof -
  have f: "evolves cf (snd ws) (snd (wave_fetch cf now v p ws))" if "records_ok cf (snd ws)" for p ws
    using evolves_request [OF that] by (simp add: wave_fetch_def fetchFilePathInfo_def split_beta)
  have g: "evolves cf (snd ws) (snd (fold (wave_fetch cf now v) ps ws))" if "records_ok cf (snd ws)" for ps ws
    using that
  proof (induction ps arbitrary: ws)
    case (Cons p ps)
    show ?case using evolves_ok_trans [OF Cons.prems f Cons.IH] Cons.prems by simp
  qed simp
  define ps where "ps = take fileExplorerRepoInfoEnrichmentChunkLimit (filter (\<lambda>p. p \<notin> set (en_inFlight u)) (en_pending u))"
  define u1 where "u1 = u\<lparr>en_pending := filter (\<lambda>p. p \<notin> set ps) (en_pending u), en_inFlight := en_inFlight u @ ps\<rparr>"
  have "evolves cf u u1" by (simp add: u1_def evolves_same)
  moreover have "evolves cf u1 (snd (fold (wave_fetch cf now v) ps ([], u1)))"
    using g [of "([], u1)" ps] records_ok_evolves [OF assms \<open>evolves cf u u1\<close>] by simp
  ultimately have "evolves cf u (snd (fold (wave_fetch cf now v) ps ([], u1)))" by (rule evolves_trans)
  then show ?thesis
    unfolding enrichFileExplorerRepoInfoEntries_def Let_def ps_def [symmetric] u1_def [symmetric]
    using evolves_trans [OF _ core_evolves [OF core_updates(5)]] by (simp add: split_beta)
qed

lemma evolves_frame:
  assumes "records_ok cf s" shows "evolves cf s (enrichFrame cf now v s)" "evolves cf s (enrichRootNow cf now v path s)"
proof -
  have w: "evolves cf s (enrichFileExplorerRepoInfoEntries cf now v t)" if "core_same s t" for t
    using core_evolves [OF that] records_ok_evolves [OF assms] evolves_wave by (blast intro: evolves_trans)
  show "evolves cf s (enrichFrame cf now v s)" by (simp add: enrichFrame_def w)
  show "evolves cf s (enrichRootNow cf now v path s)" unfolding enrichRootNow_def Let_def
    by (simp add: w core_collected core_evolves)
qed

lemma evolves_gone: "evolves cf s (directoryIsGone cf now path status s)" "evolves cf s (directoryIsFound path s)"
  unfolding directoryIsGone_def directoryIsFound_def Let_def
  by (blast intro: evolves_trans [OF evolves_value(2) evolves_retire]) (simp add: evolves_invalidated split: option.split)

lemma evolves_drops: "evolves cf s (invalidateFileExplorerFsCaches s)" "evolves cf s (invalidateFileExplorerRoots roots s)"
proof -
  show "evolves cf s (invalidateFileExplorerFsCaches s)"
    unfolding invalidateFileExplorerFsCaches_def by (rule evolves_trans [OF _ evolves_records]) (simp add: evolves_same)
  show "evolves cf s (invalidateFileExplorerRoots roots s)"
    unfolding invalidateFileExplorerRoots_def Let_def
    using evolves_trans [OF core_evolves [OF core_dropped] evolves_records] by simp
qed

lemma evolves_event:
  assumes "records_ok cf s" "fs_possible ev s" shows "evolves cf s (fs_do cf now ev s)"
  using assms
  by (cases ev) (auto intro: evolves_request evolves_answer evolves_push evolves_drops evolves_gone evolves_touch evolves_frame core_evolves core
      simp: fetchDirectory_def fetchFilePathInfo_def)

end
