(* ===== verification/Fs_Hung.thy ===== *)
theory Fs_Hung
  imports Fs_Evolution Fs_Stranded
begin

text \<open>
  Two facts that no step of the file explorer changes: a request that is no longer current stays so, and a wave of
  repository details with a stranded item stays the last one.
\<close>

section \<open>Late answers\<close>

lemma stays_late:
  assumes "records_ok cf s" "evolves cf s t" "i < length (fs_requests s)"
    and late: "\<not> fileExplorerFsResourceCurrent (fs_requests s ! i) s"
  shows "\<not> fileExplorerFsResourceCurrent (fs_requests t ! i) t"
proof
  define q where "q = fs_requests s ! i"
  define k r where "k = fileExplorerFsBatchKey (fq_type q) (fq_path q)" and "r = fq_record q"
  have same: "same_request q (fs_requests t ! i)" using assms(2,3) by (simp add: evolves_def requests_grow_def q_def)
  assume "fileExplorerFsResourceCurrent (fs_requests t ! i) t"
  then have t: "map_of (fs_map t) k = Some r" "fr_generation (fs_heap t ! r) = fq_generation q"
    using same_request_fields [OF same] by (simp_all add: fileExplorerFsResourceCurrent_def k_def r_def)
  have q: "r < length (fs_heap s)" "fq_generation q \<le> fr_generation (fs_heap s ! r)"
    using assms(1,3) nth_mem [OF assms(3)] by (auto simp: records_ok_def request_ok_def q_def r_def)
  have "(k, r) \<in> set (fs_map s)"
    using map_of_SomeD [OF t(1)] assms(2) q(1) by (force simp: evolves_def map_moves_def)
  then have "map_of (fs_map s) k = Some r" using assms(1) by (simp add: records_ok_def)
  moreover have "fr_generation (fs_heap s ! r) \<le> fr_generation (fs_heap t ! r)"
    using assms(2) q(1) by (simp add: evolves_def heap_grows_def)
  ultimately show False using late t(2) q(2) by (simp add: fileExplorerFsResourceCurrent_def q_def [symmetric] k_def r_def)
qed

lemma current_same: "fs_heap t = fs_heap s \<Longrightarrow> fs_map t = fs_map s \<Longrightarrow> fileExplorerFsResourceCurrent q t = fileExplorerFsResourceCurrent q s"
  by (simp add: fileExplorerFsResourceCurrent_def)

lemma late_answer:
  assumes "\<not> fileExplorerFsResourceCurrent (fs_requests s ! i) s" "i < length (fs_requests s)"
  shows "fs_heap (requestAnswered now i d s) = fs_heap s \<and> fs_map (requestAnswered now i d s) = fs_map s"
proof -
  define q where "q = fs_requests s ! i"
  define u where "u = answered_body now q d s"
  have b: "fs_heap u = fs_heap s \<and> fs_map u = fs_map s"
  proof (cases d)
    case (Delivered v)
    obtain t w where r: "received q v s = (t, w)" by force
    have t: "fs_heap t = fs_heap s" "fs_map t = fs_map s" using evolves_receive [OF r] by (simp_all add: core_same_def)
    then have "\<not> fileExplorerFsResourceCurrent q t" using assms(1) current_same [OF t] by (simp add: q_def)
    then show ?thesis using t by (cases w) (simp_all add: u_def Delivered answered_body_def r)
  qed (use assms(1) in \<open>simp add: u_def answered_body_def q_def\<close>)
  define u' where "u' = u\<lparr>fs_requests := (fs_requests u)[i := q\<lparr>fq_outcome := Some d\<rparr>]\<rparr>"
  have "fs_requests u ! i = q" "i < length (fs_requests u)" using assms(2) by (simp_all add: u_def body_requests q_def)
  then have "fs_requests u' ! i = q\<lparr>fq_outcome := Some d\<rparr>" by (simp add: u'_def)
  then have "\<not> fileExplorerFsResourceCurrent (fs_requests u' ! i) u'"
    using assms(1) b by (simp add: fileExplorerFsResourceCurrent_def u'_def q_def)
  then have "requestEnds i u' = u'" by (simp add: requestEnds_def Let_def)
  then show ?thesis using b unfolding requestAnswered_def Let_def q_def [symmetric] u_def [symmetric] u'_def [symmetric]
    by (simp add: u'_def)
qed

section \<open>A directory pushed\<close>

lemma normalize_twice [simp]: "normalizeDirectoryPath (normalizeDirectoryPath p) = normalizeDirectoryPath p"
proof -
  define tail where "tail = dropWhile (\<lambda>c. c = CHR ''/'') (rev p)"
  have "dropWhile (\<lambda>c. c = CHR ''/'') tail = tail" unfolding tail_def by (rule dropWhile_idem)
  then have t: "normalizeDirectoryPath (rev tail) = (if tail = [] then ''/'' else rev tail)"
    by (simp add: normalizeDirectoryPath_def Let_def)
  moreover have "normalizeDirectoryPath p = (if tail = [] then ''/'' else rev tail)"
    by (simp add: normalizeDirectoryPath_def Let_def tail_def)
  moreover have "normalizeDirectoryPath ''/'' = ''/''" by (simp add: normalizeDirectoryPath_def)
  ultimately show ?thesis by auto
qed

lemma record_found:
  assumes "fileExplorerFsResourceRecord cf t path s = (u, r)" "map_of (fs_map s) (fileExplorerFsBatchKey t path) = Some n"
  shows "r = n \<and> u = s"
  using assms by (simp add: fileExplorerFsResourceRecord_def)

lemma value_late:
  assumes "records_ok cf s" "q \<in> set (fs_requests s)" "fileExplorerFsBatchKey (fq_type q) (fq_path q) = fileExplorerFsBatchKey t path"
  shows "\<not> fileExplorerFsResourceCurrent q (setFileExplorerFsResourceValue cf now t path v s)"
proof -
  define k where "k = fileExplorerFsBatchKey t path"
  have q: "fq_record q < length (fs_heap s)" "fq_generation q \<le> fr_generation (fs_heap s ! fq_record q)"
    using assms(1,2) by (auto simp: records_ok_def request_ok_def)
  obtain u r where r: "fileExplorerFsResourceRecord cf t path s = (u, r)" by force
  have f: "fileExplorerFsResourceCurrent q (modFsRecord r f u) \<Longrightarrow> map_of (fs_map u) k = Some (fq_record q)" for f
    using assms(3) by (simp add: fileExplorerFsResourceCurrent_def modFsRecord_def k_def)
  show ?thesis
  proof (cases "map_of (fs_map s) k")
    case (Some n)
    then have "r = n" "u = s" using record_found [OF r] by (simp_all add: k_def)
    then show ?thesis using Some q assms(3)
      by (auto simp: setFileExplorerFsResourceValue_def r fileExplorerFsResourceCurrent_def modFsRecord_def k_def
          clearFileExplorerFsResourceFailure_def nth_list_update)
  next
    case None
    then have u: "r = length (fs_heap s)" "fs_map u = setLimitedMapEntry (fx_memory cf) k (length (fs_heap s)) (fs_map s)"
      using r by (auto simp: fileExplorerFsResourceRecord_def Let_def k_def)
    have "map_of (fs_map u) k \<noteq> Some (fq_record q)"
    proof
      assume "map_of (fs_map u) k = Some (fq_record q)"
      then have "(k, fq_record q) \<in> set (setLimitedMapEntry (fx_memory cf) k (length (fs_heap s)) (fs_map s))"
        using map_of_SomeD u(2) by metis
      then have "(k, fq_record q) \<in> set (fs_map s) \<or> (k, fq_record q) = (k, length (fs_heap s))" by (rule limited_entry)
      then show False using q(1) None weak_map_of_SomeI by fastforce
    qed
    then show ?thesis using f by (auto simp: setFileExplorerFsResourceValue_def r)
  qed
qed

lemma push_late:
  assumes "records_ok cf s" "i < length (fs_requests s)" "(path, True, es) \<in> set ds"
    and k: "fileExplorerFsBatchKey (fq_type (fs_requests s ! i)) (fq_path (fs_requests s ! i)) = fileExplorerFsBatchKey ListType path"
  shows "\<not> fileExplorerFsResourceCurrent (fs_requests (entriesByDirFromFilesystemPush cf now w base ds s) ! i)
           (entriesByDirFromFilesystemPush cf now w base ds s)"
proof -
  obtain pre post where ds: "ds = pre @ (path, True, es) # post" using assms(3) by (meson split_list)
  define u where "u = entriesByDirFromFilesystemPush cf now w base pre s"
  have su: "evolves cf s u" unfolding u_def by (rule evolves_push)
  have u: "records_ok cf u" by (rule records_ok_evolves [OF assms(1) su])
  have i: "i < length (fs_requests u)" "same_request (fs_requests s ! i) (fs_requests u ! i)"
    using su assms(2) by (auto simp: evolves_def requests_grow_def)
  define u1 where "u1 = reconcileFileExplorerDeletedPathTombstones (normalizeDirectoryPath path) es True u"
  define vs where "vs = filterFileExplorerDeletedPathTombstones (normalizeDirectoryPath path) es u1"
  define u2 where "u2 = setFileExplorerFsResourceValue cf now ListType (normalizeDirectoryPath path) (Entries vs) u1"
  have c1: "core_same u u1" by (simp add: u1_def core)
  have e1: "evolves cf u u1" by (rule core_evolves [OF c1])
  have e2: "evolves cf u1 u2" unfolding u2_def by (rule evolves_value)
  have q: "fs_requests u1 ! i \<in> set (fs_requests u1)" "fs_requests u1 = fs_requests u" using i(1) c1 by (simp_all add: core_same_def)
  have "fs_requests u2 = fs_requests u1"
    by (auto simp: u2_def setFileExplorerFsResourceValue_def fileExplorerFsResourceRecord_def Let_def modFsRecord_def split: option.split prod.split)
  moreover have "\<not> fileExplorerFsResourceCurrent (fs_requests u1 ! i) u2"
    unfolding u2_def
    by (rule value_late [OF records_ok_evolves [OF u e1] q(1)])
      (use k same_request_fields [OF i(2)] q(2) in \<open>simp add: fileExplorerFsBatchKey_def normalize_twice\<close>)
  ultimately have late: "\<not> fileExplorerFsResourceCurrent (fs_requests u2 ! i) u2" by simp
  define u3 where "u3 = pushDirectory cf now w base (path, True, es) u"
  have e3: "evolves cf u2 u3"
    unfolding u3_def pushDirectory_def Let_def fst_conv snd_conv u1_def [symmetric] vs_def [symmetric] u2_def [symmetric]
    by (simp add: core_evolves core)
  have e4: "evolves cf u3 (entriesByDirFromFilesystemPush cf now w base ds s)"
    using evolves_push [of cf u3 now w base post] by (simp add: entriesByDirFromFilesystemPush_def ds u_def u3_def)
  have ok2: "records_ok cf u2" by (rule records_ok_evolves [OF records_ok_evolves [OF u e1] e2])
  have "i < length (fs_requests u2)" using i(1) e1 e2 by (auto simp: evolves_def requests_grow_def)
  then show ?thesis by (rule stays_late [OF ok2 evolves_trans [OF e3 e4] _ late])
qed

end
