(* ===== verification/Fs_Waves.thy ===== *)
theory Fs_Waves
  imports Fs_Hung
begin

text \<open>A wave of repository details that waits for a stranded item is the last one.\<close>

definition hung :: "nat \<Rightarrow> nat \<Rightarrow> wave_request list \<Rightarrow> string list \<Rightarrow> fs_client \<Rightarrow> bool" where
  "hung i j wave paths s =
     (stranded j (fs_batches s) \<and> i < length (fs_requests s) \<and> fq_item (fs_requests s ! i) = Some j \<and> fq_outcome (fs_requests s ! i) = None
      \<and> en_waves s = [wave] \<and> Requested i \<in> wv_reply ` set wave \<and> en_inFlight s = paths \<and> paths \<noteq> [] \<and> \<not> en_frame s)"

definition waves_same :: "fs_client \<Rightarrow> fs_client \<Rightarrow> bool" where
  "waves_same s t =
     (fs_batches t = fs_batches s \<and> fs_requests t = fs_requests s \<and> en_waves t = en_waves s \<and> en_inFlight t = en_inFlight s
      \<and> (en_inFlight s \<noteq> [] \<and> \<not> en_frame s \<longrightarrow> \<not> en_frame t))"

named_theorems waves

lemma waves_refl [simp]: "waves_same s s" by (simp add: waves_same_def)

lemma waves_trans: "waves_same s t \<Longrightarrow> waves_same t u \<Longrightarrow> waves_same s u" by (auto simp: waves_same_def)

lemma hung_waves: "hung i j wave paths s \<Longrightarrow> waves_same s t \<Longrightarrow> hung i j wave paths t"
  by (auto simp: hung_def waves_same_def)

lemma waves_fold: "(\<And>x s. waves_same s (f x s)) \<Longrightarrow> waves_same s (fold f xs s)"
  by (induction xs arbitrary: s) (auto intro: waves_trans)

lemma waves_updates [simp]:
  "waves_same s (s\<lparr>fs_tombstones := x\<rparr>)" "waves_same s (modFsRecord r f s)" "waves_same s (s\<lparr>fs_map := m\<rparr>)"
  "waves_same s (s\<lparr>fs_heap := h, fs_map := m\<rparr>)"
  by (simp_all add: waves_same_def modFsRecord_def)

lemma waves_tombstones [waves]:
  "waves_same s (markFileExplorerDeletedPaths ps s)" "waves_same s (clearFileExplorerDeletedPaths ps s)"
  "waves_same s (reconcileFileExplorerDeletedPathTombstones d es b s)"
  by (simp_all add: markFileExplorerDeletedPaths_def clearFileExplorerDeletedPaths_def reconcileFileExplorerDeletedPathTombstones_def Let_def)

lemma waves_collected: "waves_same s (collectCandidates p es eo s)"
  unfolding collectCandidates_def by (rule waves_fold) (simp add: enrich_candidate_def Let_def waves_same_def)

lemma waves_schedule [waves]: "waves_same s (scheduleFileExplorerRepoInfoEnrichment p es eo s)"
proof -
  show ?thesis using waves_collected [of s p es eo]
    by (auto simp: scheduleFileExplorerRepoInfoEnrichment_def enrichment_waits_def Let_def waves_same_def)
qed

lemma waves_listing [waves]: "waves_same s (schedule_listing b es opts s)"
  by (simp add: schedule_listing_def waves)

lemma waves_record: "waves_same s (fst (fileExplorerFsResourceRecord cf t path s))"
  by (simp add: fileExplorerFsResourceRecord_def Let_def split: option.split)

lemma waves_invalidate [waves]: "waves_same s (invalidateRecords drops s)"
  unfolding invalidateRecords_def
  by (rule waves_fold) (auto simp: invalidateFileExplorerFsResourceRecord_def Let_def intro: waves_trans [OF waves_updates(2) waves_updates(3)])

lemma waves_value [waves]:
  "waves_same s (setFileExplorerFsResourceValue cf now t path v s)" "waves_same s (markFileExplorerDirectoryDemandNegative cf now path status s)"
  using waves_record [of s cf t path] waves_record [of s cf ListType path]
  by (auto simp: setFileExplorerFsResourceValue_def markFileExplorerDirectoryDemandNegative_def split_beta
      intro: waves_trans [OF _ waves_updates(2)])

lemma waves_gone [waves]: "waves_same s (directoryIsGone cf now path status s)" "waves_same s (directoryIsFound path s)"
proof -
  show "waves_same s (directoryIsGone cf now path status s)"
    unfolding directoryIsGone_def retireFileExplorerDirectoryDemand_def by (blast intro: waves_trans waves)
  show "waves_same s (directoryIsFound path s)"
    by (auto simp: directoryIsFound_def invalidateFileExplorerFsResourceRecord_def Let_def
        intro: waves_trans [OF waves_updates(2) waves_updates(3)] split: option.split)
qed

lemma waves_push [waves]: "waves_same s (entriesByDirFromFilesystemPush cf now w base ds s)"
  unfolding entriesByDirFromFilesystemPush_def
proof (rule waves_fold)
  fix item s
  show "waves_same s (pushDirectory cf now w base item s)"
    unfolding pushDirectory_def Let_def
    by (simp add: waves) (blast intro: waves_trans [OF waves_tombstones(3) waves_trans [OF waves_value(1) waves_schedule]])
qed

lemma waves_drops [waves]: "waves_same s (invalidateFileExplorerFsCaches s)" "waves_same s (invalidateFileExplorerRoots roots s)"
proof -
  show "waves_same s (invalidateFileExplorerFsCaches s)"
    unfolding invalidateFileExplorerFsCaches_def by (rule waves_trans [OF _ waves_invalidate]) (simp add: waves_same_def)
  have "waves_same s (fold drop_enrichment ps s)" for ps by (rule waves_fold) (simp add: drop_enrichment_def waves_same_def)
  then show "waves_same s (invalidateFileExplorerRoots roots s)"
    unfolding invalidateFileExplorerRoots_def Let_def using waves_trans [OF _ waves_invalidate] by simp
qed

lemma hung_request:
  assumes "hung i j wave paths s" "0 < fx_requests cf"
  shows "hung i j wave paths (fst (requestFileExplorerFsResource cf now v t path opts s))"
proof -
  define n where "n = normalizeDirectoryPath path"
  obtain u r where ur: "fileExplorerFsResourceRecord cf t n s = (u, r)" by force
  have u: "hung i j wave paths u" using hung_waves [OF assms(1)] waves_record [of s cf t n] ur by simp
  then have st: "stranded j (fs_batches u)" by (simp add: hung_def)
  have listing: "hung i j wave paths (schedule_listing b es opts u)" for b es by (rule hung_waves [OF u waves_listing])
  have batch: "hung i j wave paths (u\<lparr>fs_batches := b\<rparr>)" if "stranded j b" for b using u that by (simp add: hung_def)
  have "stranded j (recordPendingFileExplorerFsBatchTrigger cf InfoType n opts (fs_batches u))"
  proof (cases "map_of (fb_pending (fs_batches u)) (fileExplorerFsBatchKey InfoType (normalizeDirectoryPath n))")
    case (Some k)
    then have "k \<noteq> j" using st map_of_SomeD [OF Some] by (force simp: stranded_def)
    then show ?thesis using Some st by (simp add: recordPendingFileExplorerFsBatchTrigger_def stranded_mod)
  qed (use st in \<open>simp add: recordPendingFileExplorerFsBatchTrigger_def\<close>)
  note trigger = batch [OF this]
  have "stranded j (fst (fetchFilesystemBatchItem cf InfoType n b opts (fs_batches u)))" for b
    by (rule stranded_fetch [OF st assms(2)])
  then have "hung i j wave paths (startRequest cf t n opts r u)"
    using u st by (cases t) (auto simp: startRequest_def Let_def hung_def modFsRecord_def nth_append split_beta)
  then show ?thesis unfolding requestFileExplorerFsResource_def Let_def n_def [symmetric] ur
    using u listing trigger by (auto split: option.split fs_value.split)
qed

lemma hung_answer:
  assumes "hung i j wave paths s" "fs_possible (RequestAnswered k d) s"
  shows "hung i j wave paths (requestAnswered now k d s)"
proof -
  have k: "k \<noteq> i" using assms by (auto simp: hung_def answers_item_def stranded_def item_open_def)
  define q u where "q = fs_requests s ! k" and "u = answered_body now q d s"
  have "waves_same s u"
  proof (cases d)
    case (Delivered v)
    obtain t w where r: "received q v s = (t, w)" by force
    have t: "waves_same s t" using r by (auto simp: received_def Let_def waves split: option.splits fs_value.splits if_splits)
    have "waves_same t (publishes now q x t)" for x
      by (auto simp: publishes_def Let_def intro: waves_trans [OF waves_updates(2) waves_listing] split: fs_value.split)
    then show ?thesis using t waves_trans by (cases w) (auto simp: u_def Delivered answered_body_def r)
  qed (auto simp: u_def answered_body_def retireFileExplorerDirectoryDemand_def intro: waves_trans [OF waves_updates(2) waves_invalidate])
  then have "hung i j wave paths (u\<lparr>fs_requests := (fs_requests u)[k := q\<lparr>fq_outcome := Some d\<rparr>]\<rparr>)"
    using hung_waves [OF assms(1)] k by (simp add: hung_def)
  then have "hung i j wave paths (requestEnds k (u\<lparr>fs_requests := (fs_requests u)[k := q\<lparr>fq_outcome := Some d\<rparr>]\<rparr>))"
    by (rule hung_waves) (simp add: requestEnds_def Let_def)
  then show ?thesis by (simp add: requestAnswered_def Let_def q_def u_def)
qed

lemma hung_event:
  assumes h: "hung i j wave paths s" and cf: "0 < fx_requests cf" and p: "fs_possible ev s"
  shows "hung i j wave paths (fs_do cf now ev s)"
proof (cases ev)
  case (BatchEvent e)
  then have "stranded j (batch_do cf e (fs_batches s))" using h p cf stranded_event by (simp add: hung_def)
  then show ?thesis using h by (simp add: BatchEvent hung_def)
next
  case (WaveSettles n)
  then have "n = 0" using h p by (simp add: hung_def)
  moreover obtain w where w: "w \<in> set wave" "wv_reply w = Requested i" using h by (auto simp: hung_def)
  then have "\<not> reply_settled s (wv_reply w)" using h by (simp add: reply_settled_def hung_def)
  then have "\<not> list_all (\<lambda>w. reply_settled s (wv_reply w)) wave" using w(1) by (auto simp: list_all_iff)
  ultimately show ?thesis using h by (simp add: WaveSettles waveSettles_def Let_def hung_def)
next
  case (EnrichFrame v)
  then show ?thesis using h by (simp add: enrichFrame_def hung_def)
next
  case (EnrichRootNow v path)
  then show ?thesis using hung_waves [OF h waves_collected] by (simp add: enrichRootNow_def Let_def enrichment_waits_def hung_def)
next
  case (RequestAnswered k d)
  then show ?thesis using hung_answer [OF h] p by simp
next
  case (ReadCached t path)
  show ?thesis unfolding ReadCached
    by (rule hung_waves [OF h]) (simp add: cachedFileExplorerFsResourceValue_def Let_def split: option.split)
qed (use hung_waves [OF h] waves hung_request [OF h cf] in \<open>simp_all add: fetchDirectory_def fetchFilePathInfo_def\<close>)

end
