(* ===== verification/Fs_Properties.thy ===== *)
theory Fs_Properties
  imports Fs_Waves
begin

text \<open>The properties of the batches, the records and the repository details of the file explorer.\<close>

interpretation batches: invariant_machine "batch_step cf" "\<lambda>s. 0 < fx_requests cf \<longrightarrow> batch_ok s" for cf
  by unfold_locales (auto elim!: batch_stepE intro: batch_ok_event)

interpretation explorer: invariant_machine "fs_step cf" "records_ok cf" for cf
  by unfold_locales (auto elim!: fs_stepE intro: records_ok_evolves evolves_event)


lemma evolves_steps:
  assumes "(fs_step cf)\<^sup>*\<^sup>* s t" "records_ok cf s" shows "evolves cf s t"
  using assms
proof (induction rule: rtranclp_induct)
  case (step t u)
  have "records_ok cf t" by (rule explorer.inv_reach [OF step.hyps(1) step.prems])
  then have "evolves cf t u" using step.hyps(2) evolves_event by (auto elim!: fs_stepE)
  then show ?case using step.IH [OF step.prems] by (rule evolves_trans [rotated])
qed simp

section \<open>Properties\<close>

definition demo_fs :: fs_config where
  "demo_fs = \<lparr>fx_requests = 2, fx_triggers = 99, fx_memory = 8, fx_ttl = 1000\<rparr>"

definition demo_options :: fs_options where
  "demo_options = \<lparr>fo_user = False, fo_fresh = False, fo_force = False, fo_immediate = False, fo_enrich = True, fo_enrichRoot = False,
     fo_trigger = [], fo_owner = []\<rparr>"

definition demo_view :: page_view where
  "demo_view = \<lparr>pv_hidden = False, pv_open = True, pv_connected = True, pv_active = True, pv_refreshing = False\<rparr>"

text \<open>
  C32. No fetch of the file explorer is lost: an item whose promise is open is in the queue, in a chunk posted or
  waiting to be posted, in a repair or a single request, in an operation the server chunk_accepted, or waits for a product.
\<close>

theorem batch_items_placed:
  assumes "0 < fx_requests cf" "(batch_step cf)\<^sup>*\<^sup>* batch_init s" "i < length (fb_items s)" "it_settled (fb_items s ! i) = None"
  shows "i \<in> set (fb_queue s) \<or> i \<in> \<Union> (holds ` set (fb_calls s)) \<or> i \<in> \<Union> ((\<lambda>p. set (snd p)) ` set (fb_operations s))
    \<or> it_product (fb_items s ! i) \<noteq> None"
proof -
  have "batch_ok s" using batches.inv_reach [OF assms(2)] batch_ok_init assms(1) by blast
  then have "i \<in> in_flight s \<or> awaits s i" using assms(3,4) by (simp add: batch_ok_def placed_def item_open_def)
  then show ?thesis by (auto simp: in_flight_def awaits_def)
qed

text \<open>
  C33. Only the newest request of a record publishes: once a request of the file explorer is no longer current, its
  answer, however late, changes neither a record nor the map of records.
\<close>

theorem late_answer_publishes_nothing:
  assumes "(fs_step cf)\<^sup>*\<^sup>* fs_init s" "i < length (fs_requests s)" "\<not> fileExplorerFsResourceCurrent (fs_requests s ! i) s"
    and "(fs_step cf)\<^sup>*\<^sup>* s t"
  shows "fs_heap (requestAnswered now i d t) = fs_heap t \<and> fs_map (requestAnswered now i d t) = fs_map t"
proof -
  have ok: "records_ok cf s" by (rule explorer.inv_reach [OF assms(1) records_ok_init])
  have e: "evolves cf s t" by (rule evolves_steps [OF assms(4) ok])
  have "i < length (fs_requests t)" using assms(2) e by (simp add: evolves_def requests_grow_def)
  then show ?thesis by (rule late_answer [OF stays_late [OF ok e assms(2,3)]])
qed

text \<open>
  C34. A listing pushed by the server is not overwritten by an older fetch: an answer to a request that was started
  before the push for the same directory changes no record, whatever happened in between.
\<close>

theorem pushed_listing_survives:
  assumes "(fs_step cf)\<^sup>*\<^sup>* fs_init s" "i < length (fs_requests s)" "fq_type (fs_requests s ! i) = ListType"
    and "(path, True, entries) \<in> set directories" "normalizeDirectoryPath path = normalizeDirectoryPath (fq_path (fs_requests s ! i))"
    and "(fs_step cf)\<^sup>*\<^sup>* (entriesByDirFromFilesystemPush cf now watched base directories s) t"
  shows "fs_heap (requestAnswered later i d t) = fs_heap t \<and> fs_map (requestAnswered later i d t) = fs_map t"
proof -
  have ok: "records_ok cf s" by (rule explorer.inv_reach [OF assms(1) records_ok_init])
  define u where "u = entriesByDirFromFilesystemPush cf now watched base directories s"
  have su: "evolves cf s u" unfolding u_def by (rule evolves_push)
  have late: "\<not> fileExplorerFsResourceCurrent (fs_requests u ! i) u" unfolding u_def
    by (rule push_late [OF ok assms(2,4)]) (use assms(3,5) in \<open>simp add: fileExplorerFsBatchKey_def\<close>)
  have i: "i < length (fs_requests u)" using assms(2) su by (simp add: evolves_def requests_grow_def)
  have oku: "records_ok cf u" by (rule records_ok_evolves [OF ok su])
  have e: "evolves cf u t" using evolves_steps [OF _ oku] assms(6) by (simp add: u_def)
  have "i < length (fs_requests t)" using i e by (simp add: evolves_def requests_grow_def)
  then show ?thesis by (rule late_answer [OF stays_late [OF oku e i late]])
qed

text \<open>
  The user waits for the batch of the background: a fetch of path details the user asks for supersedes the request
  of the background, yet it takes the item of the earlier request, because the option to leave it is not passed on.
\<close>

theorem user_details_share_item:
  assumes "map_of (fb_pending (fs_batches s)) (fileExplorerFsBatchKey InfoType path) = Some j"
    and "fo_user opts" "\<not> fo_fresh opts" "fetchFilePathInfo cf now v path opts s = (t, Requested i)"
  shows "fq_item (fs_requests t ! i) = Some j \<and> length (fb_items (fs_batches t)) = length (fb_items (fs_batches s))
    \<and> length (fs_requests t) = Suc (length (fs_requests s))"
proof -
  define n where "n = normalizeDirectoryPath path"
  obtain u r where ur: "fileExplorerFsResourceRecord cf InfoType n s = (u, r)" by force
  have u: "fs_batches u = fs_batches s" "fs_requests u = fs_requests s"
    using waves_record [of s cf InfoType n] ur by (simp_all add: waves_same_def)
  have "t = startRequest cf InfoType n opts r u \<and> i = length (fs_requests u)"
    using assms(4) unfolding fetchFilePathInfo_def requestFileExplorerFsResource_def Let_def n_def [symmetric] ur
    by (auto split: option.splits fs_value.splits if_splits)
  moreover have "map_of (fb_pending (fs_batches u)) (fileExplorerFsBatchKey InfoType (normalizeDirectoryPath n)) = Some j"
    using assms(1) u by (simp add: n_def fileExplorerFsBatchKey_def)
  ultimately show ?thesis using assms(3) u
    by (simp add: startRequest_def Let_def fetchFilesystemBatchItem_def modFsRecord_def modFsItem_def)
qed

section \<open>Repository details that stop\<close>





fun fs_runs :: "fs_config \<Rightarrow> int \<Rightarrow> fs_client_event list \<Rightarrow> fs_client \<Rightarrow> bool" where
  "fs_runs cf now [] s = True"
| "fs_runs cf now (ev # evs) s = (fs_possible ev s \<and> fs_runs cf now evs (fs_do cf now ev s))"

lemma fs_runs_reach: "fs_runs cf now evs s \<Longrightarrow> (fs_step cf)\<^sup>*\<^sup>* s (fold (fs_do cf now) evs s)"
  by (induction evs arbitrary: s) (auto intro: converse_rtranclp_into_rtranclp fs_event)






section \<open>Witnesses\<close>

definition asked_batch :: fs_batch where
  "asked_batch = batch_do demo_fs (Fetched InfoType ''/r'' True demo_options) batch_init"

lemma asked_facts: "length (fb_items asked_batch) = 1 \<and> it_settled (fb_items asked_batch ! 0) = None \<and> it_product (fb_items asked_batch ! 0) = None
    \<and> fb_calls asked_batch = [] \<and> fb_operations asked_batch = []"
  by code_simp

lemma asked_reached: "(batch_step demo_fs)\<^sup>*\<^sup>* batch_init asked_batch"
  unfolding asked_batch_def by (rule r_into_rtranclp) (rule batch_event, simp)

theorem batch_items_placed_witness: "0 \<in> set (fb_queue asked_batch)"
  using batch_items_placed [of demo_fs asked_batch 0] asked_reached asked_facts by (simp add: demo_fs_def)

definition user_options :: fs_options where "user_options = demo_options\<lparr>fo_user := True\<rparr>"

definition superseded_events :: "fs_client_event list" where
  "superseded_events = [AskDirectory demo_view ''/r'' demo_options, AskDirectory demo_view ''/r'' user_options]"

definition superseded :: fs_client where "superseded = fold (fs_do demo_fs 5) superseded_events fs_init"

lemma superseded_facts: "fs_runs demo_fs 5 superseded_events fs_init \<and> length (fs_requests superseded) = 2
    \<and> \<not> fileExplorerFsResourceCurrent (fs_requests superseded ! 0) superseded"
  by code_simp

theorem late_answer_publishes_nothing_witness:
  "fs_heap (requestAnswered 9 0 (Delivered (Some (Entries []))) superseded) = fs_heap superseded"
proof -
  have "(fs_step demo_fs)\<^sup>*\<^sup>* fs_init superseded" unfolding superseded_def using superseded_facts fs_runs_reach by blast
  then show ?thesis using late_answer_publishes_nothing [of demo_fs superseded 0 superseded] superseded_facts by simp
qed

definition asked_client :: fs_client where
  "asked_client = fold (fs_do demo_fs 5) [AskDirectory demo_view ''/r'' demo_options] fs_init"

lemma asked_client_facts: "fs_runs demo_fs 5 [AskDirectory demo_view ''/r'' demo_options] fs_init \<and> length (fs_requests asked_client) = 1
    \<and> fq_type (fs_requests asked_client ! 0) = ListType \<and> fq_path (fs_requests asked_client ! 0) = ''/r''"
  by code_simp

definition pushed_client :: fs_client where
  "pushed_client = entriesByDirFromFilesystemPush demo_fs 6 False ''/r'' [(''/r/'', True, [\<lparr>de_name = ''a'', de_dir = False, de_deferred = False, de_repo = False\<rparr>])] asked_client"

theorem pushed_listing_survives_witness:
  "fs_heap (requestAnswered 9 0 (Delivered (Some (Entries []))) pushed_client) = fs_heap pushed_client"
proof -
  have "(fs_step demo_fs)\<^sup>*\<^sup>* fs_init asked_client" unfolding asked_client_def using asked_client_facts fs_runs_reach by blast
  moreover have "normalizeDirectoryPath ''/r/'' = normalizeDirectoryPath ''/r''" by code_simp
  ultimately show ?thesis
    using pushed_listing_survives [where cf = demo_fs and s = asked_client and i = 0 and path = "''/r/''" and now = 6 and watched = False
        and base = "''/r''" and t = pushed_client and later = 9 and d = "Delivered (Some (Entries []))"
        and directories = "[(''/r/'', True, [\<lparr>de_name = ''a'', de_dir = False, de_deferred = False, de_repo = False\<rparr>])]"] asked_client_facts
    by (simp add: pushed_client_def)
qed

definition details_client :: fs_client where
  "details_client = fold (fs_do demo_fs 5) [AskInfo demo_view ''/r'' demo_options] fs_init"

definition details_asked :: "fs_client \<times> fs_reply" where
  "details_asked = fetchFilePathInfo demo_fs 6 demo_view ''/r'' user_options details_client"

lemma details_facts: "map_of (fb_pending (fs_batches details_client)) (fileExplorerFsBatchKey InfoType ''/r'') = Some 0
    \<and> snd details_asked = Requested 1"
  by code_simp

theorem user_details_share_item_witness: "fq_item (fs_requests (fst details_asked) ! 1) = Some 0"
proof -
  have "fetchFilePathInfo demo_fs 6 demo_view ''/r'' user_options details_client = (fst details_asked, Requested 1)"
    using details_facts by (metis details_asked_def prod.collapse)
  moreover have "fo_user user_options" "\<not> fo_fresh user_options" by (simp_all add: user_options_def demo_options_def)
  ultimately show ?thesis using user_details_share_item details_facts by blast
qed


end
