(* ===== verification/Quick_Search.thy ===== *)
theory Quick_Search
  imports Layout_Url "HOL-Library.Sublist" "HOL-Library.Multiset" "HOL-Library.AList"
begin

text \<open>
  The search of the command palette (\<open>10_core_utils.js\<close>, \<open>20_layout_state.js\<close>): the fuzzy matcher and its
  score, the mix of the first screen, the candidates of the quick open (duplicates, changes of an index, the bound),
  and the reader of the event stream of a search.

  A score of minus infinity is \<open>None\<close>. The texts are taken as ASCII, so that a position in the text is a position
  in the list. Scores are exact.
\<close>

section \<open>Matching\<close>

definition js_lower :: "string \<Rightarrow> string" where "js_lower t = map lower_char t"

definition fuzzy_needle :: "string \<Rightarrow> string" where
  "fuzzy_needle query = filter (\<lambda>c. \<not> js_isSpace c) (js_lower query)"

fun substring_index :: "string \<Rightarrow> string \<Rightarrow> nat option" where
  "substring_index n [] = (if n = [] then Some 0 else None)"
| "substring_index n (c # s) = (if js_startsWith (c # s) n then Some 0 else map_option Suc (substring_index n s))"

fun char_offset :: "char \<Rightarrow> string \<Rightarrow> nat option" where
  "char_offset c [] = None"
| "char_offset c (x # xs) = (if x = c then Some 0 else map_option Suc (char_offset c xs))"

definition char_index :: "char \<Rightarrow> string \<Rightarrow> nat \<Rightarrow> nat option" where
  "char_index c s pos = map_option ((+) pos) (char_offset c (drop pos s))"

record search_weights =
  sw_perChar :: rat
  sw_contiguous :: rat
  sw_substring :: rat
  sw_wordStart :: rat
  sw_gap :: rat
  sw_length :: rat
  sw_anchorPrimary :: rat
  sw_anchorSecondary :: rat
  sw_field :: rat
  sw_mixWindow :: nat
  sw_mixSlots :: nat
  sw_mixFirst :: nat
  sw_mixStep :: nat

definition searchRankWeights :: search_weights where
  "searchRankWeights = \<lparr>sw_perChar = 8, sw_contiguous = 10, sw_substring = 30000, sw_wordStart = 6, sw_gap = 1 / 5, sw_length = 1 / 100,
     sw_anchorPrimary = 20000, sw_anchorSecondary = 12000, sw_field = 20, sw_mixWindow = 8, sw_mixSlots = 4, sw_mixFirst = 2, sw_mixStep = 2\<rparr>"

definition word_boundary :: "char \<Rightarrow> bool" where
  "word_boundary c = (js_isSpace c \<or> c \<in> set ''/_:.-'')"

definition word_start :: "string \<Rightarrow> nat \<Rightarrow> bool" where
  "word_start h i = (i = 0 \<or> word_boundary (h ! (i - 1)))"

definition length_penalty :: "string \<Rightarrow> string \<Rightarrow> rat" where
  "length_penalty h n = of_nat (length h - length n) * sw_length searchRankWeights"

definition substring_score :: "string \<Rightarrow> string \<Rightarrow> nat \<Rightarrow> rat" where
  "substring_score h n st =
     of_nat (length n) * sw_perChar searchRankWeights + (if word_start h st then sw_wordStart searchRankWeights else 0)
     + of_nat (length n - 1) * sw_contiguous searchRankWeights + sw_substring searchRankWeights - length_penalty h n"

definition step_score :: "string \<Rightarrow> nat \<Rightarrow> nat option \<Rightarrow> nat \<Rightarrow> rat" where
  "step_score h pos previous i =
     sw_perChar searchRankWeights + (if previous \<noteq> None \<and> i = Suc (the previous) then sw_contiguous searchRankWeights else 0)
     + (if word_start h i then sw_wordStart searchRankWeights else 0) - of_nat (i - pos) * sw_gap searchRankWeights"

fun greedy_walk :: "string \<Rightarrow> string \<Rightarrow> nat \<Rightarrow> nat option \<Rightarrow> rat \<Rightarrow> nat list \<Rightarrow> (rat \<times> nat list) option" where
  "greedy_walk h [] pos previous score indexes = Some (score, indexes)"
| "greedy_walk h (c # n) pos previous score indexes =
     (case char_index c h pos of
        None \<Rightarrow> None
      | Some i \<Rightarrow> greedy_walk h n (Suc i) (Some i) (score + step_score h pos previous i) (indexes @ [i]))"

definition fuzzySubsequenceMatch :: "string \<Rightarrow> string \<Rightarrow> (rat \<times> nat list) option" where
  "fuzzySubsequenceMatch query text =
     (let needle = fuzzy_needle query; haystack = js_lower text
      in if needle = [] then Some (0, [])
         else (case substring_index needle haystack of
                 Some st \<Rightarrow> Some (substring_score haystack needle st, [st ..< st + length needle])
               | None \<Rightarrow> map_option (\<lambda>(score, indexes). (score - length_penalty haystack needle, indexes))
                           (greedy_walk haystack needle 0 None 0 [])))"

definition fuzzySubsequenceScore :: "string \<Rightarrow> string \<Rightarrow> rat option" where
  "fuzzySubsequenceScore query text = map_option fst (fuzzySubsequenceMatch query text)"

definition alnum_lower :: "char \<Rightarrow> bool" where
  "alnum_lower c = (let n = of_char c :: nat in 97 \<le> n \<and> n \<le> 122 \<or> 48 \<le> n \<and> n \<le> 57)"

definition fuzzyCanonicalPrefixText :: "string \<Rightarrow> string" where
  "fuzzyCanonicalPrefixText value = filter alnum_lower (js_lower value)"

definition fuzzyFieldStartsWithQuery :: "string \<Rightarrow> string \<Rightarrow> bool" where
  "fuzzyFieldStartsWithQuery query text =
     (fuzzyCanonicalPrefixText query \<noteq> [] \<and> js_startsWith (fuzzyCanonicalPrefixText text) (fuzzyCanonicalPrefixText query))"

text \<open>The words of a query: \<open>trim().split(/\s+/).filter(Boolean)\<close>.\<close>

fun words_from :: "string \<Rightarrow> string \<Rightarrow> string list" where
  "words_from w [] = (if w = [] then [] else [w])"
| "words_from w (c # s) = (if js_isSpace c then (if w = [] then words_from [] s else w # words_from [] s) else words_from (w @ [c]) s)"

definition query_words :: "string \<Rightarrow> string list" where "query_words query = words_from [] query"

definition field_score :: "string \<Rightarrow> nat \<Rightarrow> string \<Rightarrow> rat option" where
  "field_score word i value =
     map_option (\<lambda>score.
         (if fuzzyFieldStartsWithQuery word value
          then score + (if i = 0 then sw_anchorPrimary searchRankWeights else sw_anchorSecondary searchRankWeights) else score)
         - of_nat i * sw_field searchRankWeights)
       (fuzzySubsequenceScore word value)"

definition better_score :: "rat option \<Rightarrow> rat option \<Rightarrow> rat option" where
  "better_score a b = (case (a, b) of (None, _) \<Rightarrow> b | (_, None) \<Rightarrow> a | (Some x, Some y) \<Rightarrow> Some (max x y))"

definition word_score :: "string \<Rightarrow> string list \<Rightarrow> rat option" where
  "word_score word values = foldl (\<lambda>best (i, value). better_score best (field_score word i value)) None (enumerate 0 values)"

fun sum_scores :: "rat \<Rightarrow> rat option list \<Rightarrow> rat option" where
  "sum_scores acc [] = Some acc"
| "sum_scores acc (None # rest) = None"
| "sum_scores acc (Some x # rest) = sum_scores (acc + x) rest"

definition fuzzySearchScore :: "string \<Rightarrow> string list \<Rightarrow> rat option" where
  "fuzzySearchScore query texts =
     (let tokens = query_words query; values = filter (\<lambda>v. v \<noteq> []) texts
      in if tokens = [] then Some 0 else if values = [] then None else sum_scores 0 (map (\<lambda>w. word_score w values) tokens))"

section \<open>The first screen\<close>

datatype item_domain = FileRow | PaneRow | SettingRow | CommandRow

datatype palette_surface = FilesSurface | CommandSurface

definition commandPaletteMixDomains :: "palette_surface \<Rightarrow> item_domain \<times> item_domain list" where
  "commandPaletteMixDomains surface =
     (case surface of FilesSurface \<Rightarrow> (FileRow, [PaneRow, CommandRow, SettingRow]) | CommandSurface \<Rightarrow> (PaneRow, [CommandRow, SettingRow, FileRow]))"

text \<open>The rows are their indexes in the ranked list; \<open>ds\<close> gives their domains.\<close>

definition domain_rows :: "item_domain list \<Rightarrow> item_domain \<Rightarrow> nat list" where
  "domain_rows ds d = filter (\<lambda>i. ds ! i = d) [0 ..< length ds]"

definition pick_domain :: "item_domain list \<Rightarrow> item_domain \<Rightarrow> nat list \<Rightarrow> nat list" where
  "pick_domain ds d picked =
     (if sw_mixSlots searchRankWeights \<le> length picked then picked
      else (case filter (\<lambda>i. i \<notin> set picked) (domain_rows ds d) of [] \<Rightarrow> picked | i # _ \<Rightarrow> picked @ [i]))"

definition pick_round :: "item_domain list \<Rightarrow> item_domain list \<Rightarrow> nat list \<Rightarrow> nat list" where
  "pick_round ds secondary picked = fold (pick_domain ds) secondary picked"

function pick_secondary :: "item_domain list \<Rightarrow> item_domain list \<Rightarrow> nat list \<Rightarrow> nat list" where
  "pick_secondary ds secondary picked =
     (let more = pick_round ds secondary picked
      in if sw_mixSlots searchRankWeights \<le> length picked \<or> length more \<le> length picked then picked
         else pick_secondary ds secondary more)"
  by pat_completeness auto
termination
  by (relation "measure (\<lambda>(ds, secondary, picked). sw_mixSlots searchRankWeights - length picked)") (auto simp: Let_def)

definition mix_target :: "nat \<Rightarrow> nat" where
  "mix_target k = min (sw_mixWindow searchRankWeights - 1) (sw_mixFirst searchRankWeights + k * sw_mixStep searchRankWeights)"

definition mix_moves :: "nat list \<Rightarrow> (nat \<times> nat) list" where
  "mix_moves picked = filter (\<lambda>(i, target). target < i) (map (\<lambda>(k, i). (i, mix_target k)) (enumerate 0 picked))"

definition splice_at :: "nat \<Rightarrow> 'a \<Rightarrow> 'a list \<Rightarrow> 'a list" where
  "splice_at n x xs = take n xs @ x # drop n xs"

definition mix_order :: "palette_surface \<Rightarrow> item_domain list \<Rightarrow> nat list" where
  "mix_order surface ds =
     (let (primary, secondary) = commandPaletteMixDomains surface; moves = mix_moves (pick_secondary ds secondary []);
          ranked = [0 ..< length ds]
      in if primary \<notin> set (take (sw_mixWindow searchRankWeights) ds) then ranked
         else fold (\<lambda>(i, target) result. splice_at (min target (length result)) i result) moves (filter (\<lambda>i. i \<notin> fst ` set moves) ranked))"

definition commandPaletteMixFirstScreenResults :: "palette_surface \<Rightarrow> string \<Rightarrow> ('a \<Rightarrow> item_domain) \<Rightarrow> 'a list \<Rightarrow> 'a list" where
  "commandPaletteMixFirstScreenResults surface query domain_of ranked =
     (if js_trim query = [] then ranked else map ((!) ranked) (mix_order surface (map domain_of ranked)))"

section \<open>Candidates\<close>

record found_file =
  ff_path :: string
  ff_name :: string
  ff_relative :: string
  ff_kind :: string
  ff_size :: "rat option"
  ff_mtime :: "rat option"
  ff_realpath :: string
  ff_uploaded :: bool
  ff_root :: string
  ff_staleQuery :: string
  ff_stale :: bool

definition basenameOf :: "string \<Rightarrow> string" where
  "basenameOf path =
     (if path = [] then [] else if CHR ''/'' \<notin> set path then path
      else let name = last (js_split CHR ''/'' path) in if name = [] then ''/'' else name)"

text \<open>The rows of the last query are kept while the next one is under way, marked with the query they answered.\<close>

definition fileQuickOpenRetainedCandidates :: "found_file list \<Rightarrow> string \<Rightarrow> found_file list" where
  "fileQuickOpenRetainedCandidates candidates query =
     (if query = [] then [] else map (\<lambda>f. f\<lparr>ff_staleQuery := query, ff_stale := True\<rparr>) candidates)"

definition file_stem :: "string \<Rightarrow> string" where
  "file_stem name = (if CHR ''.'' \<in> set name then js_join ''.'' (butlast (js_split CHR ''.'' name)) else name)"

text \<open>A match within the name, the stem or one segment of the path, never spread over several directories.\<close>

definition row_matches :: "string \<Rightarrow> found_file \<Rightarrow> bool" where
  "row_matches query f =
     (let name = (if ff_name f = [] then basenameOf (ff_path f) else ff_name f)
      in list_ex (\<lambda>value. fuzzySubsequenceScore query value \<noteq> None)
           (name # file_stem name # filter (\<lambda>s. s \<noteq> []) (js_split CHR ''/'' (ff_relative f))))"

definition fileQuickOpenExternalIndexedMatchAllowed :: "found_file \<Rightarrow> string \<Rightarrow> bool" where
  "fileQuickOpenExternalIndexedMatchAllowed f query =
     (let text = js_trim query
      in text = [] \<or> CHR ''/'' \<in> set text \<or> js_startsWith text ''~'' \<or> row_matches text f)"

datatype file_key = PathKey string | RealKey string | SizeKey string rat

definition file_keys :: "found_file \<Rightarrow> file_key list" where
  "file_keys f =
     [PathKey (ff_path f), RealKey (if ff_realpath f = [] then ff_path f else ff_realpath f)]
     @ (case ff_size f of Some n \<Rightarrow> [SizeKey (basenameOf (ff_path f)) n] | None \<Rightarrow> [])"

fun dedupe_files :: "file_key set \<Rightarrow> found_file list \<Rightarrow> found_file list" where
  "dedupe_files seen [] = []"
| "dedupe_files seen (f # fs) =
     (if ff_path f = [] \<or> list_ex (\<lambda>k. k \<in> seen) (file_keys f) then dedupe_files seen fs
      else f # dedupe_files (seen \<union> set (file_keys f)) fs)"

definition dedupeFileSearchResults :: "found_file list \<Rightarrow> found_file list" where
  "dedupeFileSearchResults files = dedupe_files {} files"

datatype file_change = DeletePath string | UpsertFile found_file

definition change_path :: "file_change \<Rightarrow> string" where
  "change_path c = (case c of DeletePath p \<Rightarrow> p | UpsertFile f \<Rightarrow> ff_path f)"

text \<open>The row an upsert stores: its missing fields are filled in and the root that answered is recorded.\<close>

definition upserted :: "string \<Rightarrow> found_file \<Rightarrow> found_file" where
  "upserted indexedRoot f =
     f\<lparr>ff_name := (if ff_name f = [] then basenameOf (ff_path f) else ff_name f),
       ff_relative := (if ff_relative f = [] then ff_name f else ff_relative f),
       ff_kind := (if ff_kind f = [] then ''file'' else ff_kind f),
       ff_realpath := (if ff_realpath f = [] then ff_path f else ff_realpath f), ff_root := indexedRoot,
       ff_staleQuery := [], ff_stale := False\<rparr>"

definition place_path :: "string \<Rightarrow> found_file \<Rightarrow> (string \<times> found_file) list \<times> string list \<Rightarrow> (string \<times> found_file) list \<times> string list" where
  "place_path path f bo = (case bo of (byPath, order) \<Rightarrow>
     (AList.update path f byPath, if map_of byPath path = None then order @ [path] else order))"

definition apply_change ::
  "string \<Rightarrow> file_change \<Rightarrow> (string \<times> found_file) list \<times> string list \<Rightarrow> (string \<times> found_file) list \<times> string list" where
  "apply_change indexedRoot c bo =
     (if change_path c = [] then bo
      else (case c of
              DeletePath p \<Rightarrow> (case bo of (byPath, order) \<Rightarrow>
                if map_of byPath p = None then (byPath, order) else (AList.delete p byPath, remove1 p order))
            | UpsertFile f \<Rightarrow> place_path (ff_path f) (upserted indexedRoot f) bo))"

definition mergeFileQuickOpenChanges :: "found_file list \<Rightarrow> file_change list \<Rightarrow> string \<Rightarrow> found_file list" where
  "mergeFileQuickOpenChanges candidates changes indexedRoot =
     (let seeded = fold (\<lambda>f bo. if ff_path f = [] then bo else place_path (ff_path f) f bo) candidates ([], []);
          (byPath, order) = fold (apply_change indexedRoot) changes seeded
      in somes (map (map_of byPath) order))"

text \<open>The score of a row is given; a row that does not match ranks last, in its place.\<close>

definition rankAndPruneFileQuickOpenCandidates :: "(found_file \<Rightarrow> rat option) \<Rightarrow> nat \<Rightarrow> found_file list \<Rightarrow> found_file list" where
  "rankAndPruneFileQuickOpenCandidates score limit candidates =
     (let deduped = dedupeFileSearchResults candidates
      in if length deduped \<le> limit then deduped
         else take limit (sort_key (\<lambda>f. - the (score f)) (filter (\<lambda>f. score f \<noteq> None) deduped) @ filter (\<lambda>f. score f = None) deduped))"

section \<open>The event stream of a search\<close>

record sse_parser =
  sp_buffer :: string
  sp_event :: string
  sp_data :: "string list"

definition createFileQuickOpenSseParser :: sse_parser where
  "createFileQuickOpenSseParser = \<lparr>sp_buffer = [], sp_event = [], sp_data = []\<rparr>"

text \<open>The events given to the callback, the parser, and whether all went well: \<open>parse\<close> is \<open>JSON.parse\<close>, which throws where it gives \<open>None\<close>.\<close>

type_synonym 'j sse_result = "(string \<times> 'j) list \<times> sse_parser \<times> bool"

definition sse_dispatch :: "(string \<Rightarrow> 'j option) \<Rightarrow> sse_parser \<Rightarrow> 'j sse_result" where
  "sse_dispatch parse p =
     (if sp_data p = [] then ([], p\<lparr>sp_event := []\<rparr>, True)
      else (case parse (js_join [CHR 0x0A] (sp_data p)) of
              None \<Rightarrow> ([], p, False)
            | Some payload \<Rightarrow> ([(if sp_event p = [] then ''message'' else sp_event p, payload)], p\<lparr>sp_event := [], sp_data := []\<rparr>, True)))"

definition sse_field :: "string \<Rightarrow> string \<times> string" where
  "sse_field line =
     (case char_index CHR '':'' line 0 of
        None \<Rightarrow> (line, [])
      | Some i \<Rightarrow> (take i line, let v = drop (Suc i) line in if js_startsWith v '' '' then drop 1 v else v))"

definition sse_line :: "(string \<Rightarrow> 'j option) \<Rightarrow> string \<Rightarrow> sse_parser \<Rightarrow> 'j sse_result" where
  "sse_line parse line p =
     (if line = [] then sse_dispatch parse p
      else if js_startsWith line '':'' then ([], p, True)
      else (case sse_field line of (field, value) \<Rightarrow>
              if field = ''event'' then ([], p\<lparr>sp_event := value\<rparr>, True)
              else if field = ''data'' then ([], p\<lparr>sp_data := sp_data p @ [value]\<rparr>, True)
              else ([], p, True)))"

definition drop_return :: "string \<Rightarrow> string" where
  "drop_return line = (if line \<noteq> [] \<and> last line = CHR 0x0D then butlast line else line)"

lemma sse_line_buffer: "sse_line parse line p = (es, q, ok) \<Longrightarrow> sp_buffer q = sp_buffer p"
  by (auto simp: sse_line_def sse_dispatch_def split: if_splits option.splits prod.splits)

lemma char_index_less: "char_index c s pos = Some i \<Longrightarrow> i < length s"
proof -
  have "char_offset c xs = Some j \<Longrightarrow> j < length xs" for xs j by (induction xs arbitrary: j) (auto split: if_splits)
  then show "char_index c s pos = Some i \<Longrightarrow> i < length s" by (fastforce simp: char_index_def)
qed

text \<open>An exception ends the loop; the line it was raised for has left the buffer.\<close>

function sse_lines :: "(string \<Rightarrow> 'j option) \<Rightarrow> sse_parser \<Rightarrow> 'j sse_result" where
  "sse_lines parse p =
     (case char_index (CHR 0x0A) (sp_buffer p) 0 of
        None \<Rightarrow> ([], p, True)
      | Some i \<Rightarrow>
          (case sse_line parse (drop_return (take i (sp_buffer p))) (p\<lparr>sp_buffer := drop (Suc i) (sp_buffer p)\<rparr>) of
             (es, q, ok) \<Rightarrow>
               if \<not> ok then (es, q, ok)
               else (case sse_lines parse q of (fs, r, ok') \<Rightarrow> (es @ fs, r, ok'))))"
  by pat_completeness auto
termination
  by (relation "measure (\<lambda>(parse, p). length (sp_buffer p))") (auto dest!: sse_line_buffer [OF sym] char_index_less)

definition sse_feed :: "(string \<Rightarrow> 'j option) \<Rightarrow> string \<Rightarrow> sse_parser \<Rightarrow> 'j sse_result" where
  "sse_feed parse text p = sse_lines parse (p\<lparr>sp_buffer := sp_buffer p @ text\<rparr>)"

definition sse_finish :: "(string \<Rightarrow> 'j option) \<Rightarrow> sse_parser \<Rightarrow> 'j sse_result" where
  "sse_finish parse p =
     (case (if sp_buffer p = [] then ([], p, True) else sse_line parse (drop_return (sp_buffer p)) p) of
        (es, q, ok) \<Rightarrow>
          if \<not> ok then (es, q, ok)
          else (case sse_dispatch parse (q\<lparr>sp_buffer := []\<rparr>) of (fs, r, ok') \<Rightarrow> (es @ fs, r, ok')))"

text \<open>A stream as the network cuts it: a failure ends the reading.\<close>

fun sse_stream :: "(string \<Rightarrow> 'j option) \<Rightarrow> string list \<Rightarrow> sse_parser \<Rightarrow> 'j sse_result" where
  "sse_stream parse [] p = sse_finish parse p"
| "sse_stream parse (piece # pieces) p =
     (case sse_feed parse piece p of
        (es, q, ok) \<Rightarrow> if \<not> ok then (es, q, ok) else (case sse_stream parse pieces q of (fs, r, ok') \<Rightarrow> (es @ fs, r, ok')))"

section \<open>Freshness\<close>

record freshness =
  fn_state :: string
  fn_age :: "rat option"
  fn_stale :: bool

definition freshness_rank :: "freshness \<Rightarrow> rat \<times> rat" where
  "freshness_rank r = (if fn_state r = ''orphaned'' then 2 else 1, case fn_age r of None \<Rightarrow> -1 | Some a \<Rightarrow> a)"

definition worse_freshness :: "freshness \<Rightarrow> freshness \<Rightarrow> bool" where
  "worse_freshness a b =
     (fst (freshness_rank b) < fst (freshness_rank a)
      \<or> fst (freshness_rank a) = fst (freshness_rank b) \<and> snd (freshness_rank b) < snd (freshness_rank a))"

definition fileQuickOpenWorstFreshness :: "freshness list \<Rightarrow> freshness option" where
  "fileQuickOpenWorstFreshness records =
     (case filter fn_stale records of
        [] \<Rightarrow> None
      | r # rs \<Rightarrow> Some (foldl (\<lambda>worst r. if worse_freshness r worst then r else worst) r rs))"

end
