(* ===== verification/Quick_Matching.thy ===== *)
theory Quick_Matching
  imports Quick_Search
begin

text \<open>The fuzzy matcher finds exactly the subsequences, and its score puts a contiguous occurrence first.\<close>

section \<open>Positions\<close>

lemma char_offset_spec: "char_offset c xs = Some i \<Longrightarrow> xs = take i xs @ c # drop (Suc i) xs \<and> c \<notin> set (take i xs) \<and> i < length xs"
  by (induction xs arbitrary: i) (auto split: if_splits)

lemma char_offset_none: "char_offset c xs = None \<longleftrightarrow> c \<notin> set xs"
  by (induction xs) auto

lemma char_index_spec:
  assumes "char_index c h pos = Some i"
  shows "pos \<le> i" "i < length h" "h ! i = c" "drop pos h = take (i - pos) (drop pos h) @ c # drop (Suc i) h" "c \<notin> set (take (i - pos) (drop pos h))"
proof -
  obtain j where j: "char_offset c (drop pos h) = Some j" "i = pos + j" using assms by (auto simp: char_index_def)
  note s = char_offset_spec [OF j(1)]
  show "pos \<le> i" "i < length h" using j(2) s by auto
  show "drop pos h = take (i - pos) (drop pos h) @ c # drop (Suc i) h" "c \<notin> set (take (i - pos) (drop pos h))"
    using s j(2) by (simp_all add: add.commute)
  have "drop pos h ! j = c" using s by (metis nth_append_length length_take min.absorb4)
  moreover have "pos \<le> length h" using s by auto
  ultimately show "h ! i = c" using j(2) by simp
qed

lemma char_index_none: "char_index c h pos = None \<longleftrightarrow> c \<notin> set (drop pos h)"
  by (simp add: char_index_def char_offset_none)

lemma substring_found: "substring_index n s = Some i \<Longrightarrow> i + length n \<le> length s \<and> take (length n) (drop i s) = n"
proof (induction s arbitrary: i)
  case (Cons c s)
  show ?case
  proof (cases "js_startsWith (c # s) n")
    case True
    then show ?thesis using Cons.prems by (auto simp: js_startsWith_iff dest: arg_cong [of _ _ length])
  next
    case False
    then obtain j where "substring_index n s = Some j" "i = Suc j" using Cons.prems by auto
    then show ?thesis using Cons.IH by fastforce
  qed
qed (auto split: if_splits)

lemma substring_index_iff: "substring_index n s \<noteq> None \<longleftrightarrow> sublist n s"
proof (induction s)
  case (Cons c s)
  have "js_startsWith (c # s) n \<longleftrightarrow> prefix n (c # s)" by (auto simp: js_startsWith_iff prefix_def)
  then show ?case using Cons by (auto simp: sublist_Cons_right)
qed simp

section \<open>The greedy walk\<close>

lemma subseq_skip: "c \<notin> set pre \<Longrightarrow> subseq (c # n) (pre @ xs) \<longleftrightarrow> subseq (c # n) xs"
  by (induction pre) (auto simp: subseq_Cons2_neq)

lemma greedy_complete: "greedy_walk h n pos previous score is \<noteq> None \<longleftrightarrow> subseq n (drop pos h)"
proof (induction n arbitrary: pos previous score "is")
  case (Cons c n)
  show ?case
  proof (cases "char_index c h pos")
    case None
    then have "c \<notin> set (drop pos h)" by (simp add: char_index_none)
    then have "\<not> subseq (c # n) (drop pos h)" using list_emb_set [of "(=)" "c # n" "drop pos h" c] by auto
    then show ?thesis using None by simp
  next
    case (Some i)
    have "subseq (c # n) (drop pos h) \<longleftrightarrow> subseq (c # n) (c # drop (Suc i) h)"
      using subseq_skip [OF char_index_spec(5) [OF Some], of n "c # drop (Suc i) h"] char_index_spec(4) [OF Some] by simp
    then show ?thesis using Some Cons.IH by simp
  qed
qed simp

lemma greedy_indexes:
  assumes "greedy_walk h n pos previous score is = Some (sc, js)"
  shows "\<exists>ks. js = is @ ks \<and> sorted_wrt (<) ks \<and> (\<forall>k \<in> set ks. pos \<le> k \<and> k < length h) \<and> map ((!) h) ks = n"
  using assms
proof (induction n arbitrary: pos previous score "is")
  case (Cons c n)
  then obtain i where i: "char_index c h pos = Some i" by (auto split: option.splits)
  then obtain ks where ks: "js = (is @ [i]) @ ks" "sorted_wrt (<) ks" "\<forall>k \<in> set ks. Suc i \<le> k \<and> k < length h" "map ((!) h) ks = n"
    using Cons.IH [of "Suc i" "Some i" "score + step_score h pos previous i" "is @ [i]"] Cons.prems by auto
  have "js = is @ i # ks" "sorted_wrt (<) (i # ks)" "map ((!) h) (i # ks) = c # n"
    using ks char_index_spec(3) [OF i] by auto
  moreover have "\<forall>k \<in> set (i # ks). pos \<le> k \<and> k < length h" using ks(3) char_index_spec(1,2) [OF i] by auto
  ultimately show ?case by (intro exI [of _ "i # ks"] conjI)
qed simp

lemma greedy_score: "greedy_walk h n pos previous score is = Some (sc, js) \<Longrightarrow> sc \<le> score + 24 * of_nat (length n)"
proof (induction n arbitrary: pos previous score "is")
  case (Cons c n)
  then obtain i where "greedy_walk h n (Suc i) (Some i) (score + step_score h pos previous i) (is @ [i]) = Some (sc, js)"
    by (auto split: option.splits)
  then have "sc \<le> score + step_score h pos previous i + 24 * of_nat (length n)" by (rule Cons.IH)
  moreover have "step_score h pos previous i \<le> 24" by (simp add: step_score_def searchRankWeights_def)
  ultimately show ?case by simp
qed simp

section \<open>The matcher\<close>

lemma match_iff: "fuzzySubsequenceMatch query text \<noteq> None \<longleftrightarrow> subseq (fuzzy_needle query) (js_lower text)"
proof (cases "substring_index (fuzzy_needle query) (js_lower text)")
  case None
  have g: "greedy_walk (js_lower text) (fuzzy_needle query) 0 None 0 [] \<noteq> None \<longleftrightarrow> subseq (fuzzy_needle query) (js_lower text)"
    using greedy_complete [of "js_lower text" "fuzzy_needle query" 0 None 0 "[]"] by simp
  show ?thesis
  proof (cases "fuzzy_needle query = []")
    case False
    then have "fuzzySubsequenceMatch query text \<noteq> None \<longleftrightarrow> greedy_walk (js_lower text) (fuzzy_needle query) 0 None 0 [] \<noteq> None"
      using None by (simp add: fuzzySubsequenceMatch_def Let_def)
    then show ?thesis using g by simp
  qed (simp add: fuzzySubsequenceMatch_def)
next
  case (Some st)
  then have "sublist (fuzzy_needle query) (js_lower text)" using substring_index_iff by blast
  then have "subseq (fuzzy_needle query) (js_lower text)" by (rule sublist_imp_subseq)
  then show ?thesis using Some by (simp add: fuzzySubsequenceMatch_def Let_def)
qed

lemma match_indexes:
  assumes "fuzzySubsequenceMatch query text = Some (score, is)"
  shows "sorted_wrt (<) is" "\<forall>i \<in> set is. i < length text" "map ((!) (js_lower text)) is = fuzzy_needle query"
proof -
  define n h where "n = fuzzy_needle query" and "h = js_lower text"
  have "sorted_wrt (<) is \<and> (\<forall>i \<in> set is. i < length h) \<and> map ((!) h) is = n"
  proof (cases "n = []")
    case False
    show ?thesis
    proof (cases "substring_index n h")
      case None
      then obtain sc where "greedy_walk h n 0 None 0 [] = Some (sc, is)"
        using assms False by (auto simp: fuzzySubsequenceMatch_def Let_def n_def [symmetric] h_def [symmetric])
      from greedy_indexes [OF this] show ?thesis by auto
    next
      case (Some st)
      then have "is = [st ..< st + length n]"
        using assms False by (auto simp: fuzzySubsequenceMatch_def Let_def n_def [symmetric] h_def [symmetric])
      moreover have "map ((!) h) [st ..< st + length n] = take (length n) (drop st h)"
        using conjunct1 [OF substring_found [OF Some]] by (intro nth_equalityI) auto
      ultimately show ?thesis using substring_found [OF Some] by auto
    qed
  qed (use assms in \<open>auto simp: fuzzySubsequenceMatch_def Let_def n_def\<close>)
  then show "sorted_wrt (<) is" "\<forall>i \<in> set is. i < length text" "map ((!) (js_lower text)) is = fuzzy_needle query"
    by (simp_all add: n_def h_def js_lower_def)
qed

lemma contiguous_score:
  assumes "sublist (fuzzy_needle query) (js_lower text)" "fuzzy_needle query \<noteq> []"
  shows "\<exists>x. fuzzySubsequenceScore query text = Some x \<and> 30000 + 18 * of_nat (length (fuzzy_needle query)) - 10 - of_nat (length text) / 100 \<le> x"
proof -
  define n h where "n = fuzzy_needle query" and "h = js_lower text"
  obtain st where st: "substring_index n h = Some st" using assms(1) substring_index_iff unfolding n_def h_def by blast
  have "of_nat (length n - 1) = (of_nat (length n) - 1 :: rat)" using assms(2) by (cases n) (auto simp: n_def)
  moreover have "length_penalty h n \<le> of_nat (length text) / 100"
    using of_nat_mono [of "length text - length n" "length text"] by (simp add: length_penalty_def searchRankWeights_def h_def js_lower_def)
  ultimately have "30000 + 18 * of_nat (length n) - 10 - of_nat (length text) / 100 \<le> substring_score h n st"
    by (simp add: substring_score_def searchRankWeights_def algebra_simps)
  then show ?thesis using st assms(2)
    by (simp add: fuzzySubsequenceScore_def fuzzySubsequenceMatch_def Let_def n_def h_def)
qed

lemma scattered_score:
  assumes "\<not> sublist (fuzzy_needle query) (js_lower text)" "fuzzySubsequenceScore query text = Some y"
  shows "y \<le> 24 * of_nat (length (fuzzy_needle query))"
proof -
  define n h where "n = fuzzy_needle query" and "h = js_lower text"
  have s: "substring_index n h = None" "n \<noteq> []" using assms(1) substring_index_iff unfolding n_def h_def by (blast, auto)
  then obtain sc js where g: "greedy_walk h n 0 None 0 [] = Some (sc, js)" "y = sc - length_penalty h n"
    using assms(2) by (auto simp: fuzzySubsequenceScore_def fuzzySubsequenceMatch_def Let_def n_def [symmetric] h_def [symmetric])
  have "0 \<le> length_penalty h n" by (simp add: length_penalty_def searchRankWeights_def)
  then show ?thesis using greedy_score [OF g(1)] g(2) by (simp add: n_def)
qed

section \<open>Words and fields\<close>

lemma words_spaceless: "list_all (\<lambda>c. \<not> js_isSpace c) w \<Longrightarrow> list_all (list_all (\<lambda>c. \<not> js_isSpace c)) (words_from w s)"
  by (induction w s rule: words_from.induct) simp_all

lemma lower_space: "js_isSpace (lower_char c) = js_isSpace c"
  by (auto simp: js_isSpace_def lower_char_def Let_def)

lemma word_needle: "w \<in> set (query_words query) \<Longrightarrow> fuzzy_needle w = js_lower w"
proof -
  assume "w \<in> set (query_words query)"
  then have "\<forall>c \<in> set w. \<not> js_isSpace c" using words_spaceless [of "[]" query] by (simp add: query_words_def list_all_iff)
  then show "fuzzy_needle w = js_lower w" by (simp add: fuzzy_needle_def js_lower_def lower_space filter_id_conv)
qed

lemma better_none: "better_score a b = None \<longleftrightarrow> a = None \<and> b = None"
  by (cases a; cases b) (simp_all add: better_score_def)

lemma word_score_iff: "word_score w values \<noteq> None \<longleftrightarrow> (\<exists>v \<in> set values. fuzzySubsequenceMatch w v \<noteq> None)"
proof -
  have f: "field_score w i v = None \<longleftrightarrow> fuzzySubsequenceMatch w v = None" for i v
    by (simp add: field_score_def fuzzySubsequenceScore_def)
  have "foldl (\<lambda>best (i, value). better_score best (field_score w i value)) b (enumerate k vs) = None
      \<longleftrightarrow> b = None \<and> (\<forall>v \<in> set vs. fuzzySubsequenceMatch w v = None)" for b k vs
    by (induction vs arbitrary: b k) (simp_all add: better_none f conj_assoc)
  then show ?thesis unfolding word_score_def by auto
qed

lemma sum_scores_iff: "sum_scores a xs \<noteq> None \<longleftrightarrow> None \<notin> set xs"
  by (induction a xs rule: sum_scores.induct) auto

lemma search_iff:
  "fuzzySearchScore query texts \<noteq> None
     \<longleftrightarrow> query_words query = [] \<or> (\<forall>w \<in> set (query_words query). \<exists>v \<in> set texts. v \<noteq> [] \<and> subseq (js_lower w) (js_lower v))"
proof (cases "query_words query = []")
  case False
  define vs where "vs = filter (\<lambda>v. v \<noteq> []) texts"
  have w: "word_score w vs \<noteq> None \<longleftrightarrow> (\<exists>v \<in> set texts. v \<noteq> [] \<and> subseq (js_lower w) (js_lower v))" if "w \<in> set (query_words query)" for w
    unfolding word_score_iff match_iff word_needle [OF that] by (auto simp: vs_def)
  have "fuzzySearchScore query texts \<noteq> None \<longleftrightarrow> vs \<noteq> [] \<and> (\<forall>w \<in> set (query_words query). word_score w vs \<noteq> None)"
  proof -
    have "None \<notin> set (map (\<lambda>w. word_score w vs) (query_words query)) \<longleftrightarrow> (\<forall>w \<in> set (query_words query). word_score w vs \<noteq> None)"
      unfolding set_map image_iff by metis
    then show ?thesis using False sum_scores_iff [of 0 "map (\<lambda>w. word_score w vs) (query_words query)"]
      by (simp add: fuzzySearchScore_def Let_def vs_def [symmetric])
  qed
  moreover have "(\<forall>w \<in> set (query_words query). word_score w vs \<noteq> None) \<Longrightarrow> vs \<noteq> []"
    using False by (cases "query_words query") (auto simp: word_score_def)
  ultimately show ?thesis using False w by blast
qed (simp add: fuzzySearchScore_def)

end
