(* ===== verification/Quick_Stream.thy ===== *)
theory Quick_Stream
  imports Quick_Matching
begin

text \<open>The reader of the event stream sees the same events however the network cuts the text.\<close>

section \<open>Lines\<close>

definition rebuffer :: "string \<Rightarrow> 'j sse_result \<Rightarrow> 'j sse_result" where
  "rebuffer b r = (case r of (es, q, ok) \<Rightarrow> (es, q\<lparr>sp_buffer := b\<rparr>, ok))"

lemma sse_line_rebuffer: "sse_line parse line (p\<lparr>sp_buffer := b\<rparr>) = rebuffer b (sse_line parse line p)"
  by (simp add: sse_line_def sse_dispatch_def rebuffer_def split: prod.split option.split)

lemma char_index_append: "char_index c s 0 = Some i \<Longrightarrow> char_index c (s @ t) 0 = Some i"
proof -
  have "char_offset c xs = Some j \<Longrightarrow> char_offset c (xs @ t) = Some j" for xs j
    by (induction xs arbitrary: j) (auto split: if_splits)
  then show "char_index c s 0 = Some i \<Longrightarrow> char_index c (s @ t) 0 = Some i" by (auto simp: char_index_def)
qed

declare sse_lines.simps [simp del]

lemma lines_none: "char_index (CHR 0x0A) (sp_buffer p) 0 = None \<Longrightarrow> sse_lines parse p = ([], p, True)"
  by (subst sse_lines.simps) simp

lemma lines_some:
  "char_index (CHR 0x0A) (sp_buffer p) 0 = Some i \<Longrightarrow>
     sse_lines parse p =
       (case sse_line parse (drop_return (take i (sp_buffer p))) (p\<lparr>sp_buffer := drop (Suc i) (sp_buffer p)\<rparr>) of
          (es, q, ok) \<Rightarrow> if \<not> ok then (es, q, ok) else (case sse_lines parse q of (fs, r, ok') \<Rightarrow> (es @ fs, r, ok')))"
  by (subst sse_lines.simps) simp

text \<open>What more text does to the lines that are there.\<close>

lemma lines_more:
  "case sse_lines parse p of (es, q, ok) \<Rightarrow>
     if ok then CHR 0x0A \<notin> set (sp_buffer q)
       \<and> sse_lines parse (p\<lparr>sp_buffer := sp_buffer p @ t\<rparr>)
           = (case sse_lines parse (q\<lparr>sp_buffer := sp_buffer q @ t\<rparr>) of (fs, r, ok') \<Rightarrow> (es @ fs, r, ok'))
     else (\<exists>q'. sse_lines parse (p\<lparr>sp_buffer := sp_buffer p @ t\<rparr>) = (es, q', False))"
proof (induction parse p rule: sse_lines.induct)
  case (1 parse p)
  show ?case
  proof (cases "char_index (CHR 0x0A) (sp_buffer p) 0")
    case None
    then show ?thesis using char_index_none [of "CHR 0x0A" "sp_buffer p" 0] by (simp add: lines_none split: prod.split)
  next
    case (Some i)
    define l where "l = drop_return (take i (sp_buffer p))"
    define p1 where "p1 = p\<lparr>sp_buffer := drop (Suc i) (sp_buffer p)\<rparr>"
    obtain es q ok where s: "sse_line parse l p1 = (es, q, ok)" by (cases "sse_line parse l p1") auto
    have i: "i < length (sp_buffer p)" by (rule char_index_less [OF Some])
    have qb: "sp_buffer q = drop (Suc i) (sp_buffer p)" using sse_line_buffer [OF s] by (simp add: p1_def)
    have a: "sse_lines parse p = (if \<not> ok then (es, q, ok) else (case sse_lines parse q of (fs, r, ok') \<Rightarrow> (es @ fs, r, ok')))"
      by (simp only: lines_some [OF Some] l_def [symmetric] p1_def [symmetric] s prod.case)
    have "sse_line parse l (p1\<lparr>sp_buffer := sp_buffer p1 @ t\<rparr>) = (es, q\<lparr>sp_buffer := sp_buffer q @ t\<rparr>, ok)"
      unfolding sse_line_rebuffer s by (simp add: rebuffer_def qb p1_def)
    then have b: "sse_lines parse (p\<lparr>sp_buffer := sp_buffer p @ t\<rparr>)
        = (if \<not> ok then (es, q\<lparr>sp_buffer := sp_buffer q @ t\<rparr>, ok)
           else (case sse_lines parse (q\<lparr>sp_buffer := sp_buffer q @ t\<rparr>) of (fs, r, ok') \<Rightarrow> (es @ fs, r, ok')))"
      using lines_some [of "p\<lparr>sp_buffer := sp_buffer p @ t\<rparr>" i parse] char_index_append [OF Some, of t] i by (simp add: l_def p1_def)
    show ?thesis
    proof (cases ok)
      case True
      obtain fs r ok' where q: "sse_lines parse q = (fs, r, ok')" by (cases "sse_lines parse q") auto
      have "case sse_lines parse q of (es, q', ok) \<Rightarrow>
         if ok then CHR 0x0A \<notin> set (sp_buffer q')
           \<and> sse_lines parse (q\<lparr>sp_buffer := sp_buffer q @ t\<rparr>)
               = (case sse_lines parse (q'\<lparr>sp_buffer := sp_buffer q' @ t\<rparr>) of (fs, r, ok') \<Rightarrow> (es @ fs, r, ok'))
         else (\<exists>q''. sse_lines parse (q\<lparr>sp_buffer := sp_buffer q @ t\<rparr>) = (es, q'', False))"
        using "1" [OF Some s [unfolded l_def p1_def, symmetric] refl] True by simp
      then show ?thesis using a b True q by (auto split: prod.splits if_splits)
    qed (use a b in simp)
  qed
qed

lemma feed_more:
  assumes "sse_feed parse a p = (es, q, ok)"
  shows "ok \<Longrightarrow> CHR 0x0A \<notin> set (sp_buffer q)"
    and "ok \<Longrightarrow> sse_feed parse (a @ t) p = (case sse_feed parse t q of (fs, r, ok') \<Rightarrow> (es @ fs, r, ok'))"
    and "\<not> ok \<Longrightarrow> \<exists>q'. sse_feed parse (a @ t) p = (es, q', False)"
  using lines_more [of parse "p\<lparr>sp_buffer := sp_buffer p @ a\<rparr>" t] assms by (simp_all add: sse_feed_def)

section \<open>Cuts\<close>

lemma stream_cut:
  assumes "CHR 0x0A \<notin> set (sp_buffer p)" "sse_stream parse pieces p = (es, r, ok)"
  shows "\<exists>r'. sse_stream parse [concat pieces] p = (es, r', ok) \<and> (ok \<longrightarrow> r' = r)"
  using assms
proof (induction pieces arbitrary: p es)
  case Nil
  have "sse_feed parse [] p = ([], p, True)"
    using Nil(1) char_index_none [of "CHR 0x0A" "sp_buffer p" 0] by (simp add: sse_feed_def lines_none)
  then show ?case using Nil(2) by simp
next
  case (Cons a pieces)
  obtain fs q ok1 where f: "sse_feed parse a p = (fs, q, ok1)" by (cases "sse_feed parse a p") auto
  show ?case
  proof (cases ok1)
    case True
    note q = feed_more(1) [OF f True]
    obtain gs where g: "sse_stream parse pieces q = (gs, r, ok)" "es = fs @ gs"
      using Cons.prems(2) f True by (auto split: prod.splits)
    obtain r' where r: "sse_stream parse [concat pieces] q = (gs, r', ok)" "ok \<longrightarrow> r' = r" using Cons.IH [OF q g(1)] by blast
    obtain hs u ok3 where h: "sse_feed parse (concat pieces) q = (hs, u, ok3)" by (cases "sse_feed parse (concat pieces) q") auto
    have "sse_feed parse (a @ concat pieces) p = (fs @ hs, u, ok3)" using feed_more(2) [OF f True] h by simp
    then have "sse_stream parse [concat (a # pieces)] p = (es, r', ok)"
      using r(1) h g(2) by (auto split: prod.splits if_splits)
    then show ?thesis using r(2) by blast
  next
    case False
    then obtain q' where "sse_feed parse (a @ concat pieces) p = (fs, q', False)" using feed_more(3) [OF f] by blast
    then show ?thesis using Cons.prems(2) f False by auto
  qed
qed

section \<open>A stream that is written and read\<close>

definition sse_block :: "string \<times> string \<Rightarrow> string" where
  "sse_block e = ''event: '' @ fst e @ [CHR 0x0A] @ ''data: '' @ snd e @ [CHR 0x0A, CHR 0x0A]"

definition sse_safe :: "string \<Rightarrow> bool" where
  "sse_safe line = (CHR 0x0A \<notin> set line \<and> CHR 0x0D \<notin> set line)"

lemma feed_line:
  assumes "sse_safe line" "sp_buffer p = []"
  shows "sse_feed parse (line @ CHR 0x0A # rest) p =
    (case sse_line parse line (p\<lparr>sp_buffer := rest\<rparr>) of
       (es, q, ok) \<Rightarrow> if \<not> ok then (es, q, ok) else (case sse_lines parse q of (fs, r, ok') \<Rightarrow> (es @ fs, r, ok')))"
proof -
  have "char_offset (CHR 0x0A) (line @ CHR 0x0A # rest) = Some (length line)"
    using assms(1) unfolding sse_safe_def by (induction line) auto
  then have i: "char_index (CHR 0x0A) (line @ CHR 0x0A # rest) 0 = Some (length line)" by (simp add: char_index_def)
  have "line \<noteq> [] \<Longrightarrow> last line \<noteq> CHR 0x0D" using assms(1) last_in_set [of line] unfolding sse_safe_def by metis
  then have "drop_return line = line" by (auto simp: drop_return_def)
  then show ?thesis
    using lines_some [of "p\<lparr>sp_buffer := line @ CHR 0x0A # rest\<rparr>" "length line" parse] i assms(2) by (simp add: sse_feed_def)
qed

lemma feed_quiet:
  assumes "sse_safe line" "sp_buffer p = []" "sp_buffer q = []"
    and "\<And>b. sse_line parse line (p\<lparr>sp_buffer := b\<rparr>) = (es, q\<lparr>sp_buffer := b\<rparr>, True)"
  shows "sse_feed parse (line @ CHR 0x0A # rest) p = (case sse_feed parse rest q of (fs, r, ok) \<Rightarrow> (es @ fs, r, ok))"
  using feed_line [OF assms(1,2), of parse rest] assms(3,4) by (simp add: sse_feed_def split: prod.split)

lemma feed_block:
  assumes "sse_safe name" "sse_safe d" "parse d = Some j"
  shows "sse_feed parse (sse_block (name, d) @ rest) createFileQuickOpenSseParser
    = (case sse_feed parse rest createFileQuickOpenSseParser of
         (fs, r, ok) \<Rightarrow> ((if name = [] then ''message'' else name, j) # fs, r, ok))"
proof -
  define ini where "ini = createFileQuickOpenSseParser"
  define p1 where "p1 = ini\<lparr>sp_event := name\<rparr>"
  define p2 where "p2 = p1\<lparr>sp_data := [d]\<rparr>"
  have b: "sp_buffer ini = []" "sp_buffer p1 = []" "sp_buffer p2 = []" by (simp_all add: ini_def p1_def p2_def createFileQuickOpenSseParser_def)
  have s: "sse_safe (''event: '' @ name)" "sse_safe (''data: '' @ d)" "sse_safe []" using assms by (auto simp: sse_safe_def)
  have e: "sse_line parse (''event: '' @ name) (ini\<lparr>sp_buffer := x\<rparr>) = ([], p1\<lparr>sp_buffer := x\<rparr>, True)" for x
    by (simp add: sse_line_def sse_field_def char_index_def js_startsWith_def p1_def)
  have v: "sse_line parse (''data: '' @ d) (p1\<lparr>sp_buffer := x\<rparr>) = ([], p2\<lparr>sp_buffer := x\<rparr>, True)" for x
    by (simp add: sse_line_def sse_field_def char_index_def js_startsWith_def p1_def p2_def ini_def createFileQuickOpenSseParser_def)
  have z: "sse_line parse [] (p2\<lparr>sp_buffer := x\<rparr>) = ([(if name = [] then ''message'' else name, j)], ini\<lparr>sp_buffer := x\<rparr>, True)" for x
    by (simp add: sse_line_def sse_dispatch_def assms(3) p1_def p2_def ini_def createFileQuickOpenSseParser_def)
  have "sse_block (name, d) @ rest = (''event: '' @ name) @ CHR 0x0A # ((''data: '' @ d) @ CHR 0x0A # ([] @ CHR 0x0A # rest))"
    by (simp add: sse_block_def)
  then have "sse_feed parse (sse_block (name, d) @ rest) ini
      = sse_feed parse ((''event: '' @ name) @ CHR 0x0A # ((''data: '' @ d) @ CHR 0x0A # ([] @ CHR 0x0A # rest))) ini" by (simp only:)
  also have "\<dots> = sse_feed parse ((''data: '' @ d) @ CHR 0x0A # ([] @ CHR 0x0A # rest)) p1"
    unfolding feed_quiet [OF s(1) b(1,2) e] by (simp split: prod.split)
  also have "\<dots> = sse_feed parse ([] @ CHR 0x0A # rest) p2"
    unfolding feed_quiet [OF s(2) b(2,3) v] by (simp split: prod.split)
  also have "\<dots> = (case sse_feed parse rest ini of (fs, r, ok) \<Rightarrow> ([(if name = [] then ''message'' else name, j)] @ fs, r, ok))"
    by (rule feed_quiet [OF s(3) b(3,1) z])
  finally show ?thesis by (simp add: ini_def)
qed

lemma stream_written:
  assumes "\<forall>e \<in> set evs. sse_safe (fst e) \<and> sse_safe (snd e) \<and> parse (snd e) = Some (f e)"
  shows "sse_feed parse (concat (map sse_block evs)) createFileQuickOpenSseParser
    = (map (\<lambda>e. (if fst e = [] then ''message'' else fst e, f e)) evs, createFileQuickOpenSseParser, True)"
  using assms
proof (induction evs)
  case Nil
  show ?case using char_index_none [of "CHR 0x0A" "[]" 0] by (simp add: sse_feed_def lines_none createFileQuickOpenSseParser_def)
next
  case (Cons e evs)
  then show ?case using feed_block [of "fst e" "snd e" parse "f e" "concat (map sse_block evs)"] by simp
qed

end
