(* ===== verification/Quick_Candidates.thy ===== *)
theory Quick_Candidates
  imports Quick_Search "HOL-Library.Option_ord"
begin

text \<open>The candidates of the quick open and the mix of its first screen.\<close>

section \<open>Duplicates\<close>

definition apart :: "found_file \<Rightarrow> found_file \<Rightarrow> bool" where
  "apart f g = (set (file_keys f) \<inter> set (file_keys g) = {})"

lemma dedupe_subseq: "subseq (dedupe_files seen fs) fs"
  by (induction seen fs rule: dedupe_files.induct) auto

lemma dedupe_fresh: "f \<in> set (dedupe_files seen fs) \<Longrightarrow> ff_path f \<noteq> [] \<and> set (file_keys f) \<inter> seen = {}"
  by (induction seen fs rule: dedupe_files.induct) (auto simp: list_ex_iff split: if_splits)

lemma dedupe_apart: "sorted_wrt apart (dedupe_files seen fs)"
proof (induction seen fs rule: dedupe_files.induct)
  case (2 seen f fs)
  have "apart f g" if "g \<in> set (dedupe_files (seen \<union> set (file_keys f)) fs)" for g
    using dedupe_fresh [OF that] by (auto simp: apart_def)
  then show ?case using 2 by simp
qed simp

lemma dedupe_covers:
  "f \<in> set fs \<Longrightarrow> ff_path f \<noteq> [] \<Longrightarrow> f \<in> set (dedupe_files seen fs)
     \<or> (\<exists>k \<in> set (file_keys f). k \<in> seen \<or> (\<exists>g \<in> set (dedupe_files seen fs). k \<in> set (file_keys g)))"
  by (induction seen fs rule: dedupe_files.induct) (auto simp: list_ex_iff)

lemma dedupe_again:
  "\<forall>f \<in> set fs. ff_path f \<noteq> [] \<and> set (file_keys f) \<inter> seen = {} \<Longrightarrow> sorted_wrt apart fs \<Longrightarrow> dedupe_files seen fs = fs"
proof (induction fs arbitrary: seen)
  case (Cons f fs)
  then have "\<forall>g \<in> set fs. ff_path g \<noteq> [] \<and> set (file_keys g) \<inter> (seen \<union> set (file_keys f)) = {}" by (auto simp: apart_def)
  then show ?case using Cons by (auto simp: list_ex_iff)
qed simp

section \<open>Changes\<close>

text \<open>What the rows and the changes mean: a map from paths to rows.\<close>

definition file_map :: "found_file list \<Rightarrow> string \<Rightarrow> found_file option" where
  "file_map files = fold (\<lambda>f m. if ff_path f = [] then m else m(ff_path f \<mapsto> f)) files Map.empty"

definition change_map :: "string \<Rightarrow> file_change \<Rightarrow> (string \<Rightarrow> found_file option) \<Rightarrow> string \<Rightarrow> found_file option" where
  "change_map indexedRoot c m =
     (if change_path c = [] then m
      else (case c of DeletePath p \<Rightarrow> m(p := None) | UpsertFile f \<Rightarrow> m(ff_path f \<mapsto> upserted indexedRoot f)))"

definition table_ok :: "(string \<times> found_file) list \<times> string list \<Rightarrow> bool" where
  "table_ok bo = (distinct (snd bo) \<and> set (snd bo) = dom (map_of (fst bo)) \<and> (\<forall>p f. map_of (fst bo) p = Some f \<longrightarrow> ff_path f = p))"

lemma place_ok:
  assumes "table_ok bo" "ff_path f = path"
  shows "table_ok (place_path path f bo) \<and> map_of (fst (place_path path f bo)) = (map_of (fst bo))(path \<mapsto> f)"
  using assms by (cases bo) (auto simp: place_path_def table_ok_def update_conv' dom_def)

lemma change_ok:
  assumes "table_ok bo"
  shows "table_ok (apply_change indexedRoot c bo) \<and> map_of (fst (apply_change indexedRoot c bo)) = change_map indexedRoot c (map_of (fst bo))"
proof (cases "change_path c = []")
  case False
  show ?thesis
  proof (cases c)
    case (DeletePath p)
    then show ?thesis using assms False
      by (cases bo) (auto simp: apply_change_def change_map_def table_ok_def delete_conv' fun_upd_idem split: if_splits)
  next
    case (UpsertFile f)
    have "ff_path (upserted indexedRoot f) = ff_path f" by (simp add: upserted_def)
    then show ?thesis using place_ok [OF assms, of "upserted indexedRoot f" "ff_path f"] False UpsertFile by (simp add: apply_change_def change_map_def)
  qed
qed (use assms in \<open>simp add: apply_change_def change_map_def\<close>)

lemma changes_ok:
  "table_ok bo \<Longrightarrow> table_ok (fold (apply_change indexedRoot) cs bo)
     \<and> map_of (fst (fold (apply_change indexedRoot) cs bo)) = fold (change_map indexedRoot) cs (map_of (fst bo))"
  by (induction cs arbitrary: bo) (simp_all add: change_ok)

lemma seeds_ok:
  "table_ok bo \<Longrightarrow> table_ok (fold (\<lambda>f bo. if ff_path f = [] then bo else place_path (ff_path f) f bo) fs bo)
     \<and> map_of (fst (fold (\<lambda>f bo. if ff_path f = [] then bo else place_path (ff_path f) f bo) fs bo))
         = fold (\<lambda>f m. if ff_path f = [] then m else m(ff_path f \<mapsto> f)) fs (map_of (fst bo))"
  by (induction fs arbitrary: bo) (simp_all add: place_ok)

lemma table_rows:
  assumes "table_ok (byPath, order)"
  shows "map ff_path (somes (map (map_of byPath) order)) = order
    \<and> map_of (map (\<lambda>f. (ff_path f, f)) (somes (map (map_of byPath) order))) = map_of byPath"
proof -
  define row where "row p = the (map_of byPath p)" for p
  have r: "map_of byPath p = Some (row p)" "ff_path (row p) = p" if "p \<in> set order" for p
    using that assms by (auto simp: table_ok_def row_def)
  have s: "somes (map (map_of byPath) ps) = map row ps" if "set ps \<subseteq> set order" for ps
    using that r(1) by (induction ps) auto
  have id: "map (\<lambda>p. ff_path (row p)) order = order" using r(2) by (simp add: map_idI)
  have "map_of (map (\<lambda>f. (ff_path f, f)) (map row order)) p = map_of byPath p" for p
  proof (cases "p \<in> set order")
    case True
    then have "(p, row p) \<in> set (map (\<lambda>f. (ff_path f, f)) (map row order))" using r(2) by force
    moreover have "distinct (map fst (map (\<lambda>f. (ff_path f, f)) (map row order)))"
      using assms id by (simp add: table_ok_def comp_def)
    ultimately show ?thesis using r(1) [OF True] by (simp only: map_of_is_SomeI)
  next
    case False
    then have "map_of byPath p = None" using assms by (auto simp: table_ok_def)
    moreover have "p \<notin> fst ` set (map (\<lambda>f. (ff_path f, f)) (map row order))" using False r(2) by force
    then have "map_of (map (\<lambda>f. (ff_path f, f)) (map row order)) p = None" by (simp only: map_of_eq_None_iff not_False_eq_True)
    ultimately show ?thesis by simp
  qed
  then show ?thesis using s [of order] id by (auto simp: comp_def)
qed

lemma merge_map:
  "map_of (map (\<lambda>f. (ff_path f, f)) (mergeFileQuickOpenChanges candidates changes indexedRoot))
     = fold (change_map indexedRoot) changes (file_map candidates)
   \<and> distinct (map ff_path (mergeFileQuickOpenChanges candidates changes indexedRoot))"
proof -
  define seeded where "seeded = fold (\<lambda>f bo. if ff_path f = [] then bo else place_path (ff_path f) f bo) candidates ([], [])"
  have t: "table_ok ([], [])" by (simp add: table_ok_def)
  obtain byPath order where bo: "fold (apply_change indexedRoot) changes seeded = (byPath, order)" by force
  have s: "table_ok seeded" "map_of (fst seeded) = file_map candidates" using seeds_ok [OF t] by (simp_all add: seeded_def file_map_def)
  have c: "table_ok (byPath, order)" "map_of byPath = fold (change_map indexedRoot) changes (file_map candidates)"
    using changes_ok [OF s(1), of indexedRoot changes] s(2) bo by simp_all
  have "mergeFileQuickOpenChanges candidates changes indexedRoot = somes (map (map_of byPath) order)"
    by (simp add: mergeFileQuickOpenChanges_def seeded_def [symmetric] bo)
  moreover have "distinct order" using c(1) by (simp add: table_ok_def)
  ultimately show ?thesis using table_rows [OF c(1)] c(2) by simp
qed

section \<open>The bound\<close>

lemma sorted_wrt_appendI: "sorted_wrt R xs \<Longrightarrow> sorted_wrt R ys \<Longrightarrow> (\<And>x y. x \<in> set xs \<Longrightarrow> y \<in> set ys \<Longrightarrow> R x y) \<Longrightarrow> sorted_wrt R (xs @ ys)"
  by (simp add: sorted_wrt_append)

lemma sorted_wrt_cut: "sorted_wrt R xs \<Longrightarrow> a \<in> set (take n xs) \<Longrightarrow> b \<in> set (drop n xs) \<Longrightarrow> R a b"
  using sorted_wrt_append [of R "take n xs" "drop n xs"] by simp

lemma ranked_sorted:
  fixes score :: "found_file \<Rightarrow> rat option"
  shows "sorted_wrt (\<lambda>a b. score b \<le> score a)
     (sort_key (\<lambda>f. - the (score f)) (filter (\<lambda>f. score f \<noteq> None) fs) @ filter (\<lambda>f. score f = None) fs)"
proof (rule sorted_wrt_appendI)
  define xs where "xs = sort_key (\<lambda>f. - the (score f)) (filter (\<lambda>f. score f \<noteq> None) fs)"
  have "sorted_wrt (\<lambda>a b. - the (score a) \<le> - the (score b)) xs"
    using sorted_sort_key [of "\<lambda>f. - the (score f)" "filter (\<lambda>f. score f \<noteq> None) fs"] by (simp add: sorted_map xs_def)
  then show "sorted_wrt (\<lambda>a b. score b \<le> score a) xs"
    by (rule sorted_wrt_mono_rel [rotated]) (auto simp: xs_def)
  show "sorted_wrt (\<lambda>a b. score b \<le> score a) (filter (\<lambda>f. score f = None) fs)"
    by (induction fs) auto
qed auto

lemma pruned:
  assumes "a \<in> set (rankAndPruneFileQuickOpenCandidates score limit files)" "b \<in> set (dedupeFileSearchResults files)"
    and "b \<notin> set (rankAndPruneFileQuickOpenCandidates score limit files)"
  shows "score b \<le> score a"
proof -
  define ds where "ds = dedupeFileSearchResults files"
  define full where "full = sort_key (\<lambda>f. - the (score f)) (filter (\<lambda>f. score f \<noteq> None) ds) @ filter (\<lambda>f. score f = None) ds"
  have "\<not> length ds \<le> limit" using assms by (auto simp: rankAndPruneFileQuickOpenCandidates_def Let_def ds_def)
  then have r: "rankAndPruneFileQuickOpenCandidates score limit files = take limit full"
    by (simp add: rankAndPruneFileQuickOpenCandidates_def Let_def ds_def full_def)
  have "b \<in> set full" using assms(2) by (auto simp: full_def ds_def)
  then have "b \<in> set (drop limit full)" using assms(3) r by (metis Un_iff append_take_drop_id set_append)
  moreover have "a \<in> set (take limit full)" using assms(1) r by simp
  ultimately show ?thesis using sorted_wrt_cut [OF ranked_sorted [of score ds, folded full_def]] by blast
qed

section \<open>The first screen\<close>

definition picks_ok :: "item_domain list \<Rightarrow> nat list \<Rightarrow> bool" where
  "picks_ok ds picked = (distinct picked \<and> set picked \<subseteq> {..< length ds} \<and> length picked \<le> 4)"

lemma pick_domain_ok: "picks_ok ds picked \<Longrightarrow> picks_ok ds (pick_domain ds d picked)"
proof -
  assume p: "picks_ok ds picked"
  show ?thesis
  proof (cases "filter (\<lambda>i. i \<notin> set picked) (domain_rows ds d)")
    case (Cons i rest)
    then have "i \<in> set (filter (\<lambda>i. i \<notin> set picked) (domain_rows ds d))" by simp
    then show ?thesis using p Cons by (auto simp: pick_domain_def picks_ok_def domain_rows_def searchRankWeights_def)
  qed (use p in \<open>simp add: pick_domain_def\<close>)
qed

lemma pick_round_ok: "picks_ok ds picked \<Longrightarrow> picks_ok ds (pick_round ds secondary picked)"
  unfolding pick_round_def by (induction secondary arbitrary: picked) (simp_all add: pick_domain_ok)

declare pick_secondary.simps [simp del]

lemma pick_secondary_ok: "picks_ok ds picked \<Longrightarrow> picks_ok ds (pick_secondary ds secondary picked)"
proof (induction ds secondary picked rule: pick_secondary.induct)
  case (1 ds secondary picked)
  then show ?case using pick_round_ok [of ds picked secondary] by (subst pick_secondary.simps) (simp add: Let_def)
qed

lemma targets_grow: "k < l \<Longrightarrow> l < 4 \<Longrightarrow> mix_target k < mix_target l"
  by (auto simp: mix_target_def searchRankWeights_def)

lemma moves_sorted: "length picked \<le> 4 \<Longrightarrow> sorted_wrt (\<lambda>a b. snd a < snd b) (mix_moves picked)"
proof -
  assume l: "length picked \<le> 4"
  have "sorted_wrt (\<lambda>a b. mix_target (fst a) < mix_target (fst b)) (enumerate 0 picked)"
    using l targets_grow by (auto simp: sorted_wrt_iff_nth_less nth_enumerate_eq)
  then have "sorted_wrt (\<lambda>a b. snd a < snd b) (map (\<lambda>(k, i). (i, mix_target k)) (enumerate 0 picked))"
    by (simp add: sorted_wrt_map split_beta)
  then show ?thesis unfolding mix_moves_def by (rule sorted_wrt_filter)
qed

lemma move_facts:
  assumes "(i, target) \<in> set (mix_moves picked)"
  shows "i \<in> set picked" "2 \<le> target" "target < 8" "target < i"
  using assms by (auto simp: mix_moves_def mix_target_def searchRankWeights_def in_set_enumerate_eq)

lemma moves_distinct: "distinct picked \<Longrightarrow> distinct (map fst (mix_moves picked))"
proof -
  assume d: "distinct picked"
  have "map fst (map (\<lambda>(k, i). (i, mix_target k)) (enumerate 0 picked)) = picked"
    by (simp add: comp_def split_beta)
  then show ?thesis unfolding mix_moves_def using d by (metis distinct_map_filter)
qed

definition put_moves :: "(nat \<times> nat) list \<Rightarrow> nat list \<Rightarrow> nat list" where
  "put_moves moves result = fold (\<lambda>(i, target) result. splice_at (min target (length result)) i result) moves result"

lemma splice_mset [simp]: "mset (splice_at n x xs) = add_mset x (mset xs)"
  using mset_append [of "take n xs" "drop n xs"] by (simp add: splice_at_def)

lemma splice_filter: "\<not> P x \<Longrightarrow> filter P (splice_at n x xs) = filter P xs"
  using filter_append [of P "take n xs" "drop n xs"] by (simp add: splice_at_def)

lemma splice_early: "p < n \<Longrightarrow> n \<le> length xs \<Longrightarrow> splice_at n x xs ! p = xs ! p"
  by (simp add: splice_at_def nth_append)

lemma splice_here: "n \<le> length xs \<Longrightarrow> splice_at n x xs ! n = x"
  by (simp add: splice_at_def nth_append)

lemma splice_length [simp]: "length (splice_at n x xs) = Suc (length xs)"
  by (simp add: splice_at_def)

lemma put_mset: "mset (put_moves moves result) = mset result + mset (map fst moves)"
  unfolding put_moves_def by (induction moves arbitrary: result) (auto simp: split_beta)

lemma put_filter: "(\<And>i. i \<in> fst ` set moves \<Longrightarrow> \<not> P i) \<Longrightarrow> filter P (put_moves moves result) = filter P result"
  unfolding put_moves_def by (induction moves arbitrary: result) (auto simp: split_beta splice_filter)

text \<open>What is in front of the next target stays; what is put in stays at or before its target.\<close>

lemma put_early:
  "(\<And>m. m \<in> set moves \<Longrightarrow> p < snd m) \<Longrightarrow> p < length result \<Longrightarrow> put_moves moves result ! p = result ! p"
  unfolding put_moves_def by (induction moves arbitrary: result) (auto simp: split_beta splice_early)

lemma put_targets:
  assumes "sorted_wrt (\<lambda>a b. snd a < snd b) moves" "(i, target) \<in> set moves"
  shows "\<exists>p \<le> target. p < length (put_moves moves result) \<and> put_moves moves result ! p = i"
  using assms
proof (induction moves arbitrary: result)
  case (Cons m moves)
  obtain j t where m: "m = (j, t)" by force
  define r1 where "r1 = splice_at (min t (length result)) j result"
  have u: "put_moves (m # moves) result = put_moves moves r1" by (simp add: put_moves_def m r1_def)
  show ?case
  proof (cases "(i, target) = m")
    case True
    have "put_moves moves r1 ! min t (length result) = r1 ! min t (length result)"
      by (rule put_early) (use Cons.prems(1) m in \<open>auto simp: r1_def min_less_iff_disj\<close>)
    moreover have "r1 ! min t (length result) = i" using True m by (simp add: r1_def splice_here)
    moreover have "min t (length result) < length (put_moves moves r1)"
      using arg_cong [OF put_mset [of moves r1], of size] by (simp add: r1_def)
    ultimately show ?thesis using True m u by (intro exI [of _ "min t (length result)"]) simp
  qed (use Cons u in auto)
qed simp

lemma sorted_wrt_kept: "sorted_wrt R (filter P xs) \<Longrightarrow> sorted_wrt (\<lambda>a b. P a \<and> P b \<longrightarrow> R a b) xs"
  by (induction xs) (auto split: if_splits)

definition mixed_ok :: "nat \<Rightarrow> nat list \<Rightarrow> bool" where
  "mixed_ok n ord = (mset ord = mset [0 ..< n] \<and> take 2 ord = take 2 [0 ..< n] \<and> sorted_wrt (\<lambda>a b. a < b \<or> a \<in> set (take 8 ord)) ord)"

lemma mixed_same: "mixed_ok n [0 ..< n]"
  by (auto simp: mixed_ok_def intro: sorted_wrt_mono_rel [OF _ sorted_wrt_upt])

lemma filter_parts: "mset (filter P xs) + mset (filter (\<lambda>x. \<not> P x) xs) = mset xs"
  by (induction xs) simp_all

lemma put_mixed:
  assumes "picks_ok ds picked"
  shows "mixed_ok (length ds) (put_moves (mix_moves picked) (filter (\<lambda>i. i \<notin> fst ` set (mix_moves picked)) [0 ..< length ds]))"
proof -
  define moves where "moves = mix_moves picked"
  define kept where "kept = filter (\<lambda>i. i \<notin> fst ` set moves) [0 ..< length ds]"
  define ord where "ord = put_moves moves kept"
  have d: "distinct (map fst moves)" using moves_distinct assms by (simp add: moves_def picks_ok_def)
  have s: "sorted_wrt (\<lambda>a b. snd a < snd b) moves" using moves_sorted assms by (simp add: moves_def picks_ok_def)
  have f: "2 \<le> snd m \<and> snd m < 8 \<and> snd m < fst m \<and> fst m < length ds" if "m \<in> set moves" for m
    using move_facts [of "fst m" "snd m" picked] that assms by (auto simp: moves_def picks_ok_def)
  have "mset (map fst moves) = mset (filter (\<lambda>i. i \<in> fst ` set moves) [0 ..< length ds])"
    using d f by (intro set_eq_iff_mset_eq_distinct [THEN iffD1]) (auto intro: distinct_filter)
  then have m: "mset ord = mset [0 ..< length ds]"
    using filter_parts [of "\<lambda>i. i \<in> fst ` set moves" "[0 ..< length ds]"] unfolding ord_def put_mset kept_def by (simp only: add.commute)
  have early: "ord ! p = p" if "p < 2" "moves \<noteq> []" for p
  proof -
    have n: "3 < length ds" using f [of "hd moves"] that(2) by (cases moves) auto
    have "ds \<noteq> []" using n by auto
    with n have "[0 ..< length ds] = 0 # 1 # [2 ..< length ds]"
      using upt_conv_Cons [of 0 "length ds"] upt_conv_Cons [of 1 "length ds"] by (auto simp: numeral_2_eq_2)
    moreover have "0 \<notin> fst ` set moves" "1 \<notin> fst ` set moves" using f by fastforce+
    ultimately have k: "kept = 0 # 1 # filter (\<lambda>i. i \<notin> fst ` set moves) [2 ..< length ds]" by (simp add: kept_def)
    have "ord ! p = kept ! p" unfolding ord_def by (rule put_early) (use f that(1) k in \<open>fastforce+\<close>)
    then show ?thesis using k that(1) by (auto simp: less_2_cases_iff)
  qed
  have len: "length ord = length ds" using arg_cong [OF m, of size] by simp
  have t: "take 2 ord = take 2 [0 ..< length ds]"
  proof (cases "moves = []")
    case False
    show ?thesis by (rule nth_equalityI) (use early [OF _ False] len in auto)
  qed (simp add: ord_def put_moves_def kept_def)
  have "filter (\<lambda>i. i \<notin> fst ` set moves) ord = kept"
    unfolding ord_def kept_def by (subst put_filter) auto
  moreover have "sorted_wrt (<) kept" unfolding kept_def by (rule sorted_wrt_filter) simp
  ultimately have w: "sorted_wrt (\<lambda>a b. a \<notin> fst ` set moves \<and> b \<notin> fst ` set moves \<longrightarrow> a < b) ord"
    using sorted_wrt_kept [of "(<)" "\<lambda>i. i \<notin> fst ` set moves" ord] by simp
  have "ord ! p < ord ! q \<or> ord ! p \<in> set (take 8 ord)" if "p < q" "q < length ord" for p q
  proof (cases "ord ! p \<notin> fst ` set moves \<and> ord ! q \<notin> fst ` set moves")
    case True
    then show ?thesis using w that by (auto simp: sorted_wrt_iff_nth_less)
  next
    case False
    then obtain r i where r: "r = p \<or> r = q" "i = ord ! r" "i \<in> fst ` set moves" by blast
    then obtain target where "(i, target) \<in> set moves" by auto
    then obtain p' where p': "p' \<le> target" "p' < length ord" "ord ! p' = i" "target < 8"
      using put_targets [OF s, of i target kept] f by (fastforce simp: ord_def)
    have "distinct ord" using m by (metis distinct_upt mset_eq_imp_distinct_iff)
    then have "p' = r" using p' r that nth_eq_iff_index_eq by (metis order_less_trans)
    then have "p < 8" using r(1) p' that by auto
    then show ?thesis using that by (auto simp: in_set_conv_nth intro!: exI [of _ p])
  qed
  then have "sorted_wrt (\<lambda>a b. a < b \<or> a \<in> set (take 8 ord)) ord" by (simp add: sorted_wrt_iff_nth_less)
  then show ?thesis using m t by (simp add: mixed_ok_def ord_def kept_def moves_def)
qed

lemma mix_mixed: "mixed_ok (length ds) (mix_order surface ds)"
proof -
  obtain primary secondary where d: "commandPaletteMixDomains surface = (primary, secondary)" by force
  have "picks_ok ds (pick_secondary ds secondary [])" by (rule pick_secondary_ok) (simp add: picks_ok_def)
  from put_mixed [OF this] show ?thesis
    by (simp add: mix_order_def d Let_def mixed_same put_moves_def)
qed

end
