(* ===== verification/Quick_Properties.thy ===== *)
theory Quick_Properties
  imports Quick_Stream Quick_Candidates
begin

text \<open>The properties of the search of the command palette, with concrete instances.\<close>

section \<open>Properties\<close>

text \<open>
  C36. The search accepts exactly the items in which every word of the query is a subsequence of one field, whatever
  the case of the letters: the greedy matcher misses no match.
\<close>

theorem fuzzy_search_complete:
  "fuzzySearchScore query texts \<noteq> None
     \<longleftrightarrow> query_words query = [] \<or> (\<forall>w \<in> set (query_words query). \<exists>v \<in> set texts. v \<noteq> [] \<and> subseq (js_lower w) (js_lower v))"
  by (rule search_iff)

text \<open>
  C37. A text that contains the query outranks every text over which it is only scattered, for queries of up to a
  thousand letters and texts of up to a million.
\<close>

theorem contiguous_outranks:
  assumes "fuzzy_needle query \<noteq> []" "length (fuzzy_needle query) \<le> 1000"
    and "sublist (fuzzy_needle query) (js_lower whole)" "length whole \<le> 1000000"
    and "\<not> sublist (fuzzy_needle query) (js_lower scattered)"
    and "fuzzySubsequenceScore query whole = Some x" "fuzzySubsequenceScore query scattered = Some y"
  shows "y < x"
proof -
  define k :: rat where "k = of_nat (length (fuzzy_needle query))"
  have "k \<le> 1000" "of_nat (length whole) \<le> (1000000 :: rat)" using assms(2,4) unfolding k_def by linarith+
  moreover have "30000 + 18 * k - 10 - of_nat (length whole) / 100 \<le> x"
    using contiguous_score [OF assms(3,1)] assms(6) by (simp add: k_def)
  moreover have "y \<le> 24 * k" using scattered_score [OF assms(5,7)] by (simp add: k_def)
  ultimately show ?thesis by simp
qed

text \<open>
  C38. The events of a search are read back exactly as the server wrote them, however the network cuts the text:
  between lines, inside a name or inside the data.
\<close>

theorem stream_read_back:
  assumes "concat pieces = concat (map sse_block evs)"
    and "\<And>e. e \<in> set evs \<Longrightarrow> sse_safe (fst e) \<and> sse_safe (snd e) \<and> parse (snd e) = Some (f e)"
  shows "sse_stream parse pieces createFileQuickOpenSseParser
    = (map (\<lambda>e. (if fst e = [] then ''message'' else fst e, f e)) evs, createFileQuickOpenSseParser, True)"
proof -
  define evs' where "evs' = map (\<lambda>e. (if fst e = [] then ''message'' else fst e, f e)) evs"
  have b: "CHR 0x0A \<notin> set (sp_buffer createFileQuickOpenSseParser)" by (simp add: createFileQuickOpenSseParser_def)
  obtain es r ok where s: "sse_stream parse pieces createFileQuickOpenSseParser = (es, r, ok)"
    by (cases "sse_stream parse pieces createFileQuickOpenSseParser") auto
  have "sse_feed parse (concat pieces) createFileQuickOpenSseParser = (evs', createFileQuickOpenSseParser, True)"
    using stream_written [of evs parse f] assms by (simp add: evs'_def)
  then have "sse_stream parse [concat pieces] createFileQuickOpenSseParser = (evs', createFileQuickOpenSseParser, True)"
    by (simp add: sse_finish_def sse_dispatch_def createFileQuickOpenSseParser_def)
  then show ?thesis using stream_cut [OF b s] s by (auto simp: evs'_def)
qed

text \<open>
  C39. Applying the changes of an index to the rows refines the update of the map from paths to rows: an upsert
  replaces or adds the row of its path, a delete removes it, and no path is shown twice.
\<close>

theorem changes_refine_map:
  "map_of (map (\<lambda>f. (ff_path f, f)) (mergeFileQuickOpenChanges candidates changes indexedRoot))
     = fold (change_map indexedRoot) changes (file_map candidates)
   \<and> distinct (map ff_path (mergeFileQuickOpenChanges candidates changes indexedRoot))"
  by (rule merge_map)

text \<open>
  C40. Mixing the first screen loses and repeats no row, never displaces the two best ones, and whatever it puts in
  front of a better row is on the first screen.
\<close>

theorem mix_keeps_ranking:
  "\<exists>order. commandPaletteMixFirstScreenResults surface query domain_of ranked = map ((!) ranked) order
     \<and> mset order = mset [0 ..< length ranked] \<and> take 2 order = take 2 [0 ..< length ranked]
     \<and> sorted_wrt (\<lambda>a b. a < b \<or> a \<in> set (take 8 order)) order"
proof (cases "js_trim query = []")
  case True
  then show ?thesis using mixed_same [of "length ranked"]
    by (intro exI [of _ "[0 ..< length ranked]"]) (simp add: commandPaletteMixFirstScreenResults_def mixed_ok_def map_nth)
next
  case False
  then show ?thesis using mix_mixed [of "map domain_of ranked" surface]
    by (intro exI [of _ "mix_order surface (map domain_of ranked)"]) (simp add: commandPaletteMixFirstScreenResults_def mixed_ok_def)
qed

text \<open>A row of a secondary domain that stood on the first screen can be pushed off it by the rows put in before it.\<close>

definition mixed_rows :: "item_domain list" where
  "mixed_rows = replicate 6 FileRow @ [SettingRow] @ replicate 3 FileRow @ [PaneRow, CommandRow]"

theorem mix_pushes_setting_off:
  "SettingRow \<in> set (take 8 mixed_rows) \<and> SettingRow \<notin> set (take 8 (commandPaletteMixFirstScreenResults FilesSurface ''q'' id mixed_rows))"
  by code_simp

text \<open>The bound on the rows drops none that matches better than one it keeps.\<close>

theorem prune_keeps_best:
  assumes "a \<in> set (rankAndPruneFileQuickOpenCandidates score limit files)" "b \<in> set (dedupeFileSearchResults files)"
    and "b \<notin> set (rankAndPruneFileQuickOpenCandidates score limit files)"
  shows "score b \<le> score a"
  by (rule pruned [OF assms])

section \<open>Witnesses\<close>

lemma demo_search: "query_words ''AB t'' = [''AB'', ''t''] \<and> subseq (js_lower ''AB'') (js_lower ''cab/t'') \<and> subseq (js_lower ''t'') (js_lower ''cab/t'')"
  by code_simp

theorem fuzzy_search_complete_witness: "fuzzySearchScore ''AB t'' [''cab/t''] \<noteq> None"
  using fuzzy_search_complete [of "''AB t''" "[''cab/t'']"] demo_search by simp

lemma demo_scores:
  "fuzzySubsequenceScore ''ab'' ''cab'' = Some (3002599 / 100) \<and> fuzzySubsequenceScore ''ab'' ''xa/b'' = Some (1079 / 50)
   \<and> fuzzy_needle ''ab'' = ''ab'' \<and> sublist ''ab'' (js_lower ''cab'') \<and> \<not> sublist ''ab'' (js_lower ''xa/b'')"
  by code_simp

theorem contiguous_outranks_witness: "(1079 / 50 :: rat) < 3002599 / 100"
  using contiguous_outranks [of "''ab''" "''cab''" "''xa/b''"] demo_scores by simp

lemma demo_cut: "concat [take 9 (sse_block (''chunk'', ''7'')), drop 9 (sse_block (''chunk'', ''7''))] = concat (map sse_block [(''chunk'', ''7'')])"
  by simp

theorem stream_read_back_witness:
  "fst (sse_stream js_Number [take 9 (sse_block (''chunk'', ''7'')), drop 9 (sse_block (''chunk'', ''7''))] createFileQuickOpenSseParser) = [(''chunk'', 7)]"
proof -
  have "sse_safe ''chunk'' \<and> sse_safe ''7'' \<and> js_Number ''7'' = Some 7" by code_simp
  then show ?thesis using stream_read_back [OF demo_cut, of js_Number "\<lambda>e. 7"] by simp
qed

theorem prune_keeps_best_witness:
  "\<exists>a b. a \<in> set (rankAndPruneFileQuickOpenCandidates (\<lambda>f. ff_size f) 1 [b, a]) \<and> ff_size b \<le> ff_size a"
proof -
  define f where "f p n = \<lparr>ff_path = p, ff_name = [], ff_relative = [], ff_kind = [], ff_size = Some n, ff_mtime = None, ff_realpath = [], ff_uploaded = False, ff_root = [], ff_staleQuery = [], ff_stale = False\<rparr>"
    for p :: string and n :: rat
  have "f ''/a'' 2 \<in> set (rankAndPruneFileQuickOpenCandidates (\<lambda>f. ff_size f) 1 [f ''/b'' 1, f ''/a'' 2])"
      "f ''/b'' 1 \<in> set (dedupeFileSearchResults [f ''/b'' 1, f ''/a'' 2])"
      "f ''/b'' 1 \<notin> set (rankAndPruneFileQuickOpenCandidates (\<lambda>f. ff_size f) 1 [f ''/b'' 1, f ''/a'' 2])"
    unfolding f_def by code_simp+
  then show ?thesis using prune_keeps_best by blast
qed

end
