(* ===== verification/Toasts.thy ===== *)
theory Toasts
  imports Tab_Model
begin

text \<open>
  The transient notifications (\<open>20_layout_state.js\<close>): the policy of the event types, the toasts with their removal
  timers, pauses and containers, coalescing, and the notifications of the browser.

  A toast is the record of \<open>toastRecords\<close> together with the data of its node; \<open>ts_attached\<close> tells whether the node is
  in its container, and the order of the records is the order of the nodes. Times are arguments; a timer that fires
  and a pointer that enters are steps.
\<close>

section \<open>Policy\<close>

datatype notification_event =
    SessionAttention | AgentAttention | AgentDone | TerminalConnection | ChatMessage | YoagentJob | WatchedPullRequest | UpdateEvent
  | IndexCoverage | StatsResolution | StartupTip | NotificationTest | UploadResult | FileTransfer | FileOpen | YoloRules | PreviewOpen

datatype notification_target = TargetsPayload | TargetsChat | TargetsFinder | TargetsPreferences

record notification_policy =
  np_pane :: bool
  np_target :: notification_target
  np_system :: bool
  np_suppress :: bool
  np_coalesce :: bool
  np_persistent :: bool
  np_dismissOnly :: bool
  np_deliver :: bool

definition policy :: "bool \<Rightarrow> notification_target \<Rightarrow> bool \<Rightarrow> bool \<Rightarrow> bool \<Rightarrow> notification_policy" where
  "policy pane target system suppress coalesce =
     \<lparr>np_pane = pane, np_target = target, np_system = system, np_suppress = suppress, np_coalesce = coalesce,
      np_persistent = False, np_dismissOnly = False, np_deliver = False\<rparr>"

definition notificationEventDefinitions :: "notification_event \<Rightarrow> notification_policy" where
  "notificationEventDefinitions e =
     (case e of
        SessionAttention \<Rightarrow> policy False TargetsPayload True True True
      | AgentAttention \<Rightarrow> (policy False TargetsPayload True True True)\<lparr>np_persistent := True\<rparr>
      | AgentDone \<Rightarrow> policy False TargetsPayload True True True
      | TerminalConnection \<Rightarrow> policy False TargetsPayload False True True
      | ChatMessage \<Rightarrow> policy False TargetsChat True True True
      | YoagentJob \<Rightarrow> policy False TargetsPayload True True True
      | WatchedPullRequest \<Rightarrow> policy False TargetsPayload True False True
      | UpdateEvent \<Rightarrow> policy False TargetsPayload False False True
      | IndexCoverage \<Rightarrow> (policy False TargetsPayload False False True)\<lparr>np_dismissOnly := True\<rparr>
      | StatsResolution \<Rightarrow> policy False TargetsPayload False False True
      | StartupTip \<Rightarrow> policy False TargetsPayload False False True
      | NotificationTest \<Rightarrow> policy False TargetsPayload True False True
      | UploadResult \<Rightarrow> (policy True TargetsPayload False False False)\<lparr>np_deliver := True\<rparr>
      | FileTransfer \<Rightarrow> policy True TargetsPayload False False False
      | FileOpen \<Rightarrow> policy True TargetsFinder False False False
      | YoloRules \<Rightarrow> policy True TargetsPreferences False False False
      | PreviewOpen \<Rightarrow> policy True TargetsPayload False False False)"

definition event_name :: "notification_event \<Rightarrow> string" where
  "event_name e =
     (case e of
        SessionAttention \<Rightarrow> ''sessionAttention'' | AgentAttention \<Rightarrow> ''agentAttention'' | AgentDone \<Rightarrow> ''agentDone''
      | TerminalConnection \<Rightarrow> ''terminalConnection'' | ChatMessage \<Rightarrow> ''chatMessage'' | YoagentJob \<Rightarrow> ''yoagentJob''
      | WatchedPullRequest \<Rightarrow> ''watchedPullRequest'' | UpdateEvent \<Rightarrow> ''update'' | IndexCoverage \<Rightarrow> ''indexCoverage''
      | StatsResolution \<Rightarrow> ''statsResolution'' | StartupTip \<Rightarrow> ''startupTip'' | NotificationTest \<Rightarrow> ''notificationTest''
      | UploadResult \<Rightarrow> ''uploadResult'' | FileTransfer \<Rightarrow> ''fileTransfer'' | FileOpen \<Rightarrow> ''fileOpen''
      | YoloRules \<Rightarrow> ''yoloRules'' | PreviewOpen \<Rightarrow> ''previewOpen'')"

record toast_notice =
  nt_session :: string
  nt_targetItem :: string
  nt_item :: string
  nt_key :: string
  nt_coalesceKey :: string
  nt_inApp :: bool
  nt_system :: bool
  nt_countdown :: "int option"
  nt_persistent :: bool
  nt_lifecycle :: "string list"

definition first_text :: "string \<Rightarrow> string \<Rightarrow> string" where
  "first_text a b = (if a = [] then b else a)"

definition notificationEventTarget :: "notification_policy \<Rightarrow> toast_notice \<Rightarrow> string" where
  "notificationEventTarget d n =
     (case np_target d of
        TargetsChat \<Rightarrow> chatItemId | TargetsFinder \<Rightarrow> finderItemId | TargetsPreferences \<Rightarrow> prefsItemId
      | TargetsPayload \<Rightarrow> js_trim (first_text (nt_targetItem n) (first_text (nt_session n) (nt_item n))))"

definition notificationEventKey :: "notification_event \<Rightarrow> notification_policy \<Rightarrow> string \<Rightarrow> toast_notice \<Rightarrow> string" where
  "notificationEventKey e d target n =
     (if nt_coalesceKey n \<noteq> [] then nt_coalesceKey n
      else if \<not> np_coalesce d then []
      else event_name e @ '':'' @ first_text target (nt_key n))"

section \<open>State\<close>

record toast =
  ts_event :: string
  ts_container :: string
  ts_target :: string
  ts_session :: string
  ts_kind :: string
  ts_key :: string
  ts_lifecycle :: "string list"
  ts_attached :: bool
  ts_kept :: bool
  ts_persistent :: bool
  ts_pointer :: bool
  ts_focus :: bool
  ts_paused :: bool
  ts_remaining :: int
  ts_startedAt :: int
  ts_timer :: bool

record browser_note =
  bn_id :: nat
  bn_target :: string
  bn_lifecycle :: "string list"

record toast_state =
  tt_toasts :: "(nat \<times> toast) list"
  tt_sequence :: nat
  tt_browser :: "browser_note list"
  tt_sent :: nat

text \<open>What the page shows: the panes whose tab is active, the focus, the panes with a stack of their own.\<close>

record toast_page =
  tg_visible :: bool
  tg_activeTabs :: "string list"
  tg_panel :: string
  tg_terminal :: string
  tg_stacks :: "string list"
  tg_sessions :: "string list"
  tg_stack :: string
  tg_alerts :: string
  tg_uploads :: "string list"
  tg_inApp :: bool
  tg_system :: bool
  tg_permitted :: bool
  tg_duration :: int

definition toast_init :: toast_state where
  "toast_init = \<lparr>tt_toasts = [], tt_sequence = 0, tt_browser = [], tt_sent = 0\<rparr>"

definition notificationTargetIsFocused :: "toast_page \<Rightarrow> string \<Rightarrow> bool" where
  "notificationTargetIsFocused g item =
     (let target = js_trim item
      in target \<noteq> [] \<and> tg_visible g \<and> target \<in> set (tg_activeTabs g) \<and> (tg_panel g = target \<or> tg_terminal g = target))"

definition displayToastContainer :: "toast_page \<Rightarrow> string \<Rightarrow> string" where
  "displayToastContainer g session =
     (case filter (\<lambda>i. i \<noteq> [] \<and> i \<in> set (tg_stacks g)) (session # tg_panel g # tg_sessions g) of
        i # _ \<Rightarrow> ''panel-toasts-'' @ i
      | [] \<Rightarrow> first_text (tg_stack g) (tg_alerts g))"

definition notificationEventContainer :: "toast_page \<Rightarrow> notification_policy \<Rightarrow> string \<Rightarrow> string" where
  "notificationEventContainer g d target = (if np_pane d then displayToastContainer g target else tg_alerts g)"

definition notificationDeliveryEnabled :: "toast_page \<Rightarrow> bool" where
  "notificationDeliveryEnabled g = (tg_inApp g \<or> tg_system g)"

section \<open>Removal\<close>

definition modToast :: "nat \<Rightarrow> (toast \<Rightarrow> toast) \<Rightarrow> toast_state \<Rightarrow> toast_state" where
  "modToast i f s = s\<lparr>tt_toasts := map (\<lambda>(j, t). (j, if j = i then f t else t)) (tt_toasts s)\<rparr>"

definition removeAttentionAlert :: "nat \<Rightarrow> toast_state \<Rightarrow> toast_state" where
  "removeAttentionAlert i s = s\<lparr>tt_toasts := AList.delete i (tt_toasts s)\<rparr>"

definition removeToasts :: "(toast \<Rightarrow> bool) \<Rightarrow> toast_state \<Rightarrow> toast_state" where
  "removeToasts f s = fold (\<lambda>(i, t) s. if f t then removeAttentionAlert i s else s) (tt_toasts s) s"

definition dismissCoalescedToast :: "string \<Rightarrow> toast_state \<Rightarrow> toast_state" where
  "dismissCoalescedToast key s = (if key = [] then s else removeToasts (\<lambda>t. ts_key t = key) s)"

text \<open>The browser closes what it is told to close; the toasts of a kind only, when one is given.\<close>

definition dismissNotificationsForTarget :: "string \<Rightarrow> string \<Rightarrow> toast_state \<Rightarrow> toast_state" where
  "dismissNotificationsForTarget item kind s =
     (let target = js_trim item
      in if target = [] then s
         else (removeToasts (\<lambda>t. (ts_target t = target \<or> ts_session t = target) \<and> (kind = [] \<or> ts_kind t = kind)) s)
                \<lparr>tt_browser := filter (\<lambda>b. bn_target b \<noteq> target) (tt_browser s)\<rparr>)"

definition notificationLifecycleKeys :: "string list \<Rightarrow> string list" where
  "notificationLifecycleKeys values = dedupe (filter (\<lambda>k. k \<noteq> []) (map js_trim values))"

definition notificationLifecycleKeysIntersect :: "string list \<Rightarrow> string list \<Rightarrow> bool" where
  "notificationLifecycleKeysIntersect left right = list_ex (\<lambda>k. k \<in> set right) left"

text \<open>Only the notifications with a target are known to the client.\<close>

definition dismissNotificationsForLifecycleKeys :: "string list \<Rightarrow> toast_state \<Rightarrow> toast_state" where
  "dismissNotificationsForLifecycleKeys keys s =
     (let requested = notificationLifecycleKeys keys
      in if requested = [] then s
         else (removeToasts (\<lambda>t. notificationLifecycleKeysIntersect (ts_lifecycle t) requested) s)
                \<lparr>tt_browser := filter (\<lambda>b. bn_target b = [] \<or> \<not> notificationLifecycleKeysIntersect (bn_lifecycle b) requested) (tt_browser s)\<rparr>)"

section \<open>Timers\<close>

definition scheduleToastRemoval :: "int \<Rightarrow> nat \<Rightarrow> toast \<Rightarrow> int \<Rightarrow> toast_state \<Rightarrow> toast_state" where
  "scheduleToastRemoval now i node remaining s =
     (let delay = max 1 remaining; armed = (\<lambda>t. t\<lparr>ts_remaining := delay, ts_startedAt := now, ts_timer := True\<rparr>)
      in (case map_of (tt_toasts s) i of
            Some t \<Rightarrow> modToast i armed s
          | None \<Rightarrow> s\<lparr>tt_toasts := tt_toasts s @ [(i, armed (node\<lparr>ts_attached := False, ts_lifecycle := []\<rparr>))]\<rparr>))"

datatype pause_reason = ByPointer | ByFocus

definition set_reason :: "pause_reason \<Rightarrow> bool \<Rightarrow> toast \<Rightarrow> toast" where
  "set_reason r b t = (case r of ByPointer \<Rightarrow> t\<lparr>ts_pointer := b\<rparr> | ByFocus \<Rightarrow> t\<lparr>ts_focus := b\<rparr>)"

definition pauseToastRemoval :: "int \<Rightarrow> nat \<Rightarrow> pause_reason \<Rightarrow> toast_state \<Rightarrow> toast_state" where
  "pauseToastRemoval now i r s =
     (case map_of (tt_toasts s) i of
        None \<Rightarrow> s
      | Some t \<Rightarrow>
          if ts_kept t then s
          else if ts_paused t then modToast i (set_reason r True) s
          else modToast i (\<lambda>t. (set_reason r True t)
                 \<lparr>ts_remaining := max 1 (ts_remaining t - max 0 (now - ts_startedAt t)), ts_timer := False, ts_paused := True\<rparr>) s)"

definition resumeToastRemoval :: "int \<Rightarrow> nat \<Rightarrow> pause_reason \<Rightarrow> toast_state \<Rightarrow> toast_state" where
  "resumeToastRemoval now i r s =
     (case map_of (tt_toasts s) i of
        None \<Rightarrow> s
      | Some t \<Rightarrow>
          if ts_kept t then s
          else
            let u = set_reason r False t; s1 = modToast i (set_reason r False) s
            in if ts_pointer u \<or> ts_focus u \<or> \<not> ts_paused u then s1
               else scheduleToastRemoval now i u (ts_remaining u) (modToast i (\<lambda>t. t\<lparr>ts_paused := False\<rparr>) s1))"

definition keepToast :: "nat \<Rightarrow> toast_state \<Rightarrow> toast_state" where
  "keepToast i s = modToast i (\<lambda>t. t\<lparr>ts_kept := True, ts_timer := False\<rparr>) s"

section \<open>Showing\<close>

text \<open>
  The children of a container: the panel of a session has the node of its upload results first, which has neither an
  alert id nor the mark of a persistent toast.
\<close>

datatype toast_child = UploadNode | ToastNode nat bool

fun child_id :: "toast_child \<Rightarrow> nat" where
  "child_id UploadNode = 0"
| "child_id (ToastNode i p) = i"

fun child_persistent :: "toast_child \<Rightarrow> bool" where
  "child_persistent UploadNode = False"
| "child_persistent (ToastNode i p) = p"

definition toast_children :: "string \<Rightarrow> toast_state \<Rightarrow> (nat \<times> toast) list" where
  "toast_children c s = filter (\<lambda>(i, t). ts_attached t \<and> ts_container t = c) (tt_toasts s)"

definition container_children :: "string list \<Rightarrow> string \<Rightarrow> toast_state \<Rightarrow> toast_child list" where
  "container_children uploads c s =
     (if c \<in> set uploads then [UploadNode] else []) @ map (\<lambda>(i, t). ToastNode i (ts_persistent t)) (toast_children c s)"

text \<open>A container holds five children: the first one that is not persistent is told to go, until five are left.\<close>

partial_function (option) evictToasts :: "string list \<Rightarrow> string \<Rightarrow> toast_state \<Rightarrow> toast_state option" where
  "evictToasts uploads c s =
     (if length (container_children uploads c s) \<le> 5 then Some s
      else case find (\<lambda>n. \<not> child_persistent n) (container_children uploads c s) of
             None \<Rightarrow> Some s
           | Some n \<Rightarrow> evictToasts uploads c (removeAttentionAlert (child_id n) s))"

declare evictToasts.simps [code]

definition new_toast :: "toast_page \<Rightarrow> string \<Rightarrow> string \<Rightarrow> string list \<Rightarrow> bool \<Rightarrow> toast" where
  "new_toast g c target lifecycle persistent =
     \<lparr>ts_event = [], ts_container = c, ts_target = target, ts_session = [], ts_kind = [], ts_key = [],
      ts_lifecycle = notificationLifecycleKeys lifecycle, ts_attached = True, ts_kept = persistent, ts_persistent = persistent,
      ts_pointer = False, ts_focus = False, ts_paused = False, ts_remaining = tg_duration g, ts_startedAt = 0, ts_timer = False\<rparr>"

definition toast_time :: "toast_page \<Rightarrow> int option \<Rightarrow> int" where
  "toast_time g countdown = (case countdown of Some c \<Rightarrow> if c = 0 then tg_duration g else c | None \<Rightarrow> tg_duration g)"

text \<open>The first result is \<open>None\<close> when the loop over the children never ends.\<close>

definition showToast :: "int \<Rightarrow> toast_page \<Rightarrow> string \<Rightarrow> string \<Rightarrow> int option \<Rightarrow> bool \<Rightarrow> string list \<Rightarrow> toast_state \<Rightarrow> (toast_state \<times> nat option) option" where
  "showToast now g container item countdown persistent lifecycle s =
     (let targetItem = js_trim item; c = first_text container (tg_alerts g)
      in if targetItem \<noteq> [] \<and> notificationTargetIsFocused g targetItem then Some (dismissNotificationsForTarget targetItem [] s, None)
         else if c = [] then Some (s, None)
         else
           let i = Suc (tt_sequence s); node = new_toast g c targetItem lifecycle persistent
           in case evictToasts (tg_uploads g) c (s\<lparr>tt_sequence := i, tt_toasts := tt_toasts s @ [(i, node)]\<rparr>) of
                None \<Rightarrow> None
              | Some s1 \<Rightarrow> Some (if persistent then s1 else scheduleToastRemoval now i node (toast_time g countdown) s1, Some i))"

definition sendBrowserNotification :: "toast_page \<Rightarrow> string \<Rightarrow> string list \<Rightarrow> toast_state \<Rightarrow> toast_state" where
  "sendBrowserNotification g target lifecycle s =
     (if target \<noteq> [] \<and> notificationTargetIsFocused g target then s
      else s\<lparr>tt_browser := tt_browser s @ [\<lparr>bn_id = Suc (tt_sent s), bn_target = target, bn_lifecycle = notificationLifecycleKeys lifecycle\<rparr>],
             tt_sent := Suc (tt_sent s)\<rparr>)"

definition agentAttentionCountdown :: int where "agentAttentionCountdown = 4 * 60 * 60 * 1000"

definition note_countdown :: "notification_policy \<Rightarrow> toast_notice \<Rightarrow> int option" where
  "note_countdown d n =
     (if np_persistent d then Some (case nt_countdown n of Some c \<Rightarrow> if c = 0 then agentAttentionCountdown else c | None \<Rightarrow> agentAttentionCountdown)
      else nt_countdown n)"

text \<open>The node gets its event, target and key when it is back. An event with a delivery of its own leaves no toast here.\<close>

definition mark_toast :: "notification_event \<Rightarrow> string \<Rightarrow> string \<Rightarrow> nat option \<Rightarrow> toast_state \<Rightarrow> toast_state" where
  "mark_toast e target key shown s =
     (case shown of
        Some i \<Rightarrow> modToast i (\<lambda>t. t\<lparr>ts_event := event_name e, ts_target := first_text target (ts_target t), ts_key := key\<rparr>) s
      | None \<Rightarrow> s)"

definition emitNotification :: "int \<Rightarrow> toast_page \<Rightarrow> notification_event \<Rightarrow> toast_notice \<Rightarrow> toast_state \<Rightarrow> (toast_state \<times> nat option) option" where
  "emitNotification now g e n s =
     (let d = notificationEventDefinitions e; target = notificationEventTarget d n; key = notificationEventKey e d target n;
          targetItem = (if np_suppress d then target else [])
      in if np_deliver d then Some (s, None)
         else if targetItem \<noteq> [] \<and> notificationTargetIsFocused g targetItem then Some (dismissNotificationsForTarget targetItem [] s, None)
         else
           case (if nt_inApp n \<and> tg_inApp g
                 then showToast now g (notificationEventContainer g d target) targetItem (note_countdown d n) (np_dismissOnly d \<or> nt_persistent n)
                        (nt_lifecycle n) (dismissCoalescedToast key s)
                 else Some (s, None)) of
             None \<Rightarrow> None
           | Some (s1, shown) \<Rightarrow>
               let s2 = mark_toast e target key shown s1
               in Some (if np_system d \<and> nt_system n \<and> tg_system g \<and> tg_permitted g
                        then sendBrowserNotification g (js_trim (first_text targetItem (nt_session n))) (nt_lifecycle n) s2 else s2, shown))"

section \<open>Producers\<close>

text \<open>Some producers tag the node with a session and a kind, which decide who dismisses it.\<close>

definition emitTagged :: "int \<Rightarrow> toast_page \<Rightarrow> notification_event \<Rightarrow> toast_notice \<Rightarrow> string \<Rightarrow> string \<Rightarrow> toast_state \<Rightarrow> toast_state option" where
  "emitTagged now g e n session kind s =
     (case emitNotification now g e n s of
        None \<Rightarrow> None
      | Some (s1, Some i) \<Rightarrow> Some (modToast i (\<lambda>t. t\<lparr>ts_session := session, ts_kind := kind\<rparr>) s1)
      | Some (s1, None) \<Rightarrow> Some s1)"

definition plain_note :: "string \<Rightarrow> string \<Rightarrow> toast_notice" where
  "plain_note session coalesce =
     \<lparr>nt_session = session, nt_targetItem = [], nt_item = [], nt_key = [], nt_coalesceKey = coalesce, nt_inApp = True, nt_system = True,
      nt_countdown = None, nt_persistent = False, nt_lifecycle = []\<rparr>"

definition showAttentionAlert :: "int \<Rightarrow> toast_page \<Rightarrow> string \<Rightarrow> toast_state \<Rightarrow> toast_state option" where
  "showAttentionAlert now g session s =
     emitTagged now g SessionAttention ((plain_note session (''session-attention:'' @ session))\<lparr>nt_system := False\<rparr>) session ''attention'' s"

definition dismissAttentionAlertsForSession :: "string \<Rightarrow> toast_state \<Rightarrow> toast_state" where
  "dismissAttentionAlertsForSession session s = dismissNotificationsForTarget session ''attention'' s"

definition dismissTerminalConnectionToasts :: "string \<Rightarrow> toast_state \<Rightarrow> toast_state" where
  "dismissTerminalConnectionToasts session s = dismissNotificationsForTarget session ''terminal-connection'' s"

definition showTerminalConnectionToast :: "int \<Rightarrow> toast_page \<Rightarrow> string \<Rightarrow> int \<Rightarrow> toast_state \<Rightarrow> toast_state option" where
  "showTerminalConnectionToast now g session countdown s =
     emitTagged now g TerminalConnection ((plain_note session (''terminal-connection:'' @ session))\<lparr>nt_countdown := Some countdown\<rparr>)
       session ''terminal-connection'' (dismissTerminalConnectionToasts session s)"

definition showFileTransferError :: "int \<Rightarrow> toast_page \<Rightarrow> string \<Rightarrow> string \<Rightarrow> toast_state \<Rightarrow> toast_state option" where
  "showFileTransferError now g session item s =
     map_option fst (emitNotification now g FileTransfer
       ((plain_note session [])\<lparr>nt_item := first_text item (first_text (tg_panel g) finderItemId), nt_countdown := Some 20000\<rparr>) s)"

section \<open>Steps\<close>

datatype toast_event =
    Emitted toast_page notification_event toast_notice
  | AttentionShown toast_page string
  | ConnectionShown toast_page string int
  | TransferFailed toast_page string string
  | ToastTimer nat
  | PointerIn nat pause_reason
  | PointerOut nat pause_reason
  | KeepClicked nat
  | CloseClicked nat
  | TargetOpened string string
  | LifecycleEnded "string list"
  | PanelRemoved string
  | BrowserClosed nat

text \<open>The nodes of a panel that is taken away leave the page, their records and timers stay.\<close>

fun toast_do :: "int \<Rightarrow> toast_event \<Rightarrow> toast_state \<Rightarrow> toast_state option" where
  "toast_do now (Emitted g e n) s = map_option fst (emitNotification now g e n s)"
| "toast_do now (AttentionShown g session) s = showAttentionAlert now g session s"
| "toast_do now (ConnectionShown g session countdown) s = showTerminalConnectionToast now g session countdown s"
| "toast_do now (TransferFailed g session item) s = showFileTransferError now g session item s"
| "toast_do now (ToastTimer i) s = Some (removeAttentionAlert i s)"
| "toast_do now (PointerIn i r) s = Some (pauseToastRemoval now i r s)"
| "toast_do now (PointerOut i r) s = Some (resumeToastRemoval now i r s)"
| "toast_do now (KeepClicked i) s = Some (keepToast i s)"
| "toast_do now (CloseClicked i) s = Some (removeAttentionAlert i s)"
| "toast_do now (TargetOpened item kind) s = Some (dismissNotificationsForTarget item kind s)"
| "toast_do now (LifecycleEnded keys) s = Some (dismissNotificationsForLifecycleKeys keys s)"
| "toast_do now (PanelRemoved c) s =
     Some (s\<lparr>tt_toasts := map (\<lambda>(i, t). (i, if ts_container t = c then t\<lparr>ts_attached := False\<rparr> else t)) (tt_toasts s)\<rparr>)"
| "toast_do now (BrowserClosed n) s = Some (s\<lparr>tt_browser := filter (\<lambda>b. bn_id b \<noteq> n) (tt_browser s)\<rparr>)"

text \<open>A timer fires while it runs, and the user reaches the toasts that are on the page.\<close>

definition on_page :: "nat \<Rightarrow> toast_state \<Rightarrow> bool" where
  "on_page i s = (case map_of (tt_toasts s) i of Some t \<Rightarrow> ts_attached t | None \<Rightarrow> False)"

fun toast_possible :: "toast_event \<Rightarrow> toast_state \<Rightarrow> bool" where
  "toast_possible (ToastTimer i) s = (case map_of (tt_toasts s) i of Some t \<Rightarrow> ts_timer t | None \<Rightarrow> False)"
| "toast_possible (PointerIn i r) s = on_page i s"
| "toast_possible (PointerOut i r) s = on_page i s"
| "toast_possible (KeepClicked i) s = on_page i s"
| "toast_possible (CloseClicked i) s = on_page i s"
| "toast_possible _ s = True"

inductive toast_step :: "toast_state \<Rightarrow> toast_state \<Rightarrow> bool" where
  toast_event: "toast_possible ev s \<Longrightarrow> toast_do now ev s = Some t \<Longrightarrow> toast_step s t"

inductive_cases toast_stepE: "toast_step s t"

inductive toast_reach :: "toast_state \<Rightarrow> bool" where
  start: "toast_reach toast_init"
| more: "toast_reach s \<Longrightarrow> toast_step s t \<Longrightarrow> toast_reach t"

end
