(* ===== verification/Toast_Lemmas.thy ===== *)
theory Toast_Lemmas
  imports Toasts
begin

text \<open>
  The toasts as a store: what removing and changing records does, when the loop that keeps a container at five children
  ends and what it leaves, and the invariant of the toasts.
\<close>

section \<open>Removing and changing\<close>

definition keep_toasts :: "(nat \<Rightarrow> bool) \<Rightarrow> toast_state \<Rightarrow> toast_state" where
  "keep_toasts P s = s\<lparr>tt_toasts := filter (\<lambda>x. P (fst x)) (tt_toasts s)\<rparr>"

lemma keep_toasts_simps [simp]:
  "tt_sequence (keep_toasts P s) = tt_sequence s" "tt_browser (keep_toasts P s) = tt_browser s"
  "tt_sent (keep_toasts P s) = tt_sent s"
  by (simp_all add: keep_toasts_def)

lemma keep_keep: "keep_toasts P (keep_toasts Q s) = keep_toasts (\<lambda>i. Q i \<and> P i) s"
  by (simp add: keep_toasts_def)

lemma keep_all [simp]: "keep_toasts (\<lambda>i. True) s = s"
  by (simp add: keep_toasts_def)

lemma remove_keep: "removeAttentionAlert i s = keep_toasts (\<lambda>j. j \<noteq> i) s"
  by (simp add: removeAttentionAlert_def keep_toasts_def AList.delete_eq case_prod_unfold eq_commute)

lemma removeToasts_keep: "removeToasts f s = keep_toasts (\<lambda>i. i \<notin> fst ` set (filter (\<lambda>(i, t). f t) (tt_toasts s))) s"
proof -
  have "fold (\<lambda>(i, t) s. if f t then removeAttentionAlert i s else s) xs r
      = keep_toasts (\<lambda>i. i \<notin> fst ` set (filter (\<lambda>(i, t). f t) xs)) r" for xs r
  proof (induction xs arbitrary: r)
    case (Cons x xs)
    obtain i t where x: "x = (i, t)" by force
    have "(\<lambda>j. j \<noteq> i \<and> j \<notin> A) = (\<lambda>j. j \<notin> insert i A)" for A by auto
    then show ?case using Cons x by (simp add: remove_keep keep_keep)
  qed simp
  then show ?thesis by (simp add: removeToasts_def)
qed

lemma distinct_pair: "distinct (map fst xs) \<Longrightarrow> (i, a) \<in> set xs \<Longrightarrow> (i, b) \<in> set xs \<Longrightarrow> a = b"
  by (metis Some_eq_map_of_iff option.inject)

lemma removeToasts_filter:
  assumes "distinct (map fst (tt_toasts s))"
  shows "removeToasts f s = s\<lparr>tt_toasts := filter (\<lambda>(i, t). \<not> f t) (tt_toasts s)\<rparr>"
proof -
  have "filter (\<lambda>x. fst x \<notin> fst ` set (filter (\<lambda>(i, t). f t) (tt_toasts s))) (tt_toasts s)
      = filter (\<lambda>(i, t). \<not> f t) (tt_toasts s)"
    by (rule filter_cong) (auto simp: image_iff dest: distinct_pair [OF assms])
  then show ?thesis by (simp add: removeToasts_keep keep_toasts_def)
qed

lemma children_keep: "toast_children c (keep_toasts P s) = filter (\<lambda>x. P (fst x)) (toast_children c s)"
  by (simp add: toast_children_def keep_toasts_def conj_commute)

lemma modToast_fst [simp]: "map fst (tt_toasts (modToast i f s)) = map fst (tt_toasts s)"
  by (induction "tt_toasts s") (auto simp: modToast_def)

lemma modToast_simps [simp]:
  "tt_sequence (modToast i f s) = tt_sequence s" "tt_browser (modToast i f s) = tt_browser s" "tt_sent (modToast i f s) = tt_sent s"
  by (simp_all add: modToast_def)

lemma modToast_map_of: "map_of (tt_toasts (modToast i f s)) j = map_option (\<lambda>t. if j = i then f t else t) (map_of (tt_toasts s) j)"
proof -
  have "map_of (map (\<lambda>(j, t). (j, if j = i then f t else t)) xs) j = map_option (\<lambda>t. if j = i then f t else t) (map_of xs j)" for xs
    by (induction xs) auto
  then show ?thesis by (simp add: modToast_def)
qed

lemma modToast_absent: "i \<notin> fst ` set (tt_toasts s) \<Longrightarrow> modToast i f s = s"
proof -
  assume "i \<notin> fst ` set (tt_toasts s)"
  then have "map (\<lambda>(j, t). (j, if j = i then f t else t)) (tt_toasts s) = tt_toasts s"
    by (intro map_idI) (auto simp: image_iff)
  then show ?thesis by (simp add: modToast_def)
qed

section \<open>The loop over the children\<close>

lemma evict_step:
  "evictToasts u c s =
     (if length (container_children u c s) \<le> 5 then Some s
      else case find (\<lambda>n. \<not> child_persistent n) (container_children u c s) of
             None \<Rightarrow> Some s
           | Some n \<Rightarrow> evictToasts u c (removeAttentionAlert (child_id n) s))"
  by (rule evictToasts.simps)

definition stuck :: "string list \<Rightarrow> string \<Rightarrow> toast_state \<Rightarrow> bool" where
  "stuck u c s = (c \<in> set u \<and> 5 \<le> length (toast_children c s) \<and> 0 \<notin> fst ` set (tt_toasts s))"

lemma remove_absent: "i \<notin> fst ` set (tt_toasts s) \<Longrightarrow> removeAttentionAlert i s = s"
  by (simp add: removeAttentionAlert_def)

text \<open>The node of the upload results is told to go, stays, and is told again.\<close>

lemma stuck_diverges: "stuck u c s \<Longrightarrow> evictToasts u c s = None"
proof (rule ccontr)
  assume s: "stuck u c s" and "evictToasts u c s \<noteq> None"
  then obtain r where r: "evictToasts u c s = Some r" by blast
  have "\<not> stuck u c s"
  proof (rule evictToasts.raw_induct [where P = "\<lambda>u c s r. \<not> stuck u c s", OF _ r], rule notI)
    fix f u c s r
    assume IH: "\<And>u c s r. f u c s = Some r \<Longrightarrow> \<not> stuck u c s" and st: "stuck u c s"
      and eq: "(if length (container_children u c s) \<le> 5 then Some s
          else case find (\<lambda>n. \<not> child_persistent n) (container_children u c s) of
                 None \<Rightarrow> Some s
               | Some n \<Rightarrow> f u c (removeAttentionAlert (child_id n) s)) = Some r"
    have "find (\<lambda>n. \<not> child_persistent n) (container_children u c s) = Some UploadNode"
      using st by (simp add: stuck_def container_children_def)
    moreover have "\<not> length (container_children u c s) \<le> 5" using st by (simp add: stuck_def container_children_def)
    moreover have "removeAttentionAlert 0 s = s" using st by (simp add: stuck_def remove_absent)
    ultimately have "f u c s = Some r" using eq by simp
    then show False using IH st by blast
  qed
  then show False using s by blast
qed

text \<open>In a container of toasts alone the oldest toasts that are not persistent go, as many as it takes.\<close>

definition transient :: "string \<Rightarrow> toast_state \<Rightarrow> nat list" where
  "transient c s = map fst (filter (\<lambda>(i, t). \<not> ts_persistent t) (toast_children c s))"

definition evicted :: "string \<Rightarrow> toast_state \<Rightarrow> nat list" where
  "evicted c s = take (length (toast_children c s) - 5) (transient c s)"

lemma find_child:
  "find (\<lambda>n. \<not> child_persistent n) (map (\<lambda>(i, t). ToastNode i (ts_persistent t)) xs)
     = (case filter (\<lambda>(i, t). \<not> ts_persistent t) xs of [] \<Rightarrow> None | (i, t) # _ \<Rightarrow> Some (ToastNode i False))"
  by (induction xs) auto

lemma children_distinct: "distinct (map fst (tt_toasts s)) \<Longrightarrow> distinct (map fst (toast_children c s))"
  by (auto simp: toast_children_def intro: distinct_map_filter)

lemma filter_other_key: "distinct (map fst xs) \<Longrightarrow> (i, t) \<in> set xs \<Longrightarrow> length (filter (\<lambda>x. fst x \<noteq> i) xs) = length xs - 1"
proof (induction xs)
  case (Cons x xs)
  show ?case
  proof (cases "fst x = i")
    case True
    then have "\<forall>y \<in> set xs. fst y \<noteq> i" using Cons.prems(1) by (auto simp: image_iff)
    then show ?thesis using True by simp
  next
    case False
    then have "(i, t) \<in> set xs" using Cons.prems(2) by auto
    moreover have "distinct (map fst xs)" using Cons.prems(1) by simp
    moreover have "xs \<noteq> []" using \<open>(i, t) \<in> set xs\<close> by auto
    ultimately show ?thesis using False Cons.IH by simp
  qed
qed simp

lemma evict_alone:
  assumes "c \<notin> set u" "distinct (map fst (tt_toasts s))"
  shows "evictToasts u c s = Some (keep_toasts (\<lambda>i. i \<notin> set (evicted c s)) s)"
  using assms(2)
proof (induction "length (toast_children c s)" arbitrary: s)
  case 0
  then show ?case using assms(1) by (simp add: evict_step container_children_def evicted_def)
next
  case (Suc k)
  have alone: "container_children u c s = map (\<lambda>(i, t). ToastNode i (ts_persistent t)) (toast_children c s)"
    using assms(1) by (simp add: container_children_def)
  show ?case
  proof (cases "length (toast_children c s) \<le> 5")
    case True
    then show ?thesis using alone by (simp add: evict_step evicted_def)
  next
    case False
    show ?thesis
    proof (cases "filter (\<lambda>(i, t). \<not> ts_persistent t) (toast_children c s)")
      case Nil
      then show ?thesis using alone False by (simp add: evict_step find_child evicted_def transient_def)
    next
      case (Cons x rest)
      obtain i t where x: "x = (i, t)" by force
      let ?s = "removeAttentionAlert i s"
      have mem: "(i, t) \<in> set (toast_children c s)" using Cons x by (auto dest!: arg_cong [where f = set])
      have len: "length (toast_children c ?s) = length (toast_children c s) - 1"
        unfolding remove_keep children_keep by (rule filter_other_key [OF children_distinct [OF Suc.prems] mem])
      have dist: "distinct (map fst (tt_toasts ?s))" using Suc.prems by (simp add: removeAttentionAlert_def distinct_delete)
      have tr: "transient c s = i # transient c ?s"
      proof -
        have d: "distinct (transient c s)" unfolding transient_def by (rule distinct_map_filter [OF children_distinct [OF Suc.prems]])
        have "transient c ?s = filter (\<lambda>j. j \<noteq> i) (transient c s)"
          by (simp add: transient_def remove_keep children_keep filter_map comp_def case_prod_beta conj_commute)
        moreover have "transient c s = i # map fst rest" using Cons x by (simp add: transient_def)
        moreover have "filter (\<lambda>j. j \<noteq> i) (map fst rest) = map fst rest"
          by (rule filter_True) (use d calculation(2) in auto)
        ultimately show ?thesis by simp
      qed
      have "evictToasts u c s = evictToasts u c ?s"
        using alone False Cons x by (subst evict_step) (simp add: find_child)
      also have "\<dots> = Some (keep_toasts (\<lambda>j. j \<notin> set (evicted c ?s)) ?s)"
        using Suc.hyps len dist by simp
      also have "evicted c s = i # evicted c ?s"
        using tr len False by (simp add: evicted_def take_Cons' numeral_eq_Suc)
      then have "keep_toasts (\<lambda>j. j \<notin> set (evicted c ?s)) ?s = keep_toasts (\<lambda>i. i \<notin> set (evicted c s)) s"
        by (simp add: remove_keep keep_keep)
      finally show ?thesis .
    qed
  qed
qed

text \<open>With the upload node in the container the loop only returns when there is nothing to do.\<close>

lemma evict_upload:
  assumes "c \<in> set u" "0 \<notin> fst ` set (tt_toasts s)"
  shows "evictToasts u c s = (if length (toast_children c s) \<le> 4 then Some s else None)"
proof (cases "length (toast_children c s) \<le> 4")
  case True
  then show ?thesis using assms(1) by (simp add: evict_step container_children_def)
next
  case False
  then have "stuck u c s" using assms by (simp add: stuck_def)
  then show ?thesis using stuck_diverges False by simp
qed

section \<open>The invariant\<close>

text \<open>
  The timer of a toast runs unless the user keeps or holds it; it is held as long as the pointer or the focus is on it;
  a persistent toast is kept from the start.
\<close>

definition timer_ok :: "toast \<Rightarrow> bool" where
  "timer_ok t =
     ((ts_timer t \<longleftrightarrow> \<not> ts_kept t \<and> \<not> ts_paused t) \<and> (\<not> ts_kept t \<longrightarrow> (ts_paused t \<longleftrightarrow> ts_pointer t \<or> ts_focus t))
      \<and> (ts_persistent t \<longrightarrow> ts_kept t) \<and> (\<not> ts_kept t \<longrightarrow> 1 \<le> ts_remaining t))"

text \<open>No two toasts have one key, and a container with more than five toasts has none that could go.\<close>

definition keys_once :: "toast_state \<Rightarrow> bool" where
  "keys_once s = (\<forall>k. k \<noteq> [] \<longrightarrow> length (filter (\<lambda>x. ts_key (snd x) = k) (tt_toasts s)) \<le> 1)"

definition children_bounded :: "toast_state \<Rightarrow> bool" where
  "children_bounded s = (\<forall>c. length (toast_children c s) \<le> 5 \<or> (\<forall>x \<in> set (toast_children c s). ts_persistent (snd x)))"

definition ids_ok :: "toast_state \<Rightarrow> bool" where
  "ids_ok s = (distinct (map fst (tt_toasts s)) \<and> (\<forall>i \<in> fst ` set (tt_toasts s). 1 \<le> i \<and> i \<le> tt_sequence s))"

definition toast_ok :: "toast_state \<Rightarrow> bool" where
  "toast_ok s = (ids_ok s \<and> keys_once s \<and> children_bounded s \<and> (\<forall>(i, t) \<in> set (tt_toasts s). timer_ok t))"

lemma toast_okI:
  "ids_ok s \<Longrightarrow> keys_once s \<Longrightarrow> children_bounded s \<Longrightarrow> (\<And>i t. (i, t) \<in> set (tt_toasts s) \<Longrightarrow> timer_ok t) \<Longrightarrow> toast_ok s"
  by (auto simp: toast_ok_def)

lemma toast_okD:
  assumes "toast_ok s"
  shows "ids_ok s" "keys_once s" "children_bounded s" "(i, t) \<in> set (tt_toasts s) \<Longrightarrow> timer_ok t"
    "distinct (map fst (tt_toasts s))" "0 \<notin> fst ` set (tt_toasts s)" "Suc (tt_sequence s) \<notin> fst ` set (tt_toasts s)"
  using assms by (auto simp: toast_ok_def ids_ok_def)

lemma toast_init_ok: "toast_ok toast_init"
  by (rule toast_okI) (simp_all add: toast_init_def ids_ok_def keys_once_def children_bounded_def toast_children_def)

lemma ids_keep: "ids_ok s \<Longrightarrow> ids_ok (keep_toasts P s)"
  by (auto simp: ids_ok_def keep_toasts_def intro: distinct_map_filter)

lemma filter_filter_le: "length (filter Q (filter P xs)) \<le> length (filter Q xs)"
  by (induction xs) auto

lemma keys_keep:
  assumes "keys_once s"
  shows "keys_once (keep_toasts P s)"
  unfolding keys_once_def
proof (intro allI impI)
  fix k :: string assume "k \<noteq> []"
  then have "length (filter (\<lambda>x. ts_key (snd x) = k) (tt_toasts s)) \<le> 1" using assms by (simp add: keys_once_def)
  then show "length (filter (\<lambda>x. ts_key (snd x) = k) (tt_toasts (keep_toasts P s))) \<le> 1"
    unfolding keep_toasts_def by (simp del: filter_filter) (rule le_trans [OF filter_filter_le])
qed

lemma bounded_keep:
  assumes "children_bounded s"
  shows "children_bounded (keep_toasts P s)"
  unfolding children_bounded_def children_keep
proof
  fix c
  have "length (filter (\<lambda>x. P (fst x)) (toast_children c s)) \<le> length (toast_children c s)" by (rule length_filter_le)
  moreover have "length (toast_children c s) \<le> 5 \<or> (\<forall>x \<in> set (toast_children c s). ts_persistent (snd x))"
    using assms unfolding children_bounded_def by blast
  ultimately show "length (filter (\<lambda>x. P (fst x)) (toast_children c s)) \<le> 5
      \<or> (\<forall>x \<in> set (filter (\<lambda>x. P (fst x)) (toast_children c s)). ts_persistent (snd x))"
    by (metis (no_types, lifting) filter_is_subset le_trans subsetD)
qed

lemma toast_ok_keep:
  assumes "toast_ok s"
  shows "toast_ok (keep_toasts P s)"
proof (rule toast_okI)
  show "ids_ok (keep_toasts P s)" by (rule ids_keep [OF toast_okD(1) [OF assms]])
  show "keys_once (keep_toasts P s)" by (rule keys_keep [OF toast_okD(2) [OF assms]])
  show "children_bounded (keep_toasts P s)" by (rule bounded_keep [OF toast_okD(3) [OF assms]])
  show "timer_ok t" if "(i, t) \<in> set (tt_toasts (keep_toasts P s))" for i t
    using that by (auto simp: keep_toasts_def intro: toast_okD(4) [OF assms])
qed

lemma toast_ok_same:
  "toast_ok s \<Longrightarrow> tt_toasts t = tt_toasts s \<Longrightarrow> tt_sequence t = tt_sequence s \<Longrightarrow> toast_ok t"
  by (simp add: toast_ok_def ids_ok_def keys_once_def children_bounded_def toast_children_def)

definition same_place :: "toast \<Rightarrow> toast \<Rightarrow> bool" where
  "same_place t u = (ts_attached t = ts_attached u \<and> ts_container t = ts_container u \<and> ts_persistent t = ts_persistent u)"

lemma children_mod:
  assumes "\<And>t. same_place (f t) t"
  shows "toast_children c (modToast i f s) = map (\<lambda>(j, t). (j, if j = i then f t else t)) (toast_children c s)"
proof -
  have "(\<lambda>(j, t). ts_attached t \<and> ts_container t = c) \<circ> (\<lambda>(j, t). (j, if j = i then f t else t))
      = (\<lambda>(j, t). ts_attached t \<and> ts_container t = c)"
    using assms by (auto simp: same_place_def fun_eq_iff)
  then show ?thesis by (simp add: toast_children_def modToast_def filter_map)
qed

lemma bounded_mod:
  assumes "\<And>t. same_place (f t) t" "children_bounded s"
  shows "children_bounded (modToast i f s)"
  unfolding children_bounded_def children_mod [OF assms(1)]
proof
  fix c
  have "length (toast_children c s) \<le> 5 \<or> (\<forall>x \<in> set (toast_children c s). ts_persistent (snd x))"
    using assms(2) unfolding children_bounded_def by blast
  then show "length (map (\<lambda>(j, t). (j, if j = i then f t else t)) (toast_children c s)) \<le> 5
      \<or> (\<forall>x \<in> set (map (\<lambda>(j, t). (j, if j = i then f t else t)) (toast_children c s)). ts_persistent (snd x))"
    using assms(1) by (fastforce simp: same_place_def)
qed

lemma keys_mod:
  assumes "\<And>t. ts_key (f t) = ts_key t" "keys_once s"
  shows "keys_once (modToast i f s)"
proof -
  have "(\<lambda>x. ts_key (snd x) = k) \<circ> (\<lambda>(j, t). (j, if j = i then f t else t)) = (\<lambda>x. ts_key (snd x) = k)" for k
    using assms(1) by (auto simp: fun_eq_iff)
  then show ?thesis using assms(2) by (simp add: keys_once_def modToast_def filter_map)
qed

lemma ids_mod: "ids_ok s \<Longrightarrow> ids_ok (modToast i f s)"
  by (metis (no_types, lifting) ids_ok_def list.set_map modToast_fst modToast_simps(1))

lemma toast_ok_mod:
  assumes "toast_ok s" "\<And>t. same_place (f t) t" "\<And>t. ts_key (f t) = ts_key t"
    and timer: "\<And>t. map_of (tt_toasts s) i = Some t \<Longrightarrow> timer_ok t \<Longrightarrow> timer_ok (f t)"
  shows "toast_ok (modToast i f s)"
proof (rule toast_okI)
  show "ids_ok (modToast i f s)" by (rule ids_mod [OF toast_okD(1) [OF assms(1)]])
  show "keys_once (modToast i f s)" by (rule keys_mod [OF assms(3) toast_okD(2) [OF assms(1)]])
  show "children_bounded (modToast i f s)" by (rule bounded_mod [OF assms(2) toast_okD(3) [OF assms(1)]])
  fix j t assume "(j, t) \<in> set (tt_toasts (modToast i f s))"
  then obtain u where u: "(j, u) \<in> set (tt_toasts s)" "t = (if j = i then f u else u)" by (auto simp: modToast_def)
  have "timer_ok u" by (rule toast_okD(4) [OF assms(1) u(1)])
  moreover have "map_of (tt_toasts s) j = Some u" using u(1) toast_okD(5) [OF assms(1)] by simp
  ultimately show "timer_ok t" using u(2) timer by (auto split: if_splits)
qed

text \<open>Changing one toast twice is changing it once.\<close>

lemma modToast_cong: "(\<And>t. map_of (tt_toasts s) i = Some t \<Longrightarrow> f t = g t) \<Longrightarrow> distinct (map fst (tt_toasts s)) \<Longrightarrow> modToast i f s = modToast i g s"
  unfolding modToast_def by (auto intro!: arg_cong [where f = "\<lambda>x. s\<lparr>tt_toasts := x\<rparr>"] map_cong)

lemma modToast_twice: "modToast i f (modToast i g s) = modToast i (f \<circ> g) s"
  by (simp add: modToast_def case_prod_unfold comp_def cong: if_cong)

section \<open>Every operation keeps the invariant\<close>

lemma removal_ok: "toast_ok s \<Longrightarrow> toast_ok (removeAttentionAlert i s)"
  by (simp add: remove_keep toast_ok_keep)

lemma removeToasts_ok: "toast_ok s \<Longrightarrow> toast_ok (removeToasts f s)"
  by (simp add: removeToasts_keep toast_ok_keep)

lemma coalesced_ok: "toast_ok s \<Longrightarrow> toast_ok (dismissCoalescedToast key s)"
  by (simp add: dismissCoalescedToast_def removeToasts_ok)

lemma target_ok: "toast_ok s \<Longrightarrow> toast_ok (dismissNotificationsForTarget item kind s)"
  by (auto simp: dismissNotificationsForTarget_def Let_def intro: toast_ok_same [OF removeToasts_ok])

lemma lifecycle_ok: "toast_ok s \<Longrightarrow> toast_ok (dismissNotificationsForLifecycleKeys keys s)"
  by (auto simp: dismissNotificationsForLifecycleKeys_def Let_def intro: toast_ok_same [OF removeToasts_ok])

lemma set_reason_place: "same_place (set_reason r b t) t" "ts_key (set_reason r b t) = ts_key t"
  by (cases r; simp add: set_reason_def same_place_def)+

lemma pause_ok:
  assumes "toast_ok s"
  shows "toast_ok (pauseToastRemoval now i r s)"
proof (cases "map_of (tt_toasts s) i")
  case None
  then show ?thesis using assms by (simp add: pauseToastRemoval_def)
next
  case (Some t)
  show ?thesis
    unfolding pauseToastRemoval_def Some option.case
  proof (split if_split, intro conjI impI)
    assume k: "\<not> ts_kept t"
    show "toast_ok (if ts_paused t then modToast i (set_reason r True) s
        else modToast i (\<lambda>t. (set_reason r True t)
          \<lparr>ts_remaining := max 1 (ts_remaining t - max 0 (now - ts_startedAt t)), ts_timer := False, ts_paused := True\<rparr>) s)"
    proof (split if_split, intro conjI impI)
      assume "ts_paused t"
      then show "toast_ok (modToast i (set_reason r True) s)"
        using k Some by (intro toast_ok_mod [OF assms set_reason_place]) (cases r; auto simp: timer_ok_def set_reason_def)
    next
      assume "\<not> ts_paused t"
      then show "toast_ok (modToast i (\<lambda>t. (set_reason r True t)
          \<lparr>ts_remaining := max 1 (ts_remaining t - max 0 (now - ts_startedAt t)), ts_timer := False, ts_paused := True\<rparr>) s)"
        using k Some by (intro toast_ok_mod [OF assms]) (cases r; auto simp: timer_ok_def set_reason_def same_place_def)+
    qed
  qed (rule assms)
qed

text \<open>What is left of a toast that is released, in one change of its record.\<close>

definition released :: "int \<Rightarrow> pause_reason \<Rightarrow> toast \<Rightarrow> toast" where
  "released now r t =
     (let u = set_reason r False t
      in if ts_pointer u \<or> ts_focus u \<or> \<not> ts_paused u then u
         else u\<lparr>ts_paused := False, ts_remaining := max 1 (ts_remaining u), ts_startedAt := now, ts_timer := True\<rparr>)"

lemma resume_alt:
  assumes "distinct (map fst (tt_toasts s))"
  shows "resumeToastRemoval now i r s
    = (case map_of (tt_toasts s) i of
         None \<Rightarrow> s
       | Some t \<Rightarrow> if ts_kept t then s else modToast i (released now r) s)"
proof (cases "map_of (tt_toasts s) i")
  case (Some t)
  let ?u = "set_reason r False t"
  have same: "ts_remaining ?u = ts_remaining t" "ts_paused ?u = ts_paused t" by (cases r; simp add: set_reason_def)+
  show ?thesis
    using Some assms same
    by (auto simp: resumeToastRemoval_def scheduleToastRemoval_def Let_def modToast_map_of modToast_twice released_def comp_def
        intro!: modToast_cong)
qed (simp add: resumeToastRemoval_def)

lemma resume_ok:
  assumes "toast_ok s"
  shows "toast_ok (resumeToastRemoval now i r s)"
proof (cases "map_of (tt_toasts s) i")
  case None
  then show ?thesis using assms by (simp add: resumeToastRemoval_def)
next
  case (Some t)
  have "toast_ok (modToast i (released now r) s)" if "\<not> ts_kept t"
    using that Some by (intro toast_ok_mod [OF assms]) (cases r; auto simp: timer_ok_def set_reason_def same_place_def released_def Let_def)+
  then show ?thesis using Some assms by (simp add: resume_alt [OF toast_okD(5) [OF assms]])
qed

lemma kept_ok: "toast_ok s \<Longrightarrow> toast_ok (keepToast i s)"
  unfolding keepToast_def by (rule toast_ok_mod) (auto simp: same_place_def timer_ok_def)

section \<open>Showing a toast\<close>

lemma evict_post:
  assumes r: "evictToasts u c s = Some r"
  shows "length (toast_children c r) \<le> 5 \<or> (\<forall>x \<in> set (toast_children c r). ts_persistent (snd x))"
proof -
  have "length (container_children u c r) \<le> 5 \<or> (\<forall>n \<in> set (container_children u c r). child_persistent n)"
  proof (rule evictToasts.raw_induct [where P = "\<lambda>u c s r. length (container_children u c r) \<le> 5
        \<or> (\<forall>n \<in> set (container_children u c r). child_persistent n)", OF _ r])
    fix f u c s r
    assume IH: "\<And>u c s r. f u c s = Some r \<Longrightarrow> length (container_children u c r) \<le> 5 \<or> (\<forall>n \<in> set (container_children u c r). child_persistent n)"
      and eq: "(if length (container_children u c s) \<le> 5 then Some s
          else case find (\<lambda>n. \<not> child_persistent n) (container_children u c s) of
                 None \<Rightarrow> Some s
               | Some n \<Rightarrow> f u c (removeAttentionAlert (child_id n) s)) = Some r"
    show "length (container_children u c r) \<le> 5 \<or> (\<forall>n \<in> set (container_children u c r). child_persistent n)"
    proof (cases "length (container_children u c s) \<le> 5")
      case True
      then show ?thesis using eq by simp
    next
      case False
      show ?thesis
      proof (cases "find (\<lambda>n. \<not> child_persistent n) (container_children u c s)")
        case None
        then have "\<forall>n \<in> set (container_children u c s). child_persistent n" by (simp add: find_None_iff)
        moreover have "r = s" using eq False None by simp
        ultimately show ?thesis by blast
      next
        case (Some n)
        then show ?thesis using eq False IH by simp
      qed
    qed
  qed
  then show ?thesis by (auto simp: container_children_def split: if_splits prod.splits)
qed

lemma evict_keeps:
  assumes "evictToasts u c s = Some r" "distinct (map fst (tt_toasts s))" "0 \<notin> fst ` set (tt_toasts s)"
  shows "\<exists>P. r = keep_toasts P s \<and> (\<forall>(i, t) \<in> set (tt_toasts s). ts_persistent t \<longrightarrow> P i)"
proof (cases "c \<in> set u")
  case True
  then have "r = keep_toasts (\<lambda>i. True) s" using assms evict_upload [OF True assms(3)] by (simp split: if_splits)
  then show ?thesis by blast
next
  case False
  have "i \<notin> set (evicted c s)" if "(i, t) \<in> set (tt_toasts s)" "ts_persistent t" for i t
  proof
    assume "i \<in> set (evicted c s)"
    then have "i \<in> set (transient c s)" unfolding evicted_def by (rule in_set_takeD)
    then obtain v where v: "(i, v) \<in> set (tt_toasts s)" "\<not> ts_persistent v" by (auto simp: transient_def toast_children_def)
    have "t = v" by (rule distinct_pair [OF assms(2) that(1) v(1)])
    then show False using v(2) that(2) by simp
  qed
  then have "\<forall>(i, t) \<in> set (tt_toasts s). ts_persistent t \<longrightarrow> i \<notin> set (evicted c s)" by auto
  moreover have "r = keep_toasts (\<lambda>i. i \<notin> set (evicted c s)) s" using evict_alone [OF False assms(2)] assms(1) by simp
  ultimately show ?thesis by blast
qed

definition armed :: "int \<Rightarrow> int \<Rightarrow> toast \<Rightarrow> toast" where
  "armed now remaining t = t\<lparr>ts_remaining := max 1 remaining, ts_startedAt := now, ts_timer := True\<rparr>"

lemma schedule_alt:
  "scheduleToastRemoval now i node remaining s =
     (if i \<in> fst ` set (tt_toasts s) then modToast i (armed now remaining) s
      else s\<lparr>tt_toasts := tt_toasts s @ [(i, armed now remaining (node\<lparr>ts_attached := False, ts_lifecycle := []\<rparr>))]\<rparr>)"
proof (cases "map_of (tt_toasts s) i")
  case None
  then have "i \<notin> fst ` set (tt_toasts s)" by (simp add: map_of_eq_None_iff)
  then show ?thesis using None by (simp add: scheduleToastRemoval_def armed_def Let_def)
next
  case (Some t)
  then have "i \<in> fst ` set (tt_toasts s)" by (metis map_of_eq_None_iff option.distinct(1))
  then show ?thesis using Some by (simp add: scheduleToastRemoval_def armed_def [abs_def])
qed

text \<open>The state before and after the loop of a toast that is shown.\<close>

definition appended :: "toast_page \<Rightarrow> string \<Rightarrow> string \<Rightarrow> string list \<Rightarrow> bool \<Rightarrow> toast_state \<Rightarrow> toast_state" where
  "appended g c item lifecycle persistent s =
     s\<lparr>tt_sequence := Suc (tt_sequence s),
       tt_toasts := tt_toasts s @ [(Suc (tt_sequence s), new_toast g c (js_trim item) lifecycle persistent)]\<rparr>"

lemma show_alt:
  "showToast now g container item countdown persistent lifecycle s =
     (let c = first_text container (tg_alerts g); i = Suc (tt_sequence s)
      in if js_trim item \<noteq> [] \<and> notificationTargetIsFocused g (js_trim item)
         then Some (dismissNotificationsForTarget (js_trim item) [] s, None)
         else if c = [] then Some (s, None)
         else case evictToasts (tg_uploads g) c (appended g c item lifecycle persistent s) of
                None \<Rightarrow> None
              | Some s1 \<Rightarrow> Some (if persistent then s1
                  else scheduleToastRemoval now i (new_toast g c (js_trim item) lifecycle persistent) (toast_time g countdown) s1, Some i))"
  by (simp only: showToast_def Let_def appended_def)

lemma show_evicts:
  assumes ok: "toast_ok s" and given: "showToast now g container item countdown persistent lifecycle s = Some (t, Some i)"
  obtains P s1 where
    "i = Suc (tt_sequence s)"
    "evictToasts (tg_uploads g) (first_text container (tg_alerts g)) (appended g (first_text container (tg_alerts g)) item lifecycle persistent s) = Some s1"
    "s1 = keep_toasts P (appended g (first_text container (tg_alerts g)) item lifecycle persistent s)"
    "persistent \<longrightarrow> P i"
    "t = (if persistent then s1
          else scheduleToastRemoval now i (new_toast g (first_text container (tg_alerts g)) (js_trim item) lifecycle persistent) (toast_time g countdown) s1)"
proof -
  let ?c = "first_text container (tg_alerts g)"
  let ?s = "appended g ?c item lifecycle persistent s"
  obtain s1 where s1: "evictToasts (tg_uploads g) ?c ?s = Some s1" and i: "i = Suc (tt_sequence s)"
    and t: "t = (if persistent then s1 else scheduleToastRemoval now i (new_toast g ?c (js_trim item) lifecycle persistent) (toast_time g countdown) s1)"
    using given by (auto simp: showToast_def Let_def appended_def split: if_splits option.splits)
  have "distinct (map fst (tt_toasts ?s))" "0 \<notin> fst ` set (tt_toasts ?s)"
    using toast_okD(5,6,7) [OF ok] by (simp_all add: appended_def)
  then obtain P where P: "s1 = keep_toasts P ?s" "\<forall>(i, t) \<in> set (tt_toasts ?s). ts_persistent t \<longrightarrow> P i"
    using evict_keeps [OF s1] by blast
  have "persistent \<longrightarrow> P i" using P(2) i by (auto simp: appended_def new_toast_def)
  from that [OF i s1 P(1) this t] show thesis .
qed

lemma evicted_bounded:
  assumes "children_bounded s" and s1: "evictToasts u c (appended g c item lifecycle persistent s) = Some s1"
    and P: "s1 = keep_toasts P (appended g c item lifecycle persistent s)"
  shows "children_bounded s1"
  unfolding children_bounded_def
proof
  fix d
  show "length (toast_children d s1) \<le> 5 \<or> (\<forall>x \<in> set (toast_children d s1). ts_persistent (snd x))"
  proof (cases "d = c")
    case True
    then show ?thesis using evict_post [OF s1] by simp
  next
    case False
    then have "toast_children d s1 = toast_children d (keep_toasts P s)"
      by (simp add: P children_keep) (simp add: toast_children_def appended_def new_toast_def)
    then show ?thesis using bounded_keep [OF assms(1), of P] by (simp add: children_bounded_def)
  qed
qed

lemma schedule_bounded:
  assumes "children_bounded s"
  shows "children_bounded (scheduleToastRemoval now i node remaining s)"
proof -
  have "children_bounded (modToast i (armed now remaining) s)"
    by (rule bounded_mod [OF _ assms]) (simp add: same_place_def armed_def)
  moreover have "children_bounded (s\<lparr>tt_toasts := tt_toasts s @ [(i, armed now remaining (node\<lparr>ts_attached := False, ts_lifecycle := []\<rparr>))]\<rparr>)"
    using assms by (simp add: children_bounded_def toast_children_def armed_def)
  ultimately show ?thesis by (simp add: schedule_alt)
qed

lemma show_bounded:
  assumes ok: "toast_ok s" and given: "showToast now g container item countdown persistent lifecycle s = Some (t, Some i)"
  shows "children_bounded t"
  by (rule show_evicts [OF assms]) (use evicted_bounded [OF toast_okD(3) [OF ok]] schedule_bounded in auto)

text \<open>A toast that is shown stands behind those that are left, and is gone from the page when the loop took it.\<close>

lemma show_shape:
  assumes ok: "toast_ok s" and given: "showToast now g container item countdown persistent lifecycle s = Some (t, Some i)"
  shows "i = Suc (tt_sequence s) \<and> (\<exists>P u. t = s\<lparr>tt_sequence := i, tt_toasts := filter (\<lambda>x. P (fst x)) (tt_toasts s) @ [(i, u)]\<rparr>
      \<and> timer_ok u \<and> ts_key u = [] \<and> ts_persistent u = persistent \<and> ts_container u = first_text container (tg_alerts g)
      \<and> (ts_attached u \<longleftrightarrow> P i))"
proof (rule show_evicts [OF assms])
  fix P s1
  define c where "c = first_text container (tg_alerts g)"
  define node where "node = new_toast g c (js_trim item) lifecycle persistent"
  assume i: "i = Suc (tt_sequence s)" and s1: "s1 = keep_toasts P (appended g (first_text container (tg_alerts g)) item lifecycle persistent s)"
    and pers: "persistent \<longrightarrow> P i" and t: "t = (if persistent then s1
          else scheduleToastRemoval now i (new_toast g (first_text container (tg_alerts g)) (js_trim item) lifecycle persistent) (toast_time g countdown) s1)"
  let ?kept = "filter (\<lambda>x. P (fst x)) (tt_toasts s)"
  let ?u = "if persistent then node else if P i then armed now (toast_time g countdown) node
     else armed now (toast_time g countdown) (node\<lparr>ts_attached := False, ts_lifecycle := []\<rparr>)"
  have fresh: "i \<notin> fst ` set (tt_toasts s)" using toast_okD(7) [OF ok] i by simp
  have s1': "s1 = s\<lparr>tt_sequence := i, tt_toasts := ?kept @ (if P i then [(i, node)] else [])\<rparr>"
    using i by (simp add: s1 keep_toasts_def appended_def node_def c_def)
  have "map (\<lambda>(j, t). (j, if j = i then f t else t)) ?kept = ?kept" for f
    using fresh by (intro map_idI) (auto simp: image_iff)
  then have mod: "modToast i f s1 = s\<lparr>tt_sequence := i, tt_toasts := ?kept @ [(i, f node)]\<rparr>" if "P i" for f
    using that s1' by (simp add: modToast_def)
  have there: "i \<in> fst ` set (tt_toasts s1) \<longleftrightarrow> P i" using fresh by (auto simp: s1')
  have "t = s\<lparr>tt_sequence := i, tt_toasts := ?kept @ [(i, ?u)]\<rparr>"
    using t there mod s1' pers by (cases persistent; cases "P i") (simp_all add: schedule_alt node_def c_def)
  moreover have "timer_ok ?u \<and> ts_key ?u = [] \<and> ts_persistent ?u = persistent \<and> ts_container ?u = c \<and> (ts_attached ?u \<longleftrightarrow> P i)"
    using pers by (auto simp: timer_ok_def node_def new_toast_def armed_def)
  ultimately show ?thesis using i c_def by blast
qed

lemma show_None:
  "showToast now g container item countdown persistent lifecycle s = Some (t, None)
     \<Longrightarrow> t = s \<or> t = dismissNotificationsForTarget (js_trim item) [] s"
  by (auto simp: showToast_def Let_def split: if_splits option.splits)

text \<open>The key is free when the toast gets it.\<close>

lemma coalesced_free:
  assumes "toast_ok s" "key \<noteq> []" "(i, t) \<in> set (tt_toasts (dismissCoalescedToast key s))"
  shows "ts_key t \<noteq> key"
  using assms(3) by (simp add: dismissCoalescedToast_def assms(2) removeToasts_filter [OF toast_okD(5) [OF assms(1)]])

lemma shown_ok:
  assumes ok: "toast_ok s" and free: "\<And>i t. key \<noteq> [] \<Longrightarrow> (i, t) \<in> set (tt_toasts s) \<Longrightarrow> ts_key t \<noteq> key"
    and given: "showToast now g container item countdown persistent lifecycle s = Some (t, shown)"
  shows "toast_ok (mark_toast e target key shown t)"
proof (cases shown)
  case None
  then show ?thesis using show_None [OF given [unfolded None]] ok target_ok [OF ok] by (auto simp: mark_toast_def)
next
  case (Some i)
  let ?f = "\<lambda>t. t\<lparr>ts_event := event_name e, ts_target := first_text target (ts_target t), ts_key := key\<rparr>"
  obtain P u where i: "i = Suc (tt_sequence s)" and u: "timer_ok u"
    and t: "t = s\<lparr>tt_sequence := i, tt_toasts := filter (\<lambda>x. P (fst x)) (tt_toasts s) @ [(i, u)]\<rparr>"
    using show_shape [OF ok given [unfolded Some]] by blast
  have fresh: "i \<notin> fst ` set (tt_toasts s)" using toast_okD(7) [OF ok] i by simp
  have "map (\<lambda>(j, t). (j, if j = i then ?f t else t)) (filter (\<lambda>x. P (fst x)) (tt_toasts s)) = filter (\<lambda>x. P (fst x)) (tt_toasts s)"
    using fresh by (intro map_idI) (auto simp: image_iff)
  then have m: "mark_toast e target key shown t = s\<lparr>tt_sequence := i, tt_toasts := filter (\<lambda>x. P (fst x)) (tt_toasts s) @ [(i, ?f u)]\<rparr>"
    using Some by (simp add: mark_toast_def modToast_def t)
  have ok': "toast_ok (keep_toasts P s)" by (rule toast_ok_keep [OF ok])
  show ?thesis
  proof (rule toast_okI)
    show "ids_ok (mark_toast e target key shown t)"
      using toast_okD(1) [OF ok'] fresh i by (auto simp: m ids_ok_def keep_toasts_def intro: le_SucI)
    show "children_bounded (mark_toast e target key shown t)"
      using bounded_mod [OF _ show_bounded [OF ok given [unfolded Some]], of ?f i] Some by (simp add: mark_toast_def same_place_def)
    show "keys_once (mark_toast e target key shown t)"
      unfolding keys_once_def
    proof (intro allI impI)
      fix k :: string assume k: "k \<noteq> []"
      have "k = key \<longrightarrow> filter (\<lambda>x. ts_key (snd x) = k \<and> P (fst x)) (tt_toasts s) = []"
        using free k by (fastforce simp: filter_empty_conv)
      moreover have "length (filter (\<lambda>x. ts_key (snd x) = k \<and> P (fst x)) (tt_toasts s)) \<le> 1"
        using toast_okD(2) [OF ok'] k by (simp add: keys_once_def keep_toasts_def conj_commute)
      ultimately show "length (filter (\<lambda>x. ts_key (snd x) = k) (tt_toasts (mark_toast e target key shown t))) \<le> 1"
        by (auto simp: m conj_commute)
    qed
    show "timer_ok v" if "(j, v) \<in> set (tt_toasts (mark_toast e target key shown t))" for j v
      using that u toast_okD(4) [OF ok] by (auto simp: m timer_ok_def)
  qed
qed

lemma browser_ok: "toast_ok s \<Longrightarrow> toast_ok (sendBrowserNotification g target lifecycle s)"
  by (auto simp: sendBrowserNotification_def intro: toast_ok_same)

lemma emit_ok:
  assumes ok: "toast_ok s" and given: "emitNotification now g e n s = Some (t, shown)"
  shows "toast_ok t"
proof -
  let ?d = "notificationEventDefinitions e"
  let ?target = "notificationEventTarget ?d n"
  let ?key = "notificationEventKey e ?d ?target n"
  let ?item = "if np_suppress ?d then ?target else []"
  let ?r = "if nt_inApp n \<and> tg_inApp g
      then showToast now g (notificationEventContainer g ?d ?target) ?item (note_countdown ?d n) (np_dismissOnly ?d \<or> nt_persistent n)
             (nt_lifecycle n) (dismissCoalescedToast ?key s)
      else Some (s, None)"
  show ?thesis
  proof (cases "np_deliver ?d \<or> (?item \<noteq> [] \<and> notificationTargetIsFocused g ?item)")
    case True
    then have "t = s \<or> t = dismissNotificationsForTarget ?item [] s"
      using given by (auto simp: emitNotification_def Let_def split: if_splits)
    then show ?thesis using ok target_ok by auto
  next
    case False
    obtain s1 where s1: "?r = Some (s1, shown)"
      and t: "t = mark_toast e ?target ?key shown s1
        \<or> t = sendBrowserNotification g (js_trim (first_text ?item (nt_session n))) (nt_lifecycle n) (mark_toast e ?target ?key shown s1)"
      using given False unfolding emitNotification_def Let_def by (auto split: if_splits option.splits)
    have "toast_ok (mark_toast e ?target ?key shown s1)"
    proof (cases "nt_inApp n \<and> tg_inApp g")
      case True
      then show ?thesis using s1 by (intro shown_ok [OF coalesced_ok [OF ok] coalesced_free [OF ok]]) auto
    next
      case False
      then have "s1 = s" "shown = None" using s1 by auto
      then show ?thesis using ok by (simp add: mark_toast_def)
    qed
    then show ?thesis using t browser_ok by auto
  qed
qed

lemma tagged_ok: "toast_ok s \<Longrightarrow> emitTagged now g e n session kind s = Some t \<Longrightarrow> toast_ok t"
proof -
  assume ok: "toast_ok s" and given: "emitTagged now g e n session kind s = Some t"
  obtain s1 shown where e: "emitNotification now g e n s = Some (s1, shown)"
    and t: "t = (case shown of None \<Rightarrow> s1 | Some i \<Rightarrow> modToast i (\<lambda>t. t\<lparr>ts_session := session, ts_kind := kind\<rparr>) s1)"
    using given by (auto simp: emitTagged_def split: option.splits)
  have "toast_ok s1" by (rule emit_ok [OF ok e])
  then show "toast_ok t"
    using t by (auto split: option.splits simp: same_place_def timer_ok_def intro!: toast_ok_mod)
qed

lemma panel_ok:
  assumes ok: "toast_ok s"
  shows "toast_ok (s\<lparr>tt_toasts := map (\<lambda>(i, t). (i, if ts_container t = c then t\<lparr>ts_attached := False\<rparr> else t)) (tt_toasts s)\<rparr>)"
    (is "toast_ok (s\<lparr>tt_toasts := map ?f _\<rparr>)")
proof (rule toast_okI)
  have fc: "fst \<circ> ?f = fst" by (auto simp: fun_eq_iff)
  show "ids_ok (s\<lparr>tt_toasts := map ?f (tt_toasts s)\<rparr>)"
    using toast_okD(1) [OF ok] by (auto simp: ids_ok_def fc)
  have "(\<lambda>x. ts_key (snd x) = k) \<circ> ?f = (\<lambda>x. ts_key (snd x) = k)" for k by (auto simp: fun_eq_iff)
  then show "keys_once (s\<lparr>tt_toasts := map ?f (tt_toasts s)\<rparr>)"
    using toast_okD(2) [OF ok] by (simp add: keys_once_def filter_map)
  have "filter (\<lambda>(i, t). ts_attached t \<and> ts_container t = d) (map ?f xs)
      = (if d = c then [] else filter (\<lambda>(i, t). ts_attached t \<and> ts_container t = d) xs)" for d xs
  proof (induction xs)
    case (Cons x xs)
    then show ?case by (cases x; cases "ts_container (snd x) = c"; cases "d = c") simp_all
  qed simp
  then have "toast_children d (s\<lparr>tt_toasts := map ?f (tt_toasts s)\<rparr>) = (if d = c then [] else toast_children d s)" for d
    by (simp add: toast_children_def)
  then show "children_bounded (s\<lparr>tt_toasts := map ?f (tt_toasts s)\<rparr>)"
    using toast_okD(3) [OF ok] by (simp add: children_bounded_def)
  have "timer_ok (snd (?f x)) = timer_ok (snd x)" for x by (simp add: timer_ok_def split: prod.splits)
  then show "timer_ok t" if "(i, t) \<in> set (tt_toasts (s\<lparr>tt_toasts := map ?f (tt_toasts s)\<rparr>))" for i t
    using that toast_okD(4) [OF ok] by (metis (no_types, lifting) imageE image_set prod.collapse snd_conv toast_state.select_convs(1) toast_state.surjective toast_state.update_convs(1))
qed

lemma toast_do_ok:
  assumes ok: "toast_ok s" and "toast_do now ev s = Some t"
  shows "toast_ok t"
  using assms(2)
proof (cases ev)
  case (Emitted g e n)
  then show ?thesis using assms(2) emit_ok [OF ok] by auto
next
  case (AttentionShown g session)
  then show ?thesis using assms(2) tagged_ok [OF ok] by (simp add: showAttentionAlert_def)
next
  case (ConnectionShown g session countdown)
  then show ?thesis using assms(2) tagged_ok [OF target_ok [OF ok]]
    by (simp add: showTerminalConnectionToast_def dismissTerminalConnectionToasts_def)
next
  case (TransferFailed g session item)
  then show ?thesis using assms(2) emit_ok [OF ok] by (auto simp: showFileTransferError_def)
next
  case (PanelRemoved c)
  then show ?thesis using assms(2) panel_ok [OF ok] by auto
next
  case (BrowserClosed n)
  then show ?thesis using assms(2) ok by (auto intro: toast_ok_same)
qed (use assms(2) ok in \<open>auto simp: removal_ok pause_ok resume_ok kept_ok target_ok lifecycle_ok\<close>)

lemma toast_reach_ok: "toast_reach s \<Longrightarrow> toast_ok s"
proof (induction rule: toast_reach.induct)
  case start
  show ?case by (rule toast_init_ok)
next
  case (more s t)
  from more.hyps(2) show ?case by (rule toast_stepE) (use more.IH toast_do_ok in blast)
qed

end
