(* ===== verification/Toast_Properties.thy ===== *)
theory Toast_Properties
  imports Toast_Lemmas
begin

text \<open>
  The toasts from the start of the page: their invariant, when showing one never returns, what the limit of a container
  does to the toast that is shown, and the time a toast stays while it is held.
\<close>

text \<open>
  In every state the toasts can reach: the ids are distinct and were given out; the timer of a toast runs exactly when
  the user neither keeps nor holds it, and it is held exactly while the pointer or the focus is on it; a persistent
  toast has no timer; no two toasts have one coalescing key; and a container with more than five toasts holds
  persistent ones only.
\<close>
theorem toasts_stay_consistent:
  assumes "toast_reach s"
  shows "distinct (map fst (tt_toasts s)) \<and> (\<forall>i. map_of (tt_toasts s) i \<noteq> None \<longrightarrow> 1 \<le> i \<and> i \<le> tt_sequence s)
    \<and> (\<forall>(i, t) \<in> set (tt_toasts s). timer_ok t) \<and> keys_once s \<and> children_bounded s"
  using toast_reach_ok [OF assms] by (force simp: toast_ok_def ids_ok_def dest: map_of_SomeD)

text \<open>
  A toast for a container never comes back, and the page hangs, exactly when it is to be shown in the panel of a session
  (which holds the node of the upload results) and four toasts are there: the node is told to go without end. In every
  other container the loop ends.
\<close>
theorem fifth_panel_toast_hangs:
  assumes "toast_reach s" "c \<noteq> []"
  shows "showToast now g c item countdown persistent lifecycle s = None
    \<longleftrightarrow> \<not> (js_trim item \<noteq> [] \<and> notificationTargetIsFocused g (js_trim item)) \<and> c \<in> set (tg_uploads g) \<and> 4 \<le> length (toast_children c s)"
proof -
  let ?s = "appended g c item lifecycle persistent s"
  note ok = toast_reach_ok [OF assms(1)]
  have ids: "distinct (map fst (tt_toasts ?s))" "0 \<notin> fst ` set (tt_toasts ?s)"
    using toast_okD(5,6,7) [OF ok] by (simp_all add: appended_def)
  have len: "length (toast_children c ?s) = Suc (length (toast_children c s))"
    by (simp add: toast_children_def appended_def new_toast_def)
  have "evictToasts (tg_uploads g) c ?s = None \<longleftrightarrow> c \<in> set (tg_uploads g) \<and> 4 \<le> length (toast_children c s)"
    using evict_upload [OF _ ids(2)] evict_alone [OF _ ids(1)] len by (cases "c \<in> set (tg_uploads g)") auto
  then show ?thesis using assms(2)
    by (auto simp: show_alt first_text_def Let_def split: option.splits)
qed

text \<open>
  In a container of toasts alone, a toast is shown behind the others; with five of them the oldest one that is not
  persistent gives way.
\<close>
theorem sixth_toast_takes_oldest:
  assumes "toast_reach s" "c \<noteq> []" "c \<notin> set (tg_uploads g)" "js_trim item = []"
    and five: "length (toast_children c s) = 5" and oldest: "transient c s = i # rest"
  shows "\<exists>t. showToast now g c item countdown persistent lifecycle s = Some (t, Some (Suc (tt_sequence s)))
    \<and> map fst (toast_children c t) = filter (\<lambda>j. j \<noteq> i) (map fst (toast_children c s)) @ [Suc (tt_sequence s)]"
proof -
  let ?s = "appended g c item lifecycle persistent s"
  let ?n = "Suc (tt_sequence s)"
  note ok = toast_reach_ok [OF assms(1)]
  have kids: "toast_children c ?s = toast_children c s @ [(?n, new_toast g c (js_trim item) lifecycle persistent)]"
    by (simp add: toast_children_def appended_def new_toast_def)
  have "transient c ?s = transient c s @ (if persistent then [] else [?n])"
    by (simp add: transient_def kids new_toast_def)
  then have ev: "evicted c ?s = [i]" using five oldest by (simp add: evicted_def kids)
  have dist: "distinct (map fst (tt_toasts ?s))" using toast_okD(5,7) [OF ok] by (simp add: appended_def)
  have e: "evictToasts (tg_uploads g) c ?s = Some (keep_toasts (\<lambda>j. j \<noteq> i) ?s)"
    using evict_alone [OF assms(3) dist] ev by simp
  have "i \<in> set (transient c s)" using oldest by simp
  then have "i \<in> fst ` set (tt_toasts s)" by (auto simp: transient_def toast_children_def)
  then have other: "?n \<noteq> i" using toast_okD(7) [OF ok] by metis
  have there: "?n \<in> fst ` set (tt_toasts (keep_toasts (\<lambda>j. j \<noteq> i) ?s))" using other by (force simp: keep_toasts_def appended_def)
  have ids: "map fst (toast_children c (keep_toasts (\<lambda>j. j \<noteq> i) ?s)) = filter (\<lambda>j. j \<noteq> i) (map fst (toast_children c s)) @ [?n]"
    using other by (simp add: children_keep kids filter_map comp_def)
  have armed: "map fst (toast_children c (modToast ?n (armed now k) r)) = map fst (toast_children c r)" for k r
    by (subst children_mod) (auto simp: same_place_def armed_def comp_def case_prod_unfold)
  show ?thesis
    using e there ids armed assms(2,4)
    by (cases persistent) (simp_all add: show_alt first_text_def schedule_alt)
qed

text \<open>
  Five persistent notices in a container hide what comes after them: a later toast is taken from the page as soon as it
  is put there, and what is left of it is a record that waits for its timer.
\<close>
theorem toast_lost_behind_notices:
  assumes "toast_reach s" "c \<noteq> []" "c \<notin> set (tg_uploads g)" "js_trim item = []"
    and full: "length (toast_children c s) = 5" and notices: "transient c s = []"
  shows "\<exists>t. showToast now g c item countdown False lifecycle s = Some (t, Some (Suc (tt_sequence s)))
    \<and> toast_children c t = toast_children c s \<and> \<not> on_page (Suc (tt_sequence s)) t \<and> toast_possible (ToastTimer (Suc (tt_sequence s))) t"
proof -
  let ?s = "appended g c item lifecycle False s"
  let ?n = "Suc (tt_sequence s)"
  let ?node = "new_toast g c (js_trim item) lifecycle False"
  note ok = toast_reach_ok [OF assms(1)]
  have kids: "toast_children c ?s = toast_children c s @ [(?n, ?node)]"
    by (simp add: toast_children_def appended_def new_toast_def)
  have "transient c ?s = [?n]" using notices by (simp add: transient_def kids new_toast_def)
  then have ev: "evicted c ?s = [?n]" using full by (simp add: evicted_def kids)
  have dist: "distinct (map fst (tt_toasts ?s))" using toast_okD(5,7) [OF ok] by (simp add: appended_def)
  have fresh: "?n \<notin> fst ` set (tt_toasts s)" by (rule toast_okD(7) [OF ok])
  have "filter (\<lambda>x. fst x \<noteq> ?n) (tt_toasts s) = tt_toasts s" using fresh by (intro filter_True) (auto simp: image_iff)
  then have gone: "keep_toasts (\<lambda>j. j \<noteq> ?n) ?s = s\<lparr>tt_sequence := ?n\<rparr>" by (simp add: keep_toasts_def appended_def)
  let ?t = "s\<lparr>tt_sequence := ?n, tt_toasts := tt_toasts s @ [(?n, armed now (toast_time g countdown) (?node\<lparr>ts_attached := False, ts_lifecycle := []\<rparr>))]\<rparr>"
  have "showToast now g c item countdown False lifecycle s = Some (?t, Some ?n)"
    using evict_alone [OF assms(3) dist] ev gone fresh assms(2,4)
    by (simp add: show_alt first_text_def schedule_alt)
  moreover have "toast_children c ?t = toast_children c s" by (simp add: toast_children_def armed_def)
  moreover have "map_of (tt_toasts s) ?n = None" using fresh by (simp add: map_of_eq_None_iff)
  ultimately show ?thesis by (auto simp: on_page_def armed_def map_add_def)
qed

text \<open>
  While a toast is held its end moves by exactly the time it was held: a toast that is due at some time is due that much
  later when the only thing that held it lets go.
\<close>
theorem holding_shifts_the_end:
  assumes "toast_reach s" and t: "map_of (tt_toasts s) i = Some t" and runs: "ts_timer t"
    and times: "ts_startedAt t \<le> a" "a < ts_startedAt t + ts_remaining t" "a \<le> b"
  shows "\<exists>u. map_of (tt_toasts (resumeToastRemoval b i r (pauseToastRemoval a i r s))) i = Some u
    \<and> ts_timer u \<and> ts_startedAt u = b \<and> ts_startedAt u + ts_remaining u = ts_startedAt t + ts_remaining t + (b - a)"
proof -
  note ok = toast_reach_ok [OF assms(1)]
  have to: "timer_ok t" using t by (intro toast_okD(4) [OF ok]) (rule map_of_SomeD)
  then have free: "\<not> ts_kept t" "\<not> ts_paused t" "\<not> ts_pointer t" "\<not> ts_focus t" using runs by (auto simp: timer_ok_def)
  let ?p = "(set_reason r True t)\<lparr>ts_remaining := max 1 (ts_remaining t - max 0 (a - ts_startedAt t)), ts_timer := False, ts_paused := True\<rparr>"
  have p: "map_of (tt_toasts (pauseToastRemoval a i r s)) i = Some ?p"
    using t free by (simp add: pauseToastRemoval_def modToast_map_of)
  have d: "distinct (map fst (tt_toasts (pauseToastRemoval a i r s)))" by (rule toast_okD(5) [OF pause_ok [OF ok]])
  have k: "\<not> ts_kept ?p" using free by (cases r) (simp_all add: set_reason_def)
  have "map_of (tt_toasts (resumeToastRemoval b i r (pauseToastRemoval a i r s))) i = Some (released b r ?p)"
    using p k by (simp add: resume_alt [OF d] modToast_map_of)
  moreover have "ts_timer (released b r ?p) \<and> ts_startedAt (released b r ?p) = b
      \<and> ts_startedAt (released b r ?p) + ts_remaining (released b r ?p) = ts_startedAt t + ts_remaining t + (b - a)"
    using free times by (cases r) (auto simp: released_def set_reason_def Let_def)
  ultimately show ?thesis by blast
qed

section \<open>Witnesses\<close>

fun toast_run :: "(int \<times> toast_event) list \<Rightarrow> toast_state \<Rightarrow> toast_state option" where
  "toast_run [] s = Some s"
| "toast_run ((now, ev) # rest) s =
     (if toast_possible ev s then (case toast_do now ev s of Some t \<Rightarrow> toast_run rest t | None \<Rightarrow> None) else None)"

lemma toast_run_reach: "toast_reach s \<Longrightarrow> toast_run evs s = Some t \<Longrightarrow> toast_reach t"
proof (induction evs s rule: toast_run.induct)
  case (2 now ev rest s)
  then show ?case by (auto split: if_splits option.splits intro: toast_reach.more toast_event)
qed simp

definition demo_page :: toast_page where
  "demo_page = \<lparr>tg_visible = True, tg_activeTabs = [''1''], tg_panel = ''1'', tg_terminal = [], tg_stacks = [''1''], tg_sessions = [''1''],
     tg_stack = [], tg_alerts = ''alerts'', tg_uploads = [''panel-toasts-1''], tg_inApp = True, tg_system = False, tg_permitted = False,
     tg_duration = 8000\<rparr>"

definition demo_transfers :: "toast_state option" where
  "demo_transfers = toast_run (replicate 4 (0, TransferFailed demo_page ''1'' [])) toast_init"

lemma demo_transfers_facts:
  "demo_transfers \<noteq> None" "length (toast_children ''panel-toasts-1'' (the demo_transfers)) = 4"
  by code_simp+

lemma demo_transfers_reach: "toast_reach (the demo_transfers)"
  using demo_transfers_facts(1) toast_run_reach [OF toast_reach.start] unfolding demo_transfers_def by fastforce

text \<open>Four failed transfers in the panel of one session, and a fifth one hangs the page.\<close>

lemma fifth_panel_toast_hangs_witness:
  "showToast 0 demo_page ''panel-toasts-1'' [] (Some 20000) False [] (the demo_transfers) = None
    \<and> showFileTransferError 0 demo_page ''1'' [] (the demo_transfers) = None"
proof -
  have hang: "showToast 0 demo_page ''panel-toasts-1'' [] (Some 20000) False [] (the demo_transfers) = None"
    using fifth_panel_toast_hangs [OF demo_transfers_reach, of "''panel-toasts-1''" 0 demo_page "[]" "Some 20000" False "[]"]
    by (simp add: demo_transfers_facts js_trim_Nil) (simp add: demo_page_def)
  then show ?thesis
    by (simp add: showFileTransferError_def emitNotification_def Let_def notificationEventDefinitions_def policy_def notificationEventTarget_def
        plain_note_def first_text_def notificationEventKey_def note_countdown_def dismissCoalescedToast_def notificationEventContainer_def)
      (simp add: demo_page_def displayToastContainer_def js_trim_Nil first_text_def)
qed

definition coverage_notice :: "string \<Rightarrow> toast_notice" where
  "coverage_notice path = (plain_note [] (''indexCoverage:'' @ path))\<lparr>nt_key := path\<rparr>"

definition demo_notices :: "toast_state option" where
  "demo_notices = toast_run (map (\<lambda>p. (0, Emitted demo_page IndexCoverage (coverage_notice p))) [''/a'', ''/b'', ''/c'', ''/d'', ''/e'']) toast_init"

definition demo_shown :: "toast_state option" where
  "demo_shown = toast_run [(100, Emitted demo_page StartupTip (plain_note [] ''startup-tip''))] toast_init"

lemma demo_notices_facts:
  "demo_notices \<noteq> None" "length (toast_children ''alerts'' (the demo_notices)) = 5" "transient ''alerts'' (the demo_notices) = []"
  by code_simp+

lemma demo_shown_facts:
  "demo_shown \<noteq> None" "map_of (tt_toasts (the demo_shown)) 1 \<noteq> None" "ts_timer (the (map_of (tt_toasts (the demo_shown)) 1))"
  "ts_startedAt (the (map_of (tt_toasts (the demo_shown)) 1)) = 100" "ts_remaining (the (map_of (tt_toasts (the demo_shown)) 1)) = 8000"
  by code_simp+

lemma demo_reach: "toast_reach (the demo_notices)" "toast_reach (the demo_shown)"
  using demo_notices_facts(1) demo_shown_facts(1) toast_run_reach [OF toast_reach.start]
  unfolding demo_notices_def demo_shown_def by fastforce+

definition demo_updates :: "toast_state option" where
  "demo_updates = toast_run (map (\<lambda>k. (0, Emitted demo_page UpdateEvent (plain_note [] k))) [''a'', ''b'', ''c'', ''d'', ''e'']) toast_init"

lemma demo_updates_facts:
  "demo_updates \<noteq> None" "length (toast_children ''alerts'' (the demo_updates)) = 5"
  "transient ''alerts'' (the demo_updates) = [1, 2, 3, 4, 5]"
  by code_simp+

lemma demo_updates_reach: "toast_reach (the demo_updates)"
  using demo_updates_facts(1) toast_run_reach [OF toast_reach.start] unfolding demo_updates_def by fastforce

lemma toasts_stay_consistent_witness: "keys_once (the demo_updates) \<and> children_bounded (the demo_updates)"
  using toasts_stay_consistent [OF demo_updates_reach] by blast

lemma demo_page_alerts: "''alerts'' \<notin> set (tg_uploads demo_page)" by (simp add: demo_page_def)

lemma sixth_toast_takes_oldest_witness:
  "\<exists>t. showToast 0 demo_page ''alerts'' [] None False [] (the demo_updates) = Some (t, Some (Suc (tt_sequence (the demo_updates))))
    \<and> map fst (toast_children ''alerts'' t)
        = filter (\<lambda>j. j \<noteq> 1) (map fst (toast_children ''alerts'' (the demo_updates))) @ [Suc (tt_sequence (the demo_updates))]"
  by (rule sixth_toast_takes_oldest [OF demo_updates_reach _ demo_page_alerts _ demo_updates_facts(2,3)]) (simp_all add: js_trim_Nil)

text \<open>Five directories whose index is cut off, and the next alert is not seen.\<close>

lemma toast_lost_behind_notices_witness:
  "\<exists>t. showToast 0 demo_page ''alerts'' [] None False [] (the demo_notices) = Some (t, Some (Suc (tt_sequence (the demo_notices))))
    \<and> toast_children ''alerts'' t = toast_children ''alerts'' (the demo_notices)
    \<and> \<not> on_page (Suc (tt_sequence (the demo_notices))) t \<and> toast_possible (ToastTimer (Suc (tt_sequence (the demo_notices)))) t"
  by (rule toast_lost_behind_notices [OF demo_reach(1) _ demo_page_alerts _ demo_notices_facts(2,3)]) (simp_all add: js_trim_Nil)

lemma holding_shifts_the_end_witness:
  "\<exists>u. map_of (tt_toasts (resumeToastRemoval 7000 1 ByPointer (pauseToastRemoval 2000 1 ByPointer (the demo_shown)))) 1 = Some u
    \<and> ts_timer u \<and> ts_startedAt u = 7000 \<and> ts_startedAt u + ts_remaining u = 13100"
proof -
  obtain t where t: "map_of (tt_toasts (the demo_shown)) 1 = Some t" using demo_shown_facts(2) by blast
  then have "ts_timer t" "ts_startedAt t = 100" "ts_remaining t = 8000" using demo_shown_facts(3-5) by simp_all
  then show ?thesis using holding_shifts_the_end [OF demo_reach(2) t, of 2000 7000 ByPointer] by simp
qed

end
