(* ===== verification/Index_Roots.thy ===== *)
theory Index_Roots
  imports Fs_Client Toasts
begin

text \<open>
  The indexed directories of the file explorer (\<open>40_file_explorer_files.js\<close>): the set of roots on this page, the shared
  setting \<open>file_explorer.indexed_dirs\<close> that it follows and that it changes by single additions and removals, the status
  of each root as the backend reports it, the roots that are polled, and the warning about a root whose index is cut off.

  Requests are left to the network: the state keeps the roots that were asked for, the settings that were saved and the
  roots that were dropped, and an answer is a step of its own. \<open>localeCompare\<close> is the collation of the browser: the
  sorting it gives is an argument, of which only that it keeps the elements is used.
\<close>

section \<open>Environment and state\<close>

record index_env =
  ie_home :: string
  ie_collate :: "string list \<Rightarrow> string list"
  ie_refreshSeconds :: int

definition collates :: "index_env \<Rightarrow> bool" where
  "collates e = (\<forall>xs. mset (ie_collate e xs) = mset xs)"

datatype index_status = IndexBuilding | IndexTooLarge | IndexError | IndexStale | IndexReady

text \<open>The answer of the backend; \<open>ip_progressive\<close> is the coverage of a crawl that publishes while it walks.\<close>

record index_progress =
  ig_truncated :: "bool option"
  ig_full :: "bool option"
  ig_published :: nat

record index_payload =
  ip_state :: string
  ip_freshness :: string
  ip_stale :: bool
  ip_index_state :: string
  ip_index_coverage :: string
  ip_progressive :: "index_progress option"
  ip_too_large :: bool
  ip_coverage :: string
  ip_error :: bool
  ip_ready :: bool
  ip_generation :: nat
  ip_completed :: nat

record index_state =
  ix_dirs :: "string list"
  ix_status :: "(string \<times> index_status) list"
  ix_generation :: "(string \<times> nat) list"
  ix_published :: "(string \<times> nat) list"
  ix_poll :: "string list"
  ix_warned :: "string list"
  ix_setting :: "string list"
  ix_migrated :: bool
  ix_stored :: "string list"
  ix_connected :: bool
  ix_refreshTimer :: "int option"
  ix_buildTimer :: "int option"
  ix_asked :: "string list"
  ix_saved :: "string list list"
  ix_dropped :: "string list"
  ix_warnings :: "string list"

definition index_init :: "string list \<Rightarrow> string list \<Rightarrow> bool \<Rightarrow> index_state" where
  "index_init dirs setting migrated =
     \<lparr>ix_dirs = dirs, ix_status = [], ix_generation = [], ix_published = [], ix_poll = [], ix_warned = [], ix_setting = setting,
      ix_migrated = migrated, ix_stored = dirs, ix_connected = False, ix_refreshTimer = None, ix_buildTimer = None,
      ix_asked = [], ix_saved = [], ix_dropped = [], ix_warnings = []\<rparr>"

section \<open>Paths\<close>

definition expandUserPath :: "index_env \<Rightarrow> string \<Rightarrow> string" where
  "expandUserPath e path =
     (let text = js_trim path
      in if text = ''~'' then first_text (ie_home e) text
         else if js_startsWith text ''~/'' then (if ie_home e = [] then text else ie_home e @ drop 1 text)
         else text)"

definition normalizeStoredFileExplorerIndexedDir :: "index_env \<Rightarrow> string \<Rightarrow> string" where
  "normalizeStoredFileExplorerIndexedDir e path =
     (let normalized = normalizeDirectoryPath (expandUserPath e path)
      in if js_startsWith normalized ''/'' then normalized else [])"

definition normalized_dirs :: "index_env \<Rightarrow> string list \<Rightarrow> string list" where
  "normalized_dirs e paths = filter (\<lambda>p. p \<noteq> []) (map (normalizeStoredFileExplorerIndexedDir e) paths)"

text \<open>Each path has one place in the sorted list, and no path starts with itself and a slash.\<close>

definition compactNestedPaths :: "index_env \<Rightarrow> string list \<Rightarrow> string list" where
  "compactNestedPaths e paths =
     (let sorted = ie_collate e (dedupe paths)
      in filter (\<lambda>p. \<not> list_ex (\<lambda>q. js_startsWith p (q @ ''/'')) sorted) sorted)"

definition fileExplorerDirectoryIsIndexed :: "index_env \<Rightarrow> string \<Rightarrow> index_state \<Rightarrow> bool" where
  "fileExplorerDirectoryIsIndexed e path s =
     (let normalized = normalizeStoredFileExplorerIndexedDir e path in normalized \<noteq> [] \<and> normalized \<in> set (ix_dirs s))"

definition fileExplorerIndexedRootList :: "index_env \<Rightarrow> index_state \<Rightarrow> string list" where
  "fileExplorerIndexedRootList e s = compactNestedPaths e (normalized_dirs e (ix_dirs s))"

definition fileExplorerIndexedRootForPath :: "index_env \<Rightarrow> string \<Rightarrow> index_state \<Rightarrow> string" where
  "fileExplorerIndexedRootForPath e path s =
     (let normalized = normalizeStoredFileExplorerIndexedDir e path
      in if normalized = [] then []
         else case sort_key (\<lambda>c. - int (length c))
                (filter (\<lambda>c. c = normalized \<or> pathIsInsideDirectory normalized c) (fileExplorerIndexedRootList e s)) of
                c # _ \<Rightarrow> c
              | [] \<Rightarrow> [])"

definition fileExplorerIndexedAncestor :: "index_env \<Rightarrow> string \<Rightarrow> index_state \<Rightarrow> string" where
  "fileExplorerIndexedAncestor e path s =
     (let normalized = normalizeStoredFileExplorerIndexedDir e path; base = fileExplorerIndexedRootForPath e normalized s
      in if normalized = [] then [] else if base \<noteq> [] \<and> base \<noteq> normalized then base else [])"

section \<open>The verdict of the backend\<close>

definition fileIndexStale :: "index_payload \<Rightarrow> bool" where
  "fileIndexStale p =
     (ip_stale p \<or> ip_freshness p \<in> {''stale'', ''orphaned''} \<or> ip_index_state p = ''stale'' \<or> ip_index_coverage p = ''unverified'')"

definition fileIndexProgressiveStillBuilding :: "index_payload \<Rightarrow> bool" where
  "fileIndexProgressiveStillBuilding p =
     (case ip_progressive p of Some c \<Rightarrow> ig_truncated c = Some False \<and> ig_full c = Some False | None \<Rightarrow> False)"

definition payload_generation :: "index_payload \<Rightarrow> nat" where
  "payload_generation p = (if ip_generation p = 0 then ip_completed p else ip_generation p)"

definition fileIndexPublishedGeneration :: "index_payload \<Rightarrow> nat" where
  "fileIndexPublishedGeneration p =
     (case ip_progressive p of
        Some c \<Rightarrow> if 0 < ig_published c then ig_published c else payload_generation p
      | None \<Rightarrow> payload_generation p)"

definition fileIndexStatusFromPayload :: "index_payload option \<Rightarrow> index_status" where
  "fileIndexStatusFromPayload payload =
     (case payload of
        None \<Rightarrow> IndexBuilding
      | Some p \<Rightarrow>
          if fileIndexProgressiveStillBuilding p then IndexBuilding
          else if ip_too_large p \<or> ip_coverage p = ''partial'' \<or> ip_state p = ''too_large'' then IndexTooLarge
          else if ip_state p = ''error'' \<or> ip_error p then IndexError
          else if fileIndexStale p then IndexStale
          else if ip_ready p \<or> ip_state p = ''ready'' then IndexReady
          else IndexBuilding)"

definition accepted_generation :: "string \<Rightarrow> index_state \<Rightarrow> nat" where
  "accepted_generation path s = (case map_of (ix_generation s) path of Some g \<Rightarrow> g | None \<Rightarrow> 0)"

definition index_safe_generation :: "nat \<Rightarrow> bool" where
  "index_safe_generation g = (0 < g \<and> g < 2 ^ 53)"

section \<open>Polling\<close>

definition syncFileIndexStatusPollInterval :: "index_env \<Rightarrow> index_state \<Rightarrow> index_state" where
  "syncFileIndexStatusPollInterval e s =
     s\<lparr>ix_refreshTimer := (if ix_connected s \<or> ie_refreshSeconds e \<le> 0 then None else Some (ie_refreshSeconds e * 1000)),
       ix_buildTimer := (if ix_poll s = [] \<or> ix_connected s then None else Some (min 1501 (max 1 (ie_refreshSeconds e * 1000))))\<rparr>"

definition refreshFileIndexStatus :: "index_env \<Rightarrow> string \<Rightarrow> index_state \<Rightarrow> index_state" where
  "refreshFileIndexStatus e path s =
     (let normalized = normalizeStoredFileExplorerIndexedDir e path
      in if normalized = [] \<or> normalized \<notin> set (ix_dirs s) then s else s\<lparr>ix_asked := ix_asked s @ [normalized]\<rparr>)"

definition refreshBuildingFileIndexStatuses :: "index_env \<Rightarrow> index_state \<Rightarrow> index_state" where
  "refreshBuildingFileIndexStatuses e s =
     syncFileIndexStatusPollInterval e
       (fold (\<lambda>r s. if r \<notin> set (ix_dirs s) then s\<lparr>ix_poll := removeAll r (ix_poll s)\<rparr> else refreshFileIndexStatus e r s) (ix_poll s) s)"

definition ensureFileIndexStatus :: "index_env \<Rightarrow> string \<Rightarrow> index_state \<Rightarrow> index_state" where
  "ensureFileIndexStatus e path s =
     (let normalized = normalizeStoredFileExplorerIndexedDir e path
      in if normalized = [] \<or> normalized \<notin> set (ix_dirs s) then s
         else if map_of (ix_status s) normalized \<in> {Some IndexReady, Some IndexTooLarge, Some IndexStale} \<or> normalized \<in> set (ix_poll s) then s
         else refreshFileIndexStatus e normalized s)"

text \<open>While the event stream is connected nothing is polled; otherwise the roots are when they can be seen.\<close>

definition refreshAllIndexedDirsStatus :: "index_env \<Rightarrow> bool \<Rightarrow> bool \<Rightarrow> index_state \<Rightarrow> index_state" where
  "refreshAllIndexedDirsStatus e finderVisible searchVisible s =
     (if ix_connected s \<or> (\<not> finderVisible \<and> \<not> searchVisible) then s
      else fold (refreshFileIndexStatus e) (ix_dirs s) s)"

section \<open>Statuses\<close>

definition showFileIndexPartialCoverageWarning :: "index_env \<Rightarrow> string \<Rightarrow> index_state \<Rightarrow> index_state" where
  "showFileIndexPartialCoverageWarning e path s =
     (let normalized = normalizeStoredFileExplorerIndexedDir e path
      in if normalized = [] \<or> normalized \<in> set (ix_warned s) then s
         else s\<lparr>ix_warned := ix_warned s @ [normalized], ix_warnings := ix_warnings s @ [normalized]\<rparr>)"

definition applyFileIndexStatusPayload :: "index_env \<Rightarrow> string \<Rightarrow> index_payload option \<Rightarrow> index_state \<Rightarrow> index_state \<times> bool" where
  "applyFileIndexStatusPayload e path payload s =
     (let r = normalizeStoredFileExplorerIndexedDir e path;
          generation = (case payload of Some p \<Rightarrow> payload_generation p | None \<Rightarrow> 0);
          published = (case payload of Some p \<Rightarrow> fileIndexPublishedGeneration p | None \<Rightarrow> 0);
          status = fileIndexStatusFromPayload payload
      in if r = [] \<or> r \<notin> set (ix_dirs s) then (s, False)
         else if index_safe_generation generation \<and> generation < accepted_generation r s then (s, False)
         else
           let s1 = (if index_safe_generation generation then s\<lparr>ix_generation := AList.update r generation (ix_generation s)\<rparr> else s);
               s2 = s1\<lparr>ix_status := AList.update r status (ix_status s1)\<rparr>;
               s3 = (if status = IndexTooLarge then showFileIndexPartialCoverageWarning e r s2
                     else s2\<lparr>ix_warned := removeAll r (ix_warned s2)\<rparr>);
               s4 = s3\<lparr>ix_poll := (if status = IndexBuilding then push_new (ix_poll s3) r else removeAll r (ix_poll s3))\<rparr>;
               s5 = syncFileIndexStatusPollInterval e s4;
               previous = (case map_of (ix_published s5) r of Some g \<Rightarrow> g | None \<Rightarrow> 0)
           in (if previous < published then s5\<lparr>ix_published := AList.update r published (ix_published s5)\<rparr> else s5, True))"

definition clearFileIndexStatus :: "index_env \<Rightarrow> string \<Rightarrow> index_state \<Rightarrow> index_state" where
  "clearFileIndexStatus e path s =
     (let r = normalizeStoredFileExplorerIndexedDir e path
      in if r = [] then s
         else syncFileIndexStatusPollInterval e
           (s\<lparr>ix_status := AList.delete r (ix_status s), ix_generation := AList.delete r (ix_generation s),
              ix_poll := removeAll r (ix_poll s), ix_warned := removeAll r (ix_warned s)\<rparr>))"

definition markFileIndexRootsRefreshing :: "index_env \<Rightarrow> string list \<Rightarrow> index_state \<Rightarrow> index_state" where
  "markFileIndexRootsRefreshing e roots s =
     syncFileIndexStatusPollInterval e
       (fold (\<lambda>path s.
          let r = normalizeStoredFileExplorerIndexedDir e path
          in if r = [] \<or> r \<notin> set (ix_dirs s) then s
             else refreshFileIndexStatus e r
               (s\<lparr>ix_status := AList.update r IndexBuilding (ix_status s), ix_poll := push_new (ix_poll s) r\<rparr>)) roots s)"

section \<open>Adding and removing directories\<close>

definition writeStoredFileExplorerIndexedDirs :: "index_env \<Rightarrow> index_state \<Rightarrow> index_state" where
  "writeStoredFileExplorerIndexedDirs e s = s\<lparr>ix_stored := dedupe (ie_collate e (normalized_dirs e (ix_dirs s)))\<rparr>"

datatype index_op = AddRoot string | RemoveRoot string | MergeRoots

definition persistIndexedDirsSetting :: "index_env \<Rightarrow> index_op \<Rightarrow> index_state \<Rightarrow> index_state" where
  "persistIndexedDirsSetting e op s =
     (let currentNorm = normalized_dirs e (ix_setting s); known = dedupe currentNorm;
          changed = (case op of
              AddRoot r \<Rightarrow> push_new known r
            | RemoveRoot r \<Rightarrow> removeAll r known
            | MergeRoots \<Rightarrow> foldl push_new known (fileExplorerIndexedRootList e s));
          dirs = compactNestedPaths e changed
      in if compactNestedPaths e currentNorm = dirs then s else s\<lparr>ix_saved := ix_saved s @ [dirs]\<rparr>)"

text \<open>\<open>applying\<close> is set while the page follows the setting: nothing is written back then.\<close>

definition setFileExplorerDirectoryIndexed :: "index_env \<Rightarrow> bool \<Rightarrow> string \<Rightarrow> bool \<Rightarrow> index_state \<Rightarrow> index_state" where
  "setFileExplorerDirectoryIndexed e applying path indexed s =
     (let r = normalizeStoredFileExplorerIndexedDir e path
      in if r = [] then s
         else if indexed \<and> fileExplorerIndexedAncestor e r s \<noteq> [] then s
         else
           let s1 = (if indexed
                 then refreshFileIndexStatus e r
                   (s\<lparr>ix_dirs := compactNestedPaths e (push_new (ix_dirs s) r), ix_status := AList.update r IndexBuilding (ix_status s)\<rparr>)
                 else
                   let s0 = clearFileIndexStatus e r (s\<lparr>ix_dirs := removeAll r (ix_dirs s)\<rparr>)
                   in if applying then s0 else s0\<lparr>ix_dropped := ix_dropped s0 @ [r]\<rparr>);
               s2 = writeStoredFileExplorerIndexedDirs e s1
           in if applying then s2 else persistIndexedDirsSetting e (if indexed then AddRoot r else RemoveRoot r) s2)"

definition toggleFileExplorerDirectoryIndexed :: "index_env \<Rightarrow> string \<Rightarrow> index_state \<Rightarrow> index_state" where
  "toggleFileExplorerDirectoryIndexed e path s =
     (let r = normalizeStoredFileExplorerIndexedDir e path
      in if r = [] then s else setFileExplorerDirectoryIndexed e False r (\<not> fileExplorerDirectoryIsIndexed e r s) s)"

section \<open>Following the setting\<close>

definition desired_roots :: "index_env \<Rightarrow> index_state \<Rightarrow> string list" where
  "desired_roots e s = compactNestedPaths e (normalized_dirs e (ix_setting s))"

definition follow_changes :: "index_env \<Rightarrow> string list \<Rightarrow> string list \<Rightarrow> index_state \<Rightarrow> index_state" where
  "follow_changes e adds removes s =
     fold (\<lambda>d s. let s' = setFileExplorerDirectoryIndexed e True d False s in s'\<lparr>ix_dropped := ix_dropped s' @ [d]\<rparr>) removes
       (fold (\<lambda>d. setFileExplorerDirectoryIndexed e True d True) adds s)"

definition follow_roots :: "index_env \<Rightarrow> bool \<Rightarrow> index_state \<Rightarrow> index_state" where
  "follow_roots e initial s =
     (let desired = desired_roots e s; current = ix_dirs s;
          adds = filter (\<lambda>d. d \<notin> set current) desired; removes = filter (\<lambda>d. d \<notin> set desired) current
      in if adds = [] \<and> removes = [] then (if initial then fold (refreshFileIndexStatus e) desired s else s)
         else
           let s' = follow_changes e adds removes s
           in if initial then fold (refreshFileIndexStatus e) (filter (\<lambda>d. d \<notin> set adds) desired) s' else s')"

definition reconcileIndexedDirsFromSetting :: "index_env \<Rightarrow> bool \<Rightarrow> index_state \<Rightarrow> index_state" where
  "reconcileIndexedDirsFromSetting e initial s =
     (if initial \<and> \<not> ix_migrated s \<and> ix_setting s = [] \<and> ix_dirs s \<noteq> []
      then fold (refreshFileIndexStatus e) (ix_dirs s) ((persistIndexedDirsSetting e MergeRoots s)\<lparr>ix_migrated := True\<rparr>)
      else follow_roots e initial (if initial then s\<lparr>ix_migrated := True\<rparr> else s))"

section \<open>Steps\<close>

datatype index_event =
    DirectoryToggled string
  | StatusAnswered string "index_payload option"
  | RootsChanged "string list"
  | PollTick
  | RefreshTick bool bool
  | RowRendered string
  | SettingsArrived "string list" bool
  | StreamConnected bool

fun index_do :: "index_env \<Rightarrow> index_event \<Rightarrow> index_state \<Rightarrow> index_state" where
  "index_do e (DirectoryToggled path) s = toggleFileExplorerDirectoryIndexed e path s"
| "index_do e (StatusAnswered path payload) s = fst (applyFileIndexStatusPayload e path payload s)"
| "index_do e (RootsChanged roots) s = markFileIndexRootsRefreshing e roots s"
| "index_do e PollTick s = refreshBuildingFileIndexStatuses e s"
| "index_do e (RefreshTick finder search) s = refreshAllIndexedDirsStatus e finder search s"
| "index_do e (RowRendered path) s = ensureFileIndexStatus e path s"
| "index_do e (SettingsArrived list initial) s = reconcileIndexedDirsFromSetting e initial (s\<lparr>ix_setting := list\<rparr>)"
| "index_do e (StreamConnected c) s = syncFileIndexStatusPollInterval e (s\<lparr>ix_connected := c\<rparr>)"

inductive index_reach :: "index_env \<Rightarrow> index_state \<Rightarrow> bool" for e where
  opened: "index_reach e (index_init (dedupe (normalized_dirs e stored)) setting migrated)"
| happened: "index_reach e s \<Longrightarrow> index_reach e (index_do e ev s)"

end
