(* ===== verification/Index_Properties.thy ===== *)
theory Index_Properties
  imports Index_Roots Toast_Lemmas
begin

text \<open>
  The indexed directories: what compacting keeps, the invariant of the polled roots, how the page follows the shared
  setting, and what it writes back.
\<close>

section \<open>Compacting\<close>

definition below :: "string \<Rightarrow> string \<Rightarrow> bool" where
  "below p q = js_startsWith p (q @ ''/'')"

lemma below_longer: "below p q \<Longrightarrow> length q < length p"
  by (auto simp: below_def js_startsWith_iff)

lemma below_trans: "below p q \<Longrightarrow> below q r \<Longrightarrow> below p r"
  by (auto simp: below_def js_startsWith_iff)

lemma collate_set: "collates e \<Longrightarrow> set (ie_collate e xs) = set xs"
  by (metis collates_def set_mset_mset)

lemma set_compact: "collates e \<Longrightarrow> set (compactNestedPaths e xs) = {p \<in> set xs. \<forall>q \<in> set xs. \<not> below p q}"
  by (auto simp: compactNestedPaths_def Let_def collate_set set_dedupe list_ex_iff below_def)

lemma distinct_compact: "collates e \<Longrightarrow> distinct (compactNestedPaths e xs)"
  unfolding compactNestedPaths_def Let_def by (metis collates_def distinct_dedupe distinct_filter mset_eq_imp_distinct_iff)

lemma compact_nil: "collates e \<Longrightarrow> compactNestedPaths e [] = []"
  using set_compact [of e "[]"] by simp

text \<open>What compacting drops is below something it keeps.\<close>

lemma compact_covers:
  assumes "collates e" "p \<in> set xs"
  shows "\<exists>q \<in> set (compactNestedPaths e xs). p = q \<or> below p q"
  using assms(2)
proof (induction "length p" arbitrary: p rule: less_induct)
  case less
  show ?case
  proof (cases "\<forall>q \<in> set xs. \<not> below p q")
    case True
    then show ?thesis using less.prems by (auto simp: set_compact [OF assms(1)])
  next
    case False
    then obtain q where q: "q \<in> set xs" "below p q" by blast
    obtain r where "r \<in> set (compactNestedPaths e xs)" "q = r \<or> below q r"
      using less.hyps [OF below_longer [OF q(2)] q(1)] by blast
    then show ?thesis using q(2) below_trans by blast
  qed
qed

definition antichain :: "string set \<Rightarrow> bool" where
  "antichain A = (\<forall>p \<in> A. \<forall>q \<in> A. \<not> below p q)"

lemma compact_antichain: "collates e \<Longrightarrow> antichain (set (compactNestedPaths e xs))"
  by (auto simp: antichain_def set_compact)

lemma antichain_compact: "collates e \<Longrightarrow> antichain (set xs) \<Longrightarrow> set (compactNestedPaths e xs) = set xs"
  by (auto simp: antichain_def set_compact)

section \<open>Ancestors\<close>

definition plain_root :: "index_env \<Rightarrow> string \<Rightarrow> bool" where
  "plain_root e r = (r \<noteq> [] \<and> normalizeStoredFileExplorerIndexedDir e r = r)"

lemma plain_normal: "plain_root e r \<Longrightarrow> normalizeStoredFileExplorerIndexedDir e r = r"
  by (simp add: plain_root_def)

lemma normalize_directory_shape: "normalizeDirectoryPath p = ''/'' \<or> (normalizeDirectoryPath p \<noteq> [] \<and> last (normalizeDirectoryPath p) \<noteq> CHR ''/'')"
proof -
  let ?t = "dropWhile (\<lambda>c. c = CHR ''/'') (rev p)"
  have "?t = [] \<or> hd ?t \<noteq> CHR ''/''" by (metis (mono_tags) hd_dropWhile)
  then show ?thesis by (auto simp: normalizeDirectoryPath_def Let_def last_rev)
qed

lemma normalize_directory_id: "p = ''/'' \<or> (p \<noteq> [] \<and> last p \<noteq> CHR ''/'') \<Longrightarrow> normalizeDirectoryPath p = p"
proof (elim disjE conjE)
  assume "p \<noteq> []" "last p \<noteq> CHR ''/''"
  then show "normalizeDirectoryPath p = p"
    by (cases p rule: rev_cases) (simp_all add: normalizeDirectoryPath_def Let_def)
qed (simp add: normalizeDirectoryPath_def)

lemma plain_shape:
  assumes "plain_root e r"
  shows "normalizeDirectoryPath r = r" "js_startsWith r ''/''"
proof -
  let ?n = "normalizeDirectoryPath (expandUserPath e r)"
  have "(if js_startsWith ?n ''/'' then ?n else []) = r" "r \<noteq> []"
    using assms by (simp_all add: plain_root_def normalizeStoredFileExplorerIndexedDir_def Let_def)
  then have n: "?n = r" "js_startsWith ?n ''/''" by (auto split: if_splits)
  show "normalizeDirectoryPath r = r" using normalize_directory_id [OF normalize_directory_shape [of "expandUserPath e r"]] n(1) by simp
  show "js_startsWith r ''/''" using n by simp
qed

lemma inside_plain:
  assumes "plain_root e r" "plain_root e q"
  shows "pathIsInsideDirectory r q \<longleftrightarrow> q = ''/'' \<or> r = q \<or> below r q"
  using plain_shape [OF assms(1)] plain_shape [OF assms(2)] by (auto simp: pathIsInsideDirectory_def Let_def below_def)

definition plain_dirs :: "index_env \<Rightarrow> index_state \<Rightarrow> bool" where
  "plain_dirs e s = (\<forall>d \<in> set (ix_dirs s). plain_root e d)"

lemma normalized_plain:
  assumes "\<forall>d \<in> set xs. plain_root e d"
  shows "normalized_dirs e xs = xs"
proof -
  have "map (normalizeStoredFileExplorerIndexedDir e) xs = xs" using assms by (intro map_idI) (simp add: plain_root_def)
  moreover have "filter (\<lambda>p. p \<noteq> []) xs = xs" using assms by (intro filter_True) (auto simp: plain_root_def)
  ultimately show ?thesis by (simp add: normalized_dirs_def)
qed

text \<open>A root that is not indexed has an ancestor when an indexed one is above it, and the root of all is above every other.\<close>

lemma ancestor_iff:
  assumes "collates e" "plain_dirs e s" "plain_root e r" "r \<notin> set (ix_dirs s)"
  shows "fileExplorerIndexedAncestor e r s \<noteq> [] \<longleftrightarrow> (\<exists>q \<in> set (ix_dirs s). q = ''/'' \<or> below r q)"
proof -
  define roots where "roots = compactNestedPaths e (ix_dirs s)"
  have list: "fileExplorerIndexedRootList e s = roots"
    using assms(2) by (simp add: fileExplorerIndexedRootList_def roots_def normalized_plain plain_dirs_def)
  have sub: "set roots \<subseteq> set (ix_dirs s)" by (auto simp: roots_def set_compact [OF assms(1)])
  let ?ok = "\<lambda>c. c = r \<or> pathIsInsideDirectory r c"
  let ?cands = "filter ?ok roots"
  have cand: "?ok c \<longleftrightarrow> c = ''/'' \<or> below r c" if "c \<in> set roots" for c
    using that sub assms(2,3,4) inside_plain [OF assms(3)] by (auto simp: plain_dirs_def)
  have "fileExplorerIndexedAncestor e r s \<noteq> [] \<longleftrightarrow> ?cands \<noteq> []"
  proof (cases "sort_key (\<lambda>c. - int (length c)) ?cands")
    case Nil
    then have "?cands = []" by (metis length_0_conv length_sort)
    then show ?thesis using assms(3) Nil
      by (simp add: fileExplorerIndexedAncestor_def fileExplorerIndexedRootForPath_def Let_def plain_normal list plain_root_def)
  next
    case (Cons c rest)
    then have c: "c \<in> set ?cands" by (metis list.set_intros(1) set_sort)
    then have "c \<noteq> [] \<and> c \<noteq> r" using sub assms(2,4) by (auto simp: plain_dirs_def plain_root_def)
    then show ?thesis using assms(3) Cons c
      by (auto simp: fileExplorerIndexedAncestor_def fileExplorerIndexedRootForPath_def Let_def plain_normal list plain_root_def)
  qed
  also have "\<dots> \<longleftrightarrow> (\<exists>c \<in> set roots. c = ''/'' \<or> below r c)" using cand by (auto simp: filter_empty_conv)
  also have "\<dots> \<longleftrightarrow> (\<exists>q \<in> set (ix_dirs s). q = ''/'' \<or> below r q)"
  proof
    assume "\<exists>q \<in> set (ix_dirs s). q = ''/'' \<or> below r q"
    then obtain q where q: "q \<in> set (ix_dirs s)" "q = ''/'' \<or> below r q" by blast
    obtain k where k: "k \<in> set roots" "q = k \<or> below q k" using compact_covers [OF assms(1) q(1)] by (auto simp: roots_def)
    have "q = ''/'' \<Longrightarrow> \<not> below q k" using k(1) sub assms(2) below_longer [of q k] by (auto simp: plain_dirs_def plain_root_def)
    then have "k = ''/'' \<or> below r k" using k(2) q(2) below_trans by blast
    then show "\<exists>c \<in> set roots. c = ''/'' \<or> below r c" using k(1) by blast
  qed (use sub in blast)
  finally show ?thesis .
qed

section \<open>Following the setting\<close>

lemma refresh_frame [simp]:
  "ix_dirs (refreshFileIndexStatus e r s) = ix_dirs s" "ix_setting (refreshFileIndexStatus e r s) = ix_setting s"
  "ix_status (refreshFileIndexStatus e r s) = ix_status s" "ix_poll (refreshFileIndexStatus e r s) = ix_poll s"
  by (simp_all add: refreshFileIndexStatus_def Let_def)

lemma refresh_fold_frame [simp]:
  "ix_dirs (fold (refreshFileIndexStatus e) rs s) = ix_dirs s" "ix_setting (fold (refreshFileIndexStatus e) rs s) = ix_setting s"
  "ix_status (fold (refreshFileIndexStatus e) rs s) = ix_status s" "ix_poll (fold (refreshFileIndexStatus e) rs s) = ix_poll s"
  by (induction rs arbitrary: s) simp_all

lemma persist_frame [simp]:
  "ix_dirs (persistIndexedDirsSetting e op s) = ix_dirs s" "ix_setting (persistIndexedDirsSetting e op s) = ix_setting s"
  "ix_status (persistIndexedDirsSetting e op s) = ix_status s" "ix_poll (persistIndexedDirsSetting e op s) = ix_poll s"
  by (simp_all add: persistIndexedDirsSetting_def Let_def)

lemma write_frame [simp]:
  "ix_dirs (writeStoredFileExplorerIndexedDirs e s) = ix_dirs s" "ix_setting (writeStoredFileExplorerIndexedDirs e s) = ix_setting s"
  "ix_status (writeStoredFileExplorerIndexedDirs e s) = ix_status s" "ix_poll (writeStoredFileExplorerIndexedDirs e s) = ix_poll s"
  by (simp_all add: writeStoredFileExplorerIndexedDirs_def)

lemma sync_frame [simp]:
  "ix_dirs (syncFileIndexStatusPollInterval e s) = ix_dirs s" "ix_setting (syncFileIndexStatusPollInterval e s) = ix_setting s"
  "ix_status (syncFileIndexStatusPollInterval e s) = ix_status s" "ix_poll (syncFileIndexStatusPollInterval e s) = ix_poll s"
  by (simp_all add: syncFileIndexStatusPollInterval_def)

lemma set_indexed_setting [simp]: "ix_setting (setFileExplorerDirectoryIndexed e a r b s) = ix_setting s"
  by (simp add: setFileExplorerDirectoryIndexed_def Let_def clearFileIndexStatus_def)

definition shadowed :: "string \<Rightarrow> string set \<Rightarrow> bool" where
  "shadowed r D = (\<exists>q \<in> D. q = ''/'' \<or> below r q)"

lemma add_dirs:
  assumes "collates e" "plain_dirs e s" "plain_root e r" "r \<notin> set (ix_dirs s)"
  shows "set (ix_dirs (setFileExplorerDirectoryIndexed e True r True s))
    = (if shadowed r (set (ix_dirs s)) then set (ix_dirs s)
       else {p \<in> insert r (set (ix_dirs s)). \<forall>q \<in> insert r (set (ix_dirs s)). \<not> below p q})"
proof -
  have "set (push_new (ix_dirs s) r) = insert r (set (ix_dirs s))" using assms(4) by (simp add: push_new_def)
  then show ?thesis
    using ancestor_iff [OF assms] assms(3,4)
    by (auto simp: insert_absorb setFileExplorerDirectoryIndexed_def Let_def plain_root_def shadowed_def set_compact [OF assms(1)])
qed

lemma remove_dirs:
  assumes "plain_root e r"
  shows "set (ix_dirs (setFileExplorerDirectoryIndexed e True r False s)) = set (ix_dirs s) - {r}"
  using assms by (simp add: setFileExplorerDirectoryIndexed_def Let_def plain_root_def clearFileIndexStatus_def)

lemma removes_dirs:
  assumes "\<forall>r \<in> set rs. plain_root e r"
  shows "set (ix_dirs (fold (\<lambda>d s. let s' = setFileExplorerDirectoryIndexed e True d False s in s'\<lparr>ix_dropped := ix_dropped s' @ [d]\<rparr>) rs s))
    = set (ix_dirs s) - set rs"
  using assms by (induction rs arbitrary: s) (auto simp: Let_def remove_dirs)

lemma adds_within:
  assumes "collates e" "plain_dirs e s" "\<forall>r \<in> set rs. plain_root e r" "distinct rs" "set rs \<inter> set (ix_dirs s) = {}"
  shows "set (ix_dirs (fold (\<lambda>d. setFileExplorerDirectoryIndexed e True d True) rs s)) \<subseteq> set (ix_dirs s) \<union> set rs"
  using assms(2-)
proof (induction rs arbitrary: s)
  case (Cons r rs)
  let ?s = "setFileExplorerDirectoryIndexed e True r True s"
  have step: "set (ix_dirs ?s) \<subseteq> insert r (set (ix_dirs s))" using Cons.prems by (auto simp: add_dirs [OF assms(1)])
  then have "plain_dirs e ?s" "set rs \<inter> set (ix_dirs ?s) = {}" using Cons.prems by (auto simp: plain_dirs_def)
  then show ?case using Cons.IH [of ?s] Cons.prems step by auto
qed simp

text \<open>When no root to add is below a root that is there, and none that is to stay, all are there in the end.\<close>

lemma adds_arrive:
  assumes "collates e" "plain_dirs e s" "\<forall>r \<in> set rs. plain_root e r" "distinct rs" "set rs \<inter> set (ix_dirs s) = {}"
    and K: "K \<subseteq> set (ix_dirs s)"
    and free: "\<forall>p \<in> K \<union> set rs. \<not> shadowed p (set (ix_dirs s) \<union> set rs)"
  shows "K \<union> set rs \<subseteq> set (ix_dirs (fold (\<lambda>d. setFileExplorerDirectoryIndexed e True d True) rs s))"
  using assms(2-)
proof (induction rs arbitrary: s K)
  case (Cons r rs)
  let ?s = "setFileExplorerDirectoryIndexed e True r True s"
  have quiet: "\<forall>p \<in> insert r K. \<not> shadowed p (insert r (set (ix_dirs s)))" using Cons.prems(6) by (auto simp: shadowed_def)
  have step: "set (ix_dirs ?s) \<subseteq> insert r (set (ix_dirs s))" using Cons.prems by (auto simp: add_dirs [OF assms(1)])
  have "insert r K \<subseteq> set (ix_dirs ?s)"
    using Cons.prems quiet by (auto simp: add_dirs [OF assms(1)] shadowed_def)
  moreover have "plain_dirs e ?s" "set rs \<inter> set (ix_dirs ?s) = {}" using Cons.prems step by (auto simp: plain_dirs_def)
  moreover have "\<forall>p \<in> insert r K \<union> set rs. \<not> shadowed p (set (ix_dirs ?s) \<union> set rs)"
    using Cons.prems(6) step by (auto simp: shadowed_def)
  ultimately show ?case using Cons.IH [of ?s "insert r K"] Cons.prems by auto
qed simp

definition plain_setting :: "index_env \<Rightarrow> index_state \<Rightarrow> bool" where
  "plain_setting e s = (\<forall>d \<in> set (desired_roots e s). plain_root e d \<and> d \<noteq> ''/'')"

lemma desired_facts: "collates e \<Longrightarrow> distinct (desired_roots e s)" "collates e \<Longrightarrow> antichain (set (desired_roots e s))"
  by (simp_all add: desired_roots_def distinct_compact compact_antichain)

lemma desired_free:
  assumes "collates e" "plain_setting e s" "p \<in> set (desired_roots e s)" "D \<subseteq> set (desired_roots e s)"
  shows "\<not> shadowed p D"
  using assms(2-) desired_facts(2) [OF assms(1), of s] by (auto simp: shadowed_def antichain_def plain_setting_def)

text \<open>One pass leaves wanted roots only; it leaves all of them when none of them is below a root that goes.\<close>

lemma follow_pass:
  assumes e: "collates e" and d: "plain_dirs e s" and p: "plain_setting e s"
  shows "set (ix_dirs (follow_roots e initial s)) \<subseteq> set (desired_roots e s)"
    and "(\<forall>r \<in> set (desired_roots e s). \<not> shadowed r (set (ix_dirs s) - set (desired_roots e s)))
      \<Longrightarrow> set (ix_dirs (follow_roots e initial s)) = set (desired_roots e s)"
proof -
  let ?E = "desired_roots e s"
  let ?adds = "filter (\<lambda>d. d \<notin> set (ix_dirs s)) ?E"
  let ?removes = "filter (\<lambda>d. d \<notin> set ?E) (ix_dirs s)"
  let ?s1 = "fold (\<lambda>d. setFileExplorerDirectoryIndexed e True d True) ?adds s"
  have a: "\<forall>r \<in> set ?adds. plain_root e r" "distinct ?adds" "set ?adds \<inter> set (ix_dirs s) = {}"
    using p desired_facts(1) [OF e] by (auto simp: plain_setting_def)
  have r: "\<forall>r \<in> set ?removes. plain_root e r" using d by (auto simp: plain_dirs_def)
  let ?same = "?adds = [] \<and> ?removes = []"
  have look: "ix_dirs (follow_roots e initial s) = (if ?same then ix_dirs s else ix_dirs (follow_changes e ?adds ?removes s))"
    by (simp only: follow_roots_def Let_def refresh_fold_frame split: if_split) (simp add: follow_changes_def)
  have dirs: "set (ix_dirs (follow_roots e initial s)) = set (ix_dirs ?s1) - set ?removes"
  proof (cases ?same)
    case True
    then show ?thesis unfolding look if_P [OF True] by simp
  next
    case False
    show ?thesis unfolding look if_not_P [OF False] follow_changes_def by (rule removes_dirs [OF r])
  qed
  have within: "set (ix_dirs ?s1) \<subseteq> set (ix_dirs s) \<union> set ?adds" by (rule adds_within [OF e d a])
  show sub: "set (ix_dirs (follow_roots e initial s)) \<subseteq> set ?E" using dirs within by auto
  assume free: "\<forall>r \<in> set ?E. \<not> shadowed r (set (ix_dirs s) - set ?E)"
  have "\<not> shadowed q (set (ix_dirs s) \<union> set ?adds)" if "q \<in> (set ?E \<inter> set (ix_dirs s)) \<union> set ?adds" for q
  proof -
    have q: "q \<in> set ?E" using that by auto
    have "set (ix_dirs s) \<union> set ?adds \<subseteq> (set (ix_dirs s) - set ?E) \<union> set ?E" by auto
    moreover have "\<not> shadowed q (set (ix_dirs s) - set ?E)" "\<not> shadowed q (set ?E)"
      using free q desired_free [OF e p q order_refl] by blast+
    ultimately show ?thesis unfolding shadowed_def by blast
  qed
  then have "(set ?E \<inter> set (ix_dirs s)) \<union> set ?adds \<subseteq> set (ix_dirs ?s1)"
    by (intro adds_arrive [OF e d a]) auto
  then have "set ?E \<subseteq> set (ix_dirs (follow_roots e initial s))" using dirs by auto
  then show "set (ix_dirs (follow_roots e initial s)) = set ?E" using sub by blast
qed

lemma reconcile_pass:
  assumes "\<not> (initial \<and> \<not> ix_migrated s \<and> ix_setting s = [] \<and> ix_dirs s \<noteq> [])"
  obtains s' where "reconcileIndexedDirsFromSetting e initial s = follow_roots e initial s'" "ix_dirs s' = ix_dirs s" "ix_setting s' = ix_setting s"
  using that [of "if initial then s\<lparr>ix_migrated := True\<rparr> else s"] assms
  unfolding reconcileIndexedDirsFromSetting_def if_not_P [OF assms] by simp

lemma desired_cong: "ix_setting s' = ix_setting s \<Longrightarrow> desired_roots e s' = desired_roots e s"
  by (simp add: desired_roots_def)

text \<open>
  The page follows the shared setting in one pass as long as no directory of the setting lies in an indexed one that the
  setting no longer names.
\<close>
theorem setting_followed_in_one_pass:
  assumes "collates e" "plain_dirs e s" "plain_setting e s"
    and "\<not> (initial \<and> \<not> ix_migrated s \<and> ix_setting s = [] \<and> ix_dirs s \<noteq> [])"
    and "\<forall>r \<in> set (desired_roots e s). \<not> shadowed r (set (ix_dirs s) - set (desired_roots e s))"
  shows "set (ix_dirs (reconcileIndexedDirsFromSetting e initial s)) = set (desired_roots e s)"
proof (rule reconcile_pass [OF assms(4), of e])
  fix s' assume s': "reconcileIndexedDirsFromSetting e initial s = follow_roots e initial s'" "ix_dirs s' = ix_dirs s" "ix_setting s' = ix_setting s"
  note same = desired_cong [OF s'(3), of e]
  have "plain_dirs e s'" "plain_setting e s'" using assms(2,3) s'(2) same by (simp_all add: plain_dirs_def plain_setting_def)
  then show ?thesis using follow_pass(2) [OF assms(1)] assms(5) s' same by simp
qed

lemma changes_frame: "ix_setting (follow_changes e adds removes s) = ix_setting s"
proof -
  have add: "ix_setting (fold (\<lambda>d. setFileExplorerDirectoryIndexed e True d True) ds s) = ix_setting s" for ds s
    by (induction ds arbitrary: s) simp_all
  have remove: "ix_setting (fold (\<lambda>d s. let s' = setFileExplorerDirectoryIndexed e True d False s in s'\<lparr>ix_dropped := ix_dropped s' @ [d]\<rparr>) ds s) = ix_setting s" for ds s
    by (induction ds arbitrary: s) (simp_all add: Let_def)
  show ?thesis unfolding follow_changes_def remove add by (rule refl)
qed

lemma follow_frame: "ix_setting (follow_roots e initial s) = ix_setting s"
  by (simp add: follow_roots_def Let_def changes_frame)

lemma refresh_migrated: "ix_migrated (fold (refreshFileIndexStatus e) rs s) = ix_migrated s"
  by (induction rs arbitrary: s) (simp_all add: refreshFileIndexStatus_def Let_def)

text \<open>Whatever the page had, a second pass over the same setting gives exactly the directories of the setting.\<close>
theorem setting_followed_in_two_passes:
  assumes e: "collates e" and d: "plain_dirs e s" and p: "plain_setting e s"
  shows "set (ix_dirs (reconcileIndexedDirsFromSetting e j (reconcileIndexedDirsFromSetting e i s))) = set (desired_roots e s)"
proof -
  let ?s1 = "reconcileIndexedDirsFromSetting e i s"
  show ?thesis
  proof (cases "i \<and> \<not> ix_migrated s \<and> ix_setting s = [] \<and> ix_dirs s \<noteq> []")
    case True
    have s1: "ix_dirs ?s1 = ix_dirs s" "ix_setting ?s1 = []" "ix_migrated ?s1"
      using True unfolding reconcileIndexedDirsFromSetting_def if_P [OF True] by (simp_all add: refresh_migrated)
    have none: "desired_roots e ?s1 = []" "desired_roots e s = []"
      using s1(2) True by (simp_all add: desired_roots_def normalized_dirs_def compact_nil [OF e])
    have "set (ix_dirs (reconcileIndexedDirsFromSetting e j ?s1)) = set (desired_roots e ?s1)"
      using d s1 none by (intro setting_followed_in_one_pass [OF e]) (auto simp: plain_dirs_def plain_setting_def)
    then show ?thesis using none by simp
  next
    case False
    obtain s' where s': "?s1 = follow_roots e i s'" "ix_dirs s' = ix_dirs s" "ix_setting s' = ix_setting s"
      by (rule reconcile_pass [OF False])
    note same = desired_cong [OF s'(3), of e]
    have pl: "plain_dirs e s'" "plain_setting e s'" using d p s'(2) same by (simp_all add: plain_dirs_def plain_setting_def)
    have sub: "set (ix_dirs ?s1) \<subseteq> set (desired_roots e s)" using follow_pass(1) [OF e pl, of i] s'(1) same by simp
    have setting: "ix_setting ?s1 = ix_setting s" using s'(1,3) follow_frame by metis
    note same1 = desired_cong [OF setting, of e]
    have "ix_setting ?s1 = [] \<Longrightarrow> ix_dirs ?s1 = []"
      using sub setting by (simp add: desired_roots_def normalized_dirs_def compact_nil [OF e])
    then have "set (ix_dirs (reconcileIndexedDirsFromSetting e j ?s1)) = set (desired_roots e ?s1)"
      using sub p same1 by (intro setting_followed_in_one_pass [OF e]) (auto simp: plain_dirs_def plain_setting_def shadowed_def)
    then show ?thesis using same1 by simp
  qed
qed

text \<open>
  A directory of the setting that lies in the only indexed one, which the setting no longer names, is neither added (an
  ancestor is still indexed) nor is the ancestor kept: no directory is indexed after the pass, and the same revision of
  the setting is not applied again.
\<close>
theorem narrowed_root_is_lost:
  assumes e: "collates e" and q: "plain_root e q" and r: "plain_root e r" and "below r q"
    and s: "ix_dirs s = [q]" "ix_setting s = [r]"
  shows "ix_dirs (reconcileIndexedDirsFromSetting e False s) = []"
proof -
  have "mset (ie_collate e [r]) = {#r#}" using e by (simp add: collates_def)
  then have one: "ie_collate e [r] = [r]" by (cases "ie_collate e [r]") auto
  have "r \<noteq> q" "\<not> below r r" using \<open>below r q\<close> below_longer by fastforce+
  have desired: "desired_roots e s = [r]"
    using r \<open>\<not> below r r\<close> by (simp add: desired_roots_def s normalized_dirs_def plain_root_def compactNestedPaths_def dedupe_def push_new_def one below_def)
  have plain: "plain_dirs e s" using q by (simp add: plain_dirs_def s)
  have "r \<notin> set (ix_dirs s)" using \<open>r \<noteq> q\<close> by (simp add: s)
  then have "fileExplorerIndexedAncestor e r s \<noteq> []" using ancestor_iff [OF e plain r] \<open>below r q\<close> by (auto simp: s)
  then have skip: "setFileExplorerDirectoryIndexed e True r True s = s" using r by (simp add: setFileExplorerDirectoryIndexed_def plain_root_def)
  show ?thesis
    using q \<open>r \<noteq> q\<close>
    by (simp add: reconcileIndexedDirsFromSetting_def follow_roots_def Let_def desired s(1) follow_changes_def skip)
      (simp add: setFileExplorerDirectoryIndexed_def Let_def plain_root_def clearFileIndexStatus_def s(1))
qed

section \<open>Writing back\<close>

text \<open>
  What the page saves of its own changes keeps every directory of the shared setting but the one that is removed, itself
  or in a directory around it.
\<close>
theorem saving_keeps_other_roots:
  assumes "collates e" "d \<in> set (normalized_dirs e (ix_setting s))" "op \<noteq> RemoveRoot d"
    and saved: "ix_saved (persistIndexedDirsSetting e op s) = ix_saved s @ [dirs]"
  shows "\<exists>q \<in> set dirs. d = q \<or> below d q"
proof -
  have push: "set (foldl push_new xs ys) = set xs \<union> set ys" for xs ys :: "string list" by (rule set_foldl_push_new)
  let ?known = "dedupe (normalized_dirs e (ix_setting s))"
  let ?changed = "case op of AddRoot r \<Rightarrow> push_new ?known r | RemoveRoot r \<Rightarrow> removeAll r ?known | MergeRoots \<Rightarrow> foldl push_new ?known (fileExplorerIndexedRootList e s)"
  have "dirs = compactNestedPaths e ?changed" using saved by (auto simp: persistIndexedDirsSetting_def Let_def split: if_splits)
  moreover have "d \<in> set ?changed" using assms(2,3) by (cases op) (auto simp: push push_new_def)
  ultimately show ?thesis using compact_covers [OF assms(1)] by blast
qed

end
