(* ===== verification/Spec2Isabelle.thy ===== *)
theory Spec2Isabelle
  imports Layout_Properties Layout_Action_Properties Storage_Properties Tmux_Properties Transport_Properties
    Operation_Properties Lifecycle_Properties Client_Stream_Properties Nav_History
    Backend_Health Editor_Properties Stats_Properties Fs_Properties Quick_Properties
    Toast_Properties Index_Properties
begin

text \<open>
  Verification of the client core of yolomux, the browser workspace over tmux sessions. All
  sources are under \<open>src/static_src/js/yolomux/\<close>.

  \<^bold>\<open>The program.\<close> The workspace shows tabs (tmux sessions, files, tool panels: an \<open>item\<close> is their
  string identity) in panes. A pane has a slot name, an ordered tab list, an active tab and a role
  (generic, or a side pane of the left or right edge); the panes hang on the leaves of a binary
  split tree. User actions compute a new layout from the current one and hand it to
  \<open>applyLayoutSlots\<close>, which normalizes it for the viewport. Layouts are stored, put into the URL and
  read back. Beside the layout the client keeps one lifecycle record per generation of a session
  name, so that requests, sources and timers of a session that has been killed or renamed cannot
  act on its successor. The server is reached by requests, of which a page runs a bounded number at
  a time, and it talks back through one stream of events, which carry revisions of resources and the
  terminal results of accepted operations.

  \<^bold>\<open>Theories and sources.\<close>

  \<^item> \<open>Js_Prelude\<close>: strings, splitting, trimming, \<open>push_new\<close>, percent values, and the interfaces
    \<open>delimited_codec\<close>, \<open>invariant_machine\<close> and \<open>counting_machine\<close>.
  \<^item> \<open>Uri_Codec\<close>: \<open>encodeURIComponent\<close>, \<open>decodeURIComponent\<close>, the form decoding of the query
    parser, \<open>readableParamComponent\<close> (\<open>20_layout_state.js\<close>).
  \<^item> \<open>Tab_Model\<close>: tab types, pane roles, item resolution, session labels (\<open>00_bootstrap_state.js\<close>,
    \<open>20_layout_state.js\<close>, \<open>70_layout_actions.js\<close>). The record \<open>env\<close> holds the global variables the
    layout code reads.
  \<^item> \<open>Layout_Tree\<close>, \<open>Layout_Slots\<close>, \<open>Layout_Normalize\<close>: trees, panes and the slot object, and the
    layout transformations up to \<open>canonicalizeSidePaneLayout\<close> (\<open>20_layout_state.js\<close>). A
    \<open>layout_slots\<close> value is the slot object: \<open>lay_tree\<close> its \<open>__tree\<close>, \<open>lay_panes\<close> the panes in
    insertion order.
  \<^item> \<open>Layout_Stored\<close>, \<open>Layout_Url\<close>: reading a stored value, and writing and reading the URL.
  \<^item> \<open>Layout_Actions\<close>, \<open>Layout_Moves\<close>, \<open>Layout_Workspace\<close>: opening, closing, capping, moving,
    splitting and swapping, drop intents, traversal, applying a layout (\<open>70_layout_actions.js\<close>).
  \<^item> \<open>Tmux_Lifecycle\<close>, \<open>Tmux_Sessions\<close>: lifecycle records and transactions, session lists, and the
    runs of \<open>runTmuxSessionMutation\<close> as an inductive step relation in which all runs and all other
    operations interleave.
  \<^item> \<open>Request_Coordinator\<close>: the queue of startup and refresh requests (\<open>10_core_utils.js\<close>).
  \<^item> \<open>Server_Events\<close>: epochs, revisions, keyed patches, repairs, the event queue
    (\<open>99_client_event_transport.js\<close>, \<open>99_terminal_boot.js\<close>, \<open>00_bootstrap_state.js\<close>).
  \<^item> \<open>Operation_Receipts\<close>: receipts, terminal events, waiters, replay and acknowledgements of accepted
    operations (\<open>10_core_utils.js\<close>, \<open>99_client_event_transport.js\<close>).
  \<^item> \<open>Lifecycle_Scope\<close>: the owners of timers, listeners and streams, shared requests, and the resources
    whose newest read wins (\<open>10_core_utils.js\<close>).
  \<^item> \<open>Client_Stream\<close>: the demand of the page and the connection that serves it: active stream,
    candidate, retries, disconnect episodes (\<open>99_client_event_transport.js\<close>). A stream is an index into
    \<open>st_streams\<close>, a timer a number; the streams are owned by a scope of \<open>Lifecycle_Scope\<close>.
    \<open>Client_Stream_Properties\<close> composes the connection with the events of \<open>Server_Events\<close>.
  \<^item> \<open>Backend_Health\<close>: the health indicator: reports ordered by epoch and revision, the displayed
    rows, request failures (\<open>10_core_utils.js\<close>).
  \<^item> \<open>Nav_History\<close>: the history of visited tabs (\<open>87_editor_nav.js\<close>).
  \<^item> \<open>Editor_Files\<close>: one open text file and its disk copy: edits, autosave, the save owner and its queue,
    conflicts, reloads, the missing verdict (\<open>45_file_explorer_actions.js\<close>, \<open>92_codemirror_editor.js\<close>,
    \<open>86_changes_editor.js\<close>, \<open>10_core_utils.js\<close>). The server and other writers are the steps \<open>disk_step\<close>.
    \<open>Editor_Tables\<close> and \<open>Editor_Owner\<close> hold its invariants, \<open>Editor_Properties\<close> its properties.
  \<^item> \<open>Stats_Wire\<close>: the data of the statistics panel and its validation, snapshot chunks and their assembly
    (\<open>84_stats_current.js\<close>); \<open>Stats_Controller\<close>: \<open>createController\<close>: selection, deltas, ticks, repairs, zoom.
    A generation is a \<open>snapshot\<close>; the typed records stand for the exact field lists, and a validator is true
    where the code throws nothing. \<open>Stats_Chunks\<close>, \<open>Stats_Cut\<close>, \<open>Stats_Invariants\<close>, \<open>Stats_Loading\<close> and
    \<open>Stats_Tables\<close> hold the lemmas, \<open>Stats_Properties\<close> the properties.
  \<^item> \<open>Fs_Batch\<close>: the queue of path fetches of the file explorer: chunks, operations, queued products, repairs;
    \<open>Fs_Client\<close>: its cached records, requests and late answers, pushed listings, tombstones and waves of
    repository details (\<open>40_file_explorer_files.js\<close>, \<open>45_file_explorer_actions.js\<close>). An item, a record and a
    request are indices, so an object that is created again is another one. \<open>Fs_Items\<close> shows that no item is
    lost, \<open>Fs_Stranded\<close> that an item outside every list stays open, \<open>Fs_Records\<close>, \<open>Fs_Evolution\<close> and
    \<open>Fs_Hung\<close> that records only move forward, \<open>Fs_Waves\<close> that a wave can hang; \<open>Fs_Properties\<close>: the properties.
  \<^item> \<open>Quick_Search\<close>: the search of the command palette: the fuzzy matcher (\<open>10_core_utils.js\<close>), the mix of the
    first screen, duplicates, changes and the bound of the candidates, the parser of the event stream
    (\<open>20_layout_state.js\<close>). \<open>Quick_Matching\<close>, \<open>Quick_Stream\<close> and \<open>Quick_Candidates\<close> hold the lemmas,
    \<open>Quick_Properties\<close> the properties. The texts are ASCII, and \<open>JSON.parse\<close> is an argument.
  \<^item> \<open>Toasts\<close>: the transient notifications (\<open>20_layout_state.js\<close>): policy, toasts and their timers, containers,
    coalescing, dismissal, browser notifications. A toast is its record together with its node. The loop that
    empties a full container is a partial function, since it can run for ever. \<open>Toast_Lemmas\<close>: the invariant,
    \<open>Toast_Properties\<close>: what the timers and the containers guarantee.
  \<^item> \<open>Index_Roots\<close>: the indexed directories (\<open>40_file_explorer_files.js\<close>): roots, statuses, polling, and the shared
    setting; \<open>Index_Properties\<close>: how the page follows the setting and what it writes back.
  \<^item> \<open>Layout_Invariants\<close>, \<open>Layout_Unique\<close>, \<open>Layout_Restore\<close>, \<open>Layout_Url_Roundtrip\<close>,
    \<open>Layout_Action_Lemmas\<close>, \<open>Tmux_Invariants\<close>, \<open>Tmux_Overtaken\<close>, \<open>Client_Stream_Invariants\<close>: the lemmas behind the properties;
    \<open>Layout_Properties\<close>, \<open>Layout_Action_Properties\<close>, \<open>Storage_Properties\<close>, \<open>Tmux_Properties\<close>,
    \<open>Transport_Properties\<close>, \<open>Operation_Properties\<close>, \<open>Lifecycle_Properties\<close>, \<open>Client_Stream_Properties\<close>: the properties, numbered, with concrete instances.

  \<^bold>\<open>What the lemmas show.\<close> Canonical side-pane placement keeps the items (unless a left
  side pane is an empty placeholder), shows each once and respects the roles; actions change exactly
  the tabs they name and stay within the tab cap, and the overlay offers exactly the drops that are
  carried out, docking beside a full side pane apart; stored layouts and URLs read back; at most one generation of a name and one mutation are live,
  a mutation reaches the server only when the requests of the old record are settled, and one that a
  later mutation overtook never acts again. Requests
  are bounded, settle once and do not starve; an event of a plain resource is accepted once and patches are map updates;
  who waits for an operation is answered once, in whichever order receipt and result arrive. A scope
  disposes what it owns exactly once, only the newest read of a resource counts, no stream is left open
  unowned, and the demand is served as long as streams open. A save that is not
  forced overwrites only what was loaded, and every call to save is answered once. The statistics shown belong to
  the selection and tile its window, a delta is a keyed update applied at most once, chunks assemble to the
  snapshot with merged spans they were cut from, and an empty view is always being loaded. The file explorer keeps every
  open fetch in one of its lists, and neither an overtaken request nor one asked before a push
  publishes. The search finds exactly the subsequences and puts a contiguous occurrence first, its
  stream is read however it is cut, and mixing keeps the ranking but for the first screen. Toasts have one
  identity, one timer and one place each, and the page follows the shared setting of indexed directories
  in at most two passes. Some
  properties are counterexamples: an item lost from an empty side pane, a path lost in the URL,
  records left retired or revived by a failed mutation, a patch lost in the event queue, a demand
  stranded by a failed open, a history position lost by overlapping steps, typed text lost to a
  reload, a drop offered and then refused, a zoom window moved by a refused zoom, a toast that hangs the page, an
  indexed directory lost when the setting is narrowed, and repository details that stop for good.

  \<^bold>\<open>Conventions.\<close> Strings are lists of UTF-8 bytes. Split percentages are exact rationals. The slot
  object keeps insertion order, so slot names that JavaScript orders numerically, the name
  \<open>__tree\<close> and empty names are outside the model. What an operation reads from the clock or from
  the rendered page (times, rectangles) is an argument; what it asks of another component is logged in
  its state. JavaScript objects keep insertion order, so integer-like keys are outside the model.
  A callback that the engine runs later (an answer, a failure, a frame, a timer) is a step of its own
  in the step relations \<open>system_step\<close>, \<open>coordinator_step\<close>, \<open>event_step\<close>, \<open>op_step\<close>,
  \<open>latest_step\<close>, \<open>stream_step\<close>, \<open>connection_step\<close>, \<open>nav_step\<close> (with \<open>nav_calm_step\<close> for the runs
  without overlapping steps), \<open>disk_step\<close>, \<open>stats_step\<close>, \<open>batch_step\<close>, \<open>fs_step\<close> and \<open>toast_step\<close>. All recursion but the eviction of
  toasts is total: the tree reader is
  a \<open>function\<close> with a termination proof by the length of its input, and the search for a fresh slot
  by the number of used names, so no fuel is needed.

  \<^bold>\<open>Not modelled.\<close> DOM construction and patching, terminals and the editor widgets (third-party code and
  glue), the registration of deep-linked files by \<open>resolveLayoutItem\<close>, the server, and the
  generated bundle \<open>src/static/yolomux.js\<close>, which is the concatenation of these sources.
\<close>

end
